(* ===== verification/Prelude_SEM.thy ===== *)
theory Prelude_SEM
  imports Main "HOL-Library.Word" "HOL-Library.List_Lexorder" "HOL-Library.Char_ord"
begin

text \<open>
  Shared vocabulary of the development: C++ exceptions as values, state passing with
  exceptions, the associative containers of the C++ standard library, and the
  conversions \<open>std::to_string\<close> and \<open>std::stoi\<close>.

  \<^item> \<open>exn\<close> has one constructor per exception class the sources throw or catch. A situation
    for which C++ gives no meaning (dereferencing \<open>end()\<close>, a wrong static downcast,
    \<open>Get(0)\<close> on an empty repeated field) or that ends the process (a failed \<open>assert\<close>,
    \<open>std::terminate\<close>) is the constructor \<open>Undefined\<close>, which no \<open>catch\<close> clause of the
    model ever handles.
  \<^item> \<open>('s, 'a) em\<close> is a computation on a state \<open>'s\<close> that returns or throws. A throw
    keeps the state reached so far: C++ does not roll anything back.
  \<^item> \<open>std::unordered_map\<close> and protobuf maps are association lists in iteration order. The
    standard leaves that order open; a new key is appended here, and statements about one
    operation quantify over all lists, hence over all orders.
  \<^item> \<open>std::set\<close> is a strictly sorted list, \<open>begin()\<close> being its head. The order on
    \<open>string\<close> is the lexicographic order on bytes, as in \<open>std::string\<close>.
\<close>

named_theorems pres \<open>rules of the form: a computation preserves an invariant\<close>
named_theorems em_run \<open>equations that run a computation\<close>

section \<open>Exceptions and computations\<close>

datatype exn =
    InvalidArgument string
  | RuntimeError string
  | OutOfRange string
  | RegexError string
  | ZmqError string
  | ShutdownException string
  | TimeoutException string
  | RMIException string
  | LogicError string
  | Undefined string

text \<open>The handlers that occur: \<open>catch (const std::exception&)\<close>, \<open>catch (...)\<close> (both
  reach every exception object), \<open>catch (const std::invalid_argument&)\<close> and
  \<open>catch (const std::runtime_error&)\<close> with its subclasses.\<close>

fun is_std_exception :: "exn \<Rightarrow> bool" where
  "is_std_exception (Undefined _) = False"
| "is_std_exception _ = True"

fun is_invalid_argument :: "exn \<Rightarrow> bool" where
  "is_invalid_argument (InvalidArgument _) = True"
| "is_invalid_argument _ = False"

fun is_runtime_error :: "exn \<Rightarrow> bool" where
  "is_runtime_error (RuntimeError _) = True"
| "is_runtime_error (RegexError _) = True"
| "is_runtime_error (ShutdownException _) = True"
| "is_runtime_error (TimeoutException _) = True"
| "is_runtime_error (RMIException _) = True"
| "is_runtime_error _ = False"

type_synonym ('s, 'a) em = "'s \<Rightarrow> (exn + 'a) \<times> 's"

definition returnE :: "'a \<Rightarrow> ('s, 'a) em" where
  "returnE a = (\<lambda>s. (Inr a, s))"

definition throwE :: "exn \<Rightarrow> ('s, 'a) em" where
  "throwE e = (\<lambda>s. (Inl e, s))"

definition bindE :: "('s, 'a) em \<Rightarrow> ('a \<Rightarrow> ('s, 'b) em) \<Rightarrow> ('s, 'b) em" where
  "bindE m f = (\<lambda>s. case m s of (Inl e, s') \<Rightarrow> (Inl e, s') | (Inr a, s') \<Rightarrow> f a s')"

definition catchE :: "(exn \<Rightarrow> bool) \<Rightarrow> ('s, 'a) em \<Rightarrow> (exn \<Rightarrow> ('s, 'a) em) \<Rightarrow> ('s, 'a) em" where
  "catchE p m h = (\<lambda>s. case m s of
     (Inl e, s') \<Rightarrow> if p e then h e s' else (Inl e, s')
   | (Inr a, s') \<Rightarrow> (Inr a, s'))"

definition getE :: "('s, 's) em" where
  "getE = (\<lambda>s. (Inr s, s))"

definition modifyE :: "('s \<Rightarrow> 's) \<Rightarrow> ('s, unit) em" where
  "modifyE f = (\<lambda>s. (Inr (), f s))"

definition liftE :: "exn + 'a \<Rightarrow> ('s, 'a) em" where
  "liftE r = (\<lambda>s. (r, s))"

definition whenE :: "bool \<Rightarrow> ('s, unit) em \<Rightarrow> ('s, unit) em" where
  "whenE b m = (if b then m else returnE ())"

fun forE :: "'x list \<Rightarrow> ('x \<Rightarrow> ('s, unit) em) \<Rightarrow> ('s, unit) em" where
  "forE [] f = returnE ()"
| "forE (x # xs) f = bindE (f x) (\<lambda>_. forE xs f)"

fun mapE :: "('x \<Rightarrow> ('s, 'y) em) \<Rightarrow> 'x list \<Rightarrow> ('s, 'y list) em" where
  "mapE f [] = returnE []"
| "mapE f (x # xs) = bindE (f x) (\<lambda>y. bindE (mapE f xs) (\<lambda>ys. returnE (y # ys)))"

text \<open>A computation on one half of a pair of states.\<close>

definition on_fst :: "('s, 'a) em \<Rightarrow> ('s \<times> 't, 'a) em" where
  "on_fst m = (\<lambda>(s, t). case m s of (r, s') \<Rightarrow> (r, (s', t)))"

lemmas em_defs = returnE_def throwE_def bindE_def catchE_def getE_def modifyE_def liftE_def
  whenE_def on_fst_def

lemma run_returnE [em_run]: "returnE a s = (Inr a, s)"
  by (simp add: returnE_def)

lemma run_throwE [em_run]: "throwE e s = (Inl e, s)"
  by (simp add: throwE_def)

lemma run_getE [em_run, simp]: "getE s = (Inr s, s)"
  by (simp add: getE_def)

lemma run_modifyE [em_run, simp]: "modifyE f s = (Inr (), f s)"
  by (simp add: modifyE_def)

lemma run_liftE [em_run]: "liftE r s = (r, s)"
  by (simp add: liftE_def)

lemma run_bindE_Inr [em_run]: "m s = (Inr a, s') \<Longrightarrow> bindE m f s = f a s'"
  by (simp add: bindE_def)

lemma run_bindE_Inl [em_run]: "m s = (Inl e, s') \<Longrightarrow> bindE m f s = (Inl e, s')"
  by (simp add: bindE_def)

text \<open>Running a closed computation with the simplifier: the state is pushed through one step at a
  time, and the congruence rules keep the simplifier out of the steps that are not reached yet.\<close>

lemma ev_bindE: "bindE m f s = (case m s of (r, s') \<Rightarrow> case r of Inl e \<Rightarrow> (Inl e, s') | Inr a \<Rightarrow> f a s')"
  by (auto simp: bindE_def split: prod.splits sum.splits)

lemma ev_catchE:
  "catchE p m h s = (case m s of (r, s') \<Rightarrow>
     case r of Inl e \<Rightarrow> if p e then h e s' else (Inl e, s') | Inr a \<Rightarrow> (Inr a, s'))"
  by (auto simp: catchE_def split: prod.splits sum.splits)

lemma ev_whenE: "whenE b m s = (if b then m s else (Inr (), s))"
  by (simp add: whenE_def returnE_def)

lemma ev_forE:
  "forE [] f s = (Inr (), s)"
  "forE (x # xs) f s = (case f x s of (r, s') \<Rightarrow> case r of Inl e \<Rightarrow> (Inl e, s') | Inr _ \<Rightarrow> forE xs f s')"
  by (auto simp: bindE_def returnE_def split: prod.splits sum.splits)

lemma ev_mapE:
  "mapE f [] s = (Inr [], s)"
  "mapE f (x # xs) s = (case f x s of (r, s') \<Rightarrow> case r of Inl e \<Rightarrow> (Inl e, s') | Inr y \<Rightarrow>
     (case mapE f xs s' of (q, s'') \<Rightarrow> case q of Inl e \<Rightarrow> (Inl e, s'') | Inr ys \<Rightarrow> (Inr (y # ys), s'')))"
  by (auto simp: bindE_def returnE_def split: prod.splits sum.splits)

lemma ev_on_fst: "on_fst m (s, t) = (case m s of (r, s') \<Rightarrow> (r, (s', t)))"
  by (simp add: on_fst_def)

lemma ev_branch:
  "(if b then m else n) s = (if b then m s else n s)"
  "(case z of None \<Rightarrow> m | Some a \<Rightarrow> f a) s = (case z of None \<Rightarrow> m s | Some a \<Rightarrow> f a s)"
  by (simp_all split: option.split)

lemmas ev_rules = ev_bindE ev_catchE ev_whenE ev_forE ev_mapE ev_on_fst ev_branch run_returnE run_throwE run_liftE

lemma ev_congs:
  "bindE m f = bindE m f" "catchE p m h = catchE p m h" "on_fst m = on_fst m"
  "b = b' \<Longrightarrow> whenE b m = whenE b' m" "xs = xs' \<Longrightarrow> forE xs k = forE xs' k" "ys = ys' \<Longrightarrow> mapE l ys = mapE l ys'"
  by simp_all

lemmas ev_cong = ev_congs prod.case_cong_weak sum.case_cong_weak option.case_cong_weak list.case_cong_weak if_weak_cong

lemma bindE_InrD:
  assumes "bindE m f s = (Inr b, t)"
  obtains a s' where "m s = (Inr a, s')" "f a s' = (Inr b, t)"
  using assms by (auto simp: bindE_def split: prod.splits sum.splits)

lemma bindE_returnE [simp]: "bindE (returnE a) f = f a"
  by (rule ext) (simp add: em_defs)

lemma bindE_throwE [simp]: "bindE (throwE e) f = throwE e"
  by (rule ext) (simp add: em_defs)

lemma bindE_returnE_right [simp]: "bindE m returnE = m"
  by (rule ext) (auto simp: em_defs split: prod.splits sum.splits)

lemma bindE_assoc: "bindE (bindE m f) g = bindE m (\<lambda>a. bindE (f a) g)"
  by (rule ext) (auto simp: bindE_def split: prod.splits sum.splits)

lemma forE_append: "forE (xs @ ys) f = bindE (forE xs f) (\<lambda>_. forE ys f)"
  by (induction xs) (simp_all add: bindE_assoc)

subsection \<open>Invariants of computations\<close>

text \<open>\<open>preserves I m\<close>: \<open>m\<close> keeps the invariant whether it returns or throws.\<close>

definition preserves :: "('s \<Rightarrow> bool) \<Rightarrow> ('s, 'a) em \<Rightarrow> bool" where
  "preserves I m \<longleftrightarrow> (\<forall>s. I s \<longrightarrow> I (snd (m s)))"

lemma preservesI: "(\<And>s. I s \<Longrightarrow> I (snd (m s))) \<Longrightarrow> preserves I m"
  by (simp add: preserves_def)

lemma preservesD: "preserves I m \<Longrightarrow> I s \<Longrightarrow> m s = (r, s') \<Longrightarrow> I s'"
  by (force simp: preserves_def)

lemma preserves_returnE [pres]: "preserves I (returnE a)"
  by (simp add: preserves_def returnE_def)

lemma preserves_throwE [pres]: "preserves I (throwE e)"
  by (simp add: preserves_def throwE_def)

lemma preserves_getE [pres]: "preserves I getE"
  by (simp add: preserves_def)

lemma preserves_liftE [pres]: "preserves I (liftE r)"
  by (simp add: preserves_def liftE_def)

lemma preserves_modifyE: "(\<And>s. I s \<Longrightarrow> I (f s)) \<Longrightarrow> preserves I (modifyE f)"
  by (simp add: preserves_def)

lemma preserves_bindE [pres]:
  assumes "preserves I m" and "\<And>a. preserves I (f a)"
  shows "preserves I (bindE m f)"
  unfolding preserves_def
proof (intro allI impI)
  fix s assume "I s"
  then have 1: "I (snd (m s))" using assms(1) by (simp add: preserves_def)
  then show "I (snd (bindE m f s))"
    using assms(2) by (auto simp: bindE_def preserves_def split: prod.splits sum.splits)
qed

lemma preserves_catchE [pres]:
  assumes "preserves I m" and "\<And>e. preserves I (h e)"
  shows "preserves I (catchE p m h)"
  unfolding preserves_def
proof (intro allI impI)
  fix s assume "I s"
  then have "I (snd (m s))" using assms(1) by (simp add: preserves_def)
  then show "I (snd (catchE p m h s))"
    using assms(2) by (auto simp: catchE_def preserves_def split: prod.splits sum.splits)
qed

lemma preserves_whenE [pres]: "preserves I m \<Longrightarrow> preserves I (whenE b m)"
  by (simp add: whenE_def preserves_returnE)

lemma preserves_if [pres]: "preserves I m \<Longrightarrow> preserves I n \<Longrightarrow> preserves I (if b then m else n)"
  by simp

lemma preserves_forE [pres]: "(\<And>x. preserves I (f x)) \<Longrightarrow> preserves I (forE xs f)"
  by (induction xs) (auto intro: pres)

lemma preserves_mapE [pres]: "(\<And>x. preserves I (f x)) \<Longrightarrow> preserves I (mapE f xs)"
  by (induction xs) (auto intro!: pres)

lemma preserves_case_option [pres]:
  "preserves I m \<Longrightarrow> (\<And>x. preserves I (f x)) \<Longrightarrow>
   preserves I (case z of None \<Rightarrow> m | Some x \<Rightarrow> f x)"
  by (cases z) auto

lemma preserves_case_list [pres]:
  "preserves I m \<Longrightarrow> (\<And>x xs. preserves I (f x xs)) \<Longrightarrow>
   preserves I (case z of [] \<Rightarrow> m | x # xs \<Rightarrow> f x xs)"
  by (cases z) auto

lemma preserves_case_prod [pres]:
  "(\<And>x y. preserves I (f x y)) \<Longrightarrow> preserves I (case z of (x, y) \<Rightarrow> f x y)"
  by (cases z) auto

lemma preserves_Let [pres]: "(\<And>x. preserves I (f x)) \<Longrightarrow> preserves I (let x = a in f x)"
  by simp

lemma preserves_on_fst [pres]:
  "preserves I m \<Longrightarrow> preserves (\<lambda>(s, t). I s) (on_fst m)"
  by (auto simp: preserves_def on_fst_def split: prod.splits)

section \<open>Associative containers\<close>

type_synonym ('k, 'v) umap = "('k \<times> 'v) list"

definition umap_count :: "('k, 'v) umap \<Rightarrow> 'k \<Rightarrow> bool" where
  "umap_count m k \<longleftrightarrow> map_of m k \<noteq> None"

definition umap_at :: "('k, 'v) umap \<Rightarrow> 'k \<Rightarrow> exn + 'v" where
  "umap_at m k = (case map_of m k of None \<Rightarrow> Inl (OutOfRange ''at'') | Some v \<Rightarrow> Inr v)"

text \<open>\<open>emplace\<close> and \<open>insert\<close> leave a present key alone; \<open>umap_put\<close> is
  \<open>m[k] = v\<close>; \<open>umap_modify\<close> changes the mapped object in place.\<close>

definition umap_emplace :: "'k \<Rightarrow> 'v \<Rightarrow> ('k, 'v) umap \<Rightarrow> ('k, 'v) umap" where
  "umap_emplace k v m = (if umap_count m k then m else m @ [(k, v)])"

definition umap_modify :: "'k \<Rightarrow> ('v \<Rightarrow> 'v) \<Rightarrow> ('k, 'v) umap \<Rightarrow> ('k, 'v) umap" where
  "umap_modify k f m = map (\<lambda>(k', v). (k', if k' = k then f v else v)) m"

definition umap_put :: "'k \<Rightarrow> 'v \<Rightarrow> ('k, 'v) umap \<Rightarrow> ('k, 'v) umap" where
  "umap_put k v m = (if umap_count m k then umap_modify k (\<lambda>_. v) m else m @ [(k, v)])"

definition umap_erase :: "'k \<Rightarrow> ('k, 'v) umap \<Rightarrow> ('k, 'v) umap" where
  "umap_erase k m = filter (\<lambda>(k', _). k' \<noteq> k) m"

abbreviation umap_keys :: "('k, 'v) umap \<Rightarrow> 'k list" where
  "umap_keys m \<equiv> map fst m"

definition umap_wf :: "('k, 'v) umap \<Rightarrow> bool" where
  "umap_wf m \<longleftrightarrow> distinct (umap_keys m)"

lemma umap_count_keys: "umap_count m k \<longleftrightarrow> k \<in> fst ` set m"
  by (auto simp: umap_count_def map_of_eq_None_iff)

lemma umap_count_Nil [simp]: "\<not> umap_count [] k"
  by (simp add: umap_count_def)

lemma map_of_umap_modify [simp]:
  "map_of (umap_modify k f m) k' = (if k' = k then map_option f (map_of m k) else map_of m k')"
  by (induction m) (auto simp: umap_modify_def)

lemma umap_modify_keys [simp]: "umap_keys (umap_modify k f m) = umap_keys m"
  by (auto simp: umap_modify_def)

lemma umap_modify_absent: "\<not> umap_count m k \<Longrightarrow> umap_modify k f m = m"
  by (induction m) (auto simp: umap_modify_def umap_count_def split: if_splits)

lemma umap_modify_id: "(\<And>v. f v = v) \<Longrightarrow> umap_modify k f m = m"
  by (induction m) (auto simp: umap_modify_def)

lemma umap_modify_at:
  "umap_wf m \<Longrightarrow> map_of m k = Some v \<Longrightarrow> umap_modify k f m = umap_modify k (\<lambda>_. f v) m"
  by (auto simp: umap_modify_def umap_wf_def dest: map_of_SomeD eq_key_imp_eq_value)

lemma umap_modify_same: "umap_wf m \<Longrightarrow> map_of m k = Some v \<Longrightarrow> umap_modify k (\<lambda>_. v) m = m"
  by (auto simp: umap_modify_def umap_wf_def intro!: map_idI dest: map_of_SomeD eq_key_imp_eq_value)

lemma set_umap_modifyD:
  "(k', v) \<in> set (umap_modify k f m) \<Longrightarrow>
   (k' = k \<and> (\<exists>u. (k, u) \<in> set m \<and> v = f u)) \<or> (k' \<noteq> k \<and> (k', v) \<in> set m)"
  by (auto simp: umap_modify_def split: if_splits)

lemma umap_count_modify [simp]: "umap_count (umap_modify k f m) k' = umap_count m k'"
  by (auto simp: umap_count_def)

lemma map_of_umap_emplace [simp]:
  "map_of (umap_emplace k v m) k' =
     (if k' = k \<and> \<not> umap_count m k then Some v else map_of m k')"
  by (cases "map_of m k'") (auto simp: umap_emplace_def umap_count_def map_add_def)

lemma map_of_umap_erase [simp]:
  "map_of (umap_erase k m) k' = (if k' = k then None else map_of m k')"
  by (induction m) (auto simp: umap_erase_def)

lemma umap_erase_absent: "\<not> umap_count m k \<Longrightarrow> umap_erase k m = m"
  by (induction m) (auto simp: umap_erase_def umap_count_def split: if_splits)

lemma umap_count_erase [simp]: "umap_count (umap_erase k m) k' \<longleftrightarrow> k' \<noteq> k \<and> umap_count m k'"
  by (auto simp: umap_count_def)

lemma umap_count_emplace [simp]: "umap_count (umap_emplace k v m) k' \<longleftrightarrow> k' = k \<or> umap_count m k'"
  by (auto simp: umap_count_def)

lemma map_of_umap_put [simp]:
  "map_of (umap_put k v m) k' = (if k' = k then Some v else map_of m k')"
  by (cases "map_of m k'") (auto simp: umap_put_def umap_count_def map_add_def)

lemma umap_wf_Nil [simp]: "umap_wf []"
  by (simp add: umap_wf_def)

lemma umap_wf_modify [simp]: "umap_wf (umap_modify k f m) = umap_wf m"
  by (simp add: umap_wf_def)

lemma umap_wf_emplace: "umap_wf m \<Longrightarrow> umap_wf (umap_emplace k v m)"
  by (auto simp: umap_wf_def umap_emplace_def umap_count_keys)

lemma list_all_umap_emplace: "list_all P m \<Longrightarrow> P (k, v) \<Longrightarrow> list_all P (umap_emplace k v m)"
  by (simp add: umap_emplace_def)

lemma list_all_umap_modify:
  "list_all P m \<Longrightarrow> (\<And>v. P (k, v) \<Longrightarrow> P (k, f v)) \<Longrightarrow> list_all P (umap_modify k f m)"
  by (auto simp: list_all_iff dest!: set_umap_modifyD)

lemma list_all_umap_erase: "list_all P m \<Longrightarrow> list_all P (umap_erase k m)"
  by (auto simp: umap_erase_def list_all_iff)

lemma umap_wf_put: "umap_wf m \<Longrightarrow> umap_wf (umap_put k v m)"
  by (auto simp: umap_wf_def umap_put_def umap_count_keys)

lemma umap_wf_erase: "umap_wf m \<Longrightarrow> umap_wf (umap_erase k m)"
  by (induction m) (auto simp: umap_wf_def umap_erase_def)

subsection \<open>Ordered sets\<close>

type_synonym 'a sset = "'a list"

definition sset_insert :: "'a::linorder \<Rightarrow> 'a sset \<Rightarrow> 'a sset" where
  "sset_insert x xs = (if x \<in> set xs then xs else insort x xs)"

definition sset_erase :: "'a \<Rightarrow> 'a sset \<Rightarrow> 'a sset" where
  "sset_erase x xs = filter (\<lambda>y. y \<noteq> x) xs"

definition sset_wf :: "'a::linorder sset \<Rightarrow> bool" where
  "sset_wf xs \<longleftrightarrow> sorted xs \<and> distinct xs"

lemma set_sset_insert [simp]: "set (sset_insert x xs) = insert x (set xs)"
  by (auto simp: sset_insert_def set_insort_key)

lemma set_sset_erase [simp]: "set (sset_erase x xs) = set xs - {x}"
  by (auto simp: sset_erase_def)

lemma sset_wf_Nil [simp]: "sset_wf []"
  by (simp add: sset_wf_def)

lemma sset_wf_insert: "sset_wf xs \<Longrightarrow> sset_wf (sset_insert x xs)"
  by (auto simp: sset_wf_def sset_insert_def distinct_insort sorted_insort)

lemma sset_wf_erase: "sset_wf xs \<Longrightarrow> sset_wf (sset_erase x xs)"
  by (auto simp: sset_wf_def sset_erase_def intro: sorted_filter[where f = "\<lambda>x. x", simplified])

text \<open>A set filled element by element.\<close>

definition sset_of :: "'a::linorder list \<Rightarrow> 'a sset" where
  "sset_of xs = foldl (\<lambda>s x. sset_insert x s) [] xs"

lemma sset_of_foldl:
  "set (foldl (\<lambda>s x. sset_insert x s) s xs) = set s \<union> set xs"
  "sset_wf s \<Longrightarrow> sset_wf (foldl (\<lambda>s x. sset_insert x s) s xs)"
  by (induction xs arbitrary: s) (auto simp: sset_wf_insert)

lemma set_sset_of [simp]: "set (sset_of xs) = set xs"
  by (simp add: sset_of_def sset_of_foldl)

lemma sset_wf_of [simp]: "sset_wf (sset_of xs)"
  by (simp add: sset_of_def sset_of_foldl)

lemma sset_of_Nil_iff [simp]: "sset_of xs = [] \<longleftrightarrow> xs = []"
  by (metis set_empty set_sset_of)

lemma hd_sset_of: "xs \<noteq> [] \<Longrightarrow> hd (sset_of xs) = Min (set xs)"
proof -
  assume "xs \<noteq> []"
  then obtain y ys where ys: "sset_of xs = y # ys" by (cases "sset_of xs") auto
  have "sorted (y # ys)" using sset_wf_of [of xs] ys by (simp add: sset_wf_def)
  then have "Min (set (y # ys)) = y" by (intro Min_eqI) auto
  then show ?thesis using ys set_sset_of [of xs] by simp
qed

subsection \<open>Sums of results\<close>

fun sum_map :: "('a \<Rightarrow> exn + 'b) \<Rightarrow> 'a list \<Rightarrow> exn + 'b list" where
  "sum_map f [] = Inr []"
| "sum_map f (x # xs) =
     (case f x of Inl e \<Rightarrow> Inl e
      | Inr y \<Rightarrow> (case sum_map f xs of Inl e \<Rightarrow> Inl e | Inr ys \<Rightarrow> Inr (y # ys)))"

lemma sum_map_Inr_iff:
  "sum_map f xs = Inr ys \<longleftrightarrow> length ys = length xs \<and> (\<forall>i<length xs. f (xs ! i) = Inr (ys ! i))"
proof (induction xs arbitrary: ys)
  case Nil
  then show ?case by auto
next
  case (Cons x xs)
  show ?case
  proof (cases ys)
    case Nil
    then show ?thesis by (auto split: sum.splits)
  next
    case (Cons z zs)
    have "sum_map f (x # xs) = Inr (z # zs) \<longleftrightarrow> f x = Inr z \<and> sum_map f xs = Inr zs"
      by (auto split: sum.splits)
    also have "\<dots> \<longleftrightarrow> length ys = length (x # xs) \<and> (\<forall>i<length (x # xs). f ((x # xs) ! i) = Inr (ys ! i))"
      unfolding Cons.IH Cons by (auto simp: nth_Cons split: nat.splits)
    finally show ?thesis using Cons by simp
  qed
qed

section \<open>Numbers and strings\<close>

fun digits_of :: "nat \<Rightarrow> string" where
  "digits_of n = (if n < 10 then [char_of (48 + n)]
     else digits_of (n div 10) @ [char_of (48 + n mod 10)])"

declare digits_of.simps [simp del]

definition to_string :: "int \<Rightarrow> string" where
  "to_string i = (if i < 0 then CHR ''-'' # digits_of (nat (- i)) else digits_of (nat i))"

definition is_digit :: "char \<Rightarrow> bool" where
  "is_digit c \<longleftrightarrow> 48 \<le> (of_char c :: nat) \<and> (of_char c :: nat) \<le> 57"

definition is_space :: "char \<Rightarrow> bool" where
  "is_space c \<longleftrightarrow> (of_char c :: nat) = 32 \<or> 9 \<le> (of_char c :: nat) \<and> (of_char c :: nat) \<le> 13"

definition digits_value :: "string \<Rightarrow> nat" where
  "digits_value ds = foldl (\<lambda>acc c. 10 * acc + (of_char c - 48)) 0 ds"

definition int_max :: int where "int_max = 2147483647"
definition int_min :: int where "int_min = - 2147483648"

text \<open>\<open>std::stoi\<close>: white space, an optional sign, the longest run of digits; what
  follows is ignored. No digit is \<open>std::invalid_argument\<close>, a value that does not fit
  an \<open>int\<close> is \<open>std::out_of_range\<close>.\<close>

definition stoi :: "string \<Rightarrow> exn + int" where
  "stoi s =
     (let s1 = dropWhile is_space s;
          (neg, s2) = (case s1 of [] \<Rightarrow> (False, [])
             | c # cs \<Rightarrow> if c = CHR ''-'' then (True, cs)
                        else if c = CHR ''+'' then (False, cs) else (False, c # cs));
          ds = takeWhile is_digit s2;
          v = (if neg then - int (digits_value ds) else int (digits_value ds))
      in if ds = [] then Inl (InvalidArgument ''stoi'')
         else if int_min \<le> v \<and> v \<le> int_max then Inr v
         else Inl (OutOfRange ''stoi''))"

lemma of_char_digit: "n < 10 \<Longrightarrow> (of_char (char_of (48 + n) :: char) :: nat) = 48 + n"
  by simp

lemma digits_of_digits: "c \<in> set (digits_of n) \<Longrightarrow> is_digit c"
proof (induction n rule: digits_of.induct)
  case (1 n)
  show ?case
  proof (cases "n < 10")
    case True
    with "1.prems" show ?thesis by (simp add: digits_of.simps [of n] is_digit_def)
  next
    case False
    with "1.prems" consider "c \<in> set (digits_of (n div 10))" | "c = char_of (48 + n mod 10)"
      by (auto simp: digits_of.simps [of n])
    then show ?thesis
    proof cases
      case 1 with False "1.IH" show ?thesis by simp
    next
      case 2
      have "n mod 10 < 10" by simp
      then show ?thesis using 2 of_char_digit by (simp add: is_digit_def)
    qed
  qed
qed

lemma digits_of_nonempty [simp]: "digits_of n \<noteq> []"
  by (subst digits_of.simps) simp

lemma digits_value_append: "digits_value (ds @ [c]) = 10 * digits_value ds + (of_char c - 48)"
  by (simp add: digits_value_def)

lemma digits_value_digits_of [simp]: "digits_value (digits_of n) = n"
proof (induction n rule: digits_of.induct)
  case (1 n)
  show ?case
  proof (cases "n < 10")
    case True
    then show ?thesis
      by (simp add: digits_of.simps [of n] digits_value_def)
  next
    case False
    then have "digits_value (digits_of (n div 10)) = n div 10"
      by (rule "1.IH")
    moreover have "digits_of n = digits_of (n div 10) @ [char_of (48 + n mod 10)]"
      using False by (simp add: digits_of.simps [of n])
    moreover have "(of_char (char_of (48 + n mod 10) :: char) :: nat) = 48 + n mod 10"
      by (rule of_char_digit) simp
    ultimately show ?thesis by (simp add: digits_value_append)
  qed
qed

lemma digit_not_space: "is_digit c \<Longrightarrow> \<not> is_space c"
  by (auto simp: is_digit_def is_space_def)

lemma digit_not_sign: "is_digit c \<Longrightarrow> c \<noteq> CHR ''-'' \<and> c \<noteq> CHR ''+''"
  by (auto simp: is_digit_def)

lemma takeWhile_digits_of [simp]: "takeWhile is_digit (digits_of n) = digits_of n"
  using digits_of_digits by (simp add: takeWhile_eq_all_conv)

lemma digits_of_Cons: "\<exists>c cs. digits_of n = c # cs \<and> is_digit c"
  using digits_of_nonempty [of n] digits_of_digits [of _ n]
  by (metis list.exhaust list.set_intros(1))

lemma stoi_digits_of: "int n \<le> int_max \<Longrightarrow> stoi (digits_of n) = Inr (int n)"
proof -
  assume n: "int n \<le> int_max"
  obtain c cs where c: "digits_of n = c # cs" "is_digit c" using digits_of_Cons by blast
  have lo: "int_min \<le> int n" by (simp add: int_min_def)
  have tw: "takeWhile is_digit (c # cs) = c # cs" and v: "digits_value (c # cs) = n"
    using takeWhile_digits_of [of n] digits_value_digits_of [of n] by (simp_all only: c(1))
  have "dropWhile is_space (c # cs) = c # cs" using digit_not_space [OF c(2)] by simp
  then have "stoi (c # cs) = Inr (int n)"
    unfolding stoi_def Let_def using digit_not_sign [OF c(2)] n lo v by (simp del: takeWhile.simps add: tw)
  then show ?thesis by (simp only: c(1))
qed

lemma stoi_neg_digits_of: "- int n \<ge> int_min \<Longrightarrow> stoi (CHR ''-'' # digits_of n) = Inr (- int n)"
  by (simp add: stoi_def is_space_def int_max_def)

lemma stoi_to_string: "int_min \<le> i \<Longrightarrow> i \<le> int_max \<Longrightarrow> stoi (to_string i) = Inr i"
  using stoi_digits_of [of "nat i"] stoi_neg_digits_of [of "nat (- i)"]
  by (auto simp: to_string_def)

lemma to_string_nonempty [simp]: "to_string i \<noteq> []"
  by (simp add: to_string_def)

lemma Nil_not_to_string [simp]: "[] \<noteq> to_string i"
  using to_string_nonempty [of i] by metis

lemma inj_to_string: "int_min \<le> i \<Longrightarrow> i \<le> int_max \<Longrightarrow> int_min \<le> j \<Longrightarrow> j \<le> int_max \<Longrightarrow>
  to_string i = to_string j \<Longrightarrow> i = j"
  by (metis stoi_to_string sum.inject(2))

text \<open>A name between single quotes, as the error messages print it.\<close>

definition quoted :: "string \<Rightarrow> string" where
  "quoted s = [CHR 0x27] @ s @ [CHR 0x27]"

text \<open>\<open>zmq::TCPify\<close>.\<close>

definition TCPify :: "string \<Rightarrow> string \<Rightarrow> string" where
  "TCPify ip_address port = ''tcp://'' @ ip_address @ '':'' @ port"

end
