(* ===== verification/UniqueQueue.thy ===== *)
theory UniqueQueue
  imports Prelude_SEM
begin

text \<open>
  \<open>unique_queue<T>\<close> of \<^verbatim>\<open>re/src/environmentmanager/uniquequeue.hpp\<close>: a FIFO queue next to a
  \<open>std::set\<close> of its elements, so that no element is queued twice. The locale
  \<open>unique_fifo\<close> is the contract its users (the port tracker of a node, the manager ports of
  the environment) rely on; the interpretation at the end discharges it for the code.
\<close>

record 'a unique_queue =
  m_queue :: "'a list"
  m_set :: "'a sset"

definition uq_new :: "'a unique_queue" where
  "uq_new = \<lparr>m_queue = [], m_set = []\<rparr>"

definition uq_push :: "'a::linorder \<Rightarrow> 'a unique_queue \<Rightarrow> bool \<times> 'a unique_queue" where
  "uq_push t q =
     (if t \<notin> set (m_set q)
      then (True, q\<lparr>m_set := sset_insert t (m_set q), m_queue := m_queue q @ [t]\<rparr>)
      else (False, q))"

definition uq_front :: "'a unique_queue \<Rightarrow> exn + 'a" where
  "uq_front q = (case m_queue q of [] \<Rightarrow> Inl (Undefined ''front of empty queue'') | x # _ \<Rightarrow> Inr x)"

text \<open>Both assertions of \<open>pop\<close> are \<open>Undefined\<close>: the build either aborts or, with
  \<open>NDEBUG\<close>, runs into undefined behaviour.\<close>

definition uq_pop :: "'a unique_queue \<Rightarrow> exn + 'a unique_queue" where
  "uq_pop q =
     (case uq_front q of
        Inl e \<Rightarrow> Inl (Undefined ''assert(!m_queue.empty())'')
      | Inr val \<Rightarrow>
          if val \<notin> set (m_set q) then Inl (Undefined ''assert(it != m_set.end())'')
          else Inr (q\<lparr>m_set := sset_erase val (m_set q), m_queue := tl (m_queue q)\<rparr>))"

definition uq_empty :: "'a unique_queue \<Rightarrow> bool" where
  "uq_empty q \<longleftrightarrow> m_queue q = []"

text \<open>The representation invariant: the set holds exactly the queued elements, once each.\<close>

definition uq_wf :: "'a::linorder unique_queue \<Rightarrow> bool" where
  "uq_wf q \<longleftrightarrow> distinct (m_queue q) \<and> sset_wf (m_set q) \<and> set (m_set q) = set (m_queue q)"

locale unique_fifo =
  fixes new :: "'q"
    and push :: "'a \<Rightarrow> 'q \<Rightarrow> bool \<times> 'q"
    and pop :: "'q \<Rightarrow> exn + 'q"
    and front :: "'q \<Rightarrow> exn + 'a"
    and is_empty :: "'q \<Rightarrow> bool"
    and items :: "'q \<Rightarrow> 'a list"
    and invar :: "'q \<Rightarrow> bool"
  assumes items_new: "items new = []"
    and invar_new: "invar new"
    and items_distinct: "invar q \<Longrightarrow> distinct (items q)"
    and push_new: "invar q \<Longrightarrow> x \<notin> set (items q) \<Longrightarrow>
          \<exists>q'. push x q = (True, q') \<and> items q' = items q @ [x] \<and> invar q'"
    and push_dup: "invar q \<Longrightarrow> x \<in> set (items q) \<Longrightarrow> push x q = (False, q)"
    and front_hd: "invar q \<Longrightarrow> items q = x # xs \<Longrightarrow> front q = Inr x"
    and pop_tl: "invar q \<Longrightarrow> items q = x # xs \<Longrightarrow> \<exists>q'. pop q = Inr q' \<and> items q' = xs \<and> invar q'"
    and empty_iff: "invar q \<Longrightarrow> is_empty q \<longleftrightarrow> items q = []"
begin

lemma push_invar: "invar q \<Longrightarrow> invar (snd (push x q))"
  using push_new [of q x] push_dup [of q x] by (cases "x \<in> set (items q)") auto

lemma push_set: "invar q \<Longrightarrow> set (items (snd (push x q))) = insert x (set (items q))"
  using push_new [of q x] push_dup [of q x] by (cases "x \<in> set (items q)") auto

lemma take_front:
  assumes "invar q" and "\<not> is_empty q"
  obtains x q' where "front q = Inr x" "pop q = Inr q'" "items q = x # items q'" "invar q'"
proof -
  from assms obtain x xs where x: "items q = x # xs"
    using empty_iff by (cases "items q") auto
  with assms(1) pop_tl obtain q' where "pop q = Inr q'" "items q' = xs" "invar q'" by blast
  with x front_hd [OF assms(1) x] show thesis using that by auto
qed

text \<open>What was taken from the front is no longer queued, and putting it back queues it last.\<close>

lemma taken_not_queued:
  assumes "invar q" "front q = Inr x" "pop q = Inr q'" "\<not> is_empty q"
  shows "x \<notin> set (items q')" and "fst (push x q')" and "items (snd (push x q')) = items q' @ [x]"
proof -
  obtain y q'' where y: "front q = Inr y" "pop q = Inr q''" "items q = y # items q''" "invar q''"
    using take_front [OF assms(1,4)] .
  then have eq: "y = x" "q'' = q'" using assms(2,3) by auto
  from items_distinct [OF assms(1)] y(3) eq show n: "x \<notin> set (items q')" by simp
  from push_new [OF _ n] y(4) eq show "fst (push x q')" "items (snd (push x q')) = items q' @ [x]"
    by auto
qed

end

lemma uq_wf_new [simp]: "uq_wf uq_new"
  by (simp add: uq_wf_def uq_new_def)

lemma uq_wf_push: "uq_wf q \<Longrightarrow> uq_wf (snd (uq_push x q))"
  by (auto simp: uq_wf_def uq_push_def sset_wf_insert)

lemma uq_pop_Cons:
  assumes "uq_wf q" and "m_queue q = x # xs"
  shows "\<exists>q'. uq_pop q = Inr q' \<and> m_queue q' = xs \<and> uq_wf q'"
proof -
  have x: "x \<in> set (m_set q)" using assms by (simp add: uq_wf_def)
  have "uq_pop q = Inr (q\<lparr>m_set := sset_erase x (m_set q), m_queue := xs\<rparr>)"
    using assms(2) x by (simp add: uq_pop_def uq_front_def)
  moreover have "uq_wf (q\<lparr>m_set := sset_erase x (m_set q), m_queue := xs\<rparr>)"
    using assms by (auto simp: uq_wf_def sset_wf_erase)
  ultimately show ?thesis by simp
qed

interpretation uq: unique_fifo uq_new uq_push uq_pop uq_front uq_empty m_queue uq_wf
proof unfold_locales
  fix q :: "'a unique_queue" and x :: 'a
  assume "uq_wf q" "x \<notin> set (m_queue q)"
  then show "\<exists>q'. uq_push x q = (True, q') \<and> m_queue q' = m_queue q @ [x] \<and> uq_wf q'"
    by (auto simp: uq_push_def uq_wf_def sset_wf_insert)
next
  fix q :: "'a unique_queue" and x :: 'a and xs
  assume "uq_wf q" "m_queue q = x # xs"
  then show "\<exists>q'. uq_pop q = Inr q' \<and> m_queue q' = xs \<and> uq_wf q'" by (rule uq_pop_Cons)
qed (auto simp: uq_new_def uq_wf_def uq_push_def uq_front_def uq_empty_def)

text \<open>Filling a queue with a range of distinct numbers, as the constructor of the
  environment does.\<close>

definition uq_push_all :: "'a::linorder list \<Rightarrow> 'a unique_queue \<Rightarrow> 'a unique_queue" where
  "uq_push_all xs q = foldl (\<lambda>q x. snd (uq_push x q)) q xs"

lemma uq_push_all_wf: "uq_wf q \<Longrightarrow> uq_wf (uq_push_all xs q)"
  unfolding uq_push_all_def by (induction xs arbitrary: q) (auto simp: uq_wf_push)

lemma uq_push_all_items:
  "uq_wf q \<Longrightarrow> distinct (m_queue q @ xs) \<Longrightarrow> m_queue (uq_push_all xs q) = m_queue q @ xs"
proof (induction xs arbitrary: q)
  case Nil
  then show ?case by (simp add: uq_push_all_def)
next
  case (Cons x xs)
  then have "x \<notin> set (m_queue q)" by simp
  with uq.push_new [OF Cons.prems(1) this] obtain q' where
    q': "uq_push x q = (True, q')" "m_queue q' = m_queue q @ [x]" "uq_wf q'" by blast
  from Cons.prems(2) q' have "distinct (m_queue q' @ xs)" by simp
  then have "m_queue (uq_push_all xs q') = m_queue q' @ xs" by (rule Cons.IH [OF q'(3)])
  moreover have "uq_push_all (x # xs) q = uq_push_all xs q'"
    using q'(1) by (simp add: uq_push_all_def)
  ultimately show ?case using q'(2) by simp
qed

section \<open>Properties\<close>

text \<open>Any use of the queue: a push, or what the users of the queue do to take an element (test
  \<open>empty\<close>, read \<open>front\<close>, \<open>pop\<close>). The abstract queue is a plain list.\<close>

datatype 'a uq_op = Push 'a | Take

datatype 'a uq_response = Pushed bool | Taken 'a | Nothing | Failed exn

fun uq_step :: "'a::linorder uq_op \<Rightarrow> 'a unique_queue \<Rightarrow> 'a uq_response \<times> 'a unique_queue" where
  "uq_step (Push x) q = (case uq_push x q of (b, q') \<Rightarrow> (Pushed b, q'))"
| "uq_step Take q =
     (if uq_empty q then (Nothing, q)
      else case uq_front q of
        Inl e \<Rightarrow> (Failed e, q)
      | Inr x \<Rightarrow> (case uq_pop q of Inl e \<Rightarrow> (Failed e, q) | Inr q' \<Rightarrow> (Taken x, q')))"

fun fifo_step :: "'a uq_op \<Rightarrow> 'a list \<Rightarrow> 'a uq_response \<times> 'a list" where
  "fifo_step (Push x) xs = (if x \<in> set xs then (Pushed False, xs) else (Pushed True, xs @ [x]))"
| "fifo_step Take [] = (Nothing, [])"
| "fifo_step Take (x # xs) = (Taken x, xs)"

fun run_steps :: "('op \<Rightarrow> 's \<Rightarrow> 'r \<times> 's) \<Rightarrow> 'op list \<Rightarrow> 's \<Rightarrow> 'r list \<times> 's" where
  "run_steps f [] s = ([], s)"
| "run_steps f (op # ops) s =
     (case f op s of (r, s') \<Rightarrow> case run_steps f ops s' of (rs, s'') \<Rightarrow> (r # rs, s''))"

lemma uq_step_fifo:
  assumes "uq_wf q"
  shows "fst (uq_step op q) = fst (fifo_step op (m_queue q))"
    and "m_queue (snd (uq_step op q)) = snd (fifo_step op (m_queue q))" and "uq_wf (snd (uq_step op q))"
proof -
  have "fst (uq_step op q) = fst (fifo_step op (m_queue q)) \<and>
    m_queue (snd (uq_step op q)) = snd (fifo_step op (m_queue q)) \<and> uq_wf (snd (uq_step op q))"
  proof (cases op)
    case (Push x)
    show ?thesis
    proof (cases "x \<in> set (m_queue q)")
      case True
      then show ?thesis using Push uq.push_dup [OF assms True] assms by simp
    next
      case False
      then show ?thesis using Push uq.push_new [OF assms False] by auto
    qed
  next
    case Take
    show ?thesis
    proof (cases "m_queue q")
      case Nil
      then show ?thesis using Take assms by (simp add: uq_empty_def)
    next
      case (Cons x xs)
      then show ?thesis using Take uq.front_hd [OF assms Cons] uq.pop_tl [OF assms Cons] by (auto simp: uq_empty_def)
    qed
  qed
  then show "fst (uq_step op q) = fst (fifo_step op (m_queue q))"
    "m_queue (snd (uq_step op q)) = snd (fifo_step op (m_queue q))" "uq_wf (snd (uq_step op q))" by blast+
qed

text \<open>
  C8. \<open>unique_queue\<close> is a first-in first-out queue without duplicates: on every sequence of pushes
  and takes, from a queue whose set agrees with its list, it answers like the plain list machine
  and ends in the same elements; in particular it never runs into its assertions.
\<close>
theorem uq_refines_fifo:
  assumes "uq_wf q"
  shows "fst (run_steps uq_step ops q) = fst (run_steps fifo_step ops (m_queue q)) \<and>
    m_queue (snd (run_steps uq_step ops q)) = snd (run_steps fifo_step ops (m_queue q))"
  using assms
proof (induction ops arbitrary: q)
  case (Cons op ops)
  from Cons.IH [OF uq_step_fifo(3) [OF Cons.prems]] uq_step_fifo(1,2) [OF Cons.prems]
  show ?case by (simp add: case_prod_beta)
qed simp

theorem uq_refines_fifo_witness:
  "fst (run_steps uq_step [Push (7::int), Push 5, Push 7, Take, Push 7, Take, Take, Take] uq_new) =
     [Pushed True, Pushed True, Pushed False, Taken 7, Pushed True, Taken 5, Taken 7, Nothing]"
proof -
  have "fst (run_steps fifo_step [Push (7::int), Push 5, Push 7, Take, Push 7, Take, Take, Take] []) =
     [Pushed True, Pushed True, Pushed False, Taken 7, Pushed True, Taken 5, Taken 7, Nothing]" by simp
  then show ?thesis
    using uq_refines_fifo [OF uq_wf_new, of "[Push (7::int), Push 5, Push 7, Take, Push 7, Take, Take, Take]"]
    by (simp add: uq_new_def)
qed

end
