(* ===== verification/PortTracker.thy ===== *)
theory PortTracker
  imports UniqueQueue
begin

text \<open>
  \<open>PortTracker\<close> of \<^verbatim>\<open>re/src/environmentmanager/porttracker.h\<close>: the TCP ports of one node that
  are free. \<open>port_pool\<close> is its contract, \<open>lease_step\<close> the protocol of its clients, who
  hand back only what they hold; the clients' exclusion property is proved once in the locale.
\<close>

record port_tracker =
  trk_name :: string
  trk_ip :: string
  trk_component_count :: int
  trk_available_ports :: "int unique_queue"

definition PortTracker_ctor :: "string \<Rightarrow> int unique_queue \<Rightarrow> port_tracker" where
  "PortTracker_ctor ip_address port_set =
     \<lparr>trk_name = '''', trk_ip = ip_address, trk_component_count = 0,
      trk_available_ports = port_set\<rparr>"

text \<open>\<open>front\<close> and \<open>pop\<close> are only reached on a non-empty queue; the two error
  branches keep the queue's \<open>Undefined\<close> visible as the empty string and are excluded by
  the invariant of the queue.\<close>

definition PortTracker_GetPort :: "port_tracker \<Rightarrow> (exn + string) \<times> port_tracker" where
  "PortTracker_GetPort t =
     (if uq_empty (trk_available_ports t) then (Inr '''', t)
      else case uq_front (trk_available_ports t) of
             Inl e \<Rightarrow> (Inl e, t)
           | Inr port \<Rightarrow>
               (case uq_pop (trk_available_ports t) of
                  Inl e \<Rightarrow> (Inl e, t)
                | Inr q \<Rightarrow> (Inr (to_string port), t\<lparr>trk_available_ports := q\<rparr>)))"

text \<open>All three handlers of \<open>FreePort\<close> only print: a string that is no \<open>int\<close> is ignored.\<close>

definition PortTracker_FreePort :: "string \<Rightarrow> port_tracker \<Rightarrow> port_tracker" where
  "PortTracker_FreePort port t =
     (if port = '''' then t
      else case stoi port of
             Inl _ \<Rightarrow> t
           | Inr port_number \<Rightarrow>
               t\<lparr>trk_available_ports := snd (uq_push port_number (trk_available_ports t))\<rparr>)"

definition PortTracker_GetName :: "port_tracker \<Rightarrow> string" where
  "PortTracker_GetName t = trk_name t"

definition PortTracker_SetName :: "string \<Rightarrow> port_tracker \<Rightarrow> port_tracker" where
  "PortTracker_SetName name t = t\<lparr>trk_name := name\<rparr>"

definition PortTracker_GetIp :: "port_tracker \<Rightarrow> string" where
  "PortTracker_GetIp t = trk_ip t"

definition PortTracker_IncrementComponentCount :: "port_tracker \<Rightarrow> port_tracker" where
  "PortTracker_IncrementComponentCount t = t\<lparr>trk_component_count := trk_component_count t + 1\<rparr>"

text \<open>Ports are \<open>int\<close>s, so their decimal strings are read back by \<open>stoi\<close>.\<close>

definition int_range :: "int \<Rightarrow> bool" where
  "int_range p \<longleftrightarrow> int_min \<le> p \<and> p \<le> int_max"

definition tracker_wf :: "port_tracker \<Rightarrow> bool" where
  "tracker_wf t \<longleftrightarrow> uq_wf (trk_available_ports t) \<and> list_all int_range (m_queue (trk_available_ports t))"

definition free_ports :: "port_tracker \<Rightarrow> int list" where
  "free_ports t = m_queue (trk_available_ports t)"

section \<open>The contract of a port pool\<close>

inductive lease_step ::
  "('s \<Rightarrow> string \<times> 's) \<Rightarrow> (string \<Rightarrow> 's \<Rightarrow> 's) \<Rightarrow> 's \<times> string list \<Rightarrow> 's \<times> string list \<Rightarrow> bool"
  for get free where
  acquire: "get s = (p, s') \<Longrightarrow> p \<noteq> '''' \<Longrightarrow> lease_step get free (s, H) (s', p # H)"
| exhausted: "get s = ('''', s') \<Longrightarrow> lease_step get free (s, H) (s', H)"
| release: "p \<in> set H \<Longrightarrow> lease_step get free (s, H) (free p s, remove1 p H)"

inductive leases ::
  "('s \<Rightarrow> string \<times> 's) \<Rightarrow> (string \<Rightarrow> 's \<Rightarrow> 's) \<Rightarrow> 's \<Rightarrow> 's \<times> string list \<Rightarrow> bool"
  for get free s0 where
  start: "leases get free s0 (s0, [])"
| step: "leases get free s0 (s, H) \<Longrightarrow> lease_step get free (s, H) (s', H') \<Longrightarrow>
         leases get free s0 (s', H')"

locale port_pool =
  fixes get :: "'s \<Rightarrow> string \<times> 's"
    and free :: "string \<Rightarrow> 's \<Rightarrow> 's"
    and avail :: "'s \<Rightarrow> int list"
    and invar :: "'s \<Rightarrow> bool"
  assumes avail_distinct: "invar s \<Longrightarrow> distinct (avail s)"
    and avail_range: "invar s \<Longrightarrow> p \<in> set (avail s) \<Longrightarrow> int_range p"
    and get_empty: "invar s \<Longrightarrow> avail s = [] \<Longrightarrow> get s = ('''', s)"
    and get_Cons: "invar s \<Longrightarrow> avail s = p # ps \<Longrightarrow>
          \<exists>s'. get s = (to_string p, s') \<and> avail s' = ps \<and> invar s'"
    and free_port: "invar s \<Longrightarrow> int_range p \<Longrightarrow>
          invar (free (to_string p) s) \<and>
          avail (free (to_string p) s) = (if p \<in> set (avail s) then avail s else avail s @ [p])"
begin

lemma get_then_free:
  assumes "invar s" "get s = (q, s')" "q \<noteq> ''''"
  shows "set (avail (free q s')) = set (avail s)"
proof -
  from assms obtain p ps where p: "avail s = p # ps"
    using get_empty by (cases "avail s") auto
  from get_Cons [OF assms(1) p] assms(2) have s': "q = to_string p" "avail s' = ps" "invar s'"
    by auto
  from avail_range [OF assms(1)] p have "int_range p" by simp
  from free_port [OF s'(3) this] s' p show ?thesis by auto
qed

definition lease_inv :: "'s \<Rightarrow> 's \<times> string list \<Rightarrow> bool" where
  "lease_inv s0 = (\<lambda>(s, H). invar s \<and> distinct H \<and>
     (\<exists>hs. H = map to_string hs \<and> distinct (hs @ avail s) \<and> (\<forall>p\<in>set hs. int_range p) \<and>
           set hs \<union> set (avail s) = set (avail s0)))"

lemma lease_invI:
  assumes "invar s" "distinct (map to_string hs)" "distinct (hs @ avail s)"
    "\<forall>p\<in>set hs. int_range p" "set hs \<union> set (avail s) = set (avail s0)"
  shows "lease_inv s0 (s, map to_string hs)"
  unfolding lease_inv_def using assms by blast

lemma lease_inv_acquire:
  assumes inv: "lease_inv s0 (s, H)" and g: "get s = (q, s')" and q: "q \<noteq> ''''"
  shows "lease_inv s0 (s', q # H)"
proof -
  from inv obtain hs where hs: "invar s" "distinct H" "H = map to_string hs"
    "distinct (hs @ avail s)" "\<forall>p\<in>set hs. int_range p" "set hs \<union> set (avail s) = set (avail s0)"
    by (auto simp: lease_inv_def)
  obtain p ps where p: "avail s = p # ps" using get_empty [OF hs(1)] g q by (cases "avail s") auto
  from get_Cons [OF hs(1) p] g have s': "q = to_string p" "avail s' = ps" "invar s'" by auto
  have pr: "int_range p" using avail_range [OF hs(1)] p by simp
  have "q \<notin> set H"
  proof
    assume "q \<in> set H"
    then obtain r where "r \<in> set hs" "to_string r = to_string p" using hs(3) s'(1) by auto
    then have "r = p" using hs(5) pr inj_to_string by (auto simp: int_range_def)
    with \<open>r \<in> set hs\<close> hs(4) p show False by auto
  qed
  moreover have "q # H = map to_string (p # hs)" using hs(3) s'(1) by simp
  moreover have "distinct ((p # hs) @ avail s')" using hs(4) p s'(2) by auto
  moreover have "set (p # hs) \<union> set (avail s') = set (avail s0)" using hs(6) p s'(2) by auto
  moreover have "distinct (map to_string (p # hs))" using \<open>q \<notin> set H\<close> hs(2,3) s'(1) by simp
  moreover have "\<forall>r\<in>set (p # hs). int_range r" using hs(5) pr by simp
  ultimately show ?thesis using lease_invI [OF s'(3), of "p # hs" s0] by (simp only:)
qed

lemma lease_inv_release:
  assumes inv: "lease_inv s0 (s, H)" and q: "q \<in> set H"
  shows "lease_inv s0 (free q s, remove1 q H)"
proof -
  from inv obtain hs where hs: "invar s" "distinct H" "H = map to_string hs"
    "distinct (hs @ avail s)" "\<forall>p\<in>set hs. int_range p" "set hs \<union> set (avail s) = set (avail s0)"
    by (auto simp: lease_inv_def)
  from q hs(3) obtain p where p: "p \<in> set hs" "q = to_string p" by auto
  have pr: "int_range p" using hs(5) p(1) by simp
  have fr: "invar (free q s)" "avail (free q s) = avail s @ [p]"
    using free_port [OF hs(1) pr] p hs(4) by auto
  have rem: "remove1 q H = map to_string (remove1 p hs)"
  proof -
    have inj: "\<forall>r\<in>set hs. to_string r = to_string p \<longrightarrow> r = p"
      using hs(5) pr inj_to_string by (auto simp: int_range_def)
    then have "remove1 (to_string p) (map to_string hs) = map to_string (remove1 p hs)"
      by (induction hs) auto
    then show ?thesis using hs(3) p(2) by simp
  qed
  have "distinct (remove1 p hs @ avail (free q s))"
    using hs(4) fr(2) p(1) by (auto simp: set_remove1_eq)
  moreover have "set (remove1 p hs) \<union> set (avail (free q s)) = set (avail s0)"
    using hs(4,6) fr(2) p(1) by (auto simp: set_remove1_eq)
  moreover have "\<forall>r\<in>set (remove1 p hs). int_range r"
    using hs(5) set_remove1_subset [of p hs] by blast
  moreover have "distinct (map to_string (remove1 p hs))"
    using distinct_remove1 [OF hs(2), of q] unfolding rem .
  ultimately show ?thesis using lease_invI [OF fr(1), of "remove1 p hs" s0] by (simp only: rem)
qed

lemma lease_inv_reachable: "leases get free s0 sH \<Longrightarrow> invar s0 \<Longrightarrow> lease_inv s0 sH"
proof (induction rule: leases.induct)
  case start
  then show ?case by (simp add: lease_inv_def avail_distinct)
next
  case (step s H s' H')
  then have IH: "lease_inv s0 (s, H)" by simp
  from step.hyps(2) show ?case
  proof cases
    case (acquire p)
    then show ?thesis using IH lease_inv_acquire by simp
  next
    case exhausted
    have "invar s" using IH by (simp add: lease_inv_def)
    then have "avail s = []"
      using get_Cons [of s] exhausted to_string_nonempty by (cases "avail s") auto
    then have "s' = s" using get_empty [OF \<open>invar s\<close>] exhausted by simp
    then show ?thesis using IH exhausted by simp
  next
    case (release p)
    then show ?thesis using IH lease_inv_release by simp
  qed
qed

text \<open>No two holders have the same port, none of the held ports is free, and no port is lost.\<close>

lemma leases_exclusive:
  assumes "leases get free s0 (s, H)" and "invar s0"
  shows "distinct H \<and> set H \<inter> to_string ` set (avail s) = {} \<and>
         set H \<union> to_string ` set (avail s) = to_string ` set (avail s0)"
proof -
  from lease_inv_reachable [OF assms] obtain hs where hs: "invar s" "distinct H" "H = map to_string hs"
    "distinct (hs @ avail s)" "\<forall>p\<in>set hs. int_range p" "set hs \<union> set (avail s) = set (avail s0)"
    by (auto simp: lease_inv_def)
  have "set H \<inter> to_string ` set (avail s) = {}"
  proof (rule ccontr)
    assume "set H \<inter> to_string ` set (avail s) \<noteq> {}"
    then obtain a b where ab: "a \<in> set hs" "b \<in> set (avail s)" "to_string a = to_string b"
      using hs(3) by auto
    then have "a = b" using hs(5) avail_range [OF hs(1)] inj_to_string by (auto simp: int_range_def)
    with ab hs(4) show False by auto
  qed
  moreover have "set H \<union> to_string ` set (avail s) = to_string ` set (avail s0)"
    using hs(3) by (simp add: image_Un [symmetric] hs(6))
  ultimately show ?thesis using hs(2) by simp
qed

end

section \<open>The tracker keeps the contract\<close>

lemma GetPort_empty: "free_ports t = [] \<Longrightarrow> PortTracker_GetPort t = (Inr '''', t)"
  by (simp add: PortTracker_GetPort_def free_ports_def uq_empty_def)

lemma GetPort_Cons:
  assumes "tracker_wf t" and "free_ports t = p # ps"
  shows "\<exists>t'. PortTracker_GetPort t = (Inr (to_string p), t') \<and> free_ports t' = ps \<and> tracker_wf t'"
proof -
  from assms have q: "uq_wf (trk_available_ports t)" "m_queue (trk_available_ports t) = p # ps"
    by (simp_all add: tracker_wf_def free_ports_def)
  from uq.pop_tl [OF q] obtain q' where
    q': "uq_pop (trk_available_ports t) = Inr q'" "m_queue q' = ps" "uq_wf q'" by blast
  have "PortTracker_GetPort t = (Inr (to_string p), t\<lparr>trk_available_ports := q'\<rparr>)"
    using q'(1) uq.front_hd [OF q] q(2) by (simp add: PortTracker_GetPort_def uq_empty_def)
  then show ?thesis using assms q' by (simp add: free_ports_def tracker_wf_def)
qed

lemma GetPort_no_throw:
  assumes "tracker_wf t"
  shows "\<exists>p t'. PortTracker_GetPort t = (Inr p, t') \<and> tracker_wf t'"
  using assms GetPort_empty GetPort_Cons by (cases "free_ports t") blast+

lemma FreePort_to_string:
  assumes "tracker_wf t" and "int_range p"
  shows "tracker_wf (PortTracker_FreePort (to_string p) t)"
    and "free_ports (PortTracker_FreePort (to_string p) t) =
         (if p \<in> set (free_ports t) then free_ports t else free_ports t @ [p])"
proof -
  have st: "stoi (to_string p) = Inr p" using assms(2) by (simp add: int_range_def stoi_to_string)
  have wf: "uq_wf (trk_available_ports t)" using assms(1) by (simp add: tracker_wf_def)
  show "free_ports (PortTracker_FreePort (to_string p) t) =
         (if p \<in> set (free_ports t) then free_ports t else free_ports t @ [p])"
    using st uq.push_new [OF wf] uq.push_dup [OF wf]
    by (fastforce simp: PortTracker_FreePort_def free_ports_def)
  then show "tracker_wf (PortTracker_FreePort (to_string p) t)"
    using assms st uq.push_invar [OF wf]
    by (auto simp: PortTracker_FreePort_def tracker_wf_def free_ports_def split: if_splits)
qed

lemma stoi_range: "stoi s = Inr i \<Longrightarrow> int_range i"
  by (auto simp: stoi_def int_range_def Let_def split: if_splits prod.splits)

lemma FreePort_wf: "tracker_wf t \<Longrightarrow> tracker_wf (PortTracker_FreePort s t)"
proof -
  assume wf: "tracker_wf t"
  then have q: "uq_wf (trk_available_ports t)" by (simp add: tracker_wf_def)
  show ?thesis
  proof (cases "stoi s")
    case (Inr i)
    have "set (m_queue (snd (uq_push i (trk_available_ports t)))) =
          insert i (set (m_queue (trk_available_ports t)))" by (rule uq.push_set [OF q])
    then show ?thesis using wf Inr uq.push_invar [OF q] stoi_range [OF Inr]
      by (auto simp: PortTracker_FreePort_def tracker_wf_def list_all_iff)
  qed (simp add: PortTracker_FreePort_def wf)
qed

text \<open>The pool's \<open>get\<close> drops the error case, which \<open>GetPort_no_throw\<close> excludes.\<close>

definition tracker_get :: "port_tracker \<Rightarrow> string \<times> port_tracker" where
  "tracker_get t = (case PortTracker_GetPort t of (Inl _, t') \<Rightarrow> ('''', t') | (Inr p, t') \<Rightarrow> (p, t'))"

interpretation trk: port_pool tracker_get PortTracker_FreePort free_ports tracker_wf
proof unfold_locales
  fix s
  assume wf: "tracker_wf s"
  then show "distinct (free_ports s)" by (simp add: tracker_wf_def free_ports_def uq_wf_def)
  show "int_range p" if "p \<in> set (free_ports s)" for p
    using wf that by (simp add: tracker_wf_def free_ports_def list_all_iff)
  show "tracker_get s = ('''', s)" if "free_ports s = []"
    using that by (simp add: tracker_get_def GetPort_empty)
  show "\<exists>s'. tracker_get s = (to_string p, s') \<and> free_ports s' = ps \<and> tracker_wf s'"
    if "free_ports s = p # ps" for p ps
    using GetPort_Cons [OF wf that] by (auto simp: tracker_get_def)
  show "tracker_wf (PortTracker_FreePort (to_string p) s) \<and>
      free_ports (PortTracker_FreePort (to_string p) s) =
      (if p \<in> set (free_ports s) then free_ports s else free_ports s @ [p])" if "int_range p" for p
    using FreePort_to_string [OF wf that] by blast
qed

section \<open>Properties\<close>

text \<open>
  C9. The leases of a node are exclusive and none is lost: however clients acquire ports from a
  tracker and release ports they hold, the ports they hold are pairwise different, none of them is
  free, and held and free ports together are exactly the ports the tracker began with.
\<close>
theorem tracker_leases_exclusive:
  assumes "leases tracker_get PortTracker_FreePort t0 (t, H)" and "tracker_wf t0"
  shows "distinct H \<and> set H \<inter> to_string ` set (free_ports t) = {} \<and>
    set H \<union> to_string ` set (free_ports t) = to_string ` set (free_ports t0)"
  using assms by (rule trk.leases_exclusive)

definition demo_tracker :: "int list \<Rightarrow> port_tracker" where
  "demo_tracker ps = PortTracker_ctor ''10.0.0.1'' \<lparr>m_queue = ps, m_set = ps\<rparr>"

theorem tracker_leases_exclusive_witness:
  "distinct [to_string 30001, to_string 30000] \<and>
   set [to_string 30001, to_string 30000] \<inter> to_string ` set (free_ports (demo_tracker [30002])) = {} \<and>
   set [to_string 30001, to_string 30000] \<union> to_string ` set (free_ports (demo_tracker [30002])) =
     to_string ` set (free_ports (demo_tracker [30000, 30001, 30002]))"
proof -
  have t: "tracker_get (demo_tracker [30000, 30001, 30002]) = (to_string 30000, demo_tracker [30001, 30002])"
    "tracker_get (demo_tracker [30001, 30002]) = (to_string 30001, demo_tracker [30002])"
    by (simp_all add: demo_tracker_def tracker_get_def PortTracker_GetPort_def PortTracker_ctor_def uq_empty_def
        uq_front_def uq_pop_def sset_erase_def)
  have "leases tracker_get PortTracker_FreePort (demo_tracker [30000, 30001, 30002])
     (demo_tracker [30002], [to_string 30001, to_string 30000])"
    by (rule leases.step [OF leases.step [OF leases.start]]; rule lease_step.acquire, rule t, simp)
  then show ?thesis
    by (rule tracker_leases_exclusive)
       (simp add: demo_tracker_def tracker_wf_def PortTracker_ctor_def uq_wf_def sset_wf_def int_range_def int_min_def int_max_def)
qed

end
