(* ===== verification/ControlMessage.thy ===== *)
theory ControlMessage
  imports Prelude_SEM
begin

text \<open>
  The messages of \<^verbatim>\<open>re/re_common/proto/controlmessage/controlmessage.proto\<close> as records, and the
  accessors of its \<^verbatim>\<open>helper.cpp\<close>. Enumerations of proto3 are open, so each has a constructor
  for a number the schema does not name; the \<open>default:\<close> branches of the code are reached by
  it. \<open>int64\<close> fields are \<open>64 word\<close>; a \<open>double\<close> is kept as its 64 bits, since the
  modelled code only copies it. The fields \<open>prototype_triggers\<close> of
  \<open>Component\<close>, \<open>loggers\<close> of \<open>Cluster\<close> and \<open>server_name\<close> of \<open>Port\<close> are left out: the modelled
  code neither reads nor writes them.
\<close>

type_synonym double_bits = "64 word"

record Info_pb =
  info_name :: string
  info_id :: string
  info_type :: string
  info_namespaces :: "string list"

definition Info_default :: Info_pb where
  "Info_default = \<lparr>info_name = '''', info_id = '''', info_type = '''', info_namespaces = []\<rparr>"

datatype Attribute_Kind_pb =
    ATTR_STRING | ATTR_INTEGER | ATTR_CHARACTER | ATTR_BOOLEAN | ATTR_DOUBLE | ATTR_FLOAT
  | ATTR_STRINGLIST | ATTR_UNNAMED int

record Attribute_pb =
  apb_info :: Info_pb
  apb_kind :: Attribute_Kind_pb
  apb_s :: "string list"
  apb_i :: "64 word"
  apb_d :: double_bits

definition Attribute_default :: Attribute_pb where
  "Attribute_default = \<lparr>apb_info = Info_default, apb_kind = ATTR_STRING, apb_s = [], apb_i = 0, apb_d = 0\<rparr>"

type_synonym PbAttrMap = "(string, Attribute_pb) umap"

datatype Middleware_pb =
  NO_MIDDLEWARE | ZMQ | RTI | OSPL | QPID | TAO | MIDDLEWARE_UNNAMED int

datatype Port_Kind_pb =
  NO_KIND | PERIODIC | PUBLISHER | SUBSCRIBER | REQUESTER | REPLIER | PORT_KIND_UNNAMED int

record Port_pb =
  ppb_info :: Info_pb
  ppb_kind :: Port_Kind_pb
  ppb_middleware :: Middleware_pb
  ppb_attributes :: PbAttrMap
  ppb_connected_ports :: "string list"
  ppb_connected_external_ports :: "string list"

definition Port_default :: Port_pb where
  "Port_default = \<lparr>ppb_info = Info_default, ppb_kind = NO_KIND, ppb_middleware = NO_MIDDLEWARE,
     ppb_attributes = [], ppb_connected_ports = [], ppb_connected_external_ports = []\<rparr>"

datatype ExternalPort_Kind_pb = EXT_NO_KIND | PUBSUB | SERVER | EXT_KIND_UNNAMED int

record ExternalPort_pb =
  epb_info :: Info_pb
  epb_kind :: ExternalPort_Kind_pb
  epb_middleware :: Middleware_pb
  epb_attributes :: PbAttrMap
  epb_connected_ports :: "string list"
  epb_is_blackbox :: bool

definition ExternalPort_default :: ExternalPort_pb where
  "ExternalPort_default = \<lparr>epb_info = Info_default, epb_kind = EXT_NO_KIND,
     epb_middleware = NO_MIDDLEWARE, epb_attributes = [], epb_connected_ports = [],
     epb_is_blackbox = False\<rparr>"

record Worker_pb =
  wpb_info :: Info_pb
  wpb_attributes :: PbAttrMap

record Component_pb =
  cpb_info :: Info_pb
  cpb_ports :: "Port_pb list"
  cpb_attributes :: PbAttrMap
  cpb_workers :: "Worker_pb list"
  cpb_replicate_indices :: "int list"
  cpb_location :: "string list"

datatype Logger_Mode_pb = OFF | LIVE | CACHED | LOGGER_MODE_UNNAMED int

datatype Logger_Type_pb =
  LOGGER_NONE | LOGGER_MODEL | LOGGER_CLIENT | LOGGER_SERVER | LOGGER_EXPERIMENT | LOGGER_TYPE_UNNAMED int

record Logger_pb =
  lpb_type :: Logger_Type_pb
  lpb_id :: string
  lpb_publisher_address :: string
  lpb_publisher_port :: string
  lpb_mode :: Logger_Mode_pb
  lpb_frequency :: double_bits
  lpb_client_ids :: "string list"
  lpb_db_file_name :: string
  lpb_client_addresses :: "string list"
  lpb_processes :: "string list"

definition Logger_default :: Logger_pb where
  "Logger_default = \<lparr>lpb_type = LOGGER_NONE, lpb_id = '''', lpb_publisher_address = '''',
     lpb_publisher_port = '''', lpb_mode = OFF, lpb_frequency = 0, lpb_client_ids = [],
     lpb_db_file_name = '''', lpb_client_addresses = [], lpb_processes = []\<rparr>"

datatype ContainerType_pb = GENERIC | DOCKER | CONTAINER_TYPE_UNNAMED int

record Container_pb =
  ctpb_info :: Info_pb
  ctpb_type :: ContainerType_pb
  ctpb_components :: "Component_pb list"
  ctpb_loggers :: "Logger_pb list"
  ctpb_implicit :: bool
  ctpb_is_late_joiner :: bool

record Node_pb =
  npb_info :: Info_pb
  npb_ip_address :: string
  npb_containers :: "Container_pb list"

record Cluster_pb =
  clpb_info :: Info_pb
  clpb_nodes :: "Node_pb list"
  clpb_containers :: "Container_pb list"

record Experiment_pb =
  expb_name :: string
  expb_clusters :: "Cluster_pb list"
  expb_external_ports :: "ExternalPort_pb list"

datatype ControlMessage_Type_pb =
  CM_NO_TYPE | STARTUP | TEARDOWN | CONFIGURE | ACTIVATE | PASSIVATE | TERMINATE | SET_ATTRIBUTE

record ControlMessage_pb =
  cm_type :: ControlMessage_Type_pb
  cm_timestamp :: "int option"
  cm_nodes :: "Node_pb list"
  cm_experiment_id :: string
  cm_attributes :: PbAttrMap

definition ControlMessage_default :: ControlMessage_pb where
  "ControlMessage_default = \<lparr>cm_type = CM_NO_TYPE, cm_timestamp = None, cm_nodes = [],
     cm_experiment_id = '''', cm_attributes = []\<rparr>"

datatype EnvironmentMessage_Type_pb =
    EM_NO_TYPE | GET_EXPERIMENT_INFO | HEARTBEAT | END_HEARTBEAT | HEARTBEAT_ACK
  | CONFIGURE_EXPERIMENT | SHUTDOWN_EXPERIMENT | SHUTDOWN_LOGAN_SERVER

record EnvironmentMessage_pb =
  em_type :: EnvironmentMessage_Type_pb
  em_control_message :: "ControlMessage_pb option"

definition EnvironmentMessage_default :: EnvironmentMessage_pb where
  "EnvironmentMessage_default = \<lparr>em_type = EM_NO_TYPE, em_control_message = None\<rparr>"

record HardwareId_pb =
  hw_host_name :: string
  hw_ip_address :: string

record ContainerId_pb =
  cid_id :: string
  cid_is_master :: bool
  cid_is_docker :: bool

record NodeDeployment_pb =
  ndp_id :: "HardwareId_pb option"
  ndp_container_ids :: "ContainerId_pb list"
  ndp_has_logan_server :: bool

section \<open>Attribute maps\<close>

definition GotAttribute :: "PbAttrMap \<Rightarrow> string \<Rightarrow> bool" where
  "GotAttribute m attribute_key = umap_count m attribute_key"

definition GetAttribute :: "PbAttrMap \<Rightarrow> string \<Rightarrow> exn + Attribute_pb" where
  "GetAttribute m attribute_key =
     (if GotAttribute m attribute_key then umap_at m attribute_key
      else Inl (OutOfRange (''Attribute Map Doesn't contain Key: '' @ attribute_key)))"

definition AddAllocatedAttribute :: "PbAttrMap \<Rightarrow> Attribute_pb option \<Rightarrow> exn + PbAttrMap" where
  "AddAllocatedAttribute m attribute =
     (case attribute of
        Some a \<Rightarrow> Inr (umap_put (info_name (apb_info a)) a m)
      | None \<Rightarrow> Inl (RuntimeError ''Invalid Attribute''))"

definition new_attribute :: "string \<Rightarrow> Attribute_Kind_pb \<Rightarrow> Attribute_pb" where
  "new_attribute attribute_key kind =
     Attribute_default\<lparr>apb_info := Info_default\<lparr>info_name := attribute_key\<rparr>, apb_kind := kind\<rparr>"

definition InsertAttribute :: "PbAttrMap \<Rightarrow> string \<Rightarrow> Attribute_Kind_pb \<Rightarrow> PbAttrMap" where
  "InsertAttribute m attribute_key kind = umap_put attribute_key (new_attribute attribute_key kind) m"

definition SetStringAttribute :: "PbAttrMap \<Rightarrow> string \<Rightarrow> string \<Rightarrow> PbAttrMap" where
  "SetStringAttribute m attribute_key v =
     umap_modify attribute_key (\<lambda>a. a\<lparr>apb_s := apb_s a @ [v]\<rparr>)
       (InsertAttribute m attribute_key ATTR_STRING)"

definition SetStringListAttribute :: "PbAttrMap \<Rightarrow> string \<Rightarrow> string list \<Rightarrow> PbAttrMap" where
  "SetStringListAttribute m attribute_key v =
     umap_modify attribute_key (\<lambda>a. a\<lparr>apb_s := apb_s a @ v\<rparr>)
       (InsertAttribute m attribute_key ATTR_STRINGLIST)"

definition SetDoubleAttribute :: "PbAttrMap \<Rightarrow> string \<Rightarrow> double_bits \<Rightarrow> PbAttrMap" where
  "SetDoubleAttribute m attribute_key v =
     umap_modify attribute_key (\<lambda>a. a\<lparr>apb_d := v\<rparr>) (InsertAttribute m attribute_key ATTR_DOUBLE)"

text \<open>The parameter is an \<open>int\<close>, the field an \<open>int64\<close>: the value is sign extended.\<close>

definition SetIntegerAttribute :: "PbAttrMap \<Rightarrow> string \<Rightarrow> int \<Rightarrow> PbAttrMap" where
  "SetIntegerAttribute m attribute_key v =
     umap_modify attribute_key (\<lambda>a. a\<lparr>apb_i := word_of_int v\<rparr>)
       (InsertAttribute m attribute_key ATTR_INTEGER)"

definition SetBooleanAttribute :: "PbAttrMap \<Rightarrow> string \<Rightarrow> bool \<Rightarrow> PbAttrMap" where
  "SetBooleanAttribute m attribute_key v =
     umap_modify attribute_key (\<lambda>a. a\<lparr>apb_i := (if v then 1 else 0)\<rparr>)
       (InsertAttribute m attribute_key ATTR_BOOLEAN)"

text \<open>\<open>attribute.s(0)\<close>: there is no first string in an empty repeated field.\<close>

definition attr_s0 :: "Attribute_pb \<Rightarrow> exn + string" where
  "attr_s0 a = (case apb_s a of [] \<Rightarrow> Inl (Undefined ''s(0) of an empty field'') | x # _ \<Rightarrow> Inr x)"

definition get_string_attribute :: "PbAttrMap \<Rightarrow> string \<Rightarrow> exn + string" where
  "get_string_attribute m k = (case GetAttribute m k of Inl e \<Rightarrow> Inl e | Inr a \<Rightarrow> attr_s0 a)"

lemma SetStringAttribute_lookup:
  "get_string_attribute (SetStringAttribute m k v) k = Inr v"
  by (simp add: get_string_attribute_def SetStringAttribute_def InsertAttribute_def GetAttribute_def
      GotAttribute_def umap_count_def umap_at_def attr_s0_def new_attribute_def Attribute_default_def)

lemma SetStringAttribute_other:
  "k' \<noteq> k \<Longrightarrow> map_of (SetStringAttribute m k v) k' = map_of m k'"
  by (simp add: SetStringAttribute_def InsertAttribute_def)

lemma SetStringListAttribute_lookup:
  "map_option apb_s (map_of (SetStringListAttribute m k v) k) = Some v"
  by (simp add: SetStringListAttribute_def InsertAttribute_def new_attribute_def Attribute_default_def)

lemma SetIntegerAttribute_lookup:
  assumes "int_min \<le> v" and "v \<le> int_max"
  shows "map_option (\<lambda>a. sint (apb_i a)) (map_of (SetIntegerAttribute m k v) k) = Some v"
proof -
  have "signed_take_bit 63 v = v"
    using assms by (intro signed_take_bit_int_eq_self) (auto simp: int_min_def int_max_def)
  then show ?thesis
    by (simp add: SetIntegerAttribute_def InsertAttribute_def sint_sbintrunc')
qed

section \<open>Properties\<close>

text \<open>
  What is set under a key is read back: for every \<open>int\<close> value, \<open>SetIntegerAttribute\<close> stores
  it sign-extended in the \<open>int64\<close> field of an INTEGER attribute named like the key, where
  \<open>GetAttribute\<close> finds it, replaces what was there before, and leaves every other key alone.
\<close>
theorem SetIntegerAttribute_get:
  assumes "int_min \<le> v" and "v \<le> int_max"
  shows "\<exists>a. GetAttribute (SetIntegerAttribute m k v) k = Inr a \<and> sint (apb_i a) = v \<and>
      apb_kind a = ATTR_INTEGER \<and> info_name (apb_info a) = k \<and>
      (\<forall>k'. k' \<noteq> k \<longrightarrow> GetAttribute (SetIntegerAttribute m k v) k' = GetAttribute m k')"
proof -
  have "map_of (SetIntegerAttribute m k v) k = Some ((new_attribute k ATTR_INTEGER)\<lparr>apb_i := word_of_int v\<rparr>)"
    by (simp add: SetIntegerAttribute_def InsertAttribute_def)
  moreover have "map_of (SetIntegerAttribute m k v) k' = map_of m k'" if "k' \<noteq> k" for k'
    using that by (simp add: SetIntegerAttribute_def InsertAttribute_def)
  moreover have "sint (word_of_int v :: 64 word) = v"
    using SetIntegerAttribute_lookup [OF assms, of m k] calculation(1) by simp
  ultimately show ?thesis
    by (simp add: GetAttribute_def GotAttribute_def umap_count_def umap_at_def new_attribute_def Attribute_default_def
        Info_default_def)
qed

theorem SetIntegerAttribute_get_witness:
  "\<exists>a. GetAttribute (SetIntegerAttribute (SetStringAttribute [] ''topic'' ''t'') ''domain'' (- 2147483648)) ''domain'' = Inr a \<and>
     sint (apb_i a) = - 2147483648 \<and> apb_kind a = ATTR_INTEGER \<and> info_name (apb_info a) = ''domain''"
proof -
  have "int_min \<le> - 2147483648" "- 2147483648 \<le> int_max" by (simp_all add: int_min_def int_max_def)
  from SetIntegerAttribute_get [OF this, of "SetStringAttribute [] ''topic'' ''t''" "''domain''"] show ?thesis by blast
qed

end
