(* ===== verification/EMAttribute.thy ===== *)
theory EMAttribute
  imports ControlMessage
begin

text \<open>
  \<open>EnvironmentManager::Attribute\<close> and \<open>EnvironmentManager::Worker\<close>
  (\<^verbatim>\<open>attribute.cpp\<close>, \<^verbatim>\<open>worker.cpp\<close>). Neither constructor initialises \<open>dirty_\<close>: the value the
  member happens to hold is the constructors' argument \<open>d0\<close>. The value members the
  constructor leaves unset for a kind are 0 here; they are only read for their own kind.
\<close>

datatype Attribute_Kind =
  AK_String | AK_Integer | AK_Character | AK_Boolean | AK_Double | AK_Float | AK_Stringlist

record Attribute =
  at_name :: string
  at_id :: string
  at_kind :: Attribute_Kind
  at_string_list :: "string list"
  at_double_value :: double_bits
  at_integer_value :: "64 word"
  at_boolean_value :: bool
  at_dirty :: bool

fun ProtoAttributeKindToInternal :: "Attribute_Kind_pb \<Rightarrow> Attribute_Kind" where
  "ProtoAttributeKindToInternal ATTR_STRING = AK_String"
| "ProtoAttributeKindToInternal ATTR_INTEGER = AK_Integer"
| "ProtoAttributeKindToInternal ATTR_CHARACTER = AK_Character"
| "ProtoAttributeKindToInternal ATTR_BOOLEAN = AK_Boolean"
| "ProtoAttributeKindToInternal ATTR_DOUBLE = AK_Double"
| "ProtoAttributeKindToInternal ATTR_FLOAT = AK_Float"
| "ProtoAttributeKindToInternal ATTR_STRINGLIST = AK_Stringlist"
| "ProtoAttributeKindToInternal (ATTR_UNNAMED _) = AK_String"

fun InternalAttributeKindToProto :: "Attribute_Kind \<Rightarrow> Attribute_Kind_pb" where
  "InternalAttributeKindToProto AK_String = ATTR_STRING"
| "InternalAttributeKindToProto AK_Integer = ATTR_INTEGER"
| "InternalAttributeKindToProto AK_Character = ATTR_CHARACTER"
| "InternalAttributeKindToProto AK_Boolean = ATTR_BOOLEAN"
| "InternalAttributeKindToProto AK_Double = ATTR_DOUBLE"
| "InternalAttributeKindToProto AK_Float = ATTR_FLOAT"
| "InternalAttributeKindToProto AK_Stringlist = ATTR_STRINGLIST"

definition Attribute_ctor :: "bool \<Rightarrow> Attribute_pb \<Rightarrow> Attribute" where
  "Attribute_ctor d0 attribute =
     (let a = \<lparr>at_name = info_name (apb_info attribute), at_id = info_id (apb_info attribute),
               at_kind = ProtoAttributeKindToInternal (apb_kind attribute),
               at_string_list = [], at_double_value = 0, at_integer_value = 0,
               at_boolean_value = False, at_dirty = d0\<rparr>
      in case at_kind a of
           AK_String \<Rightarrow> a\<lparr>at_string_list := apb_s attribute\<rparr>
         | AK_Stringlist \<Rightarrow> a\<lparr>at_string_list := apb_s attribute\<rparr>
         | AK_Float \<Rightarrow> a\<lparr>at_double_value := apb_d attribute\<rparr>
         | AK_Double \<Rightarrow> a\<lparr>at_double_value := apb_d attribute\<rparr>
         | AK_Character \<Rightarrow> a\<lparr>at_integer_value := apb_i attribute\<rparr>
         | AK_Integer \<Rightarrow> a\<lparr>at_integer_value := apb_i attribute\<rparr>
         | AK_Boolean \<Rightarrow> a\<lparr>at_boolean_value := (apb_i attribute \<noteq> 0)\<rparr>)"

definition Attribute_GetName :: "Attribute \<Rightarrow> string" where
  "Attribute_GetName a = at_name a"

text \<open>The \<open>default:\<close> of the second \<open>switch\<close> is unreachable: \<open>Kind\<close> has no further value.\<close>

definition Attribute_GetProto :: "bool \<Rightarrow> Attribute \<Rightarrow> Attribute_pb option \<times> Attribute" where
  "Attribute_GetProto full_update a =
     (if full_update \<or> at_dirty a then
        let pb = Attribute_default\<lparr>
              apb_info := Info_default\<lparr>info_name := at_name a, info_id := at_id a\<rparr>,
              apb_kind := InternalAttributeKindToProto (at_kind a)\<rparr>;
            pb' = (case at_kind a of
                AK_String \<Rightarrow> pb\<lparr>apb_s := at_string_list a\<rparr>
              | AK_Stringlist \<Rightarrow> pb\<lparr>apb_s := at_string_list a\<rparr>
              | AK_Float \<Rightarrow> pb\<lparr>apb_d := at_double_value a\<rparr>
              | AK_Double \<Rightarrow> pb\<lparr>apb_d := at_double_value a\<rparr>
              | AK_Integer \<Rightarrow> pb\<lparr>apb_i := at_integer_value a\<rparr>
              | AK_Character \<Rightarrow> pb\<lparr>apb_i := at_integer_value a\<rparr>
              | AK_Boolean \<Rightarrow> pb\<lparr>apb_i := (if at_boolean_value a then 1 else 0)\<rparr>)
        in (Some pb', a\<lparr>at_dirty := False\<rparr>)
      else (None, a))"

text \<open>The loop over \<open>attributes_\<close> in the \<open>GetProto\<close> of a worker and of a component.\<close>

fun attributes_GetProto :: "bool \<Rightarrow> (string, Attribute) umap \<Rightarrow> PbAttrMap \<Rightarrow>
    PbAttrMap \<times> (string, Attribute) umap" where
  "attributes_GetProto full [] m = (m, [])"
| "attributes_GetProto full ((k, a) # as) m =
     (let (pb, a') = Attribute_GetProto full a;
          m' = (case pb of None \<Rightarrow> m | Some p \<Rightarrow> umap_put (info_name (apb_info p)) p m);
          (m'', as') = attributes_GetProto full as m'
      in (m'', (k, a') # as'))"

text \<open>The loop over an attribute map in the constructors.\<close>

definition attributes_ctor :: "(string \<Rightarrow> bool) \<Rightarrow> PbAttrMap \<Rightarrow> (string, Attribute) umap" where
  "attributes_ctor ind m =
     foldl (\<lambda>as (k, pb). umap_emplace k (Attribute_ctor (ind k) pb) as) [] m"

section \<open>Workers\<close>

record Worker =
  wk_id :: string
  wk_name :: string
  wk_type :: string
  wk_dirty :: bool
  wk_attributes :: "(string, Attribute) umap"

definition Worker_ctor :: "(string \<Rightarrow> bool) \<Rightarrow> Worker_pb \<Rightarrow> Worker" where
  "Worker_ctor ind worker =
     \<lparr>wk_id = info_id (wpb_info worker), wk_name = info_name (wpb_info worker),
      wk_type = info_type (wpb_info worker), wk_dirty = ind (info_id (wpb_info worker)),
      wk_attributes = attributes_ctor ind (wpb_attributes worker)\<rparr>"

definition Worker_IsDirty :: "Worker \<Rightarrow> bool" where
  "Worker_IsDirty w = wk_dirty w"

definition Worker_GetProto :: "bool \<Rightarrow> Worker \<Rightarrow> Worker_pb option \<times> Worker" where
  "Worker_GetProto full_update w =
     (if full_update \<or> wk_dirty w then
        let (attr_map, as') = attributes_GetProto full_update (wk_attributes w) []
        in (Some \<lparr>wpb_info = Info_default\<lparr>info_name := wk_name w, info_id := wk_id w, info_type := wk_type w\<rparr>,
                  wpb_attributes = attr_map\<rparr>,
            w\<lparr>wk_attributes := as', wk_dirty := False\<rparr>)
      else (None, w))"

section \<open>Lemmas\<close>

lemma Attribute_kind_roundtrip [simp]:
  "ProtoAttributeKindToInternal (InternalAttributeKindToProto k) = k"
  by (cases k) simp_all

lemma Attribute_kind_named:
  "(\<forall>n. k \<noteq> ATTR_UNNAMED n) \<Longrightarrow> InternalAttributeKindToProto (ProtoAttributeKindToInternal k) = k"
  by (cases k) simp_all

text \<open>A message that carries only what its kind needs: the others cannot survive, since
  an \<open>Attribute\<close> has no member for them.\<close>

definition attr_plain :: "Attribute_pb \<Rightarrow> bool" where
  "attr_plain pb \<longleftrightarrow>
     info_type (apb_info pb) = '''' \<and> info_namespaces (apb_info pb) = [] \<and>
     (case apb_kind pb of
        ATTR_STRING \<Rightarrow> apb_i pb = 0 \<and> apb_d pb = 0
      | ATTR_STRINGLIST \<Rightarrow> apb_i pb = 0 \<and> apb_d pb = 0
      | ATTR_INTEGER \<Rightarrow> apb_s pb = [] \<and> apb_d pb = 0
      | ATTR_CHARACTER \<Rightarrow> apb_s pb = [] \<and> apb_d pb = 0
      | ATTR_BOOLEAN \<Rightarrow> apb_s pb = [] \<and> apb_d pb = 0 \<and> (apb_i pb = 0 \<or> apb_i pb = 1)
      | ATTR_DOUBLE \<Rightarrow> apb_s pb = [] \<and> apb_i pb = 0
      | ATTR_FLOAT \<Rightarrow> apb_s pb = [] \<and> apb_i pb = 0
      | ATTR_UNNAMED _ \<Rightarrow> False)"

lemma Attribute_proto_id:
  assumes "attr_plain pb"
  shows "fst (Attribute_GetProto True (Attribute_ctor d0 pb)) = Some pb"
proof -
  obtain i k s n d where pb: "pb = \<lparr>apb_info = i, apb_kind = k, apb_s = s, apb_i = n, apb_d = d\<rparr>"
    by (cases pb)
  obtain a b c e where i: "i = \<lparr>info_name = a, info_id = b, info_type = c, info_namespaces = e\<rparr>"
    by (cases i)
  show ?thesis using assms unfolding pb i
    by (cases k) (auto simp: attr_plain_def Attribute_GetProto_def Attribute_ctor_def
        Attribute_default_def Info_default_def Let_def)
qed

lemma Attribute_GetProto_clean: "\<not> at_dirty a \<Longrightarrow> Attribute_GetProto False a = (None, a)"
  by (simp add: Attribute_GetProto_def)

lemma Attribute_GetProto_dirty: "\<not> at_dirty (snd (Attribute_GetProto full a))"
  by (simp add: Attribute_GetProto_def Let_def)

lemma Attribute_ctor_simps [simp]:
  "at_name (Attribute_ctor d pb) = info_name (apb_info pb)"
  "at_id (Attribute_ctor d pb) = info_id (apb_info pb)"
  by (simp_all add: Attribute_ctor_def Let_def split: Attribute_Kind.split)

text \<open>An attribute map as the model parser writes it: keyed by the attributes' names, each
  name once.\<close>

definition attr_map_plain :: "PbAttrMap \<Rightarrow> bool" where
  "attr_map_plain m \<longleftrightarrow> umap_wf m \<and> (\<forall>(k, pb) \<in> set m. k = info_name (apb_info pb) \<and> attr_plain pb)"

lemma attributes_ctor_append:
  "k \<notin> fst ` set m \<Longrightarrow> attributes_ctor ind (m @ [(k, pb)]) =
     attributes_ctor ind m @ [(k, Attribute_ctor (ind k) pb)] \<longleftrightarrow>
   \<not> umap_count (attributes_ctor ind m) k"
  by (simp add: attributes_ctor_def umap_emplace_def)

lemma attributes_ctor_map:
  "umap_wf m \<Longrightarrow> attributes_ctor ind m = map (\<lambda>(k, pb). (k, Attribute_ctor (ind k) pb)) m"
proof (induction m rule: rev_induct)
  case Nil
  then show ?case by (simp add: attributes_ctor_def)
next
  case (snoc x m)
  obtain k pb where x: "x = (k, pb)" by (cases x)
  from snoc.prems x have wf: "umap_wf m" and k: "k \<notin> fst ` set m"
    by (auto simp: umap_wf_def)
  from snoc.IH [OF wf] have IH: "attributes_ctor ind m = map (\<lambda>(k, pb). (k, Attribute_ctor (ind k) pb)) m" .
  have "\<not> umap_count (attributes_ctor ind m) k"
    unfolding IH using k by (force simp: umap_count_keys)
  then show ?case using attributes_ctor_append [OF k, of ind pb] IH x by simp
qed

lemma attributes_GetProto_id:
  "umap_wf (acc @ m) \<Longrightarrow> \<forall>(k, pb) \<in> set m. k = info_name (apb_info pb) \<and> attr_plain pb \<Longrightarrow>
   fst (attributes_GetProto True (map (\<lambda>(k, pb). (k, Attribute_ctor (ind k) pb)) m) acc) = acc @ m"
proof (induction m arbitrary: acc)
  case Nil
  then show ?case by simp
next
  case (Cons x m)
  obtain k pb where x: "x = (k, pb)" by (cases x)
  from Cons.prems x have k: "k = info_name (apb_info pb)" "attr_plain pb"
    "umap_wf ((acc @ [(k, pb)]) @ m)" "k \<notin> fst ` set acc"
    by (auto simp: umap_wf_def)
  have put: "umap_put k pb acc = acc @ [(k, pb)]"
    using k(4) by (simp add: umap_put_def umap_count_keys)
  have "fst (attributes_GetProto True (map (\<lambda>(k, pb). (k, Attribute_ctor (ind k) pb)) m)
          (acc @ [(k, pb)])) = acc @ x # m"
    using Cons.IH [OF k(3)] Cons.prems(2) x by simp
  moreover obtain a' where "Attribute_GetProto True (Attribute_ctor (ind k) pb) = (Some pb, a')"
    using Attribute_proto_id [OF k(2), of "ind k"] by (cases "Attribute_GetProto True (Attribute_ctor (ind k) pb)") auto
  ultimately show ?case using put k(1) x by (auto simp: Let_def split: prod.splits)
qed

lemma attr_map_roundtrip:
  assumes "attr_map_plain m"
  shows "fst (attributes_GetProto True (attributes_ctor ind m) []) = m"
proof -
  from assms have m: "umap_wf m" "\<forall>(k, pb) \<in> set m. k = info_name (apb_info pb) \<and> attr_plain pb"
    by (auto simp: attr_map_plain_def)
  show ?thesis using attributes_GetProto_id [of "[]" m ind] m by (simp add: attributes_ctor_map)
qed

definition worker_plain :: "Worker_pb \<Rightarrow> bool" where
  "worker_plain pb \<longleftrightarrow> info_namespaces (wpb_info pb) = [] \<and> attr_map_plain (wpb_attributes pb)"

lemma Worker_proto_id:
  assumes "worker_plain pb"
  shows "fst (Worker_GetProto True (Worker_ctor ind pb)) = Some pb"
proof -
  obtain i m where pb: "pb = \<lparr>wpb_info = i, wpb_attributes = m\<rparr>" by (cases pb)
  obtain a b c e where i: "i = \<lparr>info_name = a, info_id = b, info_type = c, info_namespaces = e\<rparr>"
    by (cases i)
  have "fst (attributes_GetProto True (attributes_ctor ind m) []) = m"
    using assms attr_map_roundtrip by (simp add: worker_plain_def pb)
  then show ?thesis using assms unfolding pb i
    by (auto simp: worker_plain_def Worker_GetProto_def Worker_ctor_def Info_default_def split: prod.splits)
qed

section \<open>Properties\<close>

text \<open>
  A worker survives the way through the environment manager: built from its description and
  asked for a full update, it yields the same description again (attributes of every kind
  included), for every description that only carries what the classes have members for.
\<close>
theorem Worker_roundtrip:
  assumes "worker_plain pb"
  shows "fst (Worker_GetProto True (Worker_ctor ind pb)) = Some pb"
  using assms by (rule Worker_proto_id)

definition demo_worker :: Worker_pb where
  "demo_worker = \<lparr>wpb_info = Info_default\<lparr>info_name := ''w'', info_id := ''1'', info_type := ''CPU''\<rparr>,
     wpb_attributes = SetBooleanAttribute (SetStringAttribute [] ''a'' ''v'') ''b'' True\<rparr>"

lemma demo_worker_plain: "worker_plain demo_worker"
  by (simp add: demo_worker_def worker_plain_def attr_map_plain_def attr_plain_def SetBooleanAttribute_def
      SetStringAttribute_def InsertAttribute_def new_attribute_def Attribute_default_def Info_default_def
      umap_put_def umap_modify_def umap_count_def umap_wf_def)

theorem Worker_roundtrip_witness:
  "fst (Worker_GetProto True (Worker_ctor (\<lambda>_. True) demo_worker)) = Some demo_worker"
  by (rule Worker_roundtrip [OF demo_worker_plain])

end
