(* ===== verification/EMState.thy ===== *)
theory EMState
  imports PortTracker EMAttribute
begin

text \<open>
  The object graph of the environment manager as nested records: an environment owns
  experiments, an experiment nodes and blackbox ports, a node containers, a container
  components and loggers, a component ports, workers and attributes. Parent references of the
  C++ classes are the path from the environment to the object, and an object is changed
  through that path (\<open>upd_experiment\<close> down to \<open>upd_port\<close>), so every method acts on the
  one environment all objects share.

  \<open>env_indet\<close> gives the value an uninitialised \<open>dirty_\<close> member happens to hold, by the
  object's id; \<open>env_clock\<close> is what \<open>std::chrono::system_clock::now()\<close> returns, in
  milliseconds; \<open>env_published\<close> are the messages given to \<open>update_publisher_\<close>, oldest
  first.
\<close>

datatype Port_Kind = NoKind | Periodic | Publisher | Subscriber | Requester | Replier

datatype Middleware = NoMiddleware | Zmq | Rti | Ospl | Qpid | Tao

datatype BlackboxType = NotBlackbox | BB_PubSub | BB_ReqRep

text \<open>The members the subclasses of \<open>Port\<close> add.\<close>

datatype port_detail =
    ZmqPort string string string \<comment> \<open>\<open>ip_\<close>, \<open>producer_port_\<close>, \<open>producer_endpoint_\<close>\<close>
  | QpidPort string string \<comment> \<open>\<open>topic_name_\<close>, \<open>broker_address_\<close>\<close>
  | TaoPort "string list" string string string
      \<comment> \<open>\<open>server_name_\<close>, \<open>naming_service_endpoint_\<close>, \<open>orb_endpoint_\<close>, \<open>server_kind_\<close>\<close>
  | DdsPort string int \<comment> \<open>\<open>topic_name_\<close>, \<open>domain_id_\<close>\<close>
  | PeriodicPort double_bits \<comment> \<open>\<open>frequency_\<close>\<close>

record Port =
  pt_id :: string
  pt_name :: string
  pt_type :: string
  pt_namespaces :: "string list"
  pt_kind :: Port_Kind
  pt_middleware :: Middleware
  pt_blackbox_type :: BlackboxType
  pt_dirty :: bool
  pt_connected_internal :: "string sset"
  pt_connected_external :: "string sset"
  pt_detail :: port_detail

record Component =
  cp_id :: string
  cp_name :: string
  cp_type :: string
  cp_namespaces :: "string list"
  cp_dirty :: bool
  cp_ports :: "(string, Port) umap"
  cp_workers :: "(string, Worker) umap"
  cp_attributes :: "(string, Attribute) umap"
  cp_parent_stack :: "string list"
  cp_replication_indices :: "int list"

datatype Logger_Type = LT_None | LT_Model | LT_Client | LT_Server | LT_Experiment

datatype Logger_Mode = LM_Off | LM_Live | LM_Cached

record Logger =
  lg_id :: string
  lg_type :: Logger_Type
  lg_frequency :: double_bits
  lg_mode :: Logger_Mode
  lg_publisher_port :: string
  lg_processes :: "string sset"
  lg_connected_client_ids :: "string sset"
  lg_db_file_name :: string
  lg_dirty :: bool

datatype Container_Type = Docker | Generic

record Container =
  ct_id :: string
  ct_name :: string
  ct_type :: string
  ct_container_type :: Container_Type
  ct_management_port :: string
  ct_orb_port :: string
  ct_is_node_manager_master :: bool
  ct_dirty :: bool
  ct_late_joiner :: bool
  ct_components :: "(string, Component) umap"
  ct_loggers :: "(string, Logger) umap"

record Node =
  nd_id :: string
  nd_name :: string
  nd_ip :: string
  nd_implicit_container_id :: string
  nd_containers :: "(string, Container) umap"
  nd_dirty :: bool

datatype ExternalPort_Kind = EP_PubSub | EP_ReqRep

record Exp_ExternalPort =
  xp_external_label :: string
  xp_internal_id :: string
  xp_type :: string
  xp_middleware :: Middleware
  xp_kind :: ExternalPort_Kind
  xp_producer_ids :: "string sset"
  xp_consumer_ids :: "string sset"

datatype ExperimentState = Registered | CONFIGURED | ACTIVE

record Experiment =
  ex_model_name :: string
  ex_master_publisher_port :: string
  ex_master_registration_port :: string
  ex_master_ip_address :: string
  ex_manager_port :: string
  ex_shutdown :: bool
  ex_node_map :: "(string, Node) umap"
  ex_external_port_map :: "(string, Exp_ExternalPort) umap"
  ex_blackbox_port_map :: "(string, Port) umap"
  ex_external_id_to_internal_id_map :: "(string, string) umap"
  ex_state :: ExperimentState
  ex_dirty :: bool

record Env_ExternalPort =
  vp_external_label :: string
  vp_producer_experiments :: "string sset"
  vp_consumer_experiments :: "string sset"

record Environment =
  env_ip_address :: string
  env_qpid_broker_address :: string
  env_tao_naming_service_address :: string
  env_port_range_min :: int
  env_port_range_max :: int
  env_manager_port_range_min :: int
  env_manager_port_range_max :: int
  env_experiment_map :: "(string, Experiment) umap"
  env_node_map :: "(string, port_tracker) umap"
  env_node_ip_map :: "(string, string) umap"
  env_node_name_map :: "(string, string) umap"
  env_external_eventport_map :: "(string, Env_ExternalPort) umap"
  env_update_publisher_port :: string
  env_available_ports :: "int unique_queue"
  env_available_node_manager_ports :: "int unique_queue"
  env_published :: "EnvironmentMessage_pb list"
  env_clock :: int
  env_indet :: "string \<Rightarrow> bool"

section \<open>Paths\<close>

definition upd_experiment :: "string \<Rightarrow> (Experiment \<Rightarrow> Experiment) \<Rightarrow> Environment \<Rightarrow> Environment" where
  "upd_experiment x f env = env\<lparr>env_experiment_map := umap_modify x f (env_experiment_map env)\<rparr>"

definition upd_node_in :: "string \<Rightarrow> (Node \<Rightarrow> Node) \<Rightarrow> Experiment \<Rightarrow> Experiment" where
  "upd_node_in n f ex = ex\<lparr>ex_node_map := umap_modify n f (ex_node_map ex)\<rparr>"

definition upd_container_in :: "string \<Rightarrow> (Container \<Rightarrow> Container) \<Rightarrow> Node \<Rightarrow> Node" where
  "upd_container_in c f nd = nd\<lparr>nd_containers := umap_modify c f (nd_containers nd)\<rparr>"

definition upd_component_in :: "string \<Rightarrow> (Component \<Rightarrow> Component) \<Rightarrow> Container \<Rightarrow> Container" where
  "upd_component_in k f ct = ct\<lparr>ct_components := umap_modify k f (ct_components ct)\<rparr>"

definition upd_logger_in :: "string \<Rightarrow> (Logger \<Rightarrow> Logger) \<Rightarrow> Container \<Rightarrow> Container" where
  "upd_logger_in l f ct = ct\<lparr>ct_loggers := umap_modify l f (ct_loggers ct)\<rparr>"

definition upd_port_in :: "string \<Rightarrow> (Port \<Rightarrow> Port) \<Rightarrow> Component \<Rightarrow> Component" where
  "upd_port_in p f cp = cp\<lparr>cp_ports := umap_modify p f (cp_ports cp)\<rparr>"

definition upd_worker_in :: "string \<Rightarrow> (Worker \<Rightarrow> Worker) \<Rightarrow> Component \<Rightarrow> Component" where
  "upd_worker_in w f cp = cp\<lparr>cp_workers := umap_modify w f (cp_workers cp)\<rparr>"

definition upd_node :: "string \<Rightarrow> string \<Rightarrow> (Node \<Rightarrow> Node) \<Rightarrow> Environment \<Rightarrow> Environment" where
  "upd_node x n f = upd_experiment x (upd_node_in n f)"

definition upd_container ::
  "string \<Rightarrow> string \<Rightarrow> string \<Rightarrow> (Container \<Rightarrow> Container) \<Rightarrow> Environment \<Rightarrow> Environment" where
  "upd_container x n c f = upd_node x n (upd_container_in c f)"

definition upd_component ::
  "string \<Rightarrow> string \<Rightarrow> string \<Rightarrow> string \<Rightarrow> (Component \<Rightarrow> Component) \<Rightarrow> Environment \<Rightarrow> Environment" where
  "upd_component x n c k f = upd_container x n c (upd_component_in k f)"

definition upd_logger ::
  "string \<Rightarrow> string \<Rightarrow> string \<Rightarrow> string \<Rightarrow> (Logger \<Rightarrow> Logger) \<Rightarrow> Environment \<Rightarrow> Environment" where
  "upd_logger x n c l f = upd_container x n c (upd_logger_in l f)"

definition upd_port ::
  "string \<Rightarrow> string \<Rightarrow> string \<Rightarrow> string \<Rightarrow> string \<Rightarrow> (Port \<Rightarrow> Port) \<Rightarrow> Environment \<Rightarrow> Environment" where
  "upd_port x n c k p f = upd_component x n c k (upd_port_in p f)"

text \<open>Reading along a path. A C++ reference to an object that is gone has no meaning.\<close>

definition deref :: "string \<Rightarrow> 'a option \<Rightarrow> (Environment, 'a) em" where
  "deref what z = (case z of None \<Rightarrow> throwE (Undefined (''dangling '' @ what)) | Some a \<Rightarrow> returnE a)"

definition find_node :: "Environment \<Rightarrow> string \<Rightarrow> string \<Rightarrow> Node option" where
  "find_node env x n = Option.bind (map_of (env_experiment_map env) x) (\<lambda>ex. map_of (ex_node_map ex) n)"

definition find_container :: "Environment \<Rightarrow> string \<Rightarrow> string \<Rightarrow> string \<Rightarrow> Container option" where
  "find_container env x n c = Option.bind (find_node env x n) (\<lambda>nd. map_of (nd_containers nd) c)"

definition find_component ::
  "Environment \<Rightarrow> string \<Rightarrow> string \<Rightarrow> string \<Rightarrow> string \<Rightarrow> Component option" where
  "find_component env x n c k =
     Option.bind (find_container env x n c) (\<lambda>ct. map_of (ct_components ct) k)"

definition find_logger ::
  "Environment \<Rightarrow> string \<Rightarrow> string \<Rightarrow> string \<Rightarrow> string \<Rightarrow> Logger option" where
  "find_logger env x n c l =
     Option.bind (find_container env x n c) (\<lambda>ct. map_of (ct_loggers ct) l)"

definition find_port ::
  "Environment \<Rightarrow> string \<Rightarrow> string \<Rightarrow> string \<Rightarrow> string \<Rightarrow> string \<Rightarrow> Port option" where
  "find_port env x n c k p =
     Option.bind (find_component env x n c k) (\<lambda>cp. map_of (cp_ports cp) p)"

definition the_experiment :: "string \<Rightarrow> (Environment, Experiment) em" where
  "the_experiment x = bindE getE (\<lambda>env. deref ''experiment'' (map_of (env_experiment_map env) x))"

definition the_node :: "string \<Rightarrow> string \<Rightarrow> (Environment, Node) em" where
  "the_node x n = bindE getE (\<lambda>env. deref ''node'' (find_node env x n))"

definition the_container :: "string \<Rightarrow> string \<Rightarrow> string \<Rightarrow> (Environment, Container) em" where
  "the_container x n c = bindE getE (\<lambda>env. deref ''container'' (find_container env x n c))"

definition the_component :: "string \<Rightarrow> string \<Rightarrow> string \<Rightarrow> string \<Rightarrow> (Environment, Component) em" where
  "the_component x n c k = bindE getE (\<lambda>env. deref ''component'' (find_component env x n c k))"

definition the_logger :: "string \<Rightarrow> string \<Rightarrow> string \<Rightarrow> string \<Rightarrow> (Environment, Logger) em" where
  "the_logger x n c l = bindE getE (\<lambda>env. deref ''logger'' (find_logger env x n c l))"

definition the_port :: "string \<Rightarrow> string \<Rightarrow> string \<Rightarrow> string \<Rightarrow> string \<Rightarrow> (Environment, Port) em" where
  "the_port x n c k p = bindE getE (\<lambda>env. deref ''port'' (find_port env x n c k p))"

lemmas path_upd_defs = upd_experiment_def upd_node_in_def upd_container_in_def upd_component_in_def
  upd_logger_in_def upd_port_in_def upd_worker_in_def upd_node_def upd_container_def upd_component_def
  upd_logger_def upd_port_def

lemmas path_get_defs = deref_def the_experiment_def the_node_def the_container_def the_component_def
  the_logger_def the_port_def find_node_def find_container_def find_component_def find_logger_def
  find_port_def

lemma preserves_deref [pres]: "preserves I (deref w z)"
  by (auto simp: deref_def intro!: pres)

lemma preserves_the [pres]:
  "preserves I (the_experiment x)" "preserves I (the_node x n)" "preserves I (the_container x n c)"
  "preserves I (the_component x n c k)" "preserves I (the_logger x n c l)" "preserves I (the_port x n c k p)"
  unfolding the_experiment_def the_node_def the_container_def the_component_def the_logger_def the_port_def
  by (intro pres)+

text \<open>Changing objects inside the experiments leaves the rest of the environment alone.\<close>

lemma upd_experiment_frame [simp]:
  "env_ip_address (upd_experiment x f env) = env_ip_address env"
  "env_qpid_broker_address (upd_experiment x f env) = env_qpid_broker_address env"
  "env_tao_naming_service_address (upd_experiment x f env) = env_tao_naming_service_address env"
  "env_port_range_min (upd_experiment x f env) = env_port_range_min env"
  "env_port_range_max (upd_experiment x f env) = env_port_range_max env"
  "env_manager_port_range_min (upd_experiment x f env) = env_manager_port_range_min env"
  "env_manager_port_range_max (upd_experiment x f env) = env_manager_port_range_max env"
  "env_node_map (upd_experiment x f env) = env_node_map env"
  "env_external_eventport_map (upd_experiment x f env) = env_external_eventport_map env"
  "env_available_ports (upd_experiment x f env) = env_available_ports env"
  "env_available_node_manager_ports (upd_experiment x f env) = env_available_node_manager_ports env"
  "env_published (upd_experiment x f env) = env_published env"
  "env_update_publisher_port (upd_experiment x f env) = env_update_publisher_port env"
  "env_clock (upd_experiment x f env) = env_clock env"
  "env_indet (upd_experiment x f env) = env_indet env"
  by (simp_all add: upd_experiment_def)

lemma upd_experiment_map [simp]:
  "env_experiment_map (upd_experiment x f env) = umap_modify x f (env_experiment_map env)"
  by (simp add: upd_experiment_def)

end
