(* ===== verification/EMLookup.thy ===== *)
theory EMLookup
  imports EMState
begin

text \<open>
  Searching the object graph and marking it: \<open>HasPort\<close>, \<open>GetPort\<close> and the chain of
  \<open>SetDirty\<close> calls of \<^verbatim>\<open>component.cpp\<close>, \<^verbatim>\<open>container.cpp\<close>, \<^verbatim>\<open>node.cpp\<close>, \<^verbatim>\<open>experiment.cpp\<close> and
  \<^verbatim>\<open>ports/port.cpp\<close>. A C++ reference to a port is a \<open>port_ref\<close>, the path of map keys that
  leads to it.
\<close>

datatype port_ref = DeployedPort string string string string | BlackboxPort string

definition Component_HasPort :: "Component \<Rightarrow> string \<Rightarrow> bool" where
  "Component_HasPort cp port_id = umap_count (cp_ports cp) port_id"

definition Component_GetPort :: "Component \<Rightarrow> string \<Rightarrow> exn + Port" where
  "Component_GetPort cp port_id =
     (if umap_count (cp_ports cp) port_id then umap_at (cp_ports cp) port_id
      else Inl (OutOfRange (''Component::GetPort: '' @ cp_id cp @ '' Get: '' @ port_id)))"

definition Container_HasPort :: "Container \<Rightarrow> string \<Rightarrow> bool" where
  "Container_HasPort ct port_id = list_ex (\<lambda>(_, cp). Component_HasPort cp port_id) (ct_components ct)"

text \<open>The component (by its key) whose port is returned.\<close>

definition Container_GetPort :: "Container \<Rightarrow> string \<Rightarrow> exn + string" where
  "Container_GetPort ct port_id =
     (case List.find (\<lambda>(_, cp). Component_HasPort cp port_id) (ct_components ct) of
        Some (k, _) \<Rightarrow> Inr k
      | None \<Rightarrow> Inl (OutOfRange (''Container::GetPort: '' @ ct_id ct @ '' Get: '' @ port_id)))"

definition Node_HasPort :: "Node \<Rightarrow> string \<Rightarrow> bool" where
  "Node_HasPort nd port_id = list_ex (\<lambda>(_, ct). Container_HasPort ct port_id) (nd_containers nd)"

definition Node_GetPort :: "Node \<Rightarrow> string \<Rightarrow> exn + (string \<times> string)" where
  "Node_GetPort nd port_id =
     (case List.find (\<lambda>(_, ct). Container_HasPort ct port_id) (nd_containers nd) of
        Some (c, ct) \<Rightarrow> (case Container_GetPort ct port_id of Inl e \<Rightarrow> Inl e | Inr k \<Rightarrow> Inr (c, k))
      | None \<Rightarrow> Inl (OutOfRange (''Node::GetPort: '' @ nd_id nd @ '' GET: '' @ port_id)))"

definition Experiment_GetPort :: "Experiment \<Rightarrow> string \<Rightarrow> exn + port_ref" where
  "Experiment_GetPort ex i =
     (case List.find (\<lambda>(_, nd). Node_HasPort nd i) (ex_node_map ex) of
        Some (n, nd) \<Rightarrow>
          (case Node_GetPort nd i of Inl e \<Rightarrow> Inl e | Inr (c, k) \<Rightarrow> Inr (DeployedPort n c k i))
      | None \<Rightarrow>
          (case List.find (\<lambda>(j, _). j = i) (ex_blackbox_port_map ex) of
             Some _ \<Rightarrow> Inr (BlackboxPort i)
           | None \<Rightarrow> Inl (OutOfRange (''Experiment::GetPort: <'' @ i @ ''> OUT OF RANGE''))))"

text \<open>The object behind such a reference.\<close>

definition port_at :: "Experiment \<Rightarrow> port_ref \<Rightarrow> Port option" where
  "port_at ex r =
     (case r of
        DeployedPort n c k p \<Rightarrow>
          Option.bind (map_of (ex_node_map ex) n) (\<lambda>nd.
          Option.bind (map_of (nd_containers nd) c) (\<lambda>ct.
          Option.bind (map_of (ct_components ct) k) (\<lambda>cp. map_of (cp_ports cp) p)))
      | BlackboxPort i \<Rightarrow> map_of (ex_blackbox_port_map ex) i)"

section \<open>Dirty marks\<close>

definition Experiment_SetDirty :: "string \<Rightarrow> Environment \<Rightarrow> Environment" where
  "Experiment_SetDirty x = upd_experiment x (\<lambda>ex. ex\<lparr>ex_dirty := True\<rparr>)"

definition Experiment_IsDirty :: "Experiment \<Rightarrow> bool" where
  "Experiment_IsDirty ex = ex_dirty ex"

definition Node_SetDirty :: "string \<Rightarrow> string \<Rightarrow> Environment \<Rightarrow> Environment" where
  "Node_SetDirty x n env = Experiment_SetDirty x (upd_node x n (\<lambda>nd. nd\<lparr>nd_dirty := True\<rparr>) env)"

definition Container_SetDirty :: "string \<Rightarrow> string \<Rightarrow> string \<Rightarrow> Environment \<Rightarrow> Environment" where
  "Container_SetDirty x n c env = Node_SetDirty x n (upd_container x n c (\<lambda>ct. ct\<lparr>ct_dirty := True\<rparr>) env)"

definition Component_SetDirty :: "string \<Rightarrow> string \<Rightarrow> string \<Rightarrow> string \<Rightarrow> Environment \<Rightarrow> Environment" where
  "Component_SetDirty x n c k env =
     Container_SetDirty x n c (upd_component x n c k (\<lambda>cp. cp\<lparr>cp_dirty := True\<rparr>) env)"

definition Worker_SetDirty ::
  "string \<Rightarrow> string \<Rightarrow> string \<Rightarrow> string \<Rightarrow> string \<Rightarrow> Environment \<Rightarrow> Environment" where
  "Worker_SetDirty x n c k w env =
     upd_component x n c k (upd_worker_in w (\<lambda>wk. wk\<lparr>wk_dirty := True\<rparr>)) (Component_SetDirty x n c k env)"

definition Logger_SetDirty ::
  "string \<Rightarrow> string \<Rightarrow> string \<Rightarrow> string \<Rightarrow> Environment \<Rightarrow> Environment" where
  "Logger_SetDirty x n c l env =
     (case find_logger env x n c l of
        None \<Rightarrow> env
      | Some lg \<Rightarrow>
          if \<not> lg_dirty lg
          then upd_logger x n c l (\<lambda>lg. lg\<lparr>lg_dirty := True\<rparr>) (Container_SetDirty x n c env)
          else env)"

text \<open>A blackbox port has no component: \<open>GetComponent()\<close> throws once the port is marked.\<close>

definition Port_SetDirty :: "string \<Rightarrow> port_ref \<Rightarrow> (Environment, unit) em" where
  "Port_SetDirty x r =
     (case r of
        DeployedPort n c k p \<Rightarrow>
          bindE (modifyE (upd_port x n c k p (\<lambda>pt. pt\<lparr>pt_dirty := True\<rparr>))) (\<lambda>_.
          modifyE (Component_SetDirty x n c k))
      | BlackboxPort i \<Rightarrow>
          bindE (modifyE (upd_experiment x
            (\<lambda>ex. ex\<lparr>ex_blackbox_port_map :=
                umap_modify i (\<lambda>pt. pt\<lparr>pt_dirty := True\<rparr>) (ex_blackbox_port_map ex)\<rparr>))) (\<lambda>_.
          throwE (RuntimeError ''No Component'')))"

definition Node_IsDirty :: "Node \<Rightarrow> bool" where "Node_IsDirty nd = nd_dirty nd"
definition Container_IsDirty :: "Container \<Rightarrow> bool" where "Container_IsDirty ct = ct_dirty ct"
definition Component_IsDirty :: "Component \<Rightarrow> bool" where "Component_IsDirty cp = cp_dirty cp"
definition Port_IsDirty :: "Port \<Rightarrow> bool" where "Port_IsDirty pt = pt_dirty pt"
definition Logger_IsDirty :: "Logger \<Rightarrow> bool" where "Logger_IsDirty lg = lg_dirty lg"

lemmas SetDirty_defs = Experiment_SetDirty_def Node_SetDirty_def Container_SetDirty_def
  Component_SetDirty_def Worker_SetDirty_def

section \<open>Lemmas\<close>

lemma find_SomeD: "List.find P xs = Some x \<Longrightarrow> x \<in> set xs \<and> P x"
  by (auto simp: find_Some_iff)

lemma find_pair_exists:
  "list_ex (\<lambda>(_, v). P v) m \<Longrightarrow> \<exists>k v. List.find (\<lambda>(_, v). P v) m = Some (k, v) \<and> (k, v) \<in> set m \<and> P v"
  by (induction m) auto

lemma find_key: "(List.find (\<lambda>(j, _). j = k) m = None) \<longleftrightarrow> \<not> umap_count m k"
  by (induction m) (auto simp: umap_count_def)

lemma Container_GetPort_ok:
  assumes "Container_HasPort ct p"
  shows "\<exists>k cp. Container_GetPort ct p = Inr k \<and> (k, cp) \<in> set (ct_components ct) \<and> Component_HasPort cp p"
  using find_pair_exists [of "\<lambda>cp. Component_HasPort cp p" "ct_components ct"] assms
  by (auto simp: Container_HasPort_def Container_GetPort_def)

lemma Node_GetPort_ok:
  assumes "Node_HasPort nd p"
  shows "\<exists>c ct k cp. Node_GetPort nd p = Inr (c, k) \<and> (c, ct) \<in> set (nd_containers nd) \<and>
           (k, cp) \<in> set (ct_components ct) \<and> Component_HasPort cp p"
proof -
  obtain c ct where c: "List.find (\<lambda>(_, ct). Container_HasPort ct p) (nd_containers nd) = Some (c, ct)"
    "(c, ct) \<in> set (nd_containers nd)" "Container_HasPort ct p"
    using find_pair_exists [of "\<lambda>ct. Container_HasPort ct p" "nd_containers nd"] assms
    by (auto simp: Node_HasPort_def)
  from Container_GetPort_ok [OF c(3)] c show ?thesis by (fastforce simp: Node_GetPort_def)
qed

lemma Experiment_GetPort_Inr:
  assumes "Experiment_GetPort ex p = Inr r"
  shows "(\<exists>n nd c ct k cp. r = DeployedPort n c k p \<and> (n, nd) \<in> set (ex_node_map ex) \<and>
            (c, ct) \<in> set (nd_containers nd) \<and> (k, cp) \<in> set (ct_components ct) \<and> Component_HasPort cp p)
       \<or> (r = BlackboxPort p \<and> umap_count (ex_blackbox_port_map ex) p)"
proof (cases "List.find (\<lambda>(_, nd). Node_HasPort nd p) (ex_node_map ex)")
  case None
  then show ?thesis using assms find_key [of p "ex_blackbox_port_map ex"]
    by (auto simp: Experiment_GetPort_def split: option.splits)
next
  case (Some x)
  obtain n nd where x: "x = (n, nd)" by (cases x)
  from find_SomeD [OF Some] x have n: "(n, nd) \<in> set (ex_node_map ex)" "Node_HasPort nd p" by auto
  from Node_GetPort_ok [OF n(2)] obtain c ct k cp where
    "Node_GetPort nd p = Inr (c, k)" "(c, ct) \<in> set (nd_containers nd)"
    "(k, cp) \<in> set (ct_components ct)" "Component_HasPort cp p" by blast
  moreover from this have "r = DeployedPort n c k p" using assms Some x by (simp add: Experiment_GetPort_def)
  ultimately show ?thesis using n by blast
qed

text \<open>A lookup fails exactly when no node and no blackbox port has the id.\<close>

lemma Experiment_GetPort_Inl_iff:
  "(\<exists>e. Experiment_GetPort ex p = Inl e) \<longleftrightarrow>
   (\<forall>(n, nd) \<in> set (ex_node_map ex). \<not> Node_HasPort nd p) \<and> \<not> umap_count (ex_blackbox_port_map ex) p"
  (is "?L \<longleftrightarrow> ?R")
proof
  assume L: ?L
  then have f: "List.find (\<lambda>(_, nd). Node_HasPort nd p) (ex_node_map ex) = None"
    by (auto simp: Experiment_GetPort_def split: option.splits sum.splits dest!: find_SomeD Node_GetPort_ok)
  with L show ?R
    by (auto simp: Experiment_GetPort_def find_None_iff umap_count_keys split: option.splits)
next
  assume ?R
  then have "List.find (\<lambda>(_, nd). Node_HasPort nd p) (ex_node_map ex) = None"
    "List.find (\<lambda>(j, _). j = p) (ex_blackbox_port_map ex) = None"
    by (auto simp: find_None_iff umap_count_keys image_iff)
  then show ?L by (simp add: Experiment_GetPort_def)
qed

section \<open>Properties\<close>

text \<open>
  Marking a port marks everything above it: after \<open>SetDirty\<close> on a port of the tree, the port,
  its component, its container, its node and its experiment are all dirty, so the next heartbeat of
  the experiment descends to the port. Nothing is marked in another experiment.
\<close>
theorem Port_SetDirty_marks_path:
  assumes "map_of (env_experiment_map env) x = Some ex" "map_of (ex_node_map ex) n = Some nd"
    and "map_of (nd_containers nd) c = Some ct" "map_of (ct_components ct) k = Some cp"
    and "map_of (cp_ports cp) p = Some pt"
  shows "\<exists>env' ex' nd' ct' cp' pt'. Port_SetDirty x (DeployedPort n c k p) env = (Inr (), env') \<and>
    map_of (env_experiment_map env') x = Some ex' \<and> Experiment_IsDirty ex' \<and>
    map_of (ex_node_map ex') n = Some nd' \<and> Node_IsDirty nd' \<and>
    map_of (nd_containers nd') c = Some ct' \<and> Container_IsDirty ct' \<and>
    map_of (ct_components ct') k = Some cp' \<and> Component_IsDirty cp' \<and>
    map_of (cp_ports cp') p = Some pt' \<and> Port_IsDirty pt' \<and>
    (\<forall>y. y \<noteq> x \<longrightarrow> map_of (env_experiment_map env') y = map_of (env_experiment_map env) y)"
  using assms
  by (simp add: Port_SetDirty_def ev_rules SetDirty_defs path_upd_defs Experiment_IsDirty_def Node_IsDirty_def
      Container_IsDirty_def Component_IsDirty_def Port_IsDirty_def)

definition demo_clean_port :: Port where
  "demo_clean_port = \<lparr>pt_id = ''p'', pt_name = ''p'', pt_type = '''', pt_namespaces = [], pt_kind = Subscriber,
     pt_middleware = Zmq, pt_blackbox_type = NotBlackbox, pt_dirty = False, pt_connected_internal = [],
     pt_connected_external = [''e''], pt_detail = ZmqPort '''' '''' ''tcp://:''\<rparr>"

definition demo_clean_component :: Component where
  "demo_clean_component = \<lparr>cp_id = ''k'', cp_name = ''k'', cp_type = '''', cp_namespaces = [], cp_dirty = False,
     cp_ports = [(''p'', demo_clean_port)], cp_workers = [], cp_attributes = [], cp_parent_stack = [],
     cp_replication_indices = []\<rparr>"

definition demo_clean_container :: Container where
  "demo_clean_container = \<lparr>ct_id = ''c'', ct_name = ''c'', ct_type = '''', ct_container_type = Generic,
     ct_management_port = '''', ct_orb_port = '''', ct_is_node_manager_master = True, ct_dirty = False,
     ct_late_joiner = False, ct_components = [(''k'', demo_clean_component)], ct_loggers = []\<rparr>"

definition demo_clean_node :: Node where
  "demo_clean_node = \<lparr>nd_id = ''n'', nd_name = ''n'', nd_ip = ''10.0.0.1'', nd_implicit_container_id = ''c'',
     nd_containers = [(''c'', demo_clean_container)], nd_dirty = False\<rparr>"

definition demo_clean_experiment :: Experiment where
  "demo_clean_experiment = \<lparr>ex_model_name = ''x'', ex_master_publisher_port = ''30000'',
     ex_master_registration_port = ''30001'', ex_master_ip_address = ''10.0.0.1'', ex_manager_port = ''40001'',
     ex_shutdown = False, ex_node_map = [(''10.0.0.1'', demo_clean_node)], ex_external_port_map = [],
     ex_blackbox_port_map = [], ex_external_id_to_internal_id_map = [], ex_state = ACTIVE, ex_dirty = False\<rparr>"

definition demo_clean_env :: Environment where
  "demo_clean_env =
     \<lparr>env_ip_address = ''10.0.0.9'', env_qpid_broker_address = '''', env_tao_naming_service_address = '''',
      env_port_range_min = 30000, env_port_range_max = 30005, env_manager_port_range_min = 40000,
      env_manager_port_range_max = 40005, env_experiment_map = [(''x'', demo_clean_experiment)], env_node_map = [],
      env_node_ip_map = [], env_node_name_map = [], env_external_eventport_map = [],
      env_update_publisher_port = ''40000'', env_available_ports = uq_new, env_available_node_manager_ports = uq_new,
      env_published = [], env_clock = 0, env_indet = \<lambda>_. False\<rparr>"

lemmas demo_clean_defs = demo_clean_env_def demo_clean_experiment_def demo_clean_node_def demo_clean_container_def
  demo_clean_component_def demo_clean_port_def

theorem Port_SetDirty_marks_path_witness:
  "\<exists>env' ex'. Port_SetDirty ''x'' (DeployedPort ''10.0.0.1'' ''c'' ''k'' ''p'') demo_clean_env = (Inr (), env') \<and>
     map_of (env_experiment_map env') ''x'' = Some ex' \<and> Experiment_IsDirty ex'"
proof -
  have "map_of (env_experiment_map demo_clean_env) ''x'' = Some demo_clean_experiment"
    "map_of (ex_node_map demo_clean_experiment) ''10.0.0.1'' = Some demo_clean_node"
    "map_of (nd_containers demo_clean_node) ''c'' = Some demo_clean_container"
    "map_of (ct_components demo_clean_container) ''k'' = Some demo_clean_component"
    "map_of (cp_ports demo_clean_component) ''p'' = Some demo_clean_port"
    by (simp_all add: demo_clean_env_def demo_clean_experiment_def demo_clean_node_def demo_clean_container_def
        demo_clean_component_def)
  from Port_SetDirty_marks_path [OF this] show ?thesis by blast
qed

end
