(* ===== verification/EMResources.thy ===== *)
theory EMResources
  imports EMLookup
begin

text \<open>
  The part of \<^verbatim>\<open>environment.cpp\<close> that hands out ports and keeps the table of external ports,
  with the two sides an experiment shows it (\<open>UpdatePort\<close> and the
  \<open>Add/RemoveExternal...Port\<close> of \<^verbatim>\<open>experiment.cpp\<close>).
\<close>

section \<open>Construction and port allocation\<close>

definition Environment_GetManagerPort :: "(Environment, string) em" where
  "Environment_GetManagerPort env =
     (let q = env_available_node_manager_ports env in
      if uq_empty q
      then (Inl (InvalidArgument ''Environment::GetManagerPort no Available Node Manager Ports: ''), env)
      else case uq_front q of
             Inl e \<Rightarrow> (Inl e, env)
           | Inr port \<Rightarrow>
               (case uq_pop q of
                  Inl e \<Rightarrow> (Inl e, env)
                | Inr q' \<Rightarrow> (Inr (to_string port), env\<lparr>env_available_node_manager_ports := q'\<rparr>)))"

text \<open>Only \<open>std::invalid_argument\<close> is caught; a number too big for an \<open>int\<close> escapes.\<close>

definition Environment_FreeManagerPort :: "string \<Rightarrow> (Environment, unit) em" where
  "Environment_FreeManagerPort port =
     catchE is_invalid_argument
       (bindE (liftE (stoi port)) (\<lambda>port_number.
        modifyE (\<lambda>env. env\<lparr>env_available_node_manager_ports :=
          snd (uq_push port_number (env_available_node_manager_ports env))\<rparr>)))
       (\<lambda>_. returnE ())"

text \<open>The three assertions abort; otherwise the two ranges are filled (the node range with
  both ends, the manager range without its upper end) and the update publisher takes the first
  manager port.\<close>

definition Environment_ctor ::
  "string \<Rightarrow> string \<Rightarrow> string \<Rightarrow> int \<Rightarrow> int \<Rightarrow> (string \<Rightarrow> bool) \<Rightarrow> int \<Rightarrow> exn + Environment" where
  "Environment_ctor ip_address qpid_broker_address tao_naming_service_address
      port_range_min port_range_max indet now =
     (let env = \<lparr>env_ip_address = ip_address, env_qpid_broker_address = qpid_broker_address,
            env_tao_naming_service_address = tao_naming_service_address,
            env_port_range_min = port_range_min, env_port_range_max = port_range_max,
            env_manager_port_range_min = port_range_min + 10000,
            env_manager_port_range_max = port_range_max + 10000,
            env_experiment_map = [], env_node_map = [], env_node_ip_map = [], env_node_name_map = [],
            env_external_eventport_map = [], env_update_publisher_port = '''',
            env_available_ports = uq_push_all [port_range_min..port_range_max] uq_new,
            env_available_node_manager_ports =
              uq_push_all [port_range_min + 10000..port_range_max + 10000 - 1] uq_new,
            env_published = [], env_clock = now, env_indet = indet\<rparr>
      in if \<not> (env_manager_port_range_max env < 65535 \<and>
               env_port_range_min env < env_port_range_max env \<and>
               env_manager_port_range_min env < env_manager_port_range_max env)
         then Inl (Undefined ''assert'')
         else case Environment_GetManagerPort env of
                (Inl e, _) \<Rightarrow> Inl e
              | (Inr p, env') \<Rightarrow> Inr (env'\<lparr>env_update_publisher_port := p\<rparr>))"

definition Environment_GetPort :: "string \<Rightarrow> (Environment, string) em" where
  "Environment_GetPort ip_address env =
     (case map_of (env_node_map env) ip_address of
        Some t \<Rightarrow>
          (case PortTracker_GetPort t of
             (r, t') \<Rightarrow> (r, env\<lparr>env_node_map := umap_modify ip_address (\<lambda>_. t') (env_node_map env)\<rparr>))
      | None \<Rightarrow>
          (Inl (InvalidArgument (''Environment::GetPort No node found with ip address: '' @ quoted ip_address)), env))"

definition Environment_FreePort :: "string \<Rightarrow> string \<Rightarrow> Environment \<Rightarrow> Environment" where
  "Environment_FreePort ip_address port_number env =
     (if umap_count (env_node_map env) ip_address
      then env\<lparr>env_node_map := umap_modify ip_address (PortTracker_FreePort port_number) (env_node_map env)\<rparr>
      else env)"

definition Environment_AddNodeToEnvironment :: "Node_pb \<Rightarrow> Environment \<Rightarrow> Environment" where
  "Environment_AddNodeToEnvironment node env =
     (let node_name = info_name (npb_info node); ip = npb_ip_address node in
      if \<not> umap_count (env_node_map env) ip
      then env\<lparr>env_node_ip_map := umap_emplace node_name ip (env_node_ip_map env),
               env_node_name_map := umap_emplace ip node_name (env_node_name_map env),
               env_node_map := umap_emplace ip
                 (PortTracker_SetName node_name (PortTracker_ctor ip (env_available_ports env)))
                 (env_node_map env)\<rparr>
      else env)"

definition Environment_GetAmqpBrokerAddress :: "Environment \<Rightarrow> exn + string" where
  "Environment_GetAmqpBrokerAddress env =
     (if env_qpid_broker_address env = ''''
      then Inl (RuntimeError ''Qpid broker address not set in environment manager.'')
      else Inr (env_qpid_broker_address env))"

definition Environment_GetTaoNamingServiceAddress :: "Environment \<Rightarrow> exn + string" where
  "Environment_GetTaoNamingServiceAddress env =
     (if env_tao_naming_service_address env = ''''
      then Inl (RuntimeError ''TAO naming service not set in environment manager.'')
      else Inr (env_tao_naming_service_address env))"

section \<open>External ports\<close>

definition Environment_GetExperimentInternal :: "string \<Rightarrow> (Environment, Experiment) em" where
  "Environment_GetExperimentInternal experiment_name env =
     (case map_of (env_experiment_map env) experiment_name of
        Some ex \<Rightarrow> (Inr ex, env)
      | None \<Rightarrow> (Inl (InvalidArgument (''No registered experiments: '' @ quoted experiment_name)), env))"

definition Experiment_IsConfigured :: "Experiment \<Rightarrow> bool" where
  "Experiment_IsConfigured ex \<longleftrightarrow> ex_state ex = CONFIGURED"

definition Experiment_IsRegistered :: "Experiment \<Rightarrow> bool" where
  "Experiment_IsRegistered ex \<longleftrightarrow> ex_state ex = Registered"

definition Experiment_IsActive :: "Experiment \<Rightarrow> bool" where
  "Experiment_IsActive ex \<longleftrightarrow> ex_state ex = ACTIVE"

definition Experiment_GetExternalPort :: "Experiment \<Rightarrow> string \<Rightarrow> exn + Exp_ExternalPort" where
  "Experiment_GetExternalPort ex external_port_internal_id =
     (if umap_count (ex_external_port_map ex) external_port_internal_id
      then umap_at (ex_external_port_map ex) external_port_internal_id
      else Inl (InvalidArgument (''Experiment: '' @ quoted (ex_model_name ex) @
        '' doesn't have external port id: '' @ quoted external_port_internal_id)))"

definition Experiment_GetExternalPortLabel :: "Experiment \<Rightarrow> string \<Rightarrow> exn + string" where
  "Experiment_GetExternalPortLabel ex internal_port_id =
     (case Experiment_GetExternalPort ex internal_port_id of
        Inl e \<Rightarrow> Inl e | Inr p \<Rightarrow> Inr (xp_external_label p))"

definition Experiment_GetExternalPortInternalId :: "Experiment \<Rightarrow> string \<Rightarrow> exn + string" where
  "Experiment_GetExternalPortInternalId ex external_port_label =
     (if umap_count (ex_external_id_to_internal_id_map ex) external_port_label
      then umap_at (ex_external_id_to_internal_id_map ex) external_port_label
      else Inl (RuntimeError (''Experiment: '' @ quoted (ex_model_name ex) @
        '' doesn't have an external port with label '' @ quoted external_port_label)))"

definition Experiment_UpdatePort :: "string \<Rightarrow> string \<Rightarrow> (Environment, unit) em" where
  "Experiment_UpdatePort x external_port_label =
     bindE (the_experiment x) (\<lambda>ex.
     whenE (Experiment_IsConfigured ex \<or> Experiment_IsActive ex)
       (case map_of (ex_external_id_to_internal_id_map ex) external_port_label of
          None \<Rightarrow> returnE ()
        | Some internal_id \<Rightarrow>
            bindE (liftE (Experiment_GetExternalPort ex internal_id)) (\<lambda>external_port.
            forE (xp_consumer_ids external_port) (\<lambda>port_id.
              bindE (the_experiment x) (\<lambda>ex'.
              bindE (liftE (Experiment_GetPort ex' port_id)) (\<lambda>r.
              Port_SetDirty x r))))))"

definition Environment_GetExternalPort :: "string \<Rightarrow> (Environment, Env_ExternalPort) em" where
  "Environment_GetExternalPort external_port_label env =
     (case map_of (env_external_eventport_map env) external_port_label of
        Some p \<Rightarrow> (Inr p, env)
      | None \<Rightarrow> (Inl (RuntimeError (''Environment doesn't have an External Port with ID: ''
           @ quoted external_port_label)), env))"

definition ensure_external_port :: "string \<Rightarrow> Environment \<Rightarrow> Environment" where
  "ensure_external_port l env =
     (if \<not> umap_count (env_external_eventport_map env) l
      then env\<lparr>env_external_eventport_map := umap_emplace l
             \<lparr>vp_external_label = l, vp_producer_experiments = [], vp_consumer_experiments = []\<rparr>
             (env_external_eventport_map env)\<rparr>
      else env)"

definition upd_external_port ::
  "string \<Rightarrow> (Env_ExternalPort \<Rightarrow> Env_ExternalPort) \<Rightarrow> Environment \<Rightarrow> Environment" where
  "upd_external_port l f env =
     env\<lparr>env_external_eventport_map := umap_modify l f (env_external_eventport_map env)\<rparr>"

definition Environment_AddExternalConsumerPort :: "string \<Rightarrow> string \<Rightarrow> (Environment, unit) em" where
  "Environment_AddExternalConsumerPort experiment_name external_port_label =
     bindE (modifyE (ensure_external_port external_port_label)) (\<lambda>_.
     bindE (Environment_GetExternalPort external_port_label) (\<lambda>_.
     modifyE (upd_external_port external_port_label
       (\<lambda>p. p\<lparr>vp_consumer_experiments := sset_insert experiment_name (vp_consumer_experiments p)\<rparr>))))"

definition update_consumers :: "string \<Rightarrow> (Environment, unit) em" where
  "update_consumers external_port_label =
     bindE (Environment_GetExternalPort external_port_label) (\<lambda>p.
     forE (vp_consumer_experiments p) (\<lambda>consumer_experiment_name.
       bindE (Environment_GetExperimentInternal consumer_experiment_name) (\<lambda>_.
       Experiment_UpdatePort consumer_experiment_name external_port_label)))"

definition Environment_AddExternalProducerPort :: "string \<Rightarrow> string \<Rightarrow> (Environment, unit) em" where
  "Environment_AddExternalProducerPort experiment_name external_port_label =
     bindE (modifyE (ensure_external_port external_port_label)) (\<lambda>_.
     bindE (Environment_GetExternalPort external_port_label) (\<lambda>_.
     bindE (modifyE (upd_external_port external_port_label
       (\<lambda>p. p\<lparr>vp_producer_experiments := sset_insert experiment_name (vp_producer_experiments p)\<rparr>))) (\<lambda>_.
     update_consumers external_port_label)))"

definition Environment_RemoveExternalConsumerPort :: "string \<Rightarrow> string \<Rightarrow> (Environment, unit) em" where
  "Environment_RemoveExternalConsumerPort experiment_name external_port_label =
     bindE (Environment_GetExternalPort external_port_label) (\<lambda>_.
     modifyE (upd_external_port external_port_label
       (\<lambda>p. p\<lparr>vp_consumer_experiments := sset_erase experiment_name (vp_consumer_experiments p)\<rparr>)))"

definition Environment_RemoveExternalProducerPort :: "string \<Rightarrow> string \<Rightarrow> (Environment, unit) em" where
  "Environment_RemoveExternalProducerPort experiment_name external_port_label =
     bindE (Environment_GetExternalPort external_port_label) (\<lambda>_.
     bindE (modifyE (upd_external_port external_port_label
       (\<lambda>p. p\<lparr>vp_producer_experiments := sset_erase experiment_name (vp_producer_experiments p)\<rparr>))) (\<lambda>_.
     update_consumers external_port_label))"

text \<open>The experiment's side. Every exception is swallowed. \<open>ex\<close> is the experiment itself; a
  change to its own tables goes through its name, and is lost when the experiment is already
  out of the environment's map, where nothing can read it any more.\<close>

definition upd_exp_external_port ::
  "string \<Rightarrow> string \<Rightarrow> (Exp_ExternalPort \<Rightarrow> Exp_ExternalPort) \<Rightarrow> Environment \<Rightarrow> Environment" where
  "upd_exp_external_port x i f = upd_experiment x
     (\<lambda>ex. ex\<lparr>ex_external_port_map := umap_modify i f (ex_external_port_map ex)\<rparr>)"

definition Experiment_AddExternalConsumerPort :: "Experiment \<Rightarrow> string \<Rightarrow> string \<Rightarrow> (Environment, unit) em" where
  "Experiment_AddExternalConsumerPort ex external_port_internal_id internal_port_id =
     catchE is_std_exception
       (bindE (liftE (Experiment_GetExternalPort ex external_port_internal_id)) (\<lambda>external_port.
        bindE (Environment_AddExternalConsumerPort (ex_model_name ex) (xp_external_label external_port)) (\<lambda>_.
        modifyE (upd_exp_external_port (ex_model_name ex) external_port_internal_id
          (\<lambda>p. p\<lparr>xp_consumer_ids := sset_insert internal_port_id (xp_consumer_ids p)\<rparr>)))))
       (\<lambda>_. returnE ())"

definition Experiment_AddExternalProducerPort :: "Experiment \<Rightarrow> string \<Rightarrow> string \<Rightarrow> (Environment, unit) em" where
  "Experiment_AddExternalProducerPort ex external_port_internal_id internal_port_id =
     catchE is_std_exception
       (bindE (liftE (Experiment_GetExternalPort ex external_port_internal_id)) (\<lambda>external_port.
        bindE (Environment_AddExternalProducerPort (ex_model_name ex) (xp_external_label external_port)) (\<lambda>_.
        modifyE (upd_exp_external_port (ex_model_name ex) external_port_internal_id
          (\<lambda>p. p\<lparr>xp_producer_ids := sset_insert internal_port_id (xp_producer_ids p)\<rparr>)))))
       (\<lambda>_. returnE ())"

definition Experiment_RemoveExternalConsumerPort :: "Experiment \<Rightarrow> string \<Rightarrow> string \<Rightarrow> (Environment, unit) em" where
  "Experiment_RemoveExternalConsumerPort ex external_port_internal_id internal_port_id =
     catchE is_std_exception
       (bindE (liftE (Experiment_GetExternalPort ex external_port_internal_id)) (\<lambda>external_port.
        bindE (Environment_RemoveExternalConsumerPort (ex_model_name ex) (xp_external_label external_port)) (\<lambda>_.
        modifyE (upd_exp_external_port (ex_model_name ex) external_port_internal_id
          (\<lambda>p. p\<lparr>xp_consumer_ids := sset_erase internal_port_id (xp_consumer_ids p)\<rparr>)))))
       (\<lambda>_. returnE ())"

definition Experiment_RemoveExternalProducerPort :: "Experiment \<Rightarrow> string \<Rightarrow> string \<Rightarrow> (Environment, unit) em" where
  "Experiment_RemoveExternalProducerPort ex external_port_internal_id internal_port_id =
     catchE is_std_exception
       (bindE (liftE (Experiment_GetExternalPort ex external_port_internal_id)) (\<lambda>external_port.
        bindE (Environment_RemoveExternalProducerPort (ex_model_name ex) (xp_external_label external_port)) (\<lambda>_.
        modifyE (upd_exp_external_port (ex_model_name ex) external_port_internal_id
          (\<lambda>p. p\<lparr>xp_producer_ids := sset_erase internal_port_id (xp_producer_ids p)\<rparr>)))))
       (\<lambda>_. returnE ())"

section \<open>Properties\<close>

lemma GetManagerPort_Cons:
  assumes "uq_wf (env_available_node_manager_ports env)" "m_queue (env_available_node_manager_ports env) = p # ps"
  obtains q where "Environment_GetManagerPort env = (Inr (to_string p), env\<lparr>env_available_node_manager_ports := q\<rparr>)"
    "m_queue q = ps" "uq_wf q"
proof -
  from uq.pop_tl [OF assms] obtain q where q: "uq_pop (env_available_node_manager_ports env) = Inr q" "m_queue q = ps" "uq_wf q"
    by blast
  have "Environment_GetManagerPort env = (Inr (to_string p), env\<lparr>env_available_node_manager_ports := q\<rparr>)"
    using q(1) uq.front_hd [OF assms] assms(2) by (simp add: Environment_GetManagerPort_def uq_empty_def Let_def)
  then show thesis using q(2,3) by (rule that)
qed

text \<open>
  A manager port that is taken and given back is free again, as the last in the queue, and no
  other manager port changes hands: the string handed out is read back by \<open>stoi\<close> as the port that
  was taken.
\<close>
theorem manager_port_roundtrip:
  assumes "uq_wf (env_available_node_manager_ports env)"
    and "list_all int_range (m_queue (env_available_node_manager_ports env))"
    and "Environment_GetManagerPort env = (Inr p, env')"
  shows "\<exists>env''. Environment_FreeManagerPort p env' = (Inr (), env'') \<and>
    m_queue (env_available_node_manager_ports env'') =
      tl (m_queue (env_available_node_manager_ports env)) @ [hd (m_queue (env_available_node_manager_ports env))]"
proof (cases "m_queue (env_available_node_manager_ports env)")
  case Nil
  then show ?thesis using assms(3) by (simp add: Environment_GetManagerPort_def uq_empty_def)
next
  case (Cons i ps)
  from GetManagerPort_Cons [OF assms(1) Cons] obtain q where
    q: "p = to_string i" "env' = env\<lparr>env_available_node_manager_ports := q\<rparr>" "m_queue q = ps" "uq_wf q"
    using assms(3) by (metis prod.inject sum.inject(2))
  have i: "int_range i" "i \<notin> set ps" using assms(1,2) Cons by (auto simp: uq_wf_def)
  then have "stoi p = Inr i" using q(1) by (simp add: int_range_def stoi_to_string)
  moreover obtain q' where "uq_push i q = (True, q')" "m_queue q' = ps @ [i]"
    using uq.push_new [OF q(4)] i(2) q(3) by blast
  ultimately show ?thesis using Cons q(2) by (simp add: Environment_FreeManagerPort_def em_defs)
qed

definition demo_manager_env :: Environment where
  "demo_manager_env =
     (case Environment_ctor ''10.0.0.9'' '''' '''' 30000 30003 (\<lambda>_. False) 0 of Inr env \<Rightarrow> env)"

lemma demo_manager_env:
  "env_available_node_manager_ports demo_manager_env = \<lparr>m_queue = [40001, 40002], m_set = [40001, 40002]\<rparr>"
  by (simp add: demo_manager_env_def Environment_ctor_def Let_def Environment_GetManagerPort_def uq_push_all_def uq_push_def
      uq_new_def uq_empty_def uq_front_def uq_pop_def sset_insert_def sset_erase_def upto.simps)

theorem manager_port_roundtrip_witness:
  "\<exists>env''. Environment_FreeManagerPort (to_string 40001) (snd (Environment_GetManagerPort demo_manager_env)) = (Inr (), env'') \<and>
     m_queue (env_available_node_manager_ports env'') = [40002, 40001]"
proof -
  have wf: "uq_wf (env_available_node_manager_ports demo_manager_env)"
    "list_all int_range (m_queue (env_available_node_manager_ports demo_manager_env))"
    by (simp_all add: demo_manager_env uq_wf_def sset_wf_def int_range_def int_min_def int_max_def)
  have "fst (Environment_GetManagerPort demo_manager_env) = Inr (to_string 40001)"
    using demo_manager_env by (simp add: Environment_GetManagerPort_def uq_empty_def uq_front_def uq_pop_def)
  then have "Environment_GetManagerPort demo_manager_env = (Inr (to_string 40001), snd (Environment_GetManagerPort demo_manager_env))"
    by (metis prod.collapse)
  from manager_port_roundtrip [OF wf this] show ?thesis by (simp add: demo_manager_env)
qed

text \<open>
  The bounds of the ports. An environment that is constructed at all starts with exactly the
  node ports \<open>port_range_min\<close> to \<open>port_range_max\<close>, both included; the update publisher has taken
  the first manager port \<open>port_range_min + 10000\<close>, and the manager ports left are those below
  \<open>port_range_max + 10000\<close>, which itself is never handed out. All of them are below 65535.
\<close>
theorem Environment_ctor_ports:
  assumes "Environment_ctor ip qpid tao lo hi indet now = Inr env"
  shows "m_queue (env_available_ports env) = [lo..hi] \<and>
    m_queue (env_available_node_manager_ports env) = [lo + 10001..hi + 9999] \<and>
    env_update_publisher_port env = to_string (lo + 10000) \<and> lo < hi \<and> hi + 10000 < 65535"
proof -
  let ?mq = "uq_push_all [lo + 10000..hi + 10000 - 1] uq_new" and ?q = "uq_push_all [lo..hi] uq_new"
  have b: "lo < hi" "hi + 10000 < 65535"
    using assms by (auto simp: Environment_ctor_def Let_def split: if_splits)
  have nil: "m_queue (uq_new :: int unique_queue) = []" by (simp add: uq_new_def)
  have wf: "uq_wf ?mq" by (simp add: uq_push_all_wf)
  have q: "m_queue ?q = [lo..hi]" using uq_push_all_items [OF uq_wf_new, of "[lo..hi]"] by (simp add: nil)
  have mq: "m_queue ?mq = [lo + 10000..hi + 10000 - 1]"
    using uq_push_all_items [OF uq_wf_new, of "[lo + 10000..hi + 10000 - 1]"] by (simp add: nil)
  also have "\<dots> = (lo + 10000) # [lo + 10001..hi + 9999]" using b(1) by (simp add: upto_rec1 ac_simps)
  finally have mqc: "m_queue ?mq = (lo + 10000) # [lo + 10001..hi + 9999]" .
  let ?e = "\<lparr>env_ip_address = ip, env_qpid_broker_address = qpid,
            env_tao_naming_service_address = tao, env_port_range_min = lo, env_port_range_max = hi,
            env_manager_port_range_min = lo + 10000, env_manager_port_range_max = hi + 10000,
            env_experiment_map = [], env_node_map = [], env_node_ip_map = [], env_node_name_map = [],
            env_external_eventport_map = [], env_update_publisher_port = '''',
            env_available_ports = ?q, env_available_node_manager_ports = ?mq,
            env_published = [], env_clock = now, env_indet = indet\<rparr>"
  obtain q' where "Environment_GetManagerPort ?e =
      (Inr (to_string (lo + 10000)), ?e\<lparr>env_available_node_manager_ports := q'\<rparr>)" and q': "m_queue q' = [lo + 10001..hi + 9999]"
    by (rule GetManagerPort_Cons [of ?e "lo + 10000" "[lo + 10001..hi + 9999]"]) (use wf mqc in simp_all)
  then have "env = ?e\<lparr>env_available_node_manager_ports := q', env_update_publisher_port := to_string (lo + 10000)\<rparr>"
    using assms unfolding Environment_ctor_def Let_def by (simp split: if_splits)
  then show ?thesis using b q q' by simp
qed

theorem Environment_ctor_ports_witness:
  "m_queue (env_available_ports demo_manager_env) = [30000..30003] \<and>
   m_queue (env_available_node_manager_ports demo_manager_env) = [40001..40002] \<and>
   env_update_publisher_port demo_manager_env = to_string 40000"
proof -
  have "Environment_ctor ''10.0.0.9'' '''' '''' 30000 30003 (\<lambda>_. False) 0 = Inr demo_manager_env"
    by (simp add: demo_manager_env_def Environment_ctor_def Let_def Environment_GetManagerPort_def uq_push_all_def uq_push_def
      uq_new_def uq_empty_def uq_front_def uq_pop_def sset_insert_def sset_erase_def upto.simps)
  from Environment_ctor_ports [OF this] show ?thesis by simp
qed

text \<open>
  One port leaves, the whole experiment leaves. When a single consumer port of an experiment
  is removed from an external port, the environment strikes the experiment itself off the list of
  consumers of that label, although the experiment's own table still names every other port of its
  that consumes it.
\<close>
theorem RemoveExternalConsumerPort_strikes_experiment:
  assumes "map_of (env_experiment_map env) (ex_model_name ex) = Some ex"
    and "map_of (ex_external_port_map ex) i = Some xp"
    and "map_of (env_external_eventport_map env) (xp_external_label xp) = Some vp"
  shows "\<exists>env' ex' xp' vp'. Experiment_RemoveExternalConsumerPort ex i p env = (Inr (), env') \<and>
    map_of (env_external_eventport_map env') (xp_external_label xp) = Some vp' \<and>
    ex_model_name ex \<notin> set (vp_consumer_experiments vp') \<and>
    map_of (env_experiment_map env') (ex_model_name ex) = Some ex' \<and>
    map_of (ex_external_port_map ex') i = Some xp' \<and>
    set (xp_consumer_ids xp') = set (xp_consumer_ids xp) - {p}"
  using assms
  by (simp add: Experiment_RemoveExternalConsumerPort_def Experiment_GetExternalPort_def umap_count_def umap_at_def
      Environment_RemoveExternalConsumerPort_def Environment_GetExternalPort_def ev_rules upd_external_port_def
      upd_exp_external_port_def upd_experiment_def)

definition demo_consumer :: Experiment where
  "demo_consumer = \<lparr>ex_model_name = ''x'', ex_master_publisher_port = '''', ex_master_registration_port = '''',
     ex_master_ip_address = '''', ex_manager_port = '''', ex_shutdown = False, ex_node_map = [],
     ex_external_port_map = [(''e'', \<lparr>xp_external_label = ''label'', xp_internal_id = ''e'', xp_type = '''',
        xp_middleware = Zmq, xp_kind = EP_PubSub, xp_producer_ids = [], xp_consumer_ids = [''p1'', ''p2'']\<rparr>)],
     ex_blackbox_port_map = [], ex_external_id_to_internal_id_map = [(''label'', ''e'')],
     ex_state = CONFIGURED, ex_dirty = False\<rparr>"

definition demo_consumer_env :: Environment where
  "demo_consumer_env = demo_manager_env\<lparr>env_experiment_map := [(''x'', demo_consumer)],
     env_external_eventport_map := [(''label'', \<lparr>vp_external_label = ''label'', vp_producer_experiments = [],
        vp_consumer_experiments = [''x'']\<rparr>)]\<rparr>"

theorem RemoveExternalConsumerPort_strikes_experiment_witness:
  "\<exists>env' ex' xp' vp'. Experiment_RemoveExternalConsumerPort demo_consumer ''e'' ''p1'' demo_consumer_env = (Inr (), env') \<and>
    map_of (env_external_eventport_map env') ''label'' = Some vp' \<and> ''x'' \<notin> set (vp_consumer_experiments vp') \<and>
    map_of (env_experiment_map env') ''x'' = Some ex' \<and> map_of (ex_external_port_map ex') ''e'' = Some xp' \<and>
    set (xp_consumer_ids xp') = {''p2''}"
proof -
  have "map_of (env_experiment_map demo_consumer_env) (ex_model_name demo_consumer) = Some demo_consumer"
    by (simp add: demo_consumer_env_def demo_consumer_def)
  moreover have "map_of (ex_external_port_map demo_consumer) ''e'' = Some (snd (hd (ex_external_port_map demo_consumer)))"
    by (simp add: demo_consumer_def)
  moreover have "map_of (env_external_eventport_map demo_consumer_env) (xp_external_label (snd (hd (ex_external_port_map demo_consumer))))
     = Some (snd (hd (env_external_eventport_map demo_consumer_env)))"
    by (simp add: demo_consumer_env_def demo_consumer_def)
  ultimately have "\<exists>env' ex' xp' vp'. Experiment_RemoveExternalConsumerPort demo_consumer ''e'' ''p1'' demo_consumer_env = (Inr (), env') \<and>
    map_of (env_external_eventport_map env') (xp_external_label (snd (hd (ex_external_port_map demo_consumer)))) = Some vp' \<and>
    ex_model_name demo_consumer \<notin> set (vp_consumer_experiments vp') \<and>
    map_of (env_experiment_map env') (ex_model_name demo_consumer) = Some ex' \<and>
    map_of (ex_external_port_map ex') ''e'' = Some xp' \<and>
    set (xp_consumer_ids xp') = set (xp_consumer_ids (snd (hd (ex_external_port_map demo_consumer)))) - {''p1''}"
    by (rule RemoveExternalConsumerPort_strikes_experiment)
  then show ?thesis by (simp add: demo_consumer_def insert_Diff_if)
qed

end
