(* ===== verification/EMPort.thy ===== *)
theory EMPort
  imports EMResources
begin

text \<open>
  \<open>EnvironmentManager::Port\<close> and its subclasses (\<^verbatim>\<open>ports/port.cpp\<close>, \<^verbatim>\<open>zmqport.cpp\<close>,
  \<^verbatim>\<open>qpidport.cpp\<close>, \<^verbatim>\<open>taoport.cpp\<close>, \<^verbatim>\<open>ddsport.cpp\<close>, \<^verbatim>\<open>periodicport.cpp\<close>). Constructors run on the
  environment together with the container that holds the component under construction, because
  a TAO port makes the container take an ORB port. When the body of a subclass constructor
  throws, the base part is complete and its destructor runs before the exception leaves
  (\<open>with_base\<close>). The member \<open>kind_\<close> of a blackbox port is never set in the code and never
  read; it is \<open>NoKind\<close> here.
\<close>

section \<open>Translations\<close>

fun Port_TranslateProtoKind :: "Port_Kind_pb \<Rightarrow> Port_Kind" where
  "Port_TranslateProtoKind NO_KIND = NoKind"
| "Port_TranslateProtoKind PERIODIC = Periodic"
| "Port_TranslateProtoKind PUBLISHER = Publisher"
| "Port_TranslateProtoKind SUBSCRIBER = Subscriber"
| "Port_TranslateProtoKind REQUESTER = Requester"
| "Port_TranslateProtoKind REPLIER = Replier"
| "Port_TranslateProtoKind (PORT_KIND_UNNAMED _) = NoKind"

fun Port_TranslateInternalKind :: "Port_Kind \<Rightarrow> Port_Kind_pb" where
  "Port_TranslateInternalKind NoKind = NO_KIND"
| "Port_TranslateInternalKind Periodic = PERIODIC"
| "Port_TranslateInternalKind Publisher = PUBLISHER"
| "Port_TranslateInternalKind Subscriber = SUBSCRIBER"
| "Port_TranslateInternalKind Requester = REQUESTER"
| "Port_TranslateInternalKind Replier = REPLIER"

fun Port_TranslateProtoMiddleware :: "Middleware_pb \<Rightarrow> Middleware" where
  "Port_TranslateProtoMiddleware NO_MIDDLEWARE = NoMiddleware"
| "Port_TranslateProtoMiddleware ZMQ = Zmq"
| "Port_TranslateProtoMiddleware RTI = Rti"
| "Port_TranslateProtoMiddleware OSPL = Ospl"
| "Port_TranslateProtoMiddleware QPID = Qpid"
| "Port_TranslateProtoMiddleware TAO = Tao"
| "Port_TranslateProtoMiddleware (MIDDLEWARE_UNNAMED _) = NoMiddleware"

fun Port_TranslateInternalMiddleware :: "Middleware \<Rightarrow> Middleware_pb" where
  "Port_TranslateInternalMiddleware NoMiddleware = NO_MIDDLEWARE"
| "Port_TranslateInternalMiddleware Zmq = ZMQ"
| "Port_TranslateInternalMiddleware Rti = RTI"
| "Port_TranslateInternalMiddleware Ospl = OSPL"
| "Port_TranslateInternalMiddleware Qpid = QPID"
| "Port_TranslateInternalMiddleware Tao = TAO"

section \<open>The base class\<close>

definition Port_AddInternalConnectedPortId :: "string \<Rightarrow> Port \<Rightarrow> Port" where
  "Port_AddInternalConnectedPortId i pt = pt\<lparr>pt_connected_internal := sset_insert i (pt_connected_internal pt)\<rparr>"

definition Port_AddExternalConnectedPortId :: "string \<Rightarrow> Port \<Rightarrow> Port" where
  "Port_AddExternalConnectedPortId i pt = pt\<lparr>pt_connected_external := sset_insert i (pt_connected_external pt)\<rparr>"

definition Port_IsBlackbox :: "Port \<Rightarrow> bool" where
  "Port_IsBlackbox pt \<longleftrightarrow> pt_blackbox_type pt = BB_PubSub \<or> pt_blackbox_type pt = BB_ReqRep"

definition is_producer :: "Port_Kind \<Rightarrow> bool" where
  "is_producer k \<longleftrightarrow> k = Publisher \<or> k = Replier"

definition is_consumer :: "Port_Kind \<Rightarrow> bool" where
  "is_consumer k \<longleftrightarrow> k = Subscriber \<or> k = Requester"

text \<open>The members the initialiser list and the assignments give, before any registration.\<close>

definition Port_init :: "Port_pb \<Rightarrow> port_detail \<Rightarrow> Port" where
  "Port_init port d =
     \<lparr>pt_id = info_id (ppb_info port), pt_name = info_name (ppb_info port),
      pt_type = info_type (ppb_info port), pt_namespaces = info_namespaces (ppb_info port),
      pt_kind = Port_TranslateProtoKind (ppb_kind port),
      pt_middleware = Port_TranslateProtoMiddleware (ppb_middleware port),
      pt_blackbox_type = NotBlackbox, pt_dirty = False,
      pt_connected_internal = [], pt_connected_external = [], pt_detail = d\<rparr>"

definition Port_register_external :: "string \<Rightarrow> Port \<Rightarrow> string \<Rightarrow> (Environment, unit) em" where
  "Port_register_external x pt connected_id =
     bindE (the_experiment x) (\<lambda>ex.
     if is_producer (pt_kind pt) then Experiment_AddExternalProducerPort ex connected_id (pt_id pt)
     else if is_consumer (pt_kind pt) then Experiment_AddExternalConsumerPort ex connected_id (pt_id pt)
     else returnE ())"

definition Port_base_ctor :: "string \<Rightarrow> Port_pb \<Rightarrow> port_detail \<Rightarrow> (Environment, Port) em" where
  "Port_base_ctor x port d =
     (let pt = Port_init port d in
      bindE (forE (ppb_connected_external_ports port) (Port_register_external x pt)) (\<lambda>_.
      returnE (foldl (\<lambda>pt i. Port_AddInternalConnectedPortId i pt)
                (foldl (\<lambda>pt i. Port_AddExternalConnectedPortId i pt) pt (ppb_connected_external_ports port))
                (ppb_connected_ports port))))"

definition Port_base_dtor :: "Experiment \<Rightarrow> Port \<Rightarrow> (Environment, unit) em" where
  "Port_base_dtor ex pt =
     forE (pt_connected_external pt) (\<lambda>connected_id.
       if is_producer (pt_kind pt) then Experiment_RemoveExternalProducerPort ex connected_id (pt_id pt)
       else if is_consumer (pt_kind pt) then Experiment_RemoveExternalConsumerPort ex connected_id (pt_id pt)
       else returnE ())"

definition with_base :: "string \<Rightarrow> Port \<Rightarrow> (Environment \<times> Container, 'a) em \<Rightarrow> (Environment \<times> Container, 'a) em" where
  "with_base x pt m = catchE is_std_exception m (\<lambda>e.
     bindE (on_fst (bindE (the_experiment x) (\<lambda>ex. Port_base_dtor ex pt))) (\<lambda>_. throwE e))"

definition Port_blackbox_init :: "ExternalPort_pb \<Rightarrow> port_detail \<Rightarrow> Port" where
  "Port_blackbox_init port d =
     \<lparr>pt_id = info_id (epb_info port), pt_name = info_name (epb_info port),
      pt_type = info_type (epb_info port), pt_namespaces = info_namespaces (epb_info port),
      pt_kind = NoKind, pt_middleware = Port_TranslateProtoMiddleware (epb_middleware port),
      pt_blackbox_type =
        (if epb_kind port = PUBSUB \<and> epb_is_blackbox port then BB_PubSub
         else if epb_kind port = SERVER \<and> epb_is_blackbox port then BB_ReqRep
         else NotBlackbox),
      pt_dirty = False, pt_connected_internal = sset_of (epb_connected_ports port),
      pt_connected_external = [], pt_detail = d\<rparr>"

section \<open>Subclass constructors\<close>

definition Container_HasOrbPort :: "Container \<Rightarrow> bool" where
  "Container_HasOrbPort ct \<longleftrightarrow> ct_orb_port ct \<noteq> ''''"

definition Container_AssignOrbPort :: "string \<Rightarrow> (Environment \<times> Container, string) em" where
  "Container_AssignOrbPort ip =
     bindE getE (\<lambda>(_, ct).
     bindE (whenE (\<not> Container_HasOrbPort ct)
       (bindE (on_fst (Environment_GetPort ip)) (\<lambda>p.
        modifyE (\<lambda>(env, ct). (env, ct\<lparr>ct_orb_port := p\<rparr>))))) (\<lambda>_.
     bindE getE (\<lambda>(_, ct'). returnE (ct_orb_port ct'))))"

definition zmq_Port_ctor :: "string \<Rightarrow> string \<Rightarrow> Port_pb \<Rightarrow> (Environment \<times> Container, Port) em" where
  "zmq_Port_ctor x ip port =
     bindE (on_fst (Port_base_ctor x port (ZmqPort '''' '''' ''''))) (\<lambda>pt.
     with_base x pt
       (if is_producer (pt_kind pt)
        then bindE (on_fst (Environment_GetPort ip)) (\<lambda>p.
             returnE (pt\<lparr>pt_detail := ZmqPort ip p (''tcp://'' @ ip @ '':'' @ p)\<rparr>))
        else returnE (pt\<lparr>pt_detail := ZmqPort '''' '''' (''tcp://'' @ '''' @ '':'' @ '''')\<rparr>)))"

definition qpid_Port_ctor :: "string \<Rightarrow> Port_pb \<Rightarrow> (Environment \<times> Container, Port) em" where
  "qpid_Port_ctor x port =
     bindE (on_fst (Port_base_ctor x port (QpidPort '''' ''''))) (\<lambda>pt.
     with_base x pt
       (if is_producer (pt_kind pt)
        then bindE getE (\<lambda>(env, _).
             bindE (liftE (Environment_GetAmqpBrokerAddress env)) (\<lambda>broker_address.
             bindE (liftE (get_string_attribute (ppb_attributes port) ''topic_name'')) (\<lambda>topic_name.
             returnE (pt\<lparr>pt_detail := QpidPort topic_name broker_address\<rparr>))))
        else returnE pt))"

definition tao_Port_ctor ::
  "string \<Rightarrow> string \<Rightarrow> string \<Rightarrow> string \<Rightarrow> Port_pb \<Rightarrow> (Environment \<times> Container, Port) em" where
  "tao_Port_ctor x ip comp_name comp_id port =
     bindE (on_fst (Port_base_ctor x port (TaoPort [] '''' '''' ''''))) (\<lambda>pt.
     with_base x pt
       (bindE (Container_AssignOrbPort ip) (\<lambda>orb_port.
        bindE (on_fst (the_experiment x)) (\<lambda>ex.
        bindE getE (\<lambda>(env, _).
        bindE (liftE (Environment_GetTaoNamingServiceAddress env)) (\<lambda>naming_service_endpoint.
        returnE (pt\<lparr>pt_detail := TaoPort
            [ex_model_name ex, comp_name @ ''_'' @ comp_id, pt_name pt @ ''_'' @ pt_id pt]
            naming_service_endpoint
            (''iiop://'' @ ip @ '':'' @ orb_port)
            (if pt_kind pt = Replier then ''medea_port'' else '''')\<rparr>)))))))"

definition dds_Port_ctor :: "string \<Rightarrow> Port_pb \<Rightarrow> (Environment \<times> Container, Port) em" where
  "dds_Port_ctor x port =
     bindE (on_fst (Port_base_ctor x port (DdsPort '''' 0))) (\<lambda>pt.
     with_base x pt
       (bindE (liftE (get_string_attribute (ppb_attributes port) ''topic_name'')) (\<lambda>topic_name.
        returnE (pt\<lparr>pt_detail := DdsPort topic_name 0\<rparr>))))"

text \<open>\<open>1.0\<close> has the bit pattern \<open>0x3FF0000000000000\<close>.\<close>

definition PeriodicPort_ctor :: "string \<Rightarrow> Port_pb \<Rightarrow> (Environment \<times> Container, Port) em" where
  "PeriodicPort_ctor x port =
     bindE (on_fst (Port_base_ctor x port (PeriodicPort 0x3FF0000000000000))) (\<lambda>pt.
     with_base x pt
       (bindE (liftE (GetAttribute (ppb_attributes port) ''Frequency'')) (\<lambda>attribute.
        returnE (pt\<lparr>pt_detail := PeriodicPort (apb_d attribute)\<rparr>))))"

text \<open>The location of the component a port is made for: experiment, node address, and the
  component's name and id.\<close>

record port_site =
  site_experiment :: string
  site_ip :: string
  site_component_name :: string
  site_component_id :: string

definition Port_ConstructPort :: "port_site \<Rightarrow> Port_pb \<Rightarrow> (Environment \<times> Container, Port option) em" where
  "Port_ConstructPort site port =
     (let x = site_experiment site; ip = site_ip site in
      catchE is_std_exception
        (case ppb_middleware port of
           ZMQ \<Rightarrow> bindE (zmq_Port_ctor x ip port) (\<lambda>p. returnE (Some p))
         | QPID \<Rightarrow> bindE (qpid_Port_ctor x port) (\<lambda>p. returnE (Some p))
         | TAO \<Rightarrow> bindE (tao_Port_ctor x ip (site_component_name site) (site_component_id site) port)
                   (\<lambda>p. returnE (Some p))
         | RTI \<Rightarrow> bindE (dds_Port_ctor x port) (\<lambda>p. returnE (Some p))
         | OSPL \<Rightarrow> bindE (dds_Port_ctor x port) (\<lambda>p. returnE (Some p))
         | NO_MIDDLEWARE \<Rightarrow>
             if ppb_kind port = PERIODIC
             then bindE (PeriodicPort_ctor x port) (\<lambda>p. returnE (Some p))
             else returnE None
         | MIDDLEWARE_UNNAMED _ \<Rightarrow> returnE None)
        (\<lambda>_. returnE None))"

section \<open>Blackbox ports\<close>

definition zmq_blackbox_ctor :: "ExternalPort_pb \<Rightarrow> exn + Port" where
  "zmq_blackbox_ctor port =
     (let pt = Port_blackbox_init port (ZmqPort '''' '''' '''') in
      case pt_blackbox_type pt of
        BB_PubSub \<Rightarrow> (case get_string_attribute (epb_attributes port) ''publisher_address'' of
            Inl e \<Rightarrow> Inl e | Inr a \<Rightarrow> Inr (pt\<lparr>pt_detail := ZmqPort '''' '''' a\<rparr>))
      | BB_ReqRep \<Rightarrow> (case get_string_attribute (epb_attributes port) ''server_address'' of
            Inl e \<Rightarrow> Inl e | Inr a \<Rightarrow> Inr (pt\<lparr>pt_detail := ZmqPort '''' '''' a\<rparr>))
      | NotBlackbox \<Rightarrow> Inr pt)"

definition qpid_blackbox_ctor :: "ExternalPort_pb \<Rightarrow> exn + Port" where
  "qpid_blackbox_ctor port =
     (case get_string_attribute (epb_attributes port) ''broker_address'' of
        Inl e \<Rightarrow> Inl e
      | Inr broker_address \<Rightarrow>
          (case get_string_attribute (epb_attributes port) ''topic_name'' of
             Inl e \<Rightarrow> Inl e
           | Inr topic_name \<Rightarrow>
               if broker_address = '''' then Inl (RuntimeError ''QPID External Port requires at broker address'')
               else if topic_name = '''' then Inl (RuntimeError ''QPID External Port requires a topic name'')
               else Inr (Port_blackbox_init port (QpidPort topic_name broker_address))))"

definition tao_blackbox_ctor :: "ExternalPort_pb \<Rightarrow> exn + Port" where
  "tao_blackbox_ctor port =
     (case get_string_attribute (epb_attributes port) ''naming_server_endpoint'' of
        Inl e \<Rightarrow> Inl e
      | Inr naming_service_endpoint \<Rightarrow>
          (case GetAttribute (epb_attributes port) ''server_name'' of
             Inl e \<Rightarrow> Inl e
           | Inr attr \<Rightarrow>
               (case get_string_attribute (epb_attributes port) ''server_kind'' of
                  Inl e \<Rightarrow> Inl e
                | Inr server_kind \<Rightarrow>
                    if apb_s attr = [] then Inl (RuntimeError ''TAO External Port requires at least one server_name'')
                    else if naming_service_endpoint = ''''
                      then Inl (RuntimeError ''TAO External Port a qualified naming_server_endpoint'')
                    else if server_kind = '''' then Inl (RuntimeError ''TAO External Port requires a server_kind.'')
                    else Inr (Port_blackbox_init port
                      (TaoPort (apb_s attr) naming_service_endpoint '''' server_kind)))))"

text \<open>\<open>domain_id_\<close> is an \<open>int\<close>: the \<open>int64\<close> of the message is cut to 32 bits.\<close>

definition dds_blackbox_ctor :: "ExternalPort_pb \<Rightarrow> exn + Port" where
  "dds_blackbox_ctor port =
     (case get_string_attribute (epb_attributes port) ''topic_name'' of
        Inl e \<Rightarrow> Inl e
      | Inr topic_name \<Rightarrow>
          (case GetAttribute (epb_attributes port) ''domain_id'' of
             Inl e \<Rightarrow> Inl e
           | Inr a \<Rightarrow> Inr (Port_blackbox_init port (DdsPort topic_name (sint (ucast (apb_i a) :: 32 word))))))"

text \<open>Exceptions become a null pointer; undefined behaviour stays undefined.\<close>

definition Port_ConstructBlackboxPort :: "ExternalPort_pb \<Rightarrow> exn + Port option" where
  "Port_ConstructBlackboxPort port =
     (let r = (case epb_middleware port of
           ZMQ \<Rightarrow> map_sum id Some (zmq_blackbox_ctor port)
         | QPID \<Rightarrow> map_sum id Some (qpid_blackbox_ctor port)
         | TAO \<Rightarrow> map_sum id Some (tao_blackbox_ctor port)
         | RTI \<Rightarrow> map_sum id Some (dds_blackbox_ctor port)
         | OSPL \<Rightarrow> map_sum id Some (dds_blackbox_ctor port)
         | _ \<Rightarrow> Inr None)
      in case r of Inl e \<Rightarrow> if is_std_exception e then Inr None else Inl e | Inr p \<Rightarrow> Inr p)"

section \<open>Destruction\<close>

definition zmq_Port_dtor :: "Port \<Rightarrow> Environment \<Rightarrow> Environment" where
  "zmq_Port_dtor pt env =
     (case pt_detail pt of
        ZmqPort ip producer_port _ \<Rightarrow>
          if \<not> Port_IsBlackbox pt \<and> is_producer (pt_kind pt)
          then Environment_FreePort ip producer_port env else env
      | _ \<Rightarrow> env)"

definition Port_dtor :: "Experiment \<Rightarrow> Port \<Rightarrow> (Environment, unit) em" where
  "Port_dtor ex pt = bindE (modifyE (zmq_Port_dtor pt)) (\<lambda>_. Port_base_dtor ex pt)"

section \<open>Connected ports\<close>

definition port_value :: "Experiment \<Rightarrow> string \<Rightarrow> exn + Port" where
  "port_value ex i =
     (case Experiment_GetPort ex i of
        Inl e \<Rightarrow> Inl e
      | Inr r \<Rightarrow> (case port_at ex r of None \<Rightarrow> Inl (Undefined ''dangling port'') | Some pt \<Rightarrow> Inr pt))"

definition Experiment_GetExternalProducerPorts :: "Experiment \<Rightarrow> string \<Rightarrow> exn + Port list" where
  "Experiment_GetExternalProducerPorts ex external_port_label =
     (case Experiment_GetExternalPortInternalId ex external_port_label of
        Inl e \<Rightarrow> if is_runtime_error e then Inr [] else Inl e
      | Inr internal_port_id \<Rightarrow>
          (case Experiment_GetExternalPort ex internal_port_id of
             Inl e \<Rightarrow> if is_runtime_error e then Inr [] else Inl e
           | Inr external_port \<Rightarrow> sum_map (port_value ex) (xp_producer_ids external_port)))"

definition Environment_GetExternalProducerPorts :: "Environment \<Rightarrow> string \<Rightarrow> exn + Port list" where
  "Environment_GetExternalProducerPorts env external_port_label =
     (case fst (Environment_GetExternalPort external_port_label env) of
        Inl e \<Rightarrow> Inl e
      | Inr external_port \<Rightarrow>
          map_sum id concat (sum_map
            (\<lambda>experiment_name.
               case fst (Environment_GetExperimentInternal experiment_name env) of
                 Inl e \<Rightarrow> Inl e
               | Inr experiment \<Rightarrow> Experiment_GetExternalProducerPorts experiment external_port_label)
            (sort (vp_producer_experiments external_port))))"

text \<open>\<open>try { ... } catch (const std::exception&) {}\<close> around a lookup.\<close>

definition swallow :: "'a \<Rightarrow> exn + 'a \<Rightarrow> exn + 'a" where
  "swallow d r = (case r of Inl e \<Rightarrow> if is_std_exception e then Inr d else Inl e | Inr a \<Rightarrow> Inr a)"

definition Port_GetConnectedPorts :: "Environment \<Rightarrow> Experiment \<Rightarrow> Port \<Rightarrow> exn + Port list" where
  "Port_GetConnectedPorts env ex pt =
     (let internal = sum_map (\<lambda>i. swallow [] (map_sum id (\<lambda>p. [p]) (port_value ex i)))
            (pt_connected_internal pt);
          external = sum_map (\<lambda>i.
             case port_value ex i of
               Inr p \<Rightarrow> Inr [p]
             | Inl e \<Rightarrow>
                 if \<not> is_std_exception e then Inl e
                 else swallow []
                   (case Experiment_GetExternalPortLabel ex i of
                      Inl e \<Rightarrow> Inl e
                    | Inr l \<Rightarrow> Environment_GetExternalProducerPorts env l))
            (pt_connected_external pt)
      in case internal of Inl e \<Rightarrow> Inl e
         | Inr is \<Rightarrow> (case external of Inl e \<Rightarrow> Inl e | Inr es \<Rightarrow> Inr (concat is @ concat es)))"

section \<open>Filling the message of a port\<close>

text \<open>The code downcasts connected ports with \<open>(const Port&)\<close>, unchecked.\<close>

definition qpid_members :: "Port \<Rightarrow> exn + string \<times> string" where
  "qpid_members p = (case pt_detail p of QpidPort t b \<Rightarrow> Inr (t, b) | _ \<Rightarrow> Inl (Undefined ''cast to qpid::Port''))"

definition dds_members :: "Port \<Rightarrow> exn + string \<times> int" where
  "dds_members p = (case pt_detail p of DdsPort t d \<Rightarrow> Inr (t, d) | _ \<Rightarrow> Inl (Undefined ''cast to dds::Port''))"

definition tao_members :: "Port \<Rightarrow> exn + string list \<times> string \<times> string" where
  "tao_members p = (case pt_detail p of
     TaoPort n e _ k \<Rightarrow> Inr (n, e, k) | _ \<Rightarrow> Inl (Undefined ''cast to tao::Port''))"

definition zmq_endpoint :: "Port \<Rightarrow> exn + string" where
  "zmq_endpoint p = (case pt_detail p of ZmqPort _ _ e \<Rightarrow> Inr e | _ \<Rightarrow> Inl (Undefined ''cast to zmq::Port''))"

definition set_first :: "'a::linorder \<Rightarrow> 'a list \<Rightarrow> 'a" where
  "set_first d xs = (case sset_of xs of [] \<Rightarrow> d | y # _ \<Rightarrow> y)"

text \<open>\<open>GetConnectedPorts()\<close> is only evaluated by the branches that use it.\<close>

definition on_ports :: "exn + Port list \<Rightarrow> (Port list \<Rightarrow> exn + 'a) \<Rightarrow> exn + 'a" where
  "on_ports connected f = (case connected of Inl e \<Rightarrow> Inl e | Inr ps \<Rightarrow> f ps)"

definition zmq_FillPortPb :: "Port \<Rightarrow> exn + Port list \<Rightarrow> PbAttrMap \<Rightarrow> exn + PbAttrMap" where
  "zmq_FillPortPb pt connected attrs =
     (case pt_kind pt of
        Publisher \<Rightarrow> map_sum id (SetStringAttribute attrs ''publisher_address'') (zmq_endpoint pt)
      | Replier \<Rightarrow> map_sum id (SetStringAttribute attrs ''server_address'') (zmq_endpoint pt)
      | Subscriber \<Rightarrow>
          map_sum id (SetStringListAttribute attrs ''publisher_addresses'')
            (on_ports connected (\<lambda>ps. sum_map zmq_endpoint (filter (\<lambda>p. pt_middleware p = Zmq) ps)))
      | Requester \<Rightarrow>
          on_ports connected (\<lambda>ps.
            case filter (\<lambda>p. pt_middleware p = Zmq) ps of
              [] \<Rightarrow> Inr attrs
            | p # _ \<Rightarrow> map_sum id (SetStringAttribute attrs ''server_address'') (zmq_endpoint p))
      | _ \<Rightarrow> Inr attrs)"

definition qpid_FillPortPb :: "Port \<Rightarrow> exn + Port list \<Rightarrow> PbAttrMap \<Rightarrow> exn + PbAttrMap" where
  "qpid_FillPortPb pt connected attrs =
     (case qpid_members pt of
        Inl e \<Rightarrow> Inl e
      | Inr (topic, broker) \<Rightarrow>
          if is_producer (pt_kind pt) then
            map_sum id (\<lambda>ms. SetStringAttribute
                (SetStringAttribute attrs ''topic_name'' (set_first topic (map fst ms)))
                ''broker'' (set_first broker (map snd ms)))
              (on_ports connected (\<lambda>ps. sum_map qpid_members (filter Port_IsBlackbox ps)))
          else if is_consumer (pt_kind pt) then
            map_sum id (\<lambda>ms. SetStringAttribute
                (SetStringAttribute attrs ''broker'' (set_first broker (map snd ms)))
                ''topic_name'' (set_first topic (map fst ms)))
              (on_ports connected (sum_map qpid_members))
          else Inr attrs)"

definition dds_FillPortPb :: "Port \<Rightarrow> exn + Port list \<Rightarrow> PbAttrMap \<Rightarrow> exn + PbAttrMap" where
  "dds_FillPortPb pt connected attrs =
     (case dds_members pt of
        Inl e \<Rightarrow> Inl e
      | Inr (topic, domain) \<Rightarrow>
          (case pt_kind pt of
             Publisher \<Rightarrow>
               map_sum id (\<lambda>ms. SetIntegerAttribute
                   (SetStringAttribute attrs ''topic_name'' (set_first topic (map fst ms)))
                   ''domain_id'' (set_first domain (map snd ms)))
                 (on_ports connected (\<lambda>ps. sum_map dds_members (filter Port_IsBlackbox ps)))
           | Subscriber \<Rightarrow>
               map_sum id (\<lambda>ms. SetStringAttribute
                   (SetIntegerAttribute attrs ''domain_id'' (set_first domain (map snd ms)))
                   ''topic_name'' (set_first topic (map fst ms)))
                 (on_ports connected (sum_map dds_members))
           | _ \<Rightarrow> Inr attrs))"

definition tao_FillPortPb :: "Port \<Rightarrow> exn + Port list \<Rightarrow> PbAttrMap \<Rightarrow> exn + PbAttrMap" where
  "tao_FillPortPb pt connected attrs =
     (case pt_detail pt of
        TaoPort server_name naming_service_endpoint orb_endpoint server_kind \<Rightarrow>
          (let attrs1 = (if \<not> Port_IsBlackbox pt then SetStringAttribute attrs ''orb_endpoint'' orb_endpoint
                         else attrs) in
           case pt_kind pt of
             Replier \<Rightarrow>
               map_sum id (\<lambda>ms. SetStringAttribute (SetStringAttribute
                   (SetStringListAttribute attrs1 ''server_name'' (set_first server_name (map fst ms)))
                   ''server_kind'' server_kind)
                   ''naming_service_endpoint'' (set_first naming_service_endpoint (map (fst \<circ> snd) ms)))
                 (on_ports connected (\<lambda>ps. sum_map tao_members (filter Port_IsBlackbox ps)))
           | Requester \<Rightarrow>
               on_ports connected (\<lambda>ps. case ps of
                  [] \<Rightarrow> Inr attrs1
                | p # _ \<Rightarrow>
                    map_sum id (\<lambda>(n, e, k). SetStringAttribute (SetStringAttribute
                        (SetStringListAttribute attrs1 ''server_name'' n) ''server_kind'' k)
                        ''naming_service_endpoint'' e) (tao_members p))
           | _ \<Rightarrow> Inr attrs1)
      | _ \<Rightarrow> Inl (Undefined ''tao::Port''))"

definition Port_FillPortPb :: "Port \<Rightarrow> exn + Port list \<Rightarrow> PbAttrMap \<Rightarrow> exn + PbAttrMap" where
  "Port_FillPortPb pt connected attrs =
     (case pt_detail pt of
        ZmqPort _ _ _ \<Rightarrow> zmq_FillPortPb pt connected attrs
      | QpidPort _ _ \<Rightarrow> qpid_FillPortPb pt connected attrs
      | TaoPort _ _ _ _ \<Rightarrow> tao_FillPortPb pt connected attrs
      | DdsPort _ _ \<Rightarrow> dds_FillPortPb pt connected attrs
      | PeriodicPort f \<Rightarrow> Inr (SetDoubleAttribute attrs ''frequency'' f))"

text \<open>\<open>GetProto\<close> leaves the port as it is: unlike the other classes it does not clear
  \<open>dirty_\<close>.\<close>

definition Port_GetProto :: "Environment \<Rightarrow> Experiment \<Rightarrow> bool \<Rightarrow> Port \<Rightarrow> exn + Port_pb option" where
  "Port_GetProto env ex full_update pt =
     (if pt_dirty pt \<or> full_update then
        (case Port_FillPortPb pt (Port_GetConnectedPorts env ex pt) [] of
           Inl e \<Rightarrow> Inl e
         | Inr attrs \<Rightarrow> Inr (Some
             \<lparr>ppb_info = \<lparr>info_name = pt_name pt, info_id = pt_id pt, info_type = pt_type pt,
                         info_namespaces = pt_namespaces pt\<rparr>,
              ppb_kind = Port_TranslateInternalKind (pt_kind pt),
              ppb_middleware = Port_TranslateInternalMiddleware (pt_middleware pt),
              ppb_attributes = attrs,
              ppb_connected_ports = pt_connected_internal pt,
              ppb_connected_external_ports = pt_connected_external pt\<rparr>))
      else Inr None)"

section \<open>Properties\<close>

text \<open>
  Kinds and middlewares of ports survive the translation to the wire and back, and the named
  values of the wire survive the translation into the environment manager and back; only a number
  the protocol does not name is turned into the default.
\<close>
theorem Port_translations_inverse:
  "Port_TranslateProtoKind (Port_TranslateInternalKind k) = k \<and>
   Port_TranslateProtoMiddleware (Port_TranslateInternalMiddleware m) = m \<and>
   (Port_TranslateInternalKind (Port_TranslateProtoKind kpb) = kpb \<or> (\<exists>i. kpb = PORT_KIND_UNNAMED i)) \<and>
   (Port_TranslateInternalMiddleware (Port_TranslateProtoMiddleware mpb) = mpb \<or> (\<exists>i. mpb = MIDDLEWARE_UNNAMED i))"
  by (cases k; cases m; cases kpb; cases mpb) simp_all

end
