(* ===== verification/EMComponent.thy ===== *)
theory EMComponent
  imports EMPort
begin

text \<open>
  \<open>EnvironmentManager::Component\<close> (\<^verbatim>\<open>component.cpp\<close>). A port whose id is taken is built,
  refused by \<open>emplace\<close> and destroyed, which runs its destructor.
\<close>

fun Component_add_ports ::
  "port_site \<Rightarrow> Port_pb list \<Rightarrow> (string, Port) umap \<Rightarrow> (Environment \<times> Container, (string, Port) umap) em" where
  "Component_add_ports site [] ports = returnE ports"
| "Component_add_ports site (port_pb # pbs) ports =
     bindE (Port_ConstructPort site port_pb) (\<lambda>port.
     case port of
       None \<Rightarrow> Component_add_ports site pbs ports
     | Some pt \<Rightarrow>
         if umap_count ports (info_id (ppb_info port_pb))
         then bindE (on_fst (bindE (the_experiment (site_experiment site)) (\<lambda>ex. Port_dtor ex pt))) (\<lambda>_.
              Component_add_ports site pbs ports)
         else Component_add_ports site pbs (umap_emplace (info_id (ppb_info port_pb)) pt ports))"

definition workers_ctor :: "(string \<Rightarrow> bool) \<Rightarrow> Worker_pb list \<Rightarrow> (string, Worker) umap" where
  "workers_ctor ind ws = foldl (\<lambda>m w. umap_emplace (info_id (wpb_info w)) (Worker_ctor ind w) m) [] ws"

definition Component_ctor :: "string \<Rightarrow> string \<Rightarrow> Component_pb \<Rightarrow> (Environment \<times> Container, Component) em" where
  "Component_ctor x ip component =
     (let info = cpb_info component;
          site = \<lparr>site_experiment = x, site_ip = ip, site_component_name = info_name info,
                  site_component_id = info_id info\<rparr> in
      bindE (Component_add_ports site (cpb_ports component) []) (\<lambda>ports.
      bindE getE (\<lambda>(env, _).
      returnE
        \<lparr>cp_id = info_id info, cp_name = info_name info, cp_type = info_type info,
         cp_namespaces = info_namespaces info, cp_dirty = env_indet env (info_id info),
         cp_ports = ports,
         cp_workers = workers_ctor (env_indet env) (cpb_workers component),
         cp_attributes = attributes_ctor (env_indet env) (cpb_attributes component),
         cp_parent_stack = cpb_location component,
         cp_replication_indices = cpb_replicate_indices component\<rparr>)))"

text \<open>The implicit destructor: the ports go, in the order of the map.\<close>

definition Component_dtor :: "Experiment \<Rightarrow> Component \<Rightarrow> (Environment, unit) em" where
  "Component_dtor ex cp = forE (map snd (cp_ports cp)) (Port_dtor ex)"

fun workers_GetProto :: "bool \<Rightarrow> (string, Worker) umap \<Rightarrow> Worker_pb list \<times> (string, Worker) umap" where
  "workers_GetProto full [] = ([], [])"
| "workers_GetProto full ((k, w) # ws) =
     (let (pb, w') = Worker_GetProto full w; (pbs, ws') = workers_GetProto full ws
      in ((case pb of None \<Rightarrow> pbs | Some p \<Rightarrow> p # pbs), (k, w') # ws'))"

definition somes :: "'a option list \<Rightarrow> 'a list" where
  "somes xs = map the (filter (\<lambda>z. z \<noteq> None) xs)"

definition Component_GetProto ::
  "string \<Rightarrow> string \<Rightarrow> string \<Rightarrow> string \<Rightarrow> bool \<Rightarrow> (Environment, Component_pb option) em" where
  "Component_GetProto x n c k full_update =
     bindE (the_component x n c k) (\<lambda>cp.
     if cp_dirty cp \<or> full_update then
       bindE (the_experiment x) (\<lambda>ex.
       bindE getE (\<lambda>env.
       bindE (liftE (sum_map (\<lambda>(_, pt). Port_GetProto env ex full_update pt) (cp_ports cp))) (\<lambda>port_pbs.
       let (worker_pbs, workers') = workers_GetProto full_update (cp_workers cp);
           (attrs, attributes') = attributes_GetProto full_update (cp_attributes cp) [] in
       bindE (modifyE (upd_component x n c k (\<lambda>cp.
         cp\<lparr>cp_workers := workers', cp_attributes := attributes', cp_dirty := False\<rparr>))) (\<lambda>_.
       returnE (Some
         \<lparr>cpb_info = \<lparr>info_name = cp_name cp, info_id = cp_id cp, info_type = cp_type cp,
                     info_namespaces = cp_namespaces cp\<rparr>,
          cpb_ports = somes port_pbs, cpb_attributes = attrs, cpb_workers = worker_pbs,
          cpb_replicate_indices = cp_replication_indices cp,
          cpb_location = cp_parent_stack cp\<rparr>)))))
     else returnE None)"

end
