(* ===== verification/EMLogger.thy ===== *)
theory EMLogger
  imports EMPort
begin

text \<open>
  \<open>EnvironmentManager::Logger\<close> (\<^verbatim>\<open>logger.cpp\<close>). A publisher port is only taken when it is first
  asked for; the message of a logging server asks every client it collects from. Members the
  constructors leave unset are 0 or \<open>Off\<close> here and are not read for the type in question.
\<close>

definition MODEL_LOGGER_ID :: string where "MODEL_LOGGER_ID = ''model_logger''"
definition EXPERIMENT_LOGGER_ID :: string where "EXPERIMENT_LOGGER_ID = ''experiment_logger''"

fun Logger_TranslateProtoMode :: "Logger_Mode_pb \<Rightarrow> Logger_Mode" where
  "Logger_TranslateProtoMode OFF = LM_Off"
| "Logger_TranslateProtoMode CACHED = LM_Cached"
| "Logger_TranslateProtoMode LIVE = LM_Live"
| "Logger_TranslateProtoMode (LOGGER_MODE_UNNAMED _) = LM_Off"

fun Logger_TranslateInternalMode :: "Logger_Mode \<Rightarrow> Logger_Mode_pb" where
  "Logger_TranslateInternalMode LM_Off = OFF"
| "Logger_TranslateInternalMode LM_Cached = CACHED"
| "Logger_TranslateInternalMode LM_Live = LIVE"

fun Logger_TranslateProtoType :: "Logger_Type_pb \<Rightarrow> Logger_Type" where
  "Logger_TranslateProtoType LOGGER_MODEL = LT_Model"
| "Logger_TranslateProtoType LOGGER_CLIENT = LT_Client"
| "Logger_TranslateProtoType LOGGER_SERVER = LT_Server"
| "Logger_TranslateProtoType _ = LT_None"

text \<open>The table has no row for \<open>Type::Experiment\<close>.\<close>

fun Logger_TranslateInternalType :: "Logger_Type \<Rightarrow> Logger_Type_pb" where
  "Logger_TranslateInternalType LT_None = LOGGER_NONE"
| "Logger_TranslateInternalType LT_Model = LOGGER_MODEL"
| "Logger_TranslateInternalType LT_Client = LOGGER_CLIENT"
| "Logger_TranslateInternalType LT_Server = LOGGER_SERVER"
| "Logger_TranslateInternalType LT_Experiment = LOGGER_NONE"

definition Logger_blank :: Logger where
  "Logger_blank = \<lparr>lg_id = '''', lg_type = LT_None, lg_frequency = 0, lg_mode = LM_Off,
     lg_publisher_port = '''', lg_processes = [], lg_connected_client_ids = [],
     lg_db_file_name = '''', lg_dirty = False\<rparr>"

definition Logger_ctor :: "Logger_pb \<Rightarrow> exn + Logger" where
  "Logger_ctor logger =
     (let lg = Logger_blank\<lparr>lg_id := lpb_id logger, lg_type := Logger_TranslateProtoType (lpb_type logger)\<rparr> in
      case lg_type lg of
        LT_Client \<Rightarrow> Inr (lg\<lparr>lg_frequency := lpb_frequency logger,
            lg_mode := Logger_TranslateProtoMode (lpb_mode logger),
            lg_processes := sset_of (lpb_processes logger)\<rparr>)
      | LT_Model \<Rightarrow> Inr (lg\<lparr>lg_mode := Logger_TranslateProtoMode (lpb_mode logger)\<rparr>)
      | LT_Server \<Rightarrow> Inr (lg\<lparr>lg_db_file_name := lpb_db_file_name logger,
            lg_connected_client_ids :=
              sset_of (lpb_client_ids logger @ [MODEL_LOGGER_ID, EXPERIMENT_LOGGER_ID])\<rparr>)
      | _ \<Rightarrow> Inl (RuntimeError ''Unhandle Logger Type''))"

definition Logger_internal_ctor :: "Logger_Type \<Rightarrow> Logger_Mode \<Rightarrow> Logger" where
  "Logger_internal_ctor type mode = Logger_blank\<lparr>lg_type := type, lg_mode := mode\<rparr>"

definition Logger_dtor :: "string \<Rightarrow> Logger \<Rightarrow> Environment \<Rightarrow> Environment" where
  "Logger_dtor ip lg env =
     (if lg_publisher_port lg \<noteq> '''' then Environment_FreePort ip (lg_publisher_port lg) env else env)"

definition Logger_SetMode :: "Logger_Mode \<Rightarrow> Logger \<Rightarrow> Logger" where
  "Logger_SetMode mode lg = lg\<lparr>lg_mode := mode\<rparr>"

definition Container_GetDeployedComponentCount :: "Container \<Rightarrow> nat" where
  "Container_GetDeployedComponentCount ct = length (ct_components ct)"

definition Logger_GetPublisherPort ::
  "string \<Rightarrow> string \<Rightarrow> string \<Rightarrow> string \<Rightarrow> (Environment, string) em" where
  "Logger_GetPublisherPort x n c l =
     bindE (the_logger x n c l) (\<lambda>lg.
     bindE (whenE (lg_publisher_port lg = '''')
       (if lg_type lg = LT_Server then throwE (RuntimeError ''No assigned port for Server'')
        else case lg_mode lg of
          LM_Off \<Rightarrow> throwE (RuntimeError ''No publisher port assigned'')
        | _ \<Rightarrow>
            bindE (the_container x n c) (\<lambda>ct.
            if Container_GetDeployedComponentCount ct = 0
            then throwE (RuntimeError ''No assigned port for logger with no deployed components'')
            else
              bindE (the_node x n) (\<lambda>nd.
              bindE (Environment_GetPort (nd_ip nd)) (\<lambda>p.
              modifyE (upd_logger x n c l (\<lambda>lg. lg\<lparr>lg_publisher_port := p\<rparr>))))))) (\<lambda>_.
     bindE (the_logger x n c l) (\<lambda>lg'. returnE (lg_publisher_port lg'))))"

definition Logger_GetPublisherEndpoint ::
  "string \<Rightarrow> string \<Rightarrow> string \<Rightarrow> string \<Rightarrow> (Environment, string) em" where
  "Logger_GetPublisherEndpoint x n c l =
     bindE (the_node x n) (\<lambda>nd.
     bindE (Logger_GetPublisherPort x n c l) (\<lambda>p.
     returnE (''tcp://'' @ nd_ip nd @ '':'' @ p)))"

text \<open>\<open>Node::GetLoggers\<close> and \<open>Experiment::GetLoggerClients\<close>: where the loggers with an
  id are, as node and container keys.\<close>

definition Node_GetLoggers :: "Node \<Rightarrow> string \<Rightarrow> string list" where
  "Node_GetLoggers nd logger_id =
     map fst (filter (\<lambda>(_, ct). umap_count (ct_loggers ct) logger_id) (nd_containers nd))"

definition Experiment_GetLoggerClients :: "Experiment \<Rightarrow> string \<Rightarrow> (string \<times> string) list" where
  "Experiment_GetLoggerClients ex logger_id =
     concat (map (\<lambda>(n, nd). map (Pair n) (Node_GetLoggers nd logger_id)) (ex_node_map ex))"

definition Logger_client_addresses :: "string \<Rightarrow> string list \<Rightarrow> (Environment, string list) em" where
  "Logger_client_addresses x client_ids =
     bindE (mapE (\<lambda>client_id.
       bindE (the_experiment x) (\<lambda>ex.
       bindE (mapE (\<lambda>(n, c).
           catchE is_runtime_error
             (bindE (Logger_GetPublisherEndpoint x n c client_id) (\<lambda>e. returnE [e]))
             (\<lambda>_. returnE []))
         (Experiment_GetLoggerClients ex client_id)) (\<lambda>es. returnE (concat es)))) client_ids) (\<lambda>ess.
     returnE (concat ess))"

definition Logger_fill ::
  "string \<Rightarrow> string \<Rightarrow> string \<Rightarrow> string \<Rightarrow> Logger \<Rightarrow> (Environment, Logger_pb option) em" where
  "Logger_fill x n c l lg =
     (case lg_type lg of
        LT_Server \<Rightarrow>
          bindE (Logger_client_addresses x (lg_connected_client_ids lg)) (\<lambda>as.
          returnE (Some (Logger_default\<lparr>lpb_client_addresses := as, lpb_db_file_name := lg_db_file_name lg\<rparr>)))
      | LT_Client \<Rightarrow>
          bindE (the_node x n) (\<lambda>nd.
          bindE (Logger_GetPublisherPort x n c l) (\<lambda>p.
          returnE (Some (Logger_default\<lparr>lpb_mode := Logger_TranslateInternalMode (lg_mode lg),
            lpb_processes := lg_processes lg, lpb_frequency := lg_frequency lg,
            lpb_publisher_address := nd_ip nd, lpb_publisher_port := p\<rparr>))))
      | LT_None \<Rightarrow> returnE None
      | _ \<Rightarrow>
          bindE (the_node x n) (\<lambda>nd.
          bindE (Logger_GetPublisherPort x n c l) (\<lambda>p.
          returnE (Some (Logger_default\<lparr>lpb_mode := Logger_TranslateInternalMode (lg_mode lg),
            lpb_publisher_address := nd_ip nd, lpb_publisher_port := p\<rparr>)))))"

definition Logger_GetProto ::
  "string \<Rightarrow> string \<Rightarrow> string \<Rightarrow> string \<Rightarrow> bool \<Rightarrow> (Environment, Logger_pb option) em" where
  "Logger_GetProto x n c l full_update =
     bindE (the_logger x n c l) (\<lambda>lg.
     if lg_dirty lg \<or> full_update then
       catchE is_runtime_error
         (bindE (Logger_fill x n c l lg) (\<lambda>pb.
          bindE (modifyE (upd_logger x n c l (\<lambda>lg. lg\<lparr>lg_dirty := False\<rparr>))) (\<lambda>_.
          returnE (map_option (\<lambda>p. p\<lparr>lpb_type := Logger_TranslateInternalType (lg_type lg)\<rparr>) pb))))
         (\<lambda>_. returnE None)
     else returnE None)"

section \<open>Properties\<close>

text \<open>
  The type of a logger survives the translation to the wire and back exactly when it is not
  the experiment logger: \<open>TranslateInternalType\<close> has no row for \<open>Type::Experiment\<close>, so the
  update message of the master's experiment logger says NONE.
\<close>
theorem Logger_type_roundtrip_iff:
  "Logger_TranslateProtoType (Logger_TranslateInternalType t) = t \<longleftrightarrow> t \<noteq> LT_Experiment"
  by (cases t) simp_all

text \<open>
  A logging server collects from everybody: whatever clients its description names, the server
  also connects to the model loggers and the experiment loggers, each id once and in order.
\<close>
theorem Logger_server_collects:
  assumes "lpb_type pb = LOGGER_SERVER"
  shows "\<exists>lg. Logger_ctor pb = Inr lg \<and> lg_type lg = LT_Server \<and>
    set (lg_connected_client_ids lg) = insert MODEL_LOGGER_ID (insert EXPERIMENT_LOGGER_ID (set (lpb_client_ids pb))) \<and>
    sorted (lg_connected_client_ids lg) \<and> distinct (lg_connected_client_ids lg)"
  using assms sset_wf_of [of "lpb_client_ids pb @ [MODEL_LOGGER_ID, EXPERIMENT_LOGGER_ID]"]
  by (auto simp: Logger_ctor_def Let_def sset_wf_def)

theorem Logger_server_collects_witness:
  "\<exists>lg. Logger_ctor (Logger_default\<lparr>lpb_type := LOGGER_SERVER, lpb_client_ids := [''a'']\<rparr>) = Inr lg \<and>
     set (lg_connected_client_ids lg) = {''model_logger'', ''experiment_logger'', ''a''}"
  using Logger_server_collects [of "Logger_default\<lparr>lpb_type := LOGGER_SERVER, lpb_client_ids := [''a'']\<rparr>"]
  by (auto simp: MODEL_LOGGER_ID_def EXPERIMENT_LOGGER_ID_def)

text \<open>
  A logger asks for its publisher port once: when \<open>GetPublisherPort\<close> has returned a port (not
  the empty string of an exhausted node), asking again returns the same port and changes nothing,
  so no second port is taken.
\<close>
theorem Logger_GetPublisherPort_once:
  assumes "Logger_GetPublisherPort x n c l env = (Inr p, env')" and "p \<noteq> ''''"
  shows "Logger_GetPublisherPort x n c l env' = (Inr p, env')"
proof -
  have "\<exists>lg. the_logger x n c l env' = (Inr lg, env') \<and> lg_publisher_port lg = p"
    using assms(1) unfolding Logger_GetPublisherPort_def the_logger_def
    by (auto simp: ev_rules deref_def split: prod.splits sum.splits option.splits if_splits)
  then show ?thesis using assms(2) by (auto simp: Logger_GetPublisherPort_def ev_rules)
qed

definition demo_logging_env :: Environment where
  "demo_logging_env = upd_container ''x'' ''10.0.0.1'' ''c''
     (\<lambda>ct. ct\<lparr>ct_loggers := [(''l'', Logger_blank\<lparr>lg_id := ''l'', lg_type := LT_Model, lg_mode := LM_Live\<rparr>)]\<rparr>)
     (demo_clean_env\<lparr>env_node_map := [(''10.0.0.1'', demo_tracker [30000, 30001])]\<rparr>)"

theorem Logger_GetPublisherPort_once_witness:
  "\<exists>env'. Logger_GetPublisherPort ''x'' ''10.0.0.1'' ''c'' ''l'' demo_logging_env = (Inr (to_string 30000), env') \<and>
     Logger_GetPublisherPort ''x'' ''10.0.0.1'' ''c'' ''l'' env' = (Inr (to_string 30000), env')"
proof -
  have "\<exists>env'. Logger_GetPublisherPort ''x'' ''10.0.0.1'' ''c'' ''l'' demo_logging_env = (Inr (to_string 30000), env')"
    by (simp add: demo_logging_env_def demo_clean_defs demo_tracker_def Logger_GetPublisherPort_def the_logger_def deref_def
        find_logger_def find_container_def find_node_def upd_container_def upd_container_in_def upd_node_def PortTracker_ctor_def upd_experiment_def upd_node_in_def umap_modify_def Logger_blank_def
        Environment_GetPort_def PortTracker_GetPort_def uq_empty_def uq_front_def uq_pop_def uq_push_all_def uq_push_def
        uq_new_def sset_insert_def sset_erase_def upd_logger_def upd_logger_in_def the_node_def Let_def ev_rules the_container_def
        Container_GetDeployedComponentCount_def cong: ev_cong)
  then obtain env' where r: "Logger_GetPublisherPort ''x'' ''10.0.0.1'' ''c'' ''l'' demo_logging_env = (Inr (to_string 30000), env')" ..
  from Logger_GetPublisherPort_once [OF r] r show ?thesis by auto
qed

end
