(* ===== verification/EMContainer.thy ===== *)
theory EMContainer
  imports EMComponent EMLogger
begin

text \<open>
  \<open>EnvironmentManager::Container\<close> (\<^verbatim>\<open>container.cpp\<close>). Operations that build components work on
  the environment together with the container itself. When the constructor throws, the members
  built so far are destroyed (loggers first, the reverse of their declaration) but the body of
  \<open>~Container\<close> does not run, so an ORB port taken by a component is not given back.
\<close>

definition upd_this :: "(Container \<Rightarrow> Container) \<Rightarrow> (Environment \<times> Container, unit) em" where
  "upd_this f = modifyE (\<lambda>(env, ct). (env, f ct))"

definition Container_GetComponent :: "Container \<Rightarrow> string \<Rightarrow> exn + Component" where
  "Container_GetComponent ct component_id = umap_at (ct_components ct) component_id"

definition Container_HasComponent :: "Container \<Rightarrow> string \<Rightarrow> bool" where
  "Container_HasComponent ct component_id = umap_count (ct_components ct) component_id"

definition Container_HasLogger :: "Container \<Rightarrow> string \<Rightarrow> bool" where
  "Container_HasLogger ct logger_id = umap_count (ct_loggers ct) logger_id"

definition Container_GetLogger :: "Container \<Rightarrow> string \<Rightarrow> exn + Logger" where
  "Container_GetLogger ct logger_id = umap_at (ct_loggers ct) logger_id"

definition Container_GetModelLogger :: "Container \<Rightarrow> exn + Logger" where
  "Container_GetModelLogger ct = Container_GetLogger ct MODEL_LOGGER_ID"

definition Container_GetExperimentLogger :: "Container \<Rightarrow> exn + Logger" where
  "Container_GetExperimentLogger ct = Container_GetLogger ct EXPERIMENT_LOGGER_ID"

definition Container_IsDocker :: "Container \<Rightarrow> bool" where
  "Container_IsDocker ct \<longleftrightarrow> ct_container_type ct = Docker"

definition Container_IsNodeManagerMaster :: "Container \<Rightarrow> bool" where
  "Container_IsNodeManagerMaster ct = ct_is_node_manager_master ct"

definition Container_IsLateJoiner :: "Container \<Rightarrow> bool" where
  "Container_IsLateJoiner ct = ct_late_joiner ct"

definition Container_GetOrbPort :: "Container \<Rightarrow> string" where
  "Container_GetOrbPort ct = ct_orb_port ct"

definition Container_SetOrbPort :: "string \<Rightarrow> Container \<Rightarrow> Container" where
  "Container_SetOrbPort orb_port ct = ct\<lparr>ct_orb_port := orb_port\<rparr>"

definition Container_GetDeployedCount :: "Container \<Rightarrow> nat" where
  "Container_GetDeployedCount ct = length (ct_loggers ct) + length (ct_components ct)"

definition Container_GetLoganServerCount :: "Container \<Rightarrow> nat" where
  "Container_GetLoganServerCount ct = length (filter (\<lambda>(_, lg). lg_type lg = LT_Server) (ct_loggers ct))"

definition Container_GetLoganServerIds :: "Container \<Rightarrow> string list" where
  "Container_GetLoganServerIds ct =
     map (\<lambda>(_, lg). lg_id lg) (filter (\<lambda>(_, lg). lg_type lg = LT_Server) (ct_loggers ct))"

definition Container_SetNodeManagerMaster :: "Container \<Rightarrow> Container" where
  "Container_SetNodeManagerMaster ct =
     ct\<lparr>ct_is_node_manager_master := True,
        ct_loggers := umap_emplace EXPERIMENT_LOGGER_ID (Logger_internal_ctor LT_Experiment LM_Live) (ct_loggers ct)\<rparr>"

definition Container_AddModelLogger :: "Container \<Rightarrow> Container" where
  "Container_AddModelLogger ct =
     ct\<lparr>ct_loggers := umap_emplace MODEL_LOGGER_ID (Logger_internal_ctor LT_Model LM_Off) (ct_loggers ct)\<rparr>"

text \<open>The \<open>try\<close> around \<open>GetModelLogger\<close> makes a container without one keep going.\<close>

definition Container_AddLogger :: "Logger_pb \<Rightarrow> Container \<Rightarrow> exn + Container" where
  "Container_AddLogger logger_pb ct =
     (case Logger_ctor logger_pb of
        Inl e \<Rightarrow> Inl e
      | Inr new_logger \<Rightarrow>
          (let ct1 = ct\<lparr>ct_loggers := umap_emplace (lpb_id logger_pb) new_logger (ct_loggers ct)\<rparr> in
           case Container_GetLogger ct1 (lpb_id logger_pb) of
             Inl e \<Rightarrow> Inl e
           | Inr logger \<Rightarrow>
               if lg_type logger = LT_Client
               then (case Container_GetModelLogger ct1 of
                       Inl _ \<Rightarrow> Inr ct1
                     | Inr _ \<Rightarrow> Inr (upd_logger_in MODEL_LOGGER_ID (Logger_SetMode (lg_mode logger)) ct1))
               else Inr ct1))"

definition Container_AddComponent ::
  "string \<Rightarrow> string \<Rightarrow> Component_pb \<Rightarrow> (Environment \<times> Container, unit) em" where
  "Container_AddComponent x ip component_pb =
     bindE (Component_ctor x ip component_pb) (\<lambda>component.
     bindE getE (\<lambda>(_, ct).
     if umap_count (ct_components ct) (info_id (cpb_info component_pb))
     then on_fst (bindE (the_experiment x) (\<lambda>ex. Component_dtor ex component))
     else upd_this (\<lambda>ct. ct\<lparr>ct_components :=
            umap_emplace (info_id (cpb_info component_pb)) component (ct_components ct)\<rparr>)))"

definition Container_add_logger :: "Logger_pb \<Rightarrow> (Environment \<times> Container, unit) em" where
  "Container_add_logger logger_pb =
     bindE getE (\<lambda>(_, ct).
     bindE (liftE (Container_AddLogger logger_pb ct)) (\<lambda>ct'. upd_this (\<lambda>_. ct')))"

definition Container_init :: "(string \<Rightarrow> bool) \<Rightarrow> Container_pb \<Rightarrow> Container" where
  "Container_init ind container =
     \<lparr>ct_id = info_id (ctpb_info container), ct_name = info_name (ctpb_info container), ct_type = '''',
      ct_container_type = (case ctpb_type container of GENERIC \<Rightarrow> Generic | DOCKER \<Rightarrow> Docker | _ \<Rightarrow> Generic),
      ct_management_port = '''', ct_orb_port = '''', ct_is_node_manager_master = False,
      ct_dirty = ind (info_id (ctpb_info container)), ct_late_joiner = ctpb_is_late_joiner container,
      ct_components = [], ct_loggers = []\<rparr>"

definition Container_members_dtor :: "Experiment \<Rightarrow> string \<Rightarrow> Container \<Rightarrow> (Environment, unit) em" where
  "Container_members_dtor ex ip ct =
     bindE (modifyE (\<lambda>env. foldl (\<lambda>env lg. Logger_dtor ip lg env) env (map snd (ct_loggers ct)))) (\<lambda>_.
     forE (map snd (ct_components ct)) (Component_dtor ex))"

definition Container_fill :: "string \<Rightarrow> string \<Rightarrow> Container_pb \<Rightarrow> (Environment \<times> Container, unit) em" where
  "Container_fill x ip container =
     bindE (forE (ctpb_components container) (Container_AddComponent x ip)) (\<lambda>_.
     bindE (bindE getE (\<lambda>(_, ct).
       whenE (Container_GetDeployedComponentCount ct > 0) (upd_this Container_AddModelLogger))) (\<lambda>_.
     forE (ctpb_loggers container) (\<lambda>logger_pb.
       bindE getE (\<lambda>(_, ct).
       whenE (lpb_type logger_pb = LOGGER_SERVER \<or> Container_GetDeployedComponentCount ct > 0)
         (Container_add_logger logger_pb)))))"

definition Container_ctor :: "string \<Rightarrow> string \<Rightarrow> Container_pb \<Rightarrow> (Environment, Container) em" where
  "Container_ctor x ip container env =
     (case Container_fill x ip container (env, Container_init (env_indet env) container) of
        (Inr _, (env', ct)) \<Rightarrow> (Inr ct, env')
      | (Inl e, (env', ct)) \<Rightarrow>
          if is_std_exception e
          then bindE (the_experiment x) (\<lambda>ex. bindE (Container_members_dtor ex ip ct) (\<lambda>_. throwE e)) env'
          else (Inl e, env'))"

definition Container_dtor :: "Experiment \<Rightarrow> string \<Rightarrow> Container \<Rightarrow> (Environment, unit) em" where
  "Container_dtor ex ip ct =
     bindE (whenE (Container_GetDeployedCount ct > 0)
       (bindE (modifyE (Environment_FreePort ip (ct_management_port ct))) (\<lambda>_.
        whenE (Container_HasOrbPort ct) (modifyE (Environment_FreePort ip (ct_orb_port ct)))))) (\<lambda>_.
     Container_members_dtor ex ip ct)"

text \<open>Running a method of a container that is in the tree. While an experiment is being
  populated its state is \<open>Registered\<close>, so no \<open>UpdatePort\<close> reaches back into it and the
  container can be taken out, changed and put back.\<close>

definition run_in_container ::
  "string \<Rightarrow> string \<Rightarrow> string \<Rightarrow> (Environment \<times> Container, 'a) em \<Rightarrow> (Environment, 'a) em" where
  "run_in_container x n c m =
     bindE (the_container x n c) (\<lambda>ct env.
       case m (env, ct) of (r, (env', ct')) \<Rightarrow> (r, upd_container x n c (\<lambda>_. ct') env'))"

definition Container_GetProto ::
  "string \<Rightarrow> string \<Rightarrow> string \<Rightarrow> bool \<Rightarrow> (Environment, Container_pb option) em" where
  "Container_GetProto x n c full_update =
     bindE (the_container x n c) (\<lambda>ct.
     if ct_dirty ct \<or> full_update then
       bindE (mapE (\<lambda>(k, _). Component_GetProto x n c k full_update) (ct_components ct)) (\<lambda>component_pbs.
       bindE (mapE (\<lambda>(l, _). Logger_GetProto x n c l full_update) (ct_loggers ct)) (\<lambda>logger_pbs.
       bindE (modifyE (upd_container x n c (\<lambda>ct. ct\<lparr>ct_dirty := False\<rparr>))) (\<lambda>_.
       returnE (Some
         \<lparr>ctpb_info = Info_default\<lparr>info_name := ct_name ct, info_id := ct_id ct, info_type := ct_type ct\<rparr>,
          ctpb_type = (case ct_container_type ct of Generic \<Rightarrow> GENERIC | Docker \<Rightarrow> DOCKER),
          ctpb_components = somes component_pbs, ctpb_loggers = somes logger_pbs,
          ctpb_implicit = False, ctpb_is_late_joiner = False\<rparr>))))
     else returnE None)"

end
