(* ===== verification/EMNode.thy ===== *)
theory EMNode
  imports EMContainer
begin

text \<open>
  \<open>EnvironmentManager::Node\<close> (\<^verbatim>\<open>node.cpp\<close>). A node has no destructor of its own; destroying it
  destroys its containers. \<open>AddContainer\<close> works on the environment together with the node.
\<close>

definition Node_dtor :: "Experiment \<Rightarrow> Node \<Rightarrow> (Environment, unit) em" where
  "Node_dtor ex nd = forE (map snd (nd_containers nd)) (Container_dtor ex (nd_ip nd))"

text \<open>\<open>implicit_container_id_\<close> is set before the container is built and stays set when the
  container's id is taken or its construction throws.\<close>

definition Node_AddContainer :: "string \<Rightarrow> Container_pb \<Rightarrow> (Environment \<times> Node, unit) em" where
  "Node_AddContainer x container_pb =
     (let i = info_id (ctpb_info container_pb) in
      bindE (modifyE (\<lambda>(env, nd).
        (env, if ctpb_implicit container_pb then nd\<lparr>nd_implicit_container_id := i\<rparr> else nd))) (\<lambda>_.
      bindE getE (\<lambda>(_, nd).
      bindE (on_fst (Container_ctor x (nd_ip nd) container_pb)) (\<lambda>container.
      if umap_count (nd_containers nd) i
      then on_fst (bindE (the_experiment x) (\<lambda>ex. Container_dtor ex (nd_ip nd) container))
      else modifyE (\<lambda>(env, nd). (env, nd\<lparr>nd_containers := umap_emplace i container (nd_containers nd)\<rparr>))))))"

definition Node_init :: "(string \<Rightarrow> bool) \<Rightarrow> Node_pb \<Rightarrow> Node" where
  "Node_init ind node =
     \<lparr>nd_id = info_id (npb_info node), nd_name = info_name (npb_info node), nd_ip = npb_ip_address node,
      nd_implicit_container_id = '''', nd_containers = [], nd_dirty = ind (info_id (npb_info node))\<rparr>"

definition Node_ctor :: "string \<Rightarrow> Node_pb \<Rightarrow> (Environment, Node) em" where
  "Node_ctor x node env =
     (if npb_ip_address node = ''OFFLINE'' \<and> length (npb_containers node) > 0
      then (Inl (InvalidArgument (''Experiment: '' @ quoted x @ '' Has OFFLINE node '' @
              quoted (info_name (npb_info node)) @ '' utilized.'')), env)
      else case forE (npb_containers node) (Node_AddContainer x) (env, Node_init (env_indet env) node) of
             (Inr _, (env', nd)) \<Rightarrow> (Inr nd, env')
           | (Inl e, (env', nd)) \<Rightarrow>
               if is_std_exception e
               then bindE (the_experiment x) (\<lambda>ex. bindE (Node_dtor ex nd) (\<lambda>_. throwE e)) env'
               else (Inl e, env'))"

definition Node_GetContainerCount :: "Node \<Rightarrow> nat" where
  "Node_GetContainerCount nd = length (nd_containers nd)"

definition Node_HasContainer :: "Node \<Rightarrow> string \<Rightarrow> bool" where
  "Node_HasContainer nd container_id = umap_count (nd_containers nd) container_id"

definition Node_GetContainer :: "Node \<Rightarrow> string \<Rightarrow> exn + Container" where
  "Node_GetContainer nd container_id =
     (if umap_count (nd_containers nd) container_id then umap_at (nd_containers nd) container_id
      else Inl (OutOfRange (''Node::GetContainer: '' @ nd_id nd @ '' GET: '' @ container_id)))"

definition Node_GetHardwareId :: "Node \<Rightarrow> HardwareId_pb" where
  "Node_GetHardwareId nd = \<lparr>hw_host_name = nd_name nd, hw_ip_address = nd_ip nd\<rparr>"

definition Node_GetComponentContainerIds :: "Node \<Rightarrow> ContainerId_pb list" where
  "Node_GetComponentContainerIds nd =
     map (\<lambda>(_, ct). \<lparr>cid_id = ct_id ct, cid_is_master = Container_IsNodeManagerMaster ct,
                      cid_is_docker = Container_IsDocker ct\<rparr>)
       (filter (\<lambda>(_, ct). Container_GetDeployedComponentCount ct > 0) (nd_containers nd))"

definition Node_GetDeployedCount :: "Node \<Rightarrow> nat" where
  "Node_GetDeployedCount nd = sum_list (map (\<lambda>(_, ct). Container_GetDeployedCount ct) (nd_containers nd))"

definition Node_GetDeployedComponentCount :: "Node \<Rightarrow> nat" where
  "Node_GetDeployedComponentCount nd =
     sum_list (map (\<lambda>(_, ct). Container_GetDeployedComponentCount ct) (nd_containers nd))"

definition Node_HasLogger :: "Node \<Rightarrow> string \<Rightarrow> bool" where
  "Node_HasLogger nd logger_id = list_ex (\<lambda>(_, ct). Container_HasLogger ct logger_id) (nd_containers nd)"

definition Node_GetLoganServerCount :: "Node \<Rightarrow> nat" where
  "Node_GetLoganServerCount nd =
     sum_list (map (\<lambda>(_, ct). Container_GetLoganServerCount ct) (nd_containers nd))"

definition master_eligible :: "Container \<Rightarrow> bool" where
  "master_eligible ct \<longleftrightarrow> Container_GetDeployedComponentCount ct > 0 \<and> \<not> Container_IsLateJoiner ct"

definition Node_HasMasterEligibleContainer :: "Node \<Rightarrow> bool" where
  "Node_HasMasterEligibleContainer nd = list_ex (\<lambda>(_, ct). master_eligible ct) (nd_containers nd)"

definition Node_GetMasterEligibleContainer :: "Node \<Rightarrow> exn + string" where
  "Node_GetMasterEligibleContainer nd =
     (case List.find (\<lambda>(_, ct). master_eligible ct) (nd_containers nd) of
        Some (c, _) \<Rightarrow> Inr c
      | None \<Rightarrow> Inl (InvalidArgument ''No eligible container found''))"

definition Node_HasNodeManagerMaster :: "Node \<Rightarrow> bool" where
  "Node_HasNodeManagerMaster nd = list_ex (\<lambda>(_, ct). Container_IsNodeManagerMaster ct) (nd_containers nd)"

definition Node_GetLogMessage :: "Node \<Rightarrow> string" where
  "Node_GetLogMessage nd =
     ''Node: '' @ nd_name nd @ '' Deploys: '' @ to_string (int (Node_GetDeployedComponentCount nd)) @ '' Components''"

text \<open>Adding to the containers of a node that is in the tree.\<close>

definition Node_AddComponentToImplicitContainer ::
  "string \<Rightarrow> string \<Rightarrow> Component_pb \<Rightarrow> (Environment, unit) em" where
  "Node_AddComponentToImplicitContainer x n component =
     bindE (the_node x n) (\<lambda>nd.
     bindE (liftE (umap_at (nd_containers nd) (nd_implicit_container_id nd))) (\<lambda>_.
     run_in_container x n (nd_implicit_container_id nd) (Container_AddComponent x (nd_ip nd) component)))"

definition Node_AddLoggingClient :: "string \<Rightarrow> string \<Rightarrow> Logger_pb \<Rightarrow> (Environment, unit) em" where
  "Node_AddLoggingClient x n logging_client =
     bindE (the_node x n) (\<lambda>nd.
     bindE (liftE (Node_GetContainer nd (nd_implicit_container_id nd))) (\<lambda>implicit_container.
     if Container_GetDeployedComponentCount implicit_container > 0
     then run_in_container x n (nd_implicit_container_id nd) (Container_add_logger logging_client)
     else case List.find (\<lambda>(_, ct). Container_GetDeployedComponentCount ct > 0) (nd_containers nd) of
            Some (c, _) \<Rightarrow> run_in_container x n c (Container_add_logger logging_client)
          | None \<Rightarrow> returnE ()))"

definition Node_AddLoggingServerToImplicitContainer ::
  "string \<Rightarrow> string \<Rightarrow> Logger_pb \<Rightarrow> (Environment, unit) em" where
  "Node_AddLoggingServerToImplicitContainer x n logging_server =
     bindE (the_node x n) (\<lambda>nd.
     bindE (liftE (umap_at (nd_containers nd) (nd_implicit_container_id nd))) (\<lambda>_.
     run_in_container x n (nd_implicit_container_id nd) (Container_add_logger logging_server)))"

definition Node_add_container :: "string \<Rightarrow> string \<Rightarrow> Container_pb \<Rightarrow> (Environment, unit) em" where
  "Node_add_container x n container =
     bindE (the_node x n) (\<lambda>nd env.
       case Node_AddContainer x container (env, nd) of (r, (env', nd')) \<Rightarrow>
         (r, upd_node x n (\<lambda>_. nd') env'))"

text \<open>A null pointer that \<open>GetProto\<close> returns for a logger is an element of the vector.\<close>

definition Node_GetAllocatedLoganServers :: "string \<Rightarrow> string \<Rightarrow> (Environment, Logger_pb option list) em" where
  "Node_GetAllocatedLoganServers x n =
     bindE (the_node x n) (\<lambda>nd.
     bindE (mapE (\<lambda>(c, ct).
         if Container_GetLoganServerCount ct > 0
         then mapE (\<lambda>server_id.
                bindE (liftE (Container_GetLogger ct server_id)) (\<lambda>_.
                Logger_GetProto x n c server_id True)) (Container_GetLoganServerIds ct)
         else returnE []) (nd_containers nd)) (\<lambda>lss.
     returnE (concat lss)))"

definition Node_GetProto :: "string \<Rightarrow> string \<Rightarrow> bool \<Rightarrow> (Environment, Node_pb option) em" where
  "Node_GetProto x n full_update =
     bindE (the_node x n) (\<lambda>nd.
     if nd_containers nd \<noteq> [] \<and> (nd_dirty nd \<or> full_update) then
       bindE (mapE (\<lambda>(c, ct).
           if Container_GetDeployedComponentCount ct > 0 then Container_GetProto x n c full_update
           else returnE None) (nd_containers nd)) (\<lambda>container_pbs.
       bindE (modifyE (upd_node x n (\<lambda>nd. nd\<lparr>nd_dirty := False\<rparr>))) (\<lambda>_.
       returnE (Some
         \<lparr>npb_info = Info_default\<lparr>info_name := nd_name nd, info_id := nd_id nd\<rparr>,
          npb_ip_address = nd_ip nd, npb_containers = somes container_pbs\<rparr>)))
     else returnE None)"

end
