(* ===== verification/EMExperiment.thy ===== *)
theory EMExperiment
  imports EMNode
begin

text \<open>
  \<open>EnvironmentManager::Experiment\<close> (\<^verbatim>\<open>experiment.cpp\<close>), by the name under which the
  environment keeps it. The experiment's mutex only guards \<open>state_\<close>; every method here is one
  step. Lookups and external ports are in \<^verbatim>\<open>EMLookup\<close>, \<^verbatim>\<open>EMResources\<close> and \<^verbatim>\<open>EMPort\<close>.
\<close>

section \<open>Construction, state and validity\<close>

definition Experiment_ctor :: "string \<Rightarrow> Experiment" where
  "Experiment_ctor name =
     \<lparr>ex_model_name = name, ex_master_publisher_port = '''', ex_master_registration_port = '''',
      ex_master_ip_address = '''', ex_manager_port = '''', ex_shutdown = False, ex_node_map = [],
      ex_external_port_map = [], ex_blackbox_port_map = [], ex_external_id_to_internal_id_map = [],
      ex_state = Registered, ex_dirty = False\<rparr>"

definition Experiment_GetState :: "Experiment \<Rightarrow> ExperimentState" where
  "Experiment_GetState ex = ex_state ex"

definition Experiment_SetConfigured :: "Experiment \<Rightarrow> exn + Experiment" where
  "Experiment_SetConfigured ex =
     (if ex_state ex = Registered then Inr (ex\<lparr>ex_state := CONFIGURED\<rparr>)
      else Inl (RuntimeError ''Invalid state transition (REGISTERED -> ![CONFIGURED]''))"

definition Experiment_SetActive :: "Experiment \<Rightarrow> exn + Experiment" where
  "Experiment_SetActive ex =
     (if ex_state ex = CONFIGURED then Inr (ex\<lparr>ex_state := ACTIVE\<rparr>)
      else Inl (RuntimeError ''Invalid state transition (CONFIGURED -> ![ACTIVE]''))"

text \<open>A method of the experiment \<open>x\<close> that may refuse.\<close>

definition try_upd_experiment :: "string \<Rightarrow> (Experiment \<Rightarrow> exn + Experiment) \<Rightarrow> (Environment, unit) em" where
  "try_upd_experiment x f =
     bindE (the_experiment x) (\<lambda>ex. bindE (liftE (f ex)) (\<lambda>ex'. modifyE (upd_experiment x (\<lambda>_. ex'))))"

definition Experiment_GetManagerPort :: "Experiment \<Rightarrow> string" where
  "Experiment_GetManagerPort ex = ex_manager_port ex"

definition Experiment_SetManagerPort :: "string \<Rightarrow> Experiment \<Rightarrow> Experiment" where
  "Experiment_SetManagerPort manager_port ex = ex\<lparr>ex_manager_port := manager_port\<rparr>"

definition Experiment_SetMasterIp :: "string \<Rightarrow> Experiment \<Rightarrow> Experiment" where
  "Experiment_SetMasterIp ip ex = ex\<lparr>ex_master_ip_address := ip\<rparr>"

definition Experiment_GetMasterIp :: "Experiment \<Rightarrow> string" where
  "Experiment_GetMasterIp ex = ex_master_ip_address ex"

definition Experiment_component_count :: "Experiment \<Rightarrow> nat" where
  "Experiment_component_count ex = sum_list (map (\<lambda>(_, nd). Node_GetDeployedComponentCount nd) (ex_node_map ex))"

definition Experiment_CheckValidity :: "Experiment \<Rightarrow> exn + unit" where
  "Experiment_CheckValidity ex =
     (let msg = (\<lambda>s. ''Experiment: '' @ quoted (ex_model_name ex) @ s) in
      if Experiment_component_count ex = 0 then Inl (InvalidArgument (msg '' deploys no components.''))
      else if \<not> list_ex (\<lambda>(_, nd). Node_HasNodeManagerMaster nd) (ex_node_map ex)
        then Inl (RuntimeError (msg '' has no container set as node manager master.''))
      else if ex_master_ip_address ex = '''' then Inl (RuntimeError (msg '' has no master ip address.''))
      else if ex_manager_port ex = '''' then Inl (RuntimeError (msg '' has no master manager port.''))
      else if ex_master_publisher_port ex = '''' then Inl (RuntimeError (msg '' has no master publisher port.''))
      else if ex_master_registration_port ex = '''' then Inl (RuntimeError (msg '' has no master registration port.''))
      else Inr ())"

section \<open>The master\<close>

definition Experiment_GetMasterPublisherAddress :: "string \<Rightarrow> (Environment, string) em" where
  "Experiment_GetMasterPublisherAddress x =
     bindE (the_experiment x) (\<lambda>ex.
     bindE (whenE (ex_master_publisher_port ex = '''')
       (bindE (Environment_GetPort (ex_master_ip_address ex)) (\<lambda>p.
        modifyE (upd_experiment x (\<lambda>ex. ex\<lparr>ex_master_publisher_port := p\<rparr>))))) (\<lambda>_.
     bindE (the_experiment x) (\<lambda>ex'.
     returnE (''tcp://'' @ ex_master_ip_address ex' @ '':'' @ ex_master_publisher_port ex'))))"

definition Experiment_GetMasterRegistrationAddress :: "string \<Rightarrow> (Environment, string) em" where
  "Experiment_GetMasterRegistrationAddress x =
     bindE (the_experiment x) (\<lambda>ex.
     bindE (whenE (ex_master_registration_port ex = '''')
       (bindE (Environment_GetPort (ex_master_ip_address ex)) (\<lambda>p.
        modifyE (upd_experiment x (\<lambda>ex. ex\<lparr>ex_master_registration_port := p\<rparr>))))) (\<lambda>_.
     bindE (the_experiment x) (\<lambda>ex'.
     returnE (''tcp://'' @ ex_master_ip_address ex' @ '':'' @ ex_master_registration_port ex'))))"

definition Experiment_ConfigureMaster :: "string \<Rightarrow> (Environment, unit) em" where
  "Experiment_ConfigureMaster x =
     bindE (the_experiment x) (\<lambda>ex.
     case List.find (\<lambda>(_, nd). Node_HasMasterEligibleContainer nd) (ex_node_map ex) of
       None \<Rightarrow> returnE ()
     | Some (n, nd) \<Rightarrow>
         bindE (liftE (Node_GetMasterEligibleContainer nd)) (\<lambda>c.
         bindE (modifyE (upd_container x n c Container_SetNodeManagerMaster)) (\<lambda>_.
         bindE (modifyE (upd_experiment x (Experiment_SetMasterIp (nd_ip nd)))) (\<lambda>_.
         bindE (Experiment_GetMasterPublisherAddress x) (\<lambda>_.
         bindE (Experiment_GetMasterRegistrationAddress x) (\<lambda>_. returnE ()))))))"

section \<open>External ports and nodes\<close>

text \<open>\<open>new ExternalPort()\<close> zeroes the struct, so \<open>kind\<close> starts as \<open>PubSub\<close>.\<close>

definition external_port_entry :: "ExternalPort_pb \<Rightarrow> Exp_ExternalPort" where
  "external_port_entry external_port =
     \<lparr>xp_external_label = info_name (epb_info external_port),
      xp_internal_id = info_id (epb_info external_port),
      xp_type = info_type (epb_info external_port),
      xp_middleware = Port_TranslateProtoMiddleware (epb_middleware external_port),
      xp_kind = (if epb_kind external_port = SERVER then EP_ReqRep else EP_PubSub),
      xp_producer_ids = [], xp_consumer_ids = []\<rparr>"

definition Experiment_add_external_port :: "string \<Rightarrow> ExternalPort_pb \<Rightarrow> (Environment, unit) em" where
  "Experiment_add_external_port x external_port =
     (let internal_id = info_id (epb_info external_port) in
      bindE (the_experiment x) (\<lambda>ex.
      if \<not> epb_is_blackbox external_port then
        if \<not> umap_count (ex_external_port_map ex) internal_id then
          modifyE (upd_experiment x (\<lambda>ex.
            ex\<lparr>ex_external_port_map := umap_emplace internal_id (external_port_entry external_port) (ex_external_port_map ex),
               ex_external_id_to_internal_id_map :=
                 umap_put (info_name (epb_info external_port)) internal_id (ex_external_id_to_internal_id_map ex)\<rparr>))
        else throwE (InvalidArgument (''Experiment: '' @ quoted (ex_model_name ex) @
               '' Got duplicate external port id: '' @ quoted internal_id))
      else
        bindE (liftE (Port_ConstructBlackboxPort external_port)) (\<lambda>port.
        case port of
          None \<Rightarrow> returnE ()
        | Some pt \<Rightarrow>
            if umap_count (ex_blackbox_port_map ex) internal_id then Port_dtor ex pt
            else modifyE (upd_experiment x (\<lambda>ex.
              ex\<lparr>ex_blackbox_port_map := umap_emplace internal_id pt (ex_blackbox_port_map ex)\<rparr>)))))"

definition Experiment_AddExternalPorts :: "string \<Rightarrow> Experiment_pb \<Rightarrow> (Environment, unit) em" where
  "Experiment_AddExternalPorts x message = forE (expb_external_ports message) (Experiment_add_external_port x)"

definition Experiment_GetNode :: "Experiment \<Rightarrow> string \<Rightarrow> exn + Node" where
  "Experiment_GetNode ex ip_address =
     (case umap_at (ex_node_map ex) ip_address of
        Inr nd \<Rightarrow> Inr nd
      | Inl _ \<Rightarrow> Inl (InvalidArgument (''Experiment: '' @ quoted (ex_model_name ex) @
           '' does not have registered node with IP: '' @ quoted ip_address)))"

definition Experiment_AddNode :: "string \<Rightarrow> Node_pb \<Rightarrow> (Environment, unit) em" where
  "Experiment_AddNode x node =
     (let ip_address = npb_ip_address node in
      bindE (the_experiment x) (\<lambda>ex.
      if \<not> umap_count (ex_node_map ex) ip_address then
        bindE (Node_ctor x node) (\<lambda>internal_node.
        modifyE (upd_experiment x (\<lambda>ex.
          ex\<lparr>ex_node_map := umap_emplace ip_address internal_node (ex_node_map ex)\<rparr>)))
      else throwE (InvalidArgument (''Experiment: '' @ quoted (ex_model_name ex) @
             '' Got duplicate node with ip address: '' @ quoted ip_address))))"

definition Experiment_HasDeploymentOn :: "Experiment \<Rightarrow> string \<Rightarrow> exn + bool" where
  "Experiment_HasDeploymentOn ex ip_address =
     (case Experiment_GetNode ex ip_address of Inl e \<Rightarrow> Inl e | Inr nd \<Rightarrow> Inr (Node_GetDeployedCount nd > 0))"

definition node_deployment :: "Node \<Rightarrow> NodeDeployment_pb option" where
  "node_deployment nd =
     (let deploys = Node_GetDeployedComponentCount nd > 0; logs = Node_GetLoganServerCount nd > 0 in
      if deploys \<or> logs
      then Some \<lparr>ndp_id = Some (Node_GetHardwareId nd),
                 ndp_container_ids = (if deploys then Node_GetComponentContainerIds nd else []),
                 ndp_has_logan_server = logs\<rparr>
      else None)"

definition Experiment_GetDeploymentInfo :: "Experiment \<Rightarrow> NodeDeployment_pb list" where
  "Experiment_GetDeploymentInfo ex = somes (map (\<lambda>(_, nd). node_deployment nd) (ex_node_map ex))"

text \<open>\<open>std::min_element\<close>: the first element that no later one beats.\<close>

fun min_element_from :: "('a \<Rightarrow> 'a \<Rightarrow> bool) \<Rightarrow> 'a \<Rightarrow> 'a list \<Rightarrow> 'a" where
  "min_element_from lt smallest [] = smallest"
| "min_element_from lt smallest (x # xs) =
     min_element_from lt (if lt x smallest then x else smallest) xs"

definition least_deployed_comp :: "bool \<Rightarrow> string \<times> Node \<Rightarrow> string \<times> Node \<Rightarrow> bool" where
  "least_deployed_comp non_empty p1 p2 =
     (let p1_count = Node_GetDeployedComponentCount (snd p1);
          p2_count = Node_GetDeployedComponentCount (snd p2) in
      if non_empty \<and> p1_count = 0 then False
      else if non_empty \<and> p2_count = 0 then True
      else p1_count < p2_count)"

definition Experiment_GetLeastDeployedToNode :: "bool \<Rightarrow> Experiment \<Rightarrow> exn + string" where
  "Experiment_GetLeastDeployedToNode non_empty ex =
     (case ex_node_map ex of
        [] \<Rightarrow> Inl (Undefined ''dereference of end()'')
      | p # ps \<Rightarrow> Inr (fst (min_element_from (least_deployed_comp non_empty) p ps)))"

definition Experiment_AddLoggingClientToNodes :: "string \<Rightarrow> Logger_pb \<Rightarrow> (Environment, unit) em" where
  "Experiment_AddLoggingClientToNodes x logging_client =
     bindE (the_experiment x) (\<lambda>ex.
     forE (map fst (ex_node_map ex)) (\<lambda>n. Node_AddLoggingClient x n logging_client))"

definition Experiment_GetExternalPorts :: "Experiment \<Rightarrow> Exp_ExternalPort list" where
  "Experiment_GetExternalPorts ex = map snd (ex_external_port_map ex)"

definition Experiment_GetAllocatedLoganServers :: "string \<Rightarrow> string \<Rightarrow> (Environment, Logger_pb option list) em" where
  "Experiment_GetAllocatedLoganServers x ip_address =
     bindE (the_experiment x) (\<lambda>ex.
     bindE (liftE (Experiment_GetNode ex ip_address)) (\<lambda>_.
     Node_GetAllocatedLoganServers x ip_address))"

definition Experiment_GetLogMessage :: "Experiment \<Rightarrow> string" where
  "Experiment_GetLogMessage ex =
     concat (map (\<lambda>(_, nd). ''* Experiment['' @ ex_model_name ex @ ''] '' @ Node_GetLogMessage nd @ [CHR 0x0A])
       (filter (\<lambda>(_, nd). Node_GetDeployedComponentCount nd > 0) (ex_node_map ex)))"

section \<open>Shutdown, update message, destruction\<close>

definition Experiment_Shutdown :: "Experiment \<Rightarrow> Experiment" where
  "Experiment_Shutdown ex =
     (if \<not> ex_shutdown ex then ex\<lparr>ex_shutdown := True, ex_dirty := True\<rparr> else ex)"

definition Experiment_configure_message :: "string \<Rightarrow> bool \<Rightarrow> (Environment, EnvironmentMessage_pb) em" where
  "Experiment_configure_message x full_update =
     bindE (the_experiment x) (\<lambda>ex.
     bindE (mapE (\<lambda>(n, nd).
         if Node_GetDeployedComponentCount nd > 0 then Node_GetProto x n full_update
         else returnE None) (ex_node_map ex)) (\<lambda>node_pbs.
     bindE getE (\<lambda>env.
     bindE (Experiment_GetMasterPublisherAddress x) (\<lambda>publisher.
     bindE (Experiment_GetMasterRegistrationAddress x) (\<lambda>registration.
     returnE
       \<lparr>em_type = CONFIGURE_EXPERIMENT,
        em_control_message = Some
          \<lparr>cm_type = CONFIGURE, cm_timestamp = Some (env_clock env), cm_nodes = somes node_pbs,
           cm_experiment_id = ex_model_name ex,
           cm_attributes = SetStringAttribute (SetStringAttribute
             (SetStringAttribute [] ''master_ip_address'' (Experiment_GetMasterIp ex))
             ''master_publisher_endpoint'' publisher)
             ''master_registration_endpoint'' registration\<rparr>\<rparr>)))))"

definition Experiment_GetProto :: "string \<Rightarrow> bool \<Rightarrow> (Environment, EnvironmentMessage_pb option) em" where
  "Experiment_GetProto x full_update =
     bindE (the_experiment x) (\<lambda>ex.
     if ex_dirty ex \<or> full_update then
       bindE (if \<not> ex_shutdown ex then Experiment_configure_message x full_update
              else returnE
                \<lparr>em_type = SHUTDOWN_EXPERIMENT,
                 em_control_message = Some (ControlMessage_default\<lparr>cm_experiment_id := ex_model_name ex\<rparr>)\<rparr>) (\<lambda>m.
       bindE (modifyE (upd_experiment x (\<lambda>ex. ex\<lparr>ex_dirty := False\<rparr>))) (\<lambda>_.
       returnE (Some m)))
     else returnE None)"

text \<open>Does destroying the node call back into the experiment's table of external ports?\<close>

definition uses_external_ports :: "Node \<Rightarrow> bool" where
  "uses_external_ports nd =
     list_ex (\<lambda>(_, ct). list_ex (\<lambda>(_, cp). list_ex (\<lambda>(_, pt).
       pt_connected_external pt \<noteq> [] \<and> (is_producer (pt_kind pt) \<or> is_consumer (pt_kind pt)))
       (cp_ports cp)) (ct_components ct)) (nd_containers nd)"

definition Experiment_deregister_external :: "Experiment \<Rightarrow> (Environment, unit) em" where
  "Experiment_deregister_external ex =
     forE (map snd (ex_external_port_map ex)) (\<lambda>port.
       bindE (whenE (xp_consumer_ids port \<noteq> [])
         (Environment_RemoveExternalConsumerPort (ex_model_name ex) (xp_external_label port))) (\<lambda>_.
       whenE (xp_producer_ids port \<noteq> [])
         (Environment_RemoveExternalProducerPort (ex_model_name ex) (xp_external_label port))))"

definition Experiment_release :: "Experiment \<Rightarrow> (Environment, unit) em" where
  "Experiment_release ex =
     bindE (Environment_FreeManagerPort (ex_manager_port ex)) (\<lambda>_.
     whenE (Experiment_GetState ex = ACTIVE)
       (modifyE (\<lambda>env. Environment_FreePort (ex_master_ip_address ex) (ex_master_registration_port ex)
          (Environment_FreePort (ex_master_ip_address ex) (ex_master_publisher_port ex) env))))"

text \<open>The destructor of an experiment that is already out of the environment's map. When the
  first loop throws, the \<open>catch (...)\<close> ends the body and the nodes go with the members, after
  the table of external ports that their ports still want to use.\<close>

definition Experiment_dtor :: "Experiment \<Rightarrow> (Environment, unit) em" where
  "Experiment_dtor ex =
     bindE (catchE is_std_exception
       (bindE (Experiment_deregister_external ex) (\<lambda>_. returnE True)) (\<lambda>_. returnE False)) (\<lambda>ok.
     bindE (if ok \<or> \<not> list_ex (\<lambda>(_, nd). uses_external_ports nd) (ex_node_map ex)
            then forE (map snd (ex_node_map ex)) (Node_dtor ex)
            else throwE (Undefined ''external ports used after destruction'')) (\<lambda>_.
     bindE (whenE ok (catchE is_std_exception (Experiment_release ex) (\<lambda>_. returnE ()))) (\<lambda>_.
     forE (map snd (ex_blackbox_port_map ex)) (Port_dtor ex))))"

section \<open>Properties\<close>

lemma min_element_from_in: "min_element_from lt s xs \<in> insert s (set xs)"
  by (induction lt s xs rule: min_element_from.induct) auto

lemma least_deployed_comp_weak_order:
  "\<not> least_deployed_comp b p p"
  "\<not> least_deployed_comp b p q \<Longrightarrow> \<not> least_deployed_comp b q r \<Longrightarrow> \<not> least_deployed_comp b p r"
  "least_deployed_comp b p q \<Longrightarrow> \<not> least_deployed_comp b q p"
  by (auto simp: least_deployed_comp_def Let_def split: if_splits)

lemma min_element_from_min:
  "p \<in> insert s (set xs) \<Longrightarrow> \<not> least_deployed_comp b p (min_element_from (least_deployed_comp b) s xs)"
proof (induction xs arbitrary: s p)
  case Nil
  then show ?case by (simp add: least_deployed_comp_weak_order(1))
next
  case (Cons x xs)
  let ?s = "if least_deployed_comp b x s then x else s"
  have s: "\<not> least_deployed_comp b ?s (min_element_from (least_deployed_comp b) ?s xs)" by (rule Cons.IH) simp
  consider "p \<in> insert ?s (set xs)" | "p \<in> {s, x}" using Cons.prems by auto
  then show ?case
  proof cases
    case 1
    then show ?thesis using Cons.IH by simp
  next
    case 2
    then have "\<not> least_deployed_comp b p ?s" by (auto simp: least_deployed_comp_weak_order(1) dest: least_deployed_comp_weak_order(3))
    from least_deployed_comp_weak_order(2) [OF this s] show ?thesis by simp
  qed
qed

text \<open>
  Components go to the node with the fewest. The node that \<open>GetLeastDeployedToNode\<close> names is
  a node of the experiment, and no node deploys fewer components; when only nodes in use are asked
  for and there is one, the node named is in use and no node in use deploys fewer.
\<close>
theorem GetLeastDeployedToNode_minimal:
  assumes "Experiment_GetLeastDeployedToNode non_empty ex = Inr ip"
  shows "\<exists>nd. (ip, nd) \<in> set (ex_node_map ex) \<and>
    (\<forall>(ip', nd') \<in> set (ex_node_map ex).
       if non_empty then Node_GetDeployedComponentCount nd' > 0 \<longrightarrow>
         Node_GetDeployedComponentCount nd > 0 \<and> Node_GetDeployedComponentCount nd \<le> Node_GetDeployedComponentCount nd'
       else Node_GetDeployedComponentCount nd \<le> Node_GetDeployedComponentCount nd')"
proof -
  obtain p ps where m: "ex_node_map ex = p # ps" and
    ip: "ip = fst (min_element_from (least_deployed_comp non_empty) p ps)"
    using assms by (auto simp: Experiment_GetLeastDeployedToNode_def split: list.splits)
  define q where "q = min_element_from (least_deployed_comp non_empty) p ps"
  have "q \<in> set (ex_node_map ex)" using min_element_from_in [of _ p ps] by (simp add: q_def m)
  moreover have "\<not> least_deployed_comp non_empty r q" if "r \<in> set (ex_node_map ex)" for r
    using that min_element_from_min [of r p ps non_empty] by (simp add: q_def m)
  ultimately show ?thesis using ip unfolding q_def [symmetric]
    by (intro exI [of _ "snd q"]) (fastforce simp: least_deployed_comp_def Let_def split: if_splits)
qed

definition demo_two_nodes :: Experiment where
  "demo_two_nodes = demo_clean_experiment\<lparr>ex_node_map :=
     [(''10.0.0.2'', demo_clean_node\<lparr>nd_containers := []\<rparr>), (''10.0.0.1'', demo_clean_node)]\<rparr>"

theorem GetLeastDeployedToNode_minimal_witness:
  "\<exists>nd. (''10.0.0.1'', nd) \<in> set (ex_node_map demo_two_nodes) \<and>
    (\<forall>(ip', nd') \<in> set (ex_node_map demo_two_nodes). Node_GetDeployedComponentCount nd' > 0 \<longrightarrow>
         Node_GetDeployedComponentCount nd > 0 \<and> Node_GetDeployedComponentCount nd \<le> Node_GetDeployedComponentCount nd')"
  using GetLeastDeployedToNode_minimal [of True demo_two_nodes "''10.0.0.1''"]
  by (simp add: Experiment_GetLeastDeployedToNode_def demo_two_nodes_def least_deployed_comp_def
      Node_GetDeployedComponentCount_def Container_GetDeployedComponentCount_def demo_clean_node_def demo_clean_container_def
      demo_clean_experiment_def)

end
