(* ===== verification/EMEnvironment.thy ===== *)
theory EMEnvironment
  imports EMExperiment
begin

text \<open>
  \<open>EnvironmentManager::Environment\<close> (\<^verbatim>\<open>environment.cpp\<close>): registering, populating, updating and
  removing experiments. Every public method takes \<open>experiment_mutex_\<close> for its whole body, so
  each is one atomic step here. Port allocation is in \<^verbatim>\<open>EMResources\<close>. \<open>PushMessage\<close> of the
  update publisher appends to \<open>env_published\<close>.
\<close>

datatype DeploymentType = EXECUTION_MASTER | LOGAN_SERVER

definition publish :: "EnvironmentMessage_pb \<Rightarrow> Environment \<Rightarrow> Environment" where
  "publish m env = env\<lparr>env_published := env_published env @ [m]\<rparr>"

section \<open>Removing\<close>

definition removal_message :: "string \<Rightarrow> int \<Rightarrow> EnvironmentMessage_pb" where
  "removal_message x now =
     \<lparr>em_type = SHUTDOWN_EXPERIMENT,
      em_control_message = Some (ControlMessage_default\<lparr>cm_experiment_id := x, cm_timestamp := Some now\<rparr>)\<rparr>"

text \<open>\<open>erase\<close> unlinks the experiment before its destructor runs.\<close>

definition Environment_RemoveExperimentInternal :: "string \<Rightarrow> (Environment, unit) em" where
  "Environment_RemoveExperimentInternal experiment_name =
     bindE getE (\<lambda>env.
     case map_of (env_experiment_map env) experiment_name of
       None \<Rightarrow> returnE ()
     | Some ex \<Rightarrow>
         bindE (modifyE (\<lambda>env.
           env\<lparr>env_experiment_map := umap_erase experiment_name (env_experiment_map env)\<rparr>)) (\<lambda>_.
         bindE (Experiment_dtor ex) (\<lambda>_.
         modifyE (\<lambda>env. publish (removal_message experiment_name (env_clock env)) env))))"

definition Environment_RemoveExperiment :: "string \<Rightarrow> (Environment, unit) em" where
  "Environment_RemoveExperiment experiment_name = Environment_RemoveExperimentInternal experiment_name"

definition Environment_ShutdownExperimentInternal :: "string \<Rightarrow> (Environment, unit) em" where
  "Environment_ShutdownExperimentInternal experiment_name =
     bindE (Environment_GetExperimentInternal experiment_name) (\<lambda>experiment.
     if Experiment_IsActive experiment
     then modifyE (upd_experiment experiment_name Experiment_Shutdown)
     else Environment_RemoveExperimentInternal experiment_name)"

definition Environment_ShutdownExperiment :: "string \<Rightarrow> (Environment, unit) em" where
  "Environment_ShutdownExperiment experiment_name = Environment_ShutdownExperimentInternal experiment_name"

text \<open>\<open>re pattern\<close> compiles a pattern: \<open>None\<close> when \<open>std::regex\<close> rejects it, otherwise the
  predicate \<open>regex_match\<close> decides on whole names.\<close>

definition Environment_GetMatchingExperiments ::
  "(string \<Rightarrow> (string \<Rightarrow> bool) option) \<Rightarrow> string \<Rightarrow> (Environment, string list) em" where
  "Environment_GetMatchingExperiments re experiment_name_regex =
     (case re experiment_name_regex of
        None \<Rightarrow> throwE (RegexError experiment_name_regex)
      | Some matches \<Rightarrow>
          bindE getE (\<lambda>env. returnE (filter matches (umap_keys (env_experiment_map env)))))"

definition Environment_ShutdownExperimentRegex ::
  "(string \<Rightarrow> (string \<Rightarrow> bool) option) \<Rightarrow> string \<Rightarrow> (Environment, string list) em" where
  "Environment_ShutdownExperimentRegex re regex =
     bindE (Environment_GetMatchingExperiments re regex) (\<lambda>experiment_names.
     bindE (forE experiment_names Environment_ShutdownExperimentInternal) (\<lambda>_.
     returnE experiment_names))"

section \<open>Populating\<close>

definition Environment_RegisterExperiment :: "string \<Rightarrow> (Environment, unit) em" where
  "Environment_RegisterExperiment experiment_name =
     bindE getE (\<lambda>env.
     if umap_count (env_experiment_map env) experiment_name
     then throwE (RuntimeError (''Got duplicate experiment name: '' @ quoted experiment_name))
     else
       bindE Environment_GetManagerPort (\<lambda>manager_port.
       bindE (modifyE (\<lambda>env. env\<lparr>env_experiment_map :=
         umap_emplace experiment_name (Experiment_ctor experiment_name) (env_experiment_map env)\<rparr>)) (\<lambda>_.
       modifyE (upd_experiment experiment_name (Experiment_SetManagerPort manager_port)))))"

definition Environment_AddNodeToExperiment :: "string \<Rightarrow> Node_pb \<Rightarrow> (Environment, unit) em" where
  "Environment_AddNodeToExperiment experiment_name node =
     bindE (Environment_GetExperimentInternal experiment_name) (\<lambda>_.
     bindE (modifyE (Environment_AddNodeToEnvironment node)) (\<lambda>_.
     Experiment_AddNode experiment_name node))"

definition Environment_least_deployed :: "string \<Rightarrow> bool \<Rightarrow> (Environment, string) em" where
  "Environment_least_deployed experiment_id non_empty =
     bindE (Environment_GetExperimentInternal experiment_id) (\<lambda>ex.
     liftE (Experiment_GetLeastDeployedToNode non_empty ex))"

definition Environment_DeployContainer :: "string \<Rightarrow> Container_pb \<Rightarrow> (Environment, unit) em" where
  "Environment_DeployContainer experiment_id container =
     bindE (Environment_least_deployed experiment_id False) (\<lambda>n.
     Node_add_container experiment_id n container)"

definition Environment_distribute_logger :: "string \<Rightarrow> Logger_pb \<Rightarrow> (Environment, unit) em" where
  "Environment_distribute_logger experiment_id logger =
     bindE (whenE (lpb_type logger = LOGGER_CLIENT)
       (bindE (Environment_GetExperimentInternal experiment_id) (\<lambda>_.
        Experiment_AddLoggingClientToNodes experiment_id logger))) (\<lambda>_.
     whenE (lpb_type logger = LOGGER_SERVER)
       (bindE (Environment_least_deployed experiment_id True) (\<lambda>n.
        Node_AddLoggingServerToImplicitContainer experiment_id n logger)))"

definition Environment_distribute_component :: "string \<Rightarrow> Component_pb \<Rightarrow> (Environment, unit) em" where
  "Environment_distribute_component experiment_id component =
     bindE (Environment_least_deployed experiment_id False) (\<lambda>n.
     Node_AddComponentToImplicitContainer experiment_id n component)"

definition Environment_DistributeContainerToImplicitNodeContainers ::
  "string \<Rightarrow> Container_pb \<Rightarrow> (Environment, unit) em" where
  "Environment_DistributeContainerToImplicitNodeContainers experiment_id container =
     bindE (forE (ctpb_components container) (Environment_distribute_component experiment_id)) (\<lambda>_.
     forE (ctpb_loggers container) (Environment_distribute_logger experiment_id))"

definition Environment_AddNodes :: "string \<Rightarrow> Cluster_pb \<Rightarrow> (Environment, unit) em" where
  "Environment_AddNodes experiment_id cluster =
     bindE (forE (clpb_nodes cluster) (Environment_AddNodeToExperiment experiment_id)) (\<lambda>_.
     bindE (forE (filter (\<lambda>c. \<not> ctpb_implicit c) (clpb_containers cluster))
       (Environment_DeployContainer experiment_id)) (\<lambda>_.
     forE (filter ctpb_implicit (clpb_containers cluster))
       (Environment_DistributeContainerToImplicitNodeContainers experiment_id)))"

definition Environment_configure :: "Experiment_pb \<Rightarrow> (Environment, unit) em" where
  "Environment_configure message =
     (let x = expb_name message in
      bindE (Environment_RegisterExperiment x) (\<lambda>_.
      bindE (Environment_GetExperimentInternal x) (\<lambda>experiment.
      bindE (whenE (Experiment_IsConfigured experiment)
        (throwE (RuntimeError (''Experiment '' @ quoted x @ '' has already been Configured once.'')))) (\<lambda>_.
      bindE (Experiment_AddExternalPorts x message) (\<lambda>_.
      bindE (forE (expb_clusters message) (Environment_AddNodes x)) (\<lambda>_.
      bindE (Experiment_ConfigureMaster x) (\<lambda>_.
      bindE (bindE (the_experiment x) (\<lambda>ex. liftE (Experiment_CheckValidity ex))) (\<lambda>_.
      try_upd_experiment x Experiment_SetConfigured))))))))"

definition Environment_PopulateExperiment :: "Experiment_pb \<Rightarrow> (Environment, unit) em" where
  "Environment_PopulateExperiment message =
     (let x = expb_name message in
      bindE getE (\<lambda>env.
      if umap_count (env_experiment_map env) x
      then throwE (RuntimeError (''Got duplicate experiment name: '' @ quoted x))
      else
        bindE (catchE is_std_exception (Environment_configure message) (\<lambda>e.
          bindE (Environment_RemoveExperimentInternal x) (\<lambda>_. throwE e))) (\<lambda>_.
        catchE is_std_exception
          (bindE (bindE getE (\<lambda>env. liftE (umap_at (env_experiment_map env) x))) (\<lambda>_.
           bindE (Experiment_GetProto x True) (\<lambda>proto.
           case proto of None \<Rightarrow> returnE () | Some m \<Rightarrow> modifyE (publish m))))
          (\<lambda>_. returnE ()))))"

section \<open>Queries and updates\<close>

definition Environment_GetExperiment :: "string \<Rightarrow> (Environment, Experiment) em" where
  "Environment_GetExperiment experiment_name = Environment_GetExperimentInternal experiment_name"

definition Environment_GetExperimentHandlerPort :: "string \<Rightarrow> (Environment, string) em" where
  "Environment_GetExperimentHandlerPort experiment_name =
     bindE (Environment_GetExperiment experiment_name) (\<lambda>ex. returnE (Experiment_GetManagerPort ex))"

definition Environment_GetDeploymentHandlerPort :: "string \<Rightarrow> DeploymentType \<Rightarrow> (Environment, string) em" where
  "Environment_GetDeploymentHandlerPort experiment_name deployment_type =
     (case deployment_type of
        EXECUTION_MASTER \<Rightarrow> Environment_GetExperimentHandlerPort experiment_name
      | LOGAN_SERVER \<Rightarrow> Environment_GetManagerPort)"

definition Environment_GetExperimentDeploymentInfo :: "string \<Rightarrow> (Environment, NodeDeployment_pb list) em" where
  "Environment_GetExperimentDeploymentInfo experiment_name =
     bindE (Environment_GetExperimentInternal experiment_name) (\<lambda>ex.
     returnE (Experiment_GetDeploymentInfo ex))"

text \<open>\<open>*proto\<close> is evaluated without a test: an experiment that has nothing to say makes it a
  null dereference.\<close>

definition Environment_GetProto :: "string \<Rightarrow> bool \<Rightarrow> (Environment, EnvironmentMessage_pb) em" where
  "Environment_GetProto experiment_name full_update =
     bindE (Environment_GetExperimentInternal experiment_name) (\<lambda>_.
     bindE (Experiment_GetProto experiment_name full_update) (\<lambda>proto.
     case proto of
       None \<Rightarrow> throwE (Undefined ''null EnvironmentMessage'')
     | Some m \<Rightarrow> bindE (modifyE (publish m)) (\<lambda>_. returnE m)))"

definition Environment_NodeDeployedTo :: "string \<Rightarrow> string \<Rightarrow> (Environment, bool) em" where
  "Environment_NodeDeployedTo experiment_name node_ip =
     catchE is_invalid_argument
       (bindE (Environment_GetExperimentInternal experiment_name) (\<lambda>ex.
        liftE (Experiment_HasDeploymentOn ex node_ip)))
       (\<lambda>_. returnE False)"

definition Environment_ask :: "(Experiment \<Rightarrow> bool) \<Rightarrow> string \<Rightarrow> (Environment, bool) em" where
  "Environment_ask P experiment_name =
     catchE is_std_exception
       (bindE (Environment_GetExperimentInternal experiment_name) (\<lambda>ex. returnE (P ex)))
       (\<lambda>_. returnE False)"

definition Environment_IsExperimentConfigured :: "string \<Rightarrow> (Environment, bool) em" where
  "Environment_IsExperimentConfigured = Environment_ask Experiment_IsConfigured"

definition Environment_IsExperimentRegistered :: "string \<Rightarrow> (Environment, bool) em" where
  "Environment_IsExperimentRegistered = Environment_ask Experiment_IsRegistered"

definition Environment_IsExperimentActive :: "string \<Rightarrow> (Environment, bool) em" where
  "Environment_IsExperimentActive = Environment_ask Experiment_IsActive"

definition Environment_GetMasterPublisherAddress :: "string \<Rightarrow> (Environment, string) em" where
  "Environment_GetMasterPublisherAddress experiment_name =
     catchE is_invalid_argument
       (bindE (Environment_GetExperimentInternal experiment_name) (\<lambda>_.
        Experiment_GetMasterPublisherAddress experiment_name))
       (\<lambda>_. returnE '''')"

definition Environment_GetMasterRegistrationAddress :: "string \<Rightarrow> (Environment, string) em" where
  "Environment_GetMasterRegistrationAddress experiment_name =
     catchE is_invalid_argument
       (bindE (Environment_GetExperimentInternal experiment_name) (\<lambda>_.
        Experiment_GetMasterRegistrationAddress experiment_name))
       (\<lambda>_. returnE '''')"

definition Environment_GotExperiment :: "string \<Rightarrow> Environment \<Rightarrow> bool" where
  "Environment_GotExperiment experiment_name env = umap_count (env_experiment_map env) experiment_name"

definition Environment_ExperimentIsDirty :: "string \<Rightarrow> (Environment, bool) em" where
  "Environment_ExperimentIsDirty experiment_name =
     bindE getE (\<lambda>env.
     if Environment_GotExperiment experiment_name env
     then bindE (Environment_GetExperimentInternal experiment_name) (\<lambda>ex. returnE (Experiment_IsDirty ex))
     else returnE False)"

definition Environment_GetExperimentNames :: "Environment \<Rightarrow> string list" where
  "Environment_GetExperimentNames env = umap_keys (env_experiment_map env)"

definition external_port_message :: "Exp_ExternalPort \<Rightarrow> ExternalPort_pb" where
  "external_port_message p =
     ExternalPort_default\<lparr>
       epb_info := Info_default\<lparr>info_name := xp_external_label p, info_type := xp_type p\<rparr>,
       epb_middleware := Port_TranslateInternalMiddleware (xp_middleware p),
       epb_kind := (case xp_kind p of EP_PubSub \<Rightarrow> PUBSUB | EP_ReqRep \<Rightarrow> SERVER)\<rparr>"

definition Environment_GetExternalPorts :: "Environment \<Rightarrow> ExternalPort_pb list" where
  "Environment_GetExternalPorts env =
     concat (map (\<lambda>(_, ex). map external_port_message (Experiment_GetExternalPorts ex)) (env_experiment_map env))"

definition Environment_GetUpdatePublisherPort :: "Environment \<Rightarrow> string" where
  "Environment_GetUpdatePublisherPort env = env_update_publisher_port env"

end
