(* ===== verification/EMAlloc.thy ===== *)
theory EMAlloc
  imports EMEnvironment "HOL-Library.Multiset"
begin

text \<open>
  Who holds which TCP port. \<open>held env\<close> is the multiset of all ports that objects of the
  environment record as theirs: producer ports of ZeroMQ ports, ORB ports of containers,
  publisher ports of loggers, the two master ports and the manager port of an experiment, and the
  port of the update publisher. \<open>alloc_ok H env\<close> says that no port is held twice, counting the
  ports \<open>H\<close> that code in the middle of an operation has in hand, and that no held port is free.

  Every operation is specified by a triple over \<open>alloc_ok\<close>, for an arbitrary \<open>H\<close>; a
  constructor returns with its ports in hand, a destructor takes them from the hand of its caller.
  Operations that do not touch ports are neutral: they keep the \<open>core\<close> of the environment.
\<close>

named_theorems neut \<open>computations that keep the core of the environment\<close>

section \<open>Triples\<close>

text \<open>\<open>E\<close> holds after an exception object; a computation without meaning promises nothing.\<close>

definition triple ::
  "('s \<Rightarrow> bool) \<Rightarrow> ('s, 'a) em \<Rightarrow> ('a \<Rightarrow> 's \<Rightarrow> bool) \<Rightarrow> ('s \<Rightarrow> bool) \<Rightarrow> bool" where
  "triple P m Q E \<longleftrightarrow> (\<forall>s. P s \<longrightarrow>
     (case m s of (Inr a, s') \<Rightarrow> Q a s' | (Inl e, s') \<Rightarrow> is_std_exception e \<longrightarrow> E s'))"

lemma tripleI:
  assumes "\<And>s a s'. P s \<Longrightarrow> m s = (Inr a, s') \<Longrightarrow> Q a s'"
    and "\<And>s e s'. P s \<Longrightarrow> m s = (Inl e, s') \<Longrightarrow> is_std_exception e \<Longrightarrow> E s'"
  shows "triple P m Q E"
  unfolding triple_def using assms by (auto split: prod.splits sum.splits)

lemma triple_InrD: "triple P m Q E \<Longrightarrow> P s \<Longrightarrow> m s = (Inr a, s') \<Longrightarrow> Q a s'"
  by (force simp: triple_def)

lemma triple_InlD: "triple P m Q E \<Longrightarrow> P s \<Longrightarrow> m s = (Inl e, s') \<Longrightarrow> is_std_exception e \<Longrightarrow> E s'"
  by (force simp: triple_def)

lemma triple_conseq:
  assumes "triple P' m Q' E'" "\<And>s. P s \<Longrightarrow> P' s" "\<And>a s. Q' a s \<Longrightarrow> Q a s" "\<And>s. E' s \<Longrightarrow> E s"
  shows "triple P m Q E"
  by (rule tripleI) (use assms in \<open>blast dest: triple_InrD triple_InlD\<close>)+

lemma triple_pre: "triple P' m Q E \<Longrightarrow> (\<And>s. P s \<Longrightarrow> P' s) \<Longrightarrow> triple P m Q E"
  by (erule triple_conseq)

lemma triple_post: "triple P m Q' E \<Longrightarrow> (\<And>a s. Q' a s \<Longrightarrow> Q a s) \<Longrightarrow> triple P m Q E"
  by (erule triple_conseq)

lemma triple_return: "(\<And>s. P s \<Longrightarrow> Q a s) \<Longrightarrow> triple P (returnE a) Q E"
  by (auto simp: triple_def returnE_def)

lemma triple_throw: "(\<And>s. P s \<Longrightarrow> is_std_exception e \<Longrightarrow> E s) \<Longrightarrow> triple P (throwE e) Q E"
  by (auto simp: triple_def throwE_def)

lemma triple_undefined: "triple P (throwE (Undefined w)) Q E"
  by (auto simp: triple_def throwE_def)

lemma triple_bind:
  assumes "triple P m R E" and "\<And>a. triple (R a) (f a) Q E"
  shows "triple P (bindE m f) Q E"
proof (rule tripleI)
  fix s b s' assume "P s" "bindE m f s = (Inr b, s')"
  then show "Q b s'" using assms by (auto elim!: bindE_InrD dest: triple_InrD)
next
  fix s e s' assume s: "P s" "bindE m f s = (Inl e, s')" "is_std_exception e"
  then show "E s'"
  proof (cases "m s")
    case (Pair r t)
    then show ?thesis
      using s assms by (cases r) (auto simp: bindE_def dest: triple_InrD triple_InlD)
  qed
qed

lemma triple_get: "(\<And>t. triple (\<lambda>s. P s \<and> s = t) (f t) Q E) \<Longrightarrow> triple P (bindE getE f) Q E"
  by (auto simp: triple_def bindE_def)

lemma triple_get': "(\<And>t. triple P (f t) Q E) \<Longrightarrow> triple P (bindE getE f) Q E"
  by (auto simp: triple_def bindE_def)

lemma triple_modify: "(\<And>s. P s \<Longrightarrow> Q () (f s)) \<Longrightarrow> triple P (modifyE f) Q E"
  by (auto simp: triple_def)

lemma triple_lift: "(\<And>s a. P s \<Longrightarrow> r = Inr a \<Longrightarrow> Q a s) \<Longrightarrow> (\<And>s. P s \<Longrightarrow> E s) \<Longrightarrow> triple P (liftE r) Q E"
  by (auto simp: triple_def liftE_def split: sum.splits)

lemma triple_when:
  "(b \<Longrightarrow> triple P m (\<lambda>_. Q) E) \<Longrightarrow> (\<And>s. \<not> b \<Longrightarrow> P s \<Longrightarrow> Q s) \<Longrightarrow> triple P (whenE b m) (\<lambda>_. Q) E"
  by (auto simp: whenE_def intro: triple_return)

lemma triple_if: "(b \<Longrightarrow> triple P m Q E) \<Longrightarrow> (\<not> b \<Longrightarrow> triple P n Q E) \<Longrightarrow> triple P (if b then m else n) Q E"
  by simp

lemma triple_catch:
  assumes m: "triple P m Q E'" and h: "\<And>e. p e \<Longrightarrow> triple E' (h e) Q E"
    and E: "\<And>e s. \<not> p e \<Longrightarrow> E' s \<Longrightarrow> E s" and p: "\<And>e. p e \<Longrightarrow> is_std_exception e"
  shows "triple P (catchE p m h) Q E"
proof -
  have "case catchE p m h s of (Inr a, s') \<Rightarrow> Q a s' | (Inl e, s') \<Rightarrow> is_std_exception e \<longrightarrow> E s'"
    if s: "P s" for s
  proof (cases "m s")
    case (Pair r t)
    show ?thesis
    proof (cases r)
      case (Inr a)
      then show ?thesis using Pair triple_InrD [OF m s] by (simp add: catchE_def)
    next
      case (Inl e)
      have t: "is_std_exception e \<Longrightarrow> E' t" using triple_InlD [OF m s] Pair Inl by simp
      show ?thesis
      proof (cases "p e")
        case True
        then have "E' t" using t p by blast
        then show ?thesis using h [OF True] True Pair Inl by (simp add: catchE_def triple_def)
      next
        case False
        then show ?thesis using t E Pair Inl by (simp add: catchE_def)
      qed
    qed
  qed
  then show ?thesis by (simp add: triple_def)
qed

lemma triple_catch_std:
  "triple P m Q E' \<Longrightarrow> (\<And>e. triple E' (h e) Q E) \<Longrightarrow> triple P (catchE is_std_exception m h) Q E"
proof -
  assume m: "triple P m Q E'" and h: "\<And>e. triple E' (h e) Q E"
  have "case catchE is_std_exception m h s of (Inr a, s') \<Rightarrow> Q a s' | (Inl e, s') \<Rightarrow> is_std_exception e \<longrightarrow> E s'"
    if s: "P s" for s
    using triple_InrD [OF m s] triple_InlD [OF m s] h
    by (cases "m s"; cases "fst (m s)") (simp_all add: catchE_def triple_def)
  then show ?thesis by (simp add: triple_def)
qed

lemma triple_pure: "(A \<Longrightarrow> triple P m Q E) \<Longrightarrow> triple (\<lambda>s. P s \<and> A) m Q E"
  by (auto simp: triple_def)

lemma triple_for: "(\<And>x. x \<in> set xs \<Longrightarrow> triple I (f x) (\<lambda>_. I) E) \<Longrightarrow> triple I (forE xs f) (\<lambda>_. I) E"
proof (induction xs)
  case Nil
  then show ?case by (auto intro: triple_return)
next
  case (Cons x xs)
  show ?case unfolding forE.simps by (rule triple_bind [where R = "\<lambda>_. I"]) (use Cons in auto)
qed

lemma triple_map: "(\<And>x. x \<in> set xs \<Longrightarrow> triple I (f x) (\<lambda>_. I) E) \<Longrightarrow> triple I (mapE f xs) (\<lambda>_. I) E"
proof (induction xs)
  case Nil
  then show ?case by (auto intro: triple_return)
next
  case (Cons x xs)
  show ?case unfolding mapE.simps
    by (rule triple_bind [where R = "\<lambda>_. I"], use Cons in simp,
        rule triple_bind [where R = "\<lambda>_. I"], use Cons in simp, rule triple_return)
qed

text \<open>A loop that hands on one thing after the other, with a resource for each.\<close>

lemma triple_for_sum:
  fixes g :: "'x \<Rightarrow> 'r::comm_monoid_add"
  assumes f: "\<And>x H. x \<in> set xs \<Longrightarrow> triple (K (H + g x)) (f x) (\<lambda>_. K H) (K H)"
    and mono: "\<And>H X s. K (H + X) s \<Longrightarrow> K H s"
  shows "triple (K (H + sum_list (map g xs))) (forE xs f) (\<lambda>_. K H) (K H)"
  using f
proof (induction xs)
  case Nil
  then show ?case by (auto intro: triple_return)
next
  case (Cons x xs)
  let ?H = "H + sum_list (map g xs)"
  have "triple (K (?H + g x)) (f x) (\<lambda>_. K ?H) (K H)"
    by (rule triple_conseq [OF Cons.prems [where x = x and H = ?H]]) (auto intro: mono)
  then have "triple (K (H + sum_list (map g (x # xs)))) (f x) (\<lambda>_. K ?H) (K H)" by (simp add: ac_simps)
  then show ?case unfolding forE.simps by (rule triple_bind) (rule Cons.IH, rule Cons.prems, simp)
qed

section \<open>Who holds what\<close>

datatype resource = NodePort string string | ManagerPort string

definition lease :: "string \<Rightarrow> string \<Rightarrow> resource multiset" where
  "lease ip p = (if p = '''' then {#} else {#NodePort ip p#})"

definition manager_lease :: "string \<Rightarrow> resource multiset" where
  "manager_lease p = (if p = '''' then {#} else {#ManagerPort p#})"

definition Port_holds :: "Port \<Rightarrow> resource multiset" where
  "Port_holds pt =
     (case pt_detail pt of
        ZmqPort ip p _ \<Rightarrow> if \<not> Port_IsBlackbox pt \<and> is_producer (pt_kind pt) then lease ip p else {#}
      | _ \<Rightarrow> {#})"

definition Component_holds :: "Component \<Rightarrow> resource multiset" where
  "Component_holds cp = sum_list (map (Port_holds \<circ> snd) (cp_ports cp))"

definition Logger_holds :: "string \<Rightarrow> Logger \<Rightarrow> resource multiset" where
  "Logger_holds ip lg = lease ip (lg_publisher_port lg)"

definition Container_holds :: "string \<Rightarrow> Container \<Rightarrow> resource multiset" where
  "Container_holds ip ct =
     lease ip (ct_orb_port ct) + sum_list (map (Logger_holds ip \<circ> snd) (ct_loggers ct)) +
     sum_list (map (Component_holds \<circ> snd) (ct_components ct))"

definition Node_holds :: "Node \<Rightarrow> resource multiset" where
  "Node_holds nd = sum_list (map (Container_holds (nd_ip nd) \<circ> snd) (nd_containers nd))"

definition Experiment_holds :: "Experiment \<Rightarrow> resource multiset" where
  "Experiment_holds ex =
     manager_lease (ex_manager_port ex) +
     lease (ex_master_ip_address ex) (ex_master_publisher_port ex) +
     lease (ex_master_ip_address ex) (ex_master_registration_port ex) +
     sum_list (map (Node_holds \<circ> snd) (ex_node_map ex))"

definition held :: "Environment \<Rightarrow> resource multiset" where
  "held env = manager_lease (env_update_publisher_port env) +
     sum_list (map (Experiment_holds \<circ> snd) (env_experiment_map env))"

text \<open>No key twice in any map of the tree; an experiment's key is its name, a node's its address.
  The member \<open>management_port_\<close> of a container is never assigned, and blackbox ports hold nothing.\<close>

definition Component_keys :: "Component \<Rightarrow> bool" where
  "Component_keys cp \<longleftrightarrow> umap_wf (cp_ports cp)"

definition Container_keys :: "Container \<Rightarrow> bool" where
  "Container_keys ct \<longleftrightarrow> ct_management_port ct = '''' \<and>
     umap_wf (ct_components ct) \<and> umap_wf (ct_loggers ct) \<and>
     list_all (Component_keys \<circ> snd) (ct_components ct)"

definition Node_keys :: "Node \<Rightarrow> bool" where
  "Node_keys nd \<longleftrightarrow> umap_wf (nd_containers nd) \<and> list_all (Container_keys \<circ> snd) (nd_containers nd)"

definition blackbox_free :: "Experiment \<Rightarrow> bool" where
  "blackbox_free ex = list_all (\<lambda>(_, pt). Port_holds pt = {#}) (ex_blackbox_port_map ex)"

definition Experiment_keys :: "Experiment \<Rightarrow> bool" where
  "Experiment_keys ex \<longleftrightarrow> blackbox_free ex \<and> umap_wf (ex_node_map ex) \<and>
     list_all (\<lambda>(n, nd). Node_keys nd \<and> nd_ip nd = n) (ex_node_map ex)"

definition env_keys :: "Environment \<Rightarrow> bool" where
  "env_keys env \<longleftrightarrow> umap_wf (env_experiment_map env) \<and>
     list_all (\<lambda>(x, ex). Experiment_keys ex \<and> ex_model_name ex = x) (env_experiment_map env)"

text \<open>The pools the ports come from.\<close>

definition pools_ok :: "Environment \<Rightarrow> bool" where
  "pools_ok env \<longleftrightarrow> umap_wf (env_node_map env) \<and> list_all (tracker_wf \<circ> snd) (env_node_map env) \<and>
     uq_wf (env_available_ports env) \<and> list_all int_range (m_queue (env_available_ports env)) \<and>
     uq_wf (env_available_node_manager_ports env) \<and>
     list_all int_range (m_queue (env_available_node_manager_ports env))"

fun is_free :: "Environment \<Rightarrow> resource \<Rightarrow> bool" where
  "is_free env (NodePort ip p) =
     (case map_of (env_node_map env) ip of None \<Rightarrow> False | Some t \<Rightarrow> p \<in> to_string ` set (free_ports t))"
| "is_free env (ManagerPort p) = (p \<in> to_string ` set (m_queue (env_available_node_manager_ports env)))"

text \<open>A port in use came from a pool: it is the decimal string of an \<open>int\<close>, and its node is known.\<close>

fun from_pool :: "Environment \<Rightarrow> resource \<Rightarrow> bool" where
  "from_pool env (NodePort ip p) =
     (umap_count (env_node_map env) ip \<and> (\<exists>i. int_range i \<and> p = to_string i))"
| "from_pool env (ManagerPort p) = (\<exists>i. int_range i \<and> p = to_string i)"

definition exclusive :: "resource multiset \<Rightarrow> Environment \<Rightarrow> bool" where
  "exclusive M env \<longleftrightarrow>
     (\<forall>r. count M r \<le> (if is_free env r then 0 else 1)) \<and> (\<forall>r \<in># M. from_pool env r)"

definition alloc_ok :: "resource multiset \<Rightarrow> Environment \<Rightarrow> bool" where
  "alloc_ok H env \<longleftrightarrow> pools_ok env \<and> env_keys env \<and> exclusive (held env + H) env"

lemma exclusive_mono: "exclusive (M + X) env \<Longrightarrow> exclusive M env"
proof -
  assume e: "exclusive (M + X) env"
  have "count M r \<le> (if is_free env r then 0 else 1)" for r
  proof -
    have "count M r \<le> count (M + X) r" by simp
    also have "\<dots> \<le> (if is_free env r then 0 else 1)" using e unfolding exclusive_def by blast
    finally show ?thesis .
  qed
  moreover have "\<forall>r \<in># M. from_pool env r" using e unfolding exclusive_def by simp
  ultimately show ?thesis unfolding exclusive_def by blast
qed

lemma alloc_ok_mono: "alloc_ok (H + X) env \<Longrightarrow> alloc_ok H env"
  using exclusive_mono [of "held env + H" X env] by (simp add: alloc_ok_def add.assoc)

section \<open>The core of the environment\<close>

text \<open>\<open>shape\<close> is the tree as far as \<open>alloc_ok\<close> looks at it.\<close>

definition Container_shape :: "string \<Rightarrow> string \<times> Container \<Rightarrow> string \<times> resource multiset \<times> bool" where
  "Container_shape ip = (\<lambda>(c, ct). (c, Container_holds ip ct, Container_keys ct))"

definition Node_shape where
  "Node_shape = (\<lambda>(n, nd). (n::string, nd_ip nd, map (Container_shape (nd_ip nd)) (nd_containers nd)))"

definition Experiment_shape where
  "Experiment_shape = (\<lambda>(x, ex). (x::string, ex_model_name ex, ex_manager_port ex, ex_master_ip_address ex,
     ex_master_publisher_port ex, ex_master_registration_port ex, blackbox_free ex, map Node_shape (ex_node_map ex)))"

definition shape where
  "shape env = map Experiment_shape (env_experiment_map env)"

definition core where
  "core env = (shape env, env_node_map env, env_available_ports env,
     env_available_node_manager_ports env, env_update_publisher_port env)"

lemma Node_holds_shape:
  "Node_holds nd = sum_list (map (\<lambda>(_, h, _). h) (snd (snd (Node_shape (n, nd)))))"
  by (simp add: Node_holds_def Node_shape_def Container_shape_def comp_def case_prod_beta)

lemma Node_keys_shape:
  "Node_keys nd \<longleftrightarrow> (let cs = snd (snd (Node_shape (n, nd))) in
     distinct (map fst cs) \<and> list_all (\<lambda>(_, _, k). k) cs)"
  by (simp add: Node_keys_def Node_shape_def Container_shape_def umap_wf_def comp_def case_prod_beta
      list_all_iff Let_def)

lemma Node_shape_eqD:
  assumes "Node_shape (n, nd) = Node_shape (n', nd')"
  shows "n = n'" "nd_ip nd = nd_ip nd'" "Node_holds nd = Node_holds nd'" "Node_keys nd = Node_keys nd'"
proof -
  show "n = n'" "nd_ip nd = nd_ip nd'" using assms by (simp_all add: Node_shape_def)
  show "Node_holds nd = Node_holds nd'" 
    using Node_holds_shape [of nd n] Node_holds_shape [of nd' n'] assms by simp
  show "Node_keys nd = Node_keys nd'" 
    using Node_keys_shape [of nd n] Node_keys_shape [of nd' n'] assms by simp
qed

lemma Node_shape_eq_snd:
  "Node_shape p = Node_shape q \<Longrightarrow> fst p = fst q \<and> nd_ip (snd p) = nd_ip (snd q) \<and>
     Node_holds (snd p) = Node_holds (snd q) \<and> Node_keys (snd p) = Node_keys (snd q)"
proof -
  assume "Node_shape p = Node_shape q"
  then have "Node_shape (fst p, snd p) = Node_shape (fst q, snd q)" by simp
  from Node_shape_eqD [OF this] show ?thesis by (intro conjI)
qed

lemma map_eq_map_cong:
  assumes "map f xs = map f ys" and "\<And>x y. f x = f y \<Longrightarrow> g x = g y"
  shows "map g xs = map g ys"
proof -
  have l: "length xs = length ys" using assms(1) by (rule map_eq_imp_length_eq)
  have "map g xs ! i = map g ys ! i" if "i < length (map g xs)" for i
  proof -
    have i: "i < length xs" "i < length ys" using that l by simp_all
    have "f (xs ! i) = f (ys ! i)" using arg_cong [OF assms(1), of "\<lambda>zs. zs ! i"] i by simp
    then have "g (xs ! i) = g (ys ! i)" by (rule assms(2))
    then show ?thesis using i by simp
  qed
  then show ?thesis using l by (intro nth_equalityI) simp_all
qed

lemma Experiment_shape_eqD:
  assumes "Experiment_shape (x, ex) = Experiment_shape (x', ex')"
  shows "x = x'" "ex_model_name ex = ex_model_name ex'" "Experiment_holds ex = Experiment_holds ex'"
    "Experiment_keys ex = Experiment_keys ex'"
proof -
  have ns: "map Node_shape (ex_node_map ex) = map Node_shape (ex_node_map ex')"
    using assms by (simp add: Experiment_shape_def)
  have h: "map (Node_holds \<circ> snd) (ex_node_map ex) = map (Node_holds \<circ> snd) (ex_node_map ex')"
    by (rule map_eq_map_cong [OF ns]) (drule Node_shape_eq_snd, simp)
  have k: "map (\<lambda>(n, nd). (n, Node_keys nd \<and> nd_ip nd = n)) (ex_node_map ex) =
           map (\<lambda>(n, nd). (n, Node_keys nd \<and> nd_ip nd = n)) (ex_node_map ex')"
    by (rule map_eq_map_cong [OF ns]) (drule Node_shape_eq_snd, simp add: case_prod_beta)
  have bb: "blackbox_free ex = blackbox_free ex'" using assms by (simp add: Experiment_shape_def)
  have keys: "Experiment_keys e \<longleftrightarrow> blackbox_free e \<and>
      (let m = map (\<lambda>(n, nd). (n, Node_keys nd \<and> nd_ip nd = n)) (ex_node_map e) in
       distinct (map fst m) \<and> list_all snd m)" for e
    by (simp add: Experiment_keys_def umap_wf_def comp_def case_prod_beta list_all_iff Let_def)
  show "Experiment_keys ex = Experiment_keys ex'" by (simp only: keys k bb)
  show "Experiment_holds ex = Experiment_holds ex'"
    using assms h by (simp add: Experiment_holds_def Experiment_shape_def)
qed (use assms in \<open>simp_all add: Experiment_shape_def\<close>)

lemma Experiment_shape_eq_snd:
  "Experiment_shape p = Experiment_shape q \<Longrightarrow> fst p = fst q \<and>
     ex_model_name (snd p) = ex_model_name (snd q) \<and>
     Experiment_holds (snd p) = Experiment_holds (snd q) \<and> Experiment_keys (snd p) = Experiment_keys (snd q)"
proof -
  assume "Experiment_shape p = Experiment_shape q"
  then have "Experiment_shape (fst p, snd p) = Experiment_shape (fst q, snd q)" by simp
  from Experiment_shape_eqD [OF this] show ?thesis by (intro conjI)
qed

lemma shape_eqD:
  assumes "shape env = shape env'"
  shows "sum_list (map (Experiment_holds \<circ> snd) (env_experiment_map env)) =
         sum_list (map (Experiment_holds \<circ> snd) (env_experiment_map env'))"
    and "env_keys env = env_keys env'"
proof -
  have s: "map Experiment_shape (env_experiment_map env) = map Experiment_shape (env_experiment_map env')"
    using assms by (simp add: shape_def)
  have "map (Experiment_holds \<circ> snd) (env_experiment_map env) = map (Experiment_holds \<circ> snd) (env_experiment_map env')"
    by (rule map_eq_map_cong [OF s]) (drule Experiment_shape_eq_snd, simp)
  then show "sum_list (map (Experiment_holds \<circ> snd) (env_experiment_map env)) =
         sum_list (map (Experiment_holds \<circ> snd) (env_experiment_map env'))" by simp
  have k: "map (\<lambda>(x, ex). (x, Experiment_keys ex \<and> ex_model_name ex = x)) (env_experiment_map env) =
           map (\<lambda>(x, ex). (x, Experiment_keys ex \<and> ex_model_name ex = x)) (env_experiment_map env')"
    by (rule map_eq_map_cong [OF s]) (drule Experiment_shape_eq_snd, simp add: case_prod_beta)
  have keys: "env_keys e \<longleftrightarrow>
      (let m = map (\<lambda>(x, ex). (x, Experiment_keys ex \<and> ex_model_name ex = x)) (env_experiment_map e) in
       distinct (map fst m) \<and> list_all snd m)" for e
    by (simp add: env_keys_def umap_wf_def comp_def case_prod_beta list_all_iff Let_def)
  show "env_keys env = env_keys env'" by (simp only: keys k)
qed

lemma is_free_cong:
  "env_node_map env = env_node_map env' \<Longrightarrow>
   env_available_node_manager_ports env = env_available_node_manager_ports env' \<Longrightarrow>
   is_free env r = is_free env' r"
  by (cases r) auto

lemma from_pool_cong: "env_node_map env = env_node_map env' \<Longrightarrow> from_pool env r = from_pool env' r"
  by (cases r) auto

lemma alloc_ok_core: "core env = core env' \<Longrightarrow> alloc_ok H env = alloc_ok H env'"
proof -
  assume c: "core env = core env'"
  then have s: "shape env = shape env'" by (simp add: core_def)
  have h: "held env = held env'" using c shape_eqD(1) [OF s] by (simp add: held_def core_def)
  have k: "env_keys env = env_keys env'" by (rule shape_eqD(2) [OF s])
  have "pools_ok env = pools_ok env'" using c by (simp add: pools_ok_def core_def)
  moreover have "exclusive (held env + H) env = exclusive (held env' + H) env'"
    using c is_free_cong [of env env'] from_pool_cong [of env env']
    by (simp add: exclusive_def h core_def)
  ultimately show ?thesis using k by (simp add: alloc_ok_def)
qed

section \<open>Taking and giving back\<close>

lemma exclusive_take:
  assumes ex: "exclusive M env" and r: "is_free env r" "\<not> is_free env' r" "from_pool env r"
    and same: "\<And>r'. r' \<noteq> r \<Longrightarrow> is_free env' r' = is_free env r'"
    and pool: "\<And>r'. from_pool env r' \<Longrightarrow> from_pool env' r'"
  shows "exclusive (M + {#r#}) env'"
proof -
  have le: "count M r' \<le> (if is_free env r' then 0 else 1)" for r' using ex unfolding exclusive_def by blast
  have "count (M + {#r#}) r' \<le> (if is_free env' r' then 0 else 1)" for r'
    using le [of r'] r same [of r'] by (cases "r' = r") auto
  moreover have "\<forall>r' \<in># M + {#r#}. from_pool env' r'"
    using ex r(3) pool unfolding exclusive_def by auto
  ultimately show ?thesis unfolding exclusive_def by blast
qed

lemma exclusive_give:
  assumes ex: "exclusive (M + {#r#}) env"
    and same: "\<And>r'. r' \<noteq> r \<Longrightarrow> is_free env' r' = is_free env r'"
    and pool: "\<And>r'. from_pool env r' \<Longrightarrow> from_pool env' r'"
  shows "exclusive M env'"
proof -
  have le: "count (M + {#r#}) r' \<le> (if is_free env r' then 0 else 1)" for r'
    using ex unfolding exclusive_def by blast
  have "count M r' \<le> (if is_free env' r' then 0 else 1)" for r'
    using le [of r'] same [of r'] by (cases "r' = r") (auto split: if_splits)
  moreover have "\<forall>r' \<in># M. from_pool env' r'" using ex pool unfolding exclusive_def by auto
  ultimately show ?thesis unfolding exclusive_def by blast
qed

lemma to_string_in_iff:
  "int_range i \<Longrightarrow> (\<And>j. j \<in> J \<Longrightarrow> int_range j) \<Longrightarrow> to_string i \<in> to_string ` J \<longleftrightarrow> i \<in> J"
  using inj_to_string by (auto simp: int_range_def)

text \<open>\<open>alloc_ok\<close> with the tree held fixed.\<close>

definition alloc_at where
  "alloc_at sh H env \<longleftrightarrow> alloc_ok H env \<and> shape env = sh"

lemma alloc_at_mono: "alloc_at sh (H + X) env \<Longrightarrow> alloc_at sh H env"
  using alloc_ok_mono by (auto simp: alloc_at_def)

definition set_tracker :: "string \<Rightarrow> port_tracker \<Rightarrow> Environment \<Rightarrow> Environment" where
  "set_tracker ip t env = env\<lparr>env_node_map := umap_modify ip (\<lambda>_. t) (env_node_map env)\<rparr>"

lemma set_tracker_frame [simp]:
  "shape (set_tracker ip t env) = shape env" "held (set_tracker ip t env) = held env"
  "env_keys (set_tracker ip t env) = env_keys env"
  "env_available_ports (set_tracker ip t env) = env_available_ports env"
  "env_available_node_manager_ports (set_tracker ip t env) = env_available_node_manager_ports env"
  "map_of (env_node_map (set_tracker ip t env)) ip' =
     (if ip' = ip then map_option (\<lambda>_. t) (map_of (env_node_map env) ip) else map_of (env_node_map env) ip')"
  by (simp_all add: set_tracker_def shape_def held_def env_keys_def)

lemma set_tracker_pools:
  "pools_ok env \<Longrightarrow> tracker_wf t \<Longrightarrow> pools_ok (set_tracker ip t env)"
  by (auto simp: pools_ok_def set_tracker_def list_all_iff dest!: set_umap_modifyD)

lemma set_tracker_from_pool [simp]: "from_pool (set_tracker ip t env) r = from_pool env r"
  by (cases r) (auto simp: set_tracker_def)

lemma pools_tracker: "pools_ok env \<Longrightarrow> map_of (env_node_map env) ip = Some t \<Longrightarrow> tracker_wf t"
  by (force simp: pools_ok_def list_all_iff dest: map_of_SomeD)

lemma tracker_range: "tracker_wf t \<Longrightarrow> i \<in> set (free_ports t) \<Longrightarrow> int_range i"
  by (auto simp: tracker_wf_def free_ports_def list_all_iff)

lemma tracker_distinct: "tracker_wf t \<Longrightarrow> distinct (free_ports t)"
  by (simp add: tracker_wf_def free_ports_def uq_wf_def)

lemma set_tracker_is_free_other:
  "r \<noteq> NodePort ip p \<Longrightarrow>
   (\<And>q. q \<noteq> p \<Longrightarrow> q \<in> to_string ` set (free_ports t') \<longleftrightarrow> q \<in> to_string ` set (free_ports t)) \<Longrightarrow>
   map_of (env_node_map env) ip = Some t \<Longrightarrow>
   is_free (set_tracker ip t' env) r = is_free env r"
  by (cases r) auto

lemma GetPort_alloc:
  "triple (alloc_at sh H) (Environment_GetPort ip) (\<lambda>p. alloc_at sh (H + lease ip p)) (alloc_at sh H)"
proof (rule tripleI)
  fix env p env'
  assume K: "alloc_at sh H env" and g: "Environment_GetPort ip env = (Inr p, env')"
  then obtain t t' where t: "map_of (env_node_map env) ip = Some t" "PortTracker_GetPort t = (Inr p, t')"
    "env' = set_tracker ip t' env"
    by (auto simp: Environment_GetPort_def set_tracker_def split: option.splits prod.splits)
  have P: "pools_ok env" and wf: "tracker_wf t" and X: "exclusive (held env + H) env"
    using K pools_tracker [OF _ t(1)] by (auto simp: alloc_at_def alloc_ok_def)
  show "alloc_at sh (H + lease ip p) env'"
  proof (cases "free_ports t")
    case Nil
    then have "p = ''''" "t' = t" using GetPort_empty t(2) by auto
    moreover have "set_tracker ip t env = env"
      using t(1) by (simp add: set_tracker_def umap_modify_same [OF _ t(1)] P [unfolded pools_ok_def])
    ultimately show ?thesis using K t(3) by (simp add: lease_def)
  next
    case (Cons q qs)
    from GetPort_Cons [OF wf Cons] t(2) have q: "p = to_string q" "free_ports t' = qs" "tracker_wf t'" by auto
    have rng: "int_range q" "\<And>j. j \<in> set qs \<Longrightarrow> int_range j" using tracker_range [OF wf] Cons by auto
    have "q \<notin> set qs" using tracker_distinct [OF wf] Cons by simp
    then have new: "p \<notin> to_string ` set qs" using to_string_in_iff [OF rng] q(1) by simp
    have "exclusive (held env + H + {#NodePort ip p#}) (set_tracker ip t' env)"
    proof (rule exclusive_take [OF X])
      show "is_free env (NodePort ip p)" using t(1) Cons q(1) by simp
      show "\<not> is_free (set_tracker ip t' env) (NodePort ip p)" using t(1) q(2) new by simp
      show "from_pool env (NodePort ip p)" using t(1) rng(1) q(1) by (auto simp: umap_count_def)
      show "is_free (set_tracker ip t' env) r' = is_free env r'" if "r' \<noteq> NodePort ip p" for r'
        by (rule set_tracker_is_free_other [OF that _ t(1)]) (use Cons q in auto)
    qed simp
    then show ?thesis using K t(3) q set_tracker_pools [OF P q(3)]
      by (simp add: alloc_at_def alloc_ok_def lease_def add.assoc)
  qed
next
  fix env e env'
  assume K: "alloc_at sh H env" and g: "Environment_GetPort ip env = (Inl e, env')"
  show "alloc_at sh H env'"
  proof (cases "map_of (env_node_map env) ip")
    case None
    then show ?thesis using K g by (simp add: Environment_GetPort_def)
  next
    case (Some t)
    then have "tracker_wf t" using K pools_tracker by (auto simp: alloc_at_def alloc_ok_def)
    from GetPort_no_throw [OF this] Some g show ?thesis by (auto simp: Environment_GetPort_def)
  qed
qed

lemma FreePort_alloc:
  assumes K: "alloc_at sh (H + lease ip p) env"
  shows "alloc_at sh H (Environment_FreePort ip p env)"
proof (cases "p = '''' \<or> map_of (env_node_map env) ip = None")
  case True
  then have "Environment_FreePort ip p env = env"
    by (auto simp: Environment_FreePort_def PortTracker_FreePort_def umap_count_def umap_modify_id)
  then show ?thesis using alloc_at_mono [OF K] by simp
next
  case False
  then obtain t where t: "map_of (env_node_map env) ip = Some t" and p: "p \<noteq> ''''" by auto
  let ?t = "PortTracker_FreePort p t"
  have X: "exclusive (held env + H + {#NodePort ip p#}) env" and P: "pools_ok env"
    using K p by (simp_all add: alloc_at_def alloc_ok_def lease_def add.assoc)
  have wf: "tracker_wf t" by (rule pools_tracker [OF P t])
  from X obtain i where i: "int_range i" "p = to_string i" unfolding exclusive_def by auto
  have env': "Environment_FreePort ip p env = set_tracker ip ?t env"
    using t umap_modify_at [OF _ t, of "PortTracker_FreePort p"] P
    by (simp add: Environment_FreePort_def set_tracker_def umap_count_def pools_ok_def)
  have free: "set (free_ports ?t) = insert i (set (free_ports t))"
    using FreePort_to_string(2) [OF wf i(1)] i(2) by auto
  have "exclusive (held env + H) (set_tracker ip ?t env)"
  proof (rule exclusive_give [OF X])
    show "is_free (set_tracker ip ?t env) r' = is_free env r'" if "r' \<noteq> NodePort ip p" for r'
      by (rule set_tracker_is_free_other [OF that _ t]) (use free i in auto)
  qed simp
  then show ?thesis unfolding env' using K set_tracker_pools [OF P FreePort_wf [OF wf]]
    by (simp add: alloc_at_def alloc_ok_def)
qed

text \<open>The manager ports.\<close>

definition set_manager_pool :: "int unique_queue \<Rightarrow> Environment \<Rightarrow> Environment" where
  "set_manager_pool q env = env\<lparr>env_available_node_manager_ports := q\<rparr>"

lemma set_manager_pool_frame [simp]:
  "shape (set_manager_pool q env) = shape env" "held (set_manager_pool q env) = held env"
  "env_keys (set_manager_pool q env) = env_keys env"
  "env_node_map (set_manager_pool q env) = env_node_map env"
  "env_available_node_manager_ports (set_manager_pool q env) = q"
  by (simp_all add: set_manager_pool_def shape_def held_def env_keys_def)

lemma set_manager_pool_from_pool [simp]: "from_pool (set_manager_pool q env) r = from_pool env r"
  by (cases r) simp_all

lemma set_manager_pool_ok:
  "pools_ok env \<Longrightarrow> uq_wf q \<Longrightarrow> list_all int_range (m_queue q) \<Longrightarrow> pools_ok (set_manager_pool q env)"
  by (simp add: pools_ok_def set_manager_pool_def)

lemma set_manager_pool_is_free_other:
  "r \<noteq> ManagerPort p \<Longrightarrow>
   (\<And>q'. q' \<noteq> p \<Longrightarrow> q' \<in> to_string ` set (m_queue q) \<longleftrightarrow>
      q' \<in> to_string ` set (m_queue (env_available_node_manager_ports env))) \<Longrightarrow>
   is_free (set_manager_pool q env) r = is_free env r"
  by (cases r) auto

lemma GetManagerPort_alloc:
  "triple (alloc_at sh H) Environment_GetManagerPort
     (\<lambda>p s. alloc_at sh (H + manager_lease p) s \<and> p \<noteq> '''') (alloc_at sh H)"
proof (rule tripleI)
  fix env :: Environment and p env'
  let ?q = "env_available_node_manager_ports env"
  assume K: "alloc_at sh H env" and g: "Environment_GetManagerPort env = (Inr p, env')"
  have P: "pools_ok env" and X: "exclusive (held env + H) env"
    using K by (auto simp: alloc_at_def alloc_ok_def)
  then have wf: "uq_wf ?q" and rng: "list_all int_range (m_queue ?q)" by (simp_all add: pools_ok_def)
  obtain i qs where q: "m_queue ?q = i # qs"
    using g by (cases "m_queue ?q") (auto simp: Environment_GetManagerPort_def uq_empty_def)
  from uq.pop_tl [OF wf q] obtain q' where q': "uq_pop ?q = Inr q'" "m_queue q' = qs" "uq_wf q'" by blast
  have e: "p = to_string i" "env' = set_manager_pool q' env"
    using g q' q uq.front_hd [OF wf q]
    by (auto simp: Environment_GetManagerPort_def uq_empty_def set_manager_pool_def)
  have ri: "int_range i" "\<And>j. j \<in> set qs \<Longrightarrow> int_range j" using rng q by (auto simp: list_all_iff)
  have "i \<notin> set qs" using wf q by (auto simp: uq_wf_def)
  then have new: "p \<notin> to_string ` set qs" using to_string_in_iff [OF ri] e(1) by simp
  have "exclusive (held env + H + {#ManagerPort p#}) (set_manager_pool q' env)"
  proof (rule exclusive_take [OF X])
    show "is_free (set_manager_pool q' env) r' = is_free env r'" if "r' \<noteq> ManagerPort p" for r'
      by (rule set_manager_pool_is_free_other [OF that]) (use q q' e in auto)
  qed (use q q' e new ri in auto)
  then show "alloc_at sh (H + manager_lease p) env' \<and> p \<noteq> ''''"
    using K e set_manager_pool_ok [OF P q'(3)] q'(2) rng q
    by (simp add: alloc_at_def alloc_ok_def manager_lease_def add.assoc)
next
  fix env e env'
  assume K: "alloc_at sh H env" and g: "Environment_GetManagerPort env = (Inl e, env')"
  have "env' = env" using g
    by (auto simp: Environment_GetManagerPort_def Let_def split: if_splits sum.splits)
  then show "alloc_at sh H env'" using K by simp
qed

lemma FreeManagerPort_alloc:
  "triple (alloc_at sh (H + manager_lease p)) (Environment_FreeManagerPort p) (\<lambda>_. alloc_at sh H) (alloc_at sh H)"
proof (cases "p = ''''")
  case True
  have "stoi '''' = Inl (InvalidArgument ''stoi'')" by (simp add: stoi_def)
  then show ?thesis using True
    by (auto simp: triple_def Environment_FreeManagerPort_def em_defs manager_lease_def)
next
  case False
  show ?thesis
  proof (rule tripleI)
    fix env :: Environment and u env'
    let ?q = "env_available_node_manager_ports env"
    assume K: "alloc_at sh (H + manager_lease p) env" and g: "Environment_FreeManagerPort p env = (Inr u, env')"
    have X: "exclusive (held env + H + {#ManagerPort p#}) env" and P: "pools_ok env"
      using K False by (simp_all add: alloc_at_def alloc_ok_def manager_lease_def add.assoc)
    from X obtain i where i: "int_range i" "p = to_string i" unfolding exclusive_def by auto
    have wf: "uq_wf ?q" using P by (simp add: pools_ok_def)
    let ?q' = "snd (uq_push i ?q)"
    have q': "set (m_queue ?q') = insert i (set (m_queue ?q))" "uq_wf ?q'"
      using uq.push_set [OF wf] uq.push_invar [OF wf] by auto
    have "stoi p = Inr i" using i by (simp add: int_range_def stoi_to_string)
    then have env': "env' = set_manager_pool ?q' env"
      using g by (simp add: Environment_FreeManagerPort_def em_defs set_manager_pool_def)
    have "exclusive (held env + H) (set_manager_pool ?q' env)"
    proof (rule exclusive_give [OF X])
      show "is_free (set_manager_pool ?q' env) r' = is_free env r'" if "r' \<noteq> ManagerPort p" for r'
        by (rule set_manager_pool_is_free_other [OF that]) (use q' i in auto)
    qed simp
    moreover have "pools_ok (set_manager_pool ?q' env)"
      using P q' i(1) by (intro set_manager_pool_ok) (auto simp: pools_ok_def list_all_iff)
    ultimately show "alloc_at sh H env'" using K env' by (simp add: alloc_at_def alloc_ok_def)
  next
    fix env e env'
    assume K: "alloc_at sh (H + manager_lease p) env" and g: "Environment_FreeManagerPort p env = (Inl e, env')"
    have "env' = env" using g
      by (auto simp: Environment_FreeManagerPort_def em_defs split: sum.splits if_splits)
    then show "alloc_at sh H env'" using alloc_at_mono [OF K] by simp
  qed
qed

section \<open>Neutral operations\<close>

abbreviation neutral :: "(Environment, 'a) em \<Rightarrow> bool" where
  "neutral m \<equiv> (\<forall>c. preserves (\<lambda>s. core s = c) m)"

lemma neutralI: "(\<And>c. preserves (\<lambda>s. core s = c) m) \<Longrightarrow> neutral m"
  by blast

lemma neutral_modify: "(\<And>env. core (f env) = core env) \<Longrightarrow> preserves (\<lambda>s. core s = c) (modifyE f)"
  by (simp add: preserves_def)

lemma neutral_triple:
  assumes "\<And>c. preserves (\<lambda>s. core s = c) m"
  shows "triple (alloc_at sh H) m (\<lambda>_. alloc_at sh H) (alloc_at sh H)"
proof -
  have c: "core s' = core s" if "m s = (r, s')" for s r s'
    using assms [of "core s"] that by (force simp: preserves_def)
  have "alloc_at sh H s'" if "alloc_at sh H s" "m s = (r, s')" for s r s'
    using that c [OF that(2)] alloc_ok_core [of s' s] by (simp add: alloc_at_def core_def)
  then show ?thesis by (auto intro: tripleI)
qed

lemma map_umap_modify_same: "(\<And>v. g (k, f v) = g (k, v)) \<Longrightarrow> map g (umap_modify k f m) = map g m"
  by (induction m) (auto simp: umap_modify_def)

lemma core_upd_experiment:
  "(\<And>ex. Experiment_shape (x, f ex) = Experiment_shape (x, ex)) \<Longrightarrow> core (upd_experiment x f env) = core env"
  by (simp add: core_def shape_def map_umap_modify_same)

lemma blackbox_free_frame [simp]:
  "blackbox_free (ex\<lparr>ex_dirty := b\<rparr>) = blackbox_free ex" "blackbox_free (ex\<lparr>ex_shutdown := b\<rparr>) = blackbox_free ex"
  "blackbox_free (ex\<lparr>ex_state := st\<rparr>) = blackbox_free ex" "blackbox_free (ex\<lparr>ex_node_map := ns\<rparr>) = blackbox_free ex"
  "blackbox_free (ex\<lparr>ex_external_port_map := es\<rparr>) = blackbox_free ex"
  "blackbox_free (ex\<lparr>ex_external_id_to_internal_id_map := is\<rparr>) = blackbox_free ex"
  "blackbox_free (ex\<lparr>ex_manager_port := p\<rparr>) = blackbox_free ex"
  "blackbox_free (ex\<lparr>ex_master_ip_address := p\<rparr>) = blackbox_free ex"
  "blackbox_free (ex\<lparr>ex_master_publisher_port := p\<rparr>) = blackbox_free ex"
  "blackbox_free (ex\<lparr>ex_master_registration_port := p\<rparr>) = blackbox_free ex"
  by (simp_all add: blackbox_free_def)

lemma shape_upd_node_in:
  "(\<And>nd. Node_shape (n, f nd) = Node_shape (n, nd)) \<Longrightarrow>
   Experiment_shape (x, upd_node_in n f ex) = Experiment_shape (x, ex)"
  by (simp add: Experiment_shape_def upd_node_in_def map_umap_modify_same)

lemma shape_upd_container_in:
  "(\<And>ip ct. Container_shape ip (c, f ct) = Container_shape ip (c, ct)) \<Longrightarrow>
   Node_shape (n, upd_container_in c f nd) = Node_shape (n, nd)"
  by (simp add: Node_shape_def upd_container_in_def map_umap_modify_same)

lemma list_all_map: "list_all (P \<circ> f) xs = list_all id (map (P \<circ> f) xs)"
  by (simp add: list_all_iff)

lemma shape_upd_component_in:
  assumes "\<And>cp. Component_holds (f cp) = Component_holds cp" "\<And>cp. Component_keys (f cp) = Component_keys cp"
  shows "Container_shape ip (c, upd_component_in k f ct) = Container_shape ip (c, ct)"
  unfolding Container_shape_def Container_holds_def Container_keys_def upd_component_in_def
  using assms by (simp add: map_umap_modify_same list_all_map [of Component_keys])

lemma shape_upd_logger_in:
  assumes "\<And>lg. lg_publisher_port (f lg) = lg_publisher_port lg"
  shows "Container_shape ip (c, upd_logger_in l f ct) = Container_shape ip (c, ct)"
  unfolding Container_shape_def Container_holds_def Container_keys_def upd_logger_in_def
  using assms by (simp add: map_umap_modify_same Logger_holds_def)

lemma holds_upd_port_in:
  assumes "\<And>pt. Port_holds (f pt) = Port_holds pt"
  shows "Component_holds (upd_port_in p f cp) = Component_holds cp"
    and "Component_keys (upd_port_in p f cp) = Component_keys cp"
  using assms by (simp_all add: Component_holds_def Component_keys_def upd_port_in_def map_umap_modify_same)

lemmas shape_upds = core_upd_experiment shape_upd_node_in shape_upd_container_in shape_upd_component_in
  shape_upd_logger_in holds_upd_port_in

lemma core_Experiment_SetDirty [simp]: "core (Experiment_SetDirty x env) = core env"
  unfolding Experiment_SetDirty_def by (rule core_upd_experiment) (simp add: Experiment_shape_def)

lemma core_Node_SetDirty [simp]: "core (Node_SetDirty x n env) = core env"
  by (simp add: Node_SetDirty_def upd_node_def shape_upds Node_shape_def)

lemma core_Container_SetDirty [simp]: "core (Container_SetDirty x n c env) = core env"
  by (simp add: Container_SetDirty_def upd_node_def upd_container_def shape_upds Container_shape_def
      Container_holds_def Container_keys_def)

lemma core_Component_SetDirty [simp]: "core (Component_SetDirty x n c k env) = core env"
  by (simp add: Component_SetDirty_def upd_node_def upd_container_def upd_component_def shape_upds
      Component_holds_def Component_keys_def)

lemma Port_holds_dirty [simp]: "Port_holds (pt\<lparr>pt_dirty := b\<rparr>) = Port_holds pt"
  by (simp add: Port_holds_def Port_IsBlackbox_def split: port_detail.split)

lemma core_upd_port_dirty [simp]: "core (upd_port x n c k p (\<lambda>pt. pt\<lparr>pt_dirty := b\<rparr>) env) = core env"
  unfolding upd_node_def upd_container_def upd_component_def upd_port_def
  by (intro shape_upds Port_holds_dirty)

lemma blackbox_free_dirty [simp]:
  "blackbox_free (ex\<lparr>ex_blackbox_port_map := umap_modify i (\<lambda>pt. pt\<lparr>pt_dirty := b\<rparr>) (ex_blackbox_port_map ex)\<rparr>) =
   blackbox_free ex"
proof -
  have "map (\<lambda>(_, pt). Port_holds pt = {#}) (umap_modify i (\<lambda>pt. pt\<lparr>pt_dirty := b\<rparr>) (ex_blackbox_port_map ex)) =
        map (\<lambda>(_, pt). Port_holds pt = {#}) (ex_blackbox_port_map ex)"
    by (rule map_umap_modify_same) simp
  then have "list_all id (map (\<lambda>(_, pt). Port_holds pt = {#}) (umap_modify i (\<lambda>pt. pt\<lparr>pt_dirty := b\<rparr>) (ex_blackbox_port_map ex))) =
        list_all id (map (\<lambda>(_, pt). Port_holds pt = {#}) (ex_blackbox_port_map ex))" by (simp only:)
  then show ?thesis by (simp add: blackbox_free_def list_all_iff case_prod_beta)
qed

lemma neutral_Port_SetDirty [neut]: "preserves (\<lambda>s. core s = c) (Port_SetDirty x r)"
  unfolding Port_SetDirty_def
  by (cases r) (auto intro!: pres preserves_modifyE simp: core_upd_experiment Experiment_shape_def)

lemma neutral_UpdatePort [neut]: "preserves (\<lambda>s. core s = c) (Experiment_UpdatePort x l)"
  unfolding Experiment_UpdatePort_def by (intro pres neut)

lemma neutral_GetExternalPort [neut]: "preserves I (Environment_GetExternalPort l)"
  by (auto simp: preserves_def Environment_GetExternalPort_def split: option.splits)

lemma neutral_GetExperimentInternal [neut]: "preserves I (Environment_GetExperimentInternal x)"
  by (auto simp: preserves_def Environment_GetExperimentInternal_def split: option.splits)

lemma neutral_update_consumers [neut]: "preserves (\<lambda>s. core s = c) (update_consumers l)"
  unfolding update_consumers_def by (intro pres neut)

lemma core_external_tables [simp]:
  "core (ensure_external_port l env) = core env" "core (upd_external_port l f env) = core env"
  by (simp_all add: core_def shape_def ensure_external_port_def upd_external_port_def)

lemma core_upd_exp_external_port [simp]: "core (upd_exp_external_port x i f env) = core env"
  unfolding upd_exp_external_port_def by (rule core_upd_experiment) (simp add: Experiment_shape_def)

lemma neutral_environment_external [neut]:
  "preserves (\<lambda>s. core s = c) (Environment_AddExternalConsumerPort x l)"
  "preserves (\<lambda>s. core s = c) (Environment_AddExternalProducerPort x l)"
  "preserves (\<lambda>s. core s = c) (Environment_RemoveExternalConsumerPort x l)"
  "preserves (\<lambda>s. core s = c) (Environment_RemoveExternalProducerPort x l)"
  unfolding Environment_AddExternalConsumerPort_def Environment_AddExternalProducerPort_def
    Environment_RemoveExternalConsumerPort_def Environment_RemoveExternalProducerPort_def
  by (intro pres neut neutral_modify; simp)+

lemma neutral_experiment_external [neut]:
  "preserves (\<lambda>s. core s = c) (Experiment_AddExternalConsumerPort ex i p)"
  "preserves (\<lambda>s. core s = c) (Experiment_AddExternalProducerPort ex i p)"
  "preserves (\<lambda>s. core s = c) (Experiment_RemoveExternalConsumerPort ex i p)"
  "preserves (\<lambda>s. core s = c) (Experiment_RemoveExternalProducerPort ex i p)"
  unfolding Experiment_AddExternalConsumerPort_def Experiment_AddExternalProducerPort_def
    Experiment_RemoveExternalConsumerPort_def Experiment_RemoveExternalProducerPort_def
  by (intro pres neut neutral_modify; simp)+

lemma neutral_port_base [neut]:
  "preserves (\<lambda>s. core s = c) (Port_register_external x pt i)"
  "preserves (\<lambda>s. core s = c) (Port_base_ctor x port d)"
  "preserves (\<lambda>s. core s = c) (Port_base_dtor ex pt)"
  unfolding Port_register_external_def Port_base_ctor_def Port_base_dtor_def Let_def
  by (intro pres neut)+

end
