(* ===== verification/EMAllocTree.thy ===== *)
theory EMAllocTree
  imports EMAlloc
begin

text \<open>
  Ports, components, containers and nodes keep the accounts of \<open>alloc_ok\<close>. A container under
  construction, or one taken out of the tree to be changed, is accounted for by what it holds beyond
  \<open>base\<close>, the amount the tree already counts for it.
\<close>

definition ct_alloc where
  "ct_alloc sh ip base H = (\<lambda>(env, ct). Container_keys ct \<and>
     (\<exists>D. Container_holds ip ct = base + D \<and> alloc_at sh (H + D) env))"

lemma ct_alloc_mono: "ct_alloc sh ip base (H + X) s \<Longrightarrow> ct_alloc sh ip base H s"
  unfolding ct_alloc_def using alloc_at_mono [where X = X]
  by (clarsimp, metis add.assoc add.commute)

lemma triple_on_fst:
  assumes "\<And>D. triple (alloc_at sh (H + D)) m (\<lambda>a. alloc_at sh (H' a + D)) (alloc_at sh (HE + D))"
  shows "triple (ct_alloc sh ip base H) (on_fst m) (\<lambda>a. ct_alloc sh ip base (H' a)) (ct_alloc sh ip base HE)"
  unfolding triple_def
proof (intro allI impI)
  fix s assume s: "ct_alloc sh ip base H s"
  obtain env ct where [simp]: "s = (env, ct)" by (cases s)
  from s obtain D where D: "Container_keys ct" "Container_holds ip ct = base + D" "alloc_at sh (H + D) env"
    by (auto simp: ct_alloc_def)
  show "case on_fst m s of (Inl e, s') \<Rightarrow> is_std_exception e \<longrightarrow> ct_alloc sh ip base HE s'
      | (Inr a, s') \<Rightarrow> ct_alloc sh ip base (H' a) s'"
    using triple_InrD [OF assms D(3)] triple_InlD [OF assms D(3)] D
    by (auto simp: on_fst_def ct_alloc_def split: prod.splits sum.splits)
qed

lemma triple_on_fst_neutral:
  assumes "\<And>c. preserves (\<lambda>s. core s = c) m"
  shows "triple (ct_alloc sh ip base H) (on_fst m) (\<lambda>_. ct_alloc sh ip base H) (ct_alloc sh ip base H)"
  by (rule triple_on_fst) (rule neutral_triple [OF assms])

lemma triple_on_fst_GetPort:
  "triple (ct_alloc sh ip base H) (on_fst (Environment_GetPort ip'))
     (\<lambda>p. ct_alloc sh ip base (H + lease ip' p)) (ct_alloc sh ip base H)"
  by (rule triple_on_fst) (rule triple_post [OF GetPort_alloc], simp add: add_ac)

section \<open>Ports\<close>

lemma AssignOrbPort_alloc:
  "triple (ct_alloc sh ip base H) (Container_AssignOrbPort ip) (\<lambda>_. ct_alloc sh ip base H) (ct_alloc sh ip base H)"
proof -
  have upd: "ct_alloc sh ip base H (env, ct\<lparr>ct_orb_port := p\<rparr>)"
    if K: "ct_alloc sh ip base (H + lease ip p) (env, ct)" and o: "\<not> Container_HasOrbPort ct" for env ct p
  proof -
    from K obtain D where D: "Container_keys ct" "Container_holds ip ct = base + D"
      "alloc_at sh (H + lease ip p + D) env" by (auto simp: ct_alloc_def)
    have "Container_holds ip (ct\<lparr>ct_orb_port := p\<rparr>) = lease ip p + Container_holds ip ct"
      using o by (simp add: Container_holds_def Container_HasOrbPort_def lease_def)
    then have "Container_holds ip (ct\<lparr>ct_orb_port := p\<rparr>) = base + (lease ip p + D)"
      by (simp add: D(2) add_ac)
    moreover have "Container_keys (ct\<lparr>ct_orb_port := p\<rparr>)" using D(1) by (simp add: Container_keys_def)
    ultimately show ?thesis using D(3) by (auto simp: ct_alloc_def add.assoc)
  qed
  have fst_keeps: "snd s' = snd s" if "on_fst m s = (r, s')"
    for m :: "(Environment, string) em" and s s' :: "Environment \<times> Container" and r
    using that by (auto simp: on_fst_def split: prod.splits)
  have take: "triple (\<lambda>s. ct_alloc sh ip base H s \<and> \<not> Container_HasOrbPort (snd s))
      (bindE (on_fst (Environment_GetPort ip)) (\<lambda>p. modifyE (\<lambda>(env, ct). (env, ct\<lparr>ct_orb_port := p\<rparr>))))
      (\<lambda>_. ct_alloc sh ip base H) (ct_alloc sh ip base H)"
  proof (rule triple_bind)
    show "triple (\<lambda>s. ct_alloc sh ip base H s \<and> \<not> Container_HasOrbPort (snd s)) (on_fst (Environment_GetPort ip))
      (\<lambda>p s. ct_alloc sh ip base (H + lease ip p) s \<and> \<not> Container_HasOrbPort (snd s)) (ct_alloc sh ip base H)"
      using triple_InrD [OF triple_on_fst_GetPort] triple_InlD [OF triple_on_fst_GetPort] fst_keeps
      by (intro tripleI) (metis, metis)
  qed (auto intro!: triple_modify upd)
  show ?thesis unfolding Container_AssignOrbPort_def
    by (rule triple_get, clarsimp, rule triple_bind [where R = "\<lambda>_. ct_alloc sh ip base H"])
       (auto intro!: triple_when triple_get' triple_return triple_pre [OF take])
qed

lemma Port_base_ctor_fields:
  assumes "Port_base_ctor x port d s = (Inr pt, s')"
  shows "pt_detail pt = d \<and> pt_blackbox_type pt = NotBlackbox"
proof -
  have f: "pt_detail (foldl (\<lambda>pt i. Port_AddInternalConnectedPortId i pt) q is) = pt_detail q \<and>
      pt_blackbox_type (foldl (\<lambda>pt i. Port_AddInternalConnectedPortId i pt) q is) = pt_blackbox_type q" for q "is"
    by (induction "is" arbitrary: q) (simp_all add: Port_AddInternalConnectedPortId_def)
  have g: "pt_detail (foldl (\<lambda>pt i. Port_AddExternalConnectedPortId i pt) q is) = pt_detail q \<and>
      pt_blackbox_type (foldl (\<lambda>pt i. Port_AddExternalConnectedPortId i pt) q is) = pt_blackbox_type q" for q "is"
    by (induction "is" arbitrary: q) (simp_all add: Port_AddExternalConnectedPortId_def)
  from assms show ?thesis
    by (auto simp: Port_base_ctor_def Let_def f g Port_init_def run_returnE elim!: bindE_InrD)
qed

lemma base_ctor_alloc:
  "triple (ct_alloc sh ip base H) (on_fst (Port_base_ctor x port d))
     (\<lambda>pt s. ct_alloc sh ip base H s \<and> pt_detail pt = d \<and> pt_blackbox_type pt = NotBlackbox)
     (ct_alloc sh ip base H)"
proof -
  note n = triple_on_fst_neutral [OF neutral_port_base(2), of sh ip base H x port d]
  have f: "pt_detail pt = d \<and> pt_blackbox_type pt = NotBlackbox"
    if "on_fst (Port_base_ctor x port d) s = (Inr pt, s')" for s :: "Environment \<times> Container" and pt s'
    using that Port_base_ctor_fields [of x port d "fst s" pt] by (auto simp: on_fst_def split: prod.splits)
  show ?thesis
    by (rule tripleI) (use triple_InrD [OF n] triple_InlD [OF n] f in blast)+
qed

lemma with_base_alloc:
  assumes "triple (ct_alloc sh ip base H) m Q (ct_alloc sh ip base H)"
  shows "triple (ct_alloc sh ip base H) (with_base x pt m) Q (ct_alloc sh ip base H)"
proof -
  have d: "triple (ct_alloc sh ip base H) (on_fst (bindE (the_experiment x) (\<lambda>ex. Port_base_dtor ex pt)))
     (\<lambda>_. ct_alloc sh ip base H) (ct_alloc sh ip base H)"
    by (rule triple_on_fst_neutral) (intro pres neut)
  show ?thesis unfolding with_base_def
    by (rule triple_catch_std [OF assms]) (rule triple_bind [OF d], rule triple_throw)
qed

lemma ctor_from_base:
  assumes "\<And>pt. pt_detail pt = d \<Longrightarrow> pt_blackbox_type pt = NotBlackbox \<Longrightarrow>
     triple (ct_alloc sh ip base H) (m pt) Q (ct_alloc sh ip base H)"
  shows "triple (ct_alloc sh ip base H)
     (bindE (on_fst (Port_base_ctor x port d)) (\<lambda>pt. with_base x pt (m pt))) Q (ct_alloc sh ip base H)"
  by (rule triple_bind [OF base_ctor_alloc], rule triple_pure) (auto intro!: with_base_alloc assms)

lemma Port_holds_zmq:
  "pt_blackbox_type pt = NotBlackbox \<Longrightarrow>
   Port_holds (pt\<lparr>pt_detail := ZmqPort i p e\<rparr>) = (if is_producer (pt_kind pt) then lease i p else {#})"
  by (simp add: Port_holds_def Port_IsBlackbox_def)

lemma Port_holds_other:
  "Port_holds (pt\<lparr>pt_detail := QpidPort t b\<rparr>) = {#}" "Port_holds (pt\<lparr>pt_detail := TaoPort n e oe k\<rparr>) = {#}"
  "Port_holds (pt\<lparr>pt_detail := DdsPort t d\<rparr>) = {#}" "Port_holds (pt\<lparr>pt_detail := PeriodicPort f\<rparr>) = {#}"
  by (simp_all add: Port_holds_def)

lemma zmq_Port_ctor_alloc:
  "triple (ct_alloc sh ip base H) (zmq_Port_ctor x ip port)
     (\<lambda>pt. ct_alloc sh ip base (H + Port_holds pt)) (ct_alloc sh ip base H)"
  unfolding zmq_Port_ctor_def
  by (rule ctor_from_base)
     (auto intro!: triple_bind [OF triple_on_fst_GetPort] triple_return simp: Port_holds_zmq)

lemma qpid_Port_ctor_alloc:
  "triple (ct_alloc sh ip base H) (qpid_Port_ctor x port)
     (\<lambda>pt. ct_alloc sh ip base (H + Port_holds pt)) (ct_alloc sh ip base H)"
  unfolding qpid_Port_ctor_def
  by (rule ctor_from_base)
     (auto intro!: triple_get' triple_bind [where R = "\<lambda>_. ct_alloc sh ip base H"] triple_lift triple_return
       simp: Port_holds_other Port_holds_def)

lemma tao_Port_ctor_alloc:
  "triple (ct_alloc sh ip base H) (tao_Port_ctor x ip comp_name comp_id port)
     (\<lambda>pt. ct_alloc sh ip base (H + Port_holds pt)) (ct_alloc sh ip base H)"
  unfolding tao_Port_ctor_def
  by (rule ctor_from_base, rule triple_bind [OF AssignOrbPort_alloc],
      rule triple_bind [OF triple_on_fst_neutral [OF preserves_the(1)]])
     (auto intro!: triple_get' triple_bind [where R = "\<lambda>_. ct_alloc sh ip base H"] triple_lift triple_return
       simp: Port_holds_other)

lemma dds_Port_ctor_alloc:
  "triple (ct_alloc sh ip base H) (dds_Port_ctor x port)
     (\<lambda>pt. ct_alloc sh ip base (H + Port_holds pt)) (ct_alloc sh ip base H)"
  unfolding dds_Port_ctor_def
  by (rule ctor_from_base)
     (auto intro!: triple_bind [where R = "\<lambda>_. ct_alloc sh ip base H"] triple_lift triple_return
       simp: Port_holds_other)

lemma PeriodicPort_ctor_alloc:
  "triple (ct_alloc sh ip base H) (PeriodicPort_ctor x port)
     (\<lambda>pt. ct_alloc sh ip base (H + Port_holds pt)) (ct_alloc sh ip base H)"
  unfolding PeriodicPort_ctor_def
  by (rule ctor_from_base)
     (auto intro!: triple_bind [where R = "\<lambda>_. ct_alloc sh ip base H"] triple_lift triple_return
       simp: Port_holds_other)

lemmas Port_ctors_alloc = zmq_Port_ctor_alloc qpid_Port_ctor_alloc tao_Port_ctor_alloc dds_Port_ctor_alloc
  PeriodicPort_ctor_alloc

definition opt_holds :: "Port option \<Rightarrow> resource multiset" where
  "opt_holds z = (case z of None \<Rightarrow> {#} | Some pt \<Rightarrow> Port_holds pt)"

lemma ConstructPort_alloc:
  assumes "site_ip site = ip"
  shows "triple (ct_alloc sh ip base H) (Port_ConstructPort site port)
     (\<lambda>z. ct_alloc sh ip base (H + opt_holds z)) (ct_alloc sh ip base H)"
proof -
  have some: "triple (ct_alloc sh ip base H) (bindE m (\<lambda>p. returnE (Some p)))
      (\<lambda>z. ct_alloc sh ip base (H + opt_holds z)) (ct_alloc sh ip base H)"
    if "triple (ct_alloc sh ip base H) m (\<lambda>pt. ct_alloc sh ip base (H + Port_holds pt)) (ct_alloc sh ip base H)" for m
    by (rule triple_bind [OF that]) (auto intro: triple_return simp: opt_holds_def)
  have none: "triple (ct_alloc sh ip base H) (returnE None)
      (\<lambda>z. ct_alloc sh ip base (H + opt_holds z)) (ct_alloc sh ip base H)"
    by (rule triple_return) (simp add: opt_holds_def)
  show ?thesis unfolding Port_ConstructPort_def Let_def assms
    by (rule triple_catch_std [OF _ none], cases "ppb_middleware port")
       (auto intro!: some none Port_ctors_alloc)
qed

lemma Port_dtor_alloc:
  "triple (alloc_at sh (H + Port_holds pt)) (Port_dtor ex pt) (\<lambda>_. alloc_at sh H) (alloc_at sh H)"
proof -
  have z: "alloc_at sh H (zmq_Port_dtor pt env)" if "alloc_at sh (H + Port_holds pt) env" for env
    using that FreePort_alloc by (auto simp: zmq_Port_dtor_def Port_holds_def split: port_detail.splits if_splits)
  show ?thesis unfolding Port_dtor_def
    by (rule triple_bind [OF triple_modify [where Q = "\<lambda>_. alloc_at sh H"], OF z], assumption)
       (rule neutral_triple [OF neutral_port_base(3)])
qed

section \<open>Components\<close>

definition ports_hold :: "(string, Port) umap \<Rightarrow> resource multiset" where
  "ports_hold ports = sum_list (map (Port_holds \<circ> snd) ports)"

lemma sum_umap_emplace:
  fixes g :: "'v \<Rightarrow> 'r::comm_monoid_add"
  shows "\<not> umap_count m k \<Longrightarrow> sum_list (map (g \<circ> snd) (umap_emplace k v m)) = sum_list (map (g \<circ> snd) m) + g v"
  by (simp add: umap_emplace_def)

lemma destroy_alloc:
  assumes d: "\<And>ex H. triple (alloc_at sh (H + h)) (d ex) (\<lambda>_. alloc_at sh H) (alloc_at sh H)"
  shows "triple (alloc_at sh (H + h)) (bindE (the_experiment x) d) (\<lambda>_. alloc_at sh H) (alloc_at sh H)"
proof (rule triple_bind [OF _ d])
  show "triple (alloc_at sh (H + h)) (the_experiment x) (\<lambda>_. alloc_at sh (H + h)) (alloc_at sh H)"
    by (rule triple_conseq [OF neutral_triple [where H = "H + h", OF preserves_the(1)]]) (auto intro: alloc_at_mono)
qed

lemma destroy_on_fst:
  assumes d: "\<And>ex H. triple (alloc_at sh (H + h)) (d ex) (\<lambda>_. alloc_at sh H) (alloc_at sh H)"
  shows "triple (ct_alloc sh ip base (H + h)) (on_fst (bindE (the_experiment x) d))
     (\<lambda>_. ct_alloc sh ip base H) (ct_alloc sh ip base H)"
proof (rule triple_on_fst)
  fix D
  show "triple (alloc_at sh (H + h + D)) (bindE (the_experiment x) d)
     (\<lambda>_. alloc_at sh (H + D)) (alloc_at sh (H + D))"
    using destroy_alloc [OF d, of "H + D" x] by (simp add: add_ac)
qed

lemma Component_add_ports_alloc:
  assumes site: "site_ip site = ip"
  shows "umap_wf ports \<Longrightarrow>
    triple (ct_alloc sh ip base (H + ports_hold ports)) (Component_add_ports site pbs ports)
     (\<lambda>ports' s. ct_alloc sh ip base (H + ports_hold ports') s \<and> umap_wf ports') (ct_alloc sh ip base H)"
proof (induction pbs arbitrary: ports)
  case Nil
  then show ?case by (auto intro: triple_return)
next
  case (Cons pb pbs)
  let ?K = "ct_alloc sh ip base"
  have step: "triple (?K (H + ports_hold ports + opt_holds z))
     (case z of None \<Rightarrow> Component_add_ports site pbs ports
      | Some pt \<Rightarrow>
         if umap_count ports (info_id (ppb_info pb))
         then bindE (on_fst (bindE (the_experiment (site_experiment site)) (\<lambda>ex. Port_dtor ex pt))) (\<lambda>_.
              Component_add_ports site pbs ports)
         else Component_add_ports site pbs (umap_emplace (info_id (ppb_info pb)) pt ports))
     (\<lambda>ports' s. ?K (H + ports_hold ports') s \<and> umap_wf ports') (?K H)" for z
  proof (cases z)
    case None
    then show ?thesis using Cons by (simp add: opt_holds_def)
  next
    case (Some pt)
    have d: "triple (?K (H + ports_hold ports + Port_holds pt))
        (on_fst (bindE (the_experiment (site_experiment site)) (\<lambda>ex. Port_dtor ex pt)))
        (\<lambda>_. ?K (H + ports_hold ports)) (?K H)"
      by (rule triple_conseq [OF destroy_on_fst [where H = "H + ports_hold ports", OF Port_dtor_alloc]]) (auto intro: ct_alloc_mono)
    show ?thesis
    proof (cases "umap_count ports (info_id (ppb_info pb))")
      case True
      then show ?thesis using Some triple_bind [OF d Cons.IH [OF Cons.prems]] by (simp add: opt_holds_def)
    next
      case False
      then have "ports_hold (umap_emplace (info_id (ppb_info pb)) pt ports) = ports_hold ports + Port_holds pt"
        by (simp add: ports_hold_def sum_umap_emplace)
      then show ?thesis using Some False Cons.IH [OF umap_wf_emplace [OF Cons.prems, of "info_id (ppb_info pb)" pt]]
        by (simp add: opt_holds_def add.assoc)
    qed
  qed
  have c: "triple (?K (H + ports_hold ports)) (Port_ConstructPort site pb)
     (\<lambda>z. ?K (H + ports_hold ports + opt_holds z)) (?K H)"
    by (rule triple_conseq [OF ConstructPort_alloc [where H = "H + ports_hold ports", OF site]]) (auto intro: ct_alloc_mono)
  show ?case unfolding Component_add_ports.simps by (rule triple_bind [OF c step])
qed

lemma Component_ctor_alloc:
  "triple (ct_alloc sh ip base H) (Component_ctor x ip pb)
     (\<lambda>cp s. ct_alloc sh ip base (H + Component_holds cp) s \<and> Component_keys cp) (ct_alloc sh ip base H)"
proof -
  have a: "triple (ct_alloc sh ip base H)
     (Component_add_ports \<lparr>site_experiment = x, site_ip = ip, site_component_name = nm, site_component_id = i\<rparr> pbs [])
     (\<lambda>ports' s. ct_alloc sh ip base (H + ports_hold ports') s \<and> umap_wf ports') (ct_alloc sh ip base H)" for nm i pbs
    by (rule triple_pre [OF Component_add_ports_alloc]) (auto simp: ports_hold_def)
  show ?thesis unfolding Component_ctor_def Let_def
    by (rule triple_bind [OF a], rule triple_pure, rule triple_get', clarsimp, rule triple_return)
       (simp add: Component_holds_def Component_keys_def ports_hold_def)
qed

lemma Component_dtor_alloc:
  "triple (alloc_at sh (H + Component_holds cp)) (Component_dtor ex cp) (\<lambda>_. alloc_at sh H) (alloc_at sh H)"
  unfolding Component_dtor_def Component_holds_def map_map [symmetric]
  by (rule triple_for_sum) (rule Port_dtor_alloc, erule alloc_at_mono)

section \<open>Containers\<close>

lemma add_component_alloc:
  assumes K: "ct_alloc sh ip base (H + Component_holds cp) (env, ct)" and k: "Component_keys cp"
    and new: "\<not> umap_count (ct_components ct) i"
  shows "ct_alloc sh ip base H (env, ct\<lparr>ct_components := umap_emplace i cp (ct_components ct)\<rparr>)"
proof -
  let ?ct = "ct\<lparr>ct_components := umap_emplace i cp (ct_components ct)\<rparr>"
  from K obtain D where D: "Container_keys ct" "Container_holds ip ct = base + D"
    "alloc_at sh (H + Component_holds cp + D) env" by (auto simp: ct_alloc_def)
  have "Container_holds ip ?ct = Container_holds ip ct + Component_holds cp"
    using new by (simp add: Container_holds_def sum_umap_emplace add_ac)
  then have "Container_holds ip ?ct = base + (Component_holds cp + D)" using D(2) by (simp add: add_ac)
  moreover have "Container_keys ?ct"
    using D(1) k new by (simp add: Container_keys_def umap_wf_emplace list_all_umap_emplace)
  ultimately show ?thesis using D(3) by (auto simp: ct_alloc_def add.assoc)
qed

lemma AddComponent_alloc:
  "triple (ct_alloc sh ip base H) (Container_AddComponent x ip pb) (\<lambda>_. ct_alloc sh ip base H) (ct_alloc sh ip base H)"
  unfolding Container_AddComponent_def
  by (rule triple_bind [OF Component_ctor_alloc], rule triple_pure, rule triple_get, clarsimp,
      intro conjI impI, rule triple_pre [OF destroy_on_fst [OF Component_dtor_alloc]], simp)
     (auto simp: upd_this_def intro!: triple_modify add_component_alloc)

lemma emplace_logger_holds:
  "lg_publisher_port lg = '''' \<Longrightarrow>
   sum_list (map (Logger_holds ip \<circ> snd) (umap_emplace l lg m)) = sum_list (map (Logger_holds ip \<circ> snd) m)"
  by (simp add: umap_emplace_def Logger_holds_def lease_def)

lemma emplace_logger_container:
  assumes "lg_publisher_port lg = ''''"
  shows "Container_holds ip (ct\<lparr>ct_loggers := umap_emplace l lg (ct_loggers ct)\<rparr>) = Container_holds ip ct"
    and "Container_keys ct \<Longrightarrow> Container_keys (ct\<lparr>ct_loggers := umap_emplace l lg (ct_loggers ct)\<rparr>)"
  using assms by (simp_all add: Container_holds_def Container_keys_def emplace_logger_holds umap_wf_emplace)

lemma internal_logger_port [simp]: "lg_publisher_port (Logger_internal_ctor t m) = ''''"
  by (simp add: Logger_internal_ctor_def Logger_blank_def)

lemma Logger_ctor_port: "Logger_ctor pb = Inr lg \<Longrightarrow> lg_publisher_port lg = ''''"
  by (auto simp: Logger_ctor_def Logger_blank_def Let_def split: Logger_Type.splits)

lemma SetMode_container:
  "Container_holds ip (upd_logger_in l (Logger_SetMode m) ct) = Container_holds ip ct"
  "Container_keys (upd_logger_in l (Logger_SetMode m) ct) = Container_keys ct"
  using shape_upd_logger_in [of "Logger_SetMode m" ip "''''" l ct]
  by (simp_all add: Container_shape_def Logger_SetMode_def)

lemma AddLogger_container:
  assumes "Container_AddLogger pb ct = Inr ct'"
  shows "Container_holds ip ct' = Container_holds ip ct" "Container_keys ct \<Longrightarrow> Container_keys ct'"
proof -
  obtain lg where lg: "Logger_ctor pb = Inr lg" "lg_publisher_port lg = ''''"
    using assms Logger_ctor_port by (auto simp: Container_AddLogger_def split: sum.splits)
  let ?ct = "ct\<lparr>ct_loggers := umap_emplace (lpb_id pb) lg (ct_loggers ct)\<rparr>"
  have ct': "ct' = ?ct \<or> (\<exists>m. ct' = upd_logger_in MODEL_LOGGER_ID (Logger_SetMode m) ?ct)"
    using assms lg(1) by (auto simp: Container_AddLogger_def Let_def split: sum.splits if_splits)
  show "Container_holds ip ct' = Container_holds ip ct"
    using ct' emplace_logger_container(1) [OF lg(2)] SetMode_container(1) by metis
  show "Container_keys ct'" if "Container_keys ct"
    using ct' emplace_logger_container(2) [OF lg(2) that] SetMode_container(2) by metis
qed

lemma ct_alloc_same:
  assumes "ct_alloc sh ip base H (env, ct)" "Container_holds ip ct' = Container_holds ip ct"
    "Container_keys ct \<Longrightarrow> Container_keys ct'"
  shows "ct_alloc sh ip base H (env, ct')"
  using assms by (auto simp: ct_alloc_def)

lemma add_logger_alloc:
  "triple (ct_alloc sh ip base H) (Container_add_logger pb) (\<lambda>_. ct_alloc sh ip base H) (ct_alloc sh ip base H)"
proof (rule tripleI)
  fix s u s' assume K: "ct_alloc sh ip base H s" and m: "Container_add_logger pb s = (Inr u, s')"
  obtain env ct where s: "s = (env, ct)" by (cases s)
  from m s obtain ct' where ct': "Container_AddLogger pb ct = Inr ct'" "s' = (env, ct')"
    by (auto simp: Container_add_logger_def upd_this_def em_defs split: sum.splits)
  show "ct_alloc sh ip base H s'"
    using ct_alloc_same K s ct' AddLogger_container [OF ct'(1)] by blast
next
  fix s e s' assume K: "ct_alloc sh ip base H s" and m: "Container_add_logger pb s = (Inl e, s')"
  then show "ct_alloc sh ip base H s'"
    by (cases s) (auto simp: Container_add_logger_def upd_this_def em_defs split: sum.splits)
qed

lemma Container_fill_alloc:
  "triple (ct_alloc sh ip base H) (Container_fill x ip pb) (\<lambda>_. ct_alloc sh ip base H) (ct_alloc sh ip base H)"
proof -
  let ?K = "ct_alloc sh ip base H"
  have m: "triple ?K (upd_this Container_AddModelLogger) (\<lambda>_. ?K) ?K"
    unfolding upd_this_def
    by (rule triple_modify, clarsimp, erule ct_alloc_same)
       (simp_all add: Container_AddModelLogger_def emplace_logger_container)
  show ?thesis unfolding Container_fill_def
    by (rule triple_bind [where R = "\<lambda>_. ?K"], rule triple_for, rule AddComponent_alloc,
        rule triple_bind [where R = "\<lambda>_. ?K"], rule triple_get', clarsimp)
       (auto intro!: triple_when m triple_for triple_get' add_logger_alloc)
qed

lemma Logger_dtors_alloc:
  "alloc_at sh (H + sum_list (map (Logger_holds ip) lgs)) env \<Longrightarrow>
   alloc_at sh H (foldl (\<lambda>env lg. Logger_dtor ip lg env) env lgs)"
proof (induction lgs arbitrary: env)
  case (Cons lg lgs)
  let ?S = "sum_list (map (Logger_holds ip) lgs)"
  have K: "alloc_at sh (H + ?S + Logger_holds ip lg) env" using Cons.prems by (simp add: add_ac)
  have "alloc_at sh (H + ?S) (Logger_dtor ip lg env)"
    using alloc_at_mono [OF K] FreePort_alloc [of sh "H + ?S" ip "lg_publisher_port lg" env] K
    by (simp add: Logger_dtor_def Logger_holds_def [of ip lg])
  then show ?case using Cons.IH by simp
qed simp

definition members_hold :: "string \<Rightarrow> Container \<Rightarrow> resource multiset" where
  "members_hold ip ct = sum_list (map (Logger_holds ip) (map snd (ct_loggers ct))) +
     sum_list (map Component_holds (map snd (ct_components ct)))"

lemma Container_holds_members: "Container_holds ip ct = lease ip (ct_orb_port ct) + members_hold ip ct"
  by (simp add: Container_holds_def members_hold_def add.assoc)

lemma Container_members_dtor_alloc:
  "triple (alloc_at sh (H + members_hold ip ct)) (Container_members_dtor ex ip ct)
     (\<lambda>_. alloc_at sh H) (alloc_at sh H)"
proof -
  let ?C = "sum_list (map Component_holds (map snd (ct_components ct)))"
  have c: "triple (alloc_at sh (H + ?C)) (forE (map snd (ct_components ct)) (Component_dtor ex))
     (\<lambda>_. alloc_at sh H) (alloc_at sh H)"
    by (rule triple_for_sum) (rule Component_dtor_alloc, erule alloc_at_mono)
  show ?thesis unfolding Container_members_dtor_def
    by (rule triple_bind [OF triple_modify c], rule Logger_dtors_alloc) (simp add: members_hold_def add_ac)
qed

lemma Container_dtor_alloc:
  assumes "Container_keys ct"
  shows "triple (alloc_at sh (H + Container_holds ip ct)) (Container_dtor ex ip ct)
     (\<lambda>_. alloc_at sh H) (alloc_at sh H)"
proof -
  let ?L = "lease ip (ct_orb_port ct)" and ?M = "members_hold ip ct"
  have o: "alloc_at sh (H + ?M) (Environment_FreePort ip (ct_orb_port ct) env)"
    if "alloc_at sh (H + ?M + ?L) env" for env
    by (rule FreePort_alloc [OF that])
  have m: "alloc_at sh (H + ?M + ?L) (Environment_FreePort ip (ct_management_port ct) env)"
    if "alloc_at sh (H + ?M + ?L) env" for env
    using FreePort_alloc [of sh "H + ?M + ?L" ip "''''" env] that assms by (simp add: Container_keys_def lease_def)
  have free: "triple (alloc_at sh (H + ?M + ?L))
    (whenE (Container_GetDeployedCount ct > 0)
       (bindE (modifyE (Environment_FreePort ip (ct_management_port ct))) (\<lambda>_.
        whenE (Container_HasOrbPort ct) (modifyE (Environment_FreePort ip (ct_orb_port ct))))))
    (\<lambda>_. alloc_at sh (H + ?M)) (alloc_at sh H)"
    by (intro triple_when triple_bind [where R = "\<lambda>_. alloc_at sh (H + ?M + ?L)"] triple_modify m o)
       (auto intro: alloc_at_mono)
  have h: "H + Container_holds ip ct = H + ?M + ?L" by (simp add: Container_holds_members add_ac)
  show ?thesis unfolding Container_dtor_def h by (rule triple_bind [OF free Container_members_dtor_alloc])
qed

lemma Container_ctor_alloc:
  "triple (alloc_at sh H) (Container_ctor x ip pb)
     (\<lambda>ct s. alloc_at sh (H + Container_holds ip ct) s \<and> Container_keys ct) (alloc_at sh H)"
proof -
  have start: "ct_alloc sh ip {#} H (env, Container_init (env_indet env) pb)" if "alloc_at sh H env" for env
    using that by (simp add: ct_alloc_def Container_init_def Container_holds_def Container_keys_def lease_def)
  note inr = triple_InrD [OF Container_fill_alloc start] and inl = triple_InlD [OF Container_fill_alloc start]
  have destroy: "triple (alloc_at sh (H + members_hold ip ct))
      (bindE (the_experiment x) (\<lambda>ex. bindE (Container_members_dtor ex ip ct) (\<lambda>_. throwE e)))
      (\<lambda>ct s. False) (alloc_at sh H)" for ct e
    by (rule triple_bind [OF triple_conseq [OF neutral_triple [where H = "H + members_hold ip ct", OF preserves_the(1)]]
          triple_bind [OF Container_members_dtor_alloc triple_throw]])
       (auto intro: alloc_at_mono)
  show ?thesis
  proof (rule tripleI)
    fix env ct env' assume K: "alloc_at sh H env" and m: "Container_ctor x ip pb env = (Inr ct, env')"
    show "alloc_at sh (H + Container_holds ip ct) env' \<and> Container_keys ct"
    proof (cases "fst (Container_fill x ip pb (env, Container_init (env_indet env) pb))")
      case (Inr u)
      then have "Container_fill x ip pb (env, Container_init (env_indet env) pb) = (Inr u, (env', ct))"
        using m by (auto simp: Container_ctor_def split: prod.splits sum.splits)
      from inr [OF K this] show ?thesis by (auto simp: ct_alloc_def)
    next
      case (Inl e)
      then show ?thesis using m
        by (auto simp: Container_ctor_def throwE_def split: prod.splits sum.splits if_splits elim!: bindE_InrD)
    qed
  next
    fix env e env' assume K: "alloc_at sh H env" and m: "Container_ctor x ip pb env = (Inl e, env')"
      and e: "is_std_exception e"
    obtain r env1 ct where f: "Container_fill x ip pb (env, Container_init (env_indet env) pb) = (r, (env1, ct))"
      by (metis surj_pair)
    then obtain e1 where e1: "r = Inl e1" using m by (cases r) (auto simp: Container_ctor_def)
    show "alloc_at sh H env'"
    proof (cases "is_std_exception e1")
      case False
      then show ?thesis using m f e e1 by (auto simp: Container_ctor_def)
    next
      case True
      from inl [OF K f [unfolded e1] True] obtain D where "Container_holds ip ct = D" "alloc_at sh (H + D) env1"
        by (auto simp: ct_alloc_def)
      then have "alloc_at sh (H + members_hold ip ct + lease ip (ct_orb_port ct)) env1"
        by (simp add: Container_holds_members add_ac)
      from alloc_at_mono [OF this] show ?thesis
        using triple_InlD [OF destroy _ _ e] m f e1 True by (auto simp: Container_ctor_def)
    qed
  qed
qed

section \<open>Nodes\<close>

definition nd_alloc where
  "nd_alloc sh ip base H = (\<lambda>(env, nd). Node_keys nd \<and> nd_ip nd = ip \<and>
     (\<exists>D. Node_holds nd = base + D \<and> alloc_at sh (H + D) env))"

lemma nd_alloc_mono: "nd_alloc sh ip base (H + X) s \<Longrightarrow> nd_alloc sh ip base H s"
  unfolding nd_alloc_def using alloc_at_mono [where X = X]
  by (clarsimp, metis add.assoc add.commute)

lemma triple_on_fst_node:
  assumes "\<And>D. triple (alloc_at sh (H + D)) m (\<lambda>a s. alloc_at sh (H' a + D) s \<and> A a) (alloc_at sh (HE + D))"
  shows "triple (\<lambda>s. nd_alloc sh ip base H s \<and> snd s = nd) (on_fst m)
     (\<lambda>a s. nd_alloc sh ip base (H' a) s \<and> snd s = nd \<and> A a) (nd_alloc sh ip base HE)"
  unfolding triple_def
proof (intro allI impI, elim conjE)
  fix s assume s: "nd_alloc sh ip base H s" "snd s = nd"
  obtain env where [simp]: "s = (env, nd)" using s(2) by (cases s) auto
  from s obtain D where D: "Node_keys nd" "nd_ip nd = ip" "Node_holds nd = base + D" "alloc_at sh (H + D) env"
    by (auto simp: nd_alloc_def)
  show "case on_fst m s of (Inl e, s') \<Rightarrow> is_std_exception e \<longrightarrow> nd_alloc sh ip base HE s'
      | (Inr a, s') \<Rightarrow> nd_alloc sh ip base (H' a) s' \<and> snd s' = nd \<and> A a"
    using triple_InrD [OF assms D(4)] triple_InlD [OF assms D(4)] D
    by (auto simp: on_fst_def nd_alloc_def split: prod.splits sum.splits)
qed

lemma add_container_alloc:
  assumes K: "nd_alloc sh ip base (H + Container_holds ip ct) (env, nd)" and k: "Container_keys ct"
    and new: "\<not> umap_count (nd_containers nd) i"
  shows "nd_alloc sh ip base H (env, nd\<lparr>nd_containers := umap_emplace i ct (nd_containers nd)\<rparr>)"
proof -
  let ?nd = "nd\<lparr>nd_containers := umap_emplace i ct (nd_containers nd)\<rparr>"
  from K obtain D where D: "Node_keys nd" "nd_ip nd = ip" "Node_holds nd = base + D"
    "alloc_at sh (H + Container_holds ip ct + D) env" by (auto simp: nd_alloc_def)
  have "Node_holds ?nd = Node_holds nd + Container_holds ip ct"
    using new D(2) by (simp add: Node_holds_def sum_umap_emplace)
  then have "Node_holds ?nd = base + (Container_holds ip ct + D)" using D(3) by (simp add: add_ac)
  moreover have "Node_keys ?nd"
    using D(1) k by (simp add: Node_keys_def umap_wf_emplace list_all_umap_emplace)
  ultimately show ?thesis using D(2,4) by (auto simp: nd_alloc_def add.assoc)
qed

lemma AddContainer_alloc:
  "triple (nd_alloc sh ip base H) (Node_AddContainer x pb) (\<lambda>_. nd_alloc sh ip base H) (nd_alloc sh ip base H)"
proof -
  let ?K = "nd_alloc sh ip base" and ?i = "info_id (ctpb_info pb)"
  have c: "triple (\<lambda>s. ?K H s \<and> snd s = nd) (on_fst (Container_ctor x ip pb))
     (\<lambda>ct s. ?K (H + Container_holds ip ct) s \<and> snd s = nd \<and> Container_keys ct) (?K H)" for nd
    by (rule triple_on_fst_node) (rule triple_post [OF Container_ctor_alloc], simp add: add_ac)
  have d: "triple (\<lambda>s. ?K (H + Container_holds ip ct) s \<and> snd s = nd)
      (on_fst (bindE (the_experiment x) (\<lambda>ex. Container_dtor ex ip ct)))
      (\<lambda>_. ?K H) (?K H)" if "Container_keys ct" for nd ct
  proof (rule triple_post [OF triple_on_fst_node [where A = "\<lambda>_. True" and H' = "\<lambda>_. H"]])
    fix D
    show "triple (alloc_at sh (H + Container_holds ip ct + D)) (bindE (the_experiment x) (\<lambda>ex. Container_dtor ex ip ct))
      (\<lambda>_ s. alloc_at sh (H + D) s \<and> True) (alloc_at sh (H + D))"
      using destroy_alloc [OF Container_dtor_alloc [OF that], of sh "H + D" ip x] by (simp add: add_ac)
  qed simp
  have rest: "triple (\<lambda>s. ?K H s \<and> snd s = nd)
      (bindE (on_fst (Container_ctor x ip pb)) (\<lambda>container.
        if umap_count (nd_containers nd) ?i
        then on_fst (bindE (the_experiment x) (\<lambda>ex. Container_dtor ex ip container))
        else modifyE (\<lambda>(env, nd). (env, nd\<lparr>nd_containers := umap_emplace ?i container (nd_containers nd)\<rparr>))))
      (\<lambda>_. ?K H) (?K H)" for nd
    by (rule triple_bind [OF c], rule triple_pre [where P' = "\<lambda>s. (?K (H + Container_holds ip ct) s \<and> snd s = nd) \<and> Container_keys ct" for ct],
        rule triple_pure) (auto intro!: d triple_modify add_container_alloc)
  show ?thesis unfolding Node_AddContainer_def Let_def
  proof (rule triple_bind [where R = "\<lambda>_. ?K H"])
    show "triple (?K H) (modifyE (\<lambda>(env, nd).
        (env, if ctpb_implicit pb then nd\<lparr>nd_implicit_container_id := ?i\<rparr> else nd))) (\<lambda>_. ?K H) (?K H)"
      by (rule triple_modify) (auto simp: nd_alloc_def Node_keys_def Node_holds_def)
    show "triple (?K H) (bindE getE (\<lambda>(_, nd).
        bindE (on_fst (Container_ctor x (nd_ip nd) pb)) (\<lambda>container.
        if umap_count (nd_containers nd) ?i
        then on_fst (bindE (the_experiment x) (\<lambda>ex. Container_dtor ex (nd_ip nd) container))
        else modifyE (\<lambda>(env, nd). (env, nd\<lparr>nd_containers := umap_emplace ?i container (nd_containers nd)\<rparr>)))))
      (\<lambda>_. ?K H) (?K H)"
    proof (rule triple_get, clarsimp)
      fix env nd
      show "triple (\<lambda>s. ?K H s \<and> s = (env, nd))
        (bindE (on_fst (Container_ctor x (nd_ip nd) pb)) (\<lambda>container.
          if umap_count (nd_containers nd) ?i
          then on_fst (bindE (the_experiment x) (\<lambda>ex. Container_dtor ex (nd_ip nd) container))
          else modifyE (\<lambda>(env, nd). (env, nd\<lparr>nd_containers := umap_emplace ?i container (nd_containers nd)\<rparr>))))
        (\<lambda>_. ?K H) (?K H)"
      proof (cases "nd_ip nd = ip")
        case True
        show ?thesis unfolding True by (rule triple_pre [OF rest [of nd]]) auto
      next
        case False
        then show ?thesis by (auto simp: triple_def nd_alloc_def)
      qed
    qed
  qed
qed

lemma Node_dtor_alloc:
  assumes "Node_keys nd"
  shows "triple (alloc_at sh (H + Node_holds nd)) (Node_dtor ex nd) (\<lambda>_. alloc_at sh H) (alloc_at sh H)"
  unfolding Node_dtor_def Node_holds_def map_map [symmetric]
  by (rule triple_for_sum)
     (use assms in \<open>auto simp: Node_keys_def list_all_iff intro!: Container_dtor_alloc elim: alloc_at_mono\<close>)

lemma Node_ctor_alloc:
  "triple (alloc_at sh H) (Node_ctor x node)
     (\<lambda>nd s. alloc_at sh (H + Node_holds nd) s \<and> Node_keys nd \<and> nd_ip nd = npb_ip_address node) (alloc_at sh H)"
proof -
  let ?ip = "npb_ip_address node" and ?run = "\<lambda>env. forE (npb_containers node) (Node_AddContainer x) (env, Node_init (env_indet env) node)"
  have start: "nd_alloc sh ?ip {#} H (env, Node_init (env_indet env) node)" if "alloc_at sh H env" for env
    using that by (simp add: nd_alloc_def Node_init_def Node_holds_def Node_keys_def)
  have loop: "triple (nd_alloc sh ?ip {#} H) (forE (npb_containers node) (Node_AddContainer x))
      (\<lambda>_. nd_alloc sh ?ip {#} H) (nd_alloc sh ?ip {#} H)"
    by (rule triple_for) (rule AddContainer_alloc)
  note inr = triple_InrD [OF loop start] and inl = triple_InlD [OF loop start]
  have destroy: "triple (alloc_at sh (H + Node_holds nd))
      (bindE (the_experiment x) (\<lambda>ex. bindE (Node_dtor ex nd) (\<lambda>_. throwE e)))
      (\<lambda>nd s. False) (alloc_at sh H)" if "Node_keys nd" for nd e
    by (rule triple_bind [OF triple_conseq [OF neutral_triple [where H = "H + Node_holds nd", OF preserves_the(1)]]
          triple_bind [OF Node_dtor_alloc [OF that] triple_throw]])
       (auto intro: alloc_at_mono)
  show ?thesis
  proof (rule tripleI)
    fix env nd env' assume K: "alloc_at sh H env" and m: "Node_ctor x node env = (Inr nd, env')"
    obtain r env1 nd1 where f: "?run env = (r, (env1, nd1))" by (metis surj_pair)
    then have "?run env = (Inr (), (env', nd))" using m
      by (cases r) (auto simp: Node_ctor_def throwE_def split: if_splits elim!: bindE_InrD)
    from inr [OF K this] show "alloc_at sh (H + Node_holds nd) env' \<and> Node_keys nd \<and> nd_ip nd = ?ip"
      by (auto simp: nd_alloc_def)
  next
    fix env e env' assume K: "alloc_at sh H env" and m: "Node_ctor x node env = (Inl e, env')"
      and e: "is_std_exception e"
    obtain r env1 nd where f: "?run env = (r, (env1, nd))" by (metis surj_pair)
    show "alloc_at sh H env'"
    proof (cases "env' = env")
      case True
      then show ?thesis using K by simp
    next
      case False
      then obtain e1 where e1: "r = Inl e1" using m f by (cases r) (auto simp: Node_ctor_def split: if_splits)
      have s1: "is_std_exception e1 \<Longrightarrow> nd_alloc sh ?ip {#} H (env1, nd)" using inl [OF K f [unfolded e1]] by simp
      show ?thesis
      proof (cases "is_std_exception e1")
        case True
        then have n: "Node_keys nd" "alloc_at sh (H + Node_holds nd) env1" using s1 by (auto simp: nd_alloc_def)
        from triple_InlD [OF destroy [OF n(1)] n(2) _ e] show ?thesis
          using m f e1 True False by (auto simp: Node_ctor_def split: if_splits)
      next
        case False
        then show ?thesis using m f e e1 K by (auto simp: Node_ctor_def split: if_splits)
      qed
    qed
  qed
qed

end
