(* ===== verification/EMAllocEnv.thy ===== *)
theory EMAllocEnv
  imports EMAllocTree
begin

text \<open>
  Experiments and the environment keep the accounts of \<open>alloc_ok\<close>. \<open>ConfigureMaster\<close> moves the
  master address of an experiment, which is only harmless as long as it has no master ports; so while
  an experiment is populated the invariant also says that it has none (\<open>unmastered\<close>).
\<close>

definition unmastered :: "string set \<Rightarrow> Environment \<Rightarrow> bool" where
  "unmastered Y env = list_all (\<lambda>(x, ex). x \<in> Y \<longrightarrow>
     ex_master_publisher_port ex = '''' \<and> ex_master_registration_port ex = '''') (env_experiment_map env)"

definition alloc_um :: "string set \<Rightarrow> resource multiset \<Rightarrow> Environment \<Rightarrow> bool" where
  "alloc_um Y H env \<longleftrightarrow> alloc_ok H env \<and> unmastered Y env"

lemma alloc_um_empty: "alloc_um {} H env = alloc_ok H env"
  by (simp add: alloc_um_def unmastered_def list_all_iff case_prod_beta)

lemma alloc_um_mono: "alloc_um Y (H + X) env \<Longrightarrow> alloc_um Y H env"
  using alloc_ok_mono by (auto simp: alloc_um_def)

lemma unmastered_shape:
  "unmastered Y env = list_all (\<lambda>(x, _, _, _, p, r, _, _). x \<in> Y \<longrightarrow> p = '''' \<and> r = '''') (shape env)"
  by (simp add: unmastered_def shape_def Experiment_shape_def list_all_iff case_prod_beta)

lemma alloc_um_at: "alloc_um Y H env \<longleftrightarrow> (\<exists>sh. alloc_at sh H env \<and> unmastered Y env)"
  by (auto simp: alloc_um_def alloc_at_def)

lemma triple_from_at:
  assumes "\<And>sh. triple (alloc_at sh H) m (\<lambda>a s. alloc_at sh (H' a) s \<and> A a) (alloc_at sh HE)"
  shows "triple (\<lambda>s. alloc_um Y H s \<and> shape s = sh) m
     (\<lambda>a s. alloc_um Y (H' a) s \<and> shape s = sh \<and> A a) (alloc_um Y HE)"
proof (rule tripleI)
  fix s a s' assume s: "alloc_um Y H s \<and> shape s = sh" and m: "m s = (Inr a, s')"
  have "alloc_at sh H s" using s by (auto simp: alloc_um_def alloc_at_def)
  from triple_InrD [OF assms this m] s show "alloc_um Y (H' a) s' \<and> shape s' = sh \<and> A a"
    by (auto simp: alloc_um_def alloc_at_def unmastered_shape)
next
  fix s e s' assume s: "alloc_um Y H s \<and> shape s = sh" and m: "m s = (Inl e, s')" "is_std_exception e"
  have "alloc_at sh H s" using s by (auto simp: alloc_um_def alloc_at_def)
  from triple_InlD [OF assms this m] s show "alloc_um Y HE s'"
    by (auto simp: alloc_um_def alloc_at_def unmastered_shape)
qed

lemma alloc_um_core: "core env = core env' \<Longrightarrow> alloc_um Y H env = alloc_um Y H env'"
  using alloc_ok_core [of env env' H] by (simp add: alloc_um_def unmastered_shape core_def)

lemma neutral_um:
  assumes "\<And>c. preserves (\<lambda>s. core s = c) m"
  shows "triple (alloc_um Y H) m (\<lambda>_. alloc_um Y H) (alloc_um Y H)"
proof -
  have c: "core s' = core s" if "m s = (r, s')" for s r s'
    using assms [of "core s"] that by (force simp: preserves_def)
  show ?thesis by (rule tripleI) (use c alloc_um_core in blast)+
qed

section \<open>Changing the tree\<close>

lemma sum_umap_modify:
  fixes g :: "'v \<Rightarrow> 'r::comm_monoid_add"
  assumes "umap_wf m" "map_of m k = Some v"
  shows "sum_list (map (g \<circ> snd) (umap_modify k f m)) + g v = sum_list (map (g \<circ> snd) m) + g (f v)"
  using assms
proof (induction m)
  case (Cons p m)
  obtain k' v' where p: "p = (k', v')" by (cases p)
  show ?case
  proof (cases "k' = k")
    case True
    then have "\<not> umap_count m k" using Cons.prems p by (auto simp: umap_wf_def umap_count_keys)
    then have "umap_modify k f m = m" by (rule umap_modify_absent)
    then show ?thesis using True Cons.prems p by (simp add: umap_modify_def add_ac)
  next
    case False
    then have "sum_list (map (g \<circ> snd) (umap_modify k f m)) + g v = sum_list (map (g \<circ> snd) m) + g (f v)"
      using Cons.prems p by (intro Cons.IH) (simp_all add: umap_wf_def)
    moreover have "umap_modify k f (p # m) = (k', v') # umap_modify k f m"
      using False p by (simp add: umap_modify_def)
    ultimately show ?thesis using p by (simp add: add.assoc comp_def)
  qed
qed simp

lemma holds_upd_container_in:
  assumes "Node_keys nd" "map_of (nd_containers nd) c = Some ct"
    and "Container_holds (nd_ip nd) (f ct) = Container_holds (nd_ip nd) ct + D" "Container_keys (f ct)"
  shows "Node_holds (upd_container_in c f nd) = Node_holds nd + D" "Node_keys (upd_container_in c f nd)"
proof -
  have wf: "umap_wf (nd_containers nd)" using assms(1) by (simp add: Node_keys_def)
  show "Node_holds (upd_container_in c f nd) = Node_holds nd + D"
    using sum_umap_modify [OF wf assms(2), of "Container_holds (nd_ip nd)" f] assms(3)
    by (simp add: Node_holds_def upd_container_in_def add_ac)
  show "Node_keys (upd_container_in c f nd)"
    using assms(1,4) umap_modify_at [OF wf assms(2), of f]
    by (simp add: Node_keys_def upd_container_in_def list_all_umap_modify)
qed

lemma holds_upd_node_in:
  assumes "Experiment_keys ex" "map_of (ex_node_map ex) n = Some nd"
    and "Node_holds (f nd) = Node_holds nd + D" "Node_keys (f nd)" "nd_ip (f nd) = n"
  shows "Experiment_holds (upd_node_in n f ex) = Experiment_holds ex + D" "Experiment_keys (upd_node_in n f ex)"
proof -
  have wf: "umap_wf (ex_node_map ex)" using assms(1) by (simp add: Experiment_keys_def)
  show "Experiment_holds (upd_node_in n f ex) = Experiment_holds ex + D"
    using sum_umap_modify [OF wf assms(2), of Node_holds f] assms(3)
    by (simp add: Experiment_holds_def upd_node_in_def add_ac)
  show "Experiment_keys (upd_node_in n f ex)"
    using assms(1,4,5) umap_modify_at [OF wf assms(2), of f]
    by (simp add: Experiment_keys_def upd_node_in_def list_all_umap_modify)
qed

lemma experiment_keysD:
  assumes "env_keys env" "map_of (env_experiment_map env) x = Some ex"
  shows "umap_wf (env_experiment_map env)" "Experiment_keys ex" "ex_model_name ex = x"
  using assms by (auto simp: env_keys_def list_all_iff dest: map_of_SomeD)

lemma upd_experiment_alloc:
  assumes K: "alloc_um Y (H + D) env" and ex: "map_of (env_experiment_map env) x = Some ex"
    and h: "Experiment_holds (f ex) = Experiment_holds ex + D"
    and k: "Experiment_keys (f ex)" "ex_model_name (f ex) = x"
    and um: "x \<in> Y \<Longrightarrow> ex_master_publisher_port (f ex) = '''' \<and> ex_master_registration_port (f ex) = ''''"
  shows "alloc_um Y H (upd_experiment x f env)"
proof -
  have ek: "env_keys env" and P: "pools_ok env" and X: "exclusive (held env + (H + D)) env"
    using K by (auto simp: alloc_um_def alloc_ok_def)
  note wf = experiment_keysD(1) [OF ek ex] and at = umap_modify_at [OF experiment_keysD(1) [OF ek ex] ex, of f]
  have held: "held (upd_experiment x f env) = held env + D"
    using sum_umap_modify [OF wf ex, of Experiment_holds f] h by (simp add: held_def add_ac)
  have "exclusive (held env + (H + D)) (upd_experiment x f env)"
    using X is_free_cong [of "upd_experiment x f env" env] from_pool_cong [of "upd_experiment x f env" env]
    by (simp add: exclusive_def)
  then have "exclusive (held (upd_experiment x f env) + H) (upd_experiment x f env)" by (simp add: held add_ac)
  moreover have "env_keys (upd_experiment x f env)"
    using ek k at by (simp add: env_keys_def list_all_umap_modify)
  moreover have "unmastered Y (upd_experiment x f env)"
    using K um at by (simp add: alloc_um_def unmastered_def list_all_umap_modify)
  ultimately show ?thesis using P by (simp add: alloc_um_def alloc_ok_def pools_ok_def)
qed

lemma find_nodeD:
  assumes "find_node env x n = Some nd"
  obtains ex where "map_of (env_experiment_map env) x = Some ex" "map_of (ex_node_map ex) n = Some nd"
  using assms by (auto simp: find_node_def bind_eq_Some_conv)

lemma node_keysD:
  assumes "Experiment_keys ex" "map_of (ex_node_map ex) n = Some nd"
  shows "Node_keys nd" "nd_ip nd = n"
  using assms by (auto simp: Experiment_keys_def list_all_iff dest: map_of_SomeD)

lemma container_keysD:
  assumes "Node_keys nd" "map_of (nd_containers nd) c = Some ct"
  shows "Container_keys ct"
  using assms by (force simp: Node_keys_def list_all_iff dest: map_of_SomeD)

lemma upd_node_alloc:
  assumes K: "alloc_um Y (H + D) env" and nd: "find_node env x n = Some nd"
    and h: "Node_holds (f nd) = Node_holds nd + D" and k: "Node_keys (f nd)" "nd_ip (f nd) = n"
  shows "alloc_um Y H (upd_node x n f env)"
proof -
  from nd obtain ex where ex: "map_of (env_experiment_map env) x = Some ex" "map_of (ex_node_map ex) n = Some nd"
    by (rule find_nodeD)
  have ek: "env_keys env" using K by (auto simp: alloc_um_def alloc_ok_def)
  note e = experiment_keysD [OF ek ex(1)]
  note hn = holds_upd_node_in [where f = f, OF e(2) ex(2) h k]
  have "x \<in> Y \<Longrightarrow> ex_master_publisher_port ex = '''' \<and> ex_master_registration_port ex = ''''"
    using K ex(1) by (auto simp: alloc_um_def unmastered_def list_all_iff dest: map_of_SomeD)
  then show ?thesis unfolding upd_node_def
    by (intro upd_experiment_alloc [where f = "upd_node_in n f", OF K ex(1) hn]) (simp_all add: upd_node_in_def e(3))
qed

lemma upd_container_alloc:
  assumes K: "alloc_um Y (H + D) env" and ct: "find_container env x n c = Some ct"
    and h: "Container_holds n (f ct) = Container_holds n ct + D" and k: "Container_keys (f ct)"
  shows "alloc_um Y H (upd_container x n c f env)"
proof -
  from ct obtain nd where nd: "find_node env x n = Some nd" "map_of (nd_containers nd) c = Some ct"
    by (auto simp: find_container_def bind_eq_Some_conv)
  from nd(1) obtain ex where ex: "map_of (env_experiment_map env) x = Some ex" "map_of (ex_node_map ex) n = Some nd"
    by (rule find_nodeD)
  have ek: "env_keys env" using K by (auto simp: alloc_um_def alloc_ok_def)
  note e = node_keysD [OF experiment_keysD(2) [OF ek ex(1)] ex(2)]
  note hc = holds_upd_container_in [where f = f, OF e(1) nd(2) h [folded e(2)] k]
  show ?thesis unfolding upd_container_def
    by (rule upd_node_alloc [where f = "upd_container_in c f", OF K nd(1) hc]) (simp add: upd_container_in_def e(2))
qed

text \<open>Trees of the same shape have the same paths.\<close>

lemma map_key_lookup:
  assumes "map (\<lambda>(k, v). (k, f v)) xs = map (\<lambda>(k, v). (k, f v)) ys" "map_of ys k = Some v"
  shows "\<exists>u. map_of xs k = Some u \<and> f u = f v"
proof -
  have "map_option f (map_of xs k) = map_option f (map_of ys k)"
    using arg_cong [OF assms(1), of "\<lambda>zs. map_of zs k"] by (simp add: map_of_map)
  then show ?thesis using assms(2) by (cases "map_of xs k") auto
qed

lemma shape_find_experiment:
  assumes "shape env' = shape env" "map_of (env_experiment_map env) x = Some ex"
  obtains ex' where "map_of (env_experiment_map env') x = Some ex'"
    "Experiment_shape (x, ex') = Experiment_shape (x, ex)"
proof -
  have E: "Experiment_shape = (\<lambda>(k, v). (k, snd (Experiment_shape (x, v))))"
    by (simp add: Experiment_shape_def fun_eq_iff)
  have "map (\<lambda>(k, v). (k, snd (Experiment_shape (x, v)))) (env_experiment_map env') =
        map (\<lambda>(k, v). (k, snd (Experiment_shape (x, v)))) (env_experiment_map env)"
    using assms(1) unfolding shape_def by (simp only: E [symmetric])
  from map_key_lookup [OF this assms(2)] obtain ex' where "map_of (env_experiment_map env') x = Some ex'"
    "snd (Experiment_shape (x, ex')) = snd (Experiment_shape (x, ex))" by blast
  then show ?thesis using that by (simp add: Experiment_shape_def)
qed

lemma shape_find_node:
  assumes "shape env' = shape env" "find_node env x n = Some nd"
  obtains nd' where "find_node env' x n = Some nd'" "Node_shape (n, nd') = Node_shape (n, nd)"
proof -
  from assms(2) obtain ex where ex: "map_of (env_experiment_map env) x = Some ex" "map_of (ex_node_map ex) n = Some nd"
    by (rule find_nodeD)
  from shape_find_experiment [OF assms(1) ex(1)] obtain ex' where
    ex': "map_of (env_experiment_map env') x = Some ex'" "Experiment_shape (x, ex') = Experiment_shape (x, ex)" .
  have E: "Node_shape = (\<lambda>(k, v). (k, snd (Node_shape (n, v))))"
    by (simp add: Node_shape_def fun_eq_iff)
  have "map (\<lambda>(k, v). (k, snd (Node_shape (n, v)))) (ex_node_map ex') =
        map (\<lambda>(k, v). (k, snd (Node_shape (n, v)))) (ex_node_map ex)"
    using ex'(2) unfolding E [symmetric] by (simp add: Experiment_shape_def)
  from map_key_lookup [OF this ex(2)] obtain nd' where "map_of (ex_node_map ex') n = Some nd'"
    "snd (Node_shape (n, nd')) = snd (Node_shape (n, nd))" by blast
  then show ?thesis using that ex'(1) by (auto simp: Node_shape_def find_node_def)
qed

lemma shape_find_container:
  assumes "shape env' = shape env" "find_container env x n c = Some ct" "find_node env x n = Some nd" "nd_ip nd = n"
  obtains ct' where "find_container env' x n c = Some ct'" "Container_holds n ct' = Container_holds n ct"
proof -
  have ct: "map_of (nd_containers nd) c = Some ct" using assms(2,3) by (simp add: find_container_def)
  from shape_find_node [OF assms(1,3)] obtain nd' where
    nd': "find_node env' x n = Some nd'" "Node_shape (n, nd') = Node_shape (n, nd)" .
  have E: "Container_shape n = (\<lambda>(k, v). (k, (Container_holds n v, Container_keys v)))"
    by (simp add: Container_shape_def fun_eq_iff)
  have "map (\<lambda>(k, v). (k, (Container_holds n v, Container_keys v))) (nd_containers nd') =
        map (\<lambda>(k, v). (k, (Container_holds n v, Container_keys v))) (nd_containers nd)"
    using nd'(2) assms(4) unfolding E [symmetric] by (auto simp: Node_shape_def)
  from map_key_lookup [OF this ct] obtain ct' where "map_of (nd_containers nd') c = Some ct'"
    "Container_holds n ct' = Container_holds n ct" by auto
  then show ?thesis using that nd'(1) by (simp add: find_container_def)
qed

lemma the_container_run:
  "the_container x n c env =
     (case find_container env x n c of None \<Rightarrow> (Inl (Undefined ''dangling container''), env) | Some ct \<Rightarrow> (Inr ct, env))"
  by (simp add: the_container_def deref_def em_defs split: option.split)

lemma the_node_run:
  "the_node x n env =
     (case find_node env x n of None \<Rightarrow> (Inl (Undefined ''dangling node''), env) | Some nd \<Rightarrow> (Inr nd, env))"
  by (simp add: the_node_def deref_def em_defs split: option.split)

lemma the_experiment_run:
  "the_experiment x env =
     (case map_of (env_experiment_map env) x of None \<Rightarrow> (Inl (Undefined ''dangling experiment''), env)
      | Some ex \<Rightarrow> (Inr ex, env))"
  by (simp add: the_experiment_def deref_def em_defs split: option.split)

lemma the_logger_run:
  "the_logger x n c l env =
     (case find_logger env x n c l of None \<Rightarrow> (Inl (Undefined ''dangling logger''), env) | Some lg \<Rightarrow> (Inr lg, env))"
  by (simp add: the_logger_def deref_def em_defs split: option.split)

lemma find_container_keys:
  assumes "alloc_um Y H env" "find_container env x n c = Some ct"
  obtains nd where "find_node env x n = Some nd" "map_of (nd_containers nd) c = Some ct"
    "nd_ip nd = n" "Node_keys nd" "Container_keys ct"
proof -
  from assms(2) obtain nd where nd: "find_node env x n = Some nd" "map_of (nd_containers nd) c = Some ct"
    by (auto simp: find_container_def bind_eq_Some_conv)
  from nd(1) obtain ex where ex: "map_of (env_experiment_map env) x = Some ex" "map_of (ex_node_map ex) n = Some nd"
    by (rule find_nodeD)
  have ek: "env_keys env" using assms(1) by (auto simp: alloc_um_def alloc_ok_def)
  note e = node_keysD [OF experiment_keysD(2) [OF ek ex(1)] ex(2)]
  show ?thesis using that nd e container_keysD [OF e(1) nd(2)] by blast
qed

lemma run_in_container_alloc:
  assumes m: "\<And>sh base H. triple (ct_alloc sh n base H) m (\<lambda>_. ct_alloc sh n base H) (ct_alloc sh n base H)"
  shows "triple (alloc_um Y H) (run_in_container x n c m) (\<lambda>_. alloc_um Y H) (alloc_um Y H)"
proof -
  have wb: "alloc_um Y H (upd_container x n c (\<lambda>_. ct') env')"
    if K: "alloc_um Y H env" and ct: "find_container env x n c = Some ct"
      and a: "ct_alloc (shape env) n (Container_holds n ct) H (env', ct')" for env ct env' ct'
  proof -
    obtain nd where nd: "find_node env x n = Some nd" "nd_ip nd = n" using find_container_keys [OF K ct] by metis
    from a obtain D where D: "Container_keys ct'" "Container_holds n ct' = Container_holds n ct + D"
      "alloc_ok (H + D) env'" "shape env' = shape env" by (auto simp: ct_alloc_def alloc_at_def)
    have K': "alloc_um Y (H + D) env'" using D(3,4) K by (simp add: alloc_um_def unmastered_shape)
    obtain ct1 where ct1: "find_container env' x n c = Some ct1" "Container_holds n ct1 = Container_holds n ct"
      using shape_find_container [OF D(4) ct nd] by metis
    show ?thesis by (rule upd_container_alloc [OF K' ct1(1)]) (use D ct1 in auto)
  qed
  have start: "ct_alloc (shape env) n (Container_holds n ct) H (env, ct)"
    if K: "alloc_um Y H env" and ct: "find_container env x n c = Some ct" for env ct
    using find_container_keys [OF K ct] K by (auto simp: ct_alloc_def alloc_at_def alloc_um_def)
  have run: "run_in_container x n c m env =
      (case find_container env x n c of None \<Rightarrow> (Inl (Undefined ''dangling container''), env)
       | Some ct \<Rightarrow> (case m (env, ct) of (r, (env', ct')) \<Rightarrow> (r, upd_container x n c (\<lambda>_. ct') env')))" for env
    by (simp add: run_in_container_def bindE_def the_container_run split: option.split)
  show ?thesis
  proof (rule tripleI)
    fix env a env1 assume K: "alloc_um Y H env" and r: "run_in_container x n c m env = (Inr a, env1)"
    then obtain ct env' ct' where ct: "find_container env x n c = Some ct" "m (env, ct) = (Inr a, (env', ct'))"
      "env1 = upd_container x n c (\<lambda>_. ct') env'"
      by (auto simp: run split: option.splits prod.splits)
    show "alloc_um Y H env1" unfolding ct(3)
      by (rule wb [OF K ct(1) triple_InrD [OF m start [OF K ct(1)] ct(2)]])
  next
    fix env e env1 assume K: "alloc_um Y H env" and r: "run_in_container x n c m env = (Inl e, env1)"
      and e: "is_std_exception e"
    then obtain ct env' ct' where ct: "find_container env x n c = Some ct" "m (env, ct) = (Inl e, (env', ct'))"
      "env1 = upd_container x n c (\<lambda>_. ct') env'"
      by (auto simp: run split: option.splits prod.splits)
    show "alloc_um Y H env1" unfolding ct(3)
      by (rule wb [OF K ct(1) triple_InlD [OF m start [OF K ct(1)] ct(2) e]])
  qed
qed

lemma Node_add_container_alloc:
  "triple (alloc_um Y H) (Node_add_container x n pb) (\<lambda>_. alloc_um Y H) (alloc_um Y H)"
proof -
  have wb: "alloc_um Y H (upd_node x n (\<lambda>_. nd') env')"
    if K: "alloc_um Y H env" and nd: "find_node env x n = Some nd"
      and a: "nd_alloc (shape env) n (Node_holds nd) H (env', nd')" for env nd env' nd'
  proof -
    from a obtain D where D: "Node_keys nd'" "nd_ip nd' = n" "Node_holds nd' = Node_holds nd + D"
      "alloc_ok (H + D) env'" "shape env' = shape env" by (auto simp: nd_alloc_def alloc_at_def)
    have K': "alloc_um Y (H + D) env'" using D(4,5) K by (simp add: alloc_um_def unmastered_shape)
    obtain nd1 where nd1: "find_node env' x n = Some nd1" "Node_shape (n, nd1) = Node_shape (n, nd)"
      using shape_find_node [OF D(5) nd] by metis
    have "Node_holds nd1 = Node_holds nd" by (rule Node_shape_eqD(3) [OF nd1(2)])
    then show ?thesis by (intro upd_node_alloc [OF K' nd1(1)]) (use D in auto)
  qed
  have start: "nd_alloc (shape env) n (Node_holds nd) H (env, nd)"
    if K: "alloc_um Y H env" and nd: "find_node env x n = Some nd" for env nd
  proof -
    from nd obtain ex where ex: "map_of (env_experiment_map env) x = Some ex" "map_of (ex_node_map ex) n = Some nd"
      by (rule find_nodeD)
    have "env_keys env" using K by (auto simp: alloc_um_def alloc_ok_def)
    then show ?thesis using node_keysD [OF experiment_keysD(2) [OF _ ex(1)] ex(2)] K
      by (auto simp: nd_alloc_def alloc_at_def alloc_um_def)
  qed
  have run: "Node_add_container x n pb env =
      (case find_node env x n of None \<Rightarrow> (Inl (Undefined ''dangling node''), env)
       | Some nd \<Rightarrow> (case Node_AddContainer x pb (env, nd) of (r, (env', nd')) \<Rightarrow> (r, upd_node x n (\<lambda>_. nd') env')))" for env
    by (simp add: Node_add_container_def bindE_def the_node_run split: option.split)
  show ?thesis
  proof (rule tripleI)
    fix env a env1 assume K: "alloc_um Y H env" and r: "Node_add_container x n pb env = (Inr a, env1)"
    then obtain nd env' nd' where nd: "find_node env x n = Some nd" "Node_AddContainer x pb (env, nd) = (Inr a, (env', nd'))"
      "env1 = upd_node x n (\<lambda>_. nd') env'"
      by (auto simp: run split: option.splits prod.splits)
    show "alloc_um Y H env1" unfolding nd(3)
      by (rule wb [OF K nd(1) triple_InrD [OF AddContainer_alloc start [OF K nd(1)] nd(2)]])
  next
    fix env e env1 assume K: "alloc_um Y H env" and r: "Node_add_container x n pb env = (Inl e, env1)"
      and e: "is_std_exception e"
    then obtain nd env' nd' where nd: "find_node env x n = Some nd" "Node_AddContainer x pb (env, nd) = (Inl e, (env', nd'))"
      "env1 = upd_node x n (\<lambda>_. nd') env'"
      by (auto simp: run split: option.splits prod.splits)
    show "alloc_um Y H env1" unfolding nd(3)
      by (rule wb [OF K nd(1) triple_InlD [OF AddContainer_alloc start [OF K nd(1)] nd(2) e]])
  qed
qed

section \<open>Populating\<close>

abbreviation keeps_um :: "string set \<Rightarrow> resource multiset \<Rightarrow> (Environment, 'a) em \<Rightarrow> bool" where
  "keeps_um Y H m \<equiv> triple (alloc_um Y H) m (\<lambda>_. alloc_um Y H) (alloc_um Y H)"

lemma um_bind: "keeps_um Y H m \<Longrightarrow> (\<And>a. keeps_um Y H (f a)) \<Longrightarrow> keeps_um Y H (bindE m f)"
  by (rule triple_bind)

lemma um_for: "(\<And>x. x \<in> set xs \<Longrightarrow> keeps_um Y H (f x)) \<Longrightarrow> keeps_um Y H (forE xs f)"
  by (rule triple_for)

lemma um_lift: "keeps_um Y H (liftE r)"
  by (rule triple_lift)

lemma um_return: "keeps_um Y H (returnE r)"
  by (rule triple_return)

lemma um_throw: "keeps_um Y H (throwE e)"
  by (rule triple_throw)

lemma um_when: "(b \<Longrightarrow> keeps_um Y H m) \<Longrightarrow> keeps_um Y H (whenE b m)"
  by (rule triple_when)

lemmas um_rules = um_bind um_for um_lift um_return um_throw um_when

lemma um_the: "keeps_um Y H (the_experiment x)" "keeps_um Y H (the_node x n)" "keeps_um Y H (the_container x n c)"
  "keeps_um Y H (Environment_GetExperimentInternal x)"
  by (intro neutral_um pres neut)+

lemma the_node_alloc: "triple (alloc_um Y H) (the_node x n) (\<lambda>nd s. alloc_um Y H s \<and> nd_ip nd = n) (alloc_um Y H)"
proof (rule tripleI)
  fix s nd s' assume K: "alloc_um Y H s" and r: "the_node x n s = (Inr nd, s')"
  then have nd: "find_node s x n = Some nd" "s' = s" by (auto simp: the_node_run split: option.splits)
  from nd(1) obtain ex where ex: "map_of (env_experiment_map s) x = Some ex" "map_of (ex_node_map ex) n = Some nd"
    by (rule find_nodeD)
  have "env_keys s" using K by (auto simp: alloc_um_def alloc_ok_def)
  then show "alloc_um Y H s' \<and> nd_ip nd = n"
    using K nd node_keysD [OF experiment_keysD(2) [OF _ ex(1)] ex(2)] by simp
qed (auto simp: the_node_run split: option.splits)

lemma implicit_component_alloc: "keeps_um Y H (Node_AddComponentToImplicitContainer x n pb)"
  unfolding Node_AddComponentToImplicitContainer_def
  by (rule triple_bind [OF the_node_alloc], rule triple_pure)
     (auto intro!: um_rules run_in_container_alloc AddComponent_alloc)

lemma logging_client_alloc: "keeps_um Y H (Node_AddLoggingClient x n pb)"
  unfolding Node_AddLoggingClient_def
  by (auto intro!: um_rules um_the run_in_container_alloc add_logger_alloc split: option.split)

lemma logging_server_alloc: "keeps_um Y H (Node_AddLoggingServerToImplicitContainer x n pb)"
  unfolding Node_AddLoggingServerToImplicitContainer_def
  by (auto intro!: um_rules um_the run_in_container_alloc add_logger_alloc)

lemma AddNodeToEnvironment_alloc:
  assumes K: "alloc_um Y H env"
  shows "alloc_um Y H (Environment_AddNodeToEnvironment node env)"
proof (cases "umap_count (env_node_map env) (npb_ip_address node)")
  case True
  then show ?thesis using K by (simp add: Environment_AddNodeToEnvironment_def Let_def)
next
  case False
  let ?ip = "npb_ip_address node" and ?env = "Environment_AddNodeToEnvironment node env"
  let ?t = "PortTracker_SetName (info_name (npb_info node)) (PortTracker_ctor ?ip (env_available_ports env))"
  have nm: "env_node_map ?env = umap_emplace ?ip ?t (env_node_map env)" and frame:
    "env_experiment_map ?env = env_experiment_map env" "env_available_ports ?env = env_available_ports env"
    "env_available_node_manager_ports ?env = env_available_node_manager_ports env"
    "env_update_publisher_port ?env = env_update_publisher_port env"
    using False by (simp_all add: Environment_AddNodeToEnvironment_def Let_def)
  have P: "pools_ok env" and X: "exclusive (held env + H) env" using K by (auto simp: alloc_um_def alloc_ok_def)
  have "tracker_wf ?t"
    using P by (simp add: tracker_wf_def PortTracker_SetName_def PortTracker_ctor_def pools_ok_def)
  then have "pools_ok ?env" using P by (simp add: pools_ok_def nm frame umap_wf_emplace list_all_umap_emplace)
  moreover have "exclusive (held env + H) ?env"
  proof -
    have old: "is_free ?env r = is_free env r" "from_pool ?env r" if "from_pool env r" for r
    proof -
      have ip: "ip \<noteq> ?ip" if "umap_count (env_node_map env) ip" for ip using that False by blast
      show "is_free ?env r = is_free env r" using that ip by (cases r) (auto simp: nm frame)
      show "from_pool ?env r" using that by (cases r) (auto simp: nm)
    qed
    have "count (held env + H) r \<le> (if is_free ?env r then 0 else 1)" for r
    proof (cases "r \<in># held env + H")
      case True
      then have "from_pool env r" using X unfolding exclusive_def by blast
      then show ?thesis using old(1) X unfolding exclusive_def by metis
    next
      case False
      then show ?thesis by (metis le0 not_in_iff)
    qed
    then show ?thesis using X old(2) unfolding exclusive_def by blast
  qed
  moreover have "held ?env = held env" "env_keys ?env = env_keys env" "unmastered Y ?env = unmastered Y env"
    by (simp_all add: held_def env_keys_def unmastered_def frame)
  ultimately show ?thesis using K by (simp add: alloc_um_def alloc_ok_def)
qed

lemma AddNode_alloc: "keeps_um Y H (Experiment_AddNode x node)"
proof -
  let ?ip = "npb_ip_address node"
  let ?add = "\<lambda>nd. modifyE (upd_experiment x (\<lambda>ex. ex\<lparr>ex_node_map := umap_emplace ?ip nd (ex_node_map ex)\<rparr>))"
  have add: "alloc_um Y H (upd_experiment x (\<lambda>ex. ex\<lparr>ex_node_map := umap_emplace ?ip nd (ex_node_map ex)\<rparr>) env')"
    if K: "alloc_um Y (H + Node_holds nd) env'" and sh: "shape env' = shape env" and nd: "Node_keys nd" "nd_ip nd = ?ip"
      and ex: "map_of (env_experiment_map env) x = Some ex" and new: "\<not> umap_count (ex_node_map ex) ?ip"
    for nd env env' ex
  proof -
    obtain ex' where ex': "map_of (env_experiment_map env') x = Some ex'" "Experiment_shape (x, ex') = Experiment_shape (x, ex)"
      using shape_find_experiment [OF sh ex] .
    have "map Node_shape (ex_node_map ex') = map Node_shape (ex_node_map ex)"
      using ex'(2) by (simp add: Experiment_shape_def)
    then have "map fst (ex_node_map ex') = map fst (ex_node_map ex)"
      by (rule map_eq_map_cong) (drule Node_shape_eq_snd, simp)
    then have new': "\<not> umap_count (ex_node_map ex') ?ip" using new by (metis umap_count_keys list.set_map)
    have ek: "env_keys env'" using K by (auto simp: alloc_um_def alloc_ok_def)
    note e = experiment_keysD [OF ek ex'(1)]
    have um: "x \<in> Y \<Longrightarrow> ex_master_publisher_port ex' = '''' \<and> ex_master_registration_port ex' = ''''"
      using K ex'(1) by (auto simp: alloc_um_def unmastered_def list_all_iff dest: map_of_SomeD)
    show ?thesis
      by (rule upd_experiment_alloc [OF K ex'(1)])
         (use e new' nd um in \<open>simp_all add: Experiment_holds_def sum_umap_emplace add_ac Experiment_keys_def
            umap_wf_emplace list_all_umap_emplace\<close>)
  qed
  have ctor: "triple (\<lambda>s. alloc_um Y H s \<and> shape s = sh) (Node_ctor x node)
     (\<lambda>nd s. alloc_um Y (H + Node_holds nd) s \<and> shape s = sh \<and> (Node_keys nd \<and> nd_ip nd = ?ip)) (alloc_um Y H)" for sh
    by (rule triple_from_at) (rule Node_ctor_alloc)
  have fresh: "triple (\<lambda>s. alloc_um Y H s \<and> s = t) (bindE (Node_ctor x node) ?add) (\<lambda>_. alloc_um Y H) (alloc_um Y H)"
    if "map_of (env_experiment_map t) x = Some ex" "\<not> umap_count (ex_node_map ex) ?ip" for t ex
    by (rule triple_bind [OF triple_pre [OF ctor [of "shape t"]]])
       (auto intro!: triple_modify add [OF _ _ _ _ that])
  show ?thesis
  proof (rule tripleI)
    fix s a s' assume K: "alloc_um Y H s" and r: "Experiment_AddNode x node s = (Inr a, s')"
    then obtain ex where ex: "map_of (env_experiment_map s) x = Some ex" "\<not> umap_count (ex_node_map ex) ?ip"
      "bindE (Node_ctor x node) ?add s = (Inr a, s')"
      by (auto simp: Experiment_AddNode_def Let_def bindE_def the_experiment_run throwE_def split: option.splits if_splits)
    show "alloc_um Y H s'" using triple_InrD [OF fresh [OF ex(1,2)] _ ex(3)] K by blast
  next
    fix s e s' assume K: "alloc_um Y H s" and r: "Experiment_AddNode x node s = (Inl e, s')" and e: "is_std_exception e"
    then consider "s' = s" | ex where "map_of (env_experiment_map s) x = Some ex" "\<not> umap_count (ex_node_map ex) ?ip"
      "bindE (Node_ctor x node) ?add s = (Inl e, s')"
      by (auto simp: Experiment_AddNode_def Let_def bindE_def the_experiment_run throwE_def split: option.splits if_splits)
    then show "alloc_um Y H s'"
      using K triple_InlD [OF fresh _ _ e] by cases blast+
  qed
qed

lemma GetManagerPort_um:
  "triple (alloc_um Y H) Environment_GetManagerPort (\<lambda>p. alloc_um Y (H + manager_lease p)) (alloc_um Y H)"
proof -
  have 1: "triple (\<lambda>s. alloc_um Y H s \<and> shape s = sh) Environment_GetManagerPort
     (\<lambda>p s. alloc_um Y (H + manager_lease p) s \<and> shape s = sh \<and> p \<noteq> '''') (alloc_um Y H)" for sh
    by (rule triple_from_at) (rule GetManagerPort_alloc)
  show ?thesis
    by (rule tripleI) (use triple_InrD [OF 1] triple_InlD [OF 1] in blast)+
qed

lemma register_alloc:
  assumes K: "alloc_um Y (H + manager_lease p) env" and new: "\<not> umap_count (env_experiment_map env) x"
  shows "alloc_um Y H (upd_experiment x (Experiment_SetManagerPort p)
    (env\<lparr>env_experiment_map := umap_emplace x (Experiment_ctor x) (env_experiment_map env)\<rparr>))" (is "alloc_um Y H (upd_experiment x _ ?env)")
proof -
  have h: "Experiment_holds (Experiment_ctor x) = {#}"
    by (simp add: Experiment_holds_def Experiment_ctor_def lease_def manager_lease_def)
  have k: "Experiment_keys (Experiment_ctor x)" "ex_model_name (Experiment_ctor x) = x"
    by (simp_all add: Experiment_keys_def Experiment_ctor_def blackbox_free_def)
  have f: "is_free ?env r = is_free env r" "from_pool ?env r = from_pool env r" for r
    by (rule is_free_cong, simp, simp, rule from_pool_cong, simp)
  have "alloc_um Y (H + manager_lease p) ?env"
    using K new k f h by (simp add: alloc_um_def alloc_ok_def exclusive_def pools_ok_def env_keys_def held_def
        sum_umap_emplace umap_wf_emplace list_all_umap_emplace unmastered_def Experiment_ctor_def)
  then show ?thesis
    by (rule upd_experiment_alloc [where ex = "Experiment_ctor x"])
       (use new in \<open>simp_all add: Experiment_SetManagerPort_def Experiment_holds_def Experiment_keys_def
          Experiment_ctor_def blackbox_free_def lease_def manager_lease_def\<close>)
qed

lemma RegisterExperiment_alloc: "keeps_um Y H (Environment_RegisterExperiment x)"
proof -
  have env_map: "env_experiment_map s' = env_experiment_map s" if "Environment_GetManagerPort s = (r, s')" for s r s'
    using that by (auto simp: Environment_GetManagerPort_def Let_def split: if_splits sum.splits)
  have port: "triple (\<lambda>s. alloc_um Y H s \<and> \<not> umap_count (env_experiment_map s) x) Environment_GetManagerPort
     (\<lambda>p s. alloc_um Y (H + manager_lease p) s \<and> \<not> umap_count (env_experiment_map s) x) (alloc_um Y H)"
    by (rule tripleI) (use triple_InrD [OF GetManagerPort_um] triple_InlD [OF GetManagerPort_um] env_map in metis)+
  have add: "triple (\<lambda>s. alloc_um Y (H + manager_lease p) s \<and> \<not> umap_count (env_experiment_map s) x)
      (bindE (modifyE (\<lambda>env. env\<lparr>env_experiment_map := umap_emplace x (Experiment_ctor x) (env_experiment_map env)\<rparr>)) (\<lambda>_.
       modifyE (upd_experiment x (Experiment_SetManagerPort p)))) (\<lambda>_. alloc_um Y H) (alloc_um Y H)" for p
    using register_alloc by (auto simp: triple_def bindE_def)
  show ?thesis unfolding Environment_RegisterExperiment_def
    by (rule triple_get, rule triple_if, rule triple_throw, simp,
        rule triple_pre [OF triple_bind [OF port add]], auto)
qed

lemma blackbox_holds: "Port_ConstructBlackboxPort pb = Inr (Some pt) \<Longrightarrow> Port_holds pt = {#}"
proof -
  have n: "Port_holds (Port_blackbox_init pb d) = {#}" for d
    by (simp add: Port_holds_def Port_blackbox_init_def is_producer_def split: port_detail.split)
  have z: "Port_holds (Port_blackbox_init pb d\<lparr>pt_detail := d'\<rparr>) = {#}" for d d'
    by (simp add: Port_holds_def Port_blackbox_init_def is_producer_def split: port_detail.split)
  assume "Port_ConstructBlackboxPort pb = Inr (Some pt)"
  then show ?thesis
    by (auto simp: Port_ConstructBlackboxPort_def Let_def zmq_blackbox_ctor_def qpid_blackbox_ctor_def
        tao_blackbox_ctor_def dds_blackbox_ctor_def n z
        split: Middleware_pb.splits sum.splits if_splits BlackboxType.splits)
qed

lemma blackbox_free_add:
  "Port_holds pt = {#} \<Longrightarrow>
   blackbox_free (ex\<lparr>ex_blackbox_port_map := umap_emplace i pt (ex_blackbox_port_map ex)\<rparr>) = blackbox_free ex"
  by (simp add: blackbox_free_def umap_emplace_def)

lemma Port_dtor_um: "Port_holds pt = {#} \<Longrightarrow> keeps_um Y H (Port_dtor ex pt)"
proof -
  assume "Port_holds pt = {#}"
  then have 1: "triple (alloc_at sh H) (Port_dtor ex pt) (\<lambda>_ s. alloc_at sh H s \<and> True) (alloc_at sh H)" for sh
    using Port_dtor_alloc [of sh H pt ex] by simp
  have "triple (\<lambda>s. alloc_um Y H s \<and> shape s = sh) (Port_dtor ex pt)
      (\<lambda>a s. alloc_um Y H s \<and> shape s = sh \<and> True) (alloc_um Y H)" for sh
    by (rule triple_from_at [where H' = "\<lambda>_. H"]) (rule 1)
  from triple_InrD [OF this] triple_InlD [OF this] show ?thesis by (intro tripleI) blast+
qed

lemma AddExternalPorts_alloc: "keeps_um Y H (Experiment_AddExternalPorts x message)"
proof -
  have n: "keeps_um Y H (modifyE (upd_experiment x f))"
    if "\<And>ex. Experiment_shape (x, f ex) = Experiment_shape (x, ex)" for f
    by (rule neutral_um, rule neutral_modify, rule core_upd_experiment, rule that)
  have lift: "triple (alloc_um Y H) (liftE (Port_ConstructBlackboxPort pb))
     (\<lambda>z s. alloc_um Y H s \<and> (\<forall>pt. z = Some pt \<longrightarrow> Port_holds pt = {#})) (alloc_um Y H)" for pb
    by (rule triple_lift) (auto dest: blackbox_holds)
  have "keeps_um Y H (Experiment_add_external_port x pb)" for pb
    unfolding Experiment_add_external_port_def Let_def
    by (rule um_bind [OF um_the(1)], intro triple_if n um_throw triple_bind [OF lift] triple_pure)
       (auto simp: Experiment_shape_def blackbox_free_add split: option.split intro!: um_return Port_dtor_um n)
  then show ?thesis unfolding Experiment_AddExternalPorts_def by (intro um_for)
qed

lemma AddNodes_alloc: "keeps_um Y H (Environment_AddNodes x cluster)"
proof -
  have least: "keeps_um Y H (Environment_least_deployed x b)" for b
    unfolding Environment_least_deployed_def by (intro um_rules um_the)
  have node: "keeps_um Y H (Environment_AddNodeToExperiment x pb)" for pb
    unfolding Environment_AddNodeToExperiment_def
    by (intro um_rules um_the AddNode_alloc triple_modify AddNodeToEnvironment_alloc)
  have client: "keeps_um Y H (Experiment_AddLoggingClientToNodes x pb)" for pb
    unfolding Experiment_AddLoggingClientToNodes_def by (intro um_rules um_the logging_client_alloc)
  have comp: "keeps_um Y H (Environment_distribute_component x pb)" for pb
    unfolding Environment_distribute_component_def by (intro um_rules least implicit_component_alloc)
  have logger: "keeps_um Y H (Environment_distribute_logger x pb)" for pb
    unfolding Environment_distribute_logger_def by (intro um_rules least um_the client logging_server_alloc)
  have dist: "keeps_um Y H (Environment_DistributeContainerToImplicitNodeContainers x pb)" for pb
    unfolding Environment_DistributeContainerToImplicitNodeContainers_def by (intro um_rules comp logger)
  have deploy: "keeps_um Y H (Environment_DeployContainer x pb)" for pb
    unfolding Environment_DeployContainer_def by (intro um_rules least Node_add_container_alloc)
  show ?thesis unfolding Environment_AddNodes_def by (intro um_rules node dist deploy)
qed

section \<open>Ports taken on demand\<close>

lemma GetPort_um:
  "triple (\<lambda>s. alloc_um Y H s \<and> shape s = sh) (Environment_GetPort ip)
     (\<lambda>p s. alloc_um Y (H + lease ip p) s \<and> shape s = sh) (alloc_um Y H)"
  by (rule triple_post [OF triple_from_at [where A = "\<lambda>_. True"]])
     (rule triple_post [OF GetPort_alloc], auto)

lemma the_experiment_find:
  "triple (alloc_um Y H) (the_experiment x)
     (\<lambda>ex s. alloc_um Y H s \<and> map_of (env_experiment_map s) x = Some ex) (alloc_um Y H)"
  by (rule tripleI) (auto simp: the_experiment_run split: option.splits)

lemma take_for_experiment:
  assumes x: "x \<notin> Y" and g: "\<And>ex p. ex_model_name (g p ex) = ex_model_name ex"
      "\<And>ex p. ex_node_map (g p ex) = ex_node_map ex" "\<And>ex p. blackbox_free (g p ex) = blackbox_free ex"
    and h: "\<And>ex' p. Experiment_shape (x, ex') = Experiment_shape (x, ex) \<Longrightarrow>
      Experiment_holds (g p ex') = Experiment_holds ex' + lease ip p"
  shows "triple (\<lambda>s. alloc_um Y H s \<and> map_of (env_experiment_map s) x = Some ex)
     (bindE (Environment_GetPort ip) (\<lambda>p. modifyE (upd_experiment x (g p)))) (\<lambda>_. alloc_um Y H) (alloc_um Y H)"
proof (rule tripleI)
  note t = GetPort_um
  fix s a s' assume s: "alloc_um Y H s \<and> map_of (env_experiment_map s) x = Some ex"
    and m: "bindE (Environment_GetPort ip) (\<lambda>p. modifyE (upd_experiment x (g p))) s = (Inr a, s')"
  from m obtain p s1 where p: "Environment_GetPort ip s = (Inr p, s1)" "s' = upd_experiment x (g p) s1"
    by (auto elim!: bindE_InrD)
  have s1: "alloc_um Y (H + lease ip p) s1" "shape s1 = shape s"
    using triple_InrD [OF t [of Y H "shape s"], OF _ p(1)] s by auto
  obtain ex' where ex': "map_of (env_experiment_map s1) x = Some ex'" "Experiment_shape (x, ex') = Experiment_shape (x, ex)"
    using shape_find_experiment [OF s1(2)] s by metis
  have "env_keys s1" using s1(1) by (auto simp: alloc_um_def alloc_ok_def)
  note k = experiment_keysD [OF this ex'(1)]
  show "alloc_um Y H s'" unfolding p(2)
    by (rule upd_experiment_alloc [where f = "g p", OF s1(1) ex'(1) h [OF ex'(2)]])
       (use x g k in \<open>auto simp: Experiment_keys_def\<close>)
next
  fix s e s' assume s: "alloc_um Y H s \<and> map_of (env_experiment_map s) x = Some ex"
    and m: "bindE (Environment_GetPort ip) (\<lambda>p. modifyE (upd_experiment x (g p))) s = (Inl e, s')"
    and e: "is_std_exception e"
  from m have "Environment_GetPort ip s = (Inl e, s')"
    by (auto simp: bindE_def split: prod.splits sum.splits)
  then show "alloc_um Y H s'" using triple_InlD [OF GetPort_um [of Y H "shape s"] _ _ e] s by blast
qed

lemma GetMasterPublisherAddress_alloc: "x \<notin> Y \<Longrightarrow> keeps_um Y H (Experiment_GetMasterPublisherAddress x)"
  unfolding Experiment_GetMasterPublisherAddress_def
  by (rule triple_bind [OF the_experiment_find], rule triple_bind [where R = "\<lambda>_. alloc_um Y H"],
      rule triple_when, rule take_for_experiment)
     (auto simp: Experiment_shape_def Experiment_holds_def lease_def add_ac intro!: um_rules um_the)

lemma GetMasterRegistrationAddress_alloc: "x \<notin> Y \<Longrightarrow> keeps_um Y H (Experiment_GetMasterRegistrationAddress x)"
  unfolding Experiment_GetMasterRegistrationAddress_def
  by (rule triple_bind [OF the_experiment_find], rule triple_bind [where R = "\<lambda>_. alloc_um Y H"],
      rule triple_when, rule take_for_experiment)
     (auto simp: Experiment_shape_def Experiment_holds_def lease_def add_ac intro!: um_rules um_the)

lemma SetNodeManagerMaster_container:
  "Container_holds ip (Container_SetNodeManagerMaster ct) = Container_holds ip ct"
  "Container_keys ct \<Longrightarrow> Container_keys (Container_SetNodeManagerMaster ct)"
  by (simp_all add: Container_SetNodeManagerMaster_def Container_holds_def Container_keys_def
      emplace_logger_holds umap_wf_emplace)

lemma alloc_um_sub: "alloc_um Y H env \<Longrightarrow> alloc_um {} H env"
  unfolding alloc_um_empty by (simp add: alloc_um_def)

lemma find_in_umap:
  "umap_wf m \<Longrightarrow> List.find P m = Some (k, v) \<Longrightarrow> map_of m k = Some v"
  by (simp add: umap_wf_def find_Some_iff) (metis map_of_eq_Some_iff nth_mem)

lemma set_master_alloc:
  assumes K: "alloc_um {x} H env" and ct: "find_container env x n c = Some ct"
  shows "alloc_um {} H (upd_experiment x (Experiment_SetMasterIp ip)
    (upd_container x n c Container_SetNodeManagerMaster env))" (is "alloc_um {} H (upd_experiment x _ ?env)")
proof -
  have "Container_keys ct" using find_container_keys [OF K ct] .
  then have "alloc_um {x} H ?env"
    by (intro upd_container_alloc [OF _ ct, where D = "{#}"]) (use K in \<open>simp_all add: SetNodeManagerMaster_container\<close>)
  then have K1: "alloc_um {x} (H + {#}) ?env" by simp
  obtain ex where ex: "map_of (env_experiment_map ?env) x = Some ex"
    using ct by (auto simp: find_container_def find_node_def bind_eq_Some_conv upd_container_def upd_node_def)
  have ports: "ex_master_publisher_port ex = ''''" "ex_master_registration_port ex = ''''"
    using K1 ex by (auto simp: alloc_um_def unmastered_def list_all_iff dest!: map_of_SomeD)
  have "env_keys ?env" using K1 by (auto simp: alloc_um_def alloc_ok_def)
  note k = experiment_keysD [OF this ex]
  show ?thesis
    by (rule upd_experiment_alloc [OF alloc_um_sub [OF K1] ex])
       (use ports k in \<open>simp_all add: Experiment_SetMasterIp_def Experiment_holds_def lease_def Experiment_keys_def\<close>)
qed

lemma ConfigureMaster_alloc:
  "triple (alloc_um {x} H) (Experiment_ConfigureMaster x) (\<lambda>_. alloc_um {} H) (alloc_um {} H)"
proof -
  have set: "triple (\<lambda>s. alloc_um {x} H s \<and> map_of (env_experiment_map s) x = Some ex)
      (bindE (liftE (Node_GetMasterEligibleContainer nd)) (\<lambda>c.
       bindE (modifyE (upd_container x n c Container_SetNodeManagerMaster)) (\<lambda>_.
       bindE (modifyE (upd_experiment x (Experiment_SetMasterIp (nd_ip nd)))) (\<lambda>_.
       bindE (Experiment_GetMasterPublisherAddress x) (\<lambda>_.
       bindE (Experiment_GetMasterRegistrationAddress x) (\<lambda>_. returnE ()))))))
      (\<lambda>_. alloc_um {} H) (alloc_um {} H)"
    if "List.find P (ex_node_map ex) = Some (n, nd)" for P ex n nd
  proof -
    have rest: "keeps_um {} H (bindE (Experiment_GetMasterPublisherAddress x) (\<lambda>_.
       bindE (Experiment_GetMasterRegistrationAddress x) (\<lambda>_. returnE ())))"
      by (intro um_rules GetMasterPublisherAddress_alloc GetMasterRegistrationAddress_alloc) simp_all
    have lift: "triple (\<lambda>s. alloc_um {x} H s \<and> map_of (env_experiment_map s) x = Some ex)
       (liftE (Node_GetMasterEligibleContainer nd))
       (\<lambda>c s. alloc_um {x} H s \<and> (\<exists>ct. find_container s x n c = Some ct)) (alloc_um {} H)"
    proof (rule triple_lift)
      fix s c assume s: "alloc_um {x} H s \<and> map_of (env_experiment_map s) x = Some ex"
        and c: "Node_GetMasterEligibleContainer nd = Inr c"
      from s have "env_keys s" by (auto simp: alloc_um_def alloc_ok_def)
      then have e: "Experiment_keys ex" using experiment_keysD(2) s by blast
      have n: "map_of (ex_node_map ex) n = Some nd"
        using e that by (auto simp: Experiment_keys_def intro: find_in_umap)
      obtain ct where "List.find (\<lambda>(_, ct). master_eligible ct) (nd_containers nd) = Some (c, ct)"
        using c by (auto simp: Node_GetMasterEligibleContainer_def split: option.splits)
      then have "map_of (nd_containers nd) c = Some ct"
        using node_keysD(1) [OF e n] by (auto simp: Node_keys_def intro: find_in_umap)
      then show "alloc_um {x} H s \<and> (\<exists>ct. find_container s x n c = Some ct)"
        using s n by (simp add: find_container_def find_node_def)
    qed (auto intro: alloc_um_sub)
    have upd: "triple (\<lambda>s. alloc_um {x} H s \<and> (\<exists>ct. find_container s x n c = Some ct))
      (bindE (modifyE (upd_container x n c Container_SetNodeManagerMaster)) (\<lambda>_.
       modifyE (upd_experiment x (Experiment_SetMasterIp (nd_ip nd)))))
      (\<lambda>_. alloc_um {} H) (alloc_um {} H)" for c
      using set_master_alloc by (auto simp: triple_def bindE_def)
    show ?thesis
      using triple_bind [OF lift triple_bind [OF upd rest]] by (simp add: bindE_assoc)
  qed
  show ?thesis unfolding Experiment_ConfigureMaster_def
    by (rule triple_bind [OF triple_conseq [OF the_experiment_find [where Y = "{x}" and H = H and x = x]]],
        assumption, assumption, erule alloc_um_sub)
       (auto split: option.split intro!: set triple_return intro: alloc_um_sub)
qed

lemma GetPort_tree: "Environment_GetPort ip s = (r, s') \<Longrightarrow> env_experiment_map s' = env_experiment_map s"
  by (auto simp: Environment_GetPort_def split: option.splits prod.splits)

lemma set_publisher_port_alloc:
  assumes K: "alloc_um Y (H + lease n p) env" and lg: "find_logger env x n c l = Some lg" "lg_publisher_port lg = ''''"
  shows "alloc_um Y H (upd_logger x n c l (\<lambda>lg. lg\<lparr>lg_publisher_port := p\<rparr>) env)"
proof -
  let ?f = "upd_logger_in l (\<lambda>lg. lg\<lparr>lg_publisher_port := p\<rparr>)"
  from lg(1) obtain ct where ct: "find_container env x n c = Some ct" "map_of (ct_loggers ct) l = Some lg"
    by (auto simp: find_logger_def bind_eq_Some_conv)
  have k: "Container_keys ct" using find_container_keys [OF K ct(1)] .
  then have wf: "umap_wf (ct_loggers ct)" by (simp add: Container_keys_def)
  have "Container_holds n (?f ct) = Container_holds n ct + lease n p"
    using sum_umap_modify [OF wf ct(2), of "Logger_holds n" "\<lambda>lg. lg\<lparr>lg_publisher_port := p\<rparr>"] lg(2)
    by (simp add: Container_holds_def upd_logger_in_def Logger_holds_def lease_def [of n "''''"] add_ac)
  moreover have "Container_keys (?f ct)" using k by (simp add: Container_keys_def upd_logger_in_def)
  ultimately show ?thesis unfolding upd_logger_def by (rule upd_container_alloc [OF K ct(1)])
qed

lemma take_for_logger:
  assumes "lg_publisher_port lg = ''''"
  shows "triple (\<lambda>s. alloc_um Y H s \<and> find_logger s x n c l = Some lg)
     (bindE (Environment_GetPort n) (\<lambda>p. modifyE (upd_logger x n c l (\<lambda>lg. lg\<lparr>lg_publisher_port := p\<rparr>))))
     (\<lambda>_. alloc_um Y H) (alloc_um Y H)"
proof (rule tripleI)
  fix s a s' assume s: "alloc_um Y H s \<and> find_logger s x n c l = Some lg"
    and m: "bindE (Environment_GetPort n) (\<lambda>p. modifyE (upd_logger x n c l (\<lambda>lg. lg\<lparr>lg_publisher_port := p\<rparr>))) s = (Inr a, s')"
  from m obtain p s1 where p: "Environment_GetPort n s = (Inr p, s1)"
    "s' = upd_logger x n c l (\<lambda>lg. lg\<lparr>lg_publisher_port := p\<rparr>) s1" by (auto elim!: bindE_InrD)
  have "alloc_um Y (H + lease n p) s1"
    using triple_InrD [OF GetPort_um [of Y H "shape s"], OF _ p(1)] s by auto
  moreover have "find_logger s1 x n c l = Some lg"
    using s GetPort_tree [OF p(1)] by (simp add: find_logger_def find_container_def find_node_def)
  ultimately show "alloc_um Y H s'" unfolding p(2) using assms by (rule set_publisher_port_alloc)
next
  fix s e s' assume s: "alloc_um Y H s \<and> find_logger s x n c l = Some lg"
    and m: "bindE (Environment_GetPort n) (\<lambda>p. modifyE (upd_logger x n c l (\<lambda>lg. lg\<lparr>lg_publisher_port := p\<rparr>))) s = (Inl e, s')"
    and e: "is_std_exception e"
  from m have "Environment_GetPort n s = (Inl e, s')" by (auto simp: bindE_def split: prod.splits sum.splits)
  then show "alloc_um Y H s'" using triple_InlD [OF GetPort_um [of Y H "shape s"] _ _ e] s by blast
qed

lemma triple_reader:
  assumes "\<And>s. snd (m s) = s"
  shows "triple P m (\<lambda>_. P) P"
  by (rule tripleI) (metis assms snd_conv)+

lemma the_logger_find:
  "triple (alloc_um Y H) (the_logger x n c l)
     (\<lambda>lg s. alloc_um Y H s \<and> find_logger s x n c l = Some lg) (alloc_um Y H)"
  by (rule tripleI) (auto simp: the_logger_run split: option.splits)

lemma GetPublisherPort_alloc: "keeps_um Y H (Logger_GetPublisherPort x n c l)"
proof -
  let ?P = "\<lambda>lg s. alloc_um Y H s \<and> find_logger s x n c l = Some lg"
  have ct: "triple (?P lg) (the_container x n c) (\<lambda>_. ?P lg) (alloc_um Y H)" for lg
    by (rule triple_conseq [OF triple_reader [where P = "?P lg"]]) (auto simp: the_container_run split: option.split)
  have nd: "triple (?P lg) (the_node x n) (\<lambda>nd s. ?P lg s \<and> nd_ip nd = n) (alloc_um Y H)" for lg
  proof (rule tripleI)
    fix s nd s' assume s: "?P lg s" and r: "the_node x n s = (Inr nd, s')"
    have "s' = s" using r by (simp add: the_node_run split: option.splits)
    then show "?P lg s' \<and> nd_ip nd = n" using s triple_InrD [OF the_node_alloc _ r] by blast
  qed (auto simp: the_node_run split: option.splits)
  have take: "triple (?P lg) (bindE (the_node x n) (\<lambda>nd. bindE (Environment_GetPort (nd_ip nd)) (\<lambda>p.
      modifyE (upd_logger x n c l (\<lambda>lg. lg\<lparr>lg_publisher_port := p\<rparr>)))))
      (\<lambda>_. alloc_um Y H) (alloc_um Y H)" if "lg_publisher_port lg = ''''" for lg
    by (rule triple_bind [OF nd], rule triple_pure) (simp add: take_for_logger [OF that])
  have fetch: "triple (?P lg) (bindE (the_container x n c) (\<lambda>ct.
      if Container_GetDeployedComponentCount ct = 0
      then throwE (RuntimeError ''No assigned port for logger with no deployed components'')
      else bindE (the_node x n) (\<lambda>nd. bindE (Environment_GetPort (nd_ip nd)) (\<lambda>p.
        modifyE (upd_logger x n c l (\<lambda>lg. lg\<lparr>lg_publisher_port := p\<rparr>))))))
      (\<lambda>_. alloc_um Y H) (alloc_um Y H)" if "lg_publisher_port lg = ''''" for lg
    by (rule triple_bind [OF ct]) (auto intro!: take [OF that] triple_throw)
  have rd: "keeps_um Y H (bindE (the_logger x n c l) (\<lambda>lg'. returnE (lg_publisher_port lg')))"
    by (intro um_rules neutral_um pres)
  show ?thesis unfolding Logger_GetPublisherPort_def
    by (rule triple_bind [OF the_logger_find], rule triple_bind [OF _ rd], rule triple_when)
       (auto intro!: triple_throw fetch split: Logger_Mode.split)
qed

lemma um_map: "(\<And>x. x \<in> set xs \<Longrightarrow> keeps_um Y H (f x)) \<Longrightarrow> keeps_um Y H (mapE f xs)"
  by (rule triple_map)

lemma um_catch_runtime:
  "keeps_um Y H m \<Longrightarrow> (\<And>e. keeps_um Y H (h e)) \<Longrightarrow> keeps_um Y H (catchE is_runtime_error m h)"
  by (rule triple_catch) (auto elim: is_runtime_error.elims)

lemma um_catch_invalid:
  "keeps_um Y H m \<Longrightarrow> (\<And>e. keeps_um Y H (h e)) \<Longrightarrow> keeps_um Y H (catchE is_invalid_argument m h)"
  by (rule triple_catch) (auto elim: is_invalid_argument.elims)

lemma um_catch_std:
  "keeps_um Y H m \<Longrightarrow> (\<And>e. keeps_um Y H (h e)) \<Longrightarrow> keeps_um Y H (catchE is_std_exception m h)"
  by (rule triple_catch_std)

lemma Logger_GetProto_alloc: "keeps_um Y H (Logger_GetProto x n c l full)"
proof -
  have lg: "keeps_um Y H (the_logger x n c l)" by (intro neutral_um pres)
  have ep: "keeps_um Y H (Logger_GetPublisherEndpoint x n c l)" for n c l
    unfolding Logger_GetPublisherEndpoint_def by (intro um_rules um_the GetPublisherPort_alloc)
  have addr: "keeps_um Y H (Logger_client_addresses x ids)" for ids
    unfolding Logger_client_addresses_def
    by (intro um_bind um_map um_the um_return) (clarsimp, intro um_catch_runtime um_rules ep)
  have fill: "keeps_um Y H (Logger_fill x n c l lg)" for lg
    unfolding Logger_fill_def
    by (cases "lg_type lg") (simp_all, (intro um_rules um_the addr GetPublisherPort_alloc)+)
  have clear: "keeps_um Y H (modifyE (upd_logger x n c l (\<lambda>lg. lg\<lparr>lg_dirty := False\<rparr>)))"
    by (rule neutral_um, rule neutral_modify)
       (simp add: upd_logger_def upd_container_def upd_node_def shape_upds)
  show ?thesis unfolding Logger_GetProto_def
    by (intro um_bind [OF lg] triple_if um_catch_runtime um_bind [OF fill] um_bind [OF clear] um_return)
qed

lemma Component_GetProto_alloc: "keeps_um Y H (Component_GetProto x n c k full)"
proof -
  have clear: "keeps_um Y H (modifyE (upd_component x n c k (\<lambda>cp.
      cp\<lparr>cp_workers := w, cp_attributes := a, cp_dirty := False\<rparr>)))" for w a
    by (rule neutral_um, rule neutral_modify)
       (simp add: upd_component_def upd_container_def upd_node_def shape_upds Component_holds_def Component_keys_def)
  have cp: "keeps_um Y H (the_component x n c k)" by (intro neutral_um pres)
  show ?thesis unfolding Component_GetProto_def
    by (intro um_bind [OF cp] triple_if um_bind [OF um_the(1)] triple_get' um_bind [OF um_lift] um_return)
       (clarsimp split: prod.split, intro um_bind [OF clear] um_return)
qed

lemma Container_GetProto_alloc: "keeps_um Y H (Container_GetProto x n c full)"
proof -
  have clear: "keeps_um Y H (modifyE (upd_container x n c (\<lambda>ct. ct\<lparr>ct_dirty := False\<rparr>)))"
    by (rule neutral_um, rule neutral_modify)
       (simp add: upd_container_def upd_node_def shape_upds Container_shape_def Container_holds_def Container_keys_def)
  show ?thesis unfolding Container_GetProto_def
    by (intro um_bind [OF um_the(3)] triple_if um_bind um_map clear um_return)
       (auto intro: Component_GetProto_alloc Logger_GetProto_alloc)
qed

lemma Node_GetProto_alloc: "keeps_um Y H (Node_GetProto x n full)"
proof -
  have clear: "keeps_um Y H (modifyE (upd_node x n (\<lambda>nd. nd\<lparr>nd_dirty := False\<rparr>)))"
    by (rule neutral_um, rule neutral_modify) (simp add: upd_node_def shape_upds Node_shape_def)
  show ?thesis unfolding Node_GetProto_def
    by (intro um_bind [OF um_the(2)] triple_if um_bind um_map clear um_return)
       (auto intro: Container_GetProto_alloc um_return)
qed

lemma Experiment_GetProto_alloc: "x \<notin> Y \<Longrightarrow> keeps_um Y H (Experiment_GetProto x full)"
proof -
  assume x: "x \<notin> Y"
  have msg: "keeps_um Y H (Experiment_configure_message x full)"
    unfolding Experiment_configure_message_def
    by (intro um_bind [OF um_the(1)] um_bind um_map triple_get' um_return
         GetMasterPublisherAddress_alloc GetMasterRegistrationAddress_alloc x)
       (auto intro: Node_GetProto_alloc um_return)
  have clear: "keeps_um Y H (modifyE (upd_experiment x (\<lambda>ex. ex\<lparr>ex_dirty := False\<rparr>)))"
    by (rule neutral_um, rule neutral_modify) (simp add: shape_upds Experiment_shape_def)
  show ?thesis unfolding Experiment_GetProto_def
    by (intro um_bind [OF um_the(1)] triple_if um_bind [OF _ um_bind [OF clear]] msg um_return)
qed

section \<open>Removing\<close>

lemma Experiment_dtor_alloc:
  assumes keys: "Experiment_keys ex"
  shows "triple (alloc_at sh (H + Experiment_holds ex)) (Experiment_dtor ex) (\<lambda>_. alloc_at sh H) (alloc_at sh H)"
proof -
  let ?ip = "ex_master_ip_address ex"
  let ?P = "lease ?ip (ex_master_publisher_port ex)" and ?R = "lease ?ip (ex_master_registration_port ex)"
  let ?M = "manager_lease (ex_manager_port ex)" and ?N = "sum_list (map Node_holds (map snd (ex_node_map ex)))"
  have h: "H + Experiment_holds ex = H + ?P + ?R + ?M + ?N"
    by (simp add: Experiment_holds_def add_ac)
  have dereg: "triple (alloc_at sh (H + ?P + ?R + ?M + ?N))
      (catchE is_std_exception (bindE (Experiment_deregister_external ex) (\<lambda>_. returnE True)) (\<lambda>_. returnE False))
      (\<lambda>_. alloc_at sh (H + ?P + ?R + ?M + ?N)) (alloc_at sh H)"
    unfolding Experiment_deregister_external_def
    by (rule triple_catch_std [OF neutral_triple triple_return]) (intro pres neut)
  have nodes: "triple (alloc_at sh (H + ?P + ?R + ?M + ?N)) (forE (map snd (ex_node_map ex)) (Node_dtor ex))
      (\<lambda>_. alloc_at sh (H + ?P + ?R + ?M)) (alloc_at sh H)"
    by (rule triple_conseq [OF triple_for_sum [where H = "H + ?P + ?R + ?M"]], rule Node_dtor_alloc)
       (use keys in \<open>auto simp: Experiment_keys_def list_all_iff add.assoc intro: alloc_at_mono\<close>)
  have masters: "alloc_at sh H (Environment_FreePort ?ip (ex_master_registration_port ex)
      (Environment_FreePort ?ip (ex_master_publisher_port ex) env))" if "alloc_at sh (H + ?P + ?R) env" for env
  proof -
    have "alloc_at sh (H + ?R + ?P) env" using that by (simp add: add_ac)
    from FreePort_alloc [OF FreePort_alloc [OF this]] show ?thesis .
  qed
  have drop: "alloc_at sh H s" if "alloc_at sh (H + ?P + ?R) s" for s
    using alloc_at_mono [OF alloc_at_mono [OF that]] .
  have release: "triple (alloc_at sh (H + ?P + ?R + ?M)) (Experiment_release ex) (\<lambda>_. alloc_at sh H) (alloc_at sh H)"
    unfolding Experiment_release_def
    by (rule triple_bind [where R = "\<lambda>_. alloc_at sh (H + ?P + ?R)"],
        rule triple_conseq [OF FreeManagerPort_alloc [where H = "H + ?P + ?R"]])
       (auto intro!: triple_when triple_modify masters intro: drop)
  have bb: "triple (alloc_at sh H) (forE (map snd (ex_blackbox_port_map ex)) (Port_dtor ex))
      (\<lambda>_. alloc_at sh H) (alloc_at sh H)"
  proof (rule triple_for)
    fix pt assume "pt \<in> set (map snd (ex_blackbox_port_map ex))"
    then have "Port_holds pt = {#}" using keys by (auto simp: Experiment_keys_def blackbox_free_def list_all_iff)
    then show "triple (alloc_at sh H) (Port_dtor ex pt) (\<lambda>_. alloc_at sh H) (alloc_at sh H)"
      using Port_dtor_alloc [of sh H pt ex] by simp
  qed
  have rel: "triple (alloc_at sh (H + ?P + ?R + ?M))
      (whenE ok (catchE is_std_exception (Experiment_release ex) (\<lambda>_. returnE ()))) (\<lambda>_. alloc_at sh H) (alloc_at sh H)" for ok
    by (intro triple_when triple_catch_std [OF release triple_return]) (auto intro: drop alloc_at_mono)
  show ?thesis unfolding Experiment_dtor_def h
    by (rule triple_bind [OF dereg], rule triple_bind [OF triple_if [OF nodes triple_undefined]], rule triple_bind [OF rel bb])
qed

lemma erase_alloc:
  assumes K: "alloc_um Y H env" and ex: "map_of (env_experiment_map env) x = Some ex"
  shows "alloc_um Y (H + Experiment_holds ex)
     (env\<lparr>env_experiment_map := umap_erase x (env_experiment_map env)\<rparr>)" (is "alloc_um Y _ ?env")
proof -
  have ek: "env_keys env" using K by (auto simp: alloc_um_def alloc_ok_def)
  have sum: "sum_list (map (Experiment_holds \<circ> snd) (umap_erase x m)) + Experiment_holds ex =
      sum_list (map (Experiment_holds \<circ> snd) m)" if "umap_wf m" "map_of m x = Some ex" for m
    using that
  proof (induction m)
    case (Cons p m)
    obtain k v where p: "p = (k, v)" by (cases p)
    show ?case
    proof (cases "k = x")
      case True
      then have "umap_erase x m = m" using Cons.prems p
        by (intro umap_erase_absent) (auto simp: umap_wf_def umap_count_keys)
      then show ?thesis using True Cons.prems p by (simp add: umap_erase_def add.commute)
    next
      case False
      then have "sum_list (map (Experiment_holds \<circ> snd) (umap_erase x m)) + Experiment_holds ex =
          sum_list (map (Experiment_holds \<circ> snd) m)" using Cons.prems p by (intro Cons.IH) (auto simp: umap_wf_def)
      moreover have "umap_erase x (p # m) = p # umap_erase x m" using False p by (simp add: umap_erase_def)
      ultimately show ?thesis by (simp add: add.assoc comp_def)
    qed
  qed simp
  have held: "held ?env + Experiment_holds ex = held env"
    using sum [OF experiment_keysD(1) [OF ek ex] ex] by (simp add: held_def add.assoc)
  have f: "is_free ?env r = is_free env r" "from_pool ?env r = from_pool env r" for r
    by (rule is_free_cong, simp, simp, rule from_pool_cong, simp)
  have "exclusive (held ?env + (H + Experiment_holds ex)) ?env"
    using K f held by (simp add: alloc_um_def alloc_ok_def exclusive_def add_ac)
  moreover have "env_keys ?env"
    using ek by (simp add: env_keys_def umap_wf_erase list_all_umap_erase)
  moreover have "unmastered Y ?env" using K by (auto simp: alloc_um_def unmastered_def list_all_iff umap_erase_def)
  ultimately show ?thesis using K by (simp add: alloc_um_def alloc_ok_def pools_ok_def)
qed

lemma core_publish [simp]: "core (publish m env) = core env"
  by (simp add: core_def shape_def publish_def)

lemma publish_um: "keeps_um Y H (modifyE (publish m))"
  by (rule neutral_um, rule neutral_modify) simp

lemma RemoveExperimentInternal_alloc: "keeps_um Y H (Environment_RemoveExperimentInternal x)"
proof -
  have dtor: "triple (alloc_um Y (H + Experiment_holds ex)) (Experiment_dtor ex) (\<lambda>_. alloc_um Y H) (alloc_um Y H)"
    if "Experiment_keys ex" for ex
  proof -
    have "triple (\<lambda>s. alloc_um Y (H + Experiment_holds ex) s \<and> shape s = sh) (Experiment_dtor ex)
      (\<lambda>a s. alloc_um Y H s \<and> shape s = sh \<and> True) (alloc_um Y H)" for sh
      by (rule triple_from_at [where H' = "\<lambda>_. H"]) (simp add: Experiment_dtor_alloc [OF that])
    from triple_InrD [OF this] triple_InlD [OF this] show ?thesis by (intro tripleI) blast+
  qed
  have pub: "keeps_um Y H (modifyE (\<lambda>env. publish (removal_message x (env_clock env)) env))"
    by (rule neutral_um, rule neutral_modify) simp
  show ?thesis unfolding Environment_RemoveExperimentInternal_def
  proof (rule triple_get)
    fix t
    show "triple (\<lambda>s. alloc_um Y H s \<and> s = t)
      (case map_of (env_experiment_map t) x of None \<Rightarrow> returnE () | Some ex \<Rightarrow>
         bindE (modifyE (\<lambda>env. env\<lparr>env_experiment_map := umap_erase x (env_experiment_map env)\<rparr>)) (\<lambda>_.
         bindE (Experiment_dtor ex) (\<lambda>_. modifyE (\<lambda>env. publish (removal_message x (env_clock env)) env))))
      (\<lambda>_. alloc_um Y H) (alloc_um Y H)"
    proof (cases "map_of (env_experiment_map t) x")
      case None
      then show ?thesis by (auto intro: triple_return)
    next
      case (Some ex)
      show ?thesis
      proof (cases "alloc_um Y H t")
        case True
        then have k: "Experiment_keys ex" using experiment_keysD(2) [OF _ Some] by (auto simp: alloc_um_def alloc_ok_def)
        show ?thesis unfolding Some option.case
          by (rule triple_bind [OF triple_modify triple_bind [OF dtor [OF k] pub]])
             (auto intro: erase_alloc [OF True Some])
      qed (auto simp: triple_def)
    qed
  qed
qed

lemma SetConfigured_alloc: "keeps_um Y H (try_upd_experiment x Experiment_SetConfigured)"
  and SetActive_alloc: "keeps_um Y H (try_upd_experiment x Experiment_SetActive)"
proof -
  have gen: "keeps_um Y H (try_upd_experiment x f)"
    if "\<And>ex ex'. f ex = Inr ex' \<Longrightarrow> Experiment_shape (x, ex') = Experiment_shape (x, ex)" for f
  proof (rule tripleI)
    fix s a s' assume K: "alloc_um Y H s" and m: "try_upd_experiment x f s = (Inr a, s')"
    then obtain ex ex' where ex: "map_of (env_experiment_map s) x = Some ex" "f ex = Inr ex'"
      "s' = upd_experiment x (\<lambda>_. ex') s"
      by (auto simp: try_upd_experiment_def bindE_def the_experiment_run liftE_def split: option.splits sum.splits prod.splits)
    have "env_keys s" using K by (auto simp: alloc_um_def alloc_ok_def)
    then have "(y, v) \<in> set (env_experiment_map s) \<Longrightarrow> y = x \<Longrightarrow> v = ex" for y v
      using ex(1) by (auto simp: env_keys_def umap_wf_def dest!: map_of_SomeD dest: eq_key_imp_eq_value)
    then have "shape s' = shape s" using that [OF ex(2)]
      by (auto simp: shape_def ex(3) umap_modify_def)
    then have "core s' = core s" by (simp add: core_def ex(3))
    then show "alloc_um Y H s'" using K alloc_um_core by blast
  next
    fix s e s' assume K: "alloc_um Y H s" and m: "try_upd_experiment x f s = (Inl e, s')"
    then have "s' = s"
      by (auto simp: try_upd_experiment_def bindE_def the_experiment_run liftE_def split: option.splits sum.splits prod.splits)
    then show "alloc_um Y H s'" using K by simp
  qed
  show "keeps_um Y H (try_upd_experiment x Experiment_SetConfigured)"
    by (rule gen) (auto simp: Experiment_SetConfigured_def Experiment_shape_def split: if_splits)
  show "keeps_um Y H (try_upd_experiment x Experiment_SetActive)"
    by (rule gen) (auto simp: Experiment_SetActive_def Experiment_shape_def split: if_splits)
qed

section \<open>The operations of the environment\<close>

lemma configure_alloc:
  "triple (\<lambda>s. alloc_um {} H s \<and> \<not> umap_count (env_experiment_map s) (expb_name message))
     (Environment_configure message) (\<lambda>_. alloc_um {} H) (alloc_um {} H)"
proof -
  let ?x = "expb_name message"
  have fresh: "alloc_um {?x} H s" if "alloc_um {} H s \<and> \<not> umap_count (env_experiment_map s) ?x" for s
    using that by (auto simp: alloc_um_def unmastered_def list_all_iff umap_count_keys image_iff)
  have w: "triple (alloc_um {?x} H) m (\<lambda>_. alloc_um {?x} H) (alloc_um {} H)" if "keeps_um {?x} H m"
    for m :: "(Environment, 'b) em"
    by (rule triple_conseq [OF that]) (auto intro: alloc_um_sub)
  have "triple (alloc_um {?x} H) (Environment_configure message) (\<lambda>_. alloc_um {} H) (alloc_um {} H)"
    unfolding Environment_configure_def Let_def
    by (rule triple_bind [OF w [OF RegisterExperiment_alloc]], rule triple_bind [OF w [OF um_the(4)]],
        rule triple_bind [OF w [OF um_when [OF um_throw]]], rule triple_bind [OF w [OF AddExternalPorts_alloc]],
        rule triple_bind [OF w [OF um_for [OF AddNodes_alloc]]], rule triple_bind [OF ConfigureMaster_alloc],
        rule um_bind [OF um_bind [OF um_the(1) um_lift] SetConfigured_alloc])
  then show ?thesis by (rule triple_pre) (rule fresh)
qed

lemma PopulateExperiment_alloc: "keeps_um {} H (Environment_PopulateExperiment message)"
proof -
  have pub: "keeps_um {} H (case proto of None \<Rightarrow> returnE () | Some m \<Rightarrow> modifyE (publish m))" for proto
    by (cases proto) (auto intro: um_return publish_um)
  have cfg: "triple (\<lambda>s. alloc_um {} H s \<and> \<not> umap_count (env_experiment_map s) (expb_name message))
      (catchE is_std_exception (Environment_configure message) (\<lambda>e.
         bindE (Environment_RemoveExperimentInternal (expb_name message)) (\<lambda>_. throwE e)))
      (\<lambda>_. alloc_um {} H) (alloc_um {} H)"
    by (rule triple_catch_std [OF configure_alloc]) (intro um_rules RemoveExperimentInternal_alloc)
  have send: "keeps_um {} H (catchE is_std_exception
      (bindE (bindE getE (\<lambda>env. liftE (umap_at (env_experiment_map env) (expb_name message)))) (\<lambda>_.
       bindE (Experiment_GetProto (expb_name message) True) (\<lambda>proto.
       case proto of None \<Rightarrow> returnE () | Some m \<Rightarrow> modifyE (publish m)))) (\<lambda>_. returnE ()))"
    by (intro um_catch_std um_return um_bind triple_get' um_lift Experiment_GetProto_alloc pub) simp
  show ?thesis unfolding Environment_PopulateExperiment_def Let_def
    by (rule triple_get, rule triple_if, rule triple_throw, simp,
        rule triple_pre [OF triple_bind [OF cfg send]], auto)
qed

lemma Environment_GetProto_alloc: "keeps_um {} H (Environment_GetProto x full)"
proof -
  have pub: "keeps_um {} H (case proto of None \<Rightarrow> throwE (Undefined ''null EnvironmentMessage'')
     | Some m \<Rightarrow> bindE (modifyE (publish m)) (\<lambda>_. returnE m))" for proto
    by (cases proto) (auto intro!: um_rules publish_um)
  show ?thesis unfolding Environment_GetProto_def
    by (intro um_bind [OF um_the(4)] um_bind [OF Experiment_GetProto_alloc] pub) simp
qed

lemma ShutdownExperimentInternal_alloc: "keeps_um {} H (Environment_ShutdownExperimentInternal x)"
proof -
  have s: "keeps_um {} H (modifyE (upd_experiment x Experiment_Shutdown))"
    by (rule neutral_um, rule neutral_modify, rule core_upd_experiment)
       (simp add: Experiment_Shutdown_def Experiment_shape_def)
  show ?thesis unfolding Environment_ShutdownExperimentInternal_def
    by (intro um_bind [OF um_the(4)] triple_if s RemoveExperimentInternal_alloc)
qed

lemma ShutdownExperimentRegex_alloc: "keeps_um {} H (Environment_ShutdownExperimentRegex re r)"
  unfolding Environment_ShutdownExperimentRegex_def Environment_GetMatchingExperiments_def
  by (intro um_bind um_return um_for ShutdownExperimentInternal_alloc)
     (auto intro!: um_throw triple_get' um_return split: option.split)

end
