(* ===== verification/ProtoRPC.thy ===== *)
theory ProtoRPC
  imports Prelude_SEM
begin

text \<open>
  The request/reply layer of \<^verbatim>\<open>re/re_common/zmq\<close>: \<open>ProtoRegister\<close> (message types by name),
  \<open>ProtoReplier\<close> (the serving loop with its retry timeouts) and the way \<open>ProtoRequester\<close> reads
  a reply. Sockets are reduced to what \<open>zmq::poll\<close> and \<open>recv\<close> deliver. Protobuf is a pair of
  parameters: \<open>parse type_name bytes\<close> is \<open>ParseFromArray\<close> on a fresh message of that type
  (\<open>None\<close> when it returns false), \<open>ser m\<close> is the type name of \<open>m\<close> with its serialised bytes.
\<close>

section \<open>Types by name\<close>

type_synonym 'm parser = "string \<Rightarrow> string \<Rightarrow> 'm option"

definition RegisterProtoConstructor :: "string \<Rightarrow> string list \<Rightarrow> string list" where
  "RegisterProtoConstructor type_name types = (if type_name \<in> set types then types else types @ [type_name])"

definition ConstructProto :: "'m parser \<Rightarrow> string list \<Rightarrow> string \<Rightarrow> string \<Rightarrow> exn + 'm" where
  "ConstructProto parse types type_name data =
     (if type_name \<in> set types
      then case parse type_name data of
             None \<Rightarrow> Inl (RuntimeError (''Proto Type '' @ quoted type_name @ '' cannot parse data''))
           | Some m \<Rightarrow> Inr m
      else Inl (RuntimeError (''Proto Type '' @ quoted type_name @ '' Not Registered!'')))"

definition GetFunctionSignature :: "string \<Rightarrow> string \<Rightarrow> string \<Rightarrow> string" where
  "GetFunctionSignature function_name request_type reply_type =
     function_name @ ''('' @ request_type @ '') -> '' @ reply_type"

section \<open>The replier\<close>

record ('s, 'm) replier =
  rp_types :: "string list"
  rp_bind_addresses :: "string sset"
  rp_callback_lookup :: "(string, 'm \<Rightarrow> ('s, 'm option) em) umap"

definition ProtoReplier_ctor :: "('s, 'm) replier" where
  "ProtoReplier_ctor = \<lparr>rp_types = [], rp_bind_addresses = [], rp_callback_lookup = []\<rparr>"

text \<open>\<open>Bind\<close> only notes the address; the socket is bound when the loop is started.\<close>

definition ProtoReplier_Bind :: "string \<Rightarrow> ('s, 'm) replier \<Rightarrow> ('s, 'm) replier" where
  "ProtoReplier_Bind address rp = rp\<lparr>rp_bind_addresses := sset_insert address (rp_bind_addresses rp)\<rparr>"

definition RegisterNewProto ::
  "string \<Rightarrow> ('m \<Rightarrow> ('s, 'm option) em) \<Rightarrow> ('s, 'm) replier \<Rightarrow> exn + ('s, 'm) replier" where
  "RegisterNewProto fn_signature callback_function rp =
     (if \<not> umap_count (rp_callback_lookup rp) fn_signature
      then Inr (rp\<lparr>rp_callback_lookup := umap_put fn_signature callback_function (rp_callback_lookup rp)\<rparr>)
      else Inl (InvalidArgument (''Request Type '' @ quoted fn_signature @ '' Already Registered'')))"

definition RegisterProtoCallback ::
  "string \<Rightarrow> string \<Rightarrow> string \<Rightarrow> ('m \<Rightarrow> ('s, 'm option) em) \<Rightarrow> ('s, 'm) replier \<Rightarrow> exn + ('s, 'm) replier" where
  "RegisterProtoCallback function_name request_type reply_type callback_function rp =
     RegisterNewProto (GetFunctionSignature function_name request_type reply_type) callback_function
       (rp\<lparr>rp_types := RegisterProtoConstructor reply_type (RegisterProtoConstructor request_type (rp_types rp))\<rparr>)"

text \<open>\<open>bind_ok\<close> says which addresses the operating system lets the process bind. A socket that
  cannot be bound makes \<open>Start\<close> throw.\<close>

definition GetReplySocket :: "(string \<Rightarrow> bool) \<Rightarrow> ('s, 'm) replier \<Rightarrow> exn + unit" where
  "GetReplySocket bind_ok rp =
     (if rp_bind_addresses rp = [] then Inl (LogicError ''No bound addresses'')
      else case List.find (\<lambda>a. \<not> bind_ok a) (rp_bind_addresses rp) of
             Some address \<Rightarrow> Inl (RuntimeError (''Failed to connect to Address: '' @ address))
           | None \<Rightarrow> Inr ())"

text \<open>What one turn of the loop sees: a request (signature, type name, bytes), a poll that ran
  into its timeout, or a \<open>zmq::error_t\<close>. What it sends back: the result code and the frames after
  it.\<close>

datatype poll_event = Received string string string | NoMessage | PollError int

record wire_reply =
  wr_result :: "32 word"
  wr_frames :: "string list"

datatype loop_state = Waiting nat | Returned | Threw exn

fun what :: "exn \<Rightarrow> string" where
  "what (InvalidArgument s) = s"
| "what (RuntimeError s) = s"
| "what (OutOfRange s) = s"
| "what (RegexError s) = s"
| "what (ZmqError s) = s"
| "what (ShutdownException s) = s"
| "what (TimeoutException s) = s"
| "what (RMIException s) = s"
| "what (LogicError s) = s"
| "what (Undefined s) = s"

fun is_shutdown :: "exn \<Rightarrow> bool" where
  "is_shutdown (ShutdownException _) = True"
| "is_shutdown _ = False"

definition call_back :: "'m parser \<Rightarrow> ('s, 'm) replier \<Rightarrow> string \<Rightarrow> string \<Rightarrow> string \<Rightarrow> ('s, 'm option) em" where
  "call_back parse rp fn_signature request_typename request_data =
     bindE (liftE (ConstructProto parse (rp_types rp) request_typename request_data)) (\<lambda>request_proto.
     case map_of (rp_callback_lookup rp) fn_signature of
       Some f \<Rightarrow> f request_proto
     | None \<Rightarrow> throwE (RuntimeError (''No registered function: '' @ quoted fn_signature)))"

definition error_reply :: "string \<Rightarrow> wire_reply" where
  "error_reply error_str = \<lparr>wr_result = 1, wr_frames = [error_str]\<rparr>"

definition success_reply :: "('m \<Rightarrow> string \<times> string) \<Rightarrow> 'm \<Rightarrow> wire_reply" where
  "success_reply ser m = \<lparr>wr_result = 0, wr_frames = [fst (ser m), snd (ser m)]\<rparr>"

definition answer ::
  "'m parser \<Rightarrow> ('m \<Rightarrow> string \<times> string) \<Rightarrow> ('s, 'm) replier \<Rightarrow> string \<Rightarrow> string \<Rightarrow> string \<Rightarrow> 's \<Rightarrow>
   (wire_reply list \<times> loop_state) \<times> 's" where
  "answer parse ser rp fn_signature request_typename request_data s =
     (case call_back parse rp fn_signature request_typename request_data s of
        (Inr (Some m), s') \<Rightarrow> (([success_reply ser m], Waiting 0), s')
      | (Inr None, s') \<Rightarrow> (([error_reply ''''], Waiting 0), s')
      | (Inl e, s') \<Rightarrow>
          if is_shutdown e then (([], Returned), s')
          else if is_std_exception e then (([error_reply (what e)], Waiting 0), s')
          else (([], Threw e), s'))"

text \<open>\<open>ZmqReplier\<close> on the events that reach it, from a given \<open>retry_count\<close>: the replies it sends
  and how it stands after them (\<open>Waiting\<close> in \<open>zmq::poll\<close>, returned, or left by an exception
  that goes to \<open>blocked_promise\<close>). The test of the retry count is at the head of the loop.\<close>

fun ZmqReplier ::
  "'m parser \<Rightarrow> ('m \<Rightarrow> string \<times> string) \<Rightarrow> ('s, 'm) replier \<Rightarrow> nat list \<Rightarrow> nat \<Rightarrow> poll_event list \<Rightarrow> 's \<Rightarrow>
   (wire_reply list \<times> loop_state) \<times> 's" where
  "ZmqReplier parse ser rp retry_timeouts retry_count [] s =
     (if retry_timeouts \<noteq> [] \<and> retry_count \<ge> length retry_timeouts
      then (([], Threw (TimeoutException ''Replier Timed out'')), s)
      else (([], Waiting retry_count), s))"
| "ZmqReplier parse ser rp retry_timeouts retry_count (ev # evs) s =
     (if retry_timeouts \<noteq> [] \<and> retry_count \<ge> length retry_timeouts
      then (([], Threw (TimeoutException ''Replier Timed out'')), s)
      else case ev of
        NoMessage \<Rightarrow>
          ZmqReplier parse ser rp retry_timeouts
            (if retry_timeouts \<noteq> [] then retry_count + 1 else retry_count) evs s
      | PollError _ \<Rightarrow> (([], Returned), s)
      | Received fn ty d \<Rightarrow>
          (case answer parse ser rp fn ty d s of
             ((rs, Waiting n), s') \<Rightarrow>
               (case ZmqReplier parse ser rp retry_timeouts n evs s' of
                  ((rs', st), s'') \<Rightarrow> ((rs @ rs', st), s''))
           | ((rs, st), s') \<Rightarrow> ((rs, st), s')))"

section \<open>The requester\<close>

datatype 'm promise = Value 'm | Exception exn

text \<open>What becomes of the promise of a request. The argument \<open>None\<close> is a poll that timed out.
  A reply with missing frames blocks \<open>recv\<close>: the promise is not set, which is the result
  \<open>None\<close>.\<close>

definition ProcessRequest :: "'m parser \<Rightarrow> string list \<Rightarrow> wire_reply option \<Rightarrow> 'm promise option" where
  "ProcessRequest parse types reply =
     (case reply of
        None \<Rightarrow> Some (Exception (TimeoutException ''Server Request timed out''))
      | Some r \<Rightarrow>
          if wr_result r = 0
          then (case wr_frames r of
                  [type_name, data] \<Rightarrow>
                    (case ConstructProto parse types type_name data of
                       Inr m \<Rightarrow> Some (Value m)
                     | Inl e \<Rightarrow> Some (Exception e))
                | _ \<Rightarrow> None)
          else (case wr_frames r of
                  [error_str] \<Rightarrow> Some (Exception (RMIException error_str))
                | _ \<Rightarrow> None))"

section \<open>Lemmas\<close>

text \<open>Silence counts up to the number of timeouts and then ends the loop.\<close>

lemma ZmqReplier_silence:
  assumes "ts \<noteq> []" and "n + k \<ge> length ts"
  shows "ZmqReplier parse ser rp ts n (replicate k NoMessage) s =
         (([], Threw (TimeoutException ''Replier Timed out'')), s)"
  using assms(2)
proof (induction k arbitrary: n)
  case 0
  then show ?case using assms(1) by simp
next
  case (Suc k)
  then show ?case using assms(1) by simp
qed

lemma ZmqReplier_patience:
  assumes "n + k < length ts"
  shows "ZmqReplier parse ser rp ts n (replicate k NoMessage @ evs) s =
         ZmqReplier parse ser rp ts (n + k) evs s"
  using assms
proof (induction k arbitrary: n)
  case (Suc k)
  have "ts \<noteq> []" using Suc.prems by auto
  then show ?case using Suc.prems Suc.IH [of "n + 1"] by simp
qed simp

text \<open>A reply for every request that ends neither the loop nor the process, and none otherwise.\<close>

text \<open>A run of the loop may be cut anywhere: it goes on from the retry count it stood at.\<close>

lemma ZmqReplier_append:
  "ZmqReplier parse ser rp ts c (xs @ ys) s =
     (case ZmqReplier parse ser rp ts c xs s of
        ((rs, Waiting n), s') \<Rightarrow>
          (case ZmqReplier parse ser rp ts n ys s' of ((rs', st), s'') \<Rightarrow> ((rs @ rs', st), s''))
      | r \<Rightarrow> r)"
proof (induction xs arbitrary: c s)
  case Nil
  then show ?case by (cases ys) auto
next
  case (Cons ev xs)
  show ?case
    by (cases ev) (auto simp: Cons.IH split: prod.split loop_state.split)
qed

lemma answer_Waiting: "answer parse ser rp fn ty d s = ((rs, Waiting n), s') \<Longrightarrow> n = 0"
  by (auto simp: answer_def split: prod.splits sum.splits option.splits if_splits)

lemma ZmqReplier_after_message:
  assumes "ZmqReplier parse ser rp ts c (xs @ [Received fn ty d]) s = ((rs, Waiting n), s')" shows "n = 0"
  using assms answer_Waiting [of parse ser rp fn ty d]
  by (auto simp: ZmqReplier_append split: prod.splits loop_state.splits if_splits)

lemma answer_one_reply:
  "fst (answer parse ser rp fn ty d s) = (rs, st) \<Longrightarrow>
   (length rs = 1 \<and> st = Waiting 0) \<or> (rs = [] \<and> (\<forall>n. st \<noteq> Waiting n))"
  by (auto simp: answer_def split: prod.splits sum.splits option.splits if_splits)

section \<open>Properties\<close>

text \<open>
  The serving loop waits exactly as long as it was told. With the retry timeouts \<open>ts\<close> and no
  request, it is still polling after fewer than \<open>length ts\<close> silent polls, and after that many it
  has ended with the timeout exception; the state it serves is untouched.
\<close>
theorem ZmqReplier_times_out:
  assumes "ts \<noteq> []"
  shows "ZmqReplier parse ser rp ts 0 (replicate k NoMessage) s =
    (([], if k < length ts then Waiting k else Threw (TimeoutException ''Replier Timed out'')), s)"
proof (cases "k < length ts")
  case True
  then show ?thesis using ZmqReplier_patience [of 0 k ts parse ser rp "[]" s] by simp
next
  case False
  then show ?thesis using ZmqReplier_silence [OF assms, of 0 k parse ser rp s] by simp
qed

theorem ZmqReplier_times_out_witness:
  "ZmqReplier (\<lambda>_ _. Some ()) (\<lambda>_. ('''', '''')) ProtoReplier_ctor [2000, 4000, 8000] 0 (replicate 3 NoMessage) (0 :: nat) =
    (([], Threw (TimeoutException ''Replier Timed out'')), 0)"
  using ZmqReplier_times_out [of "[2000, 4000, 8000]" "\<lambda>_ _. Some ()" "\<lambda>_. ('''', '''')" ProtoReplier_ctor 3 "0 :: nat"]
  by simp

text \<open>
  C7. A remote call behaves like a local one. Let \<open>f\<close> be the callback registered under the
  signature, and let the bytes of a message parse to that message. When \<open>f\<close> returns a message,
  the caller's promise receives that message; when it returns a null pointer or throws, the promise
  receives an \<open>RMIException\<close> with the text of the exception (empty for the null pointer), except
  for a \<open>ShutdownException\<close>, which ends the loop without a reply. In every case the effect of
  \<open>f\<close> on the state is that of the local call.
\<close>
theorem rpc_transparent:
  assumes law: "\<And>m. parse (fst (ser m)) (snd (ser m)) = Some m"
    and types: "\<And>m. fst (ser m) \<in> set types"
    and request: "fst (ser q) \<in> set (rp_types rp)" and lookup: "map_of (rp_callback_lookup rp) fn = Some f"
    and call: "f q s = (r, s')"
  shows "case r of
      Inr (Some m) \<Rightarrow> \<exists>w. answer parse ser rp fn (fst (ser q)) (snd (ser q)) s = (([w], Waiting 0), s') \<and>
                       ProcessRequest parse types (Some w) = Some (Value m)
    | Inr None \<Rightarrow> \<exists>w. answer parse ser rp fn (fst (ser q)) (snd (ser q)) s = (([w], Waiting 0), s') \<and>
                       ProcessRequest parse types (Some w) = Some (Exception (RMIException ''''))
    | Inl e \<Rightarrow>
        if is_shutdown e then answer parse ser rp fn (fst (ser q)) (snd (ser q)) s = (([], Returned), s')
        else is_std_exception e \<longrightarrow>
          (\<exists>w. answer parse ser rp fn (fst (ser q)) (snd (ser q)) s = (([w], Waiting 0), s') \<and>
               ProcessRequest parse types (Some w) = Some (Exception (RMIException (what e))))"
proof -
  have "call_back parse rp fn (fst (ser q)) (snd (ser q)) s = (r, s')"
    using law request lookup call by (simp add: call_back_def ConstructProto_def ev_bindE run_liftE)
  then show ?thesis using law types
    by (auto simp: answer_def ProcessRequest_def success_reply_def error_reply_def ConstructProto_def
        split: sum.split option.split)
qed

definition demo_replier :: "(nat, string) replier" where
  "demo_replier = \<lparr>rp_types = [''T''], rp_bind_addresses = [],
     rp_callback_lookup = [(''f'', \<lambda>q s. (if q = '''' then Inl (RuntimeError ''empty'') else Inr (Some (q @ q)), s + 1))]\<rparr>"

theorem rpc_transparent_witness:
  "(\<exists>w. answer (\<lambda>_ d. Some d) (\<lambda>m. (''T'', m)) demo_replier ''f'' ''T'' ''ab'' 0 = (([w], Waiting 0), 1) \<and>
        ProcessRequest (\<lambda>_ d. Some d) [''T''] (Some w) = Some (Value ''abab'')) \<and>
   (\<exists>w. answer (\<lambda>_ d. Some d) (\<lambda>m. (''T'', m)) demo_replier ''f'' ''T'' '''' 0 = (([w], Waiting 0), 1) \<and>
        ProcessRequest (\<lambda>_ d. Some d) [''T''] (Some w) = Some (Exception (RMIException ''empty'')))"
  using rpc_transparent [of "\<lambda>_ d. Some d" "\<lambda>m. (''T'', m)" "[''T'']" "''ab''" demo_replier "''f''"
      "\<lambda>q s. (if q = '''' then Inl (RuntimeError ''empty'') else Inr (Some (q @ q)), s + 1)" 0 "Inr (Some ''abab'')" 1]
    rpc_transparent [of "\<lambda>_ d. Some d" "\<lambda>m. (''T'', m)" "[''T'']" "''''" demo_replier "''f''"
      "\<lambda>q s. (if q = '''' then Inl (RuntimeError ''empty'') else Inr (Some (q @ q)), s + 1)" 0 "Inl (RuntimeError ''empty'')" 1]
  by (simp add: demo_replier_def)

end
