(* ===== verification/EMDeployment.thy ===== *)
theory EMDeployment
  imports EMEnvironment ProtoRPC
begin

text \<open>
  \<open>DeploymentHandler\<close> (\<^verbatim>\<open>deploymenthandler.cpp\<close>) and \<open>DeploymentRegister\<close>
  (\<^verbatim>\<open>deploymentregister.cpp\<close>): the services the environment manager offers over ZeroMQ, and the
  system they make together. The register serves on one thread, every handler on one of its own;
  a callback is one step of the system here. The calls a callback makes on the environment one
  after the other, each under its own lock, are definitions of their own, so that statements about
  interleavings can be made.
\<close>

record RequestId_pb =
  rid_experiment_name :: string
  rid_ip_address :: string
  rid_host_name :: string

datatype registration_type = SLAVE | MASTER

record NodeManagerRegistrationReply_pb =
  nmr_types :: "registration_type list"
  nmr_heartbeat_endpoint :: string
  nmr_master_publisher_endpoint :: string
  nmr_master_registration_endpoint :: string
  nmr_experiment_logger_endpoint :: string

definition NodeManagerRegistrationReply_default :: NodeManagerRegistrationReply_pb where
  "NodeManagerRegistrationReply_default =
     \<lparr>nmr_types = [], nmr_heartbeat_endpoint = '''', nmr_master_publisher_endpoint = '''',
      nmr_master_registration_endpoint = '''', nmr_experiment_logger_endpoint = ''''\<rparr>"

datatype message =
    EnvironmentMessage EnvironmentMessage_pb
  | NodeManagerDeregistrationRequest | NodeManagerDeregistrationReply
  | NodeManagerRegistrationRequest RequestId_pb string
  | NodeManagerRegistrationReply NodeManagerRegistrationReply_pb
  | LoganRegistrationRequest RequestId_pb
  | LoganRegistrationReply string "Logger_pb list"
  | RegisterExperimentRequest RequestId_pb Experiment_pb
  | RegisterExperimentReply "NodeDeployment_pb list"
  | ShutdownExperimentRequest string bool | ShutdownExperimentReply "string list"
  | ListExperimentsRequest | ListExperimentsReply "string list"
  | InspectExperimentRequest string | InspectExperimentReply EnvironmentMessage_pb
  | AggregationServerRegistrationRequest RequestId_pb | AggregationServerRegistrationReply string
  | MEDEAInterfaceRequest | MEDEAInterfaceReply "string list" "ExternalPort_pb list"
  | GetQpidBrokerEndpointRequest | GetQpidBrokerEndpointReply string
  | GetTaoCosnamingEndpointRequest | GetTaoCosnamingEndpointReply string

section \<open>The handler of one deployment\<close>

record DeploymentHandler =
  dh_environment_manager_ip_address :: string
  dh_deployment_type :: DeploymentType
  dh_deployment_ip_address :: string
  dh_experiment_id :: string
  dh_bind_address :: string
  dh_removed_flag :: bool

text \<open>The constructor, with the port the promise receives. \<open>replier_->Bind\<close> only notes the
  address, so the \<open>catch (const zmq::error_t&)\<close> around it is never entered.\<close>

definition DeploymentHandler_ctor ::
  "string \<Rightarrow> DeploymentType \<Rightarrow> string \<Rightarrow> string \<Rightarrow> (Environment, DeploymentHandler \<times> string) em" where
  "DeploymentHandler_ctor environment_manager_ip_address deployment_type deployment_ip_address experiment_id =
     bindE (Environment_GetDeploymentHandlerPort experiment_id deployment_type) (\<lambda>assigned_port.
     returnE (\<lparr>dh_environment_manager_ip_address = environment_manager_ip_address,
        dh_deployment_type = deployment_type, dh_deployment_ip_address = deployment_ip_address,
        dh_experiment_id = experiment_id,
        dh_bind_address = TCPify environment_manager_ip_address assigned_port,
        dh_removed_flag = False\<rparr>, assigned_port))"

definition RemoveDeployment :: "(Environment \<times> DeploymentHandler, unit) em" where
  "RemoveDeployment =
     bindE getE (\<lambda>(_, h).
     whenE (\<not> dh_removed_flag h)
       (bindE (whenE (dh_deployment_type h = EXECUTION_MASTER)
          (on_fst (Environment_RemoveExperiment (dh_experiment_id h)))) (\<lambda>_.
        modifyE (\<lambda>(env, h). (env, h\<lparr>dh_removed_flag := True\<rparr>)))))"

definition heartbeat_ack :: EnvironmentMessage_pb where
  "heartbeat_ack = EnvironmentMessage_default\<lparr>em_type := HEARTBEAT_ACK\<rparr>"

definition HandleHeartbeat :: "DeploymentHandler \<Rightarrow> EnvironmentMessage_pb \<Rightarrow> (Environment, EnvironmentMessage_pb) em" where
  "HandleHeartbeat h request_message =
     (if em_type request_message = END_HEARTBEAT then throwE (ShutdownException ''Terminate Replier'')
      else case dh_deployment_type h of
        EXECUTION_MASTER \<Rightarrow>
          bindE (Environment_ExperimentIsDirty (dh_experiment_id h)) (\<lambda>is_dirty.
          if is_dirty then Environment_GetProto (dh_experiment_id h) False
          else returnE heartbeat_ack)
      | LOGAN_SERVER \<Rightarrow>
          bindE getE (\<lambda>env.
          returnE (if \<not> Environment_GotExperiment (dh_experiment_id h) env
                   then heartbeat_ack\<lparr>em_type := SHUTDOWN_LOGAN_SERVER\<rparr> else heartbeat_ack)))"

definition HandleNodeManagerDeregisteration :: "(Environment \<times> DeploymentHandler, unit) em" where
  "HandleNodeManagerDeregisteration = RemoveDeployment"

text \<open>The reference \<open>experiment\<close> is kept over the call of \<open>GetProto\<close>; \<open>SetActive\<close> on an
  experiment that is gone by then has no meaning.\<close>

definition activate_experiment :: "string \<Rightarrow> (Environment, unit) em" where
  "activate_experiment x = try_upd_experiment x Experiment_SetActive"

definition HandleGetExperimentInfo :: "DeploymentHandler \<Rightarrow> (Environment, EnvironmentMessage_pb) em" where
  "HandleGetExperimentInfo h =
     (let x = dh_experiment_id h in
      bindE (Environment_GetExperiment x) (\<lambda>experiment.
      if Experiment_IsConfigured experiment
      then bindE (Environment_GetProto x True) (\<lambda>experiment_update.
           bindE (activate_experiment x) (\<lambda>_. returnE experiment_update))
      else throwE (RuntimeError (''Experiment: '' @ quoted x @ '' already active''))))"

definition IsRemovable :: "DeploymentHandler \<Rightarrow> bool" where
  "IsRemovable h = dh_removed_flag h"

text \<open>The callbacks, with the unchecked cast of the request to the type of the callback.\<close>

definition bad_cast :: "('s, 'a) em" where
  "bad_cast = throwE (Undefined ''cast of the request'')"

definition heartbeat_callback :: "message \<Rightarrow> (Environment \<times> DeploymentHandler, message option) em" where
  "heartbeat_callback m =
     (case m of EnvironmentMessage req \<Rightarrow>
        bindE getE (\<lambda>(_, h). on_fst (bindE (HandleHeartbeat h req) (\<lambda>r. returnE (Some (EnvironmentMessage r)))))
      | _ \<Rightarrow> bad_cast)"

definition deregistration_callback :: "message \<Rightarrow> (Environment \<times> DeploymentHandler, message option) em" where
  "deregistration_callback m =
     (case m of NodeManagerDeregistrationRequest \<Rightarrow>
        bindE HandleNodeManagerDeregisteration (\<lambda>_. returnE (Some NodeManagerDeregistrationReply))
      | _ \<Rightarrow> bad_cast)"

definition experiment_info_callback :: "message \<Rightarrow> (Environment \<times> DeploymentHandler, message option) em" where
  "experiment_info_callback m =
     (case m of EnvironmentMessage _ \<Rightarrow>
        bindE getE (\<lambda>(_, h). on_fst (bindE (HandleGetExperimentInfo h) (\<lambda>r. returnE (Some (EnvironmentMessage r)))))
      | _ \<Rightarrow> bad_cast)"

abbreviation env_message_type :: string where
  "env_message_type \<equiv> ''NodeManager.EnvironmentMessage''"

definition DeploymentHandler_replier :: "string \<Rightarrow> exn + (Environment \<times> DeploymentHandler, message) replier" where
  "DeploymentHandler_replier bind_address =
     (case RegisterProtoCallback ''NodeManagerHeartbeat'' env_message_type env_message_type
             heartbeat_callback (ProtoReplier_Bind bind_address ProtoReplier_ctor) of
        Inl e \<Rightarrow> Inl e
      | Inr rp1 \<Rightarrow>
          (case RegisterProtoCallback ''NodeManagerDeregisteration''
                  ''NodeManager.NodeManagerDeregistrationRequest'' ''NodeManager.NodeManagerDeregistrationReply''
                  deregistration_callback rp1 of
             Inl e \<Rightarrow> Inl e
           | Inr rp2 \<Rightarrow> RegisterProtoCallback ''GetExperimentInfo'' env_message_type env_message_type
                          experiment_info_callback rp2))"

definition heartbeat_timeouts :: "nat list" where
  "heartbeat_timeouts = [2000, 4000, 8000]"

text \<open>\<open>HeartbeatLoop\<close> is \<open>noexcept\<close> and calls \<open>Start\<close> outside its \<open>try\<close>: a socket that
  cannot be bound ends the process.\<close>

definition HeartbeatLoop ::
  "(string \<Rightarrow> bool) \<Rightarrow> message parser \<Rightarrow> (message \<Rightarrow> string \<times> string) \<Rightarrow> poll_event list \<Rightarrow>
   Environment \<times> DeploymentHandler \<Rightarrow> (wire_reply list \<times> loop_state) \<times> (Environment \<times> DeploymentHandler)" where
  "HeartbeatLoop bind_ok parse ser events s =
     (case DeploymentHandler_replier (dh_bind_address (snd s)) of
        Inl e \<Rightarrow> (([], Threw e), s)
      | Inr rp \<Rightarrow>
          (case GetReplySocket bind_ok rp of
             Inl _ \<Rightarrow> (([], Threw (Undefined ''std::terminate'')), s)
           | Inr _ \<Rightarrow>
               (case ZmqReplier parse ser rp heartbeat_timeouts 0 events s of
                  ((rs, Threw (TimeoutException t)), s') \<Rightarrow>
                    (case catchE is_std_exception RemoveDeployment (\<lambda>_. returnE ()) s' of
                       (Inr _, s'') \<Rightarrow> ((rs, Returned), s'')
                     | (Inl e, s'') \<Rightarrow> ((rs, Threw e), s''))
                | r \<Rightarrow> r)))"

section \<open>The register\<close>

record DeploymentRegister =
  reg_environment_manager_ip_address :: string
  reg_environment :: Environment
  reg_handlers :: "DeploymentHandler list"

definition on_env :: "(Environment, 'a) em \<Rightarrow> (DeploymentRegister, 'a) em" where
  "on_env m reg = (case m (reg_environment reg) of (r, env) \<Rightarrow> (r, reg\<lparr>reg_environment := env\<rparr>))"

definition add_handler ::
  "DeploymentType \<Rightarrow> string \<Rightarrow> string \<Rightarrow> (DeploymentRegister, string) em" where
  "add_handler deployment_type ip_address experiment_name =
     bindE getE (\<lambda>reg.
     bindE (on_env (DeploymentHandler_ctor (reg_environment_manager_ip_address reg) deployment_type
       ip_address experiment_name)) (\<lambda>(handler, port).
     bindE (modifyE (\<lambda>reg. reg\<lparr>reg_handlers := reg_handlers reg @ [handler]\<rparr>)) (\<lambda>_.
     returnE (TCPify (reg_environment_manager_ip_address reg) port))))"

definition register_master ::
  "string \<Rightarrow> string \<Rightarrow> string \<Rightarrow> NodeManagerRegistrationReply_pb \<Rightarrow>
   (DeploymentRegister, NodeManagerRegistrationReply_pb) em" where
  "register_master experiment_name ip_address container_id reply =
     bindE (on_env (Environment_IsExperimentConfigured experiment_name)) (\<lambda>configured.
     if \<not> configured
     then throwE (RuntimeError (''Experiment: '' @ quoted experiment_name @ '' isn't in configured state.''))
     else
       bindE (add_handler EXECUTION_MASTER ip_address experiment_name) (\<lambda>endpoint.
       bindE (on_env (the_container experiment_name ip_address container_id)) (\<lambda>container.
       bindE (liftE (Container_GetExperimentLogger container)) (\<lambda>_.
       bindE (on_env (Logger_GetPublisherEndpoint experiment_name ip_address container_id EXPERIMENT_LOGGER_ID)) (\<lambda>logger_endpoint.
       returnE (reply\<lparr>nmr_heartbeat_endpoint := endpoint, nmr_types := nmr_types reply @ [MASTER],
         nmr_experiment_logger_endpoint := logger_endpoint\<rparr>))))))"

definition HandleNodeManagerRegistration ::
  "RequestId_pb \<Rightarrow> string \<Rightarrow> (DeploymentRegister, NodeManagerRegistrationReply_pb) em" where
  "HandleNodeManagerRegistration request_id container_id =
     (let experiment_name = rid_experiment_name request_id; ip_address = rid_ip_address request_id in
      bindE getE (\<lambda>reg.
      if \<not> Environment_GotExperiment experiment_name (reg_environment reg)
      then throwE (RuntimeError (''Haven't got experiment with name: '' @ experiment_name))
      else
        bindE (on_env (Environment_GetExperiment experiment_name)) (\<lambda>experiment.
        bindE (liftE (Experiment_GetNode experiment ip_address)) (\<lambda>node.
        bindE (liftE (Node_GetContainer node container_id)) (\<lambda>container.
        if Container_GetDeployedCount container > 0 then
          bindE (if Container_IsNodeManagerMaster container
                 then register_master experiment_name ip_address container_id NodeManagerRegistrationReply_default
                 else returnE NodeManagerRegistrationReply_default) (\<lambda>reply.
          bindE (on_env (Experiment_GetMasterPublisherAddress experiment_name)) (\<lambda>publisher.
          bindE (on_env (Experiment_GetMasterRegistrationAddress experiment_name)) (\<lambda>registration.
          returnE (reply\<lparr>nmr_types := nmr_types reply @ [SLAVE],
            nmr_master_publisher_endpoint := publisher,
            nmr_master_registration_endpoint := registration\<rparr>))))
        else returnE NodeManagerRegistrationReply_default)))))"

text \<open>\<open>AddAllocated\<close> of a null pointer has no meaning.\<close>

definition HandleLoganRegistration :: "RequestId_pb \<Rightarrow> (DeploymentRegister, string \<times> Logger_pb list) em" where
  "HandleLoganRegistration request_id =
     (let experiment_name = rid_experiment_name request_id; ip_address = rid_ip_address request_id in
      bindE getE (\<lambda>reg.
      if \<not> Environment_GotExperiment experiment_name (reg_environment reg)
      then throwE (RuntimeError (''No experiment with name: '' @ quoted experiment_name))
      else
        bindE (on_env (Environment_GetExperiment experiment_name)) (\<lambda>_.
        bindE (on_env (Experiment_GetAllocatedLoganServers experiment_name ip_address)) (\<lambda>logging_servers.
        bindE (if logging_servers \<noteq> [] then add_handler LOGAN_SERVER ip_address experiment_name
               else returnE '''') (\<lambda>endpoint.
        if None \<in> set logging_servers then throwE (Undefined ''AddAllocated(nullptr)'')
        else returnE (endpoint, somes logging_servers))))))"

definition HandleShutdownExperiment ::
  "(string \<Rightarrow> (string \<Rightarrow> bool) option) \<Rightarrow> string \<Rightarrow> bool \<Rightarrow> (DeploymentRegister, string list) em" where
  "HandleShutdownExperiment re experiment_name is_regex =
     (if is_regex then on_env (Environment_ShutdownExperimentRegex re experiment_name)
      else bindE (on_env (Environment_ShutdownExperiment experiment_name)) (\<lambda>_. returnE [experiment_name]))"

definition HandleListExperiments :: "(DeploymentRegister, string list) em" where
  "HandleListExperiments = bindE getE (\<lambda>reg. returnE (Environment_GetExperimentNames (reg_environment reg)))"

text \<open>The experiment is populated under the name in the description, the reply is looked up
  under the name in the request id.\<close>

definition HandleRegisterExperiment ::
  "RequestId_pb \<Rightarrow> Experiment_pb \<Rightarrow> (DeploymentRegister, NodeDeployment_pb list) em" where
  "HandleRegisterExperiment request_id experiment =
     on_env (bindE (Environment_PopulateExperiment experiment) (\<lambda>_.
       Environment_GetExperimentDeploymentInfo (rid_experiment_name request_id)))"

definition HandleAggregationServerRegistration :: "(DeploymentRegister, string) em" where
  "HandleAggregationServerRegistration =
     bindE getE (\<lambda>reg. returnE (TCPify (reg_environment_manager_ip_address reg)
       (Environment_GetUpdatePublisherPort (reg_environment reg))))"

definition HandleMEDEAInterfaceRequest :: "(DeploymentRegister, string list \<times> ExternalPort_pb list) em" where
  "HandleMEDEAInterfaceRequest =
     bindE getE (\<lambda>reg. returnE (Environment_GetExperimentNames (reg_environment reg),
       Environment_GetExternalPorts (reg_environment reg)))"

definition HandleInspectExperiment :: "string \<Rightarrow> (DeploymentRegister, EnvironmentMessage_pb) em" where
  "HandleInspectExperiment experiment_name = on_env (Environment_GetProto experiment_name True)"

definition GetQpidBrokerEndpoint :: "(DeploymentRegister, string) em" where
  "GetQpidBrokerEndpoint =
     bindE getE (\<lambda>reg. liftE (Environment_GetAmqpBrokerAddress (reg_environment reg)))"

definition GetTaoCosnamingEndpoint :: "(DeploymentRegister, string) em" where
  "GetTaoCosnamingEndpoint =
     bindE getE (\<lambda>reg. liftE (Environment_GetTaoNamingServiceAddress (reg_environment reg)))"

definition DeploymentRegister_Terminate :: "DeploymentRegister \<Rightarrow> DeploymentRegister" where
  "DeploymentRegister_Terminate reg = reg\<lparr>reg_handlers := []\<rparr>"

text \<open>One round of \<open>CleanupTask\<close> that is not told to terminate.\<close>

definition CleanupTask :: "DeploymentRegister \<Rightarrow> DeploymentRegister" where
  "CleanupTask reg = reg\<lparr>reg_handlers := filter (\<lambda>h. \<not> IsRemovable h) (reg_handlers reg)\<rparr>"

section \<open>Construction\<close>

text \<open>The ten services the constructor registers, in its order: name, request and reply type, and
  the callback with the unchecked cast of its argument. The replier tests the handler's result
  for a null pointer, which none of them returns.\<close>

definition reply_with :: "('a \<Rightarrow> message) \<Rightarrow> (DeploymentRegister, 'a) em \<Rightarrow> (DeploymentRegister, message option) em" where
  "reply_with f m = bindE m (\<lambda>a. returnE (Some (f a)))"

definition register_services ::
  "(string \<Rightarrow> (string \<Rightarrow> bool) option) \<Rightarrow>
   (string \<times> string \<times> string \<times> (message \<Rightarrow> (DeploymentRegister, message option) em)) list" where
  "register_services re =
     [(''NodeManagerRegistration'', ''NodeManager.NodeManagerRegistrationRequest'',
         ''NodeManager.NodeManagerRegistrationReply'',
         \<lambda>m. case m of NodeManagerRegistrationRequest i c \<Rightarrow>
               reply_with NodeManagerRegistrationReply (HandleNodeManagerRegistration i c)
             | _ \<Rightarrow> bad_cast),
      (''LoganRegistration'', ''NodeManager.LoganRegistrationRequest'', ''NodeManager.LoganRegistrationReply'',
         \<lambda>m. case m of LoganRegistrationRequest i \<Rightarrow>
               reply_with (\<lambda>(e, ls). LoganRegistrationReply e ls) (HandleLoganRegistration i)
             | _ \<Rightarrow> bad_cast),
      (''RegisterExperiment'', ''NodeManager.RegisterExperimentRequest'', ''NodeManager.RegisterExperimentReply'',
         \<lambda>m. case m of RegisterExperimentRequest i x \<Rightarrow>
               reply_with RegisterExperimentReply (HandleRegisterExperiment i x)
             | _ \<Rightarrow> bad_cast),
      (''ShutdownExperiment'', ''EnvironmentControl.ShutdownExperimentRequest'',
         ''EnvironmentControl.ShutdownExperimentReply'',
         \<lambda>m. case m of ShutdownExperimentRequest n r \<Rightarrow>
               reply_with ShutdownExperimentReply (HandleShutdownExperiment re n r)
             | _ \<Rightarrow> bad_cast),
      (''ListExperiments'', ''EnvironmentControl.ListExperimentsRequest'',
         ''EnvironmentControl.ListExperimentsReply'',
         \<lambda>m. case m of ListExperimentsRequest \<Rightarrow> reply_with ListExperimentsReply HandleListExperiments
             | _ \<Rightarrow> bad_cast),
      (''InspectExperiment'', ''NodeManager.InspectExperimentRequest'', ''NodeManager.InspectExperimentReply'',
         \<lambda>m. case m of InspectExperimentRequest n \<Rightarrow>
               reply_with InspectExperimentReply (HandleInspectExperiment n)
             | _ \<Rightarrow> bad_cast),
      (''AggregationServerRegistration'', ''NodeManager.AggregationServerRegistrationRequest'',
         ''NodeManager.AggregationServerRegistrationReply'',
         \<lambda>m. case m of AggregationServerRegistrationRequest _ \<Rightarrow>
               reply_with AggregationServerRegistrationReply HandleAggregationServerRegistration
             | _ \<Rightarrow> bad_cast),
      (''MEDEAInterfaceRequest'', ''NodeManager.MEDEAInterfaceRequest'', ''NodeManager.MEDEAInterfaceReply'',
         \<lambda>m. case m of MEDEAInterfaceRequest \<Rightarrow>
               reply_with (\<lambda>(ns, ps). MEDEAInterfaceReply ns ps) HandleMEDEAInterfaceRequest
             | _ \<Rightarrow> bad_cast),
      (''GetQpidBrokerEndpoint'', ''EnvironmentControl.GetQpidBrokerEndpointRequest'',
         ''EnvironmentControl.GetQpidBrokerEndpointReply'',
         \<lambda>m. case m of GetQpidBrokerEndpointRequest \<Rightarrow>
               reply_with GetQpidBrokerEndpointReply GetQpidBrokerEndpoint
             | _ \<Rightarrow> bad_cast),
      (''GetTaoCosnamingEndpoint'', ''EnvironmentControl.GetTaoCosnamingEndpointRequest'',
         ''EnvironmentControl.GetTaoCosnamingEndpointReply'',
         \<lambda>m. case m of GetTaoCosnamingEndpointRequest \<Rightarrow>
               reply_with GetTaoCosnamingEndpointReply GetTaoCosnamingEndpoint
             | _ \<Rightarrow> bad_cast)]"

fun register_all ::
  "(string \<times> string \<times> string \<times> ('m \<Rightarrow> ('s, 'm option) em)) list \<Rightarrow> ('s, 'm) replier \<Rightarrow> exn + ('s, 'm) replier" where
  "register_all [] rp = Inr rp"
| "register_all ((name, request_type, reply_type, f) # cs) rp =
     (case RegisterProtoCallback name request_type reply_type f rp of
        Inl e \<Rightarrow> Inl e | Inr rp' \<Rightarrow> register_all cs rp')"

definition DeploymentRegister_ctor ::
  "(string \<Rightarrow> (string \<Rightarrow> bool) option) \<Rightarrow> (string \<Rightarrow> bool) \<Rightarrow> string \<Rightarrow> string \<Rightarrow> string \<Rightarrow> string \<Rightarrow> int \<Rightarrow> int \<Rightarrow>
   (string \<Rightarrow> bool) \<Rightarrow> int \<Rightarrow> exn + DeploymentRegister \<times> (DeploymentRegister, message) replier" where
  "DeploymentRegister_ctor re bind_ok environment_manager_ip_address registration_port qpid_broker_address
      tao_naming_server_address port_range_min port_range_max indet now =
     (if \<not> port_range_min < port_range_max then Inl (Undefined ''assert'')
      else case Environment_ctor environment_manager_ip_address qpid_broker_address
                  tao_naming_server_address port_range_min port_range_max indet now of
             Inl e \<Rightarrow> Inl e
           | Inr env \<Rightarrow>
               (case register_all (register_services re)
                       (ProtoReplier_Bind (TCPify environment_manager_ip_address registration_port)
                          ProtoReplier_ctor) of
                  Inl e \<Rightarrow> Inl e
                | Inr rp \<Rightarrow>
                    (case GetReplySocket bind_ok rp of
                       Inl e \<Rightarrow> Inl e
                     | Inr _ \<Rightarrow> Inr (\<lparr>reg_environment_manager_ip_address = environment_manager_ip_address,
                                     reg_environment = env, reg_handlers = []\<rparr>, rp))))"

text \<open>\<^verbatim>\<open>environmentmanager.cpp\<close> after the command line is read: the exit code, or the register
  that serves until the process is interrupted.\<close>

definition default_registration_port :: string where
  "default_registration_port = ''20000''"

definition environment_manager_main ::
  "(string \<Rightarrow> (string \<Rightarrow> bool) option) \<Rightarrow> (string \<Rightarrow> bool) \<Rightarrow> string \<Rightarrow> string \<Rightarrow> string \<Rightarrow> string \<Rightarrow>
   (string \<Rightarrow> bool) \<Rightarrow> int \<Rightarrow> int + (exn + DeploymentRegister \<times> (DeploymentRegister, message) replier)" where
  "environment_manager_main re bind_ok ip_address registration_port qpid_address tao_naming_service_address indet now =
     (if ip_address = '''' then Inl 1
      else Inr (DeploymentRegister_ctor re bind_ok ip_address
        (if registration_port = '''' then default_registration_port else registration_port)
        qpid_address tao_naming_service_address 30000 40000 indet now))"

section \<open>The system\<close>

definition on_handler ::
  "nat \<Rightarrow> (Environment \<times> DeploymentHandler, 'a) em \<Rightarrow> (DeploymentRegister, 'a) em" where
  "on_handler i m reg =
     (case m (reg_environment reg, reg_handlers reg ! i) of (r, (env, h)) \<Rightarrow>
        (r, reg\<lparr>reg_environment := env, reg_handlers := (reg_handlers reg)[i := h]\<rparr>))"

text \<open>A step of the environment manager that C++ gives a meaning to. A callback that throws has
  still changed the state.\<close>

definition defined_result :: "exn + 'a \<Rightarrow> bool" where
  "defined_result r = (case r of Inl e \<Rightarrow> is_std_exception e | Inr _ \<Rightarrow> True)"

lemma defined_result_simps [simp]:
  "defined_result (Inr a)" "defined_result (Inl e) = is_std_exception e"
  by (simp_all add: defined_result_def)

inductive sys_step ::
  "(string \<Rightarrow> (string \<Rightarrow> bool) option) \<Rightarrow> DeploymentRegister \<Rightarrow> DeploymentRegister \<Rightarrow> bool" for re where
  serve: "(name, request_type, reply_type, callback) \<in> set (register_services re) \<Longrightarrow>
    callback m reg = (r, reg') \<Longrightarrow> defined_result r \<Longrightarrow> sys_step re reg reg'"
| heartbeat: "i < length (reg_handlers reg) \<Longrightarrow>
    on_handler i (heartbeat_callback m) reg = (r, reg') \<Longrightarrow> defined_result r \<Longrightarrow> sys_step re reg reg'"
| deregister: "i < length (reg_handlers reg) \<Longrightarrow>
    on_handler i (deregistration_callback m) reg = (r, reg') \<Longrightarrow> defined_result r \<Longrightarrow> sys_step re reg reg'"
| experiment_info: "i < length (reg_handlers reg) \<Longrightarrow>
    on_handler i (experiment_info_callback m) reg = (r, reg') \<Longrightarrow> defined_result r \<Longrightarrow> sys_step re reg reg'"
| timed_out: "i < length (reg_handlers reg) \<Longrightarrow>
    on_handler i (catchE is_std_exception RemoveDeployment (\<lambda>_. returnE ())) reg = (r, reg') \<Longrightarrow>
    defined_result r \<Longrightarrow> sys_step re reg reg'"
| cleanup: "sys_step re reg (CleanupTask reg)"
| tick: "now \<ge> env_clock (reg_environment reg) \<Longrightarrow>
    sys_step re reg (reg\<lparr>reg_environment := (reg_environment reg)\<lparr>env_clock := now\<rparr>\<rparr>)"

inductive sys_reachable ::
  "(string \<Rightarrow> (string \<Rightarrow> bool) option) \<Rightarrow> DeploymentRegister \<Rightarrow> DeploymentRegister \<Rightarrow> bool" for re reg0 where
  init: "sys_reachable re reg0 reg0"
| step: "sys_reachable re reg0 reg \<Longrightarrow> sys_step re reg reg' \<Longrightarrow> sys_reachable re reg0 reg'"

end
