(* ===== verification/EMSystem.thy ===== *)
theory EMSystem
  imports EMAlloc EMDeployment
begin

text \<open>
  Reasoning about the whole environment manager. The services above the environment use it in two
  ways. Most of its operations only look something up or hand something out: the locale \<open>env_frame\<close>
  holds the properties such operations keep, when they return and when they throw. Four of them change the life of
  experiments: populating, removing, shutting down, activating. The locale \<open>env_step\<close> states what
  one of them makes of a property \<open>P\<close>, and shows once what then every callback of the register
  and of the handlers, every timeout and clean-up makes of it: each of them runs at most one of the
  four, and removes or activates only an experiment that has a handler. An invariant is the special
  case \<open>env_invariant\<close>: every state the system can reach has it.
\<close>

locale env_frame =
  fixes I :: "Environment \<Rightarrow> bool"
  assumes update_message: "triple I (Environment_GetProto x full) (\<lambda>_. I) I"
    and manager_port: "triple I Environment_GetManagerPort (\<lambda>_. I) I"
    and publisher_address: "triple I (Experiment_GetMasterPublisherAddress x) (\<lambda>_. I) I"
    and registration_address: "triple I (Experiment_GetMasterRegistrationAddress x) (\<lambda>_. I) I"
    and logger_endpoint: "triple I (Logger_GetPublisherEndpoint x n c l) (\<lambda>_. I) I"
    and logan_servers: "triple I (Experiment_GetAllocatedLoganServers x ip) (\<lambda>_. I) I"
    and clock: "I env \<Longrightarrow> I (env\<lparr>env_clock := now\<rparr>)"
begin

abbreviation keepsI :: "(Environment, 'a) em \<Rightarrow> bool" where
  "keepsI m \<equiv> triple I m (\<lambda>_. I) I"

lemma keepsI_pure:
  "keepsI (returnE a)" "keepsI (throwE e)" "keepsI (liftE r)"
  by (rule triple_return triple_throw triple_lift; assumption)+

lemma keepsI_reader: "(\<And>J. preserves J m) \<Longrightarrow> keepsI m"
  by (intro tripleI) (blast dest: preservesD)+

lemma keepsI_the:
  "keepsI (Environment_GetExperimentInternal x)" "keepsI (Environment_GetExperiment x)"
  "keepsI (the_container x n c)"
  unfolding Environment_GetExperiment_def by (intro keepsI_reader pres neut)+

lemma keepsI_catch: "keepsI m \<Longrightarrow> (\<And>e. keepsI (h e)) \<Longrightarrow> keepsI (catchE is_std_exception m h)"
  by (rule triple_catch_std)

lemmas keepsI_rules = triple_bind [where P = I and R = "\<lambda>_. I"] triple_get' keepsI_pure triple_if keepsI_the keepsI_catch

lemma keepsI_environment:
  "keepsI (Environment_GetDeploymentHandlerPort x t)" "keepsI (Environment_ask P x)"
  "keepsI (Environment_GetExperimentDeploymentInfo x)" "keepsI (Environment_ExperimentIsDirty x)"
proof -
  show "keepsI (Environment_GetDeploymentHandlerPort x t)"
    unfolding Environment_GetDeploymentHandlerPort_def Environment_GetExperimentHandlerPort_def
    by (cases t) (auto intro!: keepsI_rules manager_port)
  show "keepsI (Environment_ask P x)"
    unfolding Environment_ask_def by (intro keepsI_rules)
  show "keepsI (Environment_GetExperimentDeploymentInfo x)"
    unfolding Environment_GetExperimentDeploymentInfo_def by (intro keepsI_rules)
  show "keepsI (Environment_ExperimentIsDirty x)"
    unfolding Environment_ExperimentIsDirty_def by (intro keepsI_rules)
qed

section \<open>The register\<close>

abbreviation keeps_reg :: "(DeploymentRegister, 'a) em \<Rightarrow> bool" where
  "keeps_reg m \<equiv> triple (\<lambda>reg. I (reg_environment reg)) m (\<lambda>_ reg. I (reg_environment reg)) (\<lambda>reg. I (reg_environment reg))"

lemma on_env_keeps: "keepsI m \<Longrightarrow> keeps_reg (on_env m)"
  by (auto simp: triple_def on_env_def split: prod.splits sum.splits)

lemma reg_bind: "keeps_reg m \<Longrightarrow> (\<And>a. keeps_reg (f a)) \<Longrightarrow> keeps_reg (bindE m f)"
  by (rule triple_bind)

lemma reg_get: "(\<And>t. keeps_reg (f t)) \<Longrightarrow> keeps_reg (bindE getE f)"
  by (rule triple_get')

lemma reg_pure: "keeps_reg (returnE a)" "keeps_reg (throwE e)" "keeps_reg (liftE r)"
  by (rule triple_return triple_throw triple_lift; assumption)+

lemma reg_split: "(\<And>a b. keeps_reg (f a b)) \<Longrightarrow> keeps_reg (case p of (a, b) \<Rightarrow> f a b)"
  by (cases p) simp

lemmas reg_rules = reg_bind reg_get reg_pure triple_if reg_split on_env_keeps

lemma add_handler_keeps: "keeps_reg (add_handler t ip x)"
  unfolding add_handler_def DeploymentHandler_ctor_def
  by (intro reg_rules keepsI_rules keepsI_environment) (auto intro: triple_modify)

lemma registration_keeps: "keeps_reg (HandleNodeManagerRegistration i c)"
proof -
  have m: "keeps_reg (register_master x n c r)" for x n r
    unfolding register_master_def Environment_IsExperimentConfigured_def
    by (intro reg_rules keepsI_environment add_handler_keeps keepsI_the logger_endpoint)
  show ?thesis unfolding HandleNodeManagerRegistration_def Let_def
    by (intro reg_rules keepsI_the m publisher_address registration_address)
qed

lemma logan_keeps: "keeps_reg (HandleLoganRegistration i)"
  unfolding HandleLoganRegistration_def Let_def
  by (intro reg_rules keepsI_the logan_servers add_handler_keeps)

lemma other_services_keep:
  "keeps_reg (HandleInspectExperiment n)" "keeps_reg HandleListExperiments"
  "keeps_reg HandleAggregationServerRegistration" "keeps_reg HandleMEDEAInterfaceRequest"
  "keeps_reg GetQpidBrokerEndpoint" "keeps_reg GetTaoCosnamingEndpoint"
  unfolding HandleInspectExperiment_def HandleListExperiments_def HandleAggregationServerRegistration_def
    HandleMEDEAInterfaceRequest_def GetQpidBrokerEndpoint_def GetTaoCosnamingEndpoint_def
  by (intro reg_rules keepsI_environment update_message)+

lemma reply_keeps: "keeps_reg m \<Longrightarrow> keeps_reg (reply_with f m)"
  unfolding reply_with_def by (intro reg_bind reg_pure)

section \<open>Handlers\<close>

abbreviation keeps_hd :: "(Environment \<times> DeploymentHandler, 'a) em \<Rightarrow> bool" where
  "keeps_hd m \<equiv> triple (\<lambda>s. I (fst s)) m (\<lambda>_ s. I (fst s)) (\<lambda>s. I (fst s))"

lemma on_fst_keeps: "keepsI m \<Longrightarrow> keeps_hd (on_fst m)"
  by (auto simp: triple_def on_fst_def split: prod.splits sum.splits)

lemma HandleHeartbeat_keeps: "keepsI (HandleHeartbeat h req)"
  unfolding HandleHeartbeat_def
  by (cases "dh_deployment_type h")
     (simp_all, (intro conjI impI keepsI_rules keepsI_environment update_message)+)

lemma heartbeat_callback_keeps: "keeps_hd (heartbeat_callback m)"
proof -
  have hb: "keeps_hd (bindE getE (\<lambda>(_, h). on_fst (bindE (HandleHeartbeat h req) (\<lambda>r. returnE (g r)))))"
    for req and g :: "EnvironmentMessage_pb \<Rightarrow> message option"
    by (rule triple_get', clarsimp, intro on_fst_keeps keepsI_rules HandleHeartbeat_keeps)
  have bad: "keeps_hd bad_cast" unfolding bad_cast_def by (rule triple_undefined)
  show ?thesis unfolding heartbeat_callback_def by (cases m; simp only: message.case) (rule hb bad)+
qed

end

section \<open>Steps\<close>

locale env_step = before: env_frame P + after: env_frame Q for P Q +
  fixes re :: "string \<Rightarrow> (string \<Rightarrow> bool) option" and served :: "DeploymentType \<Rightarrow> string \<Rightarrow> bool"
  assumes idle: "P env \<Longrightarrow> Q env"
    and populate: "triple P (Environment_PopulateExperiment message) (\<lambda>_. Q) Q"
    and shutdown: "triple P (Environment_ShutdownExperiment x) (\<lambda>_. Q) Q"
    and shutdown_regex: "triple P (Environment_ShutdownExperimentRegex re r) (\<lambda>_. Q) Q"
    and remove_experiment: "served EXECUTION_MASTER x \<Longrightarrow> triple P (Environment_RemoveExperiment x) (\<lambda>_. Q) Q"
    and activate: "served t x \<Longrightarrow> triple P (activate_experiment x) (\<lambda>_. Q) Q"
begin

abbreviation step_reg :: "(DeploymentRegister, 'a) em \<Rightarrow> bool" where
  "step_reg m \<equiv> triple (\<lambda>reg. P (reg_environment reg)) m (\<lambda>_ reg. Q (reg_environment reg)) (\<lambda>reg. Q (reg_environment reg))"

abbreviation step_hd :: "(Environment \<times> DeploymentHandler, 'a) em \<Rightarrow> bool" where
  "step_hd m \<equiv> triple (\<lambda>s. P (fst s) \<and> served (dh_deployment_type (snd s)) (dh_experiment_id (snd s))) m
     (\<lambda>_ s. Q (fst s)) (\<lambda>s. Q (fst s))"

lemma quiet_step: "triple P m (\<lambda>_. P) P \<Longrightarrow> triple P m (\<lambda>_. Q) Q"
  by (erule triple_conseq) (rule idle | assumption)+

lemma step_on_env: "triple P m (\<lambda>_. Q) Q \<Longrightarrow> step_reg (on_env m)"
  by (auto simp: triple_def on_env_def split: prod.splits sum.splits)

lemma step_quiet_reg: "before.keeps_reg m \<Longrightarrow> step_reg m"
  by (erule triple_conseq) (auto intro: idle)

lemma step_services:
  "step_reg (HandleShutdownExperiment re n r)" "step_reg (HandleRegisterExperiment i x)"
proof -
  show "step_reg (HandleShutdownExperiment re n r)" unfolding HandleShutdownExperiment_def
    by (intro triple_if triple_bind [where R = "\<lambda>_ reg. Q (reg_environment reg)"] step_on_env shutdown shutdown_regex
        triple_return)
  show "step_reg (HandleRegisterExperiment i x)" unfolding HandleRegisterExperiment_def
    by (intro step_on_env triple_bind [OF populate] after.keepsI_environment)
qed

lemma step_reply: "step_reg m \<Longrightarrow> step_reg (reply_with f m)"
  unfolding reply_with_def by (erule triple_bind) (rule triple_return)

lemma step_bad_cast: "step_reg bad_cast"
  unfolding bad_cast_def by (rule triple_undefined)

lemma register_services_step: "list_all (\<lambda>(_, _, _, f). step_reg (f m)) (register_services re)"
  unfolding register_services_def list.pred_inject prod.case list.pred_inject(1) [THEN eqTrueI]
  by (cases m; simp only: message.case;
      intro conjI TrueI step_reply step_bad_cast step_services
        step_quiet_reg [OF before.registration_keeps] step_quiet_reg [OF before.logan_keeps]
        before.other_services_keep [THEN step_quiet_reg])

lemma step_on_fst:
  assumes "served (dh_deployment_type h) (dh_experiment_id h) \<Longrightarrow> triple P m (\<lambda>_. Q) Q"
  shows "triple (\<lambda>s. P (fst s) \<and> served (dh_deployment_type (snd s)) (dh_experiment_id (snd s)) \<and> s = (env, h))
    (on_fst m) (\<lambda>_ s. Q (fst s)) (\<lambda>s. Q (fst s))"
  by (rule tripleI) (auto simp: on_fst_def split: prod.splits dest: triple_InrD [OF assms] triple_InlD [OF assms])

lemma RemoveDeployment_step: "step_hd RemoveDeployment"
  unfolding RemoveDeployment_def
  by (intro triple_get, clarsimp)
     (intro triple_when triple_bind [where R = "\<lambda>_ s. Q (fst s)"] triple_modify step_on_fst remove_experiment;
       auto intro: idle)

lemma HandleGetExperimentInfo_step:
  assumes "served t (dh_experiment_id h)" shows "triple P (HandleGetExperimentInfo h) (\<lambda>_. Q) Q"
proof -
  have *: "triple P m (\<lambda>_. P) Q" if "triple P m (\<lambda>_. P) P" for m :: "(Environment, 'a) em"
    using that by (rule triple_conseq) (auto intro: idle)
  have t: "triple P (throwE e) (\<lambda>_. Q) Q" for e :: exn by (rule triple_throw) (rule idle)
  show ?thesis unfolding HandleGetExperimentInfo_def Let_def
    by (intro triple_if triple_bind [OF * [OF before.keepsI_the(2)]] triple_bind [OF * [OF before.update_message]]
        triple_bind [OF activate [OF assms]] triple_return t)
qed

lemma callbacks_step:
  "step_hd (heartbeat_callback m)" "step_hd (deregistration_callback m)" "step_hd (experiment_info_callback m)"
proof -
  have bad: "step_hd bad_cast" unfolding bad_cast_def by (rule triple_undefined)
  have info: "step_hd (bindE getE (\<lambda>(_, h). on_fst (bindE (HandleGetExperimentInfo h) (\<lambda>r. returnE (g r)))))"
    for g :: "EnvironmentMessage_pb \<Rightarrow> message option"
  proof (rule triple_get, clarsimp)
    fix env h
    show "triple (\<lambda>s. P (fst s) \<and> served (dh_deployment_type (snd s)) (dh_experiment_id (snd s)) \<and> s = (env, h))
        (on_fst (bindE (HandleGetExperimentInfo h) (\<lambda>r. returnE (g r)))) (\<lambda>_ s. Q (fst s)) (\<lambda>s. Q (fst s))"
      by (rule step_on_fst, rule triple_bind [OF HandleGetExperimentInfo_step]) (assumption, rule triple_return)
  qed
  have dereg: "step_hd (bindE HandleNodeManagerDeregisteration (\<lambda>_. returnE r))" for r :: "message option"
    unfolding HandleNodeManagerDeregisteration_def
    by (rule triple_bind [OF RemoveDeployment_step]) (rule triple_return)
  show "step_hd (heartbeat_callback m)"
    by (rule triple_conseq [OF before.heartbeat_callback_keeps]) (auto intro: idle)
  show "step_hd (deregistration_callback m)" unfolding deregistration_callback_def
    by (cases m; simp only: message.case) (rule dereg bad)+
  show "step_hd (experiment_info_callback m)" unfolding experiment_info_callback_def
    by (cases m; simp only: message.case) (rule info bad)+
qed

lemma on_handler_step:
  assumes m: "step_hd m" and i: "i < length (reg_handlers reg)"
    and s: "\<forall>h \<in> set (reg_handlers reg). served (dh_deployment_type h) (dh_experiment_id h)"
    and p: "P (reg_environment reg)" and run: "on_handler i m reg = (r, reg')" and r: "defined_result r"
  shows "Q (reg_environment reg')"
proof -
  let ?h = "reg_handlers reg ! i"
  have pre: "P (fst (reg_environment reg, ?h)) \<and>
      served (dh_deployment_type (snd (reg_environment reg, ?h))) (dh_experiment_id (snd (reg_environment reg, ?h)))"
    using s i p by simp
  obtain env h where e: "m (reg_environment reg, ?h) = (r, (env, h))" "reg_environment reg' = env"
    using run by (auto simp: on_handler_def split: prod.splits)
  show ?thesis using triple_InrD [OF m pre] triple_InlD [OF m pre] e r
    by (cases r) (auto simp: defined_result_def)
qed

lemma step:
  assumes "sys_step re reg reg'" and "P (reg_environment reg)"
    and "\<forall>h \<in> set (reg_handlers reg). served (dh_deployment_type h) (dh_experiment_id h)"
  shows "Q (reg_environment reg')"
  using assms
proof (induction rule: sys_step.induct)
  case (serve name request_type reply_type callback m reg r reg')
  have "step_reg (callback m)"
    using register_services_step [of m] serve.hyps(1) by (auto simp: list_all_iff)
  then show ?case using serve by (cases r) (auto simp: defined_result_def dest: triple_InrD triple_InlD)
next
  case (heartbeat i reg m r reg')
  then show ?case by (blast intro: on_handler_step callbacks_step)
next
  case (deregister i reg m r reg')
  then show ?case by (blast intro: on_handler_step callbacks_step)
next
  case (experiment_info i reg m r reg')
  then show ?case by (blast intro: on_handler_step callbacks_step)
next
  case (timed_out i reg r reg')
  have "step_hd (catchE is_std_exception RemoveDeployment (\<lambda>_. returnE ()))"
    by (rule triple_catch_std [OF RemoveDeployment_step triple_return])
  then show ?case using timed_out by (blast intro: on_handler_step)
qed (simp_all add: CleanupTask_def idle after.clock)

end

section \<open>Invariants\<close>

locale env_invariant = env_frame I for I +
  assumes populate: "triple I (Environment_PopulateExperiment message) (\<lambda>_. I) I"
    and remove_experiment: "triple I (Environment_RemoveExperimentInternal x) (\<lambda>_. I) I"
    and shutdown_experiment: "triple I (Environment_ShutdownExperimentInternal x) (\<lambda>_. I) I"
    and activate: "triple I (activate_experiment x) (\<lambda>_. I) I"
begin

lemma shutdown_regex: "keepsI (Environment_ShutdownExperimentRegex re r)"
  unfolding Environment_ShutdownExperimentRegex_def Environment_GetMatchingExperiments_def
  by (intro keepsI_rules triple_for shutdown_experiment)
     (auto intro!: keepsI_rules split: option.split)

end

sublocale env_invariant \<subseteq> steps: env_step I I re "\<lambda>_ _. True" for re
  by unfold_locales
     (simp_all add: populate remove_experiment shutdown_experiment shutdown_regex activate
       Environment_RemoveExperiment_def Environment_ShutdownExperiment_def)

context env_invariant
begin

lemma reachable_keeps: "sys_reachable re reg0 reg \<Longrightarrow> I (reg_environment reg0) \<Longrightarrow> I (reg_environment reg)"
  by (induction rule: sys_reachable.induct) (auto dest: steps.step)

end

lemma DeploymentRegister_ctor_env:
  assumes "DeploymentRegister_ctor re bind_ok ip rport qpid tao lo hi indet now = Inr (reg, rp)"
  shows "Environment_ctor ip qpid tao lo hi indet now = Inr (reg_environment reg)" "reg_handlers reg = []"
  using assms by (auto simp: DeploymentRegister_ctor_def split: if_splits sum.splits)

end
