(* ===== verification/EMSafety.thy ===== *)
theory EMSafety
  imports EMAllocEnv EMSystem
begin

text \<open>
  The whole environment manager keeps the accounts of \<open>alloc_ok\<close>: from a freshly constructed
  register, no sequence of requests, heartbeats, timeouts and clean-ups makes two objects hold the
  same TCP port, or puts a held port back into a pool.
\<close>

lemma logan_servers_alloc: "keeps_um {} H (Experiment_GetAllocatedLoganServers x ip)"
proof -
  have n: "keeps_um {} H (Node_GetAllocatedLoganServers x n)" for n
    unfolding Node_GetAllocatedLoganServers_def
    by (intro um_bind [OF um_the(2)] um_bind um_return um_map)
       (auto intro!: um_map um_return um_bind um_lift Logger_GetProto_alloc)
  show ?thesis unfolding Experiment_GetAllocatedLoganServers_def by (intro um_rules um_the n)
qed

interpretation ports: env_invariant "alloc_um {} {#}"
proof unfold_locales
  fix x n c l
  show "keeps_um {} {#} (Logger_GetPublisherEndpoint x n c l)"
    unfolding Logger_GetPublisherEndpoint_def by (intro um_rules um_the GetPublisherPort_alloc)
  show "keeps_um {} {#} (activate_experiment x)"
    unfolding activate_experiment_def by (rule SetActive_alloc)
  show "keeps_um {} {#} Environment_GetManagerPort"
    by (auto intro: triple_post [OF GetManagerPort_um] alloc_um_mono)
  show "keeps_um {} {#} (Experiment_GetMasterPublisherAddress x)"
    "keeps_um {} {#} (Experiment_GetMasterRegistrationAddress x)"
    by (rule GetMasterPublisherAddress_alloc GetMasterRegistrationAddress_alloc; simp)+
next
  fix env :: Environment and now assume e: "alloc_um {} {#} env"
  have "core (env\<lparr>env_clock := now\<rparr>) = core env" by (simp add: core_def shape_def)
  from alloc_um_core [OF this, of "{}" "{#}"] show "alloc_um {} {#} (env\<lparr>env_clock := now\<rparr>)" using e by simp
qed (rule PopulateExperiment_alloc RemoveExperimentInternal_alloc ShutdownExperimentInternal_alloc
    Environment_GetProto_alloc logan_servers_alloc)+

lemma Environment_ctor_ok:
  assumes c: "Environment_ctor ip qpid tao lo hi indet now = Inr env" and lo: "int_range lo"
  shows "alloc_um {} {#} env"
proof -
  let ?q = "uq_push_all [lo..hi] uq_new" and ?mq = "uq_push_all [lo + 10000..hi + 10000 - 1] uq_new"
  have q: "uq_wf ?q" "uq_wf ?mq" "m_queue ?q = [lo..hi]" "m_queue ?mq = [lo + 10000..hi + 10000 - 1]"
    using uq_push_all_items [OF uq_wf_new, of "[lo..hi]"]
      uq_push_all_items [OF uq_wf_new, of "[lo + 10000..hi + 10000 - 1]"]
    by (simp_all add: uq_push_all_wf) (simp_all add: uq_new_def)
  let ?e = "\<lparr>env_ip_address = ip, env_qpid_broker_address = qpid,
            env_tao_naming_service_address = tao, env_port_range_min = lo, env_port_range_max = hi,
            env_manager_port_range_min = lo + 10000, env_manager_port_range_max = hi + 10000,
            env_experiment_map = [], env_node_map = [], env_node_ip_map = [], env_node_name_map = [],
            env_external_eventport_map = [], env_update_publisher_port = '''',
            env_available_ports = ?q, env_available_node_manager_ports = ?mq,
            env_published = [], env_clock = now, env_indet = indet\<rparr>"
  have hi: "hi + 10000 < 65535" using c by (auto simp: Environment_ctor_def Let_def split: if_splits)
  have rng: "list_all int_range [lo..hi]" "list_all int_range [lo + 10000..hi + 10000 - 1]"
    using lo hi by (auto simp: list_all_iff int_range_def int_min_def int_max_def)
  have "alloc_at [] {#} ?e"
    using q rng by (simp add: alloc_at_def alloc_ok_def pools_ok_def env_keys_def exclusive_def held_def
        manager_lease_def shape_def)
  moreover obtain p env' where p: "Environment_GetManagerPort ?e = (Inr p, env')" "env = env'\<lparr>env_update_publisher_port := p\<rparr>"
    using c by (auto simp: Environment_ctor_def Let_def split: if_splits prod.splits sum.splits)
  ultimately have K: "alloc_at [] ({#} + manager_lease p) env'"
    using triple_InrD [OF GetManagerPort_alloc _ p(1)] by blast
  have e': "env_update_publisher_port env' = ''''" "env_experiment_map env' = []"
    using p(1) by (auto simp: Environment_GetManagerPort_def Let_def split: if_splits sum.splits)
  have f: "is_free env r = is_free env' r" "from_pool env r = from_pool env' r" for r
    unfolding p(2) by (rule is_free_cong, simp, simp, rule from_pool_cong, simp)
  show ?thesis using K e' f
    by (auto simp: alloc_um_empty alloc_at_def alloc_ok_def exclusive_def held_def pools_ok_def env_keys_def p(2)
        manager_lease_def)
qed

end
