(* ===== verification/EMLifecycle.thy ===== *)
theory EMLifecycle
  imports EMAllocEnv EMSystem
begin

text \<open>
  The life of an experiment. \<open>lives env\<close> is what the environment manager promises about its
  experiments: their names, in the order of the map, each with its state and whether a shutdown was
  requested. Most of the code does not touch it: the locale \<open>tree_frame\<close> proves, once for any
  property that survives changes inside the tree, that every constructor, destructor, look-up
  and update message keeps it. The abstract machine \<open>life_step\<close> is the contract, and the last
  section shows that the whole system implements it.
\<close>

definition life :: "Experiment \<Rightarrow> ExperimentState \<times> bool" where
  "life ex = (ex_state ex, ex_shutdown ex)"

definition lives :: "Environment \<Rightarrow> (string \<times> ExperimentState \<times> bool) list" where
  "lives env = map (\<lambda>(x, ex). (x, life ex)) (env_experiment_map env)"

section \<open>What the tree operations leave alone\<close>

named_theorems frame \<open>computations that keep the property of a tree frame\<close>

locale tree_frame =
  fixes I :: "Environment \<Rightarrow> bool"
  assumes upd_tree: "(\<And>ex. life (f ex) = life ex) \<Longrightarrow> I env \<Longrightarrow> I (upd_experiment x f env)"
    and upd_trackers: "I env \<Longrightarrow> I (env\<lparr>env_node_map := m\<rparr>)"
    and upd_external: "I env \<Longrightarrow> I (env\<lparr>env_external_eventport_map := e\<rparr>)"
    and upd_manager_ports: "I env \<Longrightarrow> I (env\<lparr>env_available_node_manager_ports := q\<rparr>)"
    and upd_names: "I env \<Longrightarrow> I (env\<lparr>env_node_ip_map := a, env_node_name_map := b, env_node_map := m\<rparr>)"
begin

abbreviation J :: "Environment \<times> 't \<Rightarrow> bool" where
  "J \<equiv> (\<lambda>(env, _). I env)"

lemma upd_inner:
  "I env \<Longrightarrow> I (upd_node x n g env)" "I env \<Longrightarrow> I (upd_container x n c h env)"
  "I env \<Longrightarrow> I (upd_component x n c k i env)" "I env \<Longrightarrow> I (upd_logger x n c l j env)"
  "I env \<Longrightarrow> I (upd_port x n c k p z env)"
  unfolding upd_node_def upd_container_def upd_component_def upd_logger_def upd_port_def
  by (auto intro!: upd_tree simp: upd_node_in_def life_def)

lemma upd_dirty:
  "I env \<Longrightarrow> I (Experiment_SetDirty x env)" "I env \<Longrightarrow> I (Node_SetDirty x n env)"
  "I env \<Longrightarrow> I (Container_SetDirty x n c env)" "I env \<Longrightarrow> I (Component_SetDirty x n c k env)"
  unfolding SetDirty_defs by (auto intro!: upd_tree upd_inner simp: life_def)

lemma upd_ports:
  "I env \<Longrightarrow> I (Environment_FreePort ip p env)" "I env \<Longrightarrow> I (zmq_Port_dtor pt env)"
  "I env \<Longrightarrow> I (Logger_dtor ip lg env)"
proof -
  show *: "I env \<Longrightarrow> I (Environment_FreePort ip p env)" for ip p env
    by (simp add: Environment_FreePort_def upd_trackers)
  show "I env \<Longrightarrow> I (zmq_Port_dtor pt env)" "I env \<Longrightarrow> I (Logger_dtor ip lg env)"
    by (auto simp: zmq_Port_dtor_def Logger_dtor_def intro: * split: port_detail.split)
qed

lemma upd_logger_dtors: "I env \<Longrightarrow> I (foldl (\<lambda>env lg. Logger_dtor ip lg env) env lgs)"
  by (induction lgs arbitrary: env) (auto intro: upd_ports)

lemma frame_GetPort [frame]: "preserves I (Environment_GetPort ip)"
  by (auto simp: preserves_def Environment_GetPort_def upd_trackers split: option.splits prod.splits)

lemma frame_SetDirty [frame]: "preserves I (Port_SetDirty x r)"
  unfolding Port_SetDirty_def
  by (cases r) (auto intro!: pres preserves_modifyE upd_inner upd_dirty upd_tree simp: life_def)

lemma frame_UpdatePort [frame]: "preserves I (Experiment_UpdatePort x l)"
  unfolding Experiment_UpdatePort_def by (intro pres frame)

lemma frame_update_consumers [frame]: "preserves I (update_consumers l)"
  unfolding update_consumers_def by (intro pres frame neut)

lemma upd_external_tables:
  "I env \<Longrightarrow> I (ensure_external_port l env)" "I env \<Longrightarrow> I (upd_external_port l f env)"
  "I env \<Longrightarrow> I (upd_exp_external_port x i g env)"
  by (auto simp: ensure_external_port_def upd_external_port_def upd_exp_external_port_def life_def
      intro!: upd_external upd_tree)

lemma frame_environment_external [frame]:
  "preserves I (Environment_AddExternalConsumerPort x l)" "preserves I (Environment_AddExternalProducerPort x l)"
  "preserves I (Environment_RemoveExternalConsumerPort x l)" "preserves I (Environment_RemoveExternalProducerPort x l)"
  unfolding Environment_AddExternalConsumerPort_def Environment_AddExternalProducerPort_def
    Environment_RemoveExternalConsumerPort_def Environment_RemoveExternalProducerPort_def
  by (intro pres frame neut preserves_modifyE upd_external_tables; assumption)+

lemma frame_experiment_external [frame]:
  "preserves I (Experiment_AddExternalConsumerPort ex i p)" "preserves I (Experiment_AddExternalProducerPort ex i p)"
  "preserves I (Experiment_RemoveExternalConsumerPort ex i p)" "preserves I (Experiment_RemoveExternalProducerPort ex i p)"
  unfolding Experiment_AddExternalConsumerPort_def Experiment_AddExternalProducerPort_def
    Experiment_RemoveExternalConsumerPort_def Experiment_RemoveExternalProducerPort_def
  by (intro pres frame preserves_modifyE upd_external_tables; assumption)+

lemma frame_port_base [frame]:
  "preserves I (Port_register_external x pt i)" "preserves I (Port_base_ctor x port d)"
  "preserves I (Port_base_dtor ex pt)" "preserves I (Port_dtor ex pt)"
  unfolding Port_register_external_def Port_base_ctor_def Port_base_dtor_def Port_dtor_def Let_def
  by (intro pres frame preserves_modifyE upd_ports; assumption)+

lemma frame_with_base [frame]: "preserves J m \<Longrightarrow> preserves J (with_base x pt m)"
  unfolding with_base_def by (intro pres frame)

lemma frame_this [frame]: "preserves J (upd_this f)" "preserves J (modifyE (\<lambda>(env, t). (env, h t)))"
  unfolding upd_this_def by (auto simp: preserves_def)

lemma frame_AssignOrbPort [frame]: "preserves J (Container_AssignOrbPort ip)"
  unfolding Container_AssignOrbPort_def by (intro pres frame)

lemma frame_port_ctors [frame]:
  "preserves J (zmq_Port_ctor x ip port)" "preserves J (qpid_Port_ctor x port)"
  "preserves J (tao_Port_ctor x ip cn ci port)" "preserves J (dds_Port_ctor x port)"
  "preserves J (PeriodicPort_ctor x port)"
  unfolding zmq_Port_ctor_def qpid_Port_ctor_def tao_Port_ctor_def dds_Port_ctor_def PeriodicPort_ctor_def
  by (intro pres frame)+

lemma frame_ConstructPort [frame]: "preserves J (Port_ConstructPort site port)"
  unfolding Port_ConstructPort_def Let_def
  by (intro pres) (cases "ppb_middleware port"; simp; intro pres frame conjI impI)

lemma frame_add_ports [frame]: "preserves J (Component_add_ports site pbs ports)"
  by (induction pbs arbitrary: ports) (auto intro!: pres frame)

lemma frame_component [frame]:
  "preserves J (Component_ctor x ip component)" "preserves I (Component_dtor ex cp)"
  unfolding Component_ctor_def Component_dtor_def Let_def by (intro pres frame)+

lemma frame_container_ops [frame]:
  "preserves J (Container_AddComponent x ip cpb)" "preserves J (Container_add_logger lpb)"
  "preserves J (Container_fill x ip ctpb)" "preserves I (Container_members_dtor ex ip ct)"
  "preserves I (Container_dtor ex ip ct)"
proof -
  show a: "preserves J (Container_AddComponent x ip cpb)" for cpb
    unfolding Container_AddComponent_def by (intro pres frame)
  show b: "preserves J (Container_add_logger lpb)" for lpb
    unfolding Container_add_logger_def by (intro pres frame)
  show "preserves J (Container_fill x ip ctpb)"
    unfolding Container_fill_def by (intro pres frame a b)
  show c: "preserves I (Container_members_dtor ex ip ct)"
    unfolding Container_members_dtor_def by (intro pres frame preserves_modifyE upd_logger_dtors)
  show "preserves I (Container_dtor ex ip ct)"
    unfolding Container_dtor_def by (intro pres frame preserves_modifyE upd_ports c)
qed

lemma J_run: "preserves J m \<Longrightarrow> I env \<Longrightarrow> m (env, t) = (r, (env', t')) \<Longrightarrow> I env'"
  using preservesD [of J m "(env, t)" r "(env', t')"] by simp

lemma frame_Container_ctor [frame]: "preserves I (Container_ctor x ip ctpb)"
proof (rule preservesI)
  fix env assume i: "I env"
  obtain r env' ct where f: "Container_fill x ip ctpb (env, Container_init (env_indet env) ctpb) = (r, (env', ct))"
    by (metis prod.exhaust)
  have "I env'" by (rule J_run [OF frame_container_ops(3) i f])
  moreover have "preserves I (bindE (the_experiment x) (\<lambda>ex. bindE (Container_members_dtor ex ip ct)
      (\<lambda>_. throwE e :: (Environment, Container) em)))" for e by (intro pres frame)
  ultimately show "I (snd (Container_ctor x ip ctpb env))"
    using f unfolding preserves_def by (cases r) (simp_all add: Container_ctor_def)
qed

lemma frame_node [frame]:
  "preserves I (Node_dtor ex nd)" "preserves J (Node_AddContainer x ctpb)"
  unfolding Node_dtor_def Node_AddContainer_def Let_def by (intro pres frame)+

lemma frame_Node_ctor [frame]: "preserves I (Node_ctor x node)"
proof (rule preservesI)
  fix env assume i: "I env"
  have "preserves J (forE (npb_containers node) (Node_AddContainer x))" by (intro pres frame)
  moreover obtain r env' nd where
    f: "forE (npb_containers node) (Node_AddContainer x) (env, Node_init (env_indet env) node) = (r, (env', nd))"
    by (metis prod.exhaust)
  ultimately have "I env'" using i by (blast intro: J_run)
  moreover have "preserves I (bindE (the_experiment x) (\<lambda>ex. bindE (Node_dtor ex nd)
      (\<lambda>_. throwE e :: (Environment, Node) em)))" for e by (intro pres frame)
  ultimately show "I (snd (Node_ctor x node env))"
    using i f unfolding preserves_def by (cases r) (simp_all add: Node_ctor_def)
qed

lemma frame_run_in_container [frame]: "preserves J m \<Longrightarrow> preserves I (run_in_container x n c m)"
  unfolding run_in_container_def
  by (intro pres preservesI) (auto dest: J_run intro!: upd_inner split: prod.splits)

lemma frame_Node_add_container [frame]: "preserves I (Node_add_container x n ctpb)"
  unfolding Node_add_container_def
  by (intro pres preservesI) (auto dest: J_run [OF frame_node(2)] intro!: upd_inner split: prod.splits)

lemma frame_node_adds [frame]:
  "preserves I (Node_AddComponentToImplicitContainer x n cpb)" "preserves I (Node_AddLoggingClient x n lpb)"
  "preserves I (Node_AddLoggingServerToImplicitContainer x n lpb)"
  unfolding Node_AddComponentToImplicitContainer_def Node_AddLoggingClient_def
    Node_AddLoggingServerToImplicitContainer_def
  by (intro pres frame)+

lemma frame_loggers [frame]:
  "preserves I (Logger_GetPublisherPort x n c l)" "preserves I (Logger_GetPublisherEndpoint x n c l)"
  "preserves I (Logger_GetProto x n c l full)"
proof -
  show a: "preserves I (Logger_GetPublisherPort x n c l)" for n c l
    unfolding Logger_GetPublisherPort_def
    by (intro pres) (auto split: Logger_Mode.split intro!: pres frame preserves_modifyE upd_inner)
  show b: "preserves I (Logger_GetPublisherEndpoint x n c l)" for n c l
    unfolding Logger_GetPublisherEndpoint_def by (intro pres a)
  have "preserves I (Logger_fill x n c l lg)" for lg
    unfolding Logger_fill_def Logger_client_addresses_def
    by (cases "lg_type lg"; simp; intro pres a b)
  then show "preserves I (Logger_GetProto x n c l full)"
    unfolding Logger_GetProto_def by (intro pres preserves_modifyE upd_inner)
qed

lemma frame_GetProto [frame]:
  "preserves I (Component_GetProto x n c k full)" "preserves I (Container_GetProto x n c full)"
  "preserves I (Node_GetProto x n full)"
proof -
  show a: "preserves I (Component_GetProto x n c k full)" for c k
    unfolding Component_GetProto_def Let_def by (intro pres preserves_modifyE upd_inner)
  show b: "preserves I (Container_GetProto x n c full)" for c
    unfolding Container_GetProto_def by (intro pres frame a preserves_modifyE upd_inner)
  show "preserves I (Node_GetProto x n full)"
    unfolding Node_GetProto_def by (intro pres b preserves_modifyE upd_inner)
qed

lemma frame_master [frame]:
  "preserves I (Experiment_GetMasterPublisherAddress x)" "preserves I (Experiment_GetMasterRegistrationAddress x)"
  "preserves I (Experiment_ConfigureMaster x)"
proof -
  show a: "preserves I (Experiment_GetMasterPublisherAddress x)" "preserves I (Experiment_GetMasterRegistrationAddress x)"
    unfolding Experiment_GetMasterPublisherAddress_def Experiment_GetMasterRegistrationAddress_def
    by (intro pres frame preserves_modifyE upd_tree; simp add: life_def)+
  show "preserves I (Experiment_ConfigureMaster x)" unfolding Experiment_ConfigureMaster_def
    by (intro pres a preserves_modifyE upd_inner upd_tree; simp add: life_def Experiment_SetMasterIp_def)
qed

lemma frame_Experiment_GetProto [frame]: "preserves I (Experiment_GetProto x full)"
proof -
  have "preserves I (Experiment_configure_message x full)"
    unfolding Experiment_configure_message_def by (intro pres frame)
  then show ?thesis unfolding Experiment_GetProto_def
    by (intro pres preserves_modifyE upd_tree; simp add: life_def)
qed

lemma frame_populate [frame]:
  "preserves I (Experiment_AddExternalPorts x message)" "preserves I (Environment_AddNodes x cluster)"
proof -
  have port: "preserves I (Experiment_add_external_port x p)" for p
    unfolding Experiment_add_external_port_def Let_def
    by (intro pres frame preserves_modifyE upd_tree; simp add: life_def)
  show "preserves I (Experiment_AddExternalPorts x message)"
    unfolding Experiment_AddExternalPorts_def by (intro pres port)
  have add: "preserves I (Experiment_AddNode x node)" for node
    unfolding Experiment_AddNode_def Let_def
    by (intro pres frame preserves_modifyE upd_tree; simp add: life_def)
  have node: "preserves I (Environment_AddNodeToExperiment x node)" for node
    unfolding Environment_AddNodeToExperiment_def
    by (intro pres neut add preserves_modifyE) (simp add: Environment_AddNodeToEnvironment_def Let_def upd_names)
  have least: "preserves I (Environment_least_deployed x b)" for b
    unfolding Environment_least_deployed_def by (intro pres neut)
  have deploy: "preserves I (Environment_DeployContainer x ct)" for ct
    unfolding Environment_DeployContainer_def by (intro pres frame least)
  have comp: "preserves I (Environment_distribute_component x cp)" for cp
    unfolding Environment_distribute_component_def by (intro pres frame least)
  have log: "preserves I (Environment_distribute_logger x lg)" for lg
    unfolding Environment_distribute_logger_def Experiment_AddLoggingClientToNodes_def
    by (intro pres frame least neut)
  show "preserves I (Environment_AddNodes x cluster)"
    unfolding Environment_AddNodes_def Environment_DistributeContainerToImplicitNodeContainers_def
    by (intro pres node deploy comp log)
qed

lemma frame_Experiment_dtor [frame]: "preserves I (Experiment_dtor ex)"
proof -
  have man: "preserves I (Environment_FreeManagerPort p)" for p
    unfolding Environment_FreeManagerPort_def by (intro pres preserves_modifyE upd_manager_ports)
  show ?thesis
    unfolding Experiment_dtor_def Experiment_deregister_external_def Experiment_release_def
    by (intro pres frame man preserves_modifyE upd_ports)
qed

end

interpretation lf: tree_frame "\<lambda>env. lives env = L" for L
proof unfold_locales
  fix f :: "Experiment \<Rightarrow> Experiment" and env x
  assume f: "\<And>ex. life (f ex) = life ex" and "lives env = L"
  then show "lives (upd_experiment x f env) = L"
    using map_umap_modify_same [where g = "\<lambda>(x, ex). (x, life ex)" and k = x and f = f] by (simp add: lives_def)
qed (simp_all add: lives_def)

section \<open>Where lives change\<close>

lemma lives_keys: "umap_count (env_experiment_map env) x \<longleftrightarrow> x \<in> fst ` set (lives env)"
  by (force simp: lives_def umap_count_keys)

lemma lives_absent: "\<not> umap_count (env_experiment_map env) x \<longleftrightarrow> x \<notin> fst ` set (lives env)"
  by (simp add: lives_keys)

lemma lives_publish [simp]: "lives (publish m env) = lives env"
  by (simp add: lives_def publish_def)

lemma lives_erase:
  "lives (env\<lparr>env_experiment_map := umap_erase x (env_experiment_map env)\<rparr>) = umap_erase x (lives env)"
  by (simp add: lives_def umap_erase_def filter_map comp_def case_prod_beta')

lemma umap_erase_fresh: "x \<notin> fst ` set m \<Longrightarrow> umap_erase x m = m"
  by (force simp: umap_erase_def filter_id_conv)

lemma umap_erase_last: "x \<notin> fst ` set m \<Longrightarrow> umap_erase x (m @ [(x, v)]) = m"
  by (force simp: umap_erase_def filter_id_conv)

lemma lives_modify:
  "(\<And>ex. map_of (env_experiment_map env) x = Some ex \<Longrightarrow> life (f ex) = h (life ex)) \<Longrightarrow>
   map_of (lives (upd_experiment x f env)) = (map_of (lives env))(x := map_option h (map_of (lives env) x))"
  by (rule ext) (auto simp: lives_def map_of_map [where f = "\<lambda>_. life", unfolded case_prod_beta'] map_of_map
      option.map_comp comp_def split: option.split intro!: option.map_cong0)

text \<open>Removing takes the experiment away whatever its destructor runs into.\<close>

lemma remove_lives:
  assumes "Environment_RemoveExperimentInternal x env = (r, env')"
  shows "lives env' = umap_erase x (lives env)"
proof (cases "map_of (env_experiment_map env) x")
  case None
  then have "\<not> umap_count (lives env) x"
    using lives_absent [of env x] unfolding umap_count_keys [of "lives env"] by (simp add: umap_count_def)
  then show ?thesis using assms None
    by (simp add: Environment_RemoveExperimentInternal_def em_defs umap_erase_absent)
next
  case (Some ex)
  let ?e = "env\<lparr>env_experiment_map := umap_erase x (env_experiment_map env)\<rparr>"
  obtain q e where d: "Experiment_dtor ex ?e = (q, e)" by (cases "Experiment_dtor ex ?e")
  have "lives e = lives ?e" using preservesD [OF lf.frame_Experiment_dtor _ d] by blast
  then show ?thesis using assms Some d
    by (cases q) (auto simp: Environment_RemoveExperimentInternal_def bindE_def lives_erase)
qed

lemma GetManagerPort_lives:
  "Environment_GetManagerPort env = (r, env') \<Longrightarrow> lives env' = lives env"
  by (auto simp: Environment_GetManagerPort_def Let_def lives_def split: if_splits sum.splits)

lemma register_lives:
  assumes "Environment_RegisterExperiment x env = (r, env')" and "x \<notin> fst ` set (lives env)"
  shows "(case r of Inr _ \<Rightarrow> lives env' = lives env @ [(x, Registered, False)] | Inl _ \<Rightarrow> lives env' = lives env)"
proof -
  have n: "\<not> umap_count (env_experiment_map env) x" using assms(2) by (simp add: lives_absent)
  obtain q e where g: "Environment_GetManagerPort env = (q, e)" by (cases "Environment_GetManagerPort env")
  have l: "lives e = lives env" by (rule GetManagerPort_lives [OF g])
  then have "\<not> umap_count (env_experiment_map e) x" using assms(2) by (simp add: lives_absent)
  then have "lives (upd_experiment x (Experiment_SetManagerPort p)
      (e\<lparr>env_experiment_map := umap_emplace x (Experiment_ctor x) (env_experiment_map e)\<rparr>)) =
      lives e @ [(x, Registered, False)]" for p
    by (auto simp: lives_def umap_emplace_def umap_modify_def umap_count_keys life_def Experiment_ctor_def
        Experiment_SetManagerPort_def image_iff)
  then show ?thesis using assms(1) n g l
    by (cases q) (auto simp: Environment_RegisterExperiment_def bindE_def em_run)
qed

lemma SetConfigured_lives:
  assumes "try_upd_experiment x Experiment_SetConfigured env = (r, env')"
    and "lives env = L @ [(x, Registered, False)]" "x \<notin> fst ` set L"
  shows "(case r of Inr _ \<Rightarrow> lives env' = L @ [(x, CONFIGURED, False)] | Inl _ \<Rightarrow> lives env' = lives env)"
proof -
  obtain es ex where es: "env_experiment_map env = es @ [(x, ex)]" "map (\<lambda>(x, ex). (x, life ex)) es = L"
    "life ex = (Registered, False)"
    using assms(2) unfolding lives_def by (auto simp: map_eq_append_conv)
  have "x \<notin> fst ` set es" using assms(3) es(2) by force
  then have n: "map_of es x = None" by (simp add: map_of_eq_None_iff)
  then have ex: "map_of (env_experiment_map env) x = Some ex" by (simp add: es(1) map_add_def)
  have st: "ex_state ex = Registered" using es(3) by (simp add: life_def)
  have m: "umap_modify x f es = es" for f using n by (simp add: umap_modify_absent umap_count_def)
  have "umap_modify x f (es @ [(x, ex)]) = es @ [(x, f ex)]" for f
    using m [of f] by (simp add: umap_modify_def)
  then have "r = Inr ()" "env_experiment_map env' = es @ [(x, ex\<lparr>ex_state := CONFIGURED\<rparr>)]"
    using assms(1) ex st es(1) by (auto simp: try_upd_experiment_def bindE_def the_experiment_run em_run Experiment_SetConfigured_def)
  then show ?thesis using es by (auto simp: lives_def life_def)
qed

lemma lives_triple:
  "(\<And>L. preserves (\<lambda>s. lives s = L) m) \<Longrightarrow> triple (\<lambda>s. lives s = L) m (\<lambda>_ s. lives s = L) (\<lambda>s. lives s = L \<or> Q s)"
  by (rule tripleI) (blast dest: preservesD)+

lemma configure_lives:
  assumes x: "expb_name message \<notin> fst ` set L"
  defines "R \<equiv> L @ [(expb_name message, Registered, False)]"
  shows "triple (\<lambda>s. lives s = L) (Environment_configure message)
    (\<lambda>_ s. lives s = L @ [(expb_name message, CONFIGURED, False)]) (\<lambda>s. lives s = L \<or> lives s = R)"
proof -
  let ?x = "expb_name message"
  have reg: "triple (\<lambda>s. lives s = L) (Environment_RegisterExperiment ?x) (\<lambda>_ s. lives s = R) (\<lambda>s. lives s = L \<or> lives s = R)"
    using register_lives [of ?x] x unfolding R_def by (intro tripleI) fastforce+
  have mid: "triple (\<lambda>s. lives s = R) m (\<lambda>_ s. lives s = R) (\<lambda>s. lives s = L \<or> lives s = R)"
    if "\<And>L. preserves (\<lambda>s. lives s = L) m" for m :: "(Environment, 'b) em"
    by (rule triple_conseq [OF lives_triple [OF that, where Q = "\<lambda>_. False"]]) auto
  have set: "triple (\<lambda>s. lives s = R) (try_upd_experiment ?x Experiment_SetConfigured)
      (\<lambda>_ s. lives s = L @ [(?x, CONFIGURED, False)]) (\<lambda>s. lives s = L \<or> lives s = R)"
    using SetConfigured_lives [of ?x _ _ _ L] x unfolding R_def by (intro tripleI) fastforce+
  show ?thesis unfolding Environment_configure_def Let_def
    by (rule triple_bind [OF reg], rule triple_bind [OF mid [OF neutral_GetExperimentInternal]],
        rule triple_bind [OF mid], intro pres,
        rule triple_bind [OF mid], rule lf.frame_populate,
        rule triple_bind [OF mid], intro pres lf.frame_populate,
        rule triple_bind [OF mid [OF lf.frame_master(3)]],
        rule triple_bind [OF mid], intro pres, rule set)
qed

lemma populate_lives:
  assumes x: "expb_name message \<notin> fst ` set L"
  shows "triple (\<lambda>s. lives s = L) (Environment_PopulateExperiment message)
    (\<lambda>_ s. lives s = L @ [(expb_name message, CONFIGURED, False)]) (\<lambda>s. lives s = L)"
proof -
  let ?x = "expb_name message" and ?R = "L @ [(expb_name message, Registered, False)]"
    and ?C = "L @ [(expb_name message, CONFIGURED, False)]"
  have rem: "triple (\<lambda>s. lives s = L \<or> lives s = ?R)
      (bindE (Environment_RemoveExperimentInternal ?x) (\<lambda>_. throwE e)) (\<lambda>_ s. lives s = ?C) (\<lambda>s. lives s = L)" for e
  proof -
    have "lives s' = L" if s: "lives s = L \<or> lives s = ?R" and r: "Environment_RemoveExperimentInternal ?x s = (r, s')" for s r s'
    proof -
      have "umap_erase ?x (lives s) = L"
        using s by (elim disjE) (simp_all only: umap_erase_last [OF x] umap_erase_fresh [OF x])
      then show ?thesis using remove_lives [OF r] by simp
    qed
    then have "triple (\<lambda>s. lives s = L \<or> lives s = ?R) (Environment_RemoveExperimentInternal ?x)
        (\<lambda>_ s. lives s = L) (\<lambda>s. lives s = L)"
      by (intro tripleI) blast+
    then show ?thesis by (rule triple_bind) (rule triple_throw)
  qed
  have cfg: "triple (\<lambda>s. lives s = L) (catchE is_std_exception (Environment_configure message) (\<lambda>e.
         bindE (Environment_RemoveExperimentInternal ?x) (\<lambda>_. throwE e))) (\<lambda>_ s. lives s = ?C) (\<lambda>s. lives s = L)"
    by (rule triple_catch_std [OF configure_lives [OF x] rem])
  have send: "triple (\<lambda>s. lives s = ?C) (catchE is_std_exception
      (bindE (bindE getE (\<lambda>env. liftE (umap_at (env_experiment_map env) ?x))) (\<lambda>_.
       bindE (Experiment_GetProto ?x True) (\<lambda>proto.
       case proto of None \<Rightarrow> returnE () | Some m \<Rightarrow> modifyE (publish m)))) (\<lambda>_. returnE ()))
      (\<lambda>_ s. lives s = ?C) (\<lambda>s. lives s = L)"
  proof (rule triple_catch_std [where E' = "\<lambda>s. lives s = ?C"])
    have "preserves (\<lambda>s. lives s = K) (bindE (bindE getE (\<lambda>env. liftE (umap_at (env_experiment_map env) ?x))) (\<lambda>_.
       bindE (Experiment_GetProto ?x True) (\<lambda>proto.
       case proto of None \<Rightarrow> returnE () | Some m \<Rightarrow> modifyE (publish m))))" for K
      by (intro pres lf.frame_Experiment_GetProto preserves_modifyE) simp
    from lives_triple [OF this, where Q = "\<lambda>_. False"] show "triple (\<lambda>s. lives s = ?C)
      (bindE (bindE getE (\<lambda>env. liftE (umap_at (env_experiment_map env) ?x))) (\<lambda>_.
       bindE (Experiment_GetProto ?x True) (\<lambda>proto.
       case proto of None \<Rightarrow> returnE () | Some m \<Rightarrow> modifyE (publish m))))
      (\<lambda>_ s. lives s = ?C) (\<lambda>s. lives s = ?C)" by simp
  qed (rule triple_return)
  have "triple (\<lambda>s. lives s = L \<and> s = t) (if umap_count (env_experiment_map t) ?x
      then throwE (RuntimeError (''Got duplicate experiment name: '' @ quoted ?x)) else k)
      (\<lambda>_ s. lives s = ?C) (\<lambda>s. lives s = L)"
    if "triple (\<lambda>s. lives s = L) k (\<lambda>_ s. lives s = ?C) (\<lambda>s. lives s = L)" for t k
    by (rule triple_if) (auto intro: triple_throw triple_pre [OF that])
  then show ?thesis unfolding Environment_PopulateExperiment_def Let_def
    by (intro triple_get) (use triple_bind [OF cfg send] in blast)
qed

section \<open>The contract\<close>

text \<open>The names of the experiments with their states, as a client of the environment manager sees them.
  An event of the contract is the registration, the activation or the removal of one experiment, or
  the shutdown of a set of them: those that run are asked to stop, the others disappear.\<close>

definition abs_env :: "Environment \<Rightarrow> string \<rightharpoonup> ExperimentState \<times> bool" where
  "abs_env env = map_of (lives env)"

definition shut :: "string set \<Rightarrow> (string \<rightharpoonup> ExperimentState \<times> bool) \<Rightarrow> string \<rightharpoonup> ExperimentState \<times> bool" where
  "shut S A = (\<lambda>x. if x \<in> S then (case A x of Some (ACTIVE, _) \<Rightarrow> Some (ACTIVE, True) | _ \<Rightarrow> None) else A x)"

datatype life_event = L_register string | L_activate string | L_shutdown "string set" | L_remove string

inductive life_step ::
  "life_event \<Rightarrow> (string \<rightharpoonup> ExperimentState \<times> bool) \<Rightarrow> (string \<rightharpoonup> ExperimentState \<times> bool) \<Rightarrow> bool" where
  register: "A x = None \<Longrightarrow> life_step (L_register x) A (A(x \<mapsto> (CONFIGURED, False)))"
| activate: "A x = Some (CONFIGURED, b) \<Longrightarrow> life_step (L_activate x) A (A(x \<mapsto> (ACTIVE, b)))"
| shutdown: "life_step (L_shutdown S) A (shut S A)"
| remove: "A x = Some l \<Longrightarrow> life_step (L_remove x) A (A(x := None))"

text \<open>Who may cause an event: an experiment is activated by a handler of its own and removed by the
  handler of its master; a shutdown concerns the name a request gives or the names its pattern matches.\<close>

fun permitted ::
  "(string \<Rightarrow> (string \<Rightarrow> bool) option) \<Rightarrow> (DeploymentType \<Rightarrow> string \<Rightarrow> bool) \<Rightarrow> life_event \<Rightarrow> bool" where
  "permitted re served (L_register x) = True"
| "permitted re served (L_activate x) = (\<exists>t. served t x)"
| "permitted re served (L_shutdown S) = ((\<exists>x. S = {x}) \<or> (\<exists>pat matches. re pat = Some matches \<and> (\<forall>x \<in> S. matches x)))"
| "permitted re served (L_remove x) = served EXECUTION_MASTER x"

definition served_by :: "DeploymentRegister \<Rightarrow> DeploymentType \<Rightarrow> string \<Rightarrow> bool" where
  "served_by reg t x \<longleftrightarrow> (\<exists>h \<in> set (reg_handlers reg). dh_deployment_type h = t \<and> dh_experiment_id h = x)"

definition life_inv :: "(string \<rightharpoonup> ExperimentState \<times> bool) \<Rightarrow> bool" where
  "life_inv A \<longleftrightarrow> (\<forall>x st b. A x = Some (st, b) \<longrightarrow> st \<noteq> Registered \<and> (b \<longrightarrow> st = ACTIVE))"

lemma shut_Some: "shut S A x = Some (st, b) \<Longrightarrow> A x = Some (st, b) \<or> st = ACTIVE"
  by (auto simp: shut_def split: if_splits option.splits ExperimentState.splits)

lemma life_inv_step: "life_step ev A B \<Longrightarrow> life_inv A \<Longrightarrow> life_inv B"
proof (induction rule: life_step.induct)
  case (shutdown S A)
  show ?case unfolding life_inv_def
  proof (intro allI impI)
    fix x st b assume "shut S A x = Some (st, b)"
    then have "A x = Some (st, b) \<or> st = ACTIVE" by (rule shut_Some)
    then show "st \<noteq> Registered \<and> (b \<longrightarrow> st = ACTIVE)" using shutdown.prems [unfolded life_inv_def, rule_format, of x st b] by (elim disjE) simp_all
  qed
qed (auto simp: life_inv_def)

section \<open>The system implements the contract\<close>

text \<open>At most one permitted event leads from the experiments \<open>A\<close> to those of \<open>env\<close>.\<close>

definition moves ::
  "(string \<Rightarrow> (string \<Rightarrow> bool) option) \<Rightarrow> (DeploymentType \<Rightarrow> string \<Rightarrow> bool) \<Rightarrow>
   (string \<rightharpoonup> ExperimentState \<times> bool) \<Rightarrow> (string \<rightharpoonup> ExperimentState \<times> bool) \<Rightarrow> bool" where
  "moves re served A B \<longleftrightarrow> B = A \<or> (\<exists>ev. life_step ev A B \<and> permitted re served ev)"

lemma moves_event: "life_step ev A B \<Longrightarrow> permitted re served ev \<Longrightarrow> moves re served A B"
  unfolding moves_def by blast

lemma abs_env_absent: "abs_env env x = None \<longleftrightarrow> x \<notin> fst ` set (lives env)"
  by (simp add: abs_env_def map_of_eq_None_iff)

lemma abs_env_Some: "map_of (env_experiment_map env) x = Some ex \<Longrightarrow> abs_env env x = Some (ex_state ex, ex_shutdown ex)"
  by (simp add: abs_env_def lives_def map_of_map life_def)

lemma preserves_abs: "(\<And>L. preserves (\<lambda>s. lives s = L) m) \<Longrightarrow> triple (\<lambda>s. I (abs_env s)) m (\<lambda>_ s. I (abs_env s)) (\<lambda>s. I (abs_env s))"
proof -
  assume m: "\<And>L. preserves (\<lambda>s. lives s = L) m"
  have "I (abs_env s')" if "I (abs_env s)" "m s = (r, s')" for s r s'
    using preservesD [OF m refl that(2)] that(1) by (simp add: abs_env_def)
  then show ?thesis by (intro tripleI)
qed

lemma Environment_GetProto_lives: "preserves (\<lambda>s. lives s = L) (Environment_GetProto x full)"
  unfolding Environment_GetProto_def
  by (intro pres neut lf.frame_Experiment_GetProto preserves_modifyE) simp

lemma logan_servers_lives: "preserves (\<lambda>s. lives s = L) (Experiment_GetAllocatedLoganServers x ip)"
  unfolding Experiment_GetAllocatedLoganServers_def Node_GetAllocatedLoganServers_def
  by (intro pres lf.frame_loggers)

interpretation quiet: env_frame "\<lambda>env. I (abs_env env)" for I
proof unfold_locales
  have man: "preserves (\<lambda>s. lives s = L) Environment_GetManagerPort" for L
    by (rule preservesI) (metis GetManagerPort_lives prod.collapse)
  show "triple (\<lambda>env. I (abs_env env)) Environment_GetManagerPort (\<lambda>_ env. I (abs_env env)) (\<lambda>env. I (abs_env env))"
    by (rule preserves_abs [OF man])
next
  fix env :: Environment and now
  assume "I (abs_env env)" then show "I (abs_env (env\<lparr>env_clock := now\<rparr>))" by (simp add: abs_env_def lives_def)
qed (rule preserves_abs [OF Environment_GetProto_lives] preserves_abs [OF lf.frame_master(1)]
    preserves_abs [OF lf.frame_master(2)] preserves_abs [OF lf.frame_loggers(2)] preserves_abs [OF logan_servers_lives])+

lemma remove_abs: "Environment_RemoveExperimentInternal x env = (r, env') \<Longrightarrow> abs_env env' = (abs_env env)(x := None)"
  by (rule ext) (simp add: abs_env_def remove_lives)

lemma populate_moves:
  assumes "Environment_PopulateExperiment message env = (r, env')" and "defined_result r"
  shows "abs_env env' = abs_env env \<or>
    abs_env env (expb_name message) = None \<and> abs_env env' = (abs_env env)(expb_name message \<mapsto> (CONFIGURED, False))"
proof (cases "expb_name message \<in> fst ` set (lives env)")
  case True
  then have "umap_count (env_experiment_map env) (expb_name message)" by (simp add: lives_keys)
  then have "env' = env" using assms(1) by (simp add: Environment_PopulateExperiment_def Let_def em_defs)
  then show ?thesis by simp
next
  case False
  then have n: "abs_env env (expb_name message) = None" by (simp add: abs_env_absent)
  show ?thesis
  proof (cases r)
    case (Inl e)
    then have "lives env' = lives env"
      using triple_InlD [OF populate_lives [OF False] refl] assms by (simp add: defined_result_def)
    then show ?thesis by (simp add: abs_env_def)
  next
    case (Inr u)
    then have l: "lives env' = lives env @ [(expb_name message, CONFIGURED, False)]"
      using triple_InrD [OF populate_lives [OF False] refl] assms(1) by simp
    then show ?thesis using n by (auto simp: abs_env_def fun_eq_iff map_add_def split: option.split)
  qed
qed

lemma shutdown_moves:
  assumes "Environment_ShutdownExperimentInternal x env = (r, env')"
  shows "abs_env env' = shut {x} (abs_env env)"
proof (cases "map_of (env_experiment_map env) x")
  case None
  then have "env' = env" "abs_env env x = None" using assms
    by (auto simp: Environment_ShutdownExperimentInternal_def Environment_GetExperimentInternal_def bindE_def abs_env_def
        lives_def map_of_map)
  then show ?thesis by (auto simp: shut_def)
next
  case (Some ex)
  note a = abs_env_Some [OF Some]
  show ?thesis
  proof (cases "ex_state ex = ACTIVE")
    case True
    then have "env' = upd_experiment x Experiment_Shutdown env" using assms Some
      by (auto simp: Environment_ShutdownExperimentInternal_def Environment_GetExperimentInternal_def bindE_def
          Experiment_IsActive_def)
    moreover have "map_of (lives (upd_experiment x Experiment_Shutdown env)) =
        (map_of (lives env))(x := map_option (\<lambda>(st, _). (st, True)) (map_of (lives env) x))"
      by (rule lives_modify) (auto simp: life_def Experiment_Shutdown_def)
    ultimately show ?thesis using a True by (auto simp: abs_env_def shut_def)
  next
    case False
    then have "Environment_RemoveExperimentInternal x env = (r, env')" using assms Some
      by (auto simp: Environment_ShutdownExperimentInternal_def Environment_GetExperimentInternal_def bindE_def
          Experiment_IsActive_def)
    from remove_abs [OF this] show ?thesis using a False
      by (auto simp: shut_def split: ExperimentState.split)
  qed
qed

lemma shut_shut: "shut S (shut T A) = shut (S \<union> T) A"
  by (auto simp: shut_def fun_eq_iff split: option.split ExperimentState.split)

lemma shutdown_regex_moves:
  assumes "Environment_ShutdownExperimentRegex re pat env = (r, env')" and "defined_result r"
  shows "moves re served (abs_env env) (abs_env env')"
proof (cases "re pat")
  case None
  then show ?thesis using assms(1)
    by (auto simp: moves_def Environment_ShutdownExperimentRegex_def Environment_GetMatchingExperiments_def bindE_def throwE_def)
next
  case (Some matches)
  define K where "K = (\<lambda>s. \<exists>S. (\<forall>x \<in> S. matches x) \<and> abs_env s = shut S (abs_env env))"
  have one: "triple K (Environment_ShutdownExperimentInternal x) (\<lambda>_. K) K" if "matches x" for x
  proof -
    have "K s'" if "K s" "Environment_ShutdownExperimentInternal x s = (q, s')" for s q s'
    proof -
      from that(1) obtain S where S: "\<forall>x \<in> S. matches x" "abs_env s = shut S (abs_env env)"
        unfolding K_def by (elim exE conjE)
      have "abs_env s' = shut ({x} \<union> S) (abs_env env)" unfolding shutdown_moves [OF that(2)] S(2) shut_shut by (rule refl)
      moreover have "\<forall>y \<in> {x} \<union> S. matches y" using S(1) \<open>matches x\<close> by simp
      ultimately show ?thesis unfolding K_def by (intro exI conjI)
    qed
    then show ?thesis by (intro tripleI) blast+
  qed
  have "triple K (Environment_ShutdownExperimentRegex re pat) (\<lambda>_. K) K"
    unfolding Environment_ShutdownExperimentRegex_def Environment_GetMatchingExperiments_def
  proof (rule triple_bind)
    show "triple K (case re pat of None \<Rightarrow> throwE (RegexError pat) | Some matches \<Rightarrow>
        bindE getE (\<lambda>env. returnE (filter matches (umap_keys (env_experiment_map env)))))
        (\<lambda>names s. K s \<and> (\<forall>x \<in> set names. matches x)) K"
      unfolding Some option.case by (intro triple_get' triple_return) simp
    show "triple (\<lambda>s. K s \<and> (\<forall>x \<in> set names. matches x))
        (bindE (forE names Environment_ShutdownExperimentInternal) (\<lambda>_. returnE names)) (\<lambda>_. K) K" for names
      by (intro triple_pure triple_bind [where R = "\<lambda>_. K"] triple_for triple_return one) blast+
  qed
  moreover have "K env" unfolding K_def by (rule exI [of _ "{}"]) (simp add: shut_def)
  ultimately have "K env'" using assms by (cases r) (auto simp: defined_result_def dest: triple_InrD triple_InlD)
  then obtain S where S: "\<forall>x \<in> S. matches x" "abs_env env' = shut S (abs_env env)"
    unfolding K_def by (elim exE conjE)
  then have "permitted re served (L_shutdown S)" using Some by simp blast
  then show ?thesis unfolding S(2) by (rule moves_event [OF life_step.shutdown])
qed

lemma activate_moves:
  assumes "activate_experiment x env = (r, env')"
  shows "abs_env env' = abs_env env \<or>
    (\<exists>b. abs_env env x = Some (CONFIGURED, b) \<and> abs_env env' = (abs_env env)(x \<mapsto> (ACTIVE, b)))"
proof (cases "\<exists>ex. map_of (env_experiment_map env) x = Some ex \<and> ex_state ex = CONFIGURED")
  case False
  then show ?thesis using assms
    by (auto simp: activate_experiment_def try_upd_experiment_def bindE_def the_experiment_run Experiment_SetActive_def em_run
        split: option.splits)
next
  case True
  then obtain ex where ex: "map_of (env_experiment_map env) x = Some ex" "ex_state ex = CONFIGURED" by blast
  let ?f = "\<lambda>_. ex\<lparr>ex_state := ACTIVE\<rparr>"
  have "env' = upd_experiment x ?f env" using assms ex
    by (simp add: activate_experiment_def try_upd_experiment_def bindE_def the_experiment_run Experiment_SetActive_def em_run)
  moreover have "map_of (lives (upd_experiment x ?f env)) =
      (map_of (lives env))(x := map_option (\<lambda>(_, b). (ACTIVE, b)) (map_of (lives env) x))"
    by (rule lives_modify) (use ex in \<open>auto simp: life_def\<close>)
  ultimately show ?thesis using abs_env_Some [OF ex(1)] ex(2) by (auto simp: abs_env_def)
qed

lemma triple_movesI:
  "(\<And>env r env'. m env = (r, env') \<Longrightarrow> defined_result r \<Longrightarrow> moves re served (abs_env env) (abs_env env')) \<Longrightarrow>
   triple (\<lambda>env. abs_env env = A) m (\<lambda>_ env. moves re served A (abs_env env)) (\<lambda>env. moves re served A (abs_env env))"
  by (rule tripleI) fastforce+

interpretation lifecycle: env_step "\<lambda>env. abs_env env = A" "\<lambda>env. moves re served A (abs_env env)" re served
  for A re served
proof unfold_locales
  fix env :: Environment assume "abs_env env = A" then show "moves re served A (abs_env env)" by (simp add: moves_def)
next
  fix message
  show "triple (\<lambda>env. abs_env env = A) (Environment_PopulateExperiment message)
      (\<lambda>_ env. moves re served A (abs_env env)) (\<lambda>env. moves re served A (abs_env env))"
    by (rule triple_movesI, drule (1) populate_moves)
       (auto simp: moves_def intro!: exI [of _ "L_register _"] life_step.register)
next
  fix x
  show "triple (\<lambda>env. abs_env env = A) (Environment_ShutdownExperiment x)
      (\<lambda>_ env. moves re served A (abs_env env)) (\<lambda>env. moves re served A (abs_env env))"
    unfolding Environment_ShutdownExperiment_def
    by (rule triple_movesI, drule shutdown_moves) (auto intro!: moves_event [OF life_step.shutdown])
next
  fix pat
  show "triple (\<lambda>env. abs_env env = A) (Environment_ShutdownExperimentRegex re pat)
      (\<lambda>_ env. moves re served A (abs_env env)) (\<lambda>env. moves re served A (abs_env env))"
    by (rule triple_movesI) (rule shutdown_regex_moves)
next
  fix x assume "served EXECUTION_MASTER x"
  then show "triple (\<lambda>env. abs_env env = A) (Environment_RemoveExperiment x)
      (\<lambda>_ env. moves re served A (abs_env env)) (\<lambda>env. moves re served A (abs_env env))"
    unfolding Environment_RemoveExperiment_def
    by (intro triple_movesI, drule_tac remove_abs, case_tac "abs_env env x")
       (auto simp: moves_def fun_upd_idem intro!: exI [of _ "L_remove x"] life_step.remove)
next
  fix t x assume "served t x"
  then show "triple (\<lambda>env. abs_env env = A) (activate_experiment x)
      (\<lambda>_ env. moves re served A (abs_env env)) (\<lambda>env. moves re served A (abs_env env))"
    by (intro triple_movesI, drule_tac activate_moves)
       (auto simp: moves_def intro!: exI [of _ "L_activate x"] life_step.activate)
qed

lemma system_moves:
  assumes "sys_step re reg reg'"
  shows "moves re (served_by reg) (abs_env (reg_environment reg)) (abs_env (reg_environment reg'))"
  by (rule lifecycle.step [OF assms refl]) (auto simp: served_by_def)

lemma life_inv_reachable:
  "sys_reachable re reg0 reg \<Longrightarrow> life_inv (abs_env (reg_environment reg0)) \<Longrightarrow> life_inv (abs_env (reg_environment reg))"
  by (induction rule: sys_reachable.induct)
     (use system_moves life_inv_step in \<open>fastforce simp: moves_def\<close>)+

lemma abs_env_ctor: "Environment_ctor ip qpid tao lo hi indet now = Inr env \<Longrightarrow> abs_env env = Map.empty"
  using GetManagerPort_lives
  by (fastforce simp: Environment_ctor_def Let_def abs_env_def lives_def split: if_splits prod.splits sum.splits)

end
