(* ===== verification/EMExamples.thy ===== *)
theory EMExamples
  imports EMDeployment
begin

text \<open>
  A concrete experiment for the witnesses of the properties: one node with one implicit container,
  in it one component with a ZeroMQ publisher, on an environment manager with six ports per node. Everything here is evaluated by the simplifier.
\<close>

lemmas model_defs =
  Info_default_def Attribute_default_def Port_default_def ExternalPort_default_def Logger_default_def
  ControlMessage_default_def EnvironmentMessage_default_def GotAttribute_def GetAttribute_def
  AddAllocatedAttribute_def new_attribute_def InsertAttribute_def SetStringAttribute_def
  SetStringListAttribute_def SetDoubleAttribute_def SetIntegerAttribute_def SetBooleanAttribute_def
  attr_s0_def get_string_attribute_def Attribute_ctor_def Attribute_GetName_def Attribute_GetProto_def
  attributes_ctor_def Worker_ctor_def Worker_IsDirty_def Worker_GetProto_def upd_experiment_def
  upd_node_in_def upd_container_in_def upd_component_in_def upd_logger_in_def upd_port_in_def
  upd_worker_in_def upd_node_def upd_container_def upd_component_def upd_logger_def upd_port_def deref_def
  find_node_def find_container_def find_component_def find_logger_def find_port_def the_experiment_def
  the_node_def the_container_def the_component_def the_logger_def the_port_def Component_HasPort_def
  Component_GetPort_def Container_HasPort_def Container_GetPort_def Node_HasPort_def Node_GetPort_def
  Experiment_GetPort_def port_at_def Experiment_SetDirty_def Experiment_IsDirty_def Node_SetDirty_def
  Container_SetDirty_def Component_SetDirty_def Worker_SetDirty_def Logger_SetDirty_def Port_SetDirty_def
  Node_IsDirty_def Container_IsDirty_def Component_IsDirty_def Port_IsDirty_def Logger_IsDirty_def
  Environment_GetManagerPort_def Environment_FreeManagerPort_def Environment_ctor_def Environment_GetPort_def
  Environment_FreePort_def Environment_AddNodeToEnvironment_def Environment_GetAmqpBrokerAddress_def
  Environment_GetTaoNamingServiceAddress_def Environment_GetExperimentInternal_def
  Experiment_IsConfigured_def Experiment_IsRegistered_def Experiment_IsActive_def
  Experiment_GetExternalPort_def Experiment_GetExternalPortLabel_def Experiment_GetExternalPortInternalId_def
  Experiment_UpdatePort_def Environment_GetExternalPort_def ensure_external_port_def upd_external_port_def
  Environment_AddExternalConsumerPort_def update_consumers_def Environment_AddExternalProducerPort_def
  Environment_RemoveExternalConsumerPort_def Environment_RemoveExternalProducerPort_def
  upd_exp_external_port_def Experiment_AddExternalConsumerPort_def Experiment_AddExternalProducerPort_def
  Experiment_RemoveExternalConsumerPort_def Experiment_RemoveExternalProducerPort_def
  Port_AddInternalConnectedPortId_def Port_AddExternalConnectedPortId_def Port_IsBlackbox_def is_producer_def
  is_consumer_def Port_init_def Port_register_external_def Port_base_ctor_def Port_base_dtor_def
  with_base_def Port_blackbox_init_def Container_HasOrbPort_def Container_AssignOrbPort_def zmq_Port_ctor_def
  qpid_Port_ctor_def tao_Port_ctor_def dds_Port_ctor_def PeriodicPort_ctor_def Port_ConstructPort_def
  zmq_blackbox_ctor_def qpid_blackbox_ctor_def tao_blackbox_ctor_def dds_blackbox_ctor_def
  Port_ConstructBlackboxPort_def zmq_Port_dtor_def Port_dtor_def port_value_def
  Experiment_GetExternalProducerPorts_def Environment_GetExternalProducerPorts_def swallow_def
  Port_GetConnectedPorts_def qpid_members_def dds_members_def tao_members_def zmq_endpoint_def set_first_def
  on_ports_def zmq_FillPortPb_def qpid_FillPortPb_def dds_FillPortPb_def tao_FillPortPb_def
  Port_FillPortPb_def Port_GetProto_def workers_ctor_def Component_ctor_def Component_dtor_def somes_def
  Component_GetProto_def MODEL_LOGGER_ID_def EXPERIMENT_LOGGER_ID_def Logger_blank_def Logger_ctor_def
  Logger_internal_ctor_def Logger_dtor_def Logger_SetMode_def Container_GetDeployedComponentCount_def
  Logger_GetPublisherPort_def Logger_GetPublisherEndpoint_def Node_GetLoggers_def
  Experiment_GetLoggerClients_def Logger_client_addresses_def Logger_fill_def Logger_GetProto_def
  upd_this_def Container_GetComponent_def Container_HasComponent_def Container_HasLogger_def
  Container_GetLogger_def Container_GetModelLogger_def Container_GetExperimentLogger_def
  Container_IsDocker_def Container_IsNodeManagerMaster_def Container_IsLateJoiner_def
  Container_GetOrbPort_def Container_SetOrbPort_def Container_GetDeployedCount_def
  Container_GetLoganServerCount_def Container_GetLoganServerIds_def Container_SetNodeManagerMaster_def
  Container_AddModelLogger_def Container_AddLogger_def Container_AddComponent_def Container_add_logger_def
  Container_init_def Container_members_dtor_def Container_fill_def Container_ctor_def Container_dtor_def
  run_in_container_def Container_GetProto_def Node_dtor_def Node_AddContainer_def Node_init_def Node_ctor_def
  Node_GetContainerCount_def Node_HasContainer_def Node_GetContainer_def Node_GetHardwareId_def
  Node_GetComponentContainerIds_def Node_GetDeployedCount_def Node_GetDeployedComponentCount_def
  Node_HasLogger_def Node_GetLoganServerCount_def master_eligible_def Node_HasMasterEligibleContainer_def
  Node_GetMasterEligibleContainer_def Node_HasNodeManagerMaster_def Node_GetLogMessage_def
  Node_AddComponentToImplicitContainer_def Node_AddLoggingClient_def
  Node_AddLoggingServerToImplicitContainer_def Node_add_container_def Node_GetAllocatedLoganServers_def
  Node_GetProto_def Experiment_ctor_def Experiment_GetState_def Experiment_SetConfigured_def
  Experiment_SetActive_def try_upd_experiment_def Experiment_GetManagerPort_def Experiment_SetManagerPort_def
  Experiment_SetMasterIp_def Experiment_GetMasterIp_def Experiment_component_count_def
  Experiment_CheckValidity_def Experiment_GetMasterPublisherAddress_def
  Experiment_GetMasterRegistrationAddress_def Experiment_ConfigureMaster_def external_port_entry_def
  Experiment_add_external_port_def Experiment_AddExternalPorts_def Experiment_GetNode_def
  Experiment_AddNode_def Experiment_HasDeploymentOn_def node_deployment_def Experiment_GetDeploymentInfo_def
  least_deployed_comp_def Experiment_GetLeastDeployedToNode_def Experiment_AddLoggingClientToNodes_def
  Experiment_GetExternalPorts_def Experiment_GetAllocatedLoganServers_def Experiment_GetLogMessage_def
  Experiment_Shutdown_def Experiment_configure_message_def Experiment_GetProto_def uses_external_ports_def
  Experiment_deregister_external_def Experiment_release_def Experiment_dtor_def publish_def
  removal_message_def Environment_RemoveExperimentInternal_def Environment_RemoveExperiment_def
  Environment_ShutdownExperimentInternal_def Environment_ShutdownExperiment_def
  Environment_GetMatchingExperiments_def Environment_ShutdownExperimentRegex_def
  Environment_RegisterExperiment_def Environment_AddNodeToExperiment_def Environment_least_deployed_def
  Environment_DeployContainer_def Environment_distribute_logger_def Environment_distribute_component_def
  Environment_DistributeContainerToImplicitNodeContainers_def Environment_AddNodes_def
  Environment_configure_def Environment_PopulateExperiment_def Environment_GetExperiment_def
  Environment_GetExperimentHandlerPort_def Environment_GetDeploymentHandlerPort_def
  Environment_GetExperimentDeploymentInfo_def Environment_GetProto_def Environment_NodeDeployedTo_def
  Environment_ask_def Environment_IsExperimentConfigured_def Environment_IsExperimentRegistered_def
  Environment_IsExperimentActive_def Environment_GetMasterPublisherAddress_def
  Environment_GetMasterRegistrationAddress_def Environment_GotExperiment_def
  Environment_ExperimentIsDirty_def Environment_GetExperimentNames_def external_port_message_def
  Environment_GetExternalPorts_def Environment_GetUpdatePublisherPort_def uq_new_def uq_push_def uq_front_def
  uq_pop_def uq_empty_def uq_push_all_def PortTracker_ctor_def PortTracker_GetPort_def
  PortTracker_FreePort_def PortTracker_GetName_def PortTracker_SetName_def PortTracker_GetIp_def
  PortTracker_IncrementComponentCount_def RegisterProtoConstructor_def ConstructProto_def
  GetFunctionSignature_def ProtoReplier_ctor_def ProtoReplier_Bind_def RegisterNewProto_def
  RegisterProtoCallback_def GetReplySocket_def call_back_def error_reply_def success_reply_def answer_def
  ProcessRequest_def NodeManagerRegistrationReply_default_def DeploymentHandler_ctor_def RemoveDeployment_def
  heartbeat_ack_def HandleHeartbeat_def HandleNodeManagerDeregisteration_def activate_experiment_def
  HandleGetExperimentInfo_def IsRemovable_def bad_cast_def heartbeat_callback_def deregistration_callback_def
  experiment_info_callback_def DeploymentHandler_replier_def heartbeat_timeouts_def HeartbeatLoop_def
  on_env_def add_handler_def register_master_def HandleNodeManagerRegistration_def
  HandleLoganRegistration_def HandleShutdownExperiment_def HandleListExperiments_def
  HandleRegisterExperiment_def HandleAggregationServerRegistration_def HandleMEDEAInterfaceRequest_def
  HandleInspectExperiment_def GetQpidBrokerEndpoint_def GetTaoCosnamingEndpoint_def
  DeploymentRegister_Terminate_def CleanupTask_def reply_with_def register_services_def
  DeploymentRegister_ctor_def default_registration_port_def environment_manager_main_def on_handler_def
  defined_result_def

lemmas container_defs = umap_count_def umap_at_def umap_emplace_def umap_modify_def umap_put_def umap_erase_def
  sset_insert_def sset_erase_def sset_of_def quoted_def TCPify_def upto.simps

definition demo_info :: "string \<Rightarrow> Info_pb" where
  "demo_info i = Info_default\<lparr>info_name := i, info_id := i\<rparr>"

definition demo_port :: Port_pb where
  "demo_port = Port_default\<lparr>ppb_info := demo_info ''p'', ppb_kind := PUBLISHER, ppb_middleware := ZMQ\<rparr>"

definition demo_component :: Component_pb where
  "demo_component = \<lparr>cpb_info = demo_info ''k'', cpb_ports = [demo_port], cpb_attributes = [], cpb_workers = [],
     cpb_replicate_indices = [], cpb_location = []\<rparr>"

definition demo_container :: Container_pb where
  "demo_container = \<lparr>ctpb_info = demo_info ''c'', ctpb_type = GENERIC, ctpb_components = [demo_component],
     ctpb_loggers = [], ctpb_implicit = True, ctpb_is_late_joiner = False\<rparr>"

definition demo_node :: Node_pb where
  "demo_node = \<lparr>npb_info = demo_info ''n'', npb_ip_address = ''10.0.0.1'', npb_containers = [demo_container]\<rparr>"

definition demo_experiment :: Experiment_pb where
  "demo_experiment = \<lparr>expb_name = ''x'', expb_clusters = [\<lparr>clpb_info = Info_default, clpb_nodes = [demo_node], clpb_containers = []\<rparr>],
     expb_external_ports = []\<rparr>"

lemmas demo_defs = demo_info_def demo_port_def demo_component_def demo_container_def demo_node_def demo_experiment_def

definition demo_re :: "string \<Rightarrow> (string \<Rightarrow> bool) option" where
  "demo_re pattern = Some (\<lambda>s. s = pattern)"

definition demo_env :: Environment where
  "demo_env =
     \<lparr>env_ip_address = ''10.0.0.9'', env_qpid_broker_address = '''', env_tao_naming_service_address = '''',
      env_port_range_min = 30000, env_port_range_max = 30005, env_manager_port_range_min = 40000,
      env_manager_port_range_max = 40005, env_experiment_map = [], env_node_map = [], env_node_ip_map = [],
      env_node_name_map = [], env_external_eventport_map = [], env_update_publisher_port = to_string 40000,
      env_available_ports = \<lparr>m_queue = [30000, 30001, 30002, 30003, 30004, 30005],
         m_set = [30000, 30001, 30002, 30003, 30004, 30005]\<rparr>,
      env_available_node_manager_ports = \<lparr>m_queue = [40001, 40002, 40003, 40004], m_set = [40001, 40002, 40003, 40004]\<rparr>,
      env_published = [], env_clock = 0, env_indet = \<lambda>_. False\<rparr>"

lemma demo_env: "Environment_ctor ''10.0.0.9'' '''' '''' 30000 30005 (\<lambda>_. False) 0 = Inr demo_env"
  by (simp add: demo_env_def Environment_ctor_def Let_def Environment_GetManagerPort_def uq_push_all_def uq_push_def
      uq_new_def uq_empty_def uq_front_def uq_pop_def container_defs cong: if_weak_cong)

definition demo_env1 :: Environment where
  "demo_env1 = snd (Environment_PopulateExperiment demo_experiment demo_env)"

lemma demo_populate_run:
  "case Environment_PopulateExperiment demo_experiment demo_env of (r, env) \<Rightarrow> r = Inr () \<and>
     map (\<lambda>(x, ex). (x, ex_state ex, ex_manager_port ex, ex_master_publisher_port ex, ex_master_registration_port ex))
       (env_experiment_map env) = [(''x'', CONFIGURED, to_string 40001, to_string 30001, to_string 30002)] \<and>
     map_option pt_detail (find_port env ''x'' ''10.0.0.1'' ''c'' ''k'' ''p'') =
       Some (ZmqPort ''10.0.0.1'' (to_string 30000) (''tcp://10.0.0.1:'' @ to_string 30000))"
  by (simp add: demo_defs demo_env_def model_defs container_defs ev_rules Let_def cong: ev_cong)

lemma demo_populate: "Environment_PopulateExperiment demo_experiment demo_env = (Inr (), demo_env1)"
  and demo_env1_ports: "map (\<lambda>(x, ex). (x, ex_state ex, ex_manager_port ex, ex_master_publisher_port ex, ex_master_registration_port ex))
       (env_experiment_map demo_env1) = [(''x'', CONFIGURED, to_string 40001, to_string 30001, to_string 30002)]"
  and demo_env1_port: "map_option pt_detail (find_port demo_env1 ''x'' ''10.0.0.1'' ''c'' ''k'' ''p'') =
       Some (ZmqPort ''10.0.0.1'' (to_string 30000) (''tcp://10.0.0.1:'' @ to_string 30000))"
  using demo_populate_run by (simp_all add: demo_env1_def case_prod_beta prod_eq_iff)

text \<open>The experiment removed again, before its master has asked for it.\<close>

definition demo_env2 :: Environment where
  "demo_env2 = snd (Environment_RemoveExperiment ''x'' demo_env1)"

lemma stoi_to_string_numeral: "(numeral n :: int) \<le> 2147483647 \<Longrightarrow> stoi (to_string (numeral n)) = Inr (numeral n)"
  by (rule stoi_to_string) (simp_all add: int_min_def int_max_def)

lemma demo_remove_run:
  "case Environment_PopulateExperiment demo_experiment demo_env of (r, env) \<Rightarrow>
     case Environment_RemoveExperiment ''x'' env of (r', env') \<Rightarrow> r' = Inr () \<and> env_experiment_map env' = [] \<and>
       env_update_publisher_port env' = to_string 40000 \<and>
       map_option free_ports (map_of (env_node_map env') ''10.0.0.1'') = Some [30004, 30005, 30003, 30000]"
  by (simp add: demo_defs demo_env_def model_defs container_defs ev_rules Let_def stoi_to_string_numeral free_ports_def
      cong: ev_cong)

lemma demo_remove: "Environment_RemoveExperiment ''x'' demo_env1 = (Inr (), demo_env2)"
  and demo_env2_facts: "env_experiment_map demo_env2 = []" "env_update_publisher_port demo_env2 = to_string 40000"
    "map_option free_ports (map_of (env_node_map demo_env2) ''10.0.0.1'') = Some [30004, 30005, 30003, 30000]"
  using demo_remove_run by (simp_all add: demo_env1_def demo_env2_def case_prod_beta prod_eq_iff)

text \<open>The services of a register with this environment.\<close>

definition demo_register :: "Environment \<Rightarrow> DeploymentRegister" where
  "demo_register env = \<lparr>reg_environment_manager_ip_address = ''10.0.0.9'', reg_environment = env, reg_handlers = []\<rparr>"

lemma demo_register:
  "\<exists>rp. DeploymentRegister_ctor demo_re (\<lambda>_. True) ''10.0.0.9'' ''20000'' '''' '''' 30000 30005 (\<lambda>_. False) 0 =
     Inr (demo_register demo_env, rp)"
  by (simp add: DeploymentRegister_ctor_def demo_env demo_register_def register_services_def RegisterProtoCallback_def
      RegisterNewProto_def GetFunctionSignature_def ProtoReplier_Bind_def ProtoReplier_ctor_def GetReplySocket_def
      container_defs)

definition demo_id :: RequestId_pb where
  "demo_id = \<lparr>rid_experiment_name = ''x'', rid_ip_address = ''10.0.0.1'', rid_host_name = ''n''\<rparr>"

lemma demo_step: "sys_step demo_re (demo_register demo_env) (demo_register demo_env1)"
proof -
  obtain ex where ex: "map_of (env_experiment_map demo_env1) ''x'' = Some ex"
    using demo_env1_ports by (cases "env_experiment_map demo_env1") auto
  have "reply_with RegisterExperimentReply (HandleRegisterExperiment demo_id demo_experiment) (demo_register demo_env) =
    (Inr (Some (RegisterExperimentReply (Experiment_GetDeploymentInfo ex))), demo_register demo_env1)"
    using ex by (simp add: reply_with_def HandleRegisterExperiment_def on_env_def ev_bindE demo_register_def demo_populate
        Environment_GetExperimentDeploymentInfo_def Environment_GetExperimentInternal_def demo_id_def run_returnE)
  then show ?thesis
    by (intro sys_step.serve [where m = "RegisterExperimentRequest demo_id demo_experiment" and name = "''RegisterExperiment''"
        and request_type = "''NodeManager.RegisterExperimentRequest''" and reply_type = "''NodeManager.RegisterExperimentReply''"
        and callback = "\<lambda>m. case m of RegisterExperimentRequest i x \<Rightarrow>
               reply_with RegisterExperimentReply (HandleRegisterExperiment i x) | _ \<Rightarrow> bad_cast"])
       (simp add: register_services_def, simp, rule defined_result_simps)
qed

lemma demo_reachable: "sys_reachable demo_re (demo_register demo_env) (demo_register demo_env1)"
  by (blast intro: sys_reachable.intros demo_step)

end
