(* ===== verification/EMBehaviour.thy ===== *)
theory EMBehaviour
  imports EMLifecycle EMExamples
begin

text \<open>
  What the environment manager does for its clients, operation by operation: registering an
  experiment, removing it, shutting it down, serving the heartbeats of its master, and the places
  where resources or the process itself are lost.
\<close>

section \<open>Registration\<close>

text \<open>
  C4. Registering an experiment is all or nothing. A name that is taken is refused and nothing
  changes. For a new name, success adds exactly one experiment, CONFIGURED and without a shutdown
  request; any exception leaves the list of experiment names, with the state and the shutdown flag of
  each, as it was (ports of their nodes may have been used up and updates may be due).
\<close>
theorem populate_all_or_nothing:
  assumes "Environment_PopulateExperiment message env = (r, env')" and "defined_result r"
  shows "if umap_count (env_experiment_map env) (expb_name message)
    then env' = env \<and> r = Inl (RuntimeError (''Got duplicate experiment name: '' @ quoted (expb_name message)))
    else lives env' = (case r of Inr _ \<Rightarrow> lives env @ [(expb_name message, CONFIGURED, False)] | Inl _ \<Rightarrow> lives env)"
proof (cases "umap_count (env_experiment_map env) (expb_name message)")
  case True
  then show ?thesis using assms(1) by (auto simp: Environment_PopulateExperiment_def Let_def ev_rules)
next
  case False
  then have "expb_name message \<notin> fst ` set (lives env)" by (simp add: lives_absent)
  note p = populate_lives [OF this]
  show ?thesis
  proof (cases r)
    case (Inl e)
    then have "lives env' = lives env" using triple_InlD [OF p refl] assms by simp
    then show ?thesis using False Inl by simp
  next
    case (Inr u)
    then have "lives env' = lives env @ [(expb_name message, CONFIGURED, False)]" using triple_InrD [OF p refl] assms(1) by simp
    then show ?thesis using False Inr by simp
  qed
qed

theorem populate_all_or_nothing_witness:
  "lives demo_env1 = [(''x'', CONFIGURED, False)] \<and>
   Environment_PopulateExperiment demo_experiment demo_env1 =
     (Inl (RuntimeError (''Got duplicate experiment name: '' @ quoted ''x'')), demo_env1)"
proof -
  have n: "expb_name demo_experiment = ''x''" by (simp add: demo_experiment_def)
  have l: "lives demo_env1 = [(''x'', CONFIGURED, False)]"
    using populate_all_or_nothing [OF demo_populate] by (simp add: n demo_env_def lives_def)
  then have "umap_count (env_experiment_map demo_env1) ''x''" by (simp add: lives_keys)
  then have "Environment_PopulateExperiment demo_experiment demo_env1 =
     (Inl (RuntimeError (''Got duplicate experiment name: '' @ quoted ''x'')), demo_env1)"
    by (simp add: Environment_PopulateExperiment_def n Let_def ev_rules)
  with l show ?thesis by blast
qed

text \<open>
  C10. Only valid experiments become CONFIGURED: when the configuration of an experiment returns, the
  experiment is in the map under its name, CONFIGURED, it deploys at least one component, one of its
  containers is the master, and it has a master address, a manager port and both master ports.
\<close>
theorem configure_valid:
  assumes "Environment_configure message env = (Inr (), env')"
  shows "\<exists>ex. map_of (env_experiment_map env') (expb_name message) = Some ex \<and> ex_state ex = CONFIGURED \<and>
    Experiment_component_count ex > 0 \<and> (\<exists>(ip, nd) \<in> set (ex_node_map ex). Node_HasNodeManagerMaster nd) \<and>
    ex_master_ip_address ex \<noteq> '''' \<and> ex_manager_port ex \<noteq> '''' \<and>
    ex_master_publisher_port ex \<noteq> '''' \<and> ex_master_registration_port ex \<noteq> ''''"
proof -
  let ?x = "expb_name message"
  obtain env1 ex where ex: "map_of (env_experiment_map env1) ?x = Some ex" and c: "Experiment_CheckValidity ex = Inr ()"
    and s: "try_upd_experiment ?x Experiment_SetConfigured env1 = (Inr (), env')"
    using assms unfolding Environment_configure_def Let_def
    by (elim bindE_InrD) (auto simp: the_experiment_run run_liftE split: option.splits)
  from ex s have m: "map_of (env_experiment_map env') ?x = Some (ex\<lparr>ex_state := CONFIGURED\<rparr>)"
    by (auto simp: try_upd_experiment_def Experiment_SetConfigured_def the_experiment_run ev_bindE run_liftE upd_experiment_def
        split: if_splits)
  from c have "Experiment_component_count ex > 0" "\<exists>(ip, nd) \<in> set (ex_node_map ex). Node_HasNodeManagerMaster nd"
    "ex_master_ip_address ex \<noteq> ''''" "ex_manager_port ex \<noteq> ''''"
    "ex_master_publisher_port ex \<noteq> ''''" "ex_master_registration_port ex \<noteq> ''''"
    by (auto simp: Experiment_CheckValidity_def Let_def list_ex_iff split: if_splits)
  with m show ?thesis by (simp add: Experiment_component_count_def)
qed

lemma demo_configure: "\<exists>env'. Environment_configure demo_experiment demo_env = (Inr (), env')"
  by (simp add: demo_defs demo_env_def model_defs container_defs ev_rules Let_def cong: ev_cong)

theorem configure_valid_witness:
  "\<exists>ex. map_of (env_experiment_map (snd (Environment_configure demo_experiment demo_env))) ''x'' = Some ex \<and>
     ex_state ex = CONFIGURED \<and> Experiment_component_count ex > 0 \<and> ex_manager_port ex \<noteq> ''''"
proof -
  obtain env' where e: "Environment_configure demo_experiment demo_env = (Inr (), env')" using demo_configure by blast
  have "expb_name demo_experiment = ''x''" by (simp add: demo_experiment_def)
  then show ?thesis using configure_valid [OF e] e by fastforce
qed

section \<open>Removal and shutdown\<close>

interpretation pub: tree_frame "\<lambda>env. env_published env = P \<and> env_clock env = t" for P t
  by unfold_locales (simp_all add: upd_experiment_def)

text \<open>
  Removing an experiment takes exactly that experiment out of the environment and tells the
  subscribers exactly once, after the fact: one SHUTDOWN\_EXPERIMENT message with the experiment's
  name and the time of the removal follows whatever was published before. Removing a name that is
  not there changes nothing.
\<close>
theorem remove_experiment_outcome:
  assumes "Environment_RemoveExperiment x env = (Inr (), env')"
  shows "lives env' = umap_erase x (lives env) \<and>
    (if umap_count (env_experiment_map env) x
     then env_published env' = env_published env @ [removal_message x (env_clock env)] else env' = env)"
proof (cases "map_of (env_experiment_map env) x")
  case None
  then show ?thesis using assms remove_lives
    by (auto simp: Environment_RemoveExperiment_def Environment_RemoveExperimentInternal_def umap_count_def ev_rules)
next
  case (Some ex)
  let ?e = "env\<lparr>env_experiment_map := umap_erase x (env_experiment_map env)\<rparr>"
  obtain env1 where d: "Experiment_dtor ex ?e = (Inr (), env1)"
    and e: "env' = publish (removal_message x (env_clock env1)) env1"
    using assms Some unfolding Environment_RemoveExperiment_def Environment_RemoveExperimentInternal_def
    by (auto simp: ev_bindE split: prod.splits sum.splits)
  have "env_published env1 = env_published env \<and> env_clock env1 = env_clock env"
    using preservesD [OF pub.frame_Experiment_dtor [of "env_published env" "env_clock env" ex] _ d] by simp
  then show ?thesis using Some e remove_lives assms
    by (simp add: publish_def umap_count_def Environment_RemoveExperiment_def)
qed
lemma GetExperimentInternal_Some:
  "map_of (env_experiment_map env) x = Some ex \<Longrightarrow> Environment_GetExperimentInternal x env = (Inr ex, env)"
  by (simp add: Environment_GetExperimentInternal_def em_defs)

lemma ExperimentIsDirty_Some:
  "map_of (env_experiment_map env) x = Some ex \<Longrightarrow> Environment_ExperimentIsDirty x env = (Inr (ex_dirty ex), env)"
  by (simp add: Environment_ExperimentIsDirty_def Environment_GotExperiment_def umap_count_def Experiment_IsDirty_def
      GetExperimentInternal_Some ev_rules)

lemma heartbeat_clean:
  assumes "map_of (env_experiment_map env) (dh_experiment_id h) = Some ex" "\<not> ex_dirty ex"
    and "dh_deployment_type h = EXECUTION_MASTER" "em_type req \<noteq> END_HEARTBEAT"
  shows "HandleHeartbeat h req env = (Inr heartbeat_ack, env)"
  using assms by (simp add: HandleHeartbeat_def ExperimentIsDirty_Some ev_rules)

lemma heartbeat_shutdown:
  fixes ex :: Experiment
  assumes x: "map_of (env_experiment_map env) (dh_experiment_id h) = Some ex" and "ex_dirty ex" "ex_shutdown ex"
    and "dh_deployment_type h = EXECUTION_MASTER" "em_type req \<noteq> END_HEARTBEAT"
  defines "m \<equiv> \<lparr>em_type = SHUTDOWN_EXPERIMENT,
                 em_control_message = Some (ControlMessage_default\<lparr>cm_experiment_id := ex_model_name ex\<rparr>)\<rparr>"
  shows "HandleHeartbeat h req env = (Inr m, publish m (upd_experiment (dh_experiment_id h) (\<lambda>ex. ex\<lparr>ex_dirty := False\<rparr>) env))"
  using assms by (simp add: HandleHeartbeat_def ExperimentIsDirty_Some GetExperimentInternal_Some Environment_GetProto_def
      Experiment_GetProto_def the_experiment_run ev_rules)

text \<open>
  C6. A shutdown request reaches the master of a running experiment, once. After it, the next
  heartbeat of the experiment's master is answered with SHUTDOWN\_EXPERIMENT for that experiment,
  and the one after that with a plain acknowledgement.
\<close>
theorem shutdown_reaches_master:
  assumes "map_of (env_experiment_map env) (dh_experiment_id h) = Some ex" and "ex_state ex = ACTIVE" and "\<not> ex_shutdown ex"
    and "dh_deployment_type h = EXECUTION_MASTER" and "em_type req \<noteq> END_HEARTBEAT"
  shows "\<exists>env1 env2 m c. Environment_ShutdownExperiment (dh_experiment_id h) env = (Inr (), env1) \<and>
    HandleHeartbeat h req env1 = (Inr m, env2) \<and> em_type m = SHUTDOWN_EXPERIMENT \<and>
    em_control_message m = Some c \<and> cm_experiment_id c = ex_model_name ex \<and>
    HandleHeartbeat h req env2 = (Inr heartbeat_ack, env2)"
proof -
  let ?x = "dh_experiment_id h"
  let ?env1 = "upd_experiment ?x Experiment_Shutdown env"
  have "Environment_ShutdownExperiment ?x env = (Inr (), ?env1)" using assms(1,2)
    by (simp add: Environment_ShutdownExperiment_def Environment_ShutdownExperimentInternal_def Experiment_IsActive_def
        GetExperimentInternal_Some ev_rules)
  moreover have x1: "map_of (env_experiment_map ?env1) ?x = Some (ex\<lparr>ex_shutdown := True, ex_dirty := True\<rparr>)"
    using assms(1,3) by (simp add: upd_experiment_def Experiment_Shutdown_def)
  let ?m = "\<lparr>em_type = SHUTDOWN_EXPERIMENT,
                 em_control_message = Some (ControlMessage_default\<lparr>cm_experiment_id := ex_model_name ex\<rparr>)\<rparr>"
  let ?env2 = "publish ?m (upd_experiment ?x (\<lambda>ex. ex\<lparr>ex_dirty := False\<rparr>) ?env1)"
  have "HandleHeartbeat h req ?env1 = (Inr ?m, ?env2)"
    using heartbeat_shutdown [OF x1 _ _ assms(4,5)] by simp
  moreover have "map_of (env_experiment_map ?env2) ?x = Some (ex\<lparr>ex_shutdown := True, ex_dirty := False\<rparr>)"
    using assms(1,3) by (simp add: publish_def upd_experiment_def Experiment_Shutdown_def)
  from heartbeat_clean [OF this _ assms(4,5)] have "HandleHeartbeat h req ?env2 = (Inr heartbeat_ack, ?env2)" by simp
  ultimately show ?thesis by (fastforce simp: ControlMessage_default_def)
qed

definition demo_master :: DeploymentHandler where
  "demo_master = \<lparr>dh_environment_manager_ip_address = ''10.0.0.9'', dh_deployment_type = EXECUTION_MASTER,
     dh_deployment_ip_address = ''10.0.0.1'', dh_experiment_id = ''x'', dh_bind_address = TCPify ''10.0.0.9'' ''40001'',
     dh_removed_flag = False\<rparr>"

theorem shutdown_reaches_master_witness:
  "\<exists>env1 env2 m. Environment_ShutdownExperiment ''x'' demo_clean_env = (Inr (), env1) \<and>
    HandleHeartbeat demo_master EnvironmentMessage_default env1 = (Inr m, env2) \<and> em_type m = SHUTDOWN_EXPERIMENT"
  using shutdown_reaches_master [of demo_clean_env demo_master demo_clean_experiment EnvironmentMessage_default]
  by (auto simp: demo_clean_env_def demo_clean_experiment_def demo_master_def EnvironmentMessage_default_def)

text \<open>
  A pattern shuts down what it matches and nothing else. The names returned are the experiments
  of the environment that the pattern matches; each of them is afterwards gone or, if it was
  running, asked to shut down; every other experiment has the state it had.
\<close>
theorem shutdown_regex_exact:
  assumes "Environment_ShutdownExperimentRegex re pat env = (Inr names, env')" and "umap_wf (env_experiment_map env)"
  shows "\<exists>matches. re pat = Some matches \<and> names = filter matches (umap_keys (env_experiment_map env)) \<and>
    (\<forall>x. abs_env env' x =
       (if x \<in> set names then (case abs_env env x of Some (ACTIVE, _) \<Rightarrow> Some (ACTIVE, True) | _ \<Rightarrow> None)
        else abs_env env x))"
proof -
  have one: "abs_env e' y = (if y = x then (case abs_env e x of Some (ACTIVE, _) \<Rightarrow> Some (ACTIVE, True) | _ \<Rightarrow> None) else abs_env e y)"
    if run: "Environment_ShutdownExperimentInternal x e = (Inr (), e')" for x y e e'
  proof -
    obtain ex where ex: "map_of (env_experiment_map e) x = Some ex"
      using run by (cases "map_of (env_experiment_map e) x")
        (auto simp: Environment_ShutdownExperimentInternal_def Environment_GetExperimentInternal_def ev_rules)
    have a: "abs_env e x = Some (ex_state ex, ex_shutdown ex)"
      using ex by (simp add: abs_env_def lives_def map_of_map life_def)
    show ?thesis
    proof (cases "ex_state ex = ACTIVE")
      case True
      then have "e' = upd_experiment x Experiment_Shutdown e" using run ex
        by (simp add: Environment_ShutdownExperimentInternal_def Experiment_IsActive_def GetExperimentInternal_Some ev_rules)
      then show ?thesis using True a lives_modify [of e x Experiment_Shutdown "\<lambda>l. (fst l, True)"]
        by (auto simp: abs_env_def life_def Experiment_Shutdown_def)
    next
      case False
      then have "Environment_RemoveExperimentInternal x e = (Inr (), e')" using run ex
        by (simp add: Environment_ShutdownExperimentInternal_def Experiment_IsActive_def GetExperimentInternal_Some ev_rules)
      from remove_lives [OF this] show ?thesis using False a
        by (auto simp: abs_env_def split: ExperimentState.split)
    qed
  qed
  have all: "abs_env e' y = (if y \<in> set ns then (case abs_env e y of Some (ACTIVE, _) \<Rightarrow> Some (ACTIVE, True) | _ \<Rightarrow> None) else abs_env e y)"
    if "forE ns Environment_ShutdownExperimentInternal e = (Inr (), e')" "distinct ns" for ns e e' y
    using that
  proof (induction ns arbitrary: e)
    case (Cons n ns)
    then obtain e1 where "Environment_ShutdownExperimentInternal n e = (Inr (), e1)"
      and e1: "forE ns Environment_ShutdownExperimentInternal e1 = (Inr (), e')"
      by (auto simp: ev_rules split: prod.splits sum.splits)
    then show ?case using Cons.IH [OF e1] Cons.prems(2) one [of n e e1] by (auto split: if_splits)
  qed (simp add: returnE_def)
  obtain matches where m: "re pat = Some matches" "names = filter matches (umap_keys (env_experiment_map env))"
    and f: "forE names Environment_ShutdownExperimentInternal env = (Inr (), env')"
    using assms(1) by (auto simp: Environment_ShutdownExperimentRegex_def Environment_GetMatchingExperiments_def ev_rules
        split: option.splits prod.splits sum.splits)
  have "distinct names" using m(2) assms(2) by (simp add: umap_wf_def)
  from all [OF f this] m show ?thesis by blast
qed
theorem shutdown_regex_exact_witness:
  "\<exists>env'. Environment_ShutdownExperimentRegex demo_re ''x'' demo_clean_env = (Inr [''x''], env') \<and>
     abs_env env' ''x'' = Some (ACTIVE, True)"
proof -
  have k: "env_experiment_map demo_clean_env = [(''x'', demo_clean_experiment)]"
    by (simp add: demo_clean_env_def)
  have s: "ex_state demo_clean_experiment = ACTIVE" "ex_shutdown demo_clean_experiment = False"
    by (simp_all add: demo_clean_experiment_def)
  let ?e = "upd_experiment ''x'' Experiment_Shutdown demo_clean_env"
  have r: "Environment_ShutdownExperimentRegex demo_re ''x'' demo_clean_env = (Inr [''x''], ?e)"
    by (simp add: Environment_ShutdownExperimentRegex_def Environment_GetMatchingExperiments_def demo_re_def k s
        Environment_ShutdownExperimentInternal_def Environment_GetExperimentInternal_def Experiment_IsActive_def ev_rules)
  have "abs_env demo_clean_env ''x'' = Some (ACTIVE, False)" by (simp add: abs_env_def lives_def k life_def s)
  with shutdown_regex_exact [OF r] show ?thesis using r by (auto simp: k umap_wf_def)
qed

section \<open>The handlers\<close>

text \<open>
  The master is given its experiment once. When \<open>GetExperimentInfo\<close> answers, the experiment
  was CONFIGURED and is ACTIVE afterwards; a second request is refused and changes nothing.
\<close>
theorem GetExperimentInfo_once:
  assumes "HandleGetExperimentInfo h env = (Inr m, env')"
  shows "\<exists>b. abs_env env (dh_experiment_id h) = Some (CONFIGURED, b) \<and>
    abs_env env' (dh_experiment_id h) = Some (ACTIVE, b) \<and>
    HandleGetExperimentInfo h env' =
      (Inl (RuntimeError (''Experiment: '' @ quoted (dh_experiment_id h) @ '' already active'')), env')"
proof -
  let ?x = "dh_experiment_id h"
  have abs: "abs_env e ?x = map_option life (map_of (env_experiment_map e) ?x)" for e
    by (simp add: abs_env_def lives_def map_of_map comp_def)
  obtain ex where ex: "map_of (env_experiment_map env) ?x = Some ex"
    using assms by (cases "map_of (env_experiment_map env) ?x")
      (auto simp: HandleGetExperimentInfo_def Let_def Environment_GetExperiment_def Environment_GetExperimentInternal_def ev_rules)
  have c: "ex_state ex = CONFIGURED"
    using assms ex by (cases "ex_state ex") (auto simp: HandleGetExperimentInfo_def Let_def Environment_GetExperiment_def
        GetExperimentInternal_Some Experiment_IsConfigured_def ev_rules)
  then obtain env1 where g: "Environment_GetProto ?x True env = (Inr m, env1)" and a: "activate_experiment ?x env1 = (Inr (), env')"
    using assms ex by (auto simp: HandleGetExperimentInfo_def Let_def Environment_GetExperiment_def
        GetExperimentInternal_Some Experiment_IsConfigured_def ev_rules split: prod.splits sum.splits)
  have "lives env1 = lives env" using preservesD [OF Environment_GetProto_lives refl g] by simp
  then have "abs_env env1 ?x = Some (CONFIGURED, ex_shutdown ex)" using abs [of env] ex c by (simp add: abs_env_def life_def)
  then obtain ex1 where ex1: "map_of (env_experiment_map env1) ?x = Some ex1" "life ex1 = (CONFIGURED, ex_shutdown ex)"
    unfolding abs by auto
  then have ex': "map_of (env_experiment_map env') ?x = Some (ex1\<lparr>ex_state := ACTIVE\<rparr>)" using a
    by (auto simp: activate_experiment_def try_upd_experiment_def Experiment_SetActive_def the_experiment_run ev_rules
        upd_experiment_def life_def)
  then have "HandleGetExperimentInfo h env' =
      (Inl (RuntimeError (''Experiment: '' @ quoted ?x @ '' already active'')), env')"
    by (simp add: HandleGetExperimentInfo_def Let_def Environment_GetExperiment_def GetExperimentInternal_Some
        Experiment_IsConfigured_def ev_rules)
  moreover have "abs_env env' ?x = Some (ACTIVE, ex_shutdown ex)" using ex' ex1(2) by (simp add: abs life_def)
  moreover have "abs_env env ?x = Some (CONFIGURED, ex_shutdown ex)" using ex c by (simp add: abs life_def)
  ultimately show ?thesis by blast
qed

text \<open>
  An update message is delivered to whoever asks first. After any request for the message of
  an experiment, the experiment is no longer dirty, and asking for the changes only is a null
  dereference: a heartbeat that has seen the dirty flag before an \<open>InspectExperiment\<close> request was
  served, and asks for the message after it, ends the process.
\<close>
theorem GetProto_then_update_undefined:
  assumes "Environment_GetProto x full env = (Inr m, env')"
  shows "Environment_ExperimentIsDirty x env' = (Inr False, env') \<and>
    Environment_GetProto x False env' = (Inl (Undefined ''null EnvironmentMessage''), env')"
proof -
  obtain env1 where e: "env' = publish m (upd_experiment x (\<lambda>ex. ex\<lparr>ex_dirty := False\<rparr>) env1)"
    using assms unfolding Environment_GetProto_def Experiment_GetProto_def
    by (elim bindE_InrD) (auto simp: ev_rules split: if_splits option.splits prod.splits sum.splits)
  have "umap_count (env_experiment_map env) x"
    using assms by (cases "map_of (env_experiment_map env) x")
      (auto simp: Environment_GetProto_def Environment_GetExperimentInternal_def ev_rules umap_count_def)
  then have "x \<in> fst ` set (lives env)" by (simp add: lives_keys)
  moreover have "lives env' = lives env" using preservesD [OF Environment_GetProto_lives refl assms] by simp
  ultimately have "umap_count (env_experiment_map env') x" by (simp add: lives_keys)
  then obtain ex where ex: "map_of (env_experiment_map env') x = Some ex" by (auto simp: umap_count_def)
  then have "\<not> ex_dirty ex" using e by (auto simp: publish_def upd_experiment_def)
  then show ?thesis using ex
    by (simp add: ExperimentIsDirty_Some Environment_GetProto_def GetExperimentInternal_Some Experiment_GetProto_def
        the_experiment_run ev_rules)
qed

text \<open>
  C5. A silent master loses its experiment. Let the loop of a master's handler have gone through
  any events of which the last was a request (or none), and wait, without the handler having
  deregistered. Then it goes on waiting after one and after two polls without a message, and after
  the third it has returned, without a further reply, and the experiment is no longer in the environment,
  whether or not its destructor threw.
\<close>
theorem heartbeat_silence_removes:
  assumes run: "HeartbeatLoop bind_ok parse ser evs (env, h) = ((rs, Waiting n), (env1, h))"
    and last: "evs = [] \<or> (\<exists>fn ty d. last evs = Received fn ty d)"
    and "dh_deployment_type h = EXECUTION_MASTER" and "\<not> dh_removed_flag h"
    and "defined_result (fst (Environment_RemoveExperiment (dh_experiment_id h) env1))"
  shows "HeartbeatLoop bind_ok parse ser (evs @ [NoMessage]) (env, h) = ((rs, Waiting 1), (env1, h)) \<and>
    HeartbeatLoop bind_ok parse ser (evs @ [NoMessage, NoMessage]) (env, h) = ((rs, Waiting 2), (env1, h)) \<and>
    (\<exists>env' h'. HeartbeatLoop bind_ok parse ser (evs @ [NoMessage, NoMessage, NoMessage]) (env, h) = ((rs, Returned), (env', h')) \<and>
      \<not> umap_count (env_experiment_map env') (dh_experiment_id h))"
proof -
  let ?x = "dh_experiment_id h"
  obtain rp where rp: "DeploymentHandler_replier (dh_bind_address h) = Inr rp" "GetReplySocket bind_ok rp = Inr ()"
    using run by (auto simp: HeartbeatLoop_def split: sum.splits)
  have loop: "HeartbeatLoop bind_ok parse ser e (env, h) =
      (case ZmqReplier parse ser rp heartbeat_timeouts 0 e (env, h) of
         ((rs, Threw (TimeoutException t)), s') \<Rightarrow>
           (case catchE is_std_exception RemoveDeployment (\<lambda>_. returnE ()) s' of
              (Inr _, s'') \<Rightarrow> ((rs, Returned), s'')
            | (Inl e, s'') \<Rightarrow> ((rs, Threw e), s''))
       | r \<Rightarrow> r)" for e
    using rp by (simp add: HeartbeatLoop_def)
  have z: "ZmqReplier parse ser rp heartbeat_timeouts 0 evs (env, h) = ((rs, Waiting n), (env1, h))"
    using run unfolding loop by (auto split: prod.splits loop_state.splits exn.splits sum.splits)
  have n: "n = 0"
  proof (cases "evs = []")
    case True
    then show ?thesis using z by (simp add: heartbeat_timeouts_def)
  next
    case False
    then obtain fn ty d where "evs = butlast evs @ [Received fn ty d]" using last by (metis append_butlast_last_id)
    then show ?thesis using z ZmqReplier_after_message by metis
  qed
  obtain r env' where r: "Environment_RemoveExperiment ?x env1 = (r, env')" by (cases "Environment_RemoveExperiment ?x env1")
  have gone: "\<not> umap_count (env_experiment_map env') ?x"
    using remove_lives [of ?x env1 r env'] r by (auto simp: Environment_RemoveExperiment_def lives_keys umap_erase_def)
  have "\<exists>h'. catchE is_std_exception RemoveDeployment (\<lambda>_. returnE ()) (env1, h) = (Inr (), (env', h'))"
    using r assms(3,4,5) by (cases r) (auto simp: RemoveDeployment_def ev_rules)
  moreover have "ZmqReplier parse ser rp heartbeat_timeouts 0 [NoMessage] s = (([], Waiting 1), s)"
    "ZmqReplier parse ser rp heartbeat_timeouts 0 [NoMessage, NoMessage] s = (([], Waiting 2), s)"
    "ZmqReplier parse ser rp heartbeat_timeouts 0 [NoMessage, NoMessage, NoMessage] s =
      (([], Threw (TimeoutException ''Replier Timed out'')), s)" for s
    by (simp_all add: heartbeat_timeouts_def)
  moreover note ZmqReplier_append [of parse ser rp heartbeat_timeouts 0 evs _ "(env, h)", unfolded z n]
  ultimately show ?thesis using gone unfolding loop by auto
qed

text \<open>
  An experiment that is removed before it ran loses the ports of its master. The destructor
  gives them back only when the experiment is ACTIVE: after registering and removing the sample
  experiment, its ports 30001 and 30002 are held by nobody and free on no node, while the port of
  its component is free again.
\<close>
theorem configured_removal_leaks:
  "Environment_RemoveExperiment ''x'' demo_env1 = (Inr (), demo_env2) \<and>
   held demo_env2 = {#ManagerPort (to_string 40000)#} \<and>
   is_free demo_env2 (NodePort ''10.0.0.1'' (to_string 30000)) \<and>
   \<not> is_free demo_env2 (NodePort ''10.0.0.1'' (to_string 30001)) \<and>
   \<not> is_free demo_env2 (NodePort ''10.0.0.1'' (to_string 30002))"
proof -
  have "to_string i = to_string j \<longleftrightarrow> i = j" if "0 \<le> i" "i \<le> int_max" "0 \<le> j" "j \<le> int_max" for i j
    using that inj_to_string [of i j] by (auto simp: int_min_def)
  then show ?thesis using demo_remove demo_env2_facts
    by (auto simp: held_def manager_lease_def int_max_def)
qed

theorem remove_experiment_outcome_witness:
  "lives demo_env2 = [] \<and> env_published demo_env2 = env_published demo_env1 @ [removal_message ''x'' (env_clock demo_env1)]"
proof -
  have "umap_count (env_experiment_map demo_env1) ''x''"
    using demo_env1_ports by (cases "env_experiment_map demo_env1") (auto simp: umap_count_def)
  then show ?thesis using remove_experiment_outcome [OF demo_remove] demo_env2_facts(1) by (simp add: lives_def)
qed
definition demo_ready_env :: Environment where
  "demo_ready_env = upd_experiment ''x'' (\<lambda>ex. ex\<lparr>ex_state := CONFIGURED\<rparr>) demo_clean_env"

lemma demo_info_run: "\<exists>m env'. HandleGetExperimentInfo demo_master demo_ready_env = (Inr m, env')"
  by (simp add: HandleGetExperimentInfo_def activate_experiment_def demo_master_def demo_ready_env_def demo_clean_defs
      model_defs container_defs ev_rules Let_def cong: ev_cong)

theorem GetExperimentInfo_once_witness:
  "\<exists>m env'. HandleGetExperimentInfo demo_master demo_ready_env = (Inr m, env') \<and>
     (\<exists>b. abs_env env' ''x'' = Some (ACTIVE, b)) \<and>
     fst (HandleGetExperimentInfo demo_master env') = Inl (RuntimeError (''Experiment: '' @ quoted ''x'' @ '' already active''))"
proof -
  obtain m env' where r: "HandleGetExperimentInfo demo_master demo_ready_env = (Inr m, env')" using demo_info_run by blast
  have "dh_experiment_id demo_master = ''x''" by (simp add: demo_master_def)
  then show ?thesis using GetExperimentInfo_once [OF r] r by auto
qed

lemma demo_inspect_run: "\<exists>m env'. Environment_GetProto ''x'' True demo_ready_env = (Inr m, env')"
  by (simp add: demo_ready_env_def demo_clean_defs model_defs container_defs ev_rules Let_def cong: ev_cong)

theorem GetProto_then_update_undefined_witness:
  "\<exists>m env'. Environment_GetProto ''x'' True demo_ready_env = (Inr m, env') \<and>
     Environment_GetProto ''x'' False env' = (Inl (Undefined ''null EnvironmentMessage''), env')"
proof -
  obtain m env' where r: "Environment_GetProto ''x'' True demo_ready_env = (Inr m, env')" using demo_inspect_run by blast
  from GetProto_then_update_undefined [OF r] r show ?thesis by blast
qed

text \<open>A master that sent one heartbeat, of whatever bytes: the parser refuses it, and the loop waits.\<close>

theorem heartbeat_silence_removes_witness:
  "\<exists>rs env' h'. HeartbeatLoop (\<lambda>_. True) (\<lambda>_ _. None) (\<lambda>_. ('''', ''''))
     [NoMessage, Received ''NodeManagerHeartbeat'' ''NodeManager.EnvironmentMessage'' '''', NoMessage, NoMessage, NoMessage]
     (demo_env1, demo_master) = ((rs, Returned), (env', h')) \<and> length rs = 1 \<and> \<not> umap_count (env_experiment_map env') ''x''"
proof -
  let ?evs = "[NoMessage, Received ''NodeManagerHeartbeat'' ''NodeManager.EnvironmentMessage'' '''']"
  have d: "defined_result (fst (Environment_RemoveExperiment (dh_experiment_id demo_master) demo_env1))"
    by (simp add: demo_remove demo_master_def)
  have "\<exists>rs. HeartbeatLoop (\<lambda>_. True) (\<lambda>_ _. None) (\<lambda>_. ('''', '''')) ?evs (demo_env1, demo_master) =
      ((rs, Waiting 0), (demo_env1, demo_master)) \<and> length rs = 1"
    by (simp add: HeartbeatLoop_def demo_master_def DeploymentHandler_replier_def RegisterProtoCallback_def RegisterNewProto_def
        ProtoReplier_Bind_def ProtoReplier_ctor_def GetFunctionSignature_def umap_count_def umap_put_def sset_insert_def
        GetReplySocket_def heartbeat_timeouts_def answer_def call_back_def ConstructProto_def RegisterProtoConstructor_def
        ev_rules TCPify_def)
  then obtain rs where rs: "HeartbeatLoop (\<lambda>_. True) (\<lambda>_ _. None) (\<lambda>_. ('''', '''')) ?evs (demo_env1, demo_master) =
      ((rs, Waiting 0), (demo_env1, demo_master))" "length rs = 1" by blast
  from heartbeat_silence_removes [OF rs(1) _ _ _ d] rs(2) show ?thesis by (auto simp: demo_master_def)
qed

text \<open>
  Registering a second master kills the environment manager. While an experiment is still
  CONFIGURED its master may register again; both handlers are then given the same address, and the
  serving thread of the one that cannot bind it ends in \<open>std::terminate\<close>, whatever it would have
  received.
\<close>
theorem second_master_terminates:
  assumes "add_handler EXECUTION_MASTER ip x reg = (Inr endpoint, reg1)"
    and "add_handler EXECUTION_MASTER ip' x reg1 = (Inr endpoint', reg2)"
  shows "endpoint' = endpoint \<and> (\<exists>h h'. reg_handlers reg2 = reg_handlers reg @ [h, h'] \<and> dh_bind_address h' = dh_bind_address h \<and>
    (\<not> bind_ok (dh_bind_address h') \<longrightarrow>
       HeartbeatLoop bind_ok parse ser events (env, h') = (([], Threw (Undefined ''std::terminate'')), (env, h'))))"
proof -
  have one: "\<exists>h ex. map_of (env_experiment_map (reg_environment r)) x = Some ex \<and> e = TCPify (reg_environment_manager_ip_address r) (ex_manager_port ex) \<and>
      r' = r\<lparr>reg_handlers := reg_handlers r @ [h]\<rparr> \<and> dh_bind_address h = e"
    if run: "add_handler EXECUTION_MASTER i x r = (Inr e, r')" for i r e r'
  proof (cases "map_of (env_experiment_map (reg_environment r)) x")
    case None
    then show ?thesis using run by (simp add: add_handler_def on_env_def DeploymentHandler_ctor_def
      Environment_GetDeploymentHandlerPort_def Environment_GetExperimentHandlerPort_def Environment_GetExperiment_def
      Environment_GetExperimentInternal_def ev_rules)
  next
    case (Some ex)
    then show ?thesis using run by (auto simp: add_handler_def on_env_def DeploymentHandler_ctor_def
      Environment_GetDeploymentHandlerPort_def Environment_GetExperimentHandlerPort_def Environment_GetExperiment_def
      GetExperimentInternal_Some Experiment_GetManagerPort_def ev_rules)
  qed
  obtain h ex where h: "map_of (env_experiment_map (reg_environment reg)) x = Some ex"
    "endpoint = TCPify (reg_environment_manager_ip_address reg) (ex_manager_port ex)"
    "reg1 = reg\<lparr>reg_handlers := reg_handlers reg @ [h]\<rparr>" "dh_bind_address h = endpoint" using one [OF assms(1)] by blast
  obtain h' where h': "endpoint' = endpoint" "reg2 = reg1\<lparr>reg_handlers := reg_handlers reg1 @ [h']\<rparr>" "dh_bind_address h' = endpoint'"
    using one [OF assms(2)] h(1-3) by auto
  have "\<exists>rp. DeploymentHandler_replier a = Inr rp \<and> rp_bind_addresses rp = [a]" for a
    by (auto simp: DeploymentHandler_replier_def RegisterProtoCallback_def RegisterNewProto_def ProtoReplier_Bind_def
        ProtoReplier_ctor_def GetFunctionSignature_def umap_count_def umap_put_def sset_insert_def)
  then obtain rp where "DeploymentHandler_replier (dh_bind_address h') = Inr rp" "rp_bind_addresses rp = [dh_bind_address h']" by blast
  then have "\<not> bind_ok (dh_bind_address h') \<longrightarrow>
     HeartbeatLoop bind_ok parse ser events (env, h') = (([], Threw (Undefined ''std::terminate'')), (env, h'))"
    by (simp add: HeartbeatLoop_def GetReplySocket_def)
  then show ?thesis using h h' by auto
qed

lemma demo_two_masters:
  "\<exists>reg1 reg2. add_handler EXECUTION_MASTER ''10.0.0.1'' ''x'' (demo_register demo_ready_env) =
      (Inr (TCPify ''10.0.0.9'' ''40001''), reg1) \<and>
    add_handler EXECUTION_MASTER ''10.0.0.1'' ''x'' reg1 = (Inr (TCPify ''10.0.0.9'' ''40001''), reg2)"
  by (simp add: add_handler_def on_env_def DeploymentHandler_ctor_def Environment_GetDeploymentHandlerPort_def
      Environment_GetExperimentHandlerPort_def Environment_GetExperiment_def Environment_GetExperimentInternal_def
      Experiment_GetManagerPort_def demo_register_def demo_ready_env_def demo_clean_env_def demo_clean_experiment_def
      upd_experiment_def umap_modify_def ev_rules)

theorem second_master_terminates_witness:
  "\<exists>(reg2 :: DeploymentRegister) h h'. reg_handlers reg2 = [h, h'] \<and>
     HeartbeatLoop (\<lambda>_. False) (\<lambda>_ _. None) (\<lambda>_. ('''', '''')) [] (demo_ready_env, h') =
       (([], Threw (Undefined ''std::terminate'')), (demo_ready_env, h'))"
proof -
  from demo_two_masters obtain reg1 reg2 where
    r: "add_handler EXECUTION_MASTER ''10.0.0.1'' ''x'' (demo_register demo_ready_env) = (Inr (TCPify ''10.0.0.9'' ''40001''), reg1)"
      "add_handler EXECUTION_MASTER ''10.0.0.1'' ''x'' reg1 = (Inr (TCPify ''10.0.0.9'' ''40001''), reg2)" by blast
  from second_master_terminates [OF r, of "\<lambda>_. False" "\<lambda>_ _. None" "\<lambda>_. ('''', '''')" "[]" demo_ready_env]
  obtain h h' where "reg_handlers reg2 = [h, h']" "HeartbeatLoop (\<lambda>_. False) (\<lambda>_ _. None) (\<lambda>_. ('''', '''')) [] (demo_ready_env, h') =
       (([], Threw (Undefined ''std::terminate'')), (demo_ready_env, h'))" by (auto simp: demo_register_def)
  then show ?thesis by blast
qed

text \<open>
  The port of a Logan server's handler is never given back. The handler takes the first free
  manager port; ending the deployment marks the handler as removed and leaves the environment as
  it is, so each registration of a Logan server uses up one manager port for good.
\<close>
theorem logan_port_lost:
  assumes "add_handler LOGAN_SERVER ip x reg = (Inr endpoint, reg1)"
    and "uq_wf (env_available_node_manager_ports (reg_environment reg))"
    and "m_queue (env_available_node_manager_ports (reg_environment reg)) = p # ps"
  shows "m_queue (env_available_node_manager_ports (reg_environment reg1)) = ps \<and>
    (\<exists>h. reg_handlers reg1 = reg_handlers reg @ [h] \<and>
      RemoveDeployment (reg_environment reg1, h) = (Inr (), (reg_environment reg1, h\<lparr>dh_removed_flag := True\<rparr>)))"
proof -
  obtain q where "Environment_GetManagerPort (reg_environment reg) =
      (Inr (to_string p), (reg_environment reg)\<lparr>env_available_node_manager_ports := q\<rparr>)" "m_queue q = ps"
    using GetManagerPort_Cons [OF assms(2,3)] by blast
  then show ?thesis using assms(1)
    by (auto simp: add_handler_def on_env_def DeploymentHandler_ctor_def Environment_GetDeploymentHandlerPort_def
        RemoveDeployment_def ev_rules)
qed

theorem logan_port_lost_witness:
  "\<exists>endpoint reg1. add_handler LOGAN_SERVER ''10.0.0.1'' ''x'' (demo_register demo_env) = (Inr endpoint, reg1) \<and>
     m_queue (env_available_node_manager_ports (reg_environment reg1)) = [40002, 40003, 40004]"
proof -
  obtain endpoint reg1 where r: "add_handler LOGAN_SERVER ''10.0.0.1'' ''x'' (demo_register demo_env) = (Inr endpoint, reg1)"
    by (simp add: add_handler_def on_env_def DeploymentHandler_ctor_def Environment_GetDeploymentHandlerPort_def
        Environment_GetManagerPort_def demo_register_def demo_env_def uq_empty_def uq_front_def uq_pop_def sset_erase_def
        ev_rules Let_def)
  have "uq_wf (env_available_node_manager_ports demo_env)" by (simp add: demo_env_def uq_wf_def sset_wf_def)
  with logan_port_lost [OF r, of 40001 "[40002, 40003, 40004]"] r show ?thesis
    by (auto simp: demo_register_def demo_env_def)
qed

end
