(* ===== verification/RTStateMachine.thy ===== *)
theory RTStateMachine
  imports Prelude_SEM
begin

text \<open>
  \<open>StateMachine\<close> (\<^verbatim>\<open>re/src/core/statemachine.cpp\<close>) and the part of \<open>Activatable\<close>
  (\<^verbatim>\<open>re/src/core/activatable.cpp\<close>) that drives it. The functions registered for the transitions are
  computations on the object that owns the machine; since objects contain objects, the map of
  registered functions is an argument next to the machine and not a member of it. \<open>transition_state\<close>
  holds \<open>state_mutex_\<close> for its whole body, so it is one step; a transition function that calls back
  into the same machine would wait for that mutex for ever, and the owner's state does not include
  the machine for that reason.
\<close>

datatype Transition = NO_TRANSITION | TR_CONFIGURE | TR_ACTIVATE | TR_PASSIVATE | TR_TERMINATE

datatype State = NOT_CONFIGURED | ST_CONFIGURED | RUNNING | NOT_RUNNING

fun Transition_ToString :: "Transition \<Rightarrow> string" where
  "Transition_ToString NO_TRANSITION = ''NO_TRANSITION''"
| "Transition_ToString TR_CONFIGURE = ''CONFIGURE''"
| "Transition_ToString TR_ACTIVATE = ''ACTIVATE''"
| "Transition_ToString TR_PASSIVATE = ''PASSIVATE''"
| "Transition_ToString TR_TERMINATE = ''TERMINATE''"

fun State_ToString :: "State \<Rightarrow> string" where
  "State_ToString NOT_CONFIGURED = ''NOT_CONFIGURED''"
| "State_ToString ST_CONFIGURED = ''CONFIGURED''"
| "State_ToString RUNNING = ''RUNNING''"
| "State_ToString NOT_RUNNING = ''NOT_RUNNING''"

record StateMachine =
  sm_state :: State
  sm_transition :: Transition

definition StateMachine_init :: StateMachine where
  "StateMachine_init = \<lparr>sm_state = NOT_CONFIGURED, sm_transition = NO_TRANSITION\<rparr>"

definition get_state :: "StateMachine \<Rightarrow> State" where
  "get_state sm = sm_state sm"

definition get_transition :: "StateMachine \<Rightarrow> Transition" where
  "get_transition sm = sm_transition sm"

type_synonym 'o transition_map = "Transition \<Rightarrow> ('o, unit) em option"

definition RegisterTransitionFunction ::
  "Transition \<Rightarrow> ('o, unit) em \<Rightarrow> 'o transition_map \<Rightarrow> 'o transition_map" where
  "RegisterTransitionFunction t f tm = tm(t := Some f)"

definition run_transition_function ::
  "'o transition_map \<Rightarrow> Transition \<Rightarrow> (StateMachine \<times> 'o, bool) em" where
  "run_transition_function tm t =
     (\<lambda>(sm, ob).
        let sm1 = sm\<lparr>sm_transition := t\<rparr> in
        case (case tm t of Some f \<Rightarrow> f ob | None \<Rightarrow> (Inr (), ob)) of
          (Inr _, ob') \<Rightarrow> (Inr True, (sm1\<lparr>sm_transition := NO_TRANSITION\<rparr>, ob'))
        | (Inl e, ob') \<Rightarrow>
            if is_std_exception e then (Inr False, (sm1\<lparr>sm_transition := NO_TRANSITION\<rparr>, ob'))
            else (Inl e, (sm1, ob')))"

text \<open>The switch of \<open>transition_state\<close>: the new state, or \<open>None\<close> where the code returns at once.\<close>

fun switch_state :: "State \<Rightarrow> Transition \<Rightarrow> State option" where
  "switch_state NOT_CONFIGURED TR_CONFIGURE = Some ST_CONFIGURED"
| "switch_state NOT_CONFIGURED TR_TERMINATE = None"
| "switch_state ST_CONFIGURED TR_ACTIVATE = Some RUNNING"
| "switch_state ST_CONFIGURED TR_TERMINATE = Some NOT_CONFIGURED"
| "switch_state RUNNING TR_PASSIVATE = Some NOT_RUNNING"
| "switch_state RUNNING TR_TERMINATE = Some NOT_CONFIGURED"
| "switch_state NOT_RUNNING TR_PASSIVATE = None"
| "switch_state NOT_RUNNING TR_TERMINATE = Some NOT_CONFIGURED"
| "switch_state st _ = Some st"

definition transition_state :: "'o transition_map \<Rightarrow> Transition \<Rightarrow> (StateMachine \<times> 'o, bool) em" where
  "transition_state tm t =
     bindE getE (\<lambda>(sm, _).
     case switch_state (get_state sm) t of
       None \<Rightarrow> returnE False
     | Some new_state \<Rightarrow>
         if new_state \<noteq> get_state sm then
           bindE (run_transition_function tm t) (\<lambda>success.
           if success then
             bindE (modifyE (\<lambda>(sm, ob). (sm\<lparr>sm_state := new_state\<rparr>, ob))) (\<lambda>_. returnE True)
           else returnE False)
         else returnE False)"

definition StateMachine_Configure :: "'o transition_map \<Rightarrow> (StateMachine \<times> 'o, bool) em" where
  "StateMachine_Configure tm = transition_state tm TR_CONFIGURE"

definition StateMachine_Activate :: "'o transition_map \<Rightarrow> (StateMachine \<times> 'o, bool) em" where
  "StateMachine_Activate tm = transition_state tm TR_ACTIVATE"

definition StateMachine_Passivate :: "'o transition_map \<Rightarrow> (StateMachine \<times> 'o, bool) em" where
  "StateMachine_Passivate tm = transition_state tm TR_PASSIVATE"

definition StateMachine_Terminate :: "'o transition_map \<Rightarrow> (StateMachine \<times> 'o, bool) em" where
  "StateMachine_Terminate tm = transition_state tm TR_TERMINATE"

section \<open>Activatable objects\<close>

text \<open>The constructor of \<open>Activatable\<close> registers the four virtual handlers.\<close>

definition Activatable_transitions :: "(Transition \<Rightarrow> ('o, unit) em) \<Rightarrow> 'o transition_map" where
  "Activatable_transitions handle =
     RegisterTransitionFunction TR_TERMINATE (handle TR_TERMINATE)
       (RegisterTransitionFunction TR_PASSIVATE (handle TR_PASSIVATE)
         (RegisterTransitionFunction TR_ACTIVATE (handle TR_ACTIVATE)
           (RegisterTransitionFunction TR_CONFIGURE (handle TR_CONFIGURE) (\<lambda>_. None))))"

definition Activatable_Configure :: "(Transition \<Rightarrow> ('o, unit) em) \<Rightarrow> (StateMachine \<times> 'o, bool) em" where
  "Activatable_Configure handle = StateMachine_Configure (Activatable_transitions handle)"

definition Activatable_Activate :: "(Transition \<Rightarrow> ('o, unit) em) \<Rightarrow> (StateMachine \<times> 'o, bool) em" where
  "Activatable_Activate handle = StateMachine_Activate (Activatable_transitions handle)"

definition Activatable_Passivate :: "(Transition \<Rightarrow> ('o, unit) em) \<Rightarrow> (StateMachine \<times> 'o, bool) em" where
  "Activatable_Passivate handle = StateMachine_Passivate (Activatable_transitions handle)"

definition Activatable_Terminate :: "(Transition \<Rightarrow> ('o, unit) em) \<Rightarrow> (StateMachine \<times> 'o, bool) em" where
  "Activatable_Terminate handle = StateMachine_Terminate (Activatable_transitions handle)"

definition process_event :: "StateMachine \<Rightarrow> bool" where
  "process_event sm = (if get_state sm = RUNNING then get_transition sm = NO_TRANSITION else False)"

section \<open>Lemmas\<close>

text \<open>The edges of the machine.\<close>

definition edge :: "State \<Rightarrow> Transition \<Rightarrow> State option" where
  "edge st t = (case switch_state st t of Some st' \<Rightarrow> if st' \<noteq> st then Some st' else None | None \<Rightarrow> None)"

lemma transition_run:
  "transition_state tm t (sm, ob) =
     (case edge (sm_state sm) t of
        None \<Rightarrow> (Inr False, (sm, ob))
      | Some st' \<Rightarrow>
          (case (case tm t of Some f \<Rightarrow> f ob | None \<Rightarrow> (Inr (), ob)) of
             (Inr _, ob') \<Rightarrow> (Inr True, (sm\<lparr>sm_state := st', sm_transition := NO_TRANSITION\<rparr>, ob'))
           | (Inl e, ob') \<Rightarrow>
               if is_std_exception e then (Inr False, (sm\<lparr>sm_transition := NO_TRANSITION\<rparr>, ob'))
               else (Inl e, (sm\<lparr>sm_transition := t\<rparr>, ob'))))"
  by (auto simp: transition_state_def run_transition_function_def edge_def get_state_def ev_rules Let_def
      split: option.split prod.split sum.split)

lemma Activatable_transitions_simps [simp]:
  "Activatable_transitions handle TR_CONFIGURE = Some (handle TR_CONFIGURE)"
  "Activatable_transitions handle TR_ACTIVATE = Some (handle TR_ACTIVATE)"
  "Activatable_transitions handle TR_PASSIVATE = Some (handle TR_PASSIVATE)"
  "Activatable_transitions handle TR_TERMINATE = Some (handle TR_TERMINATE)"
  "Activatable_transitions handle NO_TRANSITION = None"
  by (simp_all add: Activatable_transitions_def RegisterTransitionFunction_def)

lemma edge_no_transition [simp]: "edge st NO_TRANSITION = None"
  by (cases st) (simp_all add: edge_def)

lemma Activatable_run:
  "transition_state (Activatable_transitions handle) t (sm, ob) =
     (case edge (sm_state sm) t of
        None \<Rightarrow> (Inr False, (sm, ob))
      | Some st' \<Rightarrow>
          (case handle t ob of
             (Inr _, ob') \<Rightarrow> (Inr True, (sm\<lparr>sm_state := st', sm_transition := NO_TRANSITION\<rparr>, ob'))
           | (Inl e, ob') \<Rightarrow>
               if is_std_exception e then (Inr False, (sm\<lparr>sm_transition := NO_TRANSITION\<rparr>, ob'))
               else (Inl e, (sm\<lparr>sm_transition := t\<rparr>, ob'))))"
  by (cases t) (auto simp: transition_run split: option.split prod.split sum.split)

section \<open>Properties\<close>

text \<open>
  An object only moves along the life cycle. Whatever functions are registered, a transition
  request that returns true has moved the machine along one of the edges
  NOT\_CONFIGURED, CONFIGURED, RUNNING, NOT\_RUNNING and back by TERMINATE, and the registered
  function returned; one that returns false has left the state alone, because there is no such edge
  or because the function threw a standard exception. Afterwards no transition is in progress.
\<close>
theorem transition_state_edge:
  assumes "transition_state tm t (sm, ob) = (Inr b, (sm', ob'))" and "sm_transition sm = NO_TRANSITION"
  shows "sm_transition sm' = NO_TRANSITION \<and>
    (case edge (sm_state sm) t of
       None \<Rightarrow> \<not> b \<and> sm' = sm \<and> ob' = ob
     | Some st' \<Rightarrow>
         (b \<longrightarrow> sm_state sm' = st' \<and> (tm t = None \<and> ob' = ob \<or> (\<exists>f. tm t = Some f \<and> f ob = (Inr (), ob')))) \<and>
         (\<not> b \<longrightarrow> sm' = sm \<and> (\<exists>f e. tm t = Some f \<and> f ob = (Inl e, ob') \<and> is_std_exception e)))"
  using assms unfolding transition_run
  by (cases "tm t") (auto split: option.splits prod.splits sum.splits if_splits)

theorem transition_state_edge_witness:
  "transition_state (\<lambda>_. None) TR_CONFIGURE (StateMachine_init, ()) =
     (Inr True, (StateMachine_init\<lparr>sm_state := ST_CONFIGURED\<rparr>, ())) \<and>
   sm_transition (StateMachine_init\<lparr>sm_state := ST_CONFIGURED\<rparr>) = NO_TRANSITION"
proof -
  have r: "transition_state (\<lambda>_. None) TR_CONFIGURE (StateMachine_init, ()) =
     (Inr True, (StateMachine_init\<lparr>sm_state := ST_CONFIGURED\<rparr>, ()))"
    by (simp add: transition_run edge_def StateMachine_init_def)
  from transition_state_edge [OF r] r show ?thesis by (simp add: StateMachine_init_def)
qed

text \<open>A sequence of requests, with the ones that succeeded.\<close>

fun serve_transitions ::
  "'o transition_map \<Rightarrow> Transition list \<Rightarrow> StateMachine \<times> 'o \<Rightarrow> (Transition list \<times> (StateMachine \<times> 'o)) option" where
  "serve_transitions tm [] s = Some ([], s)"
| "serve_transitions tm (t # ts) s =
     (case transition_state tm t s of
        (Inl _, _) \<Rightarrow> None
      | (Inr b, s') \<Rightarrow> map_option (\<lambda>(us, s''). (if b then t # us else us, s'')) (serve_transitions tm ts s'))"

lemma edge_cases:
  "edge st t = Some st' \<longleftrightarrow> (st, t, st') \<in> {(NOT_CONFIGURED, TR_CONFIGURE, ST_CONFIGURED), (ST_CONFIGURED, TR_ACTIVATE, RUNNING),
     (RUNNING, TR_PASSIVATE, NOT_RUNNING), (ST_CONFIGURED, TR_TERMINATE, NOT_CONFIGURED),
     (RUNNING, TR_TERMINATE, NOT_CONFIGURED), (NOT_RUNNING, TR_TERMINATE, NOT_CONFIGURED)}"
  by (cases st; cases t; cases st') (simp_all add: edge_def)

text \<open>A path of the machine.\<close>

fun well_ordered :: "State \<Rightarrow> Transition list \<Rightarrow> bool" where
  "well_ordered st [] = True"
| "well_ordered st (t # ts) = (case edge st t of None \<Rightarrow> False | Some st' \<Rightarrow> well_ordered st' ts)"

lemma serve_well_ordered:
  "serve_transitions tm ts (sm, ob) = Some (us, (sm', ob')) \<Longrightarrow> sm_transition sm = NO_TRANSITION \<Longrightarrow> well_ordered (sm_state sm) us"
proof (induction ts arbitrary: sm ob us)
  case (Cons t ts)
  obtain b sm1 ob1 us1 where t: "transition_state tm t (sm, ob) = (Inr b, (sm1, ob1))"
    and us1: "serve_transitions tm ts (sm1, ob1) = Some (us1, (sm', ob'))" and us: "us = (if b then t # us1 else us1)"
    using Cons.prems(1) by (auto split: prod.splits sum.splits)
  have n: "sm_transition sm1 = NO_TRANSITION" and e: "if b then edge (sm_state sm) t = Some (sm_state sm1) else sm1 = sm"
    using t Cons.prems(2) unfolding transition_run by (auto split: option.splits prod.splits sum.splits if_splits)
  show ?case using Cons.IH [OF us1 n] us e by (simp split: if_splits)
qed simp

text \<open>What lies before an activation on a path: a configuration, and nothing since that ends or uses it up.\<close>

lemma well_ordered_activate:
  "well_ordered st (xs @ TR_ACTIVATE # zs) \<Longrightarrow>
   st = ST_CONFIGURED \<and> TR_TERMINATE \<notin> set xs \<and> TR_ACTIVATE \<notin> set xs \<or>
   (\<exists>as bs. xs = as @ TR_CONFIGURE # bs \<and> TR_TERMINATE \<notin> set bs \<and> TR_ACTIVATE \<notin> set bs \<and>
      (if as = [] then st = NOT_CONFIGURED else last as = TR_TERMINATE))"
proof (induction xs arbitrary: st)
  case Nil
  then show ?case by (auto simp: edge_cases split: option.splits)
next
  case (Cons y ys)
  then obtain st' where st': "edge st y = Some st'" "well_ordered st' (ys @ TR_ACTIVATE # zs)" by (auto split: option.splits)
  from Cons.IH [OF st'(2)] show ?case
  proof (elim disjE exE conjE)
    assume "st' = ST_CONFIGURED" and n: "TR_TERMINATE \<notin> set ys" "TR_ACTIVATE \<notin> set ys"
    then have "y = TR_CONFIGURE" "st = NOT_CONFIGURED" using st'(1) by (auto simp: edge_cases)
    then have "y # ys = [] @ TR_CONFIGURE # ys \<and> TR_TERMINATE \<notin> set ys \<and> TR_ACTIVATE \<notin> set ys \<and>
        (if [] = [] then st = NOT_CONFIGURED else last [] = TR_TERMINATE)" using n by simp
    then show ?thesis by blast
  next
    fix as bs
    assume ys: "ys = as @ TR_CONFIGURE # bs" "TR_TERMINATE \<notin> set bs" "TR_ACTIVATE \<notin> set bs"
      and l: "if as = [] then st' = NOT_CONFIGURED else last as = TR_TERMINATE"
    have "last (y # as) = TR_TERMINATE" using l st'(1) by (auto simp: edge_cases split: if_splits)
    then have "y # ys = (y # as) @ TR_CONFIGURE # bs \<and> TR_TERMINATE \<notin> set bs \<and> TR_ACTIVATE \<notin> set bs \<and>
        (if y # as = [] then st = NOT_CONFIGURED else last (y # as) = TR_TERMINATE)" using ys by simp
    then show ?thesis by blast
  qed
qed

text \<open>
  C21. An object is activated only after it was configured, and once only. In any sequence of
  requests to a new object, with any handlers, each successful ACTIVATE comes after a successful
  CONFIGURE that is the first success at all or directly follows a successful TERMINATE, and between the
  two neither a TERMINATE nor another ACTIVATE succeeded.
\<close>
theorem no_restart:
  assumes "serve_transitions tm ts (StateMachine_init, ob) = Some (us, s')"
    and "us = xs @ TR_ACTIVATE # zs"
  shows "\<exists>as bs. xs = as @ TR_CONFIGURE # bs \<and> TR_TERMINATE \<notin> set bs \<and> TR_ACTIVATE \<notin> set bs \<and>
    (as = [] \<or> last as = TR_TERMINATE)"
proof -
  obtain sm' ob' where s': "s' = (sm', ob')" by (cases s')
  have "well_ordered (sm_state StateMachine_init) us"
    by (rule serve_well_ordered [OF assms(1) [unfolded s']]) (simp add: StateMachine_init_def)
  then have "well_ordered NOT_CONFIGURED (xs @ TR_ACTIVATE # zs)" using assms(2) by (simp add: StateMachine_init_def)
  from well_ordered_activate [OF this] show ?thesis by (auto split: if_splits)
qed

theorem no_restart_witness:
  "\<exists>as bs. [TR_CONFIGURE, TR_ACTIVATE, TR_PASSIVATE, TR_TERMINATE, TR_CONFIGURE] = as @ TR_CONFIGURE # bs \<and>
     TR_TERMINATE \<notin> set bs \<and> TR_ACTIVATE \<notin> set bs \<and> (as = [] \<or> last as = TR_TERMINATE)"
proof -
  have r: "serve_transitions (\<lambda>_. None) [TR_CONFIGURE, TR_ACTIVATE, TR_PASSIVATE, TR_ACTIVATE, TR_TERMINATE, TR_CONFIGURE, TR_ACTIVATE]
      (StateMachine_init, ()) =
    Some ([TR_CONFIGURE, TR_ACTIVATE, TR_PASSIVATE, TR_TERMINATE, TR_CONFIGURE, TR_ACTIVATE],
      (StateMachine_init\<lparr>sm_state := RUNNING\<rparr>, ()))"
    by (simp add: transition_run edge_def StateMachine_init_def)
  show ?thesis by (rule no_restart [OF r, of _ "[]"]) simp
qed

end
