(* ===== verification/RTPort.thy ===== *)
theory RTPort
  imports RTStateMachine
begin

text \<open>
  Ports: the event counters of \<open>Port\<close> (\<^verbatim>\<open>re/src/core/ports/port.cpp\<close>), \<open>ThreadManager\<close>
  (\<^verbatim>\<open>re/src/core/threadmanager.cpp\<close>) and the message queue of \<open>SubscriberPort\<close>
  (\<^verbatim>\<open>re/src/core/ports/pubsub/subscriberport.hpp\<close>), which any number of threads fill and one thread
  empties. A step of the port is what one thread does under the queue mutex, or between two such
  sections where nothing shared is touched but an atomic counter. The counters have 64 bits and wrap.
\<close>

section \<open>ThreadManager\<close>

datatype TM_State = TM_NONE | TM_CONFIGURED | TM_ACTIVE | TM_TERMINATED

datatype TM_Transition = TM_ACTIVATE | TM_TERMINATE

record ThreadManager =
  tm_states :: "TM_State set"
  tm_transitions :: "TM_Transition set"

definition ThreadManager_init :: ThreadManager where
  "ThreadManager_init = \<lparr>tm_states = {}, tm_transitions = {}\<rparr>"

definition SetState :: "TM_State \<Rightarrow> ThreadManager \<Rightarrow> ThreadManager" where
  "SetState s tm = tm\<lparr>tm_states := insert s (tm_states tm)\<rparr>"

definition SetTransition :: "TM_Transition \<Rightarrow> ThreadManager \<Rightarrow> bool \<times> ThreadManager" where
  "SetTransition t tm =
     (let valid_transition = (case t of TM_ACTIVATE \<Rightarrow> TM_CONFIGURED \<in> tm_states tm | _ \<Rightarrow> True) in
      (valid_transition, if valid_transition then tm\<lparr>tm_transitions := insert t (tm_transitions tm)\<rparr> else tm))"

text \<open>A wait gives \<open>None\<close> while it blocks.\<close>

definition WaitForState :: "TM_State \<Rightarrow> ThreadManager \<Rightarrow> bool option" where
  "WaitForState s tm =
     (if s \<in> tm_states tm \<or> TM_TERMINATED \<in> tm_states tm then Some (s \<in> tm_states tm) else None)"

definition WaitForTransition :: "TM_Transition \<Rightarrow> ThreadManager \<Rightarrow> bool option" where
  "WaitForTransition t tm =
     (if t \<in> tm_transitions tm \<or> TM_TERMINATE \<in> tm_transitions tm then Some (t \<in> tm_transitions tm) else None)"

definition Thread_Configured :: "ThreadManager \<Rightarrow> ThreadManager" where
  "Thread_Configured = SetState TM_CONFIGURED"

definition Thread_Terminated :: "ThreadManager \<Rightarrow> ThreadManager" where
  "Thread_Terminated = SetState TM_TERMINATED"

definition Thread_Activated :: "ThreadManager \<Rightarrow> ThreadManager" where
  "Thread_Activated = SetState TM_ACTIVE"

definition Thread_WaitForActivate :: "ThreadManager \<Rightarrow> bool option" where
  "Thread_WaitForActivate = WaitForTransition TM_ACTIVATE"

definition WaitForActivated :: "ThreadManager \<Rightarrow> bool option" where
  "WaitForActivated = WaitForState TM_ACTIVE"

definition WaitForConfigured :: "ThreadManager \<Rightarrow> bool option" where
  "WaitForConfigured = WaitForState TM_CONFIGURED"

definition SetTerminate :: "ThreadManager \<Rightarrow> ThreadManager" where
  "SetTerminate tm = snd (SetTransition TM_TERMINATE tm)"

section \<open>The subscriber port\<close>

text \<open>Where the thread of \<open>ProcessLoop\<close> stands. \<open>AtHead\<close> is at the head of the loop with
  \<open>running\<close> true, \<open>Draining\<close> in the inner loop with the given value of \<open>running\<close>, \<open>AfterRx\<close> between
  \<open>rx\<close> and the decrement that follows it.\<close>

datatype phase = Starting | AtHead | Draining bool | AfterRx bool | Ended

record 'm SubscriberPort =
  sp_process_event :: bool
  sp_stopped :: bool
  sp_max_queue_size :: int
  sp_message_queue :: "'m list"
  sp_processing_count :: int
  sp_terminate :: bool
  sp_received_count :: "64 word"
  sp_processed_count :: "64 word"
  sp_ignored_count :: "64 word"
  sp_phase :: phase
  sp_queue :: "'m list"
  sp_arriving :: "'m list"
  sp_accepted :: "'m list"
  sp_handled :: "'m list"

text \<open>\<open>sp_process_event\<close> is the answer of \<open>process_event\<close>, \<open>sp_stopped\<close> says that the machine has left
  RUNNING for good, \<open>sp_queue\<close> is the local queue of the thread, \<open>sp_arriving\<close> the messages between
  \<open>EventRecieved\<close> and the locked part of \<open>EnqueueMessage\<close>; the last two members are history: the
  messages that were put into the queue and those that \<open>rx\<close> was called for, in order.\<close>

definition SubscriberPort_init :: "int \<Rightarrow> 'm SubscriberPort" where
  "SubscriberPort_init max_queue_size =
     \<lparr>sp_process_event = False, sp_stopped = False, sp_max_queue_size = max_queue_size, sp_message_queue = [],
      sp_processing_count = 0, sp_terminate = False, sp_received_count = 0, sp_processed_count = 0,
      sp_ignored_count = 0, sp_phase = Starting, sp_queue = [], sp_arriving = [], sp_accepted = [], sp_handled = []\<rparr>"

definition EventRecieved :: "'m SubscriberPort \<Rightarrow> 'm SubscriberPort" where
  "EventRecieved p = p\<lparr>sp_received_count := sp_received_count p + 1\<rparr>"

definition EventProcessed :: "'m SubscriberPort \<Rightarrow> 'm SubscriberPort" where
  "EventProcessed p = p\<lparr>sp_processed_count := sp_processed_count p + 1\<rparr>"

definition EventIgnored :: "'m SubscriberPort \<Rightarrow> 'm SubscriberPort" where
  "EventIgnored p = p\<lparr>sp_ignored_count := sp_ignored_count p + 1\<rparr>"

text \<open>The callback may throw: \<open>rx\<close> logs the exception and counts the message as processed.\<close>

definition rx :: "bool \<Rightarrow> bool \<Rightarrow> 'm SubscriberPort \<Rightarrow> 'm SubscriberPort" where
  "rx has_callback process_message p =
     (if process_message \<and> sp_process_event p \<and> has_callback then EventProcessed p else EventIgnored p)"

definition InterruptLoop :: "'m SubscriberPort \<Rightarrow> 'm SubscriberPort" where
  "InterruptLoop p = p\<lparr>sp_terminate := True\<rparr>"

definition SetMaxQueueSize :: "int \<Rightarrow> 'm SubscriberPort \<Rightarrow> 'm SubscriberPort" where
  "SetMaxQueueSize max_queue_size p = p\<lparr>sp_max_queue_size := max_queue_size\<rparr>"

definition GetQueuedMessageCount :: "'m SubscriberPort \<Rightarrow> int" where
  "GetQueuedMessageCount p = int (length (sp_message_queue p)) + sp_processing_count p"

definition EnqueueMessage_arrive :: "'m \<Rightarrow> 'm SubscriberPort \<Rightarrow> 'm SubscriberPort" where
  "EnqueueMessage_arrive m p = (EventRecieved p)\<lparr>sp_arriving := sp_arriving p @ [m]\<rparr>"

definition EnqueueMessage_locked :: "bool \<Rightarrow> 'm \<Rightarrow> 'm SubscriberPort \<Rightarrow> 'm SubscriberPort" where
  "EnqueueMessage_locked has_callback m p =
     (let queue_size = int (length (sp_message_queue p)) + sp_processing_count p;
          enqueue_message = (sp_process_event p \<and> (sp_max_queue_size p = -1 \<or> sp_max_queue_size p > queue_size));
          p1 = p\<lparr>sp_arriving := remove1 m (sp_arriving p)\<rparr>
      in if enqueue_message
         then p1\<lparr>sp_message_queue := sp_message_queue p @ [m], sp_accepted := sp_accepted p @ [m]\<rparr>
         else rx has_callback False p1)"

text \<open>The locked section at the head of the loop, once its condition holds.\<close>

definition ProcessLoop_swap :: "'m SubscriberPort \<Rightarrow> 'm SubscriberPort" where
  "ProcessLoop_swap p =
     (let p1 = p\<lparr>sp_message_queue := sp_queue p, sp_queue := sp_message_queue p\<rparr>;
          p2 = p1\<lparr>sp_processing_count := sp_processing_count p1 + int (length (sp_queue p1))\<rparr>
      in if sp_terminate p2 then p2\<lparr>sp_terminate := False, sp_phase := Draining False\<rparr>
         else p2\<lparr>sp_phase := Draining True\<rparr>)"

definition ProcessLoop_rx :: "bool \<Rightarrow> bool \<Rightarrow> 'm \<Rightarrow> 'm list \<Rightarrow> 'm SubscriberPort \<Rightarrow> 'm SubscriberPort" where
  "ProcessLoop_rx has_callback running m rest p =
     (rx has_callback True (p\<lparr>sp_queue := rest\<rparr>))\<lparr>sp_phase := AfterRx running, sp_handled := sp_handled p @ [m]\<rparr>"

definition ProcessLoop_count :: "bool \<Rightarrow> 'm SubscriberPort \<Rightarrow> 'm SubscriberPort" where
  "ProcessLoop_count running p =
     p\<lparr>sp_processing_count := sp_processing_count p - 1, sp_phase := Draining running\<rparr>"

text \<open>The steps. \<open>activated\<close> is the return of \<open>Thread_WaitForActivate\<close> with true, \<open>abandoned\<close> with
  false; \<open>started\<close> and \<open>stopped\<close> are what the port's state machine does to \<open>process_event\<close>; the
  handlers that interrupt the loop run inside a transition, when \<open>process_event\<close> is false already.\<close>

inductive port_step :: "bool \<Rightarrow> 'm SubscriberPort \<Rightarrow> 'm SubscriberPort \<Rightarrow> bool" for has_callback where
  arrive: "port_step has_callback p (EnqueueMessage_arrive m p)"
| enqueue: "m \<in> set (sp_arriving p) \<Longrightarrow> port_step has_callback p (EnqueueMessage_locked has_callback m p)"
| activated: "sp_phase p = Starting \<Longrightarrow> port_step has_callback p (p\<lparr>sp_phase := AtHead\<rparr>)"
| abandoned: "sp_phase p = Starting \<Longrightarrow> sp_stopped p \<Longrightarrow> port_step has_callback p (p\<lparr>sp_phase := Ended\<rparr>)"
| started: "sp_phase p \<noteq> Starting \<Longrightarrow> sp_phase p \<noteq> Ended \<Longrightarrow> \<not> sp_stopped p \<Longrightarrow>
    port_step has_callback p (p\<lparr>sp_process_event := True\<rparr>)"
| stopped: "port_step has_callback p (p\<lparr>sp_process_event := False, sp_stopped := True\<rparr>)"
| interrupt: "sp_stopped p \<Longrightarrow> port_step has_callback p (InterruptLoop p)"
| swap: "sp_phase p = AtHead \<Longrightarrow> sp_terminate p \<or> sp_message_queue p \<noteq> [] \<Longrightarrow>
    port_step has_callback p (ProcessLoop_swap p)"
| receive: "sp_phase p = Draining running \<Longrightarrow> sp_queue p = m # rest \<Longrightarrow>
    port_step has_callback p (ProcessLoop_rx has_callback running m rest p)"
| count: "sp_phase p = AfterRx running \<Longrightarrow> port_step has_callback p (ProcessLoop_count running p)"
| again: "sp_phase p = Draining True \<Longrightarrow> sp_queue p = [] \<Longrightarrow> port_step has_callback p (p\<lparr>sp_phase := AtHead\<rparr>)"
| ended: "sp_phase p = Draining False \<Longrightarrow> sp_queue p = [] \<Longrightarrow> port_step has_callback p (p\<lparr>sp_phase := Ended\<rparr>)"

inductive port_reachable :: "bool \<Rightarrow> int \<Rightarrow> 'm SubscriberPort \<Rightarrow> bool" for has_callback max_queue_size where
  init: "port_reachable has_callback max_queue_size (SubscriberPort_init max_queue_size)"
| step: "port_reachable has_callback max_queue_size p \<Longrightarrow> port_step has_callback p p' \<Longrightarrow>
    port_reachable has_callback max_queue_size p'"

section \<open>Invariants\<close>

definition in_rx :: "phase \<Rightarrow> int" where
  "in_rx ph = (case ph of AfterRx _ \<Rightarrow> 1 | _ \<Rightarrow> 0)"

definition port_counts :: "'m SubscriberPort \<Rightarrow> bool" where
  "port_counts p \<longleftrightarrow>
     sp_processing_count p = int (length (sp_queue p)) + in_rx (sp_phase p) \<and>
     sp_received_count p = sp_processed_count p + sp_ignored_count p +
       of_nat (length (sp_arriving p) + length (sp_message_queue p) + length (sp_queue p)) \<and>
     sp_accepted p = sp_handled p @ sp_queue p @ sp_message_queue p \<and>
     (sp_phase p \<in> {Starting, AtHead, Ended} \<longrightarrow> sp_queue p = [])"

definition port_bounded :: "int \<Rightarrow> 'm SubscriberPort \<Rightarrow> bool" where
  "port_bounded mx p \<longleftrightarrow> sp_max_queue_size p = mx \<and>
     (mx \<ge> 0 \<longrightarrow> int (length (sp_message_queue p)) + sp_processing_count p \<le> mx)"

definition port_closing :: "'m SubscriberPort \<Rightarrow> bool" where
  "port_closing p \<longleftrightarrow>
     (sp_terminate p \<longrightarrow> sp_stopped p) \<and> (sp_stopped p \<longrightarrow> \<not> sp_process_event p) \<and>
     (sp_phase p = Starting \<longrightarrow> \<not> sp_process_event p \<and> sp_message_queue p = []) \<and>
     (sp_phase p \<in> {Draining False, AfterRx False, Ended} \<longrightarrow> sp_stopped p \<and> sp_message_queue p = [])"

lemmas port_ops = EnqueueMessage_arrive_def EnqueueMessage_locked_def ProcessLoop_swap_def ProcessLoop_rx_def
  ProcessLoop_count_def rx_def InterruptLoop_def EventRecieved_def EventProcessed_def EventIgnored_def Let_def

lemma length_remove1_of_nat:
  "m \<in> set xs \<Longrightarrow> (of_nat (length (remove1 m xs)) :: 'a::ring_1) = of_nat (length xs) - 1"
  by (induction xs) (auto simp: length_remove1)

lemma port_counts_step: "port_step has_callback p p' \<Longrightarrow> port_counts p \<Longrightarrow> port_counts p'"
  by (induction rule: port_step.induct)
     (auto simp: port_counts_def port_ops in_rx_def length_remove1_of_nat algebra_simps split: phase.splits)

lemma port_bounded_step: "port_step has_callback p p' \<Longrightarrow> port_counts p \<Longrightarrow> port_bounded mx p \<Longrightarrow> port_bounded mx p'"
  by (induction rule: port_step.induct)
     (auto simp: port_bounded_def port_counts_def port_ops in_rx_def)

lemma port_closing_step: "port_step has_callback p p' \<Longrightarrow> port_counts p \<Longrightarrow> port_closing p \<Longrightarrow> port_closing p'"
  by (induction rule: port_step.induct)
     (auto simp: port_closing_def port_counts_def port_ops)

lemma port_reachable_inv:
  "port_reachable has_callback mx p \<Longrightarrow> port_counts p \<and> port_bounded mx p \<and> port_closing p"
proof (induction rule: port_reachable.induct)
  case init
  show ?case by (simp add: port_counts_def port_bounded_def port_closing_def SubscriberPort_init_def in_rx_def)
next
  case (step p p')
  then show ?case by (blast intro: port_counts_step port_bounded_step port_closing_step)
qed

section \<open>Properties\<close>

text \<open>
  C19. No message is lost or reordered. At any moment, with any number of producers, the messages
  received are those processed, ignored, queued, in the hands of the thread and just arriving, in
  the arithmetic of the 64-bit counters; and the messages that were accepted are, in order, those
  the callback was called for, then those in the thread's queue, then those still in the shared
  queue.
\<close>
theorem subscriber_conserves:
  assumes "port_reachable has_callback mx p"
  shows "sp_received_count p = sp_processed_count p + sp_ignored_count p +
      of_nat (length (sp_arriving p) + length (sp_message_queue p) + length (sp_queue p)) \<and>
    sp_accepted p = sp_handled p @ sp_queue p @ sp_message_queue p"
  using port_reachable_inv [OF assms] by (simp add: port_counts_def)

text \<open>
  C20. The queue limit is kept: with a maximum of at least 0, the messages waiting and in processing
  never exceed it. A periodic port, whose maximum is 1, never has a second tick outstanding.
\<close>
theorem subscriber_bounded:
  assumes "port_reachable has_callback mx p" and "mx \<ge> 0"
  shows "GetQueuedMessageCount p \<le> mx"
  using port_reachable_inv [OF assms(1)] assms(2) by (simp add: port_bounded_def GetQueuedMessageCount_def)

text \<open>
  When the thread has ended, nothing is left behind: both queues are empty, and apart from
  messages that are just arriving every message received was processed or ignored.
\<close>
theorem subscriber_ends_empty:
  assumes "port_reachable has_callback mx p" and "sp_phase p = Ended"
  shows "sp_message_queue p = [] \<and> sp_queue p = [] \<and> \<not> sp_process_event p \<and>
    sp_received_count p = sp_processed_count p + sp_ignored_count p + of_nat (length (sp_arriving p))"
  using port_reachable_inv [OF assms(1)] assms(2) by (simp add: port_counts_def port_closing_def)

text \<open>A run: one message is processed, one arrives while the queue is full, the port is stopped.\<close>

definition demo_port_busy :: "nat SubscriberPort" where
  "demo_port_busy = EnqueueMessage_locked True 7
     (EnqueueMessage_arrive 7 ((SubscriberPort_init 1)\<lparr>sp_phase := AtHead, sp_process_event := True\<rparr>))"

lemma demo_port_busy: "port_reachable True 1 demo_port_busy"
proof -
  let ?p0 = "SubscriberPort_init 1 :: nat SubscriberPort"
  let ?p2 = "?p0\<lparr>sp_phase := AtHead, sp_process_event := True\<rparr>"
  have "port_reachable True 1 (?p0\<lparr>sp_phase := AtHead\<rparr>)"
    using port_reachable.step [OF port_reachable.init port_step.activated [of ?p0]] by (simp add: SubscriberPort_init_def)
  from port_reachable.step [OF this port_step.started] have "port_reachable True 1 ?p2"
    by (simp add: SubscriberPort_init_def)
  from port_reachable.step [OF this port_step.arrive [of _ ?p2 7]]
  have "port_reachable True 1 (EnqueueMessage_arrive 7 ?p2)" .
  from port_reachable.step [OF this port_step.enqueue [of 7]] show ?thesis
    unfolding demo_port_busy_def by (simp add: EnqueueMessage_arrive_def)
qed

theorem subscriber_conserves_witness:
  "sp_received_count demo_port_busy = 1 \<and> sp_accepted demo_port_busy = sp_message_queue demo_port_busy \<and>
   sp_message_queue demo_port_busy = [7]"
  using subscriber_conserves [OF demo_port_busy]
  by (simp add: demo_port_busy_def SubscriberPort_init_def port_ops)

theorem subscriber_bounded_witness: "GetQueuedMessageCount demo_port_busy \<le> 1"
  using subscriber_bounded [OF demo_port_busy] by simp

definition demo_port_ended :: "nat SubscriberPort" where
  "demo_port_ended = (ProcessLoop_count False (ProcessLoop_rx True False 7 []
     (ProcessLoop_swap (InterruptLoop (demo_port_busy\<lparr>sp_process_event := False, sp_stopped := True\<rparr>)))))\<lparr>sp_phase := Ended\<rparr>"

lemma demo_port_ended: "port_reachable True 1 demo_port_ended"
proof -
  let ?p1 = "InterruptLoop (demo_port_busy\<lparr>sp_process_event := False, sp_stopped := True\<rparr>)"
  have ph: "sp_phase ?p1 = AtHead" "sp_terminate ?p1" "sp_queue ?p1 = []" "sp_message_queue ?p1 = [7]"
    by (simp_all add: demo_port_busy_def SubscriberPort_init_def port_ops)
  have "port_reachable True 1 ?p1"
    by (rule port_reachable.step [OF port_reachable.step [OF demo_port_busy port_step.stopped]]) (rule port_step.interrupt, simp)
  from port_reachable.step [OF this port_step.swap] ph have r: "port_reachable True 1 (ProcessLoop_swap ?p1)" by simp
  have q: "sp_phase (ProcessLoop_swap ?p1) = Draining False" "sp_queue (ProcessLoop_swap ?p1) = [7]"
    using ph by (simp_all add: ProcessLoop_swap_def Let_def)
  from port_reachable.step [OF r port_step.receive [OF q]]
  have r: "port_reachable True 1 (ProcessLoop_rx True False 7 [] (ProcessLoop_swap ?p1))" .
  have "sp_phase (ProcessLoop_rx True False 7 [] (ProcessLoop_swap ?p1)) = AfterRx False" by (simp add: ProcessLoop_rx_def)
  from port_reachable.step [OF r port_step.count [OF this]]
  have r: "port_reachable True 1 (ProcessLoop_count False (ProcessLoop_rx True False 7 [] (ProcessLoop_swap ?p1)))" .
  show ?thesis unfolding demo_port_ended_def
    by (rule port_reachable.step [OF r port_step.ended]) (simp_all add: ProcessLoop_count_def ProcessLoop_rx_def rx_def
        EventProcessed_def EventIgnored_def)
qed

theorem subscriber_ends_empty_witness:
  "sp_received_count demo_port_ended = sp_processed_count demo_port_ended + sp_ignored_count demo_port_ended \<and>
   sp_ignored_count demo_port_ended = 1"
  using subscriber_ends_empty [OF demo_port_ended]
  by (simp add: demo_port_ended_def demo_port_busy_def SubscriberPort_init_def port_ops)

end
