(* ===== verification/RTPortLife.thy ===== *)
theory RTPortLife
  imports Complex_Main RTStateMachine RTPort
begin

text \<open>
  The life of the threads behind a subscriber port (\<^verbatim>\<open>re/src/core/ports/pubsub/subscriberport.hpp\<close>) and a
  periodic port (\<^verbatim>\<open>re/src/core/ports/periodicport.cpp\<close>) over several configurations. Each thread
  shares with the handlers a \<open>ThreadManager\<close> and one flag that interrupts its loop (\<open>terminate_\<close>,
  \<open>interupt_\<close>). A thread is shown at the places where it waits, and \<open>ProcessLoop_advance\<close> and
  \<open>TickLoop_advance\<close> run it to its next wait; the messages themselves are the subject of \<open>RTPort\<close>.
  A handler that waits for its thread contains the advance that ends the wait.
\<close>

section \<open>Threads\<close>

datatype thread_phase = NoThread | AwaitingActivate | Looping | Finished

record LoopThread =
  lt_manager :: "ThreadManager option"
  lt_phase :: thread_phase
  lt_interrupted :: bool

definition LoopThread_init :: LoopThread where
  "LoopThread_init = \<lparr>lt_manager = None, lt_phase = NoThread, lt_interrupted = False\<rparr>"

definition upd_manager :: "(ThreadManager \<Rightarrow> ThreadManager) \<Rightarrow> LoopThread \<Rightarrow> LoopThread" where
  "upd_manager f th = th\<lparr>lt_manager := map_option f (lt_manager th)\<rparr>"

text \<open>The beginning of both loops.\<close>

definition thread_await_activate :: "LoopThread \<Rightarrow> LoopThread" where
  "thread_await_activate th =
     (case lt_manager th of
        None \<Rightarrow> th
      | Some tm \<Rightarrow>
          (case Thread_WaitForActivate tm of
             None \<Rightarrow> th
           | Some True \<Rightarrow> (upd_manager Thread_Activated th)\<lparr>lt_phase := Looping\<rparr>
           | Some False \<Rightarrow> (upd_manager Thread_Terminated th)\<lparr>lt_phase := Finished\<rparr>))"

text \<open>\<open>ProcessLoop\<close> takes the flag back when it ends the loop, \<open>TickLoop\<close> does not.\<close>

definition ProcessLoop_advance :: "LoopThread \<Rightarrow> LoopThread" where
  "ProcessLoop_advance th =
     (case lt_phase th of
        AwaitingActivate \<Rightarrow> thread_await_activate th
      | Looping \<Rightarrow>
          if lt_interrupted th
          then (upd_manager Thread_Terminated th)\<lparr>lt_interrupted := False, lt_phase := Finished\<rparr>
          else th
      | _ \<Rightarrow> th)"

definition TickLoop_advance :: "LoopThread \<Rightarrow> LoopThread" where
  "TickLoop_advance th =
     (case lt_phase th of
        AwaitingActivate \<Rightarrow> thread_await_activate th
      | Looping \<Rightarrow>
          if lt_interrupted th then (upd_manager Thread_Terminated th)\<lparr>lt_phase := Finished\<rparr> else th
      | _ \<Rightarrow> th)"

section \<open>The handlers of a port with one thread\<close>

text \<open>\<open>std::async\<close> starts the thread, which reports that it is configured and then waits.\<close>

definition thread_configure :: "string \<Rightarrow> (LoopThread, unit) em" where
  "thread_configure error =
     bindE getE (\<lambda>th.
     case lt_manager th of
       None \<Rightarrow> modifyE (\<lambda>th. th\<lparr>lt_manager := Some (Thread_Configured ThreadManager_init), lt_phase := AwaitingActivate\<rparr>)
     | Some _ \<Rightarrow> throwE (RuntimeError error))"

definition ThreadManager_Activate :: "(LoopThread \<Rightarrow> LoopThread) \<Rightarrow> LoopThread \<Rightarrow> LoopThread" where
  "ThreadManager_Activate advance th = advance (upd_manager (\<lambda>tm. snd (SetTransition TM_ACTIVATE tm)) th)"

definition ThreadManager_Terminate :: "(LoopThread \<Rightarrow> LoopThread) \<Rightarrow> LoopThread \<Rightarrow> LoopThread" where
  "ThreadManager_Terminate advance th = advance (upd_manager SetTerminate th)"

definition thread_activate :: "(LoopThread \<Rightarrow> LoopThread) \<Rightarrow> string \<Rightarrow> (LoopThread, unit) em" where
  "thread_activate advance error =
     bindE getE (\<lambda>th.
     case lt_manager th of
       Some _ \<Rightarrow> modifyE (ThreadManager_Activate advance)
     | None \<Rightarrow> throwE (RuntimeError error))"

definition thread_interrupt :: "LoopThread \<Rightarrow> LoopThread" where
  "thread_interrupt th = th\<lparr>lt_interrupted := True\<rparr>"

definition thread_terminate :: "(LoopThread \<Rightarrow> LoopThread) \<Rightarrow> LoopThread \<Rightarrow> LoopThread" where
  "thread_terminate advance th =
     (let th1 = thread_interrupt th in
      case lt_manager th1 of
        Some _ \<Rightarrow> (ThreadManager_Terminate advance th1)\<lparr>lt_manager := None\<rparr>
      | None \<Rightarrow> th1)"

fun SubscriberPort_Handle :: "Transition \<Rightarrow> (LoopThread, unit) em" where
  "SubscriberPort_Handle TR_CONFIGURE = thread_configure ''SubscriberPort has an active ThreadManager''"
| "SubscriberPort_Handle TR_ACTIVATE = thread_activate ProcessLoop_advance ''Got no Thread Manager''"
| "SubscriberPort_Handle TR_PASSIVATE = modifyE thread_interrupt"
| "SubscriberPort_Handle TR_TERMINATE = modifyE (thread_terminate ProcessLoop_advance)"
| "SubscriberPort_Handle NO_TRANSITION = returnE ()"

section \<open>The periodic port\<close>

text \<open>The frequency is the value of the attribute of that name, a rational number of Hz; the rounding
  of doubles is not modelled.\<close>

record PeriodicPort =
  pp_frequency :: rat
  pp_tick :: LoopThread
  pp_subscriber :: LoopThread

text \<open>The argument \<open>milliseconds\<close> of the constructor is not used there.\<close>

definition RTPeriodicPort_ctor :: "int \<Rightarrow> PeriodicPort" where
  "RTPeriodicPort_ctor milliseconds =
     \<lparr>pp_frequency = 0, pp_tick = LoopThread_init, pp_subscriber = LoopThread_init\<rparr>"

definition on_tick :: "(LoopThread, unit) em \<Rightarrow> (PeriodicPort, unit) em" where
  "on_tick m = (\<lambda>p. case m (pp_tick p) of (r, th) \<Rightarrow> (r, p\<lparr>pp_tick := th\<rparr>))"

definition on_subscriber :: "(LoopThread, unit) em \<Rightarrow> (PeriodicPort, unit) em" where
  "on_subscriber m = (\<lambda>p. case m (pp_subscriber p) of (r, th) \<Rightarrow> (r, p\<lparr>pp_subscriber := th\<rparr>))"

definition SetFrequency :: "rat \<Rightarrow> PeriodicPort \<Rightarrow> PeriodicPort" where
  "SetFrequency hz p = p\<lparr>pp_frequency := hz\<rparr>"

definition SetDuration :: "int \<Rightarrow> PeriodicPort \<Rightarrow> PeriodicPort" where
  "SetDuration milliseconds p =
     (if milliseconds > 0 then SetFrequency (of_int (1000 div milliseconds)) p else SetFrequency 0 p)"

fun PeriodicPort_tick_handle :: "Transition \<Rightarrow> (LoopThread, unit) em" where
  "PeriodicPort_tick_handle TR_CONFIGURE = thread_configure ''PeriodicPort has an active ThreadManager''"
| "PeriodicPort_tick_handle TR_ACTIVATE = thread_activate TickLoop_advance ''PeriodicPort has no Thread Manager''"
| "PeriodicPort_tick_handle TR_PASSIVATE = modifyE thread_interrupt"
| "PeriodicPort_tick_handle TR_TERMINATE = modifyE (thread_terminate TickLoop_advance)"
| "PeriodicPort_tick_handle NO_TRANSITION = returnE ()"

definition PeriodicPort_Handle :: "Transition \<Rightarrow> (PeriodicPort, unit) em" where
  "PeriodicPort_Handle t =
     bindE (on_tick (PeriodicPort_tick_handle t)) (\<lambda>_. on_subscriber (SubscriberPort_Handle t))"

text \<open>The wait of \<open>TickLoop\<close>: the microseconds to the next tick, \<open>None\<close> for a wait without limit; the
  loop enqueues a message when the wait runs out.\<close>

definition tick_wait :: "PeriodicPort \<Rightarrow> rat option" where
  "tick_wait p = (if pp_frequency p \<le> 0 then None else Some (1000000 / pp_frequency p))"

definition TickLoop_ticks :: "PeriodicPort \<Rightarrow> bool" where
  "TickLoop_ticks p \<longleftrightarrow> lt_phase (pp_tick p) = Looping \<and> \<not> lt_interrupted (pp_tick p) \<and> tick_wait p \<noteq> None"

section \<open>Steps\<close>

text \<open>\<open>GetConfiguredPort\<close> is followed by this for a port that is configured already
  (\<^verbatim>\<open>nodemanager/deploymentcontainer.cpp\<close>).\<close>

definition reconfigure_port :: "(Transition \<Rightarrow> ('o, unit) em) \<Rightarrow> (StateMachine \<times> 'o, bool) em" where
  "reconfigure_port handle =
     bindE (Activatable_Terminate handle) (\<lambda>_.
     bindE (Activatable_Configure handle) (\<lambda>_.
     Activatable_Activate handle))"

inductive sub_life :: "StateMachine \<times> LoopThread \<Rightarrow> bool" where
  init: "sub_life (StateMachine_init, LoopThread_init)"
| transition: "sub_life s \<Longrightarrow> transition_state (Activatable_transitions SubscriberPort_Handle) t s = (r, s') \<Longrightarrow> sub_life s'"
| thread: "sub_life (sm, th) \<Longrightarrow> sub_life (sm, ProcessLoop_advance th)"

inductive periodic_step :: "StateMachine \<times> PeriodicPort \<Rightarrow> StateMachine \<times> PeriodicPort \<Rightarrow> bool" where
  transition: "transition_state (Activatable_transitions PeriodicPort_Handle) t s = (r, s') \<Longrightarrow> periodic_step s s'"
| tick_thread: "periodic_step (sm, p) (sm, p\<lparr>pp_tick := TickLoop_advance (pp_tick p)\<rparr>)"
| process_thread: "periodic_step (sm, p) (sm, p\<lparr>pp_subscriber := ProcessLoop_advance (pp_subscriber p)\<rparr>)"
| frequency: "periodic_step (sm, p) (sm, SetFrequency hz p)"
| duration: "periodic_step (sm, p) (sm, SetDuration ms p)"

section \<open>Lemmas\<close>

lemmas thread_ops = thread_configure_def thread_activate_def ThreadManager_Activate_def ThreadManager_Terminate_def
  thread_interrupt_def thread_terminate_def thread_await_activate_def upd_manager_def ev_rules Let_def

lemmas manager_ops = Thread_Configured_def Thread_Activated_def Thread_Terminated_def SetState_def SetTransition_def
  SetTerminate_def Thread_WaitForActivate_def WaitForTransition_def ThreadManager_init_def

lemmas activatable_ops = Activatable_Configure_def Activatable_Activate_def Activatable_Passivate_def
  Activatable_Terminate_def StateMachine_Configure_def StateMachine_Activate_def StateMachine_Passivate_def
  StateMachine_Terminate_def

text \<open>How the state of a port and the place of a thread belong together.\<close>

definition thread_life_inv :: "StateMachine \<Rightarrow> LoopThread \<Rightarrow> bool" where
  "thread_life_inv sm th \<longleftrightarrow>
     (case sm_state sm of
        NOT_CONFIGURED \<Rightarrow> lt_manager th = None \<and> lt_phase th \<in> {NoThread, Finished}
      | ST_CONFIGURED \<Rightarrow> lt_manager th = Some (Thread_Configured ThreadManager_init) \<and> lt_phase th = AwaitingActivate
      | _ \<Rightarrow> lt_manager th \<noteq> None \<and> lt_phase th \<in> {Looping, Finished})"

definition thread_handle :: "(LoopThread \<Rightarrow> LoopThread) \<Rightarrow> (Transition \<Rightarrow> (LoopThread, unit) em) \<Rightarrow> bool" where
  "thread_handle advance handle \<longleftrightarrow> (\<exists>e1 e2. handle TR_CONFIGURE = thread_configure e1 \<and> handle TR_ACTIVATE = thread_activate advance e2 \<and>
     handle TR_PASSIVATE = modifyE thread_interrupt \<and> handle TR_TERMINATE = modifyE (thread_terminate advance))"

lemma thread_handles:
  "thread_handle ProcessLoop_advance SubscriberPort_Handle" "thread_handle TickLoop_advance PeriodicPort_tick_handle"
  by (auto simp: thread_handle_def)

lemma advance_simps:
  "lt_phase th = AwaitingActivate \<Longrightarrow> ProcessLoop_advance th = thread_await_activate th"
  "lt_phase th = AwaitingActivate \<Longrightarrow> TickLoop_advance th = thread_await_activate th"
  by (simp_all add: ProcessLoop_advance_def TickLoop_advance_def)

lemma handle_thread_life_inv:
  assumes "thread_life_inv sm th" and "edge (sm_state sm) t = Some st" and "thread_handle advance handle"
    and "advance \<in> {ProcessLoop_advance, TickLoop_advance}"
  shows "\<exists>th'. handle t th = (Inr (), th') \<and> thread_life_inv (sm\<lparr>sm_state := st, sm_transition := NO_TRANSITION\<rparr>) th'"
proof -
  obtain e1 e2 where h: "handle TR_CONFIGURE = thread_configure e1" "handle TR_ACTIVATE = thread_activate advance e2"
    "handle TR_PASSIVATE = modifyE thread_interrupt" "handle TR_TERMINATE = modifyE (thread_terminate advance)"
    using assms(3) by (auto simp: thread_handle_def)
  consider "sm_state sm = NOT_CONFIGURED" "t = TR_CONFIGURE" "st = ST_CONFIGURED"
    | "sm_state sm = ST_CONFIGURED" "t = TR_ACTIVATE" "st = RUNNING" | "sm_state sm = RUNNING" "t = TR_PASSIVATE" "st = NOT_RUNNING"
    | "sm_state sm = ST_CONFIGURED" "t = TR_TERMINATE" "st = NOT_CONFIGURED"
    | "sm_state sm \<in> {RUNNING, NOT_RUNNING}" "t = TR_TERMINATE" "st = NOT_CONFIGURED"
    using assms(2) by (auto simp: edge_cases)
  then show ?thesis
  proof cases
    case 1
    then show ?thesis using assms(1) by (auto simp: h thread_life_inv_def thread_ops)
  next
    case 2
    then show ?thesis using assms(1,4) by (auto simp: h thread_life_inv_def thread_ops manager_ops advance_simps)
  next
    case 3
    then show ?thesis using assms(1) by (auto simp: h thread_life_inv_def thread_ops)
  next
    case 4
    then show ?thesis using assms(1,4) by (auto simp: h thread_life_inv_def thread_ops manager_ops advance_simps)
  next
    case 5
    then show ?thesis using assms(1,4)
      by (auto simp: h thread_life_inv_def thread_ops ProcessLoop_advance_def TickLoop_advance_def)
  qed
qed

lemma advance_life_inv:
  "thread_life_inv sm th \<Longrightarrow> thread_life_inv sm (ProcessLoop_advance th)" "thread_life_inv sm th \<Longrightarrow> thread_life_inv sm (TickLoop_advance th)"
  by (cases "sm_state sm";
      auto simp: thread_life_inv_def ProcessLoop_advance_def TickLoop_advance_def thread_await_activate_def upd_manager_def manager_ops)+

lemma sub_life_inv: "sub_life s \<Longrightarrow> sm_transition (fst s) = NO_TRANSITION \<and> thread_life_inv (fst s) (snd s)"
proof (induction rule: sub_life.induct)
  case init
  show ?case by (simp add: StateMachine_init_def LoopThread_init_def thread_life_inv_def)
next
  case (transition s t r s')
  obtain sm th where s: "s = (sm, th)" by (cases s)
  show ?case
  proof (cases "edge (sm_state sm) t")
    case None
    then show ?thesis using transition by (auto simp: s Activatable_run)
  next
    case (Some st)
    obtain th' where "SubscriberPort_Handle t th = (Inr (), th')"
      "thread_life_inv (sm\<lparr>sm_state := st, sm_transition := NO_TRANSITION\<rparr>) th'"
      using handle_thread_life_inv [OF _ Some thread_handles(1)] transition.IH by (auto simp: s)
    then show ?thesis using transition.hyps Some by (auto simp: s Activatable_run)
  qed
next
  case (thread sm th)
  then show ?case by (simp add: advance_life_inv)
qed

section \<open>Properties\<close>

text \<open>
  A subscriber port that is reconfigured keeps working exactly when its thread was in its loop. In
  every state that a port can reach in which it is configured, TERMINATE, CONFIGURE and ACTIVATE
  succeed one after the other and the port accepts messages; its thread then waits for messages when
  it was in its loop before, and otherwise (the port was not yet activated, or was passivated and
  its thread had ended) it ends at once, because \<open>HandleTerminate\<close> left \<open>terminate_\<close> set for the next
  thread: the port accepts messages that no thread takes out.
\<close>
theorem subscriber_restart:
  assumes "sub_life (sm, th)" and "sm_state sm \<noteq> NOT_CONFIGURED"
  shows "\<exists>sm' th'. reconfigure_port SubscriberPort_Handle (sm, th) = (Inr True, (sm', th')) \<and> process_event sm' \<and>
    lt_phase (ProcessLoop_advance th') = (if lt_phase th = Looping then Looping else Finished)"
proof -
  have i: "thread_life_inv sm th" using sub_life_inv [OF assms(1)] by simp
  obtain tm where tm: "lt_manager th = Some tm" using i assms(2) by (auto simp: thread_life_inv_def split: State.splits)
  let ?th1 = "thread_terminate ProcessLoop_advance th"
  have t1: "lt_manager ?th1 = None \<and> lt_interrupted ?th1 = (lt_phase th \<noteq> Looping)"
    using i assms(2) tm
    by (cases "sm_state sm") (auto simp: thread_life_inv_def thread_ops manager_ops ProcessLoop_advance_def)
  have e: "edge (sm_state sm) TR_TERMINATE = Some NOT_CONFIGURED" "edge NOT_CONFIGURED TR_CONFIGURE = Some ST_CONFIGURED"
    "edge ST_CONFIGURED TR_ACTIVATE = Some RUNNING"
    using assms(2) by (cases "sm_state sm"; simp add: edge_def)+
  show ?thesis using t1 e
    by (auto simp: reconfigure_port_def activatable_ops ev_rules Activatable_run process_event_def get_state_def
        get_transition_def thread_configure_def thread_activate_def ThreadManager_Activate_def upd_manager_def
        manager_ops thread_await_activate_def ProcessLoop_advance_def)
qed

theorem subscriber_restart_witness:
  "\<exists>sm th sm' th'. sub_life (sm, th) \<and> sm_state sm = ST_CONFIGURED \<and>
     reconfigure_port SubscriberPort_Handle (sm, th) = (Inr True, (sm', th')) \<and> process_event sm' \<and>
     lt_phase (ProcessLoop_advance th') = Finished"
proof -
  let ?sm = "StateMachine_init\<lparr>sm_state := ST_CONFIGURED\<rparr>"
  let ?th = "LoopThread_init\<lparr>lt_manager := Some (Thread_Configured ThreadManager_init), lt_phase := AwaitingActivate\<rparr>"
  have "transition_state (Activatable_transitions SubscriberPort_Handle) TR_CONFIGURE (StateMachine_init, LoopThread_init) =
      (Inr True, (?sm, ?th))"
    by (simp add: Activatable_run edge_def StateMachine_init_def LoopThread_init_def thread_ops)
  from sub_life.transition [OF sub_life.init this] have r: "sub_life (?sm, ?th)" .
  obtain sm' th' where "reconfigure_port SubscriberPort_Handle (?sm, ?th) = (Inr True, (sm', th'))" "process_event sm'"
    "lt_phase (ProcessLoop_advance th') = Finished"
    using subscriber_restart [OF r] by auto
  then show ?thesis using r by (intro exI [of _ ?sm] exI [of _ ?th] exI [of _ sm'] exI [of _ th']) simp
qed

text \<open>An interrupted tick thread.\<close>

definition tick_dead :: "StateMachine \<times> PeriodicPort \<Rightarrow> bool" where
  "tick_dead s \<longleftrightarrow> lt_interrupted (pp_tick (snd s))"

lemma tick_handle_interrupted:
  "lt_interrupted th \<Longrightarrow> lt_interrupted (snd (PeriodicPort_tick_handle t th))"
  by (cases t) (auto simp: thread_ops TickLoop_advance_def split: option.split thread_phase.split bool.split)

lemma PeriodicPort_Handle_tick:
  "pp_tick (snd (PeriodicPort_Handle t p)) = snd (PeriodicPort_tick_handle t (pp_tick p))"
  by (auto simp: PeriodicPort_Handle_def on_tick_def on_subscriber_def ev_rules split: prod.split sum.split)

lemma transition_snd:
  assumes "transition_state (Activatable_transitions handle) t (sm, p) = (r, (sm', p'))"
  shows "p' = p \<or> p' = snd (handle t p)"
  using assms by (auto simp: Activatable_run split: option.splits prod.splits sum.splits if_splits)

lemma tick_dead_step: "periodic_step s s' \<Longrightarrow> tick_dead s \<Longrightarrow> tick_dead s'"
proof (induction rule: periodic_step.induct)
  case (transition t s r s')
  obtain sm p sm' p' where s: "s = (sm, p)" "s' = (sm', p')" by (cases s, cases s')
  then show ?case using transition_snd [of PeriodicPort_Handle t sm p r sm' p'] transition
      tick_handle_interrupted [of "pp_tick p" t]
    by (auto simp: tick_dead_def PeriodicPort_Handle_tick)
next
  case (tick_thread sm p)
  then show ?case
    by (auto simp: tick_dead_def TickLoop_advance_def thread_await_activate_def upd_manager_def
        split: option.split thread_phase.split bool.split)
qed (auto simp: tick_dead_def SetFrequency_def SetDuration_def)

text \<open>
  A periodic port ticks in its first run only. Once a periodic port was passivated or
  terminated, it never ticks again, whatever happens to it afterwards: it may be configured,
  activated and given a frequency, but \<open>TickLoop\<close>, unlike \<open>ProcessLoop\<close>, never takes
  back the flag that interrupts it.
\<close>
theorem periodic_silent_after_stop:
  assumes "transition_state (Activatable_transitions PeriodicPort_Handle) t (sm, p) = (Inr True, s1)"
    and "t \<in> {TR_PASSIVATE, TR_TERMINATE}" and "periodic_step\<^sup>*\<^sup>* s1 (sm', p')"
  shows "\<not> TickLoop_ticks p'"
proof -
  have "lt_interrupted (snd (PeriodicPort_tick_handle t (pp_tick p)))"
    using assms(2) by (auto simp: thread_ops TickLoop_advance_def split: option.split thread_phase.split bool.split)
  moreover obtain sm1 p1 where s1: "s1 = (sm1, p1)" by (cases s1)
  moreover have "p1 = snd (PeriodicPort_Handle t p)"
    using assms(1) by (auto simp: s1 Activatable_run split: option.splits prod.splits sum.splits if_splits)
  ultimately have "tick_dead s1" by (simp add: tick_dead_def PeriodicPort_Handle_tick)
  with assms(3) have "tick_dead (sm', p')" by (induction rule: rtranclp_induct) (auto intro: tick_dead_step)
  then show ?thesis by (simp add: tick_dead_def TickLoop_ticks_def)
qed

text \<open>A port with 1 Hz that ticks, and the same port after it was reconfigured.\<close>

definition demo_thread :: LoopThread where
  "demo_thread = \<lparr>lt_manager = Some \<lparr>tm_states = {TM_CONFIGURED, TM_ACTIVE}, tm_transitions = {TM_ACTIVATE}\<rparr>,
     lt_phase = Looping, lt_interrupted = False\<rparr>"

definition demo_periodic :: PeriodicPort where
  "demo_periodic = \<lparr>pp_frequency = 1, pp_tick = demo_thread, pp_subscriber = demo_thread\<rparr>"

theorem periodic_silent_after_stop_witness:
  "TickLoop_ticks demo_periodic \<and>
   (\<exists>sm' p'. reconfigure_port PeriodicPort_Handle (StateMachine_init\<lparr>sm_state := RUNNING\<rparr>, demo_periodic) = (Inr True, (sm', p')) \<and>
     process_event sm' \<and> \<not> TickLoop_ticks p')"
proof -
  let ?sm = "StateMachine_init\<lparr>sm_state := RUNNING\<rparr>"
  let ?T = "\<lambda>t. transition_state (Activatable_transitions PeriodicPort_Handle) t"
  obtain p1 where p1: "?T TR_TERMINATE (?sm, demo_periodic) = (Inr True, (StateMachine_init, p1))"
    "lt_manager (pp_tick p1) = None" "lt_manager (pp_subscriber p1) = None"
    by (simp add: Activatable_run edge_def StateMachine_init_def PeriodicPort_Handle_def on_tick_def on_subscriber_def
        demo_periodic_def demo_thread_def thread_ops TickLoop_advance_def ProcessLoop_advance_def)
  obtain p2 where p2: "?T TR_CONFIGURE (StateMachine_init, p1) = (Inr True, (StateMachine_init\<lparr>sm_state := ST_CONFIGURED\<rparr>, p2))"
    "lt_manager (pp_tick p2) \<noteq> None" "lt_manager (pp_subscriber p2) \<noteq> None"
    using p1(2,3) by (simp add: Activatable_run edge_def StateMachine_init_def PeriodicPort_Handle_def on_tick_def
        on_subscriber_def thread_ops)
  obtain p3 where p3: "?T TR_ACTIVATE (StateMachine_init\<lparr>sm_state := ST_CONFIGURED\<rparr>, p2) = (Inr True, (?sm, p3))"
    using p2(2,3) by (auto simp: Activatable_run edge_def StateMachine_init_def PeriodicPort_Handle_def on_tick_def
        on_subscriber_def thread_ops)
  have "periodic_step\<^sup>*\<^sup>* (StateMachine_init, p1) (?sm, p3)"
    using periodic_step.transition [OF p2(1)] periodic_step.transition [OF p3] by (meson converse_rtranclp_into_rtranclp rtranclp.rtrancl_refl)
  from periodic_silent_after_stop [OF p1(1) _ this] have "\<not> TickLoop_ticks p3" by simp
  moreover have "reconfigure_port PeriodicPort_Handle (?sm, demo_periodic) = (Inr True, (?sm, p3))"
    using p1(1) p2(1) p3 by (simp add: reconfigure_port_def activatable_ops ev_rules)
  ultimately show ?thesis
    by (auto simp: process_event_def get_state_def get_transition_def StateMachine_init_def TickLoop_ticks_def tick_wait_def
        demo_periodic_def demo_thread_def)
qed

text \<open>
  \<open>SetDuration\<close> divides integers. For a duration of \<open>ms\<close> milliseconds between 1 and 1000 the
  time between two ticks is never shorter than asked for, and it is exactly \<open>ms\<close> if and only if \<open>ms\<close>
  divides 1000; for a longer duration (and for none) the port does not tick at all.
\<close>
theorem SetDuration_period:
  "if 1 \<le> ms \<and> ms \<le> 1000
   then (\<exists>us. tick_wait (SetDuration ms p) = Some us \<and> us \<ge> of_int (1000 * ms) \<and> (us = of_int (1000 * ms) \<longleftrightarrow> ms dvd 1000))
   else tick_wait (SetDuration ms p) = None"
proof (cases "1 \<le> ms \<and> ms \<le> 1000")
  case True
  let ?f = "1000 div ms"
  have f: "?f \<ge> 1" using True by (simp add: pos_imp_zdiv_pos_iff int_one_le_iff_zero_less)
  have le: "?f * ms \<le> 1000" using True div_mult_mod_eq [of 1000 ms] pos_mod_sign [of ms 1000] by linarith
  have w: "tick_wait (SetDuration ms p) = Some (1000000 / of_int ?f)"
    using True f by (simp add: tick_wait_def SetDuration_def SetFrequency_def)
  have "of_int (?f * (1000 * ms)) \<le> (of_int 1000000 :: rat)" using le by (intro of_int_le_iff [THEN iffD2]) (simp add: mult.commute)
  then have "1000000 / of_int ?f \<ge> (of_int (1000 * ms) :: rat)" using f by (simp add: field_simps)
  moreover have "(1000000 / of_int ?f = (of_int (1000 * ms) :: rat)) \<longleftrightarrow> ?f * ms = 1000"
  proof -
    have "(1000000 / of_int ?f = (of_int (1000 * ms) :: rat)) \<longleftrightarrow> (of_int (1000 * (?f * ms)) :: rat) = of_int (1000 * 1000)"
      using f by (simp add: field_simps)
    also have "\<dots> \<longleftrightarrow> ?f * ms = 1000" by (subst of_int_eq_iff) (simp add: mult.commute)
    finally show ?thesis .
  qed
  moreover have "?f * ms = 1000 \<longleftrightarrow> ms dvd 1000" by (metis dvd_div_mult_self dvd_triv_right)
  ultimately show ?thesis using True w by simp
next
  case False
  then show ?thesis
    by (auto simp: tick_wait_def SetDuration_def SetFrequency_def)
qed

end
