(* ===== verification/RTRequestReply.thy ===== *)
theory RTRequestReply
  imports ProtoRPC RTStateMachine
begin

text \<open>
  Ports that answer requests (\<^verbatim>\<open>re/src/core/ports/requestreply/replierport.hpp\<close>) and ports that send them
  (\<^verbatim>\<open>requesterport.hpp\<close>), with the counters of \<^verbatim>\<open>ports/port.cpp\<close>. The callback of a component and the
  transport of a middleware are computations on a state of their own and are parameters. A type \<open>void\<close>
  is \<open>unit\<close>; the C++ templates have a specialisation for each place where \<open>void\<close> may occur, and each is
  a definition here.
\<close>

section \<open>Counters\<close>

datatype UtilizationEvent = UE_STARTED_FUNC | UE_FINISHED_FUNC | UE_IGNORED | UE_EXCEPTION string | UE_GENERAL string

record RRPort =
  rr_machine :: StateMachine
  rr_received :: "64 word"
  rr_processed :: "64 word"
  rr_ignored :: "64 word"
  rr_log :: "UtilizationEvent list"

definition RRPort_init :: "StateMachine \<Rightarrow> RRPort" where
  "RRPort_init sm = \<lparr>rr_machine = sm, rr_received = 0, rr_processed = 0, rr_ignored = 0, rr_log = []\<rparr>"

definition LogPortUtilizationEvent :: "UtilizationEvent \<Rightarrow> (RRPort \<times> 'o, unit) em" where
  "LogPortUtilizationEvent event = on_fst (modifyE (\<lambda>p. p\<lparr>rr_log := rr_log p @ [event]\<rparr>))"

definition rr_EventRecieved :: "(RRPort \<times> 'o, unit) em" where
  "rr_EventRecieved = on_fst (modifyE (\<lambda>p. p\<lparr>rr_received := rr_received p + 1\<rparr>))"

definition rr_EventProcessed :: "(RRPort \<times> 'o, unit) em" where
  "rr_EventProcessed = on_fst (modifyE (\<lambda>p. p\<lparr>rr_processed := rr_processed p + 1\<rparr>))"

definition rr_EventIgnored :: "(RRPort \<times> 'o, unit) em" where
  "rr_EventIgnored = bindE (LogPortUtilizationEvent UE_IGNORED) (\<lambda>_. on_fst (modifyE (\<lambda>p. p\<lparr>rr_ignored := rr_ignored p + 1\<rparr>)))"

definition ProcessMessageException :: "string \<Rightarrow> (RRPort \<times> 'o, unit) em" where
  "ProcessMessageException error_str = LogPortUtilizationEvent (UE_EXCEPTION error_str)"

definition ProcessGeneralException :: "string \<Rightarrow> (RRPort \<times> 'o, unit) em" where
  "ProcessGeneralException error_str = LogPortUtilizationEvent (UE_GENERAL error_str)"

text \<open>The owner's part of the state.\<close>

definition on_owner :: "('o, 'a) em \<Rightarrow> (RRPort \<times> 'o, 'a) em" where
  "on_owner m = (\<lambda>(p, ob). case m ob of (r, ob') \<Rightarrow> (r, (p, ob')))"

definition CallbackException :: "string \<Rightarrow> exn" where
  "CallbackException what_arg = RuntimeError (''Callback Exception: '' @ what_arg)"

section \<open>Replier ports\<close>

text \<open>\<open>default_reply\<close> is \<open>BaseReplyType()\<close>.\<close>

definition ReplierPort_ProcessRequest ::
  "('req \<Rightarrow> ('o, 'rep) em) option \<Rightarrow> 'rep \<Rightarrow> 'req \<Rightarrow> (RRPort \<times> 'o, 'rep) em" where
  "ReplierPort_ProcessRequest callback_fn default_reply base_request =
     bindE rr_EventRecieved (\<lambda>_.
     bindE getE (\<lambda>(p, _).
     case (if process_event (rr_machine p) then callback_fn else None) of
       Some fn \<Rightarrow>
         catchE is_std_exception
           (bindE (LogPortUtilizationEvent UE_STARTED_FUNC) (\<lambda>_.
            bindE (on_owner (fn base_request)) (\<lambda>base_reply.
            bindE (LogPortUtilizationEvent UE_FINISHED_FUNC) (\<lambda>_.
            bindE rr_EventProcessed (\<lambda>_. returnE base_reply)))))
           (\<lambda>ex. let exception = CallbackException (what ex) in
            bindE (LogPortUtilizationEvent (UE_EXCEPTION (what exception))) (\<lambda>_.
            bindE rr_EventProcessed (\<lambda>_. throwE exception)))
     | None \<Rightarrow> bindE rr_EventIgnored (\<lambda>_. returnE default_reply)))"

definition ReplierPort_ProcessRequest_void_reply ::
  "('req \<Rightarrow> ('o, unit) em) option \<Rightarrow> 'req \<Rightarrow> (RRPort \<times> 'o, unit) em" where
  "ReplierPort_ProcessRequest_void_reply callback_fn base_request = ReplierPort_ProcessRequest callback_fn () base_request"

definition ReplierPort_ProcessRequest_void_request ::
  "('o, 'rep) em option \<Rightarrow> 'rep \<Rightarrow> (RRPort \<times> 'o, 'rep) em" where
  "ReplierPort_ProcessRequest_void_request callback_fn default_reply =
     ReplierPort_ProcessRequest (map_option (\<lambda>fn _. fn) callback_fn) default_reply ()"

section \<open>Requester ports\<close>

definition RequesterPort_SendRequest ::
  "('req \<Rightarrow> int \<Rightarrow> ('o, 'rep) em) \<Rightarrow> 'rep \<Rightarrow> 'req \<Rightarrow> int \<Rightarrow> (RRPort \<times> 'o, bool \<times> 'rep) em" where
  "RequesterPort_SendRequest process_request default_reply base_request timeout =
     (let ignore = bindE rr_EventIgnored (\<lambda>_. returnE (False, default_reply)) in
      bindE getE (\<lambda>(p, _).
      if process_event (rr_machine p) then
        bindE (catchE is_std_exception
          (bindE rr_EventRecieved (\<lambda>_.
           bindE (on_owner (process_request base_request timeout)) (\<lambda>base_reply.
           bindE rr_EventProcessed (\<lambda>_. returnE (Some base_reply)))))
          (\<lambda>ex. bindE (ProcessMessageException (''Failed to Send Request: '' @ what ex)) (\<lambda>_. returnE None)))
        (\<lambda>reply. case reply of Some base_reply \<Rightarrow> returnE (True, base_reply) | None \<Rightarrow> ignore)
      else ignore))"

definition RequesterPort_SendRequest_void_reply ::
  "('req \<Rightarrow> int \<Rightarrow> ('o, unit) em) \<Rightarrow> 'req \<Rightarrow> int \<Rightarrow> (RRPort \<times> 'o, bool) em" where
  "RequesterPort_SendRequest_void_reply process_request base_request timeout =
     (let ignore = bindE rr_EventIgnored (\<lambda>_. returnE False) in
      bindE getE (\<lambda>(p, _).
      if process_event (rr_machine p) then
        bindE (catchE is_std_exception
          (bindE rr_EventRecieved (\<lambda>_.
           bindE (on_owner (process_request base_request timeout)) (\<lambda>_.
           bindE rr_EventProcessed (\<lambda>_. returnE True))))
          (\<lambda>ex. bindE (ProcessMessageException (''Failed to Send Request: '' @ what ex)) (\<lambda>_.
                bindE rr_EventIgnored (\<lambda>_. returnE False))))
        (\<lambda>sent. if sent then returnE True else ignore)
      else ignore))"

definition RequesterPort_SendRequest_void_request ::
  "(int \<Rightarrow> ('o, 'rep) em) \<Rightarrow> 'rep \<Rightarrow> int \<Rightarrow> (RRPort \<times> 'o, bool \<times> 'rep) em" where
  "RequesterPort_SendRequest_void_request process_request default_reply timeout =
     bindE getE (\<lambda>(p, _).
     if process_event (rr_machine p) then
       bindE (catchE is_std_exception
         (bindE rr_EventRecieved (\<lambda>_.
          bindE (on_owner (process_request timeout)) (\<lambda>base_reply.
          bindE rr_EventProcessed (\<lambda>_. returnE (Some base_reply)))))
         (\<lambda>ex. bindE (ProcessGeneralException (''Sending Request Failed: '' @ what ex)) (\<lambda>_. returnE None)))
       (\<lambda>reply. case reply of Some base_reply \<Rightarrow> returnE (True, base_reply) | None \<Rightarrow> returnE (False, default_reply))
     else returnE (False, default_reply))"

section \<open>Lemmas\<close>

lemmas rr_ops = LogPortUtilizationEvent_def rr_EventRecieved_def rr_EventProcessed_def rr_EventIgnored_def
  ProcessMessageException_def ProcessGeneralException_def on_owner_def ev_rules Let_def

text \<open>Every message was processed or ignored.\<close>

definition rr_accounted :: "RRPort \<Rightarrow> bool" where
  "rr_accounted p \<longleftrightarrow> rr_received p = rr_processed p + rr_ignored p"

section \<open>Properties\<close>

text \<open>
  A replier port answers every request once and accounts for it. When the port runs and has a
  callback, the request is given to the callback, whose effect is kept; its reply is returned, and a
  standard exception comes out as a \<open>CallbackException\<close> with the text of the first. Otherwise the
  default reply is returned and the component is not called. In each case one more message is
  counted as received and one more as processed or ignored.
\<close>
theorem ReplierPort_answers:
  assumes "rr_accounted p"
    and "\<forall>fn e ob'. callback_fn = Some fn \<and> fn base_request ob = (Inl e, ob') \<longrightarrow> is_std_exception e"
  shows "\<exists>r p' ob'. ReplierPort_ProcessRequest callback_fn default_reply base_request (p, ob) = (r, (p', ob')) \<and> rr_accounted p' \<and>
    rr_received p' = rr_received p + 1 \<and>
    (case (if process_event (rr_machine p) then callback_fn else None) of
       None \<Rightarrow> r = Inr default_reply \<and> ob' = ob \<and> rr_ignored p' = rr_ignored p + 1
     | Some fn \<Rightarrow> ob' = snd (fn base_request ob) \<and> rr_processed p' = rr_processed p + 1 \<and>
         r = (case fst (fn base_request ob) of Inr base_reply \<Rightarrow> Inr base_reply | Inl e \<Rightarrow> Inl (CallbackException (what e))))"
proof (cases "if process_event (rr_machine p) then callback_fn else None")
  case None
  then show ?thesis using assms(1)
    by (auto simp: ReplierPort_ProcessRequest_def rr_ops rr_accounted_def split: if_splits)
next
  case (Some fn)
  then have fn: "process_event (rr_machine p)" "callback_fn = Some fn" by (auto split: if_splits)
  obtain r ob' where f: "fn base_request ob = (r, ob')" by (cases "fn base_request ob")
  then show ?thesis using assms fn
    by (cases r) (auto simp: ReplierPort_ProcessRequest_def rr_ops rr_accounted_def)
qed

text \<open>
  A request that could not be sent is counted differently by each kind of requester port. When
  the port runs and the transport throws, the answer is false in all three cases and one message is
  counted as received; the port with request and reply counts one as ignored, the one without a
  reply counts two, and the one without a request counts none.
\<close>
theorem RequesterPort_failure_counts:
  assumes "process_event (rr_machine p)" and "is_std_exception e"
    and "f base_request timeout ob = (Inl e, ob1)" and "g base_request timeout ob = (Inl e, ob1)" and "h timeout ob = (Inl e, ob1)"
  shows "\<exists>p1 p2 p3. RequesterPort_SendRequest f default_reply base_request timeout (p, ob) = (Inr (False, default_reply), (p1, ob1)) \<and>
    RequesterPort_SendRequest_void_reply g base_request timeout (p, ob) = (Inr False, (p2, ob1)) \<and>
    RequesterPort_SendRequest_void_request h default_reply timeout (p, ob) = (Inr (False, default_reply), (p3, ob1)) \<and>
    (\<forall>q \<in> {p1, p2, p3}. rr_received q = rr_received p + 1 \<and> rr_processed q = rr_processed p) \<and>
    rr_ignored p1 = rr_ignored p + 1 \<and> rr_ignored p2 = rr_ignored p + 2 \<and> rr_ignored p3 = rr_ignored p"
  using assms
  by (auto simp: RequesterPort_SendRequest_def RequesterPort_SendRequest_void_reply_def
      RequesterPort_SendRequest_void_request_def rr_ops)

definition demo_rr :: RRPort where
  "demo_rr = RRPort_init (StateMachine_init\<lparr>sm_state := RUNNING\<rparr>)"

lemma demo_rr: "process_event (rr_machine demo_rr)" "rr_accounted demo_rr"
  by (simp_all add: demo_rr_def RRPort_init_def process_event_def get_state_def get_transition_def StateMachine_init_def
      rr_accounted_def)

theorem ReplierPort_answers_witness:
  "\<exists>p' ob'. ReplierPort_ProcessRequest (Some (\<lambda>req. throwE (RuntimeError req))) '''' ''bad'' (demo_rr, ()) =
     (Inl (RuntimeError ''Callback Exception: bad''), (p', ob')) \<and> rr_received p' = 1 \<and> rr_processed p' = 1"
  using ReplierPort_answers [OF demo_rr(2), of "Some (\<lambda>req. throwE (RuntimeError req))" "''bad''" "()" "''''"] demo_rr(1)
  by (auto simp: throwE_def CallbackException_def demo_rr_def RRPort_init_def)

theorem RequesterPort_failure_counts_witness:
  "\<exists>p2. RequesterPort_SendRequest_void_reply (\<lambda>_ _. throwE (TimeoutException ''late'')) () 10 (demo_rr, ()) = (Inr False, (p2, ())) \<and>
     rr_received p2 = 1 \<and> rr_ignored p2 = 2"
proof -
  let ?e = "TimeoutException ''late''"
  from RequesterPort_failure_counts [OF demo_rr(1), of ?e "\<lambda>_ _. throwE ?e" "()" 10 "()" "()" "\<lambda>_ _. throwE ?e" "\<lambda>_. throwE ?e" "()"]
  show ?thesis by (auto simp: throwE_def demo_rr_def RRPort_init_def)
qed

end
