(* ===== verification/NMHeartbeat.thy ===== *)
theory NMHeartbeat
  imports ControlMessage ProtoRPC
begin

text \<open>
  The heartbeats of a master to the environment manager (\<open>Heartbeater\<close>,
  \<^verbatim>\<open>re_common/comms/environmentrequester/heartbeater.cpp\<close>) and of a slave to its master
  (\<open>SlaveHeartbeater\<close>, \<^verbatim>\<open>re/src/nodemanager/slaveheartbeater.cpp\<close>). A loop is a function of the rounds it
  goes through: for each round whether \<open>end_flag_\<close> was seen at its start, and the reply to the request
  or the exception it ended in. A list that is used up leaves the loop waiting for its next round.
\<close>

section \<open>The loops\<close>

datatype heartbeat_end = Beating | Beat_ended | Beat_timed_out | Beat_failed exn

text \<open>What follows the loop: the timeout callback is called, whether or not the loop was asked to end.\<close>

definition after_beats :: "nat \<Rightarrow> heartbeat_end" where
  "after_beats retry_count = (if retry_count \<ge> 5 then Beat_timed_out else Beat_ended)"

definition HandleReply ::
  "(EnvironmentMessage_pb \<Rightarrow> ('o, unit) em) option \<Rightarrow> EnvironmentMessage_pb \<Rightarrow> ('o, unit) em" where
  "HandleReply callback_func environment_message =
     (case em_type environment_message of
        HEARTBEAT_ACK \<Rightarrow> returnE ()
      | _ \<Rightarrow> (case callback_func of
               Some f \<Rightarrow> f environment_message
             | None \<Rightarrow> throwE (RuntimeError ''Update callback not set'')))"

text \<open>One round of \<open>Heartbeater\<close>: the new \<open>retry_count\<close>. It is reset before the reply is handled, so a
  handler that throws counts as the first failure.\<close>

definition Heartbeater_round ::
  "(EnvironmentMessage_pb \<Rightarrow> ('o, unit) em) option \<Rightarrow> nat \<Rightarrow> exn + EnvironmentMessage_pb \<Rightarrow> ('o, nat) em" where
  "Heartbeater_round callback_func retry_count reply =
     (case reply of
        Inl ex \<Rightarrow> if is_std_exception ex then returnE (retry_count + 1) else throwE ex
      | Inr reply_message \<Rightarrow>
          catchE is_std_exception (bindE (HandleReply callback_func reply_message) (\<lambda>_. returnE 0))
            (\<lambda>_. returnE 1))"

fun Heartbeater_HeartbeatLoop ::
  "(EnvironmentMessage_pb \<Rightarrow> ('o, unit) em) option \<Rightarrow> nat \<Rightarrow> bool \<Rightarrow> (bool \<times> (exn + EnvironmentMessage_pb)) list \<Rightarrow> 'o \<Rightarrow>
     heartbeat_end \<times> EnvironmentMessage_Type_pb list \<times> 'o" where
  "Heartbeater_HeartbeatLoop cb retry_count shutdown rounds ob =
     (if retry_count < 5 \<and> \<not> shutdown then
        (case rounds of
           [] \<Rightarrow> (Beating, [], ob)
         | (end_flag, reply) # rest \<Rightarrow>
             let message = (if end_flag then END_HEARTBEAT else HEARTBEAT) in
             case Heartbeater_round cb retry_count reply ob of
               (Inl ex, ob') \<Rightarrow> (Beat_failed ex, [message], ob')
             | (Inr n, ob') \<Rightarrow>
                 (case Heartbeater_HeartbeatLoop cb n end_flag rest ob' of
                    (r, sent, ob'') \<Rightarrow> (r, message # sent, ob'')))
      else (after_beats retry_count, [], ob))"

declare Heartbeater_HeartbeatLoop.simps [simp del]

datatype SlaveHeartbeat_Type_pb = HB_HEARBEAT | HB_END_HEARTBEAT

fun SlaveHeartbeater_HeartbeatLoop ::
  "nat \<Rightarrow> bool \<Rightarrow> (bool \<times> (exn + unit)) list \<Rightarrow> heartbeat_end \<times> SlaveHeartbeat_Type_pb list" where
  "SlaveHeartbeater_HeartbeatLoop retry_count shutdown rounds =
     (if retry_count < 5 \<and> \<not> shutdown then
        (case rounds of
           [] \<Rightarrow> (Beating, [])
         | (end_flag, reply) # rest \<Rightarrow>
             let message = (if end_flag then HB_END_HEARTBEAT else HB_HEARBEAT) in
             case reply of
               Inl ex \<Rightarrow>
                 if is_std_exception ex
                 then (case SlaveHeartbeater_HeartbeatLoop (retry_count + 1) end_flag rest of (r, sent) \<Rightarrow> (r, message # sent))
                 else (Beat_failed ex, [message])
             | Inr _ \<Rightarrow>
                 (case SlaveHeartbeater_HeartbeatLoop 0 end_flag rest of (r, sent) \<Rightarrow> (r, message # sent)))
      else (after_beats retry_count, []))"

declare SlaveHeartbeater_HeartbeatLoop.simps [simp del]

section \<open>Properties\<close>

text \<open>Rounds of a heartbeat that nobody ended, with the position of five failures in a row.\<close>

definition undisturbed :: "(bool \<times> (exn + 'r)) list \<Rightarrow> bool" where
  "undisturbed rounds \<longleftrightarrow> (\<forall>(end_flag, reply) \<in> set rounds. \<not> end_flag \<and> (\<forall>ex. reply = Inl ex \<longrightarrow> is_std_exception ex))"

definition lost :: "nat \<Rightarrow> nat \<Rightarrow> (bool \<times> (exn + 'r)) list \<Rightarrow> bool" where
  "lost i n rounds \<longleftrightarrow> i + n \<le> length rounds \<and> list_all (\<lambda>(_, reply). isl reply) (take n (drop i rounds))"

lemma lost_0_Cons: "lost 0 (Suc n) (x # xs) \<longleftrightarrow> isl (snd x) \<and> lost 0 n xs"
  by (auto simp: lost_def split: prod.splits)

lemma lost_Suc_Cons: "lost (Suc i) n (x # xs) \<longleftrightarrow> lost i n xs"
  by (simp add: lost_def)

lemma lost_0_mono: "lost 0 n xs \<Longrightarrow> m \<le> n \<Longrightarrow> lost 0 m xs"
  by (auto simp: lost_def list_all_iff dest: set_take_subset_set_take [THEN subsetD])

lemma ex_lost_Cons: "(\<exists>i. lost i n (x # xs)) \<longleftrightarrow> lost 0 n (x # xs) \<or> (\<exists>i. lost i n xs)"
  by (metis lost_Suc_Cons not0_implies_Suc)

lemma slave_loop_outcome:
  "undisturbed rounds \<Longrightarrow> retry_count \<le> 5 \<Longrightarrow>
   fst (SlaveHeartbeater_HeartbeatLoop retry_count False rounds) =
     (if lost 0 (5 - retry_count) rounds \<or> (\<exists>i. lost i 5 rounds) then Beat_timed_out else Beating)"
proof (induction rounds arbitrary: retry_count)
  case Nil
  then show ?case by (subst SlaveHeartbeater_HeartbeatLoop.simps) (auto simp: after_beats_def lost_def)
next
  case (Cons x xs)
  obtain e reply where x: "x = (e, reply)" by (cases x)
  have u: "undisturbed xs" "\<not> e" "\<And>ex. reply = Inl ex \<Longrightarrow> is_std_exception ex"
    using Cons.prems(1) by (auto simp: undisturbed_def x)
  show ?case
  proof (cases "retry_count < 5")
    case False
    then have "retry_count = 5" using Cons.prems(2) by simp
    moreover have "lost 0 0 (x # xs)" by (simp add: lost_def)
    ultimately show ?thesis by (subst SlaveHeartbeater_HeartbeatLoop.simps) (simp add: after_beats_def)
  next
    case True
    then obtain n where n: "5 - retry_count = Suc n" by (metis Suc_diff_Suc zero_less_diff)
    then have n': "5 - (retry_count + 1) = n" "Suc n \<le> 5" using True by auto
    show ?thesis
    proof (cases reply)
      case (Inl ex)
      then have "fst (SlaveHeartbeater_HeartbeatLoop retry_count False (x # xs)) =
          fst (SlaveHeartbeater_HeartbeatLoop (retry_count + 1) False xs)"
        using True u by (subst SlaveHeartbeater_HeartbeatLoop.simps) (simp add: x split: prod.split)
      moreover have "lost 0 (5 - retry_count) (x # xs) \<longleftrightarrow> lost 0 n xs" by (simp add: n lost_0_Cons x Inl)
      moreover have "lost 0 5 (x # xs) \<Longrightarrow> lost 0 n xs"
        using lost_0_mono [of 5 "x # xs" "Suc n"] n'(2) by (simp add: lost_0_Cons)
      ultimately show ?thesis using Cons.IH [OF u(1), of "retry_count + 1", unfolded n'(1)] True
        by (auto simp: ex_lost_Cons)
    next
      case (Inr r)
      then have "fst (SlaveHeartbeater_HeartbeatLoop retry_count False (x # xs)) =
          fst (SlaveHeartbeater_HeartbeatLoop 0 False xs)"
        using True u by (subst SlaveHeartbeater_HeartbeatLoop.simps) (simp add: x split: prod.split)
      moreover have "\<not> lost 0 (Suc k) (x # xs)" for k using Inr x by (simp add: lost_0_Cons)
      from this [of 4] this [of n] have "\<not> lost 0 5 (x # xs)" "\<not> lost 0 (5 - retry_count) (x # xs)" by (simp_all add: n)
      moreover have "lost 0 5 xs \<Longrightarrow> \<exists>i. lost i 5 xs" by blast
      ultimately show ?thesis using Cons.IH [OF u(1), of 0] by (auto simp: ex_lost_Cons)
    qed
  qed
qed

text \<open>
  A slave gives its master up exactly after five failures in a row. While nobody asks it to end,
  the heartbeat of a slave calls its timeout callback (which ends the process) if and only if five
  consecutive heartbeats were not answered; as long as there is no such run it goes on.
\<close>
theorem slave_heartbeat_times_out_iff:
  assumes "undisturbed rounds"
  shows "fst (SlaveHeartbeater_HeartbeatLoop 0 False rounds) = (if \<exists>i. lost i 5 rounds then Beat_timed_out else Beating)"
  using slave_loop_outcome [OF assms, of 0] by auto

theorem slave_heartbeat_times_out_iff_witness:
  "fst (SlaveHeartbeater_HeartbeatLoop 0 False
     ((False, Inr ()) # replicate 5 (False, Inl (TimeoutException ''t'')))) = Beat_timed_out"
proof -
  let ?rs = "(False, Inr ()) # replicate 5 (False, Inl (TimeoutException ''t'')) :: (bool \<times> (exn + unit)) list"
  have "lost 1 5 ?rs" by (simp add: lost_def list_all_iff)
  with slave_heartbeat_times_out_iff [of ?rs] show ?thesis by (auto simp: undisturbed_def)
qed

text \<open>
  A heartbeat is closed at most once and last. Whatever the replies, the messages of a
  \<open>Heartbeater\<close> are HEARTBEATs and at most one END\_HEARTBEAT after them; when its loop was ended by
  \<open>Terminate\<close> that message was sent, and its reply decides nothing any more. As long as every request
  is answered it does not time out, even if the callback throws for each answer.
\<close>
theorem heartbeater_messages:
  assumes "Heartbeater_HeartbeatLoop cb 0 False rounds ob = (r, sent, ob')"
  shows "(\<exists>n. sent = replicate n HEARTBEAT \<or> sent = replicate n HEARTBEAT @ [END_HEARTBEAT]) \<and>
    (r = Beat_ended \<longrightarrow> (\<exists>n. sent = replicate n HEARTBEAT @ [END_HEARTBEAT])) \<and>
    ((\<forall>(e, reply) \<in> set rounds. \<not> isl reply) \<longrightarrow> r \<noteq> Beat_timed_out)"
proof -
  have "Heartbeater_HeartbeatLoop cb k False rounds ob = (r, sent, ob') \<Longrightarrow> k \<le> 5 \<Longrightarrow>
    (\<exists>n. sent = replicate n HEARTBEAT \<or> sent = replicate n HEARTBEAT @ [END_HEARTBEAT]) \<and>
    (r = Beat_ended \<longrightarrow> (\<exists>n. sent = replicate n HEARTBEAT @ [END_HEARTBEAT])) \<and>
    (k \<le> 1 \<longrightarrow> (\<forall>(e, reply) \<in> set rounds. \<not> isl reply) \<longrightarrow> r \<noteq> Beat_timed_out)" for k
  proof (induction rounds arbitrary: k ob sent)
    case Nil
    then show ?case
      by (subst (asm) Heartbeater_HeartbeatLoop.simps) (auto simp: after_beats_def split: if_splits intro: exI [of _ 0])
  next
    case (Cons x xs)
    obtain e reply where x: "x = (e, reply)" by (cases x)
    show ?case
    proof (cases "k < 5")
      case False
      then show ?thesis using Cons.prems
        by (subst (asm) Heartbeater_HeartbeatLoop.simps) (auto simp: after_beats_def intro: exI [of _ 0])
    next
      case True
      let ?m = "if e then END_HEARTBEAT else HEARTBEAT"
      obtain q ob1 where q: "Heartbeater_round cb k reply ob = (q, ob1)" by (cases "Heartbeater_round cb k reply ob")
      show ?thesis
      proof (cases q)
        case (Inl ex)
        then show ?thesis using Cons.prems True q x
          by (subst (asm) Heartbeater_HeartbeatLoop.simps) (auto split: if_splits intro: exI [of _ 0] exI [of _ 1])
      next
        case (Inr n)
        obtain sent1 where s1: "Heartbeater_HeartbeatLoop cb n e xs ob1 = (r, sent1, ob')" "sent = ?m # sent1"
          using Cons.prems True q x Inr
          by (subst (asm) Heartbeater_HeartbeatLoop.simps) (auto split: prod.splits if_splits)
        have n: "n \<le> 5" "\<not> isl reply \<Longrightarrow> n \<le> 1"
          using q Inr True by (auto simp: Heartbeater_round_def ev_rules split: sum.splits prod.splits if_splits)
        show ?thesis
        proof (cases e)
          case True
          then have "sent1 = []" "r = after_beats n"
            using s1(1) by (subst (asm) Heartbeater_HeartbeatLoop.simps, simp)+
          then show ?thesis using s1(2) True n x by (auto simp: after_beats_def intro: exI [of _ 0])
        next
          case False
          then have "(\<exists>n. sent1 = replicate n HEARTBEAT \<or> sent1 = replicate n HEARTBEAT @ [END_HEARTBEAT])"
            "r = Beat_ended \<longrightarrow> (\<exists>n. sent1 = replicate n HEARTBEAT @ [END_HEARTBEAT])"
            "n \<le> 1 \<longrightarrow> (\<forall>(e, reply) \<in> set xs. \<not> isl reply) \<longrightarrow> r \<noteq> Beat_timed_out"
            using Cons.IH [of n ob1 sent1] s1(1) n(1) by auto
          then show ?thesis using s1(2) False n(2) x by (auto simp: append_Cons [symmetric] replicate_Suc [symmetric] simp del: append_Cons replicate_Suc)
        qed
      qed
    qed
  qed
  from this [of 0] assms show ?thesis by simp
qed

theorem heartbeater_messages_witness:
  "\<exists>ob'. Heartbeater_HeartbeatLoop (Some (\<lambda>_. throwE (RuntimeError ''x''))) 0 False
      [(False, Inr \<lparr>em_type = SHUTDOWN_EXPERIMENT, em_control_message = None\<rparr>), (True, Inl (TimeoutException ''t''))] () =
    (Beat_ended, [HEARTBEAT, END_HEARTBEAT], ob')"
proof -
  let ?rs = "[(False, Inr \<lparr>em_type = SHUTDOWN_EXPERIMENT, em_control_message = None\<rparr>), (True, Inl (TimeoutException ''t''))]"
  let ?run = "Heartbeater_HeartbeatLoop (Some (\<lambda>_. throwE (RuntimeError ''x''))) 0 False ?rs ()"
  have r: "?run = (Beat_ended, [HEARTBEAT, END_HEARTBEAT], ())"
    by (simp add: Heartbeater_HeartbeatLoop.simps Heartbeater_round_def HandleReply_def ev_rules after_beats_def)
  from heartbeater_messages [OF r] r show ?thesis by blast
qed

end
