(* ===== verification/RTAttribute.thy ===== *)
theory RTAttribute
  imports ControlMessage
begin

text \<open>
  The attributes of the running objects: \<open>Attribute\<close> (\<^verbatim>\<open>re/src/core/attribute.cpp\<close>), the attribute map of
  \<open>Activatable\<close> (\<^verbatim>\<open>re/src/core/activatable.cpp\<close>) and the way a message sets them
  (\<^verbatim>\<open>re/src/core/translate.cpp\<close>). An \<open>int\<close> has 32 bits, a \<open>char\<close> 8; floating point values are their
  bit patterns, and the rounding of a \<open>double\<close> to a \<open>float\<close> is the parameter \<open>to_float\<close>. A weak
  pointer to an attribute is its name. What goes to the loggers is not recorded.
\<close>

datatype ATTRIBUTE_TYPE =
  AT_STRING | AT_INTEGER | AT_CHARACTER | AT_BOOLEAN | AT_DOUBLE | AT_FLOAT | AT_STRINGLIST

record RTAttribute =
  ra_name :: string
  ra_type :: ATTRIBUTE_TYPE
  ra_string :: string
  ra_integer :: "32 word"
  ra_double :: double_bits
  ra_boolean :: bool
  ra_character :: "8 word"
  ra_float :: "32 word"
  ra_stringlist :: "string list"

definition RTAttribute_ctor :: "ATTRIBUTE_TYPE \<Rightarrow> string \<Rightarrow> RTAttribute" where
  "RTAttribute_ctor type name =
     \<lparr>ra_name = name, ra_type = type, ra_string = '''', ra_integer = 0, ra_double = 0, ra_boolean = False,
      ra_character = 0, ra_float = 0, ra_stringlist = []\<rparr>"

definition set_String :: "string \<Rightarrow> RTAttribute \<Rightarrow> RTAttribute" where
  "set_String val a = (if ra_type a = AT_STRING then a\<lparr>ra_string := val\<rparr> else a)"

definition set_Integer :: "32 word \<Rightarrow> RTAttribute \<Rightarrow> RTAttribute" where
  "set_Integer val a = (if ra_type a = AT_INTEGER then a\<lparr>ra_integer := val\<rparr> else a)"

definition set_Character :: "8 word \<Rightarrow> RTAttribute \<Rightarrow> RTAttribute" where
  "set_Character val a = (if ra_type a = AT_CHARACTER then a\<lparr>ra_character := val\<rparr> else a)"

definition set_Double :: "double_bits \<Rightarrow> RTAttribute \<Rightarrow> RTAttribute" where
  "set_Double val a = (if ra_type a = AT_DOUBLE then a\<lparr>ra_double := val\<rparr> else a)"

definition set_Float :: "32 word \<Rightarrow> RTAttribute \<Rightarrow> RTAttribute" where
  "set_Float val a = (if ra_type a = AT_FLOAT then a\<lparr>ra_float := val\<rparr> else a)"

definition set_Boolean :: "bool \<Rightarrow> RTAttribute \<Rightarrow> RTAttribute" where
  "set_Boolean val a = (if ra_type a = AT_BOOLEAN then a\<lparr>ra_boolean := val\<rparr> else a)"

definition set_StringList :: "string list \<Rightarrow> RTAttribute \<Rightarrow> RTAttribute" where
  "set_StringList val a = (if ra_type a = AT_STRINGLIST then a\<lparr>ra_stringlist := val\<rparr> else a)"

text \<open>The specialisations of \<open>SetValue\<close> and \<open>Value\<close>, with the primitive types as one datatype.\<close>

datatype primitive =
    P_string string | P_int "32 word" | P_char "8 word" | P_bool bool | P_double double_bits
  | P_float "32 word" | P_strings "string list"

definition invalid_type :: exn where
  "invalid_type = InvalidArgument ''Invalid Attribute Type''"

fun SetValue :: "primitive \<Rightarrow> RTAttribute \<Rightarrow> exn + RTAttribute" where
  "SetValue (P_string v) a = (if ra_type a = AT_STRING then Inr (set_String v a) else Inl invalid_type)"
| "SetValue (P_int v) a = (if ra_type a = AT_INTEGER then Inr (set_Integer v a) else Inl invalid_type)"
| "SetValue (P_char v) a = (if ra_type a = AT_CHARACTER then Inr (set_Character v a) else Inl invalid_type)"
| "SetValue (P_bool v) a = (if ra_type a = AT_BOOLEAN then Inr (set_Boolean v a) else Inl invalid_type)"
| "SetValue (P_double v) a = (if ra_type a = AT_DOUBLE then Inr (set_Double v a) else Inl invalid_type)"
| "SetValue (P_float v) a = (if ra_type a = AT_FLOAT then Inr (set_Float v a) else Inl invalid_type)"
| "SetValue (P_strings v) a = (if ra_type a = AT_STRINGLIST then Inr (set_StringList v a) else Inl invalid_type)"

text \<open>\<open>Value<T>\<close>, by the type that is asked for.\<close>

fun attribute_value :: "ATTRIBUTE_TYPE \<Rightarrow> RTAttribute \<Rightarrow> primitive" where
  "attribute_value AT_STRING a = P_string (ra_string a)"
| "attribute_value AT_INTEGER a = P_int (ra_integer a)"
| "attribute_value AT_CHARACTER a = P_char (ra_character a)"
| "attribute_value AT_BOOLEAN a = P_bool (ra_boolean a)"
| "attribute_value AT_DOUBLE a = P_double (ra_double a)"
| "attribute_value AT_FLOAT a = P_float (ra_float a)"
| "attribute_value AT_STRINGLIST a = P_strings (ra_stringlist a)"

definition Value_of :: "ATTRIBUTE_TYPE \<Rightarrow> RTAttribute \<Rightarrow> exn + primitive" where
  "Value_of type a = (if ra_type a = type then Inr (attribute_value type a) else Inl invalid_type)"

section \<open>The attributes of an object\<close>

type_synonym attributes = "(string, RTAttribute) umap"

definition AddAttribute :: "RTAttribute option \<Rightarrow> attributes \<Rightarrow> string option \<times> attributes" where
  "AddAttribute attribute attrs =
     (case attribute of
        None \<Rightarrow> (None, attrs)
      | Some a \<Rightarrow>
          if \<not> umap_count attrs (ra_name a) then (Some (ra_name a), umap_put (ra_name a) a attrs)
          else (None, attrs))"

definition Activatable_GetAttribute :: "string \<Rightarrow> attributes \<Rightarrow> RTAttribute option" where
  "Activatable_GetAttribute name attrs = map_of attrs name"

definition Activatable_GetTypedAttribute :: "string \<Rightarrow> ATTRIBUTE_TYPE \<Rightarrow> attributes \<Rightarrow> RTAttribute option" where
  "Activatable_GetTypedAttribute name type attrs =
     (case Activatable_GetAttribute name attrs of
        Some a \<Rightarrow> if ra_type a \<noteq> type then None else Some a
      | None \<Rightarrow> None)"

definition ConstructAttribute :: "ATTRIBUTE_TYPE \<Rightarrow> string \<Rightarrow> attributes \<Rightarrow> string option \<times> attributes" where
  "ConstructAttribute type name attrs =
     (case Activatable_GetAttribute name attrs of
        Some a \<Rightarrow> (if ra_type a \<noteq> type then None else Some name, attrs)
      | None \<Rightarrow> AddAttribute (Some (RTAttribute_ctor type name)) attrs)"

definition SetAttributeValue :: "string \<Rightarrow> primitive \<Rightarrow> attributes \<Rightarrow> exn + attributes" where
  "SetAttributeValue name value attrs =
     (case Activatable_GetAttribute name attrs of
        Some a \<Rightarrow> (case SetValue value a of Inl e \<Rightarrow> Inl e | Inr a' \<Rightarrow> Inr (umap_put name a' attrs))
      | None \<Rightarrow> Inl (InvalidArgument (''No attribute with name '' @ quoted name)))"

definition GetAttributeValue :: "string \<Rightarrow> ATTRIBUTE_TYPE \<Rightarrow> attributes \<Rightarrow> exn + primitive" where
  "GetAttributeValue name type attrs =
     (case Activatable_GetAttribute name attrs of
        Some a \<Rightarrow> Value_of type a
      | None \<Rightarrow> Inl (InvalidArgument (''No attribute with name '' @ quoted name)))"

section \<open>Attributes from messages\<close>

fun GetAttributeTypeFromPb :: "Attribute_Kind_pb \<Rightarrow> ATTRIBUTE_TYPE" where
  "GetAttributeTypeFromPb ATTR_INTEGER = AT_INTEGER"
| "GetAttributeTypeFromPb ATTR_BOOLEAN = AT_BOOLEAN"
| "GetAttributeTypeFromPb ATTR_STRING = AT_STRING"
| "GetAttributeTypeFromPb ATTR_DOUBLE = AT_DOUBLE"
| "GetAttributeTypeFromPb ATTR_FLOAT = AT_FLOAT"
| "GetAttributeTypeFromPb ATTR_CHARACTER = AT_CHARACTER"
| "GetAttributeTypeFromPb ATTR_STRINGLIST = AT_STRINGLIST"
| "GetAttributeTypeFromPb (ATTR_UNNAMED _) = AT_STRING"

fun set_from_pb :: "(double_bits \<Rightarrow> 32 word) \<Rightarrow> ATTRIBUTE_TYPE \<Rightarrow> Attribute_pb \<Rightarrow> RTAttribute \<Rightarrow> RTAttribute" where
  "set_from_pb to_float AT_INTEGER attr a = set_Integer (ucast (apb_i attr)) a"
| "set_from_pb to_float AT_CHARACTER attr a = set_Character (ucast (apb_i attr)) a"
| "set_from_pb to_float AT_BOOLEAN attr a = set_Boolean (apb_i attr \<noteq> 0) a"
| "set_from_pb to_float AT_DOUBLE attr a = set_Double (apb_d attr) a"
| "set_from_pb to_float AT_FLOAT attr a = set_Float (to_float (apb_d attr)) a"
| "set_from_pb to_float AT_STRING attr a = (case apb_s attr of [] \<Rightarrow> a | s # _ \<Rightarrow> set_String s a)"
| "set_from_pb to_float AT_STRINGLIST attr a = a\<lparr>ra_stringlist := apb_s attr\<rparr>"

definition SetAttributeFromPb ::
  "(double_bits \<Rightarrow> 32 word) \<Rightarrow> string \<Rightarrow> Attribute_pb \<Rightarrow> (attributes, string) em" where
  "SetAttributeFromPb to_float entity attr attrs =
     (let attr_type = GetAttributeTypeFromPb (apb_kind attr); attr_name = info_name (apb_info attr) in
      case ConstructAttribute attr_type attr_name attrs of
        (Some name, attrs') \<Rightarrow> (Inr name, umap_modify name (set_from_pb to_float attr_type attr) attrs')
      | (None, attrs') \<Rightarrow>
          (Inl (RuntimeError (''Entity: '' @ entity @ '' Cannot construct Attribute: '' @ attr_name)), attrs'))"

section \<open>Properties\<close>

text \<open>The value a message carries for a type.\<close>

fun pb_value :: "(double_bits \<Rightarrow> 32 word) \<Rightarrow> ATTRIBUTE_TYPE \<Rightarrow> Attribute_pb \<Rightarrow> primitive" where
  "pb_value to_float AT_INTEGER attr = P_int (ucast (apb_i attr))"
| "pb_value to_float AT_CHARACTER attr = P_char (ucast (apb_i attr))"
| "pb_value to_float AT_BOOLEAN attr = P_bool (apb_i attr \<noteq> 0)"
| "pb_value to_float AT_DOUBLE attr = P_double (apb_d attr)"
| "pb_value to_float AT_FLOAT attr = P_float (to_float (apb_d attr))"
| "pb_value to_float AT_STRING attr = P_string (hd (apb_s attr))"
| "pb_value to_float AT_STRINGLIST attr = P_strings (apb_s attr)"

lemma set_from_pb_value:
  "ra_type a = t \<Longrightarrow> (t = AT_STRING \<Longrightarrow> apb_s attr \<noteq> []) \<Longrightarrow>
   attribute_value t (set_from_pb to_float t attr a) = pb_value to_float t attr \<and> ra_type (set_from_pb to_float t attr a) = t"
  by (cases t) (auto simp: set_Integer_def set_Character_def set_Boolean_def set_Double_def set_Float_def set_String_def
      split: list.split)

text \<open>
  A message sets an attribute or is refused, and never changes the type of one. When the object
  has no attribute of that name, or one of the type the message says, then afterwards reading the
  attribute at that type gives the value of the message (an \<open>int\<close> the low 32 bits, a \<open>char\<close> the low 8
  bits, a string the first one of the field) and every other attribute is as it was; when there is
  an attribute of another type, an exception is thrown and nothing changes.
\<close>
theorem SetAttributeFromPb_outcome:
  assumes "GetAttributeTypeFromPb (apb_kind attr) = AT_STRING \<longrightarrow> apb_s attr \<noteq> []"
  shows "case Activatable_GetAttribute (info_name (apb_info attr)) attrs of
      Some a \<Rightarrow> if ra_type a = GetAttributeTypeFromPb (apb_kind attr)
        then (\<exists>attrs'. SetAttributeFromPb to_float x attr attrs = (Inr (info_name (apb_info attr)), attrs') \<and>
          GetAttributeValue (info_name (apb_info attr)) (GetAttributeTypeFromPb (apb_kind attr)) attrs' =
            Inr (pb_value to_float (GetAttributeTypeFromPb (apb_kind attr)) attr) \<and>
          (\<forall>n. n \<noteq> info_name (apb_info attr) \<longrightarrow> Activatable_GetAttribute n attrs' = Activatable_GetAttribute n attrs))
        else (\<exists>e. is_runtime_error e \<and> SetAttributeFromPb to_float x attr attrs = (Inl e, attrs))
    | None \<Rightarrow> (\<exists>attrs'. SetAttributeFromPb to_float x attr attrs = (Inr (info_name (apb_info attr)), attrs') \<and>
          GetAttributeValue (info_name (apb_info attr)) (GetAttributeTypeFromPb (apb_kind attr)) attrs' =
            Inr (pb_value to_float (GetAttributeTypeFromPb (apb_kind attr)) attr) \<and>
          (\<forall>n. n \<noteq> info_name (apb_info attr) \<longrightarrow> Activatable_GetAttribute n attrs' = Activatable_GetAttribute n attrs))"
proof -
  let ?n = "info_name (apb_info attr)" and ?t = "GetAttributeTypeFromPb (apb_kind attr)"
  have v: "Value_of ?t (set_from_pb to_float ?t attr a) = Inr (pb_value to_float ?t attr)" if "ra_type a = ?t" for a
    using set_from_pb_value [OF that] assms by (simp add: Value_of_def)
  show ?thesis
  proof (cases "map_of attrs ?n")
    case None
    then have "ConstructAttribute ?t ?n attrs = (Some ?n, umap_put ?n (RTAttribute_ctor ?t ?n) attrs)"
      by (simp add: ConstructAttribute_def AddAttribute_def Activatable_GetAttribute_def RTAttribute_ctor_def umap_count_def)
    then show ?thesis using None v [of "RTAttribute_ctor ?t ?n"]
      by (simp add: SetAttributeFromPb_def GetAttributeValue_def Activatable_GetAttribute_def RTAttribute_ctor_def Let_def)
  next
    case (Some a)
    then show ?thesis using v [of a]
      by (auto simp: SetAttributeFromPb_def GetAttributeValue_def Activatable_GetAttribute_def ConstructAttribute_def Let_def)
  qed
qed

theorem SetAttributeFromPb_outcome_witness:
  "\<exists>attrs'. SetAttributeFromPb (\<lambda>_. 0) ''x'' ((new_attribute ''n'' ATTR_CHARACTER)\<lparr>apb_i := 0x141\<rparr>) [] = (Inr ''n'', attrs') \<and>
     GetAttributeValue ''n'' AT_CHARACTER attrs' = Inr (P_char 0x41)"
  using SetAttributeFromPb_outcome [of "(new_attribute ''n'' ATTR_CHARACTER)\<lparr>apb_i := 0x141\<rparr>" "\<lambda>_. 0" "''x''" "[]"]
  by (auto simp: Activatable_GetAttribute_def new_attribute_def Attribute_default_def Info_default_def)

end
