(* ===== verification/RTComponent.thy ===== *)
theory RTComponent
  imports RTStateMachine RTAttribute
begin

text \<open>
  \<open>BehaviourContainer\<close>, \<open>Component\<close> and \<open>Worker\<close> (\<^verbatim>\<open>re/src/core/behaviourcontainer.cpp\<close>,
  \<^verbatim>\<open>component.cpp\<close>, \<^verbatim>\<open>worker.cpp\<close>): objects that hand every life-cycle transition on to what they
  contain. The calls of the four transitions on a contained object are the argument \<open>child\<close> of the
  handlers: ports and workers are polymorphic in C++, and so are their types here. The life-cycle
  events that go to the loggers are collected in the order in which they are issued.
\<close>

datatype LifeCycleEvent = LC_STARTED | LC_CONFIGURED | LC_ACTIVATED | LC_PASSIVATED | LC_TERMINATED

type_synonym life_log = "(string \<times> LifeCycleEvent) list"

fun lifecycle_event :: "Transition \<Rightarrow> LifeCycleEvent" where
  "lifecycle_event TR_CONFIGURE = LC_CONFIGURED"
| "lifecycle_event TR_ACTIVATE = LC_ACTIVATED"
| "lifecycle_event TR_PASSIVATE = LC_PASSIVATED"
| "lifecycle_event TR_TERMINATE = LC_TERMINATED"
| "lifecycle_event NO_TRANSITION = LC_STARTED"

definition LogLifecycleEvent :: "string \<Rightarrow> LifeCycleEvent \<Rightarrow> ('x \<times> life_log, unit) em" where
  "LogLifecycleEvent entity event = modifyE (\<lambda>(x, log). (x, log @ [(entity, event)]))"

type_synonym 'c child = "Transition \<Rightarrow> ('c \<times> life_log, bool) em"

text \<open>The loops over ports and workers; the results of the calls are dropped.\<close>

fun each_child :: "('c \<times> life_log, bool) em \<Rightarrow> ((string, 'c) umap \<times> life_log, unit) em" where
  "each_child f ([], log) = (Inr (), ([], log))"
| "each_child f ((n, c) # cs, log) =
     (case f (c, log) of
        (Inl e, (c', log')) \<Rightarrow> (Inl e, ((n, c') # cs, log'))
      | (Inr _, (c', log')) \<Rightarrow>
          (case each_child f (cs, log') of (r, (cs', log'')) \<Rightarrow> (r, ((n, c') # cs', log''))))"

section \<open>BehaviourContainer\<close>

definition BehaviourContainer_Handle ::
  "'w child \<Rightarrow> string \<Rightarrow> Transition \<Rightarrow> ((string, 'w) umap \<times> life_log, unit) em" where
  "BehaviourContainer_Handle child name t =
     bindE (each_child (child t)) (\<lambda>_. LogLifecycleEvent name (lifecycle_event t))"

definition AddWorker :: "(string \<times> 'w) option \<Rightarrow> (string, 'w) umap \<Rightarrow> string option \<times> (string, 'w) umap" where
  "AddWorker worker workers =
     (case worker of
        None \<Rightarrow> (None, workers)
      | Some (worker_name, w) \<Rightarrow>
          if \<not> umap_count workers worker_name then (Some worker_name, umap_emplace worker_name w workers)
          else (None, workers))"

definition GetWorker :: "string \<Rightarrow> (string, 'w) umap \<Rightarrow> 'w option" where
  "GetWorker worker_name workers = map_of workers worker_name"

definition RemoveWorker :: "string \<Rightarrow> (string, 'w) umap \<Rightarrow> 'w option \<times> (string, 'w) umap" where
  "RemoveWorker worker_name workers =
     (case map_of workers worker_name of
        Some w \<Rightarrow> (Some w, umap_erase worker_name workers)
      | None \<Rightarrow> (None, workers))"

section \<open>Workers\<close>

text \<open>A worker of the base class, with the workers inside it.\<close>

datatype RTWorker = RTWorker (wk_machine: StateMachine) (wk_name: string) (wk_workers: "(string \<times> RTWorker) list")

fun RTWorker_transition :: "Transition \<Rightarrow> RTWorker \<Rightarrow> life_log \<Rightarrow> bool \<times> RTWorker \<times> life_log"
  and RTWorkers_transition :: "Transition \<Rightarrow> (string \<times> RTWorker) list \<Rightarrow> life_log \<Rightarrow> (string \<times> RTWorker) list \<times> life_log" where
  "RTWorker_transition t (RTWorker sm name ws) log =
     (case edge (sm_state sm) t of
        None \<Rightarrow> (False, RTWorker sm name ws, log)
      | Some st \<Rightarrow>
          (case RTWorkers_transition t ws log of (ws', log') \<Rightarrow>
             (True, RTWorker (sm\<lparr>sm_state := st, sm_transition := NO_TRANSITION\<rparr>) name ws',
              log' @ [(name, lifecycle_event t)])))"
| "RTWorkers_transition t [] log = ([], log)"
| "RTWorkers_transition t ((n, w) # ws) log =
     (case RTWorker_transition t w log of (_, w', log') \<Rightarrow>
        (case RTWorkers_transition t ws log' of (ws', log'') \<Rightarrow> ((n, w') # ws', log'')))"

definition RTWorker_child :: "RTWorker child" where
  "RTWorker_child t = (\<lambda>(w, log). case RTWorker_transition t w log of (b, w', log') \<Rightarrow> (Inr b, (w', log')))"

definition get_new_work_id :: "(32 word, 32 word) em" where
  "get_new_work_id work_id = (Inr work_id, work_id + 1)"

section \<open>Component\<close>

text \<open>Types are their names, a callback is a value of \<open>'f\<close>.\<close>

record ('p, 'w, 'f) RTComponent =
  rc_name :: string
  rc_id :: string
  rc_type :: string
  rc_attributes :: attributes
  rc_workers :: "(string, 'w) umap"
  rc_ports :: "(string, 'p) umap"
  rc_callback_functions :: "(string, 'f) umap"
  rc_callback_type_hash :: "(string, string \<times> string) umap"
  rc_location :: "string list"
  rc_replication_indices :: "int list"
  rc_experiment_name :: string

definition RTComponent_ctor :: "string \<Rightarrow> ('p, 'w, 'f) RTComponent" where
  "RTComponent_ctor component_name =
     \<lparr>rc_name = component_name, rc_id = '''', rc_type = '''', rc_attributes = [], rc_workers = [], rc_ports = [],
      rc_callback_functions = [], rc_callback_type_hash = [], rc_location = [], rc_replication_indices = [],
      rc_experiment_name = ''''\<rparr>"

definition RTComponent_Handle ::
  "'p child \<Rightarrow> 'w child \<Rightarrow> Transition \<Rightarrow> (('p, 'w, 'f) RTComponent \<times> life_log, unit) em" where
  "RTComponent_Handle port_child worker_child t =
     (\<lambda>(c, log).
        case each_child (port_child t) (rc_ports c, log) of
          (Inl e, (ps, log')) \<Rightarrow> (Inl e, (c\<lparr>rc_ports := ps\<rparr>, log'))
        | (Inr _, (ps, log')) \<Rightarrow>
            (case BehaviourContainer_Handle worker_child (rc_name c) t (rc_workers c, log') of
               (r, (ws, log'')) \<Rightarrow> (r, (c\<lparr>rc_ports := ps, rc_workers := ws\<rparr>, log''))))"

definition SetLocation :: "string list \<Rightarrow> ('p, 'w, 'f) RTComponent \<Rightarrow> ('p, 'w, 'f) RTComponent" where
  "SetLocation location c = c\<lparr>rc_location := location\<rparr>"

definition SetReplicationIndices :: "int list \<Rightarrow> ('p, 'w, 'f) RTComponent \<Rightarrow> ('p, 'w, 'f) RTComponent" where
  "SetReplicationIndices indices c = c\<lparr>rc_replication_indices := indices\<rparr>"

definition GetLocalisedName :: "('p, 'w, 'f) RTComponent \<Rightarrow> string" where
  "GetLocalisedName c =
     (if length (rc_location c) = length (rc_replication_indices c)
      then concat (map (\<lambda>(l, i). l @ ''['' @ to_string i @ '']/'') (zip (rc_location c) (rc_replication_indices c)))
      else '''') @ rc_name c"

definition AddEventPort ::
  "(string \<times> 'p) option \<Rightarrow> ('p, 'w, 'f) RTComponent \<Rightarrow> string option \<times> ('p, 'w, 'f) RTComponent" where
  "AddEventPort event_port c =
     (case event_port of
        None \<Rightarrow> (None, c)
      | Some (port_name, p) \<Rightarrow>
          if \<not> umap_count (rc_ports c) port_name
          then (Some port_name, c\<lparr>rc_ports := umap_emplace port_name p (rc_ports c)\<rparr>)
          else (None, c))"

definition RTComponent_GetPort :: "string \<Rightarrow> ('p, 'w, 'f) RTComponent \<Rightarrow> 'p option" where
  "RTComponent_GetPort port_name c = map_of (rc_ports c) port_name"

definition GotCallback :: "string \<Rightarrow> string \<Rightarrow> string \<Rightarrow> ('p, 'w, 'f) RTComponent \<Rightarrow> bool" where
  "GotCallback port_name request_type reply_type c =
     (case map_of (rc_callback_type_hash c) port_name of
        Some (stored_request_type, stored_reply_type) \<Rightarrow>
          if stored_request_type \<noteq> request_type then False
          else if stored_reply_type \<noteq> reply_type then False else True
      | None \<Rightarrow> False)"

definition AddCallback ::
  "string \<Rightarrow> string \<Rightarrow> string \<Rightarrow> 'f \<Rightarrow> ('p, 'w, 'f) RTComponent \<Rightarrow> exn + ('p, 'w, 'f) RTComponent" where
  "AddCallback port_name request_type reply_type callback c =
     (if umap_count (rc_callback_type_hash c) port_name \<or> umap_count (rc_callback_functions c) port_name
      then Inl (RuntimeError (''Component: '' @ quoted (rc_name c) @ '' Already registered Port Callback: '' @ quoted port_name))
      else Inr (c\<lparr>rc_callback_type_hash := umap_emplace port_name (request_type, reply_type) (rc_callback_type_hash c),
                  rc_callback_functions := umap_emplace port_name callback (rc_callback_functions c)\<rparr>))"

definition GetCallback :: "string \<Rightarrow> string \<Rightarrow> string \<Rightarrow> ('p, 'w, 'f) RTComponent \<Rightarrow> exn + 'f" where
  "GetCallback port_name request_type reply_type c =
     (if GotCallback port_name request_type reply_type c then umap_at (rc_callback_functions c) port_name
      else Inl (RuntimeError (''Component: '' @ quoted (rc_name c) @
             '' does not have a matching registered Port Callback: '' @ quoted port_name)))"

definition RemoveCallback :: "string \<Rightarrow> ('p, 'w, 'f) RTComponent \<Rightarrow> bool \<times> ('p, 'w, 'f) RTComponent" where
  "RemoveCallback port_name c =
     (if umap_count (rc_callback_functions c) port_name
      then (True, c\<lparr>rc_callback_functions := umap_erase port_name (rc_callback_functions c)\<rparr>)
      else (False, c))"

definition SetExperimentName :: "string \<Rightarrow> ('p, 'w, 'f) RTComponent \<Rightarrow> ('p, 'w, 'f) RTComponent" where
  "SetExperimentName experiment_name c =
     (if rc_experiment_name c = '''' then c\<lparr>rc_experiment_name := experiment_name\<rparr> else c)"

section \<open>Lemmas\<close>

text \<open>A call on a contained object that C++ gives a meaning to.\<close>

definition total_child :: "('c \<times> life_log, bool) em \<Rightarrow> bool" where
  "total_child f \<longleftrightarrow> (\<forall>c log. \<exists>b c' log'. f (c, log) = (Inr b, (c', log @ log')))"

lemma each_child_total:
  "total_child f \<Longrightarrow> \<exists>cs' log'. each_child f (cs, log) = (Inr (), (cs', log @ log')) \<and> umap_keys cs' = umap_keys cs"
proof (induction cs arbitrary: log)
  case (Cons a cs)
  obtain n c where a: "a = (n, c)" by (cases a)
  obtain b c' l1 where f: "f (c, log) = (Inr b, (c', log @ l1))" using Cons.prems by (metis total_child_def)
  obtain cs' l2 where "each_child f (cs, log @ l1) = (Inr (), (cs', (log @ l1) @ l2))" "umap_keys cs' = umap_keys cs"
    using Cons.IH [OF Cons.prems] by blast
  then show ?case using f a by auto
qed simp

lemma BehaviourContainer_total:
  assumes "total_child (child t)"
  shows "\<exists>ws' log'. BehaviourContainer_Handle child name t (ws, log) =
     (Inr (), (ws', log @ log' @ [(name, lifecycle_event t)])) \<and> umap_keys ws' = umap_keys ws"
  using each_child_total [OF assms, of ws log]
  by (auto simp: BehaviourContainer_Handle_def LogLifecycleEvent_def ev_rules)

lemma each_child_workers:
  "each_child (RTWorker_child t) (ws, log) = (Inr (), RTWorkers_transition t ws log)"
  by (induction ws arbitrary: log) (auto simp: RTWorker_child_def split: prod.splits)

text \<open>The recursion over workers is the state machine with the handlers of \<open>BehaviourContainer\<close>.\<close>

lemma RTWorker_is_activatable:
  "transition_state (Activatable_transitions (BehaviourContainer_Handle RTWorker_child name)) t (sm, (ws, log)) =
     (case RTWorker_transition t (RTWorker sm name ws) log of
        (b, w, log') \<Rightarrow> (Inr b, (wk_machine w, (wk_workers w, log'))))"
  by (auto simp: Activatable_run BehaviourContainer_Handle_def ev_rules each_child_workers LogLifecycleEvent_def
      split: option.split prod.split)

lemma RTWorker_logs:
  "\<exists>l. snd (snd (RTWorker_transition t w log)) = log @ l"
  "\<exists>l. snd (RTWorkers_transition t ws log) = log @ l"
  by (induction t w log and t ws log rule: RTWorker_transition_RTWorkers_transition.induct)
     (auto split: option.split prod.split, meson)

lemma RTWorker_child_total: "total_child (RTWorker_child t)"
  unfolding total_child_def RTWorker_child_def
  by (auto split: prod.split) (metis RTWorker_logs(1) snd_conv)

lemma RTComponent_Handle_total:
  assumes "total_child (port_child t)" and "total_child (worker_child t)"
  shows "\<exists>c' log'. RTComponent_Handle port_child worker_child t (c, log) =
      (Inr (), (c', log @ log' @ [(rc_name c, lifecycle_event t)])) \<and>
    umap_keys (rc_ports c') = umap_keys (rc_ports c) \<and> umap_keys (rc_workers c') = umap_keys (rc_workers c)"
proof -
  obtain ps l1 where p: "each_child (port_child t) (rc_ports c, log) = (Inr (), (ps, log @ l1))" "umap_keys ps = umap_keys (rc_ports c)"
    using each_child_total [OF assms(1)] by blast
  obtain ws l2 where w: "BehaviourContainer_Handle worker_child (rc_name c) t (rc_workers c, log @ l1) =
      (Inr (), (ws, (log @ l1) @ l2 @ [(rc_name c, lifecycle_event t)]))" "umap_keys ws = umap_keys (rc_workers c)"
    using BehaviourContainer_total [of worker_child t "rc_name c" "rc_workers c" "log @ l1", OF assms(2)] by blast
  have "RTComponent_Handle port_child worker_child t (c, log) =
      (Inr (), (c\<lparr>rc_ports := ps, rc_workers := ws\<rparr>, log @ (l1 @ l2) @ [(rc_name c, lifecycle_event t)]))"
    using p(1) w(1) by (simp add: RTComponent_Handle_def)
  then show ?thesis using p(2) w(2)
    by (intro exI [of _ "c\<lparr>rc_ports := ps, rc_workers := ws\<rparr>"] exI [of _ "l1 @ l2"]) simp
qed

section \<open>Properties\<close>

text \<open>
  A component never notices that a port or worker failed. Whatever its ports and workers answer,
  a component in a state that the transition leaves answers true and changes its state, after every
  port, then every worker has been asked in turn; its own life-cycle event is issued last. In
  particular a component is CONFIGURED although a port could not be configured.
\<close>
theorem RTComponent_ignores_children:
  assumes "edge (sm_state sm) t = Some st" and "total_child (port_child t)" and "total_child (worker_child t)"
  shows "\<exists>c' log' sm'. transition_state (Activatable_transitions (RTComponent_Handle port_child worker_child)) t (sm, (c, log)) =
      (Inr True, (sm', (c', log @ log' @ [(rc_name c, lifecycle_event t)]))) \<and> sm_state sm' = st \<and>
    umap_keys (rc_ports c') = umap_keys (rc_ports c) \<and> umap_keys (rc_workers c') = umap_keys (rc_workers c)"
proof -
  obtain c' log' where h: "RTComponent_Handle port_child worker_child t (c, log) =
      (Inr (), (c', log @ log' @ [(rc_name c, lifecycle_event t)]))"
    "umap_keys (rc_ports c') = umap_keys (rc_ports c)" "umap_keys (rc_workers c') = umap_keys (rc_workers c)"
    using RTComponent_Handle_total [of port_child t worker_child c log] assms(2,3) by blast
  then show ?thesis using assms(1) by (simp add: Activatable_run)
qed

text \<open>A port that cannot be configured.\<close>

definition demo_bad_port :: "unit child" where
  "demo_bad_port t = returnE False"

definition demo_rt_component :: "(unit, RTWorker, unit) RTComponent" where
  "demo_rt_component = (RTComponent_ctor ''c'')\<lparr>rc_ports := [(''p'', ())],
     rc_workers := [(''w'', RTWorker StateMachine_init ''w'' [])]\<rparr>"

theorem RTComponent_ignores_children_witness:
  "\<exists>c' log' sm'. transition_state (Activatable_transitions (RTComponent_Handle demo_bad_port RTWorker_child)) TR_CONFIGURE
      (StateMachine_init, (demo_rt_component, [])) = (Inr True, (sm', (c', log' @ [(''c'', LC_CONFIGURED)]))) \<and>
    sm_state sm' = ST_CONFIGURED"
proof -
  have "edge (sm_state StateMachine_init) TR_CONFIGURE = Some ST_CONFIGURED" by (simp add: StateMachine_init_def edge_def)
  moreover have "total_child (demo_bad_port TR_CONFIGURE)" by (auto simp: total_child_def demo_bad_port_def returnE_def intro: exI [of _ False])
  ultimately show ?thesis
    using RTComponent_ignores_children [of StateMachine_init TR_CONFIGURE ST_CONFIGURED demo_bad_port RTWorker_child demo_rt_component "[]"]
      RTWorker_child_total [of TR_CONFIGURE] by (auto simp: demo_rt_component_def RTComponent_ctor_def)
qed

text \<open>
  A callback that was removed is neither there nor replaceable. After \<open>AddCallback\<close> and
  \<open>RemoveCallback\<close> for a port name, \<open>GotCallback\<close> still answers true, \<open>GetCallback\<close> ends in
  \<open>std::out_of_range\<close>, and no callback can be added under that name again: the removal leaves the
  entry in the table of types.
\<close>
theorem RemoveCallback_leaves_type:
  assumes "AddCallback port_name request_type reply_type f c = Inr c1"
  shows "\<exists>c2. RemoveCallback port_name c1 = (True, c2) \<and> GotCallback port_name request_type reply_type c2 \<and>
    GetCallback port_name request_type reply_type c2 = Inl (OutOfRange ''at'') \<and>
    (\<forall>request_type' reply_type' g. \<exists>e. AddCallback port_name request_type' reply_type' g c2 = Inl e)"
proof -
  have n: "\<not> umap_count (rc_callback_type_hash c) port_name" "\<not> umap_count (rc_callback_functions c) port_name"
    and c1: "c1 = c\<lparr>rc_callback_type_hash := umap_emplace port_name (request_type, reply_type) (rc_callback_type_hash c),
                  rc_callback_functions := umap_emplace port_name f (rc_callback_functions c)\<rparr>"
    using assms by (auto simp: AddCallback_def split: if_splits)
  show ?thesis using n
    by (simp add: c1 RemoveCallback_def GotCallback_def GetCallback_def AddCallback_def umap_at_def)
qed

theorem RemoveCallback_leaves_type_witness:
  "\<exists>c1 c2. AddCallback ''p'' ''Q'' ''R'' () demo_rt_component = Inr c1 \<and> RemoveCallback ''p'' c1 = (True, c2) \<and>
     GetCallback ''p'' ''Q'' ''R'' c2 = Inl (OutOfRange ''at'')"
proof -
  obtain c1 where c: "AddCallback ''p'' ''Q'' ''R'' () demo_rt_component = Inr c1"
    by (simp add: AddCallback_def demo_rt_component_def RTComponent_ctor_def)
  from RemoveCallback_leaves_type [OF c] c show ?thesis by blast
qed

end
