(* ===== verification/NMExecution.thy ===== *)
theory NMExecution
  imports ProtoRPC RTComponent
begin

text \<open>
  The master side of an experiment: \<open>ExecutionManager\<close> (\<^verbatim>\<open>re/src/nodemanager/executionmanager.cpp\<close>), which
  waits for its slaves, starts and stops the experiment and waits for the slaves to end, and
  \<open>Execution\<close> (\<^verbatim>\<open>re/re_common/util/execution.hpp\<close>). The handlers of the slaves' requests hold
  \<open>slave_state_mutex_\<close> and are one step each; the execution thread is cut at the points where it
  waits. A promise that is set twice throws \<open>std::future_error\<close>, a \<open>std::logic_error\<close>.
\<close>

section \<open>Execution\<close>

definition Execution_run_one :: "('s, unit) em \<Rightarrow> ('s, string) em" where
  "Execution_run_one func =
     catchE is_std_exception (bindE func (\<lambda>_. returnE ''''))
       (\<lambda>e. returnE (what e @ [CHR 0x0A]))"

text \<open>\<open>Start\<close> after it was interrupted.\<close>

definition Execution_Start :: "('s, unit) em list \<Rightarrow> ('s, unit) em" where
  "Execution_Start terminate_functions =
     bindE (mapE Execution_run_one terminate_functions) (\<lambda>error_messages.
     if concat error_messages \<noteq> '''' then throwE (LogicError (concat error_messages)) else returnE ())"

section \<open>Slaves\<close>

record SlaveId_pb =
  sl_ip_address :: string
  sl_container_id :: string

datatype SlaveState = SL_OFFLINE | SL_Registered | SL_CONFIGURED | SL_TERMINATED | SL_Error

text \<open>Times are nanoseconds of the steady clock.\<close>

record SlaveStatus =
  ss_state :: SlaveState
  ss_heartbeat_time :: int

datatype promise_state = Promise_Unset | Promise_Value | Promise_Exception string

record ExecutionManager =
  xm_slave_status :: "(string, SlaveStatus) umap"
  xm_late_joiner_slave_status :: "(string, SlaveStatus) umap"
  xm_execution_valid :: bool
  xm_execute_promise :: promise_state
  xm_terminate_promise :: promise_state
  xm_control_message :: ControlMessage_pb
  xm_pushed :: "(string \<times> ControlMessage_pb) list"
  xm_life :: "LifeCycleEvent list"
  xm_interrupted :: bool
  xm_now :: int
  xm_deployment_removed :: bool

definition ExecutionManager_init :: "int \<Rightarrow> ExecutionManager" where
  "ExecutionManager_init now =
     \<lparr>xm_slave_status = [], xm_late_joiner_slave_status = [], xm_execution_valid = False,
      xm_execute_promise = Promise_Unset, xm_terminate_promise = Promise_Unset,
      xm_control_message = ControlMessage_default, xm_pushed = [], xm_life = [], xm_interrupted = False, xm_now = now,
      xm_deployment_removed = False\<rparr>"

definition GetSlaveKey :: "string \<Rightarrow> string \<Rightarrow> string" where
  "GetSlaveKey ip container_id = ip @ ''_'' @ container_id"

definition slave_key_of :: "SlaveId_pb \<Rightarrow> string" where
  "slave_key_of slave = GetSlaveKey (sl_ip_address slave) (sl_container_id slave)"

text \<open>\<open>control_message()\<close> of a message that has none is the default message. One entry per container;
  the entries made before a duplicate is found stay.\<close>

definition emplace_slave :: "string \<times> string \<Rightarrow> (ExecutionManager, unit) em" where
  "emplace_slave slave =
     (let slave_key = GetSlaveKey (fst slave) (snd slave) in
      bindE getE (\<lambda>xm.
      if umap_count (xm_slave_status xm) slave_key
      then throwE (RuntimeError (''Got duplicate slaves in ControlMessage with IP: '' @ quoted slave_key))
      else modifyE (\<lambda>xm. xm\<lparr>xm_slave_status :=
             umap_emplace slave_key \<lparr>ss_state = SL_OFFLINE, ss_heartbeat_time = xm_now xm\<rparr> (xm_slave_status xm)\<rparr>)))"

definition control_message_slaves :: "ControlMessage_pb \<Rightarrow> (string \<times> string) list" where
  "control_message_slaves m =
     concat (map (\<lambda>node. map (\<lambda>container. (npb_ip_address node, info_id (ctpb_info container)))
       (npb_containers node)) (cm_nodes m))"

definition ExecutionManager_RequestDeployment :: "EnvironmentMessage_pb \<Rightarrow> (ExecutionManager, unit) em" where
  "ExecutionManager_RequestDeployment environment_message =
     (let m = (case em_control_message environment_message of Some m \<Rightarrow> m | None \<Rightarrow> ControlMessage_default) in
      bindE (modifyE (\<lambda>xm. xm\<lparr>xm_control_message := m\<rparr>)) (\<lambda>_.
      forE (control_message_slaves m) emplace_slave))"

definition GetSlaveStatus :: "string \<Rightarrow> (ExecutionManager, SlaveStatus) em" where
  "GetSlaveStatus slave_key =
     bindE getE (\<lambda>xm.
     case map_of (xm_slave_status xm) slave_key of
       Some ss \<Rightarrow> returnE ss
     | None \<Rightarrow>
         (case map_of (xm_late_joiner_slave_status xm) slave_key of
            Some ss \<Rightarrow> returnE ss
          | None \<Rightarrow> throwE (RuntimeError (''Slave with Key: '' @ quoted slave_key @ '' not in experiment''))))"

text \<open>An assignment through the reference that \<open>GetSlaveStatus\<close> returns.\<close>

definition upd_slave :: "string \<Rightarrow> (SlaveStatus \<Rightarrow> SlaveStatus) \<Rightarrow> (ExecutionManager, unit) em" where
  "upd_slave slave_key f =
     bindE (GetSlaveStatus slave_key) (\<lambda>_.
     modifyE (\<lambda>xm.
       if umap_count (xm_slave_status xm) slave_key
       then xm\<lparr>xm_slave_status := umap_modify slave_key f (xm_slave_status xm)\<rparr>
       else xm\<lparr>xm_late_joiner_slave_status := umap_modify slave_key f (xm_late_joiner_slave_status xm)\<rparr>))"

definition GetSlaveState :: "string \<Rightarrow> (ExecutionManager, SlaveState) em" where
  "GetSlaveState slave_key = bindE (GetSlaveStatus slave_key) (\<lambda>ss. returnE (ss_state ss))"

definition GetSlaveStateCount :: "SlaveState \<Rightarrow> ExecutionManager \<Rightarrow> nat" where
  "GetSlaveStateCount state xm = length (filter (\<lambda>(_, ss). ss_state ss = state) (xm_slave_status xm))"

definition set_execute_promise :: "promise_state \<Rightarrow> (ExecutionManager, unit) em" where
  "set_execute_promise v =
     bindE getE (\<lambda>xm.
     if xm_execute_promise xm = Promise_Unset then modifyE (\<lambda>xm. xm\<lparr>xm_execute_promise := v\<rparr>)
     else throwE (LogicError ''Promise already satisfied''))"

definition HandleSlaveStateChange :: "(ExecutionManager, unit) em" where
  "HandleSlaveStateChange =
     bindE getE (\<lambda>xm.
     let slave_count = length (xm_slave_status xm);
         configured_count = GetSlaveStateCount SL_CONFIGURED xm;
         error_count = GetSlaveStateCount SL_Error xm in
     if configured_count = slave_count then set_execute_promise Promise_Value
     else if configured_count + error_count = slave_count
       then set_execute_promise (Promise_Exception (to_string (int error_count) @ '' slaves has errors.''))
     else returnE ())"

definition SetSlaveState :: "string \<Rightarrow> SlaveState \<Rightarrow> (ExecutionManager, unit) em" where
  "SetSlaveState slave_key state =
     bindE (upd_slave slave_key (\<lambda>ss. ss\<lparr>ss_state := state\<rparr>)) (\<lambda>_. HandleSlaveStateChange)"

definition SetSlaveAlive :: "string \<Rightarrow> (ExecutionManager, unit) em" where
  "SetSlaveAlive slave_key =
     bindE getE (\<lambda>xm. upd_slave slave_key (\<lambda>ss. ss\<lparr>ss_heartbeat_time := xm_now xm\<rparr>))"

definition AllSlavesTerminated :: "ExecutionManager \<Rightarrow> bool" where
  "AllSlavesTerminated xm =
     (if xm_execution_valid xm
      then list_all (\<lambda>(_, ss). ss_state ss = SL_TERMINATED \<or> (xm_now xm - ss_heartbeat_time ss) div 1000000 > 5000) (xm_slave_status xm)
      else True)"

definition HandleSlaveHeartbeat :: "SlaveId_pb \<Rightarrow> (ExecutionManager, unit) em" where
  "HandleSlaveHeartbeat slave = SetSlaveAlive (slave_key_of slave)"

text \<open>The reply is the one of the last match, a null pointer when nothing matches.\<close>

definition slave_configurations :: "SlaveId_pb \<Rightarrow> ControlMessage_pb \<Rightarrow> (string \<times> Container_pb) list" where
  "slave_configurations slave m =
     concat (map (\<lambda>node. map (\<lambda>container. (info_name (npb_info node), container))
         (filter (\<lambda>container. sl_container_id slave = info_id (ctpb_info container)) (npb_containers node)))
       (filter (\<lambda>node. sl_ip_address slave = npb_ip_address node) (cm_nodes m)))"

definition ExecutionManager_HandleSlaveStartup :: "SlaveId_pb \<Rightarrow> (ExecutionManager, (string \<times> Container_pb) option) em" where
  "ExecutionManager_HandleSlaveStartup slave =
     (let slave_key = slave_key_of slave in
      bindE (GetSlaveState slave_key) (\<lambda>state.
      if state = SL_OFFLINE then
        bindE getE (\<lambda>xm.
        let matches = slave_configurations slave (xm_control_message xm) in
        bindE (forE matches (\<lambda>_. SetSlaveState slave_key SL_Registered)) (\<lambda>_.
        returnE (if matches = [] then None else Some (last matches))))
      else throwE (RuntimeError (''Slave with Key: '' @ quoted slave_key @ '' not in correct state''))))"

definition HandleSlaveConfigured :: "SlaveId_pb \<Rightarrow> bool \<Rightarrow> (ExecutionManager, unit) em" where
  "HandleSlaveConfigured slave success =
     (let slave_key = slave_key_of slave in
      bindE (GetSlaveState slave_key) (\<lambda>state.
      if state = SL_Registered then SetSlaveState slave_key (if success then SL_CONFIGURED else SL_Error)
      else throwE (RuntimeError (''Slave with IP: '' @ quoted slave_key @ '' not in correct state''))))"

definition HandleSlaveTerminated :: "SlaveId_pb \<Rightarrow> (ExecutionManager, unit) em" where
  "HandleSlaveTerminated slave = SetSlaveState (slave_key_of slave) SL_TERMINATED"

section \<open>Control messages\<close>

definition PushControlMessage :: "string \<Rightarrow> ControlMessage_pb \<Rightarrow> ExecutionManager \<Rightarrow> ExecutionManager" where
  "PushControlMessage topic m xm = xm\<lparr>xm_pushed := xm_pushed xm @ [(topic, m)]\<rparr>"

text \<open>The generated names of the message types.\<close>

fun EnvironmentMessage_Type_Name :: "EnvironmentMessage_Type_pb \<Rightarrow> string" where
  "EnvironmentMessage_Type_Name EM_NO_TYPE = ''NO_TYPE''"
| "EnvironmentMessage_Type_Name GET_EXPERIMENT_INFO = ''GET_EXPERIMENT_INFO''"
| "EnvironmentMessage_Type_Name HEARTBEAT = ''HEARTBEAT''"
| "EnvironmentMessage_Type_Name END_HEARTBEAT = ''END_HEARTBEAT''"
| "EnvironmentMessage_Type_Name HEARTBEAT_ACK = ''HEARTBEAT_ACK''"
| "EnvironmentMessage_Type_Name CONFIGURE_EXPERIMENT = ''CONFIGURE_EXPERIMENT''"
| "EnvironmentMessage_Type_Name SHUTDOWN_EXPERIMENT = ''SHUTDOWN_EXPERIMENT''"
| "EnvironmentMessage_Type_Name SHUTDOWN_LOGAN_SERVER = ''SHUTDOWN_LOGAN_SERVER''"

definition ExecutionManager_HandleExperimentUpdate :: "EnvironmentMessage_pb \<Rightarrow> (ExecutionManager, unit) em" where
  "ExecutionManager_HandleExperimentUpdate environment_update =
     (case em_type environment_update of
        CONFIGURE_EXPERIMENT \<Rightarrow>
          modifyE (PushControlMessage ''*''
            (case em_control_message environment_update of Some m \<Rightarrow> m | None \<Rightarrow> ControlMessage_default))
      | SHUTDOWN_EXPERIMENT \<Rightarrow> modifyE (\<lambda>xm. xm\<lparr>xm_interrupted := True\<rparr>)
      | t \<Rightarrow> throwE (RuntimeError (''Unhandle EnvironmentMessage Type: '' @ EnvironmentMessage_Type_Name t)))"

definition ConstructStateControlMessage :: "ControlMessage_Type_pb \<Rightarrow> ControlMessage_pb" where
  "ConstructStateControlMessage type = ControlMessage_default\<lparr>cm_type := type\<rparr>"

definition TranslateLifecycle :: "ControlMessage_Type_pb \<Rightarrow> exn + LifeCycleEvent" where
  "TranslateLifecycle state =
     (case state of
        ACTIVATE \<Rightarrow> Inr LC_ACTIVATED
      | CONFIGURE \<Rightarrow> Inr LC_CONFIGURED
      | PASSIVATE \<Rightarrow> Inr LC_PASSIVATED
      | TERMINATE \<Rightarrow> Inr LC_TERMINATED
      | _ \<Rightarrow> Inl (RuntimeError ''Unhandled State''))"

definition PushStateChange :: "ControlMessage_Type_pb \<Rightarrow> ExecutionManager \<Rightarrow> ExecutionManager" where
  "PushStateChange state xm =
     (let xm1 = PushControlMessage ''*'' (ConstructStateControlMessage state) xm in
      case TranslateLifecycle state of
        Inr ev \<Rightarrow> xm1\<lparr>xm_life := xm_life xm1 @ [ev]\<rparr>
      | Inl _ \<Rightarrow> xm1)"

section \<open>The execution thread\<close>

text \<open>From the moment \<open>execute_future\<close> is ready to the wait for the end of the run.\<close>

definition ExecutionLoop_execute :: "ExecutionManager \<Rightarrow> ExecutionManager" where
  "ExecutionLoop_execute xm =
     (if xm_execute_promise xm = Promise_Value
      then PushStateChange ACTIVATE (xm\<lparr>xm_execution_valid := True\<rparr>)
      else xm)"

text \<open>From the end of the run to the wait for the slaves.\<close>

definition ExecutionLoop_stop :: "ExecutionManager \<Rightarrow> ExecutionManager" where
  "ExecutionLoop_stop xm =
     PushStateChange TERMINATE (if xm_execute_promise xm = Promise_Value then PushStateChange PASSIVATE xm else xm)"

text \<open>\<open>RemoveDeployment\<close> of the heartbeat requester asks the environment manager to take the
  experiment out; what it throws is caught.\<close>

definition ExecutionLoop_finish :: "ExecutionManager \<Rightarrow> ExecutionManager" where
  "ExecutionLoop_finish xm = xm\<lparr>xm_deployment_removed := True, xm_interrupted := True\<rparr>"

definition try_set_exception :: "promise_state \<Rightarrow> promise_state" where
  "try_set_exception p = (case p of Promise_Unset \<Rightarrow> Promise_Exception ''Shutdown'' | _ \<Rightarrow> p)"

definition ExecutionManager_Terminate :: "ExecutionManager \<Rightarrow> ExecutionManager" where
  "ExecutionManager_Terminate xm =
     xm\<lparr>xm_execute_promise := try_set_exception (xm_execute_promise xm),
        xm_terminate_promise := try_set_exception (xm_terminate_promise xm)\<rparr>"

datatype xm_phase = XM_Waiting | XM_Executing | XM_Deregistering | XM_Done

text \<open>The system of one master: requests of the slaves in any order, each served whether or not it
  throws, messages of the environment manager, the passing of time, the request to terminate, and
  the execution thread. A run of unlimited duration (\<open>duration_sec\<close> = -1) stops when the terminate
  promise is set, another one at any time.\<close>

inductive xm_step :: "bool \<Rightarrow> xm_phase \<times> ExecutionManager \<Rightarrow> xm_phase \<times> ExecutionManager \<Rightarrow> bool" for unlimited where
  startup: "ExecutionManager_HandleSlaveStartup slave xm = (r, xm') \<Longrightarrow> xm_step unlimited (ph, xm) (ph, xm')"
| configured: "HandleSlaveConfigured slave success xm = (q, xm') \<Longrightarrow> xm_step unlimited (ph, xm) (ph, xm')"
| terminated: "HandleSlaveTerminated slave xm = (q, xm') \<Longrightarrow> xm_step unlimited (ph, xm) (ph, xm')"
| heartbeat: "HandleSlaveHeartbeat slave xm = (q, xm') \<Longrightarrow> xm_step unlimited (ph, xm) (ph, xm')"
| update: "ExecutionManager_HandleExperimentUpdate m xm = (q, xm') \<Longrightarrow> xm_step unlimited (ph, xm) (ph, xm')"
| tick: "now \<ge> xm_now xm \<Longrightarrow> xm_step unlimited (ph, xm) (ph, xm\<lparr>xm_now := now\<rparr>)"
| terminate: "xm_step unlimited (ph, xm) (ph, ExecutionManager_Terminate xm)"
| execute: "xm_execute_promise xm = Promise_Value \<Longrightarrow>
    xm_step unlimited (XM_Waiting, xm) (XM_Executing, ExecutionLoop_execute xm)"
| give_up: "xm_execute_promise xm = Promise_Exception s \<Longrightarrow>
    xm_step unlimited (XM_Waiting, xm) (XM_Deregistering, ExecutionLoop_stop (ExecutionLoop_execute xm))"
| stop: "unlimited \<longrightarrow> xm_terminate_promise xm \<noteq> Promise_Unset \<Longrightarrow>
    xm_step unlimited (XM_Executing, xm) (XM_Deregistering, ExecutionLoop_stop xm)"
| finish: "AllSlavesTerminated xm \<Longrightarrow> xm_step unlimited (XM_Deregistering, xm) (XM_Done, ExecutionLoop_finish xm)"

inductive xm_reachable :: "bool \<Rightarrow> ExecutionManager \<Rightarrow> xm_phase \<times> ExecutionManager \<Rightarrow> bool" for unlimited xm0 where
  init: "xm_reachable unlimited xm0 (XM_Waiting, xm0)"
| step: "xm_reachable unlimited xm0 s \<Longrightarrow> xm_step unlimited s s' \<Longrightarrow> xm_reachable unlimited xm0 s'"

section \<open>Lemmas\<close>

definition slave_states :: "(string, SlaveStatus) umap \<Rightarrow> SlaveState set" where
  "slave_states m = (ss_state \<circ> snd) ` set m"

lemma count_all: "length (filter P xs) = length xs \<longleftrightarrow> (\<forall>x\<in>set xs. P x)"
proof -
  have "length (filter P xs) = length xs \<longleftrightarrow> filter (\<lambda>x. \<not> P x) xs = []"
    using sum_length_filter_compl [of P xs] by (metis add_cancel_right_right length_0_conv)
  then show ?thesis by (simp add: filter_empty_conv)
qed

lemma count_two: "length (filter P xs) + length (filter Q xs) = length xs \<Longrightarrow> (\<And>x. P x \<Longrightarrow> \<not> Q x) \<Longrightarrow> \<forall>x\<in>set xs. P x \<or> Q x"
proof -
  assume e: "length (filter P xs) + length (filter Q xs) = length xs" and d: "\<And>x. P x \<Longrightarrow> \<not> Q x"
  have "length (filter (\<lambda>x. P x \<or> Q x) ys) = length (filter P ys) + length (filter Q ys)" for ys
    using d by (induction ys) auto
  then show ?thesis using e count_all [of "\<lambda>x. P x \<or> Q x" xs] by simp
qed

lemma state_change_cases:
  assumes "HandleSlaveStateChange xm = (r, xm')"
  shows "xm' = xm \<or> xm_execute_promise xm = Promise_Unset \<and>
    (xm' = xm\<lparr>xm_execute_promise := Promise_Value\<rparr> \<and> slave_states (xm_slave_status xm) \<subseteq> {SL_CONFIGURED} \<or>
     (\<exists>s. xm' = xm\<lparr>xm_execute_promise := Promise_Exception s\<rparr>) \<and> slave_states (xm_slave_status xm) \<subseteq> {SL_CONFIGURED, SL_Error})"
proof -
  have a: "GetSlaveStateCount SL_CONFIGURED xm = length (xm_slave_status xm) \<Longrightarrow> slave_states (xm_slave_status xm) \<subseteq> {SL_CONFIGURED}"
    by (auto simp: GetSlaveStateCount_def count_all slave_states_def)
  have b: "GetSlaveStateCount SL_CONFIGURED xm + GetSlaveStateCount SL_Error xm = length (xm_slave_status xm) \<Longrightarrow>
      slave_states (xm_slave_status xm) \<subseteq> {SL_CONFIGURED, SL_Error}"
    unfolding GetSlaveStateCount_def slave_states_def by (drule count_two) auto
  show ?thesis using assms a b
    by (auto simp: HandleSlaveStateChange_def set_execute_promise_def ev_rules Let_def split: if_splits)
qed

lemma upd_slave_cases:
  assumes "upd_slave k f xm = (r, xm')" and "xm_late_joiner_slave_status xm = []"
  shows "if umap_count (xm_slave_status xm) k
    then r = Inr () \<and> xm' = xm\<lparr>xm_slave_status := umap_modify k f (xm_slave_status xm)\<rparr> else xm' = xm \<and> (\<exists>e. r = Inl e)"
  using assms by (auto simp: upd_slave_def GetSlaveStatus_def ev_rules umap_count_def split: option.splits)

lemma SetSlaveState_cases:
  assumes "SetSlaveState k st xm = (r, xm')" and "xm_late_joiner_slave_status xm = []"
  obtains "xm' = xm" "\<not> umap_count (xm_slave_status xm) k"
  | xm1 where "xm1 = xm\<lparr>xm_slave_status := umap_modify k (\<lambda>ss. ss\<lparr>ss_state := st\<rparr>) (xm_slave_status xm)\<rparr>"
      "HandleSlaveStateChange xm1 = (r, xm')" "umap_count (xm_slave_status xm) k"
proof (cases "umap_count (xm_slave_status xm) k")
  case True
  then show thesis using assms upd_slave_cases [of k "\<lambda>ss. ss\<lparr>ss_state := st\<rparr>" xm] that(2)
    by (auto simp: SetSlaveState_def ev_rules split: prod.splits sum.splits)
next
  case False
  then show thesis using assms upd_slave_cases [of k "\<lambda>ss. ss\<lparr>ss_state := st\<rparr>" xm] that(1)
    by (auto simp: SetSlaveState_def ev_rules split: prod.splits sum.splits)
qed

lemma slave_states_modify:
  "xm_slave_status xm' = umap_modify k (\<lambda>ss. ss\<lparr>ss_state := st\<rparr>) (xm_slave_status xm) \<Longrightarrow>
   slave_states (xm_slave_status xm') \<subseteq> insert st (slave_states (xm_slave_status xm))"
  by (force simp: umap_modify_def slave_states_def)

section \<open>Properties\<close>

text \<open>What holds of the execution manager in each phase of its execution thread.\<close>

fun life_of_phase :: "xm_phase \<Rightarrow> promise_state \<Rightarrow> LifeCycleEvent list" where
  "life_of_phase XM_Waiting _ = []"
| "life_of_phase XM_Executing _ = [LC_ACTIVATED]"
| "life_of_phase _ Promise_Value = [LC_ACTIVATED, LC_PASSIVATED, LC_TERMINATED]"
| "life_of_phase _ _ = [LC_TERMINATED]"

definition xm_inv :: "xm_phase \<times> ExecutionManager \<Rightarrow> bool" where
  "xm_inv s \<longleftrightarrow> (case s of (ph, xm) \<Rightarrow>
     xm_late_joiner_slave_status xm = [] \<and> umap_wf (xm_slave_status xm) \<and>
     (xm_execute_promise xm = Promise_Value \<longrightarrow> slave_states (xm_slave_status xm) \<subseteq> {SL_CONFIGURED, SL_TERMINATED}) \<and>
     (ph = XM_Executing \<longrightarrow> xm_execute_promise xm = Promise_Value) \<and>
     (ph \<noteq> XM_Waiting \<longrightarrow> xm_execute_promise xm \<noteq> Promise_Unset) \<and>
     xm_life xm = life_of_phase ph (xm_execute_promise xm))"

lemma xm_inv_change:
  assumes "xm_inv (ph, xm)" and "xm_slave_status xm1 = umap_modify k (\<lambda>ss. ss\<lparr>ss_state := st\<rparr>) (xm_slave_status xm)"
    and "xm1 = xm\<lparr>xm_slave_status := xm_slave_status xm1\<rparr>"
    and "xm_execute_promise xm = Promise_Value \<longrightarrow> st \<in> {SL_CONFIGURED, SL_TERMINATED}"
    and "HandleSlaveStateChange xm1 = (r, xm')"
  shows "xm_inv (ph, xm')"
proof -
  have s: "slave_states (xm_slave_status xm1) \<subseteq> insert st (slave_states (xm_slave_status xm))" by (rule slave_states_modify [OF assms(2)])
  have w: "umap_wf (xm_slave_status xm1)" using assms(1,2) by (simp add: xm_inv_def)
  have f: "xm_life xm1 = xm_life xm" "xm_late_joiner_slave_status xm1 = []" "xm_execute_promise xm1 = xm_execute_promise xm"
    using assms(1) by (subst assms(3); simp add: xm_inv_def)+
  from state_change_cases [OF assms(5)] show ?thesis
  proof (elim disjE conjE)
    assume "xm' = xm1"
    then show ?thesis using assms(1,4) s w f by (auto simp: xm_inv_def)
  next
    assume "xm_execute_promise xm1 = Promise_Unset" "xm' = xm1\<lparr>xm_execute_promise := Promise_Value\<rparr>" "slave_states (xm_slave_status xm1) \<subseteq> {SL_CONFIGURED}"
    then show ?thesis using assms(1) w f by (auto simp: xm_inv_def)
  next
    assume "xm_execute_promise xm1 = Promise_Unset" "\<exists>s. xm' = xm1\<lparr>xm_execute_promise := Promise_Exception s\<rparr>"
    then show ?thesis using assms(1) w f by (auto simp: xm_inv_def)
  qed
qed

lemma xm_inv_SetSlaveState:
  assumes "xm_inv (ph, xm)" and "SetSlaveState k st xm = (r, xm')"
    and "xm_execute_promise xm = Promise_Value \<Longrightarrow> st \<in> {SL_CONFIGURED, SL_TERMINATED}"
  shows "xm_inv (ph, xm')"
proof -
  have "xm_late_joiner_slave_status xm = []" using assms(1) by (simp add: xm_inv_def)
  from assms(2) this show ?thesis
  proof (cases rule: SetSlaveState_cases)
    case 1
    then show ?thesis using assms(1) by simp
  next
    case (2 xm1)
    then show ?thesis using xm_inv_change [OF assms(1), of xm1 k st r xm'] assms(3) by simp
  qed
qed

lemma GetSlaveState_cases:
  assumes "xm_late_joiner_slave_status xm = []"
  shows "(\<exists>ss. map_of (xm_slave_status xm) k = Some ss \<and> GetSlaveState k xm = (Inr (ss_state ss), xm)) \<or>
    (\<exists>e. GetSlaveState k xm = (Inl e, xm))"
  using assms by (auto simp: GetSlaveState_def GetSlaveStatus_def ev_rules split: option.splits)

lemma GetSlaveState_in:
  "map_of (xm_slave_status xm) k = Some ss \<Longrightarrow> ss_state ss \<in> slave_states (xm_slave_status xm)"
  by (force dest: map_of_SomeD simp: slave_states_def)

text \<open>The change of a slave's state that makes the master start: the slave is now CONFIGURED, as all are.\<close>

lemma SetSlaveState_start:
  assumes "SetSlaveState k st xm = (r, xm')" and "xm_late_joiner_slave_status xm = []"
    and "xm_execute_promise xm \<noteq> Promise_Value" and "xm_execute_promise xm' = Promise_Value"
  shows "slave_states (xm_slave_status xm') \<subseteq> {SL_CONFIGURED}" and "st = SL_CONFIGURED"
proof -
  have "slave_states (xm_slave_status xm') \<subseteq> {SL_CONFIGURED} \<and> st = SL_CONFIGURED"
    using assms(1,2)
  proof (cases rule: SetSlaveState_cases)
    case 1
    then show ?thesis using assms(3,4) by simp
  next
    case (2 x1)
    have "st \<in> slave_states (xm_slave_status x1)" using 2(1,3) by (force simp: umap_modify_def umap_count_keys image_iff slave_states_def)
    then show ?thesis using state_change_cases [OF 2(2)] 2(1) assms(3,4) by auto
  qed
  then show "slave_states (xm_slave_status xm') \<subseteq> {SL_CONFIGURED}" and "st = SL_CONFIGURED" by simp_all
qed

lemma xm_inv_startup:
  assumes i: "xm_inv (ph, xm)" and run: "ExecutionManager_HandleSlaveStartup slave xm = (r, xm')"
  shows "xm_inv (ph, xm')"
proof -
  let ?k = "slave_key_of slave"
  have l: "xm_late_joiner_slave_status xm = []" using i by (simp add: xm_inv_def)
  have loop: "xm_inv (ph, b)" if "xm_inv (ph, a)" "xm_execute_promise a \<noteq> Promise_Value \<or> ms = []"
    "forE ms (\<lambda>_. SetSlaveState ?k SL_Registered) a = (q, b)" for ms :: "(string \<times> Container_pb) list" and a b q
    using that
  proof (induction ms arbitrary: a)
    case Nil
    then show ?case by (simp add: returnE_def)
  next
    case (Cons m ms)
    obtain q1 a1 where a1: "SetSlaveState ?k SL_Registered a = (q1, a1)" by (cases "SetSlaveState ?k SL_Registered a")
    have i1: "xm_inv (ph, a1)" using xm_inv_SetSlaveState [OF Cons.prems(1) a1] Cons.prems(2) by simp
    have p1: "xm_execute_promise a1 \<noteq> Promise_Value"
      using SetSlaveState_start [OF a1] Cons.prems(1,2) by (auto simp: xm_inv_def)
    show ?case
    proof (cases q1)
      case (Inl e)
      then show ?thesis using Cons.prems(3) a1 i1 by (simp add: ev_rules)
    next
      case (Inr u)
      then show ?thesis using Cons.IH [OF i1] p1 Cons.prems(3) a1 by (simp add: ev_rules)
    qed
  qed
  from GetSlaveState_cases [OF l, of ?k] show ?thesis
  proof (elim disjE exE conjE)
    fix ss assume ss: "map_of (xm_slave_status xm) ?k = Some ss" "GetSlaveState ?k xm = (Inr (ss_state ss), xm)"
    show ?thesis
    proof (cases "ss_state ss = SL_OFFLINE")
      case True
      then have "xm_execute_promise xm \<noteq> Promise_Value" using i GetSlaveState_in [OF ss(1)] by (auto simp: xm_inv_def)
      then show ?thesis using loop [OF i] run True ss(2)
        by (auto simp: ExecutionManager_HandleSlaveStartup_def Let_def ev_rules split: prod.splits sum.splits)
    next
      case False
      then show ?thesis using run ss(2) i by (simp add: ExecutionManager_HandleSlaveStartup_def Let_def ev_rules)
    qed
  next
    fix e assume "GetSlaveState ?k xm = (Inl e, xm)"
    then show ?thesis using run i by (simp add: ExecutionManager_HandleSlaveStartup_def Let_def ev_rules)
  qed
qed

lemma xm_inv_configured:
  assumes i: "xm_inv (ph, xm)" and run: "HandleSlaveConfigured slave success xm = (r, xm')"
  shows "xm_inv (ph, xm')"
proof -
  let ?k = "slave_key_of slave"
  have l: "xm_late_joiner_slave_status xm = []" using i by (simp add: xm_inv_def)
  from GetSlaveState_cases [OF l, of ?k] show ?thesis
  proof (elim disjE exE conjE)
    fix ss assume ss: "map_of (xm_slave_status xm) ?k = Some ss" "GetSlaveState ?k xm = (Inr (ss_state ss), xm)"
    show ?thesis
    proof (cases "ss_state ss = SL_Registered")
      case True
      then have "xm_execute_promise xm \<noteq> Promise_Value" using i GetSlaveState_in [OF ss(1)] by (auto simp: xm_inv_def)
      then show ?thesis using xm_inv_SetSlaveState [OF i] run True ss(2)
        by (auto simp: HandleSlaveConfigured_def Let_def ev_rules split: prod.splits sum.splits)
    next
      case False
      then show ?thesis using run ss(2) i by (simp add: HandleSlaveConfigured_def Let_def ev_rules)
    qed
  next
    fix e assume "GetSlaveState ?k xm = (Inl e, xm)"
    then show ?thesis using run i by (simp add: HandleSlaveConfigured_def Let_def ev_rules)
  qed
qed

lemma startup_no_start:
  assumes i: "xm_inv (ph, xm)" and run: "ExecutionManager_HandleSlaveStartup slave xm = (r, xm')"
    and p: "xm_execute_promise xm \<noteq> Promise_Value"
  shows "xm_execute_promise xm' \<noteq> Promise_Value"
proof -
  let ?k = "slave_key_of slave"
  have loop: "xm_execute_promise b \<noteq> Promise_Value" if "xm_inv (ph, a)" "xm_execute_promise a \<noteq> Promise_Value"
    "forE ms (\<lambda>_. SetSlaveState ?k SL_Registered) a = (q, b)" for ms :: "(string \<times> Container_pb) list" and a b q
    using that
  proof (induction ms arbitrary: a)
    case Nil
    then show ?case by (simp add: returnE_def)
  next
    case (Cons m ms)
    obtain q1 a1 where a1: "SetSlaveState ?k SL_Registered a = (q1, a1)" by (cases "SetSlaveState ?k SL_Registered a")
    have "xm_execute_promise a1 \<noteq> Promise_Value"
      using SetSlaveState_start [OF a1] Cons.prems(1,2) by (auto simp: xm_inv_def)
    moreover have "xm_inv (ph, a1)" using xm_inv_SetSlaveState [OF Cons.prems(1) a1] Cons.prems(2) by simp
    ultimately show ?case using Cons.IH [of a1] Cons.prems(3) a1 by (cases q1) (simp_all add: ev_rules)
  qed
  have l: "xm_late_joiner_slave_status xm = []" using i by (simp add: xm_inv_def)
  from GetSlaveState_cases [OF l, of ?k] show ?thesis
    using loop [OF i p] run p
    by (auto simp: ExecutionManager_HandleSlaveStartup_def Let_def ev_rules split: prod.splits sum.splits if_splits)
qed

text \<open>In the step in which the master decides to start, every slave is CONFIGURED.\<close>

lemma start_configured:
  "xm_step unlimited s s' \<Longrightarrow> xm_inv s \<Longrightarrow> xm_execute_promise (snd s) \<noteq> Promise_Value \<Longrightarrow>
   xm_execute_promise (snd s') = Promise_Value \<Longrightarrow> slave_states (xm_slave_status (snd s')) \<subseteq> {SL_CONFIGURED}"
proof (induction rule: xm_step.induct)
  case (startup slave xm r xm' ph)
  then show ?case using startup_no_start by simp
next
  case (configured slave success xm q xm' ph)
  then have l: "xm_late_joiner_slave_status xm = []" by (simp add: xm_inv_def)
  have all: "slave_states (xm_slave_status xm') \<subseteq> {SL_CONFIGURED}" if "SetSlaveState k st xm = (q, xm')" for k st
    using SetSlaveState_start(1) [OF that l] configured.prems by simp
  from GetSlaveState_cases [OF l, of "slave_key_of slave"] show ?case
    using configured by (auto simp: HandleSlaveConfigured_def Let_def ev_rules split: if_splits dest!: all)
next
  case (terminated slave xm q xm' ph)
  then show ?case using SetSlaveState_start(2) [of "slave_key_of slave" SL_TERMINATED xm q xm']
    by (simp add: HandleSlaveTerminated_def xm_inv_def)
next
  case (heartbeat slave xm q xm' ph)
  then have l: "xm_late_joiner_slave_status xm = []" by (simp add: xm_inv_def)
  have u: "upd_slave (slave_key_of slave) (\<lambda>ss. ss\<lparr>ss_heartbeat_time := xm_now xm\<rparr>) xm = (q, xm')"
    using heartbeat.hyps by (simp add: HandleSlaveHeartbeat_def SetSlaveAlive_def ev_rules)
  show ?case using upd_slave_cases [OF u l] heartbeat.prems by (auto split: if_splits)
next
  case (update m xm q xm' ph)
  then show ?case
    by (auto simp: ExecutionManager_HandleExperimentUpdate_def PushControlMessage_def ev_rules
        split: EnvironmentMessage_Type_pb.splits)
next
  case (terminate ph xm)
  then show ?case by (auto simp: ExecutionManager_Terminate_def try_set_exception_def split: promise_state.splits)
qed (auto simp: xm_inv_def ExecutionLoop_execute_def ExecutionLoop_stop_def ExecutionLoop_finish_def PushStateChange_def
    PushControlMessage_def TranslateLifecycle_def Let_def)

lemma xm_inv_step: "xm_step unlimited s s' \<Longrightarrow> xm_inv s \<Longrightarrow> xm_inv s'"
proof (induction rule: xm_step.induct)
  case (startup slave xm r xm' ph)
  then show ?case by (blast intro: xm_inv_startup)
next
  case (configured slave success xm q xm' ph)
  then show ?case by (blast intro: xm_inv_configured)
next
  case (terminated slave xm q xm' ph)
  then show ?case using xm_inv_SetSlaveState [of ph xm "slave_key_of slave" SL_TERMINATED q xm'] by (simp add: HandleSlaveTerminated_def)
next
  case (heartbeat slave xm q xm' ph)
  then have l: "xm_late_joiner_slave_status xm = []" by (simp add: xm_inv_def)
  have u: "upd_slave (slave_key_of slave) (\<lambda>ss. ss\<lparr>ss_heartbeat_time := xm_now xm\<rparr>) xm = (q, xm')"
    using heartbeat.hyps by (simp add: HandleSlaveHeartbeat_def SetSlaveAlive_def ev_rules)
  show ?case
  proof (cases "umap_count (xm_slave_status xm) (slave_key_of slave)")
    case True
    then have "xm' = xm\<lparr>xm_slave_status := umap_modify (slave_key_of slave) (\<lambda>ss. ss\<lparr>ss_heartbeat_time := xm_now xm\<rparr>) (xm_slave_status xm)\<rparr>"
      using upd_slave_cases [OF u l] by simp
    then have e: "slave_states (xm_slave_status xm') \<subseteq> slave_states (xm_slave_status xm)" "umap_wf (xm_slave_status xm') = umap_wf (xm_slave_status xm)"
      "xm_late_joiner_slave_status xm' = xm_late_joiner_slave_status xm" "xm_execute_promise xm' = xm_execute_promise xm"
      "xm_life xm' = xm_life xm"
      by (force simp: umap_modify_def slave_states_def, simp_all)
    show ?thesis using heartbeat.prems subset_trans [OF e(1)] unfolding xm_inv_def prod.case e(2-5) by blast
  next
    case False
    then show ?thesis using upd_slave_cases [OF u l] heartbeat.prems by simp
  qed
next
  case (update m xm q xm' ph)
  then show ?case
    by (auto simp: ExecutionManager_HandleExperimentUpdate_def PushControlMessage_def xm_inv_def ev_rules
        split: EnvironmentMessage_Type_pb.splits)
next
  case (terminate ph xm)
  then show ?case by (cases ph) (auto simp: ExecutionManager_Terminate_def xm_inv_def try_set_exception_def split: promise_state.splits)
next
  case (stop xm)
  then show ?case by (auto simp: xm_inv_def ExecutionLoop_stop_def PushStateChange_def PushControlMessage_def TranslateLifecycle_def Let_def)
next
  case (finish xm)
  then show ?case by (cases "xm_execute_promise xm") (auto simp: xm_inv_def ExecutionLoop_finish_def)
qed (auto simp: xm_inv_def ExecutionLoop_execute_def ExecutionLoop_stop_def PushStateChange_def PushControlMessage_def
    TranslateLifecycle_def Let_def)

lemma xm_inv_init:
  assumes "ExecutionManager_RequestDeployment m (ExecutionManager_init now) = (Inr (), xm0)"
  shows "xm_inv (XM_Waiting, xm0)"
proof -
  have loop: "xm_late_joiner_slave_status b = [] \<and> umap_wf (xm_slave_status b) \<and> xm_execute_promise b = Promise_Unset \<and> xm_life b = []"
    if "forE ss emplace_slave a = (Inr (), b)" "xm_late_joiner_slave_status a = []" "umap_wf (xm_slave_status a)"
      "xm_execute_promise a = Promise_Unset" "xm_life a = []" for ss a b
    using that
  proof (induction ss arbitrary: a)
    case (Cons s ss)
    then obtain a1 where a1: "emplace_slave s a = (Inr (), a1)" "forE ss emplace_slave a1 = (Inr (), b)"
      by (auto simp: ev_rules split: prod.splits sum.splits)
    show ?case
      by (rule Cons.IH [OF a1(2)])
         (use a1(1) Cons.prems in \<open>auto simp: emplace_slave_def Let_def ev_rules umap_wf_emplace split: if_splits\<close>)
  qed (auto simp: returnE_def)
  show ?thesis using assms loop
    by (fastforce simp: ExecutionManager_RequestDeployment_def Let_def ev_rules ExecutionManager_init_def xm_inv_def)
qed

lemma xm_reachable_inv: "xm_reachable unlimited xm0 s \<Longrightarrow> xm_inv (XM_Waiting, xm0) \<Longrightarrow> xm_inv s"
  by (induction rule: xm_reachable.induct) (auto intro: xm_inv_step)

text \<open>
  C18. An experiment starts only when all its slaves are ready, and is always taken down in order. In
  every state that the master reaches after it received the experiment, the life-cycle events of the
  experiment are none, ACTIVATED, then PASSIVATED and TERMINATED, or only TERMINATED. It is ACTIVATED
  only after the promise to execute got its value; in the step that gives it, every slave is
  CONFIGURED; and from then on every slave is CONFIGURED or has TERMINATED.
\<close>
theorem execution_starts_configured:
  assumes "ExecutionManager_RequestDeployment m (ExecutionManager_init now) = (Inr (), xm0)"
    and "xm_reachable unlimited xm0 (ph, xm)"
  shows "xm_life xm \<in> {[], [LC_ACTIVATED], [LC_ACTIVATED, LC_PASSIVATED, LC_TERMINATED], [LC_TERMINATED]} \<and>
    (LC_ACTIVATED \<in> set (xm_life xm) \<longrightarrow> xm_execute_promise xm = Promise_Value) \<and>
    (\<forall>ph' xm'. xm_step unlimited (ph, xm) (ph', xm') \<longrightarrow> xm_execute_promise xm \<noteq> Promise_Value \<longrightarrow>
       xm_execute_promise xm' = Promise_Value \<longrightarrow> (\<forall>(k, ss) \<in> set (xm_slave_status xm'). ss_state ss = SL_CONFIGURED)) \<and>
    (xm_execute_promise xm = Promise_Value \<longrightarrow>
       (\<forall>(k, ss) \<in> set (xm_slave_status xm). ss_state ss \<in> {SL_CONFIGURED, SL_TERMINATED}))"
proof -
  have i: "xm_inv (ph, xm)" by (rule xm_reachable_inv [OF assms(2) xm_inv_init [OF assms(1)]])
  have l: "xm_life xm = life_of_phase ph (xm_execute_promise xm)" "ph = XM_Executing \<longrightarrow> xm_execute_promise xm = Promise_Value"
    "xm_execute_promise xm = Promise_Value \<longrightarrow> slave_states (xm_slave_status xm) \<subseteq> {SL_CONFIGURED, SL_TERMINATED}"
    using i by (simp_all add: xm_inv_def)
  have v: "LC_ACTIVATED \<in> set (xm_life xm) \<Longrightarrow> xm_execute_promise xm = Promise_Value"
    using l(1,2) by (cases ph; cases "xm_execute_promise xm") auto
  have life: "xm_life xm \<in> {[], [LC_ACTIVATED], [LC_ACTIVATED, LC_PASSIVATED, LC_TERMINATED], [LC_TERMINATED]}"
    using l by (cases ph; cases "xm_execute_promise xm") auto
  have "\<forall>(k, ss) \<in> set (xm_slave_status xm'). ss_state ss = SL_CONFIGURED"
    if "xm_step unlimited (ph, xm) (ph', xm')" "xm_execute_promise xm \<noteq> Promise_Value" "xm_execute_promise xm' = Promise_Value" for ph' xm'
    using start_configured [OF that(1) i] that(2,3) by (auto simp: slave_states_def)
  then show ?thesis using life v l(3) by (auto simp: slave_states_def)
qed

text \<open>The requests of slaves, but for the reports of the slaves in \<open>barred\<close> that they are configured.\<close>

inductive slave_request :: "string set \<Rightarrow> ExecutionManager \<Rightarrow> ExecutionManager \<Rightarrow> bool" for barred where
  startup: "ExecutionManager_HandleSlaveStartup slave xm = (r, xm') \<Longrightarrow> slave_request barred xm xm'"
| configured: "slave_key_of slave \<notin> barred \<Longrightarrow> HandleSlaveConfigured slave success xm = (q, xm') \<Longrightarrow> slave_request barred xm xm'"
| terminated: "HandleSlaveTerminated slave xm = (q, xm') \<Longrightarrow> slave_request barred xm xm'"
| heartbeat: "HandleSlaveHeartbeat slave xm = (q, xm') \<Longrightarrow> slave_request barred xm xm'"

text \<open>A slave that is in none of the states the master waits for, and can no longer get there.\<close>

definition blocked :: "SlaveState set \<Rightarrow> string \<Rightarrow> ExecutionManager \<Rightarrow> bool" where
  "blocked S k xm \<longleftrightarrow> xm_late_joiner_slave_status xm = [] \<and> xm_execute_promise xm = Promise_Unset \<and>
     (\<exists>ss. map_of (xm_slave_status xm) k = Some ss \<and> ss_state ss \<in> S)"

lemma blocked_SetSlaveState:
  assumes b: "blocked S k xm" and run: "SetSlaveState k' st xm = (r, xm')" and "k' = k \<Longrightarrow> st \<in> S"
    and S: "S \<inter> {SL_CONFIGURED, SL_Error} = {}"
  shows "blocked S k xm'"
proof -
  have "xm_late_joiner_slave_status xm = []" using b by (simp add: blocked_def)
  from run this show ?thesis
  proof (cases rule: SetSlaveState_cases)
    case 1
    then show ?thesis using b by simp
  next
    case (2 xm1)
    then have b1: "blocked S k xm1" using b assms(3) by (auto simp: blocked_def)
    then obtain st where "st \<in> slave_states (xm_slave_status xm1)" "st \<in> S" unfolding blocked_def by (metis GetSlaveState_in)
    then show ?thesis using state_change_cases [OF 2(2)] b1 S by auto
  qed
qed

lemma blocked_request:
  "slave_request barred xm xm' \<Longrightarrow> blocked S k xm \<Longrightarrow> S \<inter> {SL_OFFLINE, SL_CONFIGURED, SL_Error} = {} \<Longrightarrow> SL_TERMINATED \<in> S \<Longrightarrow>
   SL_Registered \<in> S \<longrightarrow> k \<in> barred \<Longrightarrow> blocked S k xm'"
proof (induction rule: slave_request.induct)
  case (startup slave xm r xm')
  let ?k = "slave_key_of slave"
  have l: "xm_late_joiner_slave_status xm = []" using startup.prems by (simp add: blocked_def)
  have S: "S \<inter> {SL_CONFIGURED, SL_Error} = {}" using startup.prems by auto
  have loop: "blocked S k b" if "?k \<noteq> k" "blocked S k a" "forE ms (\<lambda>_. SetSlaveState ?k SL_Registered) a = (q, b)"
    for ms :: "(string \<times> Container_pb) list" and a b q
    using that
  proof (induction ms arbitrary: a)
    case (Cons m ms)
    obtain q1 a1 where a1: "SetSlaveState ?k SL_Registered a = (q1, a1)" by (cases "SetSlaveState ?k SL_Registered a")
    have "blocked S k a1" using blocked_SetSlaveState [OF Cons.prems(2) a1 _ S] Cons.prems(1) by simp
    then show ?case using Cons.IH Cons.prems(1,3) a1 by (cases q1) (auto simp: ev_rules)
  qed (simp add: returnE_def)
  from GetSlaveState_cases [OF l, of ?k] show ?case
  proof (elim disjE exE conjE)
    fix ss assume ss: "map_of (xm_slave_status xm) ?k = Some ss" "GetSlaveState ?k xm = (Inr (ss_state ss), xm)"
    have "ss_state ss = SL_OFFLINE \<Longrightarrow> ?k \<noteq> k" using ss(1) startup.prems by (auto simp: blocked_def)
    then show ?thesis using loop startup ss(2)
      by (cases "ss_state ss = SL_OFFLINE")
         (auto simp: ExecutionManager_HandleSlaveStartup_def Let_def ev_rules split: prod.splits sum.splits)
  next
    fix e assume "GetSlaveState ?k xm = (Inl e, xm)"
    then show ?thesis using startup by (simp add: ExecutionManager_HandleSlaveStartup_def Let_def ev_rules)
  qed
next
  case (configured slave success xm q xm')
  let ?k = "slave_key_of slave"
  have l: "xm_late_joiner_slave_status xm = []" using configured.prems by (simp add: blocked_def)
  have S: "S \<inter> {SL_CONFIGURED, SL_Error} = {}" using configured.prems by auto
  from GetSlaveState_cases [OF l, of ?k] show ?case
  proof (elim disjE exE conjE)
    fix ss assume ss: "map_of (xm_slave_status xm) ?k = Some ss" "GetSlaveState ?k xm = (Inr (ss_state ss), xm)"
    have "ss_state ss = SL_Registered \<Longrightarrow> ?k \<noteq> k" using ss(1) configured by (auto simp: blocked_def)
    then show ?thesis using blocked_SetSlaveState [OF configured.prems(1) _ _ S] configured ss(2)
      by (cases "ss_state ss = SL_Registered") (auto simp: HandleSlaveConfigured_def Let_def ev_rules)
  next
    fix e assume "GetSlaveState ?k xm = (Inl e, xm)"
    then show ?thesis using configured by (simp add: HandleSlaveConfigured_def Let_def ev_rules)
  qed
next
  case (terminated slave xm q xm')
  then show ?case using blocked_SetSlaveState [of S k xm "slave_key_of slave" SL_TERMINATED q xm'] by (auto simp: HandleSlaveTerminated_def)
next
  case (heartbeat slave xm q xm')
  then have l: "xm_late_joiner_slave_status xm = []" by (simp add: blocked_def)
  have u: "upd_slave (slave_key_of slave) (\<lambda>ss. ss\<lparr>ss_heartbeat_time := xm_now xm\<rparr>) xm = (q, xm')"
    using heartbeat.hyps by (simp add: HandleSlaveHeartbeat_def SetSlaveAlive_def ev_rules)
  show ?case using upd_slave_cases [OF u l] heartbeat.prems by (auto simp: blocked_def split: if_splits)
qed

lemma blocked_requests:
  assumes "(slave_request barred)\<^sup>*\<^sup>* xm xm'" and "blocked S k xm" and "S \<inter> {SL_OFFLINE, SL_CONFIGURED, SL_Error} = {}"
    and "SL_TERMINATED \<in> S" and "SL_Registered \<in> S \<longrightarrow> k \<in> barred"
  shows "blocked S k xm'"
  using assms by (induction rule: rtranclp_induct) (auto intro: blocked_request)

text \<open>
  A slave that ends too early blocks the experiment. When a slave reports that it has terminated
  before the experiment was started or given up, then no sequence of requests of any slaves ever
  starts the experiment or makes the master give it up.
\<close>
theorem early_termination_blocks:
  assumes "map_of (xm_slave_status xm) k = Some ss" and "ss_state ss = SL_TERMINATED"
    and "xm_execute_promise xm = Promise_Unset" and "xm_late_joiner_slave_status xm = []"
    and "(slave_request {})\<^sup>*\<^sup>* xm xm'"
  shows "xm_execute_promise xm' = Promise_Unset"
proof -
  have "blocked {SL_TERMINATED} k xm" using assms(1-4) by (simp add: blocked_def)
  from blocked_requests [OF assms(5) this] show ?thesis by (simp add: blocked_def)
qed

text \<open>A slave whose request for its container was served is Registered.\<close>

lemma startup_registers:
  assumes "ExecutionManager_HandleSlaveStartup slave xm = (Inr (Some reply), xm1)"
    and "xm_late_joiner_slave_status xm = []" and "xm_execute_promise xm = Promise_Unset"
  shows "blocked {SL_Registered, SL_TERMINATED} (slave_key_of slave) xm1"
proof -
  let ?k = "slave_key_of slave"
  let ?b = "blocked {SL_Registered, SL_TERMINATED} ?k"
  have step: "?b a1" if "SetSlaveState ?k SL_Registered a = (q, a1)" "xm_late_joiner_slave_status a = []"
      "xm_execute_promise a = Promise_Unset" "map_of (xm_slave_status a) ?k = Some ss" for a q a1 ss
    using that(1,2)
  proof (cases rule: SetSlaveState_cases)
    case 1
    then show ?thesis using that(4) by (simp add: umap_count_def)
  next
    case (2 x1)
    have "?b x1" using 2(1) that by (auto simp: blocked_def)
    then obtain st where "st \<in> slave_states (xm_slave_status x1)" "st \<in> {SL_Registered, SL_TERMINATED}"
      unfolding blocked_def by (metis GetSlaveState_in)
    then show ?thesis using state_change_cases [OF 2(2)] \<open>?b x1\<close> by auto
  qed
  have loop: "?b b" if "forE ms (\<lambda>_. SetSlaveState ?k SL_Registered) a = (q, b)" "?b a"
    for ms :: "(string \<times> Container_pb) list" and a b q
    using that
  proof (induction ms arbitrary: a)
    case (Cons m ms)
    obtain q1 a1 where a1: "SetSlaveState ?k SL_Registered a = (q1, a1)" by (cases "SetSlaveState ?k SL_Registered a")
    have "?b a1" by (rule blocked_SetSlaveState [OF Cons.prems(2) a1]) auto
    then show ?case using Cons.IH Cons.prems(1) a1 by (cases q1) (auto simp: ev_rules)
  qed (simp add: returnE_def)
  from GetSlaveState_cases [OF assms(2), of ?k] show ?thesis
  proof (elim disjE exE conjE)
    fix ss assume ss: "map_of (xm_slave_status xm) ?k = Some ss" "GetSlaveState ?k xm = (Inr (ss_state ss), xm)"
    define ms where "ms = slave_configurations slave (xm_control_message xm)"
    have run: "forE ms (\<lambda>_. SetSlaveState ?k SL_Registered) xm = (Inr (), xm1)" and "ms \<noteq> []"
      using assms(1) ss(2)
      by (auto simp: ExecutionManager_HandleSlaveStartup_def Let_def ev_rules ms_def split: prod.splits sum.splits if_splits)
    then obtain m ms' where ms: "ms = m # ms'" by (cases ms) auto
    obtain q1 a1 where a1: "SetSlaveState ?k SL_Registered xm = (q1, a1)" by (cases "SetSlaveState ?k SL_Registered xm")
    have "?b a1" by (rule step [OF a1 assms(2,3) ss(1)])
    then show ?thesis using run a1 loop by (cases q1) (auto simp: ms ev_rules)
  next
    fix e assume "GetSlaveState ?k xm = (Inl e, xm)"
    then show ?thesis using assms(1) by (simp add: ExecutionManager_HandleSlaveStartup_def Let_def ev_rules)
  qed
qed

section \<open>A sample experiment\<close>

definition demo_slave :: SlaveId_pb where
  "demo_slave = \<lparr>sl_ip_address = ''10.0.0.1'', sl_container_id = ''c''\<rparr>"

definition demo_slave_container :: Container_pb where
  "demo_slave_container = \<lparr>ctpb_info = Info_default\<lparr>info_id := ''c''\<rparr>, ctpb_type = GENERIC, ctpb_components = [],
     ctpb_loggers = [], ctpb_implicit = True, ctpb_is_late_joiner = False\<rparr>"

definition demo_xm_message :: EnvironmentMessage_pb where
  "demo_xm_message = \<lparr>em_type = CONFIGURE_EXPERIMENT, em_control_message = Some (ControlMessage_default\<lparr>cm_nodes :=
     [\<lparr>npb_info = Info_default\<lparr>info_name := ''n''\<rparr>, npb_ip_address = ''10.0.0.1'', npb_containers = [demo_slave_container]\<rparr>]\<rparr>)\<rparr>"

definition demo_xm :: "SlaveState \<Rightarrow> ExecutionManager" where
  "demo_xm st = (ExecutionManager_init 0)\<lparr>
     xm_control_message := the (em_control_message demo_xm_message),
     xm_slave_status := [(''10.0.0.1_c'', \<lparr>ss_state = st, ss_heartbeat_time = 0\<rparr>)]\<rparr>"

lemmas demo_xm_defs = demo_slave_def demo_slave_container_def demo_xm_message_def demo_xm_def ExecutionManager_init_def
  GetSlaveKey_def slave_key_of_def Info_default_def ControlMessage_default_def umap_modify_def umap_count_def umap_emplace_def

lemma demo_xm_request:
  "ExecutionManager_RequestDeployment demo_xm_message (ExecutionManager_init 0) = (Inr (), demo_xm SL_OFFLINE)"
  by (simp add: demo_xm_defs ExecutionManager_RequestDeployment_def control_message_slaves_def emplace_slave_def
      ev_rules Let_def cong: ev_cong)

lemma demo_xm_matches: "slave_configurations demo_slave (xm_control_message (demo_xm st)) = [(''n'', demo_slave_container)]"
  by (simp add: slave_configurations_def demo_xm_defs)

lemma demo_xm_key: "slave_key_of demo_slave = ''10.0.0.1_c''"
  by (simp add: slave_key_of_def GetSlaveKey_def demo_slave_def)

lemma demo_xm_state: "GetSlaveState ''10.0.0.1_c'' (demo_xm st) = (Inr st, demo_xm st)"
  by (simp add: GetSlaveState_def GetSlaveStatus_def demo_xm_def ev_rules)

lemma demo_xm_upd: "upd_slave ''10.0.0.1_c'' (\<lambda>ss. ss\<lparr>ss_state := st'\<rparr>) (demo_xm st) = (Inr (), demo_xm st')"
  by (simp add: upd_slave_def GetSlaveStatus_def demo_xm_def umap_count_def umap_modify_def ev_rules)

lemma demo_xm_change:
  "HandleSlaveStateChange (demo_xm SL_Registered) = (Inr (), demo_xm SL_Registered)"
  "HandleSlaveStateChange (demo_xm SL_CONFIGURED) = (Inr (), (demo_xm SL_CONFIGURED)\<lparr>xm_execute_promise := Promise_Value\<rparr>)"
  by (simp_all add: HandleSlaveStateChange_def GetSlaveStateCount_def set_execute_promise_def demo_xm_def
      ExecutionManager_init_def ev_rules)

lemma demo_xm_startup:
  "ExecutionManager_HandleSlaveStartup demo_slave (demo_xm SL_OFFLINE) =
     (Inr (Some (''n'', demo_slave_container)), demo_xm SL_Registered)"
  by (simp add: ExecutionManager_HandleSlaveStartup_def demo_xm_matches demo_xm_key demo_xm_state demo_xm_upd demo_xm_change
      SetSlaveState_def ev_rules Let_def)

lemma demo_xm_configured:
  "HandleSlaveConfigured demo_slave True (demo_xm SL_Registered) =
     (Inr (), (demo_xm SL_CONFIGURED)\<lparr>xm_execute_promise := Promise_Value\<rparr>)"
  by (simp add: HandleSlaveConfigured_def demo_xm_key demo_xm_state demo_xm_upd demo_xm_change SetSlaveState_def ev_rules Let_def)

theorem execution_starts_configured_witness:
  "\<exists>xm. xm_reachable True (demo_xm SL_OFFLINE) (XM_Executing, xm) \<and> xm_life xm = [LC_ACTIVATED] \<and>
     xm_execute_promise xm = Promise_Value \<and> (\<forall>(k, ss) \<in> set (xm_slave_status xm). ss_state ss \<in> {SL_CONFIGURED, SL_TERMINATED})"
proof -
  let ?xm = "(demo_xm SL_CONFIGURED)\<lparr>xm_execute_promise := Promise_Value\<rparr>"
  have "xm_reachable True (demo_xm SL_OFFLINE) (XM_Waiting, demo_xm SL_Registered)"
    by (rule xm_reachable.step [OF xm_reachable.init xm_step.startup [OF demo_xm_startup]])
  from xm_reachable.step [OF this xm_step.configured [OF demo_xm_configured]]
  have "xm_reachable True (demo_xm SL_OFFLINE) (XM_Waiting, ?xm)" .
  from xm_reachable.step [OF this xm_step.execute]
  have r: "xm_reachable True (demo_xm SL_OFFLINE) (XM_Executing, ExecutionLoop_execute ?xm)" by simp
  have l: "xm_life (ExecutionLoop_execute ?xm) = [LC_ACTIVATED]"
    by (simp add: ExecutionLoop_execute_def PushStateChange_def PushControlMessage_def TranslateLifecycle_def demo_xm_def
        ExecutionManager_init_def Let_def)
  from execution_starts_configured [OF demo_xm_request r] l r show ?thesis by auto
qed

theorem early_termination_blocks_witness:
  "\<exists>xm'. (slave_request {})\<^sup>*\<^sup>* (demo_xm SL_TERMINATED) xm' \<and> xm_execute_promise xm' = Promise_Unset"
proof -
  obtain q xm' where "HandleSlaveHeartbeat demo_slave (demo_xm SL_TERMINATED) = (q, xm')"
    by (cases "HandleSlaveHeartbeat demo_slave (demo_xm SL_TERMINATED)")
  then have r: "(slave_request {})\<^sup>*\<^sup>* (demo_xm SL_TERMINATED) xm'" by (blast intro: slave_request.heartbeat)
  have "xm_execute_promise xm' = Promise_Unset"
    by (rule early_termination_blocks [OF _ _ _ _ r, of "''10.0.0.1_c''" "\<lparr>ss_state = SL_TERMINATED, ss_heartbeat_time = 0\<rparr>"])
       (simp_all add: demo_xm_def ExecutionManager_init_def)
  with r show ?thesis by blast
qed

section \<open>Ending the process\<close>

lemma run_one_cases:
  assumes "\<forall>s e s'. f s = (Inl e, s') \<longrightarrow> is_std_exception e"
  obtains (ok) "fst (f s) = Inr ()" and "Execution_run_one f s = (Inr '''', snd (f s))"
  | (thrown) e where "fst (f s) = Inl e" and "Execution_run_one f s = (Inr (what e @ [CHR 0x0A]), snd (f s))"
proof (cases "f s")
  case (Pair r s')
  show ?thesis
  proof (cases r)
    case (Inl e)
    with assms Pair have "is_std_exception e" by blast
    with Pair Inl show ?thesis using thrown by (simp add: Execution_run_one_def catchE_def ev_rules)
  next
    case (Inr u)
    with Pair show ?thesis using ok by (simp add: Execution_run_one_def catchE_def ev_rules)
  qed
qed

lemma run_all:
  assumes "\<forall>f \<in> set fs. \<forall>s e s'. f s = (Inl e, s') \<longrightarrow> is_std_exception e"
  shows "\<exists>ms. mapE Execution_run_one fs s = (Inr ms, foldl (\<lambda>s f. snd (f s)) s fs) \<and>
    (concat ms = '''' \<longleftrightarrow> (\<forall>i < length fs. fst ((fs ! i) (foldl (\<lambda>s f. snd (f s)) s (take i fs))) = Inr ()))"
  using assms
proof (induction fs arbitrary: s)
  case (Cons f fs)
  from Cons.prems have "\<forall>s e s'. f s = (Inl e, s') \<longrightarrow> is_std_exception e" by simp
  then obtain m where m: "Execution_run_one f s = (Inr m, snd (f s))" "m = '''' \<longleftrightarrow> fst (f s) = Inr ()"
    by (cases rule: run_one_cases [of f s]) auto
  from Cons.IH [of "snd (f s)"] Cons.prems obtain ms where ms:
    "mapE Execution_run_one fs (snd (f s)) = (Inr ms, foldl (\<lambda>s f. snd (f s)) (snd (f s)) fs)"
    "concat ms = '''' \<longleftrightarrow> (\<forall>i < length fs. fst ((fs ! i) (foldl (\<lambda>s f. snd (f s)) (snd (f s)) (take i fs))) = Inr ())"
    by auto
  show ?case
    by (rule exI [of _ "m # ms"]) (use m ms in \<open>auto simp: ev_rules All_less_Suc2\<close>)
qed (simp add: returnE_def)

text \<open>
  Ending the process runs every terminate function. Whatever standard exceptions they throw, all
  of them run, in order, each on the state the one before left; afterwards \<open>Start\<close> returns when
  none of them threw and throws a \<open>std::logic_error\<close> otherwise.
\<close>
theorem Execution_Start_runs_all:
  assumes "\<forall>f \<in> set fs. \<forall>s e s'. f s = (Inl e, s') \<longrightarrow> is_std_exception e"
  shows "\<exists>r. Execution_Start fs s = (r, foldl (\<lambda>s f. snd (f s)) s fs) \<and>
    (if \<forall>i < length fs. fst ((fs ! i) (foldl (\<lambda>s f. snd (f s)) s (take i fs))) = Inr ()
     then r = Inr () else \<exists>m. r = Inl (LogicError m))"
proof -
  obtain ms where "mapE Execution_run_one fs s = (Inr ms, foldl (\<lambda>s f. snd (f s)) s fs)"
    "concat ms = '''' \<longleftrightarrow> (\<forall>i < length fs. fst ((fs ! i) (foldl (\<lambda>s f. snd (f s)) s (take i fs))) = Inr ())"
    using run_all [OF assms] by blast
  then show ?thesis by (cases "concat ms = ''''") (auto simp: Execution_Start_def ev_rules)
qed

theorem Execution_Start_runs_all_witness:
  "\<exists>r. Execution_Start [throwE (RuntimeError ''x''), modifyE Suc] 0 = (r, 1) \<and> (\<exists>m. r = Inl (LogicError m))"
  using Execution_Start_runs_all [of "[throwE (RuntimeError ''x''), modifyE Suc]" 0]
  by (auto simp: All_less_Suc2 throwE_def modifyE_def numeral_2_eq_2)

end
