(* ===== verification/NMContainer.thy ===== *)
theory NMContainer
  imports ControlMessage ProtoRPC RTComponent
begin

text \<open>
  \<open>DeploymentContainer\<close> (\<^verbatim>\<open>re/src/nodemanager/deploymentcontainer.cpp\<close>): the components that a slave runs, built
  from the messages of its master by constructors in shared libraries, with \<open>DllLoader\<close>
  (\<^verbatim>\<open>dllloader.cpp\<close>) and \<open>LoganClient\<close> (\<^verbatim>\<open>loganclient.cpp\<close>). Parameters, collected in \<open>NodeEnv\<close>, are the dynamic
  linker, the constructor of the Logan logger, and what ports, workers and Logan clients do in a
  transition. Components are kept by value under their keys; a pointer to a component, port or worker
  is its key, and the objects below it are reached with \<open>zoomE\<close>.
\<close>

section \<open>Libraries\<close>

type_synonym lib_handle = nat

record RTObject =
  ob_name :: string
  ob_id :: string
  ob_type :: string
  ob_attributes :: attributes
  ob_machine :: StateMachine
  ob_loggers :: "string list"

record DCComponent =
  dcc_machine :: StateMachine
  dcc_loggers :: "string list"
  dcc_component :: "(RTObject, RTObject, unit) RTComponent"

text \<open>A symbol of a library: a constructor of components, or of ports for a component.\<close>

datatype symbol = Sym_component "string \<Rightarrow> DCComponent option" | Sym_port "string \<Rightarrow> DCComponent \<Rightarrow> exn + RTObject option"

record LoganClient =
  lc_name :: string
  lc_machine :: StateMachine
  lc_live_mode :: bool
  lc_frequency :: double_bits
  lc_endpoint :: string
  lc_processes :: "string list"

text \<open>\<open>dlopen\<close> and \<open>dlsym\<close> come with the text of \<open>dlerror\<close>, empty when there is none.\<close>

record NodeEnv =
  ne_dlopen :: "string \<Rightarrow> lib_handle option \<times> string"
  ne_dlsym :: "lib_handle \<Rightarrow> string \<Rightarrow> symbol option \<times> string"
  ne_logan_logger :: "Logger_pb \<Rightarrow> exn + bool"
  ne_to_float :: "double_bits \<Rightarrow> 32 word"
  ne_port_child :: "RTObject child"
  ne_worker_child :: "RTObject child"
  ne_client_child :: "LoganClient child"

record DllLoader =
  dl_loaded_libraries :: "(string, lib_handle) umap"
  dl_loaded_library_functions :: "(string, symbol) umap"

definition DllLoader_init :: DllLoader where
  "DllLoader_init = \<lparr>dl_loaded_libraries = [], dl_loaded_library_functions = []\<rparr>"

definition GetLibrary :: "NodeEnv \<Rightarrow> string \<Rightarrow> (DllLoader, lib_handle) em" where
  "GetLibrary env dll_path =
     bindE getE (\<lambda>dl.
     case map_of (dl_loaded_libraries dl) dll_path of
       Some library \<Rightarrow> returnE library
     | None \<Rightarrow>
         (case ne_dlopen env dll_path of (handle, error) \<Rightarrow>
            case (handle, error) of
              (Some library, '''') \<Rightarrow>
                bindE (modifyE (\<lambda>dl. dl\<lparr>dl_loaded_libraries := umap_put dll_path library (dl_loaded_libraries dl)\<rparr>))
                  (\<lambda>_. returnE library)
            | _ \<Rightarrow> throwE (RuntimeError (''DLL Error: Cannot load '' @ quoted dll_path @ '' : '' @ error))))"

definition GetLibraryFunction_impl :: "NodeEnv \<Rightarrow> string \<Rightarrow> string \<Rightarrow> (DllLoader, symbol) em" where
  "GetLibraryFunction_impl env dll_path function_name =
     (let lookup_str = dll_path @ ''_'' @ function_name in
      bindE getE (\<lambda>dl.
      case map_of (dl_loaded_library_functions dl) lookup_str of
        Some library_func \<Rightarrow> returnE library_func
      | None \<Rightarrow>
          bindE (GetLibrary env dll_path) (\<lambda>lib_handle.
          case ne_dlsym env lib_handle function_name of
            (Some function, '''') \<Rightarrow>
              bindE (modifyE (\<lambda>dl. dl\<lparr>dl_loaded_library_functions :=
                  umap_put lookup_str function (dl_loaded_library_functions dl)\<rparr>)) (\<lambda>_. returnE function)
          | (_, error) \<Rightarrow> throwE (RuntimeError (''DLL Error: Linking '' @ quoted function_name @ '' '' @ error)))))"

text \<open>On Linux a library has the prefix \<open>lib\<close> and the suffix \<open>.so\<close>.\<close>

definition GetLibraryFunction :: "NodeEnv \<Rightarrow> string \<Rightarrow> string \<Rightarrow> string \<Rightarrow> (DllLoader, symbol) em" where
  "GetLibraryFunction env lib_path lib_name function_name =
     GetLibraryFunction_impl env (lib_path @ ''/'' @ ''lib'' @ lib_name @ ''.so'') function_name"

definition lower_char :: "char \<Rightarrow> char" where
  "lower_char c = (if 65 \<le> (of_char c :: nat) \<and> (of_char c :: nat) \<le> 90 then char_of ((of_char c :: nat) + 32) else c)"

definition to_lower :: "string \<Rightarrow> string" where
  "to_lower str = map lower_char str"

fun join_namespaces :: "string list \<Rightarrow> string" where
  "join_namespaces [] = ''''"
| "join_namespaces [n] = n"
| "join_namespaces (n # ns) = n @ ''_'' @ join_namespaces ns"

definition GetNamespaceString :: "Info_pb \<Rightarrow> string" where
  "GetNamespaceString info = join_namespaces (info_namespaces info)"

definition get_port_library_name :: "string \<Rightarrow> string \<Rightarrow> string \<Rightarrow> string \<Rightarrow> string" where
  "get_port_library_name port_type middleware namespace_str datatype =
     (let p = ''port_'' @ port_type @ ''_'' @ middleware @ ''_'';
          p1 = (if namespace_str \<noteq> '''' then p @ namespace_str @ ''_'' else p)
      in to_lower (p1 @ datatype))"

definition get_component_library_name :: "string \<Rightarrow> string \<Rightarrow> string" where
  "get_component_library_name component_type namespace_str =
     (let c = ''component_'';
          c1 = (if namespace_str \<noteq> '''' then c @ namespace_str @ ''_'' else c)
      in to_lower (c1 @ component_type))"

fun Middleware_Name :: "Middleware_pb \<Rightarrow> string" where
  "Middleware_Name NO_MIDDLEWARE = ''NO_MIDDLEWARE''"
| "Middleware_Name ZMQ = ''ZMQ''"
| "Middleware_Name RTI = ''RTI''"
| "Middleware_Name OSPL = ''OSPL''"
| "Middleware_Name QPID = ''QPID''"
| "Middleware_Name TAO = ''TAO''"
| "Middleware_Name (MIDDLEWARE_UNNAMED _) = ''''"

section \<open>Logan clients\<close>

definition LoganClient_ctor :: "string \<Rightarrow> LoganClient" where
  "LoganClient_ctor client_id =
     \<lparr>lc_name = client_id, lc_machine = StateMachine_init, lc_live_mode = True, lc_frequency = 0x3FF0000000000000,
      lc_endpoint = '''', lc_processes = []\<rparr>"

definition LoganClient_SetEndpoint :: "string \<Rightarrow> string \<Rightarrow> LoganClient \<Rightarrow> LoganClient" where
  "LoganClient_SetEndpoint address port c =
     (if address \<noteq> '''' \<and> port \<noteq> '''' then c\<lparr>lc_endpoint := ''tcp://'' @ address @ '':'' @ port\<rparr> else c)"

definition LoganClient_SetFrequency :: "double_bits \<Rightarrow> LoganClient \<Rightarrow> LoganClient" where
  "LoganClient_SetFrequency frequency c = c\<lparr>lc_frequency := frequency\<rparr>"

definition LoganClient_AddProcess :: "string \<Rightarrow> LoganClient \<Rightarrow> LoganClient" where
  "LoganClient_AddProcess process c = c\<lparr>lc_processes := lc_processes c @ [process]\<rparr>"

definition LoganClient_SetProcesses :: "string list \<Rightarrow> LoganClient \<Rightarrow> LoganClient" where
  "LoganClient_SetProcesses processes c = foldl (\<lambda>c process. LoganClient_AddProcess process c) c processes"

definition LoganClient_SetLiveMode :: "bool \<Rightarrow> LoganClient \<Rightarrow> LoganClient" where
  "LoganClient_SetLiveMode live_mode c = c\<lparr>lc_live_mode := live_mode\<rparr>"

section \<open>The container\<close>

type_synonym port_constructors = "(string, string \<Rightarrow> DCComponent \<Rightarrow> exn + RTObject option) umap"

record DeploymentContainer =
  dc_name :: string
  dc_id :: string
  dc_experiment_name :: string
  dc_host_name :: string
  dc_library_path :: string
  dc_dll_loader :: DllLoader
  dc_publisher_port_constructors :: port_constructors
  dc_subscriber_port_constructors :: port_constructors
  dc_requester_port_constructors :: port_constructors
  dc_replier_port_constructors :: port_constructors
  dc_component_constructors :: "(string, string \<Rightarrow> DCComponent option) umap"
  dc_components :: "(string, DCComponent) umap"
  dc_logan_clients :: "(string, LoganClient) umap"
  dc_logan_logger :: bool

definition DeploymentContainer_ctor :: "string \<Rightarrow> string \<Rightarrow> string \<Rightarrow> DeploymentContainer" where
  "DeploymentContainer_ctor experiment_name host_name library_path =
     \<lparr>dc_name = '''', dc_id = '''', dc_experiment_name = experiment_name, dc_host_name = host_name,
      dc_library_path = library_path, dc_dll_loader = DllLoader_init, dc_publisher_port_constructors = [],
      dc_subscriber_port_constructors = [], dc_requester_port_constructors = [], dc_replier_port_constructors = [],
      dc_component_constructors = [], dc_components = [], dc_logan_clients = [], dc_logan_logger = False\<rparr>"

text \<open>A computation on an object below, next to the log of life-cycle events.\<close>

definition zoomE :: "('s \<Rightarrow> 'a option) \<Rightarrow> ('a \<Rightarrow> 's \<Rightarrow> 's) \<Rightarrow> ('a \<times> life_log, 'b) em \<Rightarrow> ('s \<times> life_log, 'b) em" where
  "zoomE get put m = (\<lambda>(s, log).
     case get s of
       None \<Rightarrow> (Inl (Undefined ''dangling reference''), (s, log))
     | Some a \<Rightarrow> (case m (a, log) of (r, (a', log')) \<Rightarrow> (r, (put a' s, log'))))"

type_synonym 'a dc = "(DeploymentContainer \<times> life_log, 'a) em"

definition getD :: "DeploymentContainer dc" where
  "getD = bindE getE (\<lambda>(d, _). returnE d)"

definition updD :: "(DeploymentContainer \<Rightarrow> DeploymentContainer) \<Rightarrow> unit dc" where
  "updD f = on_fst (modifyE f)"

definition zoom_component :: "string \<Rightarrow> (DCComponent \<times> life_log, 'a) em \<Rightarrow> 'a dc" where
  "zoom_component key =
     zoomE (\<lambda>d. map_of (dc_components d) key)
       (\<lambda>c d. d\<lparr>dc_components := umap_modify key (\<lambda>_. c) (dc_components d)\<rparr>)"

definition zoom_client :: "string \<Rightarrow> (LoganClient \<times> life_log, 'a) em \<Rightarrow> 'a dc" where
  "zoom_client client_id =
     zoomE (\<lambda>d. map_of (dc_logan_clients d) client_id)
       (\<lambda>c d. d\<lparr>dc_logan_clients := umap_modify client_id (\<lambda>_. c) (dc_logan_clients d)\<rparr>)"

definition zoom_loader :: "(DllLoader, 'a) em \<Rightarrow> 'a dc" where
  "zoom_loader m = (\<lambda>(d, log). case m (dc_dll_loader d) of (r, dl) \<Rightarrow> (r, (d\<lparr>dc_dll_loader := dl\<rparr>, log)))"

definition zoom_port :: "string \<Rightarrow> (RTObject \<times> life_log, 'a) em \<Rightarrow> (DCComponent \<times> life_log, 'a) em" where
  "zoom_port name =
     zoomE (\<lambda>c. map_of (rc_ports (dcc_component c)) name)
       (\<lambda>p c. c\<lparr>dcc_component := (dcc_component c)\<lparr>rc_ports := umap_modify name (\<lambda>_. p) (rc_ports (dcc_component c))\<rparr>\<rparr>)"

definition zoom_worker :: "string \<Rightarrow> (RTObject \<times> life_log, 'a) em \<Rightarrow> (DCComponent \<times> life_log, 'a) em" where
  "zoom_worker name =
     zoomE (\<lambda>c. map_of (rc_workers (dcc_component c)) name)
       (\<lambda>w c. c\<lparr>dcc_component := (dcc_component c)\<lparr>rc_workers := umap_modify name (\<lambda>_. w) (rc_workers (dcc_component c))\<rparr>\<rparr>)"

definition SetLoggers :: "bool \<Rightarrow> string list \<Rightarrow> string list" where
  "SetLoggers logan_logger attached =
     (if logan_logger then attached @ [''logan''] else attached) @ [''print'']"

text \<open>The loops over the attributes of a message.\<close>

definition set_object_attributes :: "NodeEnv \<Rightarrow> PbAttrMap \<Rightarrow> (RTObject \<times> life_log, unit) em" where
  "set_object_attributes env attrs =
     forE attrs (\<lambda>(_, attr) (ob, log).
       case SetAttributeFromPb (ne_to_float env) (ob_name ob) attr (ob_attributes ob) of
         (Inl e, a) \<Rightarrow> (Inl e, (ob\<lparr>ob_attributes := a\<rparr>, log))
       | (Inr _, a) \<Rightarrow> (Inr (), (ob\<lparr>ob_attributes := a\<rparr>, log)))"

definition set_component_attributes :: "NodeEnv \<Rightarrow> PbAttrMap \<Rightarrow> (DCComponent \<times> life_log, unit) em" where
  "set_component_attributes env attrs =
     forE attrs (\<lambda>(_, attr) (c, log).
       case SetAttributeFromPb (ne_to_float env) (rc_name (dcc_component c)) attr (rc_attributes (dcc_component c)) of
         (Inl e, a) \<Rightarrow> (Inl e, (c\<lparr>dcc_component := (dcc_component c)\<lparr>rc_attributes := a\<rparr>\<rparr>, log))
       | (Inr _, a) \<Rightarrow> (Inr (), (c\<lparr>dcc_component := (dcc_component c)\<lparr>rc_attributes := a\<rparr>\<rparr>, log)))"

section \<open>Construction of components and ports\<close>

definition DC_AddComponent :: "DCComponent option \<Rightarrow> string \<Rightarrow> string dc" where
  "DC_AddComponent component name =
     bindE getD (\<lambda>d.
     case component of
       Some c \<Rightarrow>
         if \<not> umap_count (dc_components d) name
         then bindE (updD (\<lambda>d. d\<lparr>dc_components := umap_put name c (dc_components d)\<rparr>)) (\<lambda>_. returnE name)
         else throwE (RuntimeError (''DeploymentContainer already has a Component with name: '' @ name))
     | None \<Rightarrow> throwE (RuntimeError (''DeploymentContainer cannot add a Null Component with name: '' @ name)))"

definition DC_GetComponent :: "string \<Rightarrow> DeploymentContainer \<Rightarrow> DCComponent option" where
  "DC_GetComponent name d = map_of (dc_components d) name"

definition DC_RemoveComponent :: "string \<Rightarrow> unit dc" where
  "DC_RemoveComponent name = updD (\<lambda>d. d\<lparr>dc_components := umap_erase name (dc_components d)\<rparr>)"

definition ConstructComponent :: "NodeEnv \<Rightarrow> string \<Rightarrow> string \<Rightarrow> string \<Rightarrow> string \<Rightarrow> string option dc" where
  "ConstructComponent env component_type component_name namespace_str component_id =
     (let library_name = get_component_library_name component_type namespace_str in
      bindE getD (\<lambda>d.
      bindE (if umap_count (dc_component_constructors d) library_name then returnE ()
         else bindE (zoom_loader (GetLibraryFunction env (dc_library_path d) library_name ''ConstructComponent'')) (\<lambda>function.
           case function of
             Sym_component f \<Rightarrow> updD (\<lambda>d. d\<lparr>dc_component_constructors := umap_put library_name f (dc_component_constructors d)\<rparr>)
           | Sym_port _ \<Rightarrow> throwE (Undefined ''cast of a function''))) (\<lambda>_.
      bindE getD (\<lambda>d.
      case map_of (dc_component_constructors d) library_name of
        None \<Rightarrow> returnE None
      | Some f \<Rightarrow>
          (case f component_name of
             None \<Rightarrow> returnE None
           | Some c \<Rightarrow>
               bindE (DC_AddComponent (Some (c\<lparr>dcc_component := (dcc_component c)\<lparr>rc_id := component_id, rc_type := component_type\<rparr>\<rparr>))
                 component_id) (\<lambda>name. returnE (Some name)))))))"

definition add_event_port :: "RTObject option \<Rightarrow> (DCComponent \<times> life_log, string option) em" where
  "add_event_port event_port = (\<lambda>(c, log).
     case AddEventPort (map_option (\<lambda>p. (ob_name p, p)) event_port) (dcc_component c) of
       (name, rc) \<Rightarrow> (Inr name, (c\<lparr>dcc_component := rc\<rparr>, log)))"

definition ConstructPeriodicPort :: "string \<Rightarrow> (DCComponent \<times> life_log, string option) em" where
  "ConstructPeriodicPort port_name =
     bindE getE (\<lambda>(c, _).
     case GetCallback port_name ''BaseMessage'' ''void'' (dcc_component c) of
       Inl ex \<Rightarrow> throwE (if is_std_exception ex
         then RuntimeError (''Component: '' @ quoted (rc_name (dcc_component c)) @ '' Cannot construct Periodic Port '' @ [CHR 0x27] @ what ex)
         else ex)
     | Inr _ \<Rightarrow>
         add_event_port (Some \<lparr>ob_name = port_name, ob_id = '''', ob_type = ''periodic'',
           ob_attributes = [(''frequency'', RTAttribute_ctor AT_DOUBLE ''frequency'')], ob_machine = StateMachine_init,
           ob_loggers = []\<rparr>))"

text \<open>The four constructors of ports differ in the library, the table and the name of the function.\<close>

definition construct_port ::
  "NodeEnv \<Rightarrow> (DeploymentContainer \<Rightarrow> port_constructors) \<Rightarrow> (port_constructors \<Rightarrow> DeploymentContainer \<Rightarrow> DeploymentContainer) \<Rightarrow>
     string \<Rightarrow> string \<Rightarrow> string \<Rightarrow> string \<Rightarrow> string option dc" where
  "construct_port env get put library_name function_name component port_name =
     bindE getD (\<lambda>d.
     bindE (if umap_count (get d) library_name then returnE ()
        else bindE (zoom_loader (GetLibraryFunction env (dc_library_path d) library_name function_name)) (\<lambda>function.
          case function of
            Sym_port f \<Rightarrow> updD (\<lambda>d. put (umap_put library_name f (get d)) d)
          | Sym_component _ \<Rightarrow> throwE (Undefined ''cast of a function''))) (\<lambda>_.
     bindE getD (\<lambda>d.
     case map_of (get d) library_name of
       None \<Rightarrow> returnE None
     | Some f \<Rightarrow>
         zoom_component component
           (bindE getE (\<lambda>(c, _). bindE (liftE (f port_name c)) add_event_port)))))"

definition ConstructPublisherPort :: "NodeEnv \<Rightarrow> string \<Rightarrow> string \<Rightarrow> string \<Rightarrow> string \<Rightarrow> string \<Rightarrow> string option dc" where
  "ConstructPublisherPort env middleware datatype component port_name namespace_name =
     construct_port env dc_publisher_port_constructors (\<lambda>t d. d\<lparr>dc_publisher_port_constructors := t\<rparr>)
       (get_port_library_name ''pubsub'' middleware namespace_name datatype) ''ConstructPublisherPort'' component port_name"

definition ConstructSubscriberPort :: "NodeEnv \<Rightarrow> string \<Rightarrow> string \<Rightarrow> string \<Rightarrow> string \<Rightarrow> string \<Rightarrow> string option dc" where
  "ConstructSubscriberPort env middleware datatype component port_name namespace_name =
     construct_port env dc_subscriber_port_constructors (\<lambda>t d. d\<lparr>dc_subscriber_port_constructors := t\<rparr>)
       (get_port_library_name ''pubsub'' middleware namespace_name datatype) ''ConstructSubscriberPort'' component port_name"

definition ConstructRequesterPort :: "NodeEnv \<Rightarrow> string \<Rightarrow> string \<Rightarrow> string \<Rightarrow> string \<Rightarrow> string \<Rightarrow> string option dc" where
  "ConstructRequesterPort env middleware datatype component port_name namespace_name =
     construct_port env dc_requester_port_constructors (\<lambda>t d. d\<lparr>dc_requester_port_constructors := t\<rparr>)
       (get_port_library_name ''requestreply'' middleware namespace_name datatype) ''ConstructRequesterPort'' component port_name"

definition ConstructReplierPort :: "NodeEnv \<Rightarrow> string \<Rightarrow> string \<Rightarrow> string \<Rightarrow> string \<Rightarrow> string \<Rightarrow> string option dc" where
  "ConstructReplierPort env middleware datatype component port_name namespace_name =
     construct_port env dc_replier_port_constructors (\<lambda>t d. d\<lparr>dc_replier_port_constructors := t\<rparr>)
       (get_port_library_name ''requestreply'' middleware namespace_name datatype) ''ConstructReplierPort'' component port_name"

section \<open>Configured components\<close>

text \<open>\<open>Terminate\<close>, \<open>Configure\<close> and \<open>Activate\<close> of a port that is configured already; the answers are dropped.\<close>

definition reconfigure_if_configured :: "NodeEnv \<Rightarrow> (RTObject \<times> life_log, unit) em" where
  "reconfigure_if_configured env =
     catchE is_std_exception
       (bindE getE (\<lambda>(p, _).
        if get_state (ob_machine p) \<noteq> NOT_CONFIGURED then
          bindE (ne_port_child env TR_TERMINATE) (\<lambda>_.
          bindE (ne_port_child env TR_CONFIGURE) (\<lambda>_.
          bindE (ne_port_child env TR_ACTIVATE) (\<lambda>_. returnE ())))
        else returnE ()))
       (\<lambda>_. returnE ())"

definition GetConfiguredPort :: "NodeEnv \<Rightarrow> string \<Rightarrow> Port_pb \<Rightarrow> string dc" where
  "GetConfiguredPort env component port_pb =
     (let info = ppb_info port_pb;
          middleware = Middleware_Name (ppb_middleware port_pb);
          namespace_str = GetNamespaceString info in
      bindE (zoom_component component (bindE getE (\<lambda>(c, _). returnE (RTComponent_GetPort (info_name info) (dcc_component c)))))
        (\<lambda>found.
      bindE
        (case found of
           Some _ \<Rightarrow> returnE (Some (info_name info))
         | None \<Rightarrow>
             bindE
               (case ppb_kind port_pb of
                  PERIODIC \<Rightarrow> zoom_component component (ConstructPeriodicPort (info_name info))
                | PUBLISHER \<Rightarrow> ConstructPublisherPort env middleware (info_type info) component (info_name info) namespace_str
                | SUBSCRIBER \<Rightarrow> ConstructSubscriberPort env middleware (info_type info) component (info_name info) namespace_str
                | REQUESTER \<Rightarrow> ConstructRequesterPort env middleware (info_type info) component (info_name info) namespace_str
                | REPLIER \<Rightarrow> ConstructReplierPort env middleware (info_type info) component (info_name info) namespace_str
                | _ \<Rightarrow> returnE None)
               (\<lambda>constructed.
                case constructed of
                  None \<Rightarrow> returnE None
                | Some name \<Rightarrow>
                    bindE getD (\<lambda>d.
                    bindE (zoom_component component (zoom_port name (on_fst (modifyE (\<lambda>p.
                      p\<lparr>ob_loggers := SetLoggers (dc_logan_logger d) (ob_loggers p), ob_id := info_id info, ob_type := info_type info\<rparr>)))))
                      (\<lambda>_. returnE (Some name)))))
        (\<lambda>port.
      case port of
        Some name \<Rightarrow>
          bindE (zoom_component component (zoom_port name (set_object_attributes env (ppb_attributes port_pb)))) (\<lambda>_.
          returnE name)
      | None \<Rightarrow>
          throwE (RuntimeError (''Cannot Construct Port: '' @ info_name info @ '' '' @ info_type info @ '' '' @ info_id info)))))"

definition GetConfiguredWorker :: "NodeEnv \<Rightarrow> string \<Rightarrow> Worker_pb \<Rightarrow> unit dc" where
  "GetConfiguredWorker env component worker_pb =
     (let worker_name = info_name (wpb_info worker_pb) in
      bindE getD (\<lambda>d.
      zoom_component component
        (bindE getE (\<lambda>(c, _).
         case GetWorker worker_name (rc_workers (dcc_component c)) of
           Some _ \<Rightarrow>
             zoom_worker worker_name
               (bindE (on_fst (modifyE (\<lambda>w. w\<lparr>ob_loggers := SetLoggers (dc_logan_logger d) (ob_loggers w),
                   ob_id := info_id (wpb_info worker_pb)\<rparr>))) (\<lambda>_.
                set_object_attributes env (wpb_attributes worker_pb)))
         | None \<Rightarrow>
             throwE (RuntimeError (''Component: '' @ quoted (rc_name (dcc_component c)) @
               '' Doesn'' @ [CHR 0x27] @ ''t have a Worker: '' @ quoted worker_name))))))"

definition GetConfiguredComponent :: "NodeEnv \<Rightarrow> Component_pb \<Rightarrow> unit dc" where
  "GetConfiguredComponent env component_pb =
     (let info = cpb_info component_pb in
      bindE getD (\<lambda>d.
      bindE
        (case DC_GetComponent (info_id info) d of
           Some _ \<Rightarrow> returnE (Some (info_id info))
         | None \<Rightarrow>
             bindE (ConstructComponent env (info_type info) (info_name info) (GetNamespaceString info) (info_id info)) (\<lambda>constructed.
             case constructed of
               None \<Rightarrow> returnE None
             | Some key \<Rightarrow>
                 bindE (zoom_component key (on_fst (modifyE (\<lambda>c.
                   c\<lparr>dcc_loggers := SetLoggers (dc_logan_logger d) (dcc_loggers c),
                     dcc_component := SetExperimentName (dc_experiment_name d)
                       (SetReplicationIndices (cpb_replicate_indices component_pb)
                         (SetLocation (cpb_location component_pb) (dcc_component c)))\<rparr>))))
                   (\<lambda>_. returnE (Some key))))
        (\<lambda>component.
      case component of
        None \<Rightarrow> throwE (RuntimeError (''Cannot Construct Component: '' @ info_name info))
      | Some key \<Rightarrow>
          bindE (zoom_component key (set_component_attributes env (cpb_attributes component_pb))) (\<lambda>_.
          bindE (forE (cpb_ports component_pb) (\<lambda>port_pb.
            bindE (GetConfiguredPort env key port_pb) (\<lambda>port.
            zoom_component key (zoom_port port (reconfigure_if_configured env))))) (\<lambda>_.
          forE (cpb_workers component_pb) (GetConfiguredWorker env key))))))"

definition DC_AddLoganClient :: "LoganClient option \<Rightarrow> string \<Rightarrow> string dc" where
  "DC_AddLoganClient logan_client client_id =
     bindE getD (\<lambda>d.
     case logan_client of
       Some c \<Rightarrow>
         if \<not> umap_count (dc_logan_clients d) client_id
         then bindE (updD (\<lambda>d. d\<lparr>dc_logan_clients := umap_put client_id c (dc_logan_clients d)\<rparr>)) (\<lambda>_. returnE client_id)
         else throwE (RuntimeError (''DeploymentContainer already has a Logan Client with ID: '' @ client_id))
     | None \<Rightarrow> throwE (RuntimeError (''DeploymentContainer cannot add a Null Logan Client with ID: '' @ client_id)))"

definition ConstructLoganClient :: "string \<Rightarrow> string dc" where
  "ConstructLoganClient client_id = DC_AddLoganClient (Some (LoganClient_ctor client_id)) client_id"

definition GetConfiguredLoganClient :: "Logger_pb \<Rightarrow> unit dc" where
  "GetConfiguredLoganClient logger_pb =
     (if lpb_type logger_pb = LOGGER_CLIENT \<and> lpb_mode logger_pb \<noteq> OFF then
        bindE getD (\<lambda>d.
        bindE (if umap_count (dc_logan_clients d) (lpb_id logger_pb) then returnE (lpb_id logger_pb)
               else ConstructLoganClient (lpb_id logger_pb)) (\<lambda>client_id.
        zoom_client client_id (on_fst (modifyE (\<lambda>c.
          LoganClient_SetLiveMode (lpb_mode logger_pb = LIVE)
            (foldl (\<lambda>c process. LoganClient_AddProcess process c)
              (LoganClient_SetFrequency (lpb_frequency logger_pb)
                (LoganClient_SetEndpoint (lpb_publisher_address logger_pb) (lpb_publisher_port logger_pb) c))
              (lpb_processes logger_pb)))))))
      else returnE ())"

section \<open>Life cycle\<close>

text \<open>A component as one activatable object.\<close>

definition component_child :: "NodeEnv \<Rightarrow> DCComponent child" where
  "component_child env t = (\<lambda>(c, log).
     case transition_state (Activatable_transitions (RTComponent_Handle (ne_port_child env) (ne_worker_child env))) t
            (dcc_machine c, (dcc_component c, log)) of
       (r, (sm, (rc, log'))) \<Rightarrow> (r, (c\<lparr>dcc_machine := sm, dcc_component := rc\<rparr>, log')))"

definition on_components :: "((string, DCComponent) umap \<times> life_log, 'a) em \<Rightarrow> 'a dc" where
  "on_components m = (\<lambda>(d, log). case m (dc_components d, log) of (r, (cs, log')) \<Rightarrow> (r, (d\<lparr>dc_components := cs\<rparr>, log')))"

definition on_clients :: "((string, LoganClient) umap \<times> life_log, 'a) em \<Rightarrow> 'a dc" where
  "on_clients m = (\<lambda>(d, log). case m (dc_logan_clients d, log) of (r, (cs, log')) \<Rightarrow> (r, (d\<lparr>dc_logan_clients := cs\<rparr>, log')))"

text \<open>The asynchronous calls of \<open>HandleConfigure\<close> work on different objects and are all waited for, also
  when one of them fails; they are run here in the order of the map, which fixes the order of the
  life-cycle events.\<close>

fun collect_children :: "('c \<times> life_log, bool) em \<Rightarrow> ((string, 'c) umap \<times> life_log, bool list) em" where
  "collect_children f ([], log) = (Inr [], ([], log))"
| "collect_children f ((n, c) # cs, log) =
     (case f (c, log) of
        (Inl e, (c', log')) \<Rightarrow> (Inl e, ((n, c') # cs, log'))
      | (Inr b, (c', log')) \<Rightarrow>
          (case collect_children f (cs, log') of
             (Inl e, (cs', log'')) \<Rightarrow> (Inl e, ((n, c') # cs', log''))
           | (Inr bs, (cs', log'')) \<Rightarrow> (Inr (b # bs), ((n, c') # cs', log''))))"

fun DeploymentContainer_Handle :: "NodeEnv \<Rightarrow> Transition \<Rightarrow> unit dc" where
  "DeploymentContainer_Handle env TR_CONFIGURE =
     bindE (on_components (collect_children (component_child env TR_CONFIGURE))) (\<lambda>components.
     bindE (on_clients (collect_children (ne_client_child env TR_CONFIGURE))) (\<lambda>clients.
     if False \<in> set (components @ clients) then throwE (RuntimeError ''DeploymentContainer failed to Configure Component'')
     else returnE ()))"
| "DeploymentContainer_Handle env TR_TERMINATE =
     bindE (on_components (each_child (component_child env TR_TERMINATE))) (\<lambda>_.
     bindE (on_clients (each_child (ne_client_child env TR_TERMINATE))) (\<lambda>_.
     updD (\<lambda>d. d\<lparr>dc_components := [], dc_logan_clients := [], dc_logan_logger := False\<rparr>)))"
| "DeploymentContainer_Handle env t =
     bindE (on_components (each_child (component_child env t))) (\<lambda>_.
     on_clients (each_child (ne_client_child env t)))"

declare DeploymentContainer_Handle.simps [simp del]

text \<open>A container with its state machine.\<close>

type_synonym container_object = "StateMachine \<times> (DeploymentContainer \<times> life_log)"

definition on_container :: "'a dc \<Rightarrow> (container_object, 'a) em" where
  "on_container m = (\<lambda>(sm, s). case m s of (r, s') \<Rightarrow> (r, (sm, s')))"

definition container_transition :: "NodeEnv \<Rightarrow> Transition \<Rightarrow> (container_object, bool) em" where
  "container_transition env t = transition_state (Activatable_transitions (DeploymentContainer_Handle env)) t"

definition configure_logger :: "NodeEnv \<Rightarrow> Logger_pb \<Rightarrow> unit dc" where
  "configure_logger env logger_pb =
     (case lpb_type logger_pb of
        LOGGER_CLIENT \<Rightarrow> GetConfiguredLoganClient logger_pb
      | LOGGER_MODEL \<Rightarrow>
          bindE getD (\<lambda>d.
          if dc_logan_logger d then returnE ()
          else bindE (liftE (ne_logan_logger env logger_pb)) (\<lambda>needed. updD (\<lambda>d. d\<lparr>dc_logan_logger := needed\<rparr>)))
      | _ \<Rightarrow> returnE ())"

definition configure_members :: "NodeEnv \<Rightarrow> Container_pb \<Rightarrow> unit dc" where
  "configure_members env container =
     bindE (updD (\<lambda>d. d\<lparr>dc_name := info_name (ctpb_info container), dc_id := info_id (ctpb_info container)\<rparr>)) (\<lambda>_.
     bindE (forE (ctpb_loggers container) (configure_logger env)) (\<lambda>_.
     forE (ctpb_components container) (GetConfiguredComponent env)))"

text \<open>\<open>throw e\<close> throws a copy of the static type \<open>std::runtime_error\<close>. \<open>Activatable::Configure\<close> answers
  with a truth value, which is dropped.\<close>

definition DeploymentContainer_Configure :: "NodeEnv \<Rightarrow> Container_pb \<Rightarrow> (container_object, unit) em" where
  "DeploymentContainer_Configure env container =
     catchE is_runtime_error
       (bindE (on_container (configure_members env container)) (\<lambda>_.
        bindE (container_transition env TR_CONFIGURE) (\<lambda>_. returnE ())))
       (\<lambda>e. bindE (on_container (forE (ctpb_components container) (\<lambda>c. DC_RemoveComponent (info_id (cpb_info c))))) (\<lambda>_.
         throwE (RuntimeError (what e))))"

section \<open>Lemmas\<close>

definition erase_components :: "string list \<Rightarrow> DeploymentContainer \<Rightarrow> DeploymentContainer" where
  "erase_components ids d = foldl (\<lambda>d i. d\<lparr>dc_components := umap_erase i (dc_components d)\<rparr>) d ids"

lemma erase_components_get: "DC_GetComponent k (erase_components ids d) = (if k \<in> set ids then None else DC_GetComponent k d)"
  unfolding erase_components_def
  by (induction ids arbitrary: d) (auto simp: DC_GetComponent_def map_of_umap_erase)

lemma remove_components:
  "on_container (forE cs (\<lambda>c. DC_RemoveComponent (info_id (cpb_info c)))) (sm, (d, log)) =
     (Inr (), (sm, (erase_components (map (\<lambda>c. info_id (cpb_info c)) cs) d, log)))"
  unfolding erase_components_def
  by (induction cs arbitrary: d) (auto simp: on_container_def ev_rules DC_RemoveComponent_def updD_def split: prod.splits)

lemma component_child_total:
  assumes "total_child (ne_port_child env t)" and "total_child (ne_worker_child env t)"
  shows "total_child (component_child env t)"
  unfolding total_child_def
proof (intro allI)
  fix c :: DCComponent and log
  obtain rc l where h: "RTComponent_Handle (ne_port_child env) (ne_worker_child env) t (dcc_component c, log) = (Inr (), (rc, log @ l))"
    using RTComponent_Handle_total [of "ne_port_child env" t "ne_worker_child env" "dcc_component c" log] assms by blast
  show "\<exists>b c' log'. component_child env t (c, log) = (Inr b, (c', log @ log'))"
    using h by (cases "edge (sm_state (dcc_machine c)) t") (auto simp: component_child_def Activatable_run)
qed

lemma collect_total: "total_child f \<Longrightarrow> \<exists>bs cs' log'. collect_children f (cs, log) = (Inr bs, (cs', log'))"
proof (induction cs arbitrary: log)
  case (Cons a cs)
  obtain n c where a: "a = (n, c)" by (cases a)
  obtain b c' l1 where f: "f (c, log) = (Inr b, (c', log @ l1))" using Cons.prems by (metis total_child_def)
  obtain bs cs' l2 where "collect_children f (cs, log @ l1) = (Inr bs, (cs', l2))" using Cons.IH [OF Cons.prems] by blast
  then show ?case using f a by auto
qed simp

lemma container_configure_throws:
  assumes "total_child (ne_port_child env TR_CONFIGURE)" "total_child (ne_worker_child env TR_CONFIGURE)"
    "total_child (ne_client_child env TR_CONFIGURE)" and "fst (DeploymentContainer_Handle env TR_CONFIGURE (d, log)) = Inl e"
  shows "e = RuntimeError ''DeploymentContainer failed to Configure Component''"
proof -
  obtain bs cs l where 1: "collect_children (component_child env TR_CONFIGURE) (dc_components d, log) = (Inr bs, (cs, l))"
    using collect_total [OF component_child_total [OF assms(1,2)]] by blast
  obtain bs' cs' l' where 2: "collect_children (ne_client_child env TR_CONFIGURE) (dc_logan_clients d, l) = (Inr bs', (cs', l'))"
    using collect_total [OF assms(3)] by blast
  show ?thesis using assms(4) 1 2
    by (auto simp: DeploymentContainer_Handle.simps ev_rules on_components_def on_clients_def split: if_splits)
qed

section \<open>Properties\<close>

text \<open>
  What \<open>Configure\<close> of a container does. When one of the loggers, components, ports or workers of
  the message ends in a \<open>std::runtime_error\<close>, every component of the message is taken out of the
  container, also those that ran before, the others stay, and a plain \<open>std::runtime_error\<close> with the
  same text is thrown. When they are all there, \<open>Configure\<close> returns normally whatever the components
  answer to their own \<open>Configure\<close>: the container is CONFIGURED afterwards if it was not configured
  before and its handler returned, and is in the state it had before otherwise; in the latter case
  the caller, which reports the success to the master, does not learn about it.
\<close>
theorem DeploymentContainer_Configure_outcome:
  assumes "configure_members env container (d, log) = (r, (d1, log1))"
    and "total_child (ne_port_child env TR_CONFIGURE)" and "total_child (ne_worker_child env TR_CONFIGURE)"
    and "total_child (ne_client_child env TR_CONFIGURE)"
  shows "case r of
      Inl e \<Rightarrow>
        if is_runtime_error e
        then (\<exists>d2. DeploymentContainer_Configure env container (sm, (d, log)) = (Inl (RuntimeError (what e)), (sm, (d2, log1))) \<and>
          (\<forall>k. DC_GetComponent k d2 =
             (if k \<in> (\<lambda>c. info_id (cpb_info c)) ` set (ctpb_components container) then None else DC_GetComponent k d1)))
        else DeploymentContainer_Configure env container (sm, (d, log)) = (Inl e, (sm, (d1, log1)))
    | Inr _ \<Rightarrow>
        \<exists>sm2 s2. DeploymentContainer_Configure env container (sm, (d, log)) = (Inr (), (sm2, s2)) \<and>
          sm_state sm2 = (if sm_state sm = NOT_CONFIGURED \<and> fst (DeploymentContainer_Handle env TR_CONFIGURE (d1, log1)) = Inr ()
                          then ST_CONFIGURED else sm_state sm)"
proof (cases r)
  case (Inl e)
  then have m: "on_container (configure_members env container) (sm, (d, log)) = (Inl e, (sm, (d1, log1)))"
    using assms(1) by (simp add: on_container_def)
  show ?thesis
  proof (cases "is_runtime_error e")
    case True
    then show ?thesis using m remove_components [of "ctpb_components container" sm d1 log1]
      by (simp add: Inl DeploymentContainer_Configure_def ev_rules erase_components_get)
  next
    case False
    then show ?thesis using m by (simp add: Inl DeploymentContainer_Configure_def ev_rules)
  qed
next
  case (Inr u)
  then have m: "on_container (configure_members env container) (sm, (d, log)) = (Inr u, (sm, (d1, log1)))"
    using assms(1) by (simp add: on_container_def)
  obtain q d2 log2 where h: "DeploymentContainer_Handle env TR_CONFIGURE (d1, log1) = (q, (d2, log2))"
    by (metis prod.exhaust)
  have e: "edge (sm_state sm) TR_CONFIGURE = (if sm_state sm = NOT_CONFIGURED then Some ST_CONFIGURED else None)"
    by (cases "sm_state sm") (simp_all add: edge_def)
  have t: "container_transition env TR_CONFIGURE (sm, (d1, log1)) =
      (if sm_state sm = NOT_CONFIGURED then
         (case q of Inr _ \<Rightarrow> (Inr True, (sm\<lparr>sm_state := ST_CONFIGURED, sm_transition := NO_TRANSITION\<rparr>, (d2, log2)))
          | Inl _ \<Rightarrow> (Inr False, (sm\<lparr>sm_transition := NO_TRANSITION\<rparr>, (d2, log2))))
       else (Inr False, (sm, (d1, log1))))"
  proof -
    have "q = Inl x \<Longrightarrow> x = RuntimeError ''DeploymentContainer failed to Configure Component''" for x
      using container_configure_throws [OF assms(2-4), of d1 log1 x] h by simp
    then show ?thesis using h e by (cases q) (simp_all add: container_transition_def Activatable_run)
  qed
  then obtain b sm2 s2 where ct: "container_transition env TR_CONFIGURE (sm, (d1, log1)) = (Inr b, (sm2, s2))"
    "sm_state sm2 = (if sm_state sm = NOT_CONFIGURED \<and> q = Inr () then ST_CONFIGURED else sm_state sm)"
    by (cases q) (auto split: if_splits)
  have "DeploymentContainer_Configure env container (sm, (d, log)) = (Inr (), (sm2, s2))"
    using m ct(1) by (simp add: DeploymentContainer_Configure_def ev_rules)
  then show ?thesis using ct(2) h by (simp add: Inr)
qed

text \<open>
  A symbol is looked up in a library once. After \<open>GetLibraryFunction\<close> returned a function, the same
  call returns the same function and changes nothing, whatever the dynamic linker would answer by then.
\<close>
theorem GetLibraryFunction_cached:
  assumes "GetLibraryFunction env lib_path lib_name function_name dl = (Inr f, dl')"
  shows "GetLibraryFunction env' lib_path lib_name function_name dl' = (Inr f, dl')"
proof -
  let ?key = "(lib_path @ ''/'' @ ''lib'' @ lib_name @ ''.so'') @ ''_'' @ function_name"
  have "map_of (dl_loaded_library_functions dl') ?key = Some f"
    using assms unfolding GetLibraryFunction_def GetLibraryFunction_impl_def
    by (auto simp: ev_rules Let_def map_of_umap_put split: option.splits prod.splits sum.splits list.splits)
  then show ?thesis by (simp add: GetLibraryFunction_def GetLibraryFunction_impl_def ev_rules Let_def)
qed

text \<open>A node with the library of one component type.\<close>

definition demo_node_env :: NodeEnv where
  "demo_node_env = \<lparr>
     ne_dlopen = (\<lambda>path. if path = ''/l/libcomponent_a.so'' then (Some 0, '''') else (None, ''no such file'')),
     ne_dlsym = (\<lambda>_ _. (Some (Sym_component (\<lambda>name. Some \<lparr>dcc_machine = StateMachine_init, dcc_loggers = [],
       dcc_component = RTComponent_ctor name\<rparr>)), '''')),
     ne_logan_logger = (\<lambda>_. Inr True), ne_to_float = (\<lambda>_. 0),
     ne_port_child = (\<lambda>_. returnE True), ne_worker_child = (\<lambda>_. returnE True), ne_client_child = (\<lambda>_. returnE True)\<rparr>"

definition demo_component_pb :: "string \<Rightarrow> Component_pb" where
  "demo_component_pb type =
     \<lparr>cpb_info = \<lparr>info_name = type, info_id = type, info_type = type, info_namespaces = []\<rparr>, cpb_ports = [],
      cpb_attributes = [], cpb_workers = [], cpb_replicate_indices = [], cpb_location = []\<rparr>"

definition demo_container_pb :: "string list \<Rightarrow> Container_pb" where
  "demo_container_pb types = \<lparr>ctpb_info = Info_default, ctpb_type = GENERIC, ctpb_components = map demo_component_pb types,
     ctpb_loggers = [], ctpb_implicit = True, ctpb_is_late_joiner = False\<rparr>"

lemma demo_node_total:
  "total_child (ne_port_child demo_node_env t)" "total_child (ne_worker_child demo_node_env t)"
  "total_child (ne_client_child demo_node_env t)"
  by (auto simp: total_child_def demo_node_env_def returnE_def intro: exI [of _ True])

definition demo_dc :: DeploymentContainer where
  "demo_dc = DeploymentContainer_ctor ''x'' ''h'' ''/l''"

lemmas demo_node_defs = demo_node_env_def demo_component_pb_def demo_container_pb_def demo_dc_def DeploymentContainer_ctor_def
  DllLoader_init_def Info_default_def RTComponent_ctor_def StateMachine_init_def

lemma demo_library_name:
  "get_component_library_name ''a'' '''' = ''component_a''" "get_component_library_name ''b'' '''' = ''component_b''"
  by (simp_all add: get_component_library_name_def to_lower_def lower_char_def)

definition demo_deployed :: "string \<Rightarrow> DCComponent" where
  "demo_deployed type = \<lparr>dcc_machine = StateMachine_init, dcc_loggers = [''print''],
     dcc_component = (RTComponent_ctor type)\<lparr>rc_id := type, rc_type := type, rc_experiment_name := ''x''\<rparr>\<rparr>"

lemma demo_construct_a:
  "\<exists>d. GetConfiguredComponent demo_node_env (demo_component_pb ''a'') (demo_dc, []) = (Inr (), (d, [])) \<and>
     dc_components d = [(''a'', demo_deployed ''a'')] \<and> dc_library_path d = ''/l'' \<and>
     dc_component_constructors d = [(''component_a'', \<lambda>name. Some \<lparr>dcc_machine = StateMachine_init, dcc_loggers = [],
       dcc_component = RTComponent_ctor name\<rparr>)] \<and>
     dl_loaded_libraries (dc_dll_loader d) = [(''/l/libcomponent_a.so'', 0)] \<and>
     map fst (dl_loaded_library_functions (dc_dll_loader d)) = [''/l/libcomponent_a.so_ConstructComponent'']"
  by (simp add: GetConfiguredComponent_def ConstructComponent_def DC_GetComponent_def DC_AddComponent_def GetNamespaceString_def
      demo_library_name GetLibraryFunction_def GetLibraryFunction_impl_def GetLibrary_def zoom_loader_def zoom_component_def
      zoomE_def getD_def updD_def set_component_attributes_def SetLoggers_def SetExperimentName_def SetReplicationIndices_def
      SetLocation_def demo_node_defs demo_deployed_def umap_count_def umap_put_def umap_modify_def ev_rules Let_def cong: ev_cong)

lemma absent_key: "umap_keys m = ks \<Longrightarrow> k \<notin> set ks \<Longrightarrow> map_of m k = None"
  by (metis list.set_map map_of_eq_None_iff)

lemma demo_missing_b:
  assumes "map_of (dc_components d) ''b'' = None" "dc_library_path d = ''/l''"
    "map_of (dc_component_constructors d) ''component_b'' = None"
    "map_of (dl_loaded_libraries (dc_dll_loader d)) ''/l/libcomponent_b.so'' = None"
    "map_of (dl_loaded_library_functions (dc_dll_loader d)) ''/l/libcomponent_b.so_ConstructComponent'' = None"
  shows "\<exists>m. GetConfiguredComponent demo_node_env (demo_component_pb ''b'') (d, log) = (Inl (RuntimeError m), (d, log))"
  using assms
  by (simp add: GetConfiguredComponent_def ConstructComponent_def DC_GetComponent_def GetNamespaceString_def
      demo_library_name GetLibraryFunction_def GetLibraryFunction_impl_def GetLibrary_def zoom_loader_def getD_def
      demo_node_env_def demo_component_pb_def umap_count_def ev_rules Let_def)

theorem DeploymentContainer_Configure_outcome_witness:
  "\<exists>m d2. DeploymentContainer_Configure demo_node_env (demo_container_pb [''a'', ''b'']) (StateMachine_init, (demo_dc, [])) =
      (Inl (RuntimeError m), (StateMachine_init, (d2, []))) \<and> DC_GetComponent ''a'' d2 = None"
proof -
  let ?d0 = "demo_dc\<lparr>dc_name := '''', dc_id := ''''\<rparr>"
  have d0: "?d0 = demo_dc" by (simp add: demo_dc_def DeploymentContainer_ctor_def)
  obtain d where d: "GetConfiguredComponent demo_node_env (demo_component_pb ''a'') (demo_dc, []) = (Inr (), (d, []))"
    "dc_components d = [(''a'', demo_deployed ''a'')]" "dc_library_path d = ''/l''"
    "map fst (dc_component_constructors d) = [''component_a'']"
    "map fst (dl_loaded_libraries (dc_dll_loader d)) = [''/l/libcomponent_a.so'']"
    "map fst (dl_loaded_library_functions (dc_dll_loader d)) = [''/l/libcomponent_a.so_ConstructComponent'']"
    using demo_construct_a by auto
  obtain m where "GetConfiguredComponent demo_node_env (demo_component_pb ''b'') (d, []) = (Inl (RuntimeError m), (d, []))"
    using demo_missing_b [of d, OF _ d(3) absent_key [OF d(4)] absent_key [OF d(5)] absent_key [OF d(6)]] d(2) by auto
  then have "configure_members demo_node_env (demo_container_pb [''a'', ''b'']) (demo_dc, []) = (Inl (RuntimeError m), (d, []))"
    using d(1) by (simp add: configure_members_def demo_container_pb_def Info_default_def updD_def d0 ev_rules)
  from DeploymentContainer_Configure_outcome [OF this demo_node_total, of StateMachine_init] show ?thesis
    by (auto simp: demo_container_pb_def demo_component_pb_def)
qed

theorem GetLibraryFunction_cached_witness:
  "\<exists>f dl. GetLibraryFunction demo_node_env ''/l'' ''component_a'' ''ConstructComponent'' DllLoader_init = (Inr f, dl) \<and>
     GetLibraryFunction (demo_node_env\<lparr>ne_dlopen := \<lambda>_. (None, ''gone'')\<rparr>) ''/l'' ''component_a'' ''ConstructComponent'' dl = (Inr f, dl)"
proof -
  obtain f dl where r: "GetLibraryFunction demo_node_env ''/l'' ''component_a'' ''ConstructComponent'' DllLoader_init = (Inr f, dl)"
    by (simp add: GetLibraryFunction_def GetLibraryFunction_impl_def GetLibrary_def demo_node_env_def DllLoader_init_def ev_rules Let_def)
  from GetLibraryFunction_cached [OF r] r show ?thesis by blast
qed

end
