(* ===== verification/NMDeployment.thy ===== *)
theory NMDeployment
  imports NMExecution NMContainer
begin

text \<open>
  \<open>DeploymentManager\<close> (\<^verbatim>\<open>re/src/nodemanager/deploymentmanager.cpp\<close>): a slave, which asks its master for a
  container, reports how its configuration went, and then follows the control messages of the master
  in a thread. The thread is cut where it waits and after each message; \<open>dm_received\<close> and \<open>dm_handled\<close>
  are history. The destructors of components that a container still holds when it is destroyed are
  not modelled.
\<close>

section \<open>State\<close>

datatype slave_message = Sent_SlaveStartup | Sent_SlaveConfigured bool "string list" | Sent_SlaveTerminated

datatype control_thread = CT_Waiting | CT_Processing | CT_Ending | CT_Ended | CT_Died exn

record DeploymentManager =
  dm_experiment_name :: string
  dm_ip_address :: string
  dm_container_id :: string
  dm_library_path :: string
  dm_is_master_node :: bool
  dm_containers :: "(string, StateMachine \<times> DeploymentContainer) umap"
  dm_log :: life_log
  dm_terminate :: bool
  dm_control_message_queue :: "ControlMessage_pb list"
  dm_local_queue :: "ControlMessage_pb list"
  dm_thread :: control_thread
  dm_heartbeating :: bool
  dm_interrupted :: bool
  dm_sent :: "slave_message list"
  dm_received :: "ControlMessage_pb list"
  dm_handled :: "ControlMessage_pb list"

definition DeploymentManager_init :: "string \<Rightarrow> string \<Rightarrow> string \<Rightarrow> string \<Rightarrow> bool \<Rightarrow> DeploymentManager" where
  "DeploymentManager_init experiment_name ip_address container_id library_path is_master_node =
     \<lparr>dm_experiment_name = experiment_name, dm_ip_address = ip_address, dm_container_id = container_id,
      dm_library_path = library_path, dm_is_master_node = is_master_node, dm_containers = [], dm_log = [],
      dm_terminate = False, dm_control_message_queue = [], dm_local_queue = [], dm_thread = CT_Waiting,
      dm_heartbeating = False, dm_interrupted = False, dm_sent = [], dm_received = [], dm_handled = []\<rparr>"

definition GetSlaveID :: "DeploymentManager \<Rightarrow> SlaveId_pb" where
  "GetSlaveID dm = \<lparr>sl_ip_address = dm_ip_address dm, sl_container_id = dm_container_id dm\<rparr>"

section \<open>Containers\<close>

text \<open>A new container is put into the map when its constructor, which configures it, has returned.\<close>

definition HandleContainerUpdate :: "NodeEnv \<Rightarrow> string \<Rightarrow> Container_pb \<Rightarrow> (DeploymentManager, unit) em" where
  "HandleContainerUpdate env host_name container = (\<lambda>dm.
     let key = info_id (ctpb_info container) in
     case map_of (dm_containers dm) key of
       Some (sm, d) \<Rightarrow>
         (case DeploymentContainer_Configure env container (sm, (d, dm_log dm)) of
            (r, (sm', (d', log'))) \<Rightarrow>
              (r, dm\<lparr>dm_containers := umap_modify key (\<lambda>_. (sm', d')) (dm_containers dm), dm_log := log'\<rparr>))
     | None \<Rightarrow>
         (case DeploymentContainer_Configure env container
             (StateMachine_init, (DeploymentContainer_ctor (dm_experiment_name dm) host_name (dm_library_path dm), dm_log dm)) of
            (Inl e, (_, (_, log'))) \<Rightarrow> (Inl e, dm\<lparr>dm_log := log'\<rparr>)
          | (Inr _, (sm', (d', log'))) \<Rightarrow>
              (Inr (), dm\<lparr>dm_containers := umap_emplace key (sm', d') (dm_containers dm), dm_log := log'\<rparr>)))"

definition own_containers :: "DeploymentManager \<Rightarrow> ControlMessage_pb \<Rightarrow> (string \<times> Container_pb) list" where
  "own_containers dm control_message =
     concat (map (\<lambda>node. map (\<lambda>container. (info_name (npb_info node), container))
         (filter (\<lambda>container. info_id (ctpb_info container) = dm_container_id dm) (npb_containers node)))
       (filter (\<lambda>node. npb_ip_address node = dm_ip_address dm) (cm_nodes control_message)))"

definition DeploymentManager_HandleExperimentUpdate :: "NodeEnv \<Rightarrow> ControlMessage_pb \<Rightarrow> (DeploymentManager, unit) em" where
  "DeploymentManager_HandleExperimentUpdate env control_message =
     bindE getE (\<lambda>dm.
     forE (own_containers dm control_message) (\<lambda>(host_name, container). HandleContainerUpdate env host_name container))"

definition container_child :: "NodeEnv \<Rightarrow> Transition \<Rightarrow> ((StateMachine \<times> DeploymentContainer) \<times> life_log, bool) em" where
  "container_child env t = (\<lambda>((sm, d), log).
     case container_transition env t (sm, (d, log)) of (r, (sm', (d', log'))) \<Rightarrow> (r, ((sm', d'), log')))"

definition transition_containers :: "NodeEnv \<Rightarrow> Transition \<Rightarrow> (DeploymentManager, unit) em" where
  "transition_containers env t = (\<lambda>dm.
     case each_child (container_child env t) (dm_containers dm, dm_log dm) of
       (r, (cs, log)) \<Rightarrow> (r, dm\<lparr>dm_containers := cs, dm_log := log\<rparr>))"

section \<open>The control queue\<close>

definition InteruptControlQueue :: "DeploymentManager \<Rightarrow> DeploymentManager" where
  "InteruptControlQueue dm = dm\<lparr>dm_terminate := True\<rparr>"

definition GotExperimentUpdate :: "ControlMessage_pb \<Rightarrow> DeploymentManager \<Rightarrow> DeploymentManager" where
  "GotExperimentUpdate control_message dm =
     dm\<lparr>dm_control_message_queue := dm_control_message_queue dm @ [control_message],
        dm_received := dm_received dm @ [control_message]\<rparr>"

definition handle_control_message :: "NodeEnv \<Rightarrow> ControlMessage_pb \<Rightarrow> (DeploymentManager, unit) em" where
  "handle_control_message env control_message =
     (case cm_type control_message of
        CONFIGURE \<Rightarrow> DeploymentManager_HandleExperimentUpdate env control_message
      | STARTUP \<Rightarrow> DeploymentManager_HandleExperimentUpdate env control_message
      | SET_ATTRIBUTE \<Rightarrow> DeploymentManager_HandleExperimentUpdate env control_message
      | ACTIVATE \<Rightarrow> transition_containers env TR_ACTIVATE
      | PASSIVATE \<Rightarrow> transition_containers env TR_PASSIVATE
      | TERMINATE \<Rightarrow>
          bindE (transition_containers env TR_TERMINATE) (\<lambda>_.
          modifyE (\<lambda>dm. InteruptControlQueue (dm\<lparr>dm_containers := []\<rparr>)))
      | _ \<Rightarrow> returnE ())"

text \<open>The locked part at the head of the loop, once its condition holds.\<close>

definition ProcessControlQueue_swap :: "DeploymentManager \<Rightarrow> DeploymentManager" where
  "ProcessControlQueue_swap dm =
     (let dm1 = dm\<lparr>dm_control_message_queue := dm_local_queue dm, dm_local_queue := dm_control_message_queue dm\<rparr>
      in dm1\<lparr>dm_thread := (if dm_terminate dm1 \<and> dm_local_queue dm1 = [] then CT_Ending else CT_Processing)\<rparr>)"

text \<open>One message of the inner loop; an exception ends the thread and stays in its future.\<close>

definition ProcessControlQueue_next :: "NodeEnv \<Rightarrow> ControlMessage_pb \<Rightarrow> ControlMessage_pb list \<Rightarrow> DeploymentManager \<Rightarrow> DeploymentManager" where
  "ProcessControlQueue_next env m rest dm =
     (case handle_control_message env m (dm\<lparr>dm_local_queue := rest, dm_handled := dm_handled dm @ [m]\<rparr>) of
        (Inr _, dm') \<Rightarrow> dm'
      | (Inl e, dm') \<Rightarrow> dm'\<lparr>dm_thread := CT_Died e\<rparr>)"

text \<open>The part after the loop, for the reply of the master.\<close>

definition ProcessControlQueue_finish :: "exn + unit \<Rightarrow> DeploymentManager \<Rightarrow> DeploymentManager" where
  "ProcessControlQueue_finish reply dm =
     (let dm1 = dm\<lparr>dm_sent := dm_sent dm @ [Sent_SlaveTerminated]\<rparr> in
      case reply of
        Inl e \<Rightarrow> dm1\<lparr>dm_thread := CT_Died e\<rparr>
      | Inr _ \<Rightarrow>
          dm1\<lparr>dm_thread := CT_Ended, dm_heartbeating := False,
              dm_interrupted := (if dm_is_master_node dm1 then dm_interrupted dm1 else True)\<rparr>)"

inductive slave_step :: "NodeEnv \<Rightarrow> DeploymentManager \<Rightarrow> DeploymentManager \<Rightarrow> bool" for env where
  got: "slave_step env dm (GotExperimentUpdate m dm)"
| terminate: "slave_step env dm (InteruptControlQueue dm)"
| swap: "dm_thread dm = CT_Waiting \<Longrightarrow> dm_terminate dm \<or> dm_control_message_queue dm \<noteq> [] \<Longrightarrow>
    slave_step env dm (ProcessControlQueue_swap dm)"
| handle: "dm_thread dm = CT_Processing \<Longrightarrow> dm_local_queue dm = m # rest \<Longrightarrow>
    slave_step env dm (ProcessControlQueue_next env m rest dm)"
| again: "dm_thread dm = CT_Processing \<Longrightarrow> dm_local_queue dm = [] \<Longrightarrow> slave_step env dm (dm\<lparr>dm_thread := CT_Waiting\<rparr>)"
| finish: "dm_thread dm = CT_Ending \<Longrightarrow> slave_step env dm (ProcessControlQueue_finish reply dm)"

section \<open>Joining the experiment\<close>

datatype startup_outcome = Startup_waiting | Startup_failed exn | Startup_reply "string \<times> Container_pb"

fun request_startup :: "nat \<Rightarrow> (exn + string \<times> Container_pb) list \<Rightarrow> nat \<times> startup_outcome" where
  "request_startup retry_count [] = (1, Startup_waiting)"
| "request_startup retry_count (Inr reply # _) = (1, Startup_reply reply)"
| "request_startup retry_count (Inl ex # replies) =
     (case ex of
        RMIException _ \<Rightarrow> (1, Startup_failed ex)
      | Undefined _ \<Rightarrow> (1, Startup_failed ex)
      | _ \<Rightarrow>
          if retry_count + 1 > 3
          then (1, Startup_failed (RuntimeError ''DeploymentManager::RequestDeployment failed after three attempts.''))
          else (case request_startup (retry_count + 1) replies of (n, r) \<Rightarrow> (Suc n, r)))"

text \<open>\<open>None\<close> while the slave waits for a reply to its first request.\<close>

definition DeploymentManager_RequestDeployment ::
  "NodeEnv \<Rightarrow> (exn + string \<times> Container_pb) list \<Rightarrow> exn + unit \<Rightarrow> DeploymentManager \<Rightarrow> ((exn + unit) \<times> DeploymentManager) option" where
  "DeploymentManager_RequestDeployment env startup_replies configured_reply dm =
     (case request_startup 0 startup_replies of
        (n, outcome) \<Rightarrow>
          let dm1 = dm\<lparr>dm_sent := dm_sent dm @ replicate n Sent_SlaveStartup\<rparr> in
          case outcome of
            Startup_waiting \<Rightarrow> None
          | Startup_failed ex \<Rightarrow> Some (Inl ex, dm1)
          | Startup_reply (host_name, configuration) \<Rightarrow>
              (case HandleContainerUpdate env host_name configuration dm1 of
                 (r, dm2) \<Rightarrow>
                   (case (case r of Inr _ \<Rightarrow> Inr (True, []) | Inl ex \<Rightarrow> if is_std_exception ex then Inr (False, [what ex]) else Inl ex) of
                      Inl ex \<Rightarrow> Some (Inl ex, dm2)
                    | Inr (success, error_messages) \<Rightarrow>
                        Some (configured_reply, dm2\<lparr>dm_heartbeating := True,
                          dm_sent := dm_sent dm2 @ [Sent_SlaveConfigured success error_messages]\<rparr>))))"

text \<open>The constructor terminates the control thread when the request throws.\<close>

definition DeploymentManager_ctor ::
  "NodeEnv \<Rightarrow> (exn + string \<times> Container_pb) list \<Rightarrow> exn + unit \<Rightarrow> DeploymentManager \<Rightarrow> ((exn + unit) \<times> DeploymentManager) option" where
  "DeploymentManager_ctor env startup_replies configured_reply dm =
     map_option (\<lambda>(r, dm'). (r, case r of Inl ex \<Rightarrow> if is_std_exception ex then InteruptControlQueue dm' else dm' | Inr _ \<Rightarrow> dm'))
       (DeploymentManager_RequestDeployment env startup_replies configured_reply dm)"

section \<open>Lemmas\<close>

text \<open>A slave without its containers.\<close>

definition slave_core :: "DeploymentManager \<Rightarrow> DeploymentManager" where
  "slave_core dm = dm\<lparr>dm_containers := [], dm_log := []\<rparr>"

lemma slave_core_fields:
  assumes "slave_core a = slave_core b"
  shows "dm_thread a = dm_thread b" "dm_terminate a = dm_terminate b" "dm_sent a = dm_sent b" "dm_handled a = dm_handled b"
    "dm_received a = dm_received b" "dm_local_queue a = dm_local_queue b" "dm_heartbeating a = dm_heartbeating b"
    "dm_control_message_queue a = dm_control_message_queue b" "dm_interrupted a = dm_interrupted b"
  using assms by (cases a; cases b; simp add: slave_core_def)+

lemma HandleContainerUpdate_core: "slave_core (snd (HandleContainerUpdate env h c dm)) = slave_core dm"
  by (auto simp: HandleContainerUpdate_def slave_core_def Let_def split: option.splits prod.splits sum.splits)

lemma forE_core:
  assumes "\<And>x dm. slave_core (snd (f x dm)) = slave_core dm"
  shows "slave_core (snd (forE xs f dm)) = slave_core dm"
proof (induction xs arbitrary: dm)
  case (Cons x xs)
  obtain r dm1 where r: "f x dm = (r, dm1)" by (cases "f x dm")
  then have "slave_core dm1 = slave_core dm" using assms [of x dm] by simp
  then show ?case using r Cons.IH [of dm1] by (cases r) (simp_all add: ev_rules)
qed (simp add: run_returnE)

lemma transition_containers_core: "slave_core (snd (transition_containers env t dm)) = slave_core dm"
  by (auto simp: transition_containers_def slave_core_def split: prod.splits)

lemma HandleExperimentUpdate_core: "slave_core (snd (DeploymentManager_HandleExperimentUpdate env m dm)) = slave_core dm"
  by (auto simp: DeploymentManager_HandleExperimentUpdate_def ev_rules HandleContainerUpdate_core
      split: prod.splits intro!: forE_core)

lemma slave_core_terminate: "slave_core dm = (slave_core dm)\<lparr>dm_terminate := dm_terminate dm\<rparr>"
  by (cases dm) (simp add: slave_core_def)

lemma handle_control_message_core:
  "\<exists>b. slave_core (snd (handle_control_message env m dm)) = (slave_core dm)\<lparr>dm_terminate := b\<rparr> \<and> (dm_terminate dm \<longrightarrow> b)"
proof (cases "cm_type m")
  case TERMINATE
  obtain q dm1 where q: "transition_containers env TR_TERMINATE dm = (q, dm1)" by (cases "transition_containers env TR_TERMINATE dm")
  then have "slave_core dm1 = slave_core dm" using transition_containers_core [of env TR_TERMINATE dm] by simp
  then show ?thesis using q TERMINATE slave_core_fields(2) [of dm1 dm]
    by (cases q; cases dm; cases dm1) (auto simp: handle_control_message_def ev_rules InteruptControlQueue_def slave_core_def)
qed (rule exI [of _ "dm_terminate dm"],
    simp add: handle_control_message_def run_returnE HandleExperimentUpdate_core transition_containers_core flip: slave_core_terminate)+

lemma ProcessControlQueue_next_fields:
  fixes dm :: DeploymentManager
  assumes "dm' = ProcessControlQueue_next env m rest dm"
  shows "dm_handled dm' = dm_handled dm @ [m]" "dm_local_queue dm' = rest" "dm_received dm' = dm_received dm"
    "dm_control_message_queue dm' = dm_control_message_queue dm" "dm_sent dm' = dm_sent dm"
    "dm_thread dm' = dm_thread dm \<or> (\<exists>e. dm_thread dm' = CT_Died e)" "dm_terminate dm \<Longrightarrow> dm_terminate dm'"
    "dm_heartbeating dm' = dm_heartbeating dm" "dm_interrupted dm' = dm_interrupted dm"
proof -
  let ?dm = "dm\<lparr>dm_local_queue := rest, dm_handled := dm_handled dm @ [m]\<rparr>"
  obtain r dm1 where r: "handle_control_message env m ?dm = (r, dm1)" by (cases "handle_control_message env m ?dm")
  obtain b where "slave_core dm1 = (slave_core ?dm)\<lparr>dm_terminate := b\<rparr>" "dm_terminate dm \<longrightarrow> b"
    using handle_control_message_core [of env m ?dm] r by auto
  moreover have "slave_core ((slave_core ?dm)\<lparr>dm_terminate := b\<rparr>) = (slave_core ?dm)\<lparr>dm_terminate := b\<rparr>" for b
    by (simp add: slave_core_def)
  ultimately have "slave_core dm1 = slave_core ((slave_core ?dm)\<lparr>dm_terminate := b\<rparr>)" "dm_terminate dm \<longrightarrow> b" by simp_all
  note f = slave_core_fields [OF this(1)] this(2)
  show "dm_handled dm' = dm_handled dm @ [m]" "dm_local_queue dm' = rest" "dm_received dm' = dm_received dm"
    "dm_control_message_queue dm' = dm_control_message_queue dm" "dm_sent dm' = dm_sent dm"
    "dm_thread dm' = dm_thread dm \<or> (\<exists>e. dm_thread dm' = CT_Died e)" "dm_terminate dm \<Longrightarrow> dm_terminate dm'"
    "dm_heartbeating dm' = dm_heartbeating dm" "dm_interrupted dm' = dm_interrupted dm"
    using assms r f by (cases r; simp add: ProcessControlQueue_next_def slave_core_def)+
qed

lemma RequestDeployment_fields:
  assumes "DeploymentManager_RequestDeployment env replies reply dm = Some (r, dm')"
  shows "dm_handled dm' = dm_handled dm" "dm_local_queue dm' = dm_local_queue dm" "dm_received dm' = dm_received dm"
    "dm_control_message_queue dm' = dm_control_message_queue dm" "dm_thread dm' = dm_thread dm" "dm_terminate dm' = dm_terminate dm"
    "dm_heartbeating dm \<Longrightarrow> dm_heartbeating dm'" "\<exists>xs. dm_sent dm' = dm_sent dm @ xs \<and> Sent_SlaveTerminated \<notin> set xs"
proof -
  obtain n outcome where n: "request_startup 0 replies = (n, outcome)" by (cases "request_startup 0 replies")
  let ?dm1 = "dm\<lparr>dm_sent := dm_sent dm @ replicate n Sent_SlaveStartup\<rparr>"
  have "(\<exists>b xs dm2. dm' = dm2\<lparr>dm_heartbeating := b, dm_sent := dm_sent dm @ xs\<rparr> \<and> slave_core dm2 = slave_core ?dm1 \<and>
    (dm_heartbeating dm \<longrightarrow> b) \<and> Sent_SlaveTerminated \<notin> set xs)"
  proof (cases outcome)
    case Startup_waiting
    then show ?thesis using assms n by (simp add: DeploymentManager_RequestDeployment_def)
  next
    case (Startup_failed ex)
    then have "dm' = ?dm1" using assms n by (simp add: DeploymentManager_RequestDeployment_def Let_def)
    then show ?thesis
      by (intro exI [of _ "dm_heartbeating dm"] exI [of _ "replicate n Sent_SlaveStartup"] exI [of _ ?dm1]) auto
  next
    case (Startup_reply p)
    obtain h c where p: "p = (h, c)" by (cases p)
    obtain q dm2 where q: "HandleContainerUpdate env h c ?dm1 = (q, dm2)" by (cases "HandleContainerUpdate env h c ?dm1")
    have c: "slave_core dm2 = slave_core ?dm1" using HandleContainerUpdate_core [of env h c ?dm1] q by simp
    have id: "dm2 = dm2\<lparr>dm_heartbeating := dm_heartbeating dm, dm_sent := dm_sent dm @ replicate n Sent_SlaveStartup\<rparr>"
      using slave_core_fields(3,7) [OF c] by simp
    from assms n q Startup_reply p consider "dm' = dm2"
      | success errs where "dm' = dm2\<lparr>dm_heartbeating := True, dm_sent := dm_sent dm2 @ [Sent_SlaveConfigured success errs]\<rparr>"
      by (auto simp: DeploymentManager_RequestDeployment_def Let_def split: sum.splits if_splits)
    then show ?thesis
    proof cases
      case 1
      then show ?thesis using id c by (metis in_set_replicate slave_message.distinct(3))
    next
      case 2
      then show ?thesis using slave_core_fields(3) [OF c] c
        by (intro exI [of _ True] exI [of _ "replicate n Sent_SlaveStartup @ [Sent_SlaveConfigured success errs]"] exI [of _ dm2]) auto
    qed
  qed
  then obtain b xs dm2 where x: "dm' = dm2\<lparr>dm_heartbeating := b, dm_sent := dm_sent dm @ xs\<rparr>" "slave_core dm2 = slave_core ?dm1"
    "dm_heartbeating dm \<longrightarrow> b" "Sent_SlaveTerminated \<notin> set xs" by blast
  note f = slave_core_fields [OF x(2)]
  show "dm_handled dm' = dm_handled dm" "dm_local_queue dm' = dm_local_queue dm" "dm_received dm' = dm_received dm"
    "dm_control_message_queue dm' = dm_control_message_queue dm" "dm_thread dm' = dm_thread dm" "dm_terminate dm' = dm_terminate dm"
    "dm_heartbeating dm \<Longrightarrow> dm_heartbeating dm'" "\<exists>xs. dm_sent dm' = dm_sent dm @ xs \<and> Sent_SlaveTerminated \<notin> set xs"
    using f x(1,3,4) by simp_all
qed

text \<open>The invariant of the control thread.\<close>

definition slave_queue_inv :: "DeploymentManager \<Rightarrow> bool" where
  "slave_queue_inv dm \<longleftrightarrow>
     dm_received dm = dm_handled dm @ dm_local_queue dm @ dm_control_message_queue dm \<and>
     (dm_thread dm \<in> {CT_Waiting, CT_Ending, CT_Ended} \<longrightarrow> dm_local_queue dm = []) \<and>
     (dm_thread dm \<in> {CT_Ending, CT_Ended} \<longrightarrow> dm_terminate dm) \<and>
     (if dm_thread dm = CT_Ended then count_list (dm_sent dm) Sent_SlaveTerminated = 1
      else if \<exists>e. dm_thread dm = CT_Died e then count_list (dm_sent dm) Sent_SlaveTerminated \<le> 1
      else count_list (dm_sent dm) Sent_SlaveTerminated = 0)"

text \<open>The steps of a slave, with its constructor's request anywhere between them.\<close>

inductive slave_run :: "NodeEnv \<Rightarrow> DeploymentManager \<Rightarrow> DeploymentManager \<Rightarrow> bool" for env where
  step: "slave_step env dm dm' \<Longrightarrow> slave_run env dm dm'"
| request: "DeploymentManager_RequestDeployment env replies reply dm = Some (r, dm') \<Longrightarrow> slave_run env dm dm'"

lemma slave_queue_inv_step: "slave_step env dm dm' \<Longrightarrow> slave_queue_inv dm \<Longrightarrow> slave_queue_inv dm'"
proof (induction rule: slave_step.induct)
  case (got dm m)
  then show ?case by (auto simp: slave_queue_inv_def GotExperimentUpdate_def split: if_splits)
next
  case (terminate dm)
  then show ?case by (auto simp: slave_queue_inv_def InteruptControlQueue_def split: if_splits)
next
  case (swap dm)
  then show ?case by (auto simp: slave_queue_inv_def ProcessControlQueue_swap_def Let_def)
next
  case (handle dm m rest)
  note f = ProcessControlQueue_next_fields [where env = env and m = m and rest = rest and dm = dm, OF refl]
  then show ?case using handle by (auto simp: slave_queue_inv_def)
next
  case (again dm)
  then show ?case by (simp add: slave_queue_inv_def)
next
  case (finish dm reply)
  then show ?case by (cases reply) (auto simp: slave_queue_inv_def ProcessControlQueue_finish_def Let_def)
qed

lemma slave_queue_inv_run: "slave_run env dm dm' \<Longrightarrow> slave_queue_inv dm \<Longrightarrow> slave_queue_inv dm'"
proof (induction rule: slave_run.induct)
  case (step dm dm')
  then show ?case by (rule slave_queue_inv_step)
next
  case (request replies reply dm r dm')
  note f = RequestDeployment_fields [OF request.hyps]
  then obtain xs where "dm_sent dm' = dm_sent dm @ xs" "Sent_SlaveTerminated \<notin> set xs" by blast
  then have "count_list (dm_sent dm') Sent_SlaveTerminated = count_list (dm_sent dm) Sent_SlaveTerminated"
    by (simp add: count_list_0_iff)
  then show ?case using f(1-6) request.prems by (auto simp: slave_queue_inv_def split: if_splits)
qed

section \<open>Properties\<close>

text \<open>
  C23. A slave follows its master in order, and says once that it has ended. In every state that a
  slave reaches, the control messages it received are, in order, those it has handled, those its
  thread has taken and those that still wait; it has told the master that it terminated at most once,
  and if its thread has ended normally then exactly once, with nothing taken and not handled.
\<close>
theorem control_messages_in_order:
  assumes "(slave_run env)\<^sup>*\<^sup>* (DeploymentManager_init experiment_name ip_address container_id library_path is_master_node) dm"
  shows "dm_received dm = dm_handled dm @ dm_local_queue dm @ dm_control_message_queue dm \<and>
    count_list (dm_sent dm) Sent_SlaveTerminated \<le> 1 \<and>
    (dm_thread dm = CT_Ended \<longrightarrow> count_list (dm_sent dm) Sent_SlaveTerminated = 1 \<and> dm_local_queue dm = [] \<and> dm_terminate dm)"
proof -
  have "slave_queue_inv (DeploymentManager_init experiment_name ip_address container_id library_path is_master_node)"
    by (simp add: slave_queue_inv_def DeploymentManager_init_def)
  with assms have "slave_queue_inv dm"
    by (induction rule: rtranclp_induct) (auto intro: slave_queue_inv_run)
  then show ?thesis by (auto simp: slave_queue_inv_def split: if_splits)
qed

text \<open>A slave whose control thread has died.\<close>

definition slave_deaf :: "exn \<Rightarrow> ControlMessage_pb list \<Rightarrow> DeploymentManager \<Rightarrow> bool" where
  "slave_deaf e handled dm \<longleftrightarrow>
     dm_thread dm = CT_Died e \<and> dm_handled dm = handled \<and> dm_heartbeating dm \<and> Sent_SlaveTerminated \<notin> set (dm_sent dm)"

lemma slave_deaf_run: "slave_run env dm dm' \<Longrightarrow> slave_deaf e hs dm \<Longrightarrow> slave_deaf e hs dm'"
proof (induction rule: slave_run.induct)
  case (step dm dm')
  then show ?case
    by (induction rule: slave_step.induct) (auto simp: slave_deaf_def GotExperimentUpdate_def InteruptControlQueue_def)
next
  case (request replies reply dm r dm')
  then show ?case using RequestDeployment_fields [OF request.hyps] by (auto simp: slave_deaf_def)
qed

text \<open>
  C24. A slave that fails to carry out an update is lost to its master without the master noticing.
  When a message of the control queue ends in an exception, the thread ends with it; from then on, in
  every continuation, no further message is handled, not even TERMINATE, the slave never reports that
  it has terminated, and its heartbeats go on.
\<close>
theorem failed_update_deafens_slave:
  assumes "dm_thread dm = CT_Processing" and "dm_local_queue dm = m # rest"
    and "handle_control_message env m (dm\<lparr>dm_local_queue := rest, dm_handled := dm_handled dm @ [m]\<rparr>) = (Inl e, dm1)"
    and "dm_heartbeating dm" and "Sent_SlaveTerminated \<notin> set (dm_sent dm)"
    and "(slave_run env)\<^sup>*\<^sup>* (ProcessControlQueue_next env m rest dm) dm'"
  shows "dm_thread dm' = CT_Died e \<and> dm_handled dm' = dm_handled dm @ [m] \<and> dm_heartbeating dm' \<and>
    Sent_SlaveTerminated \<notin> set (dm_sent dm')"
proof -
  have "slave_deaf e (dm_handled dm @ [m]) (ProcessControlQueue_next env m rest dm)"
    using ProcessControlQueue_next_fields [where env = env and m = m and rest = rest and dm = dm, OF refl] assms(3-5)
    by (simp add: slave_deaf_def) (simp add: ProcessControlQueue_next_def)
  with assms(6) have "slave_deaf e (dm_handled dm @ [m]) dm'"
    by (induction rule: rtranclp_induct) (auto intro: slave_deaf_run)
  then show ?thesis by (simp add: slave_deaf_def)
qed

text \<open>
  How often a slave asks. \<open>RequestDeployment\<close> sends at most four requests for its container and
  takes the first answer; when it gives up it has sent exactly four, though comment and exception
  text speak of three; an error that the master itself reports is passed on at once.
\<close>
theorem RequestDeployment_attempts:
  assumes "request_startup 0 replies = (n, outcome)"
  shows "1 \<le> n \<and> n \<le> 4 \<and> (\<forall>s. outcome = Startup_failed (RuntimeError s) \<longrightarrow> n = 4) \<and>
    (case outcome of
       Startup_waiting \<Rightarrow> length replies < n
     | Startup_reply reply \<Rightarrow> replies ! (n - 1) = Inr reply
     | Startup_failed ex \<Rightarrow> \<forall>s. ex = RMIException s \<longrightarrow> replies ! (n - 1) = Inl ex)"
proof -
  have "request_startup k replies = (n, outcome) \<Longrightarrow> k \<le> 3 \<Longrightarrow>
    1 \<le> n \<and> n + k \<le> 4 \<and> (\<forall>s. outcome = Startup_failed (RuntimeError s) \<longrightarrow> n + k = 4) \<and>
    (case outcome of
       Startup_waiting \<Rightarrow> length replies < n
     | Startup_reply reply \<Rightarrow> replies ! (n - 1) = Inr reply
     | Startup_failed ex \<Rightarrow> \<forall>s. ex = RMIException s \<longrightarrow> replies ! (n - 1) = Inl ex)" for k
  proof (induction replies arbitrary: k n)
    case Nil
    then show ?case by auto
  next
    case (Cons x xs)
    show ?case
    proof (cases x)
      case (Inr reply)
      then show ?thesis using Cons.prems by auto
    next
      case (Inl ex)
      consider (final) "(n, outcome) = (1, Startup_failed ex)" "\<forall>s. ex \<noteq> RuntimeError s"
        | (gave_up) "k = 3" "n = 1" "\<exists>s. outcome = Startup_failed (RuntimeError s)"
        | (again) n' where "k < 3" "n = Suc n'" "request_startup (k + 1) xs = (n', outcome)"
        using Cons.prems Inl by (cases ex) (auto split: if_splits prod.splits)
      then show ?thesis
      proof cases
        case final
        then show ?thesis using Cons.prems(2) Inl by auto
      next
        case gave_up
        then show ?thesis by auto
      next
        case again
        then show ?thesis using Cons.IH [of "k + 1" n'] by (auto split: startup_outcome.splits)
      qed
    qed
  qed
  from this [of 0] assms show ?thesis by simp
qed

section \<open>A slave with an update it cannot carry out\<close>

definition demo_update :: ControlMessage_pb where
  "demo_update = ControlMessage_default\<lparr>cm_type := SET_ATTRIBUTE, cm_nodes :=
     [\<lparr>npb_info = Info_default, npb_ip_address = ''1'', npb_containers = [demo_container_pb [''b'']]\<rparr>]\<rparr>"

definition demo_dm :: DeploymentManager where
  "demo_dm = DeploymentManager_init ''x'' ''1'' '''' ''/l'' False"

definition demo_busy_dm :: DeploymentManager where
  "demo_busy_dm = demo_dm\<lparr>dm_thread := CT_Processing, dm_local_queue := [demo_update], dm_heartbeating := True\<rparr>"

lemma demo_configure_b:
  "\<exists>m d log. DeploymentContainer_Configure demo_node_env (demo_container_pb [''b'']) (StateMachine_init, (DeploymentContainer_ctor x h ''/l'', [])) =
     (Inl (RuntimeError m), (StateMachine_init, (d, log)))"
proof -
  let ?d = "(DeploymentContainer_ctor x h ''/l'')"
  obtain m where "GetConfiguredComponent demo_node_env (demo_component_pb ''b'') (?d\<lparr>dc_name := '''', dc_id := ''''\<rparr>, []) =
      (Inl (RuntimeError m), (?d\<lparr>dc_name := '''', dc_id := ''''\<rparr>, []))"
    using demo_missing_b [of "?d\<lparr>dc_name := '''', dc_id := ''''\<rparr>" "[]"]
    by (auto simp: DeploymentContainer_ctor_def DllLoader_init_def)
  then have "configure_members demo_node_env (demo_container_pb [''b'']) (?d, []) =
      (Inl (RuntimeError m), (?d\<lparr>dc_name := '''', dc_id := ''''\<rparr>, []))"
    by (simp add: configure_members_def demo_container_pb_def Info_default_def updD_def ev_rules)
  then have "on_container (configure_members demo_node_env (demo_container_pb [''b''])) (StateMachine_init, (?d, [])) =
      (Inl (RuntimeError m), (StateMachine_init, (?d\<lparr>dc_name := '''', dc_id := ''''\<rparr>, [])))"
    by (simp add: on_container_def)
  then show ?thesis by (simp add: DeploymentContainer_Configure_def ev_rules remove_components)
qed

lemma demo_update_fails:
  "\<exists>m dm1. handle_control_message demo_node_env demo_update (dm\<lparr>dm_containers := [], dm_log := [], dm_library_path := ''/l'',
     dm_ip_address := ''1'', dm_container_id := ''''\<rparr>) = (Inl (RuntimeError m), dm1)"
proof -
  obtain m d log where "DeploymentContainer_Configure demo_node_env (demo_container_pb [''b''])
      (StateMachine_init, (DeploymentContainer_ctor (dm_experiment_name dm) '''' ''/l'', [])) = (Inl (RuntimeError m), (StateMachine_init, (d, log)))"
    using demo_configure_b by blast
  then show ?thesis
    by (simp add: handle_control_message_def demo_update_def ControlMessage_default_def DeploymentManager_HandleExperimentUpdate_def
        own_containers_def demo_container_pb_def Info_default_def HandleContainerUpdate_def ev_rules Let_def)
qed

theorem failed_update_deafens_slave_witness:
  "\<exists>m dm'. (slave_run demo_node_env)\<^sup>*\<^sup>* (ProcessControlQueue_next demo_node_env demo_update [] demo_busy_dm) dm' \<and>
     cm_type (last (dm_received dm')) = TERMINATE \<and> dm_thread dm' = CT_Died (RuntimeError m) \<and> dm_handled dm' = [demo_update] \<and>
     dm_heartbeating dm'"
proof -
  let ?dm0 = "demo_busy_dm\<lparr>dm_local_queue := [], dm_handled := dm_handled demo_busy_dm @ [demo_update]\<rparr>"
  have eq: "?dm0\<lparr>dm_containers := [], dm_log := [], dm_library_path := ''/l'', dm_ip_address := ''1'', dm_container_id := ''''\<rparr> = ?dm0"
    by (simp add: demo_busy_dm_def demo_dm_def DeploymentManager_init_def)
  obtain m dm1 where u: "handle_control_message demo_node_env demo_update ?dm0 = (Inl (RuntimeError m), dm1)"
    using demo_update_fails [of ?dm0] unfolding eq by blast
  let ?dm = "ProcessControlQueue_next demo_node_env demo_update [] demo_busy_dm"
  let ?dm' = "GotExperimentUpdate (ControlMessage_default\<lparr>cm_type := TERMINATE\<rparr>) ?dm"
  have r: "(slave_run demo_node_env)\<^sup>*\<^sup>* ?dm ?dm'" by (intro r_into_rtranclp slave_run.step slave_step.got)
  have p: "dm_thread demo_busy_dm = CT_Processing" "dm_local_queue demo_busy_dm = [demo_update]" "dm_heartbeating demo_busy_dm"
    "Sent_SlaveTerminated \<notin> set (dm_sent demo_busy_dm)" "dm_handled demo_busy_dm = []"
    by (simp_all add: demo_busy_dm_def demo_dm_def DeploymentManager_init_def)
  have t: "cm_type (last (dm_received ?dm')) = TERMINATE" by (simp add: GotExperimentUpdate_def ControlMessage_default_def)
  from failed_update_deafens_slave [OF p(1,2) u p(3,4) r] r t p(5) show ?thesis
    by (intro exI [of _ m] exI [of _ ?dm']) simp
qed

theorem control_messages_in_order_witness:
  "\<exists>dm. (slave_run demo_node_env)\<^sup>*\<^sup>* demo_dm dm \<and> dm_thread dm = CT_Ended \<and> dm_received dm = dm_handled dm \<and>
     count_list (dm_sent dm) Sent_SlaveTerminated = 1"
proof -
  let ?R = "slave_run demo_node_env"
  let ?dm1 = "InteruptControlQueue demo_dm" and ?fin = "ProcessControlQueue_finish (Inr ())"
  have 1: "?R demo_dm ?dm1" by (intro slave_run.step slave_step.terminate)
  have 2: "?R ?dm1 (ProcessControlQueue_swap ?dm1)"
    by (intro slave_run.step slave_step.swap) (simp_all add: InteruptControlQueue_def demo_dm_def DeploymentManager_init_def)
  have 3: "?R (ProcessControlQueue_swap ?dm1) (?fin (ProcessControlQueue_swap ?dm1))"
    by (intro slave_run.step slave_step.finish)
       (simp add: ProcessControlQueue_swap_def InteruptControlQueue_def demo_dm_def DeploymentManager_init_def Let_def)
  have r: "?R\<^sup>*\<^sup>* demo_dm (?fin (ProcessControlQueue_swap ?dm1))"
    using 1 2 3 by (meson converse_rtranclp_into_rtranclp rtranclp.rtrancl_refl)
  have e: "dm_thread (?fin (ProcessControlQueue_swap ?dm1)) = CT_Ended"
    "dm_control_message_queue (?fin (ProcessControlQueue_swap ?dm1)) = []"
    by (simp_all add: ProcessControlQueue_finish_def ProcessControlQueue_swap_def InteruptControlQueue_def demo_dm_def
        DeploymentManager_init_def Let_def)
  from control_messages_in_order [OF r [unfolded demo_dm_def]] r e show ?thesis
    by (intro exI [of _ "?fin (ProcessControlQueue_swap ?dm1)"]) (simp add: demo_dm_def)
qed

theorem RequestDeployment_attempts_witness:
  "\<exists>n. request_startup 0 (replicate 7 (Inl (TimeoutException ''t''))) =
     (n, Startup_failed (RuntimeError ''DeploymentManager::RequestDeployment failed after three attempts.'')) \<and> n = 4"
proof -
  have r: "request_startup 0 (replicate 7 (Inl (TimeoutException ''t''))) =
     (4, Startup_failed (RuntimeError ''DeploymentManager::RequestDeployment failed after three attempts.''))"
    by (simp add: numeral_eq_Suc)
  from RequestDeployment_attempts [OF r] r show ?thesis by blast
qed

section \<open>A slave and its master\<close>



end
