(* ===== verification/MDModel.thy ===== *)
theory MDModel
  imports Complex_Main Prelude_SEM
begin

text \<open>
  The model that MEDEA edits (\<^verbatim>\<open>medea/src/modelcontroller/Entities\<close>): keys, data, nodes and edges as objects
  with addresses, and the functions that only read them. An object of a class is split as in C++: the
  \<open>Entity\<close> part of nodes and edges is found under the same address as the part of the subclass. A
  \<open>QSet\<close> of pointers is a list without repetition in iteration order. A pointer to an object that is
  gone reads a blank object. A \<open>Key\<close> is known by its name, because the factory makes one key per name;
  the enumerators of \<open>NODE_KIND\<close> are known by their names too.

  Recursive functions take the number of stack frames that are left; with none left they end in
  \<open>stack_overflow\<close>, as unbounded recursion does in C++. What the source uses of Qt (\<open>QVariant\<close>
  conversions, regular expressions, UUIDs) is the parameter \<open>Qt\<close>.
\<close>

section \<open>Kinds\<close>

type_synonym NODE_KIND = string

datatype EDGE_KIND = EK_NONE | EK_DEFINITION | EK_AGGREGATE | EK_DEPLOYMENT | EK_DATA | EK_ASSEMBLY | EK_QOS | EK_TRIGGER

datatype EDGE_DIRECTION = ED_SOURCE | ED_TARGET

datatype NODE_TYPE =
    NT_DEFINITION | NT_INSTANCE | NT_IMPLEMENTATION | NT_ASPECT | NT_BEHAVIOUR | NT_DATA | NT_EVENTPORT
  | NT_EVENTPORT_ASSEMBLY | NT_HARDWARE | NT_QOS | NT_BEHAVIOUR_ELEMENT | NT_DDS | NT_PARAMETER | NT_CONDITION
  | NT_LOGGING | NT_BEHAVIOUR_CONTAINER | NT_TOP_BEHAVIOUR_CONTAINER

datatype VIEW_ASPECT = VA_NONE | VA_INTERFACES | VA_BEHAVIOUR | VA_ASSEMBLIES | VA_HARDWARE | VA_WORKERS | VA_TRIGGERS

datatype EdgeRule =
    ALLOW_EXTERNAL_DEFINITIONS | IGNORE_REQUIRED_INSTANCE_DEFINITIONS | ALWAYS_CHECK_VALID_DEFINITIONS
  | ALLOW_MULTIPLE_IMPLEMENTATIONS | DISALLOW_DEFINITION_CHAINING | ALLOW_MULTIPLE_DEPLOYMENT_EDGES
  | ALWAYS_ALLOW_ADOPTION_AS_INSTANCE

datatype ProtectedState = PS_PROTECTED | PS_UNPROTECTED | PS_IGNORED

datatype GRAPHML_KIND = GK_NONE | GK_DATA | GK_KEY | GK_NODE | GK_EDGE

section \<open>Values\<close>

datatype QType = QT_Bool | QT_Int | QT_LongLong | QT_Double | QT_String

text \<open>\<open>QInvalid\<close> is \<open>QVariant()\<close> and \<open>QNull t\<close> is \<open>QVariant(t)\<close>. Doubles are rationals: rounding is not modelled.\<close>

datatype QVariant = QInvalid | QNull QType | QBool bool | QInt int | QLongLong int | QDouble rat | QString string

fun isValid :: "QVariant \<Rightarrow> bool" where
  "isValid QInvalid = False"
| "isValid _ = True"

fun isNull :: "QVariant \<Rightarrow> bool" where
  "isNull QInvalid = True"
| "isNull (QNull _) = True"
| "isNull _ = False"

text \<open>\<open>qt_match p s\<close> has the captured groups (from 1 on) when the expression \<open>p\<close> matches \<open>s\<close>; \<open>qt_uuid s\<close> is
  \<open>QUuid(s).toString()\<close> unless that is null; \<open>qt_createUuid\<close> gives the random ones in order.\<close>

record Qt =
  qt_canConvert :: "QVariant \<Rightarrow> QType \<Rightarrow> bool"
  qt_convert :: "QVariant \<Rightarrow> QType \<Rightarrow> QVariant"
  qt_eq :: "QVariant \<Rightarrow> QVariant \<Rightarrow> bool"
  qt_toInt :: "QVariant \<Rightarrow> int"
  qt_toDouble :: "QVariant \<Rightarrow> rat"
  qt_toString :: "QVariant \<Rightarrow> string"
  qt_toBool :: "QVariant \<Rightarrow> bool"
  qt_match :: "string \<Rightarrow> string \<Rightarrow> string list option"
  qt_uuid :: "string \<Rightarrow> string option"
  qt_md5_hex :: "string \<Rightarrow> string"
  qt_createUuid :: "nat \<Rightarrow> string"

section \<open>Objects\<close>

record MKey =
  ky_type :: QType
  ky_protected :: bool

text \<open>The slots that node classes connect to the signal \<open>dataChanged\<close> of a data. Each \<open>updateLabel\<close> belongs to a
  node and reads that node or children of it, which the class keeps as members. \<open>SL_Other\<close> stands for
  \<open>Setter::operatorChanged\<close>, the \<open>MiddlewareUpdated\<close> of the ports and \<open>DeploymentContainer::TypeUpdated\<close>.
  The constructors of the node classes, which connect them, are not modelled: a model may have any.\<close>

datatype data_slot =
    SL_ServerInterface nat
  | SL_TransitionFunction nat
  | SL_IfCondition nat nat
  | SL_ElseIfCondition nat nat
  | SL_WhileLoop nat nat
  | SL_ForLoop nat nat nat nat
  | SL_Setter nat nat nat nat
  | SL_BooleanExpression nat nat nat nat
  | SL_Other

record MData =
  da_key :: string
  da_parent :: "nat option"
  da_value :: QVariant
  da_protected :: bool
  da_parent_datas :: "nat list"
  da_child_datas :: "nat list"
  da_valid_values :: "QVariant list"
  da_slots :: "data_slot list"

record MEntity =
  me_graphml_kind :: GRAPHML_KIND
  me_id :: int
  me_data_map :: "(string, nat) umap"
  me_key_lookup :: "string list"
  me_label_functional :: bool
  me_implicitly_constructed :: bool

record MNode =
  mn_tree_index :: "int list"
  mn_branch :: int
  mn_branch_count :: int
  mn_parent_node :: "nat option"
  mn_definition :: "nat option"
  mn_node_kind :: NODE_KIND
  mn_parent_node_kind :: NODE_KIND
  mn_view_aspect :: VIEW_ASPECT
  mn_instances :: "nat list"
  mn_implementations :: "nat list"
  mn_new_nodes :: "nat list"
  mn_new_edges :: "nat list"
  mn_node_kind_count :: "(NODE_KIND, int) umap"
  mn_edge_kind_count :: "(EDGE_KIND, int) umap"
  mn_node_types :: "NODE_TYPE list"
  mn_accepted_node_kinds :: "NODE_KIND list"
  mn_accepted_edge_kinds_as_source :: "EDGE_KIND list"
  mn_accepted_edge_kinds_as_target :: "EDGE_KIND list"
  mn_definition_kinds :: "NODE_KIND list"
  mn_instance_kinds :: "NODE_KIND list"
  mn_impl_kinds :: "NODE_KIND list"
  mn_active_edge_rules :: "EdgeRule list"

record MEdge =
  mg_kind :: EDGE_KIND
  mg_source :: nat
  mg_destination :: nat

text \<open>The signals that reach the views.\<close>

datatype signal =
    Sig_dataChanged int string QVariant bool
  | Sig_dataRemoved int string
  | Sig_validation_failed int string

text \<open>The store, with the part of the factory that data reports to: the ids by UUID.\<close>

record MModel =
  md_keys :: "(string, MKey) umap"
  md_datas :: "nat \<Rightarrow> MData option"
  md_entities :: "nat \<Rightarrow> MEntity option"
  md_nodes :: "nat \<Rightarrow> MNode option"
  md_edges :: "nat \<Rightarrow> MEdge option"
  md_next :: nat
  md_signals :: "signal list"
  md_uuid_lookup :: "(string, int) umap"
  md_uuids :: nat

definition MData_blank :: MData where
  "MData_blank = \<lparr>da_key = '''', da_parent = None, da_value = QInvalid, da_protected = False, da_parent_datas = [],
     da_child_datas = [], da_valid_values = [], da_slots = []\<rparr>"

definition MEntity_blank :: MEntity where
  "MEntity_blank = \<lparr>me_graphml_kind = GK_NONE, me_id = -1, me_data_map = [], me_key_lookup = [], me_label_functional = True,
     me_implicitly_constructed = False\<rparr>"

definition MNode_blank :: MNode where
  "MNode_blank = \<lparr>mn_tree_index = [], mn_branch = 0, mn_branch_count = 0, mn_parent_node = None, mn_definition = None,
     mn_node_kind = ''NONE'', mn_parent_node_kind = ''NONE'', mn_view_aspect = VA_NONE, mn_instances = [], mn_implementations = [],
     mn_new_nodes = [], mn_new_edges = [], mn_node_kind_count = [], mn_edge_kind_count = [], mn_node_types = [],
     mn_accepted_node_kinds = [], mn_accepted_edge_kinds_as_source = [], mn_accepted_edge_kinds_as_target = [],
     mn_definition_kinds = [], mn_instance_kinds = [], mn_impl_kinds = [], mn_active_edge_rules = []\<rparr>"

definition data_at :: "MModel \<Rightarrow> nat \<Rightarrow> MData" where
  "data_at m d = (case md_datas m d of Some x \<Rightarrow> x | None \<Rightarrow> MData_blank)"

definition entity_at :: "MModel \<Rightarrow> nat \<Rightarrow> MEntity" where
  "entity_at m e = (case md_entities m e of Some x \<Rightarrow> x | None \<Rightarrow> MEntity_blank)"

definition node_at :: "MModel \<Rightarrow> nat \<Rightarrow> MNode" where
  "node_at m n = (case md_nodes m n of Some x \<Rightarrow> x | None \<Rightarrow> MNode_blank)"

definition upd_data :: "nat \<Rightarrow> (MData \<Rightarrow> MData) \<Rightarrow> MModel \<Rightarrow> MModel" where
  "upd_data d f m = m\<lparr>md_datas := (md_datas m)(d := map_option f (md_datas m d))\<rparr>"

definition upd_entity :: "nat \<Rightarrow> (MEntity \<Rightarrow> MEntity) \<Rightarrow> MModel \<Rightarrow> MModel" where
  "upd_entity e f m = m\<lparr>md_entities := (md_entities m)(e := map_option f (md_entities m e))\<rparr>"

definition upd_mnode :: "nat \<Rightarrow> (MNode \<Rightarrow> MNode) \<Rightarrow> MModel \<Rightarrow> MModel" where
  "upd_mnode n f m = m\<lparr>md_nodes := (md_nodes m)(n := map_option f (md_nodes m n))\<rparr>"

definition emit_signal :: "signal \<Rightarrow> MModel \<Rightarrow> MModel" where
  "emit_signal s m = m\<lparr>md_signals := md_signals m @ [s]\<rparr>"

section \<open>Reading entities\<close>

definition isNode :: "MModel \<Rightarrow> nat \<Rightarrow> bool" where
  "isNode m e \<longleftrightarrow> me_graphml_kind (entity_at m e) = GK_NODE"

definition Entity_getKey :: "MModel \<Rightarrow> nat \<Rightarrow> string \<Rightarrow> string option" where
  "Entity_getKey m e key_name = (if key_name \<in> set (me_key_lookup (entity_at m e)) then Some key_name else None)"

definition Entity_getData_of_key :: "MModel \<Rightarrow> nat \<Rightarrow> string option \<Rightarrow> nat option" where
  "Entity_getData_of_key m e key = (case key of Some k \<Rightarrow> map_of (me_data_map (entity_at m e)) k | None \<Rightarrow> None)"

definition Entity_getData :: "MModel \<Rightarrow> nat \<Rightarrow> string \<Rightarrow> nat option" where
  "Entity_getData m e key_name = Entity_getData_of_key m e (Entity_getKey m e key_name)"

definition Entity_gotData :: "MModel \<Rightarrow> nat \<Rightarrow> string \<Rightarrow> bool" where
  "Entity_gotData m e key_name \<longleftrightarrow> Entity_getData m e key_name \<noteq> None"

definition getDataValue_of_key :: "MModel \<Rightarrow> nat \<Rightarrow> string option \<Rightarrow> QVariant" where
  "getDataValue_of_key m e key = (case Entity_getData_of_key m e key of Some d \<Rightarrow> da_value (data_at m d) | None \<Rightarrow> QInvalid)"

definition getDataValue :: "MModel \<Rightarrow> nat \<Rightarrow> string \<Rightarrow> QVariant" where
  "getDataValue m e key_name = getDataValue_of_key m e (Entity_getKey m e key_name)"

definition isReadOnly :: "Qt \<Rightarrow> MModel \<Rightarrow> nat \<Rightarrow> bool" where
  "isReadOnly qt m e = (case Entity_getData m e ''readOnly'' of Some d \<Rightarrow> qt_toBool qt (da_value (data_at m d)) | None \<Rightarrow> False)"

section \<open>Reading nodes\<close>

definition getOrderedChildNodes :: "Qt \<Rightarrow> MModel \<Rightarrow> nat \<Rightarrow> nat list" where
  "getOrderedChildNodes qt m n =
     (let index_key = Entity_getKey m n ''index'' in
      sort_key (\<lambda>c. qt_toInt qt (getDataValue_of_key m c index_key)) (mn_new_nodes (node_at m n)))"

definition getSiblings :: "Qt \<Rightarrow> MModel \<Rightarrow> nat \<Rightarrow> nat list" where
  "getSiblings qt m n =
     (case mn_parent_node (node_at m n) of
        Some p \<Rightarrow> removeAll n (getOrderedChildNodes qt m p)
      | None \<Rightarrow> [])"

lemma upd_data_at [simp]:
  "data_at (upd_data d f m) x = (if x = d \<and> md_datas m d \<noteq> None then f (data_at m d) else data_at m x)"
  by (auto simp: data_at_def upd_data_def)

lemma upd_node_at [simp]:
  "node_at (upd_mnode n f m) x = (if x = n \<and> md_nodes m n \<noteq> None then f (node_at m n) else node_at m x)"
  by (auto simp: node_at_def upd_mnode_def)

lemma upd_entity_at [simp]:
  "entity_at (upd_entity e f m) x = (if x = e \<and> md_entities m e \<noteq> None then f (entity_at m e) else entity_at m x)"
  by (auto simp: entity_at_def upd_entity_def)

lemma upd_other [simp]:
  "entity_at (upd_data d f m) = entity_at m" "node_at (upd_data d f m) = node_at m"
  "data_at (upd_mnode n g m) = data_at m" "entity_at (upd_mnode n g m) = entity_at m"
  "data_at (upd_entity e h m) = data_at m" "node_at (upd_entity e h m) = node_at m"
  by (auto simp: entity_at_def node_at_def data_at_def upd_data_def upd_mnode_def upd_entity_def intro!: ext)

end
