(* ===== verification/MDData.thy ===== *)
theory MDData
  imports MDModel
begin

text \<open>
  Data, the keys that validate it, and the links that copy values from one data to others
  (\<^verbatim>\<open>Entities/data.cpp\<close>, \<^verbatim>\<open>Entities/key.cpp\<close>, \<^verbatim>\<open>Entities/Keys\<close>). \<open>setValue\<close>, the virtual functions of the
  keys and \<open>updateChildren\<close> call each other: each is written over the function \<open>sv\<close> that stands for
  the next \<open>setValue\<close>, and \<open>setValue\<close> ties the knot, one stack frame per level.
\<close>

section \<open>Data\<close>

abbreviation stack_overflow :: exn where
  "stack_overflow \<equiv> Undefined ''stack overflow''"

type_synonym set_value = "nat \<Rightarrow> QVariant \<Rightarrow> (MModel, bool) em"

definition Data_isProtected :: "MData \<Rightarrow> bool" where
  "Data_isProtected x \<longleftrightarrow> da_parent_datas x \<noteq> [] \<or> da_protected x"

definition Entity_dataChanged :: "nat \<Rightarrow> nat \<Rightarrow> MModel \<Rightarrow> MModel" where
  "Entity_dataChanged e d m =
     (let x = data_at m d in
      if isValid (da_value x)
      then emit_signal (Sig_dataChanged (me_id (entity_at m e)) (da_key x) (da_value x) (Data_isProtected x)) m
      else m)"

text \<open>\<open>if(parent) parent->_dataChanged(this)\<close>\<close>

definition notify_parent :: "nat \<Rightarrow> MModel \<Rightarrow> MModel" where
  "notify_parent d m = (case da_parent (data_at m d) of Some e \<Rightarrow> Entity_dataChanged e d m | None \<Rightarrow> m)"

definition Data_setProtected :: "nat \<Rightarrow> bool \<Rightarrow> MModel \<Rightarrow> MModel" where
  "Data_setProtected d protect m =
     (if da_protected (data_at m d) \<noteq> protect
      then notify_parent d (upd_data d (\<lambda>x. x\<lparr>da_protected := protect\<rparr>) m)
      else m)"

text \<open>The labels that the slots of \<open>dataChanged\<close> compute. What the slots of \<open>SL_Other\<close> do (they attach data and
  change the edges that a node accepts) is not modelled: a run that comes to one ends in
  \<open>unmodelled_slot\<close>, and nothing is claimed of it.\<close>

abbreviation unmodelled_slot :: exn where
  "unmodelled_slot \<equiv> Undefined ''slot not modelled''"

definition text_of :: "Qt \<Rightarrow> MModel \<Rightarrow> nat \<Rightarrow> string \<Rightarrow> string" where
  "text_of qt m n key_name = qt_toString qt (getDataValue m n key_name)"

definition ServerInterface_updateLabel :: "Qt \<Rightarrow> MModel \<Rightarrow> nat \<Rightarrow> string" where
  "ServerInterface_updateLabel qt m n =
     (let interface_name = text_of qt m n ''interface_name''; function_name = text_of qt m n ''function_name''
      in (if interface_name \<noteq> [] then interface_name @ ''_'' else []) @ function_name)"

definition TransitionFunction_updateLabel :: "Qt \<Rightarrow> MModel \<Rightarrow> nat \<Rightarrow> string" where
  "TransitionFunction_updateLabel qt m n = ''Handle'' @ text_of qt m n ''type''"

definition IfCondition_updateLabel :: "Qt \<Rightarrow> MModel \<Rightarrow> nat \<Rightarrow> string" where
  "IfCondition_updateLabel qt m expression = ''if('' @ text_of qt m expression ''label'' @ '')''"

definition ElseIfCondition_updateLabel :: "Qt \<Rightarrow> MModel \<Rightarrow> nat \<Rightarrow> string" where
  "ElseIfCondition_updateLabel qt m expression = ''else if('' @ text_of qt m expression ''label'' @ '')''"

definition WhileLoop_updateLabel :: "Qt \<Rightarrow> MModel \<Rightarrow> nat \<Rightarrow> string" where
  "WhileLoop_updateLabel qt m expression = ''while('' @ text_of qt m expression ''label'' @ '')''"

definition GetCPPPrimitiveType :: "string \<Rightarrow> string" where
  "GetCPPPrimitiveType t = (case map_of [(''Boolean'', ''bool''), (''Double'', ''double''), (''Float'', ''float''),
     (''Integer'', ''int''), (''Character'', ''char'')] t of Some c \<Rightarrow> c | None \<Rightarrow> t)"

definition ForLoop_updateLabel :: "Qt \<Rightarrow> MModel \<Rightarrow> nat \<Rightarrow> nat \<Rightarrow> nat \<Rightarrow> string" where
  "ForLoop_updateLabel qt m variable expression iteration =
     (let var_type = GetCPPPrimitiveType (text_of qt m variable ''type'')
      in ''for('' @ var_type @ '' '' @ text_of qt m variable ''label'' @ ''='' @ text_of qt m variable ''value'' @ ''; '' @
         text_of qt m expression ''label'' @ ''; '' @ text_of qt m iteration ''label'' @ '')'')"

definition contains_string :: "string \<Rightarrow> string \<Rightarrow> bool" where
  "contains_string s part \<longleftrightarrow> list_ex (\<lambda>i. take (length part) (drop i s) = part) [0..<Suc (length s)]"

definition GetWrappedString :: "string \<Rightarrow> string" where
  "GetWrappedString s =
     (if list_ex (contains_string s) ['' + '', '' - '', '' * '', '' / ''] then ''('' @ s @ '')'' else s)"

definition Setter_updateLabel :: "Qt \<Rightarrow> MModel \<Rightarrow> nat \<Rightarrow> nat \<Rightarrow> nat \<Rightarrow> string" where
  "Setter_updateLabel qt m lhs operator rhs =
     (let lhs_value = GetWrappedString (text_of qt m lhs ''value''); rhs_value = GetWrappedString (text_of qt m rhs ''value'')
      in if lhs_value \<noteq> [] \<and> rhs_value \<noteq> [] then lhs_value @ '' '' @ text_of qt m operator ''label'' @ '' '' @ rhs_value
         else ''???'')"

definition BooleanExpression_updateLabel :: "Qt \<Rightarrow> MModel \<Rightarrow> nat \<Rightarrow> nat \<Rightarrow> nat \<Rightarrow> nat \<Rightarrow> string" where
  "BooleanExpression_updateLabel qt m n lhs comparator rhs =
     (let v = text_of qt m n ''value''; lhs_value = text_of qt m lhs ''value''; rhs_value = text_of qt m rhs ''value''
      in if v \<noteq> [] then v
         else if lhs_value \<noteq> [] \<and> rhs_value \<noteq> [] then lhs_value @ '' '' @ text_of qt m comparator ''label'' @ '' '' @ rhs_value
         else ''???'')"

fun slot_node :: "data_slot \<Rightarrow> nat option" where
  "slot_node (SL_ServerInterface n) = Some n"
| "slot_node (SL_TransitionFunction n) = Some n"
| "slot_node (SL_IfCondition n _) = Some n"
| "slot_node (SL_ElseIfCondition n _) = Some n"
| "slot_node (SL_WhileLoop n _) = Some n"
| "slot_node (SL_ForLoop n _ _ _) = Some n"
| "slot_node (SL_Setter n _ _ _) = Some n"
| "slot_node (SL_BooleanExpression n _ _ _) = Some n"
| "slot_node SL_Other = None"

fun slot_label :: "Qt \<Rightarrow> MModel \<Rightarrow> data_slot \<Rightarrow> string" where
  "slot_label qt m (SL_ServerInterface n) = ServerInterface_updateLabel qt m n"
| "slot_label qt m (SL_TransitionFunction n) = TransitionFunction_updateLabel qt m n"
| "slot_label qt m (SL_IfCondition _ expression) = IfCondition_updateLabel qt m expression"
| "slot_label qt m (SL_ElseIfCondition _ expression) = ElseIfCondition_updateLabel qt m expression"
| "slot_label qt m (SL_WhileLoop _ expression) = WhileLoop_updateLabel qt m expression"
| "slot_label qt m (SL_ForLoop _ variable expression iteration) = ForLoop_updateLabel qt m variable expression iteration"
| "slot_label qt m (SL_Setter _ lhs operator rhs) = Setter_updateLabel qt m lhs operator rhs"
| "slot_label qt m (SL_BooleanExpression n lhs comparator rhs) = BooleanExpression_updateLabel qt m n lhs comparator rhs"
| "slot_label qt m SL_Other = []"

definition run_slot :: "Qt \<Rightarrow> set_value \<Rightarrow> data_slot \<Rightarrow> (MModel, unit) em" where
  "run_slot qt sv s = (case slot_node s of
     None \<Rightarrow> throwE unmodelled_slot
   | Some n \<Rightarrow> bindE getE (\<lambda>m. case Entity_getData m n ''label'' of
       None \<Rightarrow> returnE ()
     | Some x \<Rightarrow> bindE (sv x (QString (slot_label qt m s))) (\<lambda>_. returnE ())))"

definition Data_updateChildren :: "Qt \<Rightarrow> set_value \<Rightarrow> nat \<Rightarrow> bool \<Rightarrow> (MModel, unit) em" where
  "Data_updateChildren qt sv d changed =
     bindE (whenE changed (modifyE (notify_parent d))) (\<lambda>_.
     bindE getE (\<lambda>m.
     bindE (forE (da_child_datas (data_at m d)) (\<lambda>c.
       bindE getE (\<lambda>m'. bindE (sv c (da_value (data_at m' d))) (\<lambda>_. returnE ())))) (\<lambda>_.
     whenE changed (bindE getE (\<lambda>m'. forE (da_slots (data_at m' d)) (run_slot qt sv))))))"

text \<open>\<open>_setData\<close>, which is also what \<open>forceValue\<close> does.\<close>

definition Data_setData :: "Qt \<Rightarrow> set_value \<Rightarrow> nat \<Rightarrow> QVariant \<Rightarrow> (MModel, bool) em" where
  "Data_setData qt sv d new_value =
     bindE getE (\<lambda>m.
     let data_changed = (\<not> qt_eq qt new_value (da_value (data_at m d))) in
     bindE (modifyE (upd_data d (\<lambda>x. x\<lparr>da_value := new_value\<rparr>))) (\<lambda>_.
     bindE (Data_updateChildren qt sv d data_changed) (\<lambda>_.
     returnE data_changed)))"

section \<open>Keys\<close>

definition key_type :: "MModel \<Rightarrow> string \<Rightarrow> QType" where
  "key_type m k = (case map_of (md_keys m) k of Some key \<Rightarrow> ky_type key | None \<Rightarrow> QT_String)"

definition data_owner_id :: "MModel \<Rightarrow> nat \<Rightarrow> int" where
  "data_owner_id m d = (case da_parent (data_at m d) of Some e \<Rightarrow> me_id (entity_at m e) | None \<Rightarrow> -1)"

text \<open>The node that the data is attached to, and the parent of that node.\<close>

definition data_node :: "MModel \<Rightarrow> nat \<Rightarrow> nat option" where
  "data_node m d = (case da_parent (data_at m d) of Some e \<Rightarrow> if isNode m e then Some e else None | None \<Rightarrow> None)"

definition data_node_parent :: "MModel \<Rightarrow> nat \<Rightarrow> (nat \<times> nat) option" where
  "data_node_parent m d =
     (case data_node m d of
        Some n \<Rightarrow> (case mn_parent_node (node_at m n) of Some p \<Rightarrow> Some (n, p) | None \<Rightarrow> None)
      | None \<Rightarrow> None)"

definition Key_validateDataChange :: "Qt \<Rightarrow> nat \<Rightarrow> QVariant \<Rightarrow> (MModel, QVariant) em" where
  "Key_validateDataChange qt d new_value =
     bindE getE (\<lambda>m.
     let t = key_type m (da_key (data_at m d)); valid_values = da_valid_values (data_at m d) in
     if \<not> qt_canConvert qt new_value t \<and> isValid new_value
     then bindE (modifyE (emit_signal (Sig_validation_failed (data_owner_id m d) ''Value cannot be converted to Key's type.''))) (\<lambda>_.
       returnE (da_value (data_at m d)))
     else
       let converted = (if qt_canConvert qt new_value t then qt_convert qt new_value t else QNull t) in
       if valid_values \<noteq> [] \<and> \<not> list_ex (\<lambda>v. qt_eq qt v converted) valid_values
       then bindE (modifyE (emit_signal (Sig_validation_failed (data_owner_id m d) ''Value not in list of valid values.''))) (\<lambda>_.
         returnE (hd valid_values))
       else returnE converted)"

text \<open>Labels: blanks become underscores, and a label that a sibling has already gets the first free
  number at its end.\<close>

definition LabelKey_ValidateSystemLabel :: "Qt \<Rightarrow> QVariant \<Rightarrow> string \<Rightarrow> string" where
  "LabelKey_ValidateSystemLabel qt old_value label =
     (let new_label = (if label = [] then qt_toString qt old_value else label) in
      map (\<lambda>c. if c = CHR 0x09 \<or> c = CHR '' '' then CHR ''_'' else c) new_label)"

definition label_regex :: "string \<Rightarrow> string" where
  "label_regex new_label = ''^'' @ new_label @ ''_([0-9]+)?$''"

definition captured :: "string list \<Rightarrow> nat \<Rightarrow> string" where
  "captured groups i = (if 0 < i \<and> i \<le> length groups then groups ! (i - 1) else '''')"

fun matched_numbers :: "Qt \<Rightarrow> string \<Rightarrow> string list \<Rightarrow> int list" where
  "matched_numbers qt new_label [] = []"
| "matched_numbers qt new_label (sibling_label # rest) =
     (if sibling_label = new_label then matched_numbers qt new_label rest
      else case qt_match qt (label_regex new_label) sibling_label of
             None \<Rightarrow> matched_numbers qt new_label rest
           | Some groups \<Rightarrow> qt_toInt qt (QString (captured groups 1)) # matched_numbers qt new_label rest)"

definition free_number :: "int list \<Rightarrow> int" where
  "free_number numbers =
     (case find (\<lambda>i. i \<notin> set numbers) (map (\<lambda>i. int i + 1) [0..<length numbers]) of
        Some i \<Rightarrow> i
      | None \<Rightarrow> int (length numbers) + 1)"

definition unique_label :: "Qt \<Rightarrow> string \<Rightarrow> string list \<Rightarrow> string" where
  "unique_label qt new_label sibling_labels =
     (if new_label \<in> set sibling_labels
      then new_label @ ''_'' @ to_string (free_number (matched_numbers qt new_label sibling_labels))
      else new_label)"

definition LabelKey_validateDataChange :: "Qt \<Rightarrow> nat \<Rightarrow> QVariant \<Rightarrow> (MModel, QVariant) em" where
  "LabelKey_validateDataChange qt d data_value =
     bindE getE (\<lambda>m.
     let old_value = da_value (data_at m d);
         wanted = qt_toString qt data_value;
         new_label = (if wanted = [] then qt_toString qt old_value else wanted) in
     case data_node m d of
       Some n \<Rightarrow>
         if me_label_functional (entity_at m n)
         then returnE (QString (unique_label qt (LabelKey_ValidateSystemLabel qt old_value new_label)
                (map (\<lambda>s. qt_toString qt (getDataValue m s ''label'')) (getSiblings qt m n))))
         else bindE (Key_validateDataChange qt d (QString new_label)) (\<lambda>v. returnE (QString (qt_toString qt v)))
     | None \<Rightarrow> bindE (Key_validateDataChange qt d (QString new_label)) (\<lambda>v. returnE (QString (qt_toString qt v))))"

text \<open>Indices: the node is moved to the wanted place among its siblings, the siblings are ordered by
  row, column and that place, and all get their position as index.\<close>

definition clamp_index :: "int \<Rightarrow> int \<Rightarrow> int" where
  "clamp_index max_index wanted =
     (let i = (if wanted < -1 then 0 else wanted) in if i = -1 \<or> i > max_index then max_index else i)"

definition place_node :: "nat \<Rightarrow> int \<Rightarrow> nat list \<Rightarrow> nat list" where
  "place_node n new_index siblings =
     (let others = removeAll n siblings in take (nat new_index) others @ [n] @ drop (nat new_index) others)"

definition order_by_cell :: "Qt \<Rightarrow> MModel \<Rightarrow> nat list \<Rightarrow> nat list" where
  "order_by_cell qt m =
     sort_key (\<lambda>s. [qt_toInt qt (getDataValue m s ''row''), qt_toInt qt (getDataValue m s ''column'')])"

fun reset_indices :: "Qt \<Rightarrow> set_value \<Rightarrow> nat \<Rightarrow> int \<Rightarrow> nat list \<Rightarrow> int \<Rightarrow> (MModel, int) em" where
  "reset_indices qt sv n i [] new_index = returnE new_index"
| "reset_indices qt sv n i (s # rest) new_index =
     bindE getE (\<lambda>m.
     case Entity_getData m s ''index'' of
       None \<Rightarrow> reset_indices qt sv n (i + 1) rest new_index
     | Some sd \<Rightarrow>
         if s = n then reset_indices qt sv n (i + 1) rest i
         else if qt_toInt qt (da_value (data_at m sd)) \<noteq> i
         then bindE (Data_setData qt sv sd (QInt i)) (\<lambda>_. reset_indices qt sv n (i + 1) rest new_index)
         else reset_indices qt sv n (i + 1) rest new_index)"

definition IndexKey_validateDataChange :: "Qt \<Rightarrow> set_value \<Rightarrow> nat \<Rightarrow> QVariant \<Rightarrow> (MModel, QVariant) em" where
  "IndexKey_validateDataChange qt sv d data_value =
     bindE getE (\<lambda>m.
     let wanted = qt_toInt qt data_value in
     case data_node_parent m d of
       None \<Rightarrow> returnE (QInt wanted)
     | Some (n, p) \<Rightarrow>
         let siblings = getOrderedChildNodes qt m p; new_index = clamp_index (int (length siblings)) wanted in
         bindE (reset_indices qt sv n 0 (order_by_cell qt m (place_node n new_index siblings)) new_index)
           (\<lambda>i. returnE (QInt i)))"

text \<open>The remaining keys.\<close>

definition RowKey_validateDataChange :: "Qt \<Rightarrow> nat \<Rightarrow> QVariant \<Rightarrow> (MModel, QVariant) em" where
  "RowKey_validateDataChange qt d data_value =
     bindE getE (\<lambda>m.
     let new_row = qt_toInt qt data_value in
     case data_node_parent m d of
       None \<Rightarrow> returnE (QInt new_row)
     | Some _ \<Rightarrow> returnE (QInt (if new_row < 0 then 0 else new_row)))"

definition ColumnKey_validateDataChange :: "Qt \<Rightarrow> QVariant \<Rightarrow> QVariant" where
  "ColumnKey_validateDataChange qt data_value = QInt (qt_toInt qt data_value)"

definition ReplicateCountKey_validateDataChange :: "Qt \<Rightarrow> QVariant \<Rightarrow> QVariant" where
  "ReplicateCountKey_validateDataChange qt data_value =
     (let new_index = qt_toInt qt data_value in QInt (if new_index < 1 then 1 else new_index))"

definition FrequencyKey_validateDataChange :: "Qt \<Rightarrow> QVariant \<Rightarrow> QVariant \<Rightarrow> QVariant" where
  "FrequencyKey_validateDataChange qt old_value data_value =
     (let new_freq = qt_toDouble qt data_value in
      QDouble (if new_freq \<le> 0 then qt_toDouble qt old_value else new_freq))"

definition CombineNamespaces :: "string \<Rightarrow> string \<Rightarrow> string" where
  "CombineNamespaces namespace_1 namespace_2 = (if namespace_1 \<noteq> [] then namespace_1 @ ''::'' else namespace_1) @ namespace_2"

definition NamespaceKey_validateDataChange :: "Qt \<Rightarrow> nat \<Rightarrow> QVariant \<Rightarrow> (MModel, QVariant) em" where
  "NamespaceKey_validateDataChange qt d data_value =
     bindE getE (\<lambda>m.
     case data_node_parent m d of
       None \<Rightarrow> returnE (QString (qt_toString qt data_value))
     | Some (n, p) \<Rightarrow>
         let parent_namespace_value = (case Entity_getData_of_key m p (Some ''namespace'') of
               Some pd \<Rightarrow> qt_toString qt (da_value (data_at m pd)) | None \<Rightarrow> '''') in
         if mn_node_kind (node_at m n) = ''NAMESPACE''
         then (case Entity_getData m n ''label'' of
                 Some ld \<Rightarrow> returnE (QString (CombineNamespaces parent_namespace_value (qt_toString qt (da_value (data_at m ld)))))
               | None \<Rightarrow> throwE (Undefined ''null data''))
         else returnE (QString (if mn_node_kind (node_at m p) = ''NAMESPACE'' then parent_namespace_value else '''')))"

definition combine_namespace_kinds :: "NODE_KIND list" where
  "combine_namespace_kinds = [''AGGREGATE'', ''COMPONENT'', ''ENUM'', ''CLASS'', ''SERVER_INTERFACE'']"

definition string_or_empty :: "Qt \<Rightarrow> MModel \<Rightarrow> nat option \<Rightarrow> string" where
  "string_or_empty qt m d =
     (case d of
        Some x \<Rightarrow> (let v = da_value (data_at m x) in if \<not> isNull v \<and> isValid v then qt_toString qt v else '''')
      | None \<Rightarrow> '''')"

definition TypeKey_type :: "Qt \<Rightarrow> MModel \<Rightarrow> nat \<Rightarrow> string \<Rightarrow> string" where
  "TypeKey_type qt m e wanted =
     (if (if isNode m e then mn_node_kind (node_at m e) else ''NONE'') \<in> set combine_namespace_kinds
      then CombineNamespaces (string_or_empty qt m (Entity_getData m e ''namespace'')) (string_or_empty qt m (Entity_getData m e ''label''))
      else case (Entity_getData m e ''inner_type'', Entity_getData m e ''outer_type'') of
             (Some i, Some out) \<Rightarrow>
               (let inner_type = qt_toString qt (da_value (data_at m i)); outer_type = qt_toString qt (da_value (data_at m out)) in
                if outer_type \<noteq> [] then outer_type @ ''<'' @ inner_type @ ''>''
                else inner_type)
           | _ \<Rightarrow> wanted)"

definition TypeKey_validateDataChange :: "Qt \<Rightarrow> nat \<Rightarrow> QVariant \<Rightarrow> (MModel, QVariant) em" where
  "TypeKey_validateDataChange qt d data_value =
     bindE getE (\<lambda>m.
     case da_parent (data_at m d) of
       None \<Rightarrow> returnE (QString (qt_toString qt data_value))
     | Some e \<Rightarrow> Key_validateDataChange qt d (QString (TypeKey_type qt m e (qt_toString qt data_value))))"

definition version_regex :: string where
  "version_regex = (let digits = ''('' @ [CHR 0x5C] @ ''d+)''; dot = [CHR 0x5C, CHR ''.''] in
     ''^'' @ digits @ dot @ digits @ dot @ digits @ ''(-.+)?$'')"

definition IsVersionValid :: "Qt \<Rightarrow> string \<Rightarrow> bool" where
  "IsVersionValid qt version \<longleftrightarrow> qt_match qt version_regex version \<noteq> None"

definition VersionKey_validateDataChange :: "Qt \<Rightarrow> nat \<Rightarrow> QVariant \<Rightarrow> (MModel, QVariant) em" where
  "VersionKey_validateDataChange qt d data_value =
     (let value = qt_toString qt data_value in
      Key_validateDataChange qt d (QString (if IsVersionValid qt value then value else ''0.0.0'')))"

definition getMD5UUID :: "Qt \<Rightarrow> string \<Rightarrow> string" where
  "getMD5UUID qt s =
     (let hex = qt_md5_hex qt s in
      ''{'' @ take 8 hex @ ''-'' @ take 4 (drop 8 hex) @ ''-'' @ take 4 (drop 12 hex) @ ''-'' @ take 4 (drop 16 hex) @ ''-'' @
      drop 20 hex @ ''}'')"

definition null_uuid :: string where
  "null_uuid = ''{00000000-0000-0000-0000-000000000000}''"

definition ExportIDKey_validateDataChange :: "Qt \<Rightarrow> QVariant \<Rightarrow> (MModel, QVariant) em" where
  "ExportIDKey_validateDataChange qt data_value =
     (let s = qt_toString qt data_value in
      case qt_uuid qt s of
        Some uuid \<Rightarrow> returnE (QString uuid)
      | None \<Rightarrow>
          if s \<noteq> [] then returnE (QString (case qt_uuid qt (getMD5UUID qt s) of Some uuid \<Rightarrow> uuid | None \<Rightarrow> null_uuid))
          else bindE getE (\<lambda>m. bindE (modifyE (\<lambda>m. m\<lparr>md_uuids := md_uuids m + 1\<rparr>)) (\<lambda>_.
            returnE (QString (qt_createUuid qt (md_uuids m))))))"

text \<open>The notifier of \<open>ExportIDKey\<close> is \<open>EntityFactory::EntitiesUUIDChanged\<close>.\<close>

definition EntitiesUUIDChanged :: "nat option \<Rightarrow> string \<Rightarrow> string \<Rightarrow> MModel \<Rightarrow> MModel" where
  "EntitiesUUIDChanged entity old_uuid new_uuid m =
     (case entity of
        None \<Rightarrow> m
      | Some e \<Rightarrow>
          let erased = umap_erase old_uuid (md_uuid_lookup m); id = me_id (entity_at m e) in
          m\<lparr>md_uuid_lookup := (if id > 0 then umap_emplace new_uuid id erased else erased)\<rparr>)"

section \<open>Setting a value\<close>

text \<open>The class of a key follows from its name (\<open>EntityFactory::GetKey\<close>).\<close>

definition validateDataChange :: "Qt \<Rightarrow> set_value \<Rightarrow> nat \<Rightarrow> QVariant \<Rightarrow> (MModel, QVariant) em" where
  "validateDataChange qt sv d v =
     bindE getE (\<lambda>m.
     let key = da_key (data_at m d) in
     if key = ''label'' then LabelKey_validateDataChange qt d v
     else if key = ''index'' then IndexKey_validateDataChange qt sv d v
     else if key = ''row'' then RowKey_validateDataChange qt d v
     else if key = ''column'' then returnE (ColumnKey_validateDataChange qt v)
     else if key = ''uuid'' then ExportIDKey_validateDataChange qt v
     else if key = ''replicate_count'' then returnE (ReplicateCountKey_validateDataChange qt v)
     else if key = ''frequency'' then returnE (FrequencyKey_validateDataChange qt (da_value (data_at m d)) v)
     else if key = ''type'' then TypeKey_validateDataChange qt d v
     else if key = ''namespace'' then NamespaceKey_validateDataChange qt d v
     else if key = ''operation'' then returnE (QString (LabelKey_ValidateSystemLabel qt (da_value (data_at m d)) (qt_toString qt v)))
     else if key = ''version'' then VersionKey_validateDataChange qt d v
     else Key_validateDataChange qt d v)"

definition Key_setData :: "Qt \<Rightarrow> set_value \<Rightarrow> nat \<Rightarrow> QVariant \<Rightarrow> (MModel, bool) em" where
  "Key_setData qt sv d v = bindE (validateDataChange qt sv d v) (\<lambda>valid_value. Data_setData qt sv d valid_value)"

text \<open>\<open>RowKey\<close> and \<open>ColumnKey\<close> move the node to the end of its cell, \<open>InnerTypeKey\<close> and \<open>OuterTypeKey\<close>
  let the type be computed again, \<open>ExportIDKey\<close> tells the factory.\<close>

definition touch_index :: "set_value \<Rightarrow> nat \<Rightarrow> (MModel, unit) em" where
  "touch_index sv d =
     bindE getE (\<lambda>m.
     case data_node m d of
       None \<Rightarrow> returnE ()
     | Some n \<Rightarrow>
         (case Entity_getData m n ''index'' of
            None \<Rightarrow> returnE ()
          | Some i \<Rightarrow> bindE (sv i (QInt (-1))) (\<lambda>_. returnE ())))"

definition touch_type :: "set_value \<Rightarrow> nat \<Rightarrow> (MModel, unit) em" where
  "touch_type sv d =
     bindE getE (\<lambda>m.
     case data_node m d of
       None \<Rightarrow> returnE ()
     | Some n \<Rightarrow>
         (case Entity_getData m n ''type'' of
            None \<Rightarrow> returnE ()
          | Some t \<Rightarrow> bindE (sv t (da_value (data_at m t))) (\<lambda>_. returnE ())))"

definition virtual_setData :: "Qt \<Rightarrow> set_value \<Rightarrow> nat \<Rightarrow> QVariant \<Rightarrow> (MModel, bool) em" where
  "virtual_setData qt sv d v =
     bindE getE (\<lambda>m.
     let key = da_key (data_at m d) in
     bindE (Key_setData qt sv d v) (\<lambda>data_changed.
     bindE
       (if key \<in> {''row'', ''column''} then touch_index sv d
        else if key \<in> {''inner_type'', ''outer_type''} then touch_type sv d
        else if key = ''uuid''
        then modifyE (\<lambda>m'. EntitiesUUIDChanged (da_parent (data_at m' d)) (qt_toString qt (da_value (data_at m d)))
               (qt_toString qt (da_value (data_at m' d))) m')
        else returnE ()) (\<lambda>_.
     returnE data_changed)))"

primrec setValue :: "Qt \<Rightarrow> nat \<Rightarrow> set_value" where
  "setValue qt 0 = (\<lambda>d v. throwE stack_overflow)"
| "setValue qt (Suc stack) = virtual_setData qt (setValue qt stack)"

definition revalidateData :: "Qt \<Rightarrow> nat \<Rightarrow> nat \<Rightarrow> (MModel, bool) em" where
  "revalidateData qt stack d = bindE getE (\<lambda>m. setValue qt stack d (da_value (data_at m d)))"

section \<open>Links\<close>

definition Data_addParentData :: "Qt \<Rightarrow> nat \<Rightarrow> nat \<Rightarrow> nat \<Rightarrow> (MModel, unit) em" where
  "Data_addParentData qt stack d p =
     bindE getE (\<lambda>m.
     if p \<in> set (da_parent_datas (data_at m d)) then returnE ()
     else
       let was_protected = Data_isProtected (data_at m d); new_value = da_value (data_at m p) in
       bindE (modifyE (upd_data d (\<lambda>x. x\<lparr>da_parent_datas := List.insert p (da_parent_datas x)\<rparr>))) (\<lambda>_.
       if \<not> qt_eq qt new_value (da_value (data_at m d))
       then bindE (setValue qt stack d new_value) (\<lambda>_. returnE ())
       else whenE (\<not> was_protected) (modifyE (notify_parent d))))"

definition Data_removeParentData :: "Qt \<Rightarrow> nat \<Rightarrow> nat \<Rightarrow> nat \<Rightarrow> (MModel, unit) em" where
  "Data_removeParentData qt stack d p =
     bindE getE (\<lambda>m.
     whenE (p \<in> set (da_parent_datas (data_at m d)))
       (bindE (modifyE (upd_data d (\<lambda>x. x\<lparr>da_parent_datas := removeAll p (da_parent_datas x)\<rparr>))) (\<lambda>_.
        bindE (setValue qt stack d (QString [])) (\<lambda>_.
        modifyE (notify_parent d)))))"

definition Data_linkData :: "Qt \<Rightarrow> nat \<Rightarrow> nat \<Rightarrow> nat \<Rightarrow> (MModel, bool) em" where
  "Data_linkData qt stack d c =
     bindE getE (\<lambda>m.
     if c \<in> set (da_child_datas (data_at m d)) then returnE False
     else bindE (modifyE (upd_data d (\<lambda>x. x\<lparr>da_child_datas := List.insert c (da_child_datas x)\<rparr>))) (\<lambda>_.
       bindE (Data_addParentData qt stack c d) (\<lambda>_. returnE True)))"

definition Data_unlinkData :: "Qt \<Rightarrow> nat \<Rightarrow> nat \<Rightarrow> nat \<Rightarrow> (MModel, bool) em" where
  "Data_unlinkData qt stack d c =
     bindE getE (\<lambda>m.
     if c \<in> set (da_child_datas (data_at m d))
     then bindE (modifyE (upd_data d (\<lambda>x. x\<lparr>da_child_datas := removeAll c (da_child_datas x)\<rparr>))) (\<lambda>_.
       bindE (Data_removeParentData qt stack c d) (\<lambda>_. returnE True))
     else returnE False)"

definition LinkData :: "Qt \<Rightarrow> nat \<Rightarrow> nat \<Rightarrow> string \<Rightarrow> nat \<Rightarrow> string \<Rightarrow> bool \<Rightarrow> (MModel, bool) em" where
  "LinkData qt stack source source_key destination destination_key setup =
     bindE getE (\<lambda>m.
     case (Entity_getData m source source_key, Entity_getData m destination destination_key) of
       (Some s, Some d) \<Rightarrow> if setup then Data_linkData qt stack s d else Data_unlinkData qt stack s d
     | _ \<Rightarrow> returnE False)"

section \<open>The data of an entity\<close>

definition Data_addValidValue :: "Qt \<Rightarrow> nat \<Rightarrow> QVariant \<Rightarrow> MModel \<Rightarrow> MModel" where
  "Data_addValidValue qt d v = upd_data d (\<lambda>x.
     if list_ex (\<lambda>w. qt_eq qt w v) (da_valid_values x) then x else x\<lparr>da_valid_values := da_valid_values x @ [v]\<rparr>)"

definition Data_addValidValues :: "Qt \<Rightarrow> nat \<Rightarrow> nat \<Rightarrow> QVariant list \<Rightarrow> (MModel, bool) em" where
  "Data_addValidValues qt stack d values =
     bindE (forE values (\<lambda>v. modifyE (Data_addValidValue qt d v))) (\<lambda>_. revalidateData qt stack d)"

definition Entity_dataRemoved :: "nat \<Rightarrow> nat \<Rightarrow> MModel \<Rightarrow> MModel" where
  "Entity_dataRemoved e d m =
     (let key_name = da_key (data_at m d) in
      emit_signal (Sig_dataRemoved (me_id (entity_at m e)) key_name)
        (upd_entity e (\<lambda>x. x\<lparr>me_key_lookup := removeAll key_name (me_key_lookup x)\<rparr>) m))"

definition Data_registerParent :: "Qt \<Rightarrow> nat \<Rightarrow> nat \<Rightarrow> nat \<Rightarrow> (MModel, unit) em" where
  "Data_registerParent qt stack d e =
     bindE (modifyE (\<lambda>m. case da_parent (data_at m d) of Some e0 \<Rightarrow> Entity_dataRemoved e0 d m | None \<Rightarrow> m)) (\<lambda>_.
     bindE (modifyE (upd_data d (\<lambda>x. x\<lparr>da_parent := Some e\<rparr>))) (\<lambda>_.
     bindE (revalidateData qt stack d) (\<lambda>_.
     Data_updateChildren qt (setValue qt stack) d True)))"

definition Entity_addData :: "Qt \<Rightarrow> nat \<Rightarrow> nat \<Rightarrow> nat \<Rightarrow> (MModel, bool) em" where
  "Entity_addData qt stack e d =
     bindE getE (\<lambda>m.
     let key = da_key (data_at m d) in
     if Entity_getData_of_key m e (Some key) \<noteq> None then returnE False
     else if da_parent (data_at m d) \<noteq> None then returnE False
     else
       bindE (modifyE (upd_entity e (\<lambda>x. x\<lparr>me_key_lookup := List.insert key (me_key_lookup x),
                me_data_map := umap_emplace key d (me_data_map x)\<rparr>))) (\<lambda>_.
       bindE (Data_registerParent qt stack d e) (\<lambda>_. returnE True)))"

definition Entity_removeData :: "nat \<Rightarrow> nat \<Rightarrow> MModel \<Rightarrow> MModel" where
  "Entity_removeData e d m =
     (let key = da_key (data_at m d) in
      emit_signal (Sig_dataRemoved (me_id (entity_at m e)) key)
        (upd_data d (\<lambda>x. x\<lparr>da_parent := None\<rparr>)
          (upd_entity e (\<lambda>x. x\<lparr>me_data_map := umap_erase key (me_data_map x), me_key_lookup := removeAll key (me_key_lookup x)\<rparr>) m)))"

text \<open>The constructor of \<open>Data\<close>, at a fresh address.\<close>

definition Data_ctor :: "Qt \<Rightarrow> nat \<Rightarrow> string \<Rightarrow> QVariant \<Rightarrow> (MModel, nat) em" where
  "Data_ctor qt stack key value =
     bindE getE (\<lambda>m.
     let d = md_next m; protect = (case map_of (md_keys m) key of Some k \<Rightarrow> ky_protected k | None \<Rightarrow> False) in
     bindE (modifyE (\<lambda>m. m\<lparr>md_next := d + 1, md_datas := (md_datas m)(d \<mapsto> MData_blank\<lparr>da_key := key, da_protected := protect\<rparr>)\<rparr>)) (\<lambda>_.
     bindE (whenE (isValid value) (bindE (setValue qt stack d value) (\<lambda>_. returnE ()))) (\<lambda>_.
     returnE d)))"

definition AttachData :: "Qt \<Rightarrow> nat \<Rightarrow> nat \<Rightarrow> string \<Rightarrow> ProtectedState \<Rightarrow> QVariant \<Rightarrow> (MModel, nat) em" where
  "AttachData qt stack e key protected_state value =
     bindE getE (\<lambda>m.
     bindE (case Entity_getData_of_key m e (Some key) of
              Some d \<Rightarrow> returnE d
            | None \<Rightarrow> bindE (Data_ctor qt stack key value) (\<lambda>d. bindE (Entity_addData qt stack e d) (\<lambda>_. returnE d))) (\<lambda>d.
     bindE (whenE (isValid value) (bindE (setValue qt stack d value) (\<lambda>_. returnE ()))) (\<lambda>_.
     bindE (modifyE (case protected_state of
              PS_PROTECTED \<Rightarrow> Data_setProtected d True
            | PS_UNPROTECTED \<Rightarrow> Data_setProtected d False
            | PS_IGNORED \<Rightarrow> (\<lambda>m. m))) (\<lambda>_.
     returnE d))))"

definition setDataValue :: "Qt \<Rightarrow> nat \<Rightarrow> nat \<Rightarrow> string \<Rightarrow> QVariant \<Rightarrow> (MModel, bool) em" where
  "setDataValue qt stack e key_name value =
     bindE getE (\<lambda>m. case Entity_getData m e key_name of Some d \<Rightarrow> setValue qt stack d value | None \<Rightarrow> returnE False)"

definition Entity_revalidateData :: "Qt \<Rightarrow> nat \<Rightarrow> nat \<Rightarrow> (MModel, unit) em" where
  "Entity_revalidateData qt stack e =
     bindE getE (\<lambda>m. forE (map snd (me_data_map (entity_at m e))) (\<lambda>d. bindE (revalidateData qt stack d) (\<lambda>_. returnE ())))"

definition setLabelFunctional :: "Qt \<Rightarrow> nat \<Rightarrow> nat \<Rightarrow> bool \<Rightarrow> (MModel, unit) em" where
  "setLabelFunctional qt stack e functional =
     bindE getE (\<lambda>m.
     whenE (me_label_functional (entity_at m e) \<noteq> functional)
       (bindE (modifyE (upd_entity e (\<lambda>x. x\<lparr>me_label_functional := functional\<rparr>))) (\<lambda>_. Entity_revalidateData qt stack e)))"

text \<open>The destructor takes the data out of its entity and cuts its links; what the data fed is set to the
  empty string.\<close>

definition Data_dtor :: "Qt \<Rightarrow> nat \<Rightarrow> nat \<Rightarrow> (MModel, unit) em" where
  "Data_dtor qt stack d =
     bindE (modifyE (\<lambda>m. case da_parent (data_at m d) of Some e \<Rightarrow> Entity_removeData e d m | None \<Rightarrow> m)) (\<lambda>_.
     bindE getE (\<lambda>m.
     bindE (forE (da_parent_datas (data_at m d)) (\<lambda>p. bindE (Data_unlinkData qt stack p d) (\<lambda>_. returnE ()))) (\<lambda>_.
     bindE (forE (da_child_datas (data_at m d)) (\<lambda>c. bindE (Data_unlinkData qt stack d c) (\<lambda>_. returnE ()))) (\<lambda>_.
     modifyE (\<lambda>m. m\<lparr>md_datas := (md_datas m)(d := None)\<rparr>)))))"

end
