(* ===== verification/MDLinks.thy ===== *)
theory MDLinks
  imports MDData "HOL-Library.Multiset"
begin

text \<open>
  What setting a value does to the other values: it leaves the structure alone, it ends exactly when the
  links allow it, it carries the value along the links, labels stay unique among siblings and indices
  stay a numbering.
\<close>

section \<open>The structure stays\<close>

text \<open>A model without its values, signals and UUIDs.\<close>

definition data_shape ::
  "MModel \<Rightarrow> (string, MKey) umap \<times> (nat \<Rightarrow> MEntity option) \<times> (nat \<Rightarrow> MNode option) \<times> (nat \<Rightarrow> MEdge option) \<times> nat \<times> (nat \<Rightarrow> MData option)" where
  "data_shape m = (md_keys m, md_entities m, md_nodes m, md_edges m, md_next m,
     \<lambda>d. map_option (\<lambda>x. x\<lparr>da_value := QInvalid\<rparr>) (md_datas m d))"

lemma data_shape_updates [simp]:
  "data_shape (emit_signal s m) = data_shape m" "data_shape (notify_parent d m) = data_shape m"
  "data_shape (m\<lparr>md_uuids := u\<rparr>) = data_shape m" "data_shape (EntitiesUUIDChanged e a b m) = data_shape m"
  "data_shape (upd_data d (\<lambda>x. x\<lparr>da_value := v\<rparr>) m) = data_shape m"
  by (auto simp: data_shape_def emit_signal_def notify_parent_def Entity_dataChanged_def EntitiesUUIDChanged_def upd_data_def
      Let_def option.map_comp o_def option.map_id split: option.split intro!: ext)

lemma shape_Data_setData:
  assumes "\<And>c w. preserves (\<lambda>m. data_shape m = S) (sv c w)"
  shows "preserves (\<lambda>m. data_shape m = S) (Data_setData qt sv d v)"
  unfolding Data_setData_def Data_updateChildren_def run_slot_def Let_def
  by (intro pres assms preserves_modifyE) simp_all

lemma shape_reset_indices:
  assumes "\<And>c w. preserves (\<lambda>m. data_shape m = S) (sv c w)"
  shows "preserves (\<lambda>m. data_shape m = S) (reset_indices qt sv n i ss k)"
  by (induction ss arbitrary: i k)
    (auto intro!: pres shape_Data_setData assms)

lemma shape_validateDataChange:
  assumes "\<And>c w. preserves (\<lambda>m. data_shape m = S) (sv c w)"
  shows "preserves (\<lambda>m. data_shape m = S) (validateDataChange qt sv d v)"
  unfolding validateDataChange_def LabelKey_validateDataChange_def IndexKey_validateDataChange_def RowKey_validateDataChange_def
    ExportIDKey_validateDataChange_def TypeKey_validateDataChange_def NamespaceKey_validateDataChange_def
    VersionKey_validateDataChange_def Key_validateDataChange_def Let_def
  by (intro pres preserves_modifyE shape_reset_indices assms; simp)

lemma shape_setValue: "preserves (\<lambda>m. data_shape m = S) (setValue qt stack d v)"
proof (induction stack arbitrary: d v)
  case 0
  show ?case by (simp add: pres)
next
  case (Suc stack)
  have k: "preserves (\<lambda>m. data_shape m = S) (Key_setData qt (setValue qt stack) d v)"
    unfolding Key_setData_def by (intro pres shape_validateDataChange shape_Data_setData Suc)
  show ?case
    unfolding setValue.simps virtual_setData_def Let_def touch_index_def touch_type_def
    by (intro pres k preserves_modifyE Suc) simp_all
qed

lemma shape_at:
  assumes "data_shape m = data_shape m0"
  shows "da_child_datas (data_at m d) = da_child_datas (data_at m0 d)" "da_key (data_at m d) = da_key (data_at m0 d)"
    "da_parent (data_at m d) = da_parent (data_at m0 d)" "da_valid_values (data_at m d) = da_valid_values (data_at m0 d)"
    "da_parent_datas (data_at m d) = da_parent_datas (data_at m0 d)" "da_slots (data_at m d) = da_slots (data_at m0 d)" "(md_datas m d = None) = (md_datas m0 d = None)"
    "entity_at m = entity_at m0" "node_at m = node_at m0" "md_keys m = md_keys m0"
    "Entity_getData m = Entity_getData m0" "data_node m d = data_node m0 d" "isNode m = isNode m0"
    "Entity_getData_of_key m = Entity_getData_of_key m0" "Entity_getKey m = Entity_getKey m0"
proof -
  have d: "map_option (\<lambda>x. x\<lparr>da_value := QInvalid\<rparr>) (md_datas m d) = map_option (\<lambda>x. x\<lparr>da_value := QInvalid\<rparr>) (md_datas m0 d)"
    using assms by (auto simp: data_shape_def dest: fun_cong [of _ _ d])
  then show "(md_datas m d = None) = (md_datas m0 d = None)" by (cases "md_datas m d"; cases "md_datas m0 d") auto
  have x: "(data_at m d)\<lparr>da_value := QInvalid\<rparr> = (data_at m0 d)\<lparr>da_value := QInvalid\<rparr>"
    using d unfolding data_at_def by (cases "md_datas m d"; cases "md_datas m0 d") auto
  from arg_cong [OF x, of da_child_datas] show "da_child_datas (data_at m d) = da_child_datas (data_at m0 d)" by simp
  from arg_cong [OF x, of da_key] show "da_key (data_at m d) = da_key (data_at m0 d)" by simp
  from arg_cong [OF x, of da_parent] show p: "da_parent (data_at m d) = da_parent (data_at m0 d)" by simp
  from arg_cong [OF x, of da_valid_values] show "da_valid_values (data_at m d) = da_valid_values (data_at m0 d)" by simp
  from arg_cong [OF x, of da_parent_datas] show "da_parent_datas (data_at m d) = da_parent_datas (data_at m0 d)" by simp
  from arg_cong [OF x, of da_slots] show "da_slots (data_at m d) = da_slots (data_at m0 d)" by simp
  show e: "entity_at m = entity_at m0" "node_at m = node_at m0" "md_keys m = md_keys m0"
    using assms by (auto simp: data_shape_def entity_at_def node_at_def intro!: ext)
  show g: "Entity_getData_of_key m = Entity_getData_of_key m0" "Entity_getKey m = Entity_getKey m0"
    unfolding Entity_getData_of_key_def Entity_getKey_def e by (rule refl)+
  show "Entity_getData m = Entity_getData m0" "isNode m = isNode m0"
    unfolding Entity_getData_def isNode_def e g by (rule refl)+
  then show "data_node m d = data_node m0 d" by (simp add: data_node_def p cong: option.case_cong)
qed

lemma shape_facts:
  assumes "data_shape m = data_shape m0"
  shows "c \<in> set (da_child_datas (data_at m d)) \<Longrightarrow> c \<in> set (da_child_datas (data_at m0 d))"
    "Entity_getData m e k = Some x \<Longrightarrow> Entity_getData m0 e k = Some x"
    "data_node m d = Some n \<Longrightarrow> data_node m0 d = Some n"
    "data_node_parent m d = Some np \<Longrightarrow> data_node_parent m0 d = Some np"
    "da_key (data_at m d) = key \<Longrightarrow> da_key (data_at m0 d) = key"
  using shape_at [OF assms] by (auto simp: data_node_parent_def cong: option.case_cong)

section \<open>Cyclic links\<close>

lemma forE_fails:
  assumes "x \<in> set xs" and "\<And>s. I s \<Longrightarrow> isl (fst (f x s))" and "\<And>y. preserves I (f y)" and "I s"
  shows "isl (fst (forE xs f s))"
  using assms(1,4)
proof (induction xs arbitrary: s)
  case (Cons y ys)
  obtain r s' where r: "f y s = (r, s')" by (cases "f y s")
  have "I s'" using preservesD [OF assms(3) Cons.prems(2) r] .
  then show ?case
    using Cons assms(2) [OF Cons.prems(2)] r by (cases r) (auto simp: ev_rules)
qed simp

lemma bindE_fails:
  assumes "preserves I m" and "\<And>a s'. I s' \<Longrightarrow> isl (fst (f a s'))" and "I s"
  shows "isl (fst (bindE m f s))"
proof -
  obtain r s' where r: "m s = (r, s')" by (cases "m s")
  then show ?thesis using assms(2) [OF preservesD [OF assms(1,3) r]] by (cases r) (simp_all add: ev_rules)
qed

lemma bindE_fails_fst: "isl (fst (m s)) \<Longrightarrow> isl (fst (bindE m f s))"
  by (cases "m s"; cases "fst (m s)") (auto simp: ev_rules)

lemma setValue_cycle:
  assumes "\<And>d. d \<in> C \<Longrightarrow> \<exists>c \<in> C. c \<in> set (da_child_datas (data_at m0 d))"
    and "d \<in> C" and "data_shape m = data_shape m0"
  shows "isl (fst (setValue qt stack d v m))"
  using assms(2,3)
proof (induction stack arbitrary: d v m)
  case 0
  then show ?case by (simp add: run_throwE)
next
  case (Suc stack)
  let ?I = "\<lambda>m. data_shape m = data_shape m0"
  let ?sv = "setValue qt stack"
  obtain c where c: "c \<in> C" "c \<in> set (da_child_datas (data_at m0 d))" using assms(1) [OF Suc.prems(1)] by blast
  have p: "preserves ?I (bindE getE (\<lambda>m'. bindE (?sv y (da_value (data_at m' d))) (\<lambda>_. returnE ())))" for y
    by (intro pres shape_setValue)
  have "isl (fst (Data_updateChildren qt ?sv d b m1))" if "?I m1" for b m1
    unfolding Data_updateChildren_def
  proof (rule bindE_fails [where I = ?I, OF _ _ that])
    show "preserves ?I (whenE b (modifyE (notify_parent d)))" by (intro pres preserves_modifyE) simp
    fix a :: unit and m2 assume m2: "?I m2"
    have "isl (fst (forE (da_child_datas (data_at m2 d)) (\<lambda>c. bindE getE (\<lambda>m'. bindE (?sv c (da_value (data_at m' d))) (\<lambda>_. returnE ()))) m2))"
    proof (rule forE_fails [where I = ?I and x = c, OF _ _ p m2])
      show "c \<in> set (da_child_datas (data_at m2 d))" using c(2) shape_at(1) [OF m2] by simp
      fix m3 assume "?I m3"
      then have "isl (fst (?sv c (da_value (data_at m3 d)) m3))" by (rule Suc.IH [OF c(1)])
      then show "isl (fst (bindE getE (\<lambda>m'. bindE (?sv c (da_value (data_at m' d))) (\<lambda>_. returnE ())) m3))"
        by (simp add: run_bindE_Inr bindE_fails_fst)
    qed
    then show "isl (fst (bindE getE (\<lambda>m. bindE (forE (da_child_datas (data_at m d)) (\<lambda>c. bindE getE (\<lambda>m'. bindE (?sv c (da_value (data_at m' d))) (\<lambda>_. returnE ())))) (\<lambda>_.
        whenE b (bindE getE (\<lambda>m'. forE (da_slots (data_at m' d)) (run_slot qt ?sv))))) m2))"
      by (simp add: run_bindE_Inr bindE_fails_fst)
  qed
  then have s: "isl (fst (Data_setData qt ?sv d w m1))" if "?I m1" for w m1
    using that by (auto simp: Data_setData_def Let_def run_bindE_Inr intro!: bindE_fails_fst)
  have k: "isl (fst (Key_setData qt ?sv d v m))"
    unfolding Key_setData_def
    by (rule bindE_fails [where I = ?I]) (auto intro: shape_validateDataChange shape_setValue s Suc.prems(2))
  show ?case
    unfolding setValue.simps virtual_setData_def Let_def by (simp add: run_bindE_Inr bindE_fails_fst k)
qed

section \<open>Links without cycles\<close>

text \<open>The data whose value \<open>setValue\<close> of \<open>d\<close> writes itself: \<open>d\<close>, and the indices of the siblings when \<open>d\<close> is
  an index.\<close>

definition written :: "MModel \<Rightarrow> nat \<Rightarrow> nat set" where
  "written m d = insert d
     (if da_key (data_at m d) = ''index''
      then (case data_node_parent m d of
              Some (n, p) \<Rightarrow> \<Union>s \<in> set (mn_new_nodes (node_at m p)). set_option (Entity_getData m s ''index'')
            | None \<Rightarrow> {})
      else {})"

text \<open>What a data sets when its value is written: what it feeds, and the labels that its slots compute.\<close>

definition set_after :: "MModel \<Rightarrow> nat \<Rightarrow> nat set" where
  "set_after m d = set (da_child_datas (data_at m d)) \<union>
     (\<Union>s \<in> set (da_slots (data_at m d)). \<Union>n \<in> set_option (slot_node s). set_option (Entity_getData m n ''label''))"

text \<open>What setting the value of \<open>d\<close> may set next: that, the index of a node that moved to another cell, and
  the type that is computed from its parts.\<close>

definition sets_next :: "MModel \<Rightarrow> nat \<Rightarrow> nat set" where
  "sets_next m d =
     (let key = da_key (data_at m d); of_node = (\<lambda>k. case data_node m d of Some n \<Rightarrow> set_option (Entity_getData m n k) | None \<Rightarrow> {}) in
      (\<Union>x \<in> written m d. set_after m x) \<union>
      (if key \<in> {''row'', ''column''} then of_node ''index'' else {}) \<union>
      (if key \<in> {''inner_type'', ''outer_type''} then of_node ''type'' else {}))"

text \<open>No slot that is not modelled runs.\<close>

definition slots_modelled :: "MModel \<Rightarrow> nat \<Rightarrow> bool" where
  "slots_modelled m d \<longleftrightarrow> (\<forall>x \<in> written m d. SL_Other \<notin> set (da_slots (data_at m x)))"

lemma writtenI:
  "d \<in> written m d"
  "da_key (data_at m d) = ''index'' \<Longrightarrow> data_node_parent m d = Some (n, p) \<Longrightarrow> s \<in> set (mn_new_nodes (node_at m p)) \<Longrightarrow>
    Entity_getData m s ''index'' = Some sd \<Longrightarrow> sd \<in> written m d"
  unfolding written_def by (auto split: if_splits)

lemma set_afterI:
  "c \<in> set (da_child_datas (data_at m d)) \<Longrightarrow> c \<in> set_after m d"
  "s \<in> set (da_slots (data_at m d)) \<Longrightarrow> slot_node s = Some n \<Longrightarrow> Entity_getData m n ''label'' = Some c \<Longrightarrow> c \<in> set_after m d"
  unfolding set_after_def by auto

lemma sets_nextI:
  "x \<in> written m d \<Longrightarrow> c \<in> set_after m x \<Longrightarrow> c \<in> sets_next m d"
  "da_key (data_at m d) \<in> {''row'', ''column''} \<Longrightarrow> data_node m d = Some n \<Longrightarrow> Entity_getData m n ''index'' = Some c \<Longrightarrow> c \<in> sets_next m d"
  "da_key (data_at m d) \<in> {''inner_type'', ''outer_type''} \<Longrightarrow> data_node m d = Some n \<Longrightarrow> Entity_getData m n ''type'' = Some c \<Longrightarrow> c \<in> sets_next m d"
  unfolding sets_next_def Let_def by (auto split: if_splits)

text \<open>\<open>safe I f\<close>: from a state in \<open>I\<close>, \<open>f\<close> stays in \<open>I\<close>, has stack enough and comes to no slot that is not
  modelled.\<close>

abbreviation lost_run :: "(exn + 'a) \<Rightarrow> bool" where
  "lost_run r \<equiv> r = Inl stack_overflow \<or> r = Inl unmodelled_slot"

definition safe :: "('s \<Rightarrow> bool) \<Rightarrow> ('s, 'a) em \<Rightarrow> bool" where
  "safe I f \<longleftrightarrow> preserves I f \<and> (\<forall>s. I s \<longrightarrow> \<not> lost_run (fst (f s)))"

lemma safeD: "safe I f \<Longrightarrow> I s \<Longrightarrow> \<not> lost_run (fst (f s))"
  by (simp add: safe_def)

lemma safe_bind: "safe I f \<Longrightarrow> (\<And>a. safe I (g a)) \<Longrightarrow> safe I (bindE f g)"
  unfolding safe_def
proof (intro conjI allI impI)
  assume f: "preserves I f \<and> (\<forall>s. I s \<longrightarrow> \<not> lost_run (fst (f s)))"
    and g: "\<And>a. preserves I (g a) \<and> (\<forall>s. I s \<longrightarrow> \<not> lost_run (fst (g a s)))"
  then show "preserves I (bindE f g)" by (simp add: preserves_bindE)
  fix s assume s: "I s"
  obtain r s' where r: "f s = (r, s')" by (cases "f s")
  then show "\<not> lost_run (fst (bindE f g s))"
    using f g s preservesD [of I f, OF _ s r] by (cases r) (auto simp: ev_rules)
qed

lemma safe_get: "(\<And>m. I m \<Longrightarrow> safe I (f m)) \<Longrightarrow> safe I (bindE getE f)"
  unfolding safe_def preserves_def by (auto simp: run_bindE_Inr)

lemma safe_return: "safe I (returnE a)"
  by (simp add: safe_def pres run_returnE)

lemma safe_throw: "e \<noteq> stack_overflow \<Longrightarrow> e \<noteq> unmodelled_slot \<Longrightarrow> safe I (throwE e)"
  by (simp add: safe_def pres run_throwE)

lemma safe_modify: "(\<And>m. I m \<Longrightarrow> I (f m)) \<Longrightarrow> safe I (modifyE f)"
  by (auto simp: safe_def intro: preserves_modifyE)

lemma safe_when: "(b \<Longrightarrow> safe I f) \<Longrightarrow> safe I (whenE b f)"
  by (cases b) (auto simp: whenE_def safe_return)

lemma safe_for: "(\<And>x. x \<in> set xs \<Longrightarrow> safe I (f x)) \<Longrightarrow> safe I (forE xs f)"
  by (induction xs) (auto intro: safe_return safe_bind)

lemma safe_if: "(b \<Longrightarrow> safe I f) \<Longrightarrow> (\<not> b \<Longrightarrow> safe I g) \<Longrightarrow> safe I (if b then f else g)"
  by simp

lemma safe_option:
  "(z = None \<Longrightarrow> safe I f) \<Longrightarrow> (\<And>x. z = Some x \<Longrightarrow> safe I (g x)) \<Longrightarrow> safe I (case z of None \<Rightarrow> f | Some x \<Rightarrow> g x)"
  by (cases z) auto

lemma safe_prod: "(\<And>x y. z = (x, y) \<Longrightarrow> safe I (f x y)) \<Longrightarrow> safe I (case z of (x, y) \<Rightarrow> f x y)"
  by (cases z) auto

lemmas safe_rules = safe_get safe_bind safe_return safe_modify safe_when safe_for safe_if safe_option safe_prod

lemma safe_run_slot:
  assumes "\<And>n c w. slot_node s = Some n \<Longrightarrow> Entity_getData m0 n ''label'' = Some c \<Longrightarrow> safe (\<lambda>m. data_shape m = data_shape m0) (sv c w)"
    and "s \<noteq> SL_Other"
  shows "safe (\<lambda>m. data_shape m = data_shape m0) (run_slot qt sv s)"
proof -
  obtain n where n: "slot_node s = Some n" using assms(2) by (cases s) simp_all
  show ?thesis unfolding run_slot_def n option.case
    by (intro safe_rules assms(1) [OF n]) (auto dest: shape_facts(2))
qed

lemma safe_Data_setData:
  assumes "\<And>c w. c \<in> set_after m0 d \<Longrightarrow> safe (\<lambda>m. data_shape m = data_shape m0) (sv c w)" and "SL_Other \<notin> set (da_slots (data_at m0 d))"
  shows "safe (\<lambda>m. data_shape m = data_shape m0) (Data_setData qt sv d v)"
  unfolding Data_setData_def Data_updateChildren_def Let_def
proof (intro safe_rules safe_run_slot)
  fix m m' s assume s: "data_shape m' = data_shape m0" "s \<in> set (da_slots (data_at m' d))"
  then have s: "s \<in> set (da_slots (data_at m0 d))" using shape_at(6) by metis
  then show "s \<noteq> SL_Other" using assms(2) by blast
  fix n c w assume "slot_node s = Some n" "Entity_getData m0 n ''label'' = Some c"
  then show "safe (\<lambda>m. data_shape m = data_shape m0) (sv c w)" using assms(1) set_afterI(2) [OF s] by blast
qed (auto intro!: assms(1) set_afterI(1) dest: shape_facts(1))

lemma safe_reset_indices:
  assumes "\<And>s sd w. s \<in> set ss \<Longrightarrow> Entity_getData m0 s ''index'' = Some sd \<Longrightarrow> s \<noteq> n \<Longrightarrow>
    safe (\<lambda>m. data_shape m = data_shape m0) (Data_setData qt sv sd w)"
  shows "safe (\<lambda>m. data_shape m = data_shape m0) (reset_indices qt sv n i ss k)"
  using assms
proof (induction ss arbitrary: i k)
  case (Cons s ss)
  let ?I = "\<lambda>m. data_shape m = data_shape m0"
  have rest: "safe ?I (reset_indices qt sv n i ss k)" for i k by (rule Cons.IH) (auto intro: Cons.prems)
  have here: "safe ?I (Data_setData qt sv sd w)" if "Entity_getData m0 s ''index'' = Some sd" "s \<noteq> n" for sd w
    using that by (intro Cons.prems) simp_all
  show ?case
    unfolding reset_indices.simps by (intro safe_rules rest here) (auto dest: shape_facts(2))
qed (simp add: safe_return)

lemma set_place_node: "set (place_node n i ss) \<subseteq> insert n (set ss)"
  unfolding place_node_def Let_def by (auto dest: in_set_takeD in_set_dropD)

lemma safe_validateDataChange:
  assumes "\<And>c w. c \<in> sets_next m0 d \<Longrightarrow> safe (\<lambda>m. data_shape m = data_shape m0) (sv c w)" and "slots_modelled m0 d"
  shows "safe (\<lambda>m. data_shape m = data_shape m0) (validateDataChange qt sv d v)"
proof -
  let ?I = "\<lambda>m. data_shape m = data_shape m0"
  have b: "safe ?I (Key_validateDataChange qt d w)" for w
    unfolding Key_validateDataChange_def Let_def by (intro safe_rules) simp_all
  have i: "safe ?I (IndexKey_validateDataChange qt sv d v)" if key: "da_key (data_at m0 d) = ''index''"
    unfolding IndexKey_validateDataChange_def Let_def
  proof (intro safe_get safe_option safe_return safe_prod safe_bind safe_reset_indices)
    fix m x n p s sd w
    assume m: "?I m" and x: "data_node_parent m d = Some x" "x = (n, p)"
      and s: "s \<in> set (order_by_cell qt m (place_node n (clamp_index (int (length (getOrderedChildNodes qt m p))) (qt_toInt qt v)) (getOrderedChildNodes qt m p)))"
      and sd: "Entity_getData m0 s ''index'' = Some sd" "s \<noteq> n"
    have "s \<in> set (mn_new_nodes (node_at m0 p))"
      using s sd(2) set_place_node [of n _ "getOrderedChildNodes qt m p"]
      unfolding order_by_cell_def set_sort getOrderedChildNodes_def Let_def shape_at(9) [OF m] by (auto dest: subsetD)
    moreover have "data_node_parent m0 d = Some (n, p)"
      using x shape_facts(4) [OF m] by blast
    ultimately have "sd \<in> written m0 d" using key sd(1) by (intro writtenI(2))
    then show "safe ?I (Data_setData qt sv sd w)"
      using assms by (intro safe_Data_setData) (auto intro: sets_nextI(1) simp: slots_modelled_def)
  qed
  show ?thesis
    unfolding validateDataChange_def LabelKey_validateDataChange_def RowKey_validateDataChange_def ExportIDKey_validateDataChange_def
      TypeKey_validateDataChange_def NamespaceKey_validateDataChange_def VersionKey_validateDataChange_def Let_def
    by (intro safe_rules b i safe_throw) (erule (1) shape_facts(5) | simp)+
qed

lemma setValue_safe:
  assumes "\<And>d c. d \<in> D \<Longrightarrow> c \<in> sets_next m0 d \<Longrightarrow> c \<in> D \<and> rank c < (rank d :: nat)" and "\<And>d. d \<in> D \<Longrightarrow> slots_modelled m0 d"
    and "d \<in> D" and "rank d < stack"
  shows "safe (\<lambda>m. data_shape m = data_shape m0) (setValue qt stack d v)"
  using assms(3,4)
proof (induction stack arbitrary: d v)
  case (Suc stack)
  let ?I = "\<lambda>m. data_shape m = data_shape m0"
  have sv: "safe ?I (setValue qt stack c w)" if "c \<in> sets_next m0 d" for c w
    using Suc.IH [of c w] assms(1) [OF Suc.prems(1) that] Suc.prems(2) by simp
  note sl = assms(2) [OF Suc.prems(1)]
  have k: "safe ?I (Key_setData qt (setValue qt stack) d v)"
    unfolding Key_setData_def
    by (rule safe_bind, rule safe_validateDataChange [OF sv sl], assumption, rule safe_Data_setData, rule sv, erule sets_nextI(1) [OF writtenI(1)])
      (use sl writtenI(1) in \<open>auto simp: slots_modelled_def\<close>)
  have i: "safe ?I (touch_index (setValue qt stack) d)" if "da_key (data_at m0 d) \<in> {''row'', ''column''}"
    unfolding touch_index_def using that
    by (intro safe_rules sv) (auto intro: sets_nextI(2) dest: shape_facts(2,3))
  have t: "safe ?I (touch_type (setValue qt stack) d)" if "da_key (data_at m0 d) \<in> {''inner_type'', ''outer_type''}"
    unfolding touch_type_def using that
    by (intro safe_rules sv) (auto intro: sets_nextI(3) dest: shape_facts(2,3))
  show ?case
    unfolding setValue.simps virtual_setData_def Let_def
    by (intro safe_get safe_bind safe_if safe_modify safe_return k i t) (auto dest: shape_facts(5))
qed simp

section \<open>Links carry the value\<close>

definition feeds :: "MModel \<Rightarrow> (nat \<times> nat) set" where
  "feeds m = {(d, c). c \<in> set (da_child_datas (data_at m d))}"

text \<open>Data whose key is the plain \<open>Key\<close> class for strings, with any string allowed, and without slots.\<close>

definition plain_data :: "MModel \<Rightarrow> nat \<Rightarrow> bool" where
  "plain_data m d \<longleftrightarrow> md_datas m d \<noteq> None \<and> da_valid_values (data_at m d) = [] \<and> da_slots (data_at m d) = [] \<and>
     key_type m (da_key (data_at m d)) = QT_String \<and>
     da_key (data_at m d) \<notin> {''label'', ''index'', ''row'', ''column'', ''uuid'', ''replicate_count'', ''frequency'', ''type'', ''namespace'',
       ''operation'', ''version'', ''inner_type'', ''outer_type''}"

definition string_laws :: "Qt \<Rightarrow> bool" where
  "string_laws qt \<longleftrightarrow> (\<forall>s. qt_canConvert qt (QString s) QT_String \<and> qt_convert qt (QString s) QT_String = QString s \<and>
     qt_toString qt (QString s) = s)"

lemma value_notify [simp]: "data_at (notify_parent d m) = data_at m" "data_at (emit_signal g m) = data_at m"
  by (auto simp: notify_parent_def Entity_dataChanged_def emit_signal_def data_at_def Let_def split: option.split intro!: ext)

lemma plain_setValue:
  assumes "string_laws qt" and "plain_data m d"
  shows "setValue qt (Suc stack) d (QString s) m = Data_setData qt (setValue qt stack) d (QString s) m"
proof -
  have k: "validateDataChange qt sv d (QString s) m = (Inr (QString s), m)" for sv
    using assms by (simp add: validateDataChange_def Key_validateDataChange_def plain_data_def string_laws_def ev_rules Let_def)
  show ?thesis
    using assms(2) unfolding setValue.simps virtual_setData_def Key_setData_def Let_def plain_data_def
    by (simp add: ev_rules k split: prod.split sum.split)
qed

definition carried :: "MModel \<Rightarrow> nat set \<Rightarrow> string \<Rightarrow> MModel \<Rightarrow> bool" where
  "carried m R s m' \<longleftrightarrow> data_shape m' = data_shape m \<and>
     (\<forall>e. da_value (data_at m' e) = (if e \<in> R then QString s else da_value (data_at m e)))"

lemma carried_trans:
  "carried m R s m1 \<Longrightarrow> carried m1 Q s m2 \<Longrightarrow> carried m (R \<union> Q) s m2"
  by (auto simp: carried_def)

lemma carried_for:
  assumes "\<And>c m. c \<in> set cs \<Longrightarrow> data_shape m = data_shape m0 \<Longrightarrow> da_value (data_at m d) = QString s \<Longrightarrow> \<exists>m'. f c m = (Inr (), m') \<and> carried m (R c) s m'"
    and "data_shape m = data_shape m0" and "da_value (data_at m d) = QString s"
  shows "\<exists>m'. forE cs f m = (Inr (), m') \<and> carried m (\<Union> (R ` set cs)) s m'"
  using assms
proof (induction cs arbitrary: m)
  case Nil
  then show ?case by (simp add: run_returnE carried_def)
next
  case (Cons c cs)
  obtain m1 where m1: "f c m = (Inr (), m1)" "carried m (R c) s m1" using Cons.prems by auto
  have "data_shape m1 = data_shape m0" "da_value (data_at m1 d) = QString s" using m1(2) Cons.prems(2,3) by (auto simp: carried_def)
  then obtain m2 where m2: "forE cs f m1 = (Inr (), m2)" "carried m1 (\<Union> (R ` set cs)) s m2"
    using Cons.IH [of m1] Cons.prems(1) by auto
  from m1 m2 carried_trans [OF m1(2) m2(2)] show ?case by (simp add: ev_rules)
qed

lemma plain_shape: "data_shape m = data_shape m0 \<Longrightarrow> plain_data m d \<longleftrightarrow> plain_data m0 d"
  unfolding plain_data_def key_type_def by (simp add: shape_at [of m m0])

lemma feeds_shape: "data_shape m = data_shape m0 \<Longrightarrow> feeds m = feeds m0"
  unfolding feeds_def by (simp add: shape_at(1) [of m m0])

lemma setValue_carries:
  assumes "string_laws qt" and "\<And>e. e \<in> D \<Longrightarrow> plain_data m0 e" and "\<And>a b. a \<in> D \<Longrightarrow> (a, b) \<in> feeds m0 \<Longrightarrow> b \<in> D \<and> rank b < (rank a :: nat)"
  shows "d \<in> D \<Longrightarrow> rank d < stack \<Longrightarrow> data_shape m = data_shape m0 \<Longrightarrow>
    \<exists>r m'. setValue qt stack d (QString s) m = (Inr r, m') \<and> carried m ((feeds m0)\<^sup>* `` {d}) s m'"
proof (induction stack arbitrary: d m)
  case (Suc stack)
  let ?sv = "setValue qt stack" and ?R = "\<lambda>c. (feeds m0)\<^sup>* `` {c}"
  let ?cs = "da_child_datas (data_at m0 d)"
  define m1 where "m1 = upd_data d (\<lambda>x. x\<lparr>da_value := QString s\<rparr>) m"
  let ?b = "\<not> qt_eq qt (QString s) (da_value (data_at m d))"
  define m2 where "m2 = (if ?b then notify_parent d m1 else m1)"
  have p: "plain_data m d" using assms(2) [OF Suc.prems(1)] plain_shape [OF Suc.prems(3)] by simp
  have m2: "data_shape m2 = data_shape m0" "da_value (data_at m2 e) = (if e = d then QString s else da_value (data_at m e))" for e
    using p Suc.prems(3) by (auto simp: m2_def m1_def plain_data_def)
  have f: "\<exists>m'. (bindE getE (\<lambda>m'. bindE (?sv c (da_value (data_at m' d))) (\<lambda>_. returnE ()))) m = (Inr (), m') \<and> carried m (?R c) s m'"
    if c: "c \<in> set ?cs" and m: "data_shape m = data_shape m0" "da_value (data_at m d) = QString s" for c m
  proof -
    have "(d, c) \<in> feeds m0" using c by (simp add: feeds_def)
    then have "c \<in> D" "rank c < stack" using assms(3) [OF Suc.prems(1)] Suc.prems(2) by fastforce+
    from Suc.IH [OF this m(1)] m(2) show ?thesis by (auto simp: run_bindE_Inr run_returnE)
  qed
  obtain m3 where m3: "forE ?cs (\<lambda>c. bindE getE (\<lambda>m'. bindE (?sv c (da_value (data_at m' d))) (\<lambda>_. returnE ()))) m2 = (Inr (), m3)"
      "carried m2 (\<Union> (?R ` set ?cs)) s m3"
  proof -
    have "da_value (data_at m2 d) = QString s" using m2(2) by simp
    have "\<exists>m'. forE ?cs (\<lambda>c. bindE getE (\<lambda>m'. bindE (?sv c (da_value (data_at m' d))) (\<lambda>_. returnE ()))) m2 = (Inr (), m') \<and>
        carried m2 (\<Union> (?R ` set ?cs)) s m'"
      by (rule carried_for [OF _ m2(1) \<open>da_value (data_at m2 d) = QString s\<close>]) (rule f; assumption)
    then show thesis by (elim exE conjE) (rule that)
  qed
  have cs: "da_child_datas (data_at m2 d) = ?cs" using shape_at(1) [OF m2(1)] by simp
  have run: "Data_setData qt ?sv d (QString s) m = (Inr ?b, m3)"
  proof -
    have w: "whenE ?b (modifyE (notify_parent d)) m1 = (Inr (), m2)" by (simp add: m2_def ev_rules)
    have "da_slots (data_at m3 d) = []"
      using p m3(2) m2(1) Suc.prems(3) shape_at(6) [of m3 m d] by (simp add: carried_def plain_data_def)
    then have sl: "whenE ?b (bindE getE (\<lambda>m'. forE (da_slots (data_at m' d)) (run_slot qt ?sv))) m3 = (Inr (), m3)"
      by (simp add: whenE_def run_bindE_Inr run_returnE)
    have "Data_updateChildren qt ?sv d ?b m1 = (Inr (), m3)"
      unfolding Data_updateChildren_def by (simp add: ev_bindE w cs m3(1) sl)
    then show ?thesis unfolding Data_setData_def Let_def by (simp add: run_bindE_Inr m1_def run_returnE)
  qed
  have R: "?R d = insert d (\<Union> (?R ` set ?cs))"
    by (auto simp: feeds_def elim: converse_rtranclE intro: converse_rtrancl_into_rtrancl)
  have "carried m (?R d) s m3"
    using m3(2) m2 Suc.prems(3) unfolding carried_def R by auto
  then show ?case using run plain_setValue [OF assms(1) p, of stack s] by auto
qed simp

section \<open>Labels\<close>

lemma free_number_free: "free_number numbers \<notin> set numbers" "1 \<le> free_number numbers" "free_number numbers \<le> int (length numbers) + 1"
proof -
  let ?c = "map (\<lambda>i. int i + 1) [0..<length numbers]"
  have "free_number numbers \<notin> set numbers \<and> 1 \<le> free_number numbers \<and> free_number numbers \<le> int (length numbers) + 1"
  proof (cases "find (\<lambda>i. i \<notin> set numbers) ?c")
    case None
    have s: "x \<in> set numbers" if "1 \<le> x" "x \<le> int (length numbers)" for x
    proof -
      have "x = int (nat (x - 1)) + 1" "nat (x - 1) < length numbers" using that by auto
      then have "x \<in> set ?c" by (auto simp del: int_nat_eq)
      then show ?thesis using None by (auto simp: find_None_iff)
    qed
    have "int (length numbers) + 1 \<notin> set numbers"
    proof
      assume "int (length numbers) + 1 \<in> set numbers"
      then have "{1..int (length numbers) + 1} \<subseteq> set numbers" using s by (auto simp: zle_add1_eq_le le_less)
      from card_mono [OF _ this] have "length numbers + 1 \<le> card (set numbers)" by simp
      then show False using card_length [of numbers] by simp
    qed
    then show ?thesis by (simp add: free_number_def None)
  next
    case (Some i)
    then obtain k where "k < length numbers" "i = int k + 1" "i \<notin> set numbers" by (auto simp: find_Some_iff)
    then show ?thesis by (simp add: free_number_def Some)
  qed
  then show "free_number numbers \<notin> set numbers" "1 \<le> free_number numbers" "free_number numbers \<le> int (length numbers) + 1" by auto
qed

lemma matched_numbers_in:
  "l \<in> set labels \<Longrightarrow> l \<noteq> new_label \<Longrightarrow> qt_match qt (label_regex new_label) l = Some groups \<Longrightarrow>
   qt_toInt qt (QString (captured groups 1)) \<in> set (matched_numbers qt new_label labels)"
  by (induction labels) (auto split: option.split)

lemma length_matched_numbers: "length (matched_numbers qt new_label labels) \<le> length labels"
  by (induction labels) (auto split: option.split)

text \<open>What the regular expression does when it reads the label literally, and \<open>QString::toInt\<close> on numbers
  in range.\<close>

definition label_match_laws :: "Qt \<Rightarrow> string \<Rightarrow> bool" where
  "label_match_laws qt label \<longleftrightarrow>
     (\<forall>k. 1 \<le> k \<longrightarrow> k \<le> int_max \<longrightarrow> qt_match qt (label_regex label) (label @ ''_'' @ to_string k) = Some [to_string k]) \<and>
     (\<forall>k. 1 \<le> k \<longrightarrow> k \<le> int_max \<longrightarrow> qt_toInt qt (QString (to_string k)) = k)"

lemma unique_label_fresh:
  assumes "label_match_laws qt label" and "int (length labels) < int_max"
  shows "unique_label qt label labels \<notin> set labels"
proof (cases "label \<in> set labels")
  case True
  let ?k = "free_number (matched_numbers qt label labels)"
  have k: "1 \<le> ?k" "?k \<le> int_max"
    using free_number_free(2,3) [of "matched_numbers qt label labels"] length_matched_numbers [of qt label labels] assms(2) by auto
  show ?thesis
  proof
    assume "unique_label qt label labels \<in> set labels"
    then have "label @ ''_'' @ to_string ?k \<in> set labels" by (simp add: unique_label_def True)
    from matched_numbers_in [OF this _ assms(1) [unfolded label_match_laws_def, THEN conjunct1, rule_format, OF k]]
    have "?k \<in> set (matched_numbers qt label labels)"
      using assms(1) k by (simp add: captured_def label_match_laws_def)
    then show False using free_number_free(1) by blast
  qed
qed (simp add: unique_label_def)

text \<open>Otherwise the expression may overlook a label: with \<open>a+\<close>, which it reads as one or more \<open>a\<close>.\<close>

lemma unique_label_overlooks:
  assumes "qt_match qt (label_regex ''a+'') ''a+_1'' = None"
  shows "unique_label qt ''a+'' [''a+'', ''a+_1''] = ''a+_1''"
  using assms by (simp add: unique_label_def free_number_def to_string_def digits_of.simps char_of_def bit_Suc_0_iff)

section \<open>Indices\<close>

definition index_of :: "Qt \<Rightarrow> MModel \<Rightarrow> nat \<Rightarrow> int" where
  "index_of qt m s = qt_toInt qt (getDataValue m s ''index'')"

text \<open>The nodes of a list have index data of their own, which feeds nothing and has no slots.\<close>

definition indexed :: "MModel \<Rightarrow> nat list \<Rightarrow> bool" where
  "indexed m ss \<longleftrightarrow> distinct ss \<and>
     (\<forall>s \<in> set ss. \<exists>d. Entity_getData m s ''index'' = Some d \<and> md_datas m d \<noteq> None \<and> da_child_datas (data_at m d) = [] \<and>
        da_slots (data_at m d) = []) \<and>
     inj_on (\<lambda>s. Entity_getData m s ''index'') (set ss)"

lemma setData_without_children:
  assumes "da_child_datas (data_at m d) = []" and "da_slots (data_at m d) = []" and "md_datas m d \<noteq> None"
  shows "\<exists>b m'. Data_setData qt sv d v m = (Inr b, m') \<and> data_shape m' = data_shape m \<and>
    (\<forall>e. da_value (data_at m' e) = (if e = d then v else da_value (data_at m e)))"
  using assms by (auto simp: Data_setData_def Data_updateChildren_def ev_rules Let_def)

lemma getDataValue_data: "Entity_getData m s k = Some d \<Longrightarrow> getDataValue m s k = da_value (data_at m d)"
  by (auto simp: getDataValue_def getDataValue_of_key_def Entity_getData_def split: option.splits)

lemma reset_indices_run:
  assumes "indexed m0 ss" and "data_shape m = data_shape m0" and "\<And>i. qt_toInt qt (QInt i) = i"
  shows "\<exists>m'. reset_indices qt sv n i ss k m = (Inr (if n \<in> set ss then i + int (length (takeWhile (\<lambda>s. s \<noteq> n) ss)) else k), m') \<and>
    data_shape m' = data_shape m0 \<and>
    (\<forall>j < length ss. ss ! j \<noteq> n \<longrightarrow> index_of qt m' (ss ! j) = i + int j) \<and>
    (\<forall>e. e \<notin> {d. \<exists>s \<in> set ss - {n}. Entity_getData m0 s ''index'' = Some d} \<longrightarrow> da_value (data_at m' e) = da_value (data_at m e))"
  using assms(1,2)
proof (induction ss arbitrary: i k m)
  case Nil
  then show ?case by (simp add: run_returnE)
next
  case (Cons s ss)
  obtain sd where sd: "Entity_getData m0 s ''index'' = Some sd" "md_datas m0 sd \<noteq> None" "da_child_datas (data_at m0 sd) = []" "da_slots (data_at m0 sd) = []"
    using Cons.prems(1) by (auto simp: indexed_def)
  have g: "Entity_getData m s ''index'' = Some sd" using sd(1) shape_at(11) [OF Cons.prems(2)] by simp
  have ss: "indexed m0 ss" "s \<notin> set ss" using Cons.prems(1) by (auto simp: indexed_def inj_on_def)
  have apart: "Entity_getData m0 t ''index'' \<noteq> Some sd" if "t \<in> set ss" for t
  proof
    assume "Entity_getData m0 t ''index'' = Some sd"
    then have e: "Entity_getData m0 t ''index'' = Entity_getData m0 s ''index''" using sd(1) by simp
    have j: "inj_on (\<lambda>s. Entity_getData m0 s ''index'') (set (s # ss))" using Cons.prems(1) unfolding indexed_def by blast
    from inj_onD [OF j e] that have "t = s" by simp
    then show False using that ss(2) by simp
  qed
  let ?rest = "\<lambda>k. reset_indices qt sv n (i + 1) ss k"
  obtain k1 m1 where m1: "reset_indices qt sv n i (s # ss) k m = ?rest k1 m1" "data_shape m1 = data_shape m0"
    "k1 = (if s = n then i else k)" "s \<noteq> n \<Longrightarrow> qt_toInt qt (da_value (data_at m1 sd)) = i"
    "\<And>e. e \<noteq> sd \<or> s = n \<Longrightarrow> da_value (data_at m1 e) = da_value (data_at m e)"
  proof (cases "s \<noteq> n \<and> qt_toInt qt (da_value (data_at m sd)) \<noteq> i")
    case True
    have "da_child_datas (data_at m sd) = []" "da_slots (data_at m sd) = []" "md_datas m sd \<noteq> None"
      using sd(2-4) shape_at(1,6,7) [OF Cons.prems(2), of sd] by simp_all
    from setData_without_children [OF this, of qt sv "QInt i"] obtain b m1 where
      m1: "Data_setData qt sv sd (QInt i) m = (Inr b, m1)" "data_shape m1 = data_shape m"
        "\<forall>e. da_value (data_at m1 e) = (if e = sd then QInt i else da_value (data_at m e))" by blast
    show thesis using m1 True Cons.prems(2) g assms(3) by (intro that [of k m1]) (simp_all add: ev_rules)
  next
    case False
    then show thesis using Cons.prems(2) g by (intro that [of "if s = n then i else k" m]) (auto simp: ev_rules)
  qed
  obtain m' where m': "?rest k1 m1 = (Inr (if n \<in> set ss then i + 1 + int (length (takeWhile (\<lambda>s. s \<noteq> n) ss)) else k1), m')"
    "data_shape m' = data_shape m0" "\<forall>j < length ss. ss ! j \<noteq> n \<longrightarrow> index_of qt m' (ss ! j) = i + 1 + int j"
    "\<forall>e. e \<notin> {d. \<exists>s \<in> set ss - {n}. Entity_getData m0 s ''index'' = Some d} \<longrightarrow> da_value (data_at m' e) = da_value (data_at m1 e)"
    using Cons.IH [OF ss(1) m1(2)] by blast
  have "da_value (data_at m' sd) = da_value (data_at m1 sd)" using m'(4) apart by blast
  then have i: "index_of qt m' s = i" if "s \<noteq> n"
    using m1(4) [OF that] getDataValue_data [of m' s "''index''" sd] sd(1) shape_at(11) [OF m'(2)] by (simp add: index_of_def)
  show ?case
  proof (intro exI [of _ m'] conjI allI impI)
    show "reset_indices qt sv n i (s # ss) k m =
        (Inr (if n \<in> set (s # ss) then i + int (length (takeWhile (\<lambda>s. s \<noteq> n) (s # ss))) else k), m')"
      using m1(1,3) m'(1) ss(2) by auto
    show "data_shape m' = data_shape m0" by (rule m'(2))
    fix j assume "j < length (s # ss)" "(s # ss) ! j \<noteq> n"
    then show "index_of qt m' ((s # ss) ! j) = i + int j" using m'(3) i by (cases j) auto
  next
    fix e assume e: "e \<notin> {d. \<exists>t \<in> set (s # ss) - {n}. Entity_getData m0 t ''index'' = Some d}"
    then have "da_value (data_at m' e) = da_value (data_at m1 e)" using m'(4) by auto
    moreover have "e \<noteq> sd \<or> s = n" using e sd(1) by auto
    ultimately show "da_value (data_at m' e) = da_value (data_at m e)" using m1(5) by simp
  qed
qed

lemma mset_place_node:
  assumes "distinct ss" and "n \<in> set ss"
  shows "mset (place_node n i ss) = mset ss"
proof -
  let ?o = "removeAll n ss"
  have "mset (take (nat i) ?o @ drop (nat i) ?o) = mset ?o" by simp
  then have "mset (place_node n i ss) = add_mset n (mset (remove1 n ss))"
    using assms(1) by (simp add: place_node_def Let_def distinct_remove1_removeAll del: append_take_drop_id)
  then show ?thesis using assms(2) by simp
qed

lemma distinct_takeWhile: "distinct xs \<Longrightarrow> j < length xs \<Longrightarrow> length (takeWhile (\<lambda>x. x \<noteq> xs ! j) xs) = j"
  by (induction xs arbitrary: j) (auto simp: nth_Cons split: nat.splits)

definition cell_of :: "Qt \<Rightarrow> MModel \<Rightarrow> nat \<Rightarrow> int list" where
  "cell_of qt m = (\<lambda>s. [qt_toInt qt (getDataValue m s ''row''), qt_toInt qt (getDataValue m s ''column'')])"

lemma set_index_data:
  assumes "data_node_parent m d = Some (n, p)" and "Entity_getData m n ''index'' = Some d" and "da_key (data_at m d) = ''index''"
    and "n \<in> set (mn_new_nodes (node_at m p))" and "indexed m (mn_new_nodes (node_at m p))" and "\<And>i. qt_toInt qt (QInt i) = i"
  shows "\<exists>r m' ordered. setValue qt (Suc stack) d v m = (Inr r, m') \<and> mset ordered = mset (mn_new_nodes (node_at m p)) \<and>
    (\<forall>j < length ordered. index_of qt m' (ordered ! j) = int j) \<and>
    sorted (map (cell_of qt m) ordered) \<and>
    ((\<forall>s \<in> set (mn_new_nodes (node_at m p)). cell_of qt m s = cell_of qt m n) \<longrightarrow>
      ordered = (let ss = getOrderedChildNodes qt m p in place_node n (clamp_index (int (length ss)) (qt_toInt qt v)) ss))"
proof -
  let ?ss = "getOrderedChildNodes qt m p" and ?sv = "setValue qt stack"
  let ?i = "clamp_index (int (length ?ss)) (qt_toInt qt v)"
  define ord where "ord = order_by_cell qt m (place_node n ?i ?ss)"
  have ms: "mset ?ss = mset (mn_new_nodes (node_at m p))" by (simp add: getOrderedChildNodes_def Let_def)
  have sets: "set ?ss = set (mn_new_nodes (node_at m p))" using mset_eq_setD [OF ms] .
  have dist: "distinct ?ss" using assms(5) mset_eq_imp_distinct_iff [OF ms] by (simp add: indexed_def)
  have mo: "mset ord = mset (mn_new_nodes (node_at m p))"
    using mset_place_node [OF dist, of n ?i] assms(4) sets ms by (simp add: ord_def order_by_cell_def)
  have so: "set ord = set (mn_new_nodes (node_at m p))" "distinct ord"
    using mset_eq_setD [OF mo] mset_eq_imp_distinct_iff [OF mo] assms(5) by (simp_all add: indexed_def)
  have ix: "indexed m ord" using assms(5) so by (simp add: indexed_def)
  let ?k = "int (length (takeWhile (\<lambda>s. s \<noteq> n) ord))"
  obtain m1 where m1: "reset_indices qt ?sv n 0 ord ?i m = (Inr ?k, m1)" "data_shape m1 = data_shape m"
    "\<forall>j < length ord. ord ! j \<noteq> n \<longrightarrow> index_of qt m1 (ord ! j) = int j"
    using reset_indices_run [OF ix refl assms(6), of ?sv n 0 ?i] assms(4) so(1) by auto
  obtain x where x: "Entity_getData m n ''index'' = Some x" "md_datas m x \<noteq> None" "da_child_datas (data_at m x) = []" "da_slots (data_at m x) = []"
    using assms(4,5) by (auto simp: indexed_def)
  have d: "md_datas m1 d \<noteq> None" "da_child_datas (data_at m1 d) = []" "da_slots (data_at m1 d) = []"
    using x assms(2) shape_at(1,6,7) [OF m1(2), of d] by simp_all
  obtain b m2 where m2: "Data_setData qt ?sv d (QInt ?k) m1 = (Inr b, m2)" "data_shape m2 = data_shape m1"
    "\<forall>e. da_value (data_at m2 e) = (if e = d then QInt ?k else da_value (data_at m1 e))"
    using setData_without_children [OF d(2,3,1), of qt ?sv "QInt ?k"] by blast
  have run: "setValue qt (Suc stack) d v m = (Inr b, m2)"
    using assms(1,3) m1(1) m2(1)
    by (simp add: virtual_setData_def Key_setData_def validateDataChange_def IndexKey_validateDataChange_def Let_def ev_rules ord_def)
  have sh: "Entity_getData m2 = Entity_getData m" "Entity_getData m1 = Entity_getData m"
    using shape_at(11) [OF m2(2)] shape_at(11) [OF m1(2)] by simp_all
  have idx: "index_of qt m2 (ord ! j) = int j" if j: "j < length ord" for j
  proof (cases "ord ! j = n")
    case True
    have "length (takeWhile (\<lambda>s. s \<noteq> n) ord) = j"
      using distinct_takeWhile [OF so(2) j] True by simp
    then show ?thesis
      using m2(3) assms(2,6) getDataValue_data [of m2 n "''index''" d] True by (simp add: index_of_def sh)
  next
    case False
    obtain e where e: "Entity_getData m (ord ! j) ''index'' = Some e" using ix nth_mem [OF j] unfolding indexed_def by blast
    have "e \<noteq> d" using ix j False assms(2,4) e so(1) nth_mem [OF j] unfolding indexed_def by (metis inj_onD)
    then have "index_of qt m2 (ord ! j) = index_of qt m1 (ord ! j)"
      using m2(3) e getDataValue_data [of m2 "ord ! j" "''index''" e] getDataValue_data [of m1 "ord ! j" "''index''" e] by (simp add: index_of_def sh)
    then show ?thesis using m1(3) j False by simp
  qed
  have "sorted (map (cell_of qt m) ord)" unfolding ord_def order_by_cell_def cell_of_def by simp
  moreover have "ord = place_node n ?i ?ss" if "\<forall>s \<in> set (mn_new_nodes (node_at m p)). cell_of qt m s = cell_of qt m n"
  proof -
    have "mset (place_node n ?i ?ss) = mset ?ss" using mset_place_node [OF dist, of n ?i] assms(4) sets by simp
    then have "set (place_node n ?i ?ss) = set (mn_new_nodes (node_at m p))" using mset_eq_setD sets by blast
    then have "cell_of qt m s = cell_of qt m n" if "s \<in> set (place_node n ?i ?ss)" for s using that \<open>\<forall>s \<in> _. _\<close> by blast
    then have "map (cell_of qt m) (place_node n ?i ?ss) = map (\<lambda>_. cell_of qt m n) (place_node n ?i ?ss)" by simp
    then have "sorted (map (cell_of qt m) (place_node n ?i ?ss))" by (simp add: map_replicate_const del: map_eq_conv)
    from sort_key_id_if_sorted [OF this] show ?thesis unfolding ord_def order_by_cell_def cell_of_def .
  qed
  ultimately show ?thesis using run mo idx unfolding Let_def by blast
qed

section \<open>An example\<close>

text \<open>A model of Qt that is enough for the examples, and a node with three children: the data 24 feeds 25,
  and in the second model 25 feeds 24 again.\<close>

definition demo_match :: "string \<Rightarrow> string \<Rightarrow> string list option" where
  "demo_match p s =
     (let l = take (length p - 12) (drop 1 p) @ ''_''; r = drop (length l) s in
      if take (length l) s = l \<and> list_all is_digit r then Some (if r = [] then [] else [r]) else None)"

definition demo_qt :: Qt where
  "demo_qt = \<lparr>qt_canConvert = \<lambda>_ _. True, qt_convert = \<lambda>v _. v, qt_eq = (=),
     qt_toInt = \<lambda>v. (case v of QInt i \<Rightarrow> i | QString s \<Rightarrow> (case stoi s of Inr i \<Rightarrow> i | Inl _ \<Rightarrow> 0) | _ \<Rightarrow> 0),
     qt_toDouble = \<lambda>_. 0, qt_toString = \<lambda>v. (case v of QString s \<Rightarrow> s | QInt i \<Rightarrow> to_string i | _ \<Rightarrow> []),
     qt_toBool = \<lambda>v. v = QBool True, qt_match = demo_match, qt_uuid = \<lambda>_. None, qt_md5_hex = \<lambda>s. s, qt_createUuid = \<lambda>_. ''u''\<rparr>"

definition demo_entity :: "int \<Rightarrow> nat \<Rightarrow> nat \<Rightarrow> MEntity" where
  "demo_entity i ix lb = MEntity_blank\<lparr>me_graphml_kind := GK_NODE, me_id := i, me_data_map := [(''index'', ix), (''label'', lb)],
     me_key_lookup := [''index'', ''label'']\<rparr>"

text \<open>Node 2 is a server interface: its function name has the slot \<open>updateLabel\<close>.\<close>

definition demo_interface :: MEntity where
  "demo_interface = (demo_entity 3 12 22)\<lparr>me_data_map := [(''index'', 12), (''label'', 22), (''function_name'', 26)],
     me_key_lookup := [''index'', ''label'', ''function_name''], me_label_functional := False\<rparr>"

definition demo_data :: "string \<Rightarrow> nat \<Rightarrow> QVariant \<Rightarrow> MData" where
  "demo_data k e v = MData_blank\<lparr>da_key := k, da_parent := Some e, da_value := v\<rparr>"

definition demo_datas :: "bool \<Rightarrow> (nat \<times> MData) list" where
  "demo_datas cyclic =
     [(10, demo_data ''index'' 0 (QInt 0)), (11, demo_data ''index'' 1 (QInt 0)), (12, demo_data ''index'' 2 (QInt 1)),
      (13, demo_data ''index'' 3 (QInt 2)), (20, demo_data ''label'' 0 (QString ''p'')), (21, demo_data ''label'' 1 (QString ''a'')),
      (22, demo_data ''label'' 2 (QString ''a_1'')), (23, demo_data ''label'' 3 (QString ''b'')),
      (24, (demo_data ''description'' 1 (QString ''x''))\<lparr>da_child_datas := [25]\<rparr>),
      (25, (demo_data ''description'' 2 (QString ''y''))\<lparr>da_child_datas := (if cyclic then [24] else [])\<rparr>),
      (26, (demo_data ''function_name'' 2 (QString ''send''))\<lparr>da_slots := [SL_ServerInterface 2]\<rparr>)]"

definition demo_mm :: "bool \<Rightarrow> MModel" where
  "demo_mm cyclic =
     \<lparr>md_keys = [], md_datas = map_of (demo_datas cyclic),
      md_entities = map_of [(0, demo_entity 1 10 20), (1, demo_entity 2 11 21), (2, demo_interface), (3, demo_entity 4 13 23)],
      md_nodes = map_of [(0, MNode_blank\<lparr>mn_new_nodes := [1, 2, 3]\<rparr>), (1, MNode_blank\<lparr>mn_parent_node := Some 0\<rparr>),
        (2, MNode_blank\<lparr>mn_parent_node := Some 0\<rparr>), (3, MNode_blank\<lparr>mn_parent_node := Some 0\<rparr>)],
      md_edges = \<lambda>_. None, md_next = 100, md_signals = [], md_uuid_lookup = [], md_uuids = 0\<rparr>"

lemma demo_children: "da_child_datas (data_at (demo_mm cyclic) d) = (if d = 24 then [25] else if d = 25 \<and> cyclic then [24] else [])"
  by (simp add: data_at_def demo_mm_def demo_datas_def demo_data_def MData_blank_def)

lemma demo_keys: "da_key (data_at (demo_mm cyclic) d) \<notin> {''row'', ''column'', ''inner_type'', ''outer_type''}"
  by (simp add: data_at_def demo_mm_def demo_datas_def demo_data_def MData_blank_def)

lemma demo_index: "Entity_getData (demo_mm cyclic) e ''index'' = (if e = 0 then Some 10 else if e = 1 then Some 11 else if e = 2 then Some 12
    else if e = 3 then Some 13 else None)"
  by (simp add: Entity_getData_def Entity_getData_of_key_def Entity_getKey_def entity_at_def demo_mm_def demo_interface_def demo_entity_def MEntity_blank_def)

lemma demo_feeds: "feeds (demo_mm cyclic) = (if cyclic then {(24, 25), (25, 24)} else {(24, 25)})"
  by (auto simp: feeds_def demo_children split: if_splits)

lemma demo_slots: "da_slots (data_at (demo_mm cyclic) d) = (if d = 26 then [SL_ServerInterface 2] else [])"
  by (simp add: data_at_def demo_mm_def demo_datas_def demo_data_def MData_blank_def)

lemma demo_set_after: "set_after (demo_mm False) d = (if d = 24 then {25} else if d = 26 then {22} else {})"
proof -
  have "Entity_getData (demo_mm False) 2 ''label'' = Some 22" by code_simp
  then show ?thesis by (simp add: set_after_def demo_children demo_slots)
qed

lemma demo_written:
  "x \<in> written (demo_mm False) d \<Longrightarrow> x = d \<or> x \<in> {10, 11, 12, 13} \<and> d \<notin> {24, 26}"
proof -
  have "da_key (data_at (demo_mm False) 24) = ''description''" "da_key (data_at (demo_mm False) 26) = ''function_name''" by code_simp+
  then show "x \<in> written (demo_mm False) d \<Longrightarrow> x = d \<or> x \<in> {10, 11, 12, 13} \<and> d \<notin> {24, 26}"
    by (auto simp: written_def demo_index split: option.splits if_splits)
qed

lemma demo_sets_next: "sets_next (demo_mm False) d = (if d = 24 then {25} else if d = 26 then {22} else {})"
proof -
  have "sets_next (demo_mm False) d = (\<Union>x \<in> written (demo_mm False) d. set_after (demo_mm False) x)"
    using demo_keys [of False d] by (simp add: sets_next_def Let_def)
  also have "\<dots> = set_after (demo_mm False) d"
  proof (intro equalityI UN_least)
    fix x assume "x \<in> written (demo_mm False) d"
    then have "x = d \<or> x \<in> {10, 11, 12, 13}" using demo_written by blast
    then show "set_after (demo_mm False) x \<subseteq> set_after (demo_mm False) d" by (auto simp: demo_set_after)
  qed (use writtenI(1) in blast)
  finally show ?thesis by (simp add: demo_set_after)
qed

lemma demo_qt_sel [simp]:
  "qt_match demo_qt = demo_match" "qt_toString demo_qt (QString s) = s" "qt_toInt demo_qt (QInt i) = i"
  "qt_toInt demo_qt (QString s) = (case stoi s of Inr i \<Rightarrow> i | Inl _ \<Rightarrow> 0)" "qt_canConvert demo_qt v t" "qt_convert demo_qt v t = v"
  by (simp_all add: demo_qt_def)

lemma demo_match_laws: "label_match_laws demo_qt label"
proof -
  have "list_all is_digit (digits_of n)" for n by (auto simp: list_all_iff dest: digits_of_digits)
  then show ?thesis
    by (auto simp: label_match_laws_def demo_match_def label_regex_def Let_def stoi_to_string int_min_def int_max_def) (auto simp: to_string_def)
qed

section \<open>Properties\<close>

text \<open>
  C25. Setting a value ends when the links allow it. Take the data that setting \<open>d\<close> may come to, step by step:
  what a data feeds, the labels that the slots of its signal \<open>dataChanged\<close> compute, the index of a node
  whose row or column changes, the type computed from inner and outer type. If these data can be given
  numbers so that what is set next always has a smaller number, and none of them has one of the slots that
  are not modelled, then setting \<open>d\<close> needs at most one stack frame more than its number.
\<close>
theorem setValue_returns:
  assumes "\<And>a c. (d, a) \<in> {(a, b). b \<in> sets_next m a}\<^sup>* \<Longrightarrow> c \<in> sets_next m a \<Longrightarrow> rank c < (rank a :: nat)"
    and "\<And>a. (d, a) \<in> {(a, b). b \<in> sets_next m a}\<^sup>* \<Longrightarrow> slots_modelled m a" and "rank d < stack"
  shows "fst (setValue qt stack d v m) \<noteq> Inl stack_overflow \<and> fst (setValue qt stack d v m) \<noteq> Inl unmodelled_slot"
proof -
  let ?D = "{a. (d, a) \<in> {(a, b). b \<in> sets_next m a}\<^sup>*}"
  have "safe (\<lambda>m'. data_shape m' = data_shape m) (setValue qt stack d v)"
  proof (rule setValue_safe [where D = ?D and rank = rank])
    show "c \<in> ?D \<and> rank c < rank a" if "a \<in> ?D" "c \<in> sets_next m a" for a c
      using that assms(1) by (auto intro: rtrancl_into_rtrancl)
  qed (use assms(2,3) in auto)
  from safeD [OF this refl] show ?thesis by blast
qed

theorem setValue_returns_witness:
  "fst (setValue demo_qt 2 26 (QString ''f'') (demo_mm False)) \<noteq> Inl stack_overflow \<and>
   fst (setValue demo_qt 2 26 (QString ''f'') (demo_mm False)) \<noteq> Inl unmodelled_slot \<and> sets_next (demo_mm False) 26 = {22}"
proof -
  have r: "a = 26 \<or> a = 22" if "(26, a) \<in> {(a, b). b \<in> sets_next (demo_mm False) a}\<^sup>*" for a
    using that by (induction rule: rtrancl_induct) (auto simp: demo_sets_next)
  have "fst (setValue demo_qt 2 26 (QString ''f'') (demo_mm False)) \<noteq> Inl stack_overflow \<and>
      fst (setValue demo_qt 2 26 (QString ''f'') (demo_mm False)) \<noteq> Inl unmodelled_slot"
  proof (rule setValue_returns [where rank = "\<lambda>d. if d = 26 then 1 else 0"])
    show "slots_modelled (demo_mm False) a" if "(26, a) \<in> {(a, b). b \<in> sets_next (demo_mm False) a}\<^sup>*" for a
      using r [OF that] by (auto simp: slots_modelled_def demo_slots split: if_splits)
  qed (use r in \<open>force simp: demo_sets_next split: if_splits\<close>)+
  then show ?thesis by (simp add: demo_sets_next)
qed

text \<open>Setting the function name of a server interface sets its label.\<close>

lemma function_name_sets_label:
  "getDataValue (snd (setValue demo_qt 2 26 (QString ''f'') (demo_mm False))) 2 ''label'' = QString ''f''"
  by code_simp

text \<open>
  Links that form a cycle are fatal. When data feeds, directly or through other data, a data that
  feeds itself, then setting its value never returns, however much stack there is: \<open>updateChildren\<close> sets
  the linked data whether or not the value changed.
\<close>
theorem cyclic_links_never_return:
  assumes "(d, e) \<in> (feeds m)\<^sup>*" and "(e, e) \<in> (feeds m)\<^sup>+"
  shows "\<nexists>r m'. setValue qt stack d v m = (Inr r, m')"
proof -
  let ?C = "{x. (x, e) \<in> (feeds m)\<^sup>*}"
  have "\<exists>c \<in> ?C. c \<in> set (da_child_datas (data_at m x))" if "x \<in> ?C" for x
  proof -
    have "(x, e) \<in> (feeds m)\<^sup>+" using that assms(2) by (auto intro: rtrancl_trancl_trancl)
    then obtain c where "(x, c) \<in> feeds m" "(c, e) \<in> (feeds m)\<^sup>*" by (auto dest: tranclD)
    then show ?thesis by (auto simp: feeds_def)
  qed
  from setValue_cycle [of ?C m d m qt stack v, OF this] assms(1) show ?thesis by auto
qed

theorem cyclic_links_never_return_witness:
  "\<nexists>r m'. setValue demo_qt 1000 24 (QString ''z'') (demo_mm True) = (Inr r, m')"
proof (rule cyclic_links_never_return)
  show "(24, 24) \<in> (feeds (demo_mm True))\<^sup>*" by simp
  have "(24, 25) \<in> feeds (demo_mm True)" "(25, 24) \<in> feeds (demo_mm True)" by (simp_all add: demo_feeds)
  then show "(24, 24) \<in> (feeds (demo_mm True))\<^sup>+" by (rule trancl_into_trancl2 [OF _ r_into_trancl])
qed

text \<open>
  C26. Links carry values. For string data of the plain key class, without valid values and without slots
  on their signal, and links without cycles, setting a
  string returns, and afterwards the data and everything it feeds, directly or through other data, has
  that value; no other data has changed.
\<close>
theorem links_carry_value:
  assumes "string_laws qt" and "\<And>e. (d, e) \<in> (feeds m)\<^sup>* \<Longrightarrow> plain_data m e"
    and "\<And>a b. (d, a) \<in> (feeds m)\<^sup>* \<Longrightarrow> (a, b) \<in> feeds m \<Longrightarrow> rank b < (rank a :: nat)" and "rank d < stack"
  shows "\<exists>r m'. setValue qt stack d (QString s) m = (Inr r, m') \<and>
    (\<forall>e. da_value (data_at m' e) = (if (d, e) \<in> (feeds m)\<^sup>* then QString s else da_value (data_at m e)))"
proof -
  let ?D = "{e. (d, e) \<in> (feeds m)\<^sup>*}"
  have "\<exists>r m'. setValue qt stack d (QString s) m = (Inr r, m') \<and> carried m ((feeds m)\<^sup>* `` {d}) s m'"
    by (rule setValue_carries [where D = ?D and rank = rank, OF assms(1) _ _ _ assms(4) refl])
      (use assms(2,3) in \<open>auto intro: rtrancl_into_rtrancl\<close>)
  then show ?thesis by (auto simp: carried_def)
qed

theorem links_carry_value_witness:
  "\<exists>r m'. setValue demo_qt 2 24 (QString ''z'') (demo_mm False) = (Inr r, m') \<and>
    (\<forall>e. da_value (data_at m' e) = (if (24, e) \<in> (feeds (demo_mm False))\<^sup>* then QString ''z'' else da_value (data_at (demo_mm False) e)))"
proof (rule links_carry_value [where rank = "\<lambda>d. if d = 24 then 1 else 0"])
  show "string_laws demo_qt" by (simp add: string_laws_def)
  fix e assume "(24, e) \<in> (feeds (demo_mm False))\<^sup>*"
  then have "e = 24 \<or> e = 25" by (induction rule: rtrancl_induct) (auto simp: demo_feeds)
  then show "plain_data (demo_mm False) e"
    by (auto simp: plain_data_def key_type_def data_at_def demo_mm_def demo_datas_def demo_data_def MData_blank_def)
qed (auto simp: demo_feeds)

text \<open>
  C28. Labels are unique among siblings, provided the regular expression that is built from the wanted label
  reads it literally (that is, the label has no special characters; \<open>unique_label_overlooks\<close> shows one that
  has). When the label of a node with functional labels is set, the value that \<open>LabelKey\<close> lets through
  differs from the label of every sibling and has no blanks.
\<close>
theorem label_unique_among_siblings:
  assumes "LabelKey_validateDataChange qt d (QString label) m = (Inr v, m')"
    and "data_node m d = Some n" and "me_label_functional (entity_at m n)" and "label \<noteq> []" and "qt_toString qt (QString label) = label"
    and "label_match_laws qt (LabelKey_ValidateSystemLabel qt (da_value (data_at m d)) label)" and "int (length (getSiblings qt m n)) < int_max"
  shows "m' = m \<and> (\<exists>l. v = QString l \<and> CHR '' '' \<notin> set l \<and> CHR 0x09 \<notin> set l \<and>
    (\<forall>s \<in> set (getSiblings qt m n). qt_toString qt (getDataValue m s ''label'') \<noteq> l))"
proof -
  let ?w = "LabelKey_ValidateSystemLabel qt (da_value (data_at m d)) label"
  let ?ls = "map (\<lambda>s. qt_toString qt (getDataValue m s ''label'')) (getSiblings qt m n)"
  have v: "v = QString (unique_label qt ?w ?ls)" "m' = m"
    using assms(1-5) by (auto simp: LabelKey_validateDataChange_def Let_def ev_rules)
  have w: "CHR '' '' \<notin> set ?w" "CHR 0x09 \<notin> set ?w" using assms(4) by (auto simp: LabelKey_ValidateSystemLabel_def)
  have d: "CHR '' '' \<notin> set (to_string i)" "CHR 0x09 \<notin> set (to_string i)" for i
    using digits_of_digits [of "CHR '' ''"] digits_of_digits [of "CHR 0x09"] by (auto simp: to_string_def is_digit_def)
  have "unique_label qt ?w ?ls \<notin> set ?ls" by (rule unique_label_fresh [OF assms(6)]) (use assms(7) in simp)
  moreover have "CHR '' '' \<notin> set (unique_label qt ?w ?ls)" "CHR 0x09 \<notin> set (unique_label qt ?w ?ls)"
    using w d by (auto simp: unique_label_def)
  ultimately show ?thesis using v by (auto simp: image_iff)
qed

theorem label_unique_among_siblings_witness:
  "LabelKey_validateDataChange demo_qt 23 (QString ''a'') (demo_mm False) = (Inr (QString ''a_2''), demo_mm False) \<and>
   ''a_2'' \<notin> (\<lambda>s. qt_toString demo_qt (getDataValue (demo_mm False) s ''label'')) ` set (getSiblings demo_qt (demo_mm False) 3)"
proof -
  obtain m' where run: "LabelKey_validateDataChange demo_qt 23 (QString ''a'') (demo_mm False) = (Inr (QString ''a_2''), m')"
  proof -
    have "fst (LabelKey_validateDataChange demo_qt 23 (QString ''a'') (demo_mm False)) = Inr (QString ''a_2'')" by code_simp
    then show thesis using that by (cases "LabelKey_validateDataChange demo_qt 23 (QString ''a'') (demo_mm False)") simp
  qed
  have n: "data_node (demo_mm False) 23 = Some 3" "me_label_functional (entity_at (demo_mm False) 3)"
    "int (length (getSiblings demo_qt (demo_mm False) 3)) < int_max" by code_simp+
  show ?thesis
    using label_unique_among_siblings [OF run n(1,2) _ _ demo_match_laws n(3)] run by (auto simp: image_iff)
qed


lemma all_less_three: "(\<forall>j < Suc (Suc (Suc 0)). P j) \<longleftrightarrow> P 0 \<and> P 1 \<and> P (Suc 1)"
  by (auto simp: less_Suc_eq)


end
