(* ===== verification/MDFactory.thy ===== *)
theory MDFactory
  imports MDLinks
begin

text \<open>
  The ids that the entity factory gives to nodes, edges and keys (\<^verbatim>\<open>entityfactory.cpp\<close>). An object is
  constructed with the id -1, cached under a temporary negative id, and registered under a positive one;
  temporary ids are used again. The state is the model together with the tables of the factory.

  The objects of one factory only are modelled, so the test that an object belongs to the factory always
  succeeds. What the constructors of the subclasses do is not part of this theory.
\<close>

section \<open>Objects and their ids\<close>

datatype gobj = G_entity nat | G_key string

record MFactory =
  fa_hash :: "(int, gobj) umap"
  fa_unregistered_hash :: "(int, gobj) umap"
  fa_id_counter :: int
  fa_unregistered_id_counter :: int
  fa_reusable_unregistered_ids :: "int list"
  fa_key_ids :: "(string, int) umap"
  fa_accepted_source_edge_map :: "EDGE_KIND \<Rightarrow> nat list"
  fa_accepted_target_edge_map :: "EDGE_KIND \<Rightarrow> nat list"

type_synonym medea = "MModel \<times> MFactory"

definition EntityFactory_init :: MFactory where
  "EntityFactory_init = \<lparr>fa_hash = [], fa_unregistered_hash = [], fa_id_counter = 0, fa_unregistered_id_counter = 0,
     fa_reusable_unregistered_ids = [], fa_key_ids = [], fa_accepted_source_edge_map = \<lambda>_. [], fa_accepted_target_edge_map = \<lambda>_. []\<rparr>"

fun GraphML_getID :: "medea \<Rightarrow> gobj \<Rightarrow> int" where
  "GraphML_getID (m, f) (G_entity e) = me_id (entity_at m e)"
| "GraphML_getID (m, f) (G_key k) = (case map_of (fa_key_ids f) k of Some i \<Rightarrow> i | None \<Rightarrow> -1)"

fun GraphML_setID :: "gobj \<Rightarrow> int \<Rightarrow> medea \<Rightarrow> medea" where
  "GraphML_setID (G_entity e) i (m, f) = (upd_entity e (\<lambda>x. x\<lparr>me_id := i\<rparr>) m, f)"
| "GraphML_setID (G_key k) i (m, f) = (m, f\<lparr>fa_key_ids := umap_put k i (fa_key_ids f)\<rparr>)"

definition on_factory :: "(MFactory \<Rightarrow> MFactory) \<Rightarrow> medea \<Rightarrow> medea" where
  "on_factory g s = (fst s, g (snd s))"

section \<open>Looking up\<close>

definition getGraphML :: "MFactory \<Rightarrow> int \<Rightarrow> gobj option" where
  "getGraphML f i = (case map_of (fa_hash f) i of Some g \<Rightarrow> Some g | None \<Rightarrow> map_of (fa_unregistered_hash f) i)"

definition GetEntity :: "MFactory \<Rightarrow> int \<Rightarrow> nat option" where
  "GetEntity f i = (case getGraphML f i of Some (G_entity e) \<Rightarrow> Some e | _ \<Rightarrow> None)"

definition GetEntityByUUID :: "medea \<Rightarrow> string \<Rightarrow> nat option" where
  "GetEntityByUUID s uuid = GetEntity (snd s) (case map_of (md_uuid_lookup (fst s)) uuid of Some i \<Rightarrow> i | None \<Rightarrow> -1)"

definition UnsafeIsEntityRegistered :: "medea \<Rightarrow> gobj \<Rightarrow> bool" where
  "UnsafeIsEntityRegistered s g \<longleftrightarrow> map_of (fa_hash (snd s)) (GraphML_getID s g) = Some g"

section \<open>Giving ids\<close>

text \<open>\<open>while(id <= 0 || hash_.contains(id)) id = ++id_counter_\<close>\<close>

function count_up :: "int list \<Rightarrow> int \<Rightarrow> int" where
  "count_up used c = (if c + 1 \<le> 0 \<or> c + 1 \<in> set used then count_up used (c + 1) else c + 1)"
  by pat_completeness auto
termination
proof (relation "measure (\<lambda>(used, c). nat (Max (insert 0 (set used)) - c))")
  fix used :: "int list" and c :: int
  assume "c + 1 \<le> 0 \<or> c + 1 \<in> set used"
  then have "c + 1 \<le> Max (insert 0 (set used))" by (meson Max_ge finite.insertI finite_set insertI1 insertI2 order_trans)
  then show "((used, c + 1), used, c) \<in> measure (\<lambda>(used, c). nat (Max (insert 0 (set used)) - c))" by auto
qed simp

declare count_up.simps [simp del]

definition getFreeID :: "int \<Rightarrow> MFactory \<Rightarrow> int \<times> MFactory" where
  "getFreeID start_id f =
     (if start_id \<le> 0 \<or> umap_count (fa_hash f) start_id
      then let i = count_up (umap_keys (fa_hash f)) (fa_id_counter f) in (i, f\<lparr>fa_id_counter := i\<rparr>)
      else (start_id, f))"

definition getUnregisteredFreeID :: "MFactory \<Rightarrow> int \<times> MFactory" where
  "getUnregisteredFreeID f =
     (case fa_reusable_unregistered_ids f of
        i # rest \<Rightarrow> (i, f\<lparr>fa_reusable_unregistered_ids := rest\<rparr>)
      | [] \<Rightarrow> (fa_unregistered_id_counter f - 1, f\<lparr>fa_unregistered_id_counter := fa_unregistered_id_counter f - 1\<rparr>))"

definition UnregisterTempID :: "gobj \<Rightarrow> medea \<Rightarrow> bool \<times> medea" where
  "UnregisterTempID g s =
     (let i = GraphML_getID s g in
      if umap_count (fa_unregistered_hash (snd s)) i
      then (True, on_factory (\<lambda>f. f\<lparr>fa_unregistered_hash := umap_erase i (fa_unregistered_hash f),
              fa_reusable_unregistered_ids := fa_reusable_unregistered_ids f @ [i]\<rparr>) s)
      else (False, s))"

definition CacheEntityAsUnregistered :: "gobj \<Rightarrow> medea \<Rightarrow> medea" where
  "CacheEntityAsUnregistered g s =
     (let (i, f) = getUnregisteredFreeID (snd s) in
      on_factory (\<lambda>f. f\<lparr>fa_unregistered_hash := umap_emplace i g (fa_unregistered_hash f)\<rparr>) (GraphML_setID g i (fst s, f)))"

definition DeregisterGraphML :: "gobj \<Rightarrow> medea \<Rightarrow> medea" where
  "DeregisterGraphML g s =
     (let i = GraphML_getID s g in
      on_factory (\<lambda>f. f\<lparr>fa_hash := umap_erase i (fa_hash f), fa_unregistered_hash := umap_erase i (fa_unregistered_hash f)\<rparr>) s)"

section \<open>Which nodes accept which edges\<close>

text \<open>The registered edge kinds, which are all but \<open>NONE\<close>.\<close>

definition getEdgeKinds :: "EDGE_KIND list" where
  "getEdgeKinds = [EK_DEFINITION, EK_AGGREGATE, EK_ASSEMBLY, EK_DATA, EK_DEPLOYMENT, EK_QOS, EK_TRIGGER]"

definition update_member :: "'a \<Rightarrow> bool \<Rightarrow> 'a list \<Rightarrow> 'a list" where
  "update_member x present xs = (if present then List.insert x xs else removeAll x xs)"

definition AcceptedEdgeKindsChanged :: "nat \<Rightarrow> medea \<Rightarrow> medea" where
  "AcceptedEdgeKindsChanged n s =
     (let x = node_at (fst s) n in
      on_factory (\<lambda>f. f\<lparr>
        fa_accepted_source_edge_map := (\<lambda>k. if k \<in> set getEdgeKinds
          then update_member n (k \<in> set (mn_accepted_edge_kinds_as_source x)) (fa_accepted_source_edge_map f k) else fa_accepted_source_edge_map f k),
        fa_accepted_target_edge_map := (\<lambda>k. if k \<in> set getEdgeKinds
          then update_member n (k \<in> set (mn_accepted_edge_kinds_as_target x)) (fa_accepted_target_edge_map f k) else fa_accepted_target_edge_map f k)\<rparr>) s)"

definition clearAcceptedEdgeKinds :: "nat \<Rightarrow> medea \<Rightarrow> medea" where
  "clearAcceptedEdgeKinds n =
     on_factory (\<lambda>f. f\<lparr>
       fa_accepted_source_edge_map := (\<lambda>k. if k \<in> set getEdgeKinds then removeAll n (fa_accepted_source_edge_map f k) else fa_accepted_source_edge_map f k),
       fa_accepted_target_edge_map := (\<lambda>k. if k \<in> set getEdgeKinds then removeAll n (fa_accepted_target_edge_map f k) else fa_accepted_target_edge_map f k)\<rparr>)"

definition GetNodesWhichAcceptEdgeKinds :: "MFactory \<Rightarrow> EDGE_KIND \<Rightarrow> EDGE_DIRECTION \<Rightarrow> nat list" where
  "GetNodesWhichAcceptEdgeKinds f k direction =
     (case direction of ED_SOURCE \<Rightarrow> fa_accepted_source_edge_map f k | ED_TARGET \<Rightarrow> fa_accepted_target_edge_map f k)"

section \<open>Registering\<close>

definition RegisterEntity :: "Qt \<Rightarrow> nat \<Rightarrow> gobj \<Rightarrow> int \<Rightarrow> (medea, bool) em" where
  "RegisterEntity qt stack g desired_id =
     bindE getE (\<lambda>s.
     if UnsafeIsEntityRegistered s g then returnE False
     else case UnregisterTempID g s of
       (False, _) \<Rightarrow> throwE (RuntimeError ''Couldn't unregister Temp Entity.'')
     | (True, s1) \<Rightarrow>
         let (i, f) = getFreeID desired_id (snd s1) in
         bindE (modifyE (\<lambda>_. (fst s1, f))) (\<lambda>_.
         bindE getE (\<lambda>s2.
         if GraphML_getID s2 g > 0 then throwE (RuntimeError ''Trying to Register Entity which already somehow has a valid ID.'')
         else if umap_count (fa_hash (snd s2)) i then throwE (RuntimeError ''Trying to Register Entity which already in registry.'')
         else
           bindE (modifyE (\<lambda>s. on_factory (\<lambda>f. f\<lparr>fa_hash := umap_put i g (fa_hash f)\<rparr>) (GraphML_setID g i s))) (\<lambda>_.
           bindE (case g of
                    G_key _ \<Rightarrow> returnE ()
                  | G_entity e \<Rightarrow>
                      bindE getE (\<lambda>s3.
                      bindE (case Entity_getData (fst s3) e ''uuid'' of
                               Some d \<Rightarrow> on_fst (bindE (revalidateData qt stack d) (\<lambda>_. returnE ()))
                             | None \<Rightarrow> returnE ()) (\<lambda>_.
                      whenE (isNode (fst s3) e) (modifyE (AcceptedEdgeKindsChanged e))))) (\<lambda>_.
           returnE True)))))"

text \<open>The type of a key and whether it is protected follow from its name.\<close>

definition key_of_name :: "string \<Rightarrow> QType \<Rightarrow> MKey" where
  "key_of_name key_name t =
     \<lparr>ky_type = (if key_name \<in> {''index'', ''row'', ''column'', ''replicate_count''} then QT_Int
                 else if key_name = ''frequency'' then QT_Double
                 else if key_name \<in> {''label'', ''uuid'', ''inner_type'', ''outer_type'', ''type'', ''namespace'', ''operation'', ''version''} then QT_String
                 else t),
      ky_protected = (key_name = ''uuid'')\<rparr>"

definition GetKey :: "Qt \<Rightarrow> nat \<Rightarrow> string \<Rightarrow> QType \<Rightarrow> (medea, string) em" where
  "GetKey qt stack key_name t =
     bindE getE (\<lambda>s.
     if umap_count (fa_key_ids (snd s)) key_name then returnE key_name
     else
       bindE (modifyE (\<lambda>(m, f). (m\<lparr>md_keys := umap_put key_name (key_of_name key_name t) (md_keys m)\<rparr>,
                f\<lparr>fa_key_ids := umap_put key_name (-1) (fa_key_ids f)\<rparr>))) (\<lambda>_.
       bindE (modifyE (CacheEntityAsUnregistered (G_key key_name))) (\<lambda>_.
       bindE (RegisterEntity qt stack (G_key key_name) (-1)) (\<lambda>_.
       returnE key_name))))"

text \<open>The constructor of \<open>GraphML\<close> for an entity at a fresh address, and the end of its destructor.\<close>

definition GraphML_ctor :: "nat \<Rightarrow> GRAPHML_KIND \<Rightarrow> medea \<Rightarrow> medea" where
  "GraphML_ctor e kind s =
     ((fst s)\<lparr>md_entities := (md_entities (fst s))(e \<mapsto> MEntity_blank\<lparr>me_graphml_kind := kind\<rparr>)\<rparr>, snd s)"

definition GraphML_dtor :: "nat \<Rightarrow> medea \<Rightarrow> medea" where
  "GraphML_dtor e s =
     (let s' = DeregisterGraphML (G_entity e) s in ((fst s')\<lparr>md_entities := (md_entities (fst s'))(e := None)\<rparr>, snd s'))"

section \<open>The tables and the objects\<close>

lemma count_up_free: "0 < count_up used c" "count_up used c \<notin> set used" "c < count_up used c"
proof (induction used c rule: count_up.induct)
  case (1 used c)
  { case 1 then show ?case using "1.IH"(1) by (subst count_up.simps) auto }
  { case 2 then show ?case using "1.IH"(2) by (subst count_up.simps) auto }
  { case 3 then show ?case using "1.IH"(3) by (subst count_up.simps) force }
qed

lemma getFreeID_free:
  "0 < fst (getFreeID i f)" "map_of (fa_hash f) (fst (getFreeID i f)) = None"
  using count_up_free(1,2) [of "umap_keys (fa_hash f)" "fa_id_counter f"]
  by (auto simp: getFreeID_def Let_def umap_count_keys map_of_eq_None_iff umap_count_def)

lemma getFreeID_wanted: "0 < i \<Longrightarrow> map_of (fa_hash f) i = None \<Longrightarrow> fst (getFreeID i f) = i"
  by (simp add: getFreeID_def umap_count_def)

lemma getFreeID_frame [simp]:
  "fa_hash (snd (getFreeID i f)) = fa_hash f" "fa_unregistered_hash (snd (getFreeID i f)) = fa_unregistered_hash f"
  "fa_reusable_unregistered_ids (snd (getFreeID i f)) = fa_reusable_unregistered_ids f"
  "fa_unregistered_id_counter (snd (getFreeID i f)) = fa_unregistered_id_counter f" "fa_key_ids (snd (getFreeID i f)) = fa_key_ids f"
  by (auto simp: getFreeID_def Let_def)

fun alive :: "medea \<Rightarrow> gobj \<Rightarrow> bool" where
  "alive s (G_entity e) = (md_entities (fst s) e \<noteq> None)"
| "alive s (G_key k) = umap_count (fa_key_ids (snd s)) k"

lemma getID_set:
  "alive s g \<Longrightarrow> GraphML_getID (GraphML_setID g i s) h = (if h = g then i else GraphML_getID s h)"
  by (cases s; cases g; cases h) (auto split: option.split)

lemma alive_set: "alive s g \<Longrightarrow> alive (GraphML_setID g i s) h = alive s h"
  by (cases s; cases g; cases h) (auto simp: upd_entity_def umap_count_def umap_put_def)

lemma setID_tables [simp]:
  "fa_hash (snd (GraphML_setID g i s)) = fa_hash (snd s)" "fa_unregistered_hash (snd (GraphML_setID g i s)) = fa_unregistered_hash (snd s)"
  "fa_reusable_unregistered_ids (snd (GraphML_setID g i s)) = fa_reusable_unregistered_ids (snd s)"
  "fa_unregistered_id_counter (snd (GraphML_setID g i s)) = fa_unregistered_id_counter (snd s)"
  by (cases s; cases g; simp)+

text \<open>The ids that the tables of the factory know, apart from the objects in \<open>B\<close> that are being constructed.\<close>

definition ids_ok :: "medea \<Rightarrow> gobj set \<Rightarrow> bool" where
  "ids_ok s B \<longleftrightarrow>
     (\<forall>i g. map_of (fa_hash (snd s)) i = Some g \<longrightarrow> 0 < i \<and> alive s g \<and> GraphML_getID s g = i \<and> g \<notin> B) \<and>
     (\<forall>i g. map_of (fa_unregistered_hash (snd s)) i = Some g \<longrightarrow>
        i < 0 \<and> fa_unregistered_id_counter (snd s) \<le> i \<and> alive s g \<and> GraphML_getID s g = i \<and> g \<notin> B) \<and>
     distinct (fa_reusable_unregistered_ids (snd s)) \<and>
     (\<forall>i \<in> set (fa_reusable_unregistered_ids (snd s)).
        i < 0 \<and> fa_unregistered_id_counter (snd s) \<le> i \<and> map_of (fa_unregistered_hash (snd s)) i = None) \<and>
     fa_unregistered_id_counter (snd s) \<le> 0 \<and>
     (\<forall>g \<in> B. alive s g \<and> GraphML_getID s g = -1) \<and>
     (\<forall>g. alive s g \<longrightarrow> g \<notin> B \<longrightarrow>
        map_of (fa_hash (snd s)) (GraphML_getID s g) = Some g \<or> map_of (fa_unregistered_hash (snd s)) (GraphML_getID s g) = Some g)"

lemma ids_okD:
  assumes "ids_ok s B"
  shows "map_of (fa_hash (snd s)) i = Some g \<Longrightarrow> 0 < i \<and> alive s g \<and> GraphML_getID s g = i \<and> g \<notin> B"
    and "map_of (fa_unregistered_hash (snd s)) i = Some g \<Longrightarrow>
      i < 0 \<and> fa_unregistered_id_counter (snd s) \<le> i \<and> alive s g \<and> GraphML_getID s g = i \<and> g \<notin> B"
    and "g \<in> B \<Longrightarrow> alive s g \<and> GraphML_getID s g = -1"
    and "alive s g \<Longrightarrow> g \<notin> B \<Longrightarrow>
      map_of (fa_hash (snd s)) (GraphML_getID s g) = Some g \<or> map_of (fa_unregistered_hash (snd s)) (GraphML_getID s g) = Some g"
  using assms unfolding ids_ok_def by blast+

lemma ids_okI:
  assumes "\<And>i g. map_of (fa_hash (snd s)) i = Some g \<Longrightarrow> 0 < i \<and> alive s g \<and> GraphML_getID s g = i \<and> g \<notin> B"
    and "\<And>i g. map_of (fa_unregistered_hash (snd s)) i = Some g \<Longrightarrow>
      i < 0 \<and> fa_unregistered_id_counter (snd s) \<le> i \<and> alive s g \<and> GraphML_getID s g = i \<and> g \<notin> B"
    and "distinct (fa_reusable_unregistered_ids (snd s))"
    and "\<And>i. i \<in> set (fa_reusable_unregistered_ids (snd s)) \<Longrightarrow>
      i < 0 \<and> fa_unregistered_id_counter (snd s) \<le> i \<and> map_of (fa_unregistered_hash (snd s)) i = None"
    and "fa_unregistered_id_counter (snd s) \<le> 0"
    and "\<And>g. g \<in> B \<Longrightarrow> alive s g \<and> GraphML_getID s g = -1"
    and "\<And>g. alive s g \<Longrightarrow> g \<notin> B \<Longrightarrow>
      map_of (fa_hash (snd s)) (GraphML_getID s g) = Some g \<or> map_of (fa_unregistered_hash (snd s)) (GraphML_getID s g) = Some g"
  shows "ids_ok s B"
  unfolding ids_ok_def using assms by blast

lemma ids_ok_reusable:
  assumes "ids_ok s B"
  shows "distinct (fa_reusable_unregistered_ids (snd s))" "fa_unregistered_id_counter (snd s) \<le> 0"
    "i \<in> set (fa_reusable_unregistered_ids (snd s)) \<Longrightarrow>
      i < 0 \<and> fa_unregistered_id_counter (snd s) \<le> i \<and> map_of (fa_unregistered_hash (snd s)) i = None"
  using assms unfolding ids_ok_def by blast+

text \<open>Only the ids and the tables matter.\<close>

lemma ids_ok_cong:
  assumes "ids_ok s B" and "\<And>g. alive s' g = alive s g" and "\<And>g. GraphML_getID s' g = GraphML_getID s g"
    and "fa_hash (snd s') = fa_hash (snd s)" and "fa_unregistered_hash (snd s') = fa_unregistered_hash (snd s)"
    and "fa_reusable_unregistered_ids (snd s') = fa_reusable_unregistered_ids (snd s)"
    and "fa_unregistered_id_counter (snd s') = fa_unregistered_id_counter (snd s)"
  shows "ids_ok s' B"
  using assms unfolding ids_ok_def by simp

lemma ids_ok_found: "ids_ok s B \<Longrightarrow> alive s g \<Longrightarrow> g \<notin> B \<Longrightarrow> getGraphML (snd s) (GraphML_getID s g) = Some g"
proof -
  assume ok: "ids_ok s B" and g: "alive s g" "g \<notin> B"
  from ids_okD(4) [OF ok g] show ?thesis
  proof
    assume u: "map_of (fa_unregistered_hash (snd s)) (GraphML_getID s g) = Some g"
    have "map_of (fa_hash (snd s)) (GraphML_getID s g) = None"
      using ids_okD(2) [OF ok u] ids_okD(1) [OF ok, of "GraphML_getID s g"]
      by (cases "map_of (fa_hash (snd s)) (GraphML_getID s g)") auto
    then show ?thesis using u by (simp add: getGraphML_def)
  qed (simp add: getGraphML_def)
qed

lemma ids_ok_ctor:
  assumes "ids_ok s B" and "md_entities (fst s) e = None"
  shows "ids_ok (GraphML_ctor e kind s) (insert (G_entity e) B)"
proof -
  let ?s = "GraphML_ctor e kind s"
  have a: "alive ?s g \<longleftrightarrow> alive s g \<or> g = G_entity e" for g by (cases g) (auto simp: GraphML_ctor_def)
  have d: "\<not> alive s (G_entity e)" using assms(2) by simp
  have i: "GraphML_getID ?s g = (if g = G_entity e then -1 else GraphML_getID s g)" for g
    by (cases s; cases g) (auto simp: GraphML_ctor_def entity_at_def MEntity_blank_def)
  have t: "snd ?s = snd s" by (simp add: GraphML_ctor_def)
  have n: "g \<noteq> G_entity e" if "alive s g" for g using that d by blast
  show ?thesis using assms(1) n unfolding ids_ok_def a i t by auto
qed

lemma ids_ok_cache:
  assumes "ids_ok s B" and "g \<in> B"
  shows "ids_ok (CacheEntityAsUnregistered g s) (B - {g})"
proof -
  obtain i f where f: "getUnregisteredFreeID (snd s) = (i, f)" by (cases "getUnregisteredFreeID (snd s)")
  let ?c = "fa_unregistered_id_counter (snd s)"
  have new: "i < 0" "map_of (fa_unregistered_hash (snd s)) i = None" "fa_unregistered_id_counter f \<le> i" "fa_unregistered_id_counter f \<le> ?c"
    "i \<notin> set (fa_reusable_unregistered_ids f)" "set (fa_reusable_unregistered_ids f) \<subseteq> set (fa_reusable_unregistered_ids (snd s))"
    "distinct (fa_reusable_unregistered_ids f)"
    and frame: "fa_hash f = fa_hash (snd s)" "fa_unregistered_hash f = fa_unregistered_hash (snd s)" "fa_key_ids f = fa_key_ids (snd s)"
  proof -
    have n: "map_of (fa_unregistered_hash (snd s)) (?c - 1) = None"
      using ids_okD(2) [OF assms(1), of "?c - 1"] by (cases "map_of (fa_unregistered_hash (snd s)) (?c - 1)") auto
    have r: "j \<in> set (fa_reusable_unregistered_ids (snd s)) \<Longrightarrow> ?c \<le> j \<and> j < 0 \<and> map_of (fa_unregistered_hash (snd s)) j = None" for j
      using assms(1) unfolding ids_ok_def by blast
    have "?c \<le> 0" "distinct (fa_reusable_unregistered_ids (snd s))" using assms(1) unfolding ids_ok_def by blast+
    with n r f show "i < 0" "map_of (fa_unregistered_hash (snd s)) i = None" "fa_unregistered_id_counter f \<le> i"
      "fa_unregistered_id_counter f \<le> ?c" "i \<notin> set (fa_reusable_unregistered_ids f)"
      "set (fa_reusable_unregistered_ids f) \<subseteq> set (fa_reusable_unregistered_ids (snd s))" "distinct (fa_reusable_unregistered_ids f)"
      "fa_hash f = fa_hash (snd s)" "fa_unregistered_hash f = fa_unregistered_hash (snd s)" "fa_key_ids f = fa_key_ids (snd s)"
      by (auto simp: getUnregisteredFreeID_def split: list.splits)
  qed
  have same: "alive (fst s, f) h = alive s h" "GraphML_getID (fst s, f) h = GraphML_getID s h" for h
    using frame(3) by (cases s; cases h; simp)+
  have ag: "alive (fst s, f) g" using ids_okD(3) [OF assms] same by simp
  let ?s = "CacheEntityAsUnregistered g s"
  have s: "?s = on_factory (\<lambda>f. f\<lparr>fa_unregistered_hash := umap_emplace i g (fa_unregistered_hash f)\<rparr>) (GraphML_setID g i (fst s, f))"
    by (simp add: CacheEntityAsUnregistered_def f)
  have keys: "alive (on_factory (\<lambda>f. f\<lparr>fa_unregistered_hash := u f\<rparr>) t) h = alive t h"
    "GraphML_getID (on_factory (\<lambda>f. f\<lparr>fa_unregistered_hash := u f\<rparr>) t) h = GraphML_getID t h" for u t h
    by (cases t; cases h; simp add: on_factory_def)+
  have a: "alive ?s h = alive s h" for h unfolding s keys(1) alive_set [OF ag] same(1) ..
  have d: "GraphML_getID ?s h = (if h = g then i else GraphML_getID s h)" for h
    unfolding s keys(2) getID_set [OF ag] same(2) ..
  have t: "fa_hash (snd ?s) = fa_hash (snd s)" "fa_unregistered_hash (snd ?s) = umap_emplace i g (fa_unregistered_hash (snd s))"
    "fa_reusable_unregistered_ids (snd ?s) = fa_reusable_unregistered_ids f" "fa_unregistered_id_counter (snd ?s) = fa_unregistered_id_counter f"
    by (simp_all add: s on_factory_def frame)
  have m: "map_of (umap_emplace i g (fa_unregistered_hash (snd s))) j = (if j = i then Some g else map_of (fa_unregistered_hash (snd s)) j)" for j
    using new(2) by (simp add: umap_count_def)
  have gB: "map_of (fa_hash (snd s)) j = Some g \<Longrightarrow> False" "map_of (fa_unregistered_hash (snd s)) j = Some g \<Longrightarrow> False" for j
    using ids_okD(1,2) [OF assms(1)] assms(2) by blast+
  show ?thesis
  proof (rule ids_okI, unfold a d t m)
    fix j h assume h: "map_of (fa_hash (snd s)) j = Some h"
    then have "h \<noteq> g" using gB(1) by blast
    then show "0 < j \<and> alive s h \<and> (if h = g then i else GraphML_getID s h) = j \<and> h \<notin> B - {g}"
      using ids_okD(1) [OF assms(1) h] by simp
  next
    fix j h assume h: "(if j = i then Some g else map_of (fa_unregistered_hash (snd s)) j) = Some h"
    show "j < 0 \<and> fa_unregistered_id_counter f \<le> j \<and> alive s h \<and> (if h = g then i else GraphML_getID s h) = j \<and> h \<notin> B - {g}"
    proof (cases "j = i")
      case True
      then show ?thesis using h new(1,3) ids_okD(3) [OF assms] by simp
    next
      case False
      with h have u: "map_of (fa_unregistered_hash (snd s)) j = Some h" by simp
      then have "h \<noteq> g" using gB(2) by blast
      then show ?thesis using ids_okD(2) [OF assms(1) u] new(4) by simp
    qed
  next
    fix j assume j: "j \<in> set (fa_reusable_unregistered_ids f)"
    then have "j \<noteq> i" using new(5) by blast
    then show "j < 0 \<and> fa_unregistered_id_counter f \<le> j \<and> (if j = i then Some g else map_of (fa_unregistered_hash (snd s)) j) = None"
      using ids_ok_reusable(3) [OF assms(1), of j] j new(4,6) by auto
  next
    fix h assume "h \<in> B - {g}"
    then show "alive s h \<and> (if h = g then i else GraphML_getID s h) = -1" using ids_okD(3) [OF assms(1)] by simp
  next
    fix h assume h: "alive s h" "h \<notin> B - {g}"
    show "map_of (fa_hash (snd s)) (if h = g then i else GraphML_getID s h) = Some h \<or>
      (if (if h = g then i else GraphML_getID s h) = i then Some g else map_of (fa_unregistered_hash (snd s)) (if h = g then i else GraphML_getID s h)) = Some h"
      using h new(2) ids_okD(4) [OF assms(1) h(1)] by auto
  qed (use new(7) new(4) ids_ok_reusable(2) [OF assms(1)] in auto)
qed

lemma ids_ok_registered:
  assumes "ids_ok s B" and "map_of (fa_unregistered_hash (snd s)) (GraphML_getID s g) = Some g"
    and "0 < i" and "map_of (fa_hash (snd s)) i = None"
    and a: "\<And>h. alive s' h = alive s h" and d: "\<And>h. GraphML_getID s' h = (if h = g then i else GraphML_getID s h)"
    and t: "fa_hash (snd s') = umap_put i g (fa_hash (snd s))"
      "fa_unregistered_hash (snd s') = umap_erase (GraphML_getID s g) (fa_unregistered_hash (snd s))"
      "fa_reusable_unregistered_ids (snd s') = fa_reusable_unregistered_ids (snd s) @ [GraphML_getID s g]"
      "fa_unregistered_id_counter (snd s') = fa_unregistered_id_counter (snd s)"
  shows "ids_ok s' B"
proof -
  let ?j = "GraphML_getID s g"
  have g: "?j < 0" "fa_unregistered_id_counter (snd s) \<le> ?j" "alive s g" "g \<notin> B"
    using ids_okD(2) [OF assms(1,2)] by auto
  have ng: "h \<noteq> g" if "map_of (fa_hash (snd s)) k = Some h" for h k
    using ids_okD(1) [OF assms(1) that] g(1) by auto
  have ug: "k = ?j" if "map_of (fa_unregistered_hash (snd s)) k = Some g" for k
    using ids_okD(2) [OF assms(1) that] by auto
  show ?thesis
  proof (rule ids_okI, unfold a d t map_of_umap_put map_of_umap_erase)
    fix k h assume "(if k = i then Some g else map_of (fa_hash (snd s)) k) = Some h"
    then show "0 < k \<and> alive s h \<and> (if h = g then i else GraphML_getID s h) = k \<and> h \<notin> B"
      using assms(3) g ids_okD(1) [OF assms(1), of k h] ng [of k h] by (auto split: if_splits)
  next
    fix k h assume h: "(if k = ?j then None else map_of (fa_unregistered_hash (snd s)) k) = Some h"
    then show "k < 0 \<and> fa_unregistered_id_counter (snd s) \<le> k \<and> alive s h \<and> (if h = g then i else GraphML_getID s h) = k \<and> h \<notin> B"
      using ids_okD(2) [OF assms(1), of k h] ug [of k] by (auto split: if_splits)
  next
    have "?j \<notin> set (fa_reusable_unregistered_ids (snd s))" using ids_ok_reusable(3) [OF assms(1), of ?j] assms(2) by auto
    then show "distinct (fa_reusable_unregistered_ids (snd s) @ [?j])" using ids_ok_reusable(1) [OF assms(1)] by simp
    fix k assume "k \<in> set (fa_reusable_unregistered_ids (snd s) @ [?j])"
    then show "k < 0 \<and> fa_unregistered_id_counter (snd s) \<le> k \<and> (if k = ?j then None else map_of (fa_unregistered_hash (snd s)) k) = None"
      using ids_ok_reusable(3) [OF assms(1), of k] g by auto
  next
    fix h assume "h \<in> B"
    then show "alive s h \<and> (if h = g then i else GraphML_getID s h) = -1" using ids_okD(3) [OF assms(1)] g(4) by auto
  next
    fix h assume h: "alive s h" "h \<notin> B"
    show "(if (if h = g then i else GraphML_getID s h) = i then Some g else map_of (fa_hash (snd s)) (if h = g then i else GraphML_getID s h)) = Some h \<or>
      (if (if h = g then i else GraphML_getID s h) = ?j then None else map_of (fa_unregistered_hash (snd s)) (if h = g then i else GraphML_getID s h)) = Some h"
    proof (cases "h = g")
      case False
      from ids_okD(4) [OF assms(1) h] False show ?thesis using assms(2,4) g(1) ids_okD(1) [OF assms(1), of "GraphML_getID s h" h] by auto
    qed simp
  qed (rule ids_ok_reusable(2) [OF assms(1)])
qed

lemma getID_frame:
  "md_entities m' = md_entities m \<Longrightarrow> fa_key_ids f' = fa_key_ids f \<Longrightarrow> GraphML_getID (m', f') g = GraphML_getID (m, f) g"
  "md_entities m' = md_entities m \<Longrightarrow> fa_key_ids f' = fa_key_ids f \<Longrightarrow> alive (m', f') g = alive (m, f) g"
  by (cases g; simp add: entity_at_def)+

lemma ids_ok_frame:
  assumes "ids_ok s B" and "md_entities (fst s') = md_entities (fst s)" and "fa_key_ids (snd s') = fa_key_ids (snd s)"
    and "fa_hash (snd s') = fa_hash (snd s)" and "fa_unregistered_hash (snd s') = fa_unregistered_hash (snd s)"
    and "fa_reusable_unregistered_ids (snd s') = fa_reusable_unregistered_ids (snd s)"
    and "fa_unregistered_id_counter (snd s') = fa_unregistered_id_counter (snd s)"
  shows "ids_ok s' B"
  by (rule ids_ok_cong [OF assms(1)])
    (use assms getID_frame [of "fst s'" "fst s" "snd s'" "snd s"] in simp_all)

text \<open>What the ids depend on.\<close>

definition id_view :: "medea \<Rightarrow> (nat \<Rightarrow> MEntity option) \<times> (string, int) umap \<times> (int, gobj) umap \<times> (int, gobj) umap \<times> int list \<times> int" where
  "id_view s = (md_entities (fst s), fa_key_ids (snd s), fa_hash (snd s), fa_unregistered_hash (snd s),
     fa_reusable_unregistered_ids (snd s), fa_unregistered_id_counter (snd s))"

lemma id_viewD:
  assumes "id_view s' = id_view s"
  shows "ids_ok s' B = ids_ok s B" "GraphML_getID s' g = GraphML_getID s g" "getGraphML (snd s') = getGraphML (snd s)"
    "fa_reusable_unregistered_ids (snd s') = fa_reusable_unregistered_ids (snd s)"
proof -
  have e: "md_entities (fst s') = md_entities (fst s)" "fa_key_ids (snd s') = fa_key_ids (snd s)" "fa_hash (snd s') = fa_hash (snd s)"
    "fa_unregistered_hash (snd s') = fa_unregistered_hash (snd s)" "fa_reusable_unregistered_ids (snd s') = fa_reusable_unregistered_ids (snd s)"
    "fa_unregistered_id_counter (snd s') = fa_unregistered_id_counter (snd s)"
    using assms by (simp_all add: id_view_def)
  then show "ids_ok s' B = ids_ok s B" using ids_ok_frame [of s B s'] ids_ok_frame [of s' B s] by metis
  show "GraphML_getID s' g = GraphML_getID s g"
    using getID_frame(1) [of "fst s'" "fst s" "snd s'" "snd s"] e by simp
  show "getGraphML (snd s') = getGraphML (snd s)" unfolding getGraphML_def e ..
qed (use assms in \<open>simp add: id_view_def\<close>)

lemma id_view_on_fst:
  assumes "\<And>S. preserves (\<lambda>m. data_shape m = S) p"
  shows "preserves (\<lambda>s. id_view s = V) (on_fst p)"
proof (rule preservesI)
  fix s :: medea assume v: "id_view s = V"
  obtain m f where s: "s = (m, f)" by (cases s)
  obtain r m' where p: "p m = (r, m')" by (cases "p m")
  have "data_shape m' = data_shape m" using preservesD [OF assms refl p] .
  then have "md_entities m' = md_entities m" by (simp add: data_shape_def)
  then show "id_view (snd (on_fst p s)) = V" using v by (simp add: s ev_on_fst p id_view_def)
qed

lemma RegisterEntity_temporary:
  assumes "ids_ok s B" and "alive s g" and "g \<notin> B" and "\<not> UnsafeIsEntityRegistered s g"
  obtains i s1 where "id_view (snd (RegisterEntity qt stack g want s)) = id_view s1" "ids_ok s1 B" "GraphML_getID s1 g = i" "0 < i"
    "fa_reusable_unregistered_ids (snd s1) = fa_reusable_unregistered_ids (snd s) @ [GraphML_getID s g]"
    "0 < want \<Longrightarrow> map_of (fa_hash (snd s)) want = None \<Longrightarrow> i = want"
proof -
  have u: "map_of (fa_unregistered_hash (snd s)) (GraphML_getID s g) = Some g"
    using ids_okD(4) [OF assms(1-3)] assms(4) by (simp add: UnsafeIsEntityRegistered_def)
  let ?j = "GraphML_getID s g"
  let ?f1 = "(snd s)\<lparr>fa_unregistered_hash := umap_erase ?j (fa_unregistered_hash (snd s)),
              fa_reusable_unregistered_ids := fa_reusable_unregistered_ids (snd s) @ [?j]\<rparr>"
  have un: "UnregisterTempID g s = (True, (fst s, ?f1))" using u by (simp add: UnregisterTempID_def umap_count_def on_factory_def Let_def)
  obtain i f where f: "getFreeID want ?f1 = (i, f)" by (cases "getFreeID want ?f1")
  have i: "0 < i" "map_of (fa_hash (snd s)) i = None" using getFreeID_free [where i = want and f = ?f1] f by simp_all
  have ff: "fa_hash f = fa_hash (snd s)" "fa_unregistered_hash f = fa_unregistered_hash ?f1" "fa_key_ids f = fa_key_ids (snd s)"
    "fa_reusable_unregistered_ids f = fa_reusable_unregistered_ids ?f1" "fa_unregistered_id_counter f = fa_unregistered_id_counter (snd s)"
    using getFreeID_frame [where i = want and f = ?f1] f by simp_all
  have same: "GraphML_getID (fst s, f) h = GraphML_getID s h" "alive (fst s, f) h = alive s h" for h
    using getID_frame [of "fst s" "fst s" f "snd s"] ff(3) by simp_all
  let ?s = "on_factory (\<lambda>f. f\<lparr>fa_hash := umap_put i g (fa_hash f)\<rparr>) (GraphML_setID g i (fst s, f))"
  have keep: "GraphML_getID (on_factory (\<lambda>f. f\<lparr>fa_hash := u f\<rparr>) t) h = GraphML_getID t h" "alive (on_factory (\<lambda>f. f\<lparr>fa_hash := u f\<rparr>) t) h = alive t h" for u t h
    by (cases t; cases h; simp add: on_factory_def)+
  have ag: "alive (fst s, f) g" using assms(2) same(2) by simp
  have tables: "fa_hash (snd ?s) = umap_put i g (fa_hash (snd s))" "fa_unregistered_hash (snd ?s) = umap_erase ?j (fa_unregistered_hash (snd s))"
    "fa_reusable_unregistered_ids (snd ?s) = fa_reusable_unregistered_ids (snd s) @ [?j]"
    "fa_unregistered_id_counter (snd ?s) = fa_unregistered_id_counter (snd s)"
    by (simp_all add: on_factory_def ff)
  have ok: "ids_ok ?s B"
    by (rule ids_ok_registered [OF assms(1) u i _ _ tables]) (unfold keep getID_set [OF ag] alive_set [OF ag] same, rule refl, rule refl)
  let ?tail = "bindE (case g of G_key _ \<Rightarrow> returnE () | G_entity e \<Rightarrow>
      bindE getE (\<lambda>s3. bindE (case Entity_getData (fst s3) e ''uuid'' of
            Some d \<Rightarrow> on_fst (bindE (revalidateData qt stack d) (\<lambda>_. returnE ())) | None \<Rightarrow> returnE ()) (\<lambda>_.
        whenE (isNode (fst s3) e) (modifyE (AcceptedEdgeKindsChanged e))))) (\<lambda>_. returnE True)"
  have "preserves (\<lambda>s. id_view s = V) ?tail" for V
  proof -
    have "preserves (\<lambda>s. id_view s = V) (on_fst (bindE (revalidateData qt stack d) (\<lambda>_. returnE ())))" for d
      unfolding revalidateData_def by (intro id_view_on_fst pres shape_setValue)
    moreover have "id_view (AcceptedEdgeKindsChanged e s) = V" if "id_view s = V" for e s
      using that by (simp add: AcceptedEdgeKindsChanged_def Let_def on_factory_def id_view_def)
    ultimately show ?thesis
      by (cases g) (simp_all add: preserves_returnE preserves_getE preserves_bindE preserves_case_option preserves_whenE preserves_modifyE)
  qed
  from preservesD [OF this refl] have "id_view (snd (?tail ?s)) = id_view ?s" by (cases "?tail ?s") simp
  moreover have "RegisterEntity qt stack g want s = ?tail ?s"
  proof -
    have "\<not> 0 < GraphML_getID (fst s, f) g" using ids_okD(2) [OF assms(1) u] same(1) by simp
    then show ?thesis
      using assms(4) un f i ff(1) by (simp add: RegisterEntity_def run_bindE_Inr Let_def umap_count_def)
  qed
  moreover have "GraphML_getID ?s g = i" by (simp add: keep getID_set [OF ag])
  moreover have "i = want" if "0 < want" "map_of (fa_hash (snd s)) want = None"
    using getFreeID_wanted [OF that(1), of ?f1] that(2) f by simp
  ultimately show thesis using ok i(1) tables(3) by (intro that [of ?s i]) simp_all
qed

lemma ids_ok_register:
  assumes "ids_ok s B" and "alive s g" and "g \<notin> B"
  shows "ids_ok (snd (RegisterEntity qt stack g want s)) B"
proof (cases "UnsafeIsEntityRegistered s g")
  case True
  then show ?thesis using assms(1) by (simp add: RegisterEntity_def ev_rules)
next
  case False
  obtain s1 where "id_view (snd (RegisterEntity qt stack g want s)) = id_view s1" "ids_ok s1 B"
    by (rule RegisterEntity_temporary [OF assms False, of qt stack want])
  then show ?thesis using id_viewD(1) by blast
qed

lemma ids_ok_deregister:
  assumes "ids_ok s B" and "md_entities (fst s) e \<noteq> None" and "G_entity e \<notin> B"
  shows "ids_ok (GraphML_dtor e s) B"
proof -
  let ?i = "GraphML_getID s (G_entity e)" and ?s = "GraphML_dtor e s"
  have a: "alive ?s h \<longleftrightarrow> alive s h \<and> h \<noteq> G_entity e" for h
    by (cases h) (auto simp: GraphML_dtor_def DeregisterGraphML_def Let_def on_factory_def)
  have d: "GraphML_getID ?s h = (if h = G_entity e then -1 else GraphML_getID s h)" for h
    by (cases s; cases h) (auto simp: GraphML_dtor_def DeregisterGraphML_def Let_def on_factory_def entity_at_def MEntity_blank_def)
  have t: "fa_hash (snd ?s) = umap_erase ?i (fa_hash (snd s))" "fa_unregistered_hash (snd ?s) = umap_erase ?i (fa_unregistered_hash (snd s))"
    "fa_reusable_unregistered_ids (snd ?s) = fa_reusable_unregistered_ids (snd s)" "fa_unregistered_id_counter (snd ?s) = fa_unregistered_id_counter (snd s)"
    by (simp_all add: GraphML_dtor_def DeregisterGraphML_def Let_def on_factory_def)
  show ?thesis
  proof (rule ids_okI, unfold a d t map_of_umap_erase)
    fix k h assume h: "(if k = ?i then None else map_of (fa_hash (snd s)) k) = Some h"
    then show "0 < k \<and> (alive s h \<and> h \<noteq> G_entity e) \<and> (if h = G_entity e then -1 else GraphML_getID s h) = k \<and> h \<notin> B"
      using ids_okD(1) [OF assms(1), of k h] by (auto split: if_splits)
  next
    fix k h assume h: "(if k = ?i then None else map_of (fa_unregistered_hash (snd s)) k) = Some h"
    then show "k < 0 \<and> fa_unregistered_id_counter (snd s) \<le> k \<and> (alive s h \<and> h \<noteq> G_entity e) \<and>
        (if h = G_entity e then -1 else GraphML_getID s h) = k \<and> h \<notin> B"
      using ids_okD(2) [OF assms(1), of k h] by (auto split: if_splits)
  next
    fix h assume h: "alive s h \<and> h \<noteq> G_entity e" "h \<notin> B"
    have other: "GraphML_getID s h \<noteq> ?i"
    proof
      assume "GraphML_getID s h = ?i"
      then have "getGraphML (snd s) ?i = Some h" using ids_ok_found [OF assms(1)] h by metis
      moreover have "getGraphML (snd s) ?i = Some (G_entity e)" using ids_ok_found [OF assms(1) _ assms(3)] assms(2) by simp
      ultimately show False using h by simp
    qed
    then show "(if (if h = G_entity e then -1 else GraphML_getID s h) = ?i then None else map_of (fa_hash (snd s)) (if h = G_entity e then -1 else GraphML_getID s h)) = Some h \<or>
      (if (if h = G_entity e then -1 else GraphML_getID s h) = ?i then None else map_of (fa_unregistered_hash (snd s)) (if h = G_entity e then -1 else GraphML_getID s h)) = Some h"
      using h ids_okD(4) [OF assms(1)] by auto
  next
    fix h assume "h \<in> B"
    then show "(alive s h \<and> h \<noteq> G_entity e) \<and> (if h = G_entity e then -1 else GraphML_getID s h) = -1"
      using ids_okD(3) [OF assms(1)] assms(3) by auto
  next
    fix k assume "k \<in> set (fa_reusable_unregistered_ids (snd s))"
    then show "k < 0 \<and> fa_unregistered_id_counter (snd s) \<le> k \<and> (if k = ?i then None else map_of (fa_unregistered_hash (snd s)) k) = None"
      using ids_ok_reusable(3) [OF assms(1)] by simp
  qed (use ids_ok_reusable [OF assms(1)] in simp_all)
qed

lemma ids_ok_GetKey:
  assumes "ids_ok s B"
  shows "ids_ok (snd (GetKey qt stack k t s)) B"
proof (cases "umap_count (fa_key_ids (snd s)) k")
  case True
  then show ?thesis using assms(1) by (simp add: GetKey_def ev_rules)
next
  case False
  let ?g = "G_key k"
  let ?s1 = "((fst s)\<lparr>md_keys := umap_put k (key_of_name k t) (md_keys (fst s))\<rparr>, (snd s)\<lparr>fa_key_ids := umap_put k (-1) (fa_key_ids (snd s))\<rparr>)"
  have n: "\<not> alive s ?g" using False by simp
  have a: "alive ?s1 h \<longleftrightarrow> alive s h \<or> h = ?g" for h by (cases h) (auto simp: umap_count_def)
  have d: "GraphML_getID ?s1 h = (if h = ?g then -1 else GraphML_getID s h)" for h
    by (cases s; cases h) (auto simp: entity_at_def)
  have ng: "h \<noteq> ?g" if "alive s h" for h using that n by blast
  have 1: "ids_ok ?s1 (insert ?g B)"
    using assms(1) ng unfolding ids_ok_def a d by auto
  have gB: "?g \<notin> B" using ids_okD(3) [OF assms(1)] n by blast
  let ?s2 = "CacheEntityAsUnregistered ?g ?s1"
  have 2: "ids_ok ?s2 B" using ids_ok_cache [OF 1, of ?g] gB by simp
  have "alive ?s2 ?g"
    by (auto simp: CacheEntityAsUnregistered_def on_factory_def getUnregisteredFreeID_def umap_count_def split: list.split)
  from ids_ok_register [OF 2 this gB] have "ids_ok (snd (RegisterEntity qt stack ?g (-1) ?s2)) B" .
  then show ?thesis
    using False by (cases s; cases "RegisterEntity qt stack ?g (-1) ?s2"; cases "fst (RegisterEntity qt stack ?g (-1) ?s2)")
      (simp_all add: GetKey_def ev_rules)
qed

section \<open>The life of objects\<close>

text \<open>What happens to the ids: an object is constructed, cached, registered and destroyed; keys are made on
  demand; everything else that happens to the model leaves the entities and their ids alone. The second
  component is the set of objects under construction.\<close>

inductive id_step :: "Qt \<Rightarrow> medea \<times> gobj set \<Rightarrow> medea \<times> gobj set \<Rightarrow> bool" for qt where
  constructed: "md_entities (fst s) e = None \<Longrightarrow> id_step qt (s, B) (GraphML_ctor e kind s, insert (G_entity e) B)"
| cached: "g \<in> B \<Longrightarrow> id_step qt (s, B) (CacheEntityAsUnregistered g s, B - {g})"
| registered: "alive s g \<Longrightarrow> g \<notin> B \<Longrightarrow> id_step qt (s, B) (snd (RegisterEntity qt stack g want s), B)"
| got_key: "id_step qt (s, B) (snd (GetKey qt stack k t s), B)"
| destroyed: "md_entities (fst s) e \<noteq> None \<Longrightarrow> G_entity e \<notin> B \<Longrightarrow> id_step qt (s, B) (GraphML_dtor e s, B)"
| edited: "(\<forall>e. map_option me_id (md_entities m e) = map_option me_id (md_entities (fst s) e)) \<Longrightarrow>
    id_step qt (s, B) ((m, snd s), B)"

definition MModel_empty :: MModel where
  "MModel_empty = \<lparr>md_keys = [], md_datas = \<lambda>_. None, md_entities = \<lambda>_. None, md_nodes = \<lambda>_. None,
     md_edges = \<lambda>_. None, md_next = 0, md_signals = [], md_uuid_lookup = [], md_uuids = 0\<rparr>"

abbreviation id_reachable :: "Qt \<Rightarrow> medea \<times> gobj set \<Rightarrow> bool" where
  "id_reachable qt \<equiv> (id_step qt)\<^sup>*\<^sup>* ((MModel_empty, EntityFactory_init), {})"

lemma id_step_ok: "id_step qt x y \<Longrightarrow> ids_ok (fst x) (snd x) \<Longrightarrow> ids_ok (fst y) (snd y)"
proof (induction rule: id_step.induct)
  case (edited m s B)
  have e: "md_entities m e = None \<longleftrightarrow> md_entities (fst s) e = None" "me_id (entity_at m e) = me_id (entity_at (fst s) e)" for e
    using spec [OF edited(1), of e] by (auto simp: entity_at_def split: option.splits)
  have "ids_ok s B" using edited by simp
  then have "ids_ok (m, snd s) B"
  proof (rule ids_ok_cong)
    fix g show "alive (m, snd s) g = alive s g" using e(1) by (cases g) auto
    show "GraphML_getID (m, snd s) g = GraphML_getID s g" using e(2) by (cases s; cases g) auto
  qed simp_all
  then show ?case by simp
qed (auto intro: ids_ok_ctor ids_ok_cache ids_ok_register ids_ok_GetKey ids_ok_deregister)

lemma id_reachable_ok: "id_reachable qt x \<Longrightarrow> ids_ok (fst x) (snd x)"
proof (induction rule: rtranclp_induct)
  case base
  have "\<not> alive (MModel_empty, EntityFactory_init) g" for g
    by (cases g) (simp_all add: EntityFactory_init_def MModel_empty_def)
  then show ?case unfolding ids_ok_def by (simp add: EntityFactory_init_def)
qed (rule id_step_ok)

section \<open>An example\<close>

text \<open>A node that is cached, and an edge under construction.\<close>

definition demo_ids :: medea where
  "demo_ids = CacheEntityAsUnregistered (G_entity 0) (GraphML_ctor 0 GK_NODE (MModel_empty, EntityFactory_init))"

definition demo_ids_edge :: medea where
  "demo_ids_edge = GraphML_ctor 1 GK_EDGE demo_ids"

lemma demo_ids_facts:
  "GraphML_getID demo_ids (G_entity 0) = -1" "alive demo_ids (G_entity 0)" "md_entities (fst demo_ids) (Suc 0) = None"
  "GraphML_getID demo_ids_edge (G_entity 0) = -1" "alive demo_ids_edge (G_entity 0)"
  by code_simp+

lemma demo_ids_reachable: "id_reachable qt (demo_ids, {})" "id_reachable qt (demo_ids_edge, {G_entity 1})"
proof -
  let ?s = "(MModel_empty, EntityFactory_init)"
  have "id_step qt (?s, {}) (GraphML_ctor 0 GK_NODE ?s, {G_entity 0})" by (rule id_step.constructed) (simp add: MModel_empty_def)
  moreover have "id_step qt (GraphML_ctor 0 GK_NODE ?s, {G_entity 0}) (demo_ids, {G_entity 0} - {G_entity 0})"
    unfolding demo_ids_def by (rule id_step.cached) simp
  ultimately show 1: "id_reachable qt (demo_ids, {})" by (simp add: rtranclp.rtrancl_into_rtrancl)
  have "id_step qt (demo_ids, {}) (demo_ids_edge, {G_entity 1})"
    unfolding demo_ids_edge_def by (rule id_step.constructed) (simp add: demo_ids_facts(3))
  then show "id_reachable qt (demo_ids_edge, {G_entity 1})" by (rule rtranclp.rtrancl_into_rtrancl [OF 1])
qed

section \<open>Properties\<close>

text \<open>
  C29. Ids are unique, provided that no object is destroyed before it was cached (the next theorem shows what
  happens then). However objects are constructed, cached, registered and destroyed: an object that is not
  under construction is found under its id, and no other object has that id.
\<close>
theorem ids_unique:
  assumes "id_reachable qt (s, B)" and "alive s g" and "g \<notin> B"
  shows "getGraphML (snd s) (GraphML_getID s g) = Some g \<and>
    (\<forall>h. alive s h \<longrightarrow> h \<notin> B \<longrightarrow> GraphML_getID s h = GraphML_getID s g \<longrightarrow> h = g)"
proof -
  have ok: "ids_ok s B" using id_reachable_ok [OF assms(1)] by simp
  from ids_ok_found [OF ok] assms(2,3) show ?thesis by (metis option.inject)
qed

theorem ids_unique_witness: "getGraphML (snd demo_ids) (-1) = Some (G_entity 0)"
  using ids_unique [OF demo_ids_reachable(1) [of demo_qt] demo_ids_facts(2)] by (simp add: demo_ids_facts)

text \<open>
  Registering gives an id that stays. An object that has a temporary id gets the id that is asked
  for when that is positive and not taken, another positive id otherwise; it is found under the new
  id, and the temporary id goes to the end of the queue of those to be used again.
\<close>
theorem RegisterEntity_outcome:
  assumes "id_reachable qt (s, B)" and "alive s g" and "g \<notin> B" and "GraphML_getID s g < 0"
    and "s' = snd (RegisterEntity qt stack g want s)"
  shows "0 < GraphML_getID s' g \<and> getGraphML (snd s') (GraphML_getID s' g) = Some g \<and>
    (0 < want \<longrightarrow> map_of (fa_hash (snd s)) want = None \<longrightarrow> GraphML_getID s' g = want) \<and>
    fa_reusable_unregistered_ids (snd s') = fa_reusable_unregistered_ids (snd s) @ [GraphML_getID s g]"
proof -
  have ok: "ids_ok s B" using id_reachable_ok [OF assms(1)] by simp
  have n: "\<not> UnsafeIsEntityRegistered s g"
    using ids_okD(1) [OF ok, of "GraphML_getID s g" g] assms(4) by (auto simp: UnsafeIsEntityRegistered_def)
  obtain i s1 where r: "id_view s' = id_view s1" "ids_ok s1 B" "GraphML_getID s1 g = i" "0 < i"
    "fa_reusable_unregistered_ids (snd s1) = fa_reusable_unregistered_ids (snd s) @ [GraphML_getID s g]"
    "0 < want \<Longrightarrow> map_of (fa_hash (snd s)) want = None \<Longrightarrow> i = want"
    by (rule RegisterEntity_temporary [OF ok assms(2,3) n, of qt stack want, folded assms(5)]) (rule that)
  have "ids_ok s' B" unfolding assms(5) by (rule ids_ok_register [OF ok assms(2,3)])
  moreover have "alive s' g"
  proof -
    have "md_entities (fst s') = md_entities (fst s1)" "fa_key_ids (snd s') = fa_key_ids (snd s1)" using r(1) by (simp_all add: id_view_def)
    moreover have "alive s1 g"
    proof (rule ccontr)
      assume "\<not> alive s1 g"
      then have "GraphML_getID s1 g = -1"
        by (cases s1; cases g) (auto simp: entity_at_def MEntity_blank_def umap_count_def split: option.split)
      then show False using r(3,4) by simp
    qed
    ultimately show ?thesis by (cases g) simp_all
  qed
  ultimately have "getGraphML (snd s') (GraphML_getID s' g) = Some g" using ids_ok_found assms(3) by blast
  then show ?thesis using r id_viewD(2,4) [OF r(1)] by simp
qed

theorem RegisterEntity_outcome_witness:
  "GraphML_getID (snd (RegisterEntity demo_qt 1 (G_entity 0) 7 demo_ids)) (G_entity 0) = 7"
proof -
  have "map_of (fa_hash (snd demo_ids)) 7 = None" by code_simp
  then show ?thesis
    using RegisterEntity_outcome [OF demo_ids_reachable(1) [of demo_qt] demo_ids_facts(2) _ _ refl, where stack = 1 and want = 7] by (simp add: demo_ids_facts)
qed

text \<open>
  A construction that fails costs another object its registration. Objects are deregistered by their
  id when they are destroyed, and an object that was never cached has the id -1: when it goes, the object
  that has the temporary id -1 is found no more and can never be registered.
\<close>
theorem failed_construction_loses_entity:
  assumes "id_reachable qt (s, B)" and "G_entity e \<in> B" and "alive s h" and "h \<notin> B" and "GraphML_getID s h = -1"
  shows "getGraphML (snd s) (-1) = Some h \<and> getGraphML (snd (GraphML_dtor e s)) (-1) = None \<and>
    fst (RegisterEntity qt stack h want (GraphML_dtor e s)) = Inl (RuntimeError ''Couldn't unregister Temp Entity.'')"
proof -
  have ok: "ids_ok s B" using id_reachable_ok [OF assms(1)] by simp
  have e: "GraphML_getID s (G_entity e) = -1" "h \<noteq> G_entity e" using ids_okD(3) [OF ok assms(2)] assms(2,4) by auto
  let ?s = "GraphML_dtor e s"
  have t: "fa_hash (snd ?s) = umap_erase (-1) (fa_hash (snd s))" "fa_unregistered_hash (snd ?s) = umap_erase (-1) (fa_unregistered_hash (snd s))"
    by (simp_all add: GraphML_dtor_def DeregisterGraphML_def Let_def on_factory_def e)
  have i: "GraphML_getID ?s h = -1"
    using e(2) assms(5) by (cases s; cases h) (auto simp: GraphML_dtor_def DeregisterGraphML_def Let_def on_factory_def entity_at_def)
  have "RegisterEntity qt stack h want ?s = (Inl (RuntimeError ''Couldn't unregister Temp Entity.''), ?s)"
    by (simp add: RegisterEntity_def run_bindE_Inr UnsafeIsEntityRegistered_def UnregisterTempID_def i t Let_def run_throwE)
  then show ?thesis using ids_ok_found [OF ok assms(3,4)] assms(5) t by (simp add: getGraphML_def)
qed

theorem failed_construction_loses_entity_witness:
  "getGraphML (snd demo_ids_edge) (-1) = Some (G_entity 0) \<and> getGraphML (snd (GraphML_dtor 1 demo_ids_edge)) (-1) = None"
  using failed_construction_loses_entity [OF demo_ids_reachable(2) [of demo_qt] _ demo_ids_facts(5) _ demo_ids_facts(4), of 1] by simp

end
