(* ===== verification/MDTree.thy ===== *)
theory MDTree
  imports MDFactory
begin

text \<open>
  The tree of nodes (\<^verbatim>\<open>Entities/node.cpp\<close>): adoption, positions in the tree and ancestors. Overridden
  functions of the subclasses of \<open>Node\<close> that these operations call are the record \<open>NodeClass\<close>; those
  of \<open>Node\<close> itself are \<open>Node_class\<close>.
\<close>

section \<open>Reading the tree\<close>

definition Node_getTreeIndex :: "MModel \<Rightarrow> nat \<Rightarrow> int list" where
  "Node_getTreeIndex m n = mn_tree_index (node_at m n)"

definition getParentNode :: "MModel \<Rightarrow> nat \<Rightarrow> nat option" where
  "getParentNode m n = mn_parent_node (node_at m n)"

text \<open>\<open>getParentNode(depth)\<close> walks up and stops early at the root, where it answers null.\<close>

fun walk_up :: "MModel \<Rightarrow> nat \<Rightarrow> nat option \<Rightarrow> nat option" where
  "walk_up m 0 p = p"
| "walk_up m (Suc d) None = None"
| "walk_up m (Suc d) (Some p) = walk_up m d (getParentNode m p)"

definition getParentNode_depth :: "MModel \<Rightarrow> nat \<Rightarrow> int \<Rightarrow> nat option" where
  "getParentNode_depth m n depth = (if depth \<le> 0 then None else walk_up m (nat depth - 1) (getParentNode m n))"

fun common_prefix :: "int list \<Rightarrow> int list \<Rightarrow> nat" where
  "common_prefix (x # xs) (y # ys) = (if x = y then Suc (common_prefix xs ys) else 0)"
| "common_prefix _ _ = 0"

definition getDepthFromCommonAncestor :: "MModel \<Rightarrow> nat \<Rightarrow> nat option \<Rightarrow> int" where
  "getDepthFromCommonAncestor m n dst =
     (case dst of
        None \<Rightarrow> -1
      | Some d \<Rightarrow> int (length (Node_getTreeIndex m n)) - int (common_prefix (Node_getTreeIndex m n) (Node_getTreeIndex m d)))"

definition getCommonAncestor :: "MModel \<Rightarrow> nat \<Rightarrow> nat option \<Rightarrow> nat option" where
  "getCommonAncestor m n dst =
     (let height = getDepthFromCommonAncestor m n dst in if height \<noteq> -1 then getParentNode_depth m n height else None)"

text \<open>Whether one index is a prefix of the other, with the tests of the code before its loop.\<close>

definition index_prefix :: "int list \<Rightarrow> int list \<Rightarrow> bool" where
  "index_prefix a b \<longleftrightarrow> a \<noteq> [] \<and> b \<noteq> [] \<and> length a \<le> length b \<and> list_all2 (=) a (take (length a) b)"

definition ancestorOf :: "MModel \<Rightarrow> nat \<Rightarrow> nat \<Rightarrow> bool" where
  "ancestorOf m n x \<longleftrightarrow> (if n = x then True else index_prefix (Node_getTreeIndex m n) (Node_getTreeIndex m x))"

definition ancestorOf_edge :: "MModel \<Rightarrow> nat \<Rightarrow> nat \<Rightarrow> bool" where
  "ancestorOf_edge m n e \<longleftrightarrow>
     (case md_edges m e of Some g \<Rightarrow> ancestorOf m n (mg_source g) \<or> ancestorOf m n (mg_destination g) | None \<Rightarrow> False)"

definition isDescendantOf :: "MModel \<Rightarrow> nat \<Rightarrow> nat \<Rightarrow> bool" where
  "isDescendantOf m n b \<longleftrightarrow> (if n = b then False else index_prefix (Node_getTreeIndex m b) (Node_getTreeIndex m n))"

definition containsChild :: "MModel \<Rightarrow> nat \<Rightarrow> nat \<Rightarrow> bool" where
  "containsChild m n c \<longleftrightarrow> c \<in> set (mn_new_nodes (node_at m n))"

definition canAcceptNodeKind :: "MModel \<Rightarrow> nat \<Rightarrow> nat \<Rightarrow> bool" where
  "canAcceptNodeKind m n c \<longleftrightarrow> mn_node_kind (node_at m c) \<in> set (mn_accepted_node_kinds (node_at m n))"

definition Node_canAdoptChild :: "MModel \<Rightarrow> nat \<Rightarrow> nat \<Rightarrow> bool" where
  "Node_canAdoptChild m n c \<longleftrightarrow>
     (if \<not> canAcceptNodeKind m n c then False
      else if c = n then False
      else if containsChild m n c \<or> ancestorOf m n c \<or> isDescendantOf m n c then False
      else if mn_definition (node_at m c) \<noteq> None then False
      else True)"

text \<open>The aspect of the nodes that stand for an aspect is fixed.\<close>

definition getViewAspect :: "MModel \<Rightarrow> nat \<Rightarrow> VIEW_ASPECT" where
  "getViewAspect m n =
     (let kind = mn_node_kind (node_at m n) in
      if kind = ''INTERFACE_DEFINITIONS'' then VA_INTERFACES
      else if kind = ''BEHAVIOUR_DEFINITIONS'' then VA_BEHAVIOUR
      else if kind = ''ASSEMBLY_DEFINITIONS'' then VA_ASSEMBLIES
      else if kind = ''HARDWARE_DEFINITIONS'' then VA_HARDWARE
      else if kind = ''WORKER_DEFINITIONS'' then VA_WORKERS
      else if kind \<in> {''TRIGGER_DEFINITIONS'', ''TRIGGER_DEFN''} then VA_TRIGGERS
      else mn_view_aspect (node_at m n))"

section \<open>Changing the tree\<close>

record NodeClass =
  nc_canAdoptChild :: "MModel \<Rightarrow> nat \<Rightarrow> nat \<Rightarrow> bool"
  nc_childAdded :: "nat \<Rightarrow> nat \<Rightarrow> (MModel, unit) em"
  nc_childRemoved :: "nat \<Rightarrow> nat \<Rightarrow> (MModel, unit) em"
  nc_parentSet :: "nat \<Rightarrow> nat \<Rightarrow> (MModel, unit) em"

primrec updateTreeIndex :: "Qt \<Rightarrow> nat \<Rightarrow> nat \<Rightarrow> int list \<Rightarrow> (MModel, unit) em" where
  "updateTreeIndex qt 0 n parent_tree_index = throwE stack_overflow"
| "updateTreeIndex qt (Suc stack) n parent_tree_index =
     bindE (modifyE (upd_mnode n (\<lambda>x. x\<lparr>mn_tree_index := parent_tree_index @ [mn_branch x]\<rparr>))) (\<lambda>_.
     bindE getE (\<lambda>m.
     forE (getOrderedChildNodes qt m n) (\<lambda>c.
       bindE getE (\<lambda>m'. updateTreeIndex qt stack c (Node_getTreeIndex m' n)))))"

primrec updateViewAspect :: "Qt \<Rightarrow> nat \<Rightarrow> nat \<Rightarrow> VIEW_ASPECT \<Rightarrow> (MModel, unit) em" where
  "updateViewAspect qt 0 n parent_view_aspect = throwE stack_overflow"
| "updateViewAspect qt (Suc stack) n parent_view_aspect =
     bindE getE (\<lambda>m.
     if mn_view_aspect (node_at m n) = VA_NONE
     then
       bindE (modifyE (upd_mnode n (\<lambda>x. x\<lparr>mn_view_aspect := parent_view_aspect\<rparr>))) (\<lambda>_.
       forE (getOrderedChildNodes qt m n) (\<lambda>c.
         bindE getE (\<lambda>m'. updateViewAspect qt stack c (getViewAspect m' n))))
     else returnE ())"

definition Node_AddUUID :: "Qt \<Rightarrow> nat \<Rightarrow> nat \<Rightarrow> (MModel, unit) em" where
  "Node_AddUUID qt stack n =
     bindE getE (\<lambda>m.
     case getParentNode m n of
       None \<Rightarrow> returnE ()
     | Some p \<Rightarrow>
         whenE (Entity_gotData m p ''uuid'' \<and> Entity_getData_of_key m n (Some ''uuid'') = None)
           (bindE (AttachData qt stack n ''uuid'' PS_PROTECTED QInvalid) (\<lambda>_. returnE ())))"

text \<open>\<open>parentNodeUpdated\<close> calls \<open>setParentNode\<close> of the children, which only updates them because they
  have their parent already.\<close>

definition set_parent_once :: "nat \<Rightarrow> nat option \<Rightarrow> int \<Rightarrow> MModel \<Rightarrow> MModel" where
  "set_parent_once n parent branch m =
     (case parent of
        Some p \<Rightarrow>
          if getParentNode m n = None
          then upd_mnode n (\<lambda>x. x\<lparr>mn_parent_node := Some p, mn_parent_node_kind := mn_node_kind (node_at m p), mn_branch := branch\<rparr>) m
          else m
      | None \<Rightarrow> m)"

primrec parentNodeUpdated :: "Qt \<Rightarrow> NodeClass \<Rightarrow> nat \<Rightarrow> nat \<Rightarrow> (MModel, unit) em" where
  "parentNodeUpdated qt cls 0 n = throwE stack_overflow"
| "parentNodeUpdated qt cls (Suc stack) n =
     bindE getE (\<lambda>m.
     case getParentNode m n of
       None \<Rightarrow> returnE ()
     | Some p \<Rightarrow>
         bindE (Entity_revalidateData qt stack n) (\<lambda>_.
         bindE (Node_AddUUID qt stack n) (\<lambda>_.
         bindE getE (\<lambda>m1.
         bindE (updateTreeIndex qt stack n (Node_getTreeIndex m1 p)) (\<lambda>_.
         bindE getE (\<lambda>m2.
         bindE (updateViewAspect qt stack n (getViewAspect m2 p)) (\<lambda>_.
         bindE (nc_parentSet cls n p) (\<lambda>_.
         bindE getE (\<lambda>m3.
         forE (getOrderedChildNodes qt m3 n) (\<lambda>c.
           bindE (modifyE (\<lambda>m'. set_parent_once c (Some n) (mn_branch (node_at m' c)) m')) (\<lambda>_.
           parentNodeUpdated qt cls stack c)))))))))))"

definition setParentNode :: "Qt \<Rightarrow> NodeClass \<Rightarrow> nat \<Rightarrow> nat \<Rightarrow> nat option \<Rightarrow> int \<Rightarrow> (MModel, unit) em" where
  "setParentNode qt cls stack n parent branch =
     bindE (modifyE (set_parent_once n parent branch)) (\<lambda>_. parentNodeUpdated qt cls stack n)"

text \<open>\<open>node_kind_count_[kind] += d\<close>\<close>

definition count_kind :: "'k \<Rightarrow> int \<Rightarrow> ('k, int) umap \<Rightarrow> ('k, int) umap" where
  "count_kind k d counts = umap_put k ((case map_of counts k of Some c \<Rightarrow> c | None \<Rightarrow> 0) + d) counts"

definition getChildrenOfKindCount :: "MModel \<Rightarrow> nat \<Rightarrow> NODE_KIND \<Rightarrow> int" where
  "getChildrenOfKindCount m n kind = (case map_of (mn_node_kind_count (node_at m n)) kind of Some c \<Rightarrow> c | None \<Rightarrow> 0)"

definition addChild :: "Qt \<Rightarrow> NodeClass \<Rightarrow> nat \<Rightarrow> nat \<Rightarrow> nat \<Rightarrow> (MModel, bool) em" where
  "addChild qt cls stack n c =
     bindE getE (\<lambda>m.
     if \<not> containsChild m n c \<and> nc_canAdoptChild cls m n c
     then
       let kind = mn_node_kind (node_at m c); branch = mn_branch_count (node_at m n) in
       bindE (modifyE (upd_mnode n (\<lambda>x. x\<lparr>mn_node_kind_count := count_kind kind 1 (mn_node_kind_count x),
                mn_new_nodes := List.insert c (mn_new_nodes x), mn_branch_count := branch + 1\<rparr>))) (\<lambda>_.
       bindE (setParentNode qt cls stack c (Some n) branch) (\<lambda>_.
       bindE (nc_childAdded cls n c) (\<lambda>_. returnE True)))
     else returnE False)"

definition removeChild :: "NodeClass \<Rightarrow> nat \<Rightarrow> nat \<Rightarrow> (MModel, bool) em" where
  "removeChild cls n c =
     bindE getE (\<lambda>m.
     if containsChild m n c
     then
       bindE (modifyE (upd_mnode n (\<lambda>x. x\<lparr>mn_node_kind_count := count_kind (mn_node_kind (node_at m c)) (-1) (mn_node_kind_count x),
                mn_new_nodes := removeAll c (mn_new_nodes x)\<rparr>))) (\<lambda>_.
       bindE (nc_childRemoved cls n c) (\<lambda>_. returnE True))
     else returnE False)"

definition setAsRoot :: "Qt \<Rightarrow> nat \<Rightarrow> nat \<Rightarrow> int \<Rightarrow> (MModel, bool) em" where
  "setAsRoot qt stack n root_index =
     bindE getE (\<lambda>m.
     if getParentNode m n = None \<and> Node_getTreeIndex m n = []
     then
       bindE (modifyE (upd_mnode n (\<lambda>x. x\<lparr>mn_branch := root_index\<rparr>))) (\<lambda>_.
       bindE (updateTreeIndex qt stack n []) (\<lambda>_. returnE True))
     else returnE False)"

text \<open>\<open>IndexKey::RevalidateChildrenIndex\<close>, and the class \<open>Node\<close> itself.\<close>

definition RevalidateChildrenIndex :: "Qt \<Rightarrow> nat \<Rightarrow> nat \<Rightarrow> (MModel, unit) em" where
  "RevalidateChildrenIndex qt stack n =
     bindE getE (\<lambda>m.
     let children = getOrderedChildNodes qt m n in
     whenE (children \<noteq> [])
       (bindE (setDataValue qt stack (last children) ''index'' (getDataValue m (last children) ''index'')) (\<lambda>_. returnE ())))"

definition Node_class :: "Qt \<Rightarrow> nat \<Rightarrow> NodeClass" where
  "Node_class qt stack = \<lparr>nc_canAdoptChild = Node_canAdoptChild, nc_childAdded = \<lambda>_ _. returnE (),
     nc_childRemoved = \<lambda>n _. RevalidateChildrenIndex qt stack n, nc_parentSet = \<lambda>_ _. returnE ()\<rparr>"

section \<open>What leaves the tree alone\<close>

lemma preserves_via:
  assumes "\<And>S. preserves (\<lambda>m. f m = S) p" and "\<And>m m'. f m' = f m \<Longrightarrow> g m' = g m"
  shows "preserves (\<lambda>m. g m = N) p"
proof (rule preservesI)
  fix m assume g: "g m = N"
  obtain r m' where r: "p m = (r, m')" by (cases "p m")
  have "g m' = g m" by (rule assms(2) [OF preservesD [OF assms(1) refl r]])
  then show "g (snd (p m)) = N" by (simp add: r g)
qed

lemma setValue_nodes: "preserves (\<lambda>m. md_nodes m = N) (setValue qt stack d v)"
  by (rule preserves_via [OF shape_setValue]) (simp add: data_shape_def)

lemma notify_nodes [simp]:
  "md_nodes (notify_parent d m) = md_nodes m" "md_nodes (upd_data d f m) = md_nodes m" "md_nodes (upd_entity e h m) = md_nodes m"
  "md_nodes (emit_signal g m) = md_nodes m" "md_nodes (Data_setProtected d b m) = md_nodes m" "md_nodes (Entity_dataRemoved e d m) = md_nodes m"
  by (simp_all add: notify_parent_def Entity_dataChanged_def emit_signal_def upd_data_def upd_entity_def Data_setProtected_def
      Entity_dataRemoved_def Let_def split: option.split)

lemma AttachData_nodes: "preserves (\<lambda>m. md_nodes m = N) (AttachData qt stack e k st v)"
  unfolding AttachData_def Data_ctor_def Entity_addData_def Data_registerParent_def revalidateData_def Data_updateChildren_def run_slot_def Let_def
  by (intro pres preserves_modifyE setValue_nodes) (simp_all split: option.split ProtectedState.split)

lemma revalidate_nodes: "preserves (\<lambda>m. md_nodes m = N) (Entity_revalidateData qt stack e)"
  unfolding Entity_revalidateData_def revalidateData_def by (intro pres setValue_nodes)

lemma AddUUID_nodes: "preserves (\<lambda>m. md_nodes m = N) (Node_AddUUID qt stack n)"
  unfolding Node_AddUUID_def by (intro pres AttachData_nodes)

text \<open>The part of the nodes that makes the tree.\<close>

definition tree_links :: "MModel \<Rightarrow> nat \<Rightarrow> (nat option \<times> nat list \<times> int \<times> int \<times> NODE_KIND \<times> (NODE_KIND, int) umap) option" where
  "tree_links m n = map_option (\<lambda>x. (mn_parent_node x, mn_new_nodes x, mn_branch x, mn_branch_count x, mn_node_kind x, mn_node_kind_count x)) (md_nodes m n)"

lemma tree_linksD:
  assumes "tree_links m' n = tree_links m n"
  shows "getParentNode m' n = getParentNode m n" "mn_new_nodes (node_at m' n) = mn_new_nodes (node_at m n)"
    "mn_branch (node_at m' n) = mn_branch (node_at m n)" "mn_branch_count (node_at m' n) = mn_branch_count (node_at m n)"
    "mn_node_kind (node_at m' n) = mn_node_kind (node_at m n)" "mn_node_kind_count (node_at m' n) = mn_node_kind_count (node_at m n)"
    "md_nodes m' n = None \<longleftrightarrow> md_nodes m n = None"
  using assms by (auto simp: tree_links_def getParentNode_def node_at_def split: option.splits)

lemma tree_links_upd:
  assumes "\<And>x. (mn_parent_node (f x), mn_new_nodes (f x), mn_branch (f x), mn_branch_count (f x), mn_node_kind (f x), mn_node_kind_count (f x)) =
    (mn_parent_node x, mn_new_nodes x, mn_branch x, mn_branch_count x, mn_node_kind x, mn_node_kind_count x)"
  shows "tree_links (upd_mnode n f m) = tree_links m"
  using assms by (auto simp: tree_links_def upd_mnode_def option.map_comp o_def fun_eq_iff cong: option.map_cong)

lemma tree_view_nodes:
  "md_nodes m' = md_nodes m \<Longrightarrow> (tree_links m', Node_getTreeIndex m') = (tree_links m, Node_getTreeIndex m)"
  by (simp add: tree_links_def Node_getTreeIndex_def node_at_def fun_eq_iff)

lemma viewAspect_tree: "preserves (\<lambda>m. (tree_links m, Node_getTreeIndex m) = V) (updateViewAspect qt stack n a)"
proof (induction stack arbitrary: n a)
  case (Suc stack)
  have "(tree_links (upd_mnode n (\<lambda>x. x\<lparr>mn_view_aspect := a\<rparr>) m), Node_getTreeIndex (upd_mnode n (\<lambda>x. x\<lparr>mn_view_aspect := a\<rparr>) m)) =
    (tree_links m, Node_getTreeIndex m)" for m
    by (simp add: tree_links_upd Node_getTreeIndex_def fun_eq_iff)
  then show ?case by (auto intro!: pres preserves_modifyE Suc)
qed (simp add: pres)

lemma data_tree:
  "preserves (\<lambda>m. (tree_links m, Node_getTreeIndex m) = V) (Entity_revalidateData qt stack e)"
  "preserves (\<lambda>m. (tree_links m, Node_getTreeIndex m) = V) (Node_AddUUID qt stack n)"
  by (rule preserves_via [OF revalidate_nodes], rule tree_view_nodes, assumption,
      rule preserves_via [OF AddUUID_nodes], rule tree_view_nodes, assumption)

section \<open>Updating a subtree\<close>

lemma bind_get: "bindE getE f s = f s s"
  by (simp add: run_bindE_Inr)

definition childrel :: "MModel \<Rightarrow> (nat \<times> nat) set" where
  "childrel m = {(p, c). c \<in> set (mn_new_nodes (node_at m p))}"

text \<open>Every child knows its parent, and there are no cycles.\<close>

definition forest :: "MModel \<Rightarrow> bool" where
  "forest m \<longleftrightarrow> (\<forall>p c. (p, c) \<in> childrel m \<longrightarrow> getParentNode m c = Some p \<and> md_nodes m c \<noteq> None) \<and> acyclic (childrel m) \<and>
     (\<forall>p. distinct (mn_new_nodes (node_at m p)))"

text \<open>From \<open>m\<close> to \<open>m'\<close> the indices below \<open>n\<close>, and only they, have been computed anew.\<close>

definition reindexed :: "MModel \<Rightarrow> nat \<Rightarrow> MModel \<Rightarrow> bool" where
  "reindexed m n m' \<longleftrightarrow> tree_links m' = tree_links m \<and>
     (\<forall>x. (n, x) \<notin> (childrel m)\<^sup>* \<longrightarrow> Node_getTreeIndex m' x = Node_getTreeIndex m x) \<and>
     (\<forall>p c. (n, p) \<in> (childrel m)\<^sup>* \<longrightarrow> (p, c) \<in> childrel m \<longrightarrow> Node_getTreeIndex m' c = Node_getTreeIndex m' p @ [mn_branch (node_at m c)])"

lemma childrel_links: "tree_links m' = tree_links m \<Longrightarrow> childrel m' = childrel m"
proof -
  assume l: "tree_links m' = tree_links m"
  have "mn_new_nodes (node_at m' x) = mn_new_nodes (node_at m x)" for x by (rule tree_linksD(2)) (simp add: l)
  then show ?thesis by (simp add: childrel_def)
qed

lemma forest_links: "tree_links m' = tree_links m \<Longrightarrow> forest m' = forest m"
proof -
  assume l: "tree_links m' = tree_links m"
  have "getParentNode m' x = getParentNode m x" "(md_nodes m' x = None) = (md_nodes m x = None)"
    "mn_new_nodes (node_at m' x) = mn_new_nodes (node_at m x)" for x
    by (rule tree_linksD(1), simp add: l, rule tree_linksD(7), simp add: l, rule tree_linksD(2), simp add: l)
  then show ?thesis unfolding forest_def childrel_links [OF l] by simp
qed

lemma children_set [simp]: "set (getOrderedChildNodes qt m n) = set (mn_new_nodes (node_at m n))"
  by (simp add: getOrderedChildNodes_def Let_def)

lemma forest_apart:
  assumes "forest m" and "(n, c1) \<in> childrel m" and "(n, c2) \<in> childrel m" and "c1 \<noteq> c2" and "(c1, x) \<in> (childrel m)\<^sup>*"
  shows "(c2, x) \<notin> (childrel m)\<^sup>*"
  using assms(5)
proof (induction rule: rtrancl_induct)
  case base
  show ?case
  proof
    assume "(c2, c1) \<in> (childrel m)\<^sup>*"
    then obtain z where z: "(c2, z) \<in> (childrel m)\<^sup>*" "(z, c1) \<in> childrel m"
      using assms(4) by (auto elim: rtranclE)
    have "z = n" using assms(1,2) z(2) unfolding forest_def by (metis option.inject)
    then have "(n, n) \<in> (childrel m)\<^sup>+" using assms(3) z(1) by (auto intro: rtrancl_into_trancl2)
    then show False using assms(1) by (simp add: forest_def acyclic_def)
  qed
next
  case (step y z)
  show ?case
  proof
    assume "(c2, z) \<in> (childrel m)\<^sup>*"
    then show False
    proof (cases rule: rtranclE)
      case base
      have "y = n" using assms(1,3) step(2) base unfolding forest_def by (metis option.inject)
      then have "(n, n) \<in> (childrel m)\<^sup>+" using assms(2) step(1) by (auto intro: rtrancl_into_trancl2)
      then show False using assms(1) by (simp add: forest_def acyclic_def)
    next
      case (step w)
      then have "w = y" using assms(1) \<open>(y, z) \<in> childrel m\<close> unfolding forest_def by (metis option.inject)
      then show False using step(1) \<open>(c2, y) \<notin> (childrel m)\<^sup>*\<close> by simp
    qed
  qed
qed

lemma not_below_own_child:
  assumes "forest m" and "(n, c) \<in> childrel m" shows "(c, n) \<notin> (childrel m)\<^sup>*"
proof
  assume "(c, n) \<in> (childrel m)\<^sup>*"
  with assms(2) have "(n, n) \<in> (childrel m)\<^sup>+" by (rule rtrancl_into_trancl2)
  then show False using assms(1) by (simp add: forest_def acyclic_def)
qed

text \<open>The loop over the children of a node: each iteration computes the subtree of one child.\<close>

lemma forE_reindexed:
  assumes "forest m0" and "\<And>c. c \<in> set cs \<Longrightarrow> (n, c) \<in> childrel m0" and "distinct cs"
    and step: "\<And>c m m'. c \<in> set cs \<Longrightarrow> tree_links m = tree_links m0 \<Longrightarrow> f c m = (Inr (), m') \<Longrightarrow>
      reindexed m c m' \<and> Node_getTreeIndex m' c = Node_getTreeIndex m n @ [mn_branch (node_at m0 c)]"
    and "forE cs f m = (Inr (), m')" and "tree_links m = tree_links m0"
  shows "tree_links m' = tree_links m0 \<and>
    (\<forall>x. (\<forall>c \<in> set cs. (c, x) \<notin> (childrel m0)\<^sup>*) \<longrightarrow> Node_getTreeIndex m' x = Node_getTreeIndex m x) \<and>
    (\<forall>c \<in> set cs. Node_getTreeIndex m' c = Node_getTreeIndex m n @ [mn_branch (node_at m0 c)] \<and>
      (\<forall>p d. (c, p) \<in> (childrel m0)\<^sup>* \<longrightarrow> (p, d) \<in> childrel m0 \<longrightarrow> Node_getTreeIndex m' d = Node_getTreeIndex m' p @ [mn_branch (node_at m0 d)]))"
  using assms(2-6)
proof (induction cs arbitrary: m)
  case Nil
  then show ?case by (simp add: run_returnE)
next
  case (Cons c cs)
  obtain m1 where m1: "f c m = (Inr (), m1)" "forE cs f m1 = (Inr (), m')" using Cons.prems(4) by (auto dest: bindE_InrD)
  have c: "reindexed m c m1" "Node_getTreeIndex m1 c = Node_getTreeIndex m n @ [mn_branch (node_at m0 c)]"
    using Cons.prems(3) [OF _ Cons.prems(5) m1(1)] by simp_all
  have rel: "childrel m = childrel m0" using childrel_links Cons.prems(5) .
  have l1: "tree_links m1 = tree_links m0" using c(1) Cons.prems(5) by (simp add: reindexed_def)
  have up: "(c', n) \<notin> (childrel m0)\<^sup>*" if "c' \<in> set (c # cs)" for c'
    using not_below_own_child [OF assms(1)] Cons.prems(1) that by blast
  have n1: "Node_getTreeIndex m1 n = Node_getTreeIndex m n"
    using c(1) up [of c] rel by (simp add: reindexed_def)
  have p: "(n, d) \<in> childrel m0" if "d \<in> set cs" for d using Cons.prems(1) that by simp
  have q: "distinct cs" "c \<notin> set cs" using Cons.prems(2) by simp_all
  have st: "reindexed m d m2 \<and> Node_getTreeIndex m2 d = Node_getTreeIndex m n @ [mn_branch (node_at m0 d)]"
    if "d \<in> set cs" "tree_links m = tree_links m0" "f d m = (Inr (), m2)" for d m m2
    using Cons.prems(3) [of d m m2] that by simp
  note IH = Cons.IH [OF p q(1) st m1(2) l1, unfolded n1]
  have ih: "tree_links m' = tree_links m0"
    "(\<forall>c \<in> set cs. (c, x) \<notin> (childrel m0)\<^sup>*) \<Longrightarrow> Node_getTreeIndex m' x = Node_getTreeIndex m1 x"
    "d \<in> set cs \<Longrightarrow> Node_getTreeIndex m' d = Node_getTreeIndex m n @ [mn_branch (node_at m0 d)]"
    "d \<in> set cs \<Longrightarrow> (d, r) \<in> (childrel m0)\<^sup>* \<Longrightarrow> (r, e) \<in> childrel m0 \<Longrightarrow>
      Node_getTreeIndex m' e = Node_getTreeIndex m' r @ [mn_branch (node_at m0 e)]" for x d r e
    using IH by blast+
  have keep: "Node_getTreeIndex m' x = Node_getTreeIndex m1 x" if "(c, x) \<in> (childrel m0)\<^sup>*" for x
  proof (rule ih(2), rule ballI)
    fix d assume "d \<in> set cs"
    then show "(d, x) \<notin> (childrel m0)\<^sup>*"
      using forest_apart [OF assms(1), of n c d x] p [of d] Cons.prems(1) [of c] q(2) that by auto
  qed
  have br: "mn_branch (node_at m x) = mn_branch (node_at m0 x)" for x by (rule tree_linksD(3)) (simp add: Cons.prems(5))
  show ?case
  proof (intro conjI allI impI ballI)
    show "tree_links m' = tree_links m0" by (rule ih(1))
    fix x assume "\<forall>d \<in> set (c # cs). (d, x) \<notin> (childrel m0)\<^sup>*"
    then show "Node_getTreeIndex m' x = Node_getTreeIndex m x" using ih(2) [of x] c(1) rel by (simp add: reindexed_def)
  next
    fix d assume d: "d \<in> set (c # cs)"
    show "Node_getTreeIndex m' d = Node_getTreeIndex m n @ [mn_branch (node_at m0 d)]"
      using d ih(3) [of d] keep [of c] c(2) by auto
    fix p e assume pe: "(d, p) \<in> (childrel m0)\<^sup>*" "(p, e) \<in> childrel m0"
    show "Node_getTreeIndex m' e = Node_getTreeIndex m' p @ [mn_branch (node_at m0 e)]"
    proof (cases "d \<in> set cs")
      case True
      then show ?thesis using ih(4) pe by blast
    next
      case False
      then have dc: "d = c" using d by simp
      have "Node_getTreeIndex m1 e = Node_getTreeIndex m1 p @ [mn_branch (node_at m0 e)]"
        using c(1) pe dc rel br by (simp add: reindexed_def)
      moreover have "(c, e) \<in> (childrel m0)\<^sup>*" using pe dc by auto
      ultimately show ?thesis using keep pe(1) dc by simp
    qed
  qed
qed

lemma reindexed_loop:
  assumes f: "forest m" and l: "tree_links m1 = tree_links m"
    and out: "\<And>x. (n, x) \<notin> (childrel m)\<^sup>* \<Longrightarrow> Node_getTreeIndex m1 x = Node_getTreeIndex m x"
    and cs: "set cs = set (mn_new_nodes (node_at m n))" "distinct cs" and run: "forE cs f m1 = (Inr (), m')"
    and step: "\<And>c m2 m3. (n, c) \<in> childrel m \<Longrightarrow> tree_links m2 = tree_links m \<Longrightarrow> f c m2 = (Inr (), m3) \<Longrightarrow>
      reindexed m2 c m3 \<and> Node_getTreeIndex m3 c = Node_getTreeIndex m2 n @ [mn_branch (node_at m c)]"
  shows "reindexed m n m' \<and> Node_getTreeIndex m' n = Node_getTreeIndex m1 n"
proof -
  have ch: "c \<in> set cs \<longleftrightarrow> (n, c) \<in> childrel m" for c by (simp add: cs(1) childrel_def)
  have st: "reindexed m2 c m3 \<and> Node_getTreeIndex m3 c = Node_getTreeIndex m2 n @ [mn_branch (node_at m c)]"
    if "c \<in> set cs" "tree_links m2 = tree_links m" "f c m2 = (Inr (), m3)" for c m2 m3
    using step [of c m2 m3] that ch by blast
  have loop: "tree_links m' = tree_links m \<and>
    (\<forall>x. (\<forall>c \<in> set cs. (c, x) \<notin> (childrel m)\<^sup>*) \<longrightarrow> Node_getTreeIndex m' x = Node_getTreeIndex m1 x) \<and>
    (\<forall>c \<in> set cs. Node_getTreeIndex m' c = Node_getTreeIndex m1 n @ [mn_branch (node_at m c)] \<and>
      (\<forall>p d. (c, p) \<in> (childrel m)\<^sup>* \<longrightarrow> (p, d) \<in> childrel m \<longrightarrow> Node_getTreeIndex m' d = Node_getTreeIndex m' p @ [mn_branch (node_at m d)]))"
  proof (rule forE_reindexed [OF f _ cs(2) _ run l])
    show "(n, c) \<in> childrel m" if "c \<in> set cs" for c using that ch by simp
    show "reindexed m2 c m3 \<and> Node_getTreeIndex m3 c = Node_getTreeIndex m2 n @ [mn_branch (node_at m c)]"
      if "c \<in> set cs" "tree_links m2 = tree_links m" "f c m2 = (Inr (), m3)" for c m2 m3
      by (rule st [OF that])
  qed
  note out' = loop [THEN conjunct2, THEN conjunct1, rule_format] and inside = loop [THEN conjunct2, THEN conjunct2, THEN bspec]
  have up: "(c, n) \<notin> (childrel m)\<^sup>*" if "(n, c) \<in> childrel m" for c by (rule not_below_own_child [OF f that])
  have n: "Node_getTreeIndex m' n = Node_getTreeIndex m1 n"
  proof (rule out')
    fix c assume "c \<in> set cs"
    then show "(c, n) \<notin> (childrel m)\<^sup>*" using ch up by blast
  qed
  have "Node_getTreeIndex m' x = Node_getTreeIndex m x" if x: "(n, x) \<notin> (childrel m)\<^sup>*" for x
  proof -
    have "(c, x) \<notin> (childrel m)\<^sup>*" if "c \<in> set cs" for c
      using x converse_rtrancl_into_rtrancl [of n c "childrel m" x] ch that by blast
    then have "Node_getTreeIndex m' x = Node_getTreeIndex m1 x" by (intro out') blast
    then show ?thesis using out [OF x] by (rule trans)
  qed
  moreover have "Node_getTreeIndex m' c = Node_getTreeIndex m' p @ [mn_branch (node_at m c)]"
    if p: "(n, p) \<in> (childrel m)\<^sup>*" and c: "(p, c) \<in> childrel m" for p c
    using p
  proof (cases rule: converse_rtranclE)
    case base
    then have "c \<in> set cs" using ch c by blast
    from inside [OF this, THEN conjunct1] have "Node_getTreeIndex m' c = Node_getTreeIndex m' n @ [mn_branch (node_at m c)]" unfolding n .
    then show ?thesis using base by simp
  next
    case (step d)
    then have "d \<in> set cs" using ch by blast
    from inside [OF this, THEN conjunct2] step(2) c show ?thesis by blast
  qed
  ultimately show ?thesis using loop [THEN conjunct1] n unfolding reindexed_def by blast
qed

lemma distinct_children: "forest m \<Longrightarrow> distinct (getOrderedChildNodes qt m n)"
  by (simp add: forest_def getOrderedChildNodes_def Let_def)

lemma forest_child: "forest m \<Longrightarrow> (p, c) \<in> childrel m \<Longrightarrow> getParentNode m c = Some p \<and> md_nodes m c \<noteq> None"
  by (simp add: forest_def)

lemma links_same:
  assumes "tree_links m' = tree_links m"
  shows "forest m' = forest m" "childrel m' = childrel m" "mn_branch (node_at m' x) = mn_branch (node_at m x)"
    "getParentNode m' x = getParentNode m x" "(md_nodes m' x = None) = (md_nodes m x = None)"
    "mn_new_nodes (node_at m' x) = mn_new_nodes (node_at m x)"
proof -
  note l = fun_cong [OF assms, of x]
  show "mn_branch (node_at m' x) = mn_branch (node_at m x)" "getParentNode m' x = getParentNode m x"
    "(md_nodes m' x = None) = (md_nodes m x = None)" "mn_new_nodes (node_at m' x) = mn_new_nodes (node_at m x)"
    by (rule tree_linksD(3) [OF l], rule tree_linksD(1) [OF l], rule tree_linksD(7) [OF l], rule tree_linksD(2) [OF l])
qed (rule forest_links [OF assms], rule childrel_links [OF assms])

lemma updateTreeIndex_reindexed:
  "updateTreeIndex qt stack n pre m = (Inr (), m') \<Longrightarrow> forest m \<Longrightarrow> md_nodes m n \<noteq> None \<Longrightarrow>
   reindexed m n m' \<and> Node_getTreeIndex m' n = pre @ [mn_branch (node_at m n)]"
proof (induction stack arbitrary: n pre m m')
  case 0
  then show ?case by (simp add: run_throwE)
next
  case (Suc stack)
  define m1 where "m1 = upd_mnode n (\<lambda>x. x\<lparr>mn_tree_index := pre @ [mn_branch x]\<rparr>) m"
  have l: "tree_links m1 = tree_links m" by (simp add: m1_def tree_links_upd)
  have i: "Node_getTreeIndex m1 x = (if x = n then pre @ [mn_branch (node_at m n)] else Node_getTreeIndex m x)" for x
    using Suc.prems(3) by (simp add: m1_def Node_getTreeIndex_def)
  let ?f = "\<lambda>c. bindE getE (\<lambda>m'. updateTreeIndex qt stack c (Node_getTreeIndex m' n))"
  have run: "forE (getOrderedChildNodes qt m1 n) ?f m1 = (Inr (), m')"
    using Suc.prems(1) by (simp add: run_bindE_Inr m1_def)
  have step: "reindexed m2 c m3 \<and> Node_getTreeIndex m3 c = Node_getTreeIndex m2 n @ [mn_branch (node_at m c)]"
    if c: "(n, c) \<in> childrel m" and l2: "tree_links m2 = tree_links m" and r: "?f c m2 = (Inr (), m3)" for c m2 m3
  proof -
    have "updateTreeIndex qt stack c (Node_getTreeIndex m2 n) m2 = (Inr (), m3)" using r by (simp add: run_bindE_Inr)
    from Suc.IH [OF this] show ?thesis
      using forest_child [OF Suc.prems(2) c] Suc.prems(2) links_same(1) [OF l2] links_same(5) [OF l2, of c] links_same(3) [OF l2, of c] by simp
  qed
  have "reindexed m n m' \<and> Node_getTreeIndex m' n = Node_getTreeIndex m1 n"
    by (rule reindexed_loop [OF Suc.prems(2) l _ _ _ run step])
      (auto simp: i links_same(6) [OF l] distinct_children [of m1] links_same(1) [OF l] Suc.prems(2))
  then show ?case using i by simp
qed

lemma reindexed_trans_same:
  assumes "(tree_links m', Node_getTreeIndex m') = (tree_links m, Node_getTreeIndex m)"
  shows "reindexed m n m2 = reindexed m' n m2"
proof -
  have l: "tree_links m' = tree_links m" and i: "Node_getTreeIndex m' = Node_getTreeIndex m" using assms by simp_all
  show ?thesis by (simp add: reindexed_def l i links_same(2,3) [OF l])
qed

text \<open>The overridden functions leave the tree alone.\<close>

definition hooks_ok :: "NodeClass \<Rightarrow> bool" where
  "hooks_ok cls \<longleftrightarrow> (\<forall>V n x.
     preserves (\<lambda>m. (tree_links m, Node_getTreeIndex m) = V) (nc_parentSet cls n x) \<and>
     preserves (\<lambda>m. (tree_links m, Node_getTreeIndex m) = V) (nc_childAdded cls n x))"

lemma parentNodeUpdated_reindexed:
  assumes "hooks_ok cls"
  shows "parentNodeUpdated qt cls stack n m = (Inr (), m') \<Longrightarrow> forest m \<Longrightarrow> (p, n) \<in> childrel m \<Longrightarrow>
    reindexed m n m' \<and> Node_getTreeIndex m' n = Node_getTreeIndex m p @ [mn_branch (node_at m n)]"
proof (induction stack arbitrary: n p m m')
  case 0
  then show ?case by (simp add: run_throwE)
next
  case (Suc stack)
  let ?v = "\<lambda>m. (tree_links m, Node_getTreeIndex m)"
  have pn: "getParentNode m n = Some p" and ex: "md_nodes m n \<noteq> None" using forest_child [OF Suc.prems(2,3)] by auto
  let ?f = "\<lambda>c. bindE (modifyE (\<lambda>m'. set_parent_once c (Some n) (mn_branch (node_at m' c)) m')) (\<lambda>_. parentNodeUpdated qt cls stack c)"
  obtain m0 ma mb mc md me where
    r: "Entity_revalidateData qt stack n m = (Inr (), m0)" "Node_AddUUID qt stack n m0 = (Inr (), ma)"
      "updateTreeIndex qt stack n (Node_getTreeIndex ma p) ma = (Inr (), mb)" "updateViewAspect qt stack n (getViewAspect mb p) mb = (Inr (), mc)"
      "nc_parentSet cls n p mc = (Inr (), md)" "forE (getOrderedChildNodes qt md n) ?f md = (Inr (), m')"
    using Suc.prems(1) unfolding parentNodeUpdated.simps bind_get pn option.case
    by (elim bindE_InrD) (auto simp: bind_get elim!: bindE_InrD)
  have h: "preserves (\<lambda>m. ?v m = V) (nc_parentSet cls n p)" for V using assms unfolding hooks_ok_def by blast
  have v: "?v m0 = ?v m" "?v ma = ?v m0" "?v mc = ?v mb" "?v md = ?v mc"
    by (rule preservesD [OF data_tree(1) refl r(1)], rule preservesD [OF data_tree(2) refl r(2)], rule preservesD [OF viewAspect_tree refl r(4)],
        rule preservesD [OF h refl r(5)])
  have va: "?v ma = ?v m" using v(1,2) by simp
  have la: "tree_links ma = tree_links m" and ia: "Node_getTreeIndex ma = Node_getTreeIndex m" using va by simp_all
  have b: "reindexed m n mb" "Node_getTreeIndex mb n = Node_getTreeIndex m p @ [mn_branch (node_at m n)]"
    using updateTreeIndex_reindexed [OF r(3)] links_same [OF la] Suc.prems(2) ex ia reindexed_trans_same [OF va, of n mb] by simp_all
  have ld: "tree_links md = tree_links m" and idx: "Node_getTreeIndex md = Node_getTreeIndex mb" using v(3,4) b(1) by (simp_all add: reindexed_def)
  have step: "reindexed m2 c m3 \<and> Node_getTreeIndex m3 c = Node_getTreeIndex m2 n @ [mn_branch (node_at m c)]"
    if c: "(n, c) \<in> childrel m" and l2: "tree_links m2 = tree_links m" and s: "?f c m2 = (Inr (), m3)" for c m2 m3
  proof -
    have "getParentNode m2 c = Some n" using forest_child [OF Suc.prems(2) c] links_same(4) [OF l2] by simp
    then have "parentNodeUpdated qt cls stack c m2 = (Inr (), m3)" using s by (simp add: run_bindE_Inr set_parent_once_def)
    from Suc.IH [OF this, of n] show ?thesis
      using c Suc.prems(2) links_same(1,2) [OF l2] links_same(3) [OF l2, of c] by simp
  qed
  have "reindexed m n m' \<and> Node_getTreeIndex m' n = Node_getTreeIndex md n"
    by (rule reindexed_loop [OF Suc.prems(2) ld _ _ _ r(6) step])
      (use b(1) in \<open>auto simp: idx reindexed_def links_same(6) [OF ld] distinct_children [of md] links_same(1) [OF ld] Suc.prems(2)\<close>)
  then show ?case using b(2) idx by simp
qed

section \<open>The invariant of the tree\<close>

definition tree_ok :: "MModel \<Rightarrow> bool" where
  "tree_ok m \<longleftrightarrow>
     (\<forall>p c. (p, c) \<in> childrel m \<longrightarrow> md_nodes m c \<noteq> None \<and> getParentNode m c = Some p \<and>
        Node_getTreeIndex m c = Node_getTreeIndex m p @ [mn_branch (node_at m c)] \<and> mn_branch (node_at m c) < mn_branch_count (node_at m p)) \<and>
     (\<forall>p c. getParentNode m c = Some p \<longrightarrow> (p, c) \<in> childrel m) \<and>
     (\<forall>p. distinct (mn_new_nodes (node_at m p)) \<and> inj_on (\<lambda>c. mn_branch (node_at m c)) (set (mn_new_nodes (node_at m p)))) \<and>
     (\<forall>p k. getChildrenOfKindCount m p k = int (length (filter (\<lambda>c. mn_node_kind (node_at m c) = k) (mn_new_nodes (node_at m p)))))"

lemma tree_okD:
  assumes "tree_ok m"
  shows "(p, c) \<in> childrel m \<Longrightarrow> md_nodes m c \<noteq> None \<and> getParentNode m c = Some p \<and>
      Node_getTreeIndex m c = Node_getTreeIndex m p @ [mn_branch (node_at m c)] \<and> mn_branch (node_at m c) < mn_branch_count (node_at m p)"
    and "getParentNode m c = Some p \<Longrightarrow> (p, c) \<in> childrel m"
    and "distinct (mn_new_nodes (node_at m p)) \<and> inj_on (\<lambda>c. mn_branch (node_at m c)) (set (mn_new_nodes (node_at m p)))"
    and "getChildrenOfKindCount m p k = int (length (filter (\<lambda>c. mn_node_kind (node_at m c) = k) (mn_new_nodes (node_at m p))))"
  using assms unfolding tree_ok_def by blast+

lemma tree_ok_forest:
  assumes "tree_ok m" shows "forest m"
proof -
  have "childrel m \<subseteq> measure (\<lambda>n. length (Node_getTreeIndex m n))" using tree_okD(1) [OF assms] by fastforce
  then have "acyclic (childrel m)" using wf_subset [OF wf_measure] wf_acyclic by blast
  then show ?thesis using tree_okD(1,3) [OF assms] unfolding forest_def by blast
qed

text \<open>Right after a node has taken a child, before the child is updated.\<close>

definition adopted :: "nat \<Rightarrow> nat \<Rightarrow> MModel \<Rightarrow> MModel" where
  "adopted n c m = set_parent_once c (Some n) (mn_branch_count (node_at m n))
     (upd_mnode n (\<lambda>x. x\<lparr>mn_node_kind_count := count_kind (mn_node_kind (node_at m c)) 1 (mn_node_kind_count x),
        mn_new_nodes := List.insert c (mn_new_nodes x), mn_branch_count := mn_branch_count (node_at m n) + 1\<rparr>) m)"

lemma addChild_run:
  assumes "\<not> containsChild m n c" and "nc_canAdoptChild cls m n c"
  shows "addChild qt cls stack n c m =
    bindE (parentNodeUpdated qt cls stack c) (\<lambda>_. bindE (nc_childAdded cls n c) (\<lambda>_. returnE True)) (adopted n c m)"
  using assms by (simp add: addChild_def setParentNode_def adopted_def run_bindE_Inr Let_def bindE_assoc)

lemma adopted_at:
  assumes "md_nodes m n \<noteq> None" and "md_nodes m c \<noteq> None" and "getParentNode m c = None" and "c \<noteq> n"
  shows "node_at (adopted n c m) x =
    (if x = c then (node_at m c)\<lparr>mn_parent_node := Some n, mn_parent_node_kind := mn_node_kind (node_at m n), mn_branch := mn_branch_count (node_at m n)\<rparr>
     else if x = n then (node_at m n)\<lparr>mn_node_kind_count := count_kind (mn_node_kind (node_at m c)) 1 (mn_node_kind_count (node_at m n)),
        mn_new_nodes := List.insert c (mn_new_nodes (node_at m n)), mn_branch_count := mn_branch_count (node_at m n) + 1\<rparr>
     else node_at m x)"
    and "(md_nodes (adopted n c m) x = None) = (md_nodes m x = None)"
  using assms by (auto simp: adopted_def set_parent_once_def getParentNode_def) (auto simp: upd_mnode_def split: if_splits)

lemma adopted_fields:
  assumes "md_nodes m n \<noteq> None" and "md_nodes m c \<noteq> None" and "getParentNode m c = None" and "c \<noteq> n"
  shows "mn_new_nodes (node_at (adopted n c m) x) = (if x = n then List.insert c (mn_new_nodes (node_at m n)) else mn_new_nodes (node_at m x))"
    "getParentNode (adopted n c m) x = (if x = c then Some n else getParentNode m x)"
    "mn_branch (node_at (adopted n c m) x) = (if x = c then mn_branch_count (node_at m n) else mn_branch (node_at m x))"
    "mn_branch_count (node_at (adopted n c m) x) = (if x = n then mn_branch_count (node_at m n) + 1 else mn_branch_count (node_at m x))"
    "mn_node_kind (node_at (adopted n c m) x) = mn_node_kind (node_at m x)"
    "mn_node_kind_count (node_at (adopted n c m) x) =
      (if x = n then count_kind (mn_node_kind (node_at m c)) 1 (mn_node_kind_count (node_at m n)) else mn_node_kind_count (node_at m x))"
    "Node_getTreeIndex (adopted n c m) x = Node_getTreeIndex m x"
  using assms(4) by (auto simp: adopted_at [OF assms] getParentNode_def Node_getTreeIndex_def)

lemma rtrancl_insert_away:
  assumes "(c, n) \<notin> r\<^sup>*" and "(c, x) \<in> (insert (n, c) r)\<^sup>*" shows "(c, x) \<in> r\<^sup>*"
  using assms(2)
proof (induction rule: rtrancl_induct)
  case (step y z)
  then show ?case using assms(1) by (auto intro: rtrancl_into_rtrancl)
qed simp

lemma adopt_tree:
  assumes "tree_ok m" and "md_nodes m n \<noteq> None" and "md_nodes m c \<noteq> None" and "getParentNode m c = None" and "(c, n) \<notin> (childrel m)\<^sup>*"
  shows "childrel (adopted n c m) = insert (n, c) (childrel m)" "forest (adopted n c m)"
proof -
  have cn: "c \<noteq> n" using assms(5) by auto
  note at = adopted_fields [OF assms(2-4) cn] adopted_at(2) [OF assms(2-4) cn]
  have nc: "(p, c) \<notin> childrel m" for p using tree_okD(1) [OF assms(1), of p c] assms(4) by auto
  show rel: "childrel (adopted n c m) = insert (n, c) (childrel m)" by (auto simp: childrel_def at split: if_splits)
  have "acyclic (insert (n, c) (childrel m))"
    using tree_ok_forest [OF assms(1)] assms(5) by (simp add: forest_def acyclic_insert)
  moreover have "distinct (mn_new_nodes (node_at (adopted n c m) p))" for p
    using tree_okD(3) [OF assms(1), of p] by (cases "p = n") (simp_all add: at)
  moreover have "getParentNode (adopted n c m) d = Some p \<and> md_nodes (adopted n c m) d \<noteq> None"
    if "(p, d) \<in> insert (n, c) (childrel m)" for p d
  proof (cases "d = c")
    case True
    then have "p = n" using that nc by auto
    then show ?thesis using True assms(3) by (simp add: at)
  next
    case False
    then have "getParentNode m d = Some p" "md_nodes m d \<noteq> None" using that tree_okD(1) [OF assms(1)] by auto
    then show ?thesis using False by (simp add: at)
  qed
  ultimately show "forest (adopted n c m)" by (simp add: forest_def rel)
qed

lemma count_kind_at: "(case map_of (count_kind k d counts) k' of Some c \<Rightarrow> c | None \<Rightarrow> 0) =
    (case map_of counts k' of Some c \<Rightarrow> c | None \<Rightarrow> 0) + (if k' = k then d else 0)"
  by (simp add: count_kind_def split: option.split)

lemma adopted_reindexed_ok:
  assumes "tree_ok m" and "md_nodes m n \<noteq> None" and "md_nodes m c \<noteq> None" and "getParentNode m c = None" and "(c, n) \<notin> (childrel m)\<^sup>*"
    and "reindexed (adopted n c m) c m'"
    and "Node_getTreeIndex m' c = Node_getTreeIndex (adopted n c m) n @ [mn_branch (node_at (adopted n c m) c)]"
  shows "tree_ok m'" "childrel m' = insert (n, c) (childrel m)"
proof -
  let ?m = "adopted n c m"
  have cn: "c \<noteq> n" using assms(5) by auto
  note at = adopted_fields [OF assms(2-4) cn] adopted_at(2) [OF assms(2-4) cn]
  note rel = adopt_tree [OF assms(1-5)]
  have l: "tree_links m' = tree_links ?m" using assms(6) by (simp add: reindexed_def)
  note lf = links_same [OF l]
  have nc: "(p, c) \<notin> childrel m" for p using tree_okD(1) [OF assms(1), of p c] assms(4) by auto
  have away: "(c, x) \<in> (childrel ?m)\<^sup>* \<longleftrightarrow> (c, x) \<in> (childrel m)\<^sup>*" for x
    using rtrancl_insert_away [OF assms(5), of x] rtrancl_mono [of "childrel m" "childrel ?m"] rel(1) by auto
  have out: "Node_getTreeIndex m' x = Node_getTreeIndex m x" if "(c, x) \<notin> (childrel m)\<^sup>*" for x
  proof -
    have "Node_getTreeIndex m' x = Node_getTreeIndex ?m x" using assms(6) that away unfolding reindexed_def by blast
    moreover have "x \<noteq> c" using that by auto
    ultimately show ?thesis by (simp add: at)
  qed
  have inside: "Node_getTreeIndex m' d = Node_getTreeIndex m' p @ [mn_branch (node_at ?m d)]" if "(c, p) \<in> (childrel m)\<^sup>*" "(p, d) \<in> childrel ?m" for p d
    using assms(6) that away unfolding reindexed_def by blast
  show "childrel m' = insert (n, c) (childrel m)" using lf(2) rel(1) by simp
  have kinds: "mn_node_kind (node_at m' x) = mn_node_kind (node_at m x)" for x
    using tree_linksD(5) [OF fun_cong [OF l, of x]] by (simp add: at)
  have counts: "getChildrenOfKindCount m' x k = getChildrenOfKindCount ?m x k" "mn_branch_count (node_at m' x) = mn_branch_count (node_at ?m x)" for x k
    using tree_linksD(4,6) [OF fun_cong [OF l, of x]] by (simp_all add: getChildrenOfKindCount_def)
  have br: "mn_branch (node_at m d) < mn_branch_count (node_at m p)" if "(p, d) \<in> childrel m" for p d
    using tree_okD(1) [OF assms(1) that] by blast
  show "tree_ok m'"
    unfolding tree_ok_def lf(2) rel(1) lf(3-6) counts kinds
  proof (intro conjI allI impI)
    fix p d assume pd: "(p, d) \<in> insert (n, c) (childrel m)"
    then have f: "getParentNode ?m d = Some p" "md_nodes ?m d \<noteq> None" using forest_child [OF rel(2), of p d] rel(1) by auto
    then show "md_nodes ?m d \<noteq> None" "getParentNode ?m d = Some p" by simp_all
    show "mn_branch (node_at ?m d) < mn_branch_count (node_at ?m p)"
      using pd br [of p d] nc [of p] by (auto simp: at)
    show "Node_getTreeIndex m' d = Node_getTreeIndex m' p @ [mn_branch (node_at ?m d)]"
    proof (cases "(c, p) \<in> (childrel m)\<^sup>*")
      case True
      then show ?thesis using inside pd rel(1) by simp
    next
      case False
      show ?thesis
      proof (cases "d = c")
        case True
        then have "p = n" using pd nc by auto
        then show ?thesis using True assms(7) out [OF assms(5)] cn by (simp add: at)
      next
        case dc: False
        then have pd': "(p, d) \<in> childrel m" using pd by auto
        have "(c, d) \<notin> (childrel m)\<^sup>*"
        proof
          assume "(c, d) \<in> (childrel m)\<^sup>*"
          then obtain q where "(c, q) \<in> (childrel m)\<^sup>*" "(q, d) \<in> childrel m" using dc by (auto elim: rtranclE)
          then have "(c, p) \<in> (childrel m)\<^sup>*" using tree_okD(1) [OF assms(1)] pd' by (metis option.inject)
          then show False using \<open>(c, p) \<notin> (childrel m)\<^sup>*\<close> by simp
        qed
        then show ?thesis using out out [OF False] tree_okD(1) [OF assms(1) pd'] dc by (simp add: at)
      qed
    qed
  next
    fix p d assume "getParentNode ?m d = Some p"
    then show "(p, d) \<in> insert (n, c) (childrel m)"
      using tree_okD(2) [OF assms(1), of d p] by (auto simp: at split: if_splits)
  next
    fix p show "distinct (mn_new_nodes (node_at ?m p))" using tree_okD(3) [OF assms(1), of p] by (cases "p = n") (simp_all add: at)
    have old: "mn_branch (node_at ?m x) = mn_branch (node_at m x)" if "(p, x) \<in> childrel m" for x
      using that nc [of p] by (auto simp: at)
    have lt: "x \<in> set (mn_new_nodes (node_at m p)) \<Longrightarrow> x \<noteq> c \<and> mn_branch (node_at ?m x) = mn_branch (node_at m x) \<and> mn_branch (node_at m x) < mn_branch_count (node_at m p)" for x
      using br [of p x] old [of x] nc [of p] by (auto simp: childrel_def)
    have inj: "inj_on (\<lambda>x. mn_branch (node_at m x)) (set (mn_new_nodes (node_at m p)))" using tree_okD(3) [OF assms(1), of p] by blast
    have "inj_on (\<lambda>x. mn_branch (node_at ?m x)) (set (mn_new_nodes (node_at m p)))"
      using inj lt by (auto simp: inj_on_def)
    moreover have "mn_branch (node_at ?m c) = mn_branch_count (node_at m n)" by (simp add: at)
    ultimately show "inj_on (\<lambda>x. mn_branch (node_at ?m x)) (set (mn_new_nodes (node_at ?m p)))"
      using lt nc [of p] by (cases "p = n") (force simp: at(1) cn childrel_def)+
  next
    fix p k
    have "c \<notin> set (mn_new_nodes (node_at m n))" using nc [of n] by (simp add: childrel_def)
    then show "getChildrenOfKindCount ?m p k = int (length (filter (\<lambda>d. mn_node_kind (node_at m d) = k) (mn_new_nodes (node_at ?m p))))"
      using tree_okD(4) [OF assms(1), of p k] cn
      by (auto simp: getChildrenOfKindCount_def at count_kind_at)
  qed
qed

section \<open>Ancestors\<close>

lemma index_prefix_append: "index_prefix a b \<longleftrightarrow> a \<noteq> [] \<and> (\<exists>z. b = a @ z)"
proof
  assume p: "index_prefix a b"
  then have "a = take (length a) b" by (simp add: index_prefix_def list.rel_eq)
  then have "b = a @ drop (length a) b" by (metis append_take_drop_id)
  then show "a \<noteq> [] \<and> (\<exists>z. b = a @ z)" using p unfolding index_prefix_def by blast
qed (auto simp: index_prefix_def list.rel_eq)

lemma below_index:
  assumes "tree_ok m" and "(a, b) \<in> (childrel m)\<^sup>*"
  shows "\<exists>z. Node_getTreeIndex m b = Node_getTreeIndex m a @ z"
  using assms(2)
proof (induction rule: rtrancl_induct)
  case (step y z)
  then show ?case using tree_okD(1) [OF assms(1) step(2)] by auto
qed simp

lemma below_parent:
  assumes "tree_ok m" and "(r, b) \<in> (childrel m)\<^sup>*" and "Node_getTreeIndex m b = Node_getTreeIndex m r @ z @ [x]"
  obtains p where "(r, p) \<in> (childrel m)\<^sup>*" "(p, b) \<in> childrel m" "Node_getTreeIndex m p = Node_getTreeIndex m r @ z"
    "x = mn_branch (node_at m b)"
proof -
  have "b \<noteq> r" using assms(3) by auto
  then obtain p where p: "(r, p) \<in> (childrel m)\<^sup>*" "(p, b) \<in> childrel m" using assms(2) by (auto elim: rtranclE)
  have "Node_getTreeIndex m b = Node_getTreeIndex m p @ [mn_branch (node_at m b)]" using tree_okD(1) [OF assms(1) p(2)] by blast
  then have "Node_getTreeIndex m p @ [mn_branch (node_at m b)] = (Node_getTreeIndex m r @ z) @ [x]" using assms(3) by simp
  then show thesis using that p unfolding append1_eq_conv by blast
qed

lemma index_inj:
  assumes "tree_ok m" and "(r, a) \<in> (childrel m)\<^sup>*" and "(r, b) \<in> (childrel m)\<^sup>*" and "Node_getTreeIndex m a = Node_getTreeIndex m b"
  shows "a = b"
  using assms(2-4)
proof (induction arbitrary: b rule: rtrancl_induct)
  case base
  show ?case
  proof (rule ccontr)
    assume "r \<noteq> b"
    then obtain p where p: "(r, p) \<in> (childrel m)\<^sup>*" "(p, b) \<in> childrel m" using base(1) by (auto elim: rtranclE)
    then show False using below_index [OF assms(1) p(1)] tree_okD(1) [OF assms(1) p(2)] base(2) by auto
  qed
next
  case (step p a)
  obtain z where z: "Node_getTreeIndex m p = Node_getTreeIndex m r @ z" using below_index [OF assms(1) step(1)] by blast
  have a: "Node_getTreeIndex m a = Node_getTreeIndex m p @ [mn_branch (node_at m a)]" using tree_okD(1) [OF assms(1) step(2)] by blast
  then obtain q where q: "(r, q) \<in> (childrel m)\<^sup>*" "(q, b) \<in> childrel m" "Node_getTreeIndex m q = Node_getTreeIndex m p"
    "mn_branch (node_at m a) = mn_branch (node_at m b)"
    using below_parent [OF assms(1) step(4), of z "mn_branch (node_at m a)"] step(5) z by auto
  have "p = q" using step.IH [OF q(1)] q(3) by simp
  then show ?case using tree_okD(3) [OF assms(1), of p] step(2) q(2,4) by (auto simp: childrel_def inj_on_def)
qed

lemma prefix_below:
  assumes "tree_ok m" and "(r, a) \<in> (childrel m)\<^sup>*"
  shows "(r, b) \<in> (childrel m)\<^sup>* \<Longrightarrow> Node_getTreeIndex m b = Node_getTreeIndex m a @ z \<Longrightarrow> (a, b) \<in> (childrel m)\<^sup>*"
proof (induction z arbitrary: b rule: rev_induct)
  case Nil
  then show ?case using index_inj [OF assms(1,2), of b] by simp
next
  case (snoc x z)
  obtain w where "Node_getTreeIndex m a = Node_getTreeIndex m r @ w" using below_index [OF assms] by blast
  then obtain p where "(r, p) \<in> (childrel m)\<^sup>*" "(p, b) \<in> childrel m" "Node_getTreeIndex m p = Node_getTreeIndex m a @ z"
    using below_parent [OF assms(1) snoc(2), of "w @ z" x] snoc(3) by auto
  then show ?case using snoc.IH by (auto intro: rtrancl_into_rtrancl)
qed

lemma ancestor_prefix:
  assumes "tree_ok m" and "Node_getTreeIndex m r \<noteq> []" and "(r, a) \<in> (childrel m)\<^sup>*" and "(r, b) \<in> (childrel m)\<^sup>*"
  shows "ancestorOf m a b \<longleftrightarrow> (a, b) \<in> (childrel m)\<^sup>*"
proof -
  have "Node_getTreeIndex m a \<noteq> []" using below_index [OF assms(1,3)] assms(2) by auto
  then show ?thesis
    using prefix_below [OF assms(1,3,4)] below_index [OF assms(1), of a b] by (auto simp: ancestorOf_def index_prefix_append)
qed

lemma common_prefix_take: "take (common_prefix xs ys) xs = take (common_prefix xs ys) ys"
  "common_prefix xs ys \<le> length xs" "common_prefix xs ys \<le> length ys"
  by (induction xs ys rule: common_prefix.induct) auto

lemma common_prefix_le: "length z \<le> common_prefix (z @ u) (z @ v)"
  by (induction z) auto

lemma walk_up_ancestor:
  assumes "tree_ok m"
  shows "(r, x) \<in> (childrel m)\<^sup>* \<Longrightarrow> k + length (Node_getTreeIndex m r) \<le> length (Node_getTreeIndex m x) \<Longrightarrow>
    \<exists>y. walk_up m k (Some x) = Some y \<and> (r, y) \<in> (childrel m)\<^sup>* \<and> (y, x) \<in> (childrel m)\<^sup>* \<and>
      length (Node_getTreeIndex m y) + k = length (Node_getTreeIndex m x)"
proof (induction k arbitrary: x)
  case (Suc k)
  have "x \<noteq> r" using Suc.prems(2) by auto
  then obtain p where p: "(r, p) \<in> (childrel m)\<^sup>*" "(p, x) \<in> childrel m" using Suc.prems(1) by (auto elim: rtranclE)
  have x: "getParentNode m x = Some p" "Node_getTreeIndex m x = Node_getTreeIndex m p @ [mn_branch (node_at m x)]"
    using tree_okD(1) [OF assms p(2)] by auto
  obtain y where "walk_up m k (Some p) = Some y" "(r, y) \<in> (childrel m)\<^sup>*" "(y, p) \<in> (childrel m)\<^sup>*"
    "length (Node_getTreeIndex m y) + k = length (Node_getTreeIndex m p)"
    using Suc.IH [OF p(1)] Suc.prems(2) x(2) by auto
  then show ?case using x p(2) by (auto intro: rtrancl_into_rtrancl)
qed auto

lemma common_ancestor:
  assumes "tree_ok m" and "Node_getTreeIndex m r \<noteq> []" and "(r, a) \<in> (childrel m)\<^sup>*" and "(r, b) \<in> (childrel m)\<^sup>*"
  shows "if ancestorOf m a b then getCommonAncestor m a (Some b) = None
    else \<exists>c. getCommonAncestor m a (Some b) = Some c \<and> (c, a) \<in> (childrel m)\<^sup>* \<and> (c, b) \<in> (childrel m)\<^sup>* \<and>
      (\<forall>d. (r, d) \<in> (childrel m)\<^sup>* \<longrightarrow> (d, a) \<in> (childrel m)\<^sup>* \<longrightarrow> (d, b) \<in> (childrel m)\<^sup>* \<longrightarrow> (d, c) \<in> (childrel m)\<^sup>*)"
proof -
  let ?i = "Node_getTreeIndex m" and ?R = "(childrel m)\<^sup>*"
  let ?k = "common_prefix (?i a) (?i b)"
  note anc = ancestor_prefix [OF assms]
  have h: "getDepthFromCommonAncestor m a (Some b) = int (length (?i a) - ?k)"
    using common_prefix_take(2) [of "?i a" "?i b"] by (simp add: getDepthFromCommonAncestor_def)
  have full: "ancestorOf m a b \<longleftrightarrow> ?k = length (?i a)"
  proof
    assume "ancestorOf m a b"
    then obtain z where "?i b = ?i a @ z" using anc below_index [OF assms(1)] by blast
    then show "?k = length (?i a)" using common_prefix_le [of "?i a" "[]" z] common_prefix_take(2) [of "?i a" "?i b"] by simp
  next
    assume k: "?k = length (?i a)"
    then have "?i b = ?i a @ drop ?k (?i b)" using common_prefix_take(1) [of "?i a" "?i b"] by (metis append_take_drop_id take_all order_refl)
    then show "ancestorOf m a b" using prefix_below [OF assms(1,3,4)] anc by blast
  qed
  show ?thesis
  proof (cases "ancestorOf m a b")
    case True
    then have "getCommonAncestor m a (Some b) = None" using full h by (simp add: getCommonAncestor_def getParentNode_depth_def Let_def)
    then show ?thesis using True by simp
  next
    case False
    define n where "n = length (?i a) - ?k"
    have n: "0 < n" "?k + n = length (?i a)" using False full common_prefix_take(2) [of "?i a" "?i b"] by (auto simp: n_def)
    obtain u v where uv: "?i a = ?i r @ u" "?i b = ?i r @ v" using below_index [OF assms(1)] assms(3,4) by blast
    have "length (?i r) \<le> ?k" using common_prefix_le [of "?i r" u v] uv by simp
    then obtain c where c: "walk_up m n (Some a) = Some c" "(r, c) \<in> ?R" "(c, a) \<in> ?R" "length (?i c) + n = length (?i a)"
      using walk_up_ancestor [OF assms(1,3), of n] n(2) by auto
    have ic: "?i c = take ?k (?i a)"
      using below_index [OF assms(1) c(3)] c(4) n(2) by auto
    have up: "getCommonAncestor m a (Some b) = Some c"
    proof -
      obtain j where j: "n = Suc j" using n(1) by (cases n) auto
      then have "walk_up m j (getParentNode m a) = Some c" using c(1) by simp
      moreover have "nat (int n) - 1 = j" "0 < n" using j by simp_all
      moreover have "getDepthFromCommonAncestor m a (Some b) = int n" using h unfolding n_def .
      ultimately show ?thesis by (simp add: getCommonAncestor_def getParentNode_depth_def Let_def)
    qed
    have "?i b = ?i c @ drop ?k (?i b)" unfolding ic common_prefix_take(1) [of "?i a" "?i b"] by simp
    then have cb: "(c, b) \<in> ?R" using prefix_below [OF assms(1) c(2) assms(4)] by blast
    have "(d, c) \<in> ?R" if d: "(r, d) \<in> ?R" "(d, a) \<in> ?R" "(d, b) \<in> ?R" for d
    proof -
      obtain s t where st: "?i a = ?i d @ s" "?i b = ?i d @ t" using below_index [OF assms(1)] d(2,3) by blast
      then have "length (?i d) \<le> ?k" using common_prefix_le [of "?i d" s t] by simp
      then have "?i c = ?i d @ take (?k - length (?i d)) s" using ic st(1) by simp
      then show ?thesis using prefix_below [OF assms(1) d(1) c(2)] by blast
    qed
    then show ?thesis using False up c(3) cb by auto
  qed
qed

section \<open>Adoption returns\<close>

text \<open>What the links between data and the tree depend on.\<close>

definition model_str ::
  "MModel \<Rightarrow> (string, MKey) umap \<times> (nat \<Rightarrow> MEntity option) \<times>
     (nat \<Rightarrow> (nat option \<times> nat list \<times> int \<times> int \<times> NODE_KIND \<times> (NODE_KIND, int) umap) option) \<times> (nat \<Rightarrow> MData option)" where
  "model_str m = (md_keys m, md_entities m, tree_links m, \<lambda>d. map_option (\<lambda>x. x\<lparr>da_value := QInvalid\<rparr>) (md_datas m d))"

lemma model_str_shape: "data_shape m' = data_shape m \<Longrightarrow> model_str m' = model_str m"
  by (simp add: data_shape_def model_str_def tree_links_def fun_eq_iff)

lemma model_strD:
  assumes "model_str m' = model_str m"
  shows "sets_next m' d = sets_next m d" "tree_links m' = tree_links m" "md_entities m' = md_entities m" "slots_modelled m' d = slots_modelled m d"
proof -
  let ?m = "m'\<lparr>md_nodes := md_nodes m, md_edges := md_edges m, md_next := md_next m\<rparr>"
  have sh: "data_shape ?m = data_shape m" using assms by (simp add: data_shape_def model_str_def)
  have d: "data_at ?m = data_at m'" "entity_at ?m = entity_at m'" by (simp_all add: data_at_def entity_at_def fun_eq_iff)
  show l: "tree_links m' = tree_links m" and e: "md_entities m' = md_entities m" using assms by (simp_all add: model_str_def)
  have ea: "entity_at m' = entity_at m" by (simp add: entity_at_def e fun_eq_iff)
  have x: "da_child_datas (data_at m' d) = da_child_datas (data_at m d)" "da_key (data_at m' d) = da_key (data_at m d)"
    "da_parent (data_at m' d) = da_parent (data_at m d)" "da_slots (data_at m' d) = da_slots (data_at m d)" for d
    using shape_at(1,2,3,6) [OF sh, of d] d by simp_all
  have g: "Entity_getData m' = Entity_getData m"
    unfolding Entity_getData_def Entity_getData_of_key_def Entity_getKey_def ea ..
  have n: "data_node m' d = data_node m d" for d unfolding data_node_def x isNode_def ea ..
  have p: "mn_parent_node (node_at m' y) = mn_parent_node (node_at m y)" "mn_new_nodes (node_at m' y) = mn_new_nodes (node_at m y)" for y
    using tree_linksD(1,2) [OF fun_cong [OF l, of y]] by (simp_all add: getParentNode_def)
  show "sets_next m' d = sets_next m d" "slots_modelled m' d = slots_modelled m d"
    unfolding sets_next_def slots_modelled_def set_after_def written_def data_node_parent_def x g n p by (rule refl)+
qed

lemma safe_setValue_str:
  assumes "\<And>d c. c \<in> sets_next m0 d \<Longrightarrow> rank c < (rank d :: nat)" and "\<And>d. slots_modelled m0 d" and "rank d < stack"
  shows "safe (\<lambda>m. model_str m = model_str m0) (setValue qt stack d v)"
  unfolding safe_def
proof (intro conjI allI impI)
  show "preserves (\<lambda>m. model_str m = model_str m0) (setValue qt stack d v)"
    by (rule preserves_via [OF shape_setValue]) (rule model_str_shape)
  fix s assume s: "model_str s = model_str m0"
  show "\<not> lost_run (fst (setValue qt stack d v s))"
    by (rule safeD [OF setValue_safe [of UNIV s rank d stack qt v]]) (use assms model_strD(1,4) [OF s] in auto)
qed

lemma model_str_upd:
  assumes "\<And>x. (mn_parent_node (f x), mn_new_nodes (f x), mn_branch (f x), mn_branch_count (f x), mn_node_kind (f x), mn_node_kind_count (f x)) =
    (mn_parent_node x, mn_new_nodes x, mn_branch x, mn_branch_count x, mn_node_kind x, mn_node_kind_count x)"
  shows "model_str (upd_mnode n f m) = model_str m"
  using tree_links_upd [of f n m] assms by (simp add: model_str_def) (simp add: upd_mnode_def)

lemma children_str: "model_str m' = model_str m \<Longrightarrow> c \<in> set (getOrderedChildNodes qt m' n) \<Longrightarrow> (n, c) \<in> childrel m"
  using links_same(6) [OF model_strD(2), of m' m n] by (simp add: childrel_def)

lemma safe_updates:
  assumes "\<And>p c. (p, c) \<in> childrel m0 \<Longrightarrow> height c < (height p :: nat)"
  shows "height n < stack \<Longrightarrow> safe (\<lambda>m. model_str m = model_str m0) (updateTreeIndex qt stack n pre)"
    and "height n < stack \<Longrightarrow> safe (\<lambda>m. model_str m = model_str m0) (updateViewAspect qt stack n a)"
proof (induction stack arbitrary: n pre a)
  case (Suc stack)
  let ?I = "\<lambda>m. model_str m = model_str m0"
  have kids: "height c < stack" if "?I m" "c \<in> set (getOrderedChildNodes qt m n)" "height n < Suc stack" for m c n
    using assms [OF children_str [OF that(1,2)]] that(3) by simp
  { case 1
    show ?case unfolding updateTreeIndex.simps
      by (intro safe_rules Suc.IH(1)) ((rule kids, assumption, assumption, rule 1) | simp add: model_str_upd)+ }
  { case 2
    show ?case unfolding updateViewAspect.simps
      by (intro safe_rules Suc.IH(2)) ((rule kids, assumption, assumption, rule 2) | simp add: model_str_upd)+ }
qed simp_all

lemma safe_parentNodeUpdated:
  assumes "\<And>d c. c \<in> sets_next m0 d \<Longrightarrow> rank c < (rank d :: nat)" and "\<And>d. rank d < K" and "\<And>d. slots_modelled m0 d"
    and "\<And>p c. (p, c) \<in> childrel m0 \<Longrightarrow> height c < (height p :: nat)" and "forest m0"
    and "\<And>e. Entity_getData m0 e ''uuid'' = None" and "\<And>n p. safe (\<lambda>m. model_str m = model_str m0) (nc_parentSet cls n p)"
  shows "height n + K < stack \<Longrightarrow> safe (\<lambda>m. model_str m = model_str m0) (parentNodeUpdated qt cls stack n)"
proof (induction stack arbitrary: n)
  case (Suc stack)
  let ?I = "\<lambda>m. model_str m = model_str m0"
  have K: "0 < K" using assms(2) [of 0] by simp
  have r: "safe ?I (Entity_revalidateData qt stack n)"
    unfolding Entity_revalidateData_def revalidateData_def
  proof (intro safe_rules safe_setValue_str [where rank = rank])
    fix d show "rank d < stack" using assms(2) [of d] Suc.prems by simp
  qed (auto intro: assms(1,3))
  have "Entity_getData m e ''uuid'' = None" if "?I m" for m e
  proof -
    have "entity_at m = entity_at m0" by (simp add: entity_at_def model_strD(3) [OF that] fun_eq_iff)
    then have "Entity_getData m e ''uuid'' = Entity_getData m0 e ''uuid''"
      unfolding Entity_getData_def Entity_getData_of_key_def Entity_getKey_def by simp
    then show ?thesis using assms(6) by simp
  qed
  then have u: "safe ?I (Node_AddUUID qt stack n)"
    unfolding Node_AddUUID_def by (intro safe_rules) (auto simp: Entity_gotData_def)
  have h: "height n < stack" using Suc.prems K by simp
  have same: "model_str (set_parent_once c (Some n) b m) = model_str m0" if "?I m" "(n, c) \<in> childrel m0" for c b m
    using that forest_child [OF assms(5) that(2)] links_same(4) [OF model_strD(2) [OF that(1)], of c] by (simp add: set_parent_once_def)
  have loop: "safe ?I (forE (getOrderedChildNodes qt m3 n) (\<lambda>c. bindE (modifyE (\<lambda>m'. set_parent_once c (Some n) (mn_branch (node_at m' c)) m'))
      (\<lambda>_. parentNodeUpdated qt cls stack c)))" if "?I m3" for m3
  proof (intro safe_rules)
    fix c m assume "c \<in> set (getOrderedChildNodes qt m3 n)" "?I m"
    then show "model_str (set_parent_once c (Some n) (mn_branch (node_at m c)) m) = model_str m0" using children_str that same by blast
  next
    fix c assume "c \<in> set (getOrderedChildNodes qt m3 n)"
    then have "height c < height n" using children_str that assms(4) by blast
    then show "safe ?I (parentNodeUpdated qt cls stack c)" by (intro Suc.IH) (use Suc.prems in simp)
  qed
  show ?case unfolding parentNodeUpdated.simps
    by (intro safe_get safe_option safe_return safe_bind r u assms(7) loop safe_updates [where height = height] h) (auto intro: assms(4))
qed simp

section \<open>Cyclic adoption\<close>

lemma links_updateTreeIndex: "preserves (\<lambda>m. tree_links m = L) (updateTreeIndex qt stack n pre)"
proof (induction stack arbitrary: n pre)
  case (Suc stack)
  show ?case unfolding updateTreeIndex.simps by (intro pres preserves_modifyE Suc) (simp add: tree_links_upd)
qed (simp add: pres)

lemma updateTreeIndex_cycle:
  assumes "\<And>x. x \<in> C \<Longrightarrow> \<exists>c \<in> C. (x, c) \<in> childrel m0"
  shows "n \<in> C \<Longrightarrow> tree_links m = tree_links m0 \<Longrightarrow> isl (fst (updateTreeIndex qt stack n pre m))"
proof (induction stack arbitrary: n pre m)
  case 0
  then show ?case by (simp add: run_throwE)
next
  case (Suc stack)
  let ?I = "\<lambda>m. tree_links m = tree_links m0"
  obtain c where c: "c \<in> C" "(n, c) \<in> childrel m0" using assms [OF Suc.prems(1)] by blast
  have "isl (fst (forE (getOrderedChildNodes qt m1 n) (\<lambda>c. bindE getE (\<lambda>m'. updateTreeIndex qt stack c (Node_getTreeIndex m' n))) m1))" if "?I m1" for m1
  proof (rule forE_fails [where I = ?I and x = c, OF _ _ _ that])
    show "c \<in> set (getOrderedChildNodes qt m1 n)" using c(2) links_same(6) [OF that, of n] by (simp add: childrel_def)
    show "isl (fst (bindE getE (\<lambda>m'. updateTreeIndex qt stack c (Node_getTreeIndex m' n)) s))" if "?I s" for s
      using Suc.IH [OF c(1) that] by (simp add: bind_get)
    show "preserves ?I (bindE getE (\<lambda>m'. updateTreeIndex qt stack y (Node_getTreeIndex m' n)))" for y
      by (intro pres links_updateTreeIndex)
  qed
  then show ?case using Suc.prems(2) by (simp add: bind_get run_bindE_Inr tree_links_upd)
qed

lemma parentNodeUpdated_cycle:
  assumes "\<And>x. x \<in> C \<Longrightarrow> \<exists>c \<in> C. (x, c) \<in> childrel m" and "n \<in> C" and "getParentNode m n = Some p"
  shows "isl (fst (parentNodeUpdated qt cls stack n m))"
proof (cases stack)
  case (Suc s)
  let ?I = "\<lambda>m'. tree_links m' = tree_links m"
  have nodes: "preserves ?I f" if "\<And>N. preserves (\<lambda>m. md_nodes m = N) f" for f :: "(MModel, unit) em"
    by (rule preserves_via [OF that]) (simp add: tree_links_def fun_eq_iff)
  have u: "isl (fst (updateTreeIndex qt s n pre m'))" if "?I m'" for m' pre
    using updateTreeIndex_cycle [of C m n m'] assms(1,2) that by blast
  have "isl (fst (bindE (Node_AddUUID qt s n) (\<lambda>_. bindE getE (\<lambda>m1. bindE (updateTreeIndex qt s n (Node_getTreeIndex m1 p)) k)) m'))"
    if "?I m'" for k m'
    by (rule bindE_fails [where I = ?I, OF nodes _ that]) (auto intro: AddUUID_nodes simp: bind_get intro!: bindE_fails_fst u)
  note rest = this
  show ?thesis
    unfolding Suc parentNodeUpdated.simps bind_get assms(3) option.case
  proof (rule bindE_fails [where I = ?I, OF nodes])
    show "preserves (\<lambda>m. md_nodes m = N) (Entity_revalidateData qt s n)" for N by (rule revalidate_nodes)
  qed (rule rest [unfolded bind_get], assumption, rule refl)
qed (simp add: run_throwE)

section \<open>An example\<close>

definition demo_node :: "int list \<Rightarrow> int \<Rightarrow> nat option \<Rightarrow> nat list \<Rightarrow> MNode" where
  "demo_node i b p cs = MNode_blank\<lparr>mn_tree_index := i, mn_branch := b, mn_branch_count := int (length cs), mn_parent_node := p,
     mn_new_nodes := cs, mn_node_kind := ''AGGREGATE'', mn_accepted_node_kinds := [''AGGREGATE''],
     mn_node_kind_count := [(''AGGREGATE'', int (length cs))]\<rparr>"

text \<open>The root 0 with the children 1 and 2 and the grandchild 3; the nodes 5 and 6 are not in this tree.\<close>

definition demo_tree :: MModel where
  "demo_tree = MModel_empty\<lparr>md_nodes := map_of [(0, demo_node [0] 0 None [1, 2]), (1, demo_node [0, 0] 0 (Some 0) [3]),
     (2, demo_node [0, 1] 1 (Some 0) []), (3, demo_node [0, 0, 0] 0 (Some 1) []), (5, demo_node [] 0 None [6]), (6, demo_node [0] 0 (Some 5) [])]\<rparr>"

lemma demo_tree_at: "node_at demo_tree n =
    (if n = 0 then demo_node [0] 0 None [1, 2] else if n = 1 then demo_node [0, 0] 0 (Some 0) [3]
     else if n = 2 then demo_node [0, 1] 1 (Some 0) [] else if n = 3 then demo_node [0, 0, 0] 0 (Some 1) []
     else if n = 5 then demo_node [] 0 None [6] else if n = 6 then demo_node [0] 0 (Some 5) [] else MNode_blank)"
  by (simp add: node_at_def demo_tree_def)

lemma demo_node_sel [simp]:
  "mn_tree_index (demo_node i b p cs) = i" "mn_branch (demo_node i b p cs) = b" "mn_parent_node (demo_node i b p cs) = p"
  "mn_new_nodes (demo_node i b p cs) = cs" "mn_branch_count (demo_node i b p cs) = int (length cs)"
  "mn_node_kind (demo_node i b p cs) = ''AGGREGATE''" "mn_node_kind_count (demo_node i b p cs) = [(''AGGREGATE'', int (length cs))]"
  by (simp_all add: demo_node_def)

lemma demo_tree_rel: "childrel demo_tree = {(0, 1), (0, 2), (1, 3), (5, 6)}"
  by (auto simp: childrel_def demo_tree_at MNode_blank_def split: if_splits)

lemma demo_below: "(5, x) \<in> (childrel demo_tree)\<^sup>* \<Longrightarrow> x = 5 \<or> x = 6"
  by (induction rule: rtrancl_induct) (auto simp: demo_tree_rel)

lemma demo_tree_ok: "tree_ok demo_tree"
  unfolding tree_ok_def demo_tree_rel
proof (intro conjI allI impI)
  fix p c
  show "getParentNode demo_tree c = Some p \<Longrightarrow> (p, c) \<in> {(0, 1), (0, 2), (1, 3), (5, 6)}"
    by (auto simp: getParentNode_def demo_tree_at MNode_blank_def split: if_splits)
  show "distinct (mn_new_nodes (node_at demo_tree p))" by (simp add: demo_tree_at MNode_blank_def)
  show "inj_on (\<lambda>c. mn_branch (node_at demo_tree c)) (set (mn_new_nodes (node_at demo_tree p)))"
    by (auto simp: demo_tree_at MNode_blank_def)
  fix k
  show "getChildrenOfKindCount demo_tree p k = int (length (filter (\<lambda>c. mn_node_kind (node_at demo_tree c) = k) (mn_new_nodes (node_at demo_tree p))))"
    by (auto simp: getChildrenOfKindCount_def demo_tree_at MNode_blank_def)
qed (auto simp: Node_getTreeIndex_def getParentNode_def demo_tree_at, auto simp: demo_tree_def)

lemma Node_class_hooks: "hooks_ok (Node_class qt k)"
  by (simp add: hooks_ok_def Node_class_def pres)

section \<open>Properties\<close>

text \<open>
  C30. Adoption keeps the tree. When a node takes a child that has no parent and that it is not below
  itself, then afterwards again every child knows its parent, the index of a node is the index of its
  parent followed by its branch, siblings have different branches, and the counts of the kinds of children
  are right; exactly one child relation is new.
\<close>
theorem addChild_keeps_tree:
  assumes "tree_ok m" and "hooks_ok cls" and "md_nodes m n \<noteq> None" and "md_nodes m c \<noteq> None" and "getParentNode m c = None"
    and "(c, n) \<notin> (childrel m)\<^sup>*" and "addChild qt cls stack n c m = (Inr True, m')"
  shows "tree_ok m' \<and> childrel m' = insert (n, c) (childrel m)"
proof -
  have can: "\<not> containsChild m n c" "nc_canAdoptChild cls m n c"
    using assms(7) by (auto simp: addChild_def bind_get run_returnE split: if_splits)
  obtain m1 m2 where r: "parentNodeUpdated qt cls stack c (adopted n c m) = (Inr (), m1)" "nc_childAdded cls n c m1 = (Inr (), m2)" "m' = m2"
    using assms(7) unfolding addChild_run [OF can] by (auto simp: run_returnE elim!: bindE_InrD)
  have cn: "c \<noteq> n" using assms(6) by auto
  have "(n, c) \<in> childrel (adopted n c m)" using adopt_tree(1) [OF assms(1,3-6)] by simp
  from parentNodeUpdated_reindexed [OF assms(2) r(1) adopt_tree(2) [OF assms(1,3-6)] this]
  have "reindexed (adopted n c m) c m1"
    "Node_getTreeIndex m1 c = Node_getTreeIndex (adopted n c m) n @ [mn_branch (node_at (adopted n c m) c)]" by simp_all
  moreover have "(tree_links m', Node_getTreeIndex m') = (tree_links m1, Node_getTreeIndex m1)"
  proof -
    have "preserves (\<lambda>m. (tree_links m, Node_getTreeIndex m) = V) (nc_childAdded cls n c)" for V using assms(2) unfolding hooks_ok_def by blast
    from preservesD [OF this refl r(2)] show ?thesis using r(3) by simp
  qed
  ultimately have "reindexed (adopted n c m) c m'"
    "Node_getTreeIndex m' c = Node_getTreeIndex (adopted n c m) n @ [mn_branch (node_at (adopted n c m) c)]"
    by (simp_all add: reindexed_def)
  from adopted_reindexed_ok [OF assms(1,3-6) this] show ?thesis by simp
qed

theorem addChild_keeps_tree_witness:
  "\<exists>m'. addChild demo_qt (Node_class demo_qt 0) 9 2 5 demo_tree = (Inr True, m') \<and> tree_ok m' \<and>
    childrel m' = {(0, 1), (0, 2), (1, 3), (2, 5), (5, 6)}"
proof -
  have "fst (addChild demo_qt (Node_class demo_qt 0) 9 2 5 demo_tree) = Inr True" by code_simp
  then obtain m' where r: "addChild demo_qt (Node_class demo_qt 0) 9 2 5 demo_tree = (Inr True, m')"
    by (cases "addChild demo_qt (Node_class demo_qt 0) 9 2 5 demo_tree") simp
  have n: "md_nodes demo_tree 2 \<noteq> None" "md_nodes demo_tree 5 \<noteq> None" "getParentNode demo_tree 5 = None" by code_simp+
  have "(5, 2) \<notin> (childrel demo_tree)\<^sup>*" using demo_below [of 2] by auto
  from addChild_keeps_tree [OF demo_tree_ok Node_class_hooks n this r] show ?thesis using r by (auto simp: demo_tree_rel)
qed

text \<open>
  Adoption ends. With the child in place: when what data sets next never leads back to it (\<open>rank\<close>) and no
  slot runs that is not modelled, the nodes have finite height and no UUID has to be made, then adoption by the class \<open>Node\<close> itself
  needs no more stack than the height of the child and the ranks of the data together.
\<close>
theorem addChild_returns:
  assumes "tree_ok m" and "md_nodes m n \<noteq> None" and "md_nodes m c \<noteq> None" and "getParentNode m c = None" and "(c, n) \<notin> (childrel m)\<^sup>*"
    and "\<And>d e. e \<in> sets_next (adopted n c m) d \<Longrightarrow> rank e < (rank d :: nat)" and "\<And>d. rank d < K"
    and "\<And>d. slots_modelled (adopted n c m) d" and "\<And>p d. (p, d) \<in> childrel (adopted n c m) \<Longrightarrow> height d < (height p :: nat)"
    and "\<And>e. Entity_getData (adopted n c m) e ''uuid'' = None" and "height c + K < stack"
  shows "fst (addChild qt (Node_class qt k) stack n c m) \<noteq> Inl stack_overflow"
proof (cases "\<not> containsChild m n c \<and> nc_canAdoptChild (Node_class qt k) m n c")
  case True
  let ?cls = "Node_class qt k"
  have hook: "safe (\<lambda>m'. model_str m' = model_str (adopted n c m)) (nc_parentSet ?cls x p)" for x p
    by (simp add: Node_class_def safe_return)
  have "safe (\<lambda>m'. model_str m' = model_str (adopted n c m)) (parentNodeUpdated qt ?cls stack c)"
    by (rule safe_parentNodeUpdated [where rank = rank and height = height and K = K, OF assms(6-9) adopt_tree(2) [OF assms(1-5)] assms(10) hook assms(11)])
  then have "safe (\<lambda>m'. model_str m' = model_str (adopted n c m)) (bindE (parentNodeUpdated qt ?cls stack c) (\<lambda>_. bindE (nc_childAdded ?cls n c) (\<lambda>_. returnE True)))"
    by (intro safe_bind) (simp_all add: Node_class_def safe_return)
  from safeD [OF this refl] show ?thesis using True by (auto simp: addChild_run)
next
  case False
  then show ?thesis by (auto simp: addChild_def bind_get run_returnE)
qed

theorem addChild_returns_witness: "fst (addChild demo_qt (Node_class demo_qt 0) 3 2 5 demo_tree) \<noteq> Inl stack_overflow"
proof (rule addChild_returns [where rank = "\<lambda>_. 0" and K = 1 and height = "\<lambda>n. if n = 0 then 3 else if n \<in> {1, 2} then 2 else if n = 5 then 1 else 0"])
  show n: "md_nodes demo_tree 2 \<noteq> None" "md_nodes demo_tree 5 \<noteq> None" "getParentNode demo_tree 5 = None" by code_simp+
  show c: "(5, 2) \<notin> (childrel demo_tree)\<^sup>*" using demo_below [of 2] by auto
  have e: "md_datas (adopted 2 5 demo_tree) = (\<lambda>_. None)" "md_entities (adopted 2 5 demo_tree) = (\<lambda>_. None)"
    using n by (simp_all add: adopted_def set_parent_once_def getParentNode_def upd_mnode_def demo_tree_def MModel_empty_def split: option.split)
  then show "Entity_getData (adopted 2 5 demo_tree) x ''uuid'' = None" for x
    by (simp add: Entity_getData_def Entity_getData_of_key_def Entity_getKey_def entity_at_def MEntity_blank_def)
  have "da_child_datas (data_at (adopted 2 5 demo_tree) d) = []" "da_slots (data_at (adopted 2 5 demo_tree) d) = []"
    "da_key (data_at (adopted 2 5 demo_tree) d) = []" for d
    by (simp_all add: data_at_def e MData_blank_def)
  then show "x \<in> sets_next (adopted 2 5 demo_tree) d \<Longrightarrow> 0 < (0 :: nat)" "slots_modelled (adopted 2 5 demo_tree) d" for x d
    by (simp_all add: sets_next_def set_after_def slots_modelled_def Let_def)
  show "(p, d) \<in> childrel (adopted 2 5 demo_tree) \<Longrightarrow> (if d = 0 then 3 else if d \<in> {1, 2} then 2 else if d = 5 then 1 else 0) <
      (if p = 0 then 3 else if p \<in> {1, 2} then 2 else if p = 5 then 1 else (0 :: nat))" for p d
    unfolding adopt_tree(1) [OF demo_tree_ok n c] demo_tree_rel by auto
qed (simp_all add: demo_tree_ok)

text \<open>
  C31. Positions tell ancestors. In the tree below a root that has an index, a node is an ancestor of
  another one (or the node itself) exactly when \<open>ancestorOf\<close> says so; \<open>getCommonAncestor\<close> then answers
  null, and otherwise the deepest node above both.
\<close>
theorem ancestors_by_index:
  assumes "tree_ok m" and "Node_getTreeIndex m r \<noteq> []" and "(r, a) \<in> (childrel m)\<^sup>*" and "(r, b) \<in> (childrel m)\<^sup>*"
  shows "(ancestorOf m a b \<longleftrightarrow> (a, b) \<in> (childrel m)\<^sup>*) \<and>
    (if ancestorOf m a b then getCommonAncestor m a (Some b) = None
     else \<exists>c. getCommonAncestor m a (Some b) = Some c \<and> (c, a) \<in> (childrel m)\<^sup>* \<and> (c, b) \<in> (childrel m)\<^sup>* \<and>
       (\<forall>d. (r, d) \<in> (childrel m)\<^sup>* \<longrightarrow> (d, a) \<in> (childrel m)\<^sup>* \<longrightarrow> (d, b) \<in> (childrel m)\<^sup>* \<longrightarrow> (d, c) \<in> (childrel m)\<^sup>*))"
  using ancestor_prefix [OF assms] common_ancestor [OF assms] by blast

theorem ancestors_by_index_witness:
  "ancestorOf demo_tree 1 3 \<and> getCommonAncestor demo_tree 1 (Some 3) = None \<and> (0, 3) \<in> (childrel demo_tree)\<^sup>* \<and>
    (\<exists>c. getCommonAncestor demo_tree 3 (Some 2) = Some c \<and> (c, 2) \<in> (childrel demo_tree)\<^sup>*)"
proof -
  have r: "Node_getTreeIndex demo_tree 0 \<noteq> []" by code_simp
  have b: "(0, 1) \<in> (childrel demo_tree)\<^sup>*" "(0, 2) \<in> (childrel demo_tree)\<^sup>*" "(1, 3) \<in> (childrel demo_tree)\<^sup>*"
    unfolding demo_tree_rel by auto
  then have c: "(0, 3) \<in> (childrel demo_tree)\<^sup>*" by auto
  have "\<not> ancestorOf demo_tree 3 2" by code_simp
  then show ?thesis
    using ancestors_by_index [OF demo_tree_ok r b(1) c] ancestors_by_index [OF demo_tree_ok r c b(2)] b c by auto
qed

text \<open>
  A node can be adopted by its own descendant. A node without a place in a tree passes the test for
  cycles of every node below it, because the test compares positions and it has none; the adoption
  then never ends.
\<close>
theorem cyclic_adoption_never_returns:
  assumes "tree_ok m" and "getParentNode m n = None" and "Node_getTreeIndex m n = []" and "md_nodes m n \<noteq> None" and "md_nodes m p \<noteq> None"
    and "(n, p) \<in> (childrel m)\<^sup>+" and "canAcceptNodeKind m p n" and "mn_definition (node_at m n) = None"
  shows "Node_canAdoptChild m p n \<and> (\<nexists>r m'. addChild qt (Node_class qt k) stack p n m = (Inr r, m'))"
proof -
  have np: "n \<noteq> p" using assms(6) tree_ok_forest [OF assms(1)] by (auto simp: forest_def acyclic_def)
  have c: "\<not> containsChild m p n" using tree_okD(1) [OF assms(1), of p n] assms(2) by (auto simp: containsChild_def childrel_def)
  have can: "Node_canAdoptChild m p n"
    using np c assms(3,7,8) by (simp add: Node_canAdoptChild_def ancestorOf_def isDescendantOf_def index_prefix_append)
  note at = adopted_fields [OF assms(5,4,2) np]
  have rel: "childrel (adopted p n m) = insert (p, n) (childrel m)" by (auto simp: childrel_def at split: if_splits)
  let ?C = "{x. (n, x) \<in> (childrel m)\<^sup>* \<and> (x, p) \<in> (childrel m)\<^sup>*}"
  have "isl (fst (parentNodeUpdated qt (Node_class qt k) stack n (adopted p n m)))"
  proof (rule parentNodeUpdated_cycle [where C = ?C])
    fix x assume x: "x \<in> ?C"
    show "\<exists>c \<in> ?C. (x, c) \<in> childrel (adopted p n m)"
    proof (cases "x = p")
      case True
      then show ?thesis using rel assms(6) by (auto intro: bexI [of _ n])
    next
      case False
      then obtain y where "(x, y) \<in> childrel m" "(y, p) \<in> (childrel m)\<^sup>*" using x by (auto elim: converse_rtranclE)
      then have "y \<in> ?C" "(x, y) \<in> childrel (adopted p n m)" using x rel by (auto intro: rtrancl_into_rtrancl)
      then show ?thesis by blast
    qed
  qed (use assms(6) in \<open>auto simp: at\<close>)
  then have "isl (fst (addChild qt (Node_class qt k) stack p n m))"
    using c can by (subst addChild_run) (auto simp: Node_class_def intro!: bindE_fails_fst)
  then show ?thesis using can by auto
qed

theorem cyclic_adoption_never_returns_witness:
  "Node_canAdoptChild demo_tree 6 5 \<and> (\<nexists>r m'. addChild demo_qt (Node_class demo_qt 0) 1000 6 5 demo_tree = (Inr r, m'))"
proof (rule cyclic_adoption_never_returns)
  show "(5, 6) \<in> (childrel demo_tree)\<^sup>+" unfolding demo_tree_rel by auto
  show "getParentNode demo_tree 5 = None" "Node_getTreeIndex demo_tree 5 = []" "md_nodes demo_tree 5 \<noteq> None" "md_nodes demo_tree 6 \<noteq> None"
    "canAcceptNodeKind demo_tree 6 5" "mn_definition (node_at demo_tree 5) = None" by code_simp+
qed (rule demo_tree_ok)

end
