(* ===== verification/GPGraphml.thy ===== *)
theory GPGraphml
  imports Prelude_SEM
begin

text \<open>
  The reader of model files, \<^verbatim>\<open>re/re_common/util/graphmlparser/graphmlparser.cpp\<close>: queries over an XML
  document by the ids of its elements, with their answers kept in caches.

  The XML library pugixml is outside the repository. A loaded document is the parameter \<open>Pugi\<close>: its
  elements have numbers, and \<open>pu_select_nodes\<close> evaluates an XPath expression at an element, in document
  order, or throws when the expression is malformed. The expressions themselves are built as the code
  builds them. The caches change nothing about the answers as long as no id contains a bar (the caches
  are keyed by two strings joined with a bar, and one of them is filled under the wrong key).
\<close>

type_synonym xml_node = nat

record Pugi =
  pu_document :: xml_node
  pu_document_element :: xml_node
  pu_select_nodes :: "xml_node \<Rightarrow> string \<Rightarrow> exn + xml_node list"
  pu_attribute :: "xml_node \<Rightarrow> string \<Rightarrow> string option"
  pu_child_value :: "xml_node \<Rightarrow> string"

definition pu_select_node :: "Pugi \<Rightarrow> xml_node \<Rightarrow> string \<Rightarrow> exn + xml_node option" where
  "pu_select_node px n expr = (case pu_select_nodes px n expr of
     Inl e \<Rightarrow> Inl e | Inr [] \<Rightarrow> Inr None | Inr (x # _) \<Rightarrow> Inr (Some x))"

text \<open>\<open>node.attribute(name).value()\<close> is the empty string for an attribute, or a node, that is not there.\<close>

definition pu_attribute_value :: "Pugi \<Rightarrow> xml_node \<Rightarrow> string \<Rightarrow> string" where
  "pu_attribute_value px n name = (case pu_attribute px n name of None \<Rightarrow> [] | Some v \<Rightarrow> v)"

record GraphmlParser =
  gp_attribute_map :: "(string, string) umap"
  gp_id_lookup :: "(string, xml_node) umap"
  gp_data_lookup :: "(string, string) umap"
  gp_attr_lookup :: "(string, string) umap"
  gp_parent_id_lookup :: "(string, string) umap"
  gp_shared_parent_map :: "(string, string) umap"
  gp_parent_height_depth_map :: "(string, int) umap"

section \<open>Construction\<close>

definition fill_attribute_map :: "Pugi \<Rightarrow> xml_node list \<Rightarrow> (string, string) umap" where
  "fill_attribute_map px keys =
     foldl (\<lambda>m k. umap_put (pu_attribute_value px k ''attr.name'') (pu_attribute_value px k ''id'') m) [] keys"

definition fill_id_lookup :: "Pugi \<Rightarrow> xml_node list \<Rightarrow> (string, xml_node) umap" where
  "fill_id_lookup px nodes = foldl (\<lambda>m n. umap_put (pu_attribute_value px n ''id'') n m) [] nodes"

text \<open>\<open>load\<close> is \<open>doc.load\<close>: the document, or the description of the error.\<close>

definition GraphmlParser_ctor :: "(string \<Rightarrow> string + Pugi) \<Rightarrow> string \<Rightarrow> exn + Pugi \<times> GraphmlParser" where
  "GraphmlParser_ctor load model_stream = (case load model_stream of
     Inl description \<Rightarrow> Inl (RuntimeError (''GraphmlParser:PugiXML Error: '' @ description))
   | Inr px \<Rightarrow> (case pu_select_nodes px (pu_document px) ''/graphml/key'' of
       Inl e \<Rightarrow> Inl e
     | Inr keys \<Rightarrow> (case pu_select_nodes px (pu_document px) ''//*[@id]'' of
         Inl e \<Rightarrow> Inl e
       | Inr nodes \<Rightarrow> Inr (px,
           \<lparr>gp_attribute_map = fill_attribute_map px keys, gp_id_lookup = fill_id_lookup px nodes,
             gp_data_lookup = [], gp_attr_lookup = [], gp_parent_id_lookup = [],
             gp_shared_parent_map = [], gp_parent_height_depth_map = []\<rparr>))))"

section \<open>Queries\<close>

text \<open>\<open>attribute_map_[name]\<close> enters the empty string for a name that is not there.\<close>

definition attribute_key :: "string \<Rightarrow> (GraphmlParser, string) em" where
  "attribute_key name = bindE getE (\<lambda>g. case map_of (gp_attribute_map g) name of
     Some k \<Rightarrow> returnE k
   | None \<Rightarrow> bindE (modifyE (\<lambda>g. g\<lparr>gp_attribute_map := umap_put name [] (gp_attribute_map g)\<rparr>)) (\<lambda>_. returnE []))"

fun kind_alternatives :: "string list \<Rightarrow> string" where
  "kind_alternatives [] = []"
| "kind_alternatives [k] = ''.= '' @ quoted k"
| "kind_alternatives (k # ks) = ''.= '' @ quoted k @ '' or '' @ kind_alternatives ks"

definition ids_of :: "Pugi \<Rightarrow> xml_node list \<Rightarrow> string list" where
  "ids_of px = map (\<lambda>n. pu_attribute_value px n ''id'')"

definition GraphmlParser_FindNodesOfKinds :: "Pugi \<Rightarrow> string list \<Rightarrow> string \<Rightarrow> (GraphmlParser, string list) em" where
  "GraphmlParser_FindNodesOfKinds px kinds parent_id =
     bindE getE (\<lambda>g.
     let search_node = (if parent_id \<noteq> [] then
           (case map_of (gp_id_lookup g) parent_id of Some n \<Rightarrow> n | None \<Rightarrow> pu_document_element px)
         else pu_document_element px)
     in if kinds = [] then returnE []
        else bindE (attribute_key ''kind'') (\<lambda>kind.
          let kind_str = ''('' @ kind_alternatives kinds @ '')'';
              search = ''.//node/data[@key='' @ quoted kind @ '' and '' @ kind_str @ '']/..''
          in bindE (liftE (pu_select_nodes px search_node search)) (\<lambda>ns. returnE (ids_of px ns))))"

definition GraphmlParser_FindNodesOfKind :: "Pugi \<Rightarrow> string \<Rightarrow> string \<Rightarrow> (GraphmlParser, string list) em" where
  "GraphmlParser_FindNodesOfKind px kind parent_id = GraphmlParser_FindNodesOfKinds px [kind] parent_id"

definition GraphmlParser_FindImmediateChildren :: "Pugi \<Rightarrow> string \<Rightarrow> string \<Rightarrow> (GraphmlParser, string list) em" where
  "GraphmlParser_FindImmediateChildren px kind parent_id =
     bindE getE (\<lambda>g. case (if parent_id \<noteq> [] then map_of (gp_id_lookup g) parent_id else None) of
       None \<Rightarrow> returnE []
     | Some search_node \<Rightarrow> bindE (attribute_key ''kind'') (\<lambda>k.
         bindE (liftE (pu_select_nodes px search_node
             (''./graph/node/data[@key='' @ quoted k @ '' and .='' @ quoted kind @ '']/..''))) (\<lambda>ns.
         returnE (ids_of px ns))))"

definition GraphmlParser_FindEdges :: "Pugi \<Rightarrow> string \<Rightarrow> (GraphmlParser, string list) em" where
  "GraphmlParser_FindEdges px kind =
     bindE (if kind \<noteq> [] then bindE (attribute_key ''kind'') (\<lambda>k.
              returnE (''.//edge[data[@key='' @ quoted k @ '' and .='' @ quoted kind @ '']]''))
            else returnE ''.//edge'') (\<lambda>search.
     bindE (liftE (pu_select_nodes px (pu_document px) search)) (\<lambda>ns. returnE (ids_of px ns)))"

definition joined :: "string \<Rightarrow> string \<Rightarrow> string" where
  "joined a b = a @ ''|'' @ b"

definition GraphmlParser_GetAttribute :: "Pugi \<Rightarrow> string \<Rightarrow> string \<Rightarrow> (GraphmlParser, string) em" where
  "GraphmlParser_GetAttribute px i attribute_name = bindE getE (\<lambda>g.
     case map_of (gp_attr_lookup g) (joined i attribute_name) of
       Some v \<Rightarrow> returnE v
     | None \<Rightarrow> (case map_of (gp_id_lookup g) i of
         None \<Rightarrow> returnE []
       | Some entity \<Rightarrow> (case pu_attribute px entity attribute_name of
           None \<Rightarrow> returnE []
         | Some out \<Rightarrow> bindE (modifyE (\<lambda>g. g\<lparr>gp_attr_lookup := umap_put (joined i attribute_name) out (gp_attr_lookup g)\<rparr>))
             (\<lambda>_. returnE out))))"

text \<open>The value is looked up under the joined key and stored under the id alone.\<close>

definition GraphmlParser_GetDataValue :: "Pugi \<Rightarrow> string \<Rightarrow> string \<Rightarrow> (GraphmlParser, string) em" where
  "GraphmlParser_GetDataValue px i key_name = bindE getE (\<lambda>g.
     case map_of (gp_data_lookup g) (joined i key_name) of
       Some v \<Rightarrow> returnE v
     | None \<Rightarrow> (case map_of (gp_id_lookup g) i of
         None \<Rightarrow> returnE []
       | Some entity \<Rightarrow> bindE (attribute_key key_name) (\<lambda>k.
           bindE (liftE (pu_select_node px entity (''data[@key='' @ quoted k @ '']''))) (\<lambda>node.
           case node of
             None \<Rightarrow> returnE []
           | Some n \<Rightarrow>
               bindE (modifyE (\<lambda>g. g\<lparr>gp_data_lookup := umap_put i (pu_child_value px n) (gp_data_lookup g)\<rparr>)) (\<lambda>_.
               returnE (pu_child_value px n))))))"

definition GraphmlParser_GetParentNode :: "Pugi \<Rightarrow> string \<Rightarrow> (GraphmlParser, string) em" where
  "GraphmlParser_GetParentNode px i = bindE getE (\<lambda>g.
     case map_of (gp_parent_id_lookup g) i of
       Some v \<Rightarrow> returnE v
     | None \<Rightarrow> (case map_of (gp_id_lookup g) i of
         None \<Rightarrow> returnE []
       | Some search_node \<Rightarrow> bindE (liftE (pu_select_node px search_node ''../..'')) (\<lambda>res.
           let out = (case res of None \<Rightarrow> [] | Some n \<Rightarrow> pu_attribute_value px n ''id'')
           in bindE (modifyE (\<lambda>g. g\<lparr>gp_parent_id_lookup := umap_put i out (gp_parent_id_lookup g)\<rparr>)) (\<lambda>_.
              returnE out))))"

text \<open>The depths that the callers ask for are not negative.\<close>

primrec GraphmlParser_GetParentNode_depth :: "Pugi \<Rightarrow> nat \<Rightarrow> string \<Rightarrow> (GraphmlParser, string) em" where
  "GraphmlParser_GetParentNode_depth px 0 i = returnE i"
| "GraphmlParser_GetParentNode_depth px (Suc depth) i =
     bindE (GraphmlParser_GetParentNode px i) (\<lambda>p. GraphmlParser_GetParentNode_depth px depth p)"

definition node_by_id :: "string \<Rightarrow> string" where
  "node_by_id i = ''.//node[@id='' @ [CHR 0x22] @ i @ [CHR 0x22] @ '']''"

definition shared_parent_expr :: "string \<Rightarrow> string \<Rightarrow> string" where
  "shared_parent_expr l r = node_by_id l @ ''/ancestor::* [count(. | '' @ node_by_id r @ ''/ancestor::*) = count('' @
     node_by_id r @ ''/ancestor::*)][1]/..''"

definition GraphmlParser_GetSharedParent :: "Pugi \<Rightarrow> string \<Rightarrow> string \<Rightarrow> (GraphmlParser, string) em" where
  "GraphmlParser_GetSharedParent px l r = bindE getE (\<lambda>g.
     case map_of (gp_shared_parent_map g) (joined l r) of
       Some v \<Rightarrow> returnE v
     | None \<Rightarrow> bindE (liftE (pu_select_node px (pu_document px) (shared_parent_expr l r))) (\<lambda>result.
         let v = (case result of None \<Rightarrow> [] | Some n \<Rightarrow> pu_attribute_value px n ''id'')
         in bindE (modifyE (\<lambda>g. g\<lparr>gp_shared_parent_map := umap_put (joined l r) v (gp_shared_parent_map g)\<rparr>)) (\<lambda>_.
            returnE v)))"

text \<open>The loop goes up until it meets the parent or runs out of elements. On a document where an element
  carries the id of one above it, it may go round for ever: then there is no number of rounds that
  suffices, and the model returns \<open>None\<close> for each.\<close>

primrec climb :: "Pugi \<Rightarrow> string \<Rightarrow> nat \<Rightarrow> string \<Rightarrow> int \<Rightarrow> (GraphmlParser, (string \<times> int) option) em" where
  "climb px parent_id 0 current_id depth = (if current_id = [] then returnE (Some ([], depth)) else returnE None)"
| "climb px parent_id (Suc rounds) current_id depth =
     (if current_id = [] then returnE (Some ([], depth))
      else bindE (GraphmlParser_GetParentNode px current_id) (\<lambda>p.
        if p = parent_id then returnE (Some (p, depth + 1)) else climb px parent_id rounds p (depth + 1)))"

definition GraphmlParser_GetHeightToParent :: "Pugi \<Rightarrow> nat \<Rightarrow> string \<Rightarrow> string \<Rightarrow> (GraphmlParser, int option) em" where
  "GraphmlParser_GetHeightToParent px rounds child_id parent_id = bindE getE (\<lambda>g.
     case map_of (gp_parent_height_depth_map g) (joined child_id parent_id) of
       Some v \<Rightarrow> returnE (Some v)
     | None \<Rightarrow> bindE (climb px parent_id rounds child_id 0) (\<lambda>r. case r of
         None \<Rightarrow> returnE None
       | Some (current_id, depth) \<Rightarrow>
           let d = (if current_id = [] then - 1 else depth)
           in bindE (modifyE (\<lambda>g. g\<lparr>gp_parent_height_depth_map :=
                umap_put (joined child_id parent_id) d (gp_parent_height_depth_map g)\<rparr>)) (\<lambda>_. returnE (Some d))))"

section \<open>The caches\<close>

text \<open>The queries a client may ask, with their answers in one type.\<close>

datatype plain_answer = A_ids "string list" | A_text string | A_height "int option"

datatype gquery =
    Q_nodes "string list" string
  | Q_children string string
  | Q_edges string
  | Q_attribute string string
  | Q_data string string
  | Q_parent string
  | Q_ancestor nat string
  | Q_shared string string
  | Q_height string string

fun ask :: "Pugi \<Rightarrow> nat \<Rightarrow> gquery \<Rightarrow> (GraphmlParser, plain_answer) em" where
  "ask px rounds (Q_nodes kinds p) = bindE (GraphmlParser_FindNodesOfKinds px kinds p) (\<lambda>r. returnE (A_ids r))"
| "ask px rounds (Q_children kind p) = bindE (GraphmlParser_FindImmediateChildren px kind p) (\<lambda>r. returnE (A_ids r))"
| "ask px rounds (Q_edges kind) = bindE (GraphmlParser_FindEdges px kind) (\<lambda>r. returnE (A_ids r))"
| "ask px rounds (Q_attribute i n) = bindE (GraphmlParser_GetAttribute px i n) (\<lambda>r. returnE (A_text r))"
| "ask px rounds (Q_data i k) = bindE (GraphmlParser_GetDataValue px i k) (\<lambda>r. returnE (A_text r))"
| "ask px rounds (Q_parent i) = bindE (GraphmlParser_GetParentNode px i) (\<lambda>r. returnE (A_text r))"
| "ask px rounds (Q_ancestor depth i) = bindE (GraphmlParser_GetParentNode_depth px depth i) (\<lambda>r. returnE (A_text r))"
| "ask px rounds (Q_shared l r) = bindE (GraphmlParser_GetSharedParent px l r) (\<lambda>r. returnE (A_text r))"
| "ask px rounds (Q_height c p) = bindE (GraphmlParser_GetHeightToParent px rounds c p) (\<lambda>r. returnE (A_height r))"

definition bar_free :: "string \<Rightarrow> bool" where
  "bar_free s \<longleftrightarrow> CHR ''|'' \<notin> set s"

text \<open>The ids of queries whose answers are cached under joined keys.\<close>

fun query_bar_free :: "gquery \<Rightarrow> bool" where
  "query_bar_free (Q_attribute i n) = bar_free i"
| "query_bar_free (Q_data i k) = bar_free i"
| "query_bar_free (Q_shared l r) = bar_free l"
| "query_bar_free (Q_height c p) = bar_free c"
| "query_bar_free _ = True"

lemma joined_inj: "bar_free a \<Longrightarrow> bar_free c \<Longrightarrow> joined a b = joined c d \<longleftrightarrow> a = c \<and> b = d"
proof -
  assume "bar_free a" "bar_free c"
  moreover have "takeWhile (\<lambda>x. x \<noteq> CHR ''|'') (joined e f) = e" if "bar_free e" for e f
  proof -
    have "takeWhile (\<lambda>x. x \<noteq> CHR ''|'') (joined e f) = e @ takeWhile (\<lambda>x. x \<noteq> CHR ''|'') (''|'' @ f)"
      unfolding joined_def by (rule takeWhile_append2) (use that in \<open>auto simp: bar_free_def\<close>)
    then show ?thesis by simp
  qed
  ultimately have "takeWhile (\<lambda>x. x \<noteq> CHR ''|'') (joined a b) = a" "takeWhile (\<lambda>x. x \<noteq> CHR ''|'') (joined c d) = c" by blast+
  then show ?thesis by (auto simp: joined_def)
qed

lemma joined_not_bar_free: "bar_free c \<Longrightarrow> c \<noteq> joined a b"
  by (auto simp: joined_def bar_free_def)

text \<open>What holds of a parser \<open>g\<close> after queries to the parser \<open>g0\<close> that was just loaded: it knows the same
  elements and keys, and a cached answer is the one that \<open>g0\<close> would give.\<close>

definition attribute_at :: "GraphmlParser \<Rightarrow> string \<Rightarrow> string" where
  "attribute_at g name = (case map_of (gp_attribute_map g) name of Some k \<Rightarrow> k | None \<Rightarrow> [])"

definition caches_ok :: "Pugi \<Rightarrow> nat \<Rightarrow> GraphmlParser \<Rightarrow> GraphmlParser \<Rightarrow> bool" where
  "caches_ok px rounds g0 g \<longleftrightarrow>
     gp_id_lookup g = gp_id_lookup g0 \<and> attribute_at g = attribute_at g0 \<and>
     (\<forall>i n v. bar_free i \<longrightarrow> map_of (gp_attr_lookup g) (joined i n) = Some v \<longrightarrow> fst (GraphmlParser_GetAttribute px i n g0) = Inr v) \<and>
     (\<forall>i. map_of (gp_data_lookup g) i \<noteq> None \<longrightarrow> bar_free i) \<and>
     (\<forall>i v. map_of (gp_parent_id_lookup g) i = Some v \<longrightarrow> fst (GraphmlParser_GetParentNode px i g0) = Inr v) \<and>
     (\<forall>l r v. bar_free l \<longrightarrow> map_of (gp_shared_parent_map g) (joined l r) = Some v \<longrightarrow> fst (GraphmlParser_GetSharedParent px l r g0) = Inr v) \<and>
     (\<forall>c p v. bar_free c \<longrightarrow> map_of (gp_parent_height_depth_map g) (joined c p) = Some v \<longrightarrow>
        fst (GraphmlParser_GetHeightToParent px rounds c p g0) = Inr (Some v))"

definition fresh_parser :: "GraphmlParser \<Rightarrow> bool" where
  "fresh_parser g \<longleftrightarrow> gp_data_lookup g = [] \<and> gp_attr_lookup g = [] \<and> gp_parent_id_lookup g = [] \<and>
     gp_shared_parent_map g = [] \<and> gp_parent_height_depth_map g = []"

definition transparent :: "Pugi \<Rightarrow> nat \<Rightarrow> GraphmlParser \<Rightarrow> (GraphmlParser, 'a) em \<Rightarrow> bool" where
  "transparent px rounds g0 p \<longleftrightarrow>
     (\<forall>g. caches_ok px rounds g0 g \<longrightarrow> fst (p g) = fst (p g0) \<and> caches_ok px rounds g0 (snd (p g)))"

lemma fresh_ok: "fresh_parser g0 \<Longrightarrow> caches_ok px rounds g0 g0"
  by (simp add: fresh_parser_def caches_ok_def)

lemma transparent_returnE: "transparent px rounds g0 (returnE v)"
  by (simp add: transparent_def returnE_def)

lemma transparent_liftE: "transparent px rounds g0 (liftE v)"
  by (simp add: transparent_def liftE_def)

lemma transparent_bindE:
  assumes "fresh_parser g0" and "transparent px rounds g0 p" and "\<And>a. transparent px rounds g0 (f a)"
  shows "transparent px rounds g0 (bindE p f)"
  unfolding transparent_def
proof (intro allI impI)
  fix g assume ok: "caches_ok px rounds g0 g"
  obtain r g1 where r: "p g = (r, g1)" by (cases "p g")
  obtain r0 g01 where r0: "p g0 = (r0, g01)" by (cases "p g0")
  have "r = r0" "caches_ok px rounds g0 g1"
    using assms(2) ok r r0 unfolding transparent_def by (metis fst_conv snd_conv)+
  moreover have "caches_ok px rounds g0 g01"
    using assms(2) fresh_ok [OF assms(1)] r0 unfolding transparent_def by (metis snd_conv)
  ultimately show "fst (bindE p f g) = fst (bindE p f g0) \<and> caches_ok px rounds g0 (snd (bindE p f g))"
    using assms(3) unfolding bindE_def r r0 transparent_def by (auto split: sum.split)
qed

lemma transparent_case_option:
  assumes "z = None \<Longrightarrow> transparent px rounds g0 m" and "\<And>a. z = Some a \<Longrightarrow> transparent px rounds g0 (f a)"
  shows "transparent px rounds g0 (case z of None \<Rightarrow> m | Some a \<Rightarrow> f a)"
  using assms by (cases z) auto

text \<open>A query that looks into a cache first.\<close>

lemma transparent_cached:
  assumes "transparent px rounds g0 m" and "caches_ok px rounds g0 g0" and "F g0 = m"
    and "\<And>g. caches_ok px rounds g0 g \<Longrightarrow> F g = m \<or> (\<exists>v. F g = returnE v \<and> fst (m g0) = Inr v)"
  shows "transparent px rounds g0 (bindE getE F)"
  unfolding transparent_def
proof (intro allI impI)
  fix g assume ok: "caches_ok px rounds g0 g"
  have run: "bindE getE F h = F h h" for h by (simp add: bindE_def)
  from assms(4) [OF ok] show "fst (bindE getE F g) = fst (bindE getE F g0) \<and> caches_ok px rounds g0 (snd (bindE getE F g))"
  proof
    assume "F g = m"
    then show ?thesis using assms(1,3) ok by (simp add: run transparent_def)
  next
    assume "\<exists>v. F g = returnE v \<and> fst (m g0) = Inr v"
    then show ?thesis using assms(3) ok by (auto simp: run run_returnE)
  qed
qed

text \<open>An answer that is computed and then stored.\<close>

lemma transparent_store:
  assumes "\<And>g. caches_ok px rounds g0 g \<Longrightarrow> caches_ok px rounds g0 (store g)"
  shows "transparent px rounds g0 (bindE (modifyE store) (\<lambda>_. returnE v))"
  using assms by (simp add: transparent_def bindE_def returnE_def)

lemma transparent_compute_store:
  assumes "transparent px rounds g0 c" and "fresh_parser g0"
    and "\<And>a g. fst (c g0) = Inr a \<Longrightarrow> caches_ok px rounds g0 g \<Longrightarrow> caches_ok px rounds g0 (store a g)"
  shows "transparent px rounds g0 (bindE c (\<lambda>a. bindE (modifyE (store a)) (\<lambda>_. returnE (h a))))"
  unfolding transparent_def
proof (intro allI impI)
  fix g assume ok: "caches_ok px rounds g0 g"
  obtain r g1 where r: "c g = (r, g1)" by (cases "c g")
  obtain r0 g01 where r0: "c g0 = (r0, g01)" by (cases "c g0")
  have "r = r0" "caches_ok px rounds g0 g1"
    using assms(1) ok r r0 unfolding transparent_def by (metis fst_conv snd_conv)+
  then show "fst (bindE c (\<lambda>a. bindE (modifyE (store a)) (\<lambda>_. returnE (h a))) g) =
      fst (bindE c (\<lambda>a. bindE (modifyE (store a)) (\<lambda>_. returnE (h a))) g0) \<and>
    caches_ok px rounds g0 (snd (bindE c (\<lambda>a. bindE (modifyE (store a)) (\<lambda>_. returnE (h a))) g))"
    using assms(3) [of _ g1] unfolding bindE_def r r0 by (auto simp: returnE_def split: sum.split)
qed

lemma transparent_attribute_key:
  assumes "fresh_parser g0"
  shows "transparent px rounds g0 (attribute_key name)"
  unfolding transparent_def
proof (intro allI impI)
  fix g assume ok: "caches_ok px rounds g0 g"
  have run: "fst (attribute_key name h) = Inr (attribute_at h name)" for h
    by (simp add: attribute_key_def attribute_at_def bindE_def returnE_def split: option.split)
  have same: "attribute_at (snd (attribute_key name h)) = attribute_at h" for h
    by (rule ext) (simp add: attribute_key_def attribute_at_def bindE_def returnE_def split: option.split)
  have rest: "caches_ok px rounds g0 (snd (attribute_key name g)) =
      (attribute_at (snd (attribute_key name g)) = attribute_at g0 \<and> caches_ok px rounds g0 g)"
    using ok by (simp add: attribute_key_def bindE_def returnE_def caches_ok_def split: option.split)
  have "attribute_at g name = attribute_at g0 name" using ok by (simp add: caches_ok_def)
  then show "fst (attribute_key name g) = fst (attribute_key name g0) \<and> caches_ok px rounds g0 (snd (attribute_key name g))"
    unfolding run rest same using ok by (simp add: caches_ok_def)
qed

lemmas transparent_intros = transparent_returnE transparent_liftE transparent_bindE transparent_attribute_key

lemma caches_okD:
  assumes "caches_ok px rounds g0 g"
  shows "gp_id_lookup g = gp_id_lookup g0"
    and "bar_free i \<Longrightarrow> map_of (gp_attr_lookup g) (joined i n) = Some v \<Longrightarrow> fst (GraphmlParser_GetAttribute px i n g0) = Inr v"
    and "map_of (gp_data_lookup g) (joined i n) = None"
    and "map_of (gp_parent_id_lookup g) i = Some v \<Longrightarrow> fst (GraphmlParser_GetParentNode px i g0) = Inr v"
    and "bar_free i \<Longrightarrow> map_of (gp_shared_parent_map g) (joined i n) = Some v \<Longrightarrow> fst (GraphmlParser_GetSharedParent px i n g0) = Inr v"
    and "bar_free i \<Longrightarrow> map_of (gp_parent_height_depth_map g) (joined i n) = Some d \<Longrightarrow>
      fst (GraphmlParser_GetHeightToParent px rounds i n g0) = Inr (Some d)"
  using assms joined_not_bar_free [of "joined i n" i n] unfolding caches_ok_def by fast+

lemma at_getE: "fst (bindE getE F g0) = fst (F g0 g0)"
  by (simp add: bindE_def)

section \<open>Every query is transparent\<close>

lemma transparent_nodes:
  assumes "fresh_parser g0"
  shows "transparent px rounds g0 (GraphmlParser_FindNodesOfKinds px kinds p)"
  unfolding GraphmlParser_FindNodesOfKinds_def
  by (rule transparent_cached [OF _ fresh_ok [OF assms] refl])
    (auto simp: Let_def caches_okD(1) intro!: transparent_intros assms)

lemma transparent_children:
  assumes "fresh_parser g0"
  shows "transparent px rounds g0 (GraphmlParser_FindImmediateChildren px kind p)"
  unfolding GraphmlParser_FindImmediateChildren_def
  by (rule transparent_cached [OF _ fresh_ok [OF assms] refl])
    (auto simp: caches_okD(1) intro!: transparent_intros assms split: option.split)

lemma transparent_edges:
  assumes "fresh_parser g0"
  shows "transparent px rounds g0 (GraphmlParser_FindEdges px kind)"
  unfolding GraphmlParser_FindEdges_def by (auto intro!: transparent_intros assms)

lemma transparent_attribute:
  assumes "fresh_parser g0" and "bar_free i"
  shows "transparent px rounds g0 (GraphmlParser_GetAttribute px i n)"
proof -
  let ?F = "\<lambda>g. case map_of (gp_attr_lookup g) (joined i n) of
       Some v \<Rightarrow> returnE v
     | None \<Rightarrow> (case map_of (gp_id_lookup g) i of
         None \<Rightarrow> returnE []
       | Some entity \<Rightarrow> (case pu_attribute px entity n of
           None \<Rightarrow> returnE []
         | Some out \<Rightarrow> bindE (modifyE (\<lambda>g. g\<lparr>gp_attr_lookup := umap_put (joined i n) out (gp_attr_lookup g)\<rparr>))
             (\<lambda>_. returnE out)))"
  have d: "GraphmlParser_GetAttribute px i n = bindE getE ?F" by (rule ext) (simp add: GraphmlParser_GetAttribute_def)
  have n: "map_of (gp_attr_lookup g0) (joined i n) = None" using assms(1) by (simp add: fresh_parser_def)
  have a: "fst (?F g0 g0) = fst (GraphmlParser_GetAttribute px i n g0)" by (simp only: d at_getE)
  have "transparent px rounds g0 (?F g0)"
    unfolding n option.case
  proof (intro transparent_case_option transparent_returnE transparent_store)
    fix entity out g
    assume e: "map_of (gp_id_lookup g0) i = Some entity" "pu_attribute px entity n = Some out" and ok: "caches_ok px rounds g0 g"
    have "fst (GraphmlParser_GetAttribute px i n g0) = Inr out"
      unfolding a [symmetric] n by (simp add: e bindE_def returnE_def)
    then show "caches_ok px rounds g0 (g\<lparr>gp_attr_lookup := umap_put (joined i n) out (gp_attr_lookup g)\<rparr>)"
      using ok assms(2) unfolding caches_ok_def attribute_at_def by (auto simp: joined_inj split: if_splits)
  qed
  then show ?thesis unfolding d
  proof (rule transparent_cached [OF _ fresh_ok [OF assms(1)] refl])
    fix g assume ok: "caches_ok px rounds g0 g"
    show "?F g = ?F g0 \<or> (\<exists>v. ?F g = returnE v \<and> fst (?F g0 g0) = Inr v)"
      unfolding a using caches_okD(1,2) [OF ok] assms(2) n by (cases "map_of (gp_attr_lookup g) (joined i n)") auto
  qed
qed

lemma transparent_data:
  assumes "fresh_parser g0" and "bar_free i"
  shows "transparent px rounds g0 (GraphmlParser_GetDataValue px i k)"
  unfolding GraphmlParser_GetDataValue_def
proof (rule transparent_cached [OF _ fresh_ok [OF assms(1)] refl])
  have n: "map_of (gp_data_lookup g0) (joined i k) = None" using assms(1) by (simp add: fresh_parser_def)
  show "transparent px rounds g0 (case map_of (gp_data_lookup g0) (joined i k) of
       Some v \<Rightarrow> returnE v
     | None \<Rightarrow> (case map_of (gp_id_lookup g0) i of
         None \<Rightarrow> returnE []
       | Some entity \<Rightarrow> bindE (attribute_key k) (\<lambda>k.
           bindE (liftE (pu_select_node px entity (''data[@key='' @ quoted k @ '']''))) (\<lambda>node.
           case node of
             None \<Rightarrow> returnE []
           | Some n \<Rightarrow>
               bindE (modifyE (\<lambda>g. g\<lparr>gp_data_lookup := umap_put i (pu_child_value px n) (gp_data_lookup g)\<rparr>)) (\<lambda>_.
               returnE (pu_child_value px n))))))"
    unfolding n option.case
  proof (intro transparent_case_option transparent_store transparent_intros assms(1))
    fix v g assume "caches_ok px rounds g0 g"
    then show "caches_ok px rounds g0 (g\<lparr>gp_data_lookup := umap_put i v (gp_data_lookup g)\<rparr>)"
      using assms(2) unfolding caches_ok_def attribute_at_def by simp
  qed
next
  fix g assume ok: "caches_ok px rounds g0 g"
  have n: "map_of (gp_data_lookup g) (joined i k) = None" "map_of (gp_data_lookup g0) (joined i k) = None"
    by (rule caches_okD(3) [OF ok], rule caches_okD(3) [OF fresh_ok [OF assms(1)]])
  show "(case map_of (gp_data_lookup g) (joined i k) of Some v \<Rightarrow> returnE v | None \<Rightarrow> M (gp_id_lookup g)) =
      (case map_of (gp_data_lookup g0) (joined i k) of Some v \<Rightarrow> returnE v | None \<Rightarrow> M (gp_id_lookup g0)) \<or>
    (\<exists>v. (case map_of (gp_data_lookup g) (joined i k) of Some v \<Rightarrow> returnE v | None \<Rightarrow> M (gp_id_lookup g)) = returnE v \<and>
      fst ((case map_of (gp_data_lookup g0) (joined i k) of Some v \<Rightarrow> returnE v | None \<Rightarrow> M (gp_id_lookup g0)) g0) = Inr v)" for M
    unfolding n caches_okD(1) [OF ok] by simp
qed

lemma transparent_parent:
  assumes "fresh_parser g0"
  shows "transparent px rounds g0 (GraphmlParser_GetParentNode px i)"
proof -
  let ?c = "\<lambda>n. liftE (pu_select_node px n ''../..'')"
  let ?h = "\<lambda>res. case res of None \<Rightarrow> [] | Some n \<Rightarrow> pu_attribute_value px n ''id''"
  let ?F = "\<lambda>g. case map_of (gp_parent_id_lookup g) i of
       Some v \<Rightarrow> returnE v
     | None \<Rightarrow> (case map_of (gp_id_lookup g) i of
         None \<Rightarrow> returnE []
       | Some n \<Rightarrow> bindE (?c n) (\<lambda>res.
           bindE (modifyE (\<lambda>g. g\<lparr>gp_parent_id_lookup := umap_put i (?h res) (gp_parent_id_lookup g)\<rparr>)) (\<lambda>_. returnE (?h res))))"
  have d: "GraphmlParser_GetParentNode px i = bindE getE ?F" unfolding GraphmlParser_GetParentNode_def Let_def by (rule refl)
  have n: "map_of (gp_parent_id_lookup g0) i = None" using assms(1) by (simp add: fresh_parser_def)
  have a: "fst (?F g0 g0) = fst (GraphmlParser_GetParentNode px i g0)" by (simp only: d at_getE)
  have "transparent px rounds g0 (?F g0)"
    unfolding n option.case
  proof (intro transparent_case_option transparent_returnE transparent_compute_store transparent_liftE assms)
    fix node res g
    assume e: "map_of (gp_id_lookup g0) i = Some node" "fst (?c node g0) = Inr res" and ok: "caches_ok px rounds g0 g"
    have "fst (GraphmlParser_GetParentNode px i g0) = Inr (?h res)"
      using e(2) unfolding a [symmetric] n by (simp add: e(1) bindE_def returnE_def liftE_def)
    then show "caches_ok px rounds g0 (g\<lparr>gp_parent_id_lookup := umap_put i (?h res) (gp_parent_id_lookup g)\<rparr>)"
      using ok unfolding caches_ok_def attribute_at_def by (auto split: if_splits)
  qed
  then show ?thesis unfolding d
  proof (rule transparent_cached [OF _ fresh_ok [OF assms(1)] refl])
    fix g assume ok: "caches_ok px rounds g0 g"
    show "?F g = ?F g0 \<or> (\<exists>v. ?F g = returnE v \<and> fst (?F g0 g0) = Inr v)"
      unfolding a using caches_okD(1) [OF ok] caches_okD(4) [OF ok, of i] n by (cases "map_of (gp_parent_id_lookup g) i") auto
  qed
qed

lemma transparent_ancestor:
  assumes "fresh_parser g0"
  shows "transparent px rounds g0 (GraphmlParser_GetParentNode_depth px depth i)"
  by (induction depth arbitrary: i) (auto intro!: transparent_intros transparent_parent assms)

lemma transparent_shared:
  assumes "fresh_parser g0" and "bar_free l"
  shows "transparent px rounds g0 (GraphmlParser_GetSharedParent px l r)"
proof -
  let ?c = "liftE (pu_select_node px (pu_document px) (shared_parent_expr l r))"
  let ?h = "\<lambda>res. case res of None \<Rightarrow> [] | Some n \<Rightarrow> pu_attribute_value px n ''id''"
  let ?m = "bindE ?c (\<lambda>res.
      bindE (modifyE (\<lambda>g. g\<lparr>gp_shared_parent_map := umap_put (joined l r) (?h res) (gp_shared_parent_map g)\<rparr>)) (\<lambda>_. returnE (?h res)))"
  let ?F = "\<lambda>g. case map_of (gp_shared_parent_map g) (joined l r) of Some v \<Rightarrow> returnE v | None \<Rightarrow> ?m"
  have d: "GraphmlParser_GetSharedParent px l r = bindE getE ?F" unfolding GraphmlParser_GetSharedParent_def Let_def by (rule refl)
  have n: "?F g0 = ?m" using assms(1) by (simp add: fresh_parser_def)
  have a: "fst (?m g0) = fst (GraphmlParser_GetSharedParent px l r g0)" by (simp only: d at_getE n)
  have "transparent px rounds g0 ?m"
  proof (intro transparent_compute_store transparent_liftE assms(1))
    fix res g assume e: "fst (?c g0) = Inr res" and ok: "caches_ok px rounds g0 g"
    have "fst (GraphmlParser_GetSharedParent px l r g0) = Inr (?h res)"
      using e unfolding a [symmetric] by (simp add: bindE_def returnE_def liftE_def)
    then show "caches_ok px rounds g0 (g\<lparr>gp_shared_parent_map := umap_put (joined l r) (?h res) (gp_shared_parent_map g)\<rparr>)"
      using ok assms(2) unfolding caches_ok_def attribute_at_def by (auto simp: joined_inj split: if_splits)
  qed
  then show ?thesis unfolding d
  proof (rule transparent_cached [where F = ?F and m = ?m, OF _ fresh_ok [OF assms(1)] n])
    fix g assume ok: "caches_ok px rounds g0 g"
    show "?F g = ?m \<or> (\<exists>v. ?F g = returnE v \<and> fst (?m g0) = Inr v)"
      unfolding a using caches_okD(5) [OF ok assms(2), of r] by (cases "map_of (gp_shared_parent_map g) (joined l r)") auto
  qed
qed

lemma transparent_climb:
  assumes "fresh_parser g0"
  shows "transparent px rounds g0 (climb px p n c d)"
proof (induction n arbitrary: c d)
  case 0
  then show ?case by (simp add: transparent_returnE)
next
  case (Suc n)
  then show ?case by (auto intro!: transparent_intros transparent_parent assms)
qed

lemma transparent_height:
  assumes "fresh_parser g0" and "bar_free c"
  shows "transparent px rounds g0 (GraphmlParser_GetHeightToParent px rounds c p)"
proof -
  let ?h = "\<lambda>(i, d). if i = [] then - 1 else d :: int"
  let ?s = "\<lambda>r g. case r of None \<Rightarrow> g
    | Some x \<Rightarrow> g\<lparr>gp_parent_height_depth_map := umap_put (joined c p) (?h x) (gp_parent_height_depth_map g)\<rparr>"
  let ?m = "bindE (climb px p rounds c 0) (\<lambda>r. bindE (modifyE (?s r)) (\<lambda>_. returnE (map_option ?h r)))"
  let ?F = "\<lambda>g. case map_of (gp_parent_height_depth_map g) (joined c p) of Some v \<Rightarrow> returnE (Some v) | None \<Rightarrow> ?m"
  have m: "(\<lambda>r. case r of None \<Rightarrow> returnE None
      | Some (i, d) \<Rightarrow>
           bindE (modifyE (\<lambda>g. g\<lparr>gp_parent_height_depth_map :=
                umap_put (joined c p) (?h (i, d)) (gp_parent_height_depth_map g)\<rparr>)) (\<lambda>_. returnE (Some (?h (i, d))))) =
    (\<lambda>r. bindE (modifyE (?s r)) (\<lambda>_. returnE (map_option ?h r)))"
    by (rule ext)+ (auto simp: bindE_def returnE_def split: option.split)
  have d: "GraphmlParser_GetHeightToParent px rounds c p = bindE getE ?F"
    unfolding GraphmlParser_GetHeightToParent_def Let_def m [symmetric] prod.case by (rule refl)
  have n: "?F g0 = ?m" using assms(1) by (simp add: fresh_parser_def)
  have a: "fst (?m g0) = fst (GraphmlParser_GetHeightToParent px rounds c p g0)" by (simp only: d at_getE n)
  have "transparent px rounds g0 ?m"
  proof (intro transparent_compute_store transparent_climb assms(1))
    fix res g assume e: "fst (climb px p rounds c 0 g0) = Inr res" and ok: "caches_ok px rounds g0 g"
    have "fst (GraphmlParser_GetHeightToParent px rounds c p g0) = Inr (map_option ?h res)"
      using e unfolding a [symmetric] by (cases "climb px p rounds c 0 g0") (simp add: bindE_def returnE_def)
    then show "caches_ok px rounds g0 (?s res g)"
      using ok assms(2) unfolding caches_ok_def attribute_at_def by (auto simp: joined_inj split: if_splits option.splits)
  qed
  then show ?thesis unfolding d
  proof (rule transparent_cached [where F = ?F and m = ?m, OF _ fresh_ok [OF assms(1)] n])
    fix g assume ok: "caches_ok px rounds g0 g"
    show "?F g = ?m \<or> (\<exists>v. ?F g = returnE v \<and> fst (?m g0) = Inr v)"
      unfolding a using caches_okD(6) [OF ok assms(2), of p] by (cases "map_of (gp_parent_height_depth_map g) (joined c p)") auto
  qed
qed

lemma transparent_ask:
  assumes "fresh_parser g0" and "query_bar_free q"
  shows "transparent px rounds g0 (ask px rounds q)"
  using assms(2) by (cases q) (auto intro!: transparent_bindE transparent_returnE transparent_nodes transparent_children
      transparent_edges transparent_attribute transparent_data transparent_parent transparent_ancestor transparent_shared
      transparent_height assms(1))

lemma transparent_run:
  assumes "fresh_parser g0" and "\<And>q. q \<in> set qs \<Longrightarrow> query_bar_free q" and "caches_ok px rounds g0 g"
  shows "fst (mapE (ask px rounds) qs g) = sum_map (\<lambda>q. fst (ask px rounds q g0)) qs"
  using assms(2,3)
proof (induction qs arbitrary: g)
  case Nil
  then show ?case by (simp add: returnE_def)
next
  case (Cons q qs)
  have "transparent px rounds g0 (ask px rounds q)" using transparent_ask [OF assms(1)] Cons.prems(1) by simp
  then have 1: "fst (ask px rounds q g) = fst (ask px rounds q g0)" "caches_ok px rounds g0 (snd (ask px rounds q g))"
    using Cons.prems(2) unfolding transparent_def by blast+
  obtain r g1 where r: "ask px rounds q g = (r, g1)" by (cases "ask px rounds q g")
  obtain r2 g2 where r2: "mapE (ask px rounds) qs g1 = (r2, g2)" by (cases "mapE (ask px rounds) qs g1")
  have 2: "r2 = sum_map (\<lambda>q. fst (ask px rounds q g0)) qs" using Cons.IH [of g1] Cons.prems(1) 1(2) r r2 by simp
  show ?case using 1(1) by (auto simp: r r2 2 bindE_def returnE_def split: sum.split)
qed

lemma GraphmlParser_ctor_fresh: "GraphmlParser_ctor load s = Inr (px, g) \<Longrightarrow> fresh_parser g"
  by (auto simp: GraphmlParser_ctor_def fresh_parser_def split: sum.splits)

section \<open>A document\<close>

text \<open>A model with an assembly 10 that contains a component 11; elements 1 to 3 are keys.\<close>

definition demo_select :: "xml_node \<Rightarrow> string \<Rightarrow> exn + xml_node list" where
  "demo_select n expr = Inr
     (if expr = ''/graphml/key'' then [1] else if expr = ''//*[@id]'' then [1, 10, 11]
      else if n = 11 \<and> expr = ''../..'' then [10]
      else if expr = ''data[@key='' @ quoted ''d0'' @ '']'' then [n + 100] else [])"

definition demo_xml :: Pugi where
  "demo_xml = \<lparr>pu_document = 0, pu_document_element = 0, pu_select_nodes = demo_select,
     pu_attribute = (\<lambda>n name. if name = ''id'' then
        (if n = 1 then Some ''d0'' else if n = 10 then Some ''a'' else if n = 11 then Some ''b'' else None)
        else if n = 1 \<and> name = ''attr.name'' then Some ''label'' else None),
     pu_child_value = (\<lambda>n. if n = 110 then ''Assembly'' else if n = 111 then ''Component'' else [])\<rparr>"

definition demo_parser :: GraphmlParser where
  "demo_parser = \<lparr>gp_attribute_map = [(''label'', ''d0'')], gp_id_lookup = [(''d0'', 1), (''a'', 10), (''b'', 11)],
     gp_data_lookup = [], gp_attr_lookup = [], gp_parent_id_lookup = [], gp_shared_parent_map = [], gp_parent_height_depth_map = []\<rparr>"

lemma demo_parser_ctor: "GraphmlParser_ctor (\<lambda>_. Inr demo_xml) [] = Inr (demo_xml, demo_parser)"
  by (simp add: GraphmlParser_ctor_def demo_xml_def demo_select_def demo_parser_def fill_attribute_map_def fill_id_lookup_def
      pu_attribute_value_def umap_put_def umap_count_def)

section \<open>Properties\<close>

text \<open>
  C16. Asking changes no answer. Whatever sequence of queries a parser has answered since it was loaded,
  with all its caches, each answer (or exception) is the one that a parser would give that was just
  loaded; the ids that are asked for must not contain a bar.
\<close>
theorem queries_transparent:
  assumes "GraphmlParser_ctor load model = Inr (px, g0)" and "list_all query_bar_free qs"
  shows "fst (mapE (ask px rounds) qs g0) = sum_map (\<lambda>q. fst (ask px rounds q g0)) qs"
  using transparent_run [OF GraphmlParser_ctor_fresh [OF assms(1)] _ fresh_ok [OF GraphmlParser_ctor_fresh [OF assms(1)]], of qs] assms(2)
  by (simp add: list_all_iff)

theorem queries_transparent_witness:
  "fst (mapE (ask demo_xml 3) [Q_data ''b'' ''label'', Q_parent ''b'', Q_data ''b'' ''label'', Q_parent ''b'', Q_height ''b'' ''a'', Q_data ''a'' ''label''] demo_parser) =
     Inr [A_text ''Component'', A_text ''a'', A_text ''Component'', A_text ''a'', A_height (Some 1), A_text ''Assembly'']"
proof -
  let ?qs = "[Q_data ''b'' ''label'', Q_parent ''b'', Q_data ''b'' ''label'', Q_parent ''b'', Q_height ''b'' ''a'', Q_data ''a'' ''label'']"
  have "list_all query_bar_free ?qs" by (simp add: bar_free_def)
  moreover have "sum_map (\<lambda>q. fst (ask demo_xml 3 q demo_parser)) ?qs =
     Inr [A_text ''Component'', A_text ''a'', A_text ''Component'', A_text ''a'', A_height (Some 1), A_text ''Assembly'']"
    by code_simp
  ultimately show ?thesis using queries_transparent [OF demo_parser_ctor, of ?qs 3] by simp
qed

end
