(* ===== verification/GPModel.thy ===== *)
theory GPModel
  imports GPGraphml ControlMessage
begin

text \<open>
  The translation of a model to the message that describes the experiment,
  \<^verbatim>\<open>re/re_common/util/graphmlparser/protobufmodelparser.cpp\<close> and \<^verbatim>\<open>assembly.cpp\<close>.

  \<^item> The translator sees the document through the interface \<open>GraphmlParserInt\<close>, here the record
    \<open>Graphml\<close> of pure functions: by \<open>interface_answers\<close> the class \<open>GraphmlParser\<close>, with its caches, answers
    as they do.
  \<^item> A pointer to a message inside the experiment is the path of indices to it. Repeated fields only grow
    while the translator runs, so the paths stay right.
  \<^item> An assembly keeps a copy of its parent: after a child was made, the code changes nothing of the parent
    but its list of children, which nothing reads. A copy of the topmost assembly is destroyed at once,
    and the components made for it keep a dangling pointer: \<open>cr_dangling\<close>.
  \<^item> \<open>limit\<close> bounds the depth of recursions and the rounds of the loops that go up the document; a document
    that needs more than any limit makes the code not return. \<open>stod\<close> is \<open>std::stod\<close>.
\<close>

record Graphml =
  gm_FindNodesOfKinds :: "string list \<Rightarrow> string \<Rightarrow> string list"
  gm_FindEdges :: "string \<Rightarrow> string list"
  gm_FindImmediateChildren :: "string \<Rightarrow> string \<Rightarrow> string list"
  gm_GetAttribute :: "string \<Rightarrow> string \<Rightarrow> string"
  gm_GetDataValue :: "string \<Rightarrow> string \<Rightarrow> string"
  gm_GetParentNode :: "string \<Rightarrow> string"
  gm_GetSharedParent :: "string \<Rightarrow> string \<Rightarrow> string"
  gm_GetHeightToParent :: "string \<Rightarrow> string \<Rightarrow> int"

definition gm_FindNodesOfKind :: "Graphml \<Rightarrow> string \<Rightarrow> string list" where
  "gm_FindNodesOfKind g kind = gm_FindNodesOfKinds g [kind] []"

primrec gm_GetParentNode_depth :: "Graphml \<Rightarrow> nat \<Rightarrow> string \<Rightarrow> string" where
  "gm_GetParentNode_depth g 0 i = i"
| "gm_GetParentNode_depth g (Suc d) i = gm_GetParentNode_depth g d (gm_GetParentNode g i)"

text \<open>The answer of the interface to a query of the parser, in the type of its answers. For queries that do not
  throw, the class \<open>GraphmlParser\<close> and an interface that agrees with it on each query by itself agree on
  every sequence of queries. An expression that pugixml refuses (an id or a kind with a quote in it) is an
  exception in the parser; the interface has none, so the translation of such documents is not modelled.\<close>

fun answer_of :: "Graphml \<Rightarrow> gquery \<Rightarrow> plain_answer" where
  "answer_of g (Q_nodes kinds p) = A_ids (gm_FindNodesOfKinds g kinds p)"
| "answer_of g (Q_children kind p) = A_ids (gm_FindImmediateChildren g kind p)"
| "answer_of g (Q_edges kind) = A_ids (gm_FindEdges g kind)"
| "answer_of g (Q_attribute i n) = A_text (gm_GetAttribute g i n)"
| "answer_of g (Q_data i k) = A_text (gm_GetDataValue g i k)"
| "answer_of g (Q_parent i) = A_text (gm_GetParentNode g i)"
| "answer_of g (Q_ancestor depth i) = A_text (gm_GetParentNode_depth g depth i)"
| "answer_of g (Q_shared l r) = A_text (gm_GetSharedParent g l r)"
| "answer_of g (Q_height c p) = A_height (Some (gm_GetHeightToParent g c p))"

lemma interface_answers:
  assumes "GraphmlParser_ctor load model = Inr (px, g0)" and "list_all query_bar_free qs"
    and "\<And>q. q \<in> set qs \<Longrightarrow> fst (ask px rounds q g0) = Inr (answer_of g q)"
  shows "fst (mapE (ask px rounds) qs g0) = Inr (map (answer_of g) qs)"
proof -
  have "sum_map (\<lambda>q. fst (ask px rounds q g0)) qs = Inr (map (answer_of g) qs)"
    using assms(3) by (induction qs) simp_all
  moreover have "fst (mapE (ask px rounds) qs g0) = sum_map (\<lambda>q. fst (ask px rounds q g0)) qs"
    using transparent_run [OF GraphmlParser_ctor_fresh [OF assms(1)] _ fresh_ok [OF GraphmlParser_ctor_fresh [OF assms(1)]], of qs] assms(2)
    by (simp add: list_all_iff)
  ultimately show ?thesis by simp
qed

section \<open>Assemblies\<close>

datatype Assembly = Assembly (as_name: string) (as_assembly_id: string) (as_replication_count: int)
  (as_replication_index: int) (as_parent: "Assembly option")

definition Assembly_ctor :: "string \<Rightarrow> string \<Rightarrow> Assembly option \<Rightarrow> Assembly" where
  "Assembly_ctor name assembly_id parent = Assembly name assembly_id 1 0 parent"

definition Assembly_copy :: "Assembly \<Rightarrow> Assembly" where
  "Assembly_copy a = Assembly (as_name a) (as_assembly_id a) (as_replication_count a) 0 (as_parent a)"

definition SetReplicationCount :: "int \<Rightarrow> Assembly \<Rightarrow> Assembly" where
  "SetReplicationCount n a = Assembly (as_name a) (as_assembly_id a) n (as_replication_index a) (as_parent a)"

definition SetReplicationIndex :: "int \<Rightarrow> Assembly \<Rightarrow> Assembly" where
  "SetReplicationIndex i a = Assembly (as_name a) (as_assembly_id a) (as_replication_count a) i (as_parent a)"

definition GetUniqueSuffix :: "int list \<Rightarrow> string" where
  "GetUniqueSuffix indices = concat (map (\<lambda>i. ''_'' @ to_string i) indices)"

record ComponentReplication =
  cr_component_instance_id :: string
  cr_parent :: Assembly
  cr_dangling :: bool

text \<open>The topmost assembly does not count.\<close>

fun assembly_names :: "Assembly \<Rightarrow> string list" where
  "assembly_names (Assembly n i c x None) = []"
| "assembly_names (Assembly n i c x (Some p)) = assembly_names p @ [n]"

fun assembly_indices :: "Assembly \<Rightarrow> int list" where
  "assembly_indices (Assembly n i c x None) = []"
| "assembly_indices (Assembly n i c x (Some p)) = assembly_indices p @ [x]"

definition GetReplicationLocation :: "ComponentReplication \<Rightarrow> exn + string list" where
  "GetReplicationLocation cr = (if cr_dangling cr then Inl (Undefined ''parent of a replication'') else Inr (assembly_names (cr_parent cr)))"

definition GetReplicationIndices :: "ComponentReplication \<Rightarrow> exn + int list" where
  "GetReplicationIndices cr = (if cr_dangling cr then Inl (Undefined ''parent of a replication'') else Inr (assembly_indices (cr_parent cr)))"

definition GetUniqueIdSuffix :: "ComponentReplication \<Rightarrow> exn + string" where
  "GetUniqueIdSuffix cr = (case GetReplicationIndices cr of Inl e \<Rightarrow> Inl e | Inr is \<Rightarrow> Inr (GetUniqueSuffix is))"

definition GetUniqueId :: "ComponentReplication \<Rightarrow> exn + string" where
  "GetUniqueId cr = (case GetUniqueIdSuffix cr of Inl e \<Rightarrow> Inl e | Inr s \<Rightarrow> Inr (cr_component_instance_id cr @ s))"

section \<open>The state of the translator\<close>

record AssemblyConnection =
  ac_source_id :: string
  ac_target_id :: string
  ac_inter_assembly :: bool

datatype container_path = In_cluster nat nat | In_node nat nat nat

type_synonym component_path = "container_path \<times> nat"
type_synonym port_path = "component_path \<times> nat"

record ModelParser =
  mp_experiment_id :: string
  mp_aggregate_edge_ids :: "string list"
  mp_assembly_edge_ids :: "string list"
  mp_definition_edge_ids :: "string list"
  mp_deployment_edge_ids :: "string list"
  mp_qos_edge_ids :: "string list"
  mp_hardware_cluster_ids :: "string list"
  mp_hardware_node_ids :: "string list"
  mp_deployment_container_ids :: "string list"
  mp_logging_server_ids :: "string list"
  mp_logging_client_ids :: "string list"
  mp_delegates_pubsub_ids :: "string list"
  mp_delegates_server_ids :: "string list"
  mp_entity_edge_ids :: "(string, string sset) umap"
  mp_deployed_entities_map :: "(string, string list) umap"
  mp_definition_ids :: "(string, string) umap"
  mp_aggregate_ids :: "(string, string) umap"
  mp_entity_qos_map :: "(string, string) umap"
  mp_attribute_value_map :: "(string, string) umap"
  mp_logging_server_client_map :: "(string, string list) umap"
  mp_component_instances :: "ComponentReplication list"
  mp_experiment :: Experiment_pb
  mp_cluster_message_map :: "(string, nat) umap"
  mp_node_message_map :: "(string, nat \<times> nat) umap"
  mp_container_message_map :: "(string, container_path) umap"
  mp_component_replications :: "(string, component_path list) umap"
  mp_port_replicate_id_map :: "(string, port_path) umap"
  mp_external_port_id_map :: "(string, nat) umap"
  mp_assembly_map :: "(string, AssemblyConnection list) umap"

definition Experiment_default :: Experiment_pb where
  "Experiment_default = \<lparr>expb_name = [], expb_clusters = [], expb_external_ports = []\<rparr>"

definition ModelParser_init :: "string \<Rightarrow> ModelParser" where
  "ModelParser_init experiment_id =
    \<lparr>mp_experiment_id = experiment_id, mp_aggregate_edge_ids = [], mp_assembly_edge_ids = [], mp_definition_edge_ids = [],
     mp_deployment_edge_ids = [], mp_qos_edge_ids = [], mp_hardware_cluster_ids = [], mp_hardware_node_ids = [],
     mp_deployment_container_ids = [], mp_logging_server_ids = [], mp_logging_client_ids = [], mp_delegates_pubsub_ids = [],
     mp_delegates_server_ids = [], mp_entity_edge_ids = [], mp_deployed_entities_map = [], mp_definition_ids = [],
     mp_aggregate_ids = [], mp_entity_qos_map = [], mp_attribute_value_map = [], mp_logging_server_client_map = [],
     mp_component_instances = [], mp_experiment = Experiment_default, mp_cluster_message_map = [], mp_node_message_map = [],
     mp_container_message_map = [], mp_component_replications = [], mp_port_replicate_id_map = [], mp_external_port_id_map = [],
     mp_assembly_map = []\<rparr>"

text \<open>\<open>m[k].push_back(v)\<close> and reading \<open>m[k]\<close> of a map of lists.\<close>

definition umap_push_back :: "'k \<Rightarrow> 'v \<Rightarrow> ('k, 'v list) umap \<Rightarrow> ('k, 'v list) umap" where
  "umap_push_back k v m = umap_put k ((case map_of m k of None \<Rightarrow> [] | Some vs \<Rightarrow> vs) @ [v]) m"

definition umap_list :: "('k, 'v list) umap \<Rightarrow> 'k \<Rightarrow> 'v list" where
  "umap_list m k = (case map_of m k of None \<Rightarrow> [] | Some vs \<Rightarrow> vs)"

subsection \<open>Messages by their paths\<close>

definition nth_upd :: "nat \<Rightarrow> ('a \<Rightarrow> 'a) \<Rightarrow> 'a list \<Rightarrow> 'a list" where
  "nth_upd i f xs = (if i < length xs then xs[i := f (xs ! i)] else xs)"

fun msg_container :: "Experiment_pb \<Rightarrow> container_path \<Rightarrow> Container_pb" where
  "msg_container ex (In_cluster c k) = clpb_containers (expb_clusters ex ! c) ! k"
| "msg_container ex (In_node c n k) = npb_containers (clpb_nodes (expb_clusters ex ! c) ! n) ! k"

fun upd_msg_container :: "container_path \<Rightarrow> (Container_pb \<Rightarrow> Container_pb) \<Rightarrow> Experiment_pb \<Rightarrow> Experiment_pb" where
  "upd_msg_container (In_cluster c k) f ex =
     ex\<lparr>expb_clusters := nth_upd c (\<lambda>cl. cl\<lparr>clpb_containers := nth_upd k f (clpb_containers cl)\<rparr>) (expb_clusters ex)\<rparr>"
| "upd_msg_container (In_node c n k) f ex =
     ex\<lparr>expb_clusters := nth_upd c (\<lambda>cl. cl\<lparr>clpb_nodes :=
       nth_upd n (\<lambda>nd. nd\<lparr>npb_containers := nth_upd k f (npb_containers nd)\<rparr>) (clpb_nodes cl)\<rparr>) (expb_clusters ex)\<rparr>"

definition msg_component :: "Experiment_pb \<Rightarrow> component_path \<Rightarrow> Component_pb" where
  "msg_component ex r = ctpb_components (msg_container ex (fst r)) ! snd r"

definition upd_msg_component :: "component_path \<Rightarrow> (Component_pb \<Rightarrow> Component_pb) \<Rightarrow> Experiment_pb \<Rightarrow> Experiment_pb" where
  "upd_msg_component r f = upd_msg_container (fst r) (\<lambda>ct. ct\<lparr>ctpb_components := nth_upd (snd r) f (ctpb_components ct)\<rparr>)"

definition msg_port :: "Experiment_pb \<Rightarrow> port_path \<Rightarrow> Port_pb" where
  "msg_port ex r = cpb_ports (msg_component ex (fst r)) ! snd r"

definition upd_msg_port :: "port_path \<Rightarrow> (Port_pb \<Rightarrow> Port_pb) \<Rightarrow> Experiment_pb \<Rightarrow> Experiment_pb" where
  "upd_msg_port r f = upd_msg_component (fst r) (\<lambda>c. c\<lparr>cpb_ports := nth_upd (snd r) f (cpb_ports c)\<rparr>)"

definition upd_msg_external_port :: "nat \<Rightarrow> (ExternalPort_pb \<Rightarrow> ExternalPort_pb) \<Rightarrow> Experiment_pb \<Rightarrow> Experiment_pb" where
  "upd_msg_external_port i f ex = ex\<lparr>expb_external_ports := nth_upd i f (expb_external_ports ex)\<rparr>"

definition on_experiment :: "(Experiment_pb \<Rightarrow> Experiment_pb) \<Rightarrow> (ModelParser, unit) em" where
  "on_experiment f = modifyE (\<lambda>mp. mp\<lparr>mp_experiment := f (mp_experiment mp)\<rparr>)"

section \<open>Following edges\<close>

lemma open_keys_less:
  "n \<notin> set prev \<Longrightarrow> n \<in> fst ` set ee \<Longrightarrow>
   card (fst ` set ee - set (sset_insert n prev)) < card (fst ` set ee - set prev)"
  by (rule psubset_card_mono) auto

lemma open_keys_le: "card (fst ` set ee - set (sset_insert n prev)) \<le> card (fst ` set ee - set prev)"
  by (rule card_mono) auto

lemma umap_list_absent: "n \<notin> fst ` set ee \<Longrightarrow> umap_list ee n = []"
  by (simp add: umap_list_def umap_count_keys map_of_eq_None_iff [THEN iffD2])

text \<open>\<open>GetTerminalSourcesByEdgeKind\<close> with its loop over the edges at a node. The set of nodes on the way
  is passed by value. A node that is met again ends the search with an exception, so the recursion ends.\<close>

function (sequential) terminal_sources ::
    "Graphml \<Rightarrow> (string, string sset) umap \<Rightarrow> string \<Rightarrow> string sset \<Rightarrow> string \<Rightarrow> exn + string sset"
  and terminal_edges ::
    "Graphml \<Rightarrow> (string, string sset) umap \<Rightarrow> string \<Rightarrow> string sset \<Rightarrow> string \<Rightarrow> string list \<Rightarrow> string sset \<Rightarrow> exn + string sset" where
  "terminal_sources g ee edge_kind prev_ids node_id =
     (if node_id \<in> set prev_ids
      then Inl (RuntimeError (''Cyclic link exists in edges '' @ edge_kind @ '' containing node id: '' @ node_id))
      else terminal_edges g ee edge_kind (sset_insert node_id prev_ids) node_id (umap_list ee node_id) [])"
| "terminal_edges g ee edge_kind prev_ids node_id [] source_ids = Inr source_ids"
| "terminal_edges g ee edge_kind prev_ids node_id (edge_id # es) source_ids =
     (if edge_kind = gm_GetDataValue g edge_id ''kind'' \<and> node_id = gm_GetAttribute g edge_id ''target''
      then
        (let edge_source = gm_GetAttribute g edge_id ''source'';
             source_kind = gm_GetDataValue g edge_source ''kind'';
             recurse_edges = (\<not> (edge_kind = ''Edge_Assembly'' \<and>
               (source_kind = ''PubSubPortDelegate'' \<or> source_kind = ''RequestPortDelegate'')))
         in case terminal_sources g ee edge_kind prev_ids edge_source of
              Inl e \<Rightarrow> Inl e
            | Inr connected_sources \<Rightarrow>
                terminal_edges g ee edge_kind prev_ids node_id es
                  (if recurse_edges \<and> connected_sources \<noteq> []
                   then foldl (\<lambda>s x. sset_insert x s) source_ids connected_sources
                   else sset_insert edge_source source_ids))
      else terminal_edges g ee edge_kind prev_ids node_id es source_ids)"
  by pat_completeness auto

termination
proof (relation "measures [case_sum (\<lambda>(g, ee, k, prev, n). card (fst ` set ee - set prev)) (\<lambda>(g, ee, k, prev, n, es, acc). card (fst ` set ee - set prev)),
    case_sum (\<lambda>_. 1) (\<lambda>(g, ee, k, prev, n, es, acc). 2 * length es)]", goal_cases)
  case (2 g ee k prev n)
  then show ?case
    using open_keys_less [of n prev ee] open_keys_le [of ee n prev] umap_list_absent [of n ee]
    by (cases "n \<in> fst ` set ee") auto
qed auto

definition GetTerminalSourcesByEdgeKind :: "Graphml \<Rightarrow> string \<Rightarrow> string \<Rightarrow> (ModelParser, string sset) em" where
  "GetTerminalSourcesByEdgeKind g node_id edge_kind =
     bindE getE (\<lambda>mp. liftE (terminal_sources g (mp_entity_edge_ids mp) edge_kind [] node_id))"

section \<open>Replication\<close>

text \<open>\<open>attribute_value_map_[id]\<close>.\<close>

definition mapped_value :: "string \<Rightarrow> (ModelParser, string) em" where
  "mapped_value i = bindE (modifyE (\<lambda>mp. mp\<lparr>mp_attribute_value_map := umap_emplace i [] (mp_attribute_value_map mp)\<rparr>)) (\<lambda>_.
     bindE getE (\<lambda>mp. returnE (case map_of (mp_attribute_value_map mp) i of Some v \<Rightarrow> v | None \<Rightarrow> [])))"

definition GetReplicationId :: "Graphml \<Rightarrow> string \<Rightarrow> (ModelParser, int) em" where
  "GetReplicationId g i =
     catchE is_std_exception
       (case gm_FindImmediateChildren g ''Variable'' i of
          [] \<Rightarrow> returnE 1
        | variable_id # _ \<Rightarrow>
            bindE (mapped_value variable_id) (\<lambda>attribute_val.
            bindE (liftE (stoi attribute_val)) (\<lambda>replicate_value.
            returnE (if replicate_value < 0 then 0 else replicate_value))))
       (\<lambda>_. returnE 1)"

definition GenerateComponentReplications :: "Assembly \<Rightarrow> string list \<Rightarrow> (ModelParser, unit) em" where
  "GenerateComponentReplications assembly component_children =
     forE component_children (\<lambda>component_child_id. modifyE (\<lambda>mp. mp\<lparr>mp_component_instances := mp_component_instances mp @
       [\<lparr>cr_component_instance_id = component_child_id, cr_parent = assembly, cr_dangling = False\<rparr>]\<rparr>))"

text \<open>What a copy of the topmost assembly leaves behind when it is destroyed.\<close>

definition dangle_from :: "nat \<Rightarrow> ModelParser \<Rightarrow> ModelParser" where
  "dangle_from n mp = mp\<lparr>mp_component_instances := take n (mp_component_instances mp) @
     map (\<lambda>cr. cr\<lparr>cr_dangling := True\<rparr>) (drop n (mp_component_instances mp))\<rparr>"

primrec GenerateReplications :: "Graphml \<Rightarrow> nat \<Rightarrow> Assembly \<Rightarrow> (ModelParser, unit) em" where
  "GenerateReplications g 0 = (\<lambda>_. throwE (Undefined ''stack overflow''))"
| "GenerateReplications g (Suc limit) = (\<lambda>current_assembly.
     let assembly_id = as_assembly_id current_assembly;
         GenerateChildAssemblies = (\<lambda>assembly assembly_children. forE assembly_children (\<lambda>child_assembly_id.
           GenerateReplications g limit
             (Assembly_ctor (gm_GetDataValue g child_assembly_id ''label'') child_assembly_id (Some assembly))))
     in bindE (GetReplicationId g assembly_id) (\<lambda>replication_count.
        let current_assembly = SetReplicationCount replication_count current_assembly
        in whenE (0 < replication_count)
          (let assembly_children = gm_FindImmediateChildren g ''ComponentAssembly'' assembly_id;
               component_children = gm_FindImmediateChildren g ''ComponentInstance'' assembly_id;
               current_assembly = SetReplicationIndex 0 current_assembly
           in bindE (GenerateChildAssemblies current_assembly assembly_children) (\<lambda>_.
              bindE (GenerateComponentReplications current_assembly component_children) (\<lambda>_.
              forE [1..replication_count - 1] (\<lambda>i.
                let replicated_assembly = SetReplicationIndex i (Assembly_copy current_assembly)
                in bindE getE (\<lambda>mp.
                   bindE (GenerateChildAssemblies replicated_assembly assembly_children) (\<lambda>_.
                   bindE (GenerateComponentReplications replicated_assembly component_children) (\<lambda>_.
                   whenE (as_parent current_assembly = None)
                     (modifyE (dangle_from (length (mp_component_instances mp)))))))))))))"

section \<open>Preprocessing\<close>

definition record_edge :: "Graphml \<Rightarrow> string \<Rightarrow> (ModelParser, unit) em" where
  "record_edge g edge_id =
     (let source_id = gm_GetAttribute g edge_id ''source''; target_id = gm_GetAttribute g edge_id ''target'';
          add = (\<lambda>n m. umap_put n (sset_insert edge_id (umap_list m n)) m)
      in modifyE (\<lambda>mp. mp\<lparr>mp_entity_edge_ids := add target_id (add source_id (mp_entity_edge_ids mp))\<rparr>))"

definition record_value :: "Graphml \<Rightarrow> string \<Rightarrow> (ModelParser, unit) em" where
  "record_value g attribute_id =
     bindE (GetTerminalSourcesByEdgeKind g attribute_id ''Edge_Data'') (\<lambda>data_sources.
     let data_value = (case data_sources of
           [data_source] \<Rightarrow> gm_GetDataValue g data_source ''value''
         | _ \<Rightarrow> gm_GetDataValue g attribute_id ''value'')
     in modifyE (\<lambda>mp. mp\<lparr>mp_attribute_value_map := umap_put attribute_id data_value (mp_attribute_value_map mp)\<rparr>))"

definition record_connections :: "Graphml \<Rightarrow> string \<Rightarrow> (ModelParser, unit) em" where
  "record_connections g target_id =
     bindE (GetTerminalSourcesByEdgeKind g target_id ''Edge_Assembly'') (\<lambda>source_ids.
     forE source_ids (\<lambda>source_id. modifyE (\<lambda>mp. mp\<lparr>mp_assembly_map := umap_push_back source_id
       \<lparr>ac_source_id = source_id, ac_target_id = target_id,
         ac_inter_assembly = (gm_GetParentNode_depth g 2 source_id \<noteq> gm_GetParentNode_depth g 2 target_id)\<rparr>
       (mp_assembly_map mp)\<rparr>)))"

definition record_logging :: "Graphml \<Rightarrow> string \<Rightarrow> (ModelParser, unit) em" where
  "record_logging g edge_id = bindE getE (\<lambda>mp.
     let target_id = gm_GetAttribute g edge_id ''target''; source_id = gm_GetAttribute g edge_id ''source''
     in whenE (target_id \<in> set (mp_logging_server_ids mp))
       (modifyE (\<lambda>mp. mp\<lparr>mp_logging_server_client_map := umap_push_back target_id source_id (mp_logging_server_client_map mp)\<rparr>)))"

definition read_ids :: "Graphml \<Rightarrow> ModelParser \<Rightarrow> ModelParser" where
  "read_ids g mp = mp\<lparr>
     mp_hardware_node_ids := gm_FindNodesOfKind g ''HardwareNode'',
     mp_hardware_cluster_ids := gm_FindNodesOfKind g ''HardwareCluster'',
     mp_deployment_container_ids := gm_FindNodesOfKind g ''DeploymentContainer'',
     mp_logging_server_ids := gm_FindNodesOfKind g ''LoggingServer'',
     mp_logging_client_ids := gm_FindNodesOfKind g ''LoggingProfile'',
     mp_delegates_pubsub_ids := gm_FindNodesOfKind g ''PubSubPortDelegate'',
     mp_delegates_server_ids := gm_FindNodesOfKind g ''RequestPortDelegate'',
     mp_deployment_edge_ids := gm_FindEdges g ''Edge_Deployment'',
     mp_assembly_edge_ids := gm_FindEdges g ''Edge_Assembly'',
     mp_definition_edge_ids := gm_FindEdges g ''Edge_Definition'',
     mp_aggregate_edge_ids := gm_FindEdges g ''Edge_Aggregate'',
     mp_qos_edge_ids := gm_FindEdges g ''Edge_QOS''\<rparr>"

text \<open>A model without exactly one node of assembly definitions is not preprocessed at all.\<close>

definition PreProcess :: "Graphml \<Rightarrow> nat \<Rightarrow> (ModelParser, unit) em" where
  "PreProcess g limit = (case gm_FindNodesOfKind g ''AssemblyDefinitions'' of
     [assembly_definition_id] \<Rightarrow>
       bindE (modifyE (read_ids g)) (\<lambda>_.
       bindE (forE (gm_FindEdges g []) (record_edge g)) (\<lambda>_.
       bindE getE (\<lambda>mp.
       bindE (forE (mp_deployment_edge_ids mp) (\<lambda>e_id. modifyE (\<lambda>mp. mp\<lparr>mp_deployed_entities_map :=
         umap_push_back (gm_GetAttribute g e_id ''source'') (gm_GetAttribute g e_id ''target'') (mp_deployed_entities_map mp)\<rparr>))) (\<lambda>_.
       bindE (forE (gm_FindNodesOfKinds g [''AttributeInstance'', ''Variable''] assembly_definition_id) (record_value g)) (\<lambda>_.
       bindE (GenerateReplications g limit
         (Assembly_ctor (gm_GetDataValue g assembly_definition_id ''label'') assembly_definition_id None)) (\<lambda>_.
       bindE (forE (mp_qos_edge_ids mp) (\<lambda>e_id. modifyE (\<lambda>mp. mp\<lparr>mp_entity_qos_map :=
         umap_put (gm_GetAttribute g e_id ''source'') (gm_GetAttribute g e_id ''target'') (mp_entity_qos_map mp)\<rparr>))) (\<lambda>_.
       bindE (forE (gm_FindNodesOfKind g ''SubscriberPortInstance'' @ gm_FindNodesOfKind g ''ReplierPortInstance'' @
         mp_delegates_pubsub_ids mp @ mp_delegates_server_ids mp) (record_connections g)) (\<lambda>_.
       forE (mp_assembly_edge_ids mp) (record_logging g)))))))))
   | _ \<Rightarrow> returnE ())"

end
