(* ===== verification/GPParse.thy ===== *)
theory GPParse
  imports GPModel
begin

text \<open>
  The messages of \<^verbatim>\<open>protobufmodelparser.cpp\<close>: clusters, nodes and containers, external ports, loggers,
  components with their ports, workers and attributes, and the connections between the ports of the
  replicated components. An exception leaves the constructor and destroys the message; what the code had
  put into a part of it before that is not kept in the state.
\<close>

section \<open>Small translations\<close>

definition Middleware_Parse :: "string \<Rightarrow> Middleware_pb option" where
  "Middleware_Parse s =
     (if s = ''NO_MIDDLEWARE'' then Some NO_MIDDLEWARE else if s = ''ZMQ'' then Some ZMQ else if s = ''RTI'' then Some RTI
      else if s = ''OSPL'' then Some OSPL else if s = ''QPID'' then Some QPID else if s = ''TAO'' then Some TAO else None)"

definition ParseMiddleware :: "string \<Rightarrow> Middleware_pb" where
  "ParseMiddleware s = (case Middleware_Parse s of Some m \<Rightarrow> m | None \<Rightarrow> NO_MIDDLEWARE)"

definition GetPortKind :: "string \<Rightarrow> Port_Kind_pb" where
  "GetPortKind kind =
     (if kind = ''PublisherPortInstance'' then PUBLISHER else if kind = ''SubscriberPortInstance'' then SUBSCRIBER
      else if kind = ''PeriodicPortInstance'' then PERIODIC else if kind = ''RequesterPortInstance'' then REQUESTER
      else if kind = ''ReplierPortInstance'' then REPLIER else NO_KIND)"

definition GetExternalPortKind :: "string \<Rightarrow> ExternalPort_Kind_pb" where
  "GetExternalPortKind kind =
     (if kind = ''PubSubPortDelegate'' then PUBSUB else if kind = ''ServerPortDelegate'' then SERVER
      else if kind = ''RequestPortDelegate'' then SERVER else if kind = ''ReplyPortDelegate'' then SERVER else EXT_NO_KIND)"

text \<open>Words between white space, as \<open>std::istream_iterator\<close> reads them.\<close>

function split_words :: "string \<Rightarrow> string list" where
  "split_words s = (case dropWhile is_space s of [] \<Rightarrow> []
     | c # cs \<Rightarrow> takeWhile (\<lambda>x. \<not> is_space x) (c # cs) # split_words (dropWhile (\<lambda>x. \<not> is_space x) (c # cs)))"
  by pat_completeness auto

termination
proof (relation "measure length", goal_cases)
  case (2 s c cs)
  have "\<not> is_space c" using 2 hd_dropWhile [of is_space s] by simp
  moreover have "length (dropWhile is_space s) \<le> length s" by (rule length_dropWhile_le)
  ultimately show ?case using 2 length_dropWhile_le [of "\<lambda>x. \<not> is_space x" cs] by simp
qed simp

declare split_words.simps [simp del]

definition to_lower_char :: "char \<Rightarrow> char" where
  "to_lower_char c = (if 65 \<le> (of_char c :: nat) \<and> (of_char c :: nat) \<le> 90 then char_of (of_char c + 32 :: nat) else c)"

definition str2bool :: "string \<Rightarrow> exn + bool" where
  "str2bool str = (case stoi str of
     Inr i \<Rightarrow> Inr (i \<noteq> 0)
   | Inl (InvalidArgument _) \<Rightarrow> Inr (take 4 (dropWhile is_space (map to_lower_char str)) = ''true'')
   | Inl e \<Rightarrow> Inl e)"

text \<open>\<open>char\<close> is signed on the platforms of the program.\<close>

definition char_value :: "char \<Rightarrow> int" where
  "char_value c = (if of_char c < (128 :: int) then of_char c else of_char c - 256)"

definition attribute_kind :: "string \<Rightarrow> Attribute_Kind_pb" where
  "attribute_kind type =
     (if type = ''Integer'' then ATTR_INTEGER else if type = ''Boolean'' then ATTR_BOOLEAN else if type = ''Character'' then ATTR_CHARACTER
      else if type = ''String'' then ATTR_STRING else if type = ''Double'' then ATTR_DOUBLE else if type = ''Float'' then ATTR_FLOAT
      else ATTR_STRING)"

definition or_zero :: "'a \<Rightarrow> exn + 'a \<Rightarrow> exn + 'a" where
  "or_zero z r = (case r of Inl (InvalidArgument _) \<Rightarrow> Inr z | _ \<Rightarrow> r)"

definition SetAttributePb :: "(string \<Rightarrow> exn + double_bits) \<Rightarrow> string \<Rightarrow> string \<Rightarrow> Attribute_pb \<Rightarrow> exn + Attribute_pb" where
  "SetAttributePb stod type v attr_pb =
     (let a = attr_pb\<lparr>apb_kind := attribute_kind type\<rparr>
      in case attribute_kind type of
           ATTR_FLOAT \<Rightarrow> (case or_zero 0 (stod v) of Inl e \<Rightarrow> Inl e | Inr d \<Rightarrow> Inr (a\<lparr>apb_d := d\<rparr>))
         | ATTR_DOUBLE \<Rightarrow> (case or_zero 0 (stod v) of Inl e \<Rightarrow> Inl e | Inr d \<Rightarrow> Inr (a\<lparr>apb_d := d\<rparr>))
         | ATTR_CHARACTER \<Rightarrow> Inr (case filter (\<lambda>c. c \<noteq> CHR 0x27) v of [c] \<Rightarrow> a\<lparr>apb_i := word_of_int (char_value c)\<rparr> | _ \<Rightarrow> a)
         | ATTR_BOOLEAN \<Rightarrow> (case str2bool v of Inl e \<Rightarrow> Inl e | Inr b \<Rightarrow> Inr (a\<lparr>apb_i := (if b then 1 else 0)\<rparr>))
         | ATTR_INTEGER \<Rightarrow> (case or_zero 0 (stoi v) of Inl e \<Rightarrow> Inl e | Inr i \<Rightarrow> Inr (a\<lparr>apb_i := word_of_int i\<rparr>))
         | ATTR_STRING \<Rightarrow> Inr (a\<lparr>apb_s := apb_s a @ [filter (\<lambda>c. c \<noteq> CHR 0x22) v]\<rparr>)
         | _ \<Rightarrow> Inr a)"

section \<open>Looking up the model\<close>

definition first_target :: "Graphml \<Rightarrow> string \<Rightarrow> string list \<Rightarrow> string" where
  "first_target g i edges = (case find (\<lambda>e. gm_GetAttribute g e ''source'' = i) edges of
     Some e \<Rightarrow> gm_GetAttribute g e ''target'' | None \<Rightarrow> [])"

definition GetDefinitionId :: "Graphml \<Rightarrow> string \<Rightarrow> (ModelParser, string) em" where
  "GetDefinitionId g i = bindE getE (\<lambda>mp. case map_of (mp_definition_ids mp) i of
     Some d \<Rightarrow> returnE d
   | None \<Rightarrow> let def_id = first_target g i (mp_definition_edge_ids mp)
       in bindE (whenE (def_id \<noteq> []) (modifyE (\<lambda>mp. mp\<lparr>mp_definition_ids := umap_put i def_id (mp_definition_ids mp)\<rparr>))) (\<lambda>_.
          returnE def_id))"

definition GetAggregateId :: "Graphml \<Rightarrow> string \<Rightarrow> (ModelParser, string) em" where
  "GetAggregateId g i = bindE getE (\<lambda>mp. case map_of (mp_aggregate_ids mp) i of
     Some d \<Rightarrow> returnE d
   | None \<Rightarrow> let agg_id = first_target g i (mp_aggregate_edge_ids mp)
       in bindE (whenE (agg_id \<noteq> []) (modifyE (\<lambda>mp. mp\<lparr>mp_aggregate_ids := umap_put i agg_id (mp_aggregate_ids mp)\<rparr>))) (\<lambda>_.
          returnE agg_id))"

text \<open>The namespaces around an element, outermost first.\<close>

primrec namespaces_up :: "Graphml \<Rightarrow> nat \<Rightarrow> string \<Rightarrow> string list \<Rightarrow> string list option" where
  "namespaces_up g 0 current_id namespace_list = (if current_id = [] then Some namespace_list else None)"
| "namespaces_up g (Suc limit) current_id namespace_list =
     (if current_id = [] then Some namespace_list
      else namespaces_up g limit (gm_GetParentNode g current_id)
        (if gm_GetDataValue g current_id ''kind'' = ''Namespace''
         then gm_GetDataValue g current_id ''label'' # namespace_list else namespace_list))"

definition GetNamespaceList :: "Graphml \<Rightarrow> nat \<Rightarrow> string \<Rightarrow> exn + string list" where
  "GetNamespaceList g limit i = (case namespaces_up g limit i [] of
     Some ns \<Rightarrow> Inr ns | None \<Rightarrow> Inl (Undefined ''endless loop''))"

definition GetDeployedID :: "ModelParser \<Rightarrow> string \<Rightarrow> string" where
  "GetDeployedID mp i = (case umap_list (mp_deployed_entities_map mp) i of [] \<Rightarrow> [] | d # _ \<Rightarrow> d)"

primrec GetDeployedContainerID :: "Graphml \<Rightarrow> nat \<Rightarrow> ModelParser \<Rightarrow> string \<Rightarrow> exn + string" where
  "GetDeployedContainerID g 0 mp component_id = Inl (Undefined ''stack overflow'')"
| "GetDeployedContainerID g (Suc limit) mp component_id =
     (let deployed_id = GetDeployedID mp component_id
      in if deployed_id = []
         then (let parent_id = gm_GetParentNode g component_id
               in if parent_id \<noteq> [] then GetDeployedContainerID g limit mp parent_id else Inr deployed_id)
         else Inr deployed_id)"

definition FillProtobufAttributes ::
    "Graphml \<Rightarrow> (string \<Rightarrow> exn + double_bits) \<Rightarrow> string \<Rightarrow> string \<Rightarrow> (ModelParser, PbAttrMap) em" where
  "FillProtobufAttributes g stod parent_id unique_id_suffix =
     foldl (\<lambda>acc attribute_id. bindE acc (\<lambda>attrs.
        let attr_label = gm_GetDataValue g attribute_id ''label'';
            attr_pb = (new_attribute attr_label ATTR_STRING);
            attr_pb = attr_pb\<lparr>apb_info := (apb_info attr_pb)\<lparr>info_id := attribute_id @ unique_id_suffix\<rparr>\<rparr>
        in bindE (mapped_value attribute_id) (\<lambda>v.
           bindE (liftE (SetAttributePb stod (gm_GetDataValue g attribute_id ''type'') v attr_pb)) (\<lambda>attr_pb.
           returnE (umap_put attr_label attr_pb attrs)))))
       (returnE []) (gm_FindImmediateChildren g ''AttributeInstance'' parent_id)"

section \<open>Ports and workers\<close>

definition port_message :: "Graphml \<Rightarrow> nat \<Rightarrow> string \<Rightarrow> string \<Rightarrow> (Middleware_pb \<Rightarrow> bool) \<Rightarrow> (ModelParser, Port_pb) em" where
  "port_message g limit port_id unique_id_suffix with_topic =
     bindE (GetDefinitionId g port_id) (\<lambda>def_id.
     bindE (GetAggregateId g def_id) (\<lambda>aggregate_id.
     bindE (liftE (GetNamespaceList g limit aggregate_id)) (\<lambda>ns.
     let middleware = ParseMiddleware (gm_GetDataValue g port_id ''middleware'')
     in returnE (Port_default\<lparr>
          ppb_info := \<lparr>info_name = gm_GetDataValue g port_id ''label'', info_id = port_id @ unique_id_suffix,
            info_type = gm_GetDataValue g aggregate_id ''label'', info_namespaces = ns\<rparr>,
          ppb_kind := GetPortKind (gm_GetDataValue g port_id ''kind''),
          ppb_middleware := middleware,
          ppb_attributes := (if with_topic middleware
            then SetStringAttribute [] ''topic_name'' (gm_GetDataValue g port_id ''topic_name'') else [])\<rparr>))))"

definition ConstructPubSubPortPb :: "Graphml \<Rightarrow> nat \<Rightarrow> string \<Rightarrow> string \<Rightarrow> (ModelParser, Port_pb) em" where
  "ConstructPubSubPortPb g limit port_id unique_id_suffix =
     port_message g limit port_id unique_id_suffix (\<lambda>m. m = RTI \<or> m = OSPL \<or> m = QPID)"

definition ConstructReqRepPortPb :: "Graphml \<Rightarrow> nat \<Rightarrow> string \<Rightarrow> string \<Rightarrow> (ModelParser, Port_pb) em" where
  "ConstructReqRepPortPb g limit port_id unique_id_suffix =
     port_message g limit port_id unique_id_suffix (\<lambda>m. m = QPID)"

definition ConstructPeriodicPb :: "Graphml \<Rightarrow> (string \<Rightarrow> exn + double_bits) \<Rightarrow> string \<Rightarrow> string \<Rightarrow> (ModelParser, Port_pb) em" where
  "ConstructPeriodicPb g stod port_id unique_id_suffix =
     bindE (FillProtobufAttributes g stod port_id unique_id_suffix) (\<lambda>attrs.
     returnE (Port_default\<lparr>
       ppb_info := Info_default\<lparr>info_name := gm_GetDataValue g port_id ''label'', info_id := port_id @ unique_id_suffix\<rparr>,
       ppb_kind := PERIODIC, ppb_attributes := attrs\<rparr>))"

definition ConstructWorkerPb ::
    "Graphml \<Rightarrow> (string \<Rightarrow> exn + double_bits) \<Rightarrow> string \<Rightarrow> string \<Rightarrow> (ModelParser, Worker_pb option) em" where
  "ConstructWorkerPb g stod worker_id unique_id_suffix =
     (let class_type = gm_GetDataValue g worker_id ''type''
      in if class_type = ''Vector_Operations'' \<or> class_type = ''Component_Info'' then returnE None
         else bindE (FillProtobufAttributes g stod worker_id unique_id_suffix) (\<lambda>attrs.
           returnE (Some \<lparr>wpb_info = Info_default\<lparr>info_name := gm_GetDataValue g worker_id ''label'',
             info_id := worker_id @ unique_id_suffix, info_type := class_type\<rparr>, wpb_attributes = attrs\<rparr>)))"

section \<open>Hardware\<close>

definition implicit_container :: "Graphml \<Rightarrow> string \<Rightarrow> Container_pb" where
  "implicit_container g hardware_id =
    \<lparr>ctpb_info = Info_default\<lparr>info_name := gm_GetDataValue g hardware_id ''label'', info_id := hardware_id @ ''_0''\<rparr>,
     ctpb_type = GENERIC, ctpb_components = [], ctpb_loggers = [], ctpb_implicit = True, ctpb_is_late_joiner = False\<rparr>"

definition ParseCluster :: "Graphml \<Rightarrow> string \<Rightarrow> (ModelParser, unit) em" where
  "ParseCluster g cluster_id = modifyE (\<lambda>mp.
     let ex = mp_experiment mp; i = length (expb_clusters ex)
     in mp\<lparr>mp_experiment := ex\<lparr>expb_clusters := expb_clusters ex @
            [\<lparr>clpb_info = Info_default\<lparr>info_name := gm_GetDataValue g cluster_id ''label'', info_id := cluster_id\<rparr>,
              clpb_nodes = [], clpb_containers = [implicit_container g cluster_id]\<rparr>]\<rparr>,
          mp_container_message_map := umap_put cluster_id (In_cluster i 0) (mp_container_message_map mp),
          mp_cluster_message_map := umap_put cluster_id i (mp_cluster_message_map mp)\<rparr>)"

definition ParseHardwareNode :: "Graphml \<Rightarrow> string \<Rightarrow> (ModelParser, unit) em" where
  "ParseHardwareNode g hardware_id = modifyE (\<lambda>mp.
     if gm_GetDataValue g hardware_id ''ip_address'' = ''OFFLINE'' then mp
     else case map_of (mp_cluster_message_map mp) (gm_GetParentNode g hardware_id) of
       None \<Rightarrow> mp
     | Some c \<Rightarrow>
         let ex = mp_experiment mp; n = length (clpb_nodes (expb_clusters ex ! c));
             node = \<lparr>npb_info = Info_default\<lparr>info_name := gm_GetDataValue g hardware_id ''label'', info_id := hardware_id\<rparr>,
               npb_ip_address = gm_GetDataValue g hardware_id ''ip_address'', npb_containers = [implicit_container g hardware_id]\<rparr>
         in mp\<lparr>mp_experiment := ex\<lparr>expb_clusters :=
                nth_upd c (\<lambda>cl. cl\<lparr>clpb_nodes := clpb_nodes cl @ [node]\<rparr>) (expb_clusters ex)\<rparr>,
              mp_container_message_map := umap_put hardware_id (In_node c n 0) (mp_container_message_map mp),
              mp_node_message_map := umap_put hardware_id (c, n) (mp_node_message_map mp)\<rparr>)"

definition deployment_container :: "Graphml \<Rightarrow> string \<Rightarrow> Container_pb" where
  "deployment_container g i =
    \<lparr>ctpb_info = Info_default\<lparr>info_name := gm_GetDataValue g i ''label'', info_id := i\<rparr>,
     ctpb_type = (if gm_GetDataValue g i ''is_docker'' = ''true'' then DOCKER else GENERIC),
     ctpb_components = [], ctpb_loggers = [], ctpb_implicit = False,
     ctpb_is_late_joiner = (gm_GetDataValue g i ''is_late_joiner'' = ''true'')\<rparr>"

definition ParseDeploymentContainer :: "Graphml \<Rightarrow> string \<Rightarrow> (ModelParser, unit) em" where
  "ParseDeploymentContainer g i = modifyE (\<lambda>mp.
     let deployed_id = GetDeployedID mp i; ex = mp_experiment mp; ct = deployment_container g i
     in case map_of (mp_cluster_message_map mp) deployed_id of
          Some c \<Rightarrow>
            mp\<lparr>mp_experiment := ex\<lparr>expb_clusters :=
                 nth_upd c (\<lambda>cl. cl\<lparr>clpb_containers := clpb_containers cl @ [ct]\<rparr>) (expb_clusters ex)\<rparr>,
               mp_container_message_map := umap_put i (In_cluster c (length (clpb_containers (expb_clusters ex ! c))))
                 (mp_container_message_map mp)\<rparr>
        | None \<Rightarrow> (case map_of (mp_node_message_map mp) deployed_id of
            Some (c, n) \<Rightarrow>
              mp\<lparr>mp_experiment := ex\<lparr>expb_clusters :=
                   nth_upd c (\<lambda>cl. cl\<lparr>clpb_nodes := nth_upd n (\<lambda>nd. nd\<lparr>npb_containers := npb_containers nd @ [ct]\<rparr>) (clpb_nodes cl)\<rparr>)
                     (expb_clusters ex)\<rparr>,
                 mp_container_message_map := umap_put i
                   (In_node c n (length (npb_containers (clpb_nodes (expb_clusters ex ! c) ! n)))) (mp_container_message_map mp)\<rparr>
          | None \<Rightarrow> mp))"

definition ParseHardwareItems :: "Graphml \<Rightarrow> (ModelParser, unit) em" where
  "ParseHardwareItems g = bindE getE (\<lambda>mp.
     bindE (forE (mp_hardware_cluster_ids mp) (ParseCluster g)) (\<lambda>_.
     bindE (forE (mp_hardware_node_ids mp) (ParseHardwareNode g)) (\<lambda>_.
     forE (mp_deployment_container_ids mp) (ParseDeploymentContainer g))))"

section \<open>External ports\<close>

definition blackbox_attributes :: "Graphml \<Rightarrow> string \<Rightarrow> ExternalPort_Kind_pb \<Rightarrow> Middleware_pb \<Rightarrow> exn + PbAttrMap" where
  "blackbox_attributes g port_id port_kind middleware = (case middleware of
     QPID \<Rightarrow> Inr (SetStringAttribute (SetStringAttribute [] ''topic_name'' (gm_GetDataValue g port_id ''topic_name''))
       ''broker_address'' (gm_GetDataValue g port_id ''qpid_broker_address''))
   | ZMQ \<Rightarrow> Inr (case port_kind of
       PUBSUB \<Rightarrow> SetStringAttribute [] ''publisher_address'' (gm_GetDataValue g port_id ''zmq_publisher_address'')
     | SERVER \<Rightarrow> SetStringAttribute [] ''server_address'' (gm_GetDataValue g port_id ''zmq_server_address'')
     | _ \<Rightarrow> [])
   | TAO \<Rightarrow>
       (let split_server_name = split_words (map (\<lambda>ch. if ch = CHR ''/'' then CHR '' '' else ch) (gm_GetDataValue g port_id ''tao_server_name''))
        in Inr (SetStringAttribute (SetStringListAttribute
             (SetStringAttribute [] ''naming_server_endpoint'' (gm_GetDataValue g port_id ''tao_naming_service_endpoint''))
             ''server_name'' split_server_name) ''server_kind'' (gm_GetDataValue g port_id ''tao_server_kind'')))
   | RTI \<Rightarrow> (case stoi (gm_GetDataValue g port_id ''dds_domain_id'') of
       Inl e \<Rightarrow> Inl e
     | Inr domain_id \<Rightarrow> Inr (SetIntegerAttribute (SetStringAttribute [] ''topic_name'' (gm_GetDataValue g port_id ''topic_name'')) ''domain_id'' domain_id))
   | OSPL \<Rightarrow> (case stoi (gm_GetDataValue g port_id ''dds_domain_id'') of
       Inl e \<Rightarrow> Inl e
     | Inr domain_id \<Rightarrow> Inr (SetIntegerAttribute (SetStringAttribute [] ''topic_name'' (gm_GetDataValue g port_id ''topic_name'')) ''domain_id'' domain_id))
   | _ \<Rightarrow> Inr [])"

definition ParseExternalDelegate :: "Graphml \<Rightarrow> string \<Rightarrow> (ModelParser, unit) em" where
  "ParseExternalDelegate g port_id =
     (let parent_id = gm_GetParentNode g port_id;
          port_kind = GetExternalPortKind (gm_GetDataValue g port_id ''kind'');
          is_blackbox = (gm_GetDataValue g parent_id ''blackbox'' = ''true'');
          middleware = ParseMiddleware (gm_GetDataValue g port_id ''middleware'')
      in bindE (liftE (if is_blackbox then blackbox_attributes g port_id port_kind middleware else Inr [])) (\<lambda>attrs.
         modifyE (\<lambda>mp. let ex = mp_experiment mp
           in mp\<lparr>mp_experiment := ex\<lparr>expb_external_ports := expb_external_ports ex @
                 [\<lparr>epb_info = Info_default\<lparr>info_name := gm_GetDataValue g parent_id ''label'', info_id := port_id,
                    info_type := gm_GetDataValue g port_id ''type''\<rparr>,
                   epb_kind = port_kind, epb_middleware = middleware, epb_attributes = attrs, epb_connected_ports = [],
                   epb_is_blackbox = is_blackbox\<rparr>]\<rparr>,
                 mp_external_port_id_map := umap_emplace port_id (length (expb_external_ports ex)) (mp_external_port_id_map mp)\<rparr>)))"

definition ParseExternalDelegates :: "Graphml \<Rightarrow> (ModelParser, unit) em" where
  "ParseExternalDelegates g = bindE getE (\<lambda>mp.
     forE (mp_delegates_pubsub_ids mp @ mp_delegates_server_ids mp) (ParseExternalDelegate g))"

section \<open>Loggers\<close>

definition add_logger :: "container_path \<Rightarrow> Logger_pb \<Rightarrow> (ModelParser, unit) em" where
  "add_logger r l = on_experiment (upd_msg_container r (\<lambda>ct. ct\<lparr>ctpb_loggers := ctpb_loggers ct @ [l]\<rparr>))"

definition logger_mode :: "string \<Rightarrow> Logger_Mode_pb" where
  "logger_mode s = (if s = ''LIVE'' then LIVE else if s = ''CACHED'' then CACHED else OFF)"

definition ParseLoggingClient :: "Graphml \<Rightarrow> (string \<Rightarrow> exn + double_bits) \<Rightarrow> string \<Rightarrow> (ModelParser, unit) em" where
  "ParseLoggingClient g stod client_id =
     bindE getE (\<lambda>mp. forE (umap_list (mp_deployed_entities_map mp) client_id) (\<lambda>deployed_id.
       bindE getE (\<lambda>mp. case map_of (mp_container_message_map mp) deployed_id of
         None \<Rightarrow> returnE ()
       | Some r \<Rightarrow>
           bindE (liftE (stod (gm_GetDataValue g client_id ''frequency''))) (\<lambda>frequency.
           add_logger r (Logger_default\<lparr>lpb_type := LOGGER_CLIENT, lpb_id := client_id, lpb_frequency := frequency,
             lpb_processes := split_words (map (\<lambda>ch. if ch = CHR '','' then CHR '' '' else ch) (gm_GetDataValue g client_id ''processes_to_log'')),
             lpb_mode := logger_mode (gm_GetDataValue g client_id ''mode'')\<rparr>)))))"

definition ParseLoggingClients :: "Graphml \<Rightarrow> (string \<Rightarrow> exn + double_bits) \<Rightarrow> (ModelParser, unit) em" where
  "ParseLoggingClients g stod = bindE getE (\<lambda>mp. forE (mp_logging_client_ids mp) (ParseLoggingClient g stod))"

definition ParseLoggingServer :: "Graphml \<Rightarrow> string \<Rightarrow> (ModelParser, unit) em" where
  "ParseLoggingServer g server_id = bindE getE (\<lambda>mp.
     case map_of (mp_container_message_map mp) (GetDeployedID mp server_id) of
       None \<Rightarrow> returnE ()
     | Some r \<Rightarrow> add_logger r (Logger_default\<lparr>lpb_type := LOGGER_SERVER, lpb_id := server_id,
         lpb_db_file_name := gm_GetDataValue g server_id ''database'',
         lpb_client_ids := umap_list (mp_logging_server_client_map mp) server_id\<rparr>))"

definition ParseLoggingServers :: "Graphml \<Rightarrow> (ModelParser, unit) em" where
  "ParseLoggingServers g = bindE getE (\<lambda>mp. forE (mp_logging_server_ids mp) (ParseLoggingServer g))"

section \<open>Components\<close>

definition add_port :: "component_path \<Rightarrow> Port_pb \<Rightarrow> (ModelParser, unit) em" where
  "add_port r p = on_experiment (upd_msg_component r (\<lambda>c. c\<lparr>cpb_ports := cpb_ports c @ [p]\<rparr>))"

text \<open>A port that may be connected is entered under its id.\<close>

definition add_connectable_port :: "component_path \<Rightarrow> Port_pb \<Rightarrow> (ModelParser, unit) em" where
  "add_connectable_port r p =
     bindE (modifyE (\<lambda>mp. mp\<lparr>mp_port_replicate_id_map :=
       umap_put (info_id (ppb_info p)) (r, length (cpb_ports (msg_component (mp_experiment mp) r))) (mp_port_replicate_id_map mp)\<rparr>)) (\<lambda>_.
     add_port r p)"

definition add_worker :: "component_path \<Rightarrow> Worker_pb option \<Rightarrow> (ModelParser, unit) em" where
  "add_worker r worker_pb = (case worker_pb of None \<Rightarrow> returnE ()
     | Some w \<Rightarrow> on_experiment (upd_msg_component r (\<lambda>c. c\<lparr>cpb_workers := cpb_workers c @ [w]\<rparr>)))"

text \<open>\<open>add_components\<close>: an empty message at the end of the container, entered as a replication.\<close>

definition add_component :: "container_path \<Rightarrow> string \<Rightarrow> (ModelParser, component_path) em" where
  "add_component r component_id = bindE getE (\<lambda>mp.
     let ref = (r, length (ctpb_components (msg_container (mp_experiment mp) r)))
     in bindE (on_experiment (upd_msg_container r (\<lambda>ct. ct\<lparr>ctpb_components := ctpb_components ct @
           [\<lparr>cpb_info = Info_default, cpb_ports = [], cpb_attributes = [], cpb_workers = [], cpb_replicate_indices = [], cpb_location = []\<rparr>]\<rparr>))) (\<lambda>_.
        bindE (modifyE (\<lambda>mp. mp\<lparr>mp_component_replications := umap_push_back component_id ref (mp_component_replications mp)\<rparr>)) (\<lambda>_.
        returnE ref)))"

definition ParseComponent ::
    "Graphml \<Rightarrow> nat \<Rightarrow> (string \<Rightarrow> exn + double_bits) \<Rightarrow> ComponentReplication \<Rightarrow> (ModelParser, unit) em" where
  "ParseComponent g limit stod component_instance =
     (let component_id = cr_component_instance_id component_instance
      in bindE (GetDefinitionId g component_id) (\<lambda>component_def_id.
         bindE (liftE (GetUniqueId component_instance)) (\<lambda>component_uid.
         bindE (liftE (GetUniqueIdSuffix component_instance)) (\<lambda>unique_suffix.
         bindE getE (\<lambda>mp.
         bindE (liftE (GetDeployedContainerID g limit mp component_id)) (\<lambda>deployed_id.
         case (if deployed_id = [] then None else map_of (mp_container_message_map mp) deployed_id) of
           None \<Rightarrow> returnE ()
         | Some container \<Rightarrow>
             bindE (add_component container component_id) (\<lambda>r.
             bindE (liftE (GetNamespaceList g limit component_def_id)) (\<lambda>ns.
             bindE (liftE (GetReplicationIndices component_instance)) (\<lambda>replication_indices.
             bindE (liftE (GetReplicationLocation component_instance)) (\<lambda>location.
             bindE (FillProtobufAttributes g stod component_id unique_suffix) (\<lambda>attrs.
             bindE (on_experiment (upd_msg_component r (\<lambda>c. c\<lparr>
               cpb_info := \<lparr>info_name = gm_GetDataValue g component_id ''label'', info_id = component_uid,
                 info_type = gm_GetDataValue g component_def_id ''label'', info_namespaces = ns\<rparr>,
               cpb_replicate_indices := replication_indices, cpb_location := location, cpb_attributes := attrs\<rparr>))) (\<lambda>_.
             let child = (\<lambda>kind. gm_FindImmediateChildren g kind component_id)
             in bindE (forE (child ''PublisherPortInstance'' @ child ''SubscriberPortInstance'') (\<lambda>port_id.
                  bindE (ConstructPubSubPortPb g limit port_id unique_suffix) (add_connectable_port r))) (\<lambda>_.
                bindE (forE (child ''RequesterPortInstance'' @ child ''ReplierPortInstance'') (\<lambda>port_id.
                  bindE (ConstructReqRepPortPb g limit port_id unique_suffix) (add_connectable_port r))) (\<lambda>_.
                bindE (forE (child ''PeriodicPortInstance'') (\<lambda>periodic_id.
                  bindE (ConstructPeriodicPb g stod periodic_id unique_suffix) (add_port r))) (\<lambda>_.
                forE (child ''ClassInstance'') (\<lambda>class_instance_id.
                  bindE (ConstructWorkerPb g stod class_instance_id unique_suffix) (add_worker r)))))))))))))))))"

definition ParseComponents :: "Graphml \<Rightarrow> nat \<Rightarrow> (string \<Rightarrow> exn + double_bits) \<Rightarrow> (ModelParser, unit) em" where
  "ParseComponents g limit stod = bindE getE (\<lambda>mp. forE (mp_component_instances mp) (ParseComponent g limit stod))"

section \<open>Connections\<close>

definition replicate_indices :: "ModelParser \<Rightarrow> component_path \<Rightarrow> int list" where
  "replicate_indices mp r = cpb_replicate_indices (msg_component (mp_experiment mp) r)"

definition add_connected_port :: "port_path \<Rightarrow> string \<Rightarrow> (ModelParser, unit) em" where
  "add_connected_port r i = on_experiment (upd_msg_port r (\<lambda>p. p\<lparr>ppb_connected_ports := ppb_connected_ports p @ [i]\<rparr>))"

definition add_connected_external_port :: "port_path \<Rightarrow> string \<Rightarrow> (ModelParser, unit) em" where
  "add_connected_external_port r i =
     on_experiment (upd_msg_port r (\<lambda>p. p\<lparr>ppb_connected_external_ports := ppb_connected_external_ports p @ [i]\<rparr>))"

definition external_add_connected_port :: "nat \<Rightarrow> string \<Rightarrow> (ModelParser, unit) em" where
  "external_add_connected_port e i =
     on_experiment (upd_msg_external_port e (\<lambda>p. p\<lparr>epb_connected_ports := epb_connected_ports p @ [i]\<rparr>))"

text \<open>The target with the given id, when there is one, and the source with its id get each other's ids.\<close>

definition connect_ports :: "port_path \<Rightarrow> string \<Rightarrow> string \<Rightarrow> (ModelParser, unit) em" where
  "connect_ports source_port s_uid t_uid = bindE getE (\<lambda>mp.
     case map_of (mp_port_replicate_id_map mp) t_uid of
       None \<Rightarrow> returnE ()
     | Some target_port \<Rightarrow> bindE (add_connected_port source_port t_uid) (\<lambda>_. add_connected_port target_port s_uid))"

text \<open>The replications agree on all assemblies down to the one that contains both ports.\<close>

definition matching_parents :: "Graphml \<Rightarrow> AssemblyConnection \<Rightarrow> int list \<Rightarrow> int list \<Rightarrow> exn + bool" where
  "matching_parents g ac source_indices target_indices =
     (let shared_parent_id = gm_GetSharedParent g (ac_source_id ac) (ac_target_id ac);
          source_height = gm_GetHeightToParent g (ac_source_id ac) shared_parent_id - 2;
          target_height = gm_GetHeightToParent g (ac_target_id ac) shared_parent_id - 2;
          source_index = int (length source_indices) - source_height;
          target_index = int (length target_indices) - target_height
      in if source_index \<noteq> target_index then Inl (Undefined ''assert'')
         else if int (length source_indices) < source_index \<or> int (length target_indices) < source_index
         then Inl (Undefined ''index of a repeated field'')
         else Inr (take (nat source_index) source_indices = take (nat source_index) target_indices))"

definition connect_replication :: "Graphml \<Rightarrow> AssemblyConnection \<Rightarrow> string \<Rightarrow> component_path \<Rightarrow> (ModelParser, unit) em" where
  "connect_replication g ac target_component_id source_component = bindE getE (\<lambda>mp.
     let source_indices = replicate_indices mp source_component;
         s_unique = GetUniqueSuffix source_indices;
         s_uid = ac_source_id ac @ s_unique
     in case map_of (mp_port_replicate_id_map mp) s_uid of
          None \<Rightarrow> returnE ()
        | Some source_port \<Rightarrow>
            if ac_inter_assembly ac
            then forE (umap_list (mp_component_replications mp) target_component_id) (\<lambda>target_component.
              bindE getE (\<lambda>mp.
                let target_indices = replicate_indices mp target_component
                in bindE (liftE (matching_parents g ac source_indices target_indices)) (\<lambda>matching.
                   whenE matching (connect_ports source_port s_uid (ac_target_id ac @ GetUniqueSuffix target_indices)))))
            else connect_ports source_port s_uid (ac_target_id ac @ s_unique))"

definition connect_delegate :: "bool \<Rightarrow> nat \<Rightarrow> string \<Rightarrow> string \<Rightarrow> component_path \<Rightarrow> (ModelParser, unit) em" where
  "connect_delegate source_is_delegate eport eport_id port_id component = bindE getE (\<lambda>mp.
     let uid = port_id @ GetUniqueSuffix (replicate_indices mp component)
     in case map_of (mp_port_replicate_id_map mp) uid of
          None \<Rightarrow> returnE ()
        | Some port \<Rightarrow>
            if source_is_delegate
            then bindE (external_add_connected_port eport uid) (\<lambda>_. add_connected_external_port port eport_id)
            else bindE (add_connected_external_port port eport_id) (\<lambda>_. external_add_connected_port eport uid))"

definition CalculateConnection :: "Graphml \<Rightarrow> AssemblyConnection \<Rightarrow> (ModelParser, unit) em" where
  "CalculateConnection g ac = bindE getE (\<lambda>mp.
     let source_port_id = ac_source_id ac; target_port_id = ac_target_id ac;
         source_component_id = gm_GetParentNode g source_port_id; target_component_id = gm_GetParentNode g target_port_id;
         replications = mp_component_replications mp
     in case (map_of (mp_external_port_id_map mp) source_port_id, map_of (mp_external_port_id_map mp) target_port_id) of
          (None, None) \<Rightarrow>
            whenE (umap_count replications source_component_id \<and> umap_count replications target_component_id)
              (forE (umap_list replications source_component_id) (connect_replication g ac target_component_id))
        | (Some eport, None) \<Rightarrow> forE (umap_list replications target_component_id) (connect_delegate True eport source_port_id target_port_id)
        | (None, Some eport) \<Rightarrow> forE (umap_list replications source_component_id) (connect_delegate False eport target_port_id source_port_id)
        | (Some _, Some _) \<Rightarrow> returnE ())"

definition CalculateReplication :: "Graphml \<Rightarrow> (ModelParser, unit) em" where
  "CalculateReplication g = bindE getE (\<lambda>mp.
     forE (mp_assembly_map mp) (\<lambda>m. forE (snd m) (CalculateConnection g)))"

section \<open>The whole translation\<close>

definition Process :: "Graphml \<Rightarrow> nat \<Rightarrow> (string \<Rightarrow> exn + double_bits) \<Rightarrow> (ModelParser, unit) em" where
  "Process g limit stod =
     bindE (modifyE (\<lambda>mp. mp\<lparr>mp_experiment := Experiment_default\<lparr>expb_name := mp_experiment_id mp\<rparr>\<rparr>)) (\<lambda>_.
     bindE (ParseHardwareItems g) (\<lambda>_.
     bindE (ParseExternalDelegates g) (\<lambda>_.
     bindE (ParseLoggingClients g stod) (\<lambda>_.
     bindE (ParseLoggingServers g) (\<lambda>_.
     bindE (ParseComponents g limit stod) (\<lambda>_.
     CalculateReplication g))))))"

definition ProtobufModelParser_ctor :: "Graphml \<Rightarrow> nat \<Rightarrow> (string \<Rightarrow> exn + double_bits) \<Rightarrow> string \<Rightarrow> (exn + unit) \<times> ModelParser" where
  "ProtobufModelParser_ctor g limit stod experiment_id =
     bindE (PreProcess g limit) (\<lambda>_. Process g limit stod) (ModelParser_init experiment_id)"

end
