(* ===== verification/GPDemo.thy ===== *)
theory GPDemo
  imports GPParse
begin

text \<open>
  A sample model given as a table of its elements: id, parent, kind and data; edges have a source and a
  target besides. The queries walk the table. The model holds an assembly \<open>B\<close>, replicated twice, with a
  publishing component \<open>c1\<close> and a subscribing one \<open>c2\<close>, a component \<open>c3\<close> outside of it that subscribes too,
  one cluster with one machine, and the assemblies deployed to it.
\<close>

record row =
  row_id :: string
  row_parent :: string
  row_kind :: string
  row_data :: "(string \<times> string) list"

definition row_of :: "row list \<Rightarrow> string \<Rightarrow> row option" where
  "row_of rows i = find (\<lambda>r. row_id r = i) rows"

definition row_parent_of :: "row list \<Rightarrow> string \<Rightarrow> string" where
  "row_parent_of rows i = (case row_of rows i of Some r \<Rightarrow> row_parent r | None \<Rightarrow> [])"

primrec row_ancestors :: "row list \<Rightarrow> nat \<Rightarrow> string \<Rightarrow> string list" where
  "row_ancestors rows 0 i = []"
| "row_ancestors rows (Suc n) i = (let p = row_parent_of rows i in if p = [] then [] else p # row_ancestors rows n p)"

definition row_value :: "row list \<Rightarrow> string \<Rightarrow> string \<Rightarrow> string" where
  "row_value rows i k = (case row_of rows i of None \<Rightarrow> []
     | Some r \<Rightarrow> if k = ''kind'' then row_kind r else (case map_of (row_data r) k of Some v \<Rightarrow> v | None \<Rightarrow> []))"

definition Graphml_of_rows :: "row list \<Rightarrow> row list \<Rightarrow> Graphml" where
  "Graphml_of_rows rows edges =
    \<lparr>gm_FindNodesOfKinds = (\<lambda>ks p. map row_id (filter (\<lambda>r. row_kind r \<in> set ks \<and>
        (p = [] \<or> p \<in> set (row_ancestors rows (length rows) (row_id r)))) rows)),
     gm_FindEdges = (\<lambda>k. map row_id (filter (\<lambda>r. k = [] \<or> row_kind r = k) edges)),
     gm_FindImmediateChildren = (\<lambda>k p. map row_id (filter (\<lambda>r. row_kind r = k \<and> row_parent r = p) rows)),
     gm_GetAttribute = row_value edges,
     gm_GetDataValue = row_value (rows @ edges),
     gm_GetParentNode = row_parent_of rows,
     gm_GetSharedParent = (\<lambda>l r. case filter (\<lambda>a. a \<in> set (row_ancestors rows (length rows) r)) (row_ancestors rows (length rows) l) of
        [] \<Rightarrow> [] | a # _ \<Rightarrow> a),
     gm_GetHeightToParent = (\<lambda>c p. case find (\<lambda>(d, a). a = p) (enumerate 1 (row_ancestors rows (length rows) c)) of
        Some (d, _) \<Rightarrow> int d | None \<Rightarrow> - 1)\<rparr>"

definition demo_rows :: "row list" where
  "demo_rows = map (\<lambda>(i, p, k, d). \<lparr>row_id = i, row_parent = p, row_kind = k, row_data = d\<rparr>)
    [(''M'', [], ''Model'', []),
     (''A'', ''M'', ''AssemblyDefinitions'', [(''label'', ''Assemblies'')]),
     (''B'', ''A'', ''ComponentAssembly'', [(''label'', ''Pair'')]),
     (''v'', ''B'', ''Variable'', [(''value'', ''2'')]),
     (''c1'', ''B'', ''ComponentInstance'', [(''label'', ''Sender'')]),
     (''p'', ''c1'', ''PublisherPortInstance'', [(''label'', ''out''), (''middleware'', ''ZMQ'')]),
     (''c2'', ''B'', ''ComponentInstance'', [(''label'', ''Receiver'')]),
     (''s'', ''c2'', ''SubscriberPortInstance'', [(''label'', ''in''), (''middleware'', ''ZMQ'')]),
     (''c3'', ''A'', ''ComponentInstance'', [(''label'', ''Monitor'')]),
     (''t'', ''c3'', ''SubscriberPortInstance'', [(''label'', ''all''), (''middleware'', ''ZMQ'')]),
     (''H'', ''M'', ''HardwareDefinitions'', []),
     (''K'', ''H'', ''HardwareCluster'', [(''label'', ''Cluster'')]),
     (''h'', ''K'', ''HardwareNode'', [(''label'', ''Machine''), (''ip_address'', ''10.0.0.1'')])]"

definition demo_edges :: "row list" where
  "demo_edges = map (\<lambda>(i, k, s, t). \<lparr>row_id = i, row_parent = [], row_kind = k, row_data = [(''source'', s), (''target'', t)]\<rparr>)
    [(''e1'', ''Edge_Assembly'', ''p'', ''s''), (''e2'', ''Edge_Assembly'', ''p'', ''t''), (''e3'', ''Edge_Deployment'', ''A'', ''h'')]"

definition demo_graphml :: Graphml where
  "demo_graphml = Graphml_of_rows demo_rows demo_edges"

definition demo_stod :: "string \<Rightarrow> exn + double_bits" where
  "demo_stod s = Inl (InvalidArgument ''stod'')"

end
