(* ===== verification/GPSources.thy ===== *)
theory GPSources
  imports GPDemo
begin

text \<open>
  What \<open>GetTerminalSourcesByEdgeKind\<close> computes, against a reference that does not mention the search: the
  nodes that edges of one kind lead back to. The same relation tells when the search gives up.
\<close>

section \<open>The reference\<close>

definition fed_by :: "Graphml \<Rightarrow> (string, string sset) umap \<Rightarrow> string \<Rightarrow> string \<Rightarrow> string \<Rightarrow> bool" where
  "fed_by g ee k n s \<longleftrightarrow> (\<exists>e\<in>set (umap_list ee n). gm_GetDataValue g e ''kind'' = k \<and>
     gm_GetAttribute g e ''target'' = n \<and> gm_GetAttribute g e ''source'' = s)"

text \<open>Delegates of external ports end a path of assembly edges.\<close>

definition stops_at :: "Graphml \<Rightarrow> string \<Rightarrow> string \<Rightarrow> bool" where
  "stops_at g k s \<longleftrightarrow> k = ''Edge_Assembly'' \<and> gm_GetDataValue g s ''kind'' \<in> {''PubSubPortDelegate'', ''RequestPortDelegate''}"

inductive terminal_of :: "Graphml \<Rightarrow> (string, string sset) umap \<Rightarrow> string \<Rightarrow> string \<Rightarrow> string \<Rightarrow> bool" for g ee k where
  here: "fed_by g ee k n s \<Longrightarrow> stops_at g k s \<or> (\<nexists>r. fed_by g ee k s r) \<Longrightarrow> terminal_of g ee k n s"
| further: "fed_by g ee k n m \<Longrightarrow> \<not> stops_at g k m \<Longrightarrow> terminal_of g ee k m s \<Longrightarrow> terminal_of g ee k n s"

definition leads_back_to_cycle :: "Graphml \<Rightarrow> (string, string sset) umap \<Rightarrow> string \<Rightarrow> string \<Rightarrow> bool" where
  "leads_back_to_cycle g ee k n \<longleftrightarrow> (\<exists>m. (fed_by g ee k)\<^sup>*\<^sup>* n m \<and> (fed_by g ee k)\<^sup>+\<^sup>+ m m)"

section \<open>The search\<close>

text \<open>What one edge at a node contributes.\<close>

definition edge_fits :: "Graphml \<Rightarrow> string \<Rightarrow> string \<Rightarrow> string \<Rightarrow> bool" where
  "edge_fits g k n e \<longleftrightarrow> gm_GetDataValue g e ''kind'' = k \<and> gm_GetAttribute g e ''target'' = n"

definition contributes :: "Graphml \<Rightarrow> (string, string sset) umap \<Rightarrow> string \<Rightarrow> string \<Rightarrow> string \<Rightarrow> bool" where
  "contributes g ee k e s \<longleftrightarrow>
     (let m = gm_GetAttribute g e ''source''
      in if stops_at g k m \<or> (\<nexists>r. fed_by g ee k m r) then s = m else terminal_of g ee k m s)"

lemma terminal_of_contributes:
  "terminal_of g ee k n s \<longleftrightarrow> (\<exists>e\<in>set (umap_list ee n). edge_fits g k n e \<and> contributes g ee k e s)"
proof
  assume "terminal_of g ee k n s"
  then show "\<exists>e\<in>set (umap_list ee n). edge_fits g k n e \<and> contributes g ee k e s"
  proof cases
    case here
    then show ?thesis by (auto simp: fed_by_def contributes_def edge_fits_def Let_def)
  next
    case (further m)
    from further(3) have "\<exists>r. fed_by g ee k m r" by cases auto
    with further show ?thesis by (fastforce simp: fed_by_def contributes_def edge_fits_def Let_def)
  qed
next
  assume "\<exists>e\<in>set (umap_list ee n). edge_fits g k n e \<and> contributes g ee k e s"
  then obtain e where e: "e \<in> set (umap_list ee n)" "edge_fits g k n e" "contributes g ee k e s" by blast
  let ?m = "gm_GetAttribute g e ''source''"
  have "fed_by g ee k n ?m" using e(1,2) by (auto simp: fed_by_def edge_fits_def)
  then show "terminal_of g ee k n s"
    using e(3) by (auto simp: contributes_def Let_def split: if_splits intro: terminal_of.intros)
qed

lemma fed_by_edge_fits: "(\<exists>s. fed_by g ee k n s) \<longleftrightarrow> (\<exists>e\<in>set (umap_list ee n). edge_fits g k n e)"
  by (auto simp: fed_by_def edge_fits_def)

lemma terminal_edges_Cons:
  "terminal_edges g ee k prev n (e # es) acc =
     (if edge_fits g k n e
      then (case terminal_sources g ee k prev (gm_GetAttribute g e ''source'') of
          Inl x \<Rightarrow> Inl x
        | Inr cs \<Rightarrow> terminal_edges g ee k prev n es
            (if \<not> stops_at g k (gm_GetAttribute g e ''source'') \<and> cs \<noteq> []
             then foldl (\<lambda>s x. sset_insert x s) acc cs else sset_insert (gm_GetAttribute g e ''source'') acc))
      else terminal_edges g ee k prev n es acc)"
  by (auto simp: edge_fits_def stops_at_def Let_def split: sum.splits)

declare terminal_edges.simps(2) [simp del]

lemma terminal_edges_InrE:
  assumes "terminal_edges g ee k prev n (e # es) acc = Inr S"
  obtains (skip) "\<not> edge_fits g k n e" "terminal_edges g ee k prev n es acc = Inr S"
  | (fits) cs where "edge_fits g k n e" "terminal_sources g ee k prev (gm_GetAttribute g e ''source'') = Inr cs"
      "terminal_edges g ee k prev n es
        (if \<not> stops_at g k (gm_GetAttribute g e ''source'') \<and> cs \<noteq> []
         then foldl (\<lambda>s x. sset_insert x s) acc cs else sset_insert (gm_GetAttribute g e ''source'') acc) = Inr S"
proof (cases "edge_fits g k n e")
  case True
  show ?thesis
  proof (cases "terminal_sources g ee k prev (gm_GetAttribute g e ''source'')")
    case (Inl x)
    then show ?thesis using assms True by (simp add: terminal_edges_Cons)
  next
    case (Inr cs)
    then show ?thesis using assms True fits by (simp add: terminal_edges_Cons)
  qed
next
  case False
  then show ?thesis using assms skip by (simp add: terminal_edges_Cons)
qed

text \<open>The induction that the recursion allows: the set of nodes on the way grows, and the edges at a node
  are a list. \<open>P\<close> speaks of a search from a node, \<open>Q\<close> of its loop, whatever was collected before.\<close>

lemma search_induct [case_names node nil cons]:
  assumes node: "\<And>prev n. (n \<notin> set prev \<Longrightarrow> Q (sset_insert n prev) n (umap_list ee n)) \<Longrightarrow> P prev n"
    and nil: "\<And>prev n. Q prev n []"
    and cons: "\<And>prev n e es. P prev (gm_GetAttribute g e ''source'') \<Longrightarrow> Q prev n es \<Longrightarrow> Q prev n (e # es)"
  shows "P prev n" and "Q prev n es"
proof -
  have "(\<forall>n. P prev n) \<and> (\<forall>n es. Q prev n es)"
  proof (induction "card (fst ` set ee - set prev)" arbitrary: prev rule: less_induct)
    case less
    have P: "P prev n" for n
    proof (rule node)
      assume n: "n \<notin> set prev"
      show "Q (sset_insert n prev) n (umap_list ee n)"
      proof (cases "n \<in> fst ` set ee")
        case True
        then show ?thesis using less [of "sset_insert n prev"] open_keys_less [OF n True] by blast
      next
        case False
        then show ?thesis by (simp add: umap_list_absent nil)
      qed
    qed
    have "Q prev n es" for n es by (induction es) (simp_all add: nil cons P)
    with P show ?case by blast
  qed
  then show "P prev n" and "Q prev n es" by blast+
qed

text \<open>Where a search that succeeds has been.\<close>

lemma found_sources_step:
  "\<forall>S. terminal_sources g ee k prev n = Inr S \<longrightarrow>
      sset_wf S \<and> set S = {s. terminal_of g ee k n s} \<and> ((\<exists>s. fed_by g ee k n s) \<longleftrightarrow> S \<noteq> [])"
  "\<forall>acc S. terminal_edges g ee k prev n es acc = Inr S \<longrightarrow> sset_wf acc \<longrightarrow>
      sset_wf S \<and> set S = set acc \<union> {s. \<exists>e\<in>set es. edge_fits g k n e \<and> contributes g ee k e s} \<and>
      ((\<exists>e\<in>set es. edge_fits g k n e) \<longrightarrow> S \<noteq> [])"
proof (induction prev n and prev n es rule: search_induct [where ee = ee and g = g])
  case (node prev n)
  show ?case
  proof (intro allI impI)
    fix S assume r: "terminal_sources g ee k prev n = Inr S"
    then have n: "n \<notin> set prev" by (auto split: if_splits)
    then have "terminal_edges g ee k (sset_insert n prev) n (umap_list ee n) [] = Inr S" using r by simp
    with node [OF n] have ih: "sset_wf S" "set S = {s. \<exists>e\<in>set (umap_list ee n). edge_fits g k n e \<and> contributes g ee k e s}"
      "(\<exists>e\<in>set (umap_list ee n). edge_fits g k n e) \<longrightarrow> S \<noteq> []" by simp_all
    have "\<exists>e\<in>set (umap_list ee n). edge_fits g k n e" if "S \<noteq> []"
    proof -
      from that obtain x where "x \<in> set S" by (cases S) auto
      then show ?thesis using ih(2) by blast
    qed
    then have "S \<noteq> [] \<longleftrightarrow> (\<exists>e\<in>set (umap_list ee n). edge_fits g k n e)" using ih(3) by blast
    then show "sset_wf S \<and> set S = {s. terminal_of g ee k n s} \<and> ((\<exists>s. fed_by g ee k n s) \<longleftrightarrow> S \<noteq> [])"
      using ih by (simp add: terminal_of_contributes fed_by_edge_fits)
  qed
next
  case (nil prev n)
  then show ?case by (simp add: terminal_edges.simps(1))
next
  case (cons prev n e es)
  let ?m = "gm_GetAttribute g e ''source''"
  show ?case
  proof (intro allI impI)
    fix acc S assume r: "terminal_edges g ee k prev n (e # es) acc = Inr S" and wf: "sset_wf acc"
    show "sset_wf S \<and> set S = set acc \<union> {s. \<exists>e\<in>set (e # es). edge_fits g k n e \<and> contributes g ee k e s} \<and>
      ((\<exists>e\<in>set (e # es). edge_fits g k n e) \<longrightarrow> S \<noteq> [])"
      using r
    proof (cases rule: terminal_edges_InrE)
      case (fits cs)
      define A where "A = (if \<not> stops_at g k ?m \<and> cs \<noteq> [] then foldl (\<lambda>s x. sset_insert x s) acc cs else sset_insert ?m acc)"
      have m: "set cs = {s. terminal_of g ee k ?m s}" "(\<exists>s. fed_by g ee k ?m s) \<longleftrightarrow> cs \<noteq> []"
        using cons(1) [rule_format, OF fits(2)] by blast+
      have acc: "set A = set acc \<union> {s. contributes g ee k e s}"
        using m by (auto simp: A_def sset_of_foldl(1) contributes_def Let_def)
      have "\<exists>x. x \<in> set A" by (auto simp: A_def sset_of_foldl(1) neq_Nil_conv)
      have wf: "sset_wf A" using wf by (simp add: A_def sset_of_foldl(2) sset_wf_insert)
      have S: "sset_wf S" "set S = set A \<union> {s. \<exists>e\<in>set es. edge_fits g k n e \<and> contributes g ee k e s}"
        using cons(2) [rule_format, OF fits(3) [folded A_def] wf] by blast+
      then have "S \<noteq> []" using \<open>\<exists>x. x \<in> set A\<close> by auto
      moreover have "{s. \<exists>e\<in>set (e # es). edge_fits g k n e \<and> contributes g ee k e s} =
          {s. contributes g ee k e s} \<union> {s. \<exists>e\<in>set es. edge_fits g k n e \<and> contributes g ee k e s}" using fits(1) by auto
      ultimately show ?thesis using S acc by (simp add: Un_assoc)
    next
      case skip
      then show ?thesis using cons(2) wf by simp
    qed
  qed
qed

lemmas found_sources = found_sources_step(1) [rule_format]

text \<open>The search fails exactly when a node that leads here is on the way already or on a cycle.\<close>

inductive meets_again :: "Graphml \<Rightarrow> (string, string sset) umap \<Rightarrow> string \<Rightarrow> string set \<Rightarrow> string \<Rightarrow> bool" for g ee k where
  "n \<in> P \<Longrightarrow> meets_again g ee k P n"
| "fed_by g ee k n s \<Longrightarrow> meets_again g ee k (insert n P) s \<Longrightarrow> meets_again g ee k P n"

lemma meets_again_iff:
  "meets_again g ee k P n \<longleftrightarrow> n \<in> P \<or> (\<exists>s. fed_by g ee k n s \<and> meets_again g ee k (insert n P) s)"
  by (auto elim: meets_again.cases intro: meets_again.intros)

lemma fed_by_some: "(\<exists>s. fed_by g ee k n s \<and> X s) \<longleftrightarrow> (\<exists>e\<in>set (umap_list ee n). edge_fits g k n e \<and> X (gm_GetAttribute g e ''source''))"
  by (auto simp: fed_by_def edge_fits_def)

lemma search_fails:
  "(\<exists>x. terminal_sources g ee k prev n = Inl x) \<longleftrightarrow> meets_again g ee k (set prev) n"
  "\<forall>acc. (\<exists>x. terminal_edges g ee k prev n es acc = Inl x) \<longleftrightarrow>
      (\<exists>e\<in>set es. edge_fits g k n e \<and> meets_again g ee k (set prev) (gm_GetAttribute g e ''source''))"
proof (induction prev n and prev n es rule: search_induct [where ee = ee and g = g])
  case (node prev n)
  then show ?case unfolding meets_again_iff [of g ee k "set prev" n] fed_by_some by (cases "n \<in> set prev") auto
next
  case (nil prev n)
  then show ?case by (simp add: terminal_edges.simps(1))
next
  case (cons prev n e es)
  show ?case
  proof
    fix acc
    show "(\<exists>x. terminal_edges g ee k prev n (e # es) acc = Inl x) \<longleftrightarrow>
      (\<exists>e\<in>set (e # es). edge_fits g k n e \<and> meets_again g ee k (set prev) (gm_GetAttribute g e ''source''))"
      using cons unfolding terminal_edges_Cons
      by (cases "terminal_sources g ee k prev (gm_GetAttribute g e ''source'')") (simp_all del: if_split split: if_split)
  qed
qed

lemma meets_again_back:
  "meets_again g ee k P n \<Longrightarrow> \<exists>m. (fed_by g ee k)\<^sup>*\<^sup>* n m \<and> (m \<in> P \<or> (fed_by g ee k)\<^sup>+\<^sup>+ m m)"
proof (induction rule: meets_again.induct)
  case (2 n s P)
  then obtain m where m: "(fed_by g ee k)\<^sup>*\<^sup>* s m" "m \<in> insert n P \<or> (fed_by g ee k)\<^sup>+\<^sup>+ m m" by blast
  show ?case
  proof (cases "m = n")
    case True
    then have "(fed_by g ee k)\<^sup>+\<^sup>+ n n" using m(1) 2(1) by (auto intro: rtranclp_into_tranclp2)
    then show ?thesis by blast
  next
    case False
    then show ?thesis using m 2(1) by (meson converse_rtranclp_into_rtranclp insertE)
  qed
qed blast

text \<open>A search that succeeds has met neither.\<close>

lemma no_meeting:
  assumes "\<And>s m. fed_by g ee k n s \<Longrightarrow> (fed_by g ee k)\<^sup>*\<^sup>* s m \<Longrightarrow> m \<noteq> n \<and> m \<notin> P \<and> \<not> (fed_by g ee k)\<^sup>+\<^sup>+ m m"
    and "n \<notin> P" and "(fed_by g ee k)\<^sup>*\<^sup>* n m"
  shows "m \<notin> P \<and> \<not> (fed_by g ee k)\<^sup>+\<^sup>+ m m"
proof (cases "m = n")
  case True
  have "\<not> (fed_by g ee k)\<^sup>+\<^sup>+ n n"
  proof
    assume "(fed_by g ee k)\<^sup>+\<^sup>+ n n"
    then obtain s where "fed_by g ee k n s" "(fed_by g ee k)\<^sup>*\<^sup>* s n" by (blast dest: tranclpD)
    then show False using assms(1) by blast
  qed
  then show ?thesis using True assms(2) by simp
next
  case False
  with assms(3) obtain s where "fed_by g ee k n s" "(fed_by g ee k)\<^sup>*\<^sup>* s m" by (blast elim: converse_rtranclpE)
  then show ?thesis using assms(1) by blast
qed

lemma found_acyclic:
  "\<forall>S m. terminal_sources g ee k prev n = Inr S \<longrightarrow> (fed_by g ee k)\<^sup>*\<^sup>* n m \<longrightarrow> m \<notin> set prev \<and> \<not> (fed_by g ee k)\<^sup>+\<^sup>+ m m"
  "\<forall>acc S e m. terminal_edges g ee k prev n es acc = Inr S \<longrightarrow> e \<in> set es \<longrightarrow> edge_fits g k n e \<longrightarrow>
      (fed_by g ee k)\<^sup>*\<^sup>* (gm_GetAttribute g e ''source'') m \<longrightarrow> m \<notin> set prev \<and> \<not> (fed_by g ee k)\<^sup>+\<^sup>+ m m"
proof (induction prev n and prev n es rule: search_induct [where ee = ee and g = g])
  case (node prev n)
  show ?case
  proof (intro allI impI)
    fix S m assume r: "terminal_sources g ee k prev n = Inr S" and m: "(fed_by g ee k)\<^sup>*\<^sup>* n m"
    then have n: "n \<notin> set prev" by (auto split: if_splits)
    then have r: "terminal_edges g ee k (sset_insert n prev) n (umap_list ee n) [] = Inr S" using r by simp
    show "m \<notin> set prev \<and> \<not> (fed_by g ee k)\<^sup>+\<^sup>+ m m"
    proof (rule no_meeting [OF _ n m])
      fix s m assume "fed_by g ee k n s" "(fed_by g ee k)\<^sup>*\<^sup>* s m"
      then obtain e where "e \<in> set (umap_list ee n)" "edge_fits g k n e" "gm_GetAttribute g e ''source'' = s"
        by (auto simp: fed_by_def edge_fits_def)
      then have "m \<notin> set (sset_insert n prev) \<and> \<not> (fed_by g ee k)\<^sup>+\<^sup>+ m m"
        using node [OF n] r \<open>(fed_by g ee k)\<^sup>*\<^sup>* s m\<close> by blast
      then show "m \<noteq> n \<and> m \<notin> set prev \<and> \<not> (fed_by g ee k)\<^sup>+\<^sup>+ m m" by simp
    qed
  qed
next
  case (nil prev n)
  then show ?case by simp
next
  case (cons prev n e' es)
  show ?case
  proof (intro allI impI)
    fix acc S e m
    assume r: "terminal_edges g ee k prev n (e' # es) acc = Inr S" and e: "e \<in> set (e' # es)" "edge_fits g k n e"
      and m: "(fed_by g ee k)\<^sup>*\<^sup>* (gm_GetAttribute g e ''source'') m"
    show "m \<notin> set prev \<and> \<not> (fed_by g ee k)\<^sup>+\<^sup>+ m m"
    proof (cases "e = e'")
      case True
      from r show ?thesis using cons(1) e m True by (cases rule: terminal_edges_InrE) blast+
    next
      case False
      then have "e \<in> set es" using e by simp
      from r show ?thesis using cons(2) \<open>e \<in> set es\<close> e m by (cases rule: terminal_edges_InrE) blast+
    qed
  qed
qed

section \<open>Properties\<close>

text \<open>
  C15. The search finds what feeds a node. \<open>GetTerminalSourcesByEdgeKind\<close> always ends: it throws exactly when
  the edges of the kind lead back from the node to a cycle, and otherwise returns the nodes at which the
  ways back end, that is those that no edge of the kind enters and, for assembly edges, the delegates of
  external ports.
\<close>
theorem terminal_sources_reference:
  "case terminal_sources g ee k [] n of
     Inl _ \<Rightarrow> leads_back_to_cycle g ee k n
   | Inr S \<Rightarrow> \<not> leads_back_to_cycle g ee k n \<and> sset_wf S \<and> set S = {s. terminal_of g ee k n s}"
proof (cases "terminal_sources g ee k [] n")
  case (Inl x)
  then have "meets_again g ee k {} n" using search_fails(1) [of g ee k "[]" n] by auto
  then show ?thesis using meets_again_back Inl unfolding leads_back_to_cycle_def by fastforce
next
  case (Inr S)
  then show ?thesis using found_acyclic(1) [rule_format, OF Inr] found_sources [OF Inr] unfolding leads_back_to_cycle_def by auto
qed

end
