(* ===== verification/GPReplica.thy ===== *)
theory GPReplica
  imports GPDemo
begin

text \<open>
  Replication. Every assembly of the model stands for as many copies as its variable says, inside every copy
  of the assembly around it; a component is made for each combination. The reference \<open>replica\<close> says which
  combinations there are, without loops and without state.
\<close>

section \<open>The reference\<close>

definition value_in :: "ModelParser \<Rightarrow> string \<Rightarrow> string" where
  "value_in mp i = (case map_of (mp_attribute_value_map mp) i of Some v \<Rightarrow> v | None \<Rightarrow> [])"

definition copies :: "Graphml \<Rightarrow> (string \<Rightarrow> string) \<Rightarrow> string \<Rightarrow> int" where
  "copies g vals i = (case gm_FindImmediateChildren g ''Variable'' i of
     [] \<Rightarrow> 1
   | v # _ \<Rightarrow> (case stoi (vals v) of Inl _ \<Rightarrow> 1 | Inr n \<Rightarrow> if n < 0 then 0 else n))"

text \<open>\<open>replica g vals a is c\<close>: below the assembly \<open>a\<close> there is the component \<open>c\<close>, and \<open>is\<close> picks one copy of each
  assembly on the way, beginning with \<open>a\<close>.\<close>

inductive replica :: "Graphml \<Rightarrow> (string \<Rightarrow> string) \<Rightarrow> string \<Rightarrow> int list \<Rightarrow> string \<Rightarrow> bool" for g vals where
  here: "0 \<le> i \<Longrightarrow> i < copies g vals a \<Longrightarrow> c \<in> set (gm_FindImmediateChildren g ''ComponentInstance'' a) \<Longrightarrow> replica g vals a [i] c"
| below: "0 \<le> i \<Longrightarrow> i < copies g vals a \<Longrightarrow> b \<in> set (gm_FindImmediateChildren g ''ComponentAssembly'' a) \<Longrightarrow>
    replica g vals b is c \<Longrightarrow> replica g vals a (i # is) c"

inductive_cases replica_ConsE: "replica g vals a (i # is) c"

text \<open>Children know their parent and are listed once.\<close>

definition children_ok :: "Graphml \<Rightarrow> bool" where
  "children_ok g \<longleftrightarrow> (\<forall>k p. distinct (gm_FindImmediateChildren g k p)) \<and>
     (\<forall>k p c. c \<in> set (gm_FindImmediateChildren g k p) \<longrightarrow> gm_GetParentNode g c = p)"

lemma replica_nonempty: "replica g vals a is c \<Longrightarrow> is \<noteq> []"
  by (cases rule: replica.cases) auto

lemma parent_depth_Suc: "gm_GetParentNode_depth g (Suc n) c = gm_GetParentNode g (gm_GetParentNode_depth g n c)"
  by (induction n arbitrary: c) simp_all

lemma replica_parent:
  assumes "children_ok g" and "replica g vals a is c"
  shows "gm_GetParentNode_depth g (length is) c = a"
  using assms(2)
proof (induction rule: replica.induct)
  case (here i a c)
  then show ?case using assms(1) by (auto simp: children_ok_def)
next
  case (below i a b "is" c)
  then show ?case using assms(1) unfolding length_Cons parent_depth_Suc by (auto simp: children_ok_def)
qed

section \<open>Adding components\<close>

definition instance_of :: "ComponentReplication \<Rightarrow> string \<times> (exn + int list)" where
  "instance_of cr = (cr_component_instance_id cr, GetReplicationIndices cr)"

text \<open>A computation that succeeds adds each of the given components once and leaves the values alone.\<close>

definition adds :: "(string \<Rightarrow> string) \<Rightarrow> (ModelParser, unit) em \<Rightarrow> (string \<times> (exn + int list)) set \<Rightarrow> bool" where
  "adds vals m R \<longleftrightarrow> (\<forall>mp u mp'. m mp = (Inr u, mp') \<longrightarrow> value_in mp = vals \<longrightarrow> value_in mp' = vals \<and>
     (\<exists>new. mp_component_instances mp' = mp_component_instances mp @ new \<and> distinct (map instance_of new) \<and>
       set (map instance_of new) = R))"

lemma adds_returnE: "adds vals (returnE ()) {}"
  by (simp add: adds_def returnE_def)

lemma adds_bindE:
  assumes "adds vals m R1" and "adds vals (f ()) R2" and "R1 \<inter> R2 = {}"
  shows "adds vals (bindE m f) (R1 \<union> R2)"
  unfolding adds_def
proof (intro allI impI)
  fix mp u mp' assume r: "bindE m f mp = (Inr u, mp')" and v: "value_in mp = vals"
  from r obtain mp1 where r: "m mp = (Inr (), mp1)" "f () mp1 = (Inr (), mp')" by (auto elim: bindE_InrD)
  from assms(1) r(1) v obtain n1 where 1: "value_in mp1 = vals" "mp_component_instances mp1 = mp_component_instances mp @ n1"
    "distinct (map instance_of n1)" "set (map instance_of n1) = R1" unfolding adds_def by blast
  from assms(2) r(2) 1(1) obtain n2 where 2: "value_in mp' = vals" "mp_component_instances mp' = mp_component_instances mp1 @ n2"
    "distinct (map instance_of n2)" "set (map instance_of n2) = R2" unfolding adds_def by blast
  have "mp_component_instances mp' = mp_component_instances mp @ (n1 @ n2)" using 1(2) 2(2) by simp
  moreover have "distinct (map instance_of (n1 @ n2))" using 1(3,4) 2(3,4) assms(3) by simp
  moreover have "set (map instance_of (n1 @ n2)) = R1 \<union> R2" using 1(4) 2(4) by simp
  ultimately show "value_in mp' = vals \<and> (\<exists>new. mp_component_instances mp' = mp_component_instances mp @ new \<and>
      distinct (map instance_of new) \<and> set (map instance_of new) = R1 \<union> R2)" using 2(1) by blast
qed

lemma adds_forE:
  assumes "\<And>x. x \<in> set xs \<Longrightarrow> adds vals (f x) (R x)" and "distinct xs"
    and "\<And>x y. x \<in> set xs \<Longrightarrow> y \<in> set xs \<Longrightarrow> x \<noteq> y \<Longrightarrow> R x \<inter> R y = {}"
  shows "adds vals (forE xs f) (\<Union>x\<in>set xs. R x)"
  using assms
proof (induction xs)
  case Nil
  then show ?case by (simp add: adds_returnE)
next
  case (Cons x xs)
  have "adds vals (forE (x # xs) f) (R x \<union> (\<Union>x\<in>set xs. R x))"
    unfolding forE.simps
  proof (rule adds_bindE)
    show "adds vals (f x) (R x)" using Cons.prems(1) by simp
    show "adds vals (forE xs f) (\<Union>x\<in>set xs. R x)" using Cons.prems by (intro Cons.IH) auto
    show "R x \<inter> (\<Union>x\<in>set xs. R x) = {}" using Cons.prems(2,3) by fastforce
  qed
  then show ?case by simp
qed

lemma adds_getE: "(\<And>mp. adds vals (F mp) R) \<Longrightarrow> adds vals (bindE getE F) R"
  unfolding adds_def by (simp add: bindE_def)

lemma GetReplicationId_run:
  "\<exists>mp'. GetReplicationId g i mp = (Inr (copies g (value_in mp) i), mp') \<and> value_in mp' = value_in mp \<and>
     mp_component_instances mp' = mp_component_instances mp"
proof (cases "gm_FindImmediateChildren g ''Variable'' i")
  case Nil
  then show ?thesis by (simp add: GetReplicationId_def copies_def catchE_def returnE_def)
next
  case (Cons v vs)
  let ?mp = "mp\<lparr>mp_attribute_value_map := umap_emplace v [] (mp_attribute_value_map mp)\<rparr>"
  have v: "mapped_value v mp = (Inr (value_in mp v), ?mp)" "value_in ?mp = value_in mp"
    by (auto simp: mapped_value_def bindE_def returnE_def value_in_def umap_emplace_def umap_count_def fun_eq_iff split: option.split if_splits)
  have "is_std_exception e" if "stoi s = Inl e" for s e
    using that by (auto simp: stoi_def Let_def split: if_splits prod.splits)
  then show ?thesis using v
    by (auto simp: GetReplicationId_def copies_def Cons catchE_def bindE_def liftE_def returnE_def split: sum.splits)
qed

lemma adds_count:
  assumes "adds vals (f (copies g vals i)) R"
  shows "adds vals (bindE (GetReplicationId g i) f) R"
  unfolding adds_def
proof (intro allI impI)
  fix mp u mp' assume r: "bindE (GetReplicationId g i) f mp = (Inr u, mp')" and v: "value_in mp = vals"
  obtain mp1 where 1: "GetReplicationId g i mp = (Inr (copies g vals i), mp1)" "value_in mp1 = vals"
    "mp_component_instances mp1 = mp_component_instances mp" using GetReplicationId_run [of g i mp] v by auto
  then have "f (copies g vals i) mp1 = (Inr u, mp')" using r by (simp add: bindE_def)
  with assms 1(2,3) show "value_in mp' = vals \<and> (\<exists>new. mp_component_instances mp' = mp_component_instances mp @ new \<and>
      distinct (map instance_of new) \<and> set (map instance_of new) = R)" unfolding adds_def by metis
qed

section \<open>One copy of an assembly\<close>

lemma adds_components:
  assumes "distinct cs"
  shows "adds vals (GenerateComponentReplications a cs) ((\<lambda>c. (c, Inr (assembly_indices a))) ` set cs)"
proof -
  have one: "adds vals (modifyE (\<lambda>mp. mp\<lparr>mp_component_instances := mp_component_instances mp @
       [\<lparr>cr_component_instance_id = c, cr_parent = a, cr_dangling = False\<rparr>]\<rparr>)) {(c, Inr (assembly_indices a))}" for c
    by (auto simp: adds_def value_in_def fun_eq_iff instance_of_def GetReplicationIndices_def)
  have "adds vals (GenerateComponentReplications a cs) (\<Union>c\<in>set cs. {(c, Inr (assembly_indices a))})"
    unfolding GenerateComponentReplications_def by (rule adds_forE [OF one assms]) auto
  moreover have "(\<Union>c\<in>set cs. {(c, Inr (assembly_indices a))}) = (\<lambda>c. (c, Inr (assembly_indices a))) ` set cs" by auto
  ultimately show ?thesis by metis
qed

definition below_copy :: "Graphml \<Rightarrow> (string \<Rightarrow> string) \<Rightarrow> int list \<Rightarrow> string \<Rightarrow> (string \<times> (exn + int list)) set" where
  "below_copy g vals pre b = {(c, Inr (pre @ is)) | c is. replica g vals b is c}"

definition in_copy :: "Graphml \<Rightarrow> (string \<Rightarrow> string) \<Rightarrow> int list \<Rightarrow> string \<Rightarrow> (string \<times> (exn + int list)) set" where
  "in_copy g vals pre a = (\<Union>b\<in>set (gm_FindImmediateChildren g ''ComponentAssembly'' a). below_copy g vals pre b) \<union>
     (\<lambda>c. (c, Inr pre)) ` set (gm_FindImmediateChildren g ''ComponentInstance'' a)"

lemma adds_copy:
  assumes "children_ok g"
    and ih: "\<And>b. adds vals (GenerateReplications g limit (Assembly_ctor (gm_GetDataValue g b ''label'') b (Some a))) (below_copy g vals (assembly_indices a) b)"
  shows "adds vals (bindE (forE (gm_FindImmediateChildren g ''ComponentAssembly'' i) (\<lambda>b.
        GenerateReplications g limit (Assembly_ctor (gm_GetDataValue g b ''label'') b (Some a))))
      (\<lambda>_. GenerateComponentReplications a (gm_FindImmediateChildren g ''ComponentInstance'' i))) (in_copy g vals (assembly_indices a) i)"
  unfolding in_copy_def
proof (rule adds_bindE)
  have d: "distinct (gm_FindImmediateChildren g k i)" for k using assms(1) by (simp add: children_ok_def)
  show "adds vals (forE (gm_FindImmediateChildren g ''ComponentAssembly'' i) (\<lambda>b.
        GenerateReplications g limit (Assembly_ctor (gm_GetDataValue g b ''label'') b (Some a))))
      (\<Union>b\<in>set (gm_FindImmediateChildren g ''ComponentAssembly'' i). below_copy g vals (assembly_indices a) b)"
  proof (rule adds_forE [OF ih d])
    fix x y :: string assume "x \<noteq> y"
    then show "below_copy g vals (assembly_indices a) x \<inter> below_copy g vals (assembly_indices a) y = {}"
      by (auto simp: below_copy_def dest!: replica_parent [OF assms(1)])
  qed
  show "adds vals (GenerateComponentReplications a (gm_FindImmediateChildren g ''ComponentInstance'' i))
      ((\<lambda>c. (c, Inr (assembly_indices a))) ` set (gm_FindImmediateChildren g ''ComponentInstance'' i))"
    by (rule adds_components [OF d])
  show "(\<Union>b\<in>set (gm_FindImmediateChildren g ''ComponentAssembly'' i). below_copy g vals (assembly_indices a) b) \<inter>
      (\<lambda>c. (c, Inr (assembly_indices a))) ` set (gm_FindImmediateChildren g ''ComponentInstance'' i) = {}"
    using replica_nonempty by (fastforce simp: below_copy_def)
qed

lemma below_copy_copies:
  "(\<Union>i\<in>{0..<copies g vals b}. in_copy g vals (pre @ [i]) b) = below_copy g vals pre b"
proof (rule set_eqI, rule iffI)
  fix x assume "x \<in> (\<Union>i\<in>{0..<copies g vals b}. in_copy g vals (pre @ [i]) b)"
  then obtain i where i: "0 \<le> i" "i < copies g vals b" "x \<in> in_copy g vals (pre @ [i]) b" by auto
  from i(3) consider b' c "is" where "b' \<in> set (gm_FindImmediateChildren g ''ComponentAssembly'' b)" "replica g vals b' is c"
      "x = (c, Inr ((pre @ [i]) @ is))"
    | c where "c \<in> set (gm_FindImmediateChildren g ''ComponentInstance'' b)" "x = (c, Inr (pre @ [i]))"
    unfolding in_copy_def below_copy_def by blast
  then show "x \<in> below_copy g vals pre b"
  proof cases
    case 1
    then show ?thesis using replica.below [OF i(1,2)] unfolding below_copy_def by auto
  next
    case 2
    then show ?thesis using replica.here [OF i(1,2)] unfolding below_copy_def by blast
  qed
next
  fix x assume "x \<in> below_copy g vals pre b"
  then obtain c "is" where x: "x = (c, Inr (pre @ is))" "replica g vals b is c" unfolding below_copy_def by blast
  from x(2) show "x \<in> (\<Union>i\<in>{0..<copies g vals b}. in_copy g vals (pre @ [i]) b)"
  proof cases
    case (here i)
    then show ?thesis using x(1) unfolding in_copy_def by auto
  next
    case (below i b' js)
    then have "x \<in> below_copy g vals (pre @ [i]) b'" using x(1) unfolding below_copy_def by auto
    then show ?thesis using below unfolding in_copy_def by auto
  qed
qed

lemma in_copy_disjoint: "i \<noteq> j \<Longrightarrow> in_copy g vals (pre @ [i]) a \<inter> in_copy g vals (pre @ [j]) a = {}"
  by (auto simp: in_copy_def below_copy_def)

lemma upto_first: "0 < n \<Longrightarrow> set [0..n - 1] = {0..<n}" for n :: int
  by auto

text \<open>The first copy and the loop over the others are one loop.\<close>

lemma GenerateReplications_Suc:
  assumes "as_parent a = Some p"
  shows "GenerateReplications g (Suc limit) a = bindE (GetReplicationId g (as_assembly_id a)) (\<lambda>n.
     whenE (0 < n) (bindE (forE (gm_FindImmediateChildren g ''ComponentAssembly'' (as_assembly_id a)) (\<lambda>b.
        GenerateReplications g limit (Assembly_ctor (gm_GetDataValue g b ''label'') b (Some (SetReplicationIndex 0 (SetReplicationCount n a)))))) (\<lambda>_.
      bindE (GenerateComponentReplications (SetReplicationIndex 0 (SetReplicationCount n a)) (gm_FindImmediateChildren g ''ComponentInstance'' (as_assembly_id a))) (\<lambda>_.
      forE [1..n - 1] (\<lambda>i. bindE getE (\<lambda>mp.
        bindE (forE (gm_FindImmediateChildren g ''ComponentAssembly'' (as_assembly_id a)) (\<lambda>b.
        GenerateReplications g limit (Assembly_ctor (gm_GetDataValue g b ''label'') b (Some (SetReplicationIndex i (SetReplicationCount n a)))))) (\<lambda>_.
        GenerateComponentReplications (SetReplicationIndex i (SetReplicationCount n a)) (gm_FindImmediateChildren g ''ComponentInstance'' (as_assembly_id a)))))))))"
proof -
  have u: "(\<lambda>_. returnE ()) = (returnE :: unit \<Rightarrow> (ModelParser, unit) em)" by (rule ext) simp
  obtain name i c x where a: "a = Assembly name i c x (Some p)" using assms by (cases a) auto
  show ?thesis
    unfolding a by (simp add: Let_def SetReplicationIndex_def SetReplicationCount_def Assembly_copy_def whenE_def u cong del: if_weak_cong)
qed

lemma adds_GenerateReplications:
  assumes "children_ok g"
  shows "adds vals (GenerateReplications g limit (Assembly_ctor name b (Some p))) (below_copy g vals (assembly_indices p) b)"
proof (induction limit arbitrary: name b p)
  case 0
  then show ?case by (simp add: adds_def throwE_def)
next
  case (Suc limit)
  let ?n = "copies g vals b" and ?a = "Assembly_ctor name b (Some p)"
  define copy where "copy i = SetReplicationIndex i (SetReplicationCount ?n ?a)" for i
  have indices: "assembly_indices (copy i) = assembly_indices p @ [i]" for i
    by (simp add: copy_def SetReplicationIndex_def SetReplicationCount_def Assembly_ctor_def)
  have one: "adds vals (bindE (forE (gm_FindImmediateChildren g ''ComponentAssembly'' b) (\<lambda>b.
        GenerateReplications g limit (Assembly_ctor (gm_GetDataValue g b ''label'') b (Some (copy i)))))
      (\<lambda>_. GenerateComponentReplications (copy i) (gm_FindImmediateChildren g ''ComponentInstance'' b)))
      (in_copy g vals (assembly_indices p @ [i]) b)" for i
    using adds_copy [OF assms Suc.IH, where a = "copy i" and i = b] by (simp add: indices)
  have rest: "adds vals (forE [1..?n - 1] (\<lambda>i. bindE getE (\<lambda>mp. bindE (forE (gm_FindImmediateChildren g ''ComponentAssembly'' b) (\<lambda>b.
        GenerateReplications g limit (Assembly_ctor (gm_GetDataValue g b ''label'') b (Some (copy i)))))
      (\<lambda>_. GenerateComponentReplications (copy i) (gm_FindImmediateChildren g ''ComponentInstance'' b)))))
      (\<Union>i\<in>set [1..?n - 1]. in_copy g vals (assembly_indices p @ [i]) b)"
    by (rule adds_forE) (auto intro: adds_getE one simp: in_copy_disjoint)
  have "adds vals (bindE (bindE (forE (gm_FindImmediateChildren g ''ComponentAssembly'' b) (\<lambda>b.
        GenerateReplications g limit (Assembly_ctor (gm_GetDataValue g b ''label'') b (Some (copy 0)))))
      (\<lambda>_. GenerateComponentReplications (copy 0) (gm_FindImmediateChildren g ''ComponentInstance'' b)))
     (\<lambda>_. forE [1..?n - 1] (\<lambda>i. bindE getE (\<lambda>mp. bindE (forE (gm_FindImmediateChildren g ''ComponentAssembly'' b) (\<lambda>b.
        GenerateReplications g limit (Assembly_ctor (gm_GetDataValue g b ''label'') b (Some (copy i)))))
      (\<lambda>_. GenerateComponentReplications (copy i) (gm_FindImmediateChildren g ''ComponentInstance'' b))))))
     (in_copy g vals (assembly_indices p @ [0]) b \<union> (\<Union>i\<in>set [1..?n - 1]. in_copy g vals (assembly_indices p @ [i]) b))"
  proof (rule adds_bindE [OF one rest])
    have "in_copy g vals (assembly_indices p @ [0]) b \<inter> in_copy g vals (assembly_indices p @ [i]) b = {}" if "i \<in> set [1..?n - 1]" for i
      using that by (intro in_copy_disjoint) auto
    then show "in_copy g vals (assembly_indices p @ [0]) b \<inter> (\<Union>i\<in>set [1..?n - 1]. in_copy g vals (assembly_indices p @ [i]) b) = {}" by blast
  qed
  moreover have "in_copy g vals (assembly_indices p @ [0]) b \<union> (\<Union>i\<in>set [1..?n - 1]. in_copy g vals (assembly_indices p @ [i]) b) =
      below_copy g vals (assembly_indices p) b" if "0 < ?n"
  proof -
    have "{0..<?n} = insert 0 (set [1..?n - 1])" using that by auto
    then show ?thesis unfolding below_copy_copies [symmetric] by simp
  qed
  moreover have "below_copy g vals (assembly_indices p) b = {}" if "\<not> 0 < ?n"
    unfolding below_copy_copies [symmetric] using that by simp
  ultimately have "adds vals (whenE (0 < ?n) (bindE (bindE (forE (gm_FindImmediateChildren g ''ComponentAssembly'' b) (\<lambda>b.
        GenerateReplications g limit (Assembly_ctor (gm_GetDataValue g b ''label'') b (Some (copy 0)))))
      (\<lambda>_. GenerateComponentReplications (copy 0) (gm_FindImmediateChildren g ''ComponentInstance'' b)))
     (\<lambda>_. forE [1..?n - 1] (\<lambda>i. bindE getE (\<lambda>mp. bindE (forE (gm_FindImmediateChildren g ''ComponentAssembly'' b) (\<lambda>b.
        GenerateReplications g limit (Assembly_ctor (gm_GetDataValue g b ''label'') b (Some (copy i)))))
      (\<lambda>_. GenerateComponentReplications (copy i) (gm_FindImmediateChildren g ''ComponentInstance'' b)))))))
      (below_copy g vals (assembly_indices p) b)"
    by (cases "0 < ?n") (simp_all add: whenE_def adds_returnE)
  moreover have "as_parent ?a = Some p" "as_assembly_id ?a = b" by (simp_all add: Assembly_ctor_def)
  ultimately show ?case
    unfolding GenerateReplications_Suc [OF \<open>as_parent ?a = Some p\<close>] \<open>as_assembly_id ?a = b\<close>
    by (intro adds_count) (simp add: bindE_assoc copy_def)
qed

text \<open>The topmost assembly, of which there is one copy.\<close>

lemma GenerateReplications_top:
  assumes "copies g vals i = 1" and "value_in mp = vals"
    and "GenerateReplications g (Suc limit) (Assembly_ctor name i None) mp = (Inr u, mp')"
  shows "\<exists>mp1. value_in mp1 = vals \<and> mp_component_instances mp1 = mp_component_instances mp \<and>
     bindE (forE (gm_FindImmediateChildren g ''ComponentAssembly'' i) (\<lambda>b.
        GenerateReplications g limit (Assembly_ctor (gm_GetDataValue g b ''label'') b (Some (Assembly name i 1 0 None)))))
      (\<lambda>_. GenerateComponentReplications (Assembly name i 1 0 None) (gm_FindImmediateChildren g ''ComponentInstance'' i)) mp1 = (Inr u, mp')"
proof -
  obtain mp1 where 1: "GetReplicationId g i mp = (Inr 1, mp1)" "value_in mp1 = vals"
    "mp_component_instances mp1 = mp_component_instances mp" using GetReplicationId_run [of g i mp] assms(1,2) by auto
  have u: "(\<lambda>_. returnE ()) = (returnE :: unit \<Rightarrow> (ModelParser, unit) em)" by (rule ext) simp
  have "GenerateReplications g (Suc limit) (Assembly_ctor name i None) mp =
     bindE (forE (gm_FindImmediateChildren g ''ComponentAssembly'' i) (\<lambda>b.
        GenerateReplications g limit (Assembly_ctor (gm_GetDataValue g b ''label'') b (Some (Assembly name i 1 0 None)))))
      (\<lambda>_. GenerateComponentReplications (Assembly name i 1 0 None) (gm_FindImmediateChildren g ''ComponentInstance'' i)) mp1"
    by (simp add: Assembly_ctor_def Let_def run_bindE_Inr [where m = "GetReplicationId g i" and s = mp, OF 1(1)] whenE_def
        SetReplicationCount_def SetReplicationIndex_def u)
  then show ?thesis using 1 assms(3) by auto
qed

lemma replica_root:
  "copies g vals i = 1 \<Longrightarrow> replica g vals i (0 # is) c \<longleftrightarrow>
     (is = [] \<and> c \<in> set (gm_FindImmediateChildren g ''ComponentInstance'' i)) \<or>
     (\<exists>b\<in>set (gm_FindImmediateChildren g ''ComponentAssembly'' i). replica g vals b is c)"
  by (auto elim!: replica_ConsE intro: replica.intros)

lemma in_copy_root:
  assumes "copies g vals i = 1"
  shows "in_copy g vals [] i = {(c, Inr is) | c is. replica g vals i (0 # is) c}"
  unfolding replica_root [OF assms] in_copy_def below_copy_def by auto

lemma replicas_of_root:
  assumes "children_ok g" and "copies g (value_in mp) root = 1" and "mp_component_instances mp = []"
    and "GenerateReplications g limit (Assembly_ctor name root None) mp = (Inr u, mp')"
  shows "distinct (map instance_of (mp_component_instances mp'))"
    and "set (map instance_of (mp_component_instances mp')) = {(c, Inr is) | c is. replica g (value_in mp) root (0 # is) c}"
proof -
  have "distinct (map instance_of (mp_component_instances mp')) \<and>
    set (map instance_of (mp_component_instances mp')) = {(c, Inr is) | c is. replica g (value_in mp) root (0 # is) c}"
  proof (cases limit)
  case 0
  then show ?thesis using assms(4) by (simp add: throwE_def)
next
  case (Suc n)
  let ?t = "Assembly name root 1 0 None"
  obtain mp1 where 1: "value_in mp1 = value_in mp" "mp_component_instances mp1 = []"
    "bindE (forE (gm_FindImmediateChildren g ''ComponentAssembly'' root) (\<lambda>b.
        GenerateReplications g n (Assembly_ctor (gm_GetDataValue g b ''label'') b (Some ?t))))
      (\<lambda>_. GenerateComponentReplications ?t (gm_FindImmediateChildren g ''ComponentInstance'' root)) mp1 = (Inr u, mp')"
    using GenerateReplications_top [OF assms(2) refl assms(4) [unfolded Suc]] assms(3) by auto
  have "adds (value_in mp) (bindE (forE (gm_FindImmediateChildren g ''ComponentAssembly'' root) (\<lambda>b.
        GenerateReplications g n (Assembly_ctor (gm_GetDataValue g b ''label'') b (Some ?t))))
      (\<lambda>_. GenerateComponentReplications ?t (gm_FindImmediateChildren g ''ComponentInstance'' root)))
     (in_copy g (value_in mp) [] root)"
    using adds_copy [OF assms(1) adds_GenerateReplications [OF assms(1)], where a = ?t and limit = n and vals = "value_in mp" and i = root] by simp
  from this [unfolded adds_def, rule_format, OF 1(3,1)] 1(2)
  have "distinct (map instance_of (mp_component_instances mp'))"
      "set (map instance_of (mp_component_instances mp')) = in_copy g (value_in mp) [] root"
    by (metis append_Nil)+
  moreover have "in_copy g (value_in mp) [] root = {(c, Inr is) | c is. replica g (value_in mp) root (0 # is) c}"
    unfolding in_copy_root [OF assms(2)] by (rule refl)
  ultimately show ?thesis by simp
qed
  then show "distinct (map instance_of (mp_component_instances mp'))"
    and "set (map instance_of (mp_component_instances mp')) = {(c, Inr is) | c is. replica g (value_in mp) root (0 # is) c}" by simp_all
qed

section \<open>The order\<close>

text \<open>The components in the order in which they are made: for one copy of an assembly after the other, first
  what the assemblies in it make and then the components in it.\<close>

abbreviation listed :: "Graphml \<Rightarrow> (string \<Rightarrow> int list \<Rightarrow> (string \<times> (exn + int list)) list) \<Rightarrow> int list \<Rightarrow> string \<Rightarrow>
    (string \<times> (exn + int list)) list" where
  "listed g rec is a \<equiv> concat (map (\<lambda>b. rec b is) (gm_FindImmediateChildren g ''ComponentAssembly'' a)) @
     map (\<lambda>c. (c, Inr is)) (gm_FindImmediateChildren g ''ComponentInstance'' a)"

primrec replicas :: "Graphml \<Rightarrow> (string \<Rightarrow> string) \<Rightarrow> nat \<Rightarrow> string \<Rightarrow> int list \<Rightarrow> (string \<times> (exn + int list)) list" where
  "replicas g vals 0 a is = []"
| "replicas g vals (Suc n) a is =
     concat (map (\<lambda>i. listed g (replicas g vals n) (is @ [i]) a) [0..copies g vals a - 1])"

definition appends :: "(string \<Rightarrow> string) \<Rightarrow> (ModelParser, unit) em \<Rightarrow> (string \<times> (exn + int list)) list \<Rightarrow> bool" where
  "appends vals m L \<longleftrightarrow> (\<forall>mp u mp'. m mp = (Inr u, mp') \<longrightarrow> value_in mp = vals \<longrightarrow> value_in mp' = vals \<and>
     map instance_of (mp_component_instances mp') = map instance_of (mp_component_instances mp) @ L)"

lemma appendsI:
  "(\<And>mp mp'. m mp = (Inr (), mp') \<Longrightarrow> value_in mp = vals \<Longrightarrow> value_in mp' = vals \<and>
     map instance_of (mp_component_instances mp') = map instance_of (mp_component_instances mp) @ L) \<Longrightarrow> appends vals m L"
  by (simp add: appends_def)

lemma appendsD:
  assumes "appends vals m L" and "m mp = (Inr u, mp')" and "value_in mp = vals"
  shows "value_in mp' = vals"
    and "map instance_of (mp_component_instances mp') = map instance_of (mp_component_instances mp) @ L"
  using assms unfolding appends_def by blast+

lemma appends_returnE: "appends vals (returnE ()) []"
  by (rule appendsI) (simp add: returnE_def)

lemma appends_bindE:
  assumes "appends vals m L1" and "appends vals (f ()) L2" shows "appends vals (bindE m f) (L1 @ L2)"
proof (rule appendsI)
  fix mp mp' assume "bindE m f mp = (Inr (), mp')" and v: "value_in mp = vals"
  then obtain mp1 where r: "m mp = (Inr (), mp1)" "f () mp1 = (Inr (), mp')" by (auto elim: bindE_InrD)
  show "value_in mp' = vals \<and> map instance_of (mp_component_instances mp') = map instance_of (mp_component_instances mp) @ L1 @ L2"
    using appendsD [OF assms(1) r(1) v] appendsD [OF assms(2) r(2)] by simp
qed

lemma appends_forE:
  assumes "\<And>x. x \<in> set xs \<Longrightarrow> appends vals (f x) (F x)" shows "appends vals (forE xs f) (concat (map F xs))"
  using assms by (induction xs) (auto intro: appends_returnE appends_bindE)

lemma appends_getE: "(\<And>mp. appends vals (F mp) L) \<Longrightarrow> appends vals (bindE getE F) L"
  unfolding appends_def by (simp add: bindE_def)

lemma appends_count:
  assumes "appends vals (f (copies g vals i)) L" shows "appends vals (bindE (GetReplicationId g i) f) L"
proof (rule appendsI)
  fix mp mp' assume r: "bindE (GetReplicationId g i) f mp = (Inr (), mp')" and v: "value_in mp = vals"
  obtain mp1 where 1: "GetReplicationId g i mp = (Inr (copies g vals i), mp1)" "value_in mp1 = vals"
    "mp_component_instances mp1 = mp_component_instances mp" using GetReplicationId_run [of g i mp] v by auto
  then have "f (copies g vals i) mp1 = (Inr (), mp')" using r by (simp add: bindE_def)
  from appendsD [OF assms this 1(2)] 1(3)
  show "value_in mp' = vals \<and> map instance_of (mp_component_instances mp') = map instance_of (mp_component_instances mp) @ L"
    by simp
qed

lemma appends_copy:
  assumes "\<And>b. appends vals (GenerateReplications g limit (Assembly_ctor (gm_GetDataValue g b ''label'') b (Some a)))
      (replicas g vals limit b (assembly_indices a))"
  shows "appends vals (bindE (forE (gm_FindImmediateChildren g ''ComponentAssembly'' i) (\<lambda>b.
        GenerateReplications g limit (Assembly_ctor (gm_GetDataValue g b ''label'') b (Some a))))
      (\<lambda>_. GenerateComponentReplications a (gm_FindImmediateChildren g ''ComponentInstance'' i)))
    (listed g (replicas g vals limit) (assembly_indices a) i)"
proof (rule appends_bindE)
  have one: "appends vals (modifyE (\<lambda>mp. mp\<lparr>mp_component_instances := mp_component_instances mp @
       [\<lparr>cr_component_instance_id = c, cr_parent = a, cr_dangling = False\<rparr>]\<rparr>)) [(c, Inr (assembly_indices a))]" for c
    by (rule appendsI) (auto simp: value_in_def fun_eq_iff instance_of_def GetReplicationIndices_def)
  have "appends vals (GenerateComponentReplications a cs) (concat (map (\<lambda>c. [(c, Inr (assembly_indices a))]) cs))" for cs
    unfolding GenerateComponentReplications_def by (rule appends_forE [OF one])
  moreover have "concat (map (\<lambda>c. [(c, Inr (assembly_indices a))]) cs) = map (\<lambda>c. (c, Inr (assembly_indices a))) cs"
    for cs :: "string list" by (induction cs) simp_all
  ultimately show "appends vals (GenerateComponentReplications a (gm_FindImmediateChildren g ''ComponentInstance'' i))
      (map (\<lambda>c. (c, Inr (assembly_indices a))) (gm_FindImmediateChildren g ''ComponentInstance'' i))" by metis
qed (rule appends_forE [OF assms])

lemma upto_from_0: "0 < n \<Longrightarrow> [0..n - 1] = 0 # [1..n - 1]" for n :: int
  by (simp add: upto.simps [of 0])

lemma appends_GenerateReplications:
  "appends vals (GenerateReplications g limit (Assembly_ctor name b (Some p))) (replicas g vals limit b (assembly_indices p))"
proof (induction limit arbitrary: name b p)
  case 0
  then show ?case by (simp add: appends_def throwE_def)
next
  case (Suc limit)
  let ?n = "copies g vals b" and ?a = "Assembly_ctor name b (Some p)"
  let ?copy = "\<lambda>i. SetReplicationIndex i (SetReplicationCount ?n ?a)"
  let ?L = "\<lambda>i. listed g (replicas g vals limit) (assembly_indices p @ [i]) b"
  have p: "as_parent ?a = Some p" "as_assembly_id ?a = b" by (simp_all add: Assembly_ctor_def)
  have one: "appends vals (bindE (forE (gm_FindImmediateChildren g ''ComponentAssembly'' b) (\<lambda>b.
        GenerateReplications g limit (Assembly_ctor (gm_GetDataValue g b ''label'') b (Some (?copy i)))))
      (\<lambda>_. GenerateComponentReplications (?copy i) (gm_FindImmediateChildren g ''ComponentInstance'' b))) (?L i)" for i
    using appends_copy [OF Suc.IH, where a = "?copy i" and i = b]
    by (simp add: SetReplicationIndex_def SetReplicationCount_def Assembly_ctor_def)
  have "appends vals (bindE (bindE (forE (gm_FindImmediateChildren g ''ComponentAssembly'' b) (\<lambda>b.
        GenerateReplications g limit (Assembly_ctor (gm_GetDataValue g b ''label'') b (Some (?copy 0)))))
      (\<lambda>_. GenerateComponentReplications (?copy 0) (gm_FindImmediateChildren g ''ComponentInstance'' b)))
     (\<lambda>_. forE [1..?n - 1] (\<lambda>i. bindE getE (\<lambda>mp. bindE (forE (gm_FindImmediateChildren g ''ComponentAssembly'' b) (\<lambda>b.
        GenerateReplications g limit (Assembly_ctor (gm_GetDataValue g b ''label'') b (Some (?copy i)))))
      (\<lambda>_. GenerateComponentReplications (?copy i) (gm_FindImmediateChildren g ''ComponentInstance'' b))))))
     (?L 0 @ concat (map ?L [1..?n - 1]))"
    by (intro appends_bindE [OF one] appends_forE appends_getE one)
  then have "appends vals (whenE (0 < ?n) (bindE (bindE (forE (gm_FindImmediateChildren g ''ComponentAssembly'' b) (\<lambda>b.
        GenerateReplications g limit (Assembly_ctor (gm_GetDataValue g b ''label'') b (Some (?copy 0)))))
      (\<lambda>_. GenerateComponentReplications (?copy 0) (gm_FindImmediateChildren g ''ComponentInstance'' b)))
     (\<lambda>_. forE [1..?n - 1] (\<lambda>i. bindE getE (\<lambda>mp. bindE (forE (gm_FindImmediateChildren g ''ComponentAssembly'' b) (\<lambda>b.
        GenerateReplications g limit (Assembly_ctor (gm_GetDataValue g b ''label'') b (Some (?copy i)))))
      (\<lambda>_. GenerateComponentReplications (?copy i) (gm_FindImmediateChildren g ''ComponentInstance'' b)))))))
     (concat (map ?L [0..?n - 1]))"
    by (cases "0 < ?n") (simp_all add: upto_from_0 whenE_def appends_returnE)
  then show ?case
    unfolding GenerateReplications_Suc [OF p(1)] p(2) replicas.simps by (intro appends_count) (simp add: bindE_assoc)
qed

lemma order_of_root:
  assumes "copies g (value_in mp) root = 1" and "mp_component_instances mp = []"
    and "GenerateReplications g (Suc limit) (Assembly_ctor name root None) mp = (Inr u, mp')"
  shows "map instance_of (mp_component_instances mp') = listed g (replicas g (value_in mp) limit) [] root"
proof -
  let ?t = "Assembly name root 1 0 None"
  obtain mp1 where 1: "value_in mp1 = value_in mp" "mp_component_instances mp1 = []"
    "bindE (forE (gm_FindImmediateChildren g ''ComponentAssembly'' root) (\<lambda>b.
        GenerateReplications g limit (Assembly_ctor (gm_GetDataValue g b ''label'') b (Some ?t))))
      (\<lambda>_. GenerateComponentReplications ?t (gm_FindImmediateChildren g ''ComponentInstance'' root)) mp1 = (Inr u, mp')"
    using GenerateReplications_top [OF assms(1) refl assms(3)] assms(2) by auto
  have "appends (value_in mp) (GenerateReplications g limit (Assembly_ctor (gm_GetDataValue g b ''label'') b (Some ?t)))
      (replicas g (value_in mp) limit b (assembly_indices ?t))" for b by (rule appends_GenerateReplications)
  from appendsD(2) [OF appends_copy [OF this] 1(3,1)] 1(2) show ?thesis by simp
qed

section \<open>Unique ids\<close>

lemma to_string_no_underscore: "CHR ''_'' \<notin> set (to_string i)"
proof -
  have "CHR ''_'' \<notin> set (digits_of n)" for n using digits_of_digits [of "CHR ''_''" n] by (auto simp: is_digit_def)
  then show ?thesis by (auto simp: to_string_def)
qed

lemma GetUniqueSuffix_Cons: "GetUniqueSuffix (i # is) = CHR ''_'' # to_string i @ GetUniqueSuffix is"
  by (simp add: GetUniqueSuffix_def)

lemma before_suffix:
  assumes "CHR ''_'' \<notin> set xs"
  shows "takeWhile (\<lambda>c. c \<noteq> CHR ''_'') (xs @ GetUniqueSuffix is) = xs" "dropWhile (\<lambda>c. c \<noteq> CHR ''_'') (xs @ GetUniqueSuffix is) = GetUniqueSuffix is"
proof -
  have s: "takeWhile (\<lambda>c. c \<noteq> CHR ''_'') (GetUniqueSuffix is) = []" by (cases "is") (simp_all add: GetUniqueSuffix_Cons, simp add: GetUniqueSuffix_def)
  have "takeWhile (\<lambda>c. c \<noteq> CHR ''_'') (xs @ GetUniqueSuffix is) = xs @ takeWhile (\<lambda>c. c \<noteq> CHR ''_'') (GetUniqueSuffix is)"
    by (rule takeWhile_append2) (use assms in blast)
  then show t: "takeWhile (\<lambda>c. c \<noteq> CHR ''_'') (xs @ GetUniqueSuffix is) = xs" using s by simp
  from t takeWhile_dropWhile_id [of "\<lambda>c. c \<noteq> CHR ''_''" "xs @ GetUniqueSuffix is"]
  show "dropWhile (\<lambda>c. c \<noteq> CHR ''_'') (xs @ GetUniqueSuffix is) = GetUniqueSuffix is" by simp
qed

lemma suffix_inj:
  assumes "CHR ''_'' \<notin> set c" and "CHR ''_'' \<notin> set c'" and "c @ GetUniqueSuffix is = c' @ GetUniqueSuffix js"
    and "\<And>i. i \<in> set is \<union> set js \<Longrightarrow> int_min \<le> i \<and> i \<le> int_max"
  shows "c = c' \<and> is = js"
proof -
  have c: "c = c'" using before_suffix(1) [OF assms(1), of "is"] before_suffix(1) [OF assms(2), of js] assms(3) by metis
  have "GetUniqueSuffix is = GetUniqueSuffix js" using c assms(3) by simp
  then have "is = js" using assms(4)
  proof (induction "is" arbitrary: js)
    case Nil
    then show ?case by (cases js) (simp_all add: GetUniqueSuffix_Cons, simp add: GetUniqueSuffix_def)
  next
    case (Cons i "is")
    then obtain j js' where js: "js = j # js'" by (cases js) (simp_all add: GetUniqueSuffix_Cons, simp add: GetUniqueSuffix_def)
    then have e: "to_string i @ GetUniqueSuffix is = to_string j @ GetUniqueSuffix js'" using Cons.prems(1) by (simp add: GetUniqueSuffix_Cons)
    have "to_string i = to_string j" "GetUniqueSuffix is = GetUniqueSuffix js'"
      using before_suffix [OF to_string_no_underscore, of i "is"] before_suffix [OF to_string_no_underscore, of j js'] unfolding e by simp_all
    moreover from this(1) have "i = j" using Cons.prems(2) js by (intro inj_to_string) auto
    ultimately show ?case using Cons.IH [of js'] Cons.prems(2) js by simp
  qed
  with c show ?thesis by simp
qed

lemma copies_range: "copies g vals i \<le> int_max"
proof (cases "gm_FindImmediateChildren g ''Variable'' i")
  case Nil
  then show ?thesis by (simp add: copies_def int_max_def)
next
  case (Cons v vs)
  show ?thesis
  proof (cases "stoi (vals v)")
    case (Inl e)
    then show ?thesis by (simp add: copies_def Cons int_max_def)
  next
    case (Inr n)
    then have "n \<le> int_max" by (auto simp: stoi_def Let_def split: if_splits prod.splits)
    then show ?thesis using Inr by (simp add: copies_def Cons int_max_def)
  qed
qed

lemma replica_range: "replica g vals a is c \<Longrightarrow> i \<in> set is \<Longrightarrow> int_min \<le> i \<and> i \<le> int_max"
proof (induction rule: replica.induct)
  case (here j a c)
  then show ?case using copies_range [of g vals a] by (simp add: int_min_def)
next
  case (below j a b "is" c)
  then show ?case using copies_range [of g vals a] by (auto simp: int_min_def)
qed

lemma replica_component: "replica g vals a is c \<Longrightarrow> \<exists>b. c \<in> set (gm_FindImmediateChildren g ''ComponentInstance'' b)"
  by (induction rule: replica.induct) auto

section \<open>A sample\<close>

lemma find_row: "distinct (map row_id rows) \<Longrightarrow> r \<in> set rows \<Longrightarrow> row_of rows (row_id r) = Some r"
  by (induction rows) (auto simp: row_of_def)

lemma children_ok_rows:
  assumes "distinct (map row_id rows)"
  shows "children_ok (Graphml_of_rows rows edges)"
proof -
  have "distinct (map row_id (filter P rows))" for P using assms by (simp add: distinct_map_filter)
  then show ?thesis
    using find_row [OF assms] by (auto simp: children_ok_def Graphml_of_rows_def row_parent_of_def)
qed

lemma demo_children_ok: "children_ok demo_graphml"
  unfolding demo_graphml_def by (rule children_ok_rows) code_simp

definition demo_values :: ModelParser where
  "demo_values = (ModelParser_init ''x'')\<lparr>mp_attribute_value_map := [(''v'', ''2'')]\<rparr>"

lemma demo_replicas:
  "fst (GenerateReplications demo_graphml 2 (Assembly_ctor ''Assemblies'' ''A'' None) demo_values) = Inr ()"
  "copies demo_graphml (value_in demo_values) ''A'' = 1" "mp_component_instances demo_values = []"
  by (code_simp, code_simp, code_simp)

lemma demo_run:
  "GenerateReplications demo_graphml 2 (Assembly_ctor ''Assemblies'' ''A'' None) demo_values =
     (Inr (), snd (GenerateReplications demo_graphml 2 (Assembly_ctor ''Assemblies'' ''A'' None) demo_values))"
  using demo_replicas(1) by (simp add: prod_eq_iff)

section \<open>Properties\<close>

text \<open>
  C13. Every combination of copies has its component, in the order of the model. When no attribute gives the
  topmost assembly another number of copies than one and the nesting of assemblies is within the limit, the
  components that are made are those of the reference, each exactly once: one for each component of the model
  and each choice of a copy of every assembly around it. Their order is that of \<open>replicas\<close>: copy by copy, for
  each what the inner assemblies make, in the order of the document, and then its components in that order.
\<close>
theorem replications_are_all_combinations:
  assumes "children_ok g" and "copies g (value_in mp) root = 1" and "mp_component_instances mp = []"
    and "GenerateReplications g (Suc limit) (Assembly_ctor name root None) mp = (Inr u, mp')"
  shows "map instance_of (mp_component_instances mp') = listed g (replicas g (value_in mp) limit) [] root \<and>
    distinct (map instance_of (mp_component_instances mp')) \<and>
    set (map instance_of (mp_component_instances mp')) = {(c, Inr is) | c is. replica g (value_in mp) root (0 # is) c}"
  using replicas_of_root [OF assms] order_of_root [OF assms(2-4)] by simp

theorem replications_are_all_combinations_witness:
  "map instance_of (mp_component_instances (snd (GenerateReplications demo_graphml (Suc (Suc 0)) (Assembly_ctor ''Assemblies'' ''A'' None) demo_values))) =
     listed demo_graphml (replicas demo_graphml (value_in demo_values) (Suc 0)) [] ''A'' \<and>
   distinct (map instance_of (mp_component_instances (snd (GenerateReplications demo_graphml (Suc (Suc 0)) (Assembly_ctor ''Assemblies'' ''A'' None) demo_values)))) \<and>
   set (map instance_of (mp_component_instances (snd (GenerateReplications demo_graphml (Suc (Suc 0)) (Assembly_ctor ''Assemblies'' ''A'' None) demo_values)))) =
     {(c, Inr is) | c is. replica demo_graphml (value_in demo_values) ''A'' (0 # is) c}"
  by (rule replications_are_all_combinations [OF demo_children_ok demo_replicas(2,3) demo_run [unfolded numeral_2_eq_2]])

text \<open>
  C14. Components have different ids. When no id of a component of the model contains an underscore, the ids
  of the components that are made, which are written with the numbers of the copies behind underscores,
  are all different.
\<close>
theorem component_ids_unique:
  assumes "children_ok g" and "copies g (value_in mp) root = 1" and "mp_component_instances mp = []"
    and "GenerateReplications g limit (Assembly_ctor name root None) mp = (Inr u, mp')"
    and "\<And>a c. c \<in> set (gm_FindImmediateChildren g ''ComponentInstance'' a) \<Longrightarrow> CHR ''_'' \<notin> set c"
  shows "distinct (map GetUniqueId (mp_component_instances mp')) \<and> list_all (\<lambda>cr. \<exists>i. GetUniqueId cr = Inr i) (mp_component_instances mp')"
proof -
  let ?crs = "mp_component_instances mp'"
  note r = replicas_of_root [OF assms(1-4)]
  have i: "\<exists>c is. instance_of cr = (c, Inr is) \<and> replica g (value_in mp) root (0 # is) c \<and> GetUniqueId cr = Inr (c @ GetUniqueSuffix is)"
    if "cr \<in> set ?crs" for cr
  proof -
    have "instance_of cr \<in> set (map instance_of ?crs)" using that by simp
    then obtain c "is" where c: "instance_of cr = (c, Inr is)" "replica g (value_in mp) root (0 # is) c" unfolding r(2) by blast
    then have "GetUniqueId cr = Inr (c @ GetUniqueSuffix is)" by (simp add: instance_of_def GetUniqueId_def GetUniqueIdSuffix_def)
    with c show ?thesis by blast
  qed
  have "inj_on GetUniqueId (set ?crs)"
  proof (rule inj_onI)
    fix x y assume xy: "x \<in> set ?crs" "y \<in> set ?crs" "GetUniqueId x = GetUniqueId y"
    obtain c "is" where x: "instance_of x = (c, Inr is)" "replica g (value_in mp) root (0 # is) c" "GetUniqueId x = Inr (c @ GetUniqueSuffix is)"
      using i [OF xy(1)] by blast
    obtain d js where y: "instance_of y = (d, Inr js)" "replica g (value_in mp) root (0 # js) d" "GetUniqueId y = Inr (d @ GetUniqueSuffix js)"
      using i [OF xy(2)] by blast
    have "CHR ''_'' \<notin> set c" "CHR ''_'' \<notin> set d" using replica_component [OF x(2)] replica_component [OF y(2)] assms(5) by blast+
    then have "c = d \<and> is = js"
      using xy(3) x(3) y(3) replica_range [OF x(2)] replica_range [OF y(2)] by (intro suffix_inj) auto
    then have "instance_of x = instance_of y" using x(1) y(1) by simp
    then show "x = y" using r(1) xy(1,2) by (simp add: distinct_map inj_on_def)
  qed
  then show ?thesis using r(1) i by (auto simp: distinct_map list_all_iff)
qed

theorem component_ids_unique_witness:
  "distinct (map GetUniqueId (mp_component_instances (snd (GenerateReplications demo_graphml 2 (Assembly_ctor ''Assemblies'' ''A'' None) demo_values))))"
proof -
  have "list_all (\<lambda>r. CHR ''_'' \<notin> set (row_id r)) demo_rows" by code_simp
  then have "CHR ''_'' \<notin> set c" if "c \<in> set (gm_FindImmediateChildren demo_graphml ''ComponentInstance'' a)" for a c
    using that by (auto simp: demo_graphml_def Graphml_of_rows_def list_all_iff)
  from component_ids_unique [OF demo_children_ok demo_replicas(2,3) demo_run this] show ?thesis by simp
qed

end
