(* ===== verification/GPMatching.thy ===== *)
theory GPMatching
  imports GPReplica
begin

text \<open>
  Which replications a connection between assemblies joins. The translator compares the first few indices of
  the two replications, and computes how many from heights in the document. In terms of assemblies: the two
  must lie in the same copy of the assembly that \<open>GetSharedParent\<close> names.
\<close>

fun around :: "Assembly \<Rightarrow> Assembly list" where
  "around (Assembly n i c x None) = [Assembly n i c x None]"
| "around (Assembly n i c x (Some p)) = Assembly n i c x (Some p) # around p"

text \<open>The assemblies around a copy are those around it in the document.\<close>

fun chain_in :: "Graphml \<Rightarrow> Assembly \<Rightarrow> bool" where
  "chain_in g (Assembly n i c x None) = True"
| "chain_in g (Assembly n i c x (Some p)) = (gm_GetParentNode g i = as_assembly_id p \<and> chain_in g p)"

text \<open>\<open>GetHeightToParent\<close> counts the steps up to the first element with the given id.\<close>

definition height_law :: "Graphml \<Rightarrow> nat \<Rightarrow> bool" where
  "height_law g rounds \<longleftrightarrow> (\<forall>c n. 0 < n \<longrightarrow> n \<le> rounds \<longrightarrow> (\<forall>m\<le>n. gm_GetParentNode_depth g m c \<noteq> []) \<longrightarrow>
     (\<forall>m. 0 < m \<longrightarrow> m < n \<longrightarrow> gm_GetParentNode_depth g m c \<noteq> gm_GetParentNode_depth g n c) \<longrightarrow>
     gm_GetHeightToParent g c (gm_GetParentNode_depth g n c) = int n)"

lemma parent_depth_add: "gm_GetParentNode_depth g (m + n) c = gm_GetParentNode_depth g m (gm_GetParentNode_depth g n c)"
  by (induction n arbitrary: c) simp_all

lemma around_nonempty [simp]: "around a \<noteq> []"
  by (cases a rule: around.cases) simp_all

lemma length_around: "length (around a) = Suc (length (assembly_indices a))"
  by (induction a rule: around.induct) simp_all

lemma around_hd: "around a ! 0 = a"
  by (cases a rule: around.cases) simp_all

lemma around_nth:
  "k < length (around a) \<Longrightarrow> assembly_indices (around a ! k) = take (length (assembly_indices a) - k) (assembly_indices a)"
proof (induction a arbitrary: k rule: around.induct)
  case (2 n i c x p)
  show ?case
  proof (cases k)
    case (Suc j)
    then have "assembly_indices (around p ! j) = take (length (assembly_indices p) - j) (assembly_indices p)"
      using "2.IH" [of j] "2.prems" by simp
    then show ?thesis using Suc by simp
  qed simp
qed simp

lemma around_parent:
  "chain_in g a \<Longrightarrow> k < length (around a) \<Longrightarrow> gm_GetParentNode_depth g k (as_assembly_id a) = as_assembly_id (around a ! k)"
proof (induction a arbitrary: k rule: around.induct)
  case (2 n i c x p)
  then show ?case by (cases k) simp_all
qed simp

lemma same_way_up:
  assumes "chain_in g a" and "chain_in g b" and "as_assembly_id a = as_assembly_id b"
    and "as_assembly_id (last (around a)) = as_assembly_id (last (around b))"
    and "distinct (map as_assembly_id (around a))" and "distinct (map as_assembly_id (around b))"
  shows "length (around a) = length (around b)"
  using assms
proof (induction a arbitrary: b rule: around.induct)
  case (1 n i c x)
  show ?case
  proof (cases b rule: around.cases)
    case (2 n' i' c' x' p)
    then have "as_assembly_id (last (around p)) = i'" using "1.prems"(3,4) by simp
    then show ?thesis using "1.prems"(6) 2 by (metis around.simps(2) around_nonempty distinct.simps(2) Assembly.sel(2) last_in_set list.simps(9) image_eqI set_map)
  qed simp
next
  case (2 n i c x p)
  show ?case
  proof (cases b rule: around.cases)
    case (1 n' i' c' x')
    then have "as_assembly_id (last (around p)) = i" using "2.prems"(3,4) by simp
    then show ?thesis using "2.prems"(5) by (metis around.simps(2) around_nonempty distinct.simps(2) Assembly.sel(2) last_in_set list.simps(9) image_eqI set_map)
  next
    case b: (2 n' i' c' x' q)
    have "length (around p) = length (around q)"
    proof (rule "2.IH")
      show "chain_in g p" "chain_in g q" "as_assembly_id p = as_assembly_id q"
        using "2.prems"(1-3) b by simp_all
      show "as_assembly_id (last (around p)) = as_assembly_id (last (around q))" using "2.prems"(4) b by simp
      show "distinct (map as_assembly_id (around p))" "distinct (map as_assembly_id (around q))"
        using "2.prems"(5,6) b by simp_all
    qed
    then show ?thesis using b by simp
  qed
qed

text \<open>A port of a component in a copy of an assembly.\<close>

definition port_in :: "Graphml \<Rightarrow> string \<Rightarrow> Assembly \<Rightarrow> bool" where
  "port_in g port a \<longleftrightarrow> gm_GetParentNode_depth g 2 port = as_assembly_id a \<and> chain_in g a \<and>
     distinct (port # gm_GetParentNode g port # map as_assembly_id (around a)) \<and>
     [] \<notin> set (port # gm_GetParentNode g port # map as_assembly_id (around a))"

lemma port_height:
  assumes "height_law g rounds" and "port_in g port a" and "k < length (around a)" and "length (around a) < rounds"
  shows "gm_GetHeightToParent g port (as_assembly_id (around a ! k)) = int k + 2"
proof -
  let ?ids = "port # gm_GetParentNode g port # map as_assembly_id (around a)"
  have up: "gm_GetParentNode_depth g m port = ?ids ! m" if "m < length ?ids" for m
  proof -
    consider "m = 0" | "m = 1" | "2 \<le> m" by linarith
    then show ?thesis
    proof cases
      case 3
      define j where "j = m - 2"
      have 3: "m = j + 2" "j < length (around a)" using 3 that by (auto simp: j_def)
      then have "gm_GetParentNode_depth g m port = gm_GetParentNode_depth g j (as_assembly_id a)"
        using assms(2) parent_depth_add [of g j 2 port] by (simp add: port_in_def)
      then show ?thesis using 3 around_parent assms(2) by (simp add: port_in_def)
    qed simp_all
  qed
  have d: "distinct ?ids" "[] \<notin> set ?ids" using assms(2) by (simp_all add: port_in_def)
  let ?n = "k + 2"
  have n: "?n < length ?ids" using assms(3) by simp
  have "gm_GetHeightToParent g port (gm_GetParentNode_depth g ?n port) = int ?n"
  proof (rule assms(1) [unfolded height_law_def, rule_format])
    show "gm_GetParentNode_depth g m port \<noteq> []" if "m \<le> ?n" for m
      using up [of m] d(2) that n by (metis le_less_trans nth_mem)
    show "gm_GetParentNode_depth g m port \<noteq> gm_GetParentNode_depth g ?n port" if "m < ?n" for m
    proof -
      have m: "m < length ?ids" using that n by linarith
      have "?ids ! m \<noteq> ?ids ! ?n" using nth_eq_iff_index_eq [OF d(1) m n] that by blast
      then show ?thesis by (simp only: up [OF m] up [OF n] not_False_eq_True)
    qed
  qed (use assms(3,4) in auto)
  then show ?thesis using up [OF n] assms(3) by simp
qed

lemma around_drop: "k < length (around a) \<Longrightarrow> around (around a ! k) = drop k (around a)"
proof (induction a arbitrary: k rule: around.induct)
  case (2 n i c x p)
  then show ?case by (cases k) simp_all
qed simp

lemma chain_in_nth: "chain_in g a \<Longrightarrow> k < length (around a) \<Longrightarrow> chain_in g (around a ! k)"
proof (induction a arbitrary: k rule: around.induct)
  case (2 n i c x p)
  then show ?case by (cases k) simp_all
qed simp

lemma below_shared:
  assumes "port_in g s a" and "port_in g t b" and "k < length (around a)" and "l < length (around b)"
    and "as_assembly_id (last (around a)) = as_assembly_id (last (around b))"
    and "as_assembly_id (around a ! k) = as_assembly_id (around b ! l)"
  shows "length (assembly_indices a) - k = length (assembly_indices b) - l"
proof -
  have d: "distinct (map as_assembly_id (drop k (around a)))" "distinct (map as_assembly_id (drop l (around b)))"
    using assms(1,2) unfolding port_in_def drop_map [symmetric] by simp_all
  have "length (around (around a ! k)) = length (around (around b ! l))"
  proof (rule same_way_up)
    show "chain_in g (around a ! k)" "chain_in g (around b ! l)"
      using assms(1-4) chain_in_nth by (simp_all add: port_in_def)
    show "as_assembly_id (last (around (around a ! k))) = as_assembly_id (last (around (around b ! l)))"
      using assms(3-5) by (simp add: around_drop)
  qed (use assms(3,4,6) d in \<open>simp_all add: around_drop\<close>)
  then have "length (around a) - k = length (around b) - l" using assms(3,4) by (simp only: around_drop length_drop)
  then show ?thesis using assms(3,4) unfolding length_around by arith
qed

section \<open>A sample\<close>

lemma find_enumerate:
  "j < length xs \<Longrightarrow> (\<And>i. i < j \<Longrightarrow> xs ! i \<noteq> xs ! j) \<Longrightarrow> find (\<lambda>(d, a). a = xs ! j) (enumerate s xs) = Some (s + j, xs ! j)"
proof (induction xs arbitrary: s j)
  case (Cons x xs)
  show ?case
  proof (cases j)
    case (Suc k)
    have "x \<noteq> xs ! k" using Cons.prems(2) [of 0] Suc by simp
    moreover have "find (\<lambda>(d, a). a = xs ! k) (enumerate (Suc s) xs) = Some (Suc s + k, xs ! k)"
    proof (rule Cons.IH)
      show "xs ! i \<noteq> xs ! k" if "i < k" for i using Cons.prems(2) [of "Suc i"] Suc that by simp
    qed (use Cons.prems(1) Suc in simp)
    ultimately show ?thesis using Suc by simp
  qed simp
qed simp

lemma row_ancestors_nth:
  "(\<And>m. m \<le> n \<Longrightarrow> gm_GetParentNode_depth (Graphml_of_rows rows edges) m c \<noteq> []) \<Longrightarrow> n \<le> N \<Longrightarrow> k < n \<Longrightarrow>
   k < length (row_ancestors rows N c) \<and> row_ancestors rows N c ! k = gm_GetParentNode_depth (Graphml_of_rows rows edges) (Suc k) c"
proof (induction N arbitrary: n k c)
  case (Suc N)
  let ?g = "Graphml_of_rows rows edges"
  have p: "gm_GetParentNode ?g c = row_parent_of rows c" by (simp add: Graphml_of_rows_def)
  have ne: "row_parent_of rows c \<noteq> []" using Suc.prems(1) [of 1] Suc.prems(3) by (simp add: p)
  show ?case
  proof (cases k)
    case 0
    then show ?thesis using ne by (simp add: p Let_def)
  next
    case (Suc j)
    have "gm_GetParentNode_depth ?g m (row_parent_of rows c) \<noteq> []" if "m \<le> n - 1" for m
      using Suc.prems(1) [of "Suc m"] that Suc.prems(3) by (simp add: p)
    then have "j < length (row_ancestors rows N (row_parent_of rows c)) \<and>
        row_ancestors rows N (row_parent_of rows c) ! j = gm_GetParentNode_depth ?g (Suc j) (row_parent_of rows c)"
      using Suc.prems(2,3) Suc by (intro Suc.IH [of "n - 1"]) auto
    with Suc ne show ?thesis by (simp add: p Let_def)
  qed
qed simp

lemma height_law_rows: "height_law (Graphml_of_rows rows edges) (length rows)"
  unfolding height_law_def
proof (intro allI impI)
  let ?g = "Graphml_of_rows rows edges" and ?as = "\<lambda>c. row_ancestors rows (length rows) c"
  fix c n assume n: "0 < n" "n \<le> length rows" and up: "\<forall>m\<le>n. gm_GetParentNode_depth ?g m c \<noteq> []"
    and least: "\<forall>m. 0 < m \<longrightarrow> m < n \<longrightarrow> gm_GetParentNode_depth ?g m c \<noteq> gm_GetParentNode_depth ?g n c"
  have a: "k < length (?as c) \<and> ?as c ! k = gm_GetParentNode_depth ?g (Suc k) c" if "k < n" for k
    by (rule row_ancestors_nth [OF _ n(2) that]) (use up in blast)
  have j: "n - 1 < length (?as c)" "?as c ! (n - 1) = gm_GetParentNode_depth ?g n c" using a [of "n - 1"] n(1) by simp_all
  have "?as c ! i \<noteq> ?as c ! (n - 1)" if "i < n - 1" for i
    using a [of i] least [rule_format, of "Suc i"] that j(2) by simp
  from find_enumerate [OF j(1) this, of 1] n(1)
  have "find (\<lambda>(d, a). a = gm_GetParentNode_depth ?g n c) (enumerate 1 (?as c)) = Some (n, gm_GetParentNode_depth ?g n c)"
    unfolding j(2) by simp
  then show "gm_GetHeightToParent ?g c (gm_GetParentNode_depth ?g n c) = int n" by (simp add: Graphml_of_rows_def)
qed

lemma demo_rows_length: "length demo_rows = 13"
  by (simp add: demo_rows_def)

definition demo_top :: Assembly where
  "demo_top = Assembly ''Assemblies'' ''A'' 1 0 None"

definition demo_pair :: Assembly where
  "demo_pair = Assembly ''Pair'' ''B'' 2 1 (Some demo_top)"

section \<open>Properties\<close>

text \<open>
  Take a document in which \<open>GetHeightToParent\<close> counts the steps up to an element and \<open>GetSharedParent\<close> names
  an assembly around both ports. Then a connection between assemblies joins the ports of two replications
  exactly when these lie in the same copy of that assembly, however deep each of them lies below it; the
  assertion in the code holds, and no index is out of range.
\<close>
theorem connections_respect_shared_copy:
  assumes "height_law g rounds" and "port_in g s a" and "port_in g t b"
    and "length (around a) < rounds" and "length (around b) < rounds"
    and "as_assembly_id (last (around a)) = as_assembly_id (last (around b))"
    and "A \<in> set (around a)" and "as_assembly_id A = gm_GetSharedParent g s t"
    and "B \<in> set (around b)" and "as_assembly_id B = gm_GetSharedParent g s t"
  shows "matching_parents g \<lparr>ac_source_id = s, ac_target_id = t, ac_inter_assembly = True\<rparr> (assembly_indices a) (assembly_indices b) =
    Inr (assembly_indices A = assembly_indices B)"
proof -
  obtain k where k: "k < length (around a)" "A = around a ! k" using assms(7) by (metis in_set_conv_nth)
  obtain l where l: "l < length (around b)" "B = around b ! l" using assms(9) by (metis in_set_conv_nth)
  have h: "gm_GetHeightToParent g s (gm_GetSharedParent g s t) = int k + 2" "gm_GetHeightToParent g t (gm_GetSharedParent g s t) = int l + 2"
    using port_height [OF assms(1,2) k(1) assms(4)] port_height [OF assms(1,3) l(1) assms(5)] k(2) l(2) assms(8,10) by simp_all
  have depth: "length (assembly_indices a) - k = length (assembly_indices b) - l"
    using below_shared [OF assms(2,3) k(1) l(1)] assms(6,8,10) k(2) l(2) by simp
  have le: "k \<le> length (assembly_indices a)" "l \<le> length (assembly_indices b)" using k(1) l(1) by (simp_all add: length_around)
  have i: "assembly_indices A = take (length (assembly_indices a) - k) (assembly_indices a)"
      "assembly_indices B = take (length (assembly_indices a) - k) (assembly_indices b)"
    using around_nth [OF k(1)] around_nth [OF l(1)] k(2) l(2) depth by simp_all
  have j: "int (length (assembly_indices a)) - (int k + 2 - 2) = int (length (assembly_indices a) - k)"
    "int (length (assembly_indices b)) - (int l + 2 - 2) = int (length (assembly_indices a) - k)"
    using depth le by linarith+
  have le': "length (assembly_indices a) - k \<le> length (assembly_indices b)" using depth by linarith
  show ?thesis unfolding matching_parents_def Let_def i AssemblyConnection.select_convs h j using le' by simp
qed

theorem connections_respect_shared_copy_witness:
  "matching_parents demo_graphml \<lparr>ac_source_id = ''p'', ac_target_id = ''t'', ac_inter_assembly = True\<rparr>
     (assembly_indices demo_pair) (assembly_indices demo_top) = Inr (assembly_indices demo_top = assembly_indices demo_top)"
proof (rule connections_respect_shared_copy)
  show "height_law demo_graphml 13" unfolding demo_graphml_def using height_law_rows [of demo_rows demo_edges] demo_rows_length by metis
  show "port_in demo_graphml ''p'' demo_pair" "port_in demo_graphml ''t'' demo_top" by code_simp+
  show "as_assembly_id demo_top = gm_GetSharedParent demo_graphml ''p'' ''t''" by code_simp
  then show "as_assembly_id demo_top = gm_GetSharedParent demo_graphml ''p'' ''t''" .
qed (simp_all add: demo_pair_def demo_top_def)

end
