(* ===== verification/GPTypes.thy ===== *)
theory GPTypes
  imports GPDemo EMAttribute
begin

text \<open>
  The message that the translator builds is well typed: an attribute carries the one field that its kind
  names, with a value that fits, and stands under its own name; kinds are those of the schema; a component
  has as many indices as it has names of assemblies. The environment manager relies on it.
\<close>

section \<open>Results of computations\<close>

definition gives :: "('a \<Rightarrow> bool) \<Rightarrow> ('s, 'a) em \<Rightarrow> bool" where
  "gives Q m \<longleftrightarrow> (\<forall>s a s'. m s = (Inr a, s') \<longrightarrow> Q a)"

named_theorems given \<open>rules of the form: what a computation returns satisfies a predicate\<close>

lemma givesD: "gives Q m \<Longrightarrow> m s = (Inr a, s') \<Longrightarrow> Q a"
  by (auto simp: gives_def)

lemma gives_returnE [given]: "Q a \<Longrightarrow> gives Q (returnE a)"
  by (simp add: gives_def returnE_def)

lemma gives_liftE [given]: "(\<And>a. r = Inr a \<Longrightarrow> Q a) \<Longrightarrow> gives Q (liftE r)"
  by (simp add: gives_def liftE_def)

lemma gives_any [given]: "gives (\<lambda>_. True) m"
  by (simp add: gives_def)

lemma gives_bindE:
  assumes "gives R m" and "\<And>a. R a \<Longrightarrow> gives Q (f a)"
  shows "gives Q (bindE m f)"
  unfolding gives_def
proof (intro allI impI)
  fix s b t assume "bindE m f s = (Inr b, t)"
  then obtain a s' where "m s = (Inr a, s')" "f a s' = (Inr b, t)" by (rule bindE_InrD)
  then show "Q b" using givesD [OF assms(1)] assms(2) givesD by metis
qed

lemma gives_then: "(\<And>a. gives Q (f a)) \<Longrightarrow> gives Q (bindE m f)"
  by (rule gives_bindE [OF gives_any])

lemma gives_bind_liftE: "(\<And>a. r = Inr a \<Longrightarrow> gives Q (f a)) \<Longrightarrow> gives Q (bindE (liftE r) f)"
  by (rule gives_bindE [OF gives_liftE [where Q = "\<lambda>a. r = Inr a"]])

lemma preserves_bindE_gives:
  assumes "preserves I m" and "gives R m" and "\<And>a. R a \<Longrightarrow> preserves I (f a)"
  shows "preserves I (bindE m f)"
proof (rule preservesI)
  fix s assume I: "I s"
  obtain r s' where r: "m s = (r, s')" by (cases "m s")
  have s': "I s'" by (rule preservesD [OF assms(1) I r])
  show "I (snd (bindE m f s))"
  proof (cases r)
    case (Inl e)
    then show ?thesis using r s' by (simp add: bindE_def)
  next
    case (Inr a)
    have "preserves I (f a)" by (rule assms(3) [OF givesD [OF assms(2)]]) (use r Inr in simp)
    then show ?thesis using r Inr s' by (simp add: bindE_def preserves_def)
  qed
qed

lemma preserves_bind_liftE: "(\<And>a. r = Inr a \<Longrightarrow> preserves I (f a)) \<Longrightarrow> preserves I (bindE (liftE r) f)"
  by (rule preserves_bindE_gives [OF preserves_liftE gives_liftE [where Q = "\<lambda>a. r = Inr a"]])

section \<open>Types\<close>

definition typed_attribute :: "Attribute_pb \<Rightarrow> bool" where
  "typed_attribute a \<longleftrightarrow> info_type (apb_info a) = [] \<and> info_namespaces (apb_info a) = [] \<and>
     (case apb_kind a of
        ATTR_STRING \<Rightarrow> length (apb_s a) = 1 \<and> apb_i a = 0 \<and> apb_d a = 0
      | ATTR_STRINGLIST \<Rightarrow> apb_i a = 0 \<and> apb_d a = 0
      | ATTR_INTEGER \<Rightarrow> apb_s a = [] \<and> int_min \<le> sint (apb_i a) \<and> sint (apb_i a) \<le> int_max \<and> apb_d a = 0
      | ATTR_CHARACTER \<Rightarrow> apb_s a = [] \<and> - 128 \<le> sint (apb_i a) \<and> sint (apb_i a) < 128 \<and> apb_d a = 0
      | ATTR_BOOLEAN \<Rightarrow> apb_s a = [] \<and> (apb_i a = 0 \<or> apb_i a = 1) \<and> apb_d a = 0
      | ATTR_DOUBLE \<Rightarrow> apb_s a = [] \<and> apb_i a = 0
      | ATTR_FLOAT \<Rightarrow> apb_s a = [] \<and> apb_i a = 0
      | ATTR_UNNAMED _ \<Rightarrow> False)"

definition typed_attributes :: "PbAttrMap \<Rightarrow> bool" where
  "typed_attributes m \<longleftrightarrow> umap_wf m \<and> list_all (\<lambda>(k, a). typed_attribute a \<and> info_name (apb_info a) = k) m"

fun named_middleware :: "Middleware_pb \<Rightarrow> bool" where
  "named_middleware (MIDDLEWARE_UNNAMED _) = False"
| "named_middleware _ = True"

fun named_port_kind :: "Port_Kind_pb \<Rightarrow> bool" where
  "named_port_kind (PORT_KIND_UNNAMED _) = False"
| "named_port_kind _ = True"

definition typed_port :: "Port_pb \<Rightarrow> bool" where
  "typed_port p \<longleftrightarrow> typed_attributes (ppb_attributes p) \<and> named_port_kind (ppb_kind p) \<and> named_middleware (ppb_middleware p)"

definition typed_worker :: "Worker_pb \<Rightarrow> bool" where
  "typed_worker w \<longleftrightarrow> typed_attributes (wpb_attributes w)"

definition typed_component :: "Component_pb \<Rightarrow> bool" where
  "typed_component c \<longleftrightarrow> typed_attributes (cpb_attributes c) \<and> list_all typed_port (cpb_ports c) \<and>
     list_all typed_worker (cpb_workers c) \<and> length (cpb_replicate_indices c) = length (cpb_location c)"

definition typed_logger :: "Logger_pb \<Rightarrow> bool" where
  "typed_logger l \<longleftrightarrow> (lpb_type l = LOGGER_CLIENT \<or> lpb_type l = LOGGER_SERVER) \<and> lpb_mode l \<in> {OFF, LIVE, CACHED}"

definition typed_container :: "Container_pb \<Rightarrow> bool" where
  "typed_container ct \<longleftrightarrow> (ctpb_type ct = GENERIC \<or> ctpb_type ct = DOCKER) \<and>
     list_all typed_component (ctpb_components ct) \<and> list_all typed_logger (ctpb_loggers ct)"

definition typed_external_port :: "ExternalPort_pb \<Rightarrow> bool" where
  "typed_external_port p \<longleftrightarrow> typed_attributes (epb_attributes p) \<and> epb_kind p \<in> {EXT_NO_KIND, PUBSUB, SERVER} \<and>
     named_middleware (epb_middleware p)"

definition typed_cluster :: "Cluster_pb \<Rightarrow> bool" where
  "typed_cluster cl \<longleftrightarrow> list_all typed_container (clpb_containers cl) \<and>
     list_all (\<lambda>n. list_all typed_container (npb_containers n)) (clpb_nodes cl)"

definition typed_experiment :: "Experiment_pb \<Rightarrow> bool" where
  "typed_experiment ex \<longleftrightarrow> list_all typed_cluster (expb_clusters ex) \<and> list_all typed_external_port (expb_external_ports ex)"

section \<open>Attributes\<close>

lemma sint_word_of_int_small: "- (2 ^ 63) \<le> i \<Longrightarrow> i < 2 ^ 63 \<Longrightarrow> sint (word_of_int i :: 64 word) = i"
  by (simp add: sint_sbintrunc' signed_take_bit_int_eq_self)

lemma stoi_fits: "stoi s = Inr i \<Longrightarrow> int_min \<le> i \<and> i \<le> int_max"
  by (auto simp: stoi_def Let_def split: if_splits prod.splits)

lemma or_zero_stoi_range: "or_zero 0 (stoi s) = Inr i \<Longrightarrow> int_min \<le> i \<and> i \<le> int_max"
  using stoi_fits [of s i] by (auto simp: or_zero_def int_min_def int_max_def split: sum.splits exn.splits)

lemma char_value_range: "- 128 \<le> char_value c \<and> char_value c < 128"
  by (cases c) (simp add: char_value_def of_char_def)

lemma sint_char: "- 128 \<le> sint (word_of_int (char_value c) :: 64 word)" "sint (word_of_int (char_value c) :: 64 word) < 128"
  using char_value_range [of c] by (simp_all add: sint_word_of_int_small)

lemma attribute_kind_cases:
  "attribute_kind type \<in> {ATTR_FLOAT, ATTR_DOUBLE, ATTR_CHARACTER, ATTR_BOOLEAN, ATTR_INTEGER, ATTR_STRING}"
  by (simp add: attribute_kind_def)

lemma typed_SetAttributePb:
  assumes "SetAttributePb stod type v a = Inr a'"
    and "apb_s a = []" and "apb_i a = 0" and "apb_d a = 0" and "info_type (apb_info a) = []" and "info_namespaces (apb_info a) = []"
  shows "typed_attribute a' \<and> apb_info a' = apb_info a"
proof -
  consider "attribute_kind type = ATTR_FLOAT" | "attribute_kind type = ATTR_DOUBLE" | "attribute_kind type = ATTR_CHARACTER"
    | "attribute_kind type = ATTR_BOOLEAN" | "attribute_kind type = ATTR_INTEGER" | "attribute_kind type = ATTR_STRING"
    using attribute_kind_cases [of type] by blast
  then show ?thesis
  proof cases
    case 3
    then show ?thesis
      using assms sint_char by (auto simp: SetAttributePb_def typed_attribute_def Let_def split: list.splits)
  next
    case 5
    then show ?thesis
      using assms or_zero_stoi_range [of v] sint_word_of_int_small
      by (auto simp: SetAttributePb_def typed_attribute_def Let_def int_min_def int_max_def split: sum.splits)
  qed (use assms in \<open>auto simp: SetAttributePb_def typed_attribute_def Let_def split: sum.splits\<close>)
qed

lemma umap_modify_put: "umap_modify k f (umap_put k a m) = umap_put k (f a) m"
  by (auto simp: umap_put_def umap_modify_def umap_count_keys intro!: map_idI) (metis fst_conv image_eqI)

lemma set_umap_put: "set (umap_put k a m) \<subseteq> insert (k, a) (set m)"
  by (auto simp: umap_put_def umap_modify_def split: if_splits)

lemma typed_attributes_Nil [simp]: "typed_attributes []"
  by (simp add: typed_attributes_def umap_wf_def)

lemma typed_attributes_put:
  "typed_attributes m \<Longrightarrow> typed_attribute a \<Longrightarrow> info_name (apb_info a) = k \<Longrightarrow> typed_attributes (umap_put k a m)"
  using set_umap_put [of k a m] by (auto simp: typed_attributes_def umap_wf_put list_all_iff)

lemma typed_set_attributes:
  "typed_attributes m \<Longrightarrow> typed_attributes (SetStringAttribute m k v)"
  "typed_attributes m \<Longrightarrow> typed_attributes (SetStringListAttribute m k vs)"
  "typed_attributes m \<Longrightarrow> int_min \<le> i \<Longrightarrow> i \<le> int_max \<Longrightarrow> typed_attributes (SetIntegerAttribute m k i)"
  unfolding SetStringAttribute_def SetStringListAttribute_def SetIntegerAttribute_def InsertAttribute_def umap_modify_put
  by (rule typed_attributes_put; simp add: typed_attribute_def new_attribute_def Attribute_default_def Info_default_def
      sint_word_of_int_small int_min_def int_max_def)+

lemma typed_blackbox: "blackbox_attributes g p k m = Inr attrs \<Longrightarrow> typed_attributes attrs"
  using stoi_fits by (auto simp: blackbox_attributes_def Let_def typed_set_attributes split: Middleware_pb.splits ExternalPort_Kind_pb.splits sum.splits)

lemma gives_foldl:
  assumes "gives Q acc" and "\<And>m x. Q m \<Longrightarrow> gives Q (f x m)"
  shows "gives Q (foldl (\<lambda>acc x. bindE acc (f x)) acc xs)"
  using assms(1) by (induction xs arbitrary: acc) (auto intro: gives_bindE assms(2))

lemma preserves_foldl:
  assumes "preserves I acc" and "\<And>m x. preserves I (f x m)"
  shows "preserves I (foldl (\<lambda>acc x. bindE acc (f x)) acc xs)"
  using assms(1) by (induction xs arbitrary: acc) (auto intro: preserves_bindE assms(2))

lemma gives_FillProtobufAttributes [given]: "gives typed_attributes (FillProtobufAttributes g stod p suffix)"
  unfolding FillProtobufAttributes_def Let_def
proof (rule gives_foldl)
  fix m x assume m: "typed_attributes m"
  let ?a = "new_attribute (gm_GetDataValue g x ''label'') ATTR_STRING"
  let ?a' = "?a\<lparr>apb_info := (apb_info ?a)\<lparr>info_id := x @ suffix\<rparr>\<rparr>"
  have "typed_attributes (umap_put (gm_GetDataValue g x ''label'') b m)" if "SetAttributePb stod ty v ?a' = Inr b" for b ty v
    using typed_SetAttributePb [OF that] m
    by (auto simp: new_attribute_def Attribute_default_def Info_default_def intro!: typed_attributes_put)
  then show "gives typed_attributes (bindE (mapped_value x) (\<lambda>v. bindE (liftE (SetAttributePb stod (gm_GetDataValue g x ''type'') v ?a'))
      (\<lambda>b. returnE (umap_put (gm_GetDataValue g x ''label'') b m))))"
    by (intro gives_then gives_bind_liftE gives_returnE)
qed (rule gives_returnE, simp)

section \<open>The experiment\<close>

abbreviation keeps_typed :: "(ModelParser, 'a) em \<Rightarrow> bool" where
  "keeps_typed \<equiv> preserves (\<lambda>mp. typed_experiment (mp_experiment mp))"

lemma list_all_nth_upd: "list_all P xs \<Longrightarrow> (\<And>x. P x \<Longrightarrow> P (f x)) \<Longrightarrow> list_all P (nth_upd i f xs)"
  by (auto simp: nth_upd_def list_all_length nth_list_update)

lemma typed_upd_container:
  assumes "typed_experiment ex" and "\<And>ct. typed_container ct \<Longrightarrow> typed_container (f ct)"
  shows "typed_experiment (upd_msg_container r f ex)"
  using assms by (cases r) (auto simp: typed_experiment_def typed_cluster_def intro!: list_all_nth_upd)

lemma typed_upd_component:
  assumes "typed_experiment ex" and "\<And>c. typed_component c \<Longrightarrow> typed_component (f c)"
  shows "typed_experiment (upd_msg_component r f ex)"
  unfolding upd_msg_component_def by (rule typed_upd_container [OF assms(1)]) (auto simp: typed_container_def intro!: list_all_nth_upd assms(2))

lemma typed_upd_port:
  assumes "typed_experiment ex" and "\<And>p. typed_port p \<Longrightarrow> typed_port (f p)"
  shows "typed_experiment (upd_msg_port r f ex)"
  unfolding upd_msg_port_def by (rule typed_upd_component [OF assms(1)]) (auto simp: typed_component_def intro!: list_all_nth_upd assms(2))

lemma keeps_on_experiment: "(\<And>ex. typed_experiment ex \<Longrightarrow> typed_experiment (f ex)) \<Longrightarrow> keeps_typed (on_experiment f)"
  by (simp add: on_experiment_def preserves_modifyE)

lemma keeps_same: "(\<And>mp. mp_experiment (f mp) = mp_experiment mp) \<Longrightarrow> keeps_typed (modifyE f)"
  by (simp add: preserves_modifyE)

lemma keeps_lookups [pres]:
  "keeps_typed (mapped_value i)" "keeps_typed (GetDefinitionId g i)" "keeps_typed (GetAggregateId g i)"
  by (auto simp: mapped_value_def GetDefinitionId_def GetAggregateId_def Let_def intro!: pres keeps_same)

lemma keeps_FillProtobufAttributes [pres]: "keeps_typed (FillProtobufAttributes g stod p suffix)"
  unfolding FillProtobufAttributes_def Let_def by (intro preserves_foldl pres)

lemma keeps_port_message [pres]: "keeps_typed (port_message g limit p suffix t)"
  unfolding port_message_def Let_def by (intro pres)

lemma named_parsed: "named_middleware (ParseMiddleware s)" "named_port_kind (GetPortKind k)" "GetExternalPortKind e \<in> {EXT_NO_KIND, PUBSUB, SERVER}"
  by (simp_all add: ParseMiddleware_def Middleware_Parse_def GetPortKind_def GetExternalPortKind_def)

lemma gives_ports [given]:
  "gives typed_port (port_message g limit p suffix t)"
  "gives typed_port (ConstructPeriodicPb g stod p suffix)"
  unfolding port_message_def ConstructPeriodicPb_def Let_def
   apply (intro gives_then gives_returnE)
   apply (simp add: typed_port_def Port_default_def named_parsed typed_set_attributes)
  by (rule gives_bindE [OF gives_FillProtobufAttributes], rule gives_returnE) (simp add: typed_port_def Port_default_def)

lemma gives_ConstructWorkerPb [given]:
  "gives (\<lambda>w. case w of None \<Rightarrow> True | Some w \<Rightarrow> typed_worker w) (ConstructWorkerPb g stod w suffix)"
  unfolding ConstructWorkerPb_def Let_def
  by (auto intro!: gives_returnE gives_bindE [OF gives_FillProtobufAttributes] simp: typed_worker_def)

lemma keeps_construct [pres]:
  "keeps_typed (ConstructPeriodicPb g stod p suffix)" "keeps_typed (ConstructWorkerPb g stod w suffix)"
  by (auto simp: ConstructPeriodicPb_def ConstructWorkerPb_def Let_def intro!: pres)

lemma keeps_add_port: "typed_port p \<Longrightarrow> keeps_typed (add_port r p)"
  unfolding add_port_def by (rule keeps_on_experiment, erule typed_upd_component) (simp add: typed_component_def)

lemma keeps_add_connectable_port: "typed_port p \<Longrightarrow> keeps_typed (add_connectable_port r p)"
  unfolding add_connectable_port_def by (intro pres keeps_same keeps_add_port) simp_all

lemma keeps_add_worker: "(case w of None \<Rightarrow> True | Some w \<Rightarrow> typed_worker w) \<Longrightarrow> keeps_typed (add_worker r w)"
  unfolding add_worker_def
  by (cases w) (auto intro!: pres keeps_on_experiment typed_upd_component simp: typed_component_def)

lemma keeps_add_component [pres]: "keeps_typed (add_component r i)"
  unfolding add_component_def Let_def
  by (intro pres keeps_on_experiment keeps_same typed_upd_container)
    (simp_all add: typed_container_def typed_component_def)

lemma keeps_add_message:
  "keeps_typed (bindE (ConstructPubSubPortPb g limit p suffix) (add_connectable_port r))"
  "keeps_typed (bindE (ConstructReqRepPortPb g limit p suffix) (add_connectable_port r))"
  "keeps_typed (bindE (ConstructPeriodicPb g stod p suffix) (add_port r))"
  "keeps_typed (bindE (ConstructWorkerPb g stod w suffix) (add_worker r))"
  unfolding ConstructPubSubPortPb_def ConstructReqRepPortPb_def
  by (rule preserves_bindE_gives [OF keeps_port_message gives_ports(1) keeps_add_connectable_port], assumption)+
    (rule preserves_bindE_gives [OF keeps_construct(1) gives_ports(2) keeps_add_port], assumption,
     rule preserves_bindE_gives [OF keeps_construct(2) gives_ConstructWorkerPb keeps_add_worker], assumption)

lemma keeps_set_message:
  assumes "GetReplicationIndices cr = Inr is" and "GetReplicationLocation cr = Inr ns" and "\<And>u. keeps_typed (f u)"
  shows "keeps_typed (bindE (FillProtobufAttributes g stod p suffix) (\<lambda>attrs.
     bindE (on_experiment (upd_msg_component r (\<lambda>c. c\<lparr>cpb_info := info, cpb_replicate_indices := is, cpb_location := ns, cpb_attributes := attrs\<rparr>))) f))"
proof (rule preserves_bindE_gives [OF keeps_FillProtobufAttributes gives_FillProtobufAttributes])
  have same_length: "length (assembly_indices a) = length (assembly_names a)" for a
    by (induction a rule: assembly_indices.induct) simp_all
  then have len: "length is = length ns"
    using assms(1,2) by (auto simp: GetReplicationIndices_def GetReplicationLocation_def split: if_splits)
  fix attrs assume "typed_attributes attrs"
  then show "keeps_typed (bindE (on_experiment (upd_msg_component r
      (\<lambda>c. c\<lparr>cpb_info := info, cpb_replicate_indices := is, cpb_location := ns, cpb_attributes := attrs\<rparr>))) f)"
    by (intro preserves_bindE assms(3) keeps_on_experiment, elim typed_upd_component) (simp add: typed_component_def len)
qed

lemma keeps_ParseComponent: "keeps_typed (ParseComponent g limit stod cr)"
  unfolding ParseComponent_def Let_def
  by (intro keeps_set_message preserves_bind_liftE keeps_add_message preserves_bindE preserves_getE preserves_case_option
      preserves_returnE keeps_lookups keeps_add_component preserves_forE)

lemma keeps_hardware:
  "keeps_typed (ParseCluster g i)" "keeps_typed (ParseHardwareNode g i)" "keeps_typed (ParseDeploymentContainer g i)"
proof -
  have c: "typed_container (implicit_container g i)" "typed_container (deployment_container g i)"
    by (simp_all add: typed_container_def implicit_container_def deployment_container_def)
  show "keeps_typed (ParseCluster g i)" "keeps_typed (ParseHardwareNode g i)" "keeps_typed (ParseDeploymentContainer g i)"
    unfolding ParseCluster_def ParseHardwareNode_def ParseDeploymentContainer_def
    by (auto intro!: preserves_modifyE list_all_nth_upd simp: Let_def typed_experiment_def typed_cluster_def c split: option.split)
qed

lemma keeps_ParseExternalDelegate: "keeps_typed (ParseExternalDelegate g i)"
  unfolding ParseExternalDelegate_def Let_def
proof (intro preserves_bind_liftE preserves_modifyE)
  fix attrs mp
  let ?k = "GetExternalPortKind (gm_GetDataValue g i ''kind'')" and ?m = "ParseMiddleware (gm_GetDataValue g i ''middleware'')"
  assume a: "(if gm_GetDataValue g (gm_GetParentNode g i) ''blackbox'' = ''true'' then blackbox_attributes g i ?k ?m else Inr []) = Inr attrs"
    and t: "typed_experiment (mp_experiment mp)"
  from a have "typed_attributes attrs" by (auto dest: typed_blackbox split: if_splits)
  then show "typed_experiment (mp_experiment (mp\<lparr>mp_experiment := (mp_experiment mp)\<lparr>expb_external_ports := expb_external_ports (mp_experiment mp) @
                 [\<lparr>epb_info = Info_default\<lparr>info_name := gm_GetDataValue g (gm_GetParentNode g i) ''label'', info_id := i,
                    info_type := gm_GetDataValue g i ''type''\<rparr>,
                   epb_kind = ?k, epb_middleware = ?m, epb_attributes = attrs, epb_connected_ports = [],
                   epb_is_blackbox = (gm_GetDataValue g (gm_GetParentNode g i) ''blackbox'' = ''true'')\<rparr>]\<rparr>,
                 mp_external_port_id_map := umap_emplace i (length (expb_external_ports (mp_experiment mp))) (mp_external_port_id_map mp)\<rparr>))"
    using t named_parsed(3) by (simp add: typed_experiment_def typed_external_port_def named_parsed)
qed

lemma keeps_loggers: "keeps_typed (ParseLoggingClient g stod i)" "keeps_typed (ParseLoggingServer g i)"
  unfolding ParseLoggingClient_def ParseLoggingServer_def add_logger_def
  by (intro pres keeps_on_experiment, erule typed_upd_container,
      simp add: typed_container_def typed_logger_def logger_mode_def Logger_default_def)+

lemma keeps_connect:
  "keeps_typed (add_connected_port r i)" "keeps_typed (add_connected_external_port r i)" "keeps_typed (external_add_connected_port e i)"
  unfolding add_connected_port_def add_connected_external_port_def external_add_connected_port_def
    apply (rule keeps_on_experiment, erule typed_upd_port, simp add: typed_port_def)+
  apply (rule keeps_on_experiment)
  apply (auto simp: upd_msg_external_port_def typed_experiment_def typed_external_port_def intro!: list_all_nth_upd)
  done

lemma keeps_CalculateConnection: "keeps_typed (CalculateConnection g ac)"
proof -
  have "keeps_typed (connect_ports r s t)" for r s t
    unfolding connect_ports_def by (intro pres keeps_connect)
  then have "keeps_typed (connect_replication g ac i r)" for i r
    unfolding connect_replication_def Let_def by (intro pres)
  moreover have "keeps_typed (connect_delegate b e i p r)" for b e i p r
    unfolding connect_delegate_def Let_def by (intro pres keeps_connect)
  ultimately show ?thesis unfolding CalculateConnection_def Let_def
    by (auto intro!: pres split: option.split)
qed

lemma typed_Process: "typed_experiment (mp_experiment (snd (Process g limit stod mp)))"
proof -
  have "keeps_typed (bindE (ParseHardwareItems g) (\<lambda>_. bindE (ParseExternalDelegates g) (\<lambda>_. bindE (ParseLoggingClients g stod) (\<lambda>_.
     bindE (ParseLoggingServers g) (\<lambda>_. bindE (ParseComponents g limit stod) (\<lambda>_. CalculateReplication g))))))"
    unfolding ParseHardwareItems_def ParseExternalDelegates_def ParseLoggingClients_def ParseLoggingServers_def ParseComponents_def
      CalculateReplication_def
    by (intro pres keeps_hardware keeps_ParseExternalDelegate keeps_loggers keeps_ParseComponent keeps_CalculateConnection)
  then show ?thesis unfolding Process_def
    by (simp add: bindE_def preserves_def typed_experiment_def Experiment_default_def)
qed

text \<open>What \<open>Process\<close> builds; the preparation leaves it alone.\<close>

definition built :: "ModelParser \<Rightarrow> Experiment_pb \<times> (string, container_path) umap \<times> (string, nat) umap \<times> (string, nat \<times> nat) umap \<times>
    (string, port_path) umap \<times> (string, nat) umap" where
  "built mp = (mp_experiment mp, mp_container_message_map mp, mp_cluster_message_map mp, mp_node_message_map mp,
     mp_port_replicate_id_map mp, mp_external_port_id_map mp)"

lemma built_same: "(\<And>mp. built (f mp) = built mp) \<Longrightarrow> preserves (\<lambda>mp. P (built mp)) (modifyE f)"
  by (rule preserves_modifyE) simp

lemma built_attribute_value: "preserves (\<lambda>mp. P (built mp)) (mapped_value i)"
  unfolding mapped_value_def by (intro pres built_same) (simp add: built_def)

lemma built_GenerateReplications: "preserves (\<lambda>mp. P (built mp)) (GenerateReplications g limit a)"
proof (induction limit arbitrary: a)
  case 0
  then show ?case by (simp add: pres)
next
  case (Suc limit)
  have c: "preserves (\<lambda>mp. P (built mp)) (GenerateComponentReplications b cs)" for b cs
    unfolding GenerateComponentReplications_def by (intro preserves_forE built_same) (simp add: built_def)
  have n: "preserves (\<lambda>mp. P (built mp)) (GetReplicationId g i)" for i
    unfolding GetReplicationId_def by (intro pres built_attribute_value)
  show ?case unfolding GenerateReplications.simps Let_def
    by (intro pres Suc.IH c n built_same) (simp add: dangle_from_def built_def)
qed

lemma built_PreProcess: "preserves (\<lambda>mp. P (built mp)) (PreProcess g limit)"
proof -
  have sources: "preserves (\<lambda>mp. P (built mp)) (GetTerminalSourcesByEdgeKind g n k)" for n k
    unfolding GetTerminalSourcesByEdgeKind_def by (intro pres)
  show ?thesis
    unfolding PreProcess_def record_edge_def record_value_def record_connections_def record_logging_def Let_def
    by (intro pres built_same sources built_GenerateReplications) (simp_all add: read_ids_def built_def)
qed

lemma keeps_PreProcess: "keeps_typed (PreProcess g limit)"
  using built_PreProcess [of "\<lambda>(ex, _). typed_experiment ex"] by (simp add: built_def)

section \<open>Properties\<close>

text \<open>
  C12. The experiment is well typed. Whatever the model says, in the message that the translator builds each
  attribute has the one field that its kind names, with a value that fits the kind (a text has exactly one
  string, an integer fits an \<open>int\<close>, a truth value is 0 or 1), and stands under its own name; kinds of ports,
  loggers and middleware are those of the schema; and a component has an index for each name in its location.
\<close>
theorem translation_well_typed:
  "typed_experiment (mp_experiment (snd (ProtobufModelParser_ctor g limit stod experiment_id)))"
proof -
  have "typed_experiment (mp_experiment (ModelParser_init experiment_id))"
    by (simp add: ModelParser_init_def typed_experiment_def Experiment_default_def)
  moreover have "keeps_typed (Process g limit stod)" by (simp add: preserves_def typed_Process)
  moreover from this have "keeps_typed (bindE (PreProcess g limit) (\<lambda>_. Process g limit stod))"
    by (intro preserves_bindE keeps_PreProcess)
  ultimately show ?thesis unfolding ProtobufModelParser_ctor_def preserves_def by blast
qed

text \<open>
  C17. A worker survives the way from the model through the environment manager: the description that the
  translator makes of a worker of the model, made into a worker of the environment manager and asked for a
  full update, comes back unchanged, attributes of every kind included.
\<close>
theorem translated_worker_roundtrip:
  assumes "ConstructWorkerPb g stod worker_id suffix mp = (Inr (Some pb), mp')"
  shows "fst (Worker_GetProto True (Worker_ctor ind pb)) = Some pb"
proof (rule Worker_proto_id)
  have "typed_attributes (wpb_attributes pb)"
    using givesD [OF gives_ConstructWorkerPb assms] by (simp add: typed_worker_def)
  moreover have "info_namespaces (wpb_info pb) = []"
    using assms by (auto simp: ConstructWorkerPb_def Let_def Info_default_def returnE_def split: if_splits elim!: bindE_InrD)
  ultimately show "worker_plain pb"
    by (auto simp: worker_plain_def attr_map_plain_def typed_attributes_def list_all_iff typed_attribute_def attr_plain_def
        split: Attribute_Kind_pb.splits)
qed

definition demo_worker_graphml :: Graphml where
  "demo_worker_graphml = Graphml_of_rows (map (\<lambda>(i, p, k, d). \<lparr>row_id = i, row_parent = p, row_kind = k, row_data = d\<rparr>)
    [(''w'', ''c'', ''ClassInstance'', [(''label'', ''cpu''), (''type'', ''CPU'')]),
     (''a'', ''w'', ''AttributeInstance'', [(''label'', ''n''), (''type'', ''Integer'')])]) []"

theorem translated_worker_roundtrip_witness:
  "\<exists>pb. fst (ConstructWorkerPb demo_worker_graphml demo_stod ''w'' ''_0''
        ((ModelParser_init ''x'')\<lparr>mp_attribute_value_map := [(''a'', ''7'')]\<rparr>)) = Inr (Some pb) \<and>
     fst (Worker_GetProto True (Worker_ctor (\<lambda>_. False) pb)) = Some pb"
proof -
  let ?r = "ConstructWorkerPb demo_worker_graphml demo_stod ''w'' ''_0'' ((ModelParser_init ''x'')\<lparr>mp_attribute_value_map := [(''a'', ''7'')]\<rparr>)"
  let ?pb = "\<lparr>wpb_info = \<lparr>info_name = ''cpu'', info_id = ''w_0'', info_type = ''CPU'', info_namespaces = []\<rparr>,
    wpb_attributes = [(''n'', \<lparr>apb_info = \<lparr>info_name = ''n'', info_id = ''a_0'', info_type = [], info_namespaces = []\<rparr>,
      apb_kind = ATTR_INTEGER, apb_s = [], apb_i = 7, apb_d = 0\<rparr>)]\<rparr>"
  have r: "fst ?r = Inr (Some ?pb)" by code_simp
  then obtain mp' where "?r = (Inr (Some ?pb), mp')" by (metis prod.collapse)
  from translated_worker_roundtrip [OF this] r show ?thesis by blast
qed

end
