(* ===== verification/GPWiring.thy ===== *)
theory GPWiring
  imports GPTypes
begin

text \<open>
  The connections in the message, whatever the model says: a port that is
  entered under an id is a port of the message with that id; what a port lists as connected is such an id;
  and two ports list each other equally often.
\<close>

declare split_paired_All [simp del]

section \<open>Paths\<close>

fun valid_container :: "Experiment_pb \<Rightarrow> container_path \<Rightarrow> bool" where
  "valid_container ex (In_cluster c k) \<longleftrightarrow> c < length (expb_clusters ex) \<and> k < length (clpb_containers (expb_clusters ex ! c))"
| "valid_container ex (In_node c n k) \<longleftrightarrow> c < length (expb_clusters ex) \<and> n < length (clpb_nodes (expb_clusters ex ! c)) \<and>
     k < length (npb_containers (clpb_nodes (expb_clusters ex ! c) ! n))"

definition valid_component :: "Experiment_pb \<Rightarrow> component_path \<Rightarrow> bool" where
  "valid_component ex r \<longleftrightarrow> valid_container ex (fst r) \<and> snd r < length (ctpb_components (msg_container ex (fst r)))"

definition valid_port :: "Experiment_pb \<Rightarrow> port_path \<Rightarrow> bool" where
  "valid_port ex r \<longleftrightarrow> valid_component ex (fst r) \<and> snd r < length (cpb_ports (msg_component ex (fst r)))"

lemma nth_upd_length [simp]: "length (nth_upd i f xs) = length xs"
  by (simp add: nth_upd_def)

lemma nth_upd_nth: "j < length xs \<Longrightarrow> nth_upd i f xs ! j = (if j = i then f (xs ! j) else xs ! j)"
  by (auto simp: nth_upd_def nth_list_update)

lemma upd_container_at:
  assumes "valid_container ex r'"
  shows "valid_container (upd_msg_container r f ex) r' \<and>
    msg_container (upd_msg_container r f ex) r' = (if r' = r then f (msg_container ex r') else msg_container ex r')"
  using assms by (cases r; cases r') (auto simp: nth_upd_nth)

lemma upd_container_ports: "expb_external_ports (upd_msg_container r f ex) = expb_external_ports ex"
  by (cases r) simp_all

lemma upd_component_at:
  assumes "valid_component ex r'"
  shows "valid_component (upd_msg_component r f ex) r' \<and>
    msg_component (upd_msg_component r f ex) r' = (if r' = r then f (msg_component ex r') else msg_component ex r')"
  using assms upd_container_at [of ex "fst r'" "fst r"]
  by (cases r; cases r') (auto simp: valid_component_def msg_component_def upd_msg_component_def nth_upd_nth)

lemma upd_port_at:
  assumes "valid_port ex r'"
  shows "valid_port (upd_msg_port r f ex) r' \<and> msg_port (upd_msg_port r f ex) r' = (if r' = r then f (msg_port ex r') else msg_port ex r')"
  using assms upd_component_at [of ex "fst r'" "fst r"]
  by (cases r; cases r') (auto simp: valid_port_def msg_port_def upd_msg_port_def nth_upd_nth)

lemma upd_ports_external [simp]:
  "expb_external_ports (upd_msg_component r f ex) = expb_external_ports ex"
  "expb_external_ports (upd_msg_port p h ex) = expb_external_ports ex"
  by (simp_all add: upd_msg_component_def upd_msg_port_def upd_container_ports)

text \<open>What a change of the message leaves in place.\<close>

definition extends :: "Experiment_pb \<Rightarrow> Experiment_pb \<Rightarrow> bool" where
  "extends ex ex' \<longleftrightarrow> (\<forall>r. valid_container ex r \<longrightarrow> valid_container ex' r) \<and> (\<forall>r. valid_component ex r \<longrightarrow> valid_component ex' r) \<and>
     (\<forall>r. valid_port ex r \<longrightarrow> valid_port ex' r \<and> msg_port ex' r = msg_port ex r) \<and> expb_external_ports ex' = expb_external_ports ex"

lemma extends_container:
  assumes "\<And>ct. \<exists>cs. ctpb_components (f ct) = ctpb_components ct @ cs"
  shows "extends ex (upd_msg_container r f ex)"
proof -
  let ?ex = "upd_msg_container r f ex"
  have c: "valid_component ?ex q \<and> msg_component ?ex q = msg_component ex q" if "valid_component ex q" for q
  proof -
    obtain cs where cs: "ctpb_components (f (msg_container ex (fst q))) = ctpb_components (msg_container ex (fst q)) @ cs" using assms by blast
    show ?thesis using that upd_container_at [of ex "fst q" r f] cs by (auto simp: valid_component_def msg_component_def nth_append)
  qed
  have "valid_port ?ex q \<and> msg_port ?ex q = msg_port ex q" if "valid_port ex q" for q
    using that c [of "fst q"] by (auto simp: valid_port_def msg_port_def)
  then show ?thesis using c upd_container_at [of ex _ r f] by (simp add: extends_def upd_container_ports)
qed

lemma extends_component:
  assumes "\<And>c. \<exists>ps. cpb_ports (f c) = cpb_ports c @ ps"
  shows "extends ex (upd_msg_component r f ex)"
proof -
  let ?ex = "upd_msg_component r f ex"
  have k: "valid_container ?ex q" if "valid_container ex q" for q
    using that upd_container_at [of ex q "fst r"] by (simp add: upd_msg_component_def)
  have "valid_port ?ex q \<and> msg_port ?ex q = msg_port ex q" if "valid_port ex q" for q
  proof -
    obtain ps where ps: "cpb_ports (f (msg_component ex (fst q))) = cpb_ports (msg_component ex (fst q)) @ ps" using assms by blast
    show ?thesis using that upd_component_at [of ex "fst q" r f] ps by (auto simp: valid_port_def msg_port_def nth_append)
  qed
  then show ?thesis using k upd_component_at [of ex _ r f] by (simp add: extends_def)
qed

lemma extends_component_valid: "extends ex ex' \<Longrightarrow> valid_component ex r \<Longrightarrow> valid_component ex' r"
  unfolding extends_def by blast

section \<open>Registered ports\<close>

definition refs_ok :: "ModelParser \<Rightarrow> bool" where
  "refs_ok mp \<longleftrightarrow> (\<forall>i r. map_of (mp_container_message_map mp) i = Some r \<longrightarrow> valid_container (mp_experiment mp) r) \<and>
     (\<forall>i r. map_of (mp_port_replicate_id_map mp) i = Some r \<longrightarrow>
        valid_port (mp_experiment mp) r \<and> info_id (ppb_info (msg_port (mp_experiment mp) r)) = i) \<and>
     (\<forall>i e. map_of (mp_external_port_id_map mp) i = Some e \<longrightarrow> e < length (expb_external_ports (mp_experiment mp)) \<and>
        info_id (epb_info (expb_external_ports (mp_experiment mp) ! e)) = i)"

definition unconnected :: "ModelParser \<Rightarrow> bool" where
  "unconnected mp \<longleftrightarrow> (\<forall>i r. map_of (mp_port_replicate_id_map mp) i = Some r \<longrightarrow>
        ppb_connected_ports (msg_port (mp_experiment mp) r) = [] \<and> ppb_connected_external_ports (msg_port (mp_experiment mp) r) = []) \<and>
     (\<forall>i e. map_of (mp_external_port_id_map mp) i = Some e \<longrightarrow> epb_connected_ports (expb_external_ports (mp_experiment mp) ! e) = [])"

definition connections_of :: "ModelParser \<Rightarrow> string \<Rightarrow> string list" where
  "connections_of mp i = (case map_of (mp_port_replicate_id_map mp) i of None \<Rightarrow> []
     | Some r \<Rightarrow> ppb_connected_ports (msg_port (mp_experiment mp) r))"

definition external_connections_of :: "ModelParser \<Rightarrow> string \<Rightarrow> string list" where
  "external_connections_of mp i = (case map_of (mp_port_replicate_id_map mp) i of None \<Rightarrow> []
     | Some r \<Rightarrow> ppb_connected_external_ports (msg_port (mp_experiment mp) r))"

definition connections_of_external :: "ModelParser \<Rightarrow> string \<Rightarrow> string list" where
  "connections_of_external mp i = (case map_of (mp_external_port_id_map mp) i of None \<Rightarrow> []
     | Some e \<Rightarrow> epb_connected_ports (expb_external_ports (mp_experiment mp) ! e))"

definition wired :: "ModelParser \<Rightarrow> bool" where
  "wired mp \<longleftrightarrow>
     (\<forall>s t. count_list (connections_of mp s) t = count_list (connections_of mp t) s) \<and>
     (\<forall>s e. count_list (external_connections_of mp s) e = count_list (connections_of_external mp e) s)"

lemma unconnected_wired: "unconnected mp \<Longrightarrow> wired mp"
proof -
  assume u: "unconnected mp"
  have "connections_of mp i = []" "external_connections_of mp i = []" "connections_of_external mp i = []" for i
    using u by (auto simp: unconnected_def connections_of_def external_connections_of_def connections_of_external_def split: option.split)
  then show ?thesis by (simp add: wired_def)
qed

text \<open>While components are added, nothing is connected.\<close>

definition building :: "ModelParser \<Rightarrow> bool" where
  "building mp \<longleftrightarrow> refs_ok mp \<and> unconnected mp"

lemma building_extends:
  assumes "building mp" and "extends (mp_experiment mp) (mp_experiment mp')"
    and "mp_container_message_map mp' = mp_container_message_map mp" and "mp_port_replicate_id_map mp' = mp_port_replicate_id_map mp"
    and "mp_external_port_id_map mp' = mp_external_port_id_map mp"
  shows "building mp'"
  using assms unfolding building_def refs_ok_def unconnected_def extends_def by auto

text \<open>A computation that starts by looking at the state may use what holds of it.\<close>

lemma preserves_getE_then:
  assumes "\<And>s. I s \<Longrightarrow> preserves I (F s)"
  shows "preserves I (bindE getE F)"
proof (rule preservesI)
  fix s assume "I s"
  then show "I (snd (bindE getE F s))" using assms [of s] by (simp add: bindE_def preserves_def)
qed

lemma preserves_building_modify:
  assumes "\<And>mp. mp_experiment (f mp) = mp_experiment mp" "\<And>mp. mp_container_message_map (f mp) = mp_container_message_map mp"
    "\<And>mp. mp_port_replicate_id_map (f mp) = mp_port_replicate_id_map mp" "\<And>mp. mp_external_port_id_map (f mp) = mp_external_port_id_map mp"
  shows "preserves (\<lambda>mp. building mp \<and> valid_component (mp_experiment mp) r) (modifyE f)" "preserves building (modifyE f)"
proof -
  have "building (f mp)" if "building mp" for mp
    by (rule building_extends [OF that]) (simp_all add: assms extends_def)
  then show "preserves (\<lambda>mp. building mp \<and> valid_component (mp_experiment mp) r) (modifyE f)" "preserves building (modifyE f)"
    by (auto intro!: preserves_modifyE simp: assms(1))
qed

lemma preserves_building_experiment:
  assumes "\<And>ex. extends ex (f ex)"
  shows "preserves (\<lambda>mp. building mp \<and> valid_component (mp_experiment mp) r) (on_experiment f)" "preserves building (on_experiment f)"
proof -
  have "building (mp\<lparr>mp_experiment := f (mp_experiment mp)\<rparr>)" if "building mp" for mp
    by (rule building_extends [OF that]) (simp_all add: assms)
  moreover have "valid_component (f ex) r" if "valid_component ex r" for ex by (rule extends_component_valid [OF assms that])
  ultimately show "preserves (\<lambda>mp. building mp \<and> valid_component (mp_experiment mp) r) (on_experiment f)" "preserves building (on_experiment f)"
    unfolding on_experiment_def by (auto intro!: preserves_modifyE)
qed

section \<open>Adding components\<close>

abbreviation in_component :: "component_path \<Rightarrow> ModelParser \<Rightarrow> bool" where
  "in_component r \<equiv> \<lambda>mp. building mp \<and> valid_component (mp_experiment mp) r"

lemma in_component_lookups [pres]:
  "preserves (in_component r) (mapped_value i)" "preserves (in_component r) (GetDefinitionId g i)"
  "preserves (in_component r) (GetAggregateId g i)" "preserves building (GetDefinitionId g i)"
  by (auto simp: mapped_value_def GetDefinitionId_def GetAggregateId_def Let_def intro!: pres preserves_building_modify)

lemma in_component_Fill [pres]: "preserves (in_component r) (FillProtobufAttributes g stod p suffix)"
  unfolding FillProtobufAttributes_def Let_def by (intro preserves_foldl pres)

lemma in_component_construct [pres]:
  "preserves (in_component r) (port_message g limit p suffix t)"
  "preserves (in_component r) (ConstructPeriodicPb g stod p suffix)" "preserves (in_component r) (ConstructWorkerPb g stod w suffix)"
  by (auto simp: port_message_def ConstructPeriodicPb_def ConstructWorkerPb_def Let_def intro!: pres)

lemma unconnected_port_message:
  "gives (\<lambda>p. ppb_connected_ports p = [] \<and> ppb_connected_external_ports p = []) (port_message g limit p suffix t)"
  unfolding port_message_def Let_def by (intro gives_then gives_returnE) (simp add: Port_default_def)

lemma in_component_add_port: "preserves (in_component r) (add_port r' p)"
  unfolding add_port_def by (intro preserves_building_experiment extends_component) simp

lemma in_component_add_worker: "preserves (in_component r) (add_worker r' w)"
  unfolding add_worker_def
  by (auto split: option.split intro!: pres preserves_building_experiment extends_component)

lemma in_component_add_connectable_port:
  assumes "ppb_connected_ports p = [] \<and> ppb_connected_external_ports p = []"
  shows "preserves (in_component r) (add_connectable_port r p)"
proof (rule preservesI)
  fix mp assume mp: "in_component r mp"
  let ?f = "\<lambda>c. c\<lparr>cpb_ports := cpb_ports c @ [p]\<rparr>"
  let ?ex = "mp_experiment mp" and ?ex' = "upd_msg_component r ?f (mp_experiment mp)"
  let ?i = "info_id (ppb_info p)" and ?r = "(r, length (cpb_ports (msg_component (mp_experiment mp) r)))"
  let ?mp = "mp\<lparr>mp_port_replicate_id_map := umap_put ?i ?r (mp_port_replicate_id_map mp), mp_experiment := ?ex'\<rparr>"
  have run: "snd (add_connectable_port r p mp) = ?mp"
    by (simp add: add_connectable_port_def add_port_def on_experiment_def bindE_def)
  have e: "extends ?ex ?ex'" by (rule extends_component) simp
  have new: "valid_port ?ex' ?r" "msg_port ?ex' ?r = p"
    using mp upd_component_at [of ?ex r r ?f] by (simp_all add: valid_port_def msg_port_def)
  have "building ?mp"
    using mp e new assms unfolding building_def refs_ok_def unconnected_def extends_def by auto
  moreover have "valid_component ?ex' r" by (rule extends_component_valid [OF e]) (use mp in simp)
  ultimately show "in_component r (snd (add_connectable_port r p mp))" unfolding run by simp
qed

lemma in_component_messages:
  "preserves (in_component r) (bindE (ConstructPubSubPortPb g limit p suffix) (add_connectable_port r))"
  "preserves (in_component r) (bindE (ConstructReqRepPortPb g limit p suffix) (add_connectable_port r))"
  "preserves (in_component r) (bindE (ConstructPeriodicPb g stod p suffix) (add_port r))"
  "preserves (in_component r) (bindE (ConstructWorkerPb g stod w suffix) (add_worker r))"
  unfolding ConstructPubSubPortPb_def ConstructReqRepPortPb_def
     apply (rule preserves_bindE_gives [OF in_component_construct(1) unconnected_port_message in_component_add_connectable_port], assumption)
    apply (rule preserves_bindE_gives [OF in_component_construct(1) unconnected_port_message in_component_add_connectable_port], assumption)
  by (intro preserves_bindE in_component_construct in_component_add_port in_component_add_worker)+

lemma add_component_run:
  assumes "building mp" and "valid_container (mp_experiment mp) ct"
  shows "\<exists>r mp'. add_component ct i mp = (Inr r, mp') \<and> in_component r mp'"
proof -
  let ?c = "\<lparr>cpb_info = Info_default, cpb_ports = [], cpb_attributes = [], cpb_workers = [], cpb_replicate_indices = [], cpb_location = []\<rparr>"
  let ?f = "\<lambda>ct. ct\<lparr>ctpb_components := ctpb_components ct @ [?c]\<rparr>"
  let ?r = "(ct, length (ctpb_components (msg_container (mp_experiment mp) ct)))"
  let ?ex' = "upd_msg_container ct ?f (mp_experiment mp)"
  let ?mp = "mp\<lparr>mp_experiment := ?ex', mp_component_replications := umap_push_back i ?r (mp_component_replications mp)\<rparr>"
  have run: "add_component ct i mp = (Inr ?r, ?mp)"
    by (simp add: add_component_def on_experiment_def bindE_def returnE_def Let_def)
  have e: "extends (mp_experiment mp) ?ex'" by (rule extends_container) simp
  have "building ?mp" by (rule building_extends [OF assms(1)]) (simp_all add: e)
  moreover have "valid_component ?ex' ?r" using assms(2) upd_container_at [of "mp_experiment mp" ct ct ?f] by (simp add: valid_component_def)
  ultimately show ?thesis using run by simp
qed

lemma building_in_component:
  assumes "\<And>r. preserves (in_component r) (f r)" and "building mp" and "valid_container (mp_experiment mp) ct"
  shows "building (snd (bindE (add_component ct i) f mp))"
proof -
  obtain r mp' where r: "add_component ct i mp = (Inr r, mp')" "in_component r mp'" using add_component_run [OF assms(2,3)] by blast
  then have "in_component r (snd (f r mp'))" using assms(1) [of r] unfolding preserves_def by blast
  then show ?thesis using r(1) by (simp add: bindE_def)
qed

lemma building_at_container:
  assumes "\<And>r. preserves (in_component r) (f r)"
  shows "preserves building (bindE getE (\<lambda>mp. bindE (liftE (h mp)) (\<lambda>d.
     case (if d = [] then None else map_of (mp_container_message_map mp) d) of
       None \<Rightarrow> returnE () | Some ct \<Rightarrow> bindE (add_component ct i) f)))"
proof (rule preservesI)
  fix mp assume b: "building mp"
  have g: "building (snd (bindE (add_component ct i) f mp))" if "map_of (mp_container_message_map mp) d = Some ct" for ct d
    by (rule building_in_component [OF assms b]) (use b that in \<open>simp add: building_def refs_ok_def\<close>)
  show "building (snd (bindE getE (\<lambda>mp. bindE (liftE (h mp)) (\<lambda>d.
     case (if d = [] then None else map_of (mp_container_message_map mp) d) of
       None \<Rightarrow> returnE () | Some ct \<Rightarrow> bindE (add_component ct i) f)) mp))"
  proof (cases "h mp")
    case (Inr d)
    have run: "bindE getE F mp = F mp mp" "bindE (liftE (Inr d)) G mp = G d mp" for F :: "ModelParser \<Rightarrow> (ModelParser, unit) em" and G
      by (simp_all add: bindE_def liftE_def)
    show ?thesis unfolding run Inr using b g [of d]
      by (cases "if d = [] then None else map_of (mp_container_message_map mp) d") (auto simp: returnE_def split: if_splits)
  qed (use b in \<open>simp add: bindE_def liftE_def\<close>)
qed

lemma building_ParseComponent: "preserves building (ParseComponent g limit stod cr)"
  unfolding ParseComponent_def Let_def
  apply (intro preserves_bind_liftE preserves_bindE [OF in_component_lookups(4)] building_at_container)
  apply (intro in_component_messages preserves_bind_liftE preserves_bindE in_component_Fill preserves_forE
      preserves_building_experiment extends_component)
  apply simp
  done

section \<open>Before and after\<close>

text \<open>While the hardware is read, no port is entered.\<close>

definition hardware_only :: "ModelParser \<Rightarrow> bool" where
  "hardware_only mp \<longleftrightarrow> mp_port_replicate_id_map mp = [] \<and> mp_external_port_id_map mp = [] \<and>
     (\<forall>i r. map_of (mp_container_message_map mp) i = Some r \<longrightarrow> valid_container (mp_experiment mp) r) \<and>
     (\<forall>i c. map_of (mp_cluster_message_map mp) i = Some c \<longrightarrow> c < length (expb_clusters (mp_experiment mp))) \<and>
     (\<forall>i c n. map_of (mp_node_message_map mp) i = Some (c, n) \<longrightarrow> c < length (expb_clusters (mp_experiment mp)) \<and>
        n < length (clpb_nodes (expb_clusters (mp_experiment mp) ! c)))"

lemma hardware_only_building: "hardware_only mp \<Longrightarrow> building mp"
  by (simp add: hardware_only_def building_def refs_ok_def unconnected_def)

definition more_hardware :: "Experiment_pb \<Rightarrow> Experiment_pb \<Rightarrow> bool" where
  "more_hardware ex ex' \<longleftrightarrow> (\<forall>r. valid_container ex r \<longrightarrow> valid_container ex' r) \<and>
     length (expb_clusters ex) \<le> length (expb_clusters ex') \<and>
     (\<forall>c < length (expb_clusters ex). length (clpb_nodes (expb_clusters ex ! c)) \<le> length (clpb_nodes (expb_clusters ex' ! c)))"

lemma more_cluster: "more_hardware ex (ex\<lparr>expb_clusters := expb_clusters ex @ [cl]\<rparr>)"
  unfolding more_hardware_def by (auto simp: nth_append elim: valid_container.elims)

lemma more_upd_cluster:
  assumes "\<And>cl. length (clpb_containers cl) \<le> length (clpb_containers (f cl))"
    and "\<And>cl. length (clpb_nodes cl) \<le> length (clpb_nodes (f cl))"
    and "\<And>cl n. n < length (clpb_nodes cl) \<Longrightarrow> length (npb_containers (clpb_nodes cl ! n)) \<le> length (npb_containers (clpb_nodes (f cl) ! n))"
  shows "more_hardware ex (ex\<lparr>expb_clusters := nth_upd c f (expb_clusters ex)\<rparr>)"
proof -
  have "valid_container (ex\<lparr>expb_clusters := nth_upd c f (expb_clusters ex)\<rparr>) r" if "valid_container ex r" for r
    using that assms by (cases r) (auto simp: nth_upd_nth intro: order.strict_trans2)
  then show ?thesis using assms(2) by (simp add: more_hardware_def nth_upd_nth)
qed

lemma hardware_only_step:
  assumes "hardware_only mp" and "more_hardware (mp_experiment mp) (mp_experiment mp')"
    and "mp_port_replicate_id_map mp' = mp_port_replicate_id_map mp" "mp_external_port_id_map mp' = mp_external_port_id_map mp"
    and "mp_container_message_map mp' = umap_put i r (mp_container_message_map mp)" "valid_container (mp_experiment mp') r"
    and "\<And>j c. map_of (mp_cluster_message_map mp') j = Some c \<Longrightarrow>
      map_of (mp_cluster_message_map mp) j = Some c \<or> c < length (expb_clusters (mp_experiment mp'))"
    and "\<And>j c n. map_of (mp_node_message_map mp') j = Some (c, n) \<Longrightarrow> map_of (mp_node_message_map mp) j = Some (c, n) \<or>
      c < length (expb_clusters (mp_experiment mp')) \<and> n < length (clpb_nodes (expb_clusters (mp_experiment mp') ! c))"
  shows "hardware_only mp'"
proof -
  have "c < length (expb_clusters (mp_experiment mp'))" if "map_of (mp_cluster_message_map mp') j = Some c" for j c
    using assms(7) [OF that] assms(1,2) unfolding hardware_only_def more_hardware_def by (meson order.strict_trans2)
  moreover have "c < length (expb_clusters (mp_experiment mp')) \<and> n < length (clpb_nodes (expb_clusters (mp_experiment mp') ! c))"
    if "map_of (mp_node_message_map mp') j = Some (c, n)" for j c n
    using assms(8) [OF that] assms(1,2) unfolding hardware_only_def more_hardware_def by (meson order.strict_trans2)
  ultimately show ?thesis using assms(1-6) unfolding hardware_only_def more_hardware_def by (auto split: if_splits)
qed

lemma hardware_only_ParseCluster: "preserves hardware_only (ParseCluster g i)"
  unfolding ParseCluster_def Let_def
  by (rule preserves_modifyE, erule hardware_only_step) (auto simp: more_cluster split: if_splits)

lemma hardware_only_ParseHardwareNode: "preserves hardware_only (ParseHardwareNode g i)"
  unfolding ParseHardwareNode_def Let_def
proof (rule preserves_modifyE, goal_cases)
  case (1 mp)
  then have c: "c < length (expb_clusters (mp_experiment mp))" if "map_of (mp_cluster_message_map mp) j = Some c" for j c
    using that by (simp add: hardware_only_def)
  show ?case using 1
    by (auto split: option.split intro!: hardware_only_step [OF 1] more_upd_cluster simp: nth_append nth_upd_nth c split: if_splits)
qed

lemma hardware_only_ParseDeploymentContainer: "preserves hardware_only (ParseDeploymentContainer g i)"
  unfolding ParseDeploymentContainer_def Let_def
proof (rule preserves_modifyE, goal_cases)
  case (1 mp)
  then have c: "c < length (expb_clusters (mp_experiment mp))" if "map_of (mp_cluster_message_map mp) j = Some c" for j c
    using that by (simp add: hardware_only_def)
  have n: "c < length (expb_clusters (mp_experiment mp)) \<and> n < length (clpb_nodes (expb_clusters (mp_experiment mp) ! c))"
    if "map_of (mp_node_message_map mp) j = Some (c, n)" for j c n
    using that 1 unfolding hardware_only_def by blast
  show ?case using 1
    by (auto split: option.split intro!: hardware_only_step [OF 1] more_upd_cluster simp: nth_append nth_upd_nth c n split: if_splits)
qed

lemma external_elsewhere [simp]:
  "msg_container (ex\<lparr>expb_external_ports := es\<rparr>) r = msg_container ex r"
  "valid_container (ex\<lparr>expb_external_ports := es\<rparr>) r = valid_container ex r"
  "msg_component (ex\<lparr>expb_external_ports := es\<rparr>) q = msg_component ex q"
  "valid_component (ex\<lparr>expb_external_ports := es\<rparr>) q = valid_component ex q"
  "msg_port (ex\<lparr>expb_external_ports := es\<rparr>) p = msg_port ex p"
  "valid_port (ex\<lparr>expb_external_ports := es\<rparr>) p = valid_port ex p"
proof -
  show c: "msg_container (ex\<lparr>expb_external_ports := es\<rparr>) r = msg_container ex r"
    "valid_container (ex\<lparr>expb_external_ports := es\<rparr>) r = valid_container ex r" for r by (cases r; simp)+
  show d: "msg_component (ex\<lparr>expb_external_ports := es\<rparr>) q = msg_component ex q"
    "valid_component (ex\<lparr>expb_external_ports := es\<rparr>) q = valid_component ex q" for q
    by (simp_all add: msg_component_def valid_component_def c)
  show "msg_port (ex\<lparr>expb_external_ports := es\<rparr>) p = msg_port ex p" "valid_port (ex\<lparr>expb_external_ports := es\<rparr>) p = valid_port ex p"
    by (simp_all add: msg_port_def valid_port_def d)
qed

lemma building_ParseExternalDelegate: "preserves building (ParseExternalDelegate g i)"
  unfolding ParseExternalDelegate_def Let_def
  by (intro preserves_bind_liftE preserves_modifyE)
    (auto simp: building_def refs_ok_def unconnected_def nth_append umap_emplace_def
      intro: less_SucI split: if_splits)

lemma building_loggers: "preserves building (ParseLoggingClient g stod i)" "preserves building (ParseLoggingServer g i)"
  unfolding ParseLoggingClient_def ParseLoggingServer_def add_logger_def
  by (intro pres preserves_building_experiment extends_container, simp)+

section \<open>Connecting\<close>

definition linked :: "(string, port_path) umap \<Rightarrow> (string, nat) umap \<Rightarrow> ModelParser \<Rightarrow> bool" where
  "linked ports eports mp \<longleftrightarrow> refs_ok mp \<and> wired mp \<and> mp_port_replicate_id_map mp = ports \<and> mp_external_port_id_map mp = eports"

text \<open>A port is entered under its own id only, so that one entry changes the list of one id.\<close>

lemma refs_ok_id: "refs_ok mp \<Longrightarrow> map_of (mp_port_replicate_id_map mp) i = Some r \<Longrightarrow> map_of (mp_port_replicate_id_map mp) j = Some r \<Longrightarrow> i = j"
  unfolding refs_ok_def by metis

lemma refs_ok_external_id:
  "refs_ok mp \<Longrightarrow> map_of (mp_external_port_id_map mp) i = Some e \<Longrightarrow> map_of (mp_external_port_id_map mp) j = Some e \<Longrightarrow> i = j"
  unfolding refs_ok_def by metis

lemma refs_ok_upd_port:
  assumes "refs_ok mp" and "\<And>p. ppb_info (f p) = ppb_info p"
  shows "refs_ok (mp\<lparr>mp_experiment := upd_msg_port r f (mp_experiment mp)\<rparr>)"
proof -
  have "valid_container (upd_msg_port r f ex) q" if "valid_container ex q" for ex q
    using upd_container_at [OF that] by (simp add: upd_msg_port_def upd_msg_component_def)
  then show ?thesis using assms upd_port_at [of "mp_experiment mp" _ r f] by (auto simp: refs_ok_def)
qed

abbreviation run_unit :: "(ModelParser, unit) em \<Rightarrow> ModelParser \<Rightarrow> ModelParser" where
  "run_unit m mp \<equiv> snd (m mp)"

lemma add_connected_port_run:
  fixes t :: string
  assumes "refs_ok mp" and "map_of (mp_port_replicate_id_map mp) s = Some r"
  defines "mp' \<equiv> run_unit (add_connected_port r t) mp"
  shows "refs_ok mp'" "mp_port_replicate_id_map mp' = mp_port_replicate_id_map mp" "mp_external_port_id_map mp' = mp_external_port_id_map mp"
    "connections_of mp' i = connections_of mp i @ (if i = s then [t] else [])"
    "external_connections_of mp' i = external_connections_of mp i" "connections_of_external mp' e = connections_of_external mp e"
proof -
  let ?f = "\<lambda>p. p\<lparr>ppb_connected_ports := ppb_connected_ports p @ [t]\<rparr>"
  have mp': "mp' = mp\<lparr>mp_experiment := upd_msg_port r ?f (mp_experiment mp)\<rparr>"
    by (simp add: mp'_def add_connected_port_def on_experiment_def modifyE_def)
  show "refs_ok mp'" unfolding mp' by (rule refs_ok_upd_port [OF assms(1)]) simp
  have v: "valid_port (mp_experiment mp) q" if "map_of (mp_port_replicate_id_map mp) j = Some q" for j q
    using that assms(1) by (simp add: refs_ok_def)
  show "connections_of mp' i = connections_of mp i @ (if i = s then [t] else [])"
  proof (cases "i = s")
    case True
    then show ?thesis using assms(2) by (simp add: connections_of_def mp' upd_port_at v)
  next
    case False
    then have "map_of (mp_port_replicate_id_map mp) i \<noteq> Some r" using refs_ok_id [OF assms(1,2)] by blast
    then show ?thesis using False by (auto simp: connections_of_def mp' upd_port_at v split: option.split)
  qed
  show "external_connections_of mp' i = external_connections_of mp i"
    by (auto simp: external_connections_of_def mp' upd_port_at v split: option.split)
  show "mp_port_replicate_id_map mp' = mp_port_replicate_id_map mp" "mp_external_port_id_map mp' = mp_external_port_id_map mp"
    by (simp_all add: mp')
  show "connections_of_external mp' e = connections_of_external mp e"
    by (simp add: mp' connections_of_external_def cong: option.case_cong)
qed

lemma add_connected_external_port_run:
  fixes t :: string
  assumes "refs_ok mp" and "map_of (mp_port_replicate_id_map mp) s = Some r"
  defines "mp' \<equiv> run_unit (add_connected_external_port r t) mp"
  shows "refs_ok mp'" "mp_port_replicate_id_map mp' = mp_port_replicate_id_map mp" "mp_external_port_id_map mp' = mp_external_port_id_map mp"
    "external_connections_of mp' i = external_connections_of mp i @ (if i = s then [t] else [])"
    "connections_of mp' i = connections_of mp i" "connections_of_external mp' e = connections_of_external mp e"
proof -
  let ?f = "\<lambda>p. p\<lparr>ppb_connected_external_ports := ppb_connected_external_ports p @ [t]\<rparr>"
  have mp': "mp' = mp\<lparr>mp_experiment := upd_msg_port r ?f (mp_experiment mp)\<rparr>"
    by (simp add: mp'_def add_connected_external_port_def on_experiment_def modifyE_def)
  show "refs_ok mp'" unfolding mp' by (rule refs_ok_upd_port [OF assms(1)]) simp
  have v: "valid_port (mp_experiment mp) q" if "map_of (mp_port_replicate_id_map mp) j = Some q" for j q
    using that assms(1) by (simp add: refs_ok_def)
  show "external_connections_of mp' i = external_connections_of mp i @ (if i = s then [t] else [])"
  proof (cases "i = s")
    case True
    then show ?thesis using assms(2) by (simp add: external_connections_of_def mp' upd_port_at v)
  next
    case False
    then have "map_of (mp_port_replicate_id_map mp) i \<noteq> Some r" using refs_ok_id [OF assms(1,2)] by blast
    then show ?thesis using False by (auto simp: external_connections_of_def mp' upd_port_at v split: option.split)
  qed
  show "connections_of mp' i = connections_of mp i"
    by (auto simp: connections_of_def mp' upd_port_at v split: option.split)
  show "mp_port_replicate_id_map mp' = mp_port_replicate_id_map mp" "mp_external_port_id_map mp' = mp_external_port_id_map mp"
    by (simp_all add: mp')
  show "connections_of_external mp' e = connections_of_external mp e"
    by (simp add: mp' connections_of_external_def cong: option.case_cong)
qed

lemma external_add_connected_port_run:
  fixes t :: string
  assumes "refs_ok mp" and "map_of (mp_external_port_id_map mp) s = Some r"
  defines "mp' \<equiv> run_unit (external_add_connected_port r t) mp"
  shows "refs_ok mp'" "mp_port_replicate_id_map mp' = mp_port_replicate_id_map mp" "mp_external_port_id_map mp' = mp_external_port_id_map mp"
    "connections_of_external mp' i = connections_of_external mp i @ (if i = s then [t] else [])"
    "connections_of mp' j = connections_of mp j" "external_connections_of mp' j = external_connections_of mp j"
proof -
  let ?f = "\<lambda>p. p\<lparr>epb_connected_ports := epb_connected_ports p @ [t]\<rparr>"
  have mp': "mp' = mp\<lparr>mp_experiment := upd_msg_external_port r ?f (mp_experiment mp)\<rparr>"
    by (simp add: mp'_def external_add_connected_port_def on_experiment_def modifyE_def)
  have v: "q < length (expb_external_ports (mp_experiment mp))" if "map_of (mp_external_port_id_map mp) j = Some q" for j q
    using that assms(1) by (simp add: refs_ok_def)
  show "refs_ok mp'" using assms(1) by (auto simp: mp' refs_ok_def upd_msg_external_port_def nth_upd_nth)
  show "connections_of_external mp' i = connections_of_external mp i @ (if i = s then [t] else [])"
  proof (cases "i = s")
    case True
    then show ?thesis using assms(2) by (simp add: connections_of_external_def mp' upd_msg_external_port_def nth_upd_nth v)
  next
    case False
    then have "map_of (mp_external_port_id_map mp) i \<noteq> Some r" using refs_ok_external_id [OF assms(1,2)] by blast
    then show ?thesis using False by (auto simp: connections_of_external_def mp' upd_msg_external_port_def nth_upd_nth v split: option.split)
  qed
  have p: "msg_port (upd_msg_external_port x h ex) q = msg_port ex q" for x h ex q
    unfolding upd_msg_external_port_def by (rule external_elsewhere)
  show "connections_of mp' j = connections_of mp j" "external_connections_of mp' j = external_connections_of mp j"
    by (simp_all add: mp' connections_of_def external_connections_of_def p cong: option.case_cong)
  show "mp_port_replicate_id_map mp' = mp_port_replicate_id_map mp" "mp_external_port_id_map mp' = mp_external_port_id_map mp"
    by (simp_all add: mp')
qed

text \<open>Entries come in pairs.\<close>

lemma linked_connect_ports:
  assumes "map_of ports s = Some r"
  shows "preserves (linked ports eports) (connect_ports r s t)"
  unfolding connect_ports_def
proof (rule preserves_getE_then)
  fix mp assume l: "linked ports eports mp"
  show "preserves (linked ports eports) (case map_of (mp_port_replicate_id_map mp) t of None \<Rightarrow> returnE ()
     | Some q \<Rightarrow> bindE (add_connected_port r t) (\<lambda>_. add_connected_port q s))"
  proof (cases "map_of ports t")
    case (Some q)
    have "linked ports eports (snd (bindE (add_connected_port r t) (\<lambda>_. add_connected_port q s) mp'))" if l: "linked ports eports mp'" for mp'
    proof -
      define mp1 where "mp1 = run_unit (add_connected_port r t) mp'"
      define mp2 where "mp2 = run_unit (add_connected_port q s) mp1"
      have run: "snd (bindE (add_connected_port r t) (\<lambda>_. add_connected_port q s) mp') = mp2"
        by (simp add: mp2_def mp1_def add_connected_port_def on_experiment_def bindE_def modifyE_def)
      have "refs_ok mp'" "map_of (mp_port_replicate_id_map mp') s = Some r" using l assms by (simp_all add: linked_def)
      note one = add_connected_port_run [OF this, of t, folded mp1_def]
      have "map_of (mp_port_replicate_id_map mp1) t = Some q" using l Some one(2) by (simp add: linked_def)
      note two = add_connected_port_run [OF one(1) this, of s, folded mp2_def]
      show ?thesis unfolding run using l by (simp add: linked_def wired_def one two)
    qed
    then show ?thesis using l Some by (simp add: linked_def preserves_def)
  qed (use l in \<open>simp add: linked_def preserves_returnE\<close>)
qed

lemma external_commute: "upd_msg_external_port x h (upd_msg_port r f ex) = upd_msg_port r f (upd_msg_external_port x h ex)"
proof -
  have "upd_msg_container q k (ex\<lparr>expb_external_ports := es\<rparr>) = (upd_msg_container q k ex)\<lparr>expb_external_ports := es\<rparr>" for q k es
    by (cases q) simp_all
  then have "upd_msg_port r f (ex\<lparr>expb_external_ports := es\<rparr>) = (upd_msg_port r f ex)\<lparr>expb_external_ports := es\<rparr>" for es
    by (simp add: upd_msg_port_def upd_msg_component_def)
  then show ?thesis by (simp add: upd_msg_external_port_def)
qed

lemma linked_delegate:
  assumes "map_of ports i = Some r" and "map_of eports e = Some x"
  shows "preserves (linked ports eports) (bindE (external_add_connected_port x i) (\<lambda>_. add_connected_external_port r e))"
    and "preserves (linked ports eports) (bindE (add_connected_external_port r e) (\<lambda>_. external_add_connected_port x i))"
proof -
  have a: "linked ports eports (snd (bindE (external_add_connected_port x i) (\<lambda>_. add_connected_external_port r e) mp))"
    if l: "linked ports eports mp" for mp
  proof -
    define mp1 where "mp1 = run_unit (external_add_connected_port x i) mp"
    define mp2 where "mp2 = run_unit (add_connected_external_port r e) mp1"
    have run: "snd (bindE (external_add_connected_port x i) (\<lambda>_. add_connected_external_port r e) mp) = mp2"
      by (simp add: mp2_def mp1_def add_connected_external_port_def external_add_connected_port_def on_experiment_def bindE_def modifyE_def)
    have "refs_ok mp" "map_of (mp_external_port_id_map mp) e = Some x" using l assms by (simp_all add: linked_def)
    note one = external_add_connected_port_run [OF this, of i, folded mp1_def]
    have "map_of (mp_port_replicate_id_map mp1) i = Some r" using l assms one(2) by (simp add: linked_def)
    note two = add_connected_external_port_run [OF one(1) this, of e, folded mp2_def]
    show ?thesis unfolding run using l by (auto simp: linked_def wired_def one two)
  qed
  have swap: "snd (bindE (add_connected_external_port r e) (\<lambda>_. external_add_connected_port x i) mp) =
      snd (bindE (external_add_connected_port x i) (\<lambda>_. add_connected_external_port r e) mp)" for mp
    by (simp add: add_connected_external_port_def external_add_connected_port_def on_experiment_def bindE_def modifyE_def
        external_commute)
  show "preserves (linked ports eports) (bindE (external_add_connected_port x i) (\<lambda>_. add_connected_external_port r e))"
    "preserves (linked ports eports) (bindE (add_connected_external_port r e) (\<lambda>_. external_add_connected_port x i))"
    using a by (simp_all add: preserves_def swap)
qed

lemma linked_connect_replication: "preserves (linked ports eports) (connect_replication g ac i r)"
  unfolding connect_replication_def Let_def
proof (rule preserves_getE_then, goal_cases)
  case (1 mp)
  then have "mp_port_replicate_id_map mp = ports" by (simp add: linked_def)
  then show ?case
    by (auto split: option.split intro!: pres linked_connect_ports)
qed

lemma linked_connect_delegate:
  assumes "map_of eports e = Some x"
  shows "preserves (linked ports eports) (connect_delegate b x e i r)"
  unfolding connect_delegate_def Let_def
proof (rule preserves_getE_then, goal_cases)
  case (1 mp)
  then have "mp_port_replicate_id_map mp = ports" by (simp add: linked_def)
  then show ?case by (auto split: option.split intro!: pres linked_delegate assms)
qed

lemma linked_CalculateConnection: "preserves (linked ports eports) (CalculateConnection g ac)"
  unfolding CalculateConnection_def Let_def
proof (rule preserves_getE_then, goal_cases)
  case (1 mp)
  then have "mp_external_port_id_map mp = eports" by (simp add: linked_def)
  then show ?case by (auto split: option.split intro!: pres linked_connect_replication linked_connect_delegate)
qed

definition well_wired :: "ModelParser \<Rightarrow> bool" where
  "well_wired mp \<longleftrightarrow> refs_ok mp \<and> wired mp \<and>
     (\<Union>s. set (connections_of mp s)) \<subseteq> dom (map_of (mp_port_replicate_id_map mp)) \<and>
     (\<Union>s. set (external_connections_of mp s)) \<subseteq> dom (map_of (mp_external_port_id_map mp)) \<and>
     (\<Union>e. set (connections_of_external mp e)) \<subseteq> dom (map_of (mp_port_replicate_id_map mp))"

text \<open>Only entered ports list anything, so by symmetry only entered ports are listed.\<close>

lemma well_wiredI:
  assumes "refs_ok mp" and "wired mp"
  shows "well_wired mp"
proof -
  have member: "h \<noteq> []" if "x \<in> set f" "count_list f x = count_list h y" for f h :: "string list" and x y
    using that by (auto simp: count_list_0_iff)
  have "map_of (mp_port_replicate_id_map mp) t \<noteq> None" if "t \<in> set (connections_of mp s)" for s t
  proof
    assume "map_of (mp_port_replicate_id_map mp) t = None"
    then have "connections_of mp t = []" by (simp add: connections_of_def)
    moreover have "connections_of mp t \<noteq> []" by (rule member [OF that, of _ s]) (use assms(2) in \<open>unfold wired_def, blast\<close>)
    ultimately show False by simp
  qed
  moreover have "map_of (mp_external_port_id_map mp) e \<noteq> None" if "e \<in> set (external_connections_of mp s)" for s e
  proof
    assume "map_of (mp_external_port_id_map mp) e = None"
    then have "connections_of_external mp e = []" by (simp add: connections_of_external_def)
    moreover have "connections_of_external mp e \<noteq> []" by (rule member [OF that, of _ s]) (use assms(2) in \<open>unfold wired_def, blast\<close>)
    ultimately show False by simp
  qed
  moreover have "map_of (mp_port_replicate_id_map mp) s \<noteq> None" if "s \<in> set (connections_of_external mp e)" for s e
  proof
    assume "map_of (mp_port_replicate_id_map mp) s = None"
    then have "external_connections_of mp s = []" by (simp add: external_connections_of_def)
    moreover have "external_connections_of mp s \<noteq> []" by (rule member [OF that, of _ e]) (use assms(2) in \<open>unfold wired_def, metis\<close>)
    ultimately show False by simp
  qed
  ultimately show ?thesis using assms by (auto simp: well_wired_def)
qed

lemma building_well_wired: "building mp \<Longrightarrow> well_wired mp"
  by (simp add: building_def unconnected_wired well_wiredI)

lemma well_wired_CalculateReplication: "building mp \<Longrightarrow> well_wired (snd (CalculateReplication g mp))"
proof -
  assume "building mp"
  then have "linked (mp_port_replicate_id_map mp) (mp_external_port_id_map mp) mp"
    by (simp add: building_def unconnected_wired linked_def)
  moreover have "preserves (linked ports eports) (CalculateReplication g)" for ports eports
    unfolding CalculateReplication_def by (intro pres linked_CalculateConnection)
  ultimately have "linked (mp_port_replicate_id_map mp) (mp_external_port_id_map mp) (snd (CalculateReplication g mp))"
    unfolding preserves_def by blast
  then show ?thesis by (simp add: linked_def well_wiredI)
qed

lemma bindE_reaches:
  assumes "preserves I m" and "\<And>s. I s \<Longrightarrow> J s" and "\<And>a s. I s \<Longrightarrow> J (snd (f a s))" and "I s"
  shows "J (snd (bindE m f s))"
proof -
  obtain r s' where r: "m s = (r, s')" by (cases "m s")
  then have "I s'" using assms(1,4) by (auto dest: preservesD)
  then show ?thesis using r assms(2,3) by (cases r) (simp_all add: bindE_def)
qed

lemma building_Process:
  "building mp \<Longrightarrow> well_wired (snd (bindE (ParseExternalDelegates g) (\<lambda>_. bindE (ParseLoggingClients g stod) (\<lambda>_.
     bindE (ParseLoggingServers g) (\<lambda>_. bindE (ParseComponents g limit stod) (\<lambda>_. CalculateReplication g)))) mp))"
proof -
  have p: "preserves building (ParseExternalDelegates g)" "preserves building (ParseLoggingClients g stod)"
    "preserves building (ParseLoggingServers g)" "preserves building (ParseComponents g limit stod)"
    unfolding ParseExternalDelegates_def ParseLoggingClients_def ParseLoggingServers_def ParseComponents_def
    by (intro pres building_ParseExternalDelegate building_loggers building_ParseComponent)+
  assume "building mp"
  then show ?thesis
    by (intro bindE_reaches [where I = building and J = well_wired] p building_well_wired well_wired_CalculateReplication)
qed

definition unbuilt :: "ModelParser \<Rightarrow> bool" where
  "unbuilt mp \<longleftrightarrow> (case built mp of (ex, cts, cls, ns, ports, eports) \<Rightarrow> cts = [] \<and> cls = [] \<and> ns = [] \<and> ports = [] \<and> eports = [])"

lemma unbuilt_building: "unbuilt mp \<Longrightarrow> building mp"
  by (simp add: unbuilt_def built_def building_def refs_ok_def unconnected_def)

lemma well_wired_Process: "unbuilt mp \<Longrightarrow> well_wired (snd (Process g limit stod mp))"
proof -
  let ?mp = "mp\<lparr>mp_experiment := Experiment_default\<lparr>expb_name := mp_experiment_id mp\<rparr>\<rparr>"
  assume "unbuilt mp"
  then have h: "hardware_only ?mp" by (simp add: unbuilt_def built_def hardware_only_def)
  have p: "preserves hardware_only (ParseHardwareItems g)"
    unfolding ParseHardwareItems_def
    by (intro pres hardware_only_ParseCluster hardware_only_ParseHardwareNode hardware_only_ParseDeploymentContainer)
  have "well_wired (snd (bindE (ParseHardwareItems g) (\<lambda>_. bindE (ParseExternalDelegates g) (\<lambda>_. bindE (ParseLoggingClients g stod) (\<lambda>_.
     bindE (ParseLoggingServers g) (\<lambda>_. bindE (ParseComponents g limit stod) (\<lambda>_. CalculateReplication g))))) ?mp))"
    by (rule bindE_reaches [where J = well_wired, OF p _ _ h]) (simp_all add: hardware_only_building building_well_wired building_Process)
  then show ?thesis unfolding Process_def by (subst bindE_def) (simp add: modifyE_def)
qed

text \<open>
  C11. Connections are symmetric. Whatever the model says: every entry of
  the tables of ports names a port of the message that carries its id; two ports list each other as connected
  equally often, and so do a port and an external port; and nothing but ids of entered ports is listed. So
  the environment manager finds both ends of each connection.
\<close>
theorem connections_symmetric: "well_wired (snd (ProtobufModelParser_ctor g limit stod experiment_id))"
  unfolding ProtobufModelParser_ctor_def
proof (rule bindE_reaches [where I = unbuilt])
  show "preserves unbuilt (PreProcess g limit)" unfolding unbuilt_def by (rule built_PreProcess)
  show "unbuilt (ModelParser_init experiment_id)" by (simp add: unbuilt_def built_def ModelParser_init_def)
qed (simp_all add: unbuilt_building building_well_wired well_wired_Process)

declare split_paired_All [simp]

end
