(* ===== verification/MQWriter.thy ===== *)
theory MQWriter
  imports ProtoRPC
begin

text \<open>
  Publishing messages: \<open>ProtoWriter\<close> (\<^verbatim>\<open>re/re_common/zmq/protowriter/protowriter.cpp\<close>) sends a message at
  once, \<open>CachedProtoWriter\<close> (\<^verbatim>\<open>cachedprotowriter.cpp\<close>) keeps messages in a queue that a thread of its own
  empties into a file, and sends everything when it is terminated, so that the measured program is not
  disturbed by the network.

  \<^item> A frame is what goes over the socket: topic, type name, serialised message. \<open>ser\<close> gives the last two.
  \<^item> Strings of bytes in the file are written with protobuf's variable length integers, which are the
    parameters \<open>enc\<close> and \<open>dec\<close>; the law they obey is \<open>varint_laws\<close>.
  \<^item> The socket of a publisher has no high water mark: a send does not block. \<open>send_ok\<close> says which frames
    ZeroMQ accepts without an error.
\<close>

type_synonym frame = "string \<times> string \<times> string"

definition frame_of :: "('m \<Rightarrow> string \<times> string) \<Rightarrow> string \<times> 'm \<Rightarrow> frame" where
  "frame_of ser tm = (fst tm, fst (ser (snd tm)), snd (ser (snd tm)))"

section \<open>The plain writer\<close>

record ProtoWriter =
  pw_tx_count :: "64 word"
  pw_backpressure :: int
  pw_backpressure_update_time :: int
  pw_socket :: bool
  pw_sent :: "frame list"

text \<open>Times are in microseconds. \<open>pw_sent\<close> is what the socket has taken, in order.\<close>

definition ProtoWriter_ctor :: ProtoWriter where
  "ProtoWriter_ctor = \<lparr>pw_tx_count = 0, pw_backpressure = 0, pw_backpressure_update_time = 0, pw_socket = True, pw_sent = []\<rparr>"

definition message_process_delay :: int where
  "message_process_delay = 200"

definition BindPublisherSocket :: "(string \<Rightarrow> bool) \<Rightarrow> string \<Rightarrow> ProtoWriter \<Rightarrow> bool" where
  "BindPublisherSocket bind_ok endpoint pw = (pw_socket pw \<and> bind_ok endpoint)"

definition UpdateBackpressure :: "int \<Rightarrow> bool \<Rightarrow> ProtoWriter \<Rightarrow> ProtoWriter" where
  "UpdateBackpressure now increment_sender pw =
     (let duration_us = now - pw_backpressure_update_time pw;
          initial_message = (pw_tx_count pw = 0);
          pw = (if initial_message then pw\<lparr>pw_backpressure_update_time := now\<rparr> else pw);
          pw = (if increment_sender then pw\<lparr>pw_backpressure := pw_backpressure pw + 1, pw_tx_count := pw_tx_count pw + 1\<rparr> else pw);
          message_count = duration_us div message_process_delay
      in if \<not> initial_message \<and> 0 < message_count
         then pw\<lparr>pw_backpressure := max 0 (pw_backpressure pw - message_count), pw_backpressure_update_time := now\<rparr>
         else pw)"

definition PushString :: "(frame \<Rightarrow> bool) \<Rightarrow> int \<Rightarrow> frame \<Rightarrow> ProtoWriter \<Rightarrow> bool \<times> ProtoWriter" where
  "PushString send_ok now f pw =
     (if pw_socket pw \<and> send_ok f then (True, UpdateBackpressure now True (pw\<lparr>pw_sent := pw_sent pw @ [f]\<rparr>)) else (False, pw))"

definition ProtoWriter_PushMessage ::
    "('m \<Rightarrow> string \<times> string) \<Rightarrow> (frame \<Rightarrow> bool) \<Rightarrow> int \<Rightarrow> string \<Rightarrow> 'm option \<Rightarrow> ProtoWriter \<Rightarrow> bool \<times> ProtoWriter" where
  "ProtoWriter_PushMessage ser send_ok now topic message pw = (case message of
     None \<Rightarrow> (False, pw) | Some m \<Rightarrow> PushString send_ok now (frame_of ser (topic, m)) pw)"

text \<open>\<open>Terminate\<close>, with the time it sleeps.\<close>

definition ProtoWriter_Terminate :: "int \<Rightarrow> ProtoWriter \<Rightarrow> int \<times> ProtoWriter" where
  "ProtoWriter_Terminate now pw =
     (let pw = UpdateBackpressure now False pw; back = pw_backpressure pw
      in (if 0 < back then message_process_delay * back else 0, pw\<lparr>pw_socket := False\<rparr>))"

section \<open>The cache file\<close>

definition WriteDelimitedTo :: "(32 word \<Rightarrow> string) \<Rightarrow> frame \<Rightarrow> string" where
  "WriteDelimitedTo enc f = (case f of (topic, type_name, data) \<Rightarrow>
     enc (word_of_nat (length topic)) @ topic @ enc (word_of_nat (length type_name)) @ type_name @
     enc (word_of_nat (length data)) @ data)"

text \<open>\<open>ReadString\<close> takes an \<open>int\<close> and refuses a negative one.\<close>

definition read_string :: "32 word \<Rightarrow> string \<Rightarrow> (string \<times> string) option" where
  "read_string n bs = (if sint n < 0 \<or> length bs < unat n then None else Some (take (unat n) bs, drop (unat n) bs))"

definition read_sized :: "(string \<Rightarrow> (32 word \<times> string) option) \<Rightarrow> string \<Rightarrow> (string \<times> string) option" where
  "read_sized dec bs = (case dec bs of None \<Rightarrow> None | Some (n, bs) \<Rightarrow> read_string n bs)"

definition ReadDelimitedToStr :: "(string \<Rightarrow> (32 word \<times> string) option) \<Rightarrow> string \<Rightarrow> (frame \<times> string) option" where
  "ReadDelimitedToStr dec bs = (case read_sized dec bs of
     None \<Rightarrow> None
   | Some (topic, bs) \<Rightarrow> (case read_sized dec bs of
       None \<Rightarrow> None
     | Some (type_name, bs) \<Rightarrow> (case read_sized dec bs of
         None \<Rightarrow> None
       | Some (message, bs) \<Rightarrow> Some ((topic, type_name, message), bs))))"

text \<open>Each round takes at least a byte, so the length of the file bounds the rounds.\<close>

primrec read_messages :: "(string \<Rightarrow> (32 word \<times> string) option) \<Rightarrow> nat \<Rightarrow> string \<Rightarrow> frame list" where
  "read_messages dec 0 bs = []"
| "read_messages dec (Suc n) bs = (case ReadDelimitedToStr dec bs of None \<Rightarrow> [] | Some (f, bs') \<Rightarrow> f # read_messages dec n bs')"

definition ReadMessagesFromFile :: "(string \<Rightarrow> (32 word \<times> string) option) \<Rightarrow> string option \<Rightarrow> frame list" where
  "ReadMessagesFromFile dec file = (case file of None \<Rightarrow> [] | Some bs \<Rightarrow> read_messages dec (length bs) bs)"

section \<open>The caching writer\<close>

text \<open>Where the thread in \<open>WriteQueue\<close> stands: waiting for the condition, with the swapped queue before the
  file is opened, writing with the number of messages written, asleep for a second, returned.\<close>

datatype 'm writer_thread = W_Waiting | W_Swapped "(string \<times> 'm) list" | W_Writing "(string \<times> 'm) list" nat | W_Sleeping | W_Returned

text \<open>Where \<open>Terminate\<close> stands: not called, waiting for the thread, through.\<close>

datatype terminator = T_No | T_Joining | T_Done

record 'm CachedProtoWriter =
  cw_base :: ProtoWriter
  cw_cache_count :: int
  cw_log_count :: "32 word"
  cw_written_to_disk_count :: "32 word"
  cw_write_queue :: "(string \<times> 'm) list"
  cw_writer_terminate :: bool
  cw_writer :: "'m writer_thread"
  cw_terminator :: terminator
  cw_file :: "string option"
  cw_pushed :: "(string \<times> 'm) list"

text \<open>\<open>cw_pushed\<close> is history: the messages for which \<open>PushMessage\<close> returned true.\<close>

definition CachedProtoWriter_ctor :: "int \<Rightarrow> 'm CachedProtoWriter" where
  "CachedProtoWriter_ctor cache_count =
     \<lparr>cw_base = ProtoWriter_ctor, cw_cache_count = cache_count, cw_log_count = 0, cw_written_to_disk_count = 0, cw_write_queue = [],
      cw_writer_terminate = False, cw_writer = W_Waiting, cw_terminator = T_No, cw_file = None, cw_pushed = []\<rparr>"

text \<open>The comparison of \<open>size_t\<close> with \<open>int\<close>: a negative count never is reached.\<close>

definition cache_full :: "'m CachedProtoWriter \<Rightarrow> bool" where
  "cache_full w \<longleftrightarrow> uint (word_of_int (cw_cache_count w) :: 64 word) \<le> int (length (cw_write_queue w))"

definition CachedProtoWriter_PushMessage :: "string \<Rightarrow> 'm option \<Rightarrow> 'm CachedProtoWriter \<Rightarrow> bool \<times> 'm CachedProtoWriter" where
  "CachedProtoWriter_PushMessage topic message w = (case message of
     None \<Rightarrow> (False, w)
   | Some m \<Rightarrow> (True, w\<lparr>cw_write_queue := cw_write_queue w @ [(topic, m)], cw_log_count := cw_log_count w + 1,
       cw_pushed := cw_pushed w @ [(topic, m)]\<rparr>))"

subsection \<open>The thread\<close>

text \<open>The locked section at the head of the loop, once its condition holds.\<close>

definition WriteQueue_swap :: "'m CachedProtoWriter \<Rightarrow> 'm CachedProtoWriter" where
  "WriteQueue_swap w =
     (if cw_writer_terminate w then w\<lparr>cw_writer := W_Returned\<rparr>
      else w\<lparr>cw_write_queue := [], cw_writer := (if cw_write_queue w = [] then W_Waiting else W_Swapped (cw_write_queue w))\<rparr>)"

text \<open>Opening creates the file; when it fails the messages go back to the front of the queue.\<close>

definition WriteQueue_open :: "bool \<Rightarrow> (string \<times> 'm) list \<Rightarrow> 'm CachedProtoWriter \<Rightarrow> 'm CachedProtoWriter" where
  "WriteQueue_open ok q w =
     (if ok then w\<lparr>cw_file := Some (case cw_file w of None \<Rightarrow> [] | Some bs \<Rightarrow> bs), cw_writer := W_Writing q 0\<rparr>
      else w\<lparr>cw_write_queue := q @ cw_write_queue w, cw_writer := W_Sleeping\<rparr>)"

text \<open>One message: the bytes that get into the file are a part of them when the disk refuses the rest, which the
  stream notices only for a message that does not fit into its buffer. That the stream keeps a part of the
  bytes until the queue is written does not show: nobody reads the file before the thread has returned.\<close>

definition WriteQueue_write ::
    "(32 word \<Rightarrow> string) \<Rightarrow> ('m \<Rightarrow> string \<times> string) \<Rightarrow> (nat \<times> bool) option \<Rightarrow> string \<times> 'm \<Rightarrow> (string \<times> 'm) list \<Rightarrow> nat \<Rightarrow>
     'm CachedProtoWriter \<Rightarrow> 'm CachedProtoWriter" where
  "WriteQueue_write enc ser torn_at tm q n w =
     (let bs = WriteDelimitedTo enc (frame_of ser tm); old = (case cw_file w of None \<Rightarrow> [] | Some b \<Rightarrow> b)
      in case torn_at of
           None \<Rightarrow> w\<lparr>cw_file := Some (old @ bs), cw_writer := W_Writing q (Suc n)\<rparr>
         | Some (k, noticed) \<Rightarrow> w\<lparr>cw_file := Some (old @ take k bs), cw_writer := W_Writing q (if noticed then n else Suc n)\<rparr>)"

definition WriteQueue_count :: "nat \<Rightarrow> 'm CachedProtoWriter \<Rightarrow> 'm CachedProtoWriter" where
  "WriteQueue_count n w =
     w\<lparr>cw_written_to_disk_count := cw_written_to_disk_count w + word_of_nat n, cw_writer := W_Waiting\<rparr>"

subsection \<open>Terminate\<close>

definition Terminate_flag :: "'m CachedProtoWriter \<Rightarrow> 'm CachedProtoWriter" where
  "Terminate_flag w = w\<lparr>cw_writer_terminate := True, cw_terminator := T_Joining\<rparr>"

text \<open>\<open>clk n\<close> is the time of the send after \<open>n\<close> others.\<close>

primrec push_all :: "(frame \<Rightarrow> bool) \<Rightarrow> (nat \<Rightarrow> int) \<Rightarrow> nat \<Rightarrow> frame list \<Rightarrow> ProtoWriter \<Rightarrow> ProtoWriter" where
  "push_all send_ok clk n [] pw = pw"
| "push_all send_ok clk n (f # fs) pw = push_all send_ok clk (Suc n) fs (snd (PushString send_ok (clk n) f pw))"

text \<open>After the thread has returned: what is in the file, then what is in the queue. \<open>readable\<close> is whether the
  file can be opened; when it cannot, the messages in it are lost, for the file is removed. The queue is sent without
  its mutex, so a push that falls into this time is a data race; the model knows only the runs without one,
  in which sending is one step.\<close>

definition Terminate_drain ::
    "(string \<Rightarrow> (32 word \<times> string) option) \<Rightarrow> ('m \<Rightarrow> string \<times> string) \<Rightarrow> (frame \<Rightarrow> bool) \<Rightarrow> bool \<Rightarrow> (nat \<Rightarrow> int) \<Rightarrow>
     'm CachedProtoWriter \<Rightarrow> 'm CachedProtoWriter" where
  "Terminate_drain dec ser send_ok readable clk w =
     (let cached = (if cw_written_to_disk_count w \<noteq> 0
            then ReadMessagesFromFile dec (if readable then cw_file w else None) else []);
          fs = cached @ map (frame_of ser) (cw_write_queue w)
      in w\<lparr>cw_base := snd (ProtoWriter_Terminate (clk (length fs)) (push_all send_ok clk 0 fs (cw_base w))),
           cw_write_queue := [], cw_file := None, cw_terminator := T_Done\<rparr>)"

text \<open>A later call of \<open>Terminate\<close> only terminates the base class.\<close>

definition Terminate_again :: "int \<Rightarrow> 'm CachedProtoWriter \<Rightarrow> 'm CachedProtoWriter" where
  "Terminate_again now w = w\<lparr>cw_base := snd (ProtoWriter_Terminate now (cw_base w))\<rparr>"

subsection \<open>Interleaving\<close>

text \<open>The steps of the thread, cut where it takes or gives back the mutex or touches the file. \<open>disk\<close> says
  whether the disk may fail: a write may stop half-way, and the file may not be there to be read. A wait ends only when its condition holds.\<close>

inductive writer_step ::
    "(32 word \<Rightarrow> string) \<Rightarrow> ('m \<Rightarrow> string \<times> string) \<Rightarrow> bool \<Rightarrow> 'm CachedProtoWriter \<Rightarrow> 'm CachedProtoWriter \<Rightarrow> bool" for enc ser disk where
  swap: "cw_writer w = W_Waiting \<Longrightarrow> cw_writer_terminate w \<or> cache_full w \<Longrightarrow> writer_step enc ser disk w (WriteQueue_swap w)"
| open_file: "cw_writer w = W_Swapped q \<Longrightarrow> writer_step enc ser disk w (WriteQueue_open ok q w)"
| write_one: "cw_writer w = W_Writing (tm # q) n \<Longrightarrow> writer_step enc ser disk w (WriteQueue_write enc ser None tm q n w)"
| torn: "cw_writer w = W_Writing (tm # q) n \<Longrightarrow> disk \<Longrightarrow> writer_step enc ser disk w (WriteQueue_write enc ser (Some (k, noticed)) tm q n w)"
| count: "cw_writer w = W_Writing [] n \<Longrightarrow> writer_step enc ser disk w (WriteQueue_count n w)"
| wake: "cw_writer w = W_Sleeping \<Longrightarrow> writer_step enc ser disk w (w\<lparr>cw_writer := W_Waiting\<rparr>)"

text \<open>Everything that can happen: any thread pushes, the writer runs, one thread terminates.\<close>

inductive cw_step ::
    "(32 word \<Rightarrow> string) \<Rightarrow> (string \<Rightarrow> (32 word \<times> string) option) \<Rightarrow> ('m \<Rightarrow> string \<times> string) \<Rightarrow> (frame \<Rightarrow> bool) \<Rightarrow> bool \<Rightarrow>
     'm CachedProtoWriter \<Rightarrow> 'm CachedProtoWriter \<Rightarrow> bool" for enc dec ser send_ok disk where
  push: "cw_step enc dec ser send_ok disk w (snd (CachedProtoWriter_PushMessage topic message w))"
| thread: "writer_step enc ser disk w w' \<Longrightarrow> cw_step enc dec ser send_ok disk w w'"
| terminate: "cw_terminator w = T_No \<Longrightarrow> cw_step enc dec ser send_ok disk w (Terminate_flag w)"
| drain: "cw_terminator w = T_Joining \<Longrightarrow> cw_writer w = W_Returned \<Longrightarrow> readable \<or> disk \<Longrightarrow>
    cw_step enc dec ser send_ok disk w (Terminate_drain dec ser send_ok readable clk w)"
| again: "cw_terminator w = T_Done \<Longrightarrow> cw_step enc dec ser send_ok disk w (Terminate_again now w)"

inductive cw_reachable ::
    "(32 word \<Rightarrow> string) \<Rightarrow> (string \<Rightarrow> (32 word \<times> string) option) \<Rightarrow> ('m \<Rightarrow> string \<times> string) \<Rightarrow> (frame \<Rightarrow> bool) \<Rightarrow> bool \<Rightarrow> int \<Rightarrow>
     'm CachedProtoWriter \<Rightarrow> bool" for enc dec ser send_ok disk cache_count where
  start: "cw_reachable enc dec ser send_ok disk cache_count (CachedProtoWriter_ctor cache_count)"
| step: "cw_reachable enc dec ser send_ok disk cache_count w \<Longrightarrow> cw_step enc dec ser send_ok disk w w' \<Longrightarrow>
    cw_reachable enc dec ser send_ok disk cache_count w'"

end
