(* ===== verification/MQCache.thy ===== *)
theory MQCache
  imports MQWriter
begin

text \<open>
  What the caching writer guarantees: its file holds exactly the messages that were written completely,
  everything that was pushed before the end is sent once and in order, and the end comes.
\<close>

section \<open>The file\<close>

text \<open>Variable length integers: reading gives back what was written and leaves the rest; a cut encoding
  cannot be read.\<close>

definition varint_laws :: "(32 word \<Rightarrow> string) \<Rightarrow> (string \<Rightarrow> (32 word \<times> string) option) \<Rightarrow> bool" where
  "varint_laws enc dec \<longleftrightarrow> (\<forall>n r. dec (enc n @ r) = Some (n, r)) \<and> (\<forall>n k. k < length (enc n) \<longrightarrow> dec (take k (enc n)) = None) \<and>
     (\<forall>n. enc n \<noteq> [])"

definition fits :: "frame \<Rightarrow> bool" where
  "fits f \<longleftrightarrow> (case f of (topic, type_name, data) \<Rightarrow> length topic < 2 ^ 31 \<and> length type_name < 2 ^ 31 \<and> length data < 2 ^ 31)"

definition sized :: "(32 word \<Rightarrow> string) \<Rightarrow> string \<Rightarrow> string" where
  "sized enc s = enc (word_of_nat (length s)) @ s"

lemma WriteDelimitedTo_sized: "WriteDelimitedTo enc (t, ty, d) = sized enc t @ sized enc ty @ sized enc d"
  by (simp add: WriteDelimitedTo_def sized_def)

lemma unat_length: "length s < 2 ^ 31 \<Longrightarrow> unat (word_of_nat (length s) :: 32 word) = length s"
  by (simp add: unat_of_nat take_bit_nat_eq_self)

lemma sint_length: "length s < 2 ^ 31 \<Longrightarrow> sint (word_of_nat (length s) :: 32 word) = int (length s)"
  by (simp add: signed_of_nat signed_take_bit_int_eq_self)

lemma read_sized_whole:
  assumes "varint_laws enc dec" and "length s < 2 ^ 31"
  shows "read_sized dec (sized enc s @ r) = Some (s, r)"
  using assms by (simp add: varint_laws_def read_sized_def sized_def read_string_def unat_length sint_length)

lemma read_sized_cut:
  assumes "varint_laws enc dec" and "length s < 2 ^ 31" and "k < length (sized enc s)"
  shows "read_sized dec (take k (sized enc s)) = None"
proof (cases "k < length (enc (word_of_nat (length s)))")
  case True
  then show ?thesis using assms(1) by (simp add: varint_laws_def read_sized_def sized_def)
next
  case False
  then have "take k (sized enc s) = enc (word_of_nat (length s)) @ take (k - length (enc (word_of_nat (length s)))) s"
    by (simp add: sized_def)
  then show ?thesis using assms False
    by (simp add: varint_laws_def read_sized_def sized_def read_string_def unat_length sint_length)
qed

lemma take_append_cases:
  obtains "k < length xs" "take k (xs @ ys) = take k xs" | "length xs \<le> k" "take k (xs @ ys) = xs @ take (k - length xs) ys"
  by (cases "k < length xs") auto

lemma ReadDelimitedToStr_whole:
  assumes "varint_laws enc dec" and "fits f"
  shows "ReadDelimitedToStr dec (WriteDelimitedTo enc f @ r) = Some (f, r)"
  using assms by (cases f) (simp add: fits_def WriteDelimitedTo_sized ReadDelimitedToStr_def read_sized_whole)

lemma ReadDelimitedToStr_cut:
  assumes "varint_laws enc dec" and "fits f" and "k < length (WriteDelimitedTo enc f)"
  shows "ReadDelimitedToStr dec (take k (WriteDelimitedTo enc f)) = None"
proof -
  obtain t ty d where f: "f = (t, ty, d)" by (cases f)
  have l: "length t < 2 ^ 31" "length ty < 2 ^ 31" "length d < 2 ^ 31" using assms(2) by (simp_all add: f fits_def)
  note whole = read_sized_whole [OF assms(1)] and cut = read_sized_cut [OF assms(1)]
  show ?thesis
  proof (cases rule: take_append_cases [of k "sized enc t" "sized enc ty @ sized enc d"])
    case 1
    then show ?thesis using cut [OF l(1)] by (simp add: f WriteDelimitedTo_sized ReadDelimitedToStr_def)
  next
    case 2
    show ?thesis
    proof (cases rule: take_append_cases [of "k - length (sized enc t)" "sized enc ty" "sized enc d"])
      case 1
      then show ?thesis using 2 cut [OF l(2)] whole [OF l(1)] by (simp add: f WriteDelimitedTo_sized ReadDelimitedToStr_def)
    next
      case 3: 2
      have "k - length (sized enc t) - length (sized enc ty) < length (sized enc d)"
        using assms(3) 2 3 by (simp add: f WriteDelimitedTo_sized)
      then show ?thesis using 2 3 cut [OF l(3)] whole [OF l(1)] whole [OF l(2)]
        by (simp add: f WriteDelimitedTo_sized ReadDelimitedToStr_def)
    qed
  qed
qed

lemma WriteDelimitedTo_nonempty: "varint_laws enc dec \<Longrightarrow> 0 < length (WriteDelimitedTo enc f)"
  by (cases f) (simp add: varint_laws_def WriteDelimitedTo_def)

lemma read_messages_prefix:
  assumes "varint_laws enc dec" and "list_all fits fs" and "length (take k (concat (map (WriteDelimitedTo enc) fs))) \<le> n"
  shows "\<exists>j. read_messages dec n (take k (concat (map (WriteDelimitedTo enc) fs))) = take j fs \<and>
    length (concat (map (WriteDelimitedTo enc) (take j fs))) \<le> k \<and>
    (j < length fs \<longrightarrow> k < length (concat (map (WriteDelimitedTo enc) (take (Suc j) fs))))"
  using assms(2,3)
proof (induction fs arbitrary: k n)
  case Nil
  have "ReadDelimitedToStr dec [] = None"
    using ReadDelimitedToStr_cut [OF assms(1), of "([], [], [])" 0] WriteDelimitedTo_nonempty [OF assms(1)] by (simp add: fits_def)
  then show ?case by (cases n) auto
next
  case (Cons f fs)
  let ?W = "WriteDelimitedTo enc" and ?rest = "concat (map (WriteDelimitedTo enc) fs)"
  show ?case
  proof (cases rule: take_append_cases [of k "?W f" ?rest])
    case 1
    then have "read_messages dec n (take k (concat (map ?W (f # fs)))) = take 0 (f # fs)"
      using ReadDelimitedToStr_cut [OF assms(1), of f k] Cons.prems(1) by (cases n) simp_all
    then show ?thesis using 1 by (intro exI [of _ 0]) simp
  next
    case 2
    have n: "length (?W f) + length (take (k - length (?W f)) ?rest) \<le> n" using Cons.prems(2) 2 by simp
    then obtain m where m: "n = Suc m" using WriteDelimitedTo_nonempty [OF assms(1), of f] by (cases n) auto
    have "length (take (k - length (?W f)) ?rest) \<le> m" using n m WriteDelimitedTo_nonempty [OF assms(1), of f] by linarith
    with Cons obtain j where j: "read_messages dec m (take (k - length (?W f)) ?rest) = take j fs"
      "length (concat (map ?W (take j fs))) \<le> k - length (?W f)"
      "j < length fs \<longrightarrow> k - length (?W f) < length (concat (map ?W (take (Suc j) fs)))" by force
    have "read_messages dec n (take k (concat (map ?W (f # fs)))) = take (Suc j) (f # fs)"
      using 2 j(1) Cons.prems(1) ReadDelimitedToStr_whole [OF assms(1), of f] by (simp add: m)
    then show ?thesis using j(2,3) 2(1) by (intro exI [of _ "Suc j"]) auto
  qed
qed

lemma ReadMessagesFromFile_all:
  assumes "varint_laws enc dec" and "list_all fits fs"
  shows "ReadMessagesFromFile dec (Some (concat (map (WriteDelimitedTo enc) fs))) = fs"
proof -
  let ?bs = "concat (map (WriteDelimitedTo enc) fs)"
  obtain j where j: "read_messages dec (length ?bs) ?bs = take j fs"
    "j < length fs \<longrightarrow> length ?bs < length (concat (map (WriteDelimitedTo enc) (take (Suc j) fs)))"
    using read_messages_prefix [OF assms, of "length ?bs" "length ?bs"] by auto
  have "length (concat (map (WriteDelimitedTo enc) (take i fs))) \<le> length ?bs" for i
    by (metis append_take_drop_id concat_append le_add1 length_append map_append)
  then have "\<not> j < length fs" using j(2) by (metis not_le)
  then show ?thesis using j(1) by (simp add: ReadMessagesFromFile_def)
qed

text \<open>
  C36. The cache file survives a crash. Reading a file of messages that was cut anywhere gives exactly the
  messages that are complete in it, in order, each with its topic, type and bytes.
\<close>
theorem cache_file_prefix:
  assumes "varint_laws enc dec" and "list_all fits fs"
  shows "\<exists>j. ReadMessagesFromFile dec (Some (take k (concat (map (WriteDelimitedTo enc) fs)))) = take j fs \<and>
    length (concat (map (WriteDelimitedTo enc) (take j fs))) \<le> k \<and>
    (j < length fs \<longrightarrow> k < length (concat (map (WriteDelimitedTo enc) (take (Suc j) fs))))"
  unfolding ReadMessagesFromFile_def using read_messages_prefix [OF assms order.refl] by simp

section \<open>Everything is sent\<close>

text \<open>What the thread has taken from the queue and not written, and how many it has written and not counted.\<close>

primrec in_writer :: "'m writer_thread \<Rightarrow> (string \<times> 'm) list" where
  "in_writer W_Waiting = []"
| "in_writer (W_Swapped q) = q"
| "in_writer (W_Writing q n) = q"
| "in_writer W_Sleeping = []"
| "in_writer W_Returned = []"

primrec uncounted :: "'m writer_thread \<Rightarrow> nat" where
  "uncounted W_Waiting = 0"
| "uncounted (W_Swapped q) = 0"
| "uncounted (W_Writing q n) = n"
| "uncounted W_Sleeping = 0"
| "uncounted W_Returned = 0"

definition file_bytes :: "'m CachedProtoWriter \<Rightarrow> string" where
  "file_bytes w = (case cw_file w of None \<Rightarrow> [] | Some bs \<Rightarrow> bs)"

text \<open>The accounts: of the messages pushed, \<open>ws\<close> are in the file, some are in the hands of the thread, the rest is
  in the queue; after the end, \<open>ws\<close> are sent.\<close>

definition accounts :: "(32 word \<Rightarrow> string) \<Rightarrow> ('m \<Rightarrow> string \<times> string) \<Rightarrow> (string \<times> 'm) list \<Rightarrow> 'm CachedProtoWriter \<Rightarrow> bool" where
  "accounts enc ser ws w \<longleftrightarrow> file_bytes w = concat (map (WriteDelimitedTo enc \<circ> frame_of ser) ws) \<and> (cw_file w = None \<longrightarrow> ws = []) \<and>
     cw_pushed w = ws @ in_writer (cw_writer w) @ cw_write_queue w \<and>
     cw_written_to_disk_count w + word_of_nat (uncounted (cw_writer w)) = word_of_nat (length ws)"

definition sane :: "('m \<Rightarrow> string \<times> string) \<Rightarrow> (string \<times> 'm) list \<Rightarrow> bool" where
  "sane ser ps \<longleftrightarrow> length ps < 2 ^ 31 \<and> list_all (fits \<circ> frame_of ser) ps"

definition delivers :: "(32 word \<Rightarrow> string) \<Rightarrow> ('m \<Rightarrow> string \<times> string) \<Rightarrow> (frame \<Rightarrow> bool) \<Rightarrow> 'm CachedProtoWriter \<Rightarrow> bool" where
  "delivers enc ser send_ok w \<longleftrightarrow> (sane ser (cw_pushed w) \<longrightarrow>
     (if cw_terminator w = T_Done
      then cw_writer w = W_Returned \<and> \<not> pw_socket (cw_base w) \<and>
        (\<exists>ws. cw_pushed w = ws @ cw_write_queue w \<and> pw_sent (cw_base w) = filter send_ok (map (frame_of ser) ws))
      else pw_socket (cw_base w) \<and> pw_sent (cw_base w) = [] \<and> (\<exists>ws. accounts enc ser ws w)))"

lemma UpdateBackpressure_sent [simp]:
  "pw_sent (UpdateBackpressure now b pw) = pw_sent pw" "pw_socket (UpdateBackpressure now b pw) = pw_socket pw"
  by (simp_all add: UpdateBackpressure_def Let_def)

lemma push_all_sent:
  "pw_socket pw \<Longrightarrow> pw_socket (push_all send_ok clk n fs pw) \<and> pw_sent (push_all send_ok clk n fs pw) = pw_sent pw @ filter send_ok fs"
  by (induction fs arbitrary: n pw) (simp_all add: PushString_def)

lemma delivers_thread:
  assumes "writer_step enc ser False w w'" and "cw_terminator w \<noteq> T_Done" and "\<exists>ws. accounts enc ser ws w"
  shows "cw_terminator w' = cw_terminator w \<and> cw_base w' = cw_base w \<and> cw_pushed w' = cw_pushed w \<and> (\<exists>ws. accounts enc ser ws w')"
proof -
  obtain ws where ws: "accounts enc ser ws w" using assms(3) by blast
  from assms(1) show ?thesis
  proof cases
    case swap
    then show ?thesis using ws by (auto simp: WriteQueue_swap_def accounts_def file_bytes_def intro!: exI [of _ ws])
  next
    case (open_file q ok)
    then show ?thesis using ws
      by (auto simp: WriteQueue_open_def accounts_def file_bytes_def intro!: exI [of _ ws] split: option.splits)
  next
    case (write_one tm q n)
    have "accounts enc ser (ws @ [tm]) w'" using ws write_one
      by (simp add: WriteQueue_write_def accounts_def file_bytes_def Let_def add.assoc [symmetric])
    then show ?thesis using write_one by (auto simp: WriteQueue_write_def Let_def)
  next
    case (count n)
    then show ?thesis using ws by (auto simp: WriteQueue_count_def accounts_def file_bytes_def intro!: exI [of _ ws])
  next
    case wake
    then show ?thesis using ws by (auto simp: accounts_def file_bytes_def intro!: exI [of _ ws])
  qed simp
qed

lemma delivers_drain:
  assumes "varint_laws enc dec" and "accounts enc ser ws w" and "cw_writer w = W_Returned" and "sane ser (cw_pushed w)"
    and "pw_socket (cw_base w)" and "pw_sent (cw_base w) = []"
  shows "pw_sent (cw_base (Terminate_drain dec ser send_ok True clk w)) = filter send_ok (map (frame_of ser) (cw_pushed w)) \<and>
    \<not> pw_socket (cw_base (Terminate_drain dec ser send_ok True clk w))"
proof -
  have p: "cw_pushed w = ws @ cw_write_queue w" using assms(2,3) by (simp add: accounts_def)
  have l: "length ws < 2 ^ 31" "list_all fits (map (frame_of ser) ws)" using assms(4) by (simp_all add: sane_def p list_all_iff)
  have c: "cw_written_to_disk_count w = word_of_nat (length ws)" using assms(2,3) by (simp add: accounts_def)
  have "(if cw_written_to_disk_count w \<noteq> 0 then ReadMessagesFromFile dec (if True then cw_file w else None) else []) = map (frame_of ser) ws"
  proof (cases ws)
    case Nil
    then show ?thesis using c by simp
  next
    case (Cons x xs)
    have "unat (cw_written_to_disk_count w) = length ws" using l(1) unat_length [of "replicate (length ws) CHR ''x''"] by (simp add: c)
    moreover obtain bs where "cw_file w = Some bs" using assms(2) Cons by (auto simp: accounts_def)
    ultimately show ?thesis
      using assms(2) Cons ReadMessagesFromFile_all [OF assms(1) l(2)] by (auto simp: accounts_def file_bytes_def)
  qed
  then show ?thesis using push_all_sent [OF assms(5)] assms(6)
    unfolding Terminate_drain_def Let_def by (simp add: ProtoWriter_Terminate_def Let_def p split del: if_split)
qed

lemma sane_push: "sane ser (ps @ [p]) \<Longrightarrow> sane ser ps"
  by (simp add: sane_def)

lemma delivers_step:
  assumes "varint_laws enc dec" and "cw_step enc dec ser send_ok False w w'" and "delivers enc ser send_ok w"
  shows "delivers enc ser send_ok w'"
  using assms(2)
proof cases
  case (push topic message)
  then show ?thesis using assms(3)
    by (cases message) (auto simp: CachedProtoWriter_PushMessage_def delivers_def accounts_def file_bytes_def dest!: sane_push)
next
  case thread
  then have p: "cw_pushed w' = cw_pushed w"
    by (auto elim!: writer_step.cases simp: WriteQueue_swap_def WriteQueue_open_def WriteQueue_write_def WriteQueue_count_def Let_def)
  have r: "cw_writer w \<noteq> W_Returned" using thread by (auto elim: writer_step.cases)
  show ?thesis
  proof (cases "sane ser (cw_pushed w)")
    case True
    then have t: "cw_terminator w \<noteq> T_Done" using assms(3) r by (auto simp: delivers_def)
    then show ?thesis using delivers_thread [OF thread t] assms(3) True by (simp add: delivers_def)
  qed (simp add: delivers_def p)
next
  case terminate
  then show ?thesis using assms(3) by (auto simp: Terminate_flag_def delivers_def accounts_def file_bytes_def)
next
  case (drain readable clk)
  have w': "w' = Terminate_drain dec ser send_ok True clk w" using drain(1,4) by simp
  have same: "cw_pushed w' = cw_pushed w" "cw_write_queue w' = []" "cw_writer w' = cw_writer w" "cw_terminator w' = T_Done"
    by (simp_all add: w' Terminate_drain_def Let_def)
  show ?thesis unfolding delivers_def
  proof (intro impI)
    assume s: "sane ser (cw_pushed w')"
    then obtain ws where "accounts enc ser ws w" "pw_socket (cw_base w)" "pw_sent (cw_base w) = []"
      using assms(3) drain(2) same by (auto simp: delivers_def)
    from delivers_drain [OF assms(1) this(1) drain(3) _ this(2,3)] s
    show "if cw_terminator w' = T_Done then cw_writer w' = W_Returned \<and> \<not> pw_socket (cw_base w') \<and>
        (\<exists>ws. cw_pushed w' = ws @ cw_write_queue w' \<and> pw_sent (cw_base w') = filter send_ok (map (frame_of ser) ws))
      else pw_socket (cw_base w') \<and> pw_sent (cw_base w') = [] \<and> (\<exists>ws. accounts enc ser ws w')"
      using same drain(3) w' by simp
  qed
next
  case (again now)
  then show ?thesis using assms(3) by (simp add: Terminate_again_def delivers_def ProtoWriter_Terminate_def Let_def)
qed

lemma delivers_reachable:
  assumes "varint_laws enc dec" and "cw_reachable enc dec ser send_ok False cache_count w"
  shows "delivers enc ser send_ok w"
  using assms(2)
proof induction
  case start
  show ?case by (auto simp: delivers_def CachedProtoWriter_ctor_def ProtoWriter_ctor_def accounts_def file_bytes_def intro!: exI [of _ "[]"])
next
  case (step w w')
  then show ?case using delivers_step [OF assms(1)] by blast
qed

text \<open>Once \<open>Terminate\<close> is through, nothing is sent any more.\<close>

lemma done_step:
  assumes "cw_step enc dec ser send_ok disk w w'" and "cw_terminator w = T_Done" and "cw_writer w = W_Returned"
  shows "cw_terminator w' = T_Done \<and> cw_writer w' = W_Returned \<and> pw_sent (cw_base w') = pw_sent (cw_base w)"
  using assms
proof cases
  case (push topic message)
  then show ?thesis using assms(2,3) by (cases message) (simp_all add: CachedProtoWriter_PushMessage_def)
next
  case thread
  then show ?thesis using assms(3) by (auto elim: writer_step.cases)
next
  case (again now)
  then show ?thesis using assms(2,3) by (simp add: Terminate_again_def ProtoWriter_Terminate_def Let_def)
qed simp_all

lemma done_run:
  assumes "(cw_step enc dec ser send_ok disk)\<^sup>*\<^sup>* w w'" and "cw_terminator w = T_Done" and "cw_writer w = W_Returned"
  shows "cw_terminator w' = T_Done \<and> cw_writer w' = W_Returned \<and> pw_sent (cw_base w') = pw_sent (cw_base w)"
  using assms
proof induction
  case (step y z)
  then show ?case using done_step [of enc dec ser send_ok disk y z] by simp
qed simp

text \<open>The step with which \<open>Terminate\<close> gets done is the draining.\<close>

lemma done_by_draining:
  assumes "cw_step enc dec ser send_ok False w v" and "cw_terminator w \<noteq> T_Done" and "cw_terminator v = T_Done"
  obtains clk where "v = Terminate_drain dec ser send_ok True clk w" "cw_writer w = W_Returned" "cw_pushed v = cw_pushed w" "cw_writer v = W_Returned"
  using assms(1)
proof cases
  case (push topic message)
  then show ?thesis using assms by (cases message) (simp_all add: CachedProtoWriter_PushMessage_def)
next
  case thread
  then have "cw_terminator v = cw_terminator w"
    by cases (auto simp: WriteQueue_swap_def WriteQueue_open_def WriteQueue_write_def WriteQueue_count_def Let_def)
  then show ?thesis using assms by simp
next
  case terminate
  then show ?thesis using assms by (simp add: Terminate_flag_def)
next
  case (drain readable clk)
  then show ?thesis using that [of clk] by (simp add: Terminate_drain_def Let_def)
qed (use assms in simp)

text \<open>
  C33. Nothing that is logged is lost or sent twice, as long as the disk takes and gives back what is written.
  However many threads push messages, however the thread of the writer moves them between queue and file,
  and whether or not the file can be opened for writing: until \<open>Terminate\<close> is done nothing is sent, and the
  step that gets it done sends exactly the messages pushed before it, in order (less those that ZeroMQ
  refuses); whatever happens afterwards, nothing else is sent.
\<close>
theorem cached_writer_delivers:
  assumes "varint_laws enc dec" and "cw_reachable enc dec ser send_ok False cache_count w" and "sane ser (cw_pushed w)"
    and "cw_terminator w \<noteq> T_Done"
  shows "pw_sent (cw_base w) = [] \<and>
    (\<forall>v w'. cw_step enc dec ser send_ok False w v \<longrightarrow> cw_terminator v = T_Done \<longrightarrow> (cw_step enc dec ser send_ok False)\<^sup>*\<^sup>* v w' \<longrightarrow>
       pw_sent (cw_base w') = filter send_ok (map (frame_of ser) (cw_pushed w)))"
proof -
  obtain ws where ws: "accounts enc ser ws w" "pw_socket (cw_base w)" "pw_sent (cw_base w) = []"
    using delivers_reachable [OF assms(1,2)] assms(3,4) by (auto simp: delivers_def)
  have "pw_sent (cw_base w') = filter send_ok (map (frame_of ser) (cw_pushed w))"
    if v: "cw_step enc dec ser send_ok False w v" "cw_terminator v = T_Done" and w': "(cw_step enc dec ser send_ok False)\<^sup>*\<^sup>* v w'" for v w'
  proof -
    obtain clk where c: "v = Terminate_drain dec ser send_ok True clk w" "cw_writer w = W_Returned" "cw_writer v = W_Returned"
      using done_by_draining [OF v(1) assms(4) v(2)] by metis
    show ?thesis using done_run [OF w' v(2) c(3)] delivers_drain [OF assms(1) ws(1) c(2) assms(3) ws(2,3)] c(1) by simp
  qed
  then show ?thesis using ws(3) by blast
qed

section \<open>The end comes\<close>

definition writer_work :: "'m CachedProtoWriter \<Rightarrow> nat" where
  "writer_work w = (case cw_writer w of
     W_Waiting \<Rightarrow> 1 | W_Swapped q \<Rightarrow> length q + 3 | W_Writing q n \<Rightarrow> length q + 2 | W_Sleeping \<Rightarrow> 2 | W_Returned \<Rightarrow> 0)"

lemma writer_step_work:
  assumes "writer_step enc ser disk w w'" and "cw_writer_terminate w"
  shows "writer_work w' < writer_work w \<and> cw_writer_terminate w'"
  using assms
  by cases (auto simp: writer_work_def WriteQueue_swap_def WriteQueue_open_def WriteQueue_write_def WriteQueue_count_def Let_def split: option.split)

lemma writer_never_stuck:
  assumes "cw_writer_terminate w" and "cw_writer w \<noteq> W_Returned"
  shows "\<exists>w'. writer_step enc ser disk w w'"
proof (cases "cw_writer w")
  case (W_Writing q n)
  then show ?thesis by (cases q) (auto intro: writer_step.count writer_step.write_one)
qed (use assms in \<open>auto intro: writer_step.swap writer_step.open_file writer_step.wake\<close>)

text \<open>
  C34. \<open>Terminate\<close> does not hang. Once it has asked the thread of the writer to stop, the thread takes at most
  as many steps as it holds messages, and three, whatever the disk does, and it is never blocked before it
  has returned.
\<close>
theorem terminate_returns:
  assumes "cw_writer_terminate w" and "(writer_step enc ser disk ^^ n) w w'"
  shows "n \<le> length (in_writer (cw_writer w)) + 3 \<and> (cw_writer w' = W_Returned \<or> (\<exists>w''. writer_step enc ser disk w' w''))"
proof -
  have "n + writer_work w' \<le> writer_work w \<and> cw_writer_terminate w'"
    using assms(2)
  proof (induction n arbitrary: w')
    case 0
    then show ?case using assms(1) by simp
  next
    case (Suc n)
    then obtain v where "(writer_step enc ser disk ^^ n) w v" "writer_step enc ser disk v w'" by auto
    with Suc.IH [of v] writer_step_work [of enc ser disk v w'] show ?case by auto
  qed
  moreover have "writer_work w \<le> length (in_writer (cw_writer w)) + 3"
    by (simp add: writer_work_def split: writer_thread.split)
  ultimately show ?thesis using writer_never_stuck [of w'] by auto
qed

section \<open>A sample run\<close>

text \<open>The base 128 format of protobuf.\<close>

fun demo_enc_nat :: "nat \<Rightarrow> string" where
  "demo_enc_nat n = (if n < 128 then [char_of n] else char_of (128 + n mod 128) # demo_enc_nat (n div 128))"

declare demo_enc_nat.simps [simp del]

fun demo_dec_nat :: "string \<Rightarrow> (nat \<times> string) option" where
  "demo_dec_nat [] = None"
| "demo_dec_nat (c # cs) = (if of_char c < (128 :: nat) then Some (of_char c, cs)
     else case demo_dec_nat cs of None \<Rightarrow> None | Some (m, r) \<Rightarrow> Some (of_char c - 128 + 128 * m, r))"

definition demo_enc :: "32 word \<Rightarrow> string" where
  "demo_enc n = demo_enc_nat (unat n)"

definition demo_dec :: "string \<Rightarrow> (32 word \<times> string) option" where
  "demo_dec bs = (case demo_dec_nat bs of None \<Rightarrow> None | Some (n, r) \<Rightarrow> Some (word_of_nat n, r))"

lemma demo_nat_whole: "demo_dec_nat (demo_enc_nat n @ r) = Some (n, r)"
  by (induction n rule: demo_enc_nat.induct) (subst demo_enc_nat.simps, simp)

lemma demo_nat_cut: "k < length (demo_enc_nat n) \<Longrightarrow> demo_dec_nat (take k (demo_enc_nat n)) = None"
proof (induction n arbitrary: k rule: demo_enc_nat.induct)
  case (1 n)
  then show ?case by (cases k) (auto simp: demo_enc_nat.simps [of n] split: if_splits)
qed

lemma demo_varint: "varint_laws demo_enc demo_dec"
proof -
  have "demo_enc_nat n \<noteq> []" for n by (subst demo_enc_nat.simps) simp
  then show ?thesis by (simp add: varint_laws_def demo_enc_def demo_dec_def demo_nat_whole demo_nat_cut)
qed

definition demo_ser :: "string \<Rightarrow> string \<times> string" where
  "demo_ser m = (''Log'', m)"

definition demo_w1 :: "string CachedProtoWriter" where
  "demo_w1 = WriteQueue_swap (snd (CachedProtoWriter_PushMessage ''t'' (Some ''ab'') (CachedProtoWriter_ctor 1)))"

definition demo_w2 :: "string CachedProtoWriter" where
  "demo_w2 = WriteQueue_write demo_enc demo_ser None (''t'', ''ab'') [] 0 (WriteQueue_open True [(''t'', ''ab'')] demo_w1)"

definition demo_w3 :: "string CachedProtoWriter" where
  "demo_w3 = Terminate_flag (snd (CachedProtoWriter_PushMessage ''u'' (Some ''c'') (WriteQueue_count 1 demo_w2)))"

definition demo_w4 :: "string CachedProtoWriter" where
  "demo_w4 = Terminate_drain demo_dec demo_ser (\<lambda>_. True) True (\<lambda>n. 1000) (WriteQueue_swap demo_w3)"

lemmas demo_writer_defs = CachedProtoWriter_PushMessage_def CachedProtoWriter_ctor_def WriteQueue_swap_def WriteQueue_open_def
  WriteQueue_write_def WriteQueue_count_def Terminate_flag_def cache_full_def Let_def

lemma demo_w1_eq: "cw_writer demo_w1 = W_Swapped [(''t'', ''ab'')]" "cw_write_queue demo_w1 = []" "cw_writer_terminate demo_w1 = False"
  "cw_terminator demo_w1 = T_No" "cw_pushed demo_w1 = [(''t'', ''ab'')]"
  by (simp_all add: demo_w1_def demo_writer_defs)

lemma demo_w2_eq: "cw_writer demo_w2 = W_Writing [] 1" "cw_write_queue demo_w2 = []" "cw_writer_terminate demo_w2 = False"
  "cw_terminator demo_w2 = T_No" "cw_pushed demo_w2 = [(''t'', ''ab'')]"
  by (simp_all add: demo_w2_def demo_writer_defs demo_w1_eq)

lemma demo_w3_eq: "cw_writer demo_w3 = W_Waiting" "cw_write_queue demo_w3 = [(''u'', ''c'')]" "cw_writer_terminate demo_w3"
  "cw_terminator demo_w3 = T_Joining" "cw_pushed demo_w3 = [(''t'', ''ab''), (''u'', ''c'')]"
  by (simp_all add: demo_w3_def demo_writer_defs demo_w2_eq)

lemma demo_w4_eq: "cw_write_queue demo_w4 = []" "cw_terminator demo_w4 = T_Done" "cw_pushed demo_w4 = [(''t'', ''ab''), (''u'', ''c'')]"
  by (simp_all add: demo_w4_def Terminate_drain_def WriteQueue_swap_def Let_def demo_w3_eq)

lemma demo_w3_reachable: "cw_reachable demo_enc demo_dec demo_ser (\<lambda>_. True) False 1 (WriteQueue_swap demo_w3)"
proof -
  let ?R = "cw_reachable demo_enc demo_dec demo_ser (\<lambda>_. True) False 1"
  note go = cw_reachable.step and th = cw_step.thread
  have "?R demo_w1" unfolding demo_w1_def
    by (rule go [OF go [OF cw_reachable.start cw_step.push]], rule th, rule writer_step.swap) (simp_all add: demo_writer_defs)
  then have "?R (WriteQueue_open True [(''t'', ''ab'')] demo_w1)"
    by (rule go, intro th writer_step.open_file) (simp add: demo_w1_eq)
  then have "?R demo_w2" unfolding demo_w2_def
    by (rule go, intro th writer_step.write_one) (simp add: WriteQueue_open_def)
  then have "?R (WriteQueue_count 1 demo_w2)"
    by (rule go, intro th writer_step.count) (simp add: demo_w2_eq)
  then have "?R demo_w3" unfolding demo_w3_def
    by (rule go [OF go [OF _ cw_step.push] cw_step.terminate]) (simp add: CachedProtoWriter_PushMessage_def WriteQueue_count_def demo_w2_eq)
  then show ?thesis
    by (rule go, intro th writer_step.swap) (simp_all add: demo_w3_eq)
qed

lemma demo_w4_step: "cw_step demo_enc demo_dec demo_ser (\<lambda>_. True) False (WriteQueue_swap demo_w3) demo_w4"
  unfolding demo_w4_def by (intro cw_step.drain) (simp_all add: WriteQueue_swap_def demo_w3_eq)

lemma demo_w4_reachable: "cw_reachable demo_enc demo_dec demo_ser (\<lambda>_. True) False 1 demo_w4"
  using demo_w3_reachable demo_w4_step by (rule cw_reachable.step)

lemma demo_sane: "sane demo_ser [(''t'', ''ab''), (''u'', ''c'')]"
  by (simp add: sane_def fits_def frame_of_def demo_ser_def)

theorem cached_writer_delivers_witness:
  "pw_sent (cw_base (WriteQueue_swap demo_w3)) = [] \<and> pw_sent (cw_base demo_w4) = [(''t'', ''Log'', ''ab''), (''u'', ''Log'', ''c'')]"
proof -
  have p: "cw_pushed (WriteQueue_swap demo_w3) = [(''t'', ''ab''), (''u'', ''c'')]" "cw_terminator (WriteQueue_swap demo_w3) \<noteq> T_Done"
    by (simp_all add: WriteQueue_swap_def demo_w3_eq)
  have s: "sane demo_ser (cw_pushed (WriteQueue_swap demo_w3))" using demo_sane by (simp add: p)
  from cached_writer_delivers [OF demo_varint demo_w3_reachable s p(2)] demo_w4_step demo_w4_eq(2)
  have "pw_sent (cw_base (WriteQueue_swap demo_w3)) = [] \<and>
      pw_sent (cw_base demo_w4) = filter (\<lambda>_. True) (map (frame_of demo_ser) (cw_pushed (WriteQueue_swap demo_w3)))" by blast
  then show ?thesis by (simp add: p frame_of_def demo_ser_def)
qed

theorem cache_file_prefix_witness:
  "\<exists>j. ReadMessagesFromFile demo_dec (Some (take 20 (concat (map (WriteDelimitedTo demo_enc) [(''t'', ''Log'', ''ab''), (''u'', ''Log'', ''c'')])))) =
       take j [(''t'', ''Log'', ''ab''), (''u'', ''Log'', ''c'')] \<and> j = 2"
proof -
  let ?fs = "[(''t'', ''Log'', ''ab''), (''u'', ''Log'', ''c'')]"
  have "list_all fits ?fs" by (simp add: fits_def)
  from cache_file_prefix [OF demo_varint this, of 20] obtain j where j:
    "ReadMessagesFromFile demo_dec (Some (take 20 (concat (map (WriteDelimitedTo demo_enc) ?fs)))) = take j ?fs"
    "j < length ?fs \<longrightarrow> 20 < length (concat (map (WriteDelimitedTo demo_enc) (take (Suc j) ?fs)))" by blast
  have "length (demo_enc n) = 1" if "unat n < 128" for n using that by (simp add: demo_enc_def demo_enc_nat.simps)
  then have "length (concat (map (WriteDelimitedTo demo_enc) (take (Suc j) ?fs))) \<le> 17"
    by (cases j) (auto simp: WriteDelimitedTo_def)
  then have "2 \<le> j" using j(2) by (cases "j < 2") auto
  then show ?thesis using j(1) by (intro exI [of _ 2]) simp
qed

theorem terminate_returns_witness:
  "1 \<le> length (in_writer (cw_writer demo_w3)) + 3 \<and> (cw_writer (WriteQueue_swap demo_w3) = W_Returned \<or>
     (\<exists>w''. writer_step demo_enc demo_ser True (WriteQueue_swap demo_w3) w''))"
proof -
  have "(writer_step demo_enc demo_ser True ^^ 1) demo_w3 (WriteQueue_swap demo_w3)"
    by (simp add: writer_step.swap demo_w3_eq eq_OO)
  from terminate_returns [OF demo_w3_eq(3) this] show ?thesis .
qed

end
