(* ===== verification/MQReceiver.thy ===== *)
theory MQReceiver
  imports MQCache "HOL-Library.Sublist"
begin

text \<open>
  Receiving published messages: \<open>ProtoReceiver\<close> (\<^verbatim>\<open>re/re_common/zmq/protoreceiver/protoreceiver.cpp\<close>). One
  thread (\<open>ZmqReceiver\<close>) owns the socket, obeys commands and puts what arrives into a queue; another
  (\<open>ProtoConverter\<close>) takes the queue, parses the messages and calls back. The application that the
  callbacks work on is a state \<open>'s\<close>.
\<close>

section \<open>State and operations\<close>

text \<open>Where \<open>ProtoConverter\<close> stands: asleep in the wait, about to test the condition, with a queue in hand and
  the value of \<open>running\<close>, returned, or left by something that is no \<open>std::exception\<close>.\<close>

datatype converter = C_Asleep | C_Awake | C_Busy "(string \<times> string) list" bool | C_Returned | C_Failed exn

record ('s, 'm) ProtoReceiver =
  pv_types :: "string list"
  pv_callback_lookup :: "(string \<times> ('m \<Rightarrow> ('s, unit) em)) list"
  pv_batch_size :: nat
  pv_rx_message_queue :: "(string \<times> string) list"
  pv_rx_count :: "32 word"
  pv_terminate_proto_converter :: bool
  pv_addresses :: "string list"
  pv_filters :: "string list"
  pv_receiving :: bool
  pv_converter :: converter
  pv_app :: 's
  pv_arrived :: "(string \<times> string) list"

text \<open>\<open>pv_addresses\<close> and \<open>pv_filters\<close> are the connections and subscriptions of the socket, \<open>pv_receiving\<close> says
  that \<open>ZmqReceiver\<close> runs; \<open>pv_arrived\<close> is history: type and bytes of what it has read.\<close>

definition ProtoReceiver_ctor :: "'s \<Rightarrow> ('s, 'm) ProtoReceiver" where
  "ProtoReceiver_ctor app =
     \<lparr>pv_types = [], pv_callback_lookup = [], pv_batch_size = 0, pv_rx_message_queue = [], pv_rx_count = 0,
      pv_terminate_proto_converter = False, pv_addresses = [], pv_filters = [], pv_receiving = True, pv_converter = C_Awake,
      pv_app = app, pv_arrived = []\<rparr>"

definition SetBatchMode :: "nat \<Rightarrow> ('s, 'm) ProtoReceiver \<Rightarrow> ('s, 'm) ProtoReceiver" where
  "SetBatchMode batch_size r = r\<lparr>pv_batch_size := batch_size\<rparr>"

text \<open>A multimap keeps equal keys in the order of insertion.\<close>

definition ProtoReceiver_RegisterProtoCallback ::
    "string \<Rightarrow> ('m \<Rightarrow> ('s, unit) em) \<Rightarrow> ('s, 'm) ProtoReceiver \<Rightarrow> ('s, 'm) ProtoReceiver" where
  "ProtoReceiver_RegisterProtoCallback proto_type_name callback_function r =
     r\<lparr>pv_types := RegisterProtoConstructor proto_type_name (pv_types r),
       pv_callback_lookup := pv_callback_lookup r @ [(proto_type_name, callback_function)]\<rparr>"

definition callbacks_for :: "(string \<times> 'c) list \<Rightarrow> string \<Rightarrow> 'c list" where
  "callbacks_for lookup ty = map snd (filter (\<lambda>kc. fst kc = ty) lookup)"

definition on_app :: "('s, 'a) em \<Rightarrow> (('s, 'm) ProtoReceiver, 'a) em" where
  "on_app c = (\<lambda>r. case c (pv_app r) of (x, app) \<Rightarrow> (x, r\<lparr>pv_app := app\<rparr>))"

definition ProcessMessage :: "'m parser \<Rightarrow> string \<Rightarrow> string \<Rightarrow> (('s, 'm) ProtoReceiver, unit) em" where
  "ProcessMessage parse proto_type proto_data = bindE getE (\<lambda>r.
     bindE (liftE (ConstructProto parse (pv_types r) proto_type proto_data)) (\<lambda>protobuf_message.
     bindE (modifyE (\<lambda>r. r\<lparr>pv_rx_count := pv_rx_count r + 1\<rparr>)) (\<lambda>_.
     forE (callbacks_for (pv_callback_lookup r) proto_type) (\<lambda>callback. on_app (callback protobuf_message)))))"

section \<open>The receiving thread\<close>

definition notify_converter :: "('s, 'm) ProtoReceiver \<Rightarrow> ('s, 'm) ProtoReceiver" where
  "notify_converter r = (if pv_converter r = C_Asleep then r\<lparr>pv_converter := C_Awake\<rparr> else r)"

text \<open>A command over the socket inside the process; \<open>zmq_ok\<close> is whether ZeroMQ obeys. An unknown
  command would be an exception that ends the thread, but nothing sends one.\<close>

definition ZmqReceiver_command :: "bool \<Rightarrow> string \<Rightarrow> string \<Rightarrow> ('s, 'm) ProtoReceiver \<Rightarrow> ('s, 'm) ProtoReceiver" where
  "ZmqReceiver_command zmq_ok function_str args_str r =
     (if function_str = ''connect'' then (if zmq_ok then r\<lparr>pv_addresses := pv_addresses r @ [args_str]\<rparr> else r)
      else if function_str = ''disconnect'' then (if zmq_ok then r\<lparr>pv_addresses := remove1 args_str (pv_addresses r)\<rparr> else r)
      else if function_str = ''filter'' then (if zmq_ok then r\<lparr>pv_filters := pv_filters r @ [args_str]\<rparr> else r)
      else if function_str = ''unfilter'' then (if zmq_ok then r\<lparr>pv_filters := remove1 args_str (pv_filters r)\<rparr> else r)
      else r\<lparr>pv_receiving := False\<rparr>)"

definition ZmqReceiver_message :: "string \<times> string \<Rightarrow> ('s, 'm) ProtoReceiver \<Rightarrow> ('s, 'm) ProtoReceiver" where
  "ZmqReceiver_message message_pair r =
     (let r = r\<lparr>pv_rx_message_queue := pv_rx_message_queue r @ [message_pair], pv_arrived := pv_arrived r @ [message_pair]\<rparr>
      in if \<not> pv_receiving r \<or> pv_batch_size r < length (pv_rx_message_queue r) then notify_converter r else r)"

text \<open>One round of the loop: a command, a message, or first the one and then the other.\<close>

definition ZmqReceiver_round ::
    "(bool \<times> string \<times> string) option \<Rightarrow> (string \<times> string) option \<Rightarrow> ('s, 'm) ProtoReceiver \<Rightarrow> ('s, 'm) ProtoReceiver" where
  "ZmqReceiver_round command message r =
     (let r = (case command of None \<Rightarrow> r | Some (ok, fn, args) \<Rightarrow> ZmqReceiver_command ok fn args r)
      in case message of None \<Rightarrow> r | Some m \<Rightarrow> ZmqReceiver_message m r)"

definition Connect :: "bool \<Rightarrow> string \<Rightarrow> (bool \<times> string \<times> string)" where
  "Connect ok address = (ok, ''connect'', address)"

definition Disconnect :: "bool \<Rightarrow> string \<Rightarrow> (bool \<times> string \<times> string)" where
  "Disconnect ok address = (ok, ''disconnect'', address)"

definition Filter :: "bool \<Rightarrow> string \<Rightarrow> (bool \<times> string \<times> string)" where
  "Filter ok topic_filter = (ok, ''filter'', topic_filter)"

definition Unfilter :: "bool \<Rightarrow> string \<Rightarrow> (bool \<times> string \<times> string)" where
  "Unfilter ok topic_filter = (ok, ''unfilter'', topic_filter)"

definition Terminate_command :: "bool \<times> string \<times> string" where
  "Terminate_command = (True, ''terminate'', [])"

section \<open>The converting thread\<close>

definition ProtoConverter_test :: "('s, 'm) ProtoReceiver \<Rightarrow> ('s, 'm) ProtoReceiver" where
  "ProtoConverter_test r =
     (if pv_terminate_proto_converter r \<or> pv_rx_message_queue r \<noteq> []
      then r\<lparr>pv_converter := C_Busy (pv_rx_message_queue r) (\<not> pv_terminate_proto_converter r), pv_rx_message_queue := []\<rparr>
      else r\<lparr>pv_converter := C_Asleep\<rparr>)"

definition ProtoConverter_process ::
    "'m parser \<Rightarrow> string \<times> string \<Rightarrow> (string \<times> string) list \<Rightarrow> bool \<Rightarrow> ('s, 'm) ProtoReceiver \<Rightarrow> ('s, 'm) ProtoReceiver" where
  "ProtoConverter_process parse m queue running r =
     (case catchE is_std_exception (ProcessMessage parse (fst m) (snd m)) (\<lambda>_. returnE ()) r of
        (Inr _, r) \<Rightarrow> r\<lparr>pv_converter := C_Busy queue running\<rparr>
      | (Inl e, r) \<Rightarrow> r\<lparr>pv_converter := C_Failed e\<rparr>)"

section \<open>Interleaving\<close>

text \<open>\<open>stop\<close> is the second half of the destructor, after the receiving thread has been joined. A wait may
  wake up without a reason. Callbacks are registered before, as the clients of the class do. A failure of ZeroMQ
  itself, which ends the receiving thread, is not a step.\<close>

inductive pv_step :: "'m parser \<Rightarrow> ('s, 'm) ProtoReceiver \<Rightarrow> ('s, 'm) ProtoReceiver \<Rightarrow> bool" for parse where
  round: "pv_receiving r \<Longrightarrow> command \<in> {None, Some (Connect ok a), Some (Disconnect ok a), Some (Filter ok a), Some (Unfilter ok a), Some Terminate_command} \<Longrightarrow>
    pv_step parse r (ZmqReceiver_round command message r)"
| batch: "pv_step parse r (SetBatchMode n r)"
| stop: "\<not> pv_receiving r \<Longrightarrow> pv_step parse r (notify_converter (r\<lparr>pv_terminate_proto_converter := True\<rparr>))"
| spurious: "pv_converter r = C_Asleep \<Longrightarrow> pv_step parse r (r\<lparr>pv_converter := C_Awake\<rparr>)"
| test: "pv_converter r = C_Awake \<Longrightarrow> pv_step parse r (ProtoConverter_test r)"
| process: "pv_converter r = C_Busy (m # queue) running \<Longrightarrow> pv_step parse r (ProtoConverter_process parse m queue running r)"
| finished: "pv_converter r = C_Busy [] running \<Longrightarrow>
    pv_step parse r (r\<lparr>pv_converter := (if running then C_Awake else C_Returned)\<rparr>)"

section \<open>What reaches the application\<close>

text \<open>The reference: each message in turn is parsed and given to the callbacks of its type.\<close>

definition deliver :: "'m parser \<Rightarrow> string list \<Rightarrow> (string \<times> ('m \<Rightarrow> ('s, unit) em)) list \<Rightarrow> string \<times> string \<Rightarrow> 's \<Rightarrow> 's" where
  "deliver parse types lookup m app = (case ConstructProto parse types (fst m) (snd m) of
     Inl _ \<Rightarrow> app | Inr pb \<Rightarrow> snd (forE (callbacks_for lookup (fst m)) (\<lambda>callback. callback pb) app))"

fun in_hand :: "converter \<Rightarrow> (string \<times> string) list" where
  "in_hand (C_Busy queue running) = queue"
| "in_hand _ = []"

fun failed :: "converter \<Rightarrow> bool" where
  "failed (C_Failed e) = True"
| "failed _ = False"

fun last_round :: "converter \<Rightarrow> bool" where
  "last_round (C_Busy queue running) = (\<not> running)"
| "last_round C_Returned = True"
| "last_round _ = False"

definition delivering :: "'m parser \<Rightarrow> ('s, 'm) ProtoReceiver \<Rightarrow> ('s, 'm) ProtoReceiver \<Rightarrow> bool" where
  "delivering parse r0 r \<longleftrightarrow> pv_types r = pv_types r0 \<and> pv_callback_lookup r = pv_callback_lookup r0 \<and>
     (pv_terminate_proto_converter r \<longrightarrow> \<not> pv_receiving r) \<and>
     (last_round (pv_converter r) \<longrightarrow> pv_terminate_proto_converter r \<and> pv_rx_message_queue r = []) \<and>
     (\<not> failed (pv_converter r) \<longrightarrow> (\<exists>ds. pv_arrived r = ds @ in_hand (pv_converter r) @ pv_rx_message_queue r \<and>
        pv_app r = fold (deliver parse (pv_types r0) (pv_callback_lookup r0)) ds (pv_app r0)))"

definition fresh_receiver :: "('s, 'm) ProtoReceiver \<Rightarrow> bool" where
  "fresh_receiver r \<longleftrightarrow> pv_rx_message_queue r = [] \<and> pv_arrived r = [] \<and> \<not> pv_terminate_proto_converter r \<and>
     (pv_converter r = C_Awake \<or> pv_converter r = C_Asleep)"

lemma run_on_app: "forE cs (\<lambda>c. on_app (f c)) r = (fst (forE cs f (pv_app r)), r\<lparr>pv_app := snd (forE cs f (pv_app r))\<rparr>)"
proof (induction cs arbitrary: r)
  case (Cons c cs)
  then show ?case by (auto simp: bindE_def on_app_def split: prod.split sum.split)
qed (simp add: returnE_def)

lemma run_ProcessMessage:
  "\<exists>x n. ProcessMessage parse ty d r = (x, r\<lparr>pv_app := deliver parse (pv_types r) (pv_callback_lookup r) (ty, d) (pv_app r), pv_rx_count := n\<rparr>)"
proof (cases "ConstructProto parse (pv_types r) ty d")
  case (Inl e)
  then show ?thesis by (auto simp: ProcessMessage_def bindE_def liftE_def deliver_def intro!: exI [of _ "pv_rx_count r"])
next
  case (Inr pb)
  then show ?thesis
    by (auto simp: ProcessMessage_def bindE_def liftE_def run_on_app deliver_def intro!: exI [of _ "pv_rx_count r + 1"])
qed

lemma delivering_process:
  assumes "delivering parse r0 r" and "pv_converter r = C_Busy (m # queue) running"
  shows "delivering parse r0 (ProtoConverter_process parse m queue running r)"
proof -
  let ?d = "deliver parse (pv_types r0) (pv_callback_lookup r0)"
  obtain x n where x: "ProcessMessage parse (fst m) (snd m) r = (x, r\<lparr>pv_app := ?d m (pv_app r), pv_rx_count := n\<rparr>)"
    using run_ProcessMessage [of parse "fst m" "snd m" r] assms(1) by (auto simp: delivering_def)
  obtain ds where dn: "pv_arrived r = ds @ (m # queue) @ pv_rx_message_queue r" "pv_app r = fold ?d ds (pv_app r0)"
    using assms by (auto simp: delivering_def)
  have "pv_arrived r = (ds @ [m]) @ queue @ pv_rx_message_queue r \<and> ?d m (pv_app r) = fold ?d (ds @ [m]) (pv_app r0)"
    using dn by simp
  then show ?thesis using assms x
    by (auto simp: ProtoConverter_process_def catchE_def returnE_def delivering_def split: sum.split simp del: fold_append)
qed

lemma delivering_command:
  "delivering parse r0 r \<Longrightarrow> pv_receiving r \<Longrightarrow>
   delivering parse r0 (ZmqReceiver_command ok fn args r) \<and> \<not> pv_terminate_proto_converter (ZmqReceiver_command ok fn args r)"
  by (auto simp: ZmqReceiver_command_def delivering_def)

lemma delivering_notify: "delivering parse r0 (notify_converter r) = delivering parse r0 r"
  by (auto simp: notify_converter_def delivering_def)

lemma delivering_message:
  assumes "delivering parse r0 r" and "\<not> pv_terminate_proto_converter r"
  shows "delivering parse r0 (ZmqReceiver_message m r)"
proof -
  have "delivering parse r0 (r\<lparr>pv_rx_message_queue := pv_rx_message_queue r @ [m], pv_arrived := pv_arrived r @ [m]\<rparr>)"
    using assms by (auto simp: delivering_def)
  then show ?thesis by (simp add: ZmqReceiver_message_def Let_def delivering_notify)
qed

lemma delivering_step:
  assumes "pv_step parse r r'" and "delivering parse r0 r"
  shows "delivering parse r0 r'"
  using assms(1)
proof cases
  case (round command ok a message)
  have "delivering parse r0 (case command of None \<Rightarrow> r | Some (ok, fn, args) \<Rightarrow> ZmqReceiver_command ok fn args r) \<and>
      \<not> pv_terminate_proto_converter (case command of None \<Rightarrow> r | Some (ok, fn, args) \<Rightarrow> ZmqReceiver_command ok fn args r)"
    using assms(2) round(2) delivering_command [OF assms(2) round(2)]
    by (cases command) (auto simp: delivering_def [of parse r0 r])
  then show ?thesis unfolding round(1) ZmqReceiver_round_def Let_def
    by (cases message) (simp_all add: delivering_message)
next
  case batch
  then show ?thesis using assms(2) by (simp add: SetBatchMode_def delivering_def)
next
  case stop
  then show ?thesis using assms(2) by (simp add: delivering_notify) (simp add: delivering_def)
next
  case spurious
  then show ?thesis using assms(2) by (simp add: delivering_def)
next
  case test
  then show ?thesis using assms(2) by (auto simp: ProtoConverter_test_def delivering_def)
next
  case (process m queue running)
  then show ?thesis using delivering_process assms(2) by blast
next
  case (finished running)
  then show ?thesis using assms(2) by (auto simp: delivering_def)
qed

lemma delivering_reachable:
  assumes "fresh_receiver r0" and "(pv_step parse)\<^sup>*\<^sup>* r0 r"
  shows "delivering parse r0 r"
  using assms(2)
proof induction
  case base
  show ?case using assms(1) by (auto simp: fresh_receiver_def delivering_def intro!: exI [of _ "[]"])
next
  case (step y z)
  then show ?case using delivering_step by blast
qed

text \<open>
  C35. The receiver loses nothing and keeps the order. However its two threads interleave, whatever the batch
  size, and whichever callbacks throw: the application has seen the messages that arrived, in order, up to
  those in hand and in the queue; and when the destructor is through, it has seen every one of them.
\<close>
theorem receiver_handles_all:
  assumes "fresh_receiver r0" and "(pv_step parse)\<^sup>*\<^sup>* r0 r" and "\<not> failed (pv_converter r)"
  shows "\<exists>ds. pv_arrived r = ds @ (if pv_converter r = C_Returned then [] else in_hand (pv_converter r) @ pv_rx_message_queue r) \<and>
    pv_app r = fold (deliver parse (pv_types r0) (pv_callback_lookup r0)) ds (pv_app r0)"
  using delivering_reachable [OF assms(1,2)] assms(3) by (auto simp: delivering_def)

section \<open>From the writer to the application\<close>

text \<open>A subscription is a prefix of the topic.\<close>

definition subscribed :: "string list \<Rightarrow> frame \<Rightarrow> bool" where
  "subscribed filters f \<longleftrightarrow> list_ex (\<lambda>p. take (length p) (fst f) = p) filters"

definition handled :: "(string \<times> ('m \<Rightarrow> ('s, unit) em)) list \<Rightarrow> ('m \<Rightarrow> string \<times> string) \<Rightarrow> 'm \<Rightarrow> 's \<Rightarrow> 's" where
  "handled lookup ser m app = snd (forE (callbacks_for lookup (fst (ser m))) (\<lambda>callback. callback m) app)"

lemma fold_deliver:
  assumes "\<And>m. parse (fst (ser m)) (snd (ser m)) = Some m"
    and "\<And>tm. tm \<in> set tms \<Longrightarrow> fst (ser (snd tm)) \<in> set types"
  shows "fold (deliver parse types lookup) (map snd (map (frame_of ser) tms)) app = fold (handled lookup ser) (map snd tms) app"
  using assms(2)
proof (induction tms arbitrary: app)
  case (Cons tm tms)
  then show ?case by (simp add: frame_of_def deliver_def handled_def ConstructProto_def assms(1))
qed simp

text \<open>A caching writer, a receiver that has subscribed and, between them, a publish/subscribe network. ZeroMQ
  hands the frames of one publisher to a subscriber at most once and in order; it drops those whose topic
  is not subscribed, and it may lose others. \<open>ch_passed\<close> counts the frames of the writer that the network is
  through with; \<open>ch_lost\<close> counts those of a subscribed topic that it lost. A frame is read in a
  round of the receiving thread; the subscriptions stay what they are.\<close>

record ('s, 'm) channel =
  ch_writer :: "'m CachedProtoWriter"
  ch_receiver :: "('s, 'm) ProtoReceiver"
  ch_passed :: nat
  ch_lost :: nat

inductive channel_step ::
    "(32 word \<Rightarrow> string) \<Rightarrow> (string \<Rightarrow> (32 word \<times> string) option) \<Rightarrow> ('m \<Rightarrow> string \<times> string) \<Rightarrow> 'm parser \<Rightarrow>
     ('s, 'm) channel \<Rightarrow> ('s, 'm) channel \<Rightarrow> bool" for enc dec ser parse where
  writer: "cw_step enc dec ser (\<lambda>_. True) False (ch_writer c) w \<Longrightarrow> channel_step enc dec ser parse c (c\<lparr>ch_writer := w\<rparr>)"
| receiver: "pv_step parse (ch_receiver c) r \<Longrightarrow> pv_arrived r = pv_arrived (ch_receiver c) \<Longrightarrow>
    pv_filters r = pv_filters (ch_receiver c) \<Longrightarrow> channel_step enc dec ser parse c (c\<lparr>ch_receiver := r\<rparr>)"
| arrive: "ch_passed c < length (pw_sent (cw_base (ch_writer c))) \<Longrightarrow> f = pw_sent (cw_base (ch_writer c)) ! ch_passed c \<Longrightarrow>
    subscribed (pv_filters (ch_receiver c)) f \<Longrightarrow> pv_step parse (ch_receiver c) r \<Longrightarrow>
    pv_arrived r = pv_arrived (ch_receiver c) @ [snd f] \<Longrightarrow> pv_filters r = pv_filters (ch_receiver c) \<Longrightarrow>
    channel_step enc dec ser parse c (c\<lparr>ch_receiver := r, ch_passed := Suc (ch_passed c)\<rparr>)"
| unsubscribed: "ch_passed c < length (pw_sent (cw_base (ch_writer c))) \<Longrightarrow>
    \<not> subscribed (pv_filters (ch_receiver c)) (pw_sent (cw_base (ch_writer c)) ! ch_passed c) \<Longrightarrow>
    channel_step enc dec ser parse c (c\<lparr>ch_passed := Suc (ch_passed c)\<rparr>)"
| lose: "ch_passed c < length (pw_sent (cw_base (ch_writer c))) \<Longrightarrow>
    subscribed (pv_filters (ch_receiver c)) (pw_sent (cw_base (ch_writer c)) ! ch_passed c) \<Longrightarrow>
    channel_step enc dec ser parse c (c\<lparr>ch_passed := Suc (ch_passed c), ch_lost := Suc (ch_lost c)\<rparr>)"

definition channel_start :: "int \<Rightarrow> ('s, 'm) ProtoReceiver \<Rightarrow> ('s, 'm) channel" where
  "channel_start cache_count r0 = \<lparr>ch_writer = CachedProtoWriter_ctor cache_count, ch_receiver = r0, ch_passed = 0, ch_lost = 0\<rparr>"

text \<open>What the two ends and the network between them keep.\<close>

definition connected_ends ::
    "(32 word \<Rightarrow> string) \<Rightarrow> (string \<Rightarrow> (32 word \<times> string) option) \<Rightarrow> ('m \<Rightarrow> string \<times> string) \<Rightarrow> 'm parser \<Rightarrow> int \<Rightarrow>
     ('s, 'm) ProtoReceiver \<Rightarrow> ('s, 'm) channel \<Rightarrow> bool" where
  "connected_ends enc dec ser parse cache_count r0 c \<longleftrightarrow>
     cw_reachable enc dec ser (\<lambda>_. True) False cache_count (ch_writer c) \<and> (pv_step parse)\<^sup>*\<^sup>* r0 (ch_receiver c) \<and>
     pv_filters (ch_receiver c) = pv_filters r0 \<and> ch_passed c \<le> length (pw_sent (cw_base (ch_writer c))) \<and>
     (\<exists>got. pv_arrived (ch_receiver c) = map snd got \<and>
        subseq got (filter (subscribed (pv_filters r0)) (take (ch_passed c) (pw_sent (cw_base (ch_writer c))))) \<and>
        length got + ch_lost c = length (filter (subscribed (pv_filters r0)) (take (ch_passed c) (pw_sent (cw_base (ch_writer c))))))"

lemma push_all_grows: "\<exists>ys. pw_sent (push_all send_ok clk n fs pw) = pw_sent pw @ ys"
proof (induction fs arbitrary: n pw)
  case (Cons f fs)
  have "\<exists>ys. pw_sent (snd (PushString send_ok (clk n) f pw)) = pw_sent pw @ ys" by (simp add: PushString_def)
  then show ?case using Cons [of "Suc n" "snd (PushString send_ok (clk n) f pw)"] by auto
qed simp

lemma sent_grows:
  assumes "cw_step enc dec ser send_ok disk w w'"
  shows "\<exists>ys. pw_sent (cw_base w') = pw_sent (cw_base w) @ ys"
  using assms
proof cases
  case (push topic message)
  then show ?thesis by (cases message) (simp_all add: CachedProtoWriter_PushMessage_def)
next
  case thread
  then show ?thesis
    by cases (auto simp: WriteQueue_swap_def WriteQueue_open_def WriteQueue_write_def WriteQueue_count_def Let_def split: option.split)
next
  case (drain readable clk)
  then show ?thesis using push_all_grows by (simp add: Terminate_drain_def ProtoWriter_Terminate_def Let_def)
qed (simp_all add: Terminate_flag_def Terminate_again_def ProtoWriter_Terminate_def Let_def)

lemma connected_ends_step:
  assumes "channel_step enc dec ser parse c c'" and "connected_ends enc dec ser parse cache_count r0 c"
  shows "connected_ends enc dec ser parse cache_count r0 c'"
  using assms(1)
proof cases
  case (writer w)
  obtain ys where "pw_sent (cw_base w) = pw_sent (cw_base (ch_writer c)) @ ys" using sent_grows [OF writer(2)] by blast
  then show ?thesis using assms(2) writer cw_reachable.step [OF _ writer(2)] by (auto simp: connected_ends_def)
next
  case (receiver r)
  then show ?thesis using assms(2) by (auto simp: connected_ends_def)
next
  case (arrive f r)
  obtain got where got: "pv_arrived (ch_receiver c) = map snd got"
    "subseq got (filter (subscribed (pv_filters r0)) (take (ch_passed c) (pw_sent (cw_base (ch_writer c)))))"
    "length got + ch_lost c = length (filter (subscribed (pv_filters r0)) (take (ch_passed c) (pw_sent (cw_base (ch_writer c)))))"
    using assms(2) by (auto simp: connected_ends_def)
  then show ?thesis using assms(2) arrive
    by (auto simp: connected_ends_def take_Suc_conv_app_nth intro!: exI [of _ "got @ [f]"] list_emb_append_mono)
next
  case unsubscribed
  then show ?thesis using assms(2) by (auto simp: connected_ends_def take_Suc_conv_app_nth)
next
  case lose
  then show ?thesis using assms(2) by (auto simp: connected_ends_def take_Suc_conv_app_nth intro: subseq_order.trans)
qed

lemma connected_ends_run:
  assumes "(channel_step enc dec ser parse)\<^sup>*\<^sup>* (channel_start cache_count r0) c" and "fresh_receiver r0"
  shows "connected_ends enc dec ser parse cache_count r0 c"
  using assms(1)
proof induction
  case base
  have "pw_sent (cw_base (CachedProtoWriter_ctor cache_count)) = []" by (simp add: CachedProtoWriter_ctor_def ProtoWriter_ctor_def)
  then show ?case using assms(2) by (simp add: connected_ends_def channel_start_def cw_reachable.start fresh_receiver_def)
next
  case (step y z)
  then show ?case using connected_ends_step by blast
qed

lemma subseq_map_conv: "subseq ys (map g xs) \<Longrightarrow> \<exists>zs. subseq zs xs \<and> ys = map g zs"
  by (auto simp: subseq_conv_nths nths_map)

text \<open>What was sent was pushed.\<close>

lemma sent_pushed:
  assumes "varint_laws enc dec" and "cw_reachable enc dec ser (\<lambda>_. True) False cache_count w" and "sane ser (cw_pushed w)"
  obtains n where "n \<le> length (cw_pushed w)" "pw_sent (cw_base w) = map (frame_of ser) (take n (cw_pushed w))"
proof -
  have "\<exists>n \<le> length (cw_pushed w). pw_sent (cw_base w) = map (frame_of ser) (take n (cw_pushed w))"
  proof (cases "cw_terminator w = T_Done")
    case True
    then obtain ws where "cw_pushed w = ws @ cw_write_queue w" "pw_sent (cw_base w) = map (frame_of ser) ws"
      using delivers_reachable [OF assms(1,2)] assms(3) by (auto simp: delivers_def)
    then show ?thesis by (intro exI [of _ "length ws"]) simp
  next
    case False
    then show ?thesis using delivers_reachable [OF assms(1,2)] assms(3) by (auto simp: delivers_def intro!: exI [of _ 0])
  qed
  then show thesis using that by blast
qed

text \<open>
  C32. A message that is logged reaches its callbacks. A caching writer whose disk takes and gives back what is
  written and a receiver that has subscribed run side by side, with a publish/subscribe network between
  them that keeps the order and may lose frames. At every moment the application is in the
  state that calling back directly with some of the pushed messages of the subscribed topics, in the order of
  pushing, produces; with all of them, once the receiver is through, everything pushed was sent and has
  passed the network, and nothing was lost there.
\<close>
theorem log_channel_end_to_end:
  assumes "varint_laws enc dec" and "\<And>m. parse (fst (ser m)) (snd (ser m)) = Some m"
    and "fresh_receiver r0" and "(channel_step enc dec ser parse)\<^sup>*\<^sup>* (channel_start cache_count r0) c"
    and "sane ser (cw_pushed (ch_writer c))" and "\<not> failed (pv_converter (ch_receiver c))"
    and "\<And>tm. tm \<in> set (cw_pushed (ch_writer c)) \<Longrightarrow> fst (ser (snd tm)) \<in> set (pv_types r0)"
  shows "\<exists>tms. subseq tms (filter (\<lambda>tm. subscribed (pv_filters r0) (frame_of ser tm)) (cw_pushed (ch_writer c))) \<and>
    pv_app (ch_receiver c) = fold (handled (pv_callback_lookup r0) ser) (map snd tms) (pv_app r0) \<and>
    (pv_converter (ch_receiver c) = C_Returned \<and> ch_passed c = length (cw_pushed (ch_writer c)) \<and> ch_lost c = 0 \<longrightarrow>
     tms = filter (\<lambda>tm. subscribed (pv_filters r0) (frame_of ser tm)) (cw_pushed (ch_writer c)))"
proof -
  let ?wanted = "\<lambda>tms. filter (\<lambda>tm. subscribed (pv_filters r0) (frame_of ser tm)) tms"
  let ?ps = "cw_pushed (ch_writer c)" and ?r = "ch_receiver c"
  have ends: "connected_ends enc dec ser parse cache_count r0 c" using connected_ends_run [OF assms(4,3)] .
  obtain n where n: "n \<le> length ?ps" "pw_sent (cw_base (ch_writer c)) = map (frame_of ser) (take n ?ps)"
    using sent_pushed [OF assms(1) _ assms(5)] ends unfolding connected_ends_def by blast
  have "ch_passed c \<le> n" using ends n by (auto simp: connected_ends_def)
  then have passed: "filter (subscribed (pv_filters r0)) (take (ch_passed c) (pw_sent (cw_base (ch_writer c)))) =
      map (frame_of ser) (?wanted (take (ch_passed c) ?ps))" and le: "ch_passed c \<le> length ?ps"
    using n by (simp_all add: take_map filter_map o_def min_def)
  obtain tms where tms: "pv_arrived ?r = map snd (map (frame_of ser) tms)" "subseq tms (?wanted (take (ch_passed c) ?ps))"
    "length tms + ch_lost c = length (?wanted (take (ch_passed c) ?ps))"
    using ends subseq_map_conv unfolding connected_ends_def passed by fastforce
  have run: "delivering parse r0 ?r" using ends delivering_reachable [OF assms(3)] unfolding connected_ends_def by blast
  then obtain ds where ds: "pv_arrived ?r = ds @ in_hand (pv_converter ?r) @ pv_rx_message_queue ?r"
    "pv_app ?r = fold (deliver parse (pv_types r0) (pv_callback_lookup r0)) ds (pv_app r0)"
    using assms(6) by (auto simp: delivering_def)
  let ?tms = "take (length ds) tms"
  have "take (length ds) (pv_arrived ?r) = ds" using ds(1) by simp
  then have "ds = map snd (map (frame_of ser) ?tms)" using tms(1) by (simp add: take_map)
  moreover have sub: "subseq ?tms (?wanted ?ps)"
    using subseq_order.trans [OF subseq_order.trans [OF prefix_imp_subseq [OF take_is_prefix] tms(2)]
        subseq_filter [OF prefix_imp_subseq [OF take_is_prefix]]] .
  moreover have "fst (ser (snd tm)) \<in> set (pv_types r0)" if "tm \<in> set ?tms" for tm
    using list_emb_set [OF sub that] assms(7) by auto
  ultimately have app: "pv_app ?r = fold (handled (pv_callback_lookup r0) ser) (map snd ?tms) (pv_app r0)"
    using fold_deliver [OF assms(2), of ?tms "pv_types r0"] ds(2) by auto
  have "?tms = ?wanted ?ps" if through: "pv_converter ?r = C_Returned" "ch_passed c = length ?ps" "ch_lost c = 0"
  proof -
    have "length ds = length tms" using arg_cong [OF tms(1), of length] ds(1) run through(1) by (simp add: delivering_def)
    then have "length ?tms = length (?wanted ?ps)" using tms(3) through(2,3) by simp
    then show ?thesis using subseq_same_length [OF sub] by simp
  qed
  then show ?thesis using sub app by (intro exI [of _ ?tms]) simp
qed

section \<open>A sample run\<close>

text \<open>The application keeps the messages of type \<open>Log\<close>; the receiver has subscribed to the
  topics that begin with \<open>t\<close>, gets one message and is destroyed.\<close>

definition demo_parse :: "string parser" where
  "demo_parse ty d = Some d"

definition demo_keep :: "string \<Rightarrow> (string list, unit) em" where
  "demo_keep m = modifyE (\<lambda>l. l @ [m])"

definition demo_r0 :: "(string list, string) ProtoReceiver" where
  "demo_r0 = ZmqReceiver_round (Some (Filter True ''t'')) None
     (ProtoReceiver_RegisterProtoCallback ''Log'' demo_keep (ProtoReceiver_ctor []))"

definition demo_r1 :: "(string list, string) ProtoReceiver" where
  "demo_r1 = notify_converter ((ZmqReceiver_round (Some Terminate_command) None
     (ZmqReceiver_round None (Some (''Log'', ''ab'')) demo_r0))\<lparr>pv_terminate_proto_converter := True\<rparr>)"

definition demo_r2 :: "(string list, string) ProtoReceiver" where
  "demo_r2 = ProtoConverter_process demo_parse (''Log'', ''ab'') [] False (ProtoConverter_test demo_r1)"

definition demo_r3 :: "(string list, string) ProtoReceiver" where
  "demo_r3 = demo_r2\<lparr>pv_converter := C_Returned\<rparr>"

lemmas demo_receiver_defs = ProtoReceiver_RegisterProtoCallback_def RegisterProtoConstructor_def ProtoReceiver_ctor_def ZmqReceiver_round_def
  ZmqReceiver_command_def ZmqReceiver_message_def notify_converter_def Filter_def Terminate_command_def ProtoConverter_test_def ProtoConverter_process_def
  ProcessMessage_def ConstructProto_def callbacks_for_def on_app_def catchE_def bindE_def liftE_def returnE_def

lemma demo_r1_eq: "demo_r1 =
   \<lparr>pv_types = [''Log''], pv_callback_lookup = [(''Log'', demo_keep)], pv_batch_size = 0, pv_rx_message_queue = [(''Log'', ''ab'')], pv_rx_count = 0,
    pv_terminate_proto_converter = True, pv_addresses = [], pv_filters = [''t''], pv_receiving = False, pv_converter = C_Awake, pv_app = [],
    pv_arrived = [(''Log'', ''ab'')]\<rparr>"
  by (simp add: demo_r1_def demo_r0_def demo_receiver_defs)

lemma demo_r2_eq: "demo_r2 =
   \<lparr>pv_types = [''Log''], pv_callback_lookup = [(''Log'', demo_keep)], pv_batch_size = 0, pv_rx_message_queue = [], pv_rx_count = 1,
    pv_terminate_proto_converter = True, pv_addresses = [], pv_filters = [''t''], pv_receiving = False, pv_converter = C_Busy [] False, pv_app = [''ab''],
    pv_arrived = [(''Log'', ''ab'')]\<rparr>"
  by (simp add: demo_r2_def demo_r1_eq demo_receiver_defs demo_parse_def demo_keep_def)

lemma demo_r3_run: "(pv_step demo_parse)\<^sup>*\<^sup>* demo_r0 demo_r3"
proof -
  let ?S = "(pv_step demo_parse)\<^sup>*\<^sup>*"
  have "?S demo_r0 (ZmqReceiver_round None (Some (''Log'', ''ab'')) demo_r0)"
    by (intro r_into_rtranclp pv_step.round) (simp_all add: demo_r0_def demo_receiver_defs)
  then have "?S demo_r0 (ZmqReceiver_round (Some Terminate_command) None (ZmqReceiver_round None (Some (''Log'', ''ab'')) demo_r0))"
    by (rule rtranclp.rtrancl_into_rtrancl, intro pv_step.round) (simp_all add: demo_r0_def demo_receiver_defs)
  then have "?S demo_r0 demo_r1" unfolding demo_r1_def
    by (rule rtranclp.rtrancl_into_rtrancl, intro pv_step.stop) (simp add: demo_r0_def demo_receiver_defs)
  then have "?S demo_r0 (ProtoConverter_test demo_r1)"
    by (rule rtranclp.rtrancl_into_rtrancl, intro pv_step.test) (simp add: demo_r1_eq)
  then have "?S demo_r0 demo_r2" unfolding demo_r2_def
    by (rule rtranclp.rtrancl_into_rtrancl, intro pv_step.process) (simp add: demo_r1_eq ProtoConverter_test_def)
  moreover have "pv_step demo_parse demo_r2 demo_r3"
    unfolding demo_r3_def using pv_step.finished [of demo_r2 False demo_parse] by (simp add: demo_r2_eq)
  ultimately show ?thesis by (rule rtranclp.rtrancl_into_rtrancl)
qed

lemma demo_r0_fresh: "fresh_receiver demo_r0"
  by (simp add: fresh_receiver_def demo_r0_def demo_receiver_defs)

theorem receiver_handles_all_witness:
  "\<exists>ds. pv_arrived demo_r3 = ds @ [] \<and> pv_app demo_r3 = fold (deliver demo_parse (pv_types demo_r0) (pv_callback_lookup demo_r0)) ds (pv_app demo_r0)"
proof -
  have "\<not> failed (pv_converter demo_r3)" by (simp add: demo_r3_def)
  from receiver_handles_all [OF demo_r0_fresh demo_r3_run this] show ?thesis by (simp add: demo_r3_def)
qed

text \<open>The writer of the other sample run sends \<open>t\<close> and \<open>u\<close>; the first arrives.\<close>

definition demo_channel :: "(string list, string) ProtoReceiver \<Rightarrow> nat \<Rightarrow> (string list, string) channel" where
  "demo_channel r n = \<lparr>ch_writer = demo_w4, ch_receiver = r, ch_passed = n, ch_lost = 0\<rparr>"

lemma writer_run:
  "cw_reachable enc dec ser (\<lambda>_. True) False cache_count w \<Longrightarrow>
   (channel_step enc dec ser parse)\<^sup>*\<^sup>* (channel_start cache_count r0) (channel_start cache_count r0\<lparr>ch_writer := w\<rparr>)"
proof (induction rule: cw_reachable.induct)
  case start
  then show ?case by (simp add: channel_start_def)
next
  case (step w w')
  then show ?case
    using channel_step.writer [of enc dec ser "channel_start cache_count r0\<lparr>ch_writer := w\<rparr>" w' parse] by (simp add: rtranclp.rtrancl_into_rtrancl)
qed

lemma demo_sent: "pw_sent (cw_base demo_w4) = [(''t'', ''Log'', ''ab''), (''u'', ''Log'', ''c'')]"
  using delivers_reachable [OF demo_varint demo_w4_reachable] demo_sane
  by (auto simp: delivers_def demo_w4_eq frame_of_def demo_ser_def)

lemma demo_channel_run:
  "(channel_step demo_enc demo_dec demo_ser demo_parse)\<^sup>*\<^sup>* (channel_start 1 demo_r0) (demo_channel demo_r3 2)"
proof -
  let ?S = "(channel_step demo_enc demo_dec demo_ser demo_parse)\<^sup>*\<^sup>*"
  let ?a = "ZmqReceiver_round None (Some (''Log'', ''ab'')) demo_r0"
  let ?t = "ZmqReceiver_round (Some Terminate_command) None ?a"
  note go = rtranclp.rtrancl_into_rtrancl
  have quiet: "?S (channel_start 1 demo_r0) (demo_channel r' n)"
    if "?S (channel_start 1 demo_r0) (demo_channel r n)" "pv_step demo_parse r r'" "pv_arrived r' = pv_arrived r" "pv_filters r' = pv_filters r" for r r' n
    using go [OF that(1) channel_step.receiver [of demo_parse "demo_channel r n" r']] that(2-4) by (simp add: demo_channel_def)
  have "?S (channel_start 1 demo_r0) (demo_channel demo_r0 0)"
    using writer_run [OF demo_w4_reachable, of demo_parse demo_r0] by (simp add: demo_channel_def channel_start_def)
  moreover have "channel_step demo_enc demo_dec demo_ser demo_parse (demo_channel demo_r0 0) (demo_channel ?a 1)"
  proof -
    have s: "pv_step demo_parse demo_r0 ?a" by (intro pv_step.round) (simp_all add: demo_r0_def demo_receiver_defs)
    have f: "pv_filters demo_r0 = [''t'']" "pv_filters ?a = [''t'']" "pv_arrived ?a = pv_arrived demo_r0 @ [(''Log'', ''ab'')]"
      by (simp_all add: demo_r0_def demo_receiver_defs)
    have "channel_step demo_enc demo_dec demo_ser demo_parse (demo_channel demo_r0 0)
        (demo_channel demo_r0 0\<lparr>ch_receiver := ?a, ch_passed := Suc (ch_passed (demo_channel demo_r0 0))\<rparr>)"
      by (rule channel_step.arrive [of _ "(''t'', ''Log'', ''ab'')"]) (simp_all add: demo_channel_def demo_sent subscribed_def s f)
    then show ?thesis by (simp add: demo_channel_def)
  qed
  moreover have "channel_step demo_enc demo_dec demo_ser demo_parse (demo_channel ?a 1) (demo_channel ?a 2)"
  proof -
    have "pv_filters ?a = [''t'']" by (simp add: demo_r0_def demo_receiver_defs)
    then show ?thesis using channel_step.unsubscribed [of "demo_channel ?a 1" demo_enc demo_dec demo_ser demo_parse]
      by (simp add: demo_channel_def demo_sent subscribed_def numeral_2_eq_2)
  qed
  ultimately have "?S (channel_start 1 demo_r0) (demo_channel ?a 2)" by (meson go)
  then have "?S (channel_start 1 demo_r0) (demo_channel ?t 2)"
    by (rule quiet) (intro pv_step.round, simp_all add: demo_r0_def demo_receiver_defs)
  then have "?S (channel_start 1 demo_r0) (demo_channel demo_r1 2)" unfolding demo_r1_def
    by (rule quiet) (intro pv_step.stop, simp_all add: demo_r0_def demo_receiver_defs)
  then have "?S (channel_start 1 demo_r0) (demo_channel (ProtoConverter_test demo_r1) 2)"
    by (rule quiet) (intro pv_step.test, simp_all add: demo_r1_eq ProtoConverter_test_def)
  then have "?S (channel_start 1 demo_r0) (demo_channel demo_r2 2)"
  proof (rule quiet)
    show "pv_step demo_parse (ProtoConverter_test demo_r1) demo_r2" unfolding demo_r2_def
      by (intro pv_step.process) (simp add: demo_r1_eq ProtoConverter_test_def)
  qed (simp_all add: demo_r1_eq demo_r2_eq ProtoConverter_test_def)
  then show ?thesis
  proof (rule quiet)
    show "pv_step demo_parse demo_r2 demo_r3"
      unfolding demo_r3_def using pv_step.finished [of demo_r2 False demo_parse] by (simp add: demo_r2_eq)
  qed (simp_all add: demo_r3_def)
qed

theorem log_channel_end_to_end_witness:
  "pv_app demo_r3 = fold (handled (pv_callback_lookup demo_r0) demo_ser)
     (map snd (filter (\<lambda>tm. subscribed (pv_filters demo_r0) (frame_of demo_ser tm)) (cw_pushed demo_w4))) (pv_app demo_r0) \<and>
   pv_filters demo_r0 = [''t'']"
proof -
  have p: "ch_writer (demo_channel demo_r3 2) = demo_w4" "ch_receiver (demo_channel demo_r3 2) = demo_r3"
    "ch_passed (demo_channel demo_r3 2) = 2" "ch_lost (demo_channel demo_r3 2) = 0" "pv_converter demo_r3 = C_Returned"
    by (simp_all add: demo_channel_def demo_r3_def)
  have s: "sane demo_ser (cw_pushed (ch_writer (demo_channel demo_r3 2)))" using demo_sane by (simp add: p demo_w4_eq)
  have f: "\<not> failed (pv_converter (ch_receiver (demo_channel demo_r3 2)))" by (simp add: p)
  have t: "fst (demo_ser (snd tm)) \<in> set (pv_types demo_r0)" for tm by (simp add: demo_ser_def demo_r0_def demo_receiver_defs)
  have l: "pv_filters demo_r0 = [''t'']" by (simp add: demo_r0_def demo_receiver_defs)
  have m: "demo_parse (fst (demo_ser m)) (snd (demo_ser m)) = Some m" for m by (simp add: demo_parse_def demo_ser_def)
  from log_channel_end_to_end [OF demo_varint m demo_r0_fresh demo_channel_run s f t] show ?thesis
    unfolding p by (auto simp: demo_w4_eq l)
qed

end
