(* ===== verification/FXPacket.thy ===== *)
theory FXPacket
  imports Prelude_SEM
begin

text \<open>
  The packets of the FFT accelerator protocol, \<^verbatim>\<open>re/src/workers/fft_accel/data\<close>: a request to the
  accelerator is split into packets of at most 256 samples, each with the number of the request and a
  number in the sequence. A sample is the bit pattern of a \<open>float\<close>; \<open>memcpy\<close> copies it with the lowest byte
  first, the order of the machines the program runs on.
\<close>

type_synonym byte = "8 word"
type_synonym sample = "32 word"

unbundle bit_operations_syntax

section \<open>Bytes\<close>

datatype packet_type = Cmd_write | Cmd_read | Ack | Data

fun byte_encoding :: "packet_type \<Rightarrow> byte" where
  "byte_encoding Cmd_write = 0xCD"
| "byte_encoding Cmd_read = 0xCE"
| "byte_encoding Ack = 0xAC"
| "byte_encoding Data = 0xDA"

definition packet_type_from_byte :: "byte \<Rightarrow> exn + packet_type" where
  "packet_type_from_byte b =
     (if b = 0xCD then Inr Cmd_write else if b = 0xCE then Inr Cmd_read else if b = 0xAC then Inr Ack else if b = 0xDA then Inr Data
      else Inl (InvalidArgument ''Error attempting to parse packet type: invalid/unknown byte pattern''))"

text \<open>A \<open>byte_span\<close> is the list of bytes it shows. The second test of a subspan with a length compares with
  the whole span, and a subspan that would end with the span is refused like one that overruns it.\<close>

definition subspan :: "nat \<Rightarrow> byte list \<Rightarrow> exn + byte list" where
  "subspan byte_offset bs =
     (if length bs \<le> byte_offset
      then Inl (OutOfRange ''Attempting to create subspan that would start beyond the end of a byte_span'')
      else Inr (drop byte_offset bs))"

definition subspan_of_length :: "nat \<Rightarrow> nat \<Rightarrow> byte list \<Rightarrow> exn + byte list" where
  "subspan_of_length byte_offset len bs =
     (if length bs \<le> byte_offset
      then Inl (OutOfRange ''Attempting to create subspan that would start beyond the end of a byte_span'')
      else if length bs < len
      then Inl (OutOfRange ''Attempting to create subspan that would be longer than the originating byte_span'')
      else if length bs \<le> byte_offset + len
      then Inl (OutOfRange ''Attempting to create subspan that would over-run the end of a byte_span'')
      else Inr (take len (drop byte_offset bs)))"

text \<open>\<open>operator[]\<close> does not check, \<open>at\<close> does. \<open>at_big16\<close> is \<open>big_to_native(at<uint16_t>)\<close>.\<close>

definition byte_at :: "byte list \<Rightarrow> nat \<Rightarrow> exn + byte" where
  "byte_at bs i = (if i < length bs then Inr (bs ! i) else Inl (Undefined ''byte_span::operator[]''))"

definition at_big16 :: "byte list \<Rightarrow> nat \<Rightarrow> exn + 16 word" where
  "at_big16 bs byte_offset =
     (if length bs < byte_offset + 2 then Inl (OutOfRange ''Attempting to read beyond the end of a byte_span'')
      else Inr (push_bit 8 (ucast (bs ! byte_offset)) OR ucast (bs ! Suc byte_offset)))"

definition bytes_of_sample :: "sample \<Rightarrow> byte list" where
  "bytes_of_sample s = [ucast s, ucast (drop_bit 8 s), ucast (drop_bit 16 s), ucast (drop_bit 24 s)]"

fun samples_of_bytes :: "byte list \<Rightarrow> sample list" where
  "samples_of_bytes (a # b # c # d # bs) =
     (ucast a OR push_bit 8 (ucast b) OR push_bit 16 (ucast c) OR push_bit 24 (ucast d)) # samples_of_bytes bs"
| "samples_of_bytes _ = []"

section \<open>Packets\<close>

record data_packet_header =
  hd_packet_sequence_num :: byte
  hd_fft_request_id :: byte
  hd_control_state_register :: byte
  hd_fft_size :: "16 word"

definition header_of_bytes :: "byte list \<Rightarrow> exn + data_packet_header" where
  "header_of_bytes bs = (case (byte_at bs 1, byte_at bs 2, byte_at bs 3, at_big16 bs 4) of
     (Inr s, Inr r, Inr c, Inr n) \<Rightarrow> Inr \<lparr>hd_packet_sequence_num = s, hd_fft_request_id = r, hd_control_state_register = c, hd_fft_size = n\<rparr>
   | (Inl e, _, _, _) \<Rightarrow> Inl e | (_, Inl e, _, _) \<Rightarrow> Inl e | (_, _, Inl e, _) \<Rightarrow> Inl e | (_, _, _, Inl e) \<Rightarrow> Inl e)"

definition data_packet_header_ctor :: "byte \<Rightarrow> byte \<Rightarrow> 16 word \<Rightarrow> data_packet_header" where
  "data_packet_header_ctor request_id sequence_num fft_size =
     \<lparr>hd_packet_sequence_num = sequence_num, hd_fft_request_id = request_id, hd_control_state_register = 0, hd_fft_size = fft_size\<rparr>"

record fft_data_packet =
  pk_header_data :: data_packet_header
  pk_fft_data :: "sample list"

definition max_elements :: nat where
  "max_elements = 256"

definition header_byte_length :: nat where
  "header_byte_length = 6"

definition fft_data_packet_ctor :: "sample list \<Rightarrow> byte \<Rightarrow> byte \<Rightarrow> exn + fft_data_packet" where
  "fft_data_packet_ctor data_range request_id sequence_num =
     (if max_elements < length data_range
      then Inl (InvalidArgument ''Attempting to create fft_data_packet from vector that is too large'')
      else Inr \<lparr>pk_header_data = data_packet_header_ctor request_id sequence_num (word_of_nat max_elements), pk_fft_data = data_range\<rparr>)"

definition sequence_number :: "fft_data_packet \<Rightarrow> byte" where
  "sequence_number p = hd_packet_sequence_num (pk_header_data p)"

definition request_id :: "fft_data_packet \<Rightarrow> byte" where
  "request_id p = hd_fft_request_id (pk_header_data p)"

text \<open>Serialising copies the bytes of 256 samples, however many there are: it reads past the end of a shorter
  vector. Bytes 3 and 5 of the array are never written; \<open>junk\<close> is what they hold.\<close>

definition serialized_fft_data :: "(nat \<Rightarrow> byte) \<Rightarrow> fft_data_packet \<Rightarrow> exn + byte list" where
  "serialized_fft_data junk p =
     (if length (pk_fft_data p) < max_elements then Inl (Undefined ''memcpy past the end of a vector'')
      else Inr ([byte_encoding Data, sequence_number p, request_id p, junk 3, word_of_nat (length (pk_fft_data p)), junk 5] @
        concat (map bytes_of_sample (take max_elements (pk_fft_data p)))))"

text \<open>Deserialising takes every byte after the header, whatever size the header states.\<close>

definition deserialize :: "byte list \<Rightarrow> exn + fft_data_packet" where
  "deserialize bs = (case subspan_of_length 0 header_byte_length bs of
     Inl e \<Rightarrow> Inl e
   | Inr hb \<Rightarrow> (case header_of_bytes hb of
       Inl e \<Rightarrow> Inl e
     | Inr h \<Rightarrow> (case subspan header_byte_length bs of
         Inl e \<Rightarrow> Inl e
       | Inr data_span \<Rightarrow> Inr \<lparr>pk_header_data = h, pk_fft_data = samples_of_bytes data_span\<rparr>)))"

section \<open>Round trip\<close>

lemma packet_type_roundtrip: "packet_type_from_byte (byte_encoding t) = Inr t"
  by (cases t) (simp_all add: packet_type_from_byte_def)

lemma sample_roundtrip:
  fixes s :: sample
  shows "(ucast (ucast s :: byte) OR push_bit 8 (ucast (ucast (drop_bit 8 s) :: byte)) OR push_bit 16 (ucast (ucast (drop_bit 16 s) :: byte))
     OR push_bit 24 (ucast (ucast (drop_bit 24 s) :: byte)) :: sample) = s"
proof (rule bit_word_eqI)
  fix n assume "n < LENGTH(32)"
  then show "bit (ucast (ucast s :: byte) OR push_bit 8 (ucast (ucast (drop_bit 8 s) :: byte)) OR push_bit 16 (ucast (ucast (drop_bit 16 s) :: byte))
     OR push_bit 24 (ucast (ucast (drop_bit 24 s) :: byte)) :: sample) n = bit s n"
    by (cases "n < 8"; cases "n < 16"; cases "n < 24") (auto simp: bit_simps le_add_diff_inverse)
qed

lemma samples_roundtrip: "samples_of_bytes (concat (map bytes_of_sample xs)) = xs"
  by (induction xs) (simp_all add: bytes_of_sample_def sample_roundtrip [simplified])

lemma length_samples: "length (concat (map bytes_of_sample xs)) = 4 * length xs"
  by (induction xs) (simp_all add: bytes_of_sample_def)

lemma deserialize_full:
  assumes "length xs = 256"
  shows "deserialize ([t, s, r, c, h, l] @ concat (map bytes_of_sample xs)) =
    Inr \<lparr>pk_header_data = \<lparr>hd_packet_sequence_num = s, hd_fft_request_id = r, hd_control_state_register = c,
      hd_fft_size = push_bit 8 (ucast h) OR ucast l\<rparr>, pk_fft_data = xs\<rparr>"
  using assms samples_roundtrip [of xs] length_samples [of xs]
  by (simp add: deserialize_def subspan_of_length_def subspan_def header_of_bytes_def byte_at_def at_big16_def header_byte_length_def nth_Cons)

text \<open>
  A full packet survives the wire: serialised and read back it has its samples bit by bit, its number in
  the sequence and the number of its request. The size in the header does not: its high byte is the length
  modulo 256, which is 0, and its low byte is whatever the memory held. A packet that is not full has no
  serialisation that C++ defines.
\<close>
theorem fft_packet_roundtrip:
  assumes "fft_data_packet_ctor xs r s = Inr p"
  shows "(if length xs = 256
      then \<exists>bs p'. serialized_fft_data junk p = Inr bs \<and> length bs = 1030 \<and> deserialize bs = Inr p' \<and> pk_fft_data p' = xs \<and>
        sequence_number p' = s \<and> request_id p' = r \<and> hd_fft_size (pk_header_data p') = ucast (junk 5)
      else \<exists>t. serialized_fft_data junk p = Inl (Undefined t))"
proof (cases "length xs = 256")
  case True
  have p: "pk_fft_data p = xs" "sequence_number p = s" "request_id p = r"
    using assms by (auto simp: fft_data_packet_ctor_def data_packet_header_ctor_def sequence_number_def request_id_def split: if_splits)
  let ?h = "[0xDA, s, r, junk 3, 0, junk 5] :: byte list"
  have z: "(word_of_nat (length xs) :: byte) = 0" by (simp add: True word_of_nat_eq_0_iff dvd_def)
  have bs: "serialized_fft_data junk p = Inr (?h @ concat (map bytes_of_sample xs))"
    using True by (simp add: serialized_fft_data_def p max_elements_def z)
  have "deserialize (?h @ concat (map bytes_of_sample xs)) =
      Inr \<lparr>pk_header_data = \<lparr>hd_packet_sequence_num = s, hd_fft_request_id = r, hd_control_state_register = junk 3, hd_fft_size = ucast (junk 5)\<rparr>,
        pk_fft_data = xs\<rparr>"
    using deserialize_full [OF True, of "0xDA" s r "junk 3" 0 "junk 5"] by simp
  then show ?thesis using bs True by (simp add: length_samples sequence_number_def request_id_def)
next
  case False
  then show ?thesis using assms by (auto simp: fft_data_packet_ctor_def serialized_fft_data_def max_elements_def split: if_splits)
qed

theorem fft_packet_roundtrip_witness:
  "\<exists>bs p'. serialized_fft_data (\<lambda>_. 7) \<lparr>pk_header_data = data_packet_header_ctor 3 1 256, pk_fft_data = replicate 256 0x3F800000\<rparr> = Inr bs \<and>
     length bs = 1030 \<and> deserialize bs = Inr p' \<and> pk_fft_data p' = replicate 256 0x3F800000 \<and>
     sequence_number p' = 1 \<and> request_id p' = 3 \<and> hd_fft_size (pk_header_data p') = ucast (7 :: byte)"
proof -
  have "fft_data_packet_ctor (replicate 256 0x3F800000) 3 1 =
     Inr \<lparr>pk_header_data = data_packet_header_ctor 3 1 256, pk_fft_data = replicate 256 0x3F800000\<rparr>"
    by (simp add: fft_data_packet_ctor_def max_elements_def)
  from fft_packet_roundtrip [OF this, of "\<lambda>_. 7"] show ?thesis by simp
qed

end
