(* ===== verification/FXRequest.thy ===== *)
theory FXRequest
  imports FXPacket
begin

text \<open>
  Requests to the FFT accelerator: the packets of one request (\<^verbatim>\<open>data/fft_packet_group.hpp\<close>) and the map of
  all requests that wait for responses (\<^verbatim>\<open>runtime/fft_request_map.hpp\<close>). Errors are values of the type
  \<open>Result\<close> (\<^verbatim>\<open>re/src/types/result.hpp\<close>); a message ends where the program would add the text of a standard
  exception.
\<close>

datatype 'a Result = Error_result string | Value_result 'a

fun is_error :: "'a Result \<Rightarrow> bool" where
  "is_error (Error_result _) = True"
| "is_error (Value_result _) = False"

section \<open>The packets of a request\<close>

record fft_packet_group =
  pg_request_id :: byte
  pg_packets :: "fft_data_packet list"
  pg_response_received_list :: "bool list"
  pg_num_remaining_packets :: nat

definition data_segment :: "sample list \<Rightarrow> nat \<Rightarrow> sample list" where
  "data_segment fft_data cur_index =
     (let segment_start = cur_index * max_elements; segment_end = min ((cur_index + 1) * max_elements) (length fft_data)
      in take (segment_end - segment_start) (drop segment_start fft_data))"

primrec segment_packets :: "sample list \<Rightarrow> byte \<Rightarrow> nat list \<Rightarrow> exn + fft_data_packet list" where
  "segment_packets fft_data rid [] = Inr []"
| "segment_packets fft_data rid (cur_index # is) = (case fft_data_packet_ctor (data_segment fft_data cur_index) rid (word_of_nat cur_index) of
     Inl e \<Rightarrow> Inl e
   | Inr p \<Rightarrow> (case segment_packets fft_data rid is of Inl e \<Rightarrow> Inl e | Inr ps \<Rightarrow> Inr (p # ps)))"

definition fft_packet_group_ctor :: "sample list \<Rightarrow> byte \<Rightarrow> exn + fft_packet_group" where
  "fft_packet_group_ctor fft_data rid =
     (if fft_data = [] then Inl (InvalidArgument ''Error: cannot construct fft packet group from empty vector'')
      else let num_packets = (length fft_data - 1) div max_elements + 1
        in case segment_packets fft_data rid [0..<num_packets] of
             Inl e \<Rightarrow> Inl e
           | Inr ps \<Rightarrow> Inr \<lparr>pg_request_id = rid, pg_packets = ps, pg_response_received_list = replicate num_packets False,
               pg_num_remaining_packets = num_packets\<rparr>)"

definition update_packet_with_response :: "fft_data_packet \<Rightarrow> fft_packet_group \<Rightarrow> unit Result \<times> fft_packet_group" where
  "update_packet_with_response response g =
     (let seq_num = unat (sequence_number response)
      in if length (pg_response_received_list g) \<le> seq_num
         then (Error_result (''Exception occurred while updating packet group with response packet (sequence number '' @ to_string (int seq_num) @ ''):''), g)
         else if pg_response_received_list g ! seq_num
         then (Error_result ''Attempting to update packet when a response had already been received...'', g)
         else (Value_result (), g\<lparr>pg_packets := (pg_packets g)[seq_num := response],
           pg_response_received_list := (pg_response_received_list g)[seq_num := True],
           pg_num_remaining_packets := pg_num_remaining_packets g - 1\<rparr>))"

definition to_vector :: "fft_packet_group \<Rightarrow> sample list" where
  "to_vector g = concat (map pk_fft_data (pg_packets g))"

section \<open>All requests\<close>

record fft_request_map =
  rm_staged_packet_groups :: "(byte, fft_packet_group) umap"
  rm_unfulfilled_promises :: "(byte, bool) umap"
  rm_id_tracker :: byte

text \<open>A promise is kept with whether its value is set.\<close>

definition fft_request_map_ctor :: fft_request_map where
  "fft_request_map_ctor = \<lparr>rm_staged_packet_groups = [], rm_unfulfilled_promises = [], rm_id_tracker = 0\<rparr>"

text \<open>The loop of \<open>get_new_id\<close>, with the attempts that are left before the one that gives up (the test comes
  before the id of the attempt is looked at).\<close>

primrec new_id_from :: "nat \<Rightarrow> (byte \<Rightarrow> bool) \<Rightarrow> byte \<Rightarrow> byte option \<times> byte" where
  "new_id_from 0 staged id_tracker = (None, id_tracker + 1)"
| "new_id_from (Suc attempts) staged id_tracker =
     (if staged id_tracker then new_id_from attempts staged (id_tracker + 1) else (Some id_tracker, id_tracker + 1))"

definition get_new_id :: "fft_request_map \<Rightarrow> byte Result \<times> fft_request_map" where
  "get_new_id m = (case new_id_from 254 (umap_count (rm_staged_packet_groups m)) (rm_id_tracker m) of
     (None, t) \<Rightarrow> (Error_result ''unable to find a free request_id; max attempts reached'', m\<lparr>rm_id_tracker := t\<rparr>)
   | (Some i, t) \<Rightarrow> (Value_result i, m\<lparr>rm_id_tracker := t\<rparr>))"

definition construct_packets :: "sample list \<Rightarrow> fft_request_map \<Rightarrow> fft_packet_group Result \<times> fft_request_map" where
  "construct_packets fft_input_data m = (case get_new_id m of
     (Error_result e, m) \<Rightarrow> (Error_result (''Failed to generate a new ID when constructing a packet group: '' @ e), m)
   | (Value_result new_id, m) \<Rightarrow>
       if umap_count (rm_staged_packet_groups m) new_id
       then (Error_result ''fft_request_map failed to construct a packet group: unable to insert into staged packets map'', m)
       else (case fft_packet_group_ctor fft_input_data new_id of
         Inl e \<Rightarrow> (Error_result ''fft_request_map failed to construct a packet; An exception occurred: '', m)
       | Inr g \<Rightarrow>
           let m = m\<lparr>rm_staged_packet_groups := umap_put new_id g (rm_staged_packet_groups m)\<rparr>
           in if umap_count (rm_unfulfilled_promises m) new_id
              then (Error_result ''fft_request_map failed to promise for unfulfilled request: unable to insert into staged packet map'', m)
              else (Value_result g, m\<lparr>rm_unfulfilled_promises := umap_put new_id False (rm_unfulfilled_promises m)\<rparr>)))"

definition update_pending_packets ::
    "fft_data_packet \<Rightarrow> fft_request_map \<Rightarrow> (byte \<times> sample list) option Result \<times> fft_request_map" where
  "update_pending_packets received_packet m =
     (let rid = request_id received_packet;
          failure = Error_result (''Exception while updating packet with request ID '' @ to_string (uint rid) @ '' with new packet data:'')
      in case map_of (rm_staged_packet_groups m) rid of
           None \<Rightarrow> (failure, m)
         | Some g \<Rightarrow> (case update_packet_with_response received_packet g of
             (Error_result e, _) \<Rightarrow> (Error_result (''Couldn't update data for request id '' @ to_string (uint rid) @ '': '' @ e), m)
           | (Value_result _, g) \<Rightarrow>
               let m = m\<lparr>rm_staged_packet_groups := umap_put rid g (rm_staged_packet_groups m)\<rparr>
               in if pg_num_remaining_packets g = 0
                  then (case map_of (rm_unfulfilled_promises m) rid of
                    Some False \<Rightarrow> (Value_result (Some (rid, to_vector g)),
                      m\<lparr>rm_unfulfilled_promises := umap_put rid True (rm_unfulfilled_promises m)\<rparr>)
                  | _ \<Rightarrow> (failure, m))
                  else (Value_result None, m)))"

section \<open>Splitting and joining\<close>

lemma data_segment_take: "data_segment d i = take max_elements (drop (i * max_elements) d)"
proof (cases "(i + 1) * max_elements \<le> length d")
  case False
  then have "length (drop (i * max_elements) d) \<le> max_elements" by simp
  then show ?thesis using False by (simp add: data_segment_def Let_def min_def)
qed (simp add: data_segment_def Let_def min_def)

definition segment_packet :: "sample list \<Rightarrow> byte \<Rightarrow> nat \<Rightarrow> fft_data_packet" where
  "segment_packet d rid i =
     \<lparr>pk_header_data = data_packet_header_ctor rid (word_of_nat i) (word_of_nat max_elements), pk_fft_data = data_segment d i\<rparr>"

lemma segment_packets_eq: "segment_packets d rid is = Inr (map (segment_packet d rid) is)"
  by (induction "is") (simp_all add: fft_data_packet_ctor_def data_segment_take segment_packet_def)

definition packets_of :: "sample list \<Rightarrow> nat" where
  "packets_of d = (length d - 1) div max_elements + 1"

lemma fft_packet_group_ctor_eq:
  "d \<noteq> [] \<Longrightarrow> fft_packet_group_ctor d rid = Inr \<lparr>pg_request_id = rid, pg_packets = map (segment_packet d rid) [0..<packets_of d],
     pg_response_received_list = replicate (packets_of d) False, pg_num_remaining_packets = packets_of d\<rparr>"
  by (simp add: fft_packet_group_ctor_def segment_packets_eq packets_of_def Let_def)

lemma concat_segments: "concat (map (data_segment d) [0..<n]) = take (n * max_elements) d"
  by (induction n) (simp_all add: data_segment_take take_add [symmetric] add.commute)

lemma packets_of_cover: "length d \<le> packets_of d * max_elements"
proof -
  have "length d - 1 < ((length d - 1) div max_elements + 1) * max_elements"
    using dividend_less_div_times [of max_elements "length d - 1"] by (simp add: max_elements_def)
  then show ?thesis by (simp add: packets_of_def)
qed

section \<open>Responses\<close>

definition update_all :: "fft_data_packet list \<Rightarrow> fft_packet_group \<Rightarrow> fft_packet_group" where
  "update_all rs g = fold (\<lambda>r g. snd (update_packet_with_response r g)) rs g"

definition number_of :: "fft_data_packet \<Rightarrow> nat" where
  "number_of r = unat (sequence_number r)"

definition payload_after :: "fft_data_packet list \<Rightarrow> sample list \<Rightarrow> nat \<Rightarrow> sample list" where
  "payload_after rs d i = (case find (\<lambda>r. number_of r = i) rs of Some r \<Rightarrow> pk_fft_data r | None \<Rightarrow> data_segment d i)"

lemma find_append: "find P (xs @ ys) = (case find P xs of None \<Rightarrow> find P ys | Some x \<Rightarrow> Some x)"
  by (induction xs) auto

lemma find_none_number: "(find (\<lambda>r. number_of r = i) rs = None) = (i \<notin> number_of ` set rs)"
  by (auto simp: find_None_iff)

lemma update_all_state:
  assumes "fft_packet_group_ctor d rid = Inr g"
  shows "map pk_fft_data (pg_packets (update_all rs g)) = map (payload_after rs d) [0..<packets_of d] \<and>
    pg_response_received_list (update_all rs g) = map (\<lambda>i. i \<in> number_of ` set rs) [0..<packets_of d] \<and>
    pg_num_remaining_packets (update_all rs g) = card ({..<packets_of d} - number_of ` set rs)"
proof (induction rs rule: rev_induct)
  case Nil
  have "d \<noteq> []" using assms by (auto simp: fft_packet_group_ctor_def)
  then show ?case using assms
    by (auto simp: fft_packet_group_ctor_eq update_all_def payload_after_def segment_packet_def map_replicate_const o_def)
next
  case (snoc r rs)
  let ?g = "update_all rs g" and ?n = "packets_of d" and ?S = "number_of ` set rs" and ?s = "number_of r"
  have run: "update_all (rs @ [r]) g = snd (update_packet_with_response r ?g)" by (simp add: update_all_def)
  have len: "length (pg_response_received_list ?g) = ?n" using snoc by simp
  have same: "payload_after (rs @ [r]) d i = payload_after rs d i" if "i \<in> ?S \<or> i \<noteq> ?s" for i
    using that find_none_number [of i rs] by (auto simp: payload_after_def find_append split: option.split)
  consider "?n \<le> ?s" | "?s < ?n" "?s \<in> ?S" | "?s < ?n" "?s \<notin> ?S" by linarith
  then show ?case
  proof cases
    case 1
    then have "update_all (rs @ [r]) g = ?g" unfolding run using len by (simp add: update_packet_with_response_def number_of_def Let_def)
    moreover have "{..<?n} - insert ?s ?S = {..<?n} - ?S" using 1 by auto
    ultimately show ?thesis using snoc 1 same by auto
  next
    case 2
    then have "pg_response_received_list ?g ! ?s" using snoc by simp
    then have "update_all (rs @ [r]) g = ?g" unfolding run using len 2(1) by (simp add: update_packet_with_response_def number_of_def Let_def)
    moreover have "insert ?s ?S = ?S" using 2 by auto
    moreover have "payload_after (rs @ [r]) d = payload_after rs d" by (rule ext, rule same) (use 2 in blast)
    ultimately show ?thesis using snoc by simp
  next
    case 3
    then have f: "\<not> pg_response_received_list ?g ! ?s" using snoc by simp
    then have g': "update_all (rs @ [r]) g = ?g\<lparr>pg_packets := (pg_packets ?g)[?s := r],
        pg_response_received_list := (pg_response_received_list ?g)[?s := True], pg_num_remaining_packets := pg_num_remaining_packets ?g - 1\<rparr>"
      unfolding run using len 3(1) by (simp add: update_packet_with_response_def number_of_def Let_def)
    have new: "payload_after (rs @ [r]) d ?s = pk_fft_data r"
      using 3(2) find_none_number [of ?s rs] by (simp add: payload_after_def find_append)
    have "map pk_fft_data ((pg_packets ?g)[?s := r]) = map (payload_after (rs @ [r]) d) [0..<?n]"
      using snoc 3(1) by (auto simp: map_update list_eq_iff_nth_eq nth_list_update new same)
    moreover have "(pg_response_received_list ?g)[?s := True] = map (\<lambda>i. i \<in> insert ?s ?S) [0..<?n]"
      using snoc 3(1) by (auto simp: list_eq_iff_nth_eq nth_list_update)
    moreover have "card ({..<?n} - insert ?s ?S) = card ({..<?n} - ?S) - 1"
    proof -
      have "{..<?n} - insert ?s ?S = ({..<?n} - ?S) - {?s}" by auto
      then show ?thesis using 3 by simp
    qed
    ultimately show ?thesis using snoc by (simp add: g')
  qed
qed

lemma update_all_complete:
  assumes "fft_packet_group_ctor d rid = Inr g"
  shows "(pg_num_remaining_packets (update_all rs g) = 0) = ({..<packets_of d} \<subseteq> number_of ` set rs)"
    and "to_vector (update_all rs g) = concat (map (payload_after rs d) [0..<packets_of d])"
  using update_all_state [OF assms, of rs] by (auto simp: to_vector_def)

text \<open>
  Responses may come in any order. After any sequence of responses to the packets of a request, with
  repetitions and numbers that do not belong to it, the request is complete exactly when each of its packets
  was answered, and its result is put together by the numbers of the packets, the first answer to each
  counting. Without any response it is the data of the request. A request of more than 256 packets never is
  complete, because their numbers are bytes.
\<close>
theorem request_completes_iff:
  assumes "fft_packet_group_ctor d rid = Inr g"
  shows "(pg_num_remaining_packets (update_all rs g) = 0) = ({..<packets_of d} \<subseteq> number_of ` set rs) \<and>
    (pg_num_remaining_packets (update_all rs g) = 0 \<longrightarrow> length d \<le> 256 * 256) \<and>
    to_vector (update_all rs g) = concat (map (payload_after rs d) [0..<packets_of d]) \<and> to_vector g = d"
proof -
  have d: "d \<noteq> []" using assms by (auto simp: fft_packet_group_ctor_def)
  have iff: "(pg_num_remaining_packets (update_all rs g) = 0) = ({..<packets_of d} \<subseteq> number_of ` set rs)"
    by (rule update_all_complete(1) [OF assms])
  have "length d \<le> 256 * 256" if "{..<packets_of d} \<subseteq> number_of ` set rs"
  proof -
    have "number_of ` set rs \<subseteq> {..<256}" using unsigned_less [where 'b = 8] by (auto simp: number_of_def)
    then have "{..<packets_of d} \<subseteq> {..<256}" by (rule subset_trans [OF that])
    then show ?thesis using packets_of_cover [of d] by (simp add: max_elements_def)
  qed
  moreover have "to_vector g = d"
  proof -
    have "to_vector g = concat (map (data_segment d) [0..<packets_of d])"
      using assms d by (auto simp: fft_packet_group_ctor_eq to_vector_def segment_packet_def o_def)
    then show ?thesis using packets_of_cover [of d] by (simp add: concat_segments)
  qed
  moreover have "to_vector (update_all rs g) = concat (map (payload_after rs d) [0..<packets_of d])"
    by (rule update_all_complete(2) [OF assms])
  ultimately show ?thesis using iff by blast
qed

theorem request_completes_iff_witness:
  "\<exists>g. fft_packet_group_ctor (replicate 300 1) 5 = Inr g \<and>
     to_vector (update_all [segment_packet (replicate 512 2) 5 1, segment_packet (replicate 512 2) 5 0] g) = replicate 512 2"
proof -
  let ?d = "replicate 300 (1 :: sample)" and ?rs = "[segment_packet (replicate 512 2) 5 1, segment_packet (replicate 512 2) 5 0]"
  obtain g where g: "fft_packet_group_ctor ?d 5 = Inr g" using fft_packet_group_ctor_eq [of ?d 5] by simp
  have "[0..<packets_of ?d] = [0, 1]" by (simp add: packets_of_def max_elements_def upt_rec)
  moreover have "payload_after ?rs ?d 0 = replicate 256 2" "payload_after ?rs ?d 1 = replicate 256 2"
    by (simp_all add: payload_after_def number_of_def sequence_number_def segment_packet_def data_packet_header_ctor_def data_segment_take max_elements_def)
  ultimately have "to_vector (update_all ?rs g) = replicate 256 2 @ replicate 256 2"
    using request_completes_iff [OF g, of ?rs] by simp
  then show ?thesis using g by (simp add: replicate_add [symmetric])
qed

section \<open>Numbers of requests\<close>

datatype rm_op = RM_construct "sample list" | RM_update fft_data_packet

text \<open>Which requests were granted by a sequence of operations, and the map after them.\<close>

fun run_rm_ops :: "rm_op list \<Rightarrow> fft_request_map \<Rightarrow> bool list \<times> fft_request_map" where
  "run_rm_ops [] m = ([], m)"
| "run_rm_ops (RM_construct d # ops) m = (case construct_packets d m of (r, m) \<Rightarrow> apfst ((#) (\<not> is_error r)) (run_rm_ops ops m))"
| "run_rm_ops (RM_update p # ops) m = run_rm_ops ops (snd (update_pending_packets p m))"

fun requests_in :: "rm_op list \<Rightarrow> sample list list" where
  "requests_in [] = []"
| "requests_in (RM_construct d # ops) = d # requests_in ops"
| "requests_in (RM_update p # ops) = requests_in ops"

definition numbers_used :: "nat \<Rightarrow> fft_request_map \<Rightarrow> bool" where
  "numbers_used c m \<longleftrightarrow> c \<le> 256 \<and> (\<forall>i. umap_count (rm_staged_packet_groups m) i = (unat i < c)) \<and>
     (\<forall>i. umap_count (rm_unfulfilled_promises m) i = (unat i < c)) \<and> (c < 256 \<longrightarrow> rm_id_tracker m = word_of_nat c)"

lemma new_id_from_full: "(\<And>i. staged i) \<Longrightarrow> fst (new_id_from n staged t) = None"
  by (induction n arbitrary: t) simp_all

lemma numbers_used_full: "numbers_used 256 m \<Longrightarrow> is_error (fst (construct_packets d m)) \<and> numbers_used 256 (snd (construct_packets d m))"
  using new_id_from_full [of "umap_count (rm_staged_packet_groups m)" 254 "rm_id_tracker m"] unsigned_less [where 'b = 8]
  by (auto simp: numbers_used_def construct_packets_def get_new_id_def split: prod.split option.split)

lemma numbers_used_next:
  assumes "numbers_used c m" and "c < 256" and "d \<noteq> []"
  shows "\<not> is_error (fst (construct_packets d m)) \<and> numbers_used (Suc c) (snd (construct_packets d m))"
proof -
  let ?i = "word_of_nat c :: byte"
  have i: "unat ?i = c" using assms(2) by (simp add: unat_of_nat take_bit_nat_eq_self)
  have free: "\<not> umap_count (rm_staged_packet_groups m) ?i" "\<not> umap_count (rm_unfulfilled_promises m) ?i" and t: "rm_id_tracker m = ?i"
    using assms(1,2) i by (simp_all add: numbers_used_def)
  have "get_new_id m = (Value_result ?i, m\<lparr>rm_id_tracker := ?i + 1\<rparr>)"
    using free(1) t by (simp add: get_new_id_def numeral_eq_Suc)
  moreover obtain g where "fft_packet_group_ctor d ?i = Inr g" using fft_packet_group_ctor_eq [OF assms(3)] by blast
  ultimately have run: "construct_packets d m = (Value_result g, m\<lparr>rm_id_tracker := ?i + 1,
      rm_staged_packet_groups := umap_put ?i g (rm_staged_packet_groups m),
      rm_unfulfilled_promises := umap_put ?i False (rm_unfulfilled_promises m)\<rparr>)"
    using free by (simp add: construct_packets_def Let_def)
  have "(j = ?i \<or> unat j < c) = (unat j < Suc c)" for j :: byte
    using i by (metis less_Suc_eq word_unat_eq_iff)
  then show ?thesis using assms(1,2) unfolding run
    by (auto simp: numbers_used_def umap_count_def add.commute)
qed

lemma umap_count_put_same: "umap_count m k \<Longrightarrow> umap_count (umap_put k v m) k' = umap_count m k'"
  by (auto simp: umap_count_def)

lemma numbers_used_update: "numbers_used c m \<Longrightarrow> numbers_used c (snd (update_pending_packets p m))"
proof -
  assume n: "numbers_used c m"
  let ?r = "request_id p" and ?m = "\<lambda>g. m\<lparr>rm_staged_packet_groups := umap_put (request_id p) g (rm_staged_packet_groups m)\<rparr>"
  have "numbers_used c (?m g) \<and> (map_of (rm_unfulfilled_promises m) ?r = Some False \<longrightarrow>
      numbers_used c ((?m g)\<lparr>rm_unfulfilled_promises := umap_put ?r True (rm_unfulfilled_promises m)\<rparr>))"
    if "map_of (rm_staged_packet_groups m) ?r = Some g0" for g g0
  proof -
    have "umap_count (rm_staged_packet_groups m) ?r" using that by (simp add: umap_count_def)
    moreover have "umap_count (rm_unfulfilled_promises m) ?r" if "map_of (rm_unfulfilled_promises m) ?r = Some False"
      using that by (simp add: umap_count_def)
    ultimately show ?thesis using n by (auto simp: numbers_used_def umap_count_put_same)
  qed
  then show ?thesis using n
    by (auto simp: update_pending_packets_def Let_def split: option.split prod.split Result.split bool.split)
qed

lemma run_rm_ops_used:
  assumes "numbers_used c m" and "list_all (\<lambda>d. d \<noteq> []) (requests_in ops)"
  shows "fst (run_rm_ops ops m) = map (\<lambda>i. c + i < 256) [0..<length (requests_in ops)]"
  using assms
proof (induction ops m arbitrary: c rule: run_rm_ops.induct)
  case (2 d ops m)
  obtain r m' where r: "construct_packets d m = (r, m')" by (cases "construct_packets d m")
  have *: "(\<not> is_error r) = (c < 256) \<and> numbers_used (min 256 (Suc c)) m'"
  proof (cases "c < 256")
    case True
    then have "min 256 (Suc c) = Suc c" by simp
    then show ?thesis using numbers_used_next [OF 2(2) True, of d] 2(3) r True by (simp del: min.absorb_iff1 min.absorb_iff2)
  next
    case False
    then have "c = 256" using 2(2) by (simp add: numbers_used_def)
    then show ?thesis using numbers_used_full [of m d] 2(2) r by simp
  qed
  have "fst (run_rm_ops ops m') = map (\<lambda>i. min 256 (Suc c) + i < 256) [0..<length (requests_in ops)]"
    by (rule 2(1) [OF r [symmetric]]) (use * 2(3) in simp_all)
  moreover have "map f [0..<Suc k] = f 0 # map (\<lambda>i. f (Suc i)) [0..<k]" for f :: "nat \<Rightarrow> bool" and k
    by (rule map_upt_Suc)
  moreover have "(min 256 (Suc c) + i < 256) = (c + Suc i < 256)" for i by linarith
  ultimately show ?case using r * by (simp only: requests_in.simps run_rm_ops.simps list.size fst_apfst prod.case add_Suc_right add_0_right)
next
  case (3 p ops m)
  then show ?case using numbers_used_update by simp
qed simp

text \<open>
  C40. The accelerator serves 256 requests and no more. However requests of data and responses follow each
  other, the first 256 requests get a number, and every later one is refused, even when all of the earlier
  ones were answered: numbers are bytes and never are given back.
\<close>
theorem requests_run_out:
  assumes "list_all (\<lambda>d. d \<noteq> []) (requests_in ops)"
  shows "fst (run_rm_ops ops fft_request_map_ctor) = map (\<lambda>i. i < 256) [0..<length (requests_in ops)]"
proof -
  have "numbers_used 0 fft_request_map_ctor" by (simp add: numbers_used_def fft_request_map_ctor_def)
  from run_rm_ops_used [OF this assms] show ?thesis by simp
qed

theorem requests_run_out_witness:
  "fst (run_rm_ops (replicate 300 (RM_construct [1])) fft_request_map_ctor) = replicate 256 True @ replicate 44 False"
proof -
  have r: "requests_in (replicate n (RM_construct d)) = replicate n d" for n d by (induction n) simp_all
  have "map (\<lambda>i. i < (256 :: nat)) [0..<300] = replicate 256 True @ replicate 44 False"
    by (auto simp: list_eq_iff_nth_eq nth_append)
  then show ?thesis using requests_run_out [of "replicate 300 (RM_construct [1])"] by (simp add: r list_all_length)
qed

end
