(* ===== verification/FXAddress.thy ===== *)
theory FXAddress
  imports Prelude_SEM
begin

text \<open>
  Network addresses, \<^verbatim>\<open>re/src/types\<close>: \<open>Ipv4\<close> and \<open>SocketAddress\<close> with their text. The two regular expressions
  of the parsers are written out as functions: four groups of one to three digits between dots, and
  whatever stands before the last colon with one to five digits behind it. (What stands before it has no line
  break, which the dot of a regular expression does not match.)
\<close>

section \<open>Parsing and printing\<close>

datatype Ipv4 = Ipv4 "8 word" "8 word" "8 word" "8 word"

fun pieces :: "char \<Rightarrow> string \<Rightarrow> string list" where
  "pieces c [] = [[]]"
| "pieces c (x # xs) = (if x = c then [] # pieces c xs else (x # hd (pieces c xs)) # tl (pieces c xs))"

definition digit_group :: "nat \<Rightarrow> string \<Rightarrow> bool" where
  "digit_group k s \<longleftrightarrow> s \<noteq> [] \<and> length s \<le> k \<and> list_all is_digit s"

definition parse_octet_from_string :: "string \<Rightarrow> exn + 8 word" where
  "parse_octet_from_string s = (case stoi s of
     Inl e \<Rightarrow> Inl e
   | Inr number \<Rightarrow> if number < 0 \<or> 255 < number then Inl (InvalidArgument ''Ip address octet is out of range ([0,255]).'')
       else Inr (word_of_int number))"

definition parse_string_to_octets :: "string \<Rightarrow> exn + Ipv4" where
  "parse_string_to_octets addr_string =
     (if 15 < length addr_string then Inl (InvalidArgument ''Invalid IP address string format; too long.'')
      else let matches = pieces (CHR ''.'') addr_string
        in if \<not> (length matches = 4 \<and> list_all (digit_group 3) matches)
           then Inl (InvalidArgument ''Invalid IP address string format; cannot parse.'')
           else case sum_map parse_octet_from_string matches of
             Inl e \<Rightarrow> Inl e
           | Inr octets \<Rightarrow> Inr (Ipv4 (octets ! 0) (octets ! 1) (octets ! 2) (octets ! 3)))"

fun Ipv4_to_string :: "Ipv4 \<Rightarrow> string" where
  "Ipv4_to_string (Ipv4 a b c d) =
     to_string (uint a) @ ''.'' @ to_string (uint b) @ ''.'' @ to_string (uint c) @ ''.'' @ to_string (uint d)"

record SocketAddress =
  sa_ip_addr :: Ipv4
  sa_port :: "16 word"

definition parse_port_from_string :: "string \<Rightarrow> exn + 16 word" where
  "parse_port_from_string port = (case stoi port of
     Inl e \<Rightarrow> Inl e
   | Inr port_number \<Rightarrow> if 65535 < port_number \<or> port_number < 0 then Inl (InvalidArgument ''port given is out of range'')
       else Inr (word_of_int port_number))"

text \<open>The two groups of the regular expression of a socket address.\<close>

definition at_last_colon :: "string \<Rightarrow> (string \<times> string) option" where
  "at_last_colon s = (case dropWhile (\<lambda>c. c \<noteq> CHR '':'') (rev s) of
     [] \<Rightarrow> None
   | _ # front \<Rightarrow> Some (rev front, rev (takeWhile (\<lambda>c. c \<noteq> CHR '':'') (rev s))))"

definition socket_match :: "string \<Rightarrow> (string \<times> string) option" where
  "socket_match s = (case at_last_colon s of
     None \<Rightarrow> None
   | Some (front, port) \<Rightarrow> if digit_group 5 port \<and> CHR 0x0A \<notin> set front \<and> CHR 0x0D \<notin> set front then Some (front, port) else None)"

text \<open>Every exception of the two parsers is caught and thrown again as \<open>invalid_argument\<close>; its text ends where
  that of the first exception would follow.\<close>

definition parse_socket_address :: "string \<Rightarrow> exn + SocketAddress" where
  "parse_socket_address addr_string =
     (if 21 < length addr_string then Inl (InvalidArgument ''Invalid socket address string format; too long.'')
      else case socket_match addr_string of
        None \<Rightarrow> Inl (InvalidArgument ''Invalid socket address string format; cannot parse.'')
      | Some (front, port) \<Rightarrow> (case parse_string_to_octets front of
          Inl e \<Rightarrow> Inl (InvalidArgument ''Invalid socket address string format; '')
        | Inr ip \<Rightarrow> (case parse_port_from_string port of
            Inl e \<Rightarrow> Inl (InvalidArgument ''Invalid socket address string format; '')
          | Inr p \<Rightarrow> Inr \<lparr>sa_ip_addr = ip, sa_port = p\<rparr>)))"

definition SocketAddress_to_string :: "SocketAddress \<Rightarrow> string" where
  "SocketAddress_to_string sa = Ipv4_to_string (sa_ip_addr sa) @ '':'' @ to_string (uint (sa_port sa))"

section \<open>What is accepted\<close>

text \<open>A number written with at most \<open>k\<close> digits.\<close>

definition writes :: "nat \<Rightarrow> string \<Rightarrow> nat \<Rightarrow> bool" where
  "writes k s n \<longleftrightarrow> digit_group k s \<and> digits_value s = n"

lemma digit_group_free:
  assumes "digit_group k s" and "\<not> is_digit c"
  shows "c \<notin> set s"
  using assms by (auto simp: digit_group_def list_all_iff)

lemma digits_value_less: "list_all is_digit s \<Longrightarrow> digits_value s < 10 ^ length s"
proof (induction s rule: rev_induct)
  case (snoc c s)
  then show ?case by (simp add: digits_value_append is_digit_def) linarith
qed (simp add: digits_value_def)

lemma stoi_group:
  assumes "digit_group k s" and "k \<le> 5"
  shows "stoi s = Inr (int (digits_value s))"
proof -
  obtain c cs where s: "s = c # cs" "is_digit c" using assms(1) by (cases s) (auto simp: digit_group_def)
  have "takeWhile is_digit s = s" using assms(1) by (simp add: digit_group_def list_all_iff takeWhile_eq_all_conv)
  then have tw: "takeWhile is_digit (c # cs) = c # cs" by (simp only: s(1))
  have "digits_value s < 10 ^ length s" using assms(1) digits_value_less by (simp add: digit_group_def)
  also have "\<dots> \<le> 10 ^ 5" using assms by (intro power_increasing) (auto simp: digit_group_def)
  finally have "int (digits_value s) \<le> int_max" "int_min \<le> int (digits_value s)" by (simp_all add: int_max_def int_min_def)
  moreover have "dropWhile is_space (c # cs) = c # cs" using digit_not_space [OF s(2)] by simp
  ultimately show ?thesis using digit_not_sign [OF s(2)]
    by (simp add: s(1) stoi_def Let_def tw del: takeWhile.simps dropWhile.simps)
qed

lemma word_of_nat_eq:
  fixes w :: "'a::len word"
  shows "n < 2 ^ LENGTH('a) \<Longrightarrow> (word_of_nat n = w) = (n = unat w)"
  by (auto simp: word_unat_eq_iff unat_of_nat take_bit_nat_eq_self)

lemma parse_octet_group:
  "digit_group 3 s \<Longrightarrow> (parse_octet_from_string s = Inr b) = (digits_value s = unat b)"
  using stoi_group [of 3 s] unsigned_less [where 'a = nat, of b] word_of_nat_eq [of "digits_value s" b]
  by (cases "digits_value s < 256") (auto simp: parse_octet_from_string_def)

lemma parse_port_group:
  "digit_group 5 s \<Longrightarrow> (parse_port_from_string s = Inr p) = (digits_value s = unat p)"
  using stoi_group [of 5 s] unsigned_less [where 'a = nat, of p] word_of_nat_eq [of "digits_value s" p]
  by (cases "digits_value s < 65536") (auto simp: parse_port_from_string_def)

lemma pieces_nonempty [simp]: "pieces c s \<noteq> []"
  by (induction s) simp_all

lemma pieces_free: "c \<notin> set p \<Longrightarrow> pieces c p = [p]"
  by (induction p) auto

lemma pieces_cons: "c \<notin> set p \<Longrightarrow> pieces c (p @ c # s) = p # pieces c s"
  by (induction p) auto

lemma pieces_eq:
  "(pieces c s = p # ps) = (c \<notin> set p \<and> (if ps = [] then s = p else \<exists>t. s = p @ c # t \<and> pieces c t = ps))"
proof (induction s arbitrary: p)
  case Nil
  then show ?case by auto
next
  case (Cons x s)
  show ?case
  proof (cases "x = c")
    case True
    then show ?thesis by (cases p) auto
  next
    case False
    have "(pieces c (x # s) = p # ps) = (\<exists>q. p = x # q \<and> pieces c s = q # ps)"
      using False by (cases "pieces c s") auto
    also have "\<dots> = (\<exists>q. p = x # q \<and> c \<notin> set q \<and> (if ps = [] then s = q else \<exists>t. s = q @ c # t \<and> pieces c t = ps))"
      using Cons.IH by simp
    also have "\<dots> = (c \<notin> set p \<and> (if ps = [] then x # s = p else \<exists>t. x # s = p @ c # t \<and> pieces c t = ps))"
      using False by (cases p) auto
    finally show ?thesis .
  qed
qed

lemma pieces_four:
  "(pieces c s = [w, x, y, z]) = (s = w @ c # x @ c # y @ c # z \<and> c \<notin> set w \<and> c \<notin> set x \<and> c \<notin> set y \<and> c \<notin> set z)"
  by (auto simp: pieces_eq)

lemma at_last_colon_eq: "(at_last_colon s = Some (f, q)) = (s = f @ CHR '':'' # q \<and> CHR '':'' \<notin> set q)"
proof
  assume a: "at_last_colon s = Some (f, q)"
  let ?P = "\<lambda>c. c \<noteq> CHR '':''"
  obtain x r where d: "dropWhile ?P (rev s) = x # r" and f: "f = rev r" and q: "q = rev (takeWhile ?P (rev s))"
    using a by (auto simp: at_last_colon_def split: list.splits)
  have "x = CHR '':''" using hd_dropWhile [of ?P "rev s"] d by simp
  then have "rev s = rev q @ CHR '':'' # rev f" using takeWhile_dropWhile_id [of ?P "rev s"] d f q by simp
  then have "s = f @ CHR '':'' # q" by (metis rev_append rev_rev_ident rev.simps(2) append_assoc append_Cons append_Nil)
  moreover have "CHR '':'' \<notin> set q" unfolding q by (auto dest: set_takeWhileD)
  ultimately show "s = f @ CHR '':'' # q \<and> CHR '':'' \<notin> set q" by blast
next
  assume s: "s = f @ CHR '':'' # q \<and> CHR '':'' \<notin> set q"
  have "\<forall>c \<in> set (rev q). c \<noteq> CHR '':''" using s by auto
  then show "at_last_colon s = Some (f, q)"
    using s by (simp add: at_last_colon_def takeWhile_append dropWhile_append)
qed

lemma list_of_four: "(length xs = 4) = (\<exists>w x y z. xs = [w, x, y, z])"
  by (auto simp: length_Suc_conv numeral_eq_Suc)

lemma parse_octets_iff:
  "(parse_string_to_octets s = Inr (Ipv4 a b c d)) = (\<exists>w x y z. s = w @ ''.'' @ x @ ''.'' @ y @ ''.'' @ z \<and>
     writes 3 w (unat a) \<and> writes 3 x (unat b) \<and> writes 3 y (unat c) \<and> writes 3 z (unat d))" (is "?l = ?r")
proof
  assume l: ?l
  then obtain w x y z where p: "pieces (CHR ''.'') s = [w, x, y, z]" "list_all (digit_group 3) [w, x, y, z]"
    by (auto simp: parse_string_to_octets_def Let_def list_of_four split: if_splits)
  then have "sum_map parse_octet_from_string [w, x, y, z] = Inr [a, b, c, d]"
    using l by (auto simp: parse_string_to_octets_def Let_def split: if_splits sum.splits)
  then show ?r using p by (auto simp: pieces_four parse_octet_group writes_def split: sum.splits)
next
  assume ?r
  then obtain w x y z where s: "s = w @ ''.'' @ x @ ''.'' @ y @ ''.'' @ z" and
    w: "writes 3 w (unat a)" "writes 3 x (unat b)" "writes 3 y (unat c)" "writes 3 z (unat d)" by blast
  have "\<not> is_digit (CHR ''.'')" by (simp add: is_digit_def)
  then have "pieces (CHR ''.'') s = [w, x, y, z]"
    using w digit_group_free unfolding pieces_four s by (auto simp: writes_def)
  moreover have "length s \<le> 15" using w by (simp add: s writes_def digit_group_def)
  ultimately show ?l using w
    by (simp add: parse_string_to_octets_def writes_def parse_octet_group [THEN iffD2])
qed

lemma writes_to_string:
  assumes "n < 10 ^ k" and "0 < k"
  shows "writes k (to_string (int n)) n"
proof -
  have "length (digits_of n) \<le> k"
    using assms
  proof (induction n arbitrary: k rule: digits_of.induct)
    case (1 n)
    show ?case
    proof (cases "n < 10")
      case False
      then obtain j where k: "k = Suc j" "0 < j" using 1(2,3) by (cases k; cases "k - 1") auto
      then have "n div 10 < 10 ^ j" using 1(2) by (simp add: less_mult_imp_div_less mult.commute)
      with 1(1) [OF False] k False show ?thesis by (simp add: digits_of.simps [of n])
    qed (use 1(3) in \<open>simp add: digits_of.simps [of n]\<close>)
  qed
  then show ?thesis using digits_of_digits [of _ n] by (simp add: writes_def digit_group_def to_string_def list_all_iff)
qed

lemma parse_Ipv4_to_string: "parse_string_to_octets (Ipv4_to_string ip) = Inr ip"
proof (cases ip)
  case (Ipv4 a b c d)
  have "writes 3 (to_string (uint x)) (unat x)" for x :: "8 word"
    using writes_to_string [of "unat x" 3] unsigned_less [of x, where 'a = nat] by simp
  then show ?thesis unfolding Ipv4 parse_octets_iff Ipv4_to_string.simps by blast
qed

text \<open>
  C39. Addresses are read back as they are written, and nothing else is taken for an address: a text is accepted
  exactly when it is four numbers of at most three digits between dots, each below 256, a colon and a number of at most five
  digits below 65536, and the address has these numbers.
\<close>
theorem socket_address_exact:
  "parse_socket_address (SocketAddress_to_string sa) = Inr sa \<and>
   (parse_socket_address s = Inr \<lparr>sa_ip_addr = Ipv4 a b c d, sa_port = p\<rparr>) = (\<exists>w x y z q. s = w @ ''.'' @ x @ ''.'' @ y @ ''.'' @ z @ '':'' @ q \<and>
     writes 3 w (unat a) \<and> writes 3 x (unat b) \<and> writes 3 y (unat c) \<and> writes 3 z (unat d) \<and> writes 5 q (unat p))"
proof -
  have iff: "(parse_socket_address s = Inr \<lparr>sa_ip_addr = ip, sa_port = p\<rparr>) =
      (\<exists>f q. s = f @ '':'' @ q \<and> parse_string_to_octets f = Inr ip \<and> writes 5 q (unat p))" for s ip p
  proof
    assume "parse_socket_address s = Inr \<lparr>sa_ip_addr = ip, sa_port = p\<rparr>"
    then show "\<exists>f q. s = f @ '':'' @ q \<and> parse_string_to_octets f = Inr ip \<and> writes 5 q (unat p)"
      by (auto simp: parse_socket_address_def socket_match_def at_last_colon_eq parse_port_group writes_def
        split: if_splits option.splits sum.splits) blast
  next
    assume "\<exists>f q. s = f @ '':'' @ q \<and> parse_string_to_octets f = Inr ip \<and> writes 5 q (unat p)"
    then obtain f q where fq: "s = f @ '':'' @ q" "parse_string_to_octets f = Inr ip" "writes 5 q (unat p)" by blast
    obtain a b c d where "ip = Ipv4 a b c d" by (cases ip)
    with fq(2) obtain w x y z where f: "f = w @ ''.'' @ x @ ''.'' @ y @ ''.'' @ z" and
      w: "digit_group 3 w" "digit_group 3 x" "digit_group 3 y" "digit_group 3 z" by (auto simp: parse_octets_iff writes_def)
    have "\<not> is_digit (CHR 0x0A)" "\<not> is_digit (CHR 0x0D)" "\<not> is_digit (CHR '':'')" by (simp_all add: is_digit_def)
    then have "CHR 0x0A \<notin> set f" "CHR 0x0D \<notin> set f" "CHR '':'' \<notin> set q"
      using w fq(3) digit_group_free by (auto simp: f writes_def)
    moreover have "length s \<le> 21" using w fq(3) by (simp add: fq(1) f writes_def digit_group_def)
    ultimately show "parse_socket_address s = Inr \<lparr>sa_ip_addr = ip, sa_port = p\<rparr>"
      using fq by (auto simp: parse_socket_address_def socket_match_def at_last_colon_eq [THEN iffD2] writes_def parse_port_group [THEN iffD2])
  qed
  have "writes 5 (to_string (uint (sa_port sa))) (unat (sa_port sa))"
    using writes_to_string [of "unat (sa_port sa)" 5] unsigned_less [of "sa_port sa", where 'a = nat] by simp
  then have "parse_socket_address (SocketAddress_to_string sa) = Inr \<lparr>sa_ip_addr = sa_ip_addr sa, sa_port = sa_port sa\<rparr>"
    unfolding iff SocketAddress_to_string_def using parse_Ipv4_to_string by blast
  then have "parse_socket_address (SocketAddress_to_string sa) = Inr sa" by simp
  moreover have "(\<exists>f q. s = f @ '':'' @ q \<and> (\<exists>w x y z. f = w @ ''.'' @ x @ ''.'' @ y @ ''.'' @ z \<and> P w x y z) \<and> Q q) =
      (\<exists>w x y z q. s = w @ ''.'' @ x @ ''.'' @ y @ ''.'' @ z @ '':'' @ q \<and> P w x y z \<and> Q q)" for P Q
    by (intro iffI; elim exE conjE) (intro exI conjI; assumption?; simp)+
  ultimately show ?thesis unfolding iff parse_octets_iff by (simp only: conj_assoc simp_thms)
qed

end
