(* ===== verification/FXAdapter.thy ===== *)
theory FXAdapter
  imports FXRequest FXAddress
begin

text \<open>
  The FFT accelerator worker: the dispatcher of results (\<^verbatim>\<open>runtime/single_thread_dispatcher.hpp\<close>), the adapter
  that sends requests and takes responses (\<^verbatim>\<open>runtime/adapter_impl.cpp\<close>), the receiving half of the UDP adapter
  (\<^verbatim>\<open>network/udp/udp_adapter.hpp\<close>) and the functions of the worker (\<^verbatim>\<open>sem_fft_accel_worker.cpp\<close>).

  \<^item> A promise and its future meet in a shared state; the shared states are a list, and both ends keep the
    position.
  \<^item> \<open>junk\<close> is what memory holds before it is written, \<open>send_ok\<close> says which packets the socket takes. What a
    callback works on is the state \<open>'u\<close> of the application.
  \<^item> Each public function is one step. (The packets of a request are sent one by one, but sending changes nothing
    that a response reads.) \<open>update_pending_packets\<close> does not take the mutex that \<open>construct_packets\<close> takes, so
    a response that arrives while a request is built is a data race; \<open>response_futures_\<close> has no mutex at all, so
    two threads that submit or wait at the same time are another. The model knows only runs without them.
  \<^item> \<open>submit_fft_calculation\<close> is one step as well, although the code lets go of the mutexes between
    \<open>construct_packets\<close> and \<open>request_event\<close>. A datagram that completes the request in between cannot be a response
    to it, for nothing of it has been sent; it would be queued for the callback, and the promise that is made
    after it would never be kept. The model leaves this run out.
\<close>

section \<open>Promises\<close>

datatype shared = P_Pending | P_Ready "sample list" | P_Taken

section \<open>The dispatcher\<close>

text \<open>Where its thread stands: at the head of the loop, in the wait, returned, left by an exception (which ends
  the process).\<close>

datatype dispatch_thread = SD_Head | SD_Waiting | SD_Returned | SD_Died exn

record 'u single_thread_dispatcher =
  sd_registered_callback :: "(byte \<Rightarrow> sample list \<Rightarrow> ('u, unit) em) option"
  sd_event_queue :: "(byte \<times> sample list) list"
  sd_promise_map :: "(byte, nat) umap"
  sd_should_continue_running :: bool
  sd_thread :: dispatch_thread
  sd_shared :: "shared list"
  sd_application :: 'u

definition single_thread_dispatcher_ctor :: "'u \<Rightarrow> 'u single_thread_dispatcher" where
  "single_thread_dispatcher_ctor u =
     \<lparr>sd_registered_callback = None, sd_event_queue = [], sd_promise_map = [], sd_should_continue_running = True,
      sd_thread = SD_Head, sd_shared = [], sd_application = u\<rparr>"

definition sd_stop :: "'u single_thread_dispatcher \<Rightarrow> 'u single_thread_dispatcher" where
  "sd_stop d = d\<lparr>sd_should_continue_running := False\<rparr>"

definition submit_event :: "byte \<Rightarrow> sample list \<Rightarrow> ('u single_thread_dispatcher, unit Result) em" where
  "submit_event rid data = (\<lambda>d. case map_of (sd_promise_map d) rid of
     Some k \<Rightarrow> if sd_shared d ! k = P_Pending
       then (Inr (Value_result ()), d\<lparr>sd_shared := (sd_shared d)[k := P_Ready data], sd_promise_map := umap_erase rid (sd_promise_map d)\<rparr>)
       else (Inl (LogicError ''Promise already satisfied''), d)
   | None \<Rightarrow> (Inr (Value_result ()), d\<lparr>sd_event_queue := sd_event_queue d @ [(rid, data)]\<rparr>))"

definition register_callback ::
    "(byte \<Rightarrow> sample list \<Rightarrow> ('u, unit) em) option \<Rightarrow> ('u single_thread_dispatcher, unit Result) em" where
  "register_callback callback = (\<lambda>d. case callback of
     None \<Rightarrow> (Inr (Error_result ''An error occurred registering a callback: callback must be valid''), d)
   | Some f \<Rightarrow> (Inr (Value_result ()), d\<lparr>sd_registered_callback := Some f\<rparr>))"

definition request_event :: "byte \<Rightarrow> ('u single_thread_dispatcher, nat Result) em" where
  "request_event rid = (\<lambda>d. if umap_count (sd_promise_map d) rid
     then (Inr (Error_result ''single_thread_dispatcher failed to store promise for request event in map.''), d)
     else (Inr (Value_result (length (sd_shared d))),
       d\<lparr>sd_promise_map := umap_emplace rid (length (sd_shared d)) (sd_promise_map d), sd_shared := sd_shared d @ [P_Pending]\<rparr>))"

text \<open>One round of the loop: the callback runs with the mutex held, before the event is taken from the queue.\<close>

definition run_dispatch_loop :: "'u single_thread_dispatcher \<Rightarrow> 'u single_thread_dispatcher" where
  "run_dispatch_loop d =
     (if \<not> sd_should_continue_running d then d\<lparr>sd_thread := SD_Returned\<rparr>
      else case sd_event_queue d of
        [] \<Rightarrow> d\<lparr>sd_thread := SD_Waiting\<rparr>
      | (rid, data) # events \<Rightarrow> (case sd_registered_callback d of
          None \<Rightarrow> d\<lparr>sd_thread := SD_Died (RuntimeError ''Attempting to process an event without having registered a callback'')\<rparr>
        | Some callback \<Rightarrow> (case callback rid data (sd_application d) of
            (Inl e, u) \<Rightarrow> d\<lparr>sd_application := u, sd_thread := SD_Died e\<rparr>
          | (Inr _, u) \<Rightarrow> d\<lparr>sd_application := u, sd_event_queue := events\<rparr>)))"

definition event_occurred :: "'u single_thread_dispatcher \<Rightarrow> bool" where
  "event_occurred d \<longleftrightarrow> sd_event_queue d \<noteq> [] \<or> \<not> sd_should_continue_running d"

section \<open>The adapter\<close>

text \<open>Of the UDP adapter: how often the runtime adapter is registered with it, and the packet it receives
  into.\<close>

record udp_adapter =
  ua_listeners :: nat
  ua_recv_packet :: "byte list"

record 'u adapter_impl =
  ad_adapter :: "udp_adapter option"
  ad_pending_requests :: fft_request_map
  ad_response_futures :: "(byte, nat) umap"
  ad_event_dispatcher :: "'u single_thread_dispatcher"
  ad_sent :: "byte list list"
  ad_responses :: "fft_data_packet list"

text \<open>\<open>ad_sent\<close> and \<open>ad_responses\<close> are history: what the socket has taken, and the packets received.\<close>

definition adapter_impl_ctor :: "'u \<Rightarrow> 'u adapter_impl" where
  "adapter_impl_ctor u = \<lparr>ad_adapter = None, ad_pending_requests = fft_request_map_ctor, ad_response_futures = [],
     ad_event_dispatcher = single_thread_dispatcher_ctor u, ad_sent = [], ad_responses = []\<rparr>"

definition packet_byte_size :: nat where
  "packet_byte_size = max_elements * 4 + header_byte_length"

definition udp_adapter_ctor :: "(nat \<Rightarrow> byte) \<Rightarrow> udp_adapter" where
  "udp_adapter_ctor junk = \<lparr>ua_listeners = 0, ua_recv_packet = map junk [0..<packet_byte_size]\<rparr>"

definition set_network_adapter :: "udp_adapter option \<Rightarrow> ('u adapter_impl, unit Result) em" where
  "set_network_adapter network_adapter = (\<lambda>a. case network_adapter of
     None \<Rightarrow> (Inr (Error_result ''set_network_adapter: Unable to lock the provided network adapter pointer''), a)
   | Some n \<Rightarrow> (Inr (Value_result ()), a\<lparr>ad_adapter := Some (n\<lparr>ua_listeners := ua_listeners n + 1\<rparr>)\<rparr>))"

definition on_dispatcher :: "('u single_thread_dispatcher, 'a) em \<Rightarrow> ('u adapter_impl, 'a) em" where
  "on_dispatcher c = (\<lambda>a. case c (ad_event_dispatcher a) of (x, d) \<Rightarrow> (x, a\<lparr>ad_event_dispatcher := d\<rparr>))"

definition register_result_callback ::
    "(byte \<Rightarrow> sample list \<Rightarrow> ('u, unit) em) option \<Rightarrow> ('u adapter_impl, unit Result) em" where
  "register_result_callback callback = on_dispatcher (register_callback callback)"

definition pending_update :: "fft_data_packet \<Rightarrow> ('u adapter_impl, (byte \<times> sample list) option Result) em" where
  "pending_update p = (\<lambda>a. case update_pending_packets p (ad_pending_requests a) of
     (r, m) \<Rightarrow> (Inr r, a\<lparr>ad_pending_requests := m, ad_responses := ad_responses a @ [p]\<rparr>))"

definition receive_response_packet :: "byte list \<Rightarrow> ('u adapter_impl, unit Result) em" where
  "receive_response_packet data = catchE is_std_exception
     (bindE (liftE (deserialize data)) (\<lambda>p. bindE (pending_update p) (\<lambda>update_result. case update_result of
        Error_result e \<Rightarrow> returnE (Error_result (''Runtime adapter failed to update pending packets:'' @ e))
      | Value_result None \<Rightarrow> returnE (Value_result ())
      | Value_result (Some (rid, result)) \<Rightarrow> bindE (on_dispatcher (submit_event rid result)) (\<lambda>_. returnE (Value_result ())))))
     (\<lambda>e. returnE (Error_result ''Exception in FFT Runtime Adapter when attempting to handle a received packet:''))"

text \<open>A datagram overwrites the front of the packet received into; what it is too short for stays.\<close>

definition handle_fft_result :: "byte list \<Rightarrow> ('u adapter_impl, unit) em" where
  "handle_fft_result datagram = bindE getE (\<lambda>a. case ad_adapter a of
     None \<Rightarrow> returnE ()
   | Some n \<Rightarrow>
       let bytes = take packet_byte_size datagram @ drop (length datagram) (ua_recv_packet n)
       in bindE (modifyE (\<lambda>a. a\<lparr>ad_adapter := Some (n\<lparr>ua_recv_packet := bytes\<rparr>)\<rparr>)) (\<lambda>_.
          forE [0..<ua_listeners n] (\<lambda>_. bindE (receive_response_packet bytes) (\<lambda>_. returnE ()))))"

definition send :: "(byte list \<Rightarrow> bool) \<Rightarrow> byte list \<Rightarrow> ('u adapter_impl, unit Result) em" where
  "send send_ok bytes = (\<lambda>a. if send_ok bytes then (Inr (Value_result ()), a\<lparr>ad_sent := ad_sent a @ [bytes]\<rparr>)
     else (Inr (Error_result ''UDP send() failed with exception:''), a))"

primrec send_packets ::
    "(nat \<Rightarrow> byte) \<Rightarrow> (byte list \<Rightarrow> bool) \<Rightarrow> byte \<Rightarrow> fft_data_packet list \<Rightarrow> ('u adapter_impl, byte Result) em" where
  "send_packets junk send_ok new_id [] = returnE (Value_result new_id)"
| "send_packets junk send_ok new_id (packet # packets) =
     bindE (liftE (serialized_fft_data junk packet)) (\<lambda>bytes. bindE (send send_ok bytes) (\<lambda>res. case res of
       Error_result e \<Rightarrow> returnE (Error_result (''Runtime Adapter unable to calculate FFT, error occurred while sending packet group:'' @ e))
     | Value_result _ \<Rightarrow> send_packets junk send_ok new_id packets))"

definition new_packets :: "sample list \<Rightarrow> ('u adapter_impl, fft_packet_group Result) em" where
  "new_packets data = (\<lambda>a. case construct_packets data (ad_pending_requests a) of (r, m) \<Rightarrow> (Inr r, a\<lparr>ad_pending_requests := m\<rparr>))"

text \<open>When the future cannot be had, the code asks the wrong result for its error, which throws.\<close>

definition submit_fft_calculation :: "(nat \<Rightarrow> byte) \<Rightarrow> (byte list \<Rightarrow> bool) \<Rightarrow> sample list \<Rightarrow> ('u adapter_impl, byte Result) em" where
  "submit_fft_calculation junk send_ok data = bindE getE (\<lambda>a. if ad_adapter a = None
     then returnE (Error_result ''Runtime Adapter unable to calculate FFT: no network adapter registered.'')
     else bindE (new_packets data) (\<lambda>r. case r of
        Error_result e \<Rightarrow> returnE (Error_result (''Runtime Adapter unable to calculate FFT, failed to construct packet group: '' @ e))
      | Value_result g \<Rightarrow> bindE (on_dispatcher (request_event (pg_request_id g))) (\<lambda>f. case f of
          Error_result e \<Rightarrow> throwE (LogicError ''Result contains Value instead of ErrorResult: '')
        | Value_result k \<Rightarrow> bindE (modifyE (\<lambda>a. a\<lparr>ad_response_futures := umap_emplace (pg_request_id g) k (ad_response_futures a)\<rparr>)) (\<lambda>_.
            send_packets junk send_ok (pg_request_id g) (pg_packets g)))))"

definition submit_fft_calculation_async ::
    "(nat \<Rightarrow> byte) \<Rightarrow> (byte list \<Rightarrow> bool) \<Rightarrow> sample list \<Rightarrow> ('u adapter_impl, byte Result) em" where
  "submit_fft_calculation_async junk send_ok data = bindE getE (\<lambda>a. if ad_adapter a = None
     then returnE (Error_result ''Runtime Adapter unable to calculate FFT: no network adapter registered.'')
     else bindE (new_packets data) (\<lambda>r. case r of
        Error_result e \<Rightarrow> returnE (Error_result (''Runtime Adapter unable to calculate FFT, failed to construct packet group: '' @ e))
      | Value_result g \<Rightarrow> send_packets junk send_ok (pg_request_id g) (pg_packets g)))"

datatype Timeout = NeverTimeout | Milliseconds int

text \<open>What is the case when the wait ends; \<open>None\<close>: it does not end.\<close>

definition wait_on_request_completion ::
    "byte \<Rightarrow> Timeout \<Rightarrow> 'u adapter_impl \<Rightarrow> ((exn + sample list Result) \<times> 'u adapter_impl) option" where
  "wait_on_request_completion rid timeout a = (case map_of (ad_response_futures a) rid of
     None \<Rightarrow> Some (Inr (Error_result ''Failed to get response while waiting for request to complete: ''), a)
   | Some k \<Rightarrow> let d = ad_event_dispatcher a in (case sd_shared d ! k of
       P_Taken \<Rightarrow> Some (Inl (Undefined ''waiting for a future without a state''), a)
     | P_Pending \<Rightarrow> (case timeout of
         NeverTimeout \<Rightarrow> None
       | Milliseconds ms \<Rightarrow> Some (Inr (Error_result (''Timed out while waiting for request ('' @ to_string ms @ ''ms)'')), a))
     | P_Ready response \<Rightarrow> Some (Inr (Value_result response), a\<lparr>ad_event_dispatcher := d\<lparr>sd_shared := (sd_shared d)[k := P_Taken]\<rparr>\<rparr>)))"

section \<open>The worker\<close>

datatype workload_event = W_STARTED | W_FINISHED | W_Error

record 'u FFTAccelWorker =
  fw_runtime_adapter :: "'u adapter_impl"
  fw_work_id :: "32 word"
  fw_log :: "(workload_event \<times> 32 word) list"

definition FFTAccelWorker_ctor :: "'u \<Rightarrow> 'u FFTAccelWorker" where
  "FFTAccelWorker_ctor u = \<lparr>fw_runtime_adapter = adapter_impl_ctor u, fw_work_id = 0, fw_log = []\<rparr>"

definition is_power_of_two :: "64 word \<Rightarrow> bool" where
  "is_power_of_two v \<longleftrightarrow> v AND (v - 1) = 0"

definition new_work_id :: "('u FFTAccelWorker, 32 word) em" where
  "new_work_id = (\<lambda>w. (Inr (fw_work_id w), w\<lparr>fw_work_id := fw_work_id w + 1\<rparr>))"

definition log_event :: "workload_event \<Rightarrow> 32 word \<Rightarrow> ('u FFTAccelWorker, unit) em" where
  "log_event event work_id = modifyE (\<lambda>w. w\<lparr>fw_log := fw_log w @ [(event, work_id)]\<rparr>)"

definition on_adapter :: "('u adapter_impl, 'a) em \<Rightarrow> ('u FFTAccelWorker, 'a) em" where
  "on_adapter c = (\<lambda>w. case c (fw_runtime_adapter w) of (x, a) \<Rightarrow> (x, w\<lparr>fw_runtime_adapter := a\<rparr>))"

text \<open>\<open>HandleConfigure\<close> before it calls the base class: the attribute is absent or a text, and \<open>udp_ok\<close> says
  whether the socket can be opened.\<close>

definition configure_network :: "(nat \<Rightarrow> byte) \<Rightarrow> bool \<Rightarrow> string option \<Rightarrow> ('u FFTAccelWorker, unit) em" where
  "configure_network junk udp_ok endpoint = (case endpoint of
     None \<Rightarrow> throwE (RuntimeError ''No accelerator endpoint attribute exists when '')
   | Some s \<Rightarrow> bindE (liftE (parse_socket_address s)) (\<lambda>fae_addr.
       if \<not> udp_ok then throwE (RuntimeError ''boost::system::system_error'')
       else bindE (on_adapter (set_network_adapter (Some (udp_adapter_ctor junk)))) (\<lambda>_. returnE ())))"

text \<open>\<open>meanwhile\<close> is what the other threads do to the adapter from the last packet sent to the end of the wait,
  which lasts no more than half a second.\<close>

definition wait_for_result :: "('u adapter_impl \<Rightarrow> 'u adapter_impl) \<Rightarrow> byte \<Rightarrow> ('u adapter_impl, sample list Result) em" where
  "wait_for_result meanwhile rid = bindE (modifyE meanwhile) (\<lambda>_ a.
     case wait_on_request_completion rid (Milliseconds 500) a of None \<Rightarrow> (Inl (Undefined ''blocked''), a) | Some r \<Rightarrow> r)"

definition calculate_fft ::
    "(nat \<Rightarrow> byte) \<Rightarrow> (byte list \<Rightarrow> bool) \<Rightarrow> ('u adapter_impl \<Rightarrow> 'u adapter_impl) \<Rightarrow> sample list \<Rightarrow> ('u FFTAccelWorker, sample list) em" where
  "calculate_fft junk send_ok meanwhile data = bindE new_work_id (\<lambda>work_id. bindE (log_event W_STARTED work_id) (\<lambda>_.
     if data = [] then bindE (log_event W_Error work_id) (\<lambda>_. returnE [])
     else if \<not> is_power_of_two (word_of_nat (length data)) then bindE (log_event W_Error work_id) (\<lambda>_. returnE [])
     else bindE (on_adapter (submit_fft_calculation junk send_ok data)) (\<lambda>submission_result. case submission_result of
        Error_result e \<Rightarrow> bindE (log_event W_Error work_id) (\<lambda>_. returnE [])
      | Value_result rid \<Rightarrow> bindE (on_adapter (wait_for_result meanwhile rid)) (\<lambda>completion_result. case completion_result of
          Error_result e \<Rightarrow> bindE (log_event W_Error work_id) (\<lambda>_. returnE [])
        | Value_result samples \<Rightarrow> bindE (log_event W_FINISHED work_id) (\<lambda>_. returnE samples)))))"

definition calculate_fft_async ::
    "(nat \<Rightarrow> byte) \<Rightarrow> (byte list \<Rightarrow> bool) \<Rightarrow> sample list \<Rightarrow> ('u FFTAccelWorker, byte) em" where
  "calculate_fft_async junk send_ok data = bindE new_work_id (\<lambda>work_id. bindE (log_event W_STARTED work_id) (\<lambda>_.
     if data = [] then bindE (log_event W_Error work_id) (\<lambda>_. returnE 0)
     else if \<not> is_power_of_two (word_of_nat (length data)) then bindE (log_event W_Error work_id) (\<lambda>_. returnE 0)
     else bindE (on_adapter (submit_fft_calculation_async junk send_ok data)) (\<lambda>result. case result of
        Error_result e \<Rightarrow> bindE (log_event W_Error work_id) (\<lambda>_. returnE 0)
      | Value_result rid \<Rightarrow> bindE (log_event W_FINISHED work_id) (\<lambda>_. returnE rid))))"

definition SetResponseCallback :: "(byte \<Rightarrow> sample list \<Rightarrow> ('u, unit) em) option \<Rightarrow> ('u FFTAccelWorker, unit) em" where
  "SetResponseCallback func = bindE (on_adapter (register_result_callback func)) (\<lambda>result.
     if is_error result then bindE new_work_id (\<lambda>work_id. log_event W_Error work_id) else returnE ())"

section \<open>All threads\<close>

text \<open>What can happen to the adapter: a thread submits a request or waits for one (but for none of those in
  \<open>mine\<close>), a datagram arrives, the dispatcher runs, a callback is registered, the worker is configured.\<close>

inductive fa_step :: "(nat \<Rightarrow> byte) \<Rightarrow> (byte list \<Rightarrow> bool) \<Rightarrow> byte set \<Rightarrow> 'u adapter_impl \<Rightarrow> 'u adapter_impl \<Rightarrow> bool" for junk send_ok mine where
  submit: "submit_fft_calculation junk send_ok data a = (Inr r, a') \<Longrightarrow> fa_step junk send_ok mine a a'"
| async: "submit_fft_calculation_async junk send_ok data a = (Inr r, a') \<Longrightarrow> fa_step junk send_ok mine a a'"
| wait: "wait_on_request_completion rid t a = Some (Inr r, a') \<Longrightarrow> rid \<notin> mine \<Longrightarrow> fa_step junk send_ok mine a a'"
| datagram: "handle_fft_result bs a = (Inr (), a') \<Longrightarrow> fa_step junk send_ok mine a a'"
| dispatch: "sd_thread (ad_event_dispatcher a) = SD_Head \<Longrightarrow>
    fa_step junk send_ok mine a (a\<lparr>ad_event_dispatcher := run_dispatch_loop (ad_event_dispatcher a)\<rparr>)"
| wake: "sd_thread (ad_event_dispatcher a) = SD_Waiting \<Longrightarrow> event_occurred (ad_event_dispatcher a) \<Longrightarrow>
    fa_step junk send_ok mine a (a\<lparr>ad_event_dispatcher := (ad_event_dispatcher a)\<lparr>sd_thread := SD_Head\<rparr>\<rparr>)"
| callback: "register_result_callback f a = (Inr r, a') \<Longrightarrow> fa_step junk send_ok mine a a'"
| network: "set_network_adapter n a = (Inr r, a') \<Longrightarrow> fa_step junk send_ok mine a a'"

end
