(* ===== verification/FXAnswer.thy ===== *)
theory FXAnswer
  imports FXAdapter
begin

text \<open>
  What a caller of the FFT accelerator gets: the answer to a request is put together from the responses to this
  request, whatever else goes on, and which inputs the worker sends at all.
\<close>

section \<open>Promises and futures\<close>

text \<open>Every promise that is kept belongs to the future of its request and is not fulfilled yet; different
  requests have different futures.\<close>

definition promised :: "'u adapter_impl \<Rightarrow> bool" where
  "promised a \<longleftrightarrow>
     (\<forall>i k. map_of (sd_promise_map (ad_event_dispatcher a)) i = Some k \<longrightarrow>
        map_of (ad_response_futures a) i = Some k \<and> sd_shared (ad_event_dispatcher a) ! k = P_Pending) \<and>
     (\<forall>i k. map_of (ad_response_futures a) i = Some k \<longrightarrow>
        k < length (sd_shared (ad_event_dispatcher a)) \<and> umap_count (rm_staged_packet_groups (ad_pending_requests a)) i) \<and>
     (\<forall>i j k. map_of (ad_response_futures a) i = Some k \<longrightarrow> map_of (ad_response_futures a) j = Some k \<longrightarrow> i = j)"

text \<open>The responses to one request after the first \<open>n\<close> of all.\<close>

definition responses_to :: "byte \<Rightarrow> nat \<Rightarrow> 'u adapter_impl \<Rightarrow> fft_data_packet list" where
  "responses_to rid n a = filter (\<lambda>p. request_id p = rid) (drop n (ad_responses a))"

definition all_answered :: "sample list \<Rightarrow> fft_data_packet list \<Rightarrow> bool" where
  "all_answered d rs \<longleftrightarrow> {..<packets_of d} \<subseteq> number_of ` set rs"

text \<open>Where the request stands: its packets with the responses so far, and its future, which is ready with the
  result once every packet was answered.\<close>

definition answering :: "sample list \<Rightarrow> byte \<Rightarrow> fft_packet_group \<Rightarrow> nat \<Rightarrow> 'u adapter_impl \<Rightarrow> bool" where
  "answering d rid g n a \<longleftrightarrow> (let rs = responses_to rid n a; sd = ad_event_dispatcher a in
     n \<le> length (ad_responses a) \<and> map_of (rm_staged_packet_groups (ad_pending_requests a)) rid = Some (update_all rs g) \<and>
     map_of (rm_unfulfilled_promises (ad_pending_requests a)) rid = Some (all_answered d rs) \<and>
     (\<exists>k. map_of (ad_response_futures a) rid = Some k \<and>
        (if all_answered d rs then sd_shared sd ! k = P_Ready (to_vector (update_all rs g)) else map_of (sd_promise_map sd) rid = Some k)))"

definition on_track :: "sample list \<Rightarrow> byte \<Rightarrow> fft_packet_group \<Rightarrow> nat \<Rightarrow> 'u adapter_impl \<Rightarrow> bool" where
  "on_track d rid g n a \<longleftrightarrow> promised a \<and> (fft_packet_group_ctor d rid = Inr g \<longrightarrow> answering d rid g n a)"

section \<open>Single operations\<close>

lemma get_new_id_fresh: "get_new_id m = (Value_result i, m') \<Longrightarrow> \<not> umap_count (rm_staged_packet_groups m) i"
proof -
  have "new_id_from n P t = (Some i, t') \<Longrightarrow> \<not> P i" for n P and t t' :: byte
    by (induction n arbitrary: t) (auto split: if_splits)
  then show "get_new_id m = (Value_result i, m') \<Longrightarrow> \<not> umap_count (rm_staged_packet_groups m) i"
    by (auto simp: get_new_id_def split: prod.splits option.splits)
qed

lemma get_new_id_maps:
  "get_new_id m = (r, m') \<Longrightarrow> rm_staged_packet_groups m' = rm_staged_packet_groups m \<and> rm_unfulfilled_promises m' = rm_unfulfilled_promises m"
  by (auto simp: get_new_id_def split: prod.splits option.splits)

lemma fft_packet_group_ctor_id: "fft_packet_group_ctor d i = Inr g \<Longrightarrow> pg_request_id g = i"
  by (auto simp: fft_packet_group_ctor_def Let_def split: if_splits sum.splits)

lemma construct_packets_maps:
  assumes "construct_packets d m = (r, m')"
  shows "(\<forall>i v. map_of (rm_staged_packet_groups m) i = Some v \<longrightarrow> map_of (rm_staged_packet_groups m') i = Some v) \<and>
    (\<forall>i v. map_of (rm_unfulfilled_promises m) i = Some v \<longrightarrow> map_of (rm_unfulfilled_promises m') i = Some v) \<and>
    (case r of Error_result e \<Rightarrow> True | Value_result g \<Rightarrow> \<not> umap_count (rm_staged_packet_groups m) (pg_request_id g) \<and>
      fft_packet_group_ctor d (pg_request_id g) = Inr g \<and> map_of (rm_staged_packet_groups m') (pg_request_id g) = Some g \<and>
      map_of (rm_unfulfilled_promises m') (pg_request_id g) = Some False)"
proof -
  obtain r1 m1 where g: "get_new_id m = (r1, m1)" by (cases "get_new_id m")
  show ?thesis
  proof (cases r1)
    case (Error_result e)
    then show ?thesis using assms g get_new_id_maps [OF g] by (auto simp: construct_packets_def)
  next
    case (Value_result i)
    have f: "\<not> umap_count (rm_staged_packet_groups m) i" using get_new_id_fresh g Value_result by blast
    show ?thesis using assms get_new_id_maps [OF g] f fft_packet_group_ctor_id [of d i]
      by (auto simp: construct_packets_def g Value_result Let_def umap_count_def split: sum.splits if_splits)
  qed
qed

lemma update_packet_cases:
  "update_packet_with_response p g = (r, g') \<Longrightarrow>
   (case r of Error_result e \<Rightarrow> g' = g | Value_result _ \<Rightarrow> number_of p < length (pg_response_received_list g) \<and> \<not> pg_response_received_list g ! number_of p)"
  by (auto simp: update_packet_with_response_def number_of_def Let_def split: if_splits)

definition after_response :: "fft_data_packet \<Rightarrow> 'u adapter_impl \<Rightarrow> 'u adapter_impl" where
  "after_response p a = (case update_pending_packets p (ad_pending_requests a) of (r, m) \<Rightarrow>
     let a = a\<lparr>ad_pending_requests := m, ad_responses := ad_responses a @ [p]\<rparr> in case r of
       Value_result (Some (i, v)) \<Rightarrow> a\<lparr>ad_event_dispatcher := snd (submit_event i v (ad_event_dispatcher a))\<rparr>
     | _ \<Rightarrow> a)"

lemma run_receive: "snd (receive_response_packet bs a) = (case deserialize bs of Inl _ \<Rightarrow> a | Inr p \<Rightarrow> after_response p a)"
  by (auto simp: receive_response_packet_def catchE_def bindE_def liftE_def returnE_def pending_update_def on_dispatcher_def after_response_def Let_def
    split: sum.splits prod.splits Result.splits option.splits)

lemma send_packets_state: "\<exists>ss. snd (send_packets junk send_ok rid ps a) = a\<lparr>ad_sent := ss\<rparr>"
proof (induction ps arbitrary: a)
  case Nil
  show ?case by (auto simp: returnE_def intro!: exI [of _ "ad_sent a"])
next
  case (Cons p ps)
  have self: "\<exists>ss. a = a\<lparr>ad_sent := ss\<rparr>" by (auto intro!: exI [of _ "ad_sent a"])
  have "\<exists>ss. snd (send_packets junk send_ok rid ps (a\<lparr>ad_sent := s\<rparr>)) = a\<lparr>ad_sent := ss\<rparr>" for s
    using Cons.IH [of "a\<lparr>ad_sent := s\<rparr>"] by simp
  then show ?case using self by (auto simp: bindE_def liftE_def send_def returnE_def split: sum.splits)
qed

definition started :: "fft_packet_group \<Rightarrow> fft_request_map \<Rightarrow> 'u adapter_impl \<Rightarrow> 'u adapter_impl" where
  "started g m a = (let sd = ad_event_dispatcher a; k = length (sd_shared sd) in
     a\<lparr>ad_pending_requests := m,
       ad_event_dispatcher := sd\<lparr>sd_promise_map := umap_emplace (pg_request_id g) k (sd_promise_map sd), sd_shared := sd_shared sd @ [P_Pending]\<rparr>,
       ad_response_futures := umap_emplace (pg_request_id g) k (ad_response_futures a)\<rparr>)"

lemma run_submit:
  assumes "promised a" and "construct_packets d (ad_pending_requests a) = (Value_result g, m)" and "ad_adapter a \<noteq> None"
  shows "submit_fft_calculation junk send_ok d a = send_packets junk send_ok (pg_request_id g) (pg_packets g) (started g m a)"
proof -
  have "\<not> umap_count (sd_promise_map (ad_event_dispatcher a)) (pg_request_id g)"
    using assms(1) construct_packets_maps [OF assms(2)] by (fastforce simp: promised_def umap_count_def)
  then show ?thesis using assms(2,3)
    by (auto simp: submit_fft_calculation_def bindE_def returnE_def new_packets_def on_dispatcher_def request_event_def started_def Let_def)
qed

lemma submit_state:
  assumes "promised a" and "submit_fft_calculation junk send_ok d a = (r, a')"
  obtains "a' = a" "\<nexists>i. r = Inr (Value_result i)"
  | q m ss where "construct_packets d (ad_pending_requests a) = (q, m)"
      "case q of Error_result _ \<Rightarrow> a' = a\<lparr>ad_pending_requests := m\<rparr> \<and> (\<nexists>i. r = Inr (Value_result i))
        | Value_result g \<Rightarrow> a' = (started g m a)\<lparr>ad_sent := ss\<rparr> \<and> (\<forall>i. r = Inr (Value_result i) \<longrightarrow> i = pg_request_id g)"
proof (cases "ad_adapter a = None")
  case True
  then show thesis using assms(2) that(1) by (auto simp: submit_fft_calculation_def bindE_def returnE_def)
next
  case False
  obtain q m where q: "construct_packets d (ad_pending_requests a) = (q, m)" by (cases "construct_packets d (ad_pending_requests a)")
  show thesis
  proof (cases q)
    case (Error_result e)
    then show thesis using assms(2) False q
      by (intro that(2) [OF q]) (auto simp: submit_fft_calculation_def bindE_def returnE_def new_packets_def)
  next
    case (Value_result g)
    then have run: "submit_fft_calculation junk send_ok d a = send_packets junk send_ok (pg_request_id g) (pg_packets g) (started g m a)"
      using run_submit [OF assms(1) _ False] q by simp
    obtain ss where ss: "a' = (started g m a)\<lparr>ad_sent := ss\<rparr>"
      using send_packets_state [of junk send_ok "pg_request_id g" "pg_packets g" "started g m a"] assms(2) run by auto
    have "\<forall>i. fst (send_packets junk send_ok j ps b) = Inr (Value_result i) \<longrightarrow> i = j" for j ps and b :: "'u adapter_impl"
      by (induction ps arbitrary: b) (auto simp: bindE_def liftE_def send_def returnE_def split: sum.splits)
    then have "\<forall>i. r = Inr (Value_result i) \<longrightarrow> i = pg_request_id g" using assms(2) run by (metis fst_conv)
    then show thesis using ss by (intro that(2) [OF q]) (simp add: Value_result)
  qed
qed

section \<open>A response\<close>

lemma promisedI:
  assumes "promised a" and "ad_response_futures b = ad_response_futures a"
    and "length (sd_shared (ad_event_dispatcher b)) = length (sd_shared (ad_event_dispatcher a))"
    and "\<And>i k. map_of (sd_promise_map (ad_event_dispatcher b)) i = Some k \<Longrightarrow>
      map_of (sd_promise_map (ad_event_dispatcher a)) i = Some k \<and> sd_shared (ad_event_dispatcher b) ! k = P_Pending"
    and "\<And>i. umap_count (rm_staged_packet_groups (ad_pending_requests a)) i \<Longrightarrow> umap_count (rm_staged_packet_groups (ad_pending_requests b)) i"
  shows "promised b"
  using assms(1,4,5) unfolding promised_def assms(2,3) by meson

lemma submit_event_frame:
  assumes "promised a" and "submit_event i v (ad_event_dispatcher a) = (r, sd)"
  shows "length (sd_shared sd) = length (sd_shared (ad_event_dispatcher a)) \<and>
    (\<forall>j k. map_of (sd_promise_map sd) j = Some k \<longrightarrow>
       map_of (sd_promise_map (ad_event_dispatcher a)) j = Some k \<and> sd_shared sd ! k = P_Pending) \<and>
    (\<forall>j k. j \<noteq> i \<longrightarrow> map_of (ad_response_futures a) j = Some k \<longrightarrow> sd_shared sd ! k = sd_shared (ad_event_dispatcher a) ! k) \<and>
    (\<forall>j. j \<noteq> i \<longrightarrow> map_of (sd_promise_map sd) j = map_of (sd_promise_map (ad_event_dispatcher a)) j)"
proof (cases "map_of (sd_promise_map (ad_event_dispatcher a)) i")
  case None
  then show ?thesis using assms by (auto simp: submit_event_def promised_def)
next
  case (Some k)
  then have k: "map_of (ad_response_futures a) i = Some k" "sd_shared (ad_event_dispatcher a) ! k = P_Pending"
    using assms(1) by (auto simp: promised_def)
  let ?sd = "ad_event_dispatcher a"
  have sd: "sd = ?sd\<lparr>sd_shared := (sd_shared ?sd)[k := P_Ready v], sd_promise_map := umap_erase i (sd_promise_map ?sd)\<rparr>"
    using assms(2) Some k(2) by (simp add: submit_event_def)
  have keep: "sd_shared sd ! k' = sd_shared ?sd ! k'" if "map_of (ad_response_futures a) j = Some k'" "j \<noteq> i" for j k'
  proof -
    have "k' \<noteq> k" using assms(1) k(1) that unfolding promised_def by blast
    then show ?thesis by (simp add: sd)
  qed
  have "map_of (sd_promise_map ?sd) j = Some k' \<and> sd_shared sd ! k' = P_Pending" if "map_of (sd_promise_map sd) j = Some k'" for j k'
  proof -
    have j: "j \<noteq> i" "map_of (sd_promise_map ?sd) j = Some k'" using that by (auto simp: sd split: if_splits)
    then have "map_of (ad_response_futures a) j = Some k'" "sd_shared ?sd ! k' = P_Pending" using assms(1) unfolding promised_def by blast+
    with keep j show ?thesis by metis
  qed
  with keep show ?thesis by (simp add: sd)
qed

lemma update_pending_staged:
  "update_pending_packets p m = (r, m') \<Longrightarrow> umap_count (rm_staged_packet_groups m') i = umap_count (rm_staged_packet_groups m) i"
  by (auto simp: update_pending_packets_def Let_def umap_count_def split: option.splits prod.splits Result.splits if_splits bool.splits)

lemma update_pending_other:
  "update_pending_packets p m = (r, m') \<Longrightarrow> request_id p \<noteq> i \<Longrightarrow>
   map_of (rm_staged_packet_groups m') i = map_of (rm_staged_packet_groups m) i \<and>
   map_of (rm_unfulfilled_promises m') i = map_of (rm_unfulfilled_promises m) i"
  by (auto simp: update_pending_packets_def Let_def split: option.splits prod.splits Result.splits if_splits bool.splits)

lemma update_pending_id: "update_pending_packets p m = (Value_result (Some (i, v)), m') \<Longrightarrow> i = request_id p"
  by (auto simp: update_pending_packets_def Let_def split: option.splits prod.splits Result.splits if_splits bool.splits)

lemma promised_response:
  assumes "promised a"
  shows "promised (after_response p a)"
proof -
  obtain r m where u: "update_pending_packets p (ad_pending_requests a) = (r, m)" by (cases "update_pending_packets p (ad_pending_requests a)")
  have 1: "promised (a\<lparr>ad_pending_requests := m, ad_responses := ad_responses a @ [p]\<rparr>)"
    using assms by (rule promisedI) (use assms in \<open>auto simp: promised_def update_pending_staged [OF u]\<close>)
  have "promised (a\<lparr>ad_pending_requests := m, ad_responses := ad_responses a @ [p], ad_event_dispatcher := snd (submit_event i v (ad_event_dispatcher a))\<rparr>)" for i v
  proof -
    obtain q sd where "submit_event i v (ad_event_dispatcher a) = (q, sd)" by (cases "submit_event i v (ad_event_dispatcher a)")
    with submit_event_frame [OF assms this] show ?thesis by (intro promisedI [OF 1]) auto
  qed
  with 1 show ?thesis by (auto simp: after_response_def u Let_def split: Result.split option.split)
qed

lemma answering_other:
  assumes "promised a" and "answering d rid g n a" and "request_id p \<noteq> rid"
  shows "answering d rid g n (after_response p a)"
proof -
  obtain r m where u: "update_pending_packets p (ad_pending_requests a) = (r, m)" by (cases "update_pending_packets p (ad_pending_requests a)")
  note m = update_pending_other [OF u assms(3)]
  have n: "n \<le> length (ad_responses a)" using assms(2) by (simp add: answering_def Let_def)
  have ans: "answering d rid g n (a\<lparr>ad_pending_requests := m, ad_responses := ad_responses a @ [p]\<rparr>)"
    using assms(2,3) n m by (simp add: answering_def responses_to_def Let_def)
  have "answering d rid g n (a\<lparr>ad_pending_requests := m, ad_responses := ad_responses a @ [p], ad_event_dispatcher := snd (submit_event (request_id p) v (ad_event_dispatcher a))\<rparr>)" for v
  proof -
    obtain q sd where "submit_event (request_id p) v (ad_event_dispatcher a) = (q, sd)" by (cases "submit_event (request_id p) v (ad_event_dispatcher a)")
    note f = submit_event_frame [OF assms(1) this] and run = this
    obtain k where k: "map_of (ad_response_futures a) rid = Some k" using ans by (auto simp: answering_def Let_def)
    have "sd_shared sd ! k = sd_shared (ad_event_dispatcher a) ! k" "map_of (sd_promise_map sd) rid = map_of (sd_promise_map (ad_event_dispatcher a)) rid"
      using f k assms(3) by metis+
    then show ?thesis using ans k by (simp add: answering_def responses_to_def Let_def run)
  qed
  with ans show ?thesis using update_pending_id [of p "ad_pending_requests a"] u
    by (auto simp: after_response_def Let_def split: Result.split option.split)
qed

lemma answering_own:
  assumes l: "promised a" and a: "answering d (request_id p) g n a" and g: "fft_packet_group_ctor d (request_id p) = Inr g"
  shows "answering d (request_id p) g n (after_response p a)"
proof -
  let ?rid = "request_id p" and ?m = "ad_pending_requests a" and ?sd = "ad_event_dispatcher a"
  let ?rs = "responses_to ?rid n a" and ?g = "update_all (responses_to ?rid n a) g"
  have n: "n \<le> length (ad_responses a)" and st: "map_of (rm_staged_packet_groups ?m) ?rid = Some ?g"
    and un: "map_of (rm_unfulfilled_promises ?m) ?rid = Some (all_answered d ?rs)"
    using a by (simp_all add: answering_def Let_def)
  obtain k where k: "map_of (ad_response_futures a) ?rid = Some k"
    and sh: "if all_answered d ?rs then sd_shared ?sd ! k = P_Ready (to_vector ?g) else map_of (sd_promise_map ?sd) ?rid = Some k"
    using a by (auto simp: answering_def Let_def)
  have rs: "filter (\<lambda>q. request_id q = ?rid) (drop n (ad_responses a @ [p])) = ?rs @ [p]" using n by (simp add: responses_to_def)
  have more: "update_all (?rs @ [p]) g = snd (update_packet_with_response p ?g)" by (simp add: update_all_def)
  obtain r g' where u: "update_packet_with_response p ?g = (r, g')" by (cases "update_packet_with_response p ?g")
  have zero: "(pg_num_remaining_packets (update_all qs g) = 0) = all_answered d qs" for qs
    using update_all_complete(1) [OF g] by (simp add: all_answered_def)
  have zero': "(pg_num_remaining_packets g' = 0) = all_answered d (?rs @ [p])" using zero [of "?rs @ [p]"] more u by simp
  show ?thesis
  proof (cases r)
    case (Error_result e)
    then have "g' = ?g" using update_packet_cases [OF u] by simp
    then have "all_answered d (?rs @ [p]) = all_answered d ?rs" using zero zero' by metis
    moreover have "update_pending_packets p ?m = (Error_result (''Couldn't update data for request id '' @ to_string (uint ?rid) @ '': '' @ e), ?m)"
      using st u Error_result by (simp add: update_pending_packets_def Let_def)
    ultimately show ?thesis using n st un k sh rs more u \<open>g' = ?g\<close>
      by (simp add: after_response_def answering_def responses_to_def [of _ _ "a\<lparr>ad_responses := x\<rparr>" for x] Let_def)
  next
    case (Value_result x)
    have "\<not> all_answered d ?rs"
      using update_packet_cases [OF u] Value_result update_all_state [OF g, of ?rs] by (auto simp: all_answered_def)
    then have sh: "map_of (sd_promise_map ?sd) ?rid = Some k" and un: "map_of (rm_unfulfilled_promises ?m) ?rid = Some False" using sh un by simp_all
    then have pend: "sd_shared ?sd ! k = P_Pending" and lt: "k < length (sd_shared ?sd)" using l k by (auto simp: promised_def)
    show ?thesis
    proof (cases "all_answered d (?rs @ [p])")
      case True
      then have "update_pending_packets p ?m = (Value_result (Some (?rid, to_vector g')), ?m\<lparr>rm_staged_packet_groups := umap_put ?rid g' (rm_staged_packet_groups ?m),
          rm_unfulfilled_promises := umap_put ?rid True (rm_unfulfilled_promises ?m)\<rparr>)"
        using st u un Value_result zero' by (simp add: update_pending_packets_def Let_def)
      then show ?thesis using n k sh pend lt rs more u True
        by (simp add: after_response_def answering_def responses_to_def Let_def submit_event_def)
    next
      case False
      then have "update_pending_packets p ?m = (Value_result None, ?m\<lparr>rm_staged_packet_groups := umap_put ?rid g' (rm_staged_packet_groups ?m)\<rparr>)"
        using st u un Value_result zero' by (simp add: update_pending_packets_def Let_def)
      then show ?thesis using n k sh un rs more u False
        by (simp add: after_response_def answering_def responses_to_def Let_def)
    qed
  qed
qed

lemma on_track_response: "on_track d rid g n a \<Longrightarrow> on_track d rid g n (after_response p a)"
  using promised_response answering_other answering_own by (cases "request_id p = rid") (auto simp: on_track_def)

section \<open>Everything else\<close>

lemma on_track_frame:
  assumes "on_track d rid g n a" and "ad_pending_requests b = ad_pending_requests a" and "ad_response_futures b = ad_response_futures a"
    and "sd_promise_map (ad_event_dispatcher b) = sd_promise_map (ad_event_dispatcher a)"
    and "sd_shared (ad_event_dispatcher b) = sd_shared (ad_event_dispatcher a)" and "ad_responses b = ad_responses a"
  shows "on_track d rid g n b"
  using assms(1) unfolding on_track_def promised_def answering_def responses_to_def Let_def assms(2-6) .

lemma on_track_datagram: "preserves (on_track d rid g n) (handle_fft_result bs)"
proof -
  have "preserves (on_track d rid g n) (receive_response_packet bytes)" for bytes
    using on_track_response by (intro preservesI) (auto simp: run_receive split: sum.split)
  moreover have "preserves (on_track d rid g n) (modifyE (\<lambda>a. a\<lparr>ad_adapter := x\<rparr>))" for x
    by (rule preserves_modifyE, erule on_track_frame) simp_all
  ultimately show ?thesis unfolding handle_fft_result_def by (intro pres)
qed

lemma promised_started:
  assumes "promised a" and "construct_packets d (ad_pending_requests a) = (Value_result g, m)"
  shows "promised (started g m a)"
    and "answering d (pg_request_id g) g (length (ad_responses a)) (started g m a)"
    and "answering d' rid g' n a \<Longrightarrow> answering d' rid g' n (started g m a)"
proof -
  let ?i = "pg_request_id g" and ?sd = "ad_event_dispatcher a"
  note c = construct_packets_maps [OF assms(2), simplified]
  have new: "\<not> umap_count (ad_response_futures a) ?i" using assms(1) c by (fastforce simp: promised_def umap_count_def)
  then have new': "\<not> umap_count (sd_promise_map ?sd) ?i" using assms(1) by (fastforce simp: promised_def umap_count_def)
  have old: "umap_count (rm_staged_packet_groups m) j" if "umap_count (rm_staged_packet_groups (ad_pending_requests a)) j" for j
    using that c by (auto simp: umap_count_def)
  have "umap_count (rm_staged_packet_groups m) ?i" using c by (simp add: umap_count_def)
  have lt: "k < length (sd_shared ?sd)" if "map_of (ad_response_futures a) j = Some k" for j k
    using assms(1) that unfolding promised_def by blast
  have pr: "map_of (ad_response_futures a) j = Some k" "sd_shared ?sd ! k = P_Pending" if "map_of (sd_promise_map ?sd) j = Some k" for j k
    using assms(1) that unfolding promised_def by blast+
  have inj: "j = j'" if "map_of (ad_response_futures a) j = Some k" "map_of (ad_response_futures a) j' = Some k" for j j' k
    using assms(1) that unfolding promised_def by blast
  have st: "umap_count (rm_staged_packet_groups m) j" if "j = ?i \<or> map_of (ad_response_futures a) j = Some k" for j k
    using that old assms(1) \<open>umap_count (rm_staged_packet_groups m) ?i\<close> unfolding promised_def by blast
  show "promised (started g m a)"
    unfolding promised_def
  proof (intro conjI allI impI)
    fix j k assume "map_of (sd_promise_map (ad_event_dispatcher (started g m a))) j = Some k"
    then have j: "(j = ?i \<and> k = length (sd_shared ?sd)) \<or> (j \<noteq> ?i \<and> map_of (sd_promise_map ?sd) j = Some k)"
      using new' by (simp add: started_def Let_def split: if_splits)
    then show "map_of (ad_response_futures (started g m a)) j = Some k" "sd_shared (ad_event_dispatcher (started g m a)) ! k = P_Pending"
      using new pr [of j k] lt [of j k] by (auto simp: started_def Let_def nth_append)
  next
    fix j k assume "map_of (ad_response_futures (started g m a)) j = Some k"
    then have j: "(j = ?i \<and> k = length (sd_shared ?sd)) \<or> map_of (ad_response_futures a) j = Some k"
      by (simp add: started_def Let_def split: if_splits)
    then show "k < length (sd_shared (ad_event_dispatcher (started g m a)))" using lt [of j k] by (auto simp: started_def Let_def)
    show "umap_count (rm_staged_packet_groups (ad_pending_requests (started g m a))) j" using j st by (auto simp: started_def Let_def)
  next
    fix j j' k assume "map_of (ad_response_futures (started g m a)) j = Some k" "map_of (ad_response_futures (started g m a)) j' = Some k"
    then show "j = j'" using lt [of j k] lt [of j' k] inj [of j k j'] by (simp add: started_def Let_def split: if_splits)
  qed
  show "answering d ?i g (length (ad_responses a)) (started g m a)"
  proof -
    have "\<not> all_answered d []" by (auto simp: all_answered_def packets_of_def)
    then show ?thesis using c new new' by (simp add: answering_def started_def responses_to_def Let_def update_all_def)
  qed
  assume ans: "answering d' rid g' n a"
  then obtain k where k: "map_of (ad_response_futures a) rid = Some k" by (auto simp: answering_def Let_def)
  then have "rid \<noteq> ?i" "k < length (sd_shared ?sd)" using new assms(1) by (auto simp: umap_count_def promised_def)
  with k ans c show "answering d' rid g' n (started g m a)"
    by (auto simp: answering_def started_def responses_to_def Let_def nth_append)
qed

lemma on_track_constructed:
  assumes "on_track d rid g n a" and "construct_packets d' (ad_pending_requests a) = (q, m)"
  shows "on_track d rid g n (a\<lparr>ad_pending_requests := m\<rparr>)"
proof -
  note c = construct_packets_maps [OF assms(2)]
  have l: "promised a" using assms(1) by (simp add: on_track_def)
  have "promised (a\<lparr>ad_pending_requests := m\<rparr>)"
    using l by (rule promisedI) (use l c in \<open>auto simp: promised_def umap_count_def\<close>)
  moreover have "answering d rid g n (a\<lparr>ad_pending_requests := m\<rparr>)" if "answering d rid g n a"
    using that c by (simp add: answering_def responses_to_def Let_def)
  ultimately show ?thesis using assms(1) by (simp add: on_track_def)
qed

lemma on_track_submit:
  assumes "on_track d rid g n a" and "submit_fft_calculation junk send_ok d' a = (r, a')"
  shows "on_track d rid g n a'"
proof -
  have l: "promised a" using assms(1) by (simp add: on_track_def)
  show ?thesis
  proof (rule submit_state [OF l assms(2)])
    assume "a' = a"
    then show ?thesis using assms(1) by simp
  next
    fix q m ss assume q: "construct_packets d' (ad_pending_requests a) = (q, m)" and
      a': "case q of Error_result _ \<Rightarrow> a' = a\<lparr>ad_pending_requests := m\<rparr> \<and> (\<nexists>i. r = Inr (Value_result i))
        | Value_result g \<Rightarrow> a' = (started g m a)\<lparr>ad_sent := ss\<rparr> \<and> (\<forall>i. r = Inr (Value_result i) \<longrightarrow> i = pg_request_id g)"
    show ?thesis
    proof (cases q)
      case (Error_result e)
      then show ?thesis using a' on_track_constructed [OF assms(1) q] by simp
    next
      case (Value_result g')
      then have c: "construct_packets d' (ad_pending_requests a) = (Value_result g', m)" using q by simp
      have "on_track d rid g n (started g' m a)"
        using assms(1) promised_started(1) [OF l c] promised_started(3) [OF l c, of d rid g n] unfolding on_track_def by blast
      moreover have "a' = (started g' m a)\<lparr>ad_sent := ss\<rparr>" using a' Value_result by simp
      ultimately show ?thesis by (auto intro: on_track_frame)
    qed
  qed
qed

lemma on_track_async:
  assumes "on_track d rid g n a" and "submit_fft_calculation_async junk send_ok d' a = (r, a')"
  shows "on_track d rid g n a'"
proof -
  have sent: "on_track d rid g n (snd (send_packets junk send_ok i ps b))" if "on_track d rid g n b" for i ps b
    using send_packets_state [of junk send_ok i ps b] by (auto intro: on_track_frame [OF that])
  obtain q m where q: "construct_packets d' (ad_pending_requests a) = (q, m)" by (cases "construct_packets d' (ad_pending_requests a)")
  show ?thesis
  proof (cases "ad_adapter a = None")
    case True
    then show ?thesis using assms by (auto simp: submit_fft_calculation_async_def bindE_def returnE_def)
  next
    case False
    then have "a' = (case q of Error_result e \<Rightarrow> a\<lparr>ad_pending_requests := m\<rparr>
        | Value_result g' \<Rightarrow> snd (send_packets junk send_ok (pg_request_id g') (pg_packets g') (a\<lparr>ad_pending_requests := m\<rparr>)))"
      using assms(2) q by (cases q) (auto simp: submit_fft_calculation_async_def bindE_def returnE_def new_packets_def)
    then show ?thesis using sent [OF on_track_constructed [OF assms(1) q]] on_track_constructed [OF assms(1) q] by (simp split: Result.split)
  qed
qed

lemma on_track_wait:
  assumes "on_track d rid g n a" and "wait_on_request_completion i t a = Some (r, a')" and "i \<noteq> rid \<or> fft_packet_group_ctor d rid \<noteq> Inr g"
  shows "on_track d rid g n a'"
proof (cases "a' = a")
  case False
  let ?sd = "ad_event_dispatcher a"
  obtain k v where k: "map_of (ad_response_futures a) i = Some k" "sd_shared ?sd ! k = P_Ready v"
    and a': "a' = a\<lparr>ad_event_dispatcher := ?sd\<lparr>sd_shared := (sd_shared ?sd)[k := P_Taken]\<rparr>\<rparr>"
    using assms(2) False by (auto simp: wait_on_request_completion_def Let_def split: option.splits shared.splits Timeout.splits)
  have l: "promised a" using assms(1) by (simp add: on_track_def)
  have keep: "(sd_shared ?sd)[k := P_Taken] ! k' = sd_shared ?sd ! k'" if "k' \<noteq> k" for k' using that by simp
  have "promised a'"
  proof (rule promisedI [OF l])
    fix j k' assume "map_of (sd_promise_map (ad_event_dispatcher a')) j = Some k'"
    then have j: "map_of (sd_promise_map ?sd) j = Some k'" "sd_shared ?sd ! k' = P_Pending" using l by (auto simp: a' promised_def)
    then have "k' \<noteq> k" using k(2) by auto
    then show "map_of (sd_promise_map ?sd) j = Some k' \<and> sd_shared (ad_event_dispatcher a') ! k' = P_Pending" using j by (simp add: a')
  qed (simp_all add: a')
  moreover have "answering d rid g n a'" if c: "fft_packet_group_ctor d rid = Inr g"
  proof -
    have ans: "answering d rid g n a" and i: "i \<noteq> rid" using assms(1,3) c by (auto simp: on_track_def)
    obtain k' where k': "map_of (ad_response_futures a) rid = Some k'" using ans by (auto simp: answering_def Let_def)
    then have "k' \<noteq> k" using l k(1) i unfolding promised_def by blast
    then show ?thesis using ans k' by (simp add: a' answering_def responses_to_def Let_def)
  qed
  ultimately show ?thesis by (simp add: on_track_def)
qed (use assms(1) in simp)

lemma on_track_step:
  assumes "fa_step junk send_ok mine a a'" and "on_track d rid g n a" and "fft_packet_group_ctor d rid = Inr g \<Longrightarrow> rid \<in> mine"
  shows "on_track d rid g n a'"
  using assms(1)
proof cases
  case submit
  then show ?thesis using on_track_submit [OF assms(2)] by blast
next
  case async
  then show ?thesis using on_track_async [OF assms(2)] by blast
next
  case (wait i t r)
  then show ?thesis using on_track_wait [OF assms(2), of i t] assms(3) by metis
next
  case (datagram bs)
  then show ?thesis using preservesD [OF on_track_datagram assms(2)] by metis
next
  case dispatch
  have "sd_promise_map (run_dispatch_loop sd) = sd_promise_map sd \<and> sd_shared (run_dispatch_loop sd) = sd_shared sd" for sd :: "'a single_thread_dispatcher"
    by (auto simp: run_dispatch_loop_def split: list.split option.split prod.split sum.split)
  then show ?thesis unfolding dispatch(1) by (intro on_track_frame [OF assms(2)]) simp_all
next
  case wake
  then show ?thesis by (intro on_track_frame [OF assms(2)]) simp_all
next
  case (callback f r)
  then show ?thesis
    by (intro on_track_frame [OF assms(2)]) (auto simp: register_result_callback_def on_dispatcher_def register_callback_def split: option.splits)
next
  case (network x r)
  then show ?thesis by (intro on_track_frame [OF assms(2)]) (auto simp: set_network_adapter_def split: option.splits)
qed

lemma on_track_steps:
  "(fa_step junk send_ok mine)\<^sup>*\<^sup>* a a' \<Longrightarrow> on_track d rid g n a \<Longrightarrow> (fft_packet_group_ctor d rid = Inr g \<Longrightarrow> rid \<in> mine) \<Longrightarrow> on_track d rid g n a'"
  by (induction rule: rtranclp_induct) (auto intro: on_track_step)

section \<open>The answer\<close>

lemma promised_ctor: "promised (adapter_impl_ctor u)"
  by (simp add: promised_def adapter_impl_ctor_def single_thread_dispatcher_ctor_def)

text \<open>
  C37. A request is answered by its own responses and by nothing else. Take any history of the adapter, a
  request for the data \<open>d\<close> that gets the number \<open>rid\<close>, and whatever happens afterwards: other requests and
  waits for them, datagrams of any content and order, the dispatcher at work. Then a wait for \<open>rid\<close> gives the
  samples of the first response to each packet, in the order of the packets, if each packet was answered, and
  times out otherwise.
\<close>
theorem fft_request_answered:
  assumes "(fa_step junk send_ok {})\<^sup>*\<^sup>* (adapter_impl_ctor u) a"
    and "submit_fft_calculation junk send_ok d a = (Inr (Value_result rid), a1)"
    and "(fa_step junk send_ok {rid})\<^sup>*\<^sup>* a1 a2"
  shows "let rs = responses_to rid (length (ad_responses a1)) a2 in
    map_option fst (wait_on_request_completion rid (Milliseconds t) a2) = Some (Inr (
      if all_answered d rs then Value_result (concat (map (payload_after rs d) [0..<packets_of d]))
      else Error_result (''Timed out while waiting for request ('' @ to_string t @ ''ms)'')))"
proof -
  let ?n = "length (ad_responses a1)"
  have "on_track [] 0 g n a" for g n
    by (rule on_track_steps [OF assms(1)]) (simp_all add: on_track_def promised_ctor fft_packet_group_ctor_def)
  then have l: "promised a" unfolding on_track_def by blast
  obtain g m ss where q: "construct_packets d (ad_pending_requests a) = (Value_result g, m)"
    and a1: "a1 = (started g m a)\<lparr>ad_sent := ss\<rparr>" and rid: "rid = pg_request_id g"
    by (rule submit_state [OF l assms(2)]) (auto split: Result.splits)
  have c: "fft_packet_group_ctor d rid = Inr g" using construct_packets_maps [OF q] by (simp add: rid)
  have "length (ad_responses a) = ?n" by (simp add: a1 started_def Let_def)
  then have "on_track d rid g ?n (started g m a)"
    using promised_started(1,2) [OF l q] by (simp add: on_track_def rid)
  then have "on_track d rid g ?n a1" by (rule on_track_frame) (simp_all add: a1)
  from on_track_steps [OF assms(3) this] have "promised a2" and "answering d rid g ?n a2" using c by (auto simp: on_track_def)
  then show ?thesis using update_all_complete(2) [OF c]
    by (auto simp: answering_def promised_def Let_def wait_on_request_completion_def)
qed

text \<open>A request of 256 ones and the response to it, 256 twos.\<close>

definition demo_fa :: "unit adapter_impl" where
  "demo_fa = snd (set_network_adapter (Some (udp_adapter_ctor (\<lambda>_. 0))) (adapter_impl_ctor ()))"

definition demo_answer :: "byte list" where
  "demo_answer = [0xDA, 0, 0, 0, 1, 0] @ concat (map bytes_of_sample (replicate 256 2))"

lemma run_datagram:
  assumes "ad_adapter a = Some n" and "ua_listeners n = 1" and "length bs = packet_byte_size" and "length (ua_recv_packet n) = packet_byte_size"
    and "deserialize bs = Inr p"
  shows "\<exists>a'. handle_fft_result bs a = (Inr (), a') \<and> ad_responses a' = ad_responses a @ [p]"
proof -
  let ?b = "a\<lparr>ad_adapter := Some (n\<lparr>ua_recv_packet := bs\<rparr>)\<rparr>"
  have "ad_responses (after_response p a) = ad_responses a @ [p]" for a :: "'a adapter_impl"
    by (simp add: after_response_def Let_def split: prod.split Result.split option.split)
  then have "ad_responses (snd (receive_response_packet bs ?b)) = ad_responses a @ [p]" by (simp add: run_receive assms(5))
  moreover have "\<exists>r. fst (receive_response_packet bs ?b) = Inr r"
    by (auto simp: receive_response_packet_def catchE_def bindE_def liftE_def assms(5) returnE_def pending_update_def on_dispatcher_def
      submit_event_def split: prod.split Result.split option.split)
  ultimately show ?thesis using assms by (auto simp: handle_fft_result_def bindE_def returnE_def split: prod.split)
qed

lemma demo_fa_reachable: "(fa_step (\<lambda>_. 0) (\<lambda>_. True) {})\<^sup>*\<^sup>* (adapter_impl_ctor ()) demo_fa"
  unfolding demo_fa_def by (rule r_into_rtranclp, rule fa_step.network [where n = "Some (udp_adapter_ctor (\<lambda>_. 0))" and r = "Value_result ()"])
    (simp add: set_network_adapter_def)

lemma demo_submit:
  assumes "length d = 256"
  shows "\<exists>a1. submit_fft_calculation (\<lambda>_. 0) (\<lambda>_. True) d demo_fa = (Inr (Value_result 0), a1) \<and>
     ad_adapter a1 = ad_adapter demo_fa \<and> ad_responses a1 = []"
proof -
  have d: "d \<noteq> []" and p: "[0..<packets_of d] = [0]" using assms by (auto simp: packets_of_def max_elements_def)
  obtain g where g: "fft_packet_group_ctor d 0 = Inr g" "pg_packets g = [segment_packet d 0 0]" "pg_request_id g = 0"
    using fft_packet_group_ctor_eq [OF d, of 0] p by simp
  have "get_new_id fft_request_map_ctor = (Value_result 0, fft_request_map_ctor\<lparr>rm_id_tracker := 1\<rparr>)"
    by (simp add: get_new_id_def fft_request_map_ctor_def numeral_eq_Suc)
  then have "\<exists>m. construct_packets d fft_request_map_ctor = (Value_result g, m)"
    by (simp add: construct_packets_def fft_request_map_ctor_def g(1) Let_def)
  moreover have "length (pk_fft_data (segment_packet d 0 0)) = 256"
    using assms by (simp add: segment_packet_def data_segment_take max_elements_def)
  ultimately show ?thesis
    by (auto simp: submit_fft_calculation_def demo_fa_def set_network_adapter_def adapter_impl_ctor_def bindE_def returnE_def new_packets_def
      on_dispatcher_def request_event_def single_thread_dispatcher_ctor_def g liftE_def serialized_fft_data_def send_def max_elements_def Let_def)
qed

theorem fft_request_answered_witness:
  "\<exists>a1 a2. submit_fft_calculation (\<lambda>_. 0) (\<lambda>_. True) (replicate 256 1) demo_fa = (Inr (Value_result 0), a1) \<and>
     handle_fft_result demo_answer a1 = (Inr (), a2) \<and>
     map_option fst (wait_on_request_completion 0 (Milliseconds 500) a2) = Some (Inr (Value_result (replicate 256 2)))"
proof -
  obtain a1 where a1: "submit_fft_calculation (\<lambda>_. 0) (\<lambda>_. True) (replicate 256 1) demo_fa = (Inr (Value_result 0), a1)"
    "ad_adapter a1 = ad_adapter demo_fa" "ad_responses a1 = []" using demo_submit [of "replicate 256 1"] by auto
  let ?p = "\<lparr>pk_header_data = \<lparr>hd_packet_sequence_num = 0, hd_fft_request_id = 0, hd_control_state_register = 0,
      hd_fft_size = push_bit 8 (ucast (1 :: byte)) OR ucast (0 :: byte)\<rparr>, pk_fft_data = replicate 256 2\<rparr>"
  have "length demo_answer = packet_byte_size"
    by (simp add: demo_answer_def packet_byte_size_def max_elements_def header_byte_length_def length_samples del: map_replicate)
  moreover have "deserialize demo_answer = Inr ?p" unfolding demo_answer_def by (rule deserialize_full) simp
  ultimately obtain a2 where a2: "handle_fft_result demo_answer a1 = (Inr (), a2)" "ad_responses a2 = [?p]"
    using run_datagram [of a1 _ demo_answer ?p] a1(2,3) by (auto simp: demo_fa_def set_network_adapter_def udp_adapter_ctor_def adapter_impl_ctor_def)
  have later: "(fa_step (\<lambda>_. 0) (\<lambda>_. True) {0})\<^sup>*\<^sup>* a1 a2" using fa_step.datagram [OF a2(1)] by blast
  have p: "[0..<packets_of (replicate 256 (1 :: sample))] = [0]" by (simp add: packets_of_def max_elements_def)
  have "responses_to 0 (length (ad_responses a1)) a2 = [?p]" by (simp add: responses_to_def a1(3) a2(2) request_id_def)
  moreover have "all_answered (replicate 256 1) [?p]"
    by (auto simp: all_answered_def packets_of_def max_elements_def number_of_def sequence_number_def)
  moreover have "payload_after [?p] (replicate 256 1) 0 = replicate 256 2"
    by (simp add: payload_after_def number_of_def sequence_number_def)
  ultimately have "map_option fst (wait_on_request_completion 0 (Milliseconds 500) a2) = Some (Inr (Value_result (replicate 256 2)))"
    using fft_request_answered [OF demo_fa_reachable a1(1) later, of 500] p by (simp add: Let_def)
  then show ?thesis using a1(1) a2(1) by blast
qed

section \<open>Sizes\<close>

lemma power_of_two_nat: "0 < n \<Longrightarrow> (n AND (n - 1) = 0) = (\<exists>k. n = 2 ^ k)" for n :: nat
proof (induction n rule: less_induct)
  case (less n)
  show ?case
  proof (cases "even n")
    case True
    then obtain m where m: "n = 2 * m" by blast
    then have "0 < m" "m < n" using less.prems by auto
    have "n AND (n - 1) = 2 * (m AND (m - 1))"
      using \<open>0 < m\<close> by (cases m) (simp_all add: m and_rec [of "Suc (Suc (2 * j))" for j])
    moreover have "(\<exists>k. n = 2 ^ k) = (\<exists>k. m = 2 ^ k)"
    proof
      assume "\<exists>k. n = 2 ^ k"
      then obtain k where k: "n = 2 ^ k" by blast
      then have "k \<noteq> 0" using True by (metis odd_one power_0)
      then show "\<exists>k. m = 2 ^ k" using k m by (cases k) auto
    qed (auto simp: m power_Suc [symmetric] simp del: power_Suc)
    ultimately show ?thesis using less.IH [OF \<open>m < n\<close> \<open>0 < m\<close>] by simp
  next
    case False
    then obtain m where m: "n = 2 * m + 1" by (elim oddE)
    have "n AND (n - 1) = 2 * m" by (simp add: m and_rec [of "Suc (2 * m)"])
    moreover have "(\<exists>k. n = 2 ^ k) = (n = 1)"
    proof
      assume "\<exists>k. n = 2 ^ k"
      then obtain k where "n = 2 ^ k" by blast
      then show "n = 1" using False by (cases k) auto
    qed (auto intro: exI [of _ 0])
    ultimately show ?thesis by (simp add: m)
  qed
qed

lemma is_power_of_two_nat:
  assumes "0 < n" and "n < 2 ^ 64"
  shows "is_power_of_two (word_of_nat n) = (\<exists>k. n = 2 ^ k)"
proof -
  let ?v = "word_of_nat n :: 64 word"
  have u: "unat ?v = n" using assms(2) by (simp add: unat_of_nat take_bit_nat_eq_self)
  then have "?v \<noteq> 0" using assms(1) by auto
  then have "unat (?v - 1) = n - 1" using u by (simp add: unat_minus_one)
  then have "(?v AND (?v - 1) = 0) = (n AND (n - 1) = 0)" using u by (simp add: unat_eq_0 [symmetric] unsigned_and_eq)
  then show ?thesis using power_of_two_nat [OF assms(1)] by (simp add: is_power_of_two_def)
qed

lemma serialized_segment:
  assumes "0 < length d" and "i < packets_of d"
  shows "(\<exists>bs. serialized_fft_data junk (segment_packet d rid i) = Inr bs) = ((i + 1) * 256 \<le> length d)"
proof -
  have "length (data_segment d i) = min 256 (length d - i * 256)" by (simp add: data_segment_take max_elements_def)
  then show ?thesis by (auto simp: serialized_fft_data_def segment_packet_def max_elements_def)
qed

lemma send_packets_defined:
  assumes "\<And>p. p \<in> set ps \<Longrightarrow> \<exists>bs. serialized_fft_data junk p = Inr bs"
  shows "\<exists>r a'. send_packets junk send_ok rid ps a = (Inr r, a')"
  using assms
proof (induction ps arbitrary: a)
  case (Cons p ps)
  then obtain bs where "serialized_fft_data junk p = Inr bs" by auto
  then show ?case using Cons.IH [of "a\<lparr>ad_sent := ad_sent a @ [bs]\<rparr>"] Cons.prems
    by (auto simp: bindE_def liftE_def send_def returnE_def)
qed (simp add: returnE_def)

text \<open>
  C38. What the worker sends. An input whose length is not a power of two is refused, and nothing is sent. One of
  at least 256 samples is cut into full packets, so that submitting it is defined. One of 1, 2, 4 and so on up to 128
  samples passes the check of the worker, and sending it reads past the end of its only packet.
\<close>
theorem calculate_fft_sizes:
  assumes "(fa_step junk send_ok {})\<^sup>*\<^sup>* (adapter_impl_ctor u) (fw_runtime_adapter w)" and "length d < 2 ^ 64"
    and "ad_adapter (fw_runtime_adapter w) \<noteq> None" and "\<not> is_error (fst (construct_packets d (ad_pending_requests (fw_runtime_adapter w))))"
  shows "if \<not> (\<exists>k. length d = 2 ^ k) then \<exists>w'. calculate_fft junk send_ok meanwhile d w = (Inr [], w') \<and> fw_runtime_adapter w' = fw_runtime_adapter w
    else if 256 \<le> length d then \<exists>r a'. submit_fft_calculation junk send_ok d (fw_runtime_adapter w) = (Inr r, a')
    else \<exists>t w'. calculate_fft junk send_ok meanwhile d w = (Inl (Undefined t), w')"
proof (cases "\<exists>k. length d = 2 ^ k")
  case False
  then show ?thesis using is_power_of_two_nat [of "length d"] assms(2)
    by (auto simp: calculate_fft_def bindE_def new_work_id_def log_event_def returnE_def)
next
  case True
  let ?a = "fw_runtime_adapter w"
  have d: "0 < length d" "d \<noteq> []" using True by auto
  have pow: "is_power_of_two (word_of_nat (length d))" using is_power_of_two_nat [OF d(1) assms(2)] True by simp
  have "on_track [] 0 g n ?a" for g n
    by (rule on_track_steps [OF assms(1)]) (simp_all add: on_track_def promised_ctor fft_packet_group_ctor_def)
  then have l: "promised ?a" unfolding on_track_def by blast
  obtain g m where q: "construct_packets d (ad_pending_requests ?a) = (Value_result g, m)"
    using assms(4) by (cases "construct_packets d (ad_pending_requests ?a)") (auto elim: is_error.elims(3))
  have g: "pg_packets g = map (segment_packet d (pg_request_id g)) [0..<packets_of d]"
  proof -
    have "fft_packet_group_ctor d (pg_request_id g) = Inr g" using construct_packets_maps [OF q] by simp
    from arg_cong [OF this, of "\<lambda>x. pg_packets (projr x)"] show ?thesis by (simp add: fft_packet_group_ctor_eq [OF d(2)])
  qed
  have run: "submit_fft_calculation junk send_ok d ?a = send_packets junk send_ok (pg_request_id g) (pg_packets g) (started g m ?a)"
    using run_submit [OF l q assms(3)] .
  show ?thesis
  proof (cases "256 \<le> length d")
    case big: True
    obtain k where k: "length d = 2 ^ k" using True by blast
    have "8 \<le> k"
    proof (rule ccontr)
      assume "\<not> 8 \<le> k"
      then have "(2 :: nat) ^ k < 2 ^ 8" by (intro power_strict_increasing) simp_all
      then show False using big k by simp
    qed
    then have "length d = 2 ^ (8 + (k - 8))" using k by simp
    then have "length d = 256 * 2 ^ (k - 8)" by (simp add: power_add)
    then obtain j where j: "length d = 256 * j" "0 < j" by simp
    then have "packets_of d = j" by (cases j) (simp_all add: packets_of_def max_elements_def)
    then have "\<exists>bs. serialized_fft_data junk (segment_packet d rid i) = Inr bs" if "i < packets_of d" for rid i
      using serialized_segment [OF d(1) that] that j by simp
    then have "\<exists>r a'. send_packets junk send_ok (pg_request_id g) (pg_packets g) (started g m ?a) = (Inr r, a')"
      by (intro send_packets_defined) (auto simp: g)
    then show ?thesis using True big run by simp
  next
    case False
    then have "packets_of d = 1" using d by (simp add: packets_of_def max_elements_def)
    moreover have "\<exists>t. serialized_fft_data junk (segment_packet d (pg_request_id g) 0) = Inl (Undefined t)"
      using False by (auto simp: serialized_fft_data_def segment_packet_def max_elements_def data_segment_take)
    ultimately have "\<exists>t a'. submit_fft_calculation junk send_ok d ?a = (Inl (Undefined t), a')"
      by (auto simp: run g bindE_def liftE_def)
    then show ?thesis using True False pow d
      by (auto simp: calculate_fft_def bindE_def new_work_id_def log_event_def on_adapter_def)
  qed
qed

theorem calculate_fft_sizes_witness:
  "\<exists>t w'. calculate_fft (\<lambda>_. 0) (\<lambda>_. True) (\<lambda>a. a) [7, 8] ((FFTAccelWorker_ctor ())\<lparr>fw_runtime_adapter := demo_fa\<rparr>) = (Inl (Undefined t), w')"
proof -
  let ?w = "(FFTAccelWorker_ctor ())\<lparr>fw_runtime_adapter := demo_fa\<rparr>"
  have "numbers_used 0 fft_request_map_ctor" by (simp add: numbers_used_def fft_request_map_ctor_def)
  from numbers_used_next [OF this, of "[7, 8]"] have "\<not> is_error (fst (construct_packets [7, 8] (ad_pending_requests (fw_runtime_adapter ?w))))"
    by (simp add: demo_fa_def set_network_adapter_def adapter_impl_ctor_def)
  moreover have "ad_adapter (fw_runtime_adapter ?w) \<noteq> None" by (simp add: demo_fa_def set_network_adapter_def)
  moreover have "\<exists>k. length [7, 8 :: sample] = 2 ^ k" by (rule exI [of _ 1]) simp
  ultimately show ?thesis
    using calculate_fft_sizes [of "\<lambda>_. 0" "\<lambda>_. True" "()" ?w "[7, 8]" "\<lambda>a. a"] demo_fa_reachable by simp
qed

end
