(* ===== verification/Spec2Isabelle.thy ===== *)
theory Spec2Isabelle
  imports EMSafety EMBehaviour RTPortLife RTRequestReply NMHeartbeat NMDeployment MDLinks MDTree
    GPSources GPMatching GPWiring MQReceiver FXAnswer
begin

text \<open>
  SEM (\<^verbatim>\<open>src/re\<close>) runs distributed experiments: an environment manager keeps the experiments,
  hands out TCP ports on the machines they run on, and talks over ZeroMQ to the node managers that
  execute them and to the Logan servers that log them. A node manager runs the components of an
  experiment; one of them is the master, which waits for the others, starts and stops the run. This
  development models the translator that makes an experiment out of a model, the environment manager,
  the request/reply layer below it, the runtime core of a component, the slaves and the master, and
  proves what their clients rely on.

  \<^bold>\<open>The parts and the theories\<close> (sources under \<^verbatim>\<open>src/re/src/environmentmanager\<close> unless said
  otherwise; a definition has the name of the C++ function, with the class in front of it):

  \<^item> \<^verbatim>\<open>Prelude_SEM\<close>: exceptions as a datatype, computations that read and change a state and may
    throw (\<open>em\<close>), the associative containers of the standard library as association lists without
    repeated keys, \<open>std::to_string\<close> and \<open>std::stoi\<close>; rules for invariants of computations.
  \<^item> \<^verbatim>\<open>UniqueQueue\<close> (\<^verbatim>\<open>uniquequeue.hpp\<close>), \<^verbatim>\<open>PortTracker\<close> (\<^verbatim>\<open>porttracker.h\<close>): the free ports of one
    machine. The queue refines a FIFO list; the tracker implements the contract \<open>port_pool\<close>.
  \<^item> \<^verbatim>\<open>ControlMessage\<close> (\<^verbatim>\<open>re_common/proto/controlmessage\<close>): the protobuf messages as records and the
    attribute helpers.
  \<^item> \<^verbatim>\<open>EMAttribute\<close>, \<^verbatim>\<open>EMState\<close>, \<^verbatim>\<open>EMLookup\<close>, \<^verbatim>\<open>EMResources\<close>, \<^verbatim>\<open>EMPort\<close>, \<^verbatim>\<open>EMComponent\<close>, \<^verbatim>\<open>EMLogger\<close>,
    \<^verbatim>\<open>EMContainer\<close>, \<^verbatim>\<open>EMNode\<close>, \<^verbatim>\<open>EMExperiment\<close>, \<^verbatim>\<open>EMEnvironment\<close>: the tree environment, experiment,
    node, container, component, port with every operation of the classes of those names. Objects are
    kept by value in the maps of their owners; a reference that an object keeps to its owner is the
    path of keys from the root, and following it after the owner is gone is \<open>Undefined\<close>.
  \<^item> \<^verbatim>\<open>ProtoRPC\<close> (\<^verbatim>\<open>re_common/zmq\<close>): registration of callbacks, the serving loop with its retry
    timeouts, the reply protocol.
  \<^item> \<^verbatim>\<open>EMDeployment\<close> (\<^verbatim>\<open>deploymenthandler.cpp\<close>, \<^verbatim>\<open>deploymentregister.cpp\<close>, \<^verbatim>\<open>environmentmanager.cpp\<close>):
    the ten services, the handlers, and the system as the step relation \<open>sys_step\<close>.
  \<^item> \<^verbatim>\<open>EMAlloc\<close>, \<^verbatim>\<open>EMAllocTree\<close>, \<^verbatim>\<open>EMAllocEnv\<close>, \<^verbatim>\<open>EMSafety\<close>: who holds which port; every operation
    keeps the accounts. \<^verbatim>\<open>EMSystem\<close> lifts facts about the environment operations to the whole system:
    the locale \<open>env_frame\<close> for what the other callbacks leave alone, \<open>env_step\<close> for what a step makes of the
    environment, \<open>env_invariant\<close> (interpreted for the ports) for what every operation keeps, which is an
    \<open>env_step\<close> too.
  \<^item> \<^verbatim>\<open>EMLifecycle\<close>: the events of the abstract life cycle of experiments, and the interpretations of
    \<open>env_frame\<close> and \<open>env_step\<close> that make each step of the system at most one event; \<^verbatim>\<open>EMBehaviour\<close>: what
    the operations do for a client; \<^verbatim>\<open>EMExamples\<close>: a sample experiment, evaluated by the simplifier.

  \<^bold>\<open>The runtime\<close> (\<^verbatim>\<open>src/re/src/core\<close>, \<^verbatim>\<open>src/re/src/nodemanager\<close>):

  \<^item> \<^verbatim>\<open>RTStateMachine\<close> (\<^verbatim>\<open>statemachine.cpp\<close>, \<^verbatim>\<open>activatable.cpp\<close>): the life cycle of components, ports and
    workers; a handler that throws leaves the state as it was.
  \<^item> \<^verbatim>\<open>RTAttribute\<close> (\<^verbatim>\<open>attribute.cpp\<close>, \<^verbatim>\<open>translate.cpp\<close>): attributes of running objects.
  \<^item> \<^verbatim>\<open>RTComponent\<close> (\<^verbatim>\<open>component.cpp\<close>, \<^verbatim>\<open>behaviourcontainer.cpp\<close>, \<^verbatim>\<open>worker.cpp\<close>): components with their
    ports, workers and callbacks. What a port or worker does in a transition is a parameter.
  \<^item> \<^verbatim>\<open>RTPort\<close> (\<^verbatim>\<open>threadmanager.cpp\<close>, \<^verbatim>\<open>ports/port.cpp\<close>, \<^verbatim>\<open>ports/pubsub/subscriberport.hpp\<close>): the message
    queue of a subscriber port; the senders and the thread of the port interleave in the step
    relation \<open>port_step\<close>, cut at the points where the code takes or gives back its mutex.
  \<^item> \<^verbatim>\<open>RTPortLife\<close> (\<^verbatim>\<open>subscriberport.hpp\<close>, \<^verbatim>\<open>ports/periodicport.cpp\<close>): the threads of subscriber and
    periodic ports over several configurations; \<^verbatim>\<open>RTRequestReply\<close> (\<^verbatim>\<open>ports/requestreply\<close>): replier and
    requester ports and how they count messages.
  \<^item> \<^verbatim>\<open>NMExecution\<close> (\<^verbatim>\<open>executionmanager.cpp\<close>, \<^verbatim>\<open>re_common/util/execution.hpp\<close>): the master of an
    experiment as the step relation \<open>xm_step\<close>.
  \<^item> \<^verbatim>\<open>NMContainer\<close> (\<^verbatim>\<open>deploymentcontainer.cpp\<close>, \<^verbatim>\<open>dllloader.cpp\<close>, \<^verbatim>\<open>loganclient.cpp\<close>): the components of
    a slave, built from messages; what the dynamic linker, ports and workers do is the parameter \<open>NodeEnv\<close>.
  \<^item> \<^verbatim>\<open>NMDeployment\<close> (\<^verbatim>\<open>deploymentmanager.cpp\<close>): the slave as the step relation \<open>slave_run\<close>, and its
    exchange with the master; \<^verbatim>\<open>NMHeartbeat\<close> (\<^verbatim>\<open>heartbeater.cpp\<close>, \<^verbatim>\<open>slaveheartbeater.cpp\<close>): the heartbeats.

  \<^bold>\<open>From a model to an experiment\<close> (\<^verbatim>\<open>src/re/re_common/util/graphmlparser\<close>): models are GraphML
  documents; the translator makes the protobuf message that the environment manager is given.

  \<^item> \<^verbatim>\<open>GPGraphml\<close> (\<^verbatim>\<open>graphmlparser.cpp\<close>): queries over the document with their caches. The XPath
    engine is the parameter \<open>Pugi\<close>. The caches change no answer, so the translator may be seen over
    the record of functions \<open>Graphml\<close> (\<^verbatim>\<open>graphmlparserint.h\<close>), as long as no query throws
    (\<open>interface_answers\<close>).
  \<^item> \<^verbatim>\<open>GPModel\<close> (\<^verbatim>\<open>assembly.cpp\<close>, first half of \<^verbatim>\<open>protobufmodelparser.cpp\<close>): assemblies and their copies,
    terminal sources of edges, preprocessing; \<^verbatim>\<open>GPParse\<close> (second half): hardware, external ports,
    loggers, components, connections. \<^verbatim>\<open>GPDemo\<close>: a sample model.
  \<^item> \<^verbatim>\<open>GPSources\<close>: following edges always ends, and with which nodes; \<^verbatim>\<open>GPTypes\<close>: the message is well
    typed, and the environment manager gives back what the translator wrote; \<^verbatim>\<open>GPReplica\<close>: which
    replicas are made and that their ids differ; \<^verbatim>\<open>GPMatching\<close>: which replicas are joined;
    \<^verbatim>\<open>GPWiring\<close>: connections are symmetric and name ports of the message.
  \<^item> \<open>limit\<close> bounds the nesting of assemblies and the way up the document; a well-formed document needs no
    more than its height, and a lack shows as \<open>Undefined\<close>. Theorems that need enough of it say so.

  \<^bold>\<open>The model editor MEDEA\<close> (\<^verbatim>\<open>src/medea/src/modelcontroller\<close>): a model is a graph of nodes and
  edges (entities) that carry data. Entities, data and the like are objects on the heap that point to
  each other; the model names them by numbers and keeps them in the maps of the record \<open>MModel\<close>.

  \<^item> \<^verbatim>\<open>MDModel\<close> (\<^verbatim>\<open>nodekinds.h\<close>, \<^verbatim>\<open>edgekinds.h\<close>, \<^verbatim>\<open>Entities/entity.cpp\<close>): kinds, entities and their
    lookups, the order of siblings. Signals are appended to a log. What Qt does with values (variants,
    regular expressions, hashes) is the parameter \<open>Qt\<close>.
  \<^item> \<^verbatim>\<open>MDData\<close> (\<^verbatim>\<open>Entities/data.cpp\<close>, \<^verbatim>\<open>Entities/key.cpp\<close>, \<^verbatim>\<open>Entities/Keys\<close>): setting a value calls the
    validation of its key, which may set other values, and passes it on along links. These calls are
    recursive through the whole model, so they take the size of the stack and throw \<open>stack_overflow\<close>
    when it is used up. The slots of the signal \<open>dataChanged\<close> that compute a label (\<open>updateLabel\<close> of eight node
    classes) are part of it; a run that comes to one of the others (\<open>SL_Other\<close>) ends in \<open>unmodelled_slot\<close>.
    \<^verbatim>\<open>MDLinks\<close>: when the recursion ends and when not, and what it does.
  \<^item> \<^verbatim>\<open>MDFactory\<close> (\<^verbatim>\<open>entityfactory.cpp\<close>, \<^verbatim>\<open>Entities/graphml.cpp\<close>): ids, temporary ids and registration.
  \<^item> \<^verbatim>\<open>MDTree\<close> (\<^verbatim>\<open>Entities/node.cpp\<close>): the tree of nodes and the positions in it; the virtual functions
    that a class of nodes may override are the parameter \<open>NodeClass\<close>.

  \<^bold>\<open>Messages and samples on the wire\<close>:

  \<^item> \<^verbatim>\<open>MQWriter\<close> (\<^verbatim>\<open>re_common/zmq/protowriter\<close>): the writers that publish messages. The caching writer, which
    loggers use, collects messages in a queue and a thread moves them to a file; at the end all are sent. The
    program and the thread interleave in the step relation \<open>cw_step\<close>. \<^verbatim>\<open>MQCache\<close>: what the file holds, that
    nothing is lost, that the end comes.
  \<^item> \<^verbatim>\<open>MQReceiver\<close> (\<^verbatim>\<open>re_common/zmq/protoreceiver\<close>): the two threads of a receiver as the step relation
    \<open>pv_step\<close>, and a writer and a receiver together with a network that may lose frames as \<open>channel_step\<close>.
  \<^item> \<^verbatim>\<open>FXPacket\<close> (\<^verbatim>\<open>re/src/workers/fft_accel/data\<close>): packets of the FFT accelerator as bytes; \<^verbatim>\<open>FXRequest\<close>
    (\<^verbatim>\<open>fft_packet_group.hpp\<close>, \<^verbatim>\<open>runtime/fft_request_map.hpp\<close>): splitting a request into packets, putting the
    responses together, and the numbers of requests.
  \<^item> \<^verbatim>\<open>FXAddress\<close> (\<^verbatim>\<open>re/src/types/ipv4.cpp\<close>, \<^verbatim>\<open>socketaddress.cpp\<close>): addresses and their text. \<^verbatim>\<open>FXAdapter\<close>
    (\<^verbatim>\<open>runtime/adapter_impl.cpp\<close>, \<^verbatim>\<open>single_thread_dispatcher.hpp\<close>, \<^verbatim>\<open>sem_fft_accel_worker.cpp\<close>): the worker, with
    its threads in the step relation \<open>fa_step\<close>; \<^verbatim>\<open>FXAnswer\<close>: the answer to a request, and what the worker sends.

  \<^bold>\<open>Parameters.\<close> Code outside the repository is an argument of the definitions that use it: \<open>re\<close>
  compiles a regular expression, \<open>bind_ok\<close> says which addresses can be bound, \<open>parse\<close> and \<open>ser\<close> are
  protobuf's parser and serialiser (the one law used, that a message parses back from its bytes, is
  a hypothesis of \<open>rpc_transparent\<close> and \<open>log_channel_end_to_end\<close>), \<open>enc\<close> and \<open>dec\<close> its variable
  length integers (laws in \<open>varint_laws\<close>), \<open>send_ok\<close> says which messages ZeroMQ or the socket takes, \<open>junk\<close>
  is what memory holds before it is written, \<open>env_clock\<close> is the time and \<open>env_indet\<close> the value of members
  that constructors leave uninitialised.

  \<^bold>\<open>Steps.\<close> Each public method of the environment holds its mutex for its whole body and is one
  atomic computation; a callback is a step of \<open>sys_step\<close>. A callback that throws keeps the changes it
  made. Behaviour that C++ leaves undefined is the exception \<open>Undefined\<close>, which nothing catches;
  steps that run into it are not steps of the system. The serving loop is a total function of the
  events it receives, so no fuel is needed.

  \<^bold>\<open>Not modelled.\<close> \<open>~Environment\<close> and the end of the environment manager; the reading of command lines;
  threads, sockets and futures inside the ZeroMQ layer; logging output; the unloading of
  shared libraries; the socket of the FFT accelerator's UDP adapter, and the runs in which two of its threads
  are at the same data without a mutex; exceptions of the XPath engine during a translation; the slots of
  \<open>dataChanged\<close> that attach data to ports and containers or change the edges of a setter. The middleware bindings, Logan
  and the numeric workers are not modelled: they are bindings to third-party libraries, SQL text and floating
  point kernels; nor is the user interface of MEDEA.
\<close>

section \<open>Ports\<close>

text \<open>
  C1. No TCP port is recorded twice. In every state that the environment manager reaches from its
  construction, through any sequence of requests, heartbeats, timeouts and clean-ups that C++
  gives a meaning to, every port of every node and every manager port is recorded by at most one
  object of the environment (a ZeroMQ port, a container's ORB, a logger, an experiment's master or
  manager port, the update publisher), and by none while it is free in its pool. The addresses that
  deployment handlers have bound are not recorded in the environment and not part of the claim.
\<close>
theorem sys_ports_exclusive:
  assumes "DeploymentRegister_ctor re bind_ok ip rport qpid tao lo hi indet now = Inr (reg0, rp)"
    and "int_range lo" and "sys_reachable re reg0 reg"
  shows "count (held (reg_environment reg)) r \<le> (if is_free (reg_environment reg) r then 0 else 1)"
proof -
  have "alloc_um {} {#} (reg_environment reg0)"
    using Environment_ctor_ok [OF DeploymentRegister_ctor_env(1) [OF assms(1)] assms(2)] .
  from ports.reachable_keeps [OF assms(3) this] have "exclusive (held (reg_environment reg)) (reg_environment reg)"
    by (simp add: alloc_um_empty alloc_ok_def)
  then show ?thesis unfolding exclusive_def by blast
qed

theorem sys_ports_exclusive_witness:
  "count (held demo_env1) (NodePort ''10.0.0.1'' (to_string 30000)) \<le>
     (if is_free demo_env1 (NodePort ''10.0.0.1'' (to_string 30000)) then 0 else 1)"
proof -
  obtain rp where c: "DeploymentRegister_ctor demo_re (\<lambda>_. True) ''10.0.0.9'' ''20000'' '''' '''' 30000 30005 (\<lambda>_. False) 0 =
     Inr (demo_register demo_env, rp)" using demo_register by blast
  have "int_range 30000" by (simp add: int_range_def int_min_def int_max_def)
  from sys_ports_exclusive [OF c this demo_reachable] show ?thesis
    unfolding demo_register_def DeploymentRegister.select_convs .
qed

section \<open>The life of an experiment\<close>

text \<open>
  C2. The system implements the life-cycle contract, event by event. Seen as a map from experiment
  names to (state, shutdown requested), every step of the environment manager, a callback that
  throws included, changes nothing or is exactly one event: one new name appears as CONFIGURED; one
  CONFIGURED experiment becomes ACTIVE, and then a handler of that experiment exists; the
  experiments of a set are shut down, those that are ACTIVE by setting their flag and the others by
  removal, and the set is the one name of a request or matched by its pattern; one
  experiment is removed, and then a handler of its master exists. No other transition happens,
  whatever the requests.
\<close>
theorem sys_refines_lifecycle:
  assumes "sys_step re reg reg'"
  shows "abs_env (reg_environment reg') = abs_env (reg_environment reg) \<or>
    (\<exists>ev. life_step ev (abs_env (reg_environment reg)) (abs_env (reg_environment reg')) \<and>
       permitted re (served_by reg) ev)"
  using system_moves [OF assms] by (simp add: moves_def)

theorem sys_refines_lifecycle_witness:
  "\<exists>ev. life_step ev (abs_env demo_env) (abs_env demo_env1) \<and> abs_env demo_env1 \<noteq> abs_env demo_env"
proof -
  have "abs_env demo_env ''x'' = None" by (simp add: abs_env_def lives_def demo_env_def)
  moreover have "abs_env demo_env1 ''x'' \<noteq> None"
    using demo_env1_ports by (cases "env_experiment_map demo_env1") (auto simp: abs_env_def lives_def)
  ultimately have "abs_env demo_env1 \<noteq> abs_env demo_env" by metis
  then show ?thesis using sys_refines_lifecycle [OF demo_step] by (auto simp: demo_register_def)
qed

text \<open>
  C3. Nobody ever sees a half-built experiment: in every reachable state every experiment of the
  map is CONFIGURED or ACTIVE, and only ACTIVE ones have a shutdown pending.
\<close>
theorem sys_experiments_configured:
  assumes "DeploymentRegister_ctor re bind_ok ip rport qpid tao lo hi indet now = Inr (reg0, rp)"
    and "sys_reachable re reg0 reg"
    and "map_of (env_experiment_map (reg_environment reg)) x = Some ex"
  shows "ex_state ex \<noteq> Registered \<and> (ex_shutdown ex \<longrightarrow> ex_state ex = ACTIVE)"
proof -
  have "abs_env (reg_environment reg0) = Map.empty"
    by (rule abs_env_ctor [OF DeploymentRegister_ctor_env(1) [OF assms(1)]])
  then have "life_inv (abs_env (reg_environment reg))"
    by (intro life_inv_reachable [OF assms(2)]) (simp add: life_inv_def)
  then show ?thesis using abs_env_Some [OF assms(3)] by (auto simp: life_inv_def)
qed

theorem sys_experiments_configured_witness:
  "\<exists>ex. map_of (env_experiment_map demo_env1) ''x'' = Some ex \<and>
     ex_state ex \<noteq> Registered \<and> (ex_shutdown ex \<longrightarrow> ex_state ex = ACTIVE)"
proof -
  obtain rp where c: "DeploymentRegister_ctor demo_re (\<lambda>_. True) ''10.0.0.9'' ''20000'' '''' '''' 30000 30005 (\<lambda>_. False) 0 =
     Inr (demo_register demo_env, rp)" using demo_register by blast
  obtain ex where "map_of (env_experiment_map demo_env1) ''x'' = Some ex"
    using demo_env1_ports by (cases "env_experiment_map demo_env1") auto
  with sys_experiments_configured [OF c demo_reachable, of "''x''" ex] show ?thesis by (simp add: demo_register_def)
qed

end
